(* ===== verification/Prelude.thy ===== *)
theory Prelude
  imports Main "HOL-Library.Word" "HOL-Library.Signed_Division"
begin

text \<open>
  The vocabulary the components share.

  \<^item> The machine integers of the C++ sources as words: \<open>u8\<close> is \<open>uint8_t\<close>, and so on. A
    signed C++ integer has the same word type and is read with \<open>sint\<close>.
  \<^item> What the code cannot recover from, \<open>fault\<close>, and the result type \<open>'a result\<close> of an
    operation that may end in one: a failed \<open>CHECK\<close>, a call of \<open>abort\<close>, an access to memory
    that was freed, an index past an array; and \<open>OutOfFuel\<close>, which only a loop over a list of objects
    can return that is modelled with a bound.
  \<^item> The two conversions of \<open>Decoder\<close> that everything else rests on in terms of bits, the
    little-endian byte view of words, and the contract of an \<open>enum class\<close> with a fixed
    underlying type.
\<close>

unbundle bit_operations_syntax

named_theorems word_fields
  \<open>how the bit fields of words are read\<close>

named_theorems fault_simps
  \<open>equations of the fault propagation\<close>

type_synonym u8 = "8 word"
type_synonym u16 = "16 word"
type_synonym u32 = "32 word"
type_synonym u64 = "64 word"

section \<open>Faults\<close>

datatype fault =
    CheckFailed
  | Aborted
  | UseAfterFree
  | OutOfBounds
  | NullPointer
  | WriteProtected
  | OutOfFuel

type_synonym 'a result = "fault + 'a"

definition bnd :: "'a result \<Rightarrow> ('a \<Rightarrow> 'b result) \<Rightarrow> 'b result" where
  "bnd m f = (case m of Inl e \<Rightarrow> Inl e | Inr x \<Rightarrow> f x)"

lemma bnd_Inl [simp, fault_simps]: "bnd (Inl e) f = Inl e"
  by (simp add: bnd_def)

lemma bnd_Inr [simp, fault_simps]: "bnd (Inr x) f = f x"
  by (simp add: bnd_def)

lemma bnd_eq_Inr_iff [fault_simps]: "bnd m f = Inr y \<longleftrightarrow> (\<exists>x. m = Inr x \<and> f x = Inr y)"
  by (cases m) simp_all

lemma bnd_assoc: "bnd (bnd m f) g = bnd m (\<lambda>x. bnd (f x) g)"
  by (cases m) simp_all

lemma bnd_cong [fundef_cong]:
  "m = m' \<Longrightarrow> (\<And>x. m' = Inr x \<Longrightarrow> f x = g x) \<Longrightarrow> bnd m f = bnd m' g"
  by (cases m') simp_all

text \<open>\<open>CHECK(cond)\<close>: the process ends when the condition is false.\<close>

definition CHECK :: "bool \<Rightarrow> unit result" where
  "CHECK c = (if c then Inr () else Inl CheckFailed)"

lemma CHECK_simps [simp, fault_simps]:
  "CHECK True = Inr ()"
  "CHECK False = Inl CheckFailed"
  by (simp_all add: CHECK_def)

lemma CHECK_eq_Inr [simp]: "CHECK c = Inr u \<longleftrightarrow> c"
  by (simp add: CHECK_def)

section \<open>Enumerations with a fixed underlying type\<close>

text \<open>
  The values of an \<open>enum class X : uintN_t\<close> are the values of the underlying type, and a cast in
  either direction keeps the value; \<open>of_value\<close> is the cast to the enumeration, \<open>value\<close> the cast
  back, and \<open>named\<close> the enumerators in the order of the source.
\<close>

locale enum_class =
  fixes of_value :: "'w \<Rightarrow> 'e"
    and value_of :: "'e \<Rightarrow> 'w"
    and named :: "'e list"
  assumes value_of_value: "value_of (of_value w) = w"
    and of_value_named: "e \<in> set named \<Longrightarrow> of_value (value_of e) = e"
begin

lemma of_value_inject: "of_value v = of_value w \<longleftrightarrow> v = w"
  by (metis value_of_value)

lemma of_value_eq_named: "e \<in> set named \<Longrightarrow> of_value w = e \<longleftrightarrow> w = value_of e"
  by (metis of_value_named value_of_value)

lemma named_values_distinct: "distinct named \<Longrightarrow> distinct (map value_of named)"
  by (metis distinct_map inj_on_def of_value_named)

end

text \<open>
  Every enumeration of the model casts by searching its enumerators, which are declared once, in the
  order of the source; a value that no enumerator has becomes the catch-all constructor.
\<close>

definition enum_cast :: "('e \<Rightarrow> 'w) \<Rightarrow> 'e list \<Rightarrow> ('w \<Rightarrow> 'e) \<Rightarrow> 'w \<Rightarrow> 'e" where
  "enum_cast val_of named other w =
     (case find (\<lambda>e. val_of e = w) named of Some e \<Rightarrow> e | None \<Rightarrow> other w)"

lemma enum_cast_value:
  assumes "\<And>w. val_of (other w) = w"
  shows "val_of (enum_cast val_of named other w) = w"
  using assms by (auto simp: enum_cast_def find_Some_iff split: option.split)

lemma enum_cast_named:
  assumes "distinct (map val_of named)" and "e \<in> set named"
  shows "enum_cast val_of named other (val_of e) = e"
proof -
  obtain e' where e': "find (\<lambda>e'. val_of e' = val_of e) named = Some e'"
    using assms(2) by (cases "find (\<lambda>e'. val_of e' = val_of e) named") (auto simp: find_None_iff)
  then have "e' \<in> set named" and "val_of e' = val_of e"
    by (auto simp: find_Some_iff)
  moreover have "inj_on val_of (set named)"
    using assms(1) by (simp add: distinct_map)
  ultimately have "e' = e" using assms(2) by (auto dest: inj_onD)
  with e' show ?thesis by (simp add: enum_cast_def)
qed

section \<open>Bit fields\<close>

lemma bit_word_beyond [simp]: "LENGTH('a) \<le> n \<Longrightarrow> \<not> bit (w :: 'a::len word) n"
  using bit_imp_le_length leD by blast

lemma upt_32:
  "[0..<32] = [0, 1, 2, 3, 4, 5, 6, 7, 8, 9, 10, 11, 12, 13, 14, 15, 16, 17, 18, 19, 20, 21, 22, 23,
    24, 25, 26, 27, 28, 29, 30, 31 :: nat]"
  by code_simp

lemma word32_eqI:
  assumes "list_all (\<lambda>n. bit v n \<longleftrightarrow> bit w n)
    [0, 1, 2, 3, 4, 5, 6, 7, 8, 9, 10, 11, 12, 13, 14, 15, 16, 17, 18, 19, 20, 21, 22, 23,
     24, 25, 26, 27, 28, 29, 30, 31]"
  shows "v = (w :: u32)"
proof (rule bit_word_eqI)
  fix n :: nat
  assume "n < LENGTH(32)"
  then have "n \<in> set [0..<32]" by simp
  with assms show "bit v n \<longleftrightarrow> bit w n"
    unfolding upt_32 list_all_iff by blast
qed

lemma word16_eqI:
  assumes "list_all (\<lambda>n. bit v n \<longleftrightarrow> bit w n)
    [0, 1, 2, 3, 4, 5, 6, 7, 8, 9, 10, 11, 12, 13, 14, 15]"
  shows "v = (w :: u16)"
proof (rule bit_word_eqI)
  fix n :: nat
  assume "n < LENGTH(16)"
  then have "n \<in> set [0..<16]" by simp
  moreover have "[0..<16] = [0, 1, 2, 3, 4, 5, 6, 7, 8, 9, 10, 11, 12, 13, 14, 15 :: nat]"
    by code_simp
  ultimately show "bit v n \<longleftrightarrow> bit w n"
    using assms unfolding list_all_iff by metis
qed

lemma word8_eqI:
  assumes "list_all (\<lambda>n. bit v n \<longleftrightarrow> bit w n)
    [0, 1, 2, 3, 4, 5, 6, 7]"
  shows "v = (w :: u8)"
proof (rule bit_word_eqI)
  fix n :: nat
  assume "n < LENGTH(8)"
  then have "n \<in> set [0..<8]" by simp
  moreover have "[0..<8] = [0, 1, 2, 3, 4, 5, 6, 7 :: nat]"
    by code_simp
  ultimately show "bit v n \<longleftrightarrow> bit w n"
    using assms unfolding list_all_iff by metis
qed

lemma sign_bits:
  assumes "signed_take_bit k v = (v :: 'a::len word)" and "k < m" and "m < LENGTH('a)"
  shows "bit v m \<longleftrightarrow> bit v k"
  using assms(2,3) by (subst assms(1) [symmetric]) (simp add: bit_simps min_def)

lemma low_bits:
  assumes "take_bit j v = (0 :: 'a::len word)" and "i < j"
  shows "\<not> bit v i"
proof -
  have "\<not> bit (take_bit j v) i" by (simp add: assms(1))
  with assms(2) show ?thesis by (simp add: bit_take_bit_iff)
qed

text \<open>
  \<open>SignExtend<size>\<close> stores the value in a bit field of \<open>size\<close> bits and reads it back: the
  low \<open>size\<close> bits, sign-extended over the type of the value.
\<close>

lemma signed_take_bit_narrow:
  "k \<le> LENGTH('a) \<Longrightarrow> 0 < k \<Longrightarrow>
   sint (signed_take_bit (k - 1) (w :: 'a::len word)) = signed_take_bit (k - 1) (uint w)"
  by (rule bit_eqI)
    (auto simp: bit_simps min_def not_le)

lemma take_bit_less: "unat (take_bit n (w :: 'a::len word)) < 2 ^ n"
  by (metis take_bit_nat_less_exp unsigned_take_bit_eq)

section \<open>Bytes\<close>

text \<open>RISC-V is little-endian: byte \<open>i\<close> of a stored word holds its bits \<open>8 * i\<close> to \<open>8 * i + 7\<close>.\<close>

definition bytes_of :: "nat \<Rightarrow> 'a::len word \<Rightarrow> u8 list" where
  "bytes_of n w = map (\<lambda>i. ucast (drop_bit (8 * i) w)) [0..<n]"

definition word_of_bytes :: "u8 list \<Rightarrow> 'a::len word" where
  "word_of_bytes bs = foldr (\<lambda>b w. push_bit 8 w OR ucast b) bs 0"

lemma length_bytes_of [simp]: "length (bytes_of n w) = n"
  by (simp add: bytes_of_def)

lemma nth_bytes_of [simp]: "i < n \<Longrightarrow> bytes_of n w ! i = ucast (drop_bit (8 * i) w)"
  by (simp add: bytes_of_def)

lemma word_of_bytes_Nil [simp]: "word_of_bytes [] = 0"
  by (simp add: word_of_bytes_def)

lemma word_of_bytes_Cons [simp]:
  "word_of_bytes (b # bs) = push_bit 8 (word_of_bytes bs) OR ucast b"
  by (simp add: word_of_bytes_def)

lemma bit_word_of_bytes:
  "bit (word_of_bytes bs :: 'a::len word) k \<longleftrightarrow>
   k < LENGTH('a) \<and> k div 8 < length bs \<and> bit (bs ! (k div 8)) (k mod 8)"
proof (induction bs arbitrary: k)
  case Nil
  then show ?case by simp
next
  case (Cons b bs)
  show ?case
  proof (cases "k < 8")
    case True
    then show ?thesis by (auto simp: bit_simps)
  next
    case False
    then have "k div 8 = Suc ((k - 8) div 8)" "(k - 8) mod 8 = k mod 8"
      by (simp_all add: div_if mod_if)
    with False show ?thesis
      by (auto simp: bit_simps Cons.IH)
  qed
qed

lemma word_of_bytes_of:
  assumes "LENGTH('a) \<le> 8 * n"
  shows "word_of_bytes (bytes_of n w) = (w :: 'a::len word)"
proof (rule bit_word_eqI)
  fix k
  assume k: "k < LENGTH('a)"
  with assms have "k div 8 < n" by (simp add: div_less_iff_less_mult mult.commute)
  moreover have "8 * (k div 8) + k mod 8 = k" by simp
  ultimately show "bit (word_of_bytes (bytes_of n w) :: 'a word) k \<longleftrightarrow> bit w k"
    using k by (auto simp: bit_word_of_bytes bit_simps)
qed

section \<open>The memory of the process\<close>

text \<open>
  The process memory as far as the library reads and writes code in it: a byte at every address.
  Whether a page may be written is not part of it; the operations that change protections are
  modelled where they occur.
\<close>

type_synonym memory = "u64 \<Rightarrow> u8"

definition read_bytes :: "memory \<Rightarrow> u64 \<Rightarrow> nat \<Rightarrow> u8 list" where
  "read_bytes mem a n = map (\<lambda>i. mem (a + of_nat i)) [0..<n]"

definition write_bytes :: "memory \<Rightarrow> u64 \<Rightarrow> u8 list \<Rightarrow> memory" where
  "write_bytes mem a bs = (\<lambda>x. if unat (x - a) < length bs then bs ! unat (x - a) else mem x)"

definition load16 :: "memory \<Rightarrow> u64 \<Rightarrow> u16" where
  "load16 mem a = word_of_bytes (read_bytes mem a 2)"

definition load32 :: "memory \<Rightarrow> u64 \<Rightarrow> u32" where
  "load32 mem a = word_of_bytes (read_bytes mem a 4)"

lemma length_read_bytes [simp]: "length (read_bytes mem a n) = n"
  by (simp add: read_bytes_def)

lemma nth_read_bytes [simp]: "i < n \<Longrightarrow> read_bytes mem a n ! i = mem (a + of_nat i)"
  by (simp add: read_bytes_def)

lemma read_bytes_cong:
  "(\<And>i. i < n \<Longrightarrow> mem (a + of_nat i) = mem' (a + of_nat i)) \<Longrightarrow> read_bytes mem a n = read_bytes mem' a n"
  by (simp add: read_bytes_def)

lemma write_bytes_Nil [simp]: "write_bytes mem a [] = mem"
  by (simp add: write_bytes_def)

lemma unat_of_nat_64: "n < 2 ^ 64 \<Longrightarrow> unat (of_nat n :: u64) = n"
  by (simp add: unat_of_nat)

lemma read_write_bytes:
  assumes "length bs \<le> 2 ^ 64"
  shows "read_bytes (write_bytes mem a bs) a (length bs) = bs"
  using assms by (intro nth_equalityI) (auto simp: write_bytes_def unat_of_nat_64)

lemma write_bytes_outside:
  "length bs \<le> unat (x - a) \<Longrightarrow> write_bytes mem a bs x = mem x"
  by (simp add: write_bytes_def)

lemma write_read_bytes:
  "n \<le> 2 ^ 64 \<Longrightarrow> write_bytes mem a (read_bytes mem a n) = mem"
  by (auto simp: write_bytes_def fun_eq_iff)

lemma write_write_bytes:
  "length bs = length cs \<Longrightarrow> write_bytes (write_bytes mem a bs) a cs = write_bytes mem a cs"
  by (auto simp: write_bytes_def fun_eq_iff)

end
