(* ===== verification/Decoder_Opcodes.thy ===== *)
theory Decoder_Opcodes
  imports Prelude
begin

text \<open>
  The scalar \<open>enum class\<close> types of \<open>Decoder<InsnConsumer>\<close> in
  \<open>external/berberis/include/berberis/decoder/riscv64/decoder.h\<close>, one datatype each.

  As the source's comment on [dcl.enum] says, the values of such an enumeration are all values of its
  underlying type, so every datatype has a last constructor \<open>X_other\<close> for the values that have no
  enumerator. \<open>X_of\<close> is the cast from the underlying type, \<open>X_val\<close> the cast to it; the
  interpretation \<open>X_cast\<close> of \<open>enum_class\<close> says that the casts lose nothing and that no two
  enumerators share a value.
\<close>

text \<open>\<open>AmoOpcode\<close>, lines 44 to 56.\<close>

datatype (plugins only: code) AmoOpcode =
    kLr
  | kSc
  | kAmoswap
  | kAmoadd
  | kAmoxor
  | kAmoand
  | kAmoor
  | kAmomin
  | kAmomax
  | kAmominu
  | kAmomaxu
  | AmoOpcode_other "8 word"

primrec AmoOpcode_val :: "AmoOpcode \<Rightarrow> 8 word" where
    "AmoOpcode_val kLr = 0b00010"
  | "AmoOpcode_val kSc = 0b00011"
  | "AmoOpcode_val kAmoswap = 0b00001"
  | "AmoOpcode_val kAmoadd = 0b00000"
  | "AmoOpcode_val kAmoxor = 0b00100"
  | "AmoOpcode_val kAmoand = 0b01100"
  | "AmoOpcode_val kAmoor = 0b01000"
  | "AmoOpcode_val kAmomin = 0b10000"
  | "AmoOpcode_val kAmomax = 0b10100"
  | "AmoOpcode_val kAmominu = 0b11000"
  | "AmoOpcode_val kAmomaxu = 0b11100"
  | "AmoOpcode_val (AmoOpcode_other w) = w"

definition AmoOpcode_named :: "AmoOpcode list" where
  "AmoOpcode_named =
    [kLr,
     kSc,
     kAmoswap,
     kAmoadd,
     kAmoxor,
     kAmoand,
     kAmoor,
     kAmomin,
     kAmomax,
     kAmominu,
     kAmomaxu]"

definition AmoOpcode_of :: "8 word \<Rightarrow> AmoOpcode" where
  "AmoOpcode_of = enum_cast AmoOpcode_val AmoOpcode_named AmoOpcode_other"

interpretation AmoOpcode_cast: enum_class AmoOpcode_of AmoOpcode_val AmoOpcode_named
  unfolding AmoOpcode_of_def
  by unfold_locales (rule enum_cast_value, simp, rule enum_cast_named, simp_all add: AmoOpcode_named_def)

text \<open>\<open>BranchOpcode\<close>, lines 58 to 65.\<close>

datatype (plugins only: code) BranchOpcode =
    kBeq
  | kBne
  | kBlt
  | kBge
  | kBltu
  | kBgeu
  | BranchOpcode_other "8 word"

primrec BranchOpcode_val :: "BranchOpcode \<Rightarrow> 8 word" where
    "BranchOpcode_val kBeq = 0b000"
  | "BranchOpcode_val kBne = 0b001"
  | "BranchOpcode_val kBlt = 0b100"
  | "BranchOpcode_val kBge = 0b101"
  | "BranchOpcode_val kBltu = 0b110"
  | "BranchOpcode_val kBgeu = 0b111"
  | "BranchOpcode_val (BranchOpcode_other w) = w"

definition BranchOpcode_named :: "BranchOpcode list" where
  "BranchOpcode_named =
    [kBeq,
     kBne,
     kBlt,
     kBge,
     kBltu,
     kBgeu]"

definition BranchOpcode_of :: "8 word \<Rightarrow> BranchOpcode" where
  "BranchOpcode_of = enum_cast BranchOpcode_val BranchOpcode_named BranchOpcode_other"

interpretation BranchOpcode_cast: enum_class BranchOpcode_of BranchOpcode_val BranchOpcode_named
  unfolding BranchOpcode_of_def
  by unfold_locales (rule enum_cast_value, simp, rule enum_cast_named, simp_all add: BranchOpcode_named_def)

text \<open>\<open>CsrOpcode\<close>, lines 67 to 71.\<close>

datatype (plugins only: code) CsrOpcode =
    kCsrrw
  | kCsrrs
  | kCsrrc
  | CsrOpcode_other "8 word"

primrec CsrOpcode_val :: "CsrOpcode \<Rightarrow> 8 word" where
    "CsrOpcode_val kCsrrw = 0b01"
  | "CsrOpcode_val kCsrrs = 0b10"
  | "CsrOpcode_val kCsrrc = 0b11"
  | "CsrOpcode_val (CsrOpcode_other w) = w"

definition CsrOpcode_named :: "CsrOpcode list" where
  "CsrOpcode_named =
    [kCsrrw,
     kCsrrs,
     kCsrrc]"

definition CsrOpcode_of :: "8 word \<Rightarrow> CsrOpcode" where
  "CsrOpcode_of = enum_cast CsrOpcode_val CsrOpcode_named CsrOpcode_other"

interpretation CsrOpcode_cast: enum_class CsrOpcode_of CsrOpcode_val CsrOpcode_named
  unfolding CsrOpcode_of_def
  by unfold_locales (rule enum_cast_value, simp, rule enum_cast_named, simp_all add: CsrOpcode_named_def)

text \<open>\<open>CsrImmOpcode\<close>, lines 73 to 77.\<close>

datatype (plugins only: code) CsrImmOpcode =
    kCsrrwi
  | kCsrrsi
  | kCsrrci
  | CsrImmOpcode_other "8 word"

primrec CsrImmOpcode_val :: "CsrImmOpcode \<Rightarrow> 8 word" where
    "CsrImmOpcode_val kCsrrwi = 0b01"
  | "CsrImmOpcode_val kCsrrsi = 0b10"
  | "CsrImmOpcode_val kCsrrci = 0b11"
  | "CsrImmOpcode_val (CsrImmOpcode_other w) = w"

definition CsrImmOpcode_named :: "CsrImmOpcode list" where
  "CsrImmOpcode_named =
    [kCsrrwi,
     kCsrrsi,
     kCsrrci]"

definition CsrImmOpcode_of :: "8 word \<Rightarrow> CsrImmOpcode" where
  "CsrImmOpcode_of = enum_cast CsrImmOpcode_val CsrImmOpcode_named CsrImmOpcode_other"

interpretation CsrImmOpcode_cast: enum_class CsrImmOpcode_of CsrImmOpcode_val CsrImmOpcode_named
  unfolding CsrImmOpcode_of_def
  by unfold_locales (rule enum_cast_value, simp, rule enum_cast_named, simp_all add: CsrImmOpcode_named_def)

text \<open>\<open>FmaOpcode\<close>, lines 79 to 84.\<close>

datatype (plugins only: code) FmaOpcode =
    kFmadd
  | kFmsub
  | kFnmsub
  | kFnmadd
  | FmaOpcode_other "8 word"

primrec FmaOpcode_val :: "FmaOpcode \<Rightarrow> 8 word" where
    "FmaOpcode_val kFmadd = 0b00"
  | "FmaOpcode_val kFmsub = 0b01"
  | "FmaOpcode_val kFnmsub = 0b10"
  | "FmaOpcode_val kFnmadd = 0b11"
  | "FmaOpcode_val (FmaOpcode_other w) = w"

definition FmaOpcode_named :: "FmaOpcode list" where
  "FmaOpcode_named =
    [kFmadd,
     kFmsub,
     kFnmsub,
     kFnmadd]"

definition FmaOpcode_of :: "8 word \<Rightarrow> FmaOpcode" where
  "FmaOpcode_of = enum_cast FmaOpcode_val FmaOpcode_named FmaOpcode_other"

interpretation FmaOpcode_cast: enum_class FmaOpcode_of FmaOpcode_val FmaOpcode_named
  unfolding FmaOpcode_of_def
  by unfold_locales (rule enum_cast_value, simp, rule enum_cast_named, simp_all add: FmaOpcode_named_def)

text \<open>\<open>FenceOpcode\<close>, lines 86 to 89.\<close>

datatype (plugins only: code) FenceOpcode =
    kFence
  | kFenceTso
  | FenceOpcode_other "8 word"

primrec FenceOpcode_val :: "FenceOpcode \<Rightarrow> 8 word" where
    "FenceOpcode_val kFence = 0b0000"
  | "FenceOpcode_val kFenceTso = 0b1000"
  | "FenceOpcode_val (FenceOpcode_other w) = w"

definition FenceOpcode_named :: "FenceOpcode list" where
  "FenceOpcode_named =
    [kFence,
     kFenceTso]"

definition FenceOpcode_of :: "8 word \<Rightarrow> FenceOpcode" where
  "FenceOpcode_of = enum_cast FenceOpcode_val FenceOpcode_named FenceOpcode_other"

interpretation FenceOpcode_cast: enum_class FenceOpcode_of FenceOpcode_val FenceOpcode_named
  unfolding FenceOpcode_of_def
  by unfold_locales (rule enum_cast_value, simp, rule enum_cast_named, simp_all add: FenceOpcode_named_def)

text \<open>\<open>OpOpcode\<close>, lines 91 to 126.\<close>

datatype (plugins only: code) OpOpcode =
    kAdd
  | kSub
  | kSll
  | kSlt
  | kSltu
  | kXor
  | kSrl
  | kSra
  | kOr
  | kAnd
  | kMul
  | kMulh
  | kMulhsu
  | kMulhu
  | kDiv
  | kDivu
  | kRem
  | kRemu
  | kAndn
  | kOrn
  | kXnor
  | kMax
  | kMaxu
  | kMin
  | kMinu
  | kRol
  | kRor
  | kSh1add
  | kSh2add
  | kSh3add
  | kBclr
  | kBext
  | kBinv
  | kBset
  | OpOpcode_other "16 word"

primrec OpOpcode_val :: "OpOpcode \<Rightarrow> 16 word" where
    "OpOpcode_val kAdd = 0b0000000000"
  | "OpOpcode_val kSub = 0b0100000000"
  | "OpOpcode_val kSll = 0b0000000001"
  | "OpOpcode_val kSlt = 0b0000000010"
  | "OpOpcode_val kSltu = 0b0000000011"
  | "OpOpcode_val kXor = 0b0000000100"
  | "OpOpcode_val kSrl = 0b0000000101"
  | "OpOpcode_val kSra = 0b0100000101"
  | "OpOpcode_val kOr = 0b0000000110"
  | "OpOpcode_val kAnd = 0b0000000111"
  | "OpOpcode_val kMul = 0b0000001000"
  | "OpOpcode_val kMulh = 0b0000001001"
  | "OpOpcode_val kMulhsu = 0b0000001010"
  | "OpOpcode_val kMulhu = 0b0000001011"
  | "OpOpcode_val kDiv = 0b0000001100"
  | "OpOpcode_val kDivu = 0b0000001101"
  | "OpOpcode_val kRem = 0b0000001110"
  | "OpOpcode_val kRemu = 0b0000001111"
  | "OpOpcode_val kAndn = 0b0100000111"
  | "OpOpcode_val kOrn = 0b0100000110"
  | "OpOpcode_val kXnor = 0b0100000100"
  | "OpOpcode_val kMax = 0b0000101110"
  | "OpOpcode_val kMaxu = 0b0000101111"
  | "OpOpcode_val kMin = 0b0000101100"
  | "OpOpcode_val kMinu = 0b0000101101"
  | "OpOpcode_val kRol = 0b0110000001"
  | "OpOpcode_val kRor = 0b0110000101"
  | "OpOpcode_val kSh1add = 0b0010000010"
  | "OpOpcode_val kSh2add = 0b0010000100"
  | "OpOpcode_val kSh3add = 0b0010000110"
  | "OpOpcode_val kBclr = 0b0100100001"
  | "OpOpcode_val kBext = 0b0100100101"
  | "OpOpcode_val kBinv = 0b0110100001"
  | "OpOpcode_val kBset = 0b0010100001"
  | "OpOpcode_val (OpOpcode_other w) = w"

definition OpOpcode_named :: "OpOpcode list" where
  "OpOpcode_named =
    [kAdd,
     kSub,
     kSll,
     kSlt,
     kSltu,
     kXor,
     kSrl,
     kSra,
     kOr,
     kAnd,
     kMul,
     kMulh,
     kMulhsu,
     kMulhu,
     kDiv,
     kDivu,
     kRem,
     kRemu,
     kAndn,
     kOrn,
     kXnor,
     kMax,
     kMaxu,
     kMin,
     kMinu,
     kRol,
     kRor,
     kSh1add,
     kSh2add,
     kSh3add,
     kBclr,
     kBext,
     kBinv,
     kBset]"

definition OpOpcode_of :: "16 word \<Rightarrow> OpOpcode" where
  "OpOpcode_of = enum_cast OpOpcode_val OpOpcode_named OpOpcode_other"

interpretation OpOpcode_cast: enum_class OpOpcode_of OpOpcode_val OpOpcode_named
  unfolding OpOpcode_of_def
  by unfold_locales (rule enum_cast_value, simp, rule enum_cast_named, simp_all add: OpOpcode_named_def)

text \<open>\<open>Op32Opcode\<close>, lines 128 to 145.\<close>

datatype (plugins only: code) Op32Opcode =
    kAddw
  | kAdduw
  | kSubw
  | kSllw
  | kSrlw
  | kSraw
  | kMulw
  | kDivw
  | kDivuw
  | kRemw
  | kRemuw
  | kRolw
  | kRorw
  | kSh1adduw
  | kSh2adduw
  | kSh3adduw
  | Op32Opcode_other "16 word"

primrec Op32Opcode_val :: "Op32Opcode \<Rightarrow> 16 word" where
    "Op32Opcode_val kAddw = 0b0000000000"
  | "Op32Opcode_val kAdduw = 0b0000100000"
  | "Op32Opcode_val kSubw = 0b0100000000"
  | "Op32Opcode_val kSllw = 0b0000000001"
  | "Op32Opcode_val kSrlw = 0b0000000101"
  | "Op32Opcode_val kSraw = 0b0100000101"
  | "Op32Opcode_val kMulw = 0b0000001000"
  | "Op32Opcode_val kDivw = 0b0000001100"
  | "Op32Opcode_val kDivuw = 0b0000001101"
  | "Op32Opcode_val kRemw = 0b0000001110"
  | "Op32Opcode_val kRemuw = 0b0000001111"
  | "Op32Opcode_val kRolw = 0b0110000001"
  | "Op32Opcode_val kRorw = 0b0110000101"
  | "Op32Opcode_val kSh1adduw = 0b0010000010"
  | "Op32Opcode_val kSh2adduw = 0b0010000100"
  | "Op32Opcode_val kSh3adduw = 0b0010000110"
  | "Op32Opcode_val (Op32Opcode_other w) = w"

definition Op32Opcode_named :: "Op32Opcode list" where
  "Op32Opcode_named =
    [kAddw,
     kAdduw,
     kSubw,
     kSllw,
     kSrlw,
     kSraw,
     kMulw,
     kDivw,
     kDivuw,
     kRemw,
     kRemuw,
     kRolw,
     kRorw,
     kSh1adduw,
     kSh2adduw,
     kSh3adduw]"

definition Op32Opcode_of :: "16 word \<Rightarrow> Op32Opcode" where
  "Op32Opcode_of = enum_cast Op32Opcode_val Op32Opcode_named Op32Opcode_other"

interpretation Op32Opcode_cast: enum_class Op32Opcode_of Op32Opcode_val Op32Opcode_named
  unfolding Op32Opcode_of_def
  by unfold_locales (rule enum_cast_value, simp, rule enum_cast_named, simp_all add: Op32Opcode_named_def)

text \<open>\<open>OpSingleInputOpcode\<close>, lines 147 to 153.\<close>

datatype (plugins only: code) OpSingleInputOpcode =
    kZexth
  | kZextb
  | kZextw
  | kSextb
  | kSexth
  | OpSingleInputOpcode_other "16 word"

primrec OpSingleInputOpcode_val :: "OpSingleInputOpcode \<Rightarrow> 16 word" where
    "OpSingleInputOpcode_val kZexth = 0b0000100100"
  | "OpSingleInputOpcode_val kZextb = 37"
  | "OpSingleInputOpcode_val kZextw = 38"
  | "OpSingleInputOpcode_val kSextb = 39"
  | "OpSingleInputOpcode_val kSexth = 40"
  | "OpSingleInputOpcode_val (OpSingleInputOpcode_other w) = w"

definition OpSingleInputOpcode_named :: "OpSingleInputOpcode list" where
  "OpSingleInputOpcode_named =
    [kZexth,
     kZextb,
     kZextw,
     kSextb,
     kSexth]"

definition OpSingleInputOpcode_of :: "16 word \<Rightarrow> OpSingleInputOpcode" where
  "OpSingleInputOpcode_of = enum_cast OpSingleInputOpcode_val OpSingleInputOpcode_named OpSingleInputOpcode_other"

interpretation OpSingleInputOpcode_cast: enum_class OpSingleInputOpcode_of OpSingleInputOpcode_val OpSingleInputOpcode_named
  unfolding OpSingleInputOpcode_of_def
  by unfold_locales (rule enum_cast_value, simp, rule enum_cast_named, simp_all add: OpSingleInputOpcode_named_def)

text \<open>\<open>OpFpGpRegisterTargetNoRoundingOpcode\<close>, lines 155 to 159.\<close>

datatype (plugins only: code) OpFpGpRegisterTargetNoRoundingOpcode =
    kFle
  | kFlt
  | kFeq
  | OpFpGpRegisterTargetNoRoundingOpcode_other "8 word"

primrec OpFpGpRegisterTargetNoRoundingOpcode_val :: "OpFpGpRegisterTargetNoRoundingOpcode \<Rightarrow> 8 word" where
    "OpFpGpRegisterTargetNoRoundingOpcode_val kFle = 0b00000"
  | "OpFpGpRegisterTargetNoRoundingOpcode_val kFlt = 0b00001"
  | "OpFpGpRegisterTargetNoRoundingOpcode_val kFeq = 0b00010"
  | "OpFpGpRegisterTargetNoRoundingOpcode_val (OpFpGpRegisterTargetNoRoundingOpcode_other w) = w"

definition OpFpGpRegisterTargetNoRoundingOpcode_named :: "OpFpGpRegisterTargetNoRoundingOpcode list" where
  "OpFpGpRegisterTargetNoRoundingOpcode_named =
    [kFle,
     kFlt,
     kFeq]"

definition OpFpGpRegisterTargetNoRoundingOpcode_of :: "8 word \<Rightarrow> OpFpGpRegisterTargetNoRoundingOpcode" where
  "OpFpGpRegisterTargetNoRoundingOpcode_of = enum_cast OpFpGpRegisterTargetNoRoundingOpcode_val OpFpGpRegisterTargetNoRoundingOpcode_named OpFpGpRegisterTargetNoRoundingOpcode_other"

interpretation OpFpGpRegisterTargetNoRoundingOpcode_cast: enum_class OpFpGpRegisterTargetNoRoundingOpcode_of OpFpGpRegisterTargetNoRoundingOpcode_val OpFpGpRegisterTargetNoRoundingOpcode_named
  unfolding OpFpGpRegisterTargetNoRoundingOpcode_of_def
  by unfold_locales (rule enum_cast_value, simp, rule enum_cast_named, simp_all add: OpFpGpRegisterTargetNoRoundingOpcode_named_def)

text \<open>\<open>OpFpGpRegisterTargetSingleInputNoRoundingOpcode\<close>, lines 161 to 163.\<close>

datatype (plugins only: code) OpFpGpRegisterTargetSingleInputNoRoundingOpcode =
    kFclass
  | OpFpGpRegisterTargetSingleInputNoRoundingOpcode_other "16 word"

primrec OpFpGpRegisterTargetSingleInputNoRoundingOpcode_val :: "OpFpGpRegisterTargetSingleInputNoRoundingOpcode \<Rightarrow> 16 word" where
    "OpFpGpRegisterTargetSingleInputNoRoundingOpcode_val kFclass = 0b0000000001"
  | "OpFpGpRegisterTargetSingleInputNoRoundingOpcode_val (OpFpGpRegisterTargetSingleInputNoRoundingOpcode_other w) = w"

definition OpFpGpRegisterTargetSingleInputNoRoundingOpcode_named :: "OpFpGpRegisterTargetSingleInputNoRoundingOpcode list" where
  "OpFpGpRegisterTargetSingleInputNoRoundingOpcode_named =
    [kFclass]"

definition OpFpGpRegisterTargetSingleInputNoRoundingOpcode_of :: "16 word \<Rightarrow> OpFpGpRegisterTargetSingleInputNoRoundingOpcode" where
  "OpFpGpRegisterTargetSingleInputNoRoundingOpcode_of = enum_cast OpFpGpRegisterTargetSingleInputNoRoundingOpcode_val OpFpGpRegisterTargetSingleInputNoRoundingOpcode_named OpFpGpRegisterTargetSingleInputNoRoundingOpcode_other"

interpretation OpFpGpRegisterTargetSingleInputNoRoundingOpcode_cast: enum_class OpFpGpRegisterTargetSingleInputNoRoundingOpcode_of OpFpGpRegisterTargetSingleInputNoRoundingOpcode_val OpFpGpRegisterTargetSingleInputNoRoundingOpcode_named
  unfolding OpFpGpRegisterTargetSingleInputNoRoundingOpcode_of_def
  by unfold_locales (rule enum_cast_value, simp, rule enum_cast_named, simp_all add: OpFpGpRegisterTargetSingleInputNoRoundingOpcode_named_def)

text \<open>\<open>OpFpNoRoundingOpcode\<close>, lines 165 to 171.\<close>

datatype (plugins only: code) OpFpNoRoundingOpcode =
    kFSgnj
  | kFSgnjn
  | kFSgnjx
  | kFMin
  | kFMax
  | OpFpNoRoundingOpcode_other "8 word"

primrec OpFpNoRoundingOpcode_val :: "OpFpNoRoundingOpcode \<Rightarrow> 8 word" where
    "OpFpNoRoundingOpcode_val kFSgnj = 0b00000"
  | "OpFpNoRoundingOpcode_val kFSgnjn = 0b00001"
  | "OpFpNoRoundingOpcode_val kFSgnjx = 0b00010"
  | "OpFpNoRoundingOpcode_val kFMin = 0b01000"
  | "OpFpNoRoundingOpcode_val kFMax = 0b01001"
  | "OpFpNoRoundingOpcode_val (OpFpNoRoundingOpcode_other w) = w"

definition OpFpNoRoundingOpcode_named :: "OpFpNoRoundingOpcode list" where
  "OpFpNoRoundingOpcode_named =
    [kFSgnj,
     kFSgnjn,
     kFSgnjx,
     kFMin,
     kFMax]"

definition OpFpNoRoundingOpcode_of :: "8 word \<Rightarrow> OpFpNoRoundingOpcode" where
  "OpFpNoRoundingOpcode_of = enum_cast OpFpNoRoundingOpcode_val OpFpNoRoundingOpcode_named OpFpNoRoundingOpcode_other"

interpretation OpFpNoRoundingOpcode_cast: enum_class OpFpNoRoundingOpcode_of OpFpNoRoundingOpcode_val OpFpNoRoundingOpcode_named
  unfolding OpFpNoRoundingOpcode_of_def
  by unfold_locales (rule enum_cast_value, simp, rule enum_cast_named, simp_all add: OpFpNoRoundingOpcode_named_def)

text \<open>\<open>OpFpOpcode\<close>, lines 173 to 178.\<close>

datatype (plugins only: code) OpFpOpcode =
    kFAdd
  | kFSub
  | kFMul
  | kFDiv
  | OpFpOpcode_other "8 word"

primrec OpFpOpcode_val :: "OpFpOpcode \<Rightarrow> 8 word" where
    "OpFpOpcode_val kFAdd = 0b00"
  | "OpFpOpcode_val kFSub = 0b01"
  | "OpFpOpcode_val kFMul = 0b10"
  | "OpFpOpcode_val kFDiv = 0b11"
  | "OpFpOpcode_val (OpFpOpcode_other w) = w"

definition OpFpOpcode_named :: "OpFpOpcode list" where
  "OpFpOpcode_named =
    [kFAdd,
     kFSub,
     kFMul,
     kFDiv]"

definition OpFpOpcode_of :: "8 word \<Rightarrow> OpFpOpcode" where
  "OpFpOpcode_of = enum_cast OpFpOpcode_val OpFpOpcode_named OpFpOpcode_other"

interpretation OpFpOpcode_cast: enum_class OpFpOpcode_of OpFpOpcode_val OpFpOpcode_named
  unfolding OpFpOpcode_of_def
  by unfold_locales (rule enum_cast_value, simp, rule enum_cast_named, simp_all add: OpFpOpcode_named_def)

text \<open>\<open>OpFpSingleInputOpcode\<close>, lines 180 to 182.\<close>

datatype (plugins only: code) OpFpSingleInputOpcode =
    kFSqrt
  | OpFpSingleInputOpcode_other "8 word"

primrec OpFpSingleInputOpcode_val :: "OpFpSingleInputOpcode \<Rightarrow> 8 word" where
    "OpFpSingleInputOpcode_val kFSqrt = 0b1100000"
  | "OpFpSingleInputOpcode_val (OpFpSingleInputOpcode_other w) = w"

definition OpFpSingleInputOpcode_named :: "OpFpSingleInputOpcode list" where
  "OpFpSingleInputOpcode_named =
    [kFSqrt]"

definition OpFpSingleInputOpcode_of :: "8 word \<Rightarrow> OpFpSingleInputOpcode" where
  "OpFpSingleInputOpcode_of = enum_cast OpFpSingleInputOpcode_val OpFpSingleInputOpcode_named OpFpSingleInputOpcode_other"

interpretation OpFpSingleInputOpcode_cast: enum_class OpFpSingleInputOpcode_of OpFpSingleInputOpcode_val OpFpSingleInputOpcode_named
  unfolding OpFpSingleInputOpcode_of_def
  by unfold_locales (rule enum_cast_value, simp, rule enum_cast_named, simp_all add: OpFpSingleInputOpcode_named_def)

text \<open>\<open>OpFpSingleInputNoRoundingOpcode\<close>, lines 184 to 186.\<close>

datatype (plugins only: code) OpFpSingleInputNoRoundingOpcode =
    kFmv
  | OpFpSingleInputNoRoundingOpcode_other "8 word"

primrec OpFpSingleInputNoRoundingOpcode_val :: "OpFpSingleInputNoRoundingOpcode \<Rightarrow> 8 word" where
    "OpFpSingleInputNoRoundingOpcode_val kFmv = 0"
  | "OpFpSingleInputNoRoundingOpcode_val (OpFpSingleInputNoRoundingOpcode_other w) = w"

definition OpFpSingleInputNoRoundingOpcode_named :: "OpFpSingleInputNoRoundingOpcode list" where
  "OpFpSingleInputNoRoundingOpcode_named =
    [kFmv]"

definition OpFpSingleInputNoRoundingOpcode_of :: "8 word \<Rightarrow> OpFpSingleInputNoRoundingOpcode" where
  "OpFpSingleInputNoRoundingOpcode_of = enum_cast OpFpSingleInputNoRoundingOpcode_val OpFpSingleInputNoRoundingOpcode_named OpFpSingleInputNoRoundingOpcode_other"

interpretation OpFpSingleInputNoRoundingOpcode_cast: enum_class OpFpSingleInputNoRoundingOpcode_of OpFpSingleInputNoRoundingOpcode_val OpFpSingleInputNoRoundingOpcode_named
  unfolding OpFpSingleInputNoRoundingOpcode_of_def
  by unfold_locales (rule enum_cast_value, simp, rule enum_cast_named, simp_all add: OpFpSingleInputNoRoundingOpcode_named_def)

text \<open>\<open>OpImmOpcode\<close>, lines 188 to 195.\<close>

datatype (plugins only: code) OpImmOpcode =
    kAddi
  | kSlti
  | kSltiu
  | kXori
  | kOri
  | kAndi
  | OpImmOpcode_other "8 word"

primrec OpImmOpcode_val :: "OpImmOpcode \<Rightarrow> 8 word" where
    "OpImmOpcode_val kAddi = 0b000"
  | "OpImmOpcode_val kSlti = 0b010"
  | "OpImmOpcode_val kSltiu = 0b011"
  | "OpImmOpcode_val kXori = 0b100"
  | "OpImmOpcode_val kOri = 0b110"
  | "OpImmOpcode_val kAndi = 0b111"
  | "OpImmOpcode_val (OpImmOpcode_other w) = w"

definition OpImmOpcode_named :: "OpImmOpcode list" where
  "OpImmOpcode_named =
    [kAddi,
     kSlti,
     kSltiu,
     kXori,
     kOri,
     kAndi]"

definition OpImmOpcode_of :: "8 word \<Rightarrow> OpImmOpcode" where
  "OpImmOpcode_of = enum_cast OpImmOpcode_val OpImmOpcode_named OpImmOpcode_other"

interpretation OpImmOpcode_cast: enum_class OpImmOpcode_of OpImmOpcode_val OpImmOpcode_named
  unfolding OpImmOpcode_of_def
  by unfold_locales (rule enum_cast_value, simp, rule enum_cast_named, simp_all add: OpImmOpcode_named_def)

text \<open>\<open>OpImm32Opcode\<close>, lines 197 to 199.\<close>

datatype (plugins only: code) OpImm32Opcode =
    kAddiw
  | OpImm32Opcode_other "8 word"

primrec OpImm32Opcode_val :: "OpImm32Opcode \<Rightarrow> 8 word" where
    "OpImm32Opcode_val kAddiw = 0b000"
  | "OpImm32Opcode_val (OpImm32Opcode_other w) = w"

definition OpImm32Opcode_named :: "OpImm32Opcode list" where
  "OpImm32Opcode_named =
    [kAddiw]"

definition OpImm32Opcode_of :: "8 word \<Rightarrow> OpImm32Opcode" where
  "OpImm32Opcode_of = enum_cast OpImm32Opcode_val OpImm32Opcode_named OpImm32Opcode_other"

interpretation OpImm32Opcode_cast: enum_class OpImm32Opcode_of OpImm32Opcode_val OpImm32Opcode_named
  unfolding OpImm32Opcode_of_def
  by unfold_locales (rule enum_cast_value, simp, rule enum_cast_named, simp_all add: OpImm32Opcode_named_def)

text \<open>\<open>ShiftImmOpcode\<close>, lines 201 to 205.\<close>

datatype (plugins only: code) ShiftImmOpcode =
    kSlli
  | kSrli
  | kSrai
  | ShiftImmOpcode_other "8 word"

primrec ShiftImmOpcode_val :: "ShiftImmOpcode \<Rightarrow> 8 word" where
    "ShiftImmOpcode_val kSlli = 0b000000001"
  | "ShiftImmOpcode_val kSrli = 0b000000101"
  | "ShiftImmOpcode_val kSrai = 0b010000101"
  | "ShiftImmOpcode_val (ShiftImmOpcode_other w) = w"

definition ShiftImmOpcode_named :: "ShiftImmOpcode list" where
  "ShiftImmOpcode_named =
    [kSlli,
     kSrli,
     kSrai]"

definition ShiftImmOpcode_of :: "8 word \<Rightarrow> ShiftImmOpcode" where
  "ShiftImmOpcode_of = enum_cast ShiftImmOpcode_val ShiftImmOpcode_named ShiftImmOpcode_other"

interpretation ShiftImmOpcode_cast: enum_class ShiftImmOpcode_of ShiftImmOpcode_val ShiftImmOpcode_named
  unfolding ShiftImmOpcode_of_def
  by unfold_locales (rule enum_cast_value, simp, rule enum_cast_named, simp_all add: ShiftImmOpcode_named_def)

text \<open>\<open>ShiftImm32Opcode\<close>, lines 207 to 211.\<close>

datatype (plugins only: code) ShiftImm32Opcode =
    kSlliw
  | kSrliw
  | kSraiw
  | ShiftImm32Opcode_other "16 word"

primrec ShiftImm32Opcode_val :: "ShiftImm32Opcode \<Rightarrow> 16 word" where
    "ShiftImm32Opcode_val kSlliw = 0b0000000001"
  | "ShiftImm32Opcode_val kSrliw = 0b0000000101"
  | "ShiftImm32Opcode_val kSraiw = 0b0100000101"
  | "ShiftImm32Opcode_val (ShiftImm32Opcode_other w) = w"

definition ShiftImm32Opcode_named :: "ShiftImm32Opcode list" where
  "ShiftImm32Opcode_named =
    [kSlliw,
     kSrliw,
     kSraiw]"

definition ShiftImm32Opcode_of :: "16 word \<Rightarrow> ShiftImm32Opcode" where
  "ShiftImm32Opcode_of = enum_cast ShiftImm32Opcode_val ShiftImm32Opcode_named ShiftImm32Opcode_other"

interpretation ShiftImm32Opcode_cast: enum_class ShiftImm32Opcode_of ShiftImm32Opcode_val ShiftImm32Opcode_named
  unfolding ShiftImm32Opcode_of_def
  by unfold_locales (rule enum_cast_value, simp, rule enum_cast_named, simp_all add: ShiftImm32Opcode_named_def)

text \<open>\<open>BitmanipImmOpcode\<close>, lines 213 to 226.\<close>

datatype (plugins only: code) BitmanipImmOpcode =
    kClz
  | kCpop
  | kCtz
  | kSextb
  | kSexth
  | kOrcb
  | kRev8
  | kRori
  | kBclri
  | kBexti
  | kBinvi
  | kBseti
  | BitmanipImmOpcode_other "16 word"

primrec BitmanipImmOpcode_val :: "BitmanipImmOpcode \<Rightarrow> 16 word" where
    "BitmanipImmOpcode_val kClz = 0b011000000000001"
  | "BitmanipImmOpcode_val kCpop = 0b011000000010001"
  | "BitmanipImmOpcode_val kCtz = 0b011000000001001"
  | "BitmanipImmOpcode_val kSextb = 0b011000000100001"
  | "BitmanipImmOpcode_val kSexth = 0b011000000101001"
  | "BitmanipImmOpcode_val kOrcb = 0b001010000111101"
  | "BitmanipImmOpcode_val kRev8 = 0b011010111000101"
  | "BitmanipImmOpcode_val kRori = 0b011000101"
  | "BitmanipImmOpcode_val kBclri = 0b010010001"
  | "BitmanipImmOpcode_val kBexti = 0b010010101"
  | "BitmanipImmOpcode_val kBinvi = 0b011010001"
  | "BitmanipImmOpcode_val kBseti = 0b001010001"
  | "BitmanipImmOpcode_val (BitmanipImmOpcode_other w) = w"

definition BitmanipImmOpcode_named :: "BitmanipImmOpcode list" where
  "BitmanipImmOpcode_named =
    [kClz,
     kCpop,
     kCtz,
     kSextb,
     kSexth,
     kOrcb,
     kRev8,
     kRori,
     kBclri,
     kBexti,
     kBinvi,
     kBseti]"

definition BitmanipImmOpcode_of :: "16 word \<Rightarrow> BitmanipImmOpcode" where
  "BitmanipImmOpcode_of = enum_cast BitmanipImmOpcode_val BitmanipImmOpcode_named BitmanipImmOpcode_other"

interpretation BitmanipImmOpcode_cast: enum_class BitmanipImmOpcode_of BitmanipImmOpcode_val BitmanipImmOpcode_named
  unfolding BitmanipImmOpcode_of_def
  by unfold_locales (rule enum_cast_value, simp, rule enum_cast_named, simp_all add: BitmanipImmOpcode_named_def)

text \<open>\<open>BitmanipImm32Opcode\<close>, lines 228 to 234.\<close>

datatype (plugins only: code) BitmanipImm32Opcode =
    kClzw
  | kCpopw
  | kCtzw
  | kRoriw
  | kSlliuw
  | BitmanipImm32Opcode_other "16 word"

primrec BitmanipImm32Opcode_val :: "BitmanipImm32Opcode \<Rightarrow> 16 word" where
    "BitmanipImm32Opcode_val kClzw = 0b011000000000001"
  | "BitmanipImm32Opcode_val kCpopw = 0b011000000010001"
  | "BitmanipImm32Opcode_val kCtzw = 0b011000000001001"
  | "BitmanipImm32Opcode_val kRoriw = 0b0110000101"
  | "BitmanipImm32Opcode_val kSlliuw = 0b0000100001"
  | "BitmanipImm32Opcode_val (BitmanipImm32Opcode_other w) = w"

definition BitmanipImm32Opcode_named :: "BitmanipImm32Opcode list" where
  "BitmanipImm32Opcode_named =
    [kClzw,
     kCpopw,
     kCtzw,
     kRoriw,
     kSlliuw]"

definition BitmanipImm32Opcode_of :: "16 word \<Rightarrow> BitmanipImm32Opcode" where
  "BitmanipImm32Opcode_of = enum_cast BitmanipImm32Opcode_val BitmanipImm32Opcode_named BitmanipImm32Opcode_other"

interpretation BitmanipImm32Opcode_cast: enum_class BitmanipImm32Opcode_of BitmanipImm32Opcode_val BitmanipImm32Opcode_named
  unfolding BitmanipImm32Opcode_of_def
  by unfold_locales (rule enum_cast_value, simp, rule enum_cast_named, simp_all add: BitmanipImm32Opcode_named_def)

text \<open>\<open>SystemOpcode\<close>, lines 236 to 239.\<close>

datatype (plugins only: code) SystemOpcode =
    kEcall
  | kEbreak
  | SystemOpcode_other "32 word"

primrec SystemOpcode_val :: "SystemOpcode \<Rightarrow> 32 word" where
    "SystemOpcode_val kEcall = 0b0000000000000000000000000"
  | "SystemOpcode_val kEbreak = 0b0000000000010000000000000"
  | "SystemOpcode_val (SystemOpcode_other w) = w"

definition SystemOpcode_named :: "SystemOpcode list" where
  "SystemOpcode_named =
    [kEcall,
     kEbreak]"

definition SystemOpcode_of :: "32 word \<Rightarrow> SystemOpcode" where
  "SystemOpcode_of = enum_cast SystemOpcode_val SystemOpcode_named SystemOpcode_other"

interpretation SystemOpcode_cast: enum_class SystemOpcode_of SystemOpcode_val SystemOpcode_named
  unfolding SystemOpcode_of_def
  by unfold_locales (rule enum_cast_value, simp, rule enum_cast_named, simp_all add: SystemOpcode_named_def)

text \<open>\<open>FcvtOperandType\<close>, lines 616 to 621.\<close>

datatype (plugins only: code) FcvtOperandType =
    k32bitSigned
  | k32bitUnsigned
  | k64bitSigned
  | k64bitUnsigned
  | FcvtOperandType_other "8 word"

primrec FcvtOperandType_val :: "FcvtOperandType \<Rightarrow> 8 word" where
    "FcvtOperandType_val k32bitSigned = 0b00000"
  | "FcvtOperandType_val k32bitUnsigned = 0b00001"
  | "FcvtOperandType_val k64bitSigned = 0b00010"
  | "FcvtOperandType_val k64bitUnsigned = 0b00011"
  | "FcvtOperandType_val (FcvtOperandType_other w) = w"

definition FcvtOperandType_named :: "FcvtOperandType list" where
  "FcvtOperandType_named =
    [k32bitSigned,
     k32bitUnsigned,
     k64bitSigned,
     k64bitUnsigned]"

definition FcvtOperandType_of :: "8 word \<Rightarrow> FcvtOperandType" where
  "FcvtOperandType_of = enum_cast FcvtOperandType_val FcvtOperandType_named FcvtOperandType_other"

interpretation FcvtOperandType_cast: enum_class FcvtOperandType_of FcvtOperandType_val FcvtOperandType_named
  unfolding FcvtOperandType_of_def
  by unfold_locales (rule enum_cast_value, simp, rule enum_cast_named, simp_all add: FcvtOperandType_named_def)

text \<open>\<open>FloatOperandType\<close>, lines 623 to 628.\<close>

datatype (plugins only: code) FloatOperandType =
    kFloat
  | kDouble
  | kHalf
  | kQuad
  | FloatOperandType_other "8 word"

primrec FloatOperandType_val :: "FloatOperandType \<Rightarrow> 8 word" where
    "FloatOperandType_val kFloat = 0b00"
  | "FloatOperandType_val kDouble = 0b01"
  | "FloatOperandType_val kHalf = 0b10"
  | "FloatOperandType_val kQuad = 0b11"
  | "FloatOperandType_val (FloatOperandType_other w) = w"

definition FloatOperandType_named :: "FloatOperandType list" where
  "FloatOperandType_named =
    [kFloat,
     kDouble,
     kHalf,
     kQuad]"

definition FloatOperandType_of :: "8 word \<Rightarrow> FloatOperandType" where
  "FloatOperandType_of = enum_cast FloatOperandType_val FloatOperandType_named FloatOperandType_other"

interpretation FloatOperandType_cast: enum_class FloatOperandType_of FloatOperandType_val FloatOperandType_named
  unfolding FloatOperandType_of_def
  by unfold_locales (rule enum_cast_value, simp, rule enum_cast_named, simp_all add: FloatOperandType_named_def)

text \<open>\<open>MemoryDataOperandType\<close>, lines 633 to 638.\<close>

datatype (plugins only: code) MemoryDataOperandType =
    k8bit
  | k16bit
  | k32bit
  | k64bit
  | MemoryDataOperandType_other "8 word"

primrec MemoryDataOperandType_val :: "MemoryDataOperandType \<Rightarrow> 8 word" where
    "MemoryDataOperandType_val k8bit = 0b000"
  | "MemoryDataOperandType_val k16bit = 0b001"
  | "MemoryDataOperandType_val k32bit = 0b010"
  | "MemoryDataOperandType_val k64bit = 0b011"
  | "MemoryDataOperandType_val (MemoryDataOperandType_other w) = w"

definition MemoryDataOperandType_named :: "MemoryDataOperandType list" where
  "MemoryDataOperandType_named =
    [k8bit,
     k16bit,
     k32bit,
     k64bit]"

definition MemoryDataOperandType_of :: "8 word \<Rightarrow> MemoryDataOperandType" where
  "MemoryDataOperandType_of = enum_cast MemoryDataOperandType_val MemoryDataOperandType_named MemoryDataOperandType_other"

interpretation MemoryDataOperandType_cast: enum_class MemoryDataOperandType_of MemoryDataOperandType_val MemoryDataOperandType_named
  unfolding MemoryDataOperandType_of_def
  by unfold_locales (rule enum_cast_value, simp, rule enum_cast_named, simp_all add: MemoryDataOperandType_named_def)

text \<open>\<open>LoadOperandType\<close>, lines 640 to 648.\<close>

datatype (plugins only: code) LoadOperandType =
    k8bitSigned
  | k16bitSigned
  | k32bitSigned
  | k64bit
  | k8bitUnsigned
  | k16bitUnsigned
  | k32bitUnsigned
  | LoadOperandType_other "8 word"

primrec LoadOperandType_val :: "LoadOperandType \<Rightarrow> 8 word" where
    "LoadOperandType_val k8bitSigned = 0b000"
  | "LoadOperandType_val k16bitSigned = 0b001"
  | "LoadOperandType_val k32bitSigned = 0b010"
  | "LoadOperandType_val k64bit = 0b011"
  | "LoadOperandType_val k8bitUnsigned = 0b100"
  | "LoadOperandType_val k16bitUnsigned = 0b101"
  | "LoadOperandType_val k32bitUnsigned = 0b110"
  | "LoadOperandType_val (LoadOperandType_other w) = w"

definition LoadOperandType_named :: "LoadOperandType list" where
  "LoadOperandType_named =
    [k8bitSigned,
     k16bitSigned,
     k32bitSigned,
     k64bit,
     k8bitUnsigned,
     k16bitUnsigned,
     k32bitUnsigned]"

definition LoadOperandType_of :: "8 word \<Rightarrow> LoadOperandType" where
  "LoadOperandType_of = enum_cast LoadOperandType_val LoadOperandType_named LoadOperandType_other"

interpretation LoadOperandType_cast: enum_class LoadOperandType_of LoadOperandType_val LoadOperandType_named
  unfolding LoadOperandType_of_def
  by unfold_locales (rule enum_cast_value, simp, rule enum_cast_named, simp_all add: LoadOperandType_named_def)

text \<open>\<open>BaseOpcode\<close>, lines 2286 to 2319.\<close>

datatype (plugins only: code) BaseOpcode =
    kLoad
  | kLoadFp
  | kCustom0
  | kMiscMem
  | kOpImm
  | kAuipc
  | kOpImm32
  | kStore
  | kStoreFp
  | kCustom1
  | kAmo
  | kOp
  | kLui
  | kOp32
  | kMAdd
  | kMSub
  | kNmSub
  | kNmAdd
  | kOpFp
  | vOpV
  | kCustom2
  | kBranch
  | kJalr
  | kJal
  | kSystem
  | kCustom3
  | BaseOpcode_other "32 word"

primrec BaseOpcode_val :: "BaseOpcode \<Rightarrow> 32 word" where
    "BaseOpcode_val kLoad = 0b00000"
  | "BaseOpcode_val kLoadFp = 0b00001"
  | "BaseOpcode_val kCustom0 = 0b00010"
  | "BaseOpcode_val kMiscMem = 0b00011"
  | "BaseOpcode_val kOpImm = 0b00100"
  | "BaseOpcode_val kAuipc = 0b00101"
  | "BaseOpcode_val kOpImm32 = 0b00110"
  | "BaseOpcode_val kStore = 0b01000"
  | "BaseOpcode_val kStoreFp = 0b01001"
  | "BaseOpcode_val kCustom1 = 0b01010"
  | "BaseOpcode_val kAmo = 0b01011"
  | "BaseOpcode_val kOp = 0b01100"
  | "BaseOpcode_val kLui = 0b01101"
  | "BaseOpcode_val kOp32 = 0b01110"
  | "BaseOpcode_val kMAdd = 0b10000"
  | "BaseOpcode_val kMSub = 0b10001"
  | "BaseOpcode_val kNmSub = 0b10010"
  | "BaseOpcode_val kNmAdd = 0b10011"
  | "BaseOpcode_val kOpFp = 0b10100"
  | "BaseOpcode_val vOpV = 0b10101"
  | "BaseOpcode_val kCustom2 = 0b10110"
  | "BaseOpcode_val kBranch = 0b11000"
  | "BaseOpcode_val kJalr = 0b11001"
  | "BaseOpcode_val kJal = 0b11011"
  | "BaseOpcode_val kSystem = 0b11100"
  | "BaseOpcode_val kCustom3 = 0b11110"
  | "BaseOpcode_val (BaseOpcode_other w) = w"

definition BaseOpcode_named :: "BaseOpcode list" where
  "BaseOpcode_named =
    [kLoad,
     kLoadFp,
     kCustom0,
     kMiscMem,
     kOpImm,
     kAuipc,
     kOpImm32,
     kStore,
     kStoreFp,
     kCustom1,
     kAmo,
     kOp,
     kLui,
     kOp32,
     kMAdd,
     kMSub,
     kNmSub,
     kNmAdd,
     kOpFp,
     vOpV,
     kCustom2,
     kBranch,
     kJalr,
     kJal,
     kSystem,
     kCustom3]"

definition BaseOpcode_of :: "32 word \<Rightarrow> BaseOpcode" where
  "BaseOpcode_of = enum_cast BaseOpcode_val BaseOpcode_named BaseOpcode_other"

interpretation BaseOpcode_cast: enum_class BaseOpcode_of BaseOpcode_val BaseOpcode_named
  unfolding BaseOpcode_of_def
  by unfold_locales (rule enum_cast_value, simp, rule enum_cast_named, simp_all add: BaseOpcode_named_def)

text \<open>\<open>CompressedOpcode\<close>, lines 2321 to 2348.\<close>

datatype (plugins only: code) CompressedOpcode =
    kAddi4spn
  | kFld
  | kLw
  | kLd
  | kFsd
  | kSw
  | kSd
  | kAddi
  | kAddiw
  | kLi
  | kLui_Addi16sp
  | kMisc_Alu
  | kJ
  | kBeqz
  | kBnez
  | kSlli
  | kFldsp
  | kLwsp
  | kLdsp
  | kJr_Jalr_Mv_Add
  | kFsdsp
  | kSwsp
  | kSdsp
  | CompressedOpcode_other "32 word"

primrec CompressedOpcode_val :: "CompressedOpcode \<Rightarrow> 32 word" where
    "CompressedOpcode_val kAddi4spn = 0b00000"
  | "CompressedOpcode_val kFld = 0b00100"
  | "CompressedOpcode_val kLw = 0b01000"
  | "CompressedOpcode_val kLd = 0b01100"
  | "CompressedOpcode_val kFsd = 0b10100"
  | "CompressedOpcode_val kSw = 0b11000"
  | "CompressedOpcode_val kSd = 0b11100"
  | "CompressedOpcode_val kAddi = 0b00001"
  | "CompressedOpcode_val kAddiw = 0b00101"
  | "CompressedOpcode_val kLi = 0b01001"
  | "CompressedOpcode_val kLui_Addi16sp = 0b01101"
  | "CompressedOpcode_val kMisc_Alu = 0b10001"
  | "CompressedOpcode_val kJ = 0b10101"
  | "CompressedOpcode_val kBeqz = 0b11001"
  | "CompressedOpcode_val kBnez = 0b11101"
  | "CompressedOpcode_val kSlli = 0b00010"
  | "CompressedOpcode_val kFldsp = 0b00110"
  | "CompressedOpcode_val kLwsp = 0b01010"
  | "CompressedOpcode_val kLdsp = 0b01110"
  | "CompressedOpcode_val kJr_Jalr_Mv_Add = 0b10010"
  | "CompressedOpcode_val kFsdsp = 0b10110"
  | "CompressedOpcode_val kSwsp = 0b11010"
  | "CompressedOpcode_val kSdsp = 0b11110"
  | "CompressedOpcode_val (CompressedOpcode_other w) = w"

definition CompressedOpcode_named :: "CompressedOpcode list" where
  "CompressedOpcode_named =
    [kAddi4spn,
     kFld,
     kLw,
     kLd,
     kFsd,
     kSw,
     kSd,
     kAddi,
     kAddiw,
     kLi,
     kLui_Addi16sp,
     kMisc_Alu,
     kJ,
     kBeqz,
     kBnez,
     kSlli,
     kFldsp,
     kLwsp,
     kLdsp,
     kJr_Jalr_Mv_Add,
     kFsdsp,
     kSwsp,
     kSdsp]"

definition CompressedOpcode_of :: "32 word \<Rightarrow> CompressedOpcode" where
  "CompressedOpcode_of = enum_cast CompressedOpcode_val CompressedOpcode_named CompressedOpcode_other"

interpretation CompressedOpcode_cast: enum_class CompressedOpcode_of CompressedOpcode_val CompressedOpcode_named
  unfolding CompressedOpcode_of_def
  by unfold_locales (rule enum_cast_value, simp, rule enum_cast_named, simp_all add: CompressedOpcode_named_def)

end
