(* ===== verification/Decoder_Args.thy ===== *)
theory Decoder_Args
  imports Decoder_Opcodes
begin

text \<open>
  The argument structures that \<open>Decoder<InsnConsumer>\<close> passes to its consumer for scalar
  instructions, one record each, with the fields of the source in their order. A structure template
  is a record with a type parameter; the \<open>using\<close> declarations are the type synonyms.
  Signed fields have the word type of their width and are read with \<open>sint\<close>.
\<close>

record AmoArgs =
  opcode :: AmoOpcode
  operand_type :: MemoryDataOperandType
  dst :: "u8"
  src1 :: "u8"
  src2 :: "u8"
  rl :: bool
  aq :: bool

record BranchArgs =
  opcode :: BranchOpcode
  src1 :: "u8"
  src2 :: "u8"
  offset :: "u16"

record CsrArgs =
  opcode :: CsrOpcode
  dst :: "u8"
  src :: "u8"
  csr :: "u16"

record CsrImmArgs =
  opcode :: CsrImmOpcode
  dst :: "u8"
  imm :: "u8"
  csr :: "u16"

record FcvtFloatToFloatArgs =
  dst_type :: FloatOperandType
  src_type :: FloatOperandType
  dst :: "u8"
  src :: "u8"
  rm :: "u8"

record FcvtFloatToIntegerArgs =
  dst_type :: FcvtOperandType
  src_type :: FloatOperandType
  dst :: "u8"
  src :: "u8"
  rm :: "u8"

record FcvtIntegerToFloatArgs =
  dst_type :: FloatOperandType
  src_type :: FcvtOperandType
  dst :: "u8"
  src :: "u8"
  rm :: "u8"

record FenceArgs =
  opcode :: FenceOpcode
  dst :: "u8"
  src :: "u8"
  sw :: bool
  sr :: bool
  so :: bool
  si :: bool
  pw :: bool
  pr :: bool
  po :: bool
  pi :: bool

record FenceIArgs =
  dst :: "u8"
  src :: "u8"
  imm :: "u16"

record FmaArgs =
  opcode :: FmaOpcode
  operand_type :: FloatOperandType
  dst :: "u8"
  src1 :: "u8"
  src2 :: "u8"
  src3 :: "u8"
  rm :: "u8"

record JumpAndLinkArgs =
  dst :: "u8"
  offset :: "u32"
  insn_len :: "u8"

record JumpAndLinkRegisterArgs =
  dst :: "u8"
  base :: "u8"
  offset :: "u16"
  insn_len :: "u8"

record 't OpArgsTemplate =
  opcode :: 't
  dst :: "u8"
  src1 :: "u8"
  src2 :: "u8"

type_synonym OpArgs = "OpOpcode OpArgsTemplate"
type_synonym Op32Args = "Op32Opcode OpArgsTemplate"

record OpSingleInputArgs =
  opcode :: OpSingleInputOpcode
  dst :: "u8"
  src :: "u8"

record OpFpArgs =
  opcode :: OpFpOpcode
  operand_type :: FloatOperandType
  dst :: "u8"
  src1 :: "u8"
  src2 :: "u8"
  rm :: "u8"

record OpFpGpRegisterTargetNoRoundingArgs =
  opcode :: OpFpGpRegisterTargetNoRoundingOpcode
  operand_type :: FloatOperandType
  dst :: "u8"
  src1 :: "u8"
  src2 :: "u8"

record OpFpGpRegisterTargetSingleInputNoRoundingArgs =
  opcode :: OpFpGpRegisterTargetSingleInputNoRoundingOpcode
  operand_type :: FloatOperandType
  dst :: "u8"
  src :: "u8"

record FmvFloatToIntegerArgs =
  operand_type :: FloatOperandType
  dst :: "u8"
  src :: "u8"

record FmvIntegerToFloatArgs =
  operand_type :: FloatOperandType
  dst :: "u8"
  src :: "u8"

record OpFpNoRoundingArgs =
  opcode :: OpFpNoRoundingOpcode
  operand_type :: FloatOperandType
  dst :: "u8"
  src1 :: "u8"
  src2 :: "u8"

record OpFpSingleInputArgs =
  opcode :: OpFpSingleInputOpcode
  operand_type :: FloatOperandType
  dst :: "u8"
  src :: "u8"
  rm :: "u8"

record OpFpSingleInputNoRoundingArgs =
  opcode :: OpFpSingleInputNoRoundingOpcode
  operand_type :: FloatOperandType
  dst :: "u8"
  src :: "u8"

record 't OpImmArgsTemplate =
  opcode :: 't
  dst :: "u8"
  src :: "u8"
  imm :: "u16"

type_synonym OpImmArgs = "OpImmOpcode OpImmArgsTemplate"
type_synonym OpImm32Args = "OpImm32Opcode OpImmArgsTemplate"

record 't LoadArgsTemplate =
  operand_type :: 't
  dst :: "u8"
  src :: "u8"
  offset :: "u16"

type_synonym LoadArgs = "LoadOperandType LoadArgsTemplate"
type_synonym LoadFpArgs = "FloatOperandType LoadArgsTemplate"

record 't ShiftImmArgsTemplate =
  opcode :: 't
  dst :: "u8"
  src :: "u8"
  imm :: "u8"

type_synonym ShiftImmArgs = "ShiftImmOpcode ShiftImmArgsTemplate"
type_synonym ShiftImm32Args = "ShiftImm32Opcode ShiftImmArgsTemplate"

record 't BitmanipImmArgsTemplate =
  opcode :: 't
  dst :: "u8"
  src :: "u8"
  shamt :: "u8"

type_synonym BitmanipImmArgs = "BitmanipImmOpcode BitmanipImmArgsTemplate"
type_synonym BitmanipImm32Args = "BitmanipImm32Opcode BitmanipImmArgsTemplate"

record 't StoreArgsTemplate =
  operand_type :: 't
  src :: "u8"
  offset :: "u16"
  data :: "u8"

type_synonym StoreArgs = "MemoryDataOperandType StoreArgsTemplate"
type_synonym StoreFpArgs = "FloatOperandType StoreArgsTemplate"

record SystemArgs =
  opcode :: SystemOpcode

record UpperImmArgs =
  dst :: "u8"
  imm :: "u32"

end
