(* ===== verification/Decoder_Vector_Opcodes_A.thy ===== *)
theory Decoder_Vector_Opcodes_A
  imports Prelude
begin

text \<open>
  The vector \<open>enum class\<close> types of \<open>Decoder<InsnConsumer>\<close> (loads, stores, floating-point and
  immediate operations), in the
  form explained in theory \<open>Decoder_Opcodes\<close>.
\<close>

text \<open>\<open>VLUmOpOpcode\<close>, lines 241 to 246.\<close>

datatype (plugins only: code) VLUmOpOpcode =
    kVleXX
  | kVlXreXX
  | kVleXXff
  | kVlm
  | VLUmOpOpcode_other "8 word"

primrec VLUmOpOpcode_val :: "VLUmOpOpcode \<Rightarrow> 8 word" where
    "VLUmOpOpcode_val kVleXX = 0b00000"
  | "VLUmOpOpcode_val kVlXreXX = 0b01000"
  | "VLUmOpOpcode_val kVleXXff = 0b10000"
  | "VLUmOpOpcode_val kVlm = 0b01011"
  | "VLUmOpOpcode_val (VLUmOpOpcode_other w) = w"

definition VLUmOpOpcode_named :: "VLUmOpOpcode list" where
  "VLUmOpOpcode_named =
    [kVleXX,
     kVlXreXX,
     kVleXXff,
     kVlm]"

definition VLUmOpOpcode_of :: "8 word \<Rightarrow> VLUmOpOpcode" where
  "VLUmOpOpcode_of = enum_cast VLUmOpOpcode_val VLUmOpOpcode_named VLUmOpOpcode_other"

interpretation VLUmOpOpcode_cast: enum_class VLUmOpOpcode_of VLUmOpOpcode_val VLUmOpOpcode_named
  unfolding VLUmOpOpcode_of_def
  by unfold_locales (rule enum_cast_value, simp, rule enum_cast_named, simp_all add: VLUmOpOpcode_named_def)

text \<open>\<open>VOpFVfOpcode\<close>, lines 248 to 287.\<close>

datatype (plugins only: code) VOpFVfOpcode =
    kVfaddvf
  | kVfsubvf
  | kVfminvf
  | kVfmaxvf
  | kVfsgnjvf
  | kVfsgnjnvf
  | kVfsgnjxvf
  | kVfslide1upvf
  | kVfslide1downvf
  | kVfmvsf
  | kVfmergevf
  | kVmfeqvf
  | kVmflevf
  | kVmfltvf
  | kVmfnevf
  | kVmfgtvf
  | kVmfgevf
  | kVfdivvf
  | kVfrdivvf
  | kVfmulvf
  | kVfrsubvf
  | kVfmaddvf
  | kVfnmaddvf
  | kVfmsubvf
  | kVfnmsubvf
  | kVfmaccvf
  | kVfnmaccvf
  | kVfmsacvf
  | kVfnmsacvf
  | kVfwaddvf
  | kVfwsubvf
  | kVfwaddwf
  | kVfwsubwf
  | kVfwmulvf
  | kVfwmaccvf
  | kVfwnmaccvf
  | kVfwmsacvf
  | kVfwnmsacvf
  | VOpFVfOpcode_other "8 word"

primrec VOpFVfOpcode_val :: "VOpFVfOpcode \<Rightarrow> 8 word" where
    "VOpFVfOpcode_val kVfaddvf = 0b000000"
  | "VOpFVfOpcode_val kVfsubvf = 0b000010"
  | "VOpFVfOpcode_val kVfminvf = 0b000100"
  | "VOpFVfOpcode_val kVfmaxvf = 0b000110"
  | "VOpFVfOpcode_val kVfsgnjvf = 0b001000"
  | "VOpFVfOpcode_val kVfsgnjnvf = 0b001001"
  | "VOpFVfOpcode_val kVfsgnjxvf = 0b001010"
  | "VOpFVfOpcode_val kVfslide1upvf = 0b001110"
  | "VOpFVfOpcode_val kVfslide1downvf = 0b001111"
  | "VOpFVfOpcode_val kVfmvsf = 0b010000"
  | "VOpFVfOpcode_val kVfmergevf = 0b010111"
  | "VOpFVfOpcode_val kVmfeqvf = 0b011000"
  | "VOpFVfOpcode_val kVmflevf = 0b011001"
  | "VOpFVfOpcode_val kVmfltvf = 0b011011"
  | "VOpFVfOpcode_val kVmfnevf = 0b011100"
  | "VOpFVfOpcode_val kVmfgtvf = 0b011101"
  | "VOpFVfOpcode_val kVmfgevf = 0b011111"
  | "VOpFVfOpcode_val kVfdivvf = 0b100000"
  | "VOpFVfOpcode_val kVfrdivvf = 0b100001"
  | "VOpFVfOpcode_val kVfmulvf = 0b100100"
  | "VOpFVfOpcode_val kVfrsubvf = 0b100111"
  | "VOpFVfOpcode_val kVfmaddvf = 0b101000"
  | "VOpFVfOpcode_val kVfnmaddvf = 0b101001"
  | "VOpFVfOpcode_val kVfmsubvf = 0b101010"
  | "VOpFVfOpcode_val kVfnmsubvf = 0b101011"
  | "VOpFVfOpcode_val kVfmaccvf = 0b101100"
  | "VOpFVfOpcode_val kVfnmaccvf = 0b101101"
  | "VOpFVfOpcode_val kVfmsacvf = 0b101110"
  | "VOpFVfOpcode_val kVfnmsacvf = 0b101111"
  | "VOpFVfOpcode_val kVfwaddvf = 0b110000"
  | "VOpFVfOpcode_val kVfwsubvf = 0b110010"
  | "VOpFVfOpcode_val kVfwaddwf = 0b110100"
  | "VOpFVfOpcode_val kVfwsubwf = 0b110110"
  | "VOpFVfOpcode_val kVfwmulvf = 0b111000"
  | "VOpFVfOpcode_val kVfwmaccvf = 0b111100"
  | "VOpFVfOpcode_val kVfwnmaccvf = 0b111101"
  | "VOpFVfOpcode_val kVfwmsacvf = 0b111110"
  | "VOpFVfOpcode_val kVfwnmsacvf = 0b111111"
  | "VOpFVfOpcode_val (VOpFVfOpcode_other w) = w"

definition VOpFVfOpcode_named :: "VOpFVfOpcode list" where
  "VOpFVfOpcode_named =
    [kVfaddvf,
     kVfsubvf,
     kVfminvf,
     kVfmaxvf,
     kVfsgnjvf,
     kVfsgnjnvf,
     kVfsgnjxvf,
     kVfslide1upvf,
     kVfslide1downvf,
     kVfmvsf,
     kVfmergevf,
     kVmfeqvf,
     kVmflevf,
     kVmfltvf,
     kVmfnevf,
     kVmfgtvf,
     kVmfgevf,
     kVfdivvf,
     kVfrdivvf,
     kVfmulvf,
     kVfrsubvf,
     kVfmaddvf,
     kVfnmaddvf,
     kVfmsubvf,
     kVfnmsubvf,
     kVfmaccvf,
     kVfnmaccvf,
     kVfmsacvf,
     kVfnmsacvf,
     kVfwaddvf,
     kVfwsubvf,
     kVfwaddwf,
     kVfwsubwf,
     kVfwmulvf,
     kVfwmaccvf,
     kVfwnmaccvf,
     kVfwmsacvf,
     kVfwnmsacvf]"

definition VOpFVfOpcode_of :: "8 word \<Rightarrow> VOpFVfOpcode" where
  "VOpFVfOpcode_of = enum_cast VOpFVfOpcode_val VOpFVfOpcode_named VOpFVfOpcode_other"

interpretation VOpFVfOpcode_cast: enum_class VOpFVfOpcode_of VOpFVfOpcode_val VOpFVfOpcode_named
  unfolding VOpFVfOpcode_of_def
  by unfold_locales (rule enum_cast_value, simp, rule enum_cast_named, simp_all add: VOpFVfOpcode_named_def)

text \<open>\<open>VOpFVvOpcode\<close>, lines 289 to 329.\<close>

datatype (plugins only: code) VOpFVvOpcode =
    kVfaddvv
  | kVfredusumvs
  | kVfsubvv
  | kVfredosumvs
  | kVfminvv
  | kVfredminvs
  | kVfmaxvv
  | kVfredmaxvs
  | kVfsgnjvv
  | kVfsgnjnvv
  | kVfsgnjxvv
  | kVfmvfs
  | kVFUnary0
  | kVFUnary1
  | kVmfeqvv
  | kVmflevv
  | kVmfltvv
  | kVmfnevv
  | kVfdivvv
  | kVfmulvv
  | kVfmaddvv
  | kVfnmaddvv
  | kVfmsubvv
  | kVfnmsubvv
  | kVfmaccvv
  | kVfnmaccvv
  | kVfmsacvv
  | kVfnmsacvv
  | kVfwaddvv
  | kVfwredusumvs
  | kVfwsubvv
  | kVfwredosumvs
  | kVfwaddwv
  | kVfwsubwv
  | kVfwmulvv
  | kVfwmaccvv
  | kVfwnmaccvv
  | kVfwmsacvv
  | kVfwnmsacvv
  | VOpFVvOpcode_other "8 word"

primrec VOpFVvOpcode_val :: "VOpFVvOpcode \<Rightarrow> 8 word" where
    "VOpFVvOpcode_val kVfaddvv = 0b000000"
  | "VOpFVvOpcode_val kVfredusumvs = 0b000001"
  | "VOpFVvOpcode_val kVfsubvv = 0b000010"
  | "VOpFVvOpcode_val kVfredosumvs = 0b000011"
  | "VOpFVvOpcode_val kVfminvv = 0b000100"
  | "VOpFVvOpcode_val kVfredminvs = 0b000101"
  | "VOpFVvOpcode_val kVfmaxvv = 0b000110"
  | "VOpFVvOpcode_val kVfredmaxvs = 0b000111"
  | "VOpFVvOpcode_val kVfsgnjvv = 0b001000"
  | "VOpFVvOpcode_val kVfsgnjnvv = 0b001001"
  | "VOpFVvOpcode_val kVfsgnjxvv = 0b001010"
  | "VOpFVvOpcode_val kVfmvfs = 0b010000"
  | "VOpFVvOpcode_val kVFUnary0 = 0b010010"
  | "VOpFVvOpcode_val kVFUnary1 = 0b010011"
  | "VOpFVvOpcode_val kVmfeqvv = 0b011000"
  | "VOpFVvOpcode_val kVmflevv = 0b011001"
  | "VOpFVvOpcode_val kVmfltvv = 0b011011"
  | "VOpFVvOpcode_val kVmfnevv = 0b011100"
  | "VOpFVvOpcode_val kVfdivvv = 0b100000"
  | "VOpFVvOpcode_val kVfmulvv = 0b100100"
  | "VOpFVvOpcode_val kVfmaddvv = 0b101000"
  | "VOpFVvOpcode_val kVfnmaddvv = 0b101001"
  | "VOpFVvOpcode_val kVfmsubvv = 0b101010"
  | "VOpFVvOpcode_val kVfnmsubvv = 0b101011"
  | "VOpFVvOpcode_val kVfmaccvv = 0b101100"
  | "VOpFVvOpcode_val kVfnmaccvv = 0b101101"
  | "VOpFVvOpcode_val kVfmsacvv = 0b101110"
  | "VOpFVvOpcode_val kVfnmsacvv = 0b101111"
  | "VOpFVvOpcode_val kVfwaddvv = 0b110000"
  | "VOpFVvOpcode_val kVfwredusumvs = 0b110001"
  | "VOpFVvOpcode_val kVfwsubvv = 0b110010"
  | "VOpFVvOpcode_val kVfwredosumvs = 0b110011"
  | "VOpFVvOpcode_val kVfwaddwv = 0b110100"
  | "VOpFVvOpcode_val kVfwsubwv = 0b110110"
  | "VOpFVvOpcode_val kVfwmulvv = 0b111000"
  | "VOpFVvOpcode_val kVfwmaccvv = 0b111100"
  | "VOpFVvOpcode_val kVfwnmaccvv = 0b111101"
  | "VOpFVvOpcode_val kVfwmsacvv = 0b111110"
  | "VOpFVvOpcode_val kVfwnmsacvv = 0b111111"
  | "VOpFVvOpcode_val (VOpFVvOpcode_other w) = w"

definition VOpFVvOpcode_named :: "VOpFVvOpcode list" where
  "VOpFVvOpcode_named =
    [kVfaddvv,
     kVfredusumvs,
     kVfsubvv,
     kVfredosumvs,
     kVfminvv,
     kVfredminvs,
     kVfmaxvv,
     kVfredmaxvs,
     kVfsgnjvv,
     kVfsgnjnvv,
     kVfsgnjxvv,
     kVfmvfs,
     kVFUnary0,
     kVFUnary1,
     kVmfeqvv,
     kVmflevv,
     kVmfltvv,
     kVmfnevv,
     kVfdivvv,
     kVfmulvv,
     kVfmaddvv,
     kVfnmaddvv,
     kVfmsubvv,
     kVfnmsubvv,
     kVfmaccvv,
     kVfnmaccvv,
     kVfmsacvv,
     kVfnmsacvv,
     kVfwaddvv,
     kVfwredusumvs,
     kVfwsubvv,
     kVfwredosumvs,
     kVfwaddwv,
     kVfwsubwv,
     kVfwmulvv,
     kVfwmaccvv,
     kVfwnmaccvv,
     kVfwmsacvv,
     kVfwnmsacvv]"

definition VOpFVvOpcode_of :: "8 word \<Rightarrow> VOpFVvOpcode" where
  "VOpFVvOpcode_of = enum_cast VOpFVvOpcode_val VOpFVvOpcode_named VOpFVvOpcode_other"

interpretation VOpFVvOpcode_cast: enum_class VOpFVvOpcode_of VOpFVvOpcode_val VOpFVvOpcode_named
  unfolding VOpFVvOpcode_of_def
  by unfold_locales (rule enum_cast_value, simp, rule enum_cast_named, simp_all add: VOpFVvOpcode_named_def)

text \<open>\<open>VOpIViOpcode\<close>, lines 331 to 361.\<close>

datatype (plugins only: code) VOpIViOpcode =
    kVaddvi
  | kVrsubvi
  | kVandvi
  | kVorvi
  | kVxorvi
  | kVrgathervi
  | kVslideupvi
  | kVslidedownvi
  | kVadcvi
  | kVmadcvi
  | kVmergevi
  | kVmseqvi
  | kVmsnevi
  | kVmsleuvi
  | kVmslevi
  | kVmsgtuvi
  | kVmsgtvi
  | kVsadduvi
  | kVsaddvi
  | kVsllvi
  | kVmvXrv
  | kVsrlvi
  | kVsravi
  | kVssrlvi
  | kVssravi
  | kVnsrlwi
  | kVnsrawi
  | kVnclipuwi
  | kVnclipwi
  | VOpIViOpcode_other "8 word"

primrec VOpIViOpcode_val :: "VOpIViOpcode \<Rightarrow> 8 word" where
    "VOpIViOpcode_val kVaddvi = 0b000000"
  | "VOpIViOpcode_val kVrsubvi = 0b000011"
  | "VOpIViOpcode_val kVandvi = 0b001001"
  | "VOpIViOpcode_val kVorvi = 0b001010"
  | "VOpIViOpcode_val kVxorvi = 0b001011"
  | "VOpIViOpcode_val kVrgathervi = 0b001100"
  | "VOpIViOpcode_val kVslideupvi = 0b001110"
  | "VOpIViOpcode_val kVslidedownvi = 0b001111"
  | "VOpIViOpcode_val kVadcvi = 0b010000"
  | "VOpIViOpcode_val kVmadcvi = 0b010001"
  | "VOpIViOpcode_val kVmergevi = 0b010111"
  | "VOpIViOpcode_val kVmseqvi = 0b011000"
  | "VOpIViOpcode_val kVmsnevi = 0b011001"
  | "VOpIViOpcode_val kVmsleuvi = 0b011100"
  | "VOpIViOpcode_val kVmslevi = 0b011101"
  | "VOpIViOpcode_val kVmsgtuvi = 0b011110"
  | "VOpIViOpcode_val kVmsgtvi = 0b011111"
  | "VOpIViOpcode_val kVsadduvi = 0b100000"
  | "VOpIViOpcode_val kVsaddvi = 0b100001"
  | "VOpIViOpcode_val kVsllvi = 0b100101"
  | "VOpIViOpcode_val kVmvXrv = 0b100111"
  | "VOpIViOpcode_val kVsrlvi = 0b101000"
  | "VOpIViOpcode_val kVsravi = 0b101001"
  | "VOpIViOpcode_val kVssrlvi = 0b101010"
  | "VOpIViOpcode_val kVssravi = 0b101011"
  | "VOpIViOpcode_val kVnsrlwi = 0b101100"
  | "VOpIViOpcode_val kVnsrawi = 0b101101"
  | "VOpIViOpcode_val kVnclipuwi = 0b101110"
  | "VOpIViOpcode_val kVnclipwi = 0b101111"
  | "VOpIViOpcode_val (VOpIViOpcode_other w) = w"

definition VOpIViOpcode_named :: "VOpIViOpcode list" where
  "VOpIViOpcode_named =
    [kVaddvi,
     kVrsubvi,
     kVandvi,
     kVorvi,
     kVxorvi,
     kVrgathervi,
     kVslideupvi,
     kVslidedownvi,
     kVadcvi,
     kVmadcvi,
     kVmergevi,
     kVmseqvi,
     kVmsnevi,
     kVmsleuvi,
     kVmslevi,
     kVmsgtuvi,
     kVmsgtvi,
     kVsadduvi,
     kVsaddvi,
     kVsllvi,
     kVmvXrv,
     kVsrlvi,
     kVsravi,
     kVssrlvi,
     kVssravi,
     kVnsrlwi,
     kVnsrawi,
     kVnclipuwi,
     kVnclipwi]"

definition VOpIViOpcode_of :: "8 word \<Rightarrow> VOpIViOpcode" where
  "VOpIViOpcode_of = enum_cast VOpIViOpcode_val VOpIViOpcode_named VOpIViOpcode_other"

interpretation VOpIViOpcode_cast: enum_class VOpIViOpcode_of VOpIViOpcode_val VOpIViOpcode_named
  unfolding VOpIViOpcode_of_def
  by unfold_locales (rule enum_cast_value, simp, rule enum_cast_named, simp_all add: VOpIViOpcode_named_def)

text \<open>\<open>VOpMVxOpcode\<close>, lines 499 to 534.\<close>

datatype (plugins only: code) VOpMVxOpcode =
    kVaadduvx
  | kVaaddvx
  | kVasubuvx
  | kVasubvx
  | kVslide1upvx
  | kVslide1downvx
  | kVRXUnary0
  | kVdivuvx
  | kVdivvx
  | kVremuvx
  | kVremvx
  | kVmulhuvx
  | kVmulvx
  | kVmulhsuvx
  | kVmulhvx
  | kVmaddvx
  | kVnmsubvx
  | kVmaccvx
  | kVnmsacvx
  | kVwadduvx
  | kVwaddvx
  | kVwsubuvx
  | kVwsubvx
  | kVwadduwx
  | kVwaddwx
  | kVwsubuwx
  | kVwsubwx
  | kVwmuluvx
  | kVwmulsuvx
  | kVwmulvx
  | kVwmaccuvx
  | kVwmaccvx
  | kVwmaccusvx
  | kVwmaccsuvx
  | VOpMVxOpcode_other "8 word"

primrec VOpMVxOpcode_val :: "VOpMVxOpcode \<Rightarrow> 8 word" where
    "VOpMVxOpcode_val kVaadduvx = 0b001000"
  | "VOpMVxOpcode_val kVaaddvx = 0b001001"
  | "VOpMVxOpcode_val kVasubuvx = 0b001010"
  | "VOpMVxOpcode_val kVasubvx = 0b001011"
  | "VOpMVxOpcode_val kVslide1upvx = 0b001110"
  | "VOpMVxOpcode_val kVslide1downvx = 0b001111"
  | "VOpMVxOpcode_val kVRXUnary0 = 0b010000"
  | "VOpMVxOpcode_val kVdivuvx = 0b100000"
  | "VOpMVxOpcode_val kVdivvx = 0b100001"
  | "VOpMVxOpcode_val kVremuvx = 0b100010"
  | "VOpMVxOpcode_val kVremvx = 0b100011"
  | "VOpMVxOpcode_val kVmulhuvx = 0b100100"
  | "VOpMVxOpcode_val kVmulvx = 0b100101"
  | "VOpMVxOpcode_val kVmulhsuvx = 0b100110"
  | "VOpMVxOpcode_val kVmulhvx = 0b100111"
  | "VOpMVxOpcode_val kVmaddvx = 0b101001"
  | "VOpMVxOpcode_val kVnmsubvx = 0b101011"
  | "VOpMVxOpcode_val kVmaccvx = 0b101101"
  | "VOpMVxOpcode_val kVnmsacvx = 0b101111"
  | "VOpMVxOpcode_val kVwadduvx = 0b110000"
  | "VOpMVxOpcode_val kVwaddvx = 0b110001"
  | "VOpMVxOpcode_val kVwsubuvx = 0b110010"
  | "VOpMVxOpcode_val kVwsubvx = 0b110011"
  | "VOpMVxOpcode_val kVwadduwx = 0b110100"
  | "VOpMVxOpcode_val kVwaddwx = 0b110101"
  | "VOpMVxOpcode_val kVwsubuwx = 0b110110"
  | "VOpMVxOpcode_val kVwsubwx = 0b110111"
  | "VOpMVxOpcode_val kVwmuluvx = 0b111000"
  | "VOpMVxOpcode_val kVwmulsuvx = 0b111010"
  | "VOpMVxOpcode_val kVwmulvx = 0b111011"
  | "VOpMVxOpcode_val kVwmaccuvx = 0b111100"
  | "VOpMVxOpcode_val kVwmaccvx = 0b111101"
  | "VOpMVxOpcode_val kVwmaccusvx = 0b111110"
  | "VOpMVxOpcode_val kVwmaccsuvx = 0b111111"
  | "VOpMVxOpcode_val (VOpMVxOpcode_other w) = w"

definition VOpMVxOpcode_named :: "VOpMVxOpcode list" where
  "VOpMVxOpcode_named =
    [kVaadduvx,
     kVaaddvx,
     kVasubuvx,
     kVasubvx,
     kVslide1upvx,
     kVslide1downvx,
     kVRXUnary0,
     kVdivuvx,
     kVdivvx,
     kVremuvx,
     kVremvx,
     kVmulhuvx,
     kVmulvx,
     kVmulhsuvx,
     kVmulhvx,
     kVmaddvx,
     kVnmsubvx,
     kVmaccvx,
     kVnmsacvx,
     kVwadduvx,
     kVwaddvx,
     kVwsubuvx,
     kVwsubvx,
     kVwadduwx,
     kVwaddwx,
     kVwsubuwx,
     kVwsubwx,
     kVwmuluvx,
     kVwmulsuvx,
     kVwmulvx,
     kVwmaccuvx,
     kVwmaccvx,
     kVwmaccusvx,
     kVwmaccsuvx]"

definition VOpMVxOpcode_of :: "8 word \<Rightarrow> VOpMVxOpcode" where
  "VOpMVxOpcode_of = enum_cast VOpMVxOpcode_val VOpMVxOpcode_named VOpMVxOpcode_other"

interpretation VOpMVxOpcode_cast: enum_class VOpMVxOpcode_of VOpMVxOpcode_val VOpMVxOpcode_named
  unfolding VOpMVxOpcode_of_def
  by unfold_locales (rule enum_cast_value, simp, rule enum_cast_named, simp_all add: VOpMVxOpcode_named_def)

text \<open>\<open>VSUmOpOpcode\<close>, lines 536 to 540.\<close>

datatype (plugins only: code) VSUmOpOpcode =
    kVseXX
  | kVsX
  | kVsm
  | VSUmOpOpcode_other "8 word"

primrec VSUmOpOpcode_val :: "VSUmOpOpcode \<Rightarrow> 8 word" where
    "VSUmOpOpcode_val kVseXX = 0b00000"
  | "VSUmOpOpcode_val kVsX = 0b01000"
  | "VSUmOpOpcode_val kVsm = 0b01011"
  | "VSUmOpOpcode_val (VSUmOpOpcode_other w) = w"

definition VSUmOpOpcode_named :: "VSUmOpOpcode list" where
  "VSUmOpOpcode_named =
    [kVseXX,
     kVsX,
     kVsm]"

definition VSUmOpOpcode_of :: "8 word \<Rightarrow> VSUmOpOpcode" where
  "VSUmOpOpcode_of = enum_cast VSUmOpOpcode_val VSUmOpOpcode_named VSUmOpOpcode_other"

interpretation VSUmOpOpcode_cast: enum_class VSUmOpOpcode_of VSUmOpOpcode_val VSUmOpOpcode_named
  unfolding VSUmOpOpcode_of_def
  by unfold_locales (rule enum_cast_value, simp, rule enum_cast_named, simp_all add: VSUmOpOpcode_named_def)

text \<open>\<open>VFUnary0Opcode\<close>, lines 542 to 564.\<close>

datatype (plugins only: code) VFUnary0Opcode =
    kVfcvtxufv
  | kVfcvtxfv
  | kVfcvtfxuv
  | kVfcvtfxv
  | kVfcvtrtzxufv
  | kVfcvtrtzxfv
  | kVfwcvtxufv
  | kVfwcvtxfv
  | kVfwcvtfxuv
  | kVfwcvtfxv
  | kVfwcvtffv
  | kVfwcvtrtzxufv
  | kVfwcvtrtzxfv
  | kVfncvtxufw
  | kVfncvtxfw
  | kVfncvtfxuw
  | kVfncvtfxw
  | kVfncvtffw
  | kVfncvtrodffw
  | kVfncvtrtzxufw
  | kVfncvtrtzxfw
  | VFUnary0Opcode_other "8 word"

primrec VFUnary0Opcode_val :: "VFUnary0Opcode \<Rightarrow> 8 word" where
    "VFUnary0Opcode_val kVfcvtxufv = 0b00000"
  | "VFUnary0Opcode_val kVfcvtxfv = 0b00001"
  | "VFUnary0Opcode_val kVfcvtfxuv = 0b00010"
  | "VFUnary0Opcode_val kVfcvtfxv = 0b00011"
  | "VFUnary0Opcode_val kVfcvtrtzxufv = 0b00110"
  | "VFUnary0Opcode_val kVfcvtrtzxfv = 0b00111"
  | "VFUnary0Opcode_val kVfwcvtxufv = 0b01000"
  | "VFUnary0Opcode_val kVfwcvtxfv = 0b01001"
  | "VFUnary0Opcode_val kVfwcvtfxuv = 0b01010"
  | "VFUnary0Opcode_val kVfwcvtfxv = 0b01011"
  | "VFUnary0Opcode_val kVfwcvtffv = 0b01100"
  | "VFUnary0Opcode_val kVfwcvtrtzxufv = 0b01110"
  | "VFUnary0Opcode_val kVfwcvtrtzxfv = 0b01111"
  | "VFUnary0Opcode_val kVfncvtxufw = 0b10000"
  | "VFUnary0Opcode_val kVfncvtxfw = 0b10001"
  | "VFUnary0Opcode_val kVfncvtfxuw = 0b10010"
  | "VFUnary0Opcode_val kVfncvtfxw = 0b10011"
  | "VFUnary0Opcode_val kVfncvtffw = 0b10100"
  | "VFUnary0Opcode_val kVfncvtrodffw = 0b10101"
  | "VFUnary0Opcode_val kVfncvtrtzxufw = 0b10110"
  | "VFUnary0Opcode_val kVfncvtrtzxfw = 0b10111"
  | "VFUnary0Opcode_val (VFUnary0Opcode_other w) = w"

definition VFUnary0Opcode_named :: "VFUnary0Opcode list" where
  "VFUnary0Opcode_named =
    [kVfcvtxufv,
     kVfcvtxfv,
     kVfcvtfxuv,
     kVfcvtfxv,
     kVfcvtrtzxufv,
     kVfcvtrtzxfv,
     kVfwcvtxufv,
     kVfwcvtxfv,
     kVfwcvtfxuv,
     kVfwcvtfxv,
     kVfwcvtffv,
     kVfwcvtrtzxufv,
     kVfwcvtrtzxfv,
     kVfncvtxufw,
     kVfncvtxfw,
     kVfncvtfxuw,
     kVfncvtfxw,
     kVfncvtffw,
     kVfncvtrodffw,
     kVfncvtrtzxufw,
     kVfncvtrtzxfw]"

definition VFUnary0Opcode_of :: "8 word \<Rightarrow> VFUnary0Opcode" where
  "VFUnary0Opcode_of = enum_cast VFUnary0Opcode_val VFUnary0Opcode_named VFUnary0Opcode_other"

interpretation VFUnary0Opcode_cast: enum_class VFUnary0Opcode_of VFUnary0Opcode_val VFUnary0Opcode_named
  unfolding VFUnary0Opcode_of_def
  by unfold_locales (rule enum_cast_value, simp, rule enum_cast_named, simp_all add: VFUnary0Opcode_named_def)

text \<open>\<open>VFUnary1Opcode\<close>, lines 566 to 570.\<close>

datatype (plugins only: code) VFUnary1Opcode =
    kVfsqrtv
  | kVfrsqrt7v
  | kVfclassv
  | VFUnary1Opcode_other "8 word"

primrec VFUnary1Opcode_val :: "VFUnary1Opcode \<Rightarrow> 8 word" where
    "VFUnary1Opcode_val kVfsqrtv = 0b00000"
  | "VFUnary1Opcode_val kVfrsqrt7v = 0b00100"
  | "VFUnary1Opcode_val kVfclassv = 0b10000"
  | "VFUnary1Opcode_val (VFUnary1Opcode_other w) = w"

definition VFUnary1Opcode_named :: "VFUnary1Opcode list" where
  "VFUnary1Opcode_named =
    [kVfsqrtv,
     kVfrsqrt7v,
     kVfclassv]"

definition VFUnary1Opcode_of :: "8 word \<Rightarrow> VFUnary1Opcode" where
  "VFUnary1Opcode_of = enum_cast VFUnary1Opcode_val VFUnary1Opcode_named VFUnary1Opcode_other"

interpretation VFUnary1Opcode_cast: enum_class VFUnary1Opcode_of VFUnary1Opcode_val VFUnary1Opcode_named
  unfolding VFUnary1Opcode_of_def
  by unfold_locales (rule enum_cast_value, simp, rule enum_cast_named, simp_all add: VFUnary1Opcode_named_def)

text \<open>\<open>VXUnary0Opcode\<close>, lines 590 to 598.\<close>

datatype (plugins only: code) VXUnary0Opcode =
    kVzextvf8m
  | kVsextvf8m
  | kVzextvf4m
  | kVsextvf4m
  | kVzextvf2m
  | kVsextvf2m
  | kVbrev8v
  | VXUnary0Opcode_other "8 word"

primrec VXUnary0Opcode_val :: "VXUnary0Opcode \<Rightarrow> 8 word" where
    "VXUnary0Opcode_val kVzextvf8m = 0b00010"
  | "VXUnary0Opcode_val kVsextvf8m = 0b00011"
  | "VXUnary0Opcode_val kVzextvf4m = 0b00100"
  | "VXUnary0Opcode_val kVsextvf4m = 0b00101"
  | "VXUnary0Opcode_val kVzextvf2m = 0b00110"
  | "VXUnary0Opcode_val kVsextvf2m = 0b00111"
  | "VXUnary0Opcode_val kVbrev8v = 0b01000"
  | "VXUnary0Opcode_val (VXUnary0Opcode_other w) = w"

definition VXUnary0Opcode_named :: "VXUnary0Opcode list" where
  "VXUnary0Opcode_named =
    [kVzextvf8m,
     kVsextvf8m,
     kVzextvf4m,
     kVsextvf4m,
     kVzextvf2m,
     kVsextvf2m,
     kVbrev8v]"

definition VXUnary0Opcode_of :: "8 word \<Rightarrow> VXUnary0Opcode" where
  "VXUnary0Opcode_of = enum_cast VXUnary0Opcode_val VXUnary0Opcode_named VXUnary0Opcode_other"

interpretation VXUnary0Opcode_cast: enum_class VXUnary0Opcode_of VXUnary0Opcode_val VXUnary0Opcode_named
  unfolding VXUnary0Opcode_of_def
  by unfold_locales (rule enum_cast_value, simp, rule enum_cast_named, simp_all add: VXUnary0Opcode_named_def)

end
