(* ===== verification/Decoder_Vector_Opcodes_B.thy ===== *)
theory Decoder_Vector_Opcodes_B
  imports Prelude
begin

text \<open>
  The vector \<open>enum class\<close> types of \<open>Decoder<InsnConsumer>\<close> (integer and mask operations), in the
  form explained in theory \<open>Decoder_Opcodes\<close>.
\<close>

text \<open>\<open>VOpIVvOpcode\<close>, lines 363 to 402.\<close>

datatype (plugins only: code) VOpIVvOpcode =
    kVaddvv
  | kVsubvv
  | kVminuvv
  | kVminvv
  | kVmaxuvv
  | kVmaxvv
  | kVandvv
  | kVorvv
  | kVxorvv
  | kVrgathervv
  | kVrgatherei16vv
  | kVadcvv
  | kVmadcvv
  | kVsbcvv
  | kVmsbcvv
  | kVmergevv
  | kVmseqvv
  | kVmsnevv
  | kVmsltuvv
  | kVmsltvv
  | kVmsleuvv
  | kVmslevv
  | kVsadduvv
  | kVsaddvv
  | kVssubuvv
  | kVssubvv
  | kVsllvv
  | kVsmulvv
  | kVsrlvv
  | kVsravv
  | kVssrlvv
  | kVssravv
  | kVnsrlwv
  | kVnsrawv
  | kVnclipuwv
  | kVnclipwv
  | kVwredsumuvs
  | kVwredsumvs
  | VOpIVvOpcode_other "8 word"

primrec VOpIVvOpcode_val :: "VOpIVvOpcode \<Rightarrow> 8 word" where
    "VOpIVvOpcode_val kVaddvv = 0b000000"
  | "VOpIVvOpcode_val kVsubvv = 0b000010"
  | "VOpIVvOpcode_val kVminuvv = 0b000100"
  | "VOpIVvOpcode_val kVminvv = 0b000101"
  | "VOpIVvOpcode_val kVmaxuvv = 0b000110"
  | "VOpIVvOpcode_val kVmaxvv = 0b000111"
  | "VOpIVvOpcode_val kVandvv = 0b001001"
  | "VOpIVvOpcode_val kVorvv = 0b001010"
  | "VOpIVvOpcode_val kVxorvv = 0b001011"
  | "VOpIVvOpcode_val kVrgathervv = 0b001100"
  | "VOpIVvOpcode_val kVrgatherei16vv = 0b001110"
  | "VOpIVvOpcode_val kVadcvv = 0b010000"
  | "VOpIVvOpcode_val kVmadcvv = 0b010001"
  | "VOpIVvOpcode_val kVsbcvv = 0b010010"
  | "VOpIVvOpcode_val kVmsbcvv = 0b010011"
  | "VOpIVvOpcode_val kVmergevv = 0b010111"
  | "VOpIVvOpcode_val kVmseqvv = 0b011000"
  | "VOpIVvOpcode_val kVmsnevv = 0b011001"
  | "VOpIVvOpcode_val kVmsltuvv = 0b011010"
  | "VOpIVvOpcode_val kVmsltvv = 0b011011"
  | "VOpIVvOpcode_val kVmsleuvv = 0b011100"
  | "VOpIVvOpcode_val kVmslevv = 0b011101"
  | "VOpIVvOpcode_val kVsadduvv = 0b100000"
  | "VOpIVvOpcode_val kVsaddvv = 0b100001"
  | "VOpIVvOpcode_val kVssubuvv = 0b100010"
  | "VOpIVvOpcode_val kVssubvv = 0b100011"
  | "VOpIVvOpcode_val kVsllvv = 0b100101"
  | "VOpIVvOpcode_val kVsmulvv = 0b100111"
  | "VOpIVvOpcode_val kVsrlvv = 0b101000"
  | "VOpIVvOpcode_val kVsravv = 0b101001"
  | "VOpIVvOpcode_val kVssrlvv = 0b101010"
  | "VOpIVvOpcode_val kVssravv = 0b101011"
  | "VOpIVvOpcode_val kVnsrlwv = 0b101100"
  | "VOpIVvOpcode_val kVnsrawv = 0b101101"
  | "VOpIVvOpcode_val kVnclipuwv = 0b101110"
  | "VOpIVvOpcode_val kVnclipwv = 0b101111"
  | "VOpIVvOpcode_val kVwredsumuvs = 0b110000"
  | "VOpIVvOpcode_val kVwredsumvs = 0b110001"
  | "VOpIVvOpcode_val (VOpIVvOpcode_other w) = w"

definition VOpIVvOpcode_named :: "VOpIVvOpcode list" where
  "VOpIVvOpcode_named =
    [kVaddvv,
     kVsubvv,
     kVminuvv,
     kVminvv,
     kVmaxuvv,
     kVmaxvv,
     kVandvv,
     kVorvv,
     kVxorvv,
     kVrgathervv,
     kVrgatherei16vv,
     kVadcvv,
     kVmadcvv,
     kVsbcvv,
     kVmsbcvv,
     kVmergevv,
     kVmseqvv,
     kVmsnevv,
     kVmsltuvv,
     kVmsltvv,
     kVmsleuvv,
     kVmslevv,
     kVsadduvv,
     kVsaddvv,
     kVssubuvv,
     kVssubvv,
     kVsllvv,
     kVsmulvv,
     kVsrlvv,
     kVsravv,
     kVssrlvv,
     kVssravv,
     kVnsrlwv,
     kVnsrawv,
     kVnclipuwv,
     kVnclipwv,
     kVwredsumuvs,
     kVwredsumvs]"

definition VOpIVvOpcode_of :: "8 word \<Rightarrow> VOpIVvOpcode" where
  "VOpIVvOpcode_of = enum_cast VOpIVvOpcode_val VOpIVvOpcode_named VOpIVvOpcode_other"

interpretation VOpIVvOpcode_cast: enum_class VOpIVvOpcode_of VOpIVvOpcode_val VOpIVvOpcode_named
  unfolding VOpIVvOpcode_of_def
  by unfold_locales (rule enum_cast_value, simp, rule enum_cast_named, simp_all add: VOpIVvOpcode_named_def)

text \<open>\<open>VOpIVxOpcode\<close>, lines 404 to 445.\<close>

datatype (plugins only: code) VOpIVxOpcode =
    kVaddvx
  | kVsubvx
  | kVrsubvx
  | kVminuvx
  | kVminvx
  | kVmaxuvx
  | kVmaxvx
  | kVandvx
  | kVorvx
  | kVxorvx
  | kVrgathervx
  | kVslideupvx
  | kVslidedownvx
  | kVadcvx
  | kVmadcvx
  | kVsbcvx
  | kVmsbcvx
  | kVmergevx
  | kVmseqvx
  | kVmsnevx
  | kVmsltuvx
  | kVmsltvx
  | kVmsleuvx
  | kVmslevx
  | kVmsgtuvx
  | kVmsgtvx
  | kVsadduvx
  | kVsaddvx
  | kVssubuvx
  | kVssubvx
  | kVsllvx
  | kVsmulvx
  | kVsrlvx
  | kVsravx
  | kVssrlvx
  | kVssravx
  | kVnsrlwx
  | kVnsrawx
  | kVnclipuwx
  | kVnclipwx
  | VOpIVxOpcode_other "8 word"

primrec VOpIVxOpcode_val :: "VOpIVxOpcode \<Rightarrow> 8 word" where
    "VOpIVxOpcode_val kVaddvx = 0b000000"
  | "VOpIVxOpcode_val kVsubvx = 0b000010"
  | "VOpIVxOpcode_val kVrsubvx = 0b000011"
  | "VOpIVxOpcode_val kVminuvx = 0b000100"
  | "VOpIVxOpcode_val kVminvx = 0b000101"
  | "VOpIVxOpcode_val kVmaxuvx = 0b000110"
  | "VOpIVxOpcode_val kVmaxvx = 0b000111"
  | "VOpIVxOpcode_val kVandvx = 0b001001"
  | "VOpIVxOpcode_val kVorvx = 0b001010"
  | "VOpIVxOpcode_val kVxorvx = 0b001011"
  | "VOpIVxOpcode_val kVrgathervx = 0b001100"
  | "VOpIVxOpcode_val kVslideupvx = 0b001110"
  | "VOpIVxOpcode_val kVslidedownvx = 0b001111"
  | "VOpIVxOpcode_val kVadcvx = 0b010000"
  | "VOpIVxOpcode_val kVmadcvx = 0b010001"
  | "VOpIVxOpcode_val kVsbcvx = 0b010010"
  | "VOpIVxOpcode_val kVmsbcvx = 0b010011"
  | "VOpIVxOpcode_val kVmergevx = 0b010111"
  | "VOpIVxOpcode_val kVmseqvx = 0b011000"
  | "VOpIVxOpcode_val kVmsnevx = 0b011001"
  | "VOpIVxOpcode_val kVmsltuvx = 0b011010"
  | "VOpIVxOpcode_val kVmsltvx = 0b011011"
  | "VOpIVxOpcode_val kVmsleuvx = 0b011100"
  | "VOpIVxOpcode_val kVmslevx = 0b011101"
  | "VOpIVxOpcode_val kVmsgtuvx = 0b011110"
  | "VOpIVxOpcode_val kVmsgtvx = 0b011111"
  | "VOpIVxOpcode_val kVsadduvx = 0b100000"
  | "VOpIVxOpcode_val kVsaddvx = 0b100001"
  | "VOpIVxOpcode_val kVssubuvx = 0b100010"
  | "VOpIVxOpcode_val kVssubvx = 0b100011"
  | "VOpIVxOpcode_val kVsllvx = 0b100101"
  | "VOpIVxOpcode_val kVsmulvx = 0b100111"
  | "VOpIVxOpcode_val kVsrlvx = 0b101000"
  | "VOpIVxOpcode_val kVsravx = 0b101001"
  | "VOpIVxOpcode_val kVssrlvx = 0b101010"
  | "VOpIVxOpcode_val kVssravx = 0b101011"
  | "VOpIVxOpcode_val kVnsrlwx = 0b101100"
  | "VOpIVxOpcode_val kVnsrawx = 0b101101"
  | "VOpIVxOpcode_val kVnclipuwx = 0b101110"
  | "VOpIVxOpcode_val kVnclipwx = 0b101111"
  | "VOpIVxOpcode_val (VOpIVxOpcode_other w) = w"

definition VOpIVxOpcode_named :: "VOpIVxOpcode list" where
  "VOpIVxOpcode_named =
    [kVaddvx,
     kVsubvx,
     kVrsubvx,
     kVminuvx,
     kVminvx,
     kVmaxuvx,
     kVmaxvx,
     kVandvx,
     kVorvx,
     kVxorvx,
     kVrgathervx,
     kVslideupvx,
     kVslidedownvx,
     kVadcvx,
     kVmadcvx,
     kVsbcvx,
     kVmsbcvx,
     kVmergevx,
     kVmseqvx,
     kVmsnevx,
     kVmsltuvx,
     kVmsltvx,
     kVmsleuvx,
     kVmslevx,
     kVmsgtuvx,
     kVmsgtvx,
     kVsadduvx,
     kVsaddvx,
     kVssubuvx,
     kVssubvx,
     kVsllvx,
     kVsmulvx,
     kVsrlvx,
     kVsravx,
     kVssrlvx,
     kVssravx,
     kVnsrlwx,
     kVnsrawx,
     kVnclipuwx,
     kVnclipwx]"

definition VOpIVxOpcode_of :: "8 word \<Rightarrow> VOpIVxOpcode" where
  "VOpIVxOpcode_of = enum_cast VOpIVxOpcode_val VOpIVxOpcode_named VOpIVxOpcode_other"

interpretation VOpIVxOpcode_cast: enum_class VOpIVxOpcode_of VOpIVxOpcode_val VOpIVxOpcode_named
  unfolding VOpIVxOpcode_of_def
  by unfold_locales (rule enum_cast_value, simp, rule enum_cast_named, simp_all add: VOpIVxOpcode_named_def)

text \<open>\<open>VOpMVvOpcode\<close>, lines 447 to 497.\<close>

datatype (plugins only: code) VOpMVvOpcode =
    kVredsumvs
  | kVredandvs
  | kVredorvs
  | kVredxorvs
  | kVredminuvs
  | kVredminvs
  | kVredmaxuvs
  | kVredmaxvs
  | kVaadduvv
  | kVaaddvv
  | kVasubuvv
  | kVasubvv
  | kVWXUnary0
  | kVFUnary0
  | kVMUnary0
  | kVmandnmm
  | kVmandmm
  | kVmormm
  | kVmxormm
  | kVmornmm
  | kVmnandmm
  | kVmnormm
  | kVmxnormm
  | kVdivuvv
  | kVdivvv
  | kVremuvv
  | kVremvv
  | kVmulhuvv
  | kVmulvv
  | kVmulhsuvv
  | kVmulhvv
  | kVmaddvv
  | kVnmsubvv
  | kVmaccvv
  | kVnmsacvv
  | kVwadduvv
  | kVwaddvv
  | kVwsubuvv
  | kVwsubvv
  | kVwadduwv
  | kVwaddwv
  | kVwsubuwv
  | kVwsubwv
  | kVwmuluvv
  | kVwmulsuvv
  | kVwmulvv
  | kVwmaccuvv
  | kVwmaccvv
  | kVwmaccsuvv
  | VOpMVvOpcode_other "8 word"

primrec VOpMVvOpcode_val :: "VOpMVvOpcode \<Rightarrow> 8 word" where
    "VOpMVvOpcode_val kVredsumvs = 0b000000"
  | "VOpMVvOpcode_val kVredandvs = 0b000001"
  | "VOpMVvOpcode_val kVredorvs = 0b000010"
  | "VOpMVvOpcode_val kVredxorvs = 0b000011"
  | "VOpMVvOpcode_val kVredminuvs = 0b000100"
  | "VOpMVvOpcode_val kVredminvs = 0b000101"
  | "VOpMVvOpcode_val kVredmaxuvs = 0b000110"
  | "VOpMVvOpcode_val kVredmaxvs = 0b000111"
  | "VOpMVvOpcode_val kVaadduvv = 0b001000"
  | "VOpMVvOpcode_val kVaaddvv = 0b001001"
  | "VOpMVvOpcode_val kVasubuvv = 0b001010"
  | "VOpMVvOpcode_val kVasubvv = 0b001011"
  | "VOpMVvOpcode_val kVWXUnary0 = 0b010000"
  | "VOpMVvOpcode_val kVFUnary0 = 0b010010"
  | "VOpMVvOpcode_val kVMUnary0 = 0b010100"
  | "VOpMVvOpcode_val kVmandnmm = 0b011000"
  | "VOpMVvOpcode_val kVmandmm = 0b011001"
  | "VOpMVvOpcode_val kVmormm = 0b011010"
  | "VOpMVvOpcode_val kVmxormm = 0b011011"
  | "VOpMVvOpcode_val kVmornmm = 0b011100"
  | "VOpMVvOpcode_val kVmnandmm = 0b011101"
  | "VOpMVvOpcode_val kVmnormm = 0b011110"
  | "VOpMVvOpcode_val kVmxnormm = 0b011111"
  | "VOpMVvOpcode_val kVdivuvv = 0b100000"
  | "VOpMVvOpcode_val kVdivvv = 0b100001"
  | "VOpMVvOpcode_val kVremuvv = 0b100010"
  | "VOpMVvOpcode_val kVremvv = 0b100011"
  | "VOpMVvOpcode_val kVmulhuvv = 0b100100"
  | "VOpMVvOpcode_val kVmulvv = 0b100101"
  | "VOpMVvOpcode_val kVmulhsuvv = 0b100110"
  | "VOpMVvOpcode_val kVmulhvv = 0b100111"
  | "VOpMVvOpcode_val kVmaddvv = 0b101001"
  | "VOpMVvOpcode_val kVnmsubvv = 0b101011"
  | "VOpMVvOpcode_val kVmaccvv = 0b101101"
  | "VOpMVvOpcode_val kVnmsacvv = 0b101111"
  | "VOpMVvOpcode_val kVwadduvv = 0b110000"
  | "VOpMVvOpcode_val kVwaddvv = 0b110001"
  | "VOpMVvOpcode_val kVwsubuvv = 0b110010"
  | "VOpMVvOpcode_val kVwsubvv = 0b110011"
  | "VOpMVvOpcode_val kVwadduwv = 0b110100"
  | "VOpMVvOpcode_val kVwaddwv = 0b110101"
  | "VOpMVvOpcode_val kVwsubuwv = 0b110110"
  | "VOpMVvOpcode_val kVwsubwv = 0b110111"
  | "VOpMVvOpcode_val kVwmuluvv = 0b111000"
  | "VOpMVvOpcode_val kVwmulsuvv = 0b111010"
  | "VOpMVvOpcode_val kVwmulvv = 0b111011"
  | "VOpMVvOpcode_val kVwmaccuvv = 0b111100"
  | "VOpMVvOpcode_val kVwmaccvv = 0b111101"
  | "VOpMVvOpcode_val kVwmaccsuvv = 0b111111"
  | "VOpMVvOpcode_val (VOpMVvOpcode_other w) = w"

definition VOpMVvOpcode_named :: "VOpMVvOpcode list" where
  "VOpMVvOpcode_named =
    [kVredsumvs,
     kVredandvs,
     kVredorvs,
     kVredxorvs,
     kVredminuvs,
     kVredminvs,
     kVredmaxuvs,
     kVredmaxvs,
     kVaadduvv,
     kVaaddvv,
     kVasubuvv,
     kVasubvv,
     kVWXUnary0,
     kVFUnary0,
     kVMUnary0,
     kVmandnmm,
     kVmandmm,
     kVmormm,
     kVmxormm,
     kVmornmm,
     kVmnandmm,
     kVmnormm,
     kVmxnormm,
     kVdivuvv,
     kVdivvv,
     kVremuvv,
     kVremvv,
     kVmulhuvv,
     kVmulvv,
     kVmulhsuvv,
     kVmulhvv,
     kVmaddvv,
     kVnmsubvv,
     kVmaccvv,
     kVnmsacvv,
     kVwadduvv,
     kVwaddvv,
     kVwsubuvv,
     kVwsubvv,
     kVwadduwv,
     kVwaddwv,
     kVwsubuwv,
     kVwsubwv,
     kVwmuluvv,
     kVwmulsuvv,
     kVwmulvv,
     kVwmaccuvv,
     kVwmaccvv,
     kVwmaccsuvv]"

definition VOpMVvOpcode_of :: "8 word \<Rightarrow> VOpMVvOpcode" where
  "VOpMVvOpcode_of = enum_cast VOpMVvOpcode_val VOpMVvOpcode_named VOpMVvOpcode_other"

interpretation VOpMVvOpcode_cast: enum_class VOpMVvOpcode_of VOpMVvOpcode_val VOpMVvOpcode_named
  unfolding VOpMVvOpcode_of_def
  by unfold_locales (rule enum_cast_value, simp, rule enum_cast_named, simp_all add: VOpMVvOpcode_named_def)

text \<open>\<open>VRXUnary0Opcode\<close>, lines 572 to 574.\<close>

datatype (plugins only: code) VRXUnary0Opcode =
    kVmvsx
  | VRXUnary0Opcode_other "8 word"

primrec VRXUnary0Opcode_val :: "VRXUnary0Opcode \<Rightarrow> 8 word" where
    "VRXUnary0Opcode_val kVmvsx = 0b00000"
  | "VRXUnary0Opcode_val (VRXUnary0Opcode_other w) = w"

definition VRXUnary0Opcode_named :: "VRXUnary0Opcode list" where
  "VRXUnary0Opcode_named =
    [kVmvsx]"

definition VRXUnary0Opcode_of :: "8 word \<Rightarrow> VRXUnary0Opcode" where
  "VRXUnary0Opcode_of = enum_cast VRXUnary0Opcode_val VRXUnary0Opcode_named VRXUnary0Opcode_other"

interpretation VRXUnary0Opcode_cast: enum_class VRXUnary0Opcode_of VRXUnary0Opcode_val VRXUnary0Opcode_named
  unfolding VRXUnary0Opcode_of_def
  by unfold_locales (rule enum_cast_value, simp, rule enum_cast_named, simp_all add: VRXUnary0Opcode_named_def)

text \<open>\<open>VWXUnary0Opcode\<close>, lines 576 to 580.\<close>

datatype (plugins only: code) VWXUnary0Opcode =
    kVmvxs
  | kVcpopm
  | kVfirstm
  | VWXUnary0Opcode_other "8 word"

primrec VWXUnary0Opcode_val :: "VWXUnary0Opcode \<Rightarrow> 8 word" where
    "VWXUnary0Opcode_val kVmvxs = 0b00000"
  | "VWXUnary0Opcode_val kVcpopm = 0b10000"
  | "VWXUnary0Opcode_val kVfirstm = 0b10001"
  | "VWXUnary0Opcode_val (VWXUnary0Opcode_other w) = w"

definition VWXUnary0Opcode_named :: "VWXUnary0Opcode list" where
  "VWXUnary0Opcode_named =
    [kVmvxs,
     kVcpopm,
     kVfirstm]"

definition VWXUnary0Opcode_of :: "8 word \<Rightarrow> VWXUnary0Opcode" where
  "VWXUnary0Opcode_of = enum_cast VWXUnary0Opcode_val VWXUnary0Opcode_named VWXUnary0Opcode_other"

interpretation VWXUnary0Opcode_cast: enum_class VWXUnary0Opcode_of VWXUnary0Opcode_val VWXUnary0Opcode_named
  unfolding VWXUnary0Opcode_of_def
  by unfold_locales (rule enum_cast_value, simp, rule enum_cast_named, simp_all add: VWXUnary0Opcode_named_def)

text \<open>\<open>VMUnary0Opcode\<close>, lines 582 to 588.\<close>

datatype (plugins only: code) VMUnary0Opcode =
    kVmsbfm
  | kVmsofm
  | kVmsifm
  | kViotam
  | kVidv
  | VMUnary0Opcode_other "8 word"

primrec VMUnary0Opcode_val :: "VMUnary0Opcode \<Rightarrow> 8 word" where
    "VMUnary0Opcode_val kVmsbfm = 0b00001"
  | "VMUnary0Opcode_val kVmsofm = 0b00010"
  | "VMUnary0Opcode_val kVmsifm = 0b00011"
  | "VMUnary0Opcode_val kViotam = 0b10000"
  | "VMUnary0Opcode_val kVidv = 0b10001"
  | "VMUnary0Opcode_val (VMUnary0Opcode_other w) = w"

definition VMUnary0Opcode_named :: "VMUnary0Opcode list" where
  "VMUnary0Opcode_named =
    [kVmsbfm,
     kVmsofm,
     kVmsifm,
     kViotam,
     kVidv]"

definition VMUnary0Opcode_of :: "8 word \<Rightarrow> VMUnary0Opcode" where
  "VMUnary0Opcode_of = enum_cast VMUnary0Opcode_val VMUnary0Opcode_named VMUnary0Opcode_other"

interpretation VMUnary0Opcode_cast: enum_class VMUnary0Opcode_of VMUnary0Opcode_val VMUnary0Opcode_named
  unfolding VMUnary0Opcode_of_def
  by unfold_locales (rule enum_cast_value, simp, rule enum_cast_named, simp_all add: VMUnary0Opcode_named_def)

end
