(* ===== verification/Decoder_Vector_Args.thy ===== *)
theory Decoder_Vector_Args
  imports Decoder_Opcodes Decoder_Vector_Opcodes_A Decoder_Vector_Opcodes_B
begin

text \<open>
  The argument structures that \<open>Decoder<InsnConsumer>\<close> passes to its consumer for vector
  instructions. Where the source overlays opcode extensions on a register number (a \<open>union\<close>),
  the record has the member that the decoder writes, the raw \<open>uint8_t\<close>; the other members of
  the union are the casts of that value by the \<open>X_of\<close> of their enumeration.
\<close>

record VLoadIndexedArgs =
  width :: MemoryDataOperandType
  vm :: bool
  ordered :: bool
  nf :: "u8"
  dst :: "u8"
  src :: "u8"
  idx :: "u8"

record VLoadStrideArgs =
  width :: MemoryDataOperandType
  vm :: bool
  ordered :: bool
  nf :: "u8"
  dst :: "u8"
  src :: "u8"
  std :: "u8"

record VLoadUnitStrideArgs =
  opcode :: VLUmOpOpcode
  width :: MemoryDataOperandType
  vm :: bool
  nf :: "u8"
  dst :: "u8"
  src :: "u8"

record VOpFVfArgs =
  opcode :: VOpFVfOpcode
  vm :: bool
  dst :: "u8"
  src1 :: "u8"
  src2 :: "u8"

record VOpFVvArgs =
  opcode :: VOpFVvOpcode
  vm :: bool
  dst :: "u8"
  src1 :: "u8"
  src2 :: "u8"

record VOpIViArgs =
  opcode :: VOpIViOpcode
  vm :: bool
  dst :: "u8"
  src :: "u8"
  uimm :: "u8"

record VOpIVvArgs =
  opcode :: VOpIVvOpcode
  vm :: bool
  dst :: "u8"
  src1 :: "u8"
  src2 :: "u8"

record VOpIVxArgs =
  opcode :: VOpIVxOpcode
  vm :: bool
  dst :: "u8"
  src1 :: "u8"
  src2 :: "u8"

record VOpMVvArgs =
  opcode :: VOpMVvOpcode
  vm :: bool
  dst :: "u8"
  src1 :: "u8"
  src2 :: "u8"

record VOpMVxArgs =
  opcode :: VOpMVxOpcode
  vm :: bool
  dst :: "u8"
  src1 :: "u8"
  src2 :: "u8"

record VsetivliArgs =
  dst :: "u8"
  avl :: "u8"
  vtype :: "u16"

record VsetvliArgs =
  dst :: "u8"
  src :: "u8"
  vtype :: "u16"

record VsetvlArgs =
  dst :: "u8"
  src1 :: "u8"
  src2 :: "u8"

record VStoreIndexedArgs =
  width :: MemoryDataOperandType
  vm :: bool
  ordered :: bool
  nf :: "u8"
  src :: "u8"
  idx :: "u8"
  data :: "u8"

record VStoreStrideArgs =
  width :: MemoryDataOperandType
  vm :: bool
  ordered :: bool
  nf :: "u8"
  src :: "u8"
  std :: "u8"
  data :: "u8"

record VStoreUnitStrideArgs =
  opcode :: VSUmOpOpcode
  width :: MemoryDataOperandType
  vm :: bool
  nf :: "u8"
  src :: "u8"
  data :: "u8"

end
