(* ===== verification/Decoder_Calls.thy ===== *)
theory Decoder_Calls
  imports Decoder_Args Decoder_Vector_Args
begin

text \<open>
  What a decoder does to its consumer. \<open>Decoder<InsnConsumer>\<close> reports an instruction by calling
  the method of its consumer that belongs to it; here a call is a value, so that decoding returns
  the list of the calls it makes, in their order. The overloads of a method are told apart by a
  suffix.
\<close>

datatype (plugins only: code) vector_args =
    VLoadIndexed VLoadIndexedArgs
  | VLoadStride VLoadStrideArgs
  | VLoadUnitStride VLoadUnitStrideArgs
  | VOpFVf VOpFVfArgs
  | VOpFVv VOpFVvArgs
  | VOpIVi VOpIViArgs
  | VOpIVv VOpIVvArgs
  | VOpIVx VOpIVxArgs
  | VOpMVv VOpMVvArgs
  | VOpMVx VOpMVxArgs
  | VStoreIndexed VStoreIndexedArgs
  | VStoreStride VStoreStrideArgs
  | VStoreUnitStride VStoreUnitStrideArgs

datatype (plugins only: code) consumer_call =
    Amo AmoArgs
  | Auipc UpperImmArgs
  | CompareAndBranch BranchArgs
  | Csr CsrArgs
  | Csr_imm CsrImmArgs
  | Fcvt_float_to_float FcvtFloatToFloatArgs
  | Fcvt_float_to_integer FcvtFloatToIntegerArgs
  | Fcvt_integer_to_float FcvtIntegerToFloatArgs
  | Fence FenceArgs
  | FenceI FenceIArgs
  | Fma FmaArgs
  | FmvFloatToInteger FmvFloatToIntegerArgs
  | FmvIntegerToFloat FmvIntegerToFloatArgs
  | JumpAndLink JumpAndLinkArgs
  | JumpAndLinkRegister JumpAndLinkRegisterArgs
  | Load LoadArgs
  | Load_fp LoadFpArgs
  | Lui UpperImmArgs
  | Nop
  | Op OpArgs
  | Op_32 Op32Args
  | OpFp OpFpArgs
  | OpFpGpRegisterTargetNoRounding OpFpGpRegisterTargetNoRoundingArgs
  | OpFpGpRegisterTargetSingleInputNoRounding OpFpGpRegisterTargetSingleInputNoRoundingArgs
  | OpFpNoRounding OpFpNoRoundingArgs
  | OpFpSingleInput OpFpSingleInputArgs
  | OpFpSingleInputNoRounding OpFpSingleInputNoRoundingArgs
  | OpImm OpImmArgs
  | OpImm_32 OpImm32Args
  | OpImm_shift ShiftImmArgs
  | OpImm_shift_32 ShiftImm32Args
  | OpImm_bitmanip BitmanipImmArgs
  | OpImm_bitmanip_32 BitmanipImm32Args
  | OpSingleInput OpSingleInputArgs
  | OpVector vector_args
  | Store StoreArgs
  | Store_fp StoreFpArgs
  | System SystemArgs
  | Undefined
  | Vsetivli VsetivliArgs
  | Vsetvl VsetvlArgs
  | Vsetvli VsetvliArgs

section \<open>Reading the instruction word\<close>

text \<open>
  \<open>GetBits<start, size>\<close> shifts the field to the top of \<open>code_\<close> and back down. Its result type is
  the narrowest of \<open>bool\<close>, \<open>uint8_t\<close>, \<open>uint16_t\<close>, \<open>uint32_t\<close> that holds \<open>size\<close> bits; the model
  keeps the 32 bits, to which C++ promotes the value in an expression, and narrows it (\<open>ucast\<close>)
  where it is stored in a variable or a field. \<open>GetBit<start>\<close> is the \<open>bool\<close> case.
\<close>

definition GetBits :: "nat \<Rightarrow> nat \<Rightarrow> u32 \<Rightarrow> u32" where
  "GetBits start len code = drop_bit (32 - len) (push_bit (32 - start - len) code)"

definition GetBit :: "nat \<Rightarrow> u32 \<Rightarrow> bool" where
  "GetBit start code = (GetBits start 1 code \<noteq> 0)"

text \<open>\<open>SignExtend<size>\<close>: store in a signed bit field of \<open>size\<close> bits, and read it back.\<close>

definition SignExtend :: "nat \<Rightarrow> 'a::len word \<Rightarrow> 'a word" where
  "SignExtend len val = signed_take_bit (len - 1) val"

lemma GetBits_eq_take_bit:
  assumes "start + len \<le> 32" and "0 < len"
  shows "GetBits start len code = take_bit len (drop_bit start code)"
proof (rule bit_word_eqI)
  fix n :: nat
  assume n: "n < LENGTH(32)"
  show "bit (GetBits start len code) n \<longleftrightarrow> bit (take_bit len (drop_bit start code)) n"
    using assms n by (auto simp: GetBits_def bit_simps add.commute)
qed

lemma bit_GetBits [word_fields]:
  assumes "start + len \<le> 32" and "0 < len"
  shows "bit (GetBits start len code) n \<longleftrightarrow> n < len \<and> bit code (start + n)"
  using assms by (auto simp: GetBits_eq_take_bit bit_simps)

lemma GetBits_less:
  assumes "start + len \<le> 32" and "0 < len"
  shows "unat (GetBits start len code) < 2 ^ len"
  using assms by (simp add: GetBits_eq_take_bit take_bit_less)

lemma GetBit_iff [word_fields]:
  assumes "start < 32"
  shows "GetBit start code \<longleftrightarrow> bit code start"
proof -
  have "bit (GetBits start 1 code) n \<longleftrightarrow> n = 0 \<and> bit code start" for n
    using assms by (auto simp: bit_GetBits)
  then show ?thesis by (metis GetBit_def bit_0_eq bit_word_eqI bot_apply bot_bool_def)
qed

lemma bit_SignExtend [word_fields]:
  "bit (SignExtend len (val :: 'a::len word)) n \<longleftrightarrow> n < LENGTH('a) \<and> bit val (min n (len - 1))"
  by (simp add: SignExtend_def bit_simps min.commute)

end
