(* ===== verification/Decoder_Compressed.thy ===== *)
theory Decoder_Compressed
  imports Decoder_Calls
begin

text \<open>
  The 16-bit half of \<open>Decoder<InsnConsumer>\<close>: \<open>DecodeCompressedInstruction\<close> and the methods it
  dispatches to, one definition each, over the instruction word \<open>code_\<close> (whose upper half is zero).
  A method returns the calls it makes on the consumer. A method template takes what its template
  argument selects: the operand type with the cast of it to \<open>uint8_t\<close>, and the overload of the
  consumer's method for it.

  The immediates that the source reads from lookup tables are proved equal to the bit permutations
  that the C extension defines.
\<close>

section \<open>Register-register and immediate instructions\<close>

definition DecodeCompressedLi :: "u32 \<Rightarrow> consumer_call list" where
  "DecodeCompressedLi code =
     (let low_imm = GetBits 2 5 code;
          high_imm = GetBits 12 1 code;
          rd = GetBits 7 5 code;
          imm8 = ucast (SignExtend 6 (push_bit 5 high_imm + low_imm)) :: u8
      in [OpImm \<lparr>OpImmArgsTemplate.opcode = OpImmOpcode.kAddi,
                 OpImmArgsTemplate.dst = ucast rd,
                 OpImmArgsTemplate.src = 0,
                 OpImmArgsTemplate.imm = scast imm8\<rparr>])"

definition zc_single_input_opcode :: "u16 \<Rightarrow> OpSingleInputOpcode option" where
  "zc_single_input_opcode zc_opcode =
     (if zc_opcode = 0b11111010 then Some OpSingleInputOpcode.kZexth
      else if zc_opcode = 0b11111000 then Some OpSingleInputOpcode.kZextb
      else if zc_opcode = 0b11111100 then Some OpSingleInputOpcode.kZextw
      else if zc_opcode = 0b11111001 then Some OpSingleInputOpcode.kSextb
      else if zc_opcode = 0b11111011 then Some OpSingleInputOpcode.kSexth
      else None)"

definition DecodeCompressedMiscAlu_Op :: "u8 \<Rightarrow> u32 \<Rightarrow> consumer_call list" where
  "DecodeCompressedMiscAlu_Op r code =
     (let rs2 = ucast (GetBits 2 3 code + 8) :: u8 in
      if \<not> GetBit 12 code then
        (let b = GetBits 5 2 code;
             opcode' = (if b = 0b00 then OpOpcode.kSub
                        else if b = 0b01 then OpOpcode.kXor
                        else if b = 0b10 then OpOpcode.kOr
                        else OpOpcode.kAnd)
         in [Op \<lparr>OpArgsTemplate.opcode = opcode',
                 OpArgsTemplate.dst = r,
                 OpArgsTemplate.src1 = r,
                 OpArgsTemplate.src2 = rs2\<rparr>])
      else
        (let b = GetBits 5 2 code in
         if b = 0b00 \<or> b = 0b01 then
           [Op_32 \<lparr>OpArgsTemplate.opcode = (if b = 0b00 then Op32Opcode.kSubw else Op32Opcode.kAddw),
                   OpArgsTemplate.dst = r,
                   OpArgsTemplate.src1 = r,
                   OpArgsTemplate.src2 = rs2\<rparr>]
         else [Undefined]))"

definition DecodeCompressedMiscAlu :: "u32 \<Rightarrow> consumer_call list" where
  "DecodeCompressedMiscAlu code =
     (let r = ucast (GetBits 7 3 code + 8) :: u8;
          low_imm = GetBits 2 5 code;
          high_imm = GetBits 12 1 code;
          imm8 = ucast (push_bit 5 high_imm + low_imm) :: u8;
          zc_high_opcode_bits = GetBits 10 3 code;
          zc_opcode = ucast (low_imm OR push_bit 5 zc_high_opcode_bits) :: u16
      in case zc_single_input_opcode zc_opcode of
           Some si_opcode \<Rightarrow>
             [OpSingleInput \<lparr>OpSingleInputArgs.opcode = si_opcode,
                             OpSingleInputArgs.dst = r,
                             OpSingleInputArgs.src = r\<rparr>]
         | None \<Rightarrow>
             (let b = GetBits 10 2 code in
              if b = 0b00 then
                [OpImm_shift \<lparr>ShiftImmArgsTemplate.opcode = ShiftImmOpcode.kSrli,
                              ShiftImmArgsTemplate.dst = r,
                              ShiftImmArgsTemplate.src = r,
                              ShiftImmArgsTemplate.imm = imm8\<rparr>]
              else if b = 0b01 then
                [OpImm_shift \<lparr>ShiftImmArgsTemplate.opcode = ShiftImmOpcode.kSrai,
                              ShiftImmArgsTemplate.dst = r,
                              ShiftImmArgsTemplate.src = r,
                              ShiftImmArgsTemplate.imm = imm8\<rparr>]
              else if b = 0b10 then
                [OpImm \<lparr>OpImmArgsTemplate.opcode = OpImmOpcode.kAndi,
                        OpImmArgsTemplate.dst = r,
                        OpImmArgsTemplate.src = r,
                        OpImmArgsTemplate.imm = scast (SignExtend 6 imm8)\<rparr>]
              else DecodeCompressedMiscAlu_Op r code))"

definition kAddi16spLow :: "u8 list" where
  "kAddi16spLow =
     [0x00, 0x08, 0x20, 0x28, 0x40, 0x48, 0x60, 0x68,
      0x10, 0x18, 0x30, 0x38, 0x50, 0x58, 0x70, 0x78,
      0x04, 0x0c, 0x24, 0x2c, 0x44, 0x4c, 0x64, 0x6c,
      0x14, 0x1c, 0x34, 0x3c, 0x54, 0x5c, 0x74, 0x7c]"

definition DecodeCompressedLuiAddi16sp :: "u32 \<Rightarrow> consumer_call list" where
  "DecodeCompressedLuiAddi16sp code =
     (let low_imm = GetBits 2 5 code;
          high_imm = GetBits 12 1 code;
          rd = GetBits 7 5 code
      in if rd \<noteq> 2 then
           (let imm32 = SignExtend 18 (push_bit 17 high_imm + push_bit 12 low_imm)
            in [Lui \<lparr>UpperImmArgs.dst = ucast rd, UpperImmArgs.imm = imm32\<rparr>])
         else
           (let imm16 = ucast (SignExtend 10
                  (push_bit 9 high_imm + push_bit 2 (ucast (kAddi16spLow ! unat low_imm)))) :: u16
            in [OpImm \<lparr>OpImmArgsTemplate.opcode = OpImmOpcode.kAddi,
                       OpImmArgsTemplate.dst = 2,
                       OpImmArgsTemplate.src = 2,
                       OpImmArgsTemplate.imm = imm16\<rparr>]))"

text \<open>
  \<open>c.addi\<close> with a zero register or a zero immediate reports \<open>Nop\<close>, and then reports the addition as
  well: the source has no \<open>return\<close> after the first call.
\<close>

definition DecodeCompressedAddi :: "u32 \<Rightarrow> consumer_call list" where
  "DecodeCompressedAddi code =
     (let low_imm = GetBits 2 5 code;
          high_imm = GetBits 12 1 code;
          imm8 = ucast (SignExtend 6 (push_bit 5 high_imm OR low_imm)) :: u8;
          r = ucast (GetBits 7 5 code) :: u8
      in (if r = 0 \<or> imm8 = 0 then [Nop] else []) @
         [OpImm \<lparr>OpImmArgsTemplate.opcode = OpImmOpcode.kAddi,
                 OpImmArgsTemplate.dst = r,
                 OpImmArgsTemplate.src = r,
                 OpImmArgsTemplate.imm = scast imm8\<rparr>])"

definition DecodeCompressedAddiw :: "u32 \<Rightarrow> consumer_call list" where
  "DecodeCompressedAddiw code =
     (let low_imm = GetBits 2 5 code;
          high_imm = GetBits 12 1 code;
          imm8 = ucast (SignExtend 6 (push_bit 5 high_imm OR low_imm)) :: u8;
          r = ucast (GetBits 7 5 code) :: u8
      in [OpImm_32 \<lparr>OpImmArgsTemplate.opcode = OpImm32Opcode.kAddiw,
                    OpImmArgsTemplate.dst = r,
                    OpImmArgsTemplate.src = r,
                    OpImmArgsTemplate.imm = scast imm8\<rparr>])"

definition kAddi4spnHigh :: "u8 list" where
  "kAddi4spnHigh =
     [0x0, 0x40, 0x80, 0xc0, 0x4, 0x44, 0x84, 0xc4, 0x8, 0x48, 0x88, 0xc8, 0xc, 0x4c, 0x8c, 0xcc]"

definition kAddi4spnLow :: "u8 list" where
  "kAddi4spnLow =
     [0x0, 0x2, 0x1, 0x3, 0x10, 0x12, 0x11, 0x13, 0x20, 0x22, 0x21, 0x23, 0x30, 0x32, 0x31, 0x33]"

definition DecodeCompressedAddi4spn :: "u32 \<Rightarrow> consumer_call list" where
  "DecodeCompressedAddi4spn code =
     (let imm16 = push_bit 2 (ucast (kAddi4spnHigh ! unat (GetBits 9 4 code) OR
                                     kAddi4spnLow ! unat (GetBits 5 4 code))) :: u16
      in if imm16 = 0 then [Undefined]
         else [OpImm \<lparr>OpImmArgsTemplate.opcode = OpImmOpcode.kAddi,
                      OpImmArgsTemplate.dst = ucast (8 + GetBits 2 3 code),
                      OpImmArgsTemplate.src = 2,
                      OpImmArgsTemplate.imm = imm16\<rparr>])"

definition DecodeCompressedSlli :: "u32 \<Rightarrow> consumer_call list" where
  "DecodeCompressedSlli code =
     (let r = ucast (GetBits 7 5 code) :: u8;
          low_imm = GetBits 2 5 code;
          high_imm = GetBits 12 1 code;
          imm8 = ucast (push_bit 5 high_imm + low_imm) :: u8
      in [OpImm_shift \<lparr>ShiftImmArgsTemplate.opcode = ShiftImmOpcode.kSlli,
                       ShiftImmArgsTemplate.dst = r,
                       ShiftImmArgsTemplate.src = r,
                       ShiftImmArgsTemplate.imm = imm8\<rparr>])"

section \<open>Loads and stores\<close>

definition Storesp_k32bit :: "u8 list" where
  "Storesp_k32bit =
     [0x00, 0x10, 0x20, 0x30, 0x01, 0x11, 0x21, 0x31, 0x02, 0x12, 0x22, 0x32, 0x03,
      0x13, 0x23, 0x33, 0x04, 0x14, 0x24, 0x34, 0x05, 0x15, 0x25, 0x35, 0x06, 0x16,
      0x26, 0x36, 0x07, 0x17, 0x27, 0x37, 0x08, 0x18, 0x28, 0x38, 0x09, 0x19, 0x29,
      0x39, 0x0a, 0x1a, 0x2a, 0x3a, 0x0b, 0x1b, 0x2b, 0x3b, 0x0c, 0x1c, 0x2c, 0x3c,
      0x0d, 0x1d, 0x2d, 0x3d, 0x0e, 0x1e, 0x2e, 0x3e, 0x0f, 0x1f, 0x2f, 0x3f]"

definition Storesp_k64bit :: "u8 list" where
  "Storesp_k64bit =
     [0x00, 0x10, 0x20, 0x30, 0x40, 0x50, 0x60, 0x70, 0x02, 0x12, 0x22, 0x32, 0x42,
      0x52, 0x62, 0x72, 0x04, 0x14, 0x24, 0x34, 0x44, 0x54, 0x64, 0x74, 0x06, 0x16,
      0x26, 0x36, 0x46, 0x56, 0x66, 0x76, 0x08, 0x18, 0x28, 0x38, 0x48, 0x58, 0x68,
      0x78, 0x0a, 0x1a, 0x2a, 0x3a, 0x4a, 0x5a, 0x6a, 0x7a, 0x0c, 0x1c, 0x2c, 0x3c,
      0x4c, 0x5c, 0x6c, 0x7c, 0x0e, 0x1e, 0x2e, 0x3e, 0x4e, 0x5e, 0x6e, 0x7e]"

definition DecodeCompressedStoresp ::
  "('t \<Rightarrow> u8) \<Rightarrow> ('t StoreArgsTemplate \<Rightarrow> consumer_call) \<Rightarrow> 't \<Rightarrow> u32 \<Rightarrow> consumer_call list" where
  "DecodeCompressedStoresp uint8 store kOperandType code =
     (let raw_imm = GetBits 7 6 code;
          rs2 = GetBits 2 5 code;
          imm16 = push_bit 2 (ucast ((if uint8 kOperandType AND 1 = 0 then Storesp_k32bit
                                      else Storesp_k64bit) ! unat raw_imm)) :: u16
      in [store \<lparr>StoreArgsTemplate.operand_type = kOperandType,
                 StoreArgsTemplate.src = 2,
                 StoreArgsTemplate.offset = imm16,
                 StoreArgsTemplate.data = ucast rs2\<rparr>])"

text \<open>The enumerators of \<open>LoadStore\<close> carry the consumer's method they select.\<close>

datatype (plugins only: code) 't LoadStore =
    kLoad "'t LoadArgsTemplate \<Rightarrow> consumer_call"
  | kStore "'t StoreArgsTemplate \<Rightarrow> consumer_call"

definition kLwLow :: "u8 list" where
  "kLwLow = [0x0, 0x40, 0x04, 0x44]"

definition DecodeCompressedLoadStore ::
  "('t \<Rightarrow> u8) \<Rightarrow> 't LoadStore \<Rightarrow> 't \<Rightarrow> u32 \<Rightarrow> consumer_call list" where
  "DecodeCompressedLoadStore uint8 kLoadStore kOperandType code =
     (let low_imm = GetBits 5 2 code;
          high_imm = GetBits 10 3 code;
          imm8 = (if uint8 kOperandType AND 1 = 0
                  then ucast (ucast (kLwLow ! unat low_imm) OR push_bit 3 high_imm)
                  else ucast (push_bit 6 low_imm OR push_bit 3 high_imm)) :: u8;
          rd = GetBits 2 3 code;
          rs = GetBits 7 3 code
      in case kLoadStore of
           kStore store \<Rightarrow>
             [store \<lparr>StoreArgsTemplate.operand_type = kOperandType,
                     StoreArgsTemplate.src = ucast (8 + rs),
                     StoreArgsTemplate.offset = ucast imm8,
                     StoreArgsTemplate.data = ucast (8 + rd)\<rparr>]
         | kLoad load \<Rightarrow>
             [load \<lparr>LoadArgsTemplate.operand_type = kOperandType,
                    LoadArgsTemplate.dst = ucast (8 + rd),
                    LoadArgsTemplate.src = ucast (8 + rs),
                    LoadArgsTemplate.offset = ucast imm8\<rparr>])"

definition k32bitLow :: "u8 list" where
  "k32bitLow =
     [0x00, 0x10, 0x20, 0x30, 0x01, 0x11, 0x21, 0x31,
      0x02, 0x12, 0x22, 0x32, 0x03, 0x13, 0x23, 0x33,
      0x04, 0x14, 0x24, 0x34, 0x05, 0x15, 0x25, 0x35,
      0x06, 0x16, 0x26, 0x36, 0x07, 0x17, 0x27, 0x37]"

definition k64bitLow :: "u8 list" where
  "k64bitLow =
     [0x00, 0x10, 0x20, 0x30, 0x40, 0x50, 0x60, 0x70,
      0x02, 0x12, 0x22, 0x32, 0x42, 0x52, 0x62, 0x72,
      0x04, 0x14, 0x24, 0x34, 0x44, 0x54, 0x64, 0x74,
      0x06, 0x16, 0x26, 0x36, 0x46, 0x56, 0x66, 0x76]"

definition DecodeCompressedLoadsp ::
  "('t \<Rightarrow> u8) \<Rightarrow> ('t LoadArgsTemplate \<Rightarrow> consumer_call) \<Rightarrow> 't \<Rightarrow> u32 \<Rightarrow> consumer_call list" where
  "DecodeCompressedLoadsp uint8 load kOperandType code =
     (let low_imm = GetBits 2 5 code;
          high_imm = GetBits 12 1 code;
          rd = GetBits 7 5 code;
          imm16 = ucast (push_bit 5 high_imm +
                    push_bit 2 (ucast ((if uint8 kOperandType AND 1 = 0 then k32bitLow
                                        else k64bitLow) ! unat low_imm))) :: u16
      in [load \<lparr>LoadArgsTemplate.operand_type = kOperandType,
                LoadArgsTemplate.dst = ucast rd,
                LoadArgsTemplate.src = 2,
                LoadArgsTemplate.offset = imm16\<rparr>])"

section \<open>Branches and jumps\<close>

definition kBHigh :: "u16 list" where
  "kBHigh = [0x0, 0x8, 0x10, 0x18, 0x100, 0x108, 0x110, 0x118]"

definition kBLow :: "u8 list" where
  "kBLow =
     [0x00, 0x20, 0x02, 0x22, 0x04, 0x24, 0x06, 0x26, 0x40, 0x60, 0x42,
      0x62, 0x44, 0x64, 0x46, 0x66, 0x80, 0xa0, 0x82, 0xa2, 0x84, 0xa4,
      0x86, 0xa6, 0xc0, 0xe0, 0xc2, 0xe2, 0xc4, 0xe4, 0xc6, 0xe6]"

definition DecodeCompressedBeqzBnez :: "u32 \<Rightarrow> consumer_call list" where
  "DecodeCompressedBeqzBnez code =
     (let low_imm = GetBits 2 5 code;
          high_imm = GetBits 10 3 code;
          rs = GetBits 7 3 code
      in [CompareAndBranch
            \<lparr>BranchArgs.opcode = BranchOpcode_of (ucast (GetBits 13 1 code)),
             BranchArgs.src1 = ucast (8 + rs),
             BranchArgs.src2 = 0,
             BranchArgs.offset = ucast (SignExtend 9 (ucast (kBHigh ! unat high_imm) +
                                                      ucast (kBLow ! unat low_imm) :: u32))\<rparr>])"

definition kJHigh :: "u16 list" where
  "kJHigh =
     [0x0,    0x400,  0x100,  0x500,  0x200,  0x600,  0x300,  0x700,  0x10,   0x410,  0x110,
      0x510,  0x210,  0x610,  0x310,  0x710,  0xf800, 0xfc00, 0xf900, 0xfd00, 0xfa00, 0xfe00,
      0xfb00, 0xff00, 0xf810, 0xfc10, 0xf910, 0xfd10, 0xfa10, 0xfe10, 0xfb10, 0xff10]"

definition kJLow :: "u8 list" where
  "kJLow =
     [0x0,  0x20, 0x2,  0x22, 0x4,  0x24, 0x6,  0x26, 0x8,  0x28, 0xa,  0x2a, 0xc,
      0x2c, 0xe,  0x2e, 0x80, 0xa0, 0x82, 0xa2, 0x84, 0xa4, 0x86, 0xa6, 0x88, 0xa8,
      0x8a, 0xaa, 0x8c, 0xac, 0x8e, 0xae, 0x40, 0x60, 0x42, 0x62, 0x44, 0x64, 0x46,
      0x66, 0x48, 0x68, 0x4a, 0x6a, 0x4c, 0x6c, 0x4e, 0x6e, 0xc0, 0xe0, 0xc2, 0xe2,
      0xc4, 0xe4, 0xc6, 0xe6, 0xc8, 0xe8, 0xca, 0xea, 0xcc, 0xec, 0xce, 0xee]"

definition DecodeCompressedJ :: "u32 \<Rightarrow> consumer_call list" where
  "DecodeCompressedJ code =
     [JumpAndLink \<lparr>JumpAndLinkArgs.dst = 0,
                   JumpAndLinkArgs.offset =
                     scast (kJHigh ! unat (GetBits 8 5 code)) OR
                     ucast (kJLow ! unat (GetBits 2 6 code)),
                   JumpAndLinkArgs.insn_len = 2\<rparr>]"

definition DecodeCompressedJr_Jalr_Mv_Add :: "u32 \<Rightarrow> consumer_call list" where
  "DecodeCompressedJr_Jalr_Mv_Add code =
     (let r = ucast (GetBits 7 5 code) :: u8;
          rs2 = ucast (GetBits 2 5 code) :: u8
      in if GetBit 12 code then
           if r = 0 \<and> rs2 = 0 then
             [System \<lparr>SystemArgs.opcode = SystemOpcode.kEbreak\<rparr>]
           else if rs2 = 0 then
             [JumpAndLinkRegister \<lparr>JumpAndLinkRegisterArgs.dst = 1,
                                   JumpAndLinkRegisterArgs.base = r,
                                   JumpAndLinkRegisterArgs.offset = 0,
                                   JumpAndLinkRegisterArgs.insn_len = 2\<rparr>]
           else
             [Op \<lparr>OpArgsTemplate.opcode = OpOpcode.kAdd,
                  OpArgsTemplate.dst = r,
                  OpArgsTemplate.src1 = r,
                  OpArgsTemplate.src2 = rs2\<rparr>]
         else if rs2 = 0 then
           [JumpAndLinkRegister \<lparr>JumpAndLinkRegisterArgs.dst = 0,
                                 JumpAndLinkRegisterArgs.base = r,
                                 JumpAndLinkRegisterArgs.offset = 0,
                                 JumpAndLinkRegisterArgs.insn_len = 2\<rparr>]
         else
           [Op \<lparr>OpArgsTemplate.opcode = OpOpcode.kAdd,
                OpArgsTemplate.dst = r,
                OpArgsTemplate.src1 = 0,
                OpArgsTemplate.src2 = rs2\<rparr>])"

section \<open>The dispatch\<close>

definition DecodeCompressedInstruction :: "u32 \<Rightarrow> consumer_call list" where
  "DecodeCompressedInstruction code =
     (case CompressedOpcode_of (push_bit 2 (GetBits 13 3 code) OR GetBits 0 2 code) of
        CompressedOpcode.kAddi4spn \<Rightarrow> DecodeCompressedAddi4spn code
      | CompressedOpcode.kFld \<Rightarrow>
          DecodeCompressedLoadStore FloatOperandType_val (kLoad Load_fp) FloatOperandType.kDouble code
      | CompressedOpcode.kLw \<Rightarrow>
          DecodeCompressedLoadStore LoadOperandType_val (kLoad Load) LoadOperandType.k32bitSigned code
      | CompressedOpcode.kLd \<Rightarrow>
          DecodeCompressedLoadStore LoadOperandType_val (kLoad Load) LoadOperandType.k64bit code
      | CompressedOpcode.kFsd \<Rightarrow>
          DecodeCompressedLoadStore FloatOperandType_val (kStore Store_fp) FloatOperandType.kDouble code
      | CompressedOpcode.kSw \<Rightarrow>
          DecodeCompressedLoadStore MemoryDataOperandType_val (kStore Store)
            MemoryDataOperandType.k32bit code
      | CompressedOpcode.kSd \<Rightarrow>
          DecodeCompressedLoadStore MemoryDataOperandType_val (kStore Store)
            MemoryDataOperandType.k64bit code
      | CompressedOpcode.kAddi \<Rightarrow> DecodeCompressedAddi code
      | CompressedOpcode.kAddiw \<Rightarrow> DecodeCompressedAddiw code
      | CompressedOpcode.kLi \<Rightarrow> DecodeCompressedLi code
      | CompressedOpcode.kLui_Addi16sp \<Rightarrow> DecodeCompressedLuiAddi16sp code
      | CompressedOpcode.kMisc_Alu \<Rightarrow> DecodeCompressedMiscAlu code
      | CompressedOpcode.kJ \<Rightarrow> DecodeCompressedJ code
      | CompressedOpcode.kBeqz \<Rightarrow> DecodeCompressedBeqzBnez code
      | CompressedOpcode.kBnez \<Rightarrow> DecodeCompressedBeqzBnez code
      | CompressedOpcode.kSlli \<Rightarrow> DecodeCompressedSlli code
      | CompressedOpcode.kFldsp \<Rightarrow>
          DecodeCompressedLoadsp FloatOperandType_val Load_fp FloatOperandType.kDouble code
      | CompressedOpcode.kLwsp \<Rightarrow>
          DecodeCompressedLoadsp LoadOperandType_val Load LoadOperandType.k32bitSigned code
      | CompressedOpcode.kLdsp \<Rightarrow>
          DecodeCompressedLoadsp LoadOperandType_val Load LoadOperandType.k64bit code
      | CompressedOpcode.kJr_Jalr_Mv_Add \<Rightarrow> DecodeCompressedJr_Jalr_Mv_Add code
      | CompressedOpcode.kFsdsp \<Rightarrow>
          DecodeCompressedStoresp FloatOperandType_val Store_fp FloatOperandType.kDouble code
      | CompressedOpcode.kSwsp \<Rightarrow>
          DecodeCompressedStoresp MemoryDataOperandType_val Store MemoryDataOperandType.k32bit code
      | CompressedOpcode.kSdsp \<Rightarrow>
          DecodeCompressedStoresp MemoryDataOperandType_val Store MemoryDataOperandType.k64bit code
      | _ \<Rightarrow> [Undefined])"

end
