(* ===== verification/Decoder_Base.thy ===== *)
theory Decoder_Base
  imports Decoder_Calls
begin

text \<open>
  The 32-bit half of \<open>Decoder<InsnConsumer>\<close>: \<open>DecodeBaseInstruction\<close> and the methods it
  dispatches to, one definition each, over the instruction word \<open>code_\<close>. A method template takes
  what its template arguments select: the casts of the opcode types and the overloads of the
  consumer's method.
\<close>

abbreviation field8 :: "nat \<Rightarrow> nat \<Rightarrow> u32 \<Rightarrow> u8" where
  "field8 start len code \<equiv> ucast (GetBits start len code)"

abbreviation field16 :: "nat \<Rightarrow> nat \<Rightarrow> u32 \<Rightarrow> u16" where
  "field16 start len code \<equiv> ucast (GetBits start len code)"

section \<open>Fences, register-register instructions, atomics\<close>

definition DecodeMiscMem :: "u32 \<Rightarrow> consumer_call list" where
  "DecodeMiscMem code =
     (let low_opcode = GetBits 12 3 code in
      if low_opcode = 0b000 then
        [Fence \<lparr>FenceArgs.opcode = FenceOpcode_of (field8 28 4 code),
                FenceArgs.dst = field8 7 5 code,
                FenceArgs.src = field8 15 5 code,
                FenceArgs.sw = GetBit 20 code,
                FenceArgs.sr = GetBit 21 code,
                FenceArgs.so = GetBit 22 code,
                FenceArgs.si = GetBit 23 code,
                FenceArgs.pw = GetBit 24 code,
                FenceArgs.pr = GetBit 25 code,
                FenceArgs.po = GetBit 26 code,
                FenceArgs.pi = GetBit 27 code\<rparr>]
      else if low_opcode = 0b001 then
        [FenceI \<lparr>FenceIArgs.dst = field8 7 5 code,
                 FenceIArgs.src = field8 15 5 code,
                 FenceIArgs.imm = SignExtend 12 (field16 20 12 code)\<rparr>]
      else [Undefined])"

definition DecodeSingleInputOp :: "OpSingleInputOpcode \<Rightarrow> u32 \<Rightarrow> consumer_call list" where
  "DecodeSingleInputOp single_opcode code =
     (if GetBits 20 5 code \<noteq> 0 then [Undefined]
      else [OpSingleInput \<lparr>OpSingleInputArgs.opcode = single_opcode,
                           OpSingleInputArgs.dst = field8 7 5 code,
                           OpSingleInputArgs.src = field8 15 5 code\<rparr>])"

definition DecodeOp ::
  "(u16 \<Rightarrow> 't) \<Rightarrow> ('t OpArgsTemplate \<Rightarrow> consumer_call) \<Rightarrow> u32 \<Rightarrow> consumer_call list" where
  "DecodeOp OpcodeType_of op code =
     (let low_opcode = GetBits 12 3 code;
          high_opcode = GetBits 25 7 code;
          opcode_bits = ucast (low_opcode OR push_bit 3 high_opcode) :: u16
      in if OpSingleInputOpcode_of opcode_bits = OpSingleInputOpcode.kZexth
         then DecodeSingleInputOp (OpSingleInputOpcode_of opcode_bits) code
         else [op \<lparr>OpArgsTemplate.opcode = OpcodeType_of opcode_bits,
                   OpArgsTemplate.dst = field8 7 5 code,
                   OpArgsTemplate.src1 = field8 15 5 code,
                   OpArgsTemplate.src2 = field8 20 5 code\<rparr>])"

definition DecodeAmo :: "u32 \<Rightarrow> consumer_call list" where
  "DecodeAmo code =
     (let low_opcode = GetBits 12 3 code;
          high_opcode = GetBits 27 5 code
      in if high_opcode = 0b00010 \<and> GetBits 20 5 code \<noteq> 0 then [Undefined]
         else [Amo \<lparr>AmoArgs.opcode = AmoOpcode_of (ucast high_opcode),
                    AmoArgs.operand_type = MemoryDataOperandType_of (ucast low_opcode),
                    AmoArgs.dst = field8 7 5 code,
                    AmoArgs.src1 = field8 15 5 code,
                    AmoArgs.src2 = field8 20 5 code,
                    AmoArgs.rl = GetBit 25 code,
                    AmoArgs.aq = GetBit 26 code\<rparr>])"

definition DecodeFma :: "u32 \<Rightarrow> consumer_call list" where
  "DecodeFma code =
     [Fma \<lparr>FmaArgs.opcode = FmaOpcode_of (field8 2 2 code),
           FmaArgs.operand_type = FloatOperandType_of (field8 25 2 code),
           FmaArgs.dst = field8 7 5 code,
           FmaArgs.src1 = field8 15 5 code,
           FmaArgs.src2 = field8 20 5 code,
           FmaArgs.src3 = field8 27 5 code,
           FmaArgs.rm = field8 12 3 code\<rparr>]"

definition DecodeLui :: "u32 \<Rightarrow> consumer_call list" where
  "DecodeLui code =
     [Lui \<lparr>UpperImmArgs.dst = field8 7 5 code,
           UpperImmArgs.imm = push_bit 12 (GetBits 12 20 code)\<rparr>]"

definition DecodeAuipc :: "u32 \<Rightarrow> consumer_call list" where
  "DecodeAuipc code =
     [Auipc \<lparr>UpperImmArgs.dst = field8 7 5 code,
             UpperImmArgs.imm = push_bit 12 (GetBits 12 20 code)\<rparr>]"

section \<open>Loads and stores\<close>

text \<open>
  \<open>kLoadStoreWidthToOperandType\<close>: a width is a floating-point operand size or the element width
  of a vector access; the union and its tag \<open>is_vector_instruction\<close> are a sum type.
\<close>

datatype (plugins only: code) load_store_width =
    vector_eew MemoryDataOperandType
  | float_size FloatOperandType

definition kLoadStoreWidthToOperandType :: "load_store_width list" where
  "kLoadStoreWidthToOperandType =
     [vector_eew MemoryDataOperandType.k8bit,
      float_size FloatOperandType.kHalf,
      float_size FloatOperandType.kFloat,
      float_size FloatOperandType.kDouble,
      float_size FloatOperandType.kQuad,
      vector_eew MemoryDataOperandType.k16bit,
      vector_eew MemoryDataOperandType.k32bit,
      vector_eew MemoryDataOperandType.k64bit]"

definition DecodeVectorLoad :: "MemoryDataOperandType \<Rightarrow> u32 \<Rightarrow> consumer_call list" where
  "DecodeVectorLoad eew code =
     (if GetBit 28 code then [Undefined]
      else let mop = GetBits 26 2 code in
        if mop = 0b00 then
          [OpVector (VLoadUnitStride
             \<lparr>VLoadUnitStrideArgs.opcode = VLUmOpOpcode_of (field8 20 5 code),
              VLoadUnitStrideArgs.width = eew,
              VLoadUnitStrideArgs.vm = GetBit 25 code,
              VLoadUnitStrideArgs.nf = field8 29 3 code,
              VLoadUnitStrideArgs.dst = field8 7 5 code,
              VLoadUnitStrideArgs.src = field8 15 5 code\<rparr>)]
        else if mop = 0b01 \<or> mop = 0b11 then
          [OpVector (VLoadIndexed
             \<lparr>VLoadIndexedArgs.width = eew,
              VLoadIndexedArgs.vm = GetBit 25 code,
              VLoadIndexedArgs.ordered = GetBit 27 code,
              VLoadIndexedArgs.nf = field8 29 3 code,
              VLoadIndexedArgs.dst = field8 7 5 code,
              VLoadIndexedArgs.src = field8 15 5 code,
              VLoadIndexedArgs.idx = field8 20 5 code\<rparr>)]
        else if mop = 0b10 then
          [OpVector (VLoadStride
             \<lparr>VLoadStrideArgs.width = eew,
              VLoadStrideArgs.vm = GetBit 25 code,
              VLoadStrideArgs.ordered = GetBit 27 code,
              VLoadStrideArgs.nf = field8 29 3 code,
              VLoadStrideArgs.dst = field8 7 5 code,
              VLoadStrideArgs.src = field8 15 5 code,
              VLoadStrideArgs.std = field8 20 5 code\<rparr>)]
        else [Undefined])"

definition DecodeLoadArgs ::
  "('t LoadArgsTemplate \<Rightarrow> consumer_call) \<Rightarrow> 't \<Rightarrow> u32 \<Rightarrow> consumer_call list" where
  "DecodeLoadArgs load ty code =
     [load \<lparr>LoadArgsTemplate.operand_type = ty,
            LoadArgsTemplate.dst = field8 7 5 code,
            LoadArgsTemplate.src = field8 15 5 code,
            LoadArgsTemplate.offset = SignExtend 12 (field16 20 12 code)\<rparr>]"

text \<open>\<open>DecodeLoad<LoadOperandType>\<close> and \<open>DecodeLoad<FloatOperandType>\<close>.\<close>

definition DecodeLoad :: "u32 \<Rightarrow> consumer_call list" where
  "DecodeLoad code = DecodeLoadArgs Load (LoadOperandType_of (field8 12 3 code)) code"

definition DecodeLoadFp :: "u32 \<Rightarrow> consumer_call list" where
  "DecodeLoadFp code =
     (case kLoadStoreWidthToOperandType ! unat (GetBits 12 3 code) of
        vector_eew eew \<Rightarrow> DecodeVectorLoad eew code
      | float_size ty \<Rightarrow> DecodeLoadArgs Load_fp ty code)"

definition DecodeVectorStore :: "MemoryDataOperandType \<Rightarrow> u32 \<Rightarrow> consumer_call list" where
  "DecodeVectorStore eew code =
     (if GetBit 28 code then [Undefined]
      else let mop = GetBits 26 2 code in
        if mop = 0b00 then
          [OpVector (VStoreUnitStride
             \<lparr>VStoreUnitStrideArgs.opcode = VSUmOpOpcode_of (field8 20 5 code),
              VStoreUnitStrideArgs.width = eew,
              VStoreUnitStrideArgs.vm = GetBit 25 code,
              VStoreUnitStrideArgs.nf = field8 29 3 code,
              VStoreUnitStrideArgs.src = field8 15 5 code,
              VStoreUnitStrideArgs.data = field8 7 5 code\<rparr>)]
        else if mop = 0b01 \<or> mop = 0b11 then
          [OpVector (VStoreIndexed
             \<lparr>VStoreIndexedArgs.width = eew,
              VStoreIndexedArgs.vm = GetBit 25 code,
              VStoreIndexedArgs.ordered = GetBit 27 code,
              VStoreIndexedArgs.nf = field8 29 3 code,
              VStoreIndexedArgs.src = field8 15 5 code,
              VStoreIndexedArgs.idx = field8 20 5 code,
              VStoreIndexedArgs.data = field8 7 5 code\<rparr>)]
        else if mop = 0b10 then
          [OpVector (VStoreStride
             \<lparr>VStoreStrideArgs.width = eew,
              VStoreStrideArgs.vm = GetBit 25 code,
              VStoreStrideArgs.ordered = GetBit 27 code,
              VStoreStrideArgs.nf = field8 29 3 code,
              VStoreStrideArgs.src = field8 15 5 code,
              VStoreStrideArgs.std = field8 20 5 code,
              VStoreStrideArgs.data = field8 7 5 code\<rparr>)]
        else [Undefined])"

definition DecodeStoreArgs ::
  "('t StoreArgsTemplate \<Rightarrow> consumer_call) \<Rightarrow> 't \<Rightarrow> u32 \<Rightarrow> consumer_call list" where
  "DecodeStoreArgs store ty code =
     (let low_imm = field16 7 5 code;
          high_imm = field16 25 7 code
      in [store \<lparr>StoreArgsTemplate.operand_type = ty,
                 StoreArgsTemplate.src = field8 15 5 code,
                 StoreArgsTemplate.offset = SignExtend 12 (low_imm OR push_bit 5 high_imm),
                 StoreArgsTemplate.data = field8 20 5 code\<rparr>])"

text \<open>\<open>DecodeStore<MemoryDataOperandType>\<close> and \<open>DecodeStore<FloatOperandType>\<close>.\<close>

definition DecodeStore :: "u32 \<Rightarrow> consumer_call list" where
  "DecodeStore code = DecodeStoreArgs Store (MemoryDataOperandType_of (field8 12 3 code)) code"

definition DecodeStoreFp :: "u32 \<Rightarrow> consumer_call list" where
  "DecodeStoreFp code =
     (case kLoadStoreWidthToOperandType ! unat (GetBits 12 3 code) of
        vector_eew eew \<Rightarrow> DecodeVectorStore eew code
      | float_size ty \<Rightarrow> DecodeStoreArgs Store_fp ty code)"

section \<open>Register-immediate instructions\<close>

text \<open>
  The four-parameter \<open>DecodeOp\<close>. \<open>has_shamt\<close> is what its two \<open>switch\<close> statements compute from the
  value of the opcode, read as either of the two bit-manipulation enumerations.
\<close>

definition bitmanip_has_shamt :: "u16 \<Rightarrow> bool" where
  "bitmanip_has_shamt v =
     (BitmanipImmOpcode_of v \<in> {BitmanipImmOpcode.kRori, BitmanipImmOpcode.kBclri,
        BitmanipImmOpcode.kBexti, BitmanipImmOpcode.kBinvi, BitmanipImmOpcode.kBseti} \<or>
      BitmanipImm32Opcode_of v \<in> {BitmanipImm32Opcode.kRoriw, BitmanipImm32Opcode.kSlliuw})"

definition DecodeOpImm ::
  "(u8 \<Rightarrow> 'op) \<Rightarrow> ('op OpImmArgsTemplate \<Rightarrow> consumer_call) \<Rightarrow>
   (u16 \<Rightarrow> 'sh) \<Rightarrow> ('sh ShiftImmArgsTemplate \<Rightarrow> consumer_call) \<Rightarrow>
   (u16 \<Rightarrow> 'bm) \<Rightarrow> ('bm BitmanipImmArgsTemplate \<Rightarrow> consumer_call) \<Rightarrow>
   nat \<Rightarrow> u32 \<Rightarrow> consumer_call list" where
  "DecodeOpImm OpOpcodeType_of op ShiftOpcodeType_of shift BitmanipOpcodeType_of bitmanip
     kShiftFieldSize code =
     (let low_opcode = GetBits 12 3 code in
      if low_opcode \<noteq> 0b001 \<and> low_opcode \<noteq> 0b101 then
        [op \<lparr>OpImmArgsTemplate.opcode = OpOpcodeType_of (ucast low_opcode),
             OpImmArgsTemplate.dst = field8 7 5 code,
             OpImmArgsTemplate.src = field8 15 5 code,
             OpImmArgsTemplate.imm = SignExtend 12 (field16 20 12 code)\<rparr>]
      else if GetBits 31 1 code + GetBits (20 + kShiftFieldSize) (10 - kShiftFieldSize) code = 0 then
        (let high_opcode = GetBits (20 + kShiftFieldSize) (12 - kShiftFieldSize) code
         in [shift \<lparr>ShiftImmArgsTemplate.opcode =
                      ShiftOpcodeType_of (ucast (low_opcode OR push_bit 3 high_opcode)),
                    ShiftImmArgsTemplate.dst = field8 7 5 code,
                    ShiftImmArgsTemplate.src = field8 15 5 code,
                    ShiftImmArgsTemplate.imm = field8 20 kShiftFieldSize code\<rparr>])
      else
        (let shamt0 = field8 20 kShiftFieldSize code;
             high0 = GetBits (20 + kShiftFieldSize) (12 - kShiftFieldSize) code;
             value0 = ucast (low_opcode OR push_bit 3 high0) :: u16;
             has_shamt = bitmanip_has_shamt value0;
             value1 = (if has_shamt then value0
                       else ucast (low_opcode OR push_bit 3 (GetBits 20 12 code))) :: u16;
             shamt1 = (if has_shamt then shamt0 else 0)
         in [bitmanip \<lparr>BitmanipImmArgsTemplate.opcode = BitmanipOpcodeType_of value1,
                       BitmanipImmArgsTemplate.dst = field8 7 5 code,
                       BitmanipImmArgsTemplate.src = field8 15 5 code,
                       BitmanipImmArgsTemplate.shamt = shamt1\<rparr>]))"

section \<open>Branches and jumps\<close>

definition DecodeBranch :: "u32 \<Rightarrow> consumer_call list" where
  "DecodeBranch code =
     (let low_imm = GetBits 8 4 code;
          mid_imm = GetBits 25 6 code;
          bit11_imm = GetBits 7 1 code;
          bit12_imm = GetBits 31 1 code;
          off = ucast (low_imm OR push_bit 4 mid_imm OR push_bit 10 bit11_imm
                       OR push_bit 11 bit12_imm) :: u16
      in [CompareAndBranch
            \<lparr>BranchArgs.opcode = BranchOpcode_of (field8 12 3 code),
             BranchArgs.src1 = field8 15 5 code,
             BranchArgs.src2 = field8 20 5 code,
             BranchArgs.offset = SignExtend 13 (off * 2)\<rparr>])"

definition DecodeJumpAndLink :: "u32 \<Rightarrow> consumer_call list" where
  "DecodeJumpAndLink code =
     (let low_imm = GetBits 21 10 code;
          mid_imm = GetBits 12 8 code;
          bit11_imm = GetBits 20 1 code;
          bit20_imm = GetBits 31 1 code;
          off = low_imm OR push_bit 10 bit11_imm OR push_bit 11 mid_imm OR push_bit 19 bit20_imm
      in [JumpAndLink \<lparr>JumpAndLinkArgs.dst = field8 7 5 code,
                       JumpAndLinkArgs.offset = SignExtend 21 (off * 2),
                       JumpAndLinkArgs.insn_len = 4\<rparr>])"

definition DecodeJumpAndLinkRegister :: "u32 \<Rightarrow> consumer_call list" where
  "DecodeJumpAndLinkRegister code =
     (if GetBits 12 3 code \<noteq> 0b000 then [Undefined]
      else
        (let off = field16 20 12 code;
             off' = signed_drop_bit 4 (push_bit 4 off)
         in [JumpAndLinkRegister \<lparr>JumpAndLinkRegisterArgs.dst = field8 7 5 code,
                                  JumpAndLinkRegisterArgs.base = field8 15 5 code,
                                  JumpAndLinkRegisterArgs.offset = off',
                                  JumpAndLinkRegisterArgs.insn_len = 4\<rparr>]))"

section \<open>Floating-point instructions\<close>

definition DecodeOpFp_no_rounding :: "u32 \<Rightarrow> consumer_call list" where
  "DecodeOpFp_no_rounding code =
     (let ty = FloatOperandType_of (field8 25 2 code);
          rd = field8 7 5 code;
          rs1 = field8 15 5 code;
          rs2 = field8 20 5 code;
          no_rounding_opcode_bits = push_bit 3 (field8 27 2 code) + field8 12 3 code;
          no_rounding_opcode = OpFpNoRoundingOpcode_of no_rounding_opcode_bits
      in if no_rounding_opcode = OpFpNoRoundingOpcode.kFSgnj \<and> rs1 = rs2 then
           [OpFpSingleInputNoRounding
              \<lparr>OpFpSingleInputNoRoundingArgs.opcode = OpFpSingleInputNoRoundingOpcode.kFmv,
               OpFpSingleInputNoRoundingArgs.operand_type = ty,
               OpFpSingleInputNoRoundingArgs.dst = rd,
               OpFpSingleInputNoRoundingArgs.src = rs1\<rparr>]
         else
           [OpFpNoRounding
              \<lparr>OpFpNoRoundingArgs.opcode = no_rounding_opcode,
               OpFpNoRoundingArgs.operand_type = ty,
               OpFpNoRoundingArgs.dst = rd,
               OpFpNoRoundingArgs.src1 = rs1,
               OpFpNoRoundingArgs.src2 = rs2\<rparr>])"

definition DecodeOpFp_single_input :: "u32 \<Rightarrow> consumer_call list" where
  "DecodeOpFp_single_input code =
     (let operand_type' = field8 25 2 code;
          opcode_bits = field8 27 2 code;
          rd = field8 7 5 code;
          rs1 = field8 15 5 code;
          rs2 = field8 20 5 code;
          rm' = field8 12 3 code
      in if opcode_bits = 0 then
           if operand_type' = rs2 then [Undefined]
           else if rs2 > 0b11 then [Undefined]
           else [Fcvt_float_to_float
                   \<lparr>FcvtFloatToFloatArgs.dst_type = FloatOperandType_of operand_type',
                    FcvtFloatToFloatArgs.src_type = FloatOperandType_of rs2,
                    FcvtFloatToFloatArgs.dst = rd,
                    FcvtFloatToFloatArgs.src = rs1,
                    FcvtFloatToFloatArgs.rm = rm'\<rparr>]
         else
           [OpFpSingleInput
              \<lparr>OpFpSingleInputArgs.opcode = OpFpSingleInputOpcode_of (push_bit 5 opcode_bits + rs2),
               OpFpSingleInputArgs.operand_type = FloatOperandType_of operand_type',
               OpFpSingleInputArgs.dst = rd,
               OpFpSingleInputArgs.src = rs1,
               OpFpSingleInputArgs.rm = rm'\<rparr>])"

definition DecodeOpFp_fcvt_integer :: "u32 \<Rightarrow> consumer_call list" where
  "DecodeOpFp_fcvt_integer code =
     (let ty = FloatOperandType_of (field8 25 2 code);
          opcode_bits = field8 27 2 code;
          rd = field8 7 5 code;
          rs1 = field8 15 5 code;
          int_ty = FcvtOperandType_of (field8 20 5 code);
          rm' = field8 12 3 code
      in if opcode_bits = 0b00 then
           [Fcvt_float_to_integer
              \<lparr>FcvtFloatToIntegerArgs.dst_type = int_ty,
               FcvtFloatToIntegerArgs.src_type = ty,
               FcvtFloatToIntegerArgs.dst = rd,
               FcvtFloatToIntegerArgs.src = rs1,
               FcvtFloatToIntegerArgs.rm = rm'\<rparr>]
         else if opcode_bits = 0b10 then
           [Fcvt_integer_to_float
              \<lparr>FcvtIntegerToFloatArgs.dst_type = ty,
               FcvtIntegerToFloatArgs.src_type = int_ty,
               FcvtIntegerToFloatArgs.dst = rd,
               FcvtIntegerToFloatArgs.src = rs1,
               FcvtIntegerToFloatArgs.rm = rm'\<rparr>]
         else [Undefined])"

definition DecodeOpFp_fmv :: "u32 \<Rightarrow> consumer_call list" where
  "DecodeOpFp_fmv code =
     (let ty = FloatOperandType_of (field8 25 2 code);
          opcode_bits = field8 27 2 code;
          rd = field8 7 5 code;
          rs1 = field8 15 5 code;
          rs2 = field16 20 5 code;
          rm' = field16 12 3 code;
          opcode' = push_bit 8 (ucast opcode_bits) + push_bit 3 rs2 + rm'
      in if rm' = 0b001 then
           [OpFpGpRegisterTargetSingleInputNoRounding
              \<lparr>OpFpGpRegisterTargetSingleInputNoRoundingArgs.opcode =
                 OpFpGpRegisterTargetSingleInputNoRoundingOpcode_of opcode',
               OpFpGpRegisterTargetSingleInputNoRoundingArgs.operand_type = ty,
               OpFpGpRegisterTargetSingleInputNoRoundingArgs.dst = rd,
               OpFpGpRegisterTargetSingleInputNoRoundingArgs.src = rs1\<rparr>]
         else if rm' = 0b000 then
           if opcode_bits = 0b00 then
             [FmvFloatToInteger \<lparr>FmvFloatToIntegerArgs.operand_type = ty,
                                 FmvFloatToIntegerArgs.dst = rd,
                                 FmvFloatToIntegerArgs.src = rs1\<rparr>]
           else if opcode_bits = 0b10 then
             [FmvIntegerToFloat \<lparr>FmvIntegerToFloatArgs.operand_type = ty,
                                 FmvIntegerToFloatArgs.dst = rd,
                                 FmvIntegerToFloatArgs.src = rs1\<rparr>]
           else [Undefined]
         else [Undefined])"

text \<open>
  Bit 29 says that \<open>rm\<close> extends the opcode, bit 30 that \<open>rs2\<close> does, bit 31 that the target is a
  general purpose register.
\<close>

definition DecodeOpFp :: "u32 \<Rightarrow> consumer_call list" where
  "DecodeOpFp code =
     (let sel = GetBits 29 3 code in
      if sel = 0b000 then
        [OpFp \<lparr>OpFpArgs.opcode = OpFpOpcode_of (field8 27 2 code),
               OpFpArgs.operand_type = FloatOperandType_of (field8 25 2 code),
               OpFpArgs.dst = field8 7 5 code,
               OpFpArgs.src1 = field8 15 5 code,
               OpFpArgs.src2 = field8 20 5 code,
               OpFpArgs.rm = field8 12 3 code\<rparr>]
      else if sel = 0b001 then DecodeOpFp_no_rounding code
      else if sel = 0b010 then DecodeOpFp_single_input code
      else if sel = 0b101 then
        [OpFpGpRegisterTargetNoRounding
           \<lparr>OpFpGpRegisterTargetNoRoundingArgs.opcode =
              OpFpGpRegisterTargetNoRoundingOpcode_of
                (push_bit 3 (field8 27 2 code) + field8 12 3 code),
            OpFpGpRegisterTargetNoRoundingArgs.operand_type = FloatOperandType_of (field8 25 2 code),
            OpFpGpRegisterTargetNoRoundingArgs.dst = field8 7 5 code,
            OpFpGpRegisterTargetNoRoundingArgs.src1 = field8 15 5 code,
            OpFpGpRegisterTargetNoRoundingArgs.src2 = field8 20 5 code\<rparr>]
      else if sel = 0b110 then DecodeOpFp_fcvt_integer code
      else if sel = 0b111 then DecodeOpFp_fmv code
      else [Undefined])"

section \<open>Vector instructions\<close>

text \<open>
  The last case of \<open>DecodeOpV\<close>, the configuration instructions. A word that is none of the three
  falls off the end of the \<open>switch\<close>: the consumer is not called.
\<close>

definition DecodeVsetvl :: "u32 \<Rightarrow> consumer_call list" where
  "DecodeVsetvl code =
     (if \<not> GetBit 31 code then
        [Vsetvli \<lparr>VsetvliArgs.dst = field8 7 5 code,
                  VsetvliArgs.src = field8 15 5 code,
                  VsetvliArgs.vtype = field16 20 11 code\<rparr>]
      else if GetBit 30 code then
        [Vsetivli \<lparr>VsetivliArgs.dst = field8 7 5 code,
                   VsetivliArgs.avl = field8 15 5 code,
                   VsetivliArgs.vtype = field16 20 10 code\<rparr>]
      else if GetBits 25 6 code = 0 then
        [Vsetvl \<lparr>VsetvlArgs.dst = field8 7 5 code,
                 VsetvlArgs.src1 = field8 15 5 code,
                 VsetvlArgs.src2 = field8 20 5 code\<rparr>]
      else [])"

definition DecodeOpV :: "u32 \<Rightarrow> consumer_call list" where
  "DecodeOpV code =
     (let low_opcode = GetBits 12 3 code;
          vm' = GetBit 25 code;
          opcode' = field8 26 6 code;
          rd = field8 7 5 code;
          s1 = field8 20 5 code;
          s2 = field8 15 5 code
      in if low_opcode = 0b000 then
           [OpVector (VOpIVv \<lparr>VOpIVvArgs.opcode = VOpIVvOpcode_of opcode', VOpIVvArgs.vm = vm',
              VOpIVvArgs.dst = rd, VOpIVvArgs.src1 = s1, VOpIVvArgs.src2 = s2\<rparr>)]
         else if low_opcode = 0b001 then
           [OpVector (VOpFVv \<lparr>VOpFVvArgs.opcode = VOpFVvOpcode_of opcode', VOpFVvArgs.vm = vm',
              VOpFVvArgs.dst = rd, VOpFVvArgs.src1 = s1, VOpFVvArgs.src2 = s2\<rparr>)]
         else if low_opcode = 0b010 then
           [OpVector (VOpMVv \<lparr>VOpMVvArgs.opcode = VOpMVvOpcode_of opcode', VOpMVvArgs.vm = vm',
              VOpMVvArgs.dst = rd, VOpMVvArgs.src1 = s1, VOpMVvArgs.src2 = s2\<rparr>)]
         else if low_opcode = 0b011 then
           [OpVector (VOpIVi \<lparr>VOpIViArgs.opcode = VOpIViOpcode_of opcode', VOpIViArgs.vm = vm',
              VOpIViArgs.dst = rd, VOpIViArgs.src = s1, VOpIViArgs.uimm = s2\<rparr>)]
         else if low_opcode = 0b100 then
           [OpVector (VOpIVx \<lparr>VOpIVxArgs.opcode = VOpIVxOpcode_of opcode', VOpIVxArgs.vm = vm',
              VOpIVxArgs.dst = rd, VOpIVxArgs.src1 = s1, VOpIVxArgs.src2 = s2\<rparr>)]
         else if low_opcode = 0b101 then
           [OpVector (VOpFVf \<lparr>VOpFVfArgs.opcode = VOpFVfOpcode_of opcode', VOpFVfArgs.vm = vm',
              VOpFVfArgs.dst = rd, VOpFVfArgs.src1 = s1, VOpFVfArgs.src2 = s2\<rparr>)]
         else if low_opcode = 0b110 then
           [OpVector (VOpMVx \<lparr>VOpMVxArgs.opcode = VOpMVxOpcode_of opcode', VOpMVxArgs.vm = vm',
              VOpMVxArgs.dst = rd, VOpMVxArgs.src1 = s1, VOpMVxArgs.src2 = s2\<rparr>)]
         else DecodeVsetvl code)"

section \<open>System instructions\<close>

definition DecodeSystem :: "u32 \<Rightarrow> consumer_call list" where
  "DecodeSystem code =
     (let low_opcode = GetBits 12 2 code in
      if low_opcode = 0b00 then
        [System \<lparr>SystemArgs.opcode = SystemOpcode_of (GetBits 7 25 code)\<rparr>]
      else if GetBit 14 code then
        [Csr_imm \<lparr>CsrImmArgs.opcode = CsrImmOpcode_of (ucast low_opcode),
                  CsrImmArgs.dst = field8 7 5 code,
                  CsrImmArgs.imm = field8 15 5 code,
                  CsrImmArgs.csr = field16 20 12 code\<rparr>]
      else
        [Csr \<lparr>CsrArgs.opcode = CsrOpcode_of (ucast low_opcode),
              CsrArgs.dst = field8 7 5 code,
              CsrArgs.src = field8 15 5 code,
              CsrArgs.csr = field16 20 12 code\<rparr>])"

section \<open>The dispatch\<close>

definition DecodeBaseInstruction :: "u32 \<Rightarrow> consumer_call list" where
  "DecodeBaseInstruction code =
     (case BaseOpcode_of (GetBits 2 5 code) of
        BaseOpcode.kLoad \<Rightarrow> DecodeLoad code
      | BaseOpcode.kLoadFp \<Rightarrow> DecodeLoadFp code
      | BaseOpcode.kMiscMem \<Rightarrow> DecodeMiscMem code
      | BaseOpcode.kOpImm \<Rightarrow>
          DecodeOpImm OpImmOpcode_of OpImm (\<lambda>v. ShiftImmOpcode_of (ucast v)) OpImm_shift
            BitmanipImmOpcode_of OpImm_bitmanip 6 code
      | BaseOpcode.kAuipc \<Rightarrow> DecodeAuipc code
      | BaseOpcode.kOpImm32 \<Rightarrow>
          DecodeOpImm OpImm32Opcode_of OpImm_32 ShiftImm32Opcode_of OpImm_shift_32
            BitmanipImm32Opcode_of OpImm_bitmanip_32 5 code
      | BaseOpcode.kStore \<Rightarrow> DecodeStore code
      | BaseOpcode.kStoreFp \<Rightarrow> DecodeStoreFp code
      | BaseOpcode.kAmo \<Rightarrow> DecodeAmo code
      | BaseOpcode.kOp \<Rightarrow> DecodeOp OpOpcode_of Op code
      | BaseOpcode.kLui \<Rightarrow> DecodeLui code
      | BaseOpcode.kOp32 \<Rightarrow> DecodeOp Op32Opcode_of Op_32 code
      | BaseOpcode.kMAdd \<Rightarrow> DecodeFma code
      | BaseOpcode.kMSub \<Rightarrow> DecodeFma code
      | BaseOpcode.kNmSub \<Rightarrow> DecodeFma code
      | BaseOpcode.kNmAdd \<Rightarrow> DecodeFma code
      | BaseOpcode.kOpFp \<Rightarrow> DecodeOpFp code
      | BaseOpcode.vOpV \<Rightarrow> DecodeOpV code
      | BaseOpcode.kBranch \<Rightarrow> DecodeBranch code
      | BaseOpcode.kJalr \<Rightarrow> DecodeJumpAndLinkRegister code
      | BaseOpcode.kJal \<Rightarrow> DecodeJumpAndLink code
      | BaseOpcode.kSystem \<Rightarrow> DecodeSystem code
      | _ \<Rightarrow> [Undefined])"

end
