(* ===== verification/Decoder.thy ===== *)
theory Decoder
  imports Decoder_Compressed Decoder_Base
begin

text \<open>
  The entry points of \<open>Decoder<InsnConsumer>\<close>, \<open>GetInsnSize\<close> and \<open>Decode\<close>, and the lemmas on
  decoding that the consumers rest on: how many calls an instruction makes, and the fields of the
  instructions that the relocator rewrites.
\<close>

section \<open>Fetching and decoding an instruction\<close>

definition GetInsnSize :: "memory \<Rightarrow> u64 \<Rightarrow> nat" where
  "GetInsnSize mem a = (if load16 mem a AND 0b11 \<noteq> 0b11 then 2 else 4)"

definition Decode :: "memory \<Rightarrow> u64 \<Rightarrow> consumer_call list \<times> nat" where
  "Decode mem a =
     (if GetInsnSize mem a = 2 then (DecodeCompressedInstruction (ucast (load16 mem a)), 2)
      else (DecodeBaseInstruction (load32 mem a), 4))"

lemma snd_Decode: "snd (Decode mem a) = GetInsnSize mem a"
  by (simp add: Decode_def GetInsnSize_def)

lemma GetInsnSize_cases: "GetInsnSize mem a = 2 \<or> GetInsnSize mem a = 4"
  by (simp add: GetInsnSize_def)

section \<open>How often the consumer is called\<close>

named_theorems call_count
  \<open>the number of calls of the methods of the decoder\<close>

text \<open>
  The two kinds of words for which an instruction does not make exactly one call: \<open>c.addi\<close> without
  effect (\<open>c.nop\<close> and the hints), and the reserved encodings next to \<open>vsetvl\<close>.
\<close>

definition is_compressed_nop :: "u32 \<Rightarrow> bool" where
  "is_compressed_nop code =
     (GetBits 0 2 code = 0b01 \<and> GetBits 13 3 code = 0b000 \<and>
      (GetBits 7 5 code = 0 \<or> (GetBits 2 5 code = 0 \<and> GetBits 12 1 code = 0)))"

definition is_reserved_vsetvl :: "u32 \<Rightarrow> bool" where
  "is_reserved_vsetvl code =
     (GetBits 2 5 code = 0b10101 \<and> GetBits 12 3 code = 0b111 \<and>
      GetBit 31 code \<and> \<not> GetBit 30 code \<and> GetBits 25 6 code \<noteq> 0)"

lemma length_base_methods [call_count]:
  "length (DecodeMiscMem code) = 1"
  "length (DecodeSingleInputOp sop code) = 1"
  "length (DecodeAmo code) = 1"
  "length (DecodeFma code) = 1"
  "length (DecodeLui code) = 1"
  "length (DecodeAuipc code) = 1"
  "length (DecodeVectorLoad eew code) = 1"
  "length (DecodeLoadArgs load lty code) = 1"
  "length (DecodeVectorStore eew code) = 1"
  "length (DecodeStoreArgs store sty code) = 1"
  "length (DecodeBranch code) = 1"
  "length (DecodeJumpAndLink code) = 1"
  "length (DecodeJumpAndLinkRegister code) = 1"
  "length (DecodeSystem code) = 1"
  by (simp_all add: DecodeMiscMem_def DecodeSingleInputOp_def DecodeAmo_def DecodeFma_def
      DecodeLui_def DecodeAuipc_def DecodeVectorLoad_def DecodeLoadArgs_def DecodeVectorStore_def
      DecodeStoreArgs_def DecodeBranch_def DecodeJumpAndLink_def DecodeJumpAndLinkRegister_def
      DecodeSystem_def Let_def)

lemma length_base_templates [call_count]:
  "length (DecodeOp opc op code) = 1"
  "length (DecodeOpImm o1 c1 o2 c2 o3 c3 k code) = 1"
  "length (DecodeLoad code) = 1"
  "length (DecodeLoadFp code) = 1"
  "length (DecodeStore code) = 1"
  "length (DecodeStoreFp code) = 1"
  by (simp_all add: DecodeOp_def DecodeOpImm_def DecodeLoad_def DecodeLoadFp_def DecodeStore_def
      DecodeStoreFp_def call_count Let_def split: load_store_width.split)

lemma length_DecodeOpFp [call_count]: "length (DecodeOpFp code) = 1"
  by (simp add: DecodeOpFp_def DecodeOpFp_no_rounding_def DecodeOpFp_single_input_def
      DecodeOpFp_fcvt_integer_def DecodeOpFp_fmv_def Let_def)

lemma GetBits_3_cases:
  assumes "start \<le> 29"
  shows "GetBits start 3 code \<in> {0, 1, 2, 3, 4, 5, 6, 7}"
proof -
  have small: "(of_nat n :: u32) \<in> {0, 1, 2, 3, 4, 5, 6, 7}" if "n < 8" for n :: nat
  proof -
    from that have "n \<in> {0, 1, 2, 3, 4, 5, 6, 7}" by auto
    then show ?thesis by auto
  qed
  show ?thesis
    using small [of "unat (GetBits start 3 code)"] GetBits_less [of start 3 code] assms by simp
qed

lemma length_DecodeOpV [call_count]:
  assumes "GetBits 2 5 code = 0b10101"
  shows "length (DecodeOpV code) = (if is_reserved_vsetvl code then 0 else 1)"
  using assms GetBits_3_cases [of 12 code]
  by (auto simp: DecodeOpV_def DecodeVsetvl_def is_reserved_vsetvl_def Let_def)

lemma BaseOpcode_of_eq:
  "BaseOpcode_of w = BaseOpcode.vOpV \<longleftrightarrow> w = 0b10101"
  using BaseOpcode_cast.of_value_eq_named [of BaseOpcode.vOpV w] by (simp add: BaseOpcode_named_def)

lemma length_DecodeBaseInstruction:
  "length (DecodeBaseInstruction code) = (if is_reserved_vsetvl code then 0 else 1)"
proof (cases "BaseOpcode_of (GetBits 2 5 code) = BaseOpcode.vOpV")
  case True
  then have "GetBits 2 5 code = 0b10101" by (simp only: BaseOpcode_of_eq)
  from length_DecodeOpV [OF this] show ?thesis
    by (simp only: DecodeBaseInstruction_def True BaseOpcode.case)
next
  case False
  then have "\<not> is_reserved_vsetvl code"
    by (simp add: is_reserved_vsetvl_def BaseOpcode_of_eq)
  with False show ?thesis
    by (simp add: DecodeBaseInstruction_def call_count split: BaseOpcode.split)
qed

text \<open>The 16-bit instructions: only \<open>c.addi\<close> can make a second call.\<close>

lemma length_compressed_methods [call_count]:
  "length (DecodeCompressedLi code) = 1"
  "length (DecodeCompressedMiscAlu code) = 1"
  "length (DecodeCompressedLuiAddi16sp code) = 1"
  "length (DecodeCompressedAddiw code) = 1"
  "length (DecodeCompressedAddi4spn code) = 1"
  "length (DecodeCompressedSlli code) = 1"
  "length (DecodeCompressedStoresp val store ty code) = 1"
  "length (DecodeCompressedLoadStore val' ls ty' code) = 1"
  "length (DecodeCompressedLoadsp val'' load ty'' code) = 1"
  "length (DecodeCompressedBeqzBnez code) = 1"
  "length (DecodeCompressedJ code) = 1"
  "length (DecodeCompressedJr_Jalr_Mv_Add code) = 1"
  by (simp_all add: DecodeCompressedLi_def DecodeCompressedMiscAlu_def DecodeCompressedMiscAlu_Op_def
      DecodeCompressedLuiAddi16sp_def DecodeCompressedAddiw_def DecodeCompressedAddi4spn_def
      DecodeCompressedSlli_def DecodeCompressedStoresp_def DecodeCompressedLoadStore_def
      DecodeCompressedLoadsp_def DecodeCompressedBeqzBnez_def DecodeCompressedJ_def
      DecodeCompressedJr_Jalr_Mv_Add_def Let_def split: option.split LoadStore.split)

lemma addi_immediate_zero:
  "ucast (SignExtend 6 (push_bit 5 (GetBits 12 1 code) OR GetBits 2 5 code)) = (0 :: u8) \<longleftrightarrow>
   GetBits 2 5 code = 0 \<and> GetBits 12 1 code = 0"
proof
  assume z: "ucast (SignExtend 6 (push_bit 5 (GetBits 12 1 code) OR GetBits 2 5 code)) = (0 :: u8)"
  have b: "\<not> bit (SignExtend 6 (push_bit 5 (GetBits 12 1 code) OR GetBits 2 5 code)) n" if "n < 6" for n
    using arg_cong [OF z, of "\<lambda>w. bit w n"] that by (simp add: bit_simps)
  have "GetBits 2 5 code = 0"
    using b by (intro bit_word_eqI) (force simp: word_fields bit_simps)
  moreover have "GetBits 12 1 code = 0"
    using b [of 5] by (intro bit_word_eqI) (auto simp: word_fields bit_simps)
  ultimately show "GetBits 2 5 code = 0 \<and> GetBits 12 1 code = 0" ..
qed (simp add: SignExtend_def)

lemma length_DecodeCompressedAddi [call_count]:
  "length (DecodeCompressedAddi code) =
   (if GetBits 7 5 code = 0 \<or> (GetBits 2 5 code = 0 \<and> GetBits 12 1 code = 0) then 2 else 1)"
proof -
  have "ucast (GetBits 7 5 code) = (0 :: u8) \<longleftrightarrow> GetBits 7 5 code = 0"
  proof
    assume z: "ucast (GetBits 7 5 code) = (0 :: u8)"
    show "GetBits 7 5 code = 0"
    proof (rule bit_word_eqI)
      fix n
      show "bit (GetBits 7 5 code) n \<longleftrightarrow> bit (0 :: u32) n"
        using arg_cong [OF z, of "\<lambda>w. bit w n"] by (auto simp: word_fields bit_simps)
    qed
  qed simp
  then show ?thesis
    unfolding DecodeCompressedAddi_def Let_def addi_immediate_zero by auto
qed

lemma compressed_selector:
  "CompressedOpcode_of (push_bit 2 (GetBits 13 3 code) OR GetBits 0 2 code) = CompressedOpcode.kAddi \<longleftrightarrow>
   GetBits 0 2 code = 0b01 \<and> GetBits 13 3 code = 0b000"
proof -
  let ?sel = "push_bit 2 (GetBits 13 3 code) OR GetBits 0 2 code"
  have low: "take_bit 2 ?sel = GetBits 0 2 code"
    by (rule bit_word_eqI) (auto simp: bit_simps word_fields)
  have high: "drop_bit 2 ?sel = GetBits 13 3 code"
    by (rule bit_word_eqI) (auto simp: bit_simps word_fields)
  have "CompressedOpcode_of ?sel = CompressedOpcode.kAddi \<longleftrightarrow> ?sel = 1"
    using CompressedOpcode_cast.of_value_eq_named [of CompressedOpcode.kAddi ?sel]
    by (simp add: CompressedOpcode_named_def)
  also have "\<dots> \<longleftrightarrow> GetBits 0 2 code = 1 \<and> GetBits 13 3 code = 0"
  proof
    assume "?sel = 1"
    then have "GetBits 0 2 code = take_bit 2 1" "GetBits 13 3 code = drop_bit 2 1"
      using low high by metis+
    then show "GetBits 0 2 code = 1 \<and> GetBits 13 3 code = 0" by simp
  qed simp
  finally show ?thesis by simp
qed

lemma length_DecodeCompressedInstruction:
  "length (DecodeCompressedInstruction code) = (if is_compressed_nop code then 2 else 1)"
proof (cases "CompressedOpcode_of (push_bit 2 (GetBits 13 3 code) OR GetBits 0 2 code) =
    CompressedOpcode.kAddi")
  case True
  then have "is_compressed_nop code \<longleftrightarrow>
      GetBits 7 5 code = 0 \<or> (GetBits 2 5 code = 0 \<and> GetBits 12 1 code = 0)"
    unfolding compressed_selector is_compressed_nop_def by simp
  moreover have "DecodeCompressedInstruction code = DecodeCompressedAddi code"
    unfolding DecodeCompressedInstruction_def True by simp
  ultimately show ?thesis by (simp only: length_DecodeCompressedAddi)
next
  case False
  then have "\<not> is_compressed_nop code"
    unfolding compressed_selector is_compressed_nop_def by blast
  with False show ?thesis
    by (simp add: DecodeCompressedInstruction_def call_count split: CompressedOpcode.split)
qed

lemma compressed_nop_calls:
  assumes "is_compressed_nop code"
  shows "\<exists>args. DecodeCompressedInstruction code = [Nop, OpImm args]"
proof -
  have sel: "CompressedOpcode_of (push_bit 2 (GetBits 13 3 code) OR GetBits 0 2 code) =
      CompressedOpcode.kAddi"
    using assms unfolding compressed_selector is_compressed_nop_def by simp
  then have "DecodeCompressedInstruction code = DecodeCompressedAddi code"
    unfolding DecodeCompressedInstruction_def by simp
  moreover have "length (DecodeCompressedAddi code) = 2"
    using assms length_DecodeCompressedAddi [of code] by (auto simp: is_compressed_nop_def)
  ultimately show ?thesis
    by (auto simp: DecodeCompressedAddi_def Let_def split: if_splits)
qed

text \<open>
  Together: an instruction is reported with exactly one call, apart from the \<open>c.nop\<close> encodings (two)
  and the reserved neighbours of \<open>vsetvl\<close> (none).
\<close>

definition calls_of :: "memory \<Rightarrow> u64 \<Rightarrow> nat" where
  "calls_of mem a =
     (if GetInsnSize mem a = 2 then (if is_compressed_nop (ucast (load16 mem a)) then 2 else 1)
      else (if is_reserved_vsetvl (load32 mem a) then 0 else 1))"

theorem Decode_calls: "length (fst (Decode mem a)) = calls_of mem a"
  by (simp add: Decode_def calls_of_def length_DecodeCompressedInstruction
      length_DecodeBaseInstruction)

lemma Decode_cases:
  obtains (none) "fst (Decode mem a) = []"
  | (one) c where "fst (Decode mem a) = [c]"
  | (nop) args where "fst (Decode mem a) = [Nop, OpImm args]"
proof -
  consider "length (fst (Decode mem a)) = 0" | "length (fst (Decode mem a)) = 1"
    | "GetInsnSize mem a = 2 \<and> is_compressed_nop (ucast (load16 mem a))"
    unfolding Decode_calls calls_of_def by (metis (full_types))
  then show thesis
  proof cases
    case 3
    with compressed_nop_calls [of "ucast (load16 mem a)"] nop show thesis
      by (auto simp: Decode_def)
  qed (use none one in \<open>auto simp: length_Suc_conv\<close>)
qed

end
