(* ===== verification/Assembler_Immediates.thy ===== *)
theory Assembler_Immediates
  imports Prelude
begin

text \<open>
  The immediate classes of \<open>external/berberis/include/berberis/assembler/riscv.h\<close>.

  A class \<open>XImmediate\<close> holds \<open>value_\<close>, the bits of the immediate where the instruction format has
  them. Of each class the model has \<open>XImmediate_AccetableValue\<close> (with the spelling of the source),
  in its signed and its unsigned instance, \<open>XImmediate_MakeRaw\<close>, the checking constructor
  \<open>XImmediate\<close>, the factory \<open>MakeXImmediate\<close>, and the conversion \<open>XImmediate_int32\<close> back to the number.
  The integer type of the argument is the length of a word.

  What the lemmas show: the masks accept exactly the numbers of the format, and an accepted number
  is what the conversion reads back.
\<close>

section \<open>Which values an immediate takes\<close>

text \<open>
  The tests of the source cut one 64-bit mask to the type of the argument. A value is accepted when
  the masked bits are all zero or, for a signed type, all one but for the low bits that every value
  of the format has zero.
\<close>

definition accept_unsigned :: "u64 \<Rightarrow> 'a::len word \<Rightarrow> bool" where
  "accept_unsigned m v = (v AND ucast m = 0)"

definition accept_signed :: "u64 \<Rightarrow> u64 \<Rightarrow> 'a::len word \<Rightarrow> bool" where
  "accept_signed m low v = (v AND ucast m = 0 \<or> v AND ucast m = ucast (m AND NOT low))"

definition BImmediate_AccetableValue :: "'a::len word \<Rightarrow> bool" where
  "BImmediate_AccetableValue v = accept_signed 0xfffffffffffff001 1 v"

definition BImmediate_AccetableValue_unsigned :: "'a::len word \<Rightarrow> bool" where
  "BImmediate_AccetableValue_unsigned v = accept_unsigned 0xfffffffffffff001 v"

definition CsrImmediate_AccetableValue :: "'a::len word \<Rightarrow> bool" where
  "CsrImmediate_AccetableValue v = (unat v < 32)"

definition IImmediate_AccetableValue :: "'a::len word \<Rightarrow> bool" where
  "IImmediate_AccetableValue v = accept_signed 0xfffffffffffff800 0 v"

definition IImmediate_AccetableValue_unsigned :: "'a::len word \<Rightarrow> bool" where
  "IImmediate_AccetableValue_unsigned v = accept_unsigned 0xfffffffffffff800 v"

definition JImmediate_AccetableValue :: "'a::len word \<Rightarrow> bool" where
  "JImmediate_AccetableValue v = accept_signed 0xfffffffffff00001 1 v"

definition JImmediate_AccetableValue_unsigned :: "'a::len word \<Rightarrow> bool" where
  "JImmediate_AccetableValue_unsigned v = accept_unsigned 0xfffffffffff00001 v"

definition PImmediate_AccetableValue :: "'a::len word \<Rightarrow> bool" where
  "PImmediate_AccetableValue v = accept_signed 0xfffffffffffff81f 0x1f v"

definition PImmediate_AccetableValue_unsigned :: "'a::len word \<Rightarrow> bool" where
  "PImmediate_AccetableValue_unsigned v = accept_unsigned 0xfffffffffffff81f v"

definition Shift32Immediate_AccetableValue :: "'a::len word \<Rightarrow> bool" where
  "Shift32Immediate_AccetableValue v = (unat v < 32)"

definition Shift64Immediate_AccetableValue :: "'a::len word \<Rightarrow> bool" where
  "Shift64Immediate_AccetableValue v = (unat v < 64)"

definition SImmediate_AccetableValue :: "'a::len word \<Rightarrow> bool" where
  "SImmediate_AccetableValue v = IImmediate_AccetableValue v"

definition UImmediate_AccetableValue :: "'a::len word \<Rightarrow> bool" where
  "UImmediate_AccetableValue v = accept_signed 0xffffffff80000fff 0xfff v"

definition UImmediate_AccetableValue_unsigned :: "'a::len word \<Rightarrow> bool" where
  "UImmediate_AccetableValue_unsigned v = accept_unsigned 0xffffffff80000fff v"

section \<open>Where the format has the bits\<close>

definition BImmediate_MakeRaw :: "'a::len word \<Rightarrow> u32" where
  "BImmediate_MakeRaw v =
     (ucast v AND 0x80000000) OR
     signed_drop_bit 4 (ucast v AND 0x00000800) OR
     push_bit 7 (ucast v AND 0x0000001f) OR
     push_bit 20 (ucast v AND 0x000007e0)"

definition CsrImmediate_MakeRaw :: "'a::len word \<Rightarrow> u32" where
  "CsrImmediate_MakeRaw v = push_bit 15 (ucast v)"

definition IImmediate_MakeRaw :: "'a::len word \<Rightarrow> u32" where
  "IImmediate_MakeRaw v = push_bit 20 (ucast v)"

definition JImmediate_MakeRaw :: "'a::len word \<Rightarrow> u32" where
  "JImmediate_MakeRaw v =
     (ucast v AND 0x800ff000) OR
     push_bit 9 (ucast v AND 0x00000800) OR
     push_bit 20 (ucast v AND 0x000007fe)"

definition PImmediate_MakeRaw :: "'a::len word \<Rightarrow> u32" where
  "PImmediate_MakeRaw v = push_bit 20 (ucast v)"

definition Shift32Immediate_MakeRaw :: "'a::len word \<Rightarrow> u32" where
  "Shift32Immediate_MakeRaw v = push_bit 20 (ucast v)"

definition Shift64Immediate_MakeRaw :: "'a::len word \<Rightarrow> u32" where
  "Shift64Immediate_MakeRaw v = push_bit 20 (ucast v)"

definition SImmediate_MakeRaw :: "'a::len word \<Rightarrow> u32" where
  "SImmediate_MakeRaw v =
     push_bit 20 (ucast v AND 0xffffffe0) OR push_bit 7 (ucast v AND 0x0000001f)"

definition UImmediate_MakeRaw :: "'a::len word \<Rightarrow> u32" where
  "UImmediate_MakeRaw v = ucast v"

section \<open>Constructors and factories\<close>

text \<open>A constructor ends in a \<open>CHECK\<close>; a factory returns no value instead.\<close>

definition checked :: "('w \<Rightarrow> bool) \<Rightarrow> ('w \<Rightarrow> u32) \<Rightarrow> 'w \<Rightarrow> u32 result" where
  "checked ok raw v = bnd (CHECK (ok v)) (\<lambda>_. Inr (raw v))"

definition optional :: "('w \<Rightarrow> bool) \<Rightarrow> ('w \<Rightarrow> u32) \<Rightarrow> 'w \<Rightarrow> u32 option" where
  "optional ok raw v = (if \<not> ok v then None else Some (raw v))"

definition BImmediate :: "'a::len word \<Rightarrow> u32 result" where
  "BImmediate = checked BImmediate_AccetableValue BImmediate_MakeRaw"

definition IImmediate :: "'a::len word \<Rightarrow> u32 result" where
  "IImmediate = checked IImmediate_AccetableValue IImmediate_MakeRaw"

definition JImmediate :: "'a::len word \<Rightarrow> u32 result" where
  "JImmediate = checked JImmediate_AccetableValue JImmediate_MakeRaw"

definition SImmediate :: "'a::len word \<Rightarrow> u32 result" where
  "SImmediate = checked SImmediate_AccetableValue SImmediate_MakeRaw"

definition UImmediate :: "'a::len word \<Rightarrow> u32 result" where
  "UImmediate = checked UImmediate_AccetableValue UImmediate_MakeRaw"

definition UImmediate_unsigned :: "'a::len word \<Rightarrow> u32 result" where
  "UImmediate_unsigned = checked UImmediate_AccetableValue_unsigned UImmediate_MakeRaw"

definition MakeBImmediate :: "'a::len word \<Rightarrow> u32 option" where
  "MakeBImmediate = optional BImmediate_AccetableValue BImmediate_MakeRaw"

definition MakeIImmediate :: "'a::len word \<Rightarrow> u32 option" where
  "MakeIImmediate = optional IImmediate_AccetableValue IImmediate_MakeRaw"

definition MakeJImmediate :: "'a::len word \<Rightarrow> u32 option" where
  "MakeJImmediate = optional JImmediate_AccetableValue JImmediate_MakeRaw"

definition MakeSImmediate :: "'a::len word \<Rightarrow> u32 option" where
  "MakeSImmediate = optional SImmediate_AccetableValue SImmediate_MakeRaw"

definition MakeUImmediate :: "'a::len word \<Rightarrow> u32 option" where
  "MakeUImmediate = optional UImmediate_AccetableValue UImmediate_MakeRaw"

section \<open>Back to the number\<close>

definition BImmediate_int32 :: "u32 \<Rightarrow> u32" where
  "BImmediate_int32 v =
     (signed_drop_bit 7 v AND 0x0000001e) OR (signed_drop_bit 20 v AND 0xfffff7e0) OR
     (push_bit 4 v AND 0x00000800)"

definition CsrImmediate_int32 :: "u32 \<Rightarrow> u32" where
  "CsrImmediate_int32 v = signed_drop_bit 15 v"

definition IImmediate_int32 :: "u32 \<Rightarrow> u32" where
  "IImmediate_int32 v = signed_drop_bit 20 v"

definition JImmediate_int32 :: "u32 \<Rightarrow> u32" where
  "JImmediate_int32 v =
     (signed_drop_bit 20 v AND 0xfff007fe) OR (signed_drop_bit 9 v AND 0x00000800) OR
     (v AND 0x000ff000)"

definition PImmediate_int32 :: "u32 \<Rightarrow> u32" where
  "PImmediate_int32 v = signed_drop_bit 20 v"

definition Shift32Immediate_int32 :: "u32 \<Rightarrow> u32" where
  "Shift32Immediate_int32 v = signed_drop_bit 20 v"

definition Shift64Immediate_int32 :: "u32 \<Rightarrow> u32" where
  "Shift64Immediate_int32 v = signed_drop_bit 20 v"

definition SImmediate_int32 :: "u32 \<Rightarrow> u32" where
  "SImmediate_int32 v = (signed_drop_bit 7 v AND 0x0000001f) OR signed_drop_bit 20 v"

definition UImmediate_int32 :: "u32 \<Rightarrow> u32" where
  "UImmediate_int32 v = v"

text \<open>The conversions between the two formats of a 12-bit immediate.\<close>

definition IImmediate_of_S :: "u32 \<Rightarrow> u32" where
  "IImmediate_of_S v = (v AND 0xfe000000) OR push_bit 13 (v AND 0x00000f80)"

definition SImmediate_of_I :: "u32 \<Rightarrow> u32" where
  "SImmediate_of_I v = (v AND 0xfe000000) OR signed_drop_bit 13 (v AND 0x01f00000)"

section \<open>The masks accept exactly the numbers of the format\<close>

lemma bit_sint_word: "bit (sint (v :: 'a::len word)) n \<longleftrightarrow> bit v (min n (LENGTH('a) - 1))"
  by (simp add: bit_simps min_def) (metis Suc_pred len_gt_0 less_antisym not_less)

lemma sint_signed_take_bit:
  assumes "k < LENGTH('a)"
  shows "sint (signed_take_bit k (v :: 'a::len word)) = signed_take_bit k (sint v)"
proof (rule bit_eqI)
  fix n
  show "bit (sint (signed_take_bit k v)) n \<longleftrightarrow> bit (signed_take_bit k (sint v)) n"
    using assms by (auto simp: bit_sint_word bit_signed_take_bit_iff min_def)
qed

lemma signed_take_bit_eq_self_iff:
  assumes "k < LENGTH('a)"
  shows "signed_take_bit k (v :: 'a::len word) = v \<longleftrightarrow> - (2 ^ k) \<le> sint v \<and> sint v < 2 ^ k"
  by (metis assms signed_take_bit_int_eq_self_iff sint_signed_take_bit signed_word_eqI)

lemma take_bit_eq_0_iff_sint:
  assumes "j \<le> LENGTH('a)"
  shows "take_bit j (v :: 'a::len word) = 0 \<longleftrightarrow> 2 ^ j dvd sint v"
proof -
  have "take_bit j (sint v) = uint (take_bit j v)"
  proof (rule bit_eqI)
    fix n
    show "bit (take_bit j (sint v)) n \<longleftrightarrow> bit (uint (take_bit j v)) n"
      using assms by (auto simp: bit_take_bit_iff bit_sint_word bit_uint_iff min_def)
  qed
  then show ?thesis
    by (metis take_bit_eq_0_iff uint_0_iff)
qed

definition format_mask :: "nat \<Rightarrow> nat \<Rightarrow> u64" where
  "format_mask k j = NOT (mask k) OR mask j"

lemma accept_signed_bits:
  assumes "j \<le> k" and "k < LENGTH('a)" and "LENGTH('a) \<le> 64"
  shows "accept_signed (format_mask k j) (mask j) (v :: 'a::len word) \<longleftrightarrow>
         signed_take_bit k v = v \<and> take_bit j v = 0"
proof -
  have zero: "v AND ucast (format_mask k j) = 0 \<longleftrightarrow>
      (\<forall>n < LENGTH('a). (n < j \<or> k \<le> n) \<longrightarrow> \<not> bit v n)"
    using assms by (auto simp: bit_eq_iff bit_simps format_mask_def)
  have ones: "v AND ucast (format_mask k j) = ucast (format_mask k j AND NOT (mask j)) \<longleftrightarrow>
      (\<forall>n < LENGTH('a). (n < j \<longrightarrow> \<not> bit v n) \<and> (k \<le> n \<longrightarrow> bit v n))"
    using assms by (auto simp: bit_eq_iff bit_simps format_mask_def)
  have self: "signed_take_bit k v = v \<longleftrightarrow> (\<forall>n < LENGTH('a). k \<le> n \<longrightarrow> bit v n = bit v k)"
    using assms by (auto simp: bit_eq_iff bit_simps min_def)
  have low: "take_bit j v = 0 \<longleftrightarrow> (\<forall>n < LENGTH('a). n < j \<longrightarrow> \<not> bit v n)"
    by (auto simp: bit_eq_iff bit_simps)
  show ?thesis
    unfolding accept_signed_def zero ones self low
    using assms by (cases "bit v k") auto
qed

lemma accept_signed_iff:
  assumes "j \<le> k" and "k < LENGTH('a)" and "LENGTH('a) \<le> 64"
  shows "accept_signed (format_mask k j) (mask j) (v :: 'a::len word) \<longleftrightarrow>
         - (2 ^ k) \<le> sint v \<and> sint v < 2 ^ k \<and> 2 ^ j dvd sint v"
  using assms
  by (simp add: accept_signed_bits signed_take_bit_eq_self_iff take_bit_eq_0_iff_sint conj_assoc)

lemma accept_unsigned_iff:
  assumes "j \<le> k" and "k \<le> LENGTH('a)" and "LENGTH('a) \<le> 64"
  shows "accept_unsigned (format_mask k j) (v :: 'a::len word) \<longleftrightarrow>
         take_bit k v = v \<and> take_bit j v = 0"
  using assms
  by (auto simp: accept_unsigned_def bit_eq_iff bit_simps format_mask_def)

lemma format_masks:
  "0xfffffffffffff001 = format_mask 12 1"
  "0xfffffffffffff800 = format_mask 11 0"
  "0xfffffffffff00001 = format_mask 20 1"
  "0xfffffffffffff81f = format_mask 11 5"
  "0xffffffff80000fff = format_mask 31 12"
  "(1 :: u64) = mask 1" "(0 :: u64) = mask 0" "(0x1f :: u64) = mask 5" "(0xfff :: u64) = mask 12"
  by (simp_all add: format_mask_def mask_numeral)

lemma BImmediate_AccetableValue_iff:
  assumes "13 \<le> LENGTH('a)" and "LENGTH('a) \<le> 64"
  shows "BImmediate_AccetableValue (v :: 'a::len word) \<longleftrightarrow>
         - (2 ^ 12) \<le> sint v \<and> sint v < 2 ^ 12 \<and> 2 dvd sint v"
  unfolding BImmediate_AccetableValue_def format_masks
  using assms by (subst accept_signed_iff) simp_all

lemma IImmediate_AccetableValue_iff:
  assumes "12 \<le> LENGTH('a)" and "LENGTH('a) \<le> 64"
  shows "IImmediate_AccetableValue (v :: 'a::len word) \<longleftrightarrow> - (2 ^ 11) \<le> sint v \<and> sint v < 2 ^ 11"
  unfolding IImmediate_AccetableValue_def format_masks
  using assms by (subst accept_signed_iff) simp_all

lemma JImmediate_AccetableValue_iff:
  assumes "21 \<le> LENGTH('a)" and "LENGTH('a) \<le> 64"
  shows "JImmediate_AccetableValue (v :: 'a::len word) \<longleftrightarrow>
         - (2 ^ 20) \<le> sint v \<and> sint v < 2 ^ 20 \<and> 2 dvd sint v"
  unfolding JImmediate_AccetableValue_def format_masks
  using assms by (subst accept_signed_iff) simp_all

lemma PImmediate_AccetableValue_iff:
  assumes "12 \<le> LENGTH('a)" and "LENGTH('a) \<le> 64"
  shows "PImmediate_AccetableValue (v :: 'a::len word) \<longleftrightarrow>
         - (2 ^ 11) \<le> sint v \<and> sint v < 2 ^ 11 \<and> 32 dvd sint v"
  unfolding PImmediate_AccetableValue_def format_masks
  using assms by (subst accept_signed_iff) simp_all

lemma SImmediate_AccetableValue_iff:
  assumes "12 \<le> LENGTH('a)" and "LENGTH('a) \<le> 64"
  shows "SImmediate_AccetableValue (v :: 'a::len word) \<longleftrightarrow> - (2 ^ 11) \<le> sint v \<and> sint v < 2 ^ 11"
  using assms by (simp add: SImmediate_AccetableValue_def IImmediate_AccetableValue_iff)

lemma UImmediate_AccetableValue_iff:
  assumes "32 \<le> LENGTH('a)" and "LENGTH('a) \<le> 64"
  shows "UImmediate_AccetableValue (v :: 'a::len word) \<longleftrightarrow>
         - (2 ^ 31) \<le> sint v \<and> sint v < 2 ^ 31 \<and> 4096 dvd sint v"
  unfolding UImmediate_AccetableValue_def format_masks
  using assms by (subst accept_signed_iff) simp_all

lemma UImmediate_AccetableValue_unsigned_iff:
  "UImmediate_AccetableValue_unsigned (v :: u32) \<longleftrightarrow> take_bit 31 v = v \<and> take_bit 12 v = 0"
  unfolding UImmediate_AccetableValue_unsigned_def format_masks
  by (subst accept_unsigned_iff) simp_all

section \<open>An accepted number is what is read back\<close>

lemma accepted_bits:
  assumes "accept_signed (format_mask k j) (mask j) (v :: u32)" and "j \<le> k" and "k < 32"
  shows "k < m \<Longrightarrow> m < 32 \<Longrightarrow> bit v m \<longleftrightarrow> bit v k" and "i < j \<Longrightarrow> \<not> bit v i"
proof -
  have "signed_take_bit k v = v" and "take_bit j v = 0"
    using assms by (simp_all add: accept_signed_bits)
  then show "k < m \<Longrightarrow> m < 32 \<Longrightarrow> bit v m \<longleftrightarrow> bit v k" and "i < j \<Longrightarrow> \<not> bit v i"
    by (simp_all add: sign_bits low_bits)
qed

lemma BImmediate_roundtrip:
  assumes "BImmediate_AccetableValue (v :: u32)"
  shows "BImmediate_int32 (BImmediate_MakeRaw v) = v"
proof -
  note bits = accepted_bits [OF assms [unfolded BImmediate_AccetableValue_def format_masks]]
  have hi: "12 < m \<Longrightarrow> m < 32 \<Longrightarrow> bit v m \<longleftrightarrow> bit v 12" for m by (rule bits) simp_all
  have lo: "even v" using bits(2) [of 0] by (simp add: bit_0)
  show ?thesis
    by (rule word32_eqI) (simp add: BImmediate_int32_def BImmediate_MakeRaw_def bit_simps hi lo bit_0)
qed

lemma IImmediate_roundtrip:
  assumes "IImmediate_AccetableValue (v :: u32)"
  shows "IImmediate_int32 (IImmediate_MakeRaw v) = v"
proof -
  note bits = accepted_bits [OF assms [unfolded IImmediate_AccetableValue_def format_masks]]
  have hi: "11 < m \<Longrightarrow> m < 32 \<Longrightarrow> bit v m \<longleftrightarrow> bit v 11" for m by (rule bits) simp_all
  show ?thesis
    by (rule word32_eqI) (simp add: IImmediate_int32_def IImmediate_MakeRaw_def bit_simps hi bit_0)
qed

lemma JImmediate_roundtrip:
  assumes "JImmediate_AccetableValue (v :: u32)"
  shows "JImmediate_int32 (JImmediate_MakeRaw v) = v"
proof -
  note bits = accepted_bits [OF assms [unfolded JImmediate_AccetableValue_def format_masks]]
  have hi: "20 < m \<Longrightarrow> m < 32 \<Longrightarrow> bit v m \<longleftrightarrow> bit v 20" for m by (rule bits) simp_all
  have lo: "even v" using bits(2) [of 0] by (simp add: bit_0)
  show ?thesis
    by (rule word32_eqI) (simp add: JImmediate_int32_def JImmediate_MakeRaw_def bit_simps hi lo bit_0)
qed

lemma PImmediate_roundtrip:
  assumes "PImmediate_AccetableValue (v :: u32)"
  shows "PImmediate_int32 (PImmediate_MakeRaw v) = v"
proof -
  note bits = accepted_bits [OF assms [unfolded PImmediate_AccetableValue_def format_masks]]
  have hi: "11 < m \<Longrightarrow> m < 32 \<Longrightarrow> bit v m \<longleftrightarrow> bit v 11" for m by (rule bits) simp_all
  show ?thesis
    by (rule word32_eqI) (simp add: PImmediate_int32_def PImmediate_MakeRaw_def bit_simps hi bit_0)
qed

lemma SImmediate_roundtrip:
  assumes "SImmediate_AccetableValue (v :: u32)"
  shows "SImmediate_int32 (SImmediate_MakeRaw v) = v"
proof -
  note bits = accepted_bits
    [OF assms [unfolded SImmediate_AccetableValue_def IImmediate_AccetableValue_def format_masks]]
  have hi: "11 < m \<Longrightarrow> m < 32 \<Longrightarrow> bit v m \<longleftrightarrow> bit v 11" for m by (rule bits) simp_all
  show ?thesis
    by (rule word32_eqI) (simp add: SImmediate_int32_def SImmediate_MakeRaw_def bit_simps hi bit_0)
qed

lemma UImmediate_roundtrip: "UImmediate_int32 (UImmediate_MakeRaw (v :: u32)) = v"
  by (simp add: UImmediate_int32_def UImmediate_MakeRaw_def)

lemma Shift_roundtrip:
  assumes "unat (v :: u32) < 64"
  shows "Shift64Immediate_int32 (Shift64Immediate_MakeRaw v) = v"
proof -
  have "take_bit 6 v = v"
    using assms by (intro unsigned_word_eqI [where 'a = nat])
      (simp add: unsigned_take_bit_eq take_bit_nat_eq_self)
  then have hi: "6 \<le> m \<Longrightarrow> \<not> bit v m" for m
    by (metis bit_take_bit_iff not_le)
  show ?thesis
    by (rule word32_eqI)
      (simp add: Shift64Immediate_int32_def Shift64Immediate_MakeRaw_def bit_simps hi bit_0)
qed

text \<open>The two formats of a 12-bit immediate carry the same number.\<close>

lemma S_I_conversions:
  fixes v :: u32
  shows "SImmediate_of_I (IImmediate_MakeRaw v) = SImmediate_MakeRaw v"
    and "IImmediate_of_S (SImmediate_MakeRaw v) = IImmediate_MakeRaw v"
  by (rule word32_eqI, simp add: SImmediate_of_I_def IImmediate_of_S_def IImmediate_MakeRaw_def
        SImmediate_MakeRaw_def bit_simps bit_0)+

end
