(* ===== verification/Assembler.thy ===== *)
theory Assembler
  imports Assembler_Immediates
begin

text \<open>
  The assembler of \<open>external/berberis\<close>: \<open>MachineCode\<close> (the emitted bytes and the relocations to
  perform at installation), \<open>AssemblerBase\<close> (labels and the list of jumps to resolve), and the
  instructions and macros of \<open>riscv::Assembler\<close> and \<open>rv64::Assembler\<close> that the library uses.

  A C++ reference to a label is a value of type \<open>label\<close>: a label made in the arena by
  \<open>MakeLabel\<close>, or the label that the relocator's map holds for an address. The positions of all
  labels are one function of the assembler's state. An overloaded instruction that takes a label is
  named \<open>X_label\<close>.
\<close>

section \<open>Machine code\<close>

datatype RelocationType = RelocAbsToDisp32 | RelocRecoveryPoint

record Relocation =
  dst :: u32
  reloc_type :: RelocationType
  pc :: u32
  data :: u64

record MachineCode =
  code_bytes :: "u8 list"
  relocations :: "Relocation list"

definition code_offset :: "MachineCode \<Rightarrow> u32" where
  "code_offset mc = of_nat (length (code_bytes mc))"

definition install_size :: "MachineCode \<Rightarrow> u32" where
  "install_size mc = of_nat (length (code_bytes mc))"

text \<open>\<open>memcpy\<close> into the vector of bytes.\<close>

definition overwrite :: "nat \<Rightarrow> 'b list \<Rightarrow> 'b list \<Rightarrow> 'b list" where
  "overwrite i bs xs = take i xs @ bs @ drop (i + length bs) xs"

text \<open>
  \<open>Grow\<close> returns the old size cut to 32 bits, and \<open>Add\<close> copies the value there. The check of
  \<open>AddrOf\<close> cannot fail here: the vector has just become longer than the offset.
\<close>

definition Grow :: "nat \<Rightarrow> MachineCode \<Rightarrow> u32 \<times> MachineCode" where
  "Grow count mc =
     (of_nat (length (code_bytes mc)),
      mc\<lparr>code_bytes := code_bytes mc @ replicate count 0\<rparr>)"

definition AddBytes :: "u8 list \<Rightarrow> MachineCode \<Rightarrow> MachineCode" where
  "AddBytes bs mc =
     (let (offset', grown) = Grow (length bs) mc
      in grown\<lparr>code_bytes := overwrite (unat offset') bs (code_bytes grown)\<rparr>)"

definition AddU8 :: "u8 \<Rightarrow> MachineCode \<Rightarrow> MachineCode" where
  "AddU8 v mc = mc\<lparr>code_bytes := code_bytes mc @ [v]\<rparr>"

definition AddRelocation ::
  "u32 \<Rightarrow> RelocationType \<Rightarrow> u32 \<Rightarrow> u64 \<Rightarrow> MachineCode \<Rightarrow> MachineCode" where
  "AddRelocation dst' type' pc' data' mc =
     mc\<lparr>relocations := relocations mc @
          [\<lparr>Relocation.dst = dst', Relocation.reloc_type = type', Relocation.pc = pc',
            Relocation.data = data'\<rparr>]\<rparr>"

text \<open>\<open>*AddrAs<int32_t>(offset)\<close>, read and written; \<open>AddrOf\<close> checks the first byte only.\<close>

definition AddrOf :: "u32 \<Rightarrow> MachineCode \<Rightarrow> nat result" where
  "AddrOf offset' mc =
     bnd (CHECK (unat offset' < length (code_bytes mc))) (\<lambda>_. Inr (unat offset'))"

definition read_int32 :: "u32 \<Rightarrow> MachineCode \<Rightarrow> u32 result" where
  "read_int32 offset' mc =
     bnd (AddrOf offset' mc) (\<lambda>i.
       if i + 4 \<le> length (code_bytes mc)
       then Inr (word_of_bytes (take 4 (drop i (code_bytes mc))))
       else Inl OutOfBounds)"

definition write_int32 :: "u32 \<Rightarrow> u32 \<Rightarrow> MachineCode \<Rightarrow> MachineCode result" where
  "write_int32 offset' v mc =
     bnd (AddrOf offset' mc) (\<lambda>i.
       if i + 4 \<le> length (code_bytes mc)
       then Inr (mc\<lparr>code_bytes := overwrite i (bytes_of 4 v) (code_bytes mc)\<rparr>)
       else Inl OutOfBounds)"

definition or_int32 :: "u32 \<Rightarrow> u32 \<Rightarrow> MachineCode \<Rightarrow> MachineCode result" where
  "or_int32 offset' v mc =
     bnd (read_int32 offset' mc) (\<lambda>w. write_int32 offset' (w OR v) mc)"

subsection \<open>Installation\<close>

text \<open>
  \<open>PerformRelocations\<close> for code that goes to the address \<open>code\<close>; the recovery map is a map from
  fault addresses to recovery addresses.
\<close>

type_synonym recovery_map = "u64 \<rightharpoonup> u64"

definition PerformRelocation ::
  "u64 \<Rightarrow> Relocation \<Rightarrow> MachineCode \<times> recovery_map \<Rightarrow> (MachineCode \<times> recovery_map) result" where
  "PerformRelocation start rel st =
     (case Relocation.reloc_type rel of
        RelocAbsToDisp32 \<Rightarrow>
          (let pc' = start + ucast (Relocation.pc rel);
               disp = Relocation.data rel - pc'
           in bnd (CHECK (- (2 ^ 31) \<le> sint disp \<and> sint disp < 2 ^ 31)) (\<lambda>_.
              bnd (write_int32 (Relocation.dst rel) (ucast disp) (fst st)) (\<lambda>mc.
              Inr (mc, snd st))))
      | RelocRecoveryPoint \<Rightarrow>
          Inr (fst st, (snd st)(start + ucast (Relocation.pc rel) \<mapsto> start + Relocation.data rel)))"

primrec perform_each ::
  "u64 \<Rightarrow> Relocation list \<Rightarrow> MachineCode \<times> recovery_map \<Rightarrow> (MachineCode \<times> recovery_map) result" where
  "perform_each start [] st = Inr st"
| "perform_each start (rel # rels) st =
     bnd (PerformRelocation start rel st) (perform_each start rels)"

definition PerformRelocations ::
  "u64 \<Rightarrow> MachineCode \<times> recovery_map \<Rightarrow> (MachineCode \<times> recovery_map) result" where
  "PerformRelocations start st = perform_each start (relocations (fst st)) st"

definition InstallUnsafe ::
  "u64 \<Rightarrow> MachineCode \<Rightarrow> recovery_map \<Rightarrow> memory \<Rightarrow> (memory \<times> recovery_map) result" where
  "InstallUnsafe start mc recovery mem =
     bnd (PerformRelocations start (mc, recovery)) (\<lambda>(mc', recovery').
     bnd (AddrOf 0 mc') (\<lambda>_.
     Inr (write_bytes mem start (code_bytes mc'), recovery')))"

section \<open>Labels and jumps\<close>

datatype label = ArenaLabel nat | AddressLabel u64

record Jump =
  jump_label :: label
  pc :: u32
  is_recovery :: bool

record AssemblerBase =
  mcode :: MachineCode
  jumps :: "Jump list"
  position :: "label \<Rightarrow> u32"
  arena_labels :: nat

definition kInvalid :: u32 where
  "kInvalid = 0xffffffff"

definition new_assembler :: AssemblerBase where
  "new_assembler =
     \<lparr>mcode = \<lparr>code_bytes = [], relocations = []\<rparr>, jumps = [], position = (\<lambda>_. kInvalid),
      arena_labels = 0\<rparr>"

definition IsBound :: "label \<Rightarrow> AssemblerBase \<Rightarrow> bool" where
  "IsBound l a = (position a l \<noteq> kInvalid)"

definition asm_pc :: "AssemblerBase \<Rightarrow> u32" where
  "asm_pc a = code_offset (mcode a)"

definition MakeLabel :: "AssemblerBase \<Rightarrow> label \<times> AssemblerBase" where
  "MakeLabel a = (ArenaLabel (arena_labels a), a\<lparr>arena_labels := arena_labels a + 1\<rparr>)"

definition Bind :: "label \<Rightarrow> AssemblerBase \<Rightarrow> AssemblerBase result" where
  "Bind l a = bnd (CHECK (\<not> IsBound l a)) (\<lambda>_. Inr (a\<lparr>position := (position a)(l := asm_pc a)\<rparr>))"

definition push_jump :: "label \<Rightarrow> bool \<Rightarrow> AssemblerBase \<Rightarrow> AssemblerBase" where
  "push_jump l recovery a =
     a\<lparr>jumps := jumps a @
        [\<lparr>Jump.jump_label = l, Jump.pc = asm_pc a, Jump.is_recovery = recovery\<rparr>]\<rparr>"

definition SetRecoveryPoint :: "label \<Rightarrow> AssemblerBase \<Rightarrow> AssemblerBase" where
  "SetRecoveryPoint l a = push_jump l True a"

definition Emit8 :: "u8 \<Rightarrow> AssemblerBase \<Rightarrow> AssemblerBase" where
  "Emit8 v a = a\<lparr>mcode := AddU8 v (mcode a)\<rparr>"

definition Emit16 :: "u16 \<Rightarrow> AssemblerBase \<Rightarrow> AssemblerBase" where
  "Emit16 v a = a\<lparr>mcode := AddBytes (bytes_of 2 v) (mcode a)\<rparr>"

definition Emit32 :: "u32 \<Rightarrow> AssemblerBase \<Rightarrow> AssemblerBase" where
  "Emit32 v a = a\<lparr>mcode := AddBytes (bytes_of 4 v) (mcode a)\<rparr>"

definition Emit64 :: "u64 \<Rightarrow> AssemblerBase \<Rightarrow> AssemblerBase" where
  "Emit64 v a = a\<lparr>mcode := AddBytes (bytes_of 8 v) (mcode a)\<rparr>"

primrec TwoByte :: "u16 list \<Rightarrow> AssemblerBase \<Rightarrow> AssemblerBase" where
  "TwoByte [] a = a"
| "TwoByte (v # vs) a = TwoByte vs (Emit16 v a)"

section \<open>Instructions\<close>

text \<open>
  Operands are given by the bits they put into the instruction. \<open>Rd\<close>, \<open>Rs1\<close>, \<open>Rs2\<close>, \<open>Rs3\<close> wrap a
  register number, \<open>Cond\<close> and \<open>Rm\<close> a condition and a rounding mode; an immediate is its
  \<open>EncodedValue()\<close>, the bits that its class has prepared.
\<close>

type_synonym Register = u8

definition x0 :: Register where "x0 = 0"
definition x1 :: Register where "x1 = 1"
definition x6 :: Register where "x6 = 6"
definition zero :: Register where "zero = 0"

text \<open>\<open>TMP_GENERIC_REGISTER\<close> is \<open>t3\<close> by \<open>config.h\<close>, and \<open>t3\<close> is the register 28.\<close>

definition TMP_GENERIC_REGISTER :: Register where
  "TMP_GENERIC_REGISTER = 28"

definition Rd :: "Register \<Rightarrow> u32" where "Rd r = push_bit 7 (ucast r)"
definition Cond :: "u32 \<Rightarrow> u32" where "Cond c = push_bit 12 c"
definition Rm :: "u32 \<Rightarrow> u32" where "Rm r = push_bit 12 r"
definition Rs1 :: "Register \<Rightarrow> u32" where "Rs1 r = push_bit 15 (ucast r)"
definition Rs2 :: "Register \<Rightarrow> u32" where "Rs2 r = push_bit 20 (ucast r)"
definition Rs3 :: "Register \<Rightarrow> u32" where "Rs3 r = push_bit 27 (ucast r)"

definition encode :: "u32 \<Rightarrow> u32 list \<Rightarrow> u32" where
  "encode kOpcode arguments = foldl (OR) kOpcode arguments"

definition EmitInstruction :: "u32 \<Rightarrow> u32 list \<Rightarrow> AssemblerBase \<Rightarrow> AssemblerBase" where
  "EmitInstruction kOpcode arguments a = Emit32 (encode kOpcode arguments) a"

definition EmitBTypeInstruction ::
  "u32 \<Rightarrow> Register \<Rightarrow> Register \<Rightarrow> u32 \<Rightarrow> AssemblerBase \<Rightarrow> AssemblerBase" where
  "EmitBTypeInstruction kOpcode argument0 argument1 immediate =
     EmitInstruction kOpcode [Rs1 argument0, Rs2 argument1, immediate]"

text \<open>The memory operand of the I and S formats is a base register and a displacement.\<close>

definition EmitITypeInstruction ::
  "u32 \<Rightarrow> Register \<Rightarrow> Register \<Rightarrow> u32 \<Rightarrow> AssemblerBase \<Rightarrow> AssemblerBase" where
  "EmitITypeInstruction kOpcode argument0 argument1 immediate =
     EmitInstruction kOpcode [Rd argument0, Rs1 argument1, immediate]"

definition EmitJTypeInstruction ::
  "u32 \<Rightarrow> Register \<Rightarrow> u32 \<Rightarrow> AssemblerBase \<Rightarrow> AssemblerBase" where
  "EmitJTypeInstruction kOpcode argument0 immediate =
     EmitInstruction kOpcode [Rd argument0, immediate]"

definition EmitRTypeInstruction ::
  "u32 \<Rightarrow> Register \<Rightarrow> Register \<Rightarrow> Register \<Rightarrow> AssemblerBase \<Rightarrow> AssemblerBase" where
  "EmitRTypeInstruction kOpcode argument0 argument1 argument2 =
     EmitInstruction kOpcode [Rd argument0, Rs1 argument1, Rs2 argument2]"

definition EmitSTypeInstruction ::
  "u32 \<Rightarrow> Register \<Rightarrow> Register \<Rightarrow> u32 \<Rightarrow> AssemblerBase \<Rightarrow> AssemblerBase" where
  "EmitSTypeInstruction kOpcode argument0 operand_base operand_disp =
     EmitInstruction kOpcode [Rs2 argument0, Rs1 operand_base, operand_disp]"

definition EmitUTypeInstruction ::
  "u32 \<Rightarrow> Register \<Rightarrow> u32 \<Rightarrow> AssemblerBase \<Rightarrow> AssemblerBase" where
  "EmitUTypeInstruction kOpcode argument0 immediate =
     EmitInstruction kOpcode [Rd argument0, immediate]"

subsection \<open>The generated instructions in use\<close>

definition Addi :: "Register \<Rightarrow> Register \<Rightarrow> u32 \<Rightarrow> AssemblerBase \<Rightarrow> AssemblerBase" where
  "Addi arg0 arg1 arg2 = EmitITypeInstruction 0x00000013 arg0 arg1 arg2"

definition Auipc :: "Register \<Rightarrow> u32 \<Rightarrow> AssemblerBase \<Rightarrow> AssemblerBase" where
  "Auipc arg0 arg1 = EmitUTypeInstruction 0x00000017 arg0 arg1"

definition Lui :: "Register \<Rightarrow> u32 \<Rightarrow> AssemblerBase \<Rightarrow> AssemblerBase" where
  "Lui arg0 arg1 = EmitUTypeInstruction 0x00000037 arg0 arg1"

definition Jal :: "Register \<Rightarrow> u32 \<Rightarrow> AssemblerBase \<Rightarrow> AssemblerBase" where
  "Jal arg0 arg1 = EmitJTypeInstruction 0x0000006f arg0 arg1"

definition Jalr :: "Register \<Rightarrow> Register \<Rightarrow> u32 \<Rightarrow> AssemblerBase \<Rightarrow> AssemblerBase" where
  "Jalr arg0 arg1 arg2 = EmitITypeInstruction 0x00000067 arg0 arg1 arg2"

definition Slli :: "Register \<Rightarrow> Register \<Rightarrow> u32 \<Rightarrow> AssemblerBase \<Rightarrow> AssemblerBase" where
  "Slli arg0 arg1 arg2 = EmitITypeInstruction 0x00001013 arg0 arg1 arg2"

definition Jr :: "Register \<Rightarrow> AssemblerBase \<Rightarrow> AssemblerBase" where
  "Jr arg0 = Jalr zero arg0 (IImmediate_MakeRaw (0 :: u32))"

definition Ret :: "AssemblerBase \<Rightarrow> AssemblerBase" where
  "Ret = Jalr x0 x1 (IImmediate_MakeRaw (0 :: u32))"

subsection \<open>Instructions with a label\<close>

definition Jal_label :: "Register \<Rightarrow> label \<Rightarrow> AssemblerBase \<Rightarrow> AssemblerBase" where
  "Jal_label argument0 l a = EmitInstruction 0x0000006f [Rd argument0] (push_jump l False a)"

text \<open>\<open>BERBERIS_DEFINE_CONDITIONAL_INSTRUCTION\<close> and its six instances.\<close>

definition conditional_label ::
  "u32 \<Rightarrow> Register \<Rightarrow> Register \<Rightarrow> label \<Rightarrow> AssemblerBase \<Rightarrow> AssemblerBase" where
  "conditional_label Opcode arg0 arg1 l a =
     EmitBTypeInstruction Opcode arg0 arg1 (BImmediate_MakeRaw (0 :: u32)) (push_jump l False a)"

definition Beq :: "Register \<Rightarrow> Register \<Rightarrow> label \<Rightarrow> AssemblerBase \<Rightarrow> AssemblerBase" where
  "Beq = conditional_label 0x00000063"
definition Bge :: "Register \<Rightarrow> Register \<Rightarrow> label \<Rightarrow> AssemblerBase \<Rightarrow> AssemblerBase" where
  "Bge = conditional_label 0x00005063"
definition Bgeu :: "Register \<Rightarrow> Register \<Rightarrow> label \<Rightarrow> AssemblerBase \<Rightarrow> AssemblerBase" where
  "Bgeu = conditional_label 0x00007063"
definition Blt :: "Register \<Rightarrow> Register \<Rightarrow> label \<Rightarrow> AssemblerBase \<Rightarrow> AssemblerBase" where
  "Blt = conditional_label 0x00004063"
definition Bltu :: "Register \<Rightarrow> Register \<Rightarrow> label \<Rightarrow> AssemblerBase \<Rightarrow> AssemblerBase" where
  "Bltu = conditional_label 0x00006063"
definition Bne :: "Register \<Rightarrow> Register \<Rightarrow> label \<Rightarrow> AssemblerBase \<Rightarrow> AssemblerBase" where
  "Bne = conditional_label 0x00001063"

definition Beqz :: "Register \<Rightarrow> label \<Rightarrow> AssemblerBase \<Rightarrow> AssemblerBase" where
  "Beqz arg0 = Beq arg0 zero"
definition Bnez :: "Register \<Rightarrow> label \<Rightarrow> AssemblerBase \<Rightarrow> AssemblerBase" where
  "Bnez arg0 = Bne arg0 zero"
definition Bgez :: "Register \<Rightarrow> label \<Rightarrow> AssemblerBase \<Rightarrow> AssemblerBase" where
  "Bgez arg0 = Bge arg0 zero"
definition Bltz :: "Register \<Rightarrow> label \<Rightarrow> AssemblerBase \<Rightarrow> AssemblerBase" where
  "Bltz arg0 = Blt arg0 zero"

text \<open>
  The loads and stores with a label: \<open>auipc\<close> into the scratch register, then the access with it as
  base. The loads of the two macros check that the register is not \<open>x0\<close>; \<open>Ld\<close> and \<open>Lwu\<close>, which
  \<open>rv64.h\<close> defines by hand, do not.
\<close>

definition load_label :: "u32 \<Rightarrow> Register \<Rightarrow> label \<Rightarrow> AssemblerBase \<Rightarrow> AssemblerBase" where
  "load_label Opcode arg0 l a =
     EmitITypeInstruction Opcode arg0 arg0 0
       (EmitUTypeInstruction 0x00000017 arg0 (UImmediate_MakeRaw (0 :: u32)) (push_jump l False a))"

definition checked_load_label ::
  "u32 \<Rightarrow> Register \<Rightarrow> label \<Rightarrow> AssemblerBase \<Rightarrow> AssemblerBase result" where
  "checked_load_label Opcode arg0 l a =
     bnd (CHECK (arg0 \<noteq> x0)) (\<lambda>_. Inr (load_label Opcode arg0 l a))"

definition Ld_label :: "Register \<Rightarrow> label \<Rightarrow> AssemblerBase \<Rightarrow> AssemblerBase" where
  "Ld_label = load_label 0x00003003"
definition Lwu_label :: "Register \<Rightarrow> label \<Rightarrow> AssemblerBase \<Rightarrow> AssemblerBase" where
  "Lwu_label = load_label 0x00006003"
definition Lb_label :: "Register \<Rightarrow> label \<Rightarrow> AssemblerBase \<Rightarrow> AssemblerBase result" where
  "Lb_label = checked_load_label 0x00000003"
definition Lbu_label :: "Register \<Rightarrow> label \<Rightarrow> AssemblerBase \<Rightarrow> AssemblerBase result" where
  "Lbu_label = checked_load_label 0x00004003"
definition Lh_label :: "Register \<Rightarrow> label \<Rightarrow> AssemblerBase \<Rightarrow> AssemblerBase result" where
  "Lh_label = checked_load_label 0x00001003"
definition Lhu_label :: "Register \<Rightarrow> label \<Rightarrow> AssemblerBase \<Rightarrow> AssemblerBase result" where
  "Lhu_label = checked_load_label 0x00005003"
definition Lw_label :: "Register \<Rightarrow> label \<Rightarrow> AssemblerBase \<Rightarrow> AssemblerBase result" where
  "Lw_label = checked_load_label 0x00002003"

definition La_label :: "Register \<Rightarrow> label \<Rightarrow> AssemblerBase \<Rightarrow> AssemblerBase result" where
  "La_label arg0 l a =
     bnd (CHECK (arg0 \<noteq> x0)) (\<lambda>_.
     Inr (EmitITypeInstruction 0x00000013 arg0 arg0 (IImmediate_MakeRaw (0 :: u32))
       (EmitUTypeInstruction 0x00000017 arg0 (UImmediate_MakeRaw (0 :: u32)) (push_jump l False a))))"

definition Sd_label :: "Register \<Rightarrow> label \<Rightarrow> Register \<Rightarrow> AssemblerBase \<Rightarrow> AssemblerBase" where
  "Sd_label arg0 l arg2 a =
     EmitSTypeInstruction 0x00003023 arg0 arg2 0
       (EmitUTypeInstruction 0x00000017 arg2 (UImmediate_MakeRaw (0 :: u32)) (push_jump l False a))"

definition Call :: "label \<Rightarrow> AssemblerBase \<Rightarrow> AssemblerBase" where
  "Call l a =
     EmitITypeInstruction 0x00000067 x1 x6 (IImmediate_MakeRaw (0 :: u32))
       (EmitUTypeInstruction 0x00000017 x6 (UImmediate_MakeRaw (0 :: u32)) (push_jump l False a))"

definition Tail :: "label \<Rightarrow> AssemblerBase \<Rightarrow> AssemblerBase" where
  "Tail l a =
     EmitITypeInstruction 0x00000067 x0 x6 (IImmediate_MakeRaw (0 :: u32))
       (EmitUTypeInstruction 0x00000017 x6 (UImmediate_MakeRaw (0 :: u32)) (push_jump l False a))"

section \<open>Resolving the jumps\<close>

text \<open>
  An offset of \<open>auipc\<close> that is no \<open>UImmediate\<close> is split: the low twelve bits, sign-extended, go to
  the next instruction, and the upper part makes up for their sign.
\<close>

definition split_top :: "u32 \<Rightarrow> u32" where
  "split_top offset' = (offset' + (offset' AND push_bit 11 1) * 2) AND 0xfffff000"

definition split_bottom :: "u32 \<Rightarrow> u32" where
  "split_bottom offset' = signed_take_bit 11 offset'"

definition ProcessLabel_U :: "u32 \<Rightarrow> u32 \<Rightarrow> MachineCode \<Rightarrow> MachineCode result" where
  "ProcessLabel_U pc' offset' mc =
     (case MakeUImmediate offset' of
        Some encoded \<Rightarrow> or_int32 pc' encoded mc
      | None \<Rightarrow>
          bnd (UImmediate (split_top offset')) (\<lambda>top.
          bnd (or_int32 pc' top mc) (\<lambda>mc1.
          bnd (read_int32 (pc' + 4) mc1) (\<lambda>next_insn.
          bnd (if next_insn AND 96 = 32 then SImmediate (split_bottom offset')
               else IImmediate (split_bottom offset')) (\<lambda>bottom.
          or_int32 (pc' + 4) bottom mc1)))))"

definition ProcessLabel ::
  "(u32 \<Rightarrow> u32 option) \<Rightarrow> u32 \<Rightarrow> u32 \<Rightarrow> MachineCode \<Rightarrow> MachineCode result" where
  "ProcessLabel MakeImmediate pc' offset' mc =
     (case MakeImmediate offset' of
        Some encoded \<Rightarrow> or_int32 pc' encoded mc
      | None \<Rightarrow> Inl CheckFailed)"

text \<open>The instruction word itself tells which of the three formats a jump has.\<close>

definition ResolveJump :: "Jump \<Rightarrow> AssemblerBase \<Rightarrow> AssemblerBase result" where
  "ResolveJump j a =
     bnd (CHECK (IsBound (jump_label j) a)) (\<lambda>_.
     let pc' = Jump.pc j; target = position a (jump_label j) in
     if is_recovery j then
       Inr (a\<lparr>mcode := AddRelocation 0 RelocRecoveryPoint pc' (ucast target) (mcode a)\<rparr>)
     else
       let offset' = target - pc' in
       bnd (read_int32 pc' (mcode a)) (\<lambda>insn.
       bnd (if insn AND 16 \<noteq> 0 then ProcessLabel_U pc' offset' (mcode a)
            else if insn AND 4 \<noteq> 0 then ProcessLabel MakeJImmediate pc' offset' (mcode a)
            else ProcessLabel MakeBImmediate pc' offset' (mcode a)) (\<lambda>mc.
       Inr (a\<lparr>mcode := mc\<rparr>))))"

primrec resolve_each :: "Jump list \<Rightarrow> AssemblerBase \<Rightarrow> AssemblerBase result" where
  "resolve_each [] a = Inr a"
| "resolve_each (j # js) a = bnd (ResolveJump j a) (resolve_each js)"

definition ResolveJumps :: "AssemblerBase \<Rightarrow> AssemblerBase result" where
  "ResolveJumps a = resolve_each (jumps a) a"

definition Finalize :: "AssemblerBase \<Rightarrow> AssemblerBase result" where
  "Finalize a = ResolveJumps a"

end
