(* ===== verification/Assembler_Layout.thy ===== *)
theory Assembler_Layout
  imports Assembler
begin

text \<open>
  What the assembler emits, seen as bytes: emission appends (as long as the code stays below 4 GB,
  the range of its 32-bit offsets), patching a word inside the code replaces this word, and
  resolving a jump fills in the immediate of its instruction.
\<close>

section \<open>Emission appends\<close>

lemma overwrite_middle:
  "length new = length old \<Longrightarrow> i = length pre \<Longrightarrow> overwrite i new (pre @ old @ post) = pre @ new @ post"
  by (simp add: overwrite_def)

lemma length_overwrite:
  "i + length bs \<le> length xs \<Longrightarrow> length (overwrite i bs xs) = length xs"
  by (simp add: overwrite_def)

lemma code_bytes_AddBytes:
  assumes "length (code_bytes mc) < 2 ^ 32"
  shows "code_bytes (AddBytes bs mc) = code_bytes mc @ bs"
proof -
  have "unat (of_nat (length (code_bytes mc)) :: u32) = length (code_bytes mc)"
    using assms by (simp add: unat_of_nat)
  then show ?thesis by (simp add: AddBytes_def Grow_def overwrite_def)
qed

lemma relocations_AddBytes [simp]: "relocations (AddBytes bs mc) = relocations mc"
  by (simp add: AddBytes_def Grow_def)

text \<open>
  \<open>append_code bs a\<close> is the assembler with the bytes \<open>bs\<close> appended. Every emission is one as long
  as the offset fits.
\<close>

definition append_code :: "u8 list \<Rightarrow> AssemblerBase \<Rightarrow> AssemblerBase" where
  "append_code bs a = a\<lparr>mcode := (mcode a)\<lparr>code_bytes := code_bytes (mcode a) @ bs\<rparr>\<rparr>"

definition code_size :: "AssemblerBase \<Rightarrow> nat" where
  "code_size a = length (code_bytes (mcode a))"

named_theorems emission
  \<open>what the emitting operations append\<close>

lemma append_code_simps [simp]:
  "jumps (append_code bs a) = jumps a"
  "position (append_code bs a) = position a"
  "arena_labels (append_code bs a) = arena_labels a"
  "code_bytes (mcode (append_code bs a)) = code_bytes (mcode a) @ bs"
  "relocations (mcode (append_code bs a)) = relocations (mcode a)"
  "code_size (append_code bs a) = code_size a + length bs"
  by (simp_all add: append_code_def code_size_def)

lemma append_code_append: "append_code cs (append_code bs a) = append_code (bs @ cs) a"
  by (simp add: append_code_def)

lemma append_code_Nil [simp]: "append_code [] a = a"
  by (simp add: append_code_def)

lemma push_jump_simps [simp]:
  "mcode (push_jump l b a) = mcode a"
  "position (push_jump l b a) = position a"
  "arena_labels (push_jump l b a) = arena_labels a"
  "code_size (push_jump l b a) = code_size a"
  "jumps (push_jump l b a) =
     jumps a @ [\<lparr>Jump.jump_label = l, Jump.pc = asm_pc a, Jump.is_recovery = b\<rparr>]"
  by (simp_all add: push_jump_def code_size_def)

lemma AddBytes_append:
  "code_size a < 2 ^ 32 \<Longrightarrow> a\<lparr>mcode := AddBytes bs (mcode a)\<rparr> = append_code bs a"
  by (simp add: append_code_def code_size_def code_bytes_AddBytes AddBytes_def Grow_def
      overwrite_def unat_of_nat)

lemma Emit_append [emission]:
  assumes "code_size a < 2 ^ 32"
  shows "Emit16 h a = append_code (bytes_of 2 h) a"
    and "Emit32 w a = append_code (bytes_of 4 w) a"
    and "Emit64 d a = append_code (bytes_of 8 d) a"
  using assms by (simp_all add: Emit16_def Emit32_def Emit64_def AddBytes_append)

lemma EmitInstruction_append [emission]:
  "code_size a < 2 ^ 32 \<Longrightarrow>
   EmitInstruction opcode args a = append_code (bytes_of 4 (encode opcode args)) a"
  by (simp add: EmitInstruction_def Emit_append)

lemma asm_pc_size: "asm_pc a = of_nat (code_size a)"
  by (simp add: asm_pc_def code_offset_def code_size_def)

section \<open>Encoded instructions\<close>

text \<open>The words of the instructions that the relocated code is made of.\<close>

definition auipc_word :: "Register \<Rightarrow> u32 \<Rightarrow> u32" where
  "auipc_word r v = encode 0x00000017 [Rd r, UImmediate_MakeRaw v]"

definition ld_word :: "Register \<Rightarrow> u32 \<Rightarrow> u32" where
  "ld_word r v = encode 0x00003003 [Rd r, Rs1 r, IImmediate_MakeRaw v]"

definition jalr_word :: "Register \<Rightarrow> Register \<Rightarrow> u32" where
  "jalr_word rd rs = encode 0x00000067 [Rd rd, Rs1 rs, IImmediate_MakeRaw (0 :: u32)]"

definition jal_word :: "Register \<Rightarrow> u32 \<Rightarrow> u32" where
  "jal_word rd v = encode 0x0000006f [Rd rd, JImmediate_MakeRaw v]"

definition branch_word :: "u32 \<Rightarrow> Register \<Rightarrow> Register \<Rightarrow> u32 \<Rightarrow> u32" where
  "branch_word opcode r1 r2 v = encode opcode [Rs1 r1, Rs2 r2, BImmediate_MakeRaw v]"

text \<open>\<open>auipc\<close> and \<open>ld\<close> with the offset \<open>off\<close> from the \<open>auipc\<close> to the loaded word.\<close>

definition load_bytes :: "Register \<Rightarrow> u32 \<Rightarrow> u8 list" where
  "load_bytes r off = bytes_of 4 (auipc_word r (split_top off)) @ bytes_of 4 (ld_word r (split_bottom off))"

lemma length_load_bytes [simp]: "length (load_bytes r off) = 8"
  by (simp add: load_bytes_def)

lemma raw_zero:
  "IImmediate_MakeRaw (0 :: u32) = 0" "UImmediate_MakeRaw (0 :: u32) = 0"
  "BImmediate_MakeRaw (0 :: u32) = 0" "JImmediate_MakeRaw (0 :: u32) = 0"
  by (simp_all add: IImmediate_MakeRaw_def UImmediate_MakeRaw_def BImmediate_MakeRaw_def
      JImmediate_MakeRaw_def)

lemma split_zero: "split_top 0 = 0" "split_bottom 0 = 0"
  by (simp_all add: split_top_def split_bottom_def)

lemma code_size_bound: "code_size a + k < 2 ^ 32 \<Longrightarrow> code_size a < 2 ^ 32"
  by simp

lemma Ld_label_append [emission]:
  assumes "code_size a + 4 < 2 ^ 32"
  shows "Ld_label r l a = append_code (load_bytes r 0) (push_jump l False a)"
proof -
  let ?a = "push_jump l False a"
  have "code_size ?a < 2 ^ 32" and "code_size (append_code (bytes_of 4 (auipc_word r 0)) ?a) < 2 ^ 32"
    using assms by simp_all
  then show ?thesis
    by (simp add: Ld_label_def load_label_def EmitUTypeInstruction_def EmitITypeInstruction_def
        EmitInstruction_append append_code_append load_bytes_def auipc_word_def ld_word_def
        raw_zero split_zero encode_def)
qed

lemma Jalr_append [emission]:
  "code_size a < 2 ^ 32 \<Longrightarrow>
   Jalr rd rs (IImmediate_MakeRaw (0 :: u32)) a = append_code (bytes_of 4 (jalr_word rd rs)) a"
  by (simp add: Jalr_def EmitITypeInstruction_def EmitInstruction_append jalr_word_def)

lemma Jal_label_append [emission]:
  "code_size a < 2 ^ 32 \<Longrightarrow>
   Jal_label rd l a = append_code (bytes_of 4 (jal_word rd 0)) (push_jump l False a)"
  by (simp add: Jal_label_def EmitInstruction_append jal_word_def raw_zero encode_def)

lemma conditional_label_append [emission]:
  "code_size a < 2 ^ 32 \<Longrightarrow>
   conditional_label opcode r1 r2 l a =
     append_code (bytes_of 4 (branch_word opcode r1 r2 0)) (push_jump l False a)"
  by (simp add: conditional_label_def EmitBTypeInstruction_def EmitInstruction_append
      branch_word_def raw_zero encode_def)

section \<open>Patching a word of the code\<close>

lemma AddrOf_inside: "unat off < length (code_bytes mc) \<Longrightarrow> AddrOf off mc = Inr (unat off)"
  by (simp add: AddrOf_def)

lemma read_int32_at:
  assumes "code_bytes mc = pre @ bytes_of 4 w @ post" and "unat off = length pre"
  shows "read_int32 off mc = Inr w"
  using assms by (simp add: read_int32_def AddrOf_inside word_of_bytes_of)

lemma write_int32_at:
  assumes "code_bytes mc = pre @ bytes_of 4 w @ post" and "unat off = length pre"
  shows "write_int32 off v mc = Inr (mc\<lparr>code_bytes := pre @ bytes_of 4 v @ post\<rparr>)"
  using assms by (simp add: write_int32_def AddrOf_inside overwrite_middle)

lemma or_int32_at:
  assumes "code_bytes mc = pre @ bytes_of 4 w @ post" and "unat off = length pre"
  shows "or_int32 off v mc = Inr (mc\<lparr>code_bytes := pre @ bytes_of 4 (w OR v) @ post\<rparr>)"
  unfolding or_int32_def read_int32_at [OF assms] bnd_Inr by (rule write_int32_at [OF assms])

subsection \<open>The parts of an offset\<close>

lemma signed_take_bit_31: "signed_take_bit 31 (v :: u32) = v"
  by (rule word32_eqI) (simp add: bit_simps)

lemma U_accepts_iff: "UImmediate_AccetableValue (v :: u32) \<longleftrightarrow> take_bit 12 v = 0"
  unfolding UImmediate_AccetableValue_def format_masks
  by (subst accept_signed_bits) (simp_all add: signed_take_bit_31)

lemma I_accepts_iff: "IImmediate_AccetableValue (v :: u32) \<longleftrightarrow> signed_take_bit 11 v = v"
  unfolding IImmediate_AccetableValue_def format_masks
  by (subst accept_signed_bits) auto

lemma low_bits_split_top: "take_bit 12 (split_top off) = 0"
  by (rule word32_eqI) (simp add: split_top_def bit_simps bit_0 numeral_2_eq_2 [symmetric])

lemma UImmediate_split_top: "UImmediate (split_top off) = Inr (UImmediate_MakeRaw (split_top off))"
  by (simp add: UImmediate_def checked_def U_accepts_iff low_bits_split_top)

lemma IImmediate_split_bottom:
  "IImmediate (split_bottom off) = Inr (IImmediate_MakeRaw (split_bottom off))"
  by (simp add: IImmediate_def checked_def I_accepts_iff split_bottom_def)

lemma split_aligned:
  assumes "take_bit 12 off = 0"
  shows "split_top off = off" and "split_bottom off = 0"
proof -
  have low: "\<not> bit off n" if "n < 12" for n
    using low_bits [OF assms that] .
  then have "off AND push_bit 11 1 = 0"
    using and_exp_eq_0_iff_not_bit [of off 11] by (simp only: push_bit_of_1) simp
  then have top: "split_top off = off AND 0xfffff000" by (simp add: split_top_def)
  have "off AND 0xfffff000 = off"
  proof (rule bit_word_eqI)
    fix n :: nat
    assume n: "n < LENGTH(32)"
    have mask: "(0xfffff000 :: u32) = NOT (mask 12)" by (simp add: mask_numeral)
    show "bit (off AND 0xfffff000) n \<longleftrightarrow> bit off n"
      unfolding mask using low [of n] n by (auto simp: bit_simps not_less [symmetric])
  qed
  with top show "split_top off = off" by simp
  show "split_bottom off = 0"
    by (rule bit_word_eqI) (auto simp: split_bottom_def bit_simps low)
qed

text \<open>The two parts add up to the offset.\<close>

lemma and_high_mask: "w AND 0xfffff000 = w - take_bit 12 (w :: u32)"
proof -
  have mask: "(0xfffff000 :: u32) = NOT (mask 12)" by (simp add: mask_numeral)
  have "w AND NOT (mask 12) = push_bit 12 (drop_bit 12 w)"
    by (rule bit_word_eqI) (auto simp: bit_simps)
  also have "\<dots> = w - take_bit 12 w"
    using bits_ident [of 12 w] by (simp add: algebra_simps)
  finally show ?thesis unfolding mask .
qed

lemma and_sign_bit: "off AND push_bit 11 1 = (if bit off 11 then 2048 else (0 :: u32))"
proof (rule bit_word_eqI)
  fix n :: nat
  have e: "(2048 :: u32) = push_bit 11 1" by simp
  show "bit (off AND push_bit 11 1) n \<longleftrightarrow> bit (if bit off 11 then 2048 else 0 :: u32) n"
    unfolding e by (auto simp: bit_simps simp del: push_bit_of_1)
qed

lemma split_sum: "split_top off + split_bottom off = off"
proof -
  let ?s = "(off AND push_bit 11 1) * 2"
  have "unat (off + 4096) mod 4096 = unat off mod 4096"
    by (simp add: unat_word_ariths mod_mod_cancel)
  moreover have "unat (take_bit 12 w) = unat w mod 4096" for w :: u32
    by (simp only: unsigned_take_bit_eq) (simp add: take_bit_eq_mod)
  ultimately have "take_bit 12 (off + 4096) = take_bit 12 off"
    by (metis unsigned_word_eqI)
  then have "take_bit 12 (off + ?s) = take_bit 12 off"
    unfolding and_sign_bit by simp
  then have top: "split_top off = off + ?s - take_bit 12 off"
    unfolding split_top_def and_high_mask by simp
  have "split_bottom off = take_bit 12 off - ?s"
    unfolding split_bottom_def and_sign_bit signed_take_bit_eq_take_bit_minus
    by simp
  with top show ?thesis by simp
qed

section \<open>Resolving one jump\<close>

definition with_code :: "u8 list \<Rightarrow> AssemblerBase \<Rightarrow> AssemblerBase" where
  "with_code bs a = a\<lparr>mcode := (mcode a)\<lparr>code_bytes := bs\<rparr>\<rparr>"

lemma with_code_simps [simp]:
  "jumps (with_code bs a) = jumps a"
  "position (with_code bs a) = position a"
  "arena_labels (with_code bs a) = arena_labels a"
  "code_bytes (mcode (with_code bs a)) = bs"
  "relocations (mcode (with_code bs a)) = relocations (mcode a)"
  "IsBound l (with_code bs a) \<longleftrightarrow> IsBound l a"
  "with_code cs (with_code bs a) = with_code cs a"
  by (simp_all add: with_code_def IsBound_def)

lemma with_code_self: "with_code (code_bytes (mcode a)) a = a"
  by (simp add: with_code_def)

text \<open>The bits of the instruction words that the resolution looks at.\<close>

lemma word_and_power: "(w :: u32) AND 16 = 0 \<longleftrightarrow> \<not> bit w 4" "w AND 4 = 0 \<longleftrightarrow> \<not> bit w 2"
  using and_exp_eq_0_iff_not_bit [of w 4] and_exp_eq_0_iff_not_bit [of w 2] by simp_all

lemma bit_encode: "bit (encode opcode args) n \<longleftrightarrow> bit opcode n \<or> list_ex (\<lambda>v. bit v n) args"
  unfolding encode_def
  by (induction args arbitrary: opcode) (auto simp: bit_or_iff)

lemma register_bits_low [simp]:
  "n < 7 \<Longrightarrow> \<not> bit (Rd r) n" "n < 15 \<Longrightarrow> \<not> bit (Rs1 r) n" "n < 20 \<Longrightarrow> \<not> bit (Rs2 r) n"
  by (simp_all add: Rd_def Rs1_def Rs2_def bit_simps)

lemma auipc_word_format: "auipc_word r v AND 16 \<noteq> 0"
  by (simp add: word_and_power auipc_word_def bit_encode) 

lemma jal_word_format: "jal_word r 0 AND 16 = 0" "jal_word r 0 AND 4 \<noteq> 0"
  by (simp_all add: word_and_power jal_word_def bit_encode raw_zero)

lemma branch_word_format:
  assumes "\<not> bit opcode 4" and "\<not> bit opcode 2"
  shows "branch_word opcode r1 r2 0 AND 16 = 0" "branch_word opcode r1 r2 0 AND 4 = 0"
  using assms by (simp_all add: word_and_power branch_word_def bit_encode raw_zero)

lemma ld_word_format: "ld_word r 0 AND 96 \<noteq> 32"
proof
  assume "ld_word r 0 AND 96 = 32"
  then have "bit (ld_word r 0 AND 96) 5 = bit (32 :: u32) 5" by simp
  then show False by (simp add: ld_word_def bit_encode raw_zero bit_and_iff)
qed

lemma or_words:
  "auipc_word r 0 OR UImmediate_MakeRaw v = auipc_word r v"
  "ld_word r 0 OR IImmediate_MakeRaw v = ld_word r v"
  "jal_word r 0 OR JImmediate_MakeRaw v = jal_word r v"
  "branch_word opcode r1 r2 0 OR BImmediate_MakeRaw v = branch_word opcode r1 r2 v"
  by (simp_all add: auipc_word_def ld_word_def jal_word_def branch_word_def encode_def raw_zero)

lemma unat_position: "n < 2 ^ 32 \<Longrightarrow> unat (of_nat n :: u32) = n"
  by (simp add: unat_of_nat)

lemma ResolveJump_load:
  assumes code: "code_bytes (mcode a) = pre @ load_bytes r 0 @ post"
    and small: "length pre + 8 < 2 ^ 32" and bound: "IsBound l a"
  shows "ResolveJump \<lparr>jump_label = l, pc = of_nat (length pre), is_recovery = False\<rparr> a =
    Inr (with_code (pre @ load_bytes r (position a l - of_nat (length pre)) @ post) a)"
proof -
  let ?pc = "of_nat (length pre) :: u32"
  let ?off = "position a l - ?pc"
  have c1: "code_bytes (mcode a) = pre @ bytes_of 4 (auipc_word r 0) @ (bytes_of 4 (ld_word r 0) @ post)"
    by (simp add: code load_bytes_def split_zero)
  have pc1: "unat ?pc = length pre" and pc2: "unat (?pc + 4) = length (pre @ bytes_of 4 w)" for w :: u32
    using small unat_position [of "length pre + 4"] by (simp_all add: unat_position)
  note r1 = read_int32_at [OF c1 pc1]
  show ?thesis
  proof (cases "take_bit 12 ?off = 0")
    case True
    then have "MakeUImmediate ?off = Some (UImmediate_MakeRaw ?off)"
      by (simp add: MakeUImmediate_def optional_def U_accepts_iff)
    with True show ?thesis
      by (simp add: ResolveJump_def bound r1 auipc_word_format ProcessLabel_U_def
          or_int32_at [OF c1 pc1] or_words load_bytes_def split_aligned with_code_def)
  next
    case False
    then have none: "MakeUImmediate ?off = None"
      by (simp add: MakeUImmediate_def optional_def U_accepts_iff)
    let ?mc = "(mcode a)\<lparr>code_bytes := pre @ bytes_of 4 (auipc_word r (split_top ?off)) @
      bytes_of 4 (ld_word r 0) @ post\<rparr>"
    have c2: "code_bytes ?mc = (pre @ bytes_of 4 (auipc_word r (split_top ?off))) @
      bytes_of 4 (ld_word r 0) @ post" by simp
    show ?thesis
      by (simp add: ResolveJump_def bound r1 auipc_word_format ProcessLabel_U_def none
          UImmediate_split_top or_int32_at [OF c1 pc1] or_words read_int32_at [OF c2 pc2]
          ld_word_format IImmediate_split_bottom or_int32_at [OF c2 pc2] load_bytes_def with_code_def Let_def)
  qed
qed

lemma ResolveJump_jal:
  assumes code: "code_bytes (mcode a) = pre @ bytes_of 4 (jal_word r 0) @ post"
    and small: "length pre < 2 ^ 32" and bound: "IsBound l a"
    and range: "JImmediate_AccetableValue (position a l - of_nat (length pre))"
  shows "ResolveJump \<lparr>jump_label = l, pc = of_nat (length pre), is_recovery = False\<rparr> a =
    Inr (with_code (pre @ bytes_of 4 (jal_word r (position a l - of_nat (length pre))) @ post) a)"
proof -
  have pc1: "unat (of_nat (length pre) :: u32) = length pre"
    using small by (simp add: unat_position)
  show ?thesis
    using range
    by (simp add: ResolveJump_def bound read_int32_at [OF code pc1] jal_word_format ProcessLabel_def
        MakeJImmediate_def optional_def or_int32_at [OF code pc1] or_words with_code_def)
qed

lemma ResolveJump_branch:
  assumes code: "code_bytes (mcode a) = pre @ bytes_of 4 (branch_word opcode r1 r2 0) @ post"
    and opc: "\<not> bit opcode 4" "\<not> bit opcode 2"
    and small: "length pre < 2 ^ 32" and bound: "IsBound l a"
    and range: "BImmediate_AccetableValue (position a l - of_nat (length pre))"
  shows "ResolveJump \<lparr>jump_label = l, pc = of_nat (length pre), is_recovery = False\<rparr> a =
    Inr (with_code
      (pre @ bytes_of 4 (branch_word opcode r1 r2 (position a l - of_nat (length pre))) @ post) a)"
proof -
  have pc1: "unat (of_nat (length pre) :: u32) = length pre"
    using small by (simp add: unat_position)
  show ?thesis
    using range
    by (simp add: ResolveJump_def bound read_int32_at [OF code pc1] branch_word_format [OF opc]
        ProcessLabel_def MakeBImmediate_def optional_def or_int32_at [OF code pc1] or_words
        with_code_def)
qed

end
