(* ===== verification/Instruction_Roundtrip.thy ===== *)
theory Instruction_Roundtrip
  imports Decoder Assembler_Layout
begin

text \<open>
  The decoder reads what the assembler writes: the words of the instructions that the library
  generates, decoded, give back the instruction, its registers and its immediate.
\<close>

lemma register_bits: "r < 32 \<Longrightarrow> bit (r :: u8) n \<Longrightarrow> n < 5"
proof -
  assume "r < 32" and b: "bit r n"
  then have "unat r < 2 ^ 5" by (simp add: word_less_nat_alt)
  then have "take_bit 5 (unat r) = unat r" by (simp add: take_bit_nat_eq_self)
  moreover have "bit (unat r) n" using b by (simp add: bit_unsigned_iff bit_imp_le_length)
  ultimately show "n < 5" by (metis bit_take_bit_iff)
qed

named_theorems word_bits \<open>the bits of encoded instructions and of their fields\<close>

lemmas [word_bits] = bit_encode UImmediate_MakeRaw_def IImmediate_MakeRaw_def JImmediate_MakeRaw_def
  BImmediate_MakeRaw_def Rd_def Rs1_def Rs2_def bit_simps word_fields bit_0 numeral_2_eq_2 [symmetric]

lemma register_high_bits:
  assumes "r < (32 :: u8)"
  shows "\<not> bit r 5" "\<not> bit r 6" "\<not> bit r 7"
  using register_bits [OF assms] by fastforce+

lemma auipc_fields:
  assumes "r < 32" and "take_bit 12 v = 0"
  shows "GetBits 2 5 (auipc_word r v) = 0b00101"
    and "ucast (GetBits 7 5 (auipc_word r v)) = r"
    and "push_bit 12 (GetBits 12 20 (auipc_word r v)) = v"
proof -
  have lo: "n < 12 \<Longrightarrow> \<not> bit v n" for n using low_bits [OF assms(2)] .
  have ev: "even v" using lo [of 0] by (simp add: bit_0)
  note facts = auipc_word_def word_bits lo ev register_high_bits [OF assms(1)]
  show "GetBits 2 5 (auipc_word r v) = 0b00101"
    by (rule word32_eqI) (simp add: facts)
  show "ucast (GetBits 7 5 (auipc_word r v)) = r"
    by (rule word8_eqI) (simp add: facts)
  show "push_bit 12 (GetBits 12 20 (auipc_word r v)) = v"
    by (rule word32_eqI) (simp add: facts)
qed

lemma ld_fields:
  assumes "r < 32"
  shows "GetBits 2 5 (ld_word r v) = 0" and "GetBits 12 3 (ld_word r v) = 3"
    and "ucast (GetBits 7 5 (ld_word r v)) = r" and "ucast (GetBits 15 5 (ld_word r v)) = r"
    and "SignExtend 12 (ucast (GetBits 20 12 (ld_word r v))) = (ucast (signed_take_bit 11 v) :: u16)"
proof -
  note facts = ld_word_def word_bits register_high_bits [OF assms(1)]
  show "GetBits 2 5 (ld_word r v) = 0" "GetBits 12 3 (ld_word r v) = 3"
    by (rule word32_eqI, simp add: facts)+
  show "ucast (GetBits 7 5 (ld_word r v)) = r" "ucast (GetBits 15 5 (ld_word r v)) = r"
    by (rule word8_eqI, simp add: facts)+
  show "SignExtend 12 (ucast (GetBits 20 12 (ld_word r v))) = (ucast (signed_take_bit 11 v) :: u16)"
    by (rule word16_eqI) (simp add: facts)
qed

lemma jalr_fields:
  assumes "rd < 32" and "rs < 32"
  shows "GetBits 2 5 (jalr_word rd rs) = 0b11001" and "GetBits 12 3 (jalr_word rd rs) = 0"
    and "ucast (GetBits 7 5 (jalr_word rd rs)) = rd" and "ucast (GetBits 15 5 (jalr_word rd rs)) = rs"
    and "GetBits 20 12 (jalr_word rd rs) = 0"
proof -
  note facts = jalr_word_def word_bits register_high_bits [OF assms(1)] register_high_bits [OF assms(2)]
  show "GetBits 2 5 (jalr_word rd rs) = 0b11001" "GetBits 12 3 (jalr_word rd rs) = 0"
    "GetBits 20 12 (jalr_word rd rs) = 0"
    by (rule word32_eqI, simp add: facts)+
  show "ucast (GetBits 7 5 (jalr_word rd rs)) = rd" "ucast (GetBits 15 5 (jalr_word rd rs)) = rs"
    by (rule word8_eqI, simp add: facts)+
qed

lemma bit_times_2 [word_bits]:
  "bit (w * 2) n \<longleftrightarrow> n < LENGTH('a) \<and> n \<noteq> 0 \<and> bit (w :: 'a::len word) (n - 1)"
proof -
  have "w * 2 = push_bit 1 w" by (simp add: push_bit_eq_mult)
  then show ?thesis by (auto simp: bit_push_bit_iff simp del: One_nat_def push_bit_of_1)
qed

lemma even_GetBits [word_bits]:
  assumes "start + len \<le> 32" and "0 < len"
  shows "even (GetBits start len w) \<longleftrightarrow> \<not> bit w start"
  using bit_GetBits [OF assms, of w 0] assms by (auto simp: bit_0)

lemma jal_fields:
  assumes "rd < 32" and "JImmediate_AccetableValue v"
  shows "GetBits 2 5 (jal_word rd v) = 0b11011"
    and "ucast (GetBits 7 5 (jal_word rd v)) = rd"
    and "SignExtend 21 ((GetBits 21 10 (jal_word rd v) OR push_bit 10 (GetBits 20 1 (jal_word rd v)) OR
      push_bit 11 (GetBits 12 8 (jal_word rd v)) OR push_bit 19 (GetBits 31 1 (jal_word rd v))) * 2) = v"
proof -
  note vb = accepted_bits [OF assms(2) [unfolded JImmediate_AccetableValue_def format_masks]]
  have hi: "20 < m \<Longrightarrow> m < 32 \<Longrightarrow> bit v m \<longleftrightarrow> bit v 20" for m by (rule vb) simp_all
  have lo: "even v" using vb(2) [of 0] by (simp add: bit_0)
  note facts = jal_word_def word_bits register_high_bits [OF assms(1)] hi lo
  show "GetBits 2 5 (jal_word rd v) = 0b11011" by (rule word32_eqI) (simp add: facts)
  show "ucast (GetBits 7 5 (jal_word rd v)) = rd" by (rule word8_eqI) (simp add: facts)
  show "SignExtend 21 ((GetBits 21 10 (jal_word rd v) OR push_bit 10 (GetBits 20 1 (jal_word rd v)) OR
      push_bit 11 (GetBits 12 8 (jal_word rd v)) OR push_bit 19 (GetBits 31 1 (jal_word rd v))) * 2) = v"
    by (rule word32_eqI) (simp add: facts)
qed

text \<open>The opcode of a branch: the base opcode and the condition in bits 12 to 14.\<close>

definition branch_base :: "u32 \<Rightarrow> u32" where
  "branch_base cond = 0x63 OR push_bit 12 cond"

lemma branch_fields:
  assumes "r1 < 32" and "r2 < 32" and "BImmediate_AccetableValue v" and "cond < 8"
  shows "GetBits 2 5 (branch_word (branch_base cond) r1 r2 v) = 0b11000"
    and "GetBits 12 3 (branch_word (branch_base cond) r1 r2 v) = cond"
    and "ucast (GetBits 15 5 (branch_word (branch_base cond) r1 r2 v)) = r1"
    and "ucast (GetBits 20 5 (branch_word (branch_base cond) r1 r2 v)) = r2"
    and "SignExtend 13 (ucast (GetBits 8 4 (branch_word (branch_base cond) r1 r2 v) OR
       push_bit 4 (GetBits 25 6 (branch_word (branch_base cond) r1 r2 v)) OR
       push_bit 10 (GetBits 7 1 (branch_word (branch_base cond) r1 r2 v)) OR
       push_bit 11 (GetBits 31 1 (branch_word (branch_base cond) r1 r2 v))) * 2) = (ucast v :: u16)"
proof -
  note vb = accepted_bits [OF assms(3) [unfolded BImmediate_AccetableValue_def format_masks]]
  have hi: "12 < m \<Longrightarrow> m < 32 \<Longrightarrow> bit v m \<longleftrightarrow> bit v 12" for m by (rule vb) simp_all
  have lo: "even v" using vb(2) [of 0] by (simp add: bit_0)
  have "unat cond < 2 ^ 3" using assms(4) by (simp add: word_less_nat_alt)
  then have "take_bit 3 cond = cond"
    by (intro unsigned_word_eqI [where 'a = nat]) (simp only: unsigned_take_bit_eq take_bit_nat_eq_self)
  then have c: "\<not> bit cond n" if "3 \<le> n" for n
    using that by (metis bit_take_bit_iff not_less)
  note facts = branch_word_def branch_base_def word_bits register_high_bits [OF assms(1)]
    register_high_bits [OF assms(2)] hi lo c
  show "GetBits 2 5 (branch_word (branch_base cond) r1 r2 v) = 0b11000"
    "GetBits 12 3 (branch_word (branch_base cond) r1 r2 v) = cond"
    by (rule word32_eqI, simp add: facts)+
  show "ucast (GetBits 15 5 (branch_word (branch_base cond) r1 r2 v)) = r1"
    "ucast (GetBits 20 5 (branch_word (branch_base cond) r1 r2 v)) = r2"
    by (rule word8_eqI, simp add: facts)+
  show "SignExtend 13 (ucast (GetBits 8 4 (branch_word (branch_base cond) r1 r2 v) OR
       push_bit 4 (GetBits 25 6 (branch_word (branch_base cond) r1 r2 v)) OR
       push_bit 10 (GetBits 7 1 (branch_word (branch_base cond) r1 r2 v)) OR
       push_bit 11 (GetBits 31 1 (branch_word (branch_base cond) r1 r2 v))) * 2) = (ucast v :: u16)"
    by (rule word16_eqI) (simp add: facts)
qed

section \<open>Decoding what is encoded\<close>

lemma base_opcodes:
  "BaseOpcode_of 0b00101 = BaseOpcode.kAuipc" "BaseOpcode_of 0 = BaseOpcode.kLoad"
  "BaseOpcode_of 0b11001 = BaseOpcode.kJalr" "BaseOpcode_of 0b11011 = BaseOpcode.kJal"
  "BaseOpcode_of 0b11000 = BaseOpcode.kBranch" "BaseOpcode_of 0b01101 = BaseOpcode.kLui"
  "LoadOperandType_of 3 = LoadOperandType.k64bit"
  by code_simp+

lemma decode_auipc:
  assumes "r < 32" and "take_bit 12 v = 0"
  shows "DecodeBaseInstruction (auipc_word r v) =
    [consumer_call.Auipc \<lparr>UpperImmArgs.dst = r, UpperImmArgs.imm = v\<rparr>]"
  by (simp add: DecodeBaseInstruction_def DecodeAuipc_def auipc_fields [OF assms] base_opcodes)

lemma decode_ld:
  assumes "r < 32"
  shows "DecodeBaseInstruction (ld_word r v) =
    [Load \<lparr>LoadArgsTemplate.operand_type = LoadOperandType.k64bit, LoadArgsTemplate.dst = r,
           LoadArgsTemplate.src = r, LoadArgsTemplate.offset = ucast (signed_take_bit 11 v)\<rparr>]"
  by (simp add: DecodeBaseInstruction_def DecodeLoad_def DecodeLoadArgs_def ld_fields [OF assms]
      base_opcodes)

lemma decode_jalr:
  assumes "rd < 32" and "rs < 32"
  shows "DecodeBaseInstruction (jalr_word rd rs) =
    [JumpAndLinkRegister \<lparr>JumpAndLinkRegisterArgs.dst = rd, JumpAndLinkRegisterArgs.base = rs,
       JumpAndLinkRegisterArgs.offset = 0, JumpAndLinkRegisterArgs.insn_len = 4\<rparr>]"
  by (simp add: DecodeBaseInstruction_def DecodeJumpAndLinkRegister_def jalr_fields [OF assms]
      base_opcodes)

lemma decode_jal:
  assumes "rd < 32" and "JImmediate_AccetableValue v"
  shows "DecodeBaseInstruction (jal_word rd v) =
    [JumpAndLink \<lparr>JumpAndLinkArgs.dst = rd, JumpAndLinkArgs.offset = v,
                   JumpAndLinkArgs.insn_len = 4\<rparr>]"
  by (simp add: DecodeBaseInstruction_def DecodeJumpAndLink_def jal_fields [OF assms] base_opcodes
      del: One_nat_def)

lemma decode_branch:
  assumes "r1 < 32" and "r2 < 32" and "BImmediate_AccetableValue v" and "cond < 8"
  shows "DecodeBaseInstruction (branch_word (branch_base cond) r1 r2 v) =
    [CompareAndBranch \<lparr>BranchArgs.opcode = BranchOpcode_of (ucast cond), BranchArgs.src1 = r1,
       BranchArgs.src2 = r2, BranchArgs.offset = ucast v\<rparr>]"
  by (simp add: DecodeBaseInstruction_def DecodeBranch_def branch_fields [OF assms] base_opcodes
      del: One_nat_def)

end
