(* ===== verification/Machine.thy ===== *)
theory Machine
  imports Instruction_Roundtrip
begin

text \<open>
  The meaning of the instructions that generated and relocated code is made of, after the RISC-V
  manual: \<open>auipc\<close>, \<open>lui\<close>, \<open>addi\<close>, \<open>slli\<close>, the integer loads, \<open>jal\<close>, \<open>jalr\<close> and the branches, over the calls of
  the decoder. It is the specification against which the rewriting of instructions is judged, and
  not a model of code of the repository.
\<close>

record machine =
  regs :: "Register \<Rightarrow> u64"
  mpc :: u64
  mmem :: memory

definition read_reg :: "Register \<Rightarrow> machine \<Rightarrow> u64" where
  "read_reg r s = (if r = 0 then 0 else regs s r)"

definition write_reg :: "Register \<Rightarrow> u64 \<Rightarrow> machine \<Rightarrow> machine" where
  "write_reg r v s = (if r = 0 then s else s\<lparr>regs := (regs s)(r := v)\<rparr>)"

definition load64 :: "memory \<Rightarrow> u64 \<Rightarrow> u64" where
  "load64 mem a = word_of_bytes (read_bytes mem a 8)"

definition load_value :: "LoadOperandType \<Rightarrow> memory \<Rightarrow> u64 \<Rightarrow> u64 option" where
  "load_value ty mem a =
     (case ty of
        LoadOperandType.k8bitSigned \<Rightarrow> Some (scast (mem a))
      | LoadOperandType.k16bitSigned \<Rightarrow> Some (scast (load16 mem a))
      | LoadOperandType.k32bitSigned \<Rightarrow> Some (scast (load32 mem a))
      | LoadOperandType.k64bit \<Rightarrow> Some (load64 mem a)
      | LoadOperandType.k8bitUnsigned \<Rightarrow> Some (ucast (mem a))
      | LoadOperandType.k16bitUnsigned \<Rightarrow> Some (ucast (load16 mem a))
      | LoadOperandType.k32bitUnsigned \<Rightarrow> Some (ucast (load32 mem a))
      | _ \<Rightarrow> None)"

definition branch_taken :: "BranchOpcode \<Rightarrow> u64 \<Rightarrow> u64 \<Rightarrow> bool" where
  "branch_taken b v w =
     (case b of
        BranchOpcode.kBeq \<Rightarrow> v = w
      | BranchOpcode.kBne \<Rightarrow> v \<noteq> w
      | BranchOpcode.kBlt \<Rightarrow> sint v < sint w
      | BranchOpcode.kBge \<Rightarrow> sint v \<ge> sint w
      | BranchOpcode.kBltu \<Rightarrow> v < w
      | BranchOpcode.kBgeu \<Rightarrow> v \<ge> w
      | _ \<Rightarrow> False)"

definition advance :: "nat \<Rightarrow> machine \<Rightarrow> machine" where
  "advance count s = s\<lparr>mpc := mpc s + of_nat count\<rparr>"

definition exec_call :: "consumer_call \<Rightarrow> nat \<Rightarrow> machine \<Rightarrow> machine option" where
  "exec_call c count s =
     (case c of
        consumer_call.Auipc args \<Rightarrow>
          Some (advance count
            (write_reg (UpperImmArgs.dst args) (mpc s + scast (UpperImmArgs.imm args)) s))
      | consumer_call.Lui args \<Rightarrow>
          Some (advance count (write_reg (UpperImmArgs.dst args) (scast (UpperImmArgs.imm args)) s))
      | OpImm args \<Rightarrow>
          (if OpImmArgsTemplate.opcode args = OpImmOpcode.kAddi then
             Some (advance count (write_reg (OpImmArgsTemplate.dst args)
               (read_reg (OpImmArgsTemplate.src args) s + scast (OpImmArgsTemplate.imm args)) s))
           else None)
      | OpImm_shift args \<Rightarrow>
          (if ShiftImmArgsTemplate.opcode args = ShiftImmOpcode.kSlli then
             Some (advance count (write_reg (ShiftImmArgsTemplate.dst args)
               (push_bit (unat (ShiftImmArgsTemplate.imm args)) (read_reg (ShiftImmArgsTemplate.src args) s)) s))
           else None)
      | Load args \<Rightarrow>
          map_option (\<lambda>v. advance count (write_reg (LoadArgsTemplate.dst args) v s))
            (load_value (LoadArgsTemplate.operand_type args) (mmem s)
               (read_reg (LoadArgsTemplate.src args) s + scast (LoadArgsTemplate.offset args)))
      | consumer_call.JumpAndLink args \<Rightarrow>
          Some ((write_reg (JumpAndLinkArgs.dst args) (mpc s + of_nat count) s)
            \<lparr>mpc := mpc s + scast (JumpAndLinkArgs.offset args)\<rparr>)
      | consumer_call.JumpAndLinkRegister args \<Rightarrow>
          Some ((write_reg (JumpAndLinkRegisterArgs.dst args) (mpc s + of_nat count) s)
            \<lparr>mpc := (read_reg (JumpAndLinkRegisterArgs.base args) s +
                     scast (JumpAndLinkRegisterArgs.offset args)) AND NOT 1\<rparr>)
      | consumer_call.CompareAndBranch args \<Rightarrow>
          Some (if branch_taken (BranchArgs.opcode args) (read_reg (BranchArgs.src1 args) s)
                     (read_reg (BranchArgs.src2 args) s)
                then s\<lparr>mpc := mpc s + scast (BranchArgs.offset args)\<rparr>
                else advance count s)
      | _ \<Rightarrow> None)"

definition step :: "machine \<Rightarrow> machine option" where
  "step s =
     (case Decode (mmem s) (mpc s) of ([c], count) \<Rightarrow> exec_call c count s | _ \<Rightarrow> None)"

primrec run :: "nat \<Rightarrow> machine \<Rightarrow> machine option" where
  "run 0 s = Some s"
| "run (Suc k) s = Option.bind (step s) (run k)"

lemma run_add: "run (m + n) s = Option.bind (run m s) (run n)"
  by (induction m arbitrary: s) (auto simp: bind_eq_None_conv split: bind_splits)

section \<open>Fetching an instruction\<close>

definition code_at :: "memory \<Rightarrow> u64 \<Rightarrow> u8 list \<Rightarrow> bool" where
  "code_at mem a bs \<longleftrightarrow> read_bytes mem a (length bs) = bs"

lemma read_bytes_split:
  "read_bytes mem a (m + n) = read_bytes mem a m @ read_bytes mem (a + of_nat m) n"
  by (rule nth_equalityI) (auto simp: nth_append read_bytes_def)

lemma code_at_append:
  "code_at mem a (bs @ cs) \<longleftrightarrow> code_at mem a bs \<and> code_at mem (a + of_nat (length bs)) cs"
  by (simp add: code_at_def read_bytes_split)

lemma load32_at: "code_at mem a (bytes_of 4 w) \<Longrightarrow> load32 mem a = w"
  by (simp add: code_at_def load32_def word_of_bytes_of)

lemma load64_at: "code_at mem a (bytes_of 8 w) \<Longrightarrow> load64 mem a = w"
  by (simp add: code_at_def load64_def word_of_bytes_of)

lemma bytes_of_split: "bytes_of (m + n) w = bytes_of m w @ bytes_of n (drop_bit (8 * m) w)"
  by (rule nth_equalityI) (auto simp: nth_append drop_bit_drop_bit add.commute simp flip: distrib_left)

text \<open>A word with both low bits set is a 32-bit instruction.\<close>

lemma Decode_word:
  assumes "code_at mem a (bytes_of 4 w)" and "bit w 0" and "bit w 1"
  shows "Decode mem a = (DecodeBaseInstruction w, 4)"
proof -
  have "read_bytes mem a (2 + 2) = bytes_of 4 w" using assms(1) by (simp add: code_at_def)
  then have "read_bytes mem a 2 = bytes_of 2 w"
    unfolding read_bytes_split by (metis append_eq_append_conv bytes_of_split length_bytes_of
        length_read_bytes numeral_Bit0)
  then have l: "load16 mem a = word_of_bytes (bytes_of 2 w)" by (simp add: load16_def)
  have "load16 mem a AND 3 = 3"
  proof (rule bit_word_eqI)
    fix n :: nat
    have three: "(3 :: u16) = mask 2" by (simp add: mask_numeral)
    have "n = 0 \<or> n = 1" if "n < 2" using that by auto
    then show "bit (load16 mem a AND 3) n \<longleftrightarrow> bit (3 :: u16) n"
      unfolding three l using assms(2,3) by (auto simp: bit_simps bit_word_of_bytes)
  qed
  then show ?thesis
    using load32_at [OF assms(1)] by (simp add: Decode_def GetInsnSize_def)
qed

lemma word_formats:
  "bit (auipc_word r v) 0" "bit (auipc_word r v) 1"
  "bit (ld_word r v) 0" "bit (ld_word r v) 1"
  "bit (jalr_word rd rs) 0" "bit (jalr_word rd rs) 1"
  "bit (jal_word rd v) 0" "bit (jal_word rd v) 1"
  "bit (branch_word (branch_base cond) r1 r2 v) 0" "bit (branch_word (branch_base cond) r1 r2 v) 1"
  by (simp_all add: auipc_word_def ld_word_def jalr_word_def jal_word_def branch_word_def
      branch_base_def bit_encode bit_or_iff)

text \<open>The same bytes at two places are the same instruction.\<close>

lemma same_bytes_same_instruction:
  assumes "read_bytes mem' p (GetInsnSize mem a) = read_bytes mem a (GetInsnSize mem a)"
  shows "Decode mem' p = Decode mem a"
proof (cases "GetInsnSize mem a = 2")
  case True
  then have "load16 mem' p = load16 mem a" using assms by (simp add: load16_def)
  with True show ?thesis by (simp add: Decode_def GetInsnSize_def split: if_splits)
next
  case False
  then have four: "read_bytes mem' p 4 = read_bytes mem a 4" using assms GetInsnSize_cases by metis
  then have "read_bytes mem' p (2 + 2) = read_bytes mem a (2 + 2)" by simp
  then have "read_bytes mem' p 2 = read_bytes mem a 2" unfolding read_bytes_split by simp
  then have "load16 mem' p = load16 mem a" by (simp add: load16_def)
  moreover have "load32 mem' p = load32 mem a" using four by (simp add: load32_def)
  ultimately show ?thesis by (simp add: Decode_def GetInsnSize_def)
qed

text \<open>A memory that holds the bytes \<open>bs\<close> at \<open>b0\<close>.\<close>

definition mem_of :: "u64 \<Rightarrow> u8 list \<Rightarrow> memory" where
  "mem_of b0 bs = (\<lambda>x. if unat (x - b0) < length bs then bs ! unat (x - b0) else 0)"

lemma code_at_mem_of: "length bs \<le> 2 ^ 64 \<Longrightarrow> code_at (mem_of b0 bs) b0 bs"
  by (auto simp: code_at_def mem_of_def unat_of_nat_64 intro!: nth_equalityI)

section \<open>The generated instructions\<close>

lemma step_auipc:
  assumes "code_at (mmem s) (mpc s) (bytes_of 4 (auipc_word r v))" and "r < 32"
    and "take_bit 12 v = 0"
  shows "step s = Some (advance 4 (write_reg r (mpc s + scast v) s))"
  by (simp add: step_def Decode_word [OF assms(1) word_formats(1,2)] decode_auipc [OF assms(2,3)]
      exec_call_def)

lemma step_ld:
  assumes "code_at (mmem s) (mpc s) (bytes_of 4 (ld_word r v))" and "r < 32"
  shows "step s = Some (advance 4 (write_reg r
    (load64 (mmem s) (read_reg r s + scast (ucast (signed_take_bit 11 v) :: u16))) s))"
  by (simp add: step_def Decode_word [OF assms(1) word_formats(3,4)] decode_ld [OF assms(2)]
      exec_call_def load_value_def)

lemma step_jalr:
  assumes "code_at (mmem s) (mpc s) (bytes_of 4 (jalr_word rd rs))" and "rd < 32" and "rs < 32"
  shows "step s = Some ((write_reg rd (mpc s + 4) s)\<lparr>mpc := read_reg rs s AND NOT 1\<rparr>)"
  by (simp add: step_def Decode_word [OF assms(1) word_formats(5,6)] decode_jalr [OF assms(2,3)]
      exec_call_def)

lemma step_jal:
  assumes "code_at (mmem s) (mpc s) (bytes_of 4 (jal_word rd v))" and "rd < 32"
    and "JImmediate_AccetableValue v"
  shows "step s = Some ((write_reg rd (mpc s + 4) s)\<lparr>mpc := mpc s + scast v\<rparr>)"
  by (simp add: step_def Decode_word [OF assms(1) word_formats(7,8)] decode_jal [OF assms(2,3)]
      exec_call_def)

lemma step_branch:
  assumes "code_at (mmem s) (mpc s) (bytes_of 4 (branch_word (branch_base cond) r1 r2 v))"
    and "r1 < 32" and "r2 < 32" and "BImmediate_AccetableValue v" and "cond < 8"
  shows "step s = Some
    (if branch_taken (BranchOpcode_of (ucast cond)) (read_reg r1 s) (read_reg r2 s)
     then s\<lparr>mpc := mpc s + scast (ucast v :: u16)\<rparr> else advance 4 s)"
  by (simp add: step_def Decode_word [OF assms(1) word_formats(9,10)] decode_branch [OF assms(2-5)]
      exec_call_def)

end
