(* ===== verification/Logger.thy ===== *)
theory Logger
  imports Prelude
begin

text \<open>
  \<open>core/logger.cc\<close>: the last error of the library. \<open>SetError\<close> formats a message into a static buffer;
  the model keeps the tag, the format string and the arguments that determine the text, and not the
  text. \<open>GetLastError\<close> hands the message out once.
\<close>

record error_message =
  tag :: string
  fmt :: string
  arguments :: "u64 list"

record Logger =
  error_buf :: "error_message option"
  has_error :: bool

definition initial_logger :: Logger where
  "initial_logger = \<lparr>error_buf = None, has_error = False\<rparr>"

definition ClearError :: "Logger \<Rightarrow> Logger" where
  "ClearError l = l\<lparr>has_error := False\<rparr>"

definition SetError :: "string \<Rightarrow> string \<Rightarrow> u64 list \<Rightarrow> Logger \<Rightarrow> Logger" where
  "SetError t f args l =
     l\<lparr>error_buf := Some \<lparr>tag = t, fmt = f, arguments = args\<rparr>, has_error := True\<rparr>"

definition GetLastError :: "Logger \<Rightarrow> error_message option \<times> Logger" where
  "GetLastError l =
     (if has_error l then (error_buf l, l\<lparr>has_error := False\<rparr>) else (None, l))"

text \<open>An error is reported to the caller exactly once.\<close>

lemma GetLastError_SetError:
  "fst (GetLastError (SetError t f args l)) = Some \<lparr>tag = t, fmt = f, arguments = args\<rparr>"
  "fst (GetLastError (snd (GetLastError l))) = None"
  "fst (GetLastError (ClearError l)) = None"
  by (simp_all add: GetLastError_def SetError_def ClearError_def)

text \<open>
  An error that was set is handed out by the next \<open>GetLastError\<close>, only by that one, and not after
  \<open>ClearError\<close>; a later error replaces an earlier one.
\<close>

lemma error_reported_once:
  "fst (GetLastError (SetError t f args l)) = Some \<lparr>tag = t, fmt = f, arguments = args\<rparr> \<and>
   fst (GetLastError (snd (GetLastError l))) = None \<and>
   fst (GetLastError (ClearError l)) = None \<and>
   SetError t f args (SetError t' f' args' l) = SetError t f args l"
  by (simp add: GetLastError_SetError) (simp add: SetError_def)

end
