(* ===== verification/Relocator.thy ===== *)
theory Relocator
  imports Decoder Assembler Logger
begin

text \<open>
  \<open>RV64Relocator\<close> of \<open>arch/riscv64/riscv64_relocator.h\<close>: the consumer of the decoder that copies the
  first instructions of a function to another place. An instruction whose meaning does not depend
  on its address is copied; \<open>auipc\<close>, \<open>jal\<close> and the branches are rewritten with absolute addresses,
  which follow the code in a table.

  Every method of the consumer is a definition over the state of the relocator; \<open>consume\<close> selects
  the method that a call of the decoder names. \<open>RelocatePrologue\<close> is \<open>Relocate\<close> up to the finished
  code, without its installation.
\<close>

section \<open>State\<close>

definition kNone :: u8 where "kNone = 0"
definition kSkipped :: u8 where "kSkipped = 1"
definition kRelocated :: u8 where "kRelocated = 2"
definition kError :: u8 where "kError = 3"

lemmas relocator_states = kNone_def kSkipped_def kRelocated_def kError_def

text \<open>
  The map \<open>addresses_\<close> from addresses to labels is the sorted list of its keys: the label of the
  address \<open>x\<close> is \<open>AddressLabel x\<close>.
\<close>

record RV64Relocator =
  assembler :: AssemblerBase
  addresses :: "u64 list"
  reloc_pc :: u64
  state :: u8
  returned :: bool
  logger :: Logger

definition new_relocator :: "Logger \<Rightarrow> RV64Relocator" where
  "new_relocator l =
     \<lparr>assembler = new_assembler, addresses = [], reloc_pc = 0, state = kNone, returned = False,
      logger = l\<rparr>"

definition kTag :: string where
  "kTag = ''Instruction Relocator''"

definition SetPC :: "u64 \<Rightarrow> RV64Relocator \<Rightarrow> RV64Relocator" where
  "SetPC pc' r = r\<lparr>reloc_pc := pc'\<rparr>"

definition GetPC :: "RV64Relocator \<Rightarrow> u64" where
  "GetPC r = reloc_pc r"

definition GetState :: "RV64Relocator \<Rightarrow> u8 \<times> RV64Relocator" where
  "GetState r = (state r, r\<lparr>state := kNone\<rparr>)"

definition SetNewState :: "u8 \<Rightarrow> RV64Relocator \<Rightarrow> RV64Relocator" where
  "SetNewState s r = (if state r = kNone then r\<lparr>state := s\<rparr> else r\<lparr>state := kError\<rparr>)"

definition Skip :: "RV64Relocator \<Rightarrow> RV64Relocator" where
  "Skip = SetNewState kSkipped"

definition insert_address :: "u64 \<Rightarrow> u64 list \<Rightarrow> u64 list" where
  "insert_address x xs = (if x \<in> set xs then xs else insort x xs)"

definition address_label :: "u64 \<Rightarrow> RV64Relocator \<Rightarrow> label \<times> RV64Relocator" where
  "address_label x r = (AddressLabel x, r\<lparr>addresses := insert_address x (addresses r)\<rparr>)"

text \<open>Emitting through the assembler that the relocator refers to.\<close>

definition emit :: "(AssemblerBase \<Rightarrow> AssemblerBase) \<Rightarrow> RV64Relocator \<Rightarrow> RV64Relocator" where
  "emit f r = r\<lparr>assembler := f (assembler r)\<rparr>"

definition emit_Bind :: "label \<Rightarrow> RV64Relocator \<Rightarrow> RV64Relocator result" where
  "emit_Bind l r = bnd (Bind l (assembler r)) (\<lambda>a. Inr (r\<lparr>assembler := a\<rparr>))"

definition emit_MakeLabel :: "RV64Relocator \<Rightarrow> label \<times> RV64Relocator" where
  "emit_MakeLabel r =
     (let (l, a) = MakeLabel (assembler r) in (l, r\<lparr>assembler := a\<rparr>))"

section \<open>The consumer\<close>

definition LoadAddress :: "Register \<Rightarrow> u64 \<Rightarrow> RV64Relocator \<Rightarrow> RV64Relocator" where
  "LoadAddress reg address r = (let (l, r1) = address_label address r in emit (Ld_label reg l) r1)"

definition JumpAddress :: "u64 \<Rightarrow> RV64Relocator \<Rightarrow> RV64Relocator" where
  "JumpAddress address r =
     emit (Jr TMP_GENERIC_REGISTER) (LoadAddress TMP_GENERIC_REGISTER address r)"

definition Undefined :: "RV64Relocator \<Rightarrow> RV64Relocator" where
  "Undefined r =
     (if returned r then Skip r
      else SetNewState kError
        (r\<lparr>logger := SetError kTag ''Unknown instruction at %#llx'' [reloc_pc r] (logger r)\<rparr>))"

definition Auipc :: "UpperImmArgs \<Rightarrow> RV64Relocator \<Rightarrow> RV64Relocator" where
  "Auipc args r =
     SetNewState kRelocated
       (LoadAddress (UpperImmArgs.dst args) (GetPC r + scast (UpperImmArgs.imm args)) r)"

text \<open>The \<open>switch\<close> of \<open>CompareAndBranch\<close>; \<open>None\<close> is its \<open>default\<close>.\<close>

definition branch_instruction ::
  "BranchArgs \<Rightarrow> label \<Rightarrow> (AssemblerBase \<Rightarrow> AssemblerBase) option" where
  "branch_instruction args l =
     (let s1 = BranchArgs.src1 args; s2 = BranchArgs.src2 args in
      case BranchArgs.opcode args of
        BranchOpcode.kBeq \<Rightarrow> Some (if s2 = 0 then Beqz s1 l else Beq s1 s2 l)
      | BranchOpcode.kBne \<Rightarrow> Some (if s2 = 0 then Bnez s1 l else Bne s1 s2 l)
      | BranchOpcode.kBlt \<Rightarrow> Some (if s2 = 0 then Bltz s1 l else Blt s1 s2 l)
      | BranchOpcode.kBge \<Rightarrow> Some (if s2 = 0 then Bgez s1 l else Bge s1 s2 l)
      | BranchOpcode.kBltu \<Rightarrow> Some (Bltu s1 s2 l)
      | BranchOpcode.kBgeu \<Rightarrow> Some (Bgeu s1 s2 l)
      | _ \<Rightarrow> None)"

definition CompareAndBranch :: "BranchArgs \<Rightarrow> RV64Relocator \<Rightarrow> RV64Relocator result" where
  "CompareAndBranch args r =
     (let address = GetPC r + scast (BranchArgs.offset args);
          (l, r1) = emit_MakeLabel r;
          (branch_label, r2) = emit_MakeLabel r1
      in case branch_instruction args branch_label of
           None \<Rightarrow> Inr (Undefined r2)
         | Some insn \<Rightarrow>
             bnd (emit_Bind branch_label (emit (Jal_label zero l) (emit insn r2))) (\<lambda>r3.
             bnd (emit_Bind l (JumpAddress address r3)) (\<lambda>r4.
             Inr (SetNewState kRelocated r4))))"

definition JumpAndLink :: "JumpAndLinkArgs \<Rightarrow> RV64Relocator \<Rightarrow> RV64Relocator" where
  "JumpAndLink args r =
     SetNewState kRelocated
       (emit (Jalr (JumpAndLinkArgs.dst args) TMP_GENERIC_REGISTER (IImmediate_MakeRaw (0 :: u32)))
          (LoadAddress TMP_GENERIC_REGISTER (GetPC r + scast (JumpAndLinkArgs.offset args)) r))"

definition JumpAndLinkRegister :: "JumpAndLinkRegisterArgs \<Rightarrow> RV64Relocator \<Rightarrow> RV64Relocator" where
  "JumpAndLinkRegister args r =
     Skip (if JumpAndLinkRegisterArgs.dst args = 0 \<and> JumpAndLinkRegisterArgs.base args = 1 \<and>
              JumpAndLinkRegisterArgs.offset args = 0
           then r\<lparr>returned := True\<rparr> else r)"

text \<open>All the methods that are not named here call \<open>Skip\<close>.\<close>

definition consume_call :: "consumer_call \<Rightarrow> RV64Relocator \<Rightarrow> RV64Relocator result" where
  "consume_call c r =
     (case c of
        consumer_call.Auipc args \<Rightarrow> Inr (Auipc args r)
      | consumer_call.CompareAndBranch args \<Rightarrow> CompareAndBranch args r
      | consumer_call.JumpAndLink args \<Rightarrow> Inr (JumpAndLink args r)
      | consumer_call.JumpAndLinkRegister args \<Rightarrow> Inr (JumpAndLinkRegister args r)
      | consumer_call.Undefined \<Rightarrow> Inr (Undefined r)
      | _ \<Rightarrow> Inr (Skip r))"

primrec consume :: "consumer_call list \<Rightarrow> RV64Relocator \<Rightarrow> RV64Relocator result" where
  "consume [] r = Inr r"
| "consume (c # cs) r = bnd (consume_call c r) (consume cs)"

section \<open>Relocating a prologue\<close>

text \<open>
  One turn of the loop of \<open>Relocate\<close>; the count of the decoder, and \<open>None\<close> when the loop returns 0.
\<close>

definition copy_instruction :: "memory \<Rightarrow> u64 \<Rightarrow> nat \<Rightarrow> AssemblerBase \<Rightarrow> AssemblerBase" where
  "copy_instruction mem address count a =
     (if count = 4 then TwoByte [load16 mem address, load16 mem (address + 2)] a
      else TwoByte [load16 mem address] a)"

definition RelocateStep ::
  "memory \<Rightarrow> u64 \<Rightarrow> RV64Relocator \<Rightarrow> (RV64Relocator \<times> nat option) result" where
  "RelocateStep mem address r =
     (let (calls, count) = Decode mem address in
      bnd (consume calls (SetPC address r)) (\<lambda>r1.
      let (state', r2) = GetState r1 in
      if state' = kSkipped then Inr (emit (copy_instruction mem address count) r2, Some count)
      else if state' \<noteq> kRelocated then Inr (r2, None)
      else Inr (r2, Some count)))"

lemma RelocateStep_count:
  "RelocateStep mem address r = Inr (r', Some count) \<Longrightarrow> count = 2 \<or> count = 4"
  by (auto simp: RelocateStep_def Decode_def Let_def case_prod_beta bnd_eq_Inr_iff
      split: if_splits)

text \<open>The result is the address after the loop and the size of the instructions it went through.\<close>

function RelocateLoop ::
  "memory \<Rightarrow> u64 \<Rightarrow> int \<Rightarrow> nat \<Rightarrow> RV64Relocator \<Rightarrow> (RV64Relocator \<times> (u64 \<times> nat) option) result" where
  "RelocateLoop mem address n overwrite_size r =
     (if n > 0 then
        bnd (RelocateStep mem address r) (\<lambda>(r', counted).
          case counted of
            None \<Rightarrow> Inr (r', None)
          | Some count \<Rightarrow>
              RelocateLoop mem (address + of_nat count) (n - int count) (overwrite_size + count) r')
      else Inr (r, Some (address, overwrite_size)))"
  by pat_completeness auto
termination
  by (relation "measure (\<lambda>(mem, address, n, overwrite_size, r). nat n)")
    (auto dest!: RelocateStep_count)

declare RelocateLoop.simps [simp del]

primrec bind_and_emit :: "u64 list \<Rightarrow> AssemblerBase \<Rightarrow> AssemblerBase result" where
  "bind_and_emit [] a = Inr a"
| "bind_and_emit (x # xs) a =
     bnd (Bind (AddressLabel x) a) (\<lambda>a1. bind_and_emit xs (Emit64 x a1))"

definition EmitAddresses :: "RV64Relocator \<Rightarrow> RV64Relocator result" where
  "EmitAddresses r =
     bnd (bind_and_emit (addresses r) (assembler r)) (\<lambda>a. Inr (r\<lparr>assembler := a\<rparr>))"

definition RelocatePrologue ::
  "memory \<Rightarrow> u64 \<Rightarrow> int \<Rightarrow> Logger \<Rightarrow> (Logger \<times> (MachineCode \<times> nat) option) result" where
  "RelocatePrologue mem address n l =
     bnd (RelocateLoop mem address n 0 (new_relocator l)) (\<lambda>(r, done_at).
       case done_at of
         None \<Rightarrow> Inr (logger r, None)
       | Some (address', overwrite_size) \<Rightarrow>
           bnd (EmitAddresses (JumpAddress address' r)) (\<lambda>r1.
           bnd (Finalize (assembler r1)) (\<lambda>a.
           Inr (logger r1, Some (mcode a, overwrite_size)))))"

end
