(* ===== verification/Relocation_Blocks.thy ===== *)
theory Relocation_Blocks
  imports Relocator Assembler_Layout
begin

text \<open>
  What relocated code is to look like, stated without an assembler: one block per instruction of the
  prologue, a jump behind the last of them, and the table of the absolute addresses. The first half
  defines this layout; the second shows that resolving the jumps of the emitted templates gives it.
\<close>

section \<open>Blocks\<close>

text \<open>
  A copied instruction; \<open>auipc\<close> as a load of its value; a jump, with its link register, to an
  absolute address; a branch to an absolute address.
\<close>

datatype (plugins only: size code) block =
    Verbatim "u8 list"
  | LoadAbs Register u64
  | CallAbs Register u64
  | BranchAbs u32 Register Register u64

primrec block_size :: "block \<Rightarrow> nat" where
  "block_size (Verbatim bs) = length bs"
| "block_size (LoadAbs r x) = 8"
| "block_size (CallAbs rd x) = 12"
| "block_size (BranchAbs oc r1 r2 x) = 20"

primrec block_addresses :: "block \<Rightarrow> u64 list" where
  "block_addresses (Verbatim bs) = []"
| "block_addresses (LoadAbs r x) = [x]"
| "block_addresses (CallAbs rd x) = [x]"
| "block_addresses (BranchAbs oc r1 r2 x) = [x]"

text \<open>
  The code of a block at offset \<open>p\<close>, where \<open>slot x\<close> is the offset of the address \<open>x\<close> in the table.
  A branch that is taken skips the \<open>jal\<close>, which leads the other case past the block.
\<close>

definition jump_bytes :: "Register \<Rightarrow> u32 \<Rightarrow> u8 list" where
  "jump_bytes rd off =
     load_bytes TMP_GENERIC_REGISTER off @ bytes_of 4 (jalr_word rd TMP_GENERIC_REGISTER)"

primrec block_code :: "(u64 \<Rightarrow> u32) \<Rightarrow> nat \<Rightarrow> block \<Rightarrow> u8 list" where
  "block_code slot p (Verbatim bs) = bs"
| "block_code slot p (LoadAbs r x) = load_bytes r (slot x - of_nat p)"
| "block_code slot p (CallAbs rd x) = jump_bytes rd (slot x - of_nat p)"
| "block_code slot p (BranchAbs oc r1 r2 x) =
     bytes_of 4 (branch_word oc r1 r2 8) @ bytes_of 4 (jal_word zero 16) @
     jump_bytes zero (slot x - of_nat (p + 8))"

primrec blocks_code :: "(u64 \<Rightarrow> u32) \<Rightarrow> nat \<Rightarrow> block list \<Rightarrow> u8 list" where
  "blocks_code slot p [] = []"
| "blocks_code slot p (b # bs) = block_code slot p b @ blocks_code slot (p + block_size b) bs"

definition blocks_size :: "block list \<Rightarrow> nat" where
  "blocks_size bs = sum_list (map block_size bs)"

lemma blocks_size_simps [simp]:
  "blocks_size [] = 0"
  "blocks_size (b # bs) = block_size b + blocks_size bs"
  "blocks_size (bs @ cs) = blocks_size bs + blocks_size cs"
  by (simp_all add: blocks_size_def)

definition blocks_addresses :: "block list \<Rightarrow> u64 list" where
  "blocks_addresses bs = concat (map block_addresses bs)"

lemma blocks_addresses_simps [simp]:
  "blocks_addresses [] = []"
  "blocks_addresses (b # bs) = block_addresses b @ blocks_addresses bs"
  "blocks_addresses (bs @ cs) = blocks_addresses bs @ blocks_addresses cs"
  by (simp_all add: blocks_addresses_def)

lemma length_jump_bytes [simp]: "length (jump_bytes rd off) = 12"
  by (simp add: jump_bytes_def)

lemma length_block_code [simp]: "length (block_code slot p b) = block_size b"
  by (cases b) simp_all

lemma length_blocks_code [simp]: "length (blocks_code slot p bs) = blocks_size bs"
  by (induction bs arbitrary: p) simp_all

text \<open>The table: the addresses in ascending order, each once.\<close>

definition address_table :: "block list \<Rightarrow> u64 list" where
  "address_table bs = sort (remdups (blocks_addresses bs))"

definition table_slot :: "nat \<Rightarrow> u64 list \<Rightarrow> u64 \<Rightarrow> u32" where
  "table_slot start table x = of_nat (start + 8 * length (takeWhile (\<lambda>y. y \<noteq> x) table))"

definition layout :: "block list \<Rightarrow> u8 list" where
  "layout bs =
     (let table = address_table bs
      in blocks_code (table_slot (blocks_size bs) table) 0 bs @ concat (map (bytes_of 8) table))"

section \<open>Templates\<close>

text \<open>What is emitted before the jumps are resolved: all offsets are zero.\<close>

primrec block_template :: "block \<Rightarrow> u8 list" where
  "block_template (Verbatim bs) = bs"
| "block_template (LoadAbs r x) = load_bytes r 0"
| "block_template (CallAbs rd x) = jump_bytes rd 0"
| "block_template (BranchAbs oc r1 r2 x) =
     bytes_of 4 (branch_word oc r1 r2 0) @ bytes_of 4 (jal_word zero 0) @ jump_bytes zero 0"

definition blocks_template :: "block list \<Rightarrow> u8 list" where
  "blocks_template bs = concat (map block_template bs)"

lemma blocks_template_simps [simp]:
  "blocks_template [] = []"
  "blocks_template (b # bs) = block_template b @ blocks_template bs"
  "blocks_template (bs @ cs) = blocks_template bs @ blocks_template cs"
  by (simp_all add: blocks_template_def)

lemma length_block_template [simp]: "length (block_template b) = block_size b"
  by (cases b) simp_all

lemma length_blocks_template [simp]: "length (blocks_template bs) = blocks_size bs"
  by (induction bs) simp_all

text \<open>The jumps that the assembler has recorded for a block at offset \<open>p\<close>.\<close>

abbreviation jump_at :: "label \<Rightarrow> nat \<Rightarrow> Jump" where
  "jump_at l p \<equiv> \<lparr>jump_label = l, pc = of_nat p, is_recovery = False\<rparr>"

primrec block_jumps :: "(label \<Rightarrow> u32) \<Rightarrow> nat \<Rightarrow> block \<Rightarrow> Jump list \<Rightarrow> bool" where
  "block_jumps pos p (Verbatim bs) js \<longleftrightarrow> js = []"
| "block_jumps pos p (LoadAbs r x) js \<longleftrightarrow> js = [jump_at (AddressLabel x) p]"
| "block_jumps pos p (CallAbs rd x) js \<longleftrightarrow> js = [jump_at (AddressLabel x) p]"
| "block_jumps pos p (BranchAbs oc r1 r2 x) js \<longleftrightarrow>
     \<not> bit oc 4 \<and> \<not> bit oc 2 \<and>
     (\<exists>k k'. js = [jump_at (ArenaLabel k) p, jump_at (ArenaLabel k') (p + 4),
                   jump_at (AddressLabel x) (p + 8)] \<and>
             pos (ArenaLabel k) = of_nat (p + 8) \<and> pos (ArenaLabel k') = of_nat (p + 20))"

primrec jumps_match :: "(label \<Rightarrow> u32) \<Rightarrow> nat \<Rightarrow> block list \<Rightarrow> Jump list \<Rightarrow> bool" where
  "jumps_match pos p [] js \<longleftrightarrow> js = []"
| "jumps_match pos p (b # bs) js \<longleftrightarrow>
     (\<exists>js1 js2. js = js1 @ js2 \<and> block_jumps pos p b js1 \<and>
        jumps_match pos (p + block_size b) bs js2)"

lemma jumps_match_append:
  "jumps_match pos p bs js \<Longrightarrow> block_jumps pos (p + blocks_size bs) b js' \<Longrightarrow>
   jumps_match pos p (bs @ [b]) (js @ js')"
proof (induction bs arbitrary: p js)
  case (Cons c bs)
  then obtain js1 js2 where "js = js1 @ js2" "block_jumps pos p c js1"
      "jumps_match pos (p + block_size c) bs js2" by auto
  with Cons.IH [of "p + block_size c" js2] Cons.prems(2) show ?case
    by (auto simp: add.assoc)
qed simp

text \<open>Binding more labels does not disturb the recorded jumps.\<close>

lemma of_nat_neq_kInvalid: "n < 2 ^ 32 - 1 \<Longrightarrow> of_nat n \<noteq> kInvalid"
  using unat_position [of n] unat_position [of "2 ^ 32 - 1"] by (auto simp: kInvalid_def)

lemma block_jumps_mono:
  assumes "block_jumps pos p b js" and "\<And>l. pos l \<noteq> kInvalid \<Longrightarrow> pos' l = pos l"
    and "p + block_size b < 2 ^ 32 - 1"
  shows "block_jumps pos' p b js"
  using assms of_nat_neq_kInvalid [of "p + 8"] of_nat_neq_kInvalid [of "p + 20"]
  by (cases b) auto

lemma jumps_match_mono:
  assumes "jumps_match pos p bs js" and "\<And>l. pos l \<noteq> kInvalid \<Longrightarrow> pos' l = pos l"
    and "p + blocks_size bs < 2 ^ 32 - 1"
  shows "jumps_match pos' p bs js"
  using assms
proof (induction bs arbitrary: p js)
  case (Cons b bs)
  then obtain js1 js2 where js: "js = js1 @ js2" "block_jumps pos p b js1"
      "jumps_match pos (p + block_size b) bs js2" by auto
  moreover have "block_jumps pos' p b js1"
    by (rule block_jumps_mono [OF js(2) Cons.prems(2)]) (use Cons.prems(3) in simp_all)
  moreover have "jumps_match pos' (p + block_size b) bs js2"
    by (rule Cons.IH [OF js(3) Cons.prems(2)]) (use Cons.prems(3) in simp_all)
  ultimately show ?case by auto
qed simp

section \<open>Resolving the jumps of the blocks\<close>

lemma resolve_each_append:
  "resolve_each (xs @ ys) a = bnd (resolve_each xs a) (resolve_each ys)"
proof (induction xs arbitrary: a)
  case (Cons x xs)
  then have "resolve_each (xs @ ys) = (\<lambda>a. bnd (resolve_each xs a) (resolve_each ys))" by blast
  then show ?case by (simp add: bnd_assoc)
qed simp

lemma constant_offsets:
  "BImmediate_AccetableValue (8 :: u32)" "JImmediate_AccetableValue (16 :: u32)"
  by code_simp+

lemma position_differences:
  "(of_nat (p + 8) :: u32) - of_nat p = 8" "(of_nat (p + 20) :: u32) - of_nat (p + 4) = 16"
  by simp_all

abbreviation slots :: "AssemblerBase \<Rightarrow> u64 \<Rightarrow> u32" where
  "slots a x \<equiv> position a (AddressLabel x)"

lemma resolve_load:
  assumes "code_bytes (mcode a) = pre @ load_bytes r 0 @ post" and "length pre = p"
    and "p + 8 < 2 ^ 32" and "IsBound (AddressLabel x) a"
  shows "resolve_each [jump_at (AddressLabel x) p] a =
    Inr (with_code (pre @ load_bytes r (slots a x - of_nat p) @ post) a)"
  using ResolveJump_load [of a pre r post "AddressLabel x"] assms by simp

lemma resolve_branch_block:
  assumes js: "block_jumps (position a) p (BranchAbs oc r1 r2 x) js"
    and code: "code_bytes (mcode a) = pre @ block_template (BranchAbs oc r1 r2 x) @ post"
    and len: "length pre = p" and small: "p + 20 < 2 ^ 32 - 1"
    and bound: "IsBound (AddressLabel x) a"
  shows "resolve_each js a =
    Inr (with_code (pre @ block_code (slots a) p (BranchAbs oc r1 r2 x) @ post) a)"
proof -
  from js obtain k k' where js_eq: "js = [jump_at (ArenaLabel k) p, jump_at (ArenaLabel k') (p + 4),
      jump_at (AddressLabel x) (p + 8)]"
    and k: "position a (ArenaLabel k) = of_nat (p + 8)"
    and k': "position a (ArenaLabel k') = of_nat (p + 20)"
    and oc: "\<not> bit oc 4" "\<not> bit oc 2" by auto
  have bound_k: "IsBound (ArenaLabel k) a" "IsBound (ArenaLabel k') a"
    unfolding IsBound_def k k' by (rule of_nat_neq_kInvalid, use small in simp)+
  let ?b = "bytes_of 4 (branch_word oc r1 r2 8)" and ?j = "bytes_of 4 (jal_word zero 16)"
  let ?jr = "bytes_of 4 (jalr_word zero TMP_GENERIC_REGISTER)"
  let ?a1 = "with_code (pre @ ?b @ bytes_of 4 (jal_word zero 0) @ jump_bytes zero 0 @ post) a"
  let ?a2 = "with_code ((pre @ ?b) @ ?j @ jump_bytes zero 0 @ post) a"
  have 1: "ResolveJump (jump_at (ArenaLabel k) p) a = Inr ?a1"
    using ResolveJump_branch [of a pre oc r1 r2 _ "ArenaLabel k"] code len small oc bound_k
      position_differences(1) constant_offsets(1) by (simp add: k)
  have 2: "ResolveJump (jump_at (ArenaLabel k') (p + 4)) ?a1 = Inr ?a2"
    using ResolveJump_jal [of ?a1 "pre @ ?b" zero _ "ArenaLabel k'"] len small bound_k
      position_differences(2) constant_offsets(2) by (simp add: k')
  have 3: "ResolveJump (jump_at (AddressLabel x) (p + 8)) ?a2 =
      Inr (with_code (pre @ block_code (slots a) p (BranchAbs oc r1 r2 x) @ post) a)"
    using ResolveJump_load [of ?a2 "pre @ ?b @ ?j" TMP_GENERIC_REGISTER "?jr @ post" "AddressLabel x"]
      len small bound by (simp add: jump_bytes_def)
  show ?thesis by (simp only: js_eq resolve_each.simps 1 2 3 bnd_Inr)
qed

lemma resolve_block:
  assumes js: "block_jumps (position a) p b js"
    and code: "code_bytes (mcode a) = pre @ block_template b @ post"
    and len: "length pre = p" and small: "p + block_size b < 2 ^ 32 - 1"
    and bound: "\<And>x. x \<in> set (block_addresses b) \<Longrightarrow> IsBound (AddressLabel x) a"
  shows "resolve_each js a = Inr (with_code (pre @ block_code (slots a) p b @ post) a)"
proof (cases b)
  case (Verbatim bs)
  with js code show ?thesis using with_code_self [of a] by simp
next
  case (LoadAbs r x)
  with js code len small bound show ?thesis using resolve_load [of a pre r post p x] by simp
next
  case (CallAbs rd x)
  with js code len small bound show ?thesis
    using resolve_load [of a pre TMP_GENERIC_REGISTER
        "bytes_of 4 (jalr_word rd TMP_GENERIC_REGISTER) @ post" p x]
    by (simp add: jump_bytes_def)
next
  case (BranchAbs oc r1 r2 x)
  with assms show ?thesis using resolve_branch_block [of a p oc r1 r2 x js pre post] by simp
qed

lemma resolve_blocks:
  assumes "jumps_match (position a) p bs js"
    and "code_bytes (mcode a) = pre @ blocks_template bs @ post"
    and "length pre = p" and "p + blocks_size bs < 2 ^ 32 - 1"
    and "\<And>x. x \<in> set (blocks_addresses bs) \<Longrightarrow> IsBound (AddressLabel x) a"
  shows "resolve_each js a = Inr (with_code (pre @ blocks_code (slots a) p bs @ post) a)"
  using assms
proof (induction bs arbitrary: p js pre a)
  case Nil
  then show ?case using with_code_self [of a] by simp
next
  case (Cons b bs)
  then obtain js1 js2 where js: "js = js1 @ js2" "block_jumps (position a) p b js1"
    "jumps_match (position a) (p + block_size b) bs js2" by auto
  let ?pre = "pre @ block_code (slots a) p b"
  let ?a1 = "with_code (pre @ block_code (slots a) p b @ blocks_template bs @ post) a"
  have "resolve_each js1 a = Inr ?a1"
    using js(2) Cons.prems by (intro resolve_block) auto
  moreover have "resolve_each js2 ?a1 =
      Inr (with_code (?pre @ blocks_code (slots ?a1) (p + block_size b) bs @ post) ?a1)"
    using js(3) Cons.prems by (intro Cons.IH) auto
  ultimately show ?case by (simp add: js(1) resolve_each_append)
qed

end
