(* ===== verification/Relocation_Refinement.thy ===== *)
theory Relocation_Refinement
  imports Relocation_Blocks
begin

text \<open>
  The specification of relocation and the proof that \<open>RelocatePrologue\<close> implements it.
  \<open>prologue_blocks\<close> reads the prologue into blocks; the code that the relocator finishes is the
  layout of these blocks and of a jump to the instruction behind the prologue.
\<close>

section \<open>The blocks of a prologue\<close>

definition branch_opcode :: "BranchOpcode \<Rightarrow> u32 option" where
  "branch_opcode b =
     (case b of
        BranchOpcode.kBeq \<Rightarrow> Some 0x0063
      | BranchOpcode.kBne \<Rightarrow> Some 0x1063
      | BranchOpcode.kBlt \<Rightarrow> Some 0x4063
      | BranchOpcode.kBge \<Rightarrow> Some 0x5063
      | BranchOpcode.kBltu \<Rightarrow> Some 0x6063
      | BranchOpcode.kBgeu \<Rightarrow> Some 0x7063
      | _ \<Rightarrow> None)"

text \<open>
  The block of the instruction at \<open>a\<close>, given its decoded call, its bytes and whether a return
  instruction has been seen; \<open>None\<close> when it cannot be relocated.
\<close>

definition is_return :: "JumpAndLinkRegisterArgs \<Rightarrow> bool" where
  "is_return args =
     (JumpAndLinkRegisterArgs.dst args = 0 \<and> JumpAndLinkRegisterArgs.base args = 1 \<and>
      JumpAndLinkRegisterArgs.offset args = 0)"

definition block_of_call :: "u64 \<Rightarrow> u8 list \<Rightarrow> bool \<Rightarrow> consumer_call \<Rightarrow> block option" where
  "block_of_call a bs ret c =
     (case c of
        consumer_call.Auipc args \<Rightarrow>
          Some (LoadAbs (UpperImmArgs.dst args) (a + scast (UpperImmArgs.imm args)))
      | consumer_call.JumpAndLink args \<Rightarrow>
          Some (CallAbs (JumpAndLinkArgs.dst args) (a + scast (JumpAndLinkArgs.offset args)))
      | consumer_call.CompareAndBranch args \<Rightarrow>
          (case branch_opcode (BranchArgs.opcode args) of
             Some oc \<Rightarrow>
               Some (BranchAbs oc (BranchArgs.src1 args) (BranchArgs.src2 args)
                       (a + scast (BranchArgs.offset args)))
           | None \<Rightarrow> if ret then Some (Verbatim bs) else None)
      | consumer_call.Undefined \<Rightarrow> if ret then Some (Verbatim bs) else None
      | _ \<Rightarrow> Some (Verbatim bs))"

definition returns_after :: "bool \<Rightarrow> consumer_call \<Rightarrow> bool" where
  "returns_after ret c =
     (case c of consumer_call.JumpAndLinkRegister args \<Rightarrow> ret \<or> is_return args | _ \<Rightarrow> ret)"

text \<open>An instruction that the decoder reports with no call or with two cannot be relocated.\<close>

definition block_at :: "memory \<Rightarrow> u64 \<Rightarrow> bool \<Rightarrow> (block \<times> bool) option" where
  "block_at mem a ret =
     (case Decode mem a of
        ([c], count) \<Rightarrow>
          map_option (\<lambda>b. (b, returns_after ret c)) (block_of_call a (read_bytes mem a count) ret c)
      | _ \<Rightarrow> None)"

function prologue_blocks :: "memory \<Rightarrow> u64 \<Rightarrow> int \<Rightarrow> bool \<Rightarrow> (block list \<times> nat) option" where
  "prologue_blocks mem a n ret =
     (if n > 0 then
        case block_at mem a ret of
          None \<Rightarrow> None
        | Some (b, ret') \<Rightarrow>
            let count = GetInsnSize mem a in
            map_option (\<lambda>(bs, tot). (b # bs, count + tot))
              (prologue_blocks mem (a + of_nat count) (n - int count) ret')
      else Some ([], 0))"
  by pat_completeness auto
termination
  by (relation "measure (\<lambda>(mem, a, n, ret). nat n)") (auto simp: GetInsnSize_def)

declare prologue_blocks.simps [simp del]

definition relocated_blocks :: "memory \<Rightarrow> u64 \<Rightarrow> int \<Rightarrow> (block list \<times> nat) option" where
  "relocated_blocks mem a n =
     map_option (\<lambda>(bs, tot). (bs @ [CallAbs zero (a + of_nat tot)], tot))
       (prologue_blocks mem a n False)"

section \<open>What the relocator has emitted\<close>

text \<open>
  The invariant of the loop: the code is the template of the blocks read so far, its jumps are
  recorded, no label is bound that is still to be bound, and the map holds the blocks' addresses.
\<close>

definition unbound_labels :: "AssemblerBase \<Rightarrow> bool" where
  "unbound_labels a \<longleftrightarrow>
     (\<forall>k \<ge> arena_labels a. position a (ArenaLabel k) = kInvalid) \<and>
     (\<forall>x. position a (AddressLabel x) = kInvalid)"

definition emitted :: "block list \<Rightarrow> RV64Relocator \<Rightarrow> bool" where
  "emitted bs r \<longleftrightarrow>
     code_bytes (mcode (assembler r)) = blocks_template bs \<and>
     relocations (mcode (assembler r)) = [] \<and>
     jumps_match (position (assembler r)) 0 bs (jumps (assembler r)) \<and>
     unbound_labels (assembler r) \<and>
     addresses r = address_table bs"

lemma insert_address_simps [simp]:
  "set (insert_address x xs) = insert x (set xs)"
  "sorted xs \<Longrightarrow> sorted (insert_address x xs)"
  "distinct xs \<Longrightarrow> distinct (insert_address x xs)"
  by (auto simp: insert_address_def set_insort_key sorted_insort distinct_insort)

lemma address_table_properties [simp]:
  "sorted (address_table bs)" "distinct (address_table bs)"
  "set (address_table bs) = set (blocks_addresses bs)"
  by (simp_all add: address_table_def)

lemma address_table_Nil [simp]: "address_table [] = []"
  by (simp add: address_table_def)

lemma address_table_snoc:
  "block_addresses b = [x] \<Longrightarrow> address_table (bs @ [b]) = insert_address x (address_table bs)"
  "block_addresses b = [] \<Longrightarrow> address_table (bs @ [b]) = address_table bs"
  by (auto intro!: sorted_distinct_set_unique)

section \<open>One step of the relocator\<close>

text \<open>The emitting operations, as appended bytes, new jumps and new positions.\<close>

lemma emit_simps [simp]:
  "assembler (emit f r) = f (assembler r)"
  "addresses (emit f r) = addresses r"
  "reloc_pc (emit f r) = reloc_pc r"
  "state (emit f r) = state r"
  "returned (emit f r) = returned r"
  "logger (emit f r) = logger r"
  by (simp_all add: emit_def)

lemma state_simps [simp]:
  "assembler (SetNewState s r) = assembler r"
  "addresses (SetNewState s r) = addresses r"
  "reloc_pc (SetNewState s r) = reloc_pc r"
  "returned (SetNewState s r) = returned r"
  "logger (SetNewState s r) = logger r"
  "state r = kNone \<Longrightarrow> state (SetNewState s r) = s"
  by (simp_all add: SetNewState_def)

lemma SetPC_simps [simp]:
  "assembler (SetPC a r) = assembler r"
  "addresses (SetPC a r) = addresses r"
  "reloc_pc (SetPC a r) = a"
  "state (SetPC a r) = state r"
  "returned (SetPC a r) = returned r"
  "logger (SetPC a r) = logger r"
  by (simp_all add: SetPC_def)

lemma emitted_size: "emitted bs r \<Longrightarrow> code_size (assembler r) = blocks_size bs"
  by (simp add: emitted_def code_size_def)

lemma emitted_cong:
  "assembler r' = assembler r \<Longrightarrow> addresses r' = addresses r \<Longrightarrow> emitted bs r' = emitted bs r"
  by (simp add: emitted_def)

lemma emitted_SetNewState [simp]: "emitted bs (SetNewState s r) = emitted bs r"
  by (simp add: emitted_def)

text \<open>The invariant for a block with no label of its own: it appends its template and one jump.\<close>

lemma emitted_append:
  assumes "emitted bs r"
    and "assembler r' = append_code (block_template b) a"
    and "mcode a = mcode (assembler r)" "position a = position (assembler r)"
    and "jumps a = jumps (assembler r) @ js"
    and "arena_labels a \<ge> arena_labels (assembler r)"
    and "block_jumps (position (assembler r)) (blocks_size bs) b js"
    and "addresses r' = address_table (bs @ [b])"
  shows "emitted (bs @ [b]) r'"
  using assms jumps_match_append [of "position (assembler r)" 0 bs "jumps (assembler r)" b js]
  by (auto simp: emitted_def unbound_labels_def)

lemma LoadAddress_fields [simp]:
  "state (LoadAddress reg x r) = state r"
  "returned (LoadAddress reg x r) = returned r"
  "reloc_pc (LoadAddress reg x r) = reloc_pc r"
  "logger (LoadAddress reg x r) = logger r"
  "addresses (LoadAddress reg x r) = insert_address x (addresses r)"
  "assembler (LoadAddress reg x r) = Ld_label reg (AddressLabel x) (assembler r)"
  by (simp_all add: LoadAddress_def address_label_def emit_def)

lemma emitted_LoadAddress:
  assumes "emitted bs r" and "blocks_size bs + 20 < 2 ^ 32 - 1"
  shows "emitted (bs @ [LoadAbs reg x]) (LoadAddress reg x r)"
proof (rule emitted_append [where a = "push_jump (AddressLabel x) False (assembler r)"])
  show "assembler (LoadAddress reg x r) =
      append_code (block_template (LoadAbs reg x)) (push_jump (AddressLabel x) False (assembler r))"
    using assms by (simp add: Ld_label_append emitted_size)
  show "block_jumps (position (assembler r)) (blocks_size bs) (LoadAbs reg x)
      [\<lparr>jump_label = AddressLabel x, pc = asm_pc (assembler r), is_recovery = False\<rparr>]"
    using assms by (simp add: asm_pc_size emitted_size)
  show "addresses (LoadAddress reg x r) = address_table (bs @ [LoadAbs reg x])"
    using assms by (simp add: emitted_def address_table_snoc)
qed (use assms in simp_all)

lemma emitted_call:
  assumes "emitted bs r" and "blocks_size bs + 20 < 2 ^ 32 - 1"
  shows "emitted (bs @ [CallAbs rd x])
    (emit (Jalr rd TMP_GENERIC_REGISTER (IImmediate_MakeRaw (0 :: u32)))
      (LoadAddress TMP_GENERIC_REGISTER x r))"
proof (rule emitted_append [where a = "push_jump (AddressLabel x) False (assembler r)"])
  show "assembler (emit (Jalr rd TMP_GENERIC_REGISTER (IImmediate_MakeRaw (0 :: u32)))
      (LoadAddress TMP_GENERIC_REGISTER x r)) =
      append_code (block_template (CallAbs rd x)) (push_jump (AddressLabel x) False (assembler r))"
    using assms
    by (simp add: Ld_label_append emitted_size Jalr_append jump_bytes_def append_code_append)
  show "block_jumps (position (assembler r)) (blocks_size bs) (CallAbs rd x)
      [\<lparr>jump_label = AddressLabel x, pc = asm_pc (assembler r), is_recovery = False\<rparr>]"
    using assms by (simp add: asm_pc_size emitted_size)
  show "addresses (emit (Jalr rd TMP_GENERIC_REGISTER (IImmediate_MakeRaw (0 :: u32)))
      (LoadAddress TMP_GENERIC_REGISTER x r)) = address_table (bs @ [CallAbs rd x])"
    using assms by (simp add: emitted_def address_table_snoc)
qed (use assms in simp_all)

lemma emitted_JumpAddress:
  assumes "emitted bs r" and "blocks_size bs + 20 < 2 ^ 32 - 1"
  shows "emitted (bs @ [CallAbs zero x]) (JumpAddress x r)"
  using emitted_call [OF assms] by (simp add: JumpAddress_def Jr_def)

subsection \<open>Branches\<close>

lemma branch_instruction_eq:
  "branch_instruction args l =
     map_option (\<lambda>oc. conditional_label oc (BranchArgs.src1 args) (BranchArgs.src2 args) l)
       (branch_opcode (BranchArgs.opcode args))"
  by (simp add: branch_instruction_def branch_opcode_def Beqz_def Bnez_def Bltz_def Bgez_def Beq_def
      Bne_def Blt_def Bge_def Bltu_def Bgeu_def zero_def Let_def split: BranchOpcode.split)

lemma branch_opcode_bits:
  "branch_opcode b = Some oc \<Longrightarrow> \<not> bit oc 4 \<and> \<not> bit oc 2"
  by (auto simp: branch_opcode_def split: BranchOpcode.splits)

lemma emit_MakeLabel_simps [simp]:
  "fst (emit_MakeLabel r) = ArenaLabel (arena_labels (assembler r))"
  "assembler (snd (emit_MakeLabel r)) =
     (assembler r)\<lparr>arena_labels := arena_labels (assembler r) + 1\<rparr>"
  "addresses (snd (emit_MakeLabel r)) = addresses r"
  "reloc_pc (snd (emit_MakeLabel r)) = reloc_pc r"
  "state (snd (emit_MakeLabel r)) = state r"
  "returned (snd (emit_MakeLabel r)) = returned r"
  "logger (snd (emit_MakeLabel r)) = logger r"
  by (simp_all add: emit_MakeLabel_def MakeLabel_def)

lemma emit_Bind_unbound:
  "position (assembler r) l = kInvalid \<Longrightarrow>
   emit_Bind l r = Inr (r\<lparr>assembler := (assembler r)
     \<lparr>position := (position (assembler r))(l := of_nat (code_size (assembler r)))\<rparr>\<rparr>)"
  by (simp add: emit_Bind_def Bind_def IsBound_def asm_pc_size)

lemma code_size_update [simp]:
  "code_size (a\<lparr>position := pos\<rparr>) = code_size a"
  "code_size (a\<lparr>arena_labels := k\<rparr>) = code_size a"
  by (simp_all add: code_size_def)

lemma JumpAddress_fields [simp]:
  "state (JumpAddress x r) = state r"
  "returned (JumpAddress x r) = returned r"
  "logger (JumpAddress x r) = logger r"
  "addresses (JumpAddress x r) = insert_address x (addresses r)"
  by (simp_all add: JumpAddress_def)

lemma JumpAddress_assembler:
  "code_size (assembler r) + 12 < 2 ^ 32 \<Longrightarrow>
   assembler (JumpAddress x r) =
     append_code (jump_bytes zero 0) (push_jump (AddressLabel x) False (assembler r))"
  by (simp add: JumpAddress_def Jr_def Ld_label_append Jalr_append jump_bytes_def append_code_append)

lemma CompareAndBranch_emitted:
  assumes em: "emitted bs r" and small: "blocks_size bs + 20 < 2 ^ 32 - 1"
    and oc: "branch_opcode (BranchArgs.opcode args) = Some oc"
  obtains r' where "CompareAndBranch args r = Inr r'"
    and "emitted (bs @ [BranchAbs oc (BranchArgs.src1 args) (BranchArgs.src2 args)
           (GetPC r + scast (BranchArgs.offset args))]) r'"
    and "state r = kNone \<Longrightarrow> state r' = kRelocated"
    and "returned r' = returned r" and "logger r' = logger r"
proof -
  let ?x = "GetPC r + scast (BranchArgs.offset args)"
  let ?a = "assembler r" let ?k = "arena_labels (assembler r)" let ?n = "blocks_size bs"
  let ?l = "ArenaLabel ?k" and ?bl = "ArenaLabel (?k + 1)"
  let ?b = "BranchAbs oc (BranchArgs.src1 args) (BranchArgs.src2 args) ?x"
  let ?r2 = "snd (emit_MakeLabel (snd (emit_MakeLabel r)))"
  define r2' where "r2' = emit (Jal_label zero ?l)
      (emit (conditional_label oc (BranchArgs.src1 args) (BranchArgs.src2 args) ?bl) ?r2)"
  have size: "code_size ?a = ?n" using em by (rule emitted_size)
  have unbound: "position ?a (ArenaLabel i) = kInvalid" if "i \<ge> ?k" for i
    using em that by (simp add: emitted_def unbound_labels_def)
  have a2': "assembler r2' =
      append_code (bytes_of 4 (jal_word zero 0)) (push_jump ?l False
        (append_code (bytes_of 4 (branch_word oc (BranchArgs.src1 args) (BranchArgs.src2 args) 0))
          (push_jump ?bl False (?a\<lparr>arena_labels := ?k + 2\<rparr>))))"
    using size small by (simp add: r2'_def conditional_label_append Jal_label_append)
  have f2': "addresses r2' = addresses r" "state r2' = state r" "returned r2' = returned r"
    "logger r2' = logger r"
    by (simp_all add: r2'_def)
  define r3 where "r3 = r2'\<lparr>assembler := (assembler r2')
      \<lparr>position := (position ?a)(?bl := of_nat (?n + 8))\<rparr>\<rparr>"
  have f3: "assembler r3 = (assembler r2')\<lparr>position := (position ?a)(?bl := of_nat (?n + 8))\<rparr>"
    "addresses r3 = addresses r" "state r3 = state r" "returned r3 = returned r" "logger r3 = logger r"
    by (simp_all add: r3_def f2')
  have 1: "emit_Bind ?bl r2' = Inr r3"
    unfolding r3_def using size by (subst emit_Bind_unbound) (simp_all add: a2' unbound add.commute)
  define r4 where "r4 = (JumpAddress ?x r3)\<lparr>assembler := (assembler (JumpAddress ?x r3))
      \<lparr>position := (position ?a)(?bl := of_nat (?n + 8), ?l := of_nat (?n + 20))\<rparr>\<rparr>"
  have size3: "code_size (assembler r3) = ?n + 8" by (simp add: r3_def a2' size)
  then have a3: "assembler (JumpAddress ?x r3) =
      append_code (jump_bytes zero 0) (push_jump (AddressLabel ?x) False (assembler r3))"
    using small by (intro JumpAddress_assembler) simp
  have pos4: "position (assembler (JumpAddress ?x r3)) = (position ?a)(?bl := of_nat (?n + 8))"
    by (simp only: a3 append_code_simps push_jump_simps) (simp add: r3_def)
  have size4: "code_size (assembler (JumpAddress ?x r3)) = ?n + 20"
    by (simp add: a3 size3)
  have 2: "emit_Bind ?l (JumpAddress ?x r3) = Inr r4"
    unfolding r4_def by (subst emit_Bind_unbound) (simp_all add: pos4 size4 unbound)
  show thesis
  proof (rule that)
    show "CompareAndBranch args r = Inr (SetNewState kRelocated r4)"
      using 1 2 by (simp add: r2'_def CompareAndBranch_def branch_instruction_eq oc case_prod_beta Let_def)
    have "jumps_match (position ?a) 0 bs (jumps ?a)" using em by (simp add: emitted_def)
    moreover have "position (assembler r4) l = position ?a l" if "position ?a l \<noteq> kInvalid" for l
      using that unbound [of ?k] unbound [of "?k + 1"] by (auto simp: r4_def)
    moreover have "0 + blocks_size bs < 2 ^ 32 - 1" using small by simp
    ultimately have "jumps_match (position (assembler r4)) 0 bs (jumps ?a)"
      by (rule jumps_match_mono)
    moreover have "block_jumps (position (assembler r4)) ?n ?b
        [jump_at ?bl ?n, jump_at ?l (?n + 4), jump_at (AddressLabel ?x) (?n + 8)]"
      using branch_opcode_bits [OF oc] by (simp add: r4_def)
    ultimately have "jumps_match (position (assembler r4)) 0 (bs @ [?b])
        (jumps ?a @ [jump_at ?bl ?n, jump_at ?l (?n + 4), jump_at (AddressLabel ?x) (?n + 8)])"
      by (intro jumps_match_append) simp_all
    then show "emitted (bs @ [?b]) (SetNewState kRelocated r4)"
      using em size size3
      by (simp add: emitted_def r4_def a3 f3 a2' asm_pc_size unbound_labels_def
          address_table_snoc code_size_def jump_bytes_def)
    show "state r = kNone \<Longrightarrow> state (SetNewState kRelocated r4) = kRelocated"
      "returned (SetNewState kRelocated r4) = returned r"
      "logger (SetNewState kRelocated r4) = logger r"
      by (simp_all add: r4_def f3)
  qed
qed

subsection \<open>Copied instructions\<close>

lemma bytes_of_word_of_bytes:
  assumes "8 * length bs \<le> LENGTH('a)"
  shows "bytes_of (length bs) (word_of_bytes bs :: 'a::len word) = bs"
proof (rule nth_equalityI)
  fix i
  assume "i < length (bytes_of (length bs) (word_of_bytes bs :: 'a word))"
  then have i: "i < length bs" by simp
  show "bytes_of (length bs) (word_of_bytes bs :: 'a word) ! i = bs ! i"
  proof (rule bit_word_eqI)
    fix n :: nat
    assume n: "n < LENGTH(8)"
    then have "(8 * i + n) div 8 = i" "(8 * i + n) mod 8 = n" by simp_all
    with i n assms show "bit (bytes_of (length bs) (word_of_bytes bs :: 'a word) ! i) n \<longleftrightarrow> bit (bs ! i) n"
      by (auto simp: bit_simps bit_word_of_bytes)
  qed
qed simp

lemma bytes_of_load16: "bytes_of 2 (load16 mem a) = read_bytes mem a 2"
  using bytes_of_word_of_bytes [of "read_bytes mem a 2", where 'a = 16] by (simp add: load16_def)

lemma read_bytes_4: "read_bytes mem a 2 @ read_bytes mem (a + 2) 2 = read_bytes mem a 4"
  by (simp add: read_bytes_def eval_nat_numeral upt_rec add.assoc)

lemma copy_instruction_append:
  assumes "code_size a + 2 < 2 ^ 32" and "count = 2 \<or> count = 4"
  shows "copy_instruction mem address count a = append_code (read_bytes mem address count) a"
  using assms
  by (auto simp: copy_instruction_def Emit_append bytes_of_load16 append_code_append read_bytes_4)

lemma emitted_copy:
  assumes "emitted bs r" and "blocks_size bs + 20 < 2 ^ 32 - 1" and "count = 2 \<or> count = 4"
  shows "emitted (bs @ [Verbatim (read_bytes mem a count)]) (emit (copy_instruction mem a count) r)"
proof (rule emitted_append [where a = "assembler r" and js = "[]"])
  show "assembler (emit (copy_instruction mem a count) r) =
      append_code (block_template (Verbatim (read_bytes mem a count))) (assembler r)"
    using assms by (simp add: copy_instruction_append emitted_size)
  show "addresses (emit (copy_instruction mem a count) r) =
      address_table (bs @ [Verbatim (read_bytes mem a count)])"
    using assms by (simp add: emitted_def address_table_snoc)
  show "arena_labels (assembler r) \<le> arena_labels (assembler r)" by (rule order_refl)
qed (use assms in simp_all)

subsection \<open>One call of the decoder\<close>

lemma Skip_state: "state r = kNone \<Longrightarrow> state (Skip r) = kSkipped"
  by (simp add: Skip_def)

text \<open>
  What a call leaves behind: a block emitted and the state \<open>kRelocated\<close>, or nothing emitted and the
  state \<open>kSkipped\<close> when the instruction is to be copied.
\<close>

definition after_call :: "block list \<Rightarrow> u8 list \<Rightarrow> block \<Rightarrow> RV64Relocator \<Rightarrow> bool" where
  "after_call bs bytes b r \<longleftrightarrow>
     (state r = kSkipped \<and> b = Verbatim bytes \<and> emitted bs r) \<or>
     (state r = kRelocated \<and> emitted (bs @ [b]) r)"

lemma emitted_skip:
  assumes "emitted bs r" and "state r = kNone"
  shows "after_call bs bytes (Verbatim bytes) (Skip r)"
  using assms by (simp add: after_call_def Skip_def)

lemma emitted_returned: "emitted bs (r\<lparr>returned := ret\<rparr>) = emitted bs r"
  by (simp add: emitted_def)

lemma emitted_new_labels:
  "emitted bs r \<Longrightarrow> emitted bs (snd (emit_MakeLabel r))"
  by (auto simp: emitted_def unbound_labels_def)

lemma consume_call_block:
  assumes em: "emitted bs r" and st: "state r = kNone" and pc: "reloc_pc r = a"
    and small: "blocks_size bs + 20 < 2 ^ 32 - 1"
    and b: "block_of_call a bytes (returned r) c = Some b"
  obtains r' where "consume_call c r = Inr r'" and "after_call bs bytes b r'"
    and "returned r' = returns_after (returned r) c" and "logger r' = logger r"
proof (cases "\<exists>args. c = consumer_call.CompareAndBranch args")
  case True
  then obtain args where c: "c = consumer_call.CompareAndBranch args" ..
  show thesis
  proof (cases "branch_opcode (BranchArgs.opcode args)")
    case None
    with b c have ret: "returned r" and b': "b = Verbatim bytes"
      by (auto simp: block_of_call_def split: if_splits)
    let ?r2 = "snd (emit_MakeLabel (snd (emit_MakeLabel r)))"
    have "consume_call c r = Inr (Skip ?r2)"
      using None ret
      by (simp add: c consume_call_def CompareAndBranch_def branch_instruction_eq case_prod_beta
          Let_def Undefined_def)
    moreover have "after_call bs bytes b (Skip ?r2)"
      unfolding b' using em st by (intro emitted_skip emitted_new_labels) simp_all
    ultimately show thesis using that by (simp add: c returns_after_def Skip_def)
  next
    case (Some oc)
    with b c pc have b': "b = BranchAbs oc (BranchArgs.src1 args) (BranchArgs.src2 args)
        (GetPC r + scast (BranchArgs.offset args))"
      by (simp add: block_of_call_def GetPC_def)
    from CompareAndBranch_emitted [OF em small Some] obtain r' where
      "CompareAndBranch args r = Inr r'" "emitted (bs @ [b]) r'" "state r' = kRelocated"
      "returned r' = returned r" "logger r' = logger r"
      unfolding b' using st by blast
    then show thesis using that by (simp add: c consume_call_def after_call_def returns_after_def)
  qed
next
  case False
  then show thesis
  proof (cases c)
    case (Auipc args)
    with b have b': "b = LoadAbs (UpperImmArgs.dst args) (a + scast (UpperImmArgs.imm args))"
      by (simp add: block_of_call_def)
    show thesis
      using that [of "Auipc args r"] st pc emitted_LoadAddress [OF em small]
      by (simp add: \<open>c = _\<close> b' consume_call_def Auipc_def after_call_def returns_after_def GetPC_def)
  next
    case (JumpAndLink args)
    with b have b': "b = CallAbs (JumpAndLinkArgs.dst args) (a + scast (JumpAndLinkArgs.offset args))"
      by (simp add: block_of_call_def)
    show thesis
      using that [of "JumpAndLink args r"] st pc emitted_call [OF em small]
      by (simp add: \<open>c = _\<close> b' consume_call_def JumpAndLink_def after_call_def returns_after_def
          GetPC_def)
  next
    case (JumpAndLinkRegister args)
    with b have b': "b = Verbatim bytes" by (simp add: block_of_call_def)
    show thesis
      using that [of "JumpAndLinkRegister args r"] st em
        emitted_skip [of bs r bytes] emitted_skip [of bs "r\<lparr>returned := True\<rparr>" bytes]
      by (cases "is_return args")
        (auto simp: \<open>c = _\<close> b' consume_call_def JumpAndLinkRegister_def returns_after_def
          is_return_def emitted_returned Skip_def split: if_splits)
  next
    case Undefined
    with b have ret: "returned r" and b': "b = Verbatim bytes"
      by (auto simp: block_of_call_def split: if_splits)
    show thesis
      using that [of "Skip r"] st em ret emitted_skip [of bs r bytes]
      by (simp add: \<open>c = _\<close> b' consume_call_def Undefined_def returns_after_def Skip_def)
  qed (use that [of "Skip r"] emitted_skip [OF em st, of bytes] b in
      \<open>simp_all add: consume_call_def block_of_call_def returns_after_def Skip_def\<close>)
qed

subsection \<open>One turn of the loop\<close>

lemma GetState_simps [simp]:
  "fst (GetState r) = state r"
  "state (snd (GetState r)) = kNone"
  "assembler (snd (GetState r)) = assembler r"
  "addresses (snd (GetState r)) = addresses r"
  "returned (snd (GetState r)) = returned r"
  "logger (snd (GetState r)) = logger r"
  "emitted bs (snd (GetState r)) = emitted bs r"
  by (simp_all add: GetState_def emitted_def)

lemma RelocateStep_block:
  assumes em: "emitted bs r" and st: "state r = kNone" and small: "blocks_size bs + 20 < 2 ^ 32 - 1"
    and b: "block_at mem a (returned r) = Some (b, ret)"
  obtains r' where "RelocateStep mem a r = Inr (r', Some (GetInsnSize mem a))"
    and "emitted (bs @ [b]) r'" and "state r' = kNone" and "returned r' = ret"
    and "logger r' = logger r"
proof -
  let ?count = "GetInsnSize mem a" let ?r = "SetPC a r"
  have count: "snd (Decode mem a) = ?count" "?count = 2 \<or> ?count = 4"
    by (simp_all add: snd_Decode GetInsnSize_cases)
  from b obtain c where calls: "fst (Decode mem a) = [c]"
    and c: "block_of_call a (read_bytes mem a ?count) (returned r) c = Some b"
    and ret: "ret = returns_after (returned r) c"
    using count(1) by (cases "Decode mem a") (auto simp: block_at_def split: list.splits)
  have em': "emitted bs ?r" using em by (simp add: emitted_def)
  obtain r1 where r1: "consume_call c ?r = Inr r1" "after_call bs (read_bytes mem a ?count) b r1"
    "returned r1 = ret" "logger r1 = logger r"
  proof (rule consume_call_block [OF em' _ _ small])
    show "block_of_call a (read_bytes mem a ?count) (returned ?r) c = Some b" using c by simp
  qed (use st ret in simp_all)
  let ?r2 = "snd (GetState r1)"
  have step: "RelocateStep mem a r =
      (if state r1 = kSkipped then Inr (emit (copy_instruction mem a ?count) ?r2, Some ?count)
       else if state r1 \<noteq> kRelocated then Inr (?r2, None) else Inr (?r2, Some ?count))"
    using r1(1) by (simp add: RelocateStep_def case_prod_beta calls count(1) Let_def)
  from r1(2) consider "state r1 = kSkipped" "b = Verbatim (read_bytes mem a ?count)" "emitted bs r1"
    | "state r1 = kRelocated" "emitted (bs @ [b]) r1"
    by (auto simp: after_call_def)
  then show thesis
  proof cases
    case 1
    then show thesis
      using that step r1 emitted_copy [of bs ?r2, OF _ small count(2)] by simp
  next
    case 2
    then show thesis using that step r1 by (simp add: relocator_states)
  qed
qed

lemma RelocateStep_fails:
  assumes st: "state r = kNone" and b: "block_at mem a (returned r) = None"
  obtains r' where "RelocateStep mem a r = Inr (r', None)"
proof -
  let ?r = "SetPC a r"
  have step: "RelocateStep mem a r =
      bnd (consume (fst (Decode mem a)) ?r) (\<lambda>r1.
        if state r1 = kSkipped
        then Inr (emit (copy_instruction mem a (snd (Decode mem a))) (snd (GetState r1)),
               Some (snd (Decode mem a)))
        else if state r1 \<noteq> kRelocated then Inr (snd (GetState r1), None)
        else Inr (snd (GetState r1), Some (snd (Decode mem a))))"
    by (simp add: RelocateStep_def case_prod_beta Let_def cong: if_cong)
  show thesis
  proof (cases rule: Decode_cases [of mem a])
    case none
    with that step st show thesis by (simp add: relocator_states)
  next
    case (nop args)
    with that step st show thesis
      by (simp add: consume_call_def Skip_def SetNewState_def relocator_states)
  next
    case (one c)
    have c: "block_of_call a (read_bytes mem a (snd (Decode mem a))) (returned r) c = None"
      using b one by (cases "Decode mem a") (auto simp: block_at_def)
    show thesis
    proof (cases "\<exists>args. c = consumer_call.CompareAndBranch args")
      case True
      with that step c one st show thesis
        by (auto simp: block_of_call_def consume_call_def CompareAndBranch_def branch_instruction_eq
            case_prod_beta Undefined_def relocator_states SetNewState_def Let_def
            split: option.splits if_splits)
    next
      case False
      then have "c = consumer_call.Undefined \<and> \<not> returned r"
        using c by (cases c) (auto simp: block_of_call_def split: if_splits)
      with that step one st show thesis
        by (simp add: consume_call_def Undefined_def SetNewState_def relocator_states)
    qed
  qed
qed

section \<open>The loop\<close>

lemma block_size_at:
  assumes "block_at mem a ret = Some (b, ret')"
  shows "block_size b \<le> 20"
proof -
  have "snd (Decode mem a) \<le> 4" using GetInsnSize_cases [of mem a] by (auto simp: snd_Decode)
  with assms show ?thesis
    by (cases "Decode mem a")
      (auto simp: block_at_def block_of_call_def split: list.splits consumer_call.splits
        option.splits if_splits)
qed

text \<open>
  Every two bytes of the prologue make at most 20 bytes of code, so \<open>10 * (n + 1)\<close> bytes bound the
  code of a prologue of \<open>n\<close> bytes, whose last instruction may reach beyond it.
\<close>

definition code_bound :: "int \<Rightarrow> nat" where
  "code_bound n = 10 * nat (n + 1)"

lemma code_bound_step:
  "n > 0 \<Longrightarrow> count = 2 \<or> count = 4 \<Longrightarrow> 20 + code_bound (n - int count) \<le> code_bound n"
  by (auto simp: code_bound_def)

lemma RelocateLoop_blocks:
  assumes "emitted bs0 r" and "state r = kNone" and "returned r = ret"
    and "blocks_size bs0 + code_bound n + 40 < 2 ^ 32 - 1"
  shows "case prologue_blocks mem a n ret of
      None \<Rightarrow> \<exists>r'. RelocateLoop mem a n k r = Inr (r', None)
    | Some (bs, tot) \<Rightarrow>
        \<exists>r'. RelocateLoop mem a n k r = Inr (r', Some (a + of_nat tot, k + tot)) \<and>
          emitted (bs0 @ bs) r' \<and> logger r' = logger r \<and> blocks_size bs \<le> code_bound n"
  using assms
proof (induction mem a n ret arbitrary: bs0 r k rule: prologue_blocks.induct)
  case (1 mem a n ret)
  show ?case
  proof (cases "n > 0")
    case False
    then show ?thesis using "1.prems"
      by (simp add: prologue_blocks.simps [of mem a n ret] RelocateLoop.simps [of mem a n k r])
  next
    case True
    let ?count = "GetInsnSize mem a"
    have bound: "20 + code_bound (n - int ?count) \<le> code_bound n"
      using True GetInsnSize_cases by (rule code_bound_step)
    show ?thesis
    proof (cases "block_at mem a ret")
      case None
      from RelocateStep_fails [OF "1.prems"(2), of mem a] None "1.prems"(3)
      obtain r' where "RelocateStep mem a r = Inr (r', None)" by blast
      with True None show ?thesis
        by (simp add: prologue_blocks.simps [of mem a n ret] RelocateLoop.simps [of mem a n k r])
    next
      case (Some br)
      then obtain b ret' where b: "block_at mem a ret = Some (b, ret')" by (cases br) auto
      have small: "blocks_size bs0 + 20 < 2 ^ 32 - 1" using "1.prems"(4) by simp
      obtain r' where r': "RelocateStep mem a r = Inr (r', Some ?count)" "emitted (bs0 @ [b]) r'"
        "state r' = kNone" "returned r' = ret'" "logger r' = logger r"
      proof (rule RelocateStep_block [OF "1.prems"(1,2) small])
        show "block_at mem a (returned r) = Some (b, ret')" using b "1.prems"(3) by simp
      qed
      have sz: "blocks_size (bs0 @ [b]) + code_bound (n - int ?count) + 40 < 2 ^ 32 - 1"
        using "1.prems"(4) bound block_size_at [OF b] by simp
      note IH = "1.IH" [OF True b refl refl r'(2-4) sz, of "k + ?count"]
      show ?thesis
      proof (cases "prologue_blocks mem (a + of_nat ?count) (n - int ?count) ret'")
        case None
        with IH True b r' show ?thesis
          by (auto simp: prologue_blocks.simps [of mem a n ret] RelocateLoop.simps [of mem a n k r])
      next
        case (Some res)
        then obtain bs tot where
          res: "prologue_blocks mem (a + of_nat ?count) (n - int ?count) ret' = Some (bs, tot)"
          by (cases res) auto
        with IH obtain r'' where "RelocateLoop mem (a + of_nat ?count) (n - int ?count) (k + ?count) r' =
              Inr (r'', Some (a + of_nat ?count + of_nat tot, k + ?count + tot))"
          "emitted (bs0 @ b # bs) r''" "logger r'' = logger r'"
          "blocks_size bs \<le> code_bound (n - int ?count)" by auto
        with True b res r' bound block_size_at [OF b] show ?thesis
          by (simp add: prologue_blocks.simps [of mem a n ret] RelocateLoop.simps [of mem a n k r]
              add.assoc)
      qed
    qed
  qed
qed

section \<open>The table of addresses\<close>

lemma table_slot_Cons:
  "table_slot n (y # ys) x = (if x = y then of_nat n else table_slot (n + 8) ys x)"
  by (auto simp: table_slot_def)

lemma bind_and_emit_table:
  assumes "distinct xs" and "\<And>x. x \<in> set xs \<Longrightarrow> position a (AddressLabel x) = kInvalid"
    and "code_size a + 8 * length xs < 2 ^ 32 - 1"
  obtains a' where "bind_and_emit xs a = Inr a'"
    and "mcode a' = (mcode a)\<lparr>code_bytes := code_bytes (mcode a) @ concat (map (bytes_of 8) xs)\<rparr>"
    and "jumps a' = jumps a"
    and "\<And>k. position a' (ArenaLabel k) = position a (ArenaLabel k)"
    and "\<And>x. position a' (AddressLabel x) =
      (if x \<in> set xs then table_slot (code_size a) xs x else position a (AddressLabel x))"
  using assms
proof (induction xs arbitrary: a thesis)
  case Nil
  show ?case by (rule Nil.prems(1) [of a]) simp_all
next
  case (Cons y ys)
  let ?a0 = "a\<lparr>position := (position a)(AddressLabel y := of_nat (code_size a))\<rparr>"
  let ?a1 = "append_code (bytes_of 8 y) ?a0"
  have size0: "code_size ?a0 = code_size a" by (simp add: code_size_def)
  have step: "bind_and_emit (y # ys) a = bind_and_emit ys ?a1"
    using Cons.prems(3) [of y] Cons.prems(4) size0
    by (simp add: Bind_def IsBound_def asm_pc_size Emit_append)
  have "distinct ys" using Cons.prems(2) by simp
  moreover have "position ?a1 (AddressLabel x) = kInvalid" if "x \<in> set ys" for x
    using that Cons.prems(2) Cons.prems(3) [of x] by auto
  moreover have "code_size ?a1 + 8 * length ys < 2 ^ 32 - 1"
    using Cons.prems(4) size0 by simp
  ultimately obtain a' where a': "bind_and_emit ys ?a1 = Inr a'"
    "mcode a' = (mcode ?a1)\<lparr>code_bytes := code_bytes (mcode ?a1) @ concat (map (bytes_of 8) ys)\<rparr>"
    "jumps a' = jumps ?a1" "\<And>k. position a' (ArenaLabel k) = position ?a1 (ArenaLabel k)"
    "\<And>x. position a' (AddressLabel x) =
      (if x \<in> set ys then table_slot (code_size ?a1) ys x else position ?a1 (AddressLabel x))"
    using Cons.IH [of ?a1] by blast
  show ?case
  proof (rule Cons.prems(1) [of a'])
    show "bind_and_emit (y # ys) a = Inr a'" using step a'(1) by simp
    show "mcode a' = (mcode a)\<lparr>code_bytes := code_bytes (mcode a) @ concat (map (bytes_of 8) (y # ys))\<rparr>"
      using a'(2) by (simp add: append_code_def)
    show "jumps a' = jumps a" using a'(3) by simp
    show "position a' (ArenaLabel k) = position a (ArenaLabel k)" for k using a'(4) by simp
    show "position a' (AddressLabel x) =
        (if x \<in> set (y # ys) then table_slot (code_size a) (y # ys) x
         else position a (AddressLabel x))" for x
      using a'(5) [of x] Cons.prems(2) size0 by (auto simp: table_slot_Cons)
  qed
qed

section \<open>The relocated code\<close>

lemma blocks_code_cong:
  "(\<And>x. x \<in> set (blocks_addresses bs) \<Longrightarrow> slot x = slot' x) \<Longrightarrow>
   blocks_code slot p bs = blocks_code slot' p bs"
proof (induction bs arbitrary: p)
  case (Cons b bs)
  then have "block_code slot p b = block_code slot' p b" by (cases b) auto
  with Cons show ?case by simp
qed simp

lemma addresses_bound: "8 * length (blocks_addresses bs) \<le> blocks_size bs"
proof (induction bs)
  case (Cons b bs)
  moreover have "8 * length (block_addresses b) \<le> block_size b" by (cases b) auto
  ultimately show ?case by simp
qed simp

lemma table_bound: "8 * length (address_table bs) \<le> blocks_size bs"
proof -
  have "length (address_table bs) \<le> length (blocks_addresses bs)"
    by (simp add: address_table_def length_remdups_leq)
  with addresses_bound [of bs] show ?thesis by simp
qed

lemma emitted_new: "emitted [] (new_relocator l)"
  by (simp add: emitted_def new_relocator_def new_assembler_def unbound_labels_def)

lemma finish_layout:
  assumes em: "emitted bs r" and small: "2 * blocks_size bs < 2 ^ 32 - 1"
  obtains r1 a where "EmitAddresses r = Inr r1" and "Finalize (assembler r1) = Inr a"
    and "mcode a = \<lparr>code_bytes = layout bs, relocations = []\<rparr>" and "logger r1 = logger r"
proof -
  let ?a = "assembler r" let ?table = "address_table bs"
  have size: "code_size ?a = blocks_size bs" using em by (rule emitted_size)
  have d: "distinct ?table" by simp
  have u: "position ?a (AddressLabel x) = kInvalid" for x
    using em by (simp add: emitted_def unbound_labels_def)
  have s: "code_size ?a + 8 * length ?table < 2 ^ 32 - 1"
    using small size table_bound [of bs] by simp
  obtain a' where a': "bind_and_emit ?table ?a = Inr a'"
    "mcode a' = (mcode ?a)\<lparr>code_bytes := code_bytes (mcode ?a) @ concat (map (bytes_of 8) ?table)\<rparr>"
    "jumps a' = jumps ?a" "\<And>k. position a' (ArenaLabel k) = position ?a (ArenaLabel k)"
    "\<And>x. position a' (AddressLabel x) =
      (if x \<in> set ?table then table_slot (code_size ?a) ?table x else position ?a (AddressLabel x))"
    using bind_and_emit_table [OF d u s] by blast
  have "jumps_match (position ?a) 0 bs (jumps ?a)" using em by (simp add: emitted_def)
  moreover have "position a' l = position ?a l" if "position ?a l \<noteq> kInvalid" for l
    using that u a'(4) by (cases l) auto
  moreover have "0 + blocks_size bs < 2 ^ 32 - 1" using small by simp
  ultimately have jm: "jumps_match (position a') 0 bs (jumps a')"
    unfolding a'(3) by (rule jumps_match_mono)
  have bound: "IsBound (AddressLabel x) a'" if "x \<in> set (blocks_addresses bs)" for x
  proof -
    have "length (takeWhile (\<lambda>y. y \<noteq> x) ?table) \<le> length ?table" by (rule length_takeWhile_le)
    then have "table_slot (code_size ?a) ?table x \<noteq> kInvalid"
      unfolding table_slot_def using s by (intro of_nat_neq_kInvalid) simp
    with that show ?thesis by (simp add: IsBound_def a'(5))
  qed
  have code: "code_bytes (mcode a') = [] @ blocks_template bs @ concat (map (bytes_of 8) ?table)"
    using em by (simp add: a'(2) emitted_def)
  have "resolve_each (jumps a') a' =
      Inr (with_code ([] @ blocks_code (slots a') 0 bs @ concat (map (bytes_of 8) ?table)) a')"
    using small by (intro resolve_blocks [OF jm code _ _ bound]) simp_all
  moreover have "blocks_code (slots a') 0 bs = blocks_code (table_slot (blocks_size bs) ?table) 0 bs"
    by (intro blocks_code_cong) (simp add: a'(5) size)
  ultimately have fin: "Finalize a' = Inr (with_code (layout bs) a')"
    by (simp add: Finalize_def ResolveJumps_def layout_def Let_def)
  have em_addr: "EmitAddresses r = Inr (r\<lparr>assembler := a'\<rparr>)"
    using em a'(1) by (simp add: EmitAddresses_def emitted_def)
  show thesis
  proof (rule that [OF em_addr])
    show "Finalize (assembler (r\<lparr>assembler := a'\<rparr>)) = Inr (with_code (layout bs) a')"
      using fin by simp
    show "mcode (with_code (layout bs) a') = \<lparr>code_bytes = layout bs, relocations = []\<rparr>"
      using em by (simp add: with_code_def a'(2) emitted_def)
  qed simp
qed

lemma RelocatePrologue_blocks:
  assumes "n \<le> 2 ^ 27"
  shows "case relocated_blocks mem a n of
      None \<Rightarrow> \<exists>l'. RelocatePrologue mem a n l = Inr (l', None)
    | Some (bs, tot) \<Rightarrow>
        RelocatePrologue mem a n l = Inr (l, Some (\<lparr>code_bytes = layout bs, relocations = []\<rparr>, tot))"
proof -
  have bound: "code_bound n \<le> 10 * (2 ^ 27 + 1)" using assms by (simp add: code_bound_def)
  have small: "blocks_size [] + code_bound n + 40 < 2 ^ 32 - 1" using bound by simp
  note loop = RelocateLoop_blocks [OF emitted_new _ _ small, of l False mem a 0]
  show ?thesis
  proof (cases "prologue_blocks mem a n False")
    case None
    with loop show ?thesis
      by (auto simp: new_relocator_def relocated_blocks_def RelocatePrologue_def)
  next
    case (Some res)
    then obtain bs tot where res: "prologue_blocks mem a n False = Some (bs, tot)" by (cases res) auto
    with loop obtain r where r: "RelocateLoop mem a n 0 (new_relocator l) = Inr (r, Some (a + of_nat tot, tot))"
      "emitted bs r" "logger r = l" "blocks_size bs \<le> code_bound n"
      by (auto simp: new_relocator_def)
    let ?bs = "bs @ [CallAbs zero (a + of_nat tot)]"
    have em: "emitted ?bs (JumpAddress (a + of_nat tot) r)"
      using r(2) by (rule emitted_JumpAddress) (use r(4) bound in simp)
    have "2 * blocks_size ?bs < 2 ^ 32 - 1" using r(4) bound by simp
    from finish_layout [OF em this] obtain r1 a1 where
      "EmitAddresses (JumpAddress (a + of_nat tot) r) = Inr r1" "Finalize (assembler r1) = Inr a1"
      "mcode a1 = \<lparr>code_bytes = layout ?bs, relocations = []\<rparr>" "logger r1 = l"
      using r(3) by auto
    with r(1) res show ?thesis by (simp add: RelocatePrologue_def relocated_blocks_def)
  qed
qed

end
