(* ===== verification/Decoder_Immediates.thy ===== *)
theory Decoder_Immediates
  imports Decoder_Compressed
begin

text \<open>
  What the tables and shifts of the compressed decoders compute. The RISC-V manual gives the
  immediate of a compressed instruction as a permutation of instruction bits; \<open>scatter\<close> builds
  the immediate from such a permutation, and each decoder is shown to report exactly that one.
\<close>

section \<open>Bit permutations\<close>

text \<open>A pair \<open>(i, j)\<close> sends bit \<open>i\<close> of the instruction to bit \<open>j\<close> of the immediate.\<close>

definition scatter :: "(nat \<times> nat) list \<Rightarrow> 'a::len word \<Rightarrow> 'b::len word" where
  "scatter ps w = foldr (\<lambda>(i, j) v. if bit w i then v OR push_bit j 1 else v) ps 0"

lemma scatter_simps:
  "scatter [] w = 0"
  "scatter ((i, j) # ps) w = (if bit w i then scatter ps w OR push_bit j 1 else scatter ps w)"
  by (simp_all add: scatter_def)

lemma bit_scatter [word_fields]:
  "bit (scatter ps w :: 'b::len word) n \<longleftrightarrow>
   n < LENGTH('b) \<and> list_ex (\<lambda>(i, j). j = n \<and> bit w i) ps"
  by (induction ps) (auto simp: scatter_simps bit_simps split: if_splits)

text \<open>A table that agrees with a permutation at every index is that permutation.\<close>

lemma table_lookup:
  assumes "list_all (\<lambda>i. table ! i = scatter ps (of_nat i :: u32)) [0..<2 ^ len]"
    and "start + len \<le> 32" and "0 < len"
  shows "table ! unat (GetBits start len code) = scatter ps (GetBits start len code)"
proof -
  have "unat (GetBits start len code) \<in> set [0..<2 ^ len]"
    using GetBits_less [OF assms(2,3)] by simp
  with assms(1) show ?thesis by (auto simp: list_all_iff)
qed

lemma table_checks:
  "list_all (\<lambda>i. kAddi16spLow ! i = scatter [(0, 3), (1, 5), (2, 6), (3, 4), (4, 2)] (of_nat i :: u32))
     [0..<2 ^ 5]"
  "list_all (\<lambda>i. kAddi4spnHigh ! i = scatter [(0, 6), (1, 7), (2, 2), (3, 3)] (of_nat i :: u32))
     [0..<2 ^ 4]"
  "list_all (\<lambda>i. kAddi4spnLow ! i = scatter [(0, 1), (1, 0), (2, 4), (3, 5)] (of_nat i :: u32))
     [0..<2 ^ 4]"
  "list_all (\<lambda>i. kLwLow ! i = scatter [(0, 6), (1, 2)] (of_nat i :: u32)) [0..<2 ^ 2]"
  "list_all (\<lambda>i. k32bitLow ! i = scatter [(0, 4), (1, 5), (2, 0), (3, 1), (4, 2)] (of_nat i :: u32))
     [0..<2 ^ 5]"
  "list_all (\<lambda>i. k64bitLow ! i = scatter [(0, 4), (1, 5), (2, 6), (3, 1), (4, 2)] (of_nat i :: u32))
     [0..<2 ^ 5]"
  "list_all (\<lambda>i. Storesp_k32bit ! i =
       scatter [(0, 4), (1, 5), (2, 0), (3, 1), (4, 2), (5, 3)] (of_nat i :: u32)) [0..<2 ^ 6]"
  "list_all (\<lambda>i. Storesp_k64bit ! i =
       scatter [(0, 4), (1, 5), (2, 6), (3, 1), (4, 2), (5, 3)] (of_nat i :: u32)) [0..<2 ^ 6]"
  "list_all (\<lambda>i. kBHigh ! i = scatter [(0, 3), (1, 4), (2, 8)] (of_nat i :: u32)) [0..<2 ^ 3]"
  "list_all (\<lambda>i. kBLow ! i = scatter [(0, 5), (1, 1), (2, 2), (3, 6), (4, 7)] (of_nat i :: u32))
     [0..<2 ^ 5]"
  "list_all (\<lambda>i. kJHigh ! i =
       scatter [(0, 10), (1, 8), (2, 9), (3, 4), (4, 11), (4, 12), (4, 13), (4, 14), (4, 15)]
         (of_nat i :: u32)) [0..<2 ^ 5]"
  "list_all (\<lambda>i. kJLow ! i =
       scatter [(0, 5), (1, 1), (2, 2), (3, 3), (4, 7), (5, 6)] (of_nat i :: u32)) [0..<2 ^ 6]"
  by code_simp+

lemmas table_permutations = table_checks [THEN table_lookup]

section \<open>The immediates of the decoded instructions\<close>

lemmas immediate_bits = table_permutations bit_simps word_fields bit_0
  numeral_2_eq_2 [symmetric]

lemma add_disjoint:
  assumes "\<And>n. n < 32 \<Longrightarrow> bit v n \<Longrightarrow> \<not> bit w n"
  shows "v + w = (v OR w :: u32)"
proof (rule disjunctive_add_eq_or)
  show "v AND w = 0" using assms by (auto intro!: bit_word_eqI simp: bit_simps)
qed

lemma J_offset:
  "scast (kJHigh ! unat (GetBits 8 5 code)) OR ucast (kJLow ! unat (GetBits 2 6 code)) =
   SignExtend 12 (scatter [(12, 11), (11, 4), (10, 9), (9, 8), (8, 10), (7, 6), (6, 7), (5, 3),
     (4, 2), (3, 1), (2, 5)] code :: u32)"
  by (rule word32_eqI) (simp add: immediate_bits)

lemma B_sum:
  "ucast (kBHigh ! unat (GetBits 10 3 code)) + ucast (kBLow ! unat (GetBits 2 5 code)) =
   (scatter [(12, 8), (11, 4), (10, 3), (6, 7), (5, 6), (4, 2), (3, 1), (2, 5)] code :: u32)"
proof -
  have "ucast (kBHigh ! unat (GetBits 10 3 code)) + ucast (kBLow ! unat (GetBits 2 5 code)) =
    (ucast (kBHigh ! unat (GetBits 10 3 code)) OR ucast (kBLow ! unat (GetBits 2 5 code)) :: u32)"
    by (rule add_disjoint) (auto simp: immediate_bits)
  also have "\<dots> = scatter [(12, 8), (11, 4), (10, 3), (6, 7), (5, 6), (4, 2), (3, 1), (2, 5)] code"
    by (rule word32_eqI) (simp add: immediate_bits)
  finally show ?thesis .
qed

lemma Lui_sum:
  "push_bit 17 (GetBits 12 1 code) + push_bit 12 (GetBits 2 5 code) =
   (scatter [(12, 17), (6, 16), (5, 15), (4, 14), (3, 13), (2, 12)] code :: u32)"
proof -
  have "push_bit 17 (GetBits 12 1 code) + push_bit 12 (GetBits 2 5 code) =
    (push_bit 17 (GetBits 12 1 code) OR push_bit 12 (GetBits 2 5 code) :: u32)"
    by (rule add_disjoint) (auto simp: immediate_bits)
  also have "\<dots> = scatter [(12, 17), (6, 16), (5, 15), (4, 14), (3, 13), (2, 12)] code"
    by (rule word32_eqI) (simp add: immediate_bits)
  finally show ?thesis .
qed

lemma Addi16sp_sum:
  "push_bit 9 (GetBits 12 1 code) + push_bit 2 (ucast (kAddi16spLow ! unat (GetBits 2 5 code))) =
   (scatter [(12, 9), (6, 4), (5, 6), (4, 8), (3, 7), (2, 5)] code :: u32)"
proof -
  have "push_bit 9 (GetBits 12 1 code) + push_bit 2 (ucast (kAddi16spLow ! unat (GetBits 2 5 code))) =
    (push_bit 9 (GetBits 12 1 code) OR
     push_bit 2 (ucast (kAddi16spLow ! unat (GetBits 2 5 code))) :: u32)"
    by (rule add_disjoint) (auto simp: immediate_bits)
  also have "\<dots> = scatter [(12, 9), (6, 4), (5, 6), (4, 8), (3, 7), (2, 5)] code"
    by (rule word32_eqI) (simp add: immediate_bits)
  finally show ?thesis .
qed

lemma Addi4spn_imm:
  "push_bit 2 (ucast (kAddi4spnHigh ! unat (GetBits 9 4 code) OR
                      kAddi4spnLow ! unat (GetBits 5 4 code))) =
   (scatter [(12, 5), (11, 4), (10, 9), (9, 8), (8, 7), (7, 6), (6, 2), (5, 3)] code :: u16)"
  by (rule word16_eqI) (simp add: immediate_bits)

lemma LoadStore_imm:
  "ucast (ucast (ucast (kLwLow ! unat (GetBits 5 2 code)) OR push_bit 3 (GetBits 10 3 code) :: u32) :: u8) =
     (scatter [(12, 5), (11, 4), (10, 3), (6, 2), (5, 6)] code :: u16)"
  "ucast (ucast (push_bit 6 (GetBits 5 2 code) OR push_bit 3 (GetBits 10 3 code)) :: u8) =
     (scatter [(12, 5), (11, 4), (10, 3), (6, 7), (5, 6)] code :: u16)"
  by (rule word16_eqI; simp add: immediate_bits)+

lemma Storesp_imm:
  "push_bit 2 (ucast (Storesp_k32bit ! unat (GetBits 7 6 code))) =
     (scatter [(12, 5), (11, 4), (10, 3), (9, 2), (8, 7), (7, 6)] code :: u16)"
  "push_bit 2 (ucast (Storesp_k64bit ! unat (GetBits 7 6 code))) =
     (scatter [(12, 5), (11, 4), (10, 3), (9, 8), (8, 7), (7, 6)] code :: u16)"
  by (rule word16_eqI; simp add: immediate_bits)+

lemma Loadsp_sum:
  "ucast (push_bit 5 (GetBits 12 1 code) + push_bit 2 (ucast (k32bitLow ! unat (GetBits 2 5 code))) :: u32) =
     (scatter [(12, 5), (6, 4), (5, 3), (4, 2), (3, 7), (2, 6)] code :: u16)"
  "ucast (push_bit 5 (GetBits 12 1 code) + push_bit 2 (ucast (k64bitLow ! unat (GetBits 2 5 code))) :: u32) =
     (scatter [(12, 5), (6, 4), (5, 3), (4, 8), (3, 7), (2, 6)] code :: u16)"
proof -
  have "push_bit 5 (GetBits 12 1 code) + push_bit 2 (ucast (k32bitLow ! unat (GetBits 2 5 code))) =
    (push_bit 5 (GetBits 12 1 code) OR push_bit 2 (ucast (k32bitLow ! unat (GetBits 2 5 code))) :: u32)"
    by (rule add_disjoint) (auto simp: immediate_bits)
  then show "ucast (push_bit 5 (GetBits 12 1 code) + push_bit 2 (ucast (k32bitLow ! unat (GetBits 2 5 code))) :: u32) =
     (scatter [(12, 5), (6, 4), (5, 3), (4, 2), (3, 7), (2, 6)] code :: u16)"
    by (simp only:) (rule word16_eqI, simp add: immediate_bits)
  have "push_bit 5 (GetBits 12 1 code) + push_bit 2 (ucast (k64bitLow ! unat (GetBits 2 5 code))) =
    (push_bit 5 (GetBits 12 1 code) OR push_bit 2 (ucast (k64bitLow ! unat (GetBits 2 5 code))) :: u32)"
    by (rule add_disjoint) (auto simp: immediate_bits)
  then show "ucast (push_bit 5 (GetBits 12 1 code) + push_bit 2 (ucast (k64bitLow ! unat (GetBits 2 5 code))) :: u32) =
     (scatter [(12, 5), (6, 4), (5, 3), (4, 8), (3, 7), (2, 6)] code :: u16)"
    by (simp only:) (rule word16_eqI, simp add: immediate_bits)
qed

section \<open>The decoded calls\<close>

text \<open>
  The tables of \<open>c.j\<close> and of \<open>c.beqz\<close> and \<open>c.bnez\<close> hold the bits of the jump offset at the
  places that the instruction set manual gives them; the calls are unconditional jumps without a link
  and branches against \<open>x0\<close>.
\<close>

theorem compressed_jump_targets:
  "(DecodeCompressedJ code =
     [JumpAndLink
        \<lparr>JumpAndLinkArgs.dst = 0,
         JumpAndLinkArgs.offset = SignExtend 12
           (scatter [(12, 11), (11, 4), (10, 9), (9, 8), (8, 10), (7, 6), (6, 7), (5, 3),
                     (4, 2), (3, 1), (2, 5)] code),
         JumpAndLinkArgs.insn_len = 2\<rparr>]) \<and>
   (DecodeCompressedBeqzBnez code =
     [CompareAndBranch
        \<lparr>BranchArgs.opcode = BranchOpcode_of (ucast (GetBits 13 1 code)),
         BranchArgs.src1 = ucast (8 + GetBits 7 3 code),
         BranchArgs.src2 = 0,
         BranchArgs.offset = ucast (SignExtend 9
           (scatter [(12, 8), (11, 4), (10, 3), (6, 7), (5, 6), (4, 2), (3, 1), (2, 5)] code :: u32))\<rparr>])"
  by (simp_all add: DecodeCompressedJ_def J_offset DecodeCompressedBeqzBnez_def B_sum)

text \<open>
  \<open>c.lui\<close>, \<open>c.addi16sp\<close> and \<open>c.addi4spn\<close> decode to the immediates of the manual, the two on the
  stack pointer through their tables; \<open>c.addi4spn\<close> with a zero immediate is undefined.
\<close>

lemma compressed_stack_pointer_immediates:
  "(DecodeCompressedLuiAddi16sp code =
     (if GetBits 7 5 code \<noteq> 2 then
        [Lui \<lparr>UpperImmArgs.dst = ucast (GetBits 7 5 code),
              UpperImmArgs.imm = SignExtend 18
                (scatter [(12, 17), (6, 16), (5, 15), (4, 14), (3, 13), (2, 12)] code)\<rparr>]
      else
        [OpImm \<lparr>OpImmArgsTemplate.opcode = OpImmOpcode.kAddi,
                OpImmArgsTemplate.dst = 2,
                OpImmArgsTemplate.src = 2,
                OpImmArgsTemplate.imm = ucast (SignExtend 10
                  (scatter [(12, 9), (6, 4), (5, 6), (4, 8), (3, 7), (2, 5)] code :: u32))\<rparr>])) \<and>
   (DecodeCompressedAddi4spn code =
     (let off = scatter [(12, 5), (11, 4), (10, 9), (9, 8), (8, 7), (7, 6), (6, 2), (5, 3)] code in
      if off = 0 then [Undefined]
      else [OpImm \<lparr>OpImmArgsTemplate.opcode = OpImmOpcode.kAddi,
                   OpImmArgsTemplate.dst = ucast (8 + GetBits 2 3 code),
                   OpImmArgsTemplate.src = 2,
                   OpImmArgsTemplate.imm = off\<rparr>]))"
  by (simp_all only: DecodeCompressedLuiAddi16sp_def Let_def Lui_sum Addi16sp_sum
      DecodeCompressedAddi4spn_def Addi4spn_imm)

text \<open>
  The offsets of the compressed loads and stores, relative to the stack pointer or to a register,
  are those of the manual for both operand sizes.
\<close>

lemma compressed_memory_offsets:
  "(DecodeCompressedLoadsp val load ty code =
     [load \<lparr>LoadArgsTemplate.operand_type = ty,
            LoadArgsTemplate.dst = ucast (GetBits 7 5 code),
            LoadArgsTemplate.src = 2,
            LoadArgsTemplate.offset =
              (if val ty AND 1 = 0
               then scatter [(12, 5), (6, 4), (5, 3), (4, 2), (3, 7), (2, 6)] code
               else scatter [(12, 5), (6, 4), (5, 3), (4, 8), (3, 7), (2, 6)] code)\<rparr>]) \<and>
   (DecodeCompressedStoresp val' store ty' code =
     [store \<lparr>StoreArgsTemplate.operand_type = ty',
             StoreArgsTemplate.src = 2,
             StoreArgsTemplate.offset =
               (if val' ty' AND 1 = 0
                then scatter [(12, 5), (11, 4), (10, 3), (9, 2), (8, 7), (7, 6)] code
                else scatter [(12, 5), (11, 4), (10, 3), (9, 8), (8, 7), (7, 6)] code),
             StoreArgsTemplate.data = ucast (GetBits 2 5 code)\<rparr>]) \<and>
   (DecodeCompressedLoadStore val'' (kLoad load'') ty'' code =
     [load'' \<lparr>LoadArgsTemplate.operand_type = ty'',
              LoadArgsTemplate.dst = ucast (8 + GetBits 2 3 code),
              LoadArgsTemplate.src = ucast (8 + GetBits 7 3 code),
              LoadArgsTemplate.offset =
                (if val'' ty'' AND 1 = 0
                 then scatter [(12, 5), (11, 4), (10, 3), (6, 2), (5, 6)] code
                 else scatter [(12, 5), (11, 4), (10, 3), (6, 7), (5, 6)] code)\<rparr>])"
  by (simp_all add: DecodeCompressedLoadsp_def Let_def Loadsp_sum DecodeCompressedStoresp_def
      Storesp_imm DecodeCompressedLoadStore_def LoadStore_imm
      del: One_nat_def)

end
