(* ===== verification/Decoder_Registers.thy ===== *)
theory Decoder_Registers
  imports Decoder_Immediates Decoder
begin

text \<open>
  The arguments of the calls are in range: all register numbers are below 32, and the offsets of
  jumps and branches are even. \<open>call_registers\<close> are the members of an argument structure that are
  numbers of registers; what is an immediate (\<open>imm\<close>, \<open>uimm\<close>, \<open>avl\<close>, \<open>shamt\<close>, \<open>csr\<close>), a rounding mode or a
  number of fields is not among them.
\<close>

primrec vector_registers :: "vector_args \<Rightarrow> u8 list" where
  "vector_registers (vector_args.VLoadIndexed a) =
     [VLoadIndexedArgs.dst a, VLoadIndexedArgs.src a, VLoadIndexedArgs.idx a]"
| "vector_registers (vector_args.VLoadStride a) =
     [VLoadStrideArgs.dst a, VLoadStrideArgs.src a, VLoadStrideArgs.std a]"
| "vector_registers (vector_args.VLoadUnitStride a) = [VLoadUnitStrideArgs.dst a, VLoadUnitStrideArgs.src a]"
| "vector_registers (vector_args.VOpFVf a) = [VOpFVfArgs.dst a, VOpFVfArgs.src1 a, VOpFVfArgs.src2 a]"
| "vector_registers (vector_args.VOpFVv a) = [VOpFVvArgs.dst a, VOpFVvArgs.src1 a, VOpFVvArgs.src2 a]"
| "vector_registers (vector_args.VOpIVi a) = [VOpIViArgs.dst a, VOpIViArgs.src a]"
| "vector_registers (vector_args.VOpIVv a) = [VOpIVvArgs.dst a, VOpIVvArgs.src1 a, VOpIVvArgs.src2 a]"
| "vector_registers (vector_args.VOpIVx a) = [VOpIVxArgs.dst a, VOpIVxArgs.src1 a, VOpIVxArgs.src2 a]"
| "vector_registers (vector_args.VOpMVv a) = [VOpMVvArgs.dst a, VOpMVvArgs.src1 a, VOpMVvArgs.src2 a]"
| "vector_registers (vector_args.VOpMVx a) = [VOpMVxArgs.dst a, VOpMVxArgs.src1 a, VOpMVxArgs.src2 a]"
| "vector_registers (vector_args.VStoreIndexed a) =
     [VStoreIndexedArgs.src a, VStoreIndexedArgs.idx a, VStoreIndexedArgs.data a]"
| "vector_registers (vector_args.VStoreStride a) =
     [VStoreStrideArgs.src a, VStoreStrideArgs.std a, VStoreStrideArgs.data a]"
| "vector_registers (vector_args.VStoreUnitStride a) =
     [VStoreUnitStrideArgs.src a, VStoreUnitStrideArgs.data a]"

primrec call_registers :: "consumer_call \<Rightarrow> u8 list" where
  "call_registers (consumer_call.Amo a) = [AmoArgs.dst a, AmoArgs.src1 a, AmoArgs.src2 a]"
| "call_registers (consumer_call.Auipc a) = [UpperImmArgs.dst a]"
| "call_registers (consumer_call.CompareAndBranch a) = [BranchArgs.src1 a, BranchArgs.src2 a]"
| "call_registers (consumer_call.Csr a) = [CsrArgs.dst a, CsrArgs.src a]"
| "call_registers (consumer_call.Csr_imm a) = [CsrImmArgs.dst a]"
| "call_registers (consumer_call.Fcvt_float_to_float a) =
     [FcvtFloatToFloatArgs.dst a, FcvtFloatToFloatArgs.src a]"
| "call_registers (consumer_call.Fcvt_float_to_integer a) =
     [FcvtFloatToIntegerArgs.dst a, FcvtFloatToIntegerArgs.src a]"
| "call_registers (consumer_call.Fcvt_integer_to_float a) =
     [FcvtIntegerToFloatArgs.dst a, FcvtIntegerToFloatArgs.src a]"
| "call_registers (consumer_call.Fence a) = [FenceArgs.dst a, FenceArgs.src a]"
| "call_registers (consumer_call.FenceI a) = [FenceIArgs.dst a, FenceIArgs.src a]"
| "call_registers (consumer_call.Fma a) = [FmaArgs.dst a, FmaArgs.src1 a, FmaArgs.src2 a, FmaArgs.src3 a]"
| "call_registers (consumer_call.FmvFloatToInteger a) =
     [FmvFloatToIntegerArgs.dst a, FmvFloatToIntegerArgs.src a]"
| "call_registers (consumer_call.FmvIntegerToFloat a) =
     [FmvIntegerToFloatArgs.dst a, FmvIntegerToFloatArgs.src a]"
| "call_registers (consumer_call.JumpAndLink a) = [JumpAndLinkArgs.dst a]"
| "call_registers (consumer_call.JumpAndLinkRegister a) =
     [JumpAndLinkRegisterArgs.dst a, JumpAndLinkRegisterArgs.base a]"
| "call_registers (consumer_call.Load a) = [LoadArgsTemplate.dst a, LoadArgsTemplate.src a]"
| "call_registers (consumer_call.Load_fp a) = [LoadArgsTemplate.dst a, LoadArgsTemplate.src a]"
| "call_registers (consumer_call.Lui a) = [UpperImmArgs.dst a]"
| "call_registers consumer_call.Nop = []"
| "call_registers (consumer_call.Op a) = [OpArgsTemplate.dst a, OpArgsTemplate.src1 a, OpArgsTemplate.src2 a]"
| "call_registers (consumer_call.Op_32 a) =
     [OpArgsTemplate.dst a, OpArgsTemplate.src1 a, OpArgsTemplate.src2 a]"
| "call_registers (consumer_call.OpFp a) = [OpFpArgs.dst a, OpFpArgs.src1 a, OpFpArgs.src2 a]"
| "call_registers (consumer_call.OpFpGpRegisterTargetNoRounding a) =
     [OpFpGpRegisterTargetNoRoundingArgs.dst a, OpFpGpRegisterTargetNoRoundingArgs.src1 a, OpFpGpRegisterTargetNoRoundingArgs.src2 a]"
| "call_registers (consumer_call.OpFpGpRegisterTargetSingleInputNoRounding a) =
     [OpFpGpRegisterTargetSingleInputNoRoundingArgs.dst a, OpFpGpRegisterTargetSingleInputNoRoundingArgs.src a]"
| "call_registers (consumer_call.OpFpNoRounding a) =
     [OpFpNoRoundingArgs.dst a, OpFpNoRoundingArgs.src1 a, OpFpNoRoundingArgs.src2 a]"
| "call_registers (consumer_call.OpFpSingleInput a) = [OpFpSingleInputArgs.dst a, OpFpSingleInputArgs.src a]"
| "call_registers (consumer_call.OpFpSingleInputNoRounding a) =
     [OpFpSingleInputNoRoundingArgs.dst a, OpFpSingleInputNoRoundingArgs.src a]"
| "call_registers (consumer_call.OpImm a) = [OpImmArgsTemplate.dst a, OpImmArgsTemplate.src a]"
| "call_registers (consumer_call.OpImm_32 a) = [OpImmArgsTemplate.dst a, OpImmArgsTemplate.src a]"
| "call_registers (consumer_call.OpImm_shift a) = [ShiftImmArgsTemplate.dst a, ShiftImmArgsTemplate.src a]"
| "call_registers (consumer_call.OpImm_shift_32 a) = [ShiftImmArgsTemplate.dst a, ShiftImmArgsTemplate.src a]"
| "call_registers (consumer_call.OpImm_bitmanip a) =
     [BitmanipImmArgsTemplate.dst a, BitmanipImmArgsTemplate.src a]"
| "call_registers (consumer_call.OpImm_bitmanip_32 a) =
     [BitmanipImmArgsTemplate.dst a, BitmanipImmArgsTemplate.src a]"
| "call_registers (consumer_call.OpSingleInput a) = [OpSingleInputArgs.dst a, OpSingleInputArgs.src a]"
| "call_registers (consumer_call.OpVector a) = vector_registers a"
| "call_registers (consumer_call.Store a) = [StoreArgsTemplate.src a, StoreArgsTemplate.data a]"
| "call_registers (consumer_call.Store_fp a) = [StoreArgsTemplate.src a, StoreArgsTemplate.data a]"
| "call_registers (consumer_call.System a) = []"
| "call_registers consumer_call.Undefined = []"
| "call_registers (consumer_call.Vsetivli a) = [VsetivliArgs.dst a]"
| "call_registers (consumer_call.Vsetvl a) = [VsetvlArgs.dst a, VsetvlArgs.src1 a, VsetvlArgs.src2 a]"
| "call_registers (consumer_call.Vsetvli a) = [VsetvliArgs.dst a, VsetvliArgs.src a]"

definition wf_call :: "consumer_call \<Rightarrow> bool" where
  "wf_call c \<longleftrightarrow> list_all (\<lambda>r. r < 32) (call_registers c) \<and>
     (case c of
        consumer_call.JumpAndLink args \<Rightarrow> even (JumpAndLinkArgs.offset args)
      | consumer_call.CompareAndBranch args \<Rightarrow> even (BranchArgs.offset args)
      | _ \<Rightarrow> True)"

named_theorems wf_calls \<open>the calls of the decoding methods are well-formed\<close>

lemma field5_less:
  assumes "start + 5 \<le> 32"
  shows "(ucast (GetBits start 5 code) :: u8) < 32"
proof -
  have "unat (GetBits start 5 code) < 32" using GetBits_less [of start 5 code] assms by simp
  then show ?thesis by (simp add: word_less_nat_alt unsigned_ucast_eq take_bit_eq_mod)
qed

lemma field3_less:
  assumes "start + 3 \<le> 32"
  shows "(ucast (8 + GetBits start 3 code) :: u8) < 32"
proof -
  have "unat (GetBits start 3 code) < 8" using GetBits_less [of start 3 code] assms by simp
  then have "unat (8 + GetBits start 3 code) < 16" by (simp add: unat_word_ariths)
  then show ?thesis by (simp add: word_less_nat_alt unsigned_ucast_eq take_bit_eq_mod)
qed

lemma field3_less': "start + 3 \<le> 32 \<Longrightarrow> (ucast (GetBits start 3 code + 8) :: u8) < 32"
  using field3_less [of start code] by (simp add: add.commute)

lemmas field_less = field5_less field3_less field3_less'

lemma even_SignExtend: "1 < len \<Longrightarrow> even (SignExtend len (w :: 'a::len word)) \<longleftrightarrow> even w"
  using bit_SignExtend [of len w 0] by (simp add: bit_0 min_def)

lemma wf_base_methods [wf_calls]:
  "list_all wf_call (DecodeMiscMem code)"
  "list_all wf_call (DecodeSingleInputOp sop code)"
  "list_all wf_call (DecodeAmo code)"
  "list_all wf_call (DecodeFma code)"
  "list_all wf_call (DecodeLui code)"
  "list_all wf_call (DecodeVectorLoad eew code)"
  "list_all wf_call (DecodeVectorStore eew code)"
  "list_all wf_call (DecodeSystem code)"
  by (simp_all add: wf_call_def DecodeMiscMem_def DecodeSingleInputOp_def DecodeAmo_def DecodeFma_def
      DecodeLui_def DecodeVectorLoad_def DecodeVectorStore_def DecodeSystem_def field_less Let_def)

lemma wf_jumps [wf_calls]:
  "list_all wf_call (DecodeAuipc code)"
  "list_all wf_call (DecodeBranch code)"
  "list_all wf_call (DecodeJumpAndLink code)"
  "list_all wf_call (DecodeJumpAndLinkRegister code)"
  by (simp_all add: wf_call_def DecodeAuipc_def DecodeBranch_def DecodeJumpAndLink_def
      DecodeJumpAndLinkRegister_def field_less even_SignExtend Let_def)

lemma wf_base_templates [wf_calls]:
  "list_all wf_call (DecodeOp OpOpcode_of Op code)"
  "list_all wf_call (DecodeOp Op32Opcode_of Op_32 code)"
  "list_all wf_call (DecodeOpImm OpImmOpcode_of OpImm o2 OpImm_shift o3 OpImm_bitmanip k code)"
  "list_all wf_call (DecodeOpImm OpImm32Opcode_of OpImm_32 o4 OpImm_shift_32 o5 OpImm_bitmanip_32 k code)"
  "list_all wf_call (DecodeLoad code)"
  "list_all wf_call (DecodeLoadFp code)"
  "list_all wf_call (DecodeStore code)"
  "list_all wf_call (DecodeStoreFp code)"
  by (simp_all add: wf_call_def DecodeOp_def DecodeOpImm_def DecodeLoad_def DecodeLoadFp_def
      DecodeLoadArgs_def DecodeStoreArgs_def DecodeStore_def DecodeStoreFp_def field_less Let_def
      DecodeSingleInputOp_def DecodeVectorLoad_def DecodeVectorStore_def
      split: load_store_width.split)

lemma wf_DecodeOpFp [wf_calls]: "list_all wf_call (DecodeOpFp code)"
  by (simp add: wf_call_def DecodeOpFp_def DecodeOpFp_no_rounding_def DecodeOpFp_single_input_def
      DecodeOpFp_fcvt_integer_def DecodeOpFp_fmv_def field_less Let_def)

lemma wf_DecodeOpV [wf_calls]: "list_all wf_call (DecodeOpV code)"
  by (simp add: wf_call_def DecodeOpV_def DecodeVsetvl_def field_less Let_def)

lemma wf_DecodeBaseInstruction: "list_all wf_call (DecodeBaseInstruction code)"
  by (simp add: DecodeBaseInstruction_def wf_calls wf_call_def split: BaseOpcode.split)

lemma even_J: "even (SignExtend 12 (scatter [(12, 11), (11, 4), (10, 9), (9, 8), (8, 10), (7, 6),
    (6, 7), (5, 3), (4, 2), (3, 1), (2, 5)] code :: u32))"
  by (simp add: even_SignExtend scatter_simps even_or_iff)

lemma even_B: "even (ucast (SignExtend 9 (scatter [(12, 8), (11, 4), (10, 3), (6, 7), (5, 6), (4, 2),
    (3, 1), (2, 5)] code :: u32)) :: u16)"
proof -
  have "\<not> bit (ucast (SignExtend 9 (scatter [(12, 8), (11, 4), (10, 3), (6, 7), (5, 6), (4, 2),
    (3, 1), (2, 5)] code :: u32)) :: u16) 0"
    by (simp only: bit_simps bit_SignExtend bit_scatter) simp
  then show ?thesis by (simp add: bit_0)
qed

lemma wf_compressed_jumps [wf_calls]:
  "list_all wf_call (DecodeCompressedJ code)"
  "list_all wf_call (DecodeCompressedBeqzBnez code)"
  "list_all wf_call (DecodeCompressedJr_Jalr_Mv_Add code)"
  by (simp_all add: wf_call_def DecodeCompressedJ_def J_offset DecodeCompressedBeqzBnez_def B_sum
      DecodeCompressedJr_Jalr_Mv_Add_def even_J even_B field_less Let_def
      del: One_nat_def)

lemma wf_compressed_methods [wf_calls]:
  "list_all wf_call (DecodeCompressedLi code)"
  "list_all wf_call (DecodeCompressedMiscAlu code)"
  "list_all wf_call (DecodeCompressedLuiAddi16sp code)"
  "list_all wf_call (DecodeCompressedAddi code)"
  "list_all wf_call (DecodeCompressedAddiw code)"
  "list_all wf_call (DecodeCompressedAddi4spn code)"
  "list_all wf_call (DecodeCompressedSlli code)"
  by (simp_all add: wf_call_def DecodeCompressedLi_def DecodeCompressedMiscAlu_def
      DecodeCompressedMiscAlu_Op_def DecodeCompressedLuiAddi16sp_def DecodeCompressedAddi_def
      DecodeCompressedAddiw_def DecodeCompressedAddi4spn_def DecodeCompressedSlli_def field_less Let_def
      split: option.split)

lemma wf_compressed_memory [wf_calls]:
  "list_all wf_call (DecodeCompressedStoresp val1 Store ty1 code)"
  "list_all wf_call (DecodeCompressedStoresp val2 Store_fp ty2 code)"
  "list_all wf_call (DecodeCompressedLoadsp val3 Load ty3 code)"
  "list_all wf_call (DecodeCompressedLoadsp val4 Load_fp ty4 code)"
  "list_all wf_call (DecodeCompressedLoadStore val5 (kLoad Load) ty5 code)"
  "list_all wf_call (DecodeCompressedLoadStore val6 (kLoad Load_fp) ty6 code)"
  "list_all wf_call (DecodeCompressedLoadStore val7 (kStore Store) ty7 code)"
  "list_all wf_call (DecodeCompressedLoadStore val8 (kStore Store_fp) ty8 code)"
  by (simp_all add: wf_call_def DecodeCompressedStoresp_def DecodeCompressedLoadsp_def
      DecodeCompressedLoadStore_def field_less Let_def)

lemma wf_DecodeCompressedInstruction: "list_all wf_call (DecodeCompressedInstruction code)"
  by (simp add: DecodeCompressedInstruction_def wf_calls wf_call_def split: CompressedOpcode.split)

theorem wf_Decode: "list_all wf_call (fst (Decode mem a))"
  by (simp add: Decode_def wf_DecodeBaseInstruction wf_DecodeCompressedInstruction)

end
