(* ===== verification/Relocation_Semantics.thy ===== *)
theory Relocation_Semantics
  imports Machine Relocation_Refinement Decoder_Registers
begin

text \<open>
  What relocated code does when it runs. Every block of a layout, executed where it is installed,
  has the effect of the instruction it stands for, executed where it was: \<open>auipc\<close> writes the same
  value, a jump and a branch reach the same targets, at the price of the scratch register \<open>t3\<close>.
\<close>

section \<open>Loading an address\<close>

lemma sint_narrow:
  "sint (ucast (signed_take_bit 11 (v :: u32)) :: u16) = signed_take_bit 11 (sint v)"
proof (rule bit_eqI)
  fix n
  show "bit (sint (ucast (signed_take_bit 11 v) :: u16)) n \<longleftrightarrow> bit (signed_take_bit 11 (sint v)) n"
    by (auto simp: bit_simps min_def bit_sint_word)
qed

lemma sint_split_bottom:
  "sint (split_bottom off) = int (unat off mod 4096) - (if bit off 11 then 4096 else 0)"
proof -
  have "sint (split_bottom off) = signed_take_bit 11 (sint off)"
    by (simp add: split_bottom_def sint_signed_take_bit)
  also have "\<dots> = take_bit 12 (sint off) - (if bit off 11 then 4096 else 0)"
    by (simp add: signed_take_bit_eq_take_bit_minus bit_sint_word)
  also have "take_bit 12 (sint off) = take_bit 12 (uint off)"
    by (rule bit_eqI) (auto simp: bit_simps bit_sint_word min_def)
  also have "\<dots> = int (unat off mod 4096)"
    by (simp add: take_bit_eq_mod zmod_int)
  finally show ?thesis .
qed

lemma bit_11_low: "bit off 11 \<longleftrightarrow> 2048 \<le> unat (off :: u32) mod 4096"
proof -
  have "bit off 11 \<longleftrightarrow> bit (unat off) 11" by (simp add: bit_unsigned_iff bit_imp_le_length)
  also have "\<dots> \<longleftrightarrow> odd (unat off div 2048)" by (simp add: bit_iff_odd)
  also have "\<dots> \<longleftrightarrow> unat off div 2048 mod 2 = 1" by (simp add: odd_iff_mod_2_eq_one)
  also have "\<dots> \<longleftrightarrow> 2048 \<le> unat off mod 4096"
  proof -
    have "unat off mod (2048 * 2) = 2048 * (unat off div 2048 mod 2) + unat off mod 2048"
      by (rule mod_mult2_eq)
    moreover have "unat off mod 2048 < 2048" by simp
    moreover have "unat off div 2048 mod 2 < 2" by simp
    ultimately show ?thesis by (cases "unat off div 2048 mod 2 = 1") simp_all
  qed
  finally show ?thesis .
qed

lemma sint_split_sum:
  assumes "unat off < 2 ^ 31 - 2 ^ 11"
  shows "sint (split_top off) + sint (split_bottom off) = int (unat off)"
proof -
  let ?b = "sint (split_bottom off)"
  have b: "?b \<le> int (unat off)" "- 2048 \<le> ?b"
  proof -
    have "int (unat off mod 4096) \<le> int (unat off)" by (simp only: zle_int mod_less_eq_dividend)
    moreover have "bit off 11 \<longleftrightarrow> 2048 \<le> int (unat off mod 4096)"
      unfolding bit_11_low by linarith
    ultimately show "?b \<le> int (unat off)" "- 2048 \<le> ?b"
      unfolding sint_split_bottom by (cases "bit off 11"; simp only: if_True if_False; linarith)+
  qed
  have "split_top off = off - split_bottom off" using split_sum [of off] by (simp add: algebra_simps)
  also have "\<dots> = word_of_int (int (unat off) - ?b)" by simp
  finally have "sint (split_top off) = sint (word_of_int (int (unat off) - ?b) :: u32)"
    by (rule arg_cong)
  also have "\<dots> = signed_take_bit 31 (int (unat off) - ?b)"
    by (simp only: signed_of_int) simp
  also have "\<dots> = int (unat off) - ?b"
  proof (rule signed_take_bit_int_eq_self)
    have "unat off < 2147481600" using assms by simp
    then have "int (unat off) < 2147481600" by linarith
    moreover have e: "(2 :: int) ^ 31 = 2147483648" by simp
    ultimately show "int (unat off) - ?b < 2 ^ 31" using b by linarith
    show "- (2 ^ 31) \<le> int (unat off) - ?b" unfolding e using b by linarith
  qed
  finally show ?thesis by simp
qed

lemma load_offset:
  assumes "unat off < 2 ^ 31 - 2 ^ 11"
  shows "scast (split_top off) + scast (ucast (signed_take_bit 11 (split_bottom off)) :: u16) =
    (of_nat (unat off) :: u64)"
proof -
  have "scast (ucast (signed_take_bit 11 (split_bottom off)) :: u16) =
      (word_of_int (sint (split_bottom off)) :: u64)"
  proof -
    have "signed_take_bit 11 (sint (split_bottom off)) = sint (split_bottom off)"
      by (simp add: split_bottom_def sint_signed_take_bit)
    then show ?thesis by (simp only: scast_eq sint_narrow)
  qed
  then have "scast (split_top off) + scast (ucast (signed_take_bit 11 (split_bottom off)) :: u16) =
      (word_of_int (sint (split_top off) + sint (split_bottom off)) :: u64)"
    by (simp only: of_int_add scast_eq [of "split_top off"])
  also have "\<dots> = of_nat (unat off)" by (simp only: sint_split_sum [OF assms] of_int_of_nat_eq)
  finally show ?thesis .
qed

section \<open>Running a load, a jump, a branch\<close>

lemma write_reg_simps [simp]:
  "mpc (write_reg r v s) = mpc s"
  "mmem (write_reg r v s) = mmem s"
  "read_reg r (write_reg r v s) = (if r = 0 then 0 else v)"
  "read_reg r (s\<lparr>mpc := a\<rparr>) = read_reg r s"
  "write_reg r v (write_reg r w s) = write_reg r v s"
  "write_reg r v (s\<lparr>mpc := a\<rparr>) = (write_reg r v s)\<lparr>mpc := a\<rparr>"
  by (simp_all add: write_reg_def read_reg_def)

lemma advance_simps [simp]:
  "mpc (advance n s) = mpc s + of_nat n"
  "mmem (advance n s) = mmem s"
  "read_reg r (advance n s) = read_reg r s"
  "advance m (advance n s) = advance (n + m) s"
  "write_reg r v (advance n s) = advance n (write_reg r v s)"
  by (simp_all add: advance_def read_reg_def write_reg_def add.assoc)

lemma run_load:
  assumes code: "code_at (mmem s) (mpc s) (load_bytes r off)"
    and r: "r < 32" "r \<noteq> 0" and off: "unat off < 2 ^ 31 - 2 ^ 11"
    and slot: "code_at (mmem s) (mpc s + of_nat (unat off)) (bytes_of 8 x)"
  shows "run 2 s = Some (advance 8 (write_reg r x s))"
proof -
  let ?s1 = "advance 4 (write_reg r (mpc s + scast (split_top off)) s)"
  from code have c: "code_at (mmem s) (mpc s) (bytes_of 4 (auipc_word r (split_top off)))"
    "code_at (mmem s) (mpc s + 4) (bytes_of 4 (ld_word r (split_bottom off)))"
    by (simp_all add: load_bytes_def code_at_append)
  have 1: "step s = Some ?s1"
    by (rule step_auipc [OF c(1) r(1) low_bits_split_top])
  have "step ?s1 = Some (advance 4 (write_reg r (load64 (mmem ?s1) (read_reg r ?s1 +
      scast (ucast (signed_take_bit 11 (split_bottom off)) :: u16))) ?s1))"
    by (rule step_ld) (use c(2) r in simp_all)
  also have "read_reg r ?s1 + scast (ucast (signed_take_bit 11 (split_bottom off)) :: u16) =
      mpc s + of_nat (unat off)"
    using load_offset [OF off] r(2) by (simp add: add.assoc)
  also have "load64 (mmem ?s1) (mpc s + of_nat (unat off)) = x"
    using load64_at [OF slot] by simp
  finally have 2: "step ?s1 = Some (advance 8 (write_reg r x s))" by simp
  have "run (Suc (Suc 0)) s = Some (advance 8 (write_reg r x s))"
    by (simp only: run.simps 1 2 bind.simps)
  then show ?thesis by (simp only: numeral_2_eq_2)
qed

lemma TMP_bounds: "TMP_GENERIC_REGISTER < 32" "TMP_GENERIC_REGISTER \<noteq> 0"
  by (simp_all add: TMP_GENERIC_REGISTER_def)

lemma run_jump:
  assumes code: "code_at (mmem s) (mpc s) (jump_bytes rd off)"
    and rd: "rd < 32" and off: "unat off < 2 ^ 31 - 2 ^ 11"
    and slot: "code_at (mmem s) (mpc s + of_nat (unat off)) (bytes_of 8 x)" and x: "even x"
  shows "run 3 s = Some ((write_reg rd (mpc s + 12) (write_reg TMP_GENERIC_REGISTER x s))\<lparr>mpc := x\<rparr>)"
proof -
  let ?s2 = "advance 8 (write_reg TMP_GENERIC_REGISTER x s)"
  from code have c: "code_at (mmem s) (mpc s) (load_bytes TMP_GENERIC_REGISTER off)"
    "code_at (mmem s) (mpc s + 8) (bytes_of 4 (jalr_word rd TMP_GENERIC_REGISTER))"
    by (simp_all add: jump_bytes_def code_at_append)
  have "x AND NOT 1 = x"
    by (rule bit_word_eqI) (use x in \<open>auto simp: bit_simps bit_0\<close>)
  then have "step ?s2 = Some ((write_reg rd (mpc s + 12) (write_reg TMP_GENERIC_REGISTER x s))\<lparr>mpc := x\<rparr>)"
    using step_jalr [of ?s2 rd TMP_GENERIC_REGISTER] c(2) rd TMP_bounds
    by (simp add: advance_def add.commute)
  moreover have "run 3 s = Option.bind (run 2 s) (run 1)"
    using run_add [of 2 1 s] by simp
  ultimately show ?thesis
    using run_load [OF c(1) TMP_bounds off slot] by simp
qed

section \<open>Running a block\<close>

text \<open>The condition of a branch, from its opcode.\<close>

definition condition_of :: "u32 \<Rightarrow> BranchOpcode" where
  "condition_of oc = BranchOpcode_of (ucast (GetBits 12 3 oc))"

definition branch_opcodes :: "(BranchOpcode \<times> u32) list" where
  "branch_opcodes =
     [(BranchOpcode.kBeq, 0x0063), (BranchOpcode.kBne, 0x1063), (BranchOpcode.kBlt, 0x4063),
      (BranchOpcode.kBge, 0x5063), (BranchOpcode.kBltu, 0x6063), (BranchOpcode.kBgeu, 0x7063)]"

lemma branch_opcodes_fields:
  "list_all (\<lambda>(b, oc). oc = branch_base (GetBits 12 3 oc) \<and> GetBits 12 3 oc < 8 \<and> condition_of oc = b)
     branch_opcodes"
  by code_simp

lemma branch_opcode_base:
  assumes "branch_opcode b = Some oc"
  shows "oc = branch_base (GetBits 12 3 oc)" and "GetBits 12 3 oc < 8" and "condition_of oc = b"
proof -
  have "(b, oc) \<in> set branch_opcodes"
    using assms by (auto simp: branch_opcode_def branch_opcodes_def split: BranchOpcode.splits)
  with branch_opcodes_fields
  show "oc = branch_base (GetBits 12 3 oc)" "GetBits 12 3 oc < 8" "condition_of oc = b"
    by (auto simp: list_all_iff)
qed

text \<open>
  A block is well-formed when its registers exist, its targets are even, and \<open>auipc\<close> does not
  write to \<open>x0\<close>: for this one the emitted load would read through \<open>x0\<close>.
\<close>

primrec wf_block :: "block \<Rightarrow> bool" where
  "wf_block (Verbatim bs) \<longleftrightarrow> True"
| "wf_block (LoadAbs r x) \<longleftrightarrow> r < 32"
| "wf_block (CallAbs rd x) \<longleftrightarrow> rd < 32 \<and> even x"
| "wf_block (BranchAbs oc r1 r2 x) \<longleftrightarrow>
     branch_opcode (condition_of oc) = Some oc \<and> r1 < 32 \<and> r2 < 32 \<and> even x"

text \<open>
  The number of instructions a block executes and the state it leaves, starting at its first byte.
\<close>

primrec rewritten :: "block \<Rightarrow> bool" where
  "rewritten (Verbatim bs) \<longleftrightarrow> False"
| "rewritten (LoadAbs r x) \<longleftrightarrow> r \<noteq> 0"
| "rewritten (CallAbs rd x) \<longleftrightarrow> True"
| "rewritten (BranchAbs oc r1 r2 x) \<longleftrightarrow> True"

definition block_taken :: "u32 \<Rightarrow> Register \<Rightarrow> Register \<Rightarrow> machine \<Rightarrow> bool" where
  "block_taken oc r1 r2 s = branch_taken (condition_of oc) (read_reg r1 s) (read_reg r2 s)"

primrec block_steps :: "block \<Rightarrow> machine \<Rightarrow> nat" where
  "block_steps (Verbatim bs) s = 0"
| "block_steps (LoadAbs r x) s = 2"
| "block_steps (CallAbs rd x) s = 3"
| "block_steps (BranchAbs oc r1 r2 x) s = (if block_taken oc r1 r2 s then 4 else 2)"

primrec block_effect :: "block \<Rightarrow> machine \<Rightarrow> machine" where
  "block_effect (Verbatim bs) s = s"
| "block_effect (LoadAbs r x) s = advance 8 (write_reg r x s)"
| "block_effect (CallAbs rd x) s =
     (write_reg rd (mpc s + 12) (write_reg TMP_GENERIC_REGISTER x s))\<lparr>mpc := x\<rparr>"
| "block_effect (BranchAbs oc r1 r2 x) s =
     (if block_taken oc r1 r2 s then (write_reg TMP_GENERIC_REGISTER x s)\<lparr>mpc := x\<rparr>
      else advance 20 s)"

lemma zero_register [simp]: "write_reg zero v s = s"
  by (simp add: write_reg_def zero_def)

lemma run_branch:
  assumes code: "code_at (mmem s) (mpc s) (block_code slot p (BranchAbs oc r1 r2 x))"
    and wf: "wf_block (BranchAbs oc r1 r2 x)"
    and off: "unat (slot x - of_nat (p + 8)) < 2 ^ 31 - 2 ^ 11"
    and slot: "code_at (mmem s) (mpc s + 8 + of_nat (unat (slot x - of_nat (p + 8)))) (bytes_of 8 x)"
  shows "run (block_steps (BranchAbs oc r1 r2 x) s) s = Some (block_effect (BranchAbs oc r1 r2 x) s)"
proof -
  let ?c = "GetBits 12 3 oc" let ?off = "slot x - of_nat (p + 8)"
  from wf have oc: "oc = branch_base ?c" "?c < 8" and regs: "r1 < 32" "r2 < 32" "even x"
    using branch_opcode_base [of "condition_of oc" oc] by simp_all
  from code have c: "code_at (mmem s) (mpc s) (bytes_of 4 (branch_word (branch_base ?c) r1 r2 8))"
    "code_at (mmem s) (mpc s + 4) (bytes_of 4 (jal_word zero 16))"
    "code_at (mmem s) (mpc s + 8) (jump_bytes zero ?off)"
    by (simp_all add: code_at_append oc(1) [symmetric] add.assoc)
  have 1: "step s = Some (if block_taken oc r1 r2 s then advance 8 s else advance 4 s)"
    using step_branch [OF c(1) regs(1,2) constant_offsets(1) oc(2)]
    by (simp add: block_taken_def condition_of_def advance_def)
  show ?thesis
  proof (cases "block_taken oc r1 r2 s")
    case True
    have "run 3 (advance 8 s) =
        Some ((write_reg zero (mpc (advance 8 s) + 12) (write_reg TMP_GENERIC_REGISTER x (advance 8 s)))
          \<lparr>mpc := x\<rparr>)"
      by (rule run_jump [OF _ _ off]) (use c(3) slot regs in \<open>simp_all add: zero_def\<close>)
    then have r3: "run 3 (advance 8 s) = Some ((write_reg TMP_GENERIC_REGISTER x s)\<lparr>mpc := x\<rparr>)"
      by (simp add: advance_def)
    have "run (Suc 3) s = Some ((write_reg TMP_GENERIC_REGISTER x s)\<lparr>mpc := x\<rparr>)"
      by (simp only: run.simps 1 True if_True bind.simps r3)
    moreover have "block_steps (BranchAbs oc r1 r2 x) s = Suc 3" using True by simp
    ultimately show ?thesis using True by (simp only:) simp
  next
    case False
    have "step (advance 4 s) = Some ((write_reg zero (mpc (advance 4 s) + 4) (advance 4 s))
        \<lparr>mpc := mpc (advance 4 s) + scast (16 :: u32)\<rparr>)"
      by (rule step_jal [OF _ _ constant_offsets(2)]) (use c(2) in \<open>simp_all add: zero_def\<close>)
    then have "run (Suc (Suc 0)) s = Some (advance 20 s)"
      using 1 False by (simp add: advance_def)
    moreover have "block_steps (BranchAbs oc r1 r2 x) s = Suc (Suc 0)" using False by simp
    ultimately show ?thesis using False by (simp only:) simp
  qed
qed

lemma unat_slot_difference:
  assumes "p \<le> unat v" and "unat v < 2 ^ 31"
  shows "unat (v - of_nat p :: u32) = unat v - p"
proof -
  have p: "unat (of_nat p :: u32) = p" using assms by (intro unat_position) simp
  then have "of_nat p \<le> v" using assms(1) by (simp add: word_le_nat_alt)
  then show ?thesis using p by (simp add: unat_sub)
qed

lemma run_block:
  assumes code: "code_at (mmem s) (mpc s) (block_code slot p b)"
    and wf: "wf_block b" "rewritten b"
    and off: "\<And>x. x \<in> set (block_addresses b) \<Longrightarrow>
      p + block_size b \<le> unat (slot x) \<and> unat (slot x) < 2 ^ 31 - 2 ^ 11 \<and>
      code_at (mmem s) (mpc s + of_nat (unat (slot x) - p)) (bytes_of 8 x)"
  shows "run (block_steps b s) s = Some (block_effect b s)"
proof (cases b)
  case (LoadAbs r x)
  then have o: "unat (slot x - of_nat p) = unat (slot x) - p"
    using off [of x] by (intro unat_slot_difference) simp_all
  show ?thesis
    using run_load [of s r "slot x - of_nat p" x] code wf off [of x] by (auto simp: LoadAbs o)
next
  case (CallAbs rd x)
  then have o: "unat (slot x - of_nat p) = unat (slot x) - p"
    using off [of x] by (intro unat_slot_difference) simp_all
  show ?thesis
    using run_jump [of s rd "slot x - of_nat p" x] code wf off [of x] by (auto simp: CallAbs o)
next
  case (BranchAbs oc r1 r2 x)
  then have o: "unat (slot x - of_nat (p + 8)) = unat (slot x) - (p + 8)"
    using off [of x] by (intro unat_slot_difference) simp_all
  have far: "p + 20 \<le> unat (slot x)" "unat (slot x) < 2 ^ 31 - 2 ^ 11" using off [of x] BranchAbs by simp_all
  then have eq: "mpc s + of_nat (unat (slot x) - p) = mpc s + 8 + of_nat (unat (slot x) - (p + 8))"
    by (simp add: of_nat_diff)
  have "code_at (mmem s) (mpc s + of_nat (unat (slot x) - p)) (bytes_of 8 x)"
  proof -
    have "x \<in> set (block_addresses b)" using BranchAbs by simp
    from off [OF this] show ?thesis by blast
  qed
  then have "code_at (mmem s) (mpc s + 8 + of_nat (unat (slot x - of_nat (p + 8)))) (bytes_of 8 x)"
    unfolding o eq .
  moreover have "unat (slot x - of_nat (p + 8)) < 2 ^ 31 - 2 ^ 11"
    unfolding o using far by linarith
  ultimately show ?thesis
    unfolding BranchAbs using code wf BranchAbs by (intro run_branch [of s slot p oc r1 r2 x]) simp_all
qed (use wf in simp)

section \<open>Running a block of an installed layout\<close>

lemma blocks_code_append:
  "blocks_code slot p (bs @ cs) = blocks_code slot p bs @ blocks_code slot (p + blocks_size bs) cs"
  by (induction bs arbitrary: p) (simp_all add: add.assoc)

lemma length_concat_words [simp]: "length (concat (map (bytes_of 8) xs)) = 8 * length xs"
  by (induction xs) simp_all

lemma table_entry_at:
  assumes code: "code_at mem a (concat (map (bytes_of 8) xs))" and x: "x \<in> set xs"
  shows "code_at mem (a + of_nat (8 * length (takeWhile (\<lambda>y. y \<noteq> x) xs))) (bytes_of 8 x)"
proof -
  let ?pre = "takeWhile (\<lambda>y. y \<noteq> x) xs"
  have "dropWhile (\<lambda>y. y \<noteq> x) xs \<noteq> []" using x by (auto simp: dropWhile_eq_Nil_conv)
  then obtain y post where d: "dropWhile (\<lambda>y. y \<noteq> x) xs = y # post"
    by (cases "dropWhile (\<lambda>y. y \<noteq> x) xs") auto
  moreover have "y = x" using hd_dropWhile [of "\<lambda>y. y \<noteq> x" xs] d by simp
  ultimately have eq: "xs = ?pre @ x # post"
    using takeWhile_dropWhile_id [of "\<lambda>y. y \<noteq> x" xs] by simp
  have "concat (map (bytes_of 8) xs) = concat (map (bytes_of 8) ?pre) @ bytes_of 8 x @
      concat (map (bytes_of 8) post)"
    using arg_cong [OF eq, of "\<lambda>xs. concat (map (bytes_of 8) xs)"] by simp
  with code show ?thesis by (simp only: code_at_append length_concat_words)
qed

text \<open>The code of a block stands where the sizes of the blocks before it say.\<close>

lemma layout_block_at:
  assumes "code_at (mmem s) start (layout (pre @ b # post))"
    and "mpc s = start + of_nat (blocks_size pre)"
  shows "code_at (mmem s) (mpc s) (block_code (table_slot (blocks_size (pre @ b # post))
    (address_table (pre @ b # post))) (blocks_size pre) b)"
proof -
  let ?bs = "pre @ b # post"
  let ?slot = "table_slot (blocks_size ?bs) (address_table ?bs)"
  from assms(1) have "code_at (mmem s) start (blocks_code ?slot 0 ?bs)"
    unfolding layout_def Let_def code_at_append length_blocks_code by blast
  then show ?thesis
    unfolding assms(2) blocks_code_append blocks_code.simps code_at_append by simp
qed

lemma run_layout_block:
  assumes code: "code_at (mmem s) start (layout (pre @ b # post))"
    and pc: "mpc s = start + of_nat (blocks_size pre)"
    and wf: "wf_block b" "rewritten b"
    and small: "2 * blocks_size (pre @ b # post) < 2 ^ 31 - 2 ^ 11"
  shows "run (block_steps b s) s = Some (block_effect b s)"
proof -
  let ?bs = "pre @ b # post"
  let ?table = "address_table ?bs" and ?size = "blocks_size ?bs" and ?p = "blocks_size pre"
  let ?slot = "table_slot ?size ?table"
  from code have c: "code_at (mmem s) (start + of_nat ?size) (concat (map (bytes_of 8) ?table))"
    unfolding layout_def Let_def code_at_append length_blocks_code by blast
  note here = layout_block_at [OF code pc]
  show ?thesis
  proof (rule run_block [OF here wf])
    fix x
    assume x: "x \<in> set (block_addresses b)"
    let ?i = "length (takeWhile (\<lambda>y. y \<noteq> x) ?table)"
    have tab: "x \<in> set ?table" using x by simp
    have "?i \<le> length ?table" by (rule length_takeWhile_le)
    then have lim: "?size + 8 * ?i < 2 ^ 31 - 2 ^ 11" using table_bound [of ?bs] small by linarith
    then have slot: "unat (?slot x) = ?size + 8 * ?i"
      unfolding table_slot_def by (intro unat_position) simp
    have "mpc s + of_nat (unat (?slot x) - ?p) = start + of_nat ?size + of_nat (8 * ?i)"
      unfolding slot pc by (simp add: of_nat_diff)
    with table_entry_at [OF c tab]
    have "code_at (mmem s) (mpc s + of_nat (unat (?slot x) - ?p)) (bytes_of 8 x)" by (simp only:)
    moreover have "?p + block_size b \<le> unat (?slot x)" unfolding slot by simp
    ultimately show "?p + block_size b \<le> unat (?slot x) \<and> unat (?slot x) < 2 ^ 31 - 2 ^ 11 \<and>
        code_at (mmem s) (mpc s + of_nat (unat (?slot x) - ?p)) (bytes_of 8 x)"
      using lim unfolding slot by blast
  qed
qed

section \<open>The original instruction\<close>

primrec original_effect :: "nat \<Rightarrow> block \<Rightarrow> machine \<Rightarrow> machine" where
  "original_effect count (Verbatim bs) s = s"
| "original_effect count (LoadAbs r x) s = advance count (write_reg r x s)"
| "original_effect count (CallAbs rd x) s = (write_reg rd (mpc s + of_nat count) s)\<lparr>mpc := x\<rparr>"
| "original_effect count (BranchAbs oc r1 r2 x) s =
     (if block_taken oc r1 r2 s then s\<lparr>mpc := x\<rparr> else advance count s)"

lemma block_at_call:
  assumes "block_at mem a ret = Some (b, ret')"
  obtains c where "Decode mem a = ([c], GetInsnSize mem a)"
    and "block_of_call a (read_bytes mem a (GetInsnSize mem a)) ret c = Some b" and "wf_call c"
proof -
  obtain calls count where d: "Decode mem a = (calls, count)" by (cases "Decode mem a")
  then have "count = GetInsnSize mem a" using snd_Decode [of mem a] by simp
  with assms d wf_Decode [of mem a] that show thesis
    by (auto simp: block_at_def split: list.splits)
qed

lemma original_step:
  assumes "block_at (mmem s) (mpc s) ret = Some (b, ret')" and "rewritten b"
  shows "step s = Some (original_effect (GetInsnSize (mmem s) (mpc s)) b s)"
proof -
  from assms(1) obtain c where c: "Decode (mmem s) (mpc s) = ([c], GetInsnSize (mmem s) (mpc s))"
    "block_of_call (mpc s) (read_bytes (mmem s) (mpc s) (GetInsnSize (mmem s) (mpc s))) ret c = Some b"
    by (rule block_at_call)
  from c(2) assms(2) show ?thesis
    using branch_opcode_base(3)
    by (cases c)
      (auto simp: step_def c(1) exec_call_def block_of_call_def block_taken_def
        split: option.splits if_splits)
qed

lemma even_scast: "even (scast (w :: 'a::len word) :: 'b::len word) \<longleftrightarrow> even w"
proof -
  have "bit (scast w :: 'b word) 0 \<longleftrightarrow> bit w 0" by (simp only: bit_simps) simp
  then show ?thesis by (simp add: bit_0)
qed

lemma wf_block_at:
  assumes "block_at mem a ret = Some (b, ret')" and "even a"
  shows "wf_block b"
proof -
  from assms(1) obtain c where c: "block_of_call a (read_bytes mem a (GetInsnSize mem a)) ret c = Some b"
    "wf_call c" by (rule block_at_call)
  then show ?thesis
    using assms(2) branch_opcode_base(3)
    by (cases c)
      (auto simp: block_of_call_def wf_call_def even_scast split: option.splits if_splits)
qed

section \<open>The instructions of a prologue\<close>

primrec instruction_address :: "memory \<Rightarrow> u64 \<Rightarrow> nat \<Rightarrow> u64" where
  "instruction_address mem a 0 = a"
| "instruction_address mem a (Suc k) = instruction_address mem (a + of_nat (GetInsnSize mem a)) k"

lemma instruction_address_Suc:
  "instruction_address mem a (Suc k) =
   instruction_address mem a k + of_nat (GetInsnSize mem (instruction_address mem a k))"
  by (induction k arbitrary: a) simp_all

lemma even_instruction_address: "even a \<Longrightarrow> even (instruction_address mem a k)"
proof (induction k arbitrary: a)
  case (Suc k)
  have "even (a + of_nat (GetInsnSize mem a))"
    using Suc.prems GetInsnSize_cases [of mem a] by auto
  with Suc.IH show ?case by simp
qed simp

lemma prologue_blocks_cases:
  assumes "prologue_blocks mem a n ret = Some (bs, tot)"
  obtains (finished) "n \<le> 0" "bs = []" "tot = 0"
  | (more) b ret' bs' tot' where "n > 0" "bs = b # bs'" "tot = GetInsnSize mem a + tot'"
      "block_at mem a ret = Some (b, ret')"
      "prologue_blocks mem (a + of_nat (GetInsnSize mem a)) (n - int (GetInsnSize mem a)) ret' =
         Some (bs', tot')"
  using assms
  by (subst (asm) prologue_blocks.simps)
    (auto split: if_splits option.splits simp: Let_def)

lemma prologue_blocks_facts:
  assumes "prologue_blocks mem a n ret = Some (bs, tot)"
  shows "k < length bs \<Longrightarrow> \<exists>r r'. block_at mem (instruction_address mem a k) r = Some (bs ! k, r')"
    and "a + of_nat tot = instruction_address mem a (length bs)"
    and "blocks_size bs \<le> code_bound n"
    and "0 < n \<Longrightarrow> n \<le> int tot \<and> int tot < n + 4"
  using assms
proof (induction bs arbitrary: a n ret tot k)
  case Nil
  { case 1 then show ?case by simp }
  { case 2 from 2 show ?case by (cases rule: prologue_blocks_cases) simp_all }
  { case 3 then show ?case by simp }
  { case 4 from 4(2,1) show ?case by (cases rule: prologue_blocks_cases) simp_all }
next
  case (Cons b bs)
  { case 1 from 1(2,1) Cons.IH(1) show ?case
      by (cases rule: prologue_blocks_cases) (auto simp: nth_Cons split: nat.split) }
  { case 2 from 2 Cons.IH(2) show ?case
      by (cases rule: prologue_blocks_cases) (auto simp: add.assoc [symmetric]) }
  { case 3 from 3 show ?case
    proof (cases rule: prologue_blocks_cases)
      case (more b' ret' bs' tot')
      have "20 + code_bound (n - int (GetInsnSize mem a)) \<le> code_bound n"
        using more(1) GetInsnSize_cases by (rule code_bound_step)
      moreover have "block_size b \<le> 20" using block_size_at more by simp
      ultimately show ?thesis using Cons.IH(3) more by fastforce
    qed simp }
  { case 4 from 4(2,1) show ?case
    proof (cases rule: prologue_blocks_cases)
      case (more b' ret' bs' tot')
      let ?n = "n - int (GetInsnSize mem a)"
      have g: "GetInsnSize mem a = 2 \<or> GetInsnSize mem a = 4" by (rule GetInsnSize_cases)
      show ?thesis
      proof (cases "?n > 0")
        case True
        with Cons.IH(4) more have "?n \<le> int tot' \<and> int tot' < ?n + 4" by auto
        with more(3) show ?thesis by simp
      next
        case False
        from more(5) False have "tot' = 0" by (cases rule: prologue_blocks_cases) simp_all
        with more(1,3) g False show ?thesis by auto
      qed
    qed simp }
qed

section \<open>Relocation preserves the instructions\<close>

primrec link_register :: "block \<Rightarrow> Register option" where
  "link_register (Verbatim bs) = None"
| "link_register (LoadAbs r x) = None"
| "link_register (CallAbs rd x) = Some rd"
| "link_register (BranchAbs oc r1 r2 x) = None"

text \<open>
  The states that the original instruction and its block leave agree on all registers but the scratch
  register and the link register, and on where they continue.
\<close>

lemma read_write_reg: "read_reg q (write_reg r v s) = (if q = r \<and> r \<noteq> 0 then v else read_reg q s)"
  by (auto simp: read_reg_def write_reg_def)

lemma block_effect_agrees:
  assumes "rewritten b" and regs: "\<And>r. read_reg r s = read_reg r t"
  shows "r \<noteq> TMP_GENERIC_REGISTER \<Longrightarrow> link_register b \<noteq> Some r \<Longrightarrow>
      read_reg r (block_effect b t) = read_reg r (original_effect count b s)"
    and "mpc (block_effect b t) = mpc (original_effect count b s) \<or>
      mpc (original_effect count b s) = mpc s + of_nat count \<and>
      mpc (block_effect b t) = mpc t + of_nat (block_size b)"
    and "mmem (block_effect b t) = mmem t"
  using assms(1) by (cases b; auto simp: read_write_reg block_taken_def regs)+

text \<open>
  The simulation. The prologue at \<open>a\<close> in the memory of the state \<open>s\<close>, relocated, has been installed
  at \<open>start\<close> in the memory of \<open>t\<close>; \<open>s\<close> is at the instruction \<open>k\<close> of the prologue, \<open>t\<close> at its block.
\<close>

lemma relocated_instruction:
  assumes rel: "prologue_blocks (mmem s) a n False = Some (bs, tot)" and k: "k < length bs"
    and a: "even a" and n: "n \<le> 2 ^ 26"
    and installed: "code_at (mmem t) start (layout (bs @ [CallAbs zero (a + of_nat tot)]))"
    and rw: "rewritten (bs ! k)"
    and pcs: "mpc s = instruction_address (mmem s) a k"
      "mpc t = start + of_nat (blocks_size (take k bs))"
    and regs: "\<And>r. read_reg r s = read_reg r t"
  obtains s' t' where "step s = Some s'" and "run (block_steps (bs ! k) t) t = Some t'"
    and "mmem t' = mmem t"
    and "\<And>r. r \<noteq> TMP_GENERIC_REGISTER \<Longrightarrow> link_register (bs ! k) \<noteq> Some r \<Longrightarrow>
      read_reg r t' = read_reg r s'"
    and "mpc t' = mpc s' \<or>
      mpc s' = instruction_address (mmem s) a (Suc k) \<and>
      mpc t' = start + of_nat (blocks_size (take (Suc k) bs))"
proof -
  let ?b = "bs ! k" and ?last = "CallAbs zero (a + of_nat tot)"
  let ?count = "GetInsnSize (mmem s) (mpc s)"
  obtain r r' where at: "block_at (mmem s) (mpc s) r = Some (?b, r')"
    using prologue_blocks_facts(1) [OF rel k] pcs(1) by auto
  have wf: "wf_block ?b"
    using wf_block_at [OF at] even_instruction_address [OF a] pcs(1) by simp
  have split: "bs @ [?last] = take k bs @ ?b # (drop (Suc k) bs @ [?last])"
    using id_take_nth_drop [OF k] by simp
  have "code_bound n \<le> 10 * (2 ^ 26 + 1)" using n by (simp add: code_bound_def)
  then have small: "2 * blocks_size (bs @ [?last]) < 2 ^ 31 - 2 ^ 11"
    using prologue_blocks_facts(3) [OF rel] by simp
  have "run (block_steps ?b t) t = Some (block_effect ?b t)"
    using run_layout_block [of t start "take k bs" ?b "drop (Suc k) bs @ [?last]"]
      installed pcs(2) wf rw small unfolding split by blast
  moreover have "step s = Some (original_effect ?count ?b s)"
    by (rule original_step [OF at rw])
  moreover have "mpc s + of_nat ?count = instruction_address (mmem s) a (Suc k)"
    using instruction_address_Suc [of "mmem s" a k] pcs(1) by simp
  moreover have "mpc t + of_nat (block_size ?b) = start + of_nat (blocks_size (take (Suc k) bs))"
    using pcs(2) k by (simp add: take_Suc_conv_app_nth)
  ultimately show thesis
    using that block_effect_agrees [OF rw regs] by metis
qed

lemma relocated_tail:
  assumes rel: "prologue_blocks mem a n False = Some (bs, tot)" and a: "even a" and n: "n \<le> 2 ^ 26"
    and installed: "code_at (mmem t) start (layout (bs @ [CallAbs zero (a + of_nat tot)]))"
    and pc: "mpc t = start + of_nat (blocks_size bs)"
  shows "run 3 t = Some ((write_reg TMP_GENERIC_REGISTER (a + of_nat tot) t)\<lparr>mpc := a + of_nat tot\<rparr>)"
proof -
  let ?last = "CallAbs zero (a + of_nat tot)"
  have "even (a + of_nat tot)"
    unfolding prologue_blocks_facts(2) [OF rel] by (rule even_instruction_address [OF a])
  then have wf: "wf_block ?last" "rewritten ?last" by (simp_all add: zero_def)
  have "code_bound n \<le> 10 * (2 ^ 26 + 1)" using n by (simp add: code_bound_def)
  then have small: "2 * blocks_size (bs @ [?last]) < 2 ^ 31 - 2 ^ 11"
    using prologue_blocks_facts(3) [OF rel] by simp
  show ?thesis
    using run_layout_block [of t start bs ?last "[]", OF installed pc wf small] by simp
qed

end
