(* ===== verification/Relocation_Correctness.thy ===== *)
theory Relocation_Correctness
  imports Relocation_Semantics
begin

text \<open>
  The properties of \<open>RV64Relocator::Relocate\<close>: what code it produces, that this code does what the
  prologue does, how many bytes of the function it accounts for, and what it does not relocate.
  Each is a few steps from the lemmas of \<open>Relocation_Refinement\<close> and \<open>Relocation_Semantics\<close>.

  The witnesses run on a function of two instructions, \<open>c.addi sp, -16\<close> and \<open>auipc a0, 16\<close>, at
  \<open>0x1000\<close>.
\<close>

section \<open>A concrete prologue\<close>

definition example_memory :: memory where
  "example_memory = mem_of 0x1000 [0x41, 0x11, 0x17, 0x05, 0x01, 0x00]"

definition example_blocks :: "block list" where
  "example_blocks = [Verbatim [0x41, 0x11], LoadAbs 10 0x11002]"

lemma example_prologue: "prologue_blocks example_memory 0x1000 4 False = Some (example_blocks, 6)"
  by code_simp

lemma example_relocated:
  "relocated_blocks example_memory 0x1000 4 = Some (example_blocks @ [CallAbs zero 0x1006], 6)"
  by (simp add: relocated_blocks_def example_prologue)

text \<open>A machine whose program counter is at \<open>p\<close> and whose registers are all zero.\<close>

definition example_machine :: "memory \<Rightarrow> u64 \<Rightarrow> machine" where
  "example_machine mem p = \<lparr>regs = (\<lambda>r. 0), mpc = p, mmem = mem\<rparr>"

definition relocated_memory :: memory where
  "relocated_memory = mem_of 0x80000 (layout (example_blocks @ [CallAbs zero 0x1006]))"

lemma relocated_memory_installed:
  "code_at relocated_memory 0x80000 (layout (example_blocks @ [CallAbs zero (0x1000 + of_nat 6)]))"
proof -
  have "length (layout (example_blocks @ [CallAbs zero 0x1006])) = 38" by code_simp
  then show ?thesis unfolding relocated_memory_def by (simp add: code_at_mem_of)
qed

section \<open>The code that is produced\<close>

text \<open>
  C2: \<open>Relocate\<close> reads the prologue into blocks, one per instruction (a copy, a load of an absolute
  address, a jump or a branch to one), and the finished code is exactly the layout of these blocks,
  of a jump to the instruction behind the prologue and of the table of absolute addresses, with all
  label offsets resolved. It returns 0 exactly when an instruction has no block. No check of the
  assembler aborts.
\<close>

theorem Relocate_produces_layout:
  assumes "n \<le> 2 ^ 27"
  shows "case relocated_blocks mem a n of
      None \<Rightarrow> \<exists>l'. RelocatePrologue mem a n l = Inr (l', None)
    | Some (bs, tot) \<Rightarrow>
        RelocatePrologue mem a n l = Inr (l, Some (\<lparr>code_bytes = layout bs, relocations = []\<rparr>, tot))"
  using assms by (rule RelocatePrologue_blocks)

theorem Relocate_produces_layout_witness:
  "RelocatePrologue example_memory 0x1000 4 initial_logger =
     Inr (initial_logger,
       Some (\<lparr>code_bytes = layout (example_blocks @ [CallAbs zero 0x1006]), relocations = []\<rparr>, 6))"
  using Relocate_produces_layout [of 4 example_memory "0x1000" initial_logger]
  by (simp add: example_relocated)

text \<open>
  C12: When \<open>Relocate\<close> succeeds, the size it returns covers whole instructions: at least the bytes
  asked for, at most two more than the last byte needs, and it is where the instruction behind the
  prologue starts. The logger is not touched and the code needs no relocation on installation.
\<close>

theorem Relocate_overwrite_size:
  assumes "RelocatePrologue mem a n l = Inr (l', Some (mc, overwrite_size))"
    and "0 < n" and "n \<le> 2 ^ 27"
  shows "n \<le> int overwrite_size \<and> int overwrite_size < n + 4 \<and>
    (\<exists>k. a + of_nat overwrite_size = instruction_address mem a k) \<and> l' = l \<and> relocations mc = []"
proof -
  from RelocatePrologue_blocks [OF assms(3), of mem a l] assms(1)
  obtain bs where "relocated_blocks mem a n = Some (bs, overwrite_size)" "l' = l" "relocations mc = []"
    by (auto split: option.splits)
  then show ?thesis
    using prologue_blocks_facts(2,4) assms(2) by (fastforce simp: relocated_blocks_def)
qed

theorem Relocate_overwrite_size_witness:
  "(4 :: int) \<le> int 6 \<and> int 6 < (4 :: int) + 4 \<and>
   (\<exists>k. 0x1000 + of_nat 6 = instruction_address example_memory 0x1000 k) \<and>
   initial_logger = initial_logger \<and>
   relocations \<lparr>code_bytes = layout (example_blocks @ [CallAbs zero 0x1006]), relocations = []\<rparr> = []"
  by (rule Relocate_overwrite_size [of example_memory "0x1000" 4 initial_logger initial_logger
        "\<lparr>code_bytes = layout (example_blocks @ [CallAbs zero 0x1006]), relocations = []\<rparr>" 6])
    (use RelocatePrologue_blocks [of 4 example_memory "0x1000" initial_logger] in
      \<open>simp_all add: example_relocated\<close>)

section \<open>Its meaning\<close>

text \<open>The code of a successful relocation is the layout of the blocks of the prologue.\<close>

lemma relocated_code:
  assumes "RelocatePrologue mem a n l = Inr (l', Some (mc, tot'))" and "n \<le> 2 ^ 27"
    and "prologue_blocks mem a n False = Some (bs, tot)"
  shows "code_bytes mc = layout (bs @ [CallAbs zero (a + of_nat tot)])" and "tot' = tot"
  using RelocatePrologue_blocks [OF assms(2), of mem a l] assms(1,3)
  by (simp_all add: relocated_blocks_def)

text \<open>
  An instruction that is copied keeps its meaning: wherever the bytes of a block that is not
  rewritten stand, the decoder reads the same instruction of the same size from them, and it is none
  of those whose effect the model says to depend on its address (\<open>auipc\<close>, \<open>jal\<close>, a branch with a
  defined condition).
\<close>

definition copied_call :: "consumer_call list \<Rightarrow> bool" where
  "copied_call cs \<longleftrightarrow> (case cs of
       [consumer_call.Auipc args] \<Rightarrow> False
     | [consumer_call.JumpAndLink args] \<Rightarrow> False
     | [consumer_call.CompareAndBranch args] \<Rightarrow> branch_opcode (BranchArgs.opcode args) = None
     | [c] \<Rightarrow> True
     | _ \<Rightarrow> False)"

lemma copied_block:
  assumes "block_at mem a ret = Some (Verbatim bs, ret')"
  shows "bs = read_bytes mem a (GetInsnSize mem a)" and "copied_call (fst (Decode mem a))"
proof -
  obtain c where c: "Decode mem a = ([c], GetInsnSize mem a)"
    "block_of_call a (read_bytes mem a (GetInsnSize mem a)) ret c = Some (Verbatim bs)"
    using assms by (rule block_at_call)
  then show "bs = read_bytes mem a (GetInsnSize mem a)" "copied_call (fst (Decode mem a))"
    by (auto simp: copied_call_def block_of_call_def split: consumer_call.splits option.splits if_splits)
qed

lemma copied_block_size:
  assumes "block_at mem a ret = Some (Verbatim bs, ret')"
  shows "block_size (Verbatim bs) = snd (Decode mem a)"
  using copied_block(1) [OF assms] by (simp add: snd_Decode)

lemma copied_instruction_decodes:
  assumes "block_at mem a ret = Some (Verbatim bs, ret')" and "code_at mem' p bs"
  shows "Decode mem' p = Decode mem a \<and> copied_call (fst (Decode mem a))"
  using copied_block [OF assms(1)] same_bytes_same_instruction [of mem' p mem a] assms(2)
  by (simp add: code_at_def)

text \<open>\<open>auipc\<close> with the destination \<open>x0\<close>.\<close>

lemma load_through_zero:
  assumes "code_at mem p (block_code slot i (LoadAbs 0 x))"
  shows "fst (Decode mem (p + 4)) =
      [Load \<lparr>LoadArgsTemplate.operand_type = LoadOperandType.k64bit, LoadArgsTemplate.dst = 0,
             LoadArgsTemplate.src = 0,
             LoadArgsTemplate.offset = ucast (split_bottom (slot x - of_nat i))\<rparr>]"
proof -
  have ld: "code_at mem (p + 4) (bytes_of 4 (ld_word 0 (split_bottom (slot x - of_nat i))))"
    using assms by (simp add: load_bytes_def code_at_append)
  show ?thesis by (simp add: Decode_word [OF ld word_formats(3,4)] decode_ld split_bottom_def)
qed

lemma instruction_block:
  assumes "prologue_blocks (mmem s) a n False = Some (bs, tot)" and "k < length bs"
    and "code_at (mmem t) start (layout (bs @ [CallAbs zero (a + of_nat tot)]))"
    and "mpc s = instruction_address (mmem s) a k" and "mpc t = start + of_nat (blocks_size (take k bs))"
  obtains r r' slot i where "block_at (mmem s) (mpc s) r = Some (bs ! k, r')"
    and "code_at (mmem t) (mpc t) (block_code slot i (bs ! k))"
proof -
  have split: "bs @ [CallAbs zero (a + of_nat tot)] =
      take k bs @ bs ! k # (drop (Suc k) bs @ [CallAbs zero (a + of_nat tot)])"
    using id_take_nth_drop [OF assms(2)] by simp
  show thesis
    using that prologue_blocks_facts(1) [OF assms(1,2)] assms(4)
      layout_block_at [OF assms(3) [unfolded split] assms(5)] by metis
qed

text \<open>
  C1: Relocation preserves the instructions of the prologue but \<open>auipc\<close> with the destination \<open>x0\<close>. Let
  \<open>Relocate\<close> succeed on a prologue at \<open>a\<close> and the code it finishes be installed anywhere. Let a machine \<open>s\<close>
  be at the instruction \<open>k\<close> of the original function and a machine \<open>t\<close> with the same registers at the
  block of this instruction.
  If the block is a rewritten \<open>auipc\<close>, \<open>jal\<close> or branch, \<open>s\<close> steps, \<open>t\<close> runs through its block, and they
  agree again: on every register but the scratch register \<open>t3\<close> and the link register of a call, and
  on where they go, which is the same absolute address or the next instruction and the next block.
  Otherwise it is a copy: the decoder reads the same call and size at \<open>t\<close> as at \<open>s\<close>, it is none of those
  three (with a condition that is defined), and the next block stands behind it as the next
  instruction behind the original (so a copied \<open>jalr\<close> links to the relocated code). The exception is \<open>auipc\<close> with the destination \<open>x0\<close>, a hint without
  effect, for which the second instruction of the block is a load through \<open>x0\<close>.
\<close>

theorem relocated_instruction_simulates:
  assumes "RelocatePrologue (mmem s) a n l = Inr (l', Some (mc, tot))"
    and "prologue_blocks (mmem s) a n False = Some (bs, tot)" and "k < length bs"
    and "even a" and "n \<le> 2 ^ 26"
    and "code_at (mmem t) start (code_bytes mc)"
    and "mpc s = instruction_address (mmem s) a k"
    and "mpc t = start + of_nat (blocks_size (take k bs))"
    and "\<And>r. read_reg r s = read_reg r t"
  shows "if rewritten (bs ! k) then
     \<exists>s' t'. step s = Some s' \<and> run (block_steps (bs ! k) t) t = Some t' \<and> mmem t' = mmem t \<and>
      (\<forall>r. r = TMP_GENERIC_REGISTER \<or> link_register (bs ! k) = Some r \<or>
           read_reg r t' = read_reg r s') \<and>
      (mpc t' = mpc s' \<or>
       mpc s' = instruction_address (mmem s) a (Suc k) \<and>
       mpc t' = start + of_nat (blocks_size (take (Suc k) bs)))
   else if bs ! k \<in> range (LoadAbs 0) then
     \<exists>ofs. fst (Decode (mmem t) (mpc t + 4)) =
      [Load \<lparr>LoadArgsTemplate.operand_type = LoadOperandType.k64bit, LoadArgsTemplate.dst = 0,
             LoadArgsTemplate.src = 0, LoadArgsTemplate.offset = ofs\<rparr>]
   else Decode (mmem t) (mpc t) = Decode (mmem s) (mpc s) \<and>
     copied_call (fst (Decode (mmem s) (mpc s))) \<and>
     instruction_address (mmem s) a (Suc k) = mpc s + of_nat (snd (Decode (mmem s) (mpc s))) \<and>
     start + of_nat (blocks_size (take (Suc k) bs)) = mpc t + of_nat (snd (Decode (mmem t) (mpc t)))"
proof -
  have "n \<le> 2 ^ 27" using assms(5) by simp
  note code = relocated_code(1) [OF assms(1) this assms(2)]
  note installed = assms(6) [unfolded code]
  obtain r r' slot i where at: "block_at (mmem s) (mpc s) r = Some (bs ! k, r')"
    and here: "code_at (mmem t) (mpc t) (block_code slot i (bs ! k))"
    using instruction_block [OF assms(2,3) installed assms(7,8)] by metis
  show ?thesis
  proof (cases "rewritten (bs ! k)")
    case True
    from relocated_instruction [OF assms(2-5) installed True assms(7-9)]
    obtain s' t' where "step s = Some s'"
      "run (block_steps (bs ! k) t) t = Some t'" "mmem t' = mmem t"
      "\<And>r. r \<noteq> TMP_GENERIC_REGISTER \<Longrightarrow> link_register (bs ! k) \<noteq> Some r \<Longrightarrow>
        read_reg r t' = read_reg r s'"
      "mpc t' = mpc s' \<or>
        mpc s' = instruction_address (mmem s) a (Suc k) \<and>
        mpc t' = start + of_nat (blocks_size (take (Suc k) bs))" by blast
    then show ?thesis unfolding if_P [OF True] by blast
  next
    case False
    then consider (zero) x where "bs ! k = LoadAbs 0 x" | (copy) b where "bs ! k = Verbatim b"
      by (cases "bs ! k") auto
    then show ?thesis
    proof cases
      case zero
      then show ?thesis using load_through_zero [OF here [unfolded zero]] by auto
    next
      case copy
      note same = copied_instruction_decodes [OF at [unfolded copy] here [unfolded copy block_code.simps]]
      have "block_size (bs ! k) = snd (Decode (mmem s) (mpc s))"
        using copied_block_size [OF at [unfolded copy]] copy by simp
      then have "start + of_nat (blocks_size (take (Suc k) bs)) = mpc t + of_nat (snd (Decode (mmem t) (mpc t)))"
        using assms(3,8) same by (simp add: take_Suc_conv_app_nth)
      then show ?thesis
        using copy same instruction_address_Suc [of "mmem s" a k] assms(7) by (auto simp: snd_Decode)
    qed
  qed
qed

lemma example_sizes: "GetInsnSize example_memory 0x1000 = 2" "GetInsnSize example_memory 0x1002 = 4"
  by code_simp+

lemma example_relocation:
  "RelocatePrologue example_memory 0x1000 4 initial_logger =
     Inr (initial_logger,
       Some (\<lparr>code_bytes = layout (example_blocks @ [CallAbs zero 0x1006]), relocations = []\<rparr>, 6))"
  using RelocatePrologue_blocks [of 4 example_memory "0x1000" initial_logger]
  by (simp add: example_relocated)

theorem relocated_instruction_simulates_witness:
  "\<exists>s' t'. step (example_machine example_memory 0x1002) = Some s' \<and>
     run 2 (example_machine relocated_memory 0x80002) = Some t' \<and> mmem t' = relocated_memory \<and>
     (\<forall>r. r = TMP_GENERIC_REGISTER \<or> read_reg r t' = read_reg r s') \<and>
     (mpc t' = mpc s' \<or> mpc s' = 0x1006 \<and> mpc t' = 0x8000a)"
  using relocated_instruction_simulates [of "example_machine example_memory 0x1002" "0x1000" 4
      initial_logger initial_logger
      "\<lparr>code_bytes = layout (example_blocks @ [CallAbs zero 0x1006]), relocations = []\<rparr>" 6
      example_blocks 1 "example_machine relocated_memory 0x80002" "0x80000"]
    example_relocation example_prologue relocated_memory_installed
  by (simp add: example_machine_def read_reg_def example_blocks_def example_sizes)

text \<open>
  C10: Behind the last block the relocated code jumps to the instruction behind the prologue: from
  the end of its blocks it reaches that address in three steps, having changed nothing but the
  scratch register.
\<close>

theorem relocated_code_returns:
  assumes "RelocatePrologue mem a n l = Inr (l', Some (mc, tot))"
    and "prologue_blocks mem a n False = Some (bs, tot)" and "even a" and "n \<le> 2 ^ 26"
    and "code_at (mmem t) start (code_bytes mc)"
    and "mpc t = start + of_nat (blocks_size bs)"
  shows "run 3 t =
    Some ((write_reg TMP_GENERIC_REGISTER (a + of_nat tot) t)\<lparr>mpc := a + of_nat tot\<rparr>)"
proof -
  have "n \<le> 2 ^ 27" using assms(4) by simp
  note code = relocated_code(1) [OF assms(1) this assms(2)]
  show ?thesis by (rule relocated_tail [OF assms(2-4) assms(5) [unfolded code] assms(6)])
qed

theorem relocated_code_returns_witness:
  "run 3 (example_machine relocated_memory 0x8000a) =
   Some ((write_reg TMP_GENERIC_REGISTER 0x1006 (example_machine relocated_memory 0x8000a))
     \<lparr>mpc := 0x1006\<rparr>)"
  using relocated_code_returns [of example_memory "0x1000" 4 initial_logger initial_logger
      "\<lparr>code_bytes = layout (example_blocks @ [CallAbs zero 0x1006]), relocations = []\<rparr>" 6
      example_blocks "example_machine relocated_memory 0x8000a" "0x80000"]
    example_relocation example_prologue relocated_memory_installed
  by (simp add: example_machine_def example_blocks_def)

text \<open>A copy of \<open>c.addi\<close> in the relocated code of the example is the same \<open>c.addi\<close>.\<close>

lemma copied_instruction_decodes_witness:
  "Decode (mem_of 0x80000 [0x41, 0x11]) 0x80000 = Decode example_memory 0x1000"
proof -
  have "block_at example_memory 0x1000 False = Some (Verbatim [0x41, 0x11], False)" by code_simp
  moreover have "code_at (mem_of 0x80000 [0x41, 0x11]) 0x80000 [0x41, 0x11]"
    by (rule code_at_mem_of) simp
  ultimately show ?thesis
    using copied_instruction_decodes [of example_memory "0x1000" False "[0x41, 0x11]" False
        "mem_of 0x80000 [0x41, 0x11]" "0x80000"] by blast
qed

section \<open>What is not relocated\<close>

lemma RelocateLoop_first:
  assumes "0 < n" and "RelocateStep mem a (new_relocator l) = Inr (r, None)"
  shows "RelocatePrologue mem a n l = Inr (logger r, None)"
  using assms by (simp add: RelocatePrologue_def RelocateLoop.simps)

text \<open>
  A function that begins with an instruction the decoder does not know is refused: \<open>Relocate\<close>
  returns 0 and leaves the message \<open>Unknown instruction at\<close> with the address of the instruction.
\<close>

theorem unknown_instruction_reported:
  assumes "fst (Decode mem a) = [consumer_call.Undefined]" and "0 < n"
  shows "RelocatePrologue mem a n l =
    Inr (SetError ''Instruction Relocator'' ''Unknown instruction at %#llx'' [a] l, None)"
proof -
  have "\<exists>r. RelocateStep mem a (new_relocator l) = Inr (r, None) \<and>
      logger r = SetError ''Instruction Relocator'' ''Unknown instruction at %#llx'' [a] l"
    using assms(1)
    by (simp add: RelocateStep_def case_prod_beta Let_def consume_call_def Undefined_def SetPC_def
        SetNewState_def new_relocator_def relocator_states kTag_def)
  with RelocateLoop_first [OF assms(2)] show ?thesis by fastforce
qed

theorem unknown_instruction_reported_witness:
  "RelocatePrologue (\<lambda>x. 0) 0x1000 8 initial_logger =
   Inr (SetError ''Instruction Relocator'' ''Unknown instruction at %#llx'' [0x1000] initial_logger,
        None)"
  by (rule unknown_instruction_reported; code_simp)

text \<open>
  A function that begins with \<open>c.nop\<close> or with a \<open>c.addi\<close> that has no effect cannot be relocated,
  and no message says so. \<open>DecodeCompressedAddi\<close> goes on after it has called \<open>Nop\<close> and calls \<open>OpImm\<close>
  as well; the second call puts the relocator into its error state, and \<open>Relocate\<close> returns 0 with the
  logger as it was.
\<close>

theorem compressed_nop_not_relocated:
  assumes "GetInsnSize mem a = 2" and "is_compressed_nop (ucast (load16 mem a))" and "0 < n"
  shows "RelocatePrologue mem a n l = Inr (l, None)"
proof -
  from compressed_nop_calls [OF assms(2)] obtain args where
    "fst (Decode mem a) = [Nop, OpImm args]" using assms(1) by (auto simp: Decode_def)
  then have "\<exists>r. RelocateStep mem a (new_relocator l) = Inr (r, None) \<and> logger r = l"
    by (simp add: RelocateStep_def case_prod_beta Let_def consume_call_def Skip_def SetPC_def
        SetNewState_def new_relocator_def relocator_states)
  with RelocateLoop_first [OF assms(3)] show ?thesis by fastforce
qed

theorem compressed_nop_not_relocated_witness:
  "RelocatePrologue (mem_of 0x1000 [0x01, 0x00]) 0x1000 8 initial_logger = Inr (initial_logger, None)"
  by (rule compressed_nop_not_relocated; code_simp)

text \<open>
  \<open>auipc\<close> with the destination \<open>x0\<close>, a hint without effect, is relocated to a load through \<open>x0\<close>,
  because \<open>Ld\<close> with a label lacks the check of the other loads: wherever the code of the block
  stands, its second instruction is a load whose base register is \<open>x0\<close> and whose address is therefore
  the low part of the distance to the table, within 2 KB of address 0.
\<close>

theorem auipc_zero_becomes_load:
  assumes "fst (Decode mem a) = [consumer_call.Auipc \<lparr>UpperImmArgs.dst = 0, UpperImmArgs.imm = v\<rparr>]"
    and "code_at mem' p (block_code slot i (LoadAbs 0 (a + scast v)))"
  shows "block_at mem a ret = Some (LoadAbs 0 (a + scast v), ret) \<and>
    fst (Decode mem' (p + 4)) =
      [Load \<lparr>LoadArgsTemplate.operand_type = LoadOperandType.k64bit, LoadArgsTemplate.dst = 0,
             LoadArgsTemplate.src = 0,
             LoadArgsTemplate.offset = ucast (split_bottom (slot (a + scast v) - of_nat i))\<rparr>]"
proof
  show "block_at mem a ret = Some (LoadAbs 0 (a + scast v), ret)"
    using assms(1) by (cases "Decode mem a") (simp add: block_at_def block_of_call_def returns_after_def)
  show "fst (Decode mem' (p + 4)) =
      [Load \<lparr>LoadArgsTemplate.operand_type = LoadOperandType.k64bit, LoadArgsTemplate.dst = 0,
             LoadArgsTemplate.src = 0,
             LoadArgsTemplate.offset = ucast (split_bottom (slot (a + scast v) - of_nat i))\<rparr>]"
    by (rule load_through_zero [OF assms(2)])
qed

text \<open>The witness is \<open>auipc x0, 0\<close>, the first instruction of a function at \<open>0x1000\<close>.\<close>

lemma split_bottom_20: "split_bottom 20 = 20"
  by code_simp

theorem auipc_zero_becomes_load_witness:
  "block_at (mem_of 0x1000 [0x17, 0x00, 0x00, 0x00]) 0x1000 False = Some (LoadAbs 0 0x1000, False) \<and>
   fst (Decode (mem_of 0x80000 (block_code (\<lambda>x. 20) 0 (LoadAbs 0 0x1000))) 0x80004) =
     [Load \<lparr>LoadArgsTemplate.operand_type = LoadOperandType.k64bit, LoadArgsTemplate.dst = 0,
            LoadArgsTemplate.src = 0, LoadArgsTemplate.offset = 20\<rparr>]"
proof -
  have decoded: "fst (Decode (mem_of 0x1000 [0x17, 0x00, 0x00, 0x00]) 0x1000) =
      [consumer_call.Auipc \<lparr>UpperImmArgs.dst = 0, UpperImmArgs.imm = 0\<rparr>]" by code_simp
  have "code_at (mem_of 0x80000 (block_code (\<lambda>x. 20) 0 (LoadAbs 0 0x1000))) 0x80000
      (block_code (\<lambda>x. 20) 0 (LoadAbs 0 (0x1000 + scast (0 :: u32))))"
    by (simp del: block_code.simps add: code_at_mem_of)
  from auipc_zero_becomes_load [OF decoded this, of False] split_bottom_20 show ?thesis by simp
qed

end
