(* ===== verification/Assembler_Correctness.thy ===== *)
theory Assembler_Correctness
  imports Instruction_Roundtrip
begin

text \<open>
  The properties of the assembler and of the decoder as a pair: which numbers the immediate classes
  take, what is read back from an encoded immediate and from an encoded instruction, how the distance
  to a label is divided between two instructions, and what installing code changes in memory.
\<close>

section \<open>Immediates\<close>

text \<open>
  The bit masks of the immediate classes accept exactly the numbers of their instruction formats:
  twelve signed bits for I and S, thirteen signed bits and even for B, 21 signed bits and even for J,
  multiples of 32 in twelve bits for P, multiples of 4096 for U, and, from an unsigned argument, only
  those below \<open>2 ^ 31\<close> for U.
\<close>

theorem immediates_accept_their_format:
  fixes v :: u32
  shows "(IImmediate_AccetableValue v \<longleftrightarrow> - (2 ^ 11) \<le> sint v \<and> sint v < 2 ^ 11) \<and>
    (SImmediate_AccetableValue v \<longleftrightarrow> - (2 ^ 11) \<le> sint v \<and> sint v < 2 ^ 11) \<and>
    (BImmediate_AccetableValue v \<longleftrightarrow> - (2 ^ 12) \<le> sint v \<and> sint v < 2 ^ 12 \<and> 2 dvd sint v) \<and>
    (JImmediate_AccetableValue v \<longleftrightarrow> - (2 ^ 20) \<le> sint v \<and> sint v < 2 ^ 20 \<and> 2 dvd sint v) \<and>
    (PImmediate_AccetableValue v \<longleftrightarrow> - (2 ^ 11) \<le> sint v \<and> sint v < 2 ^ 11 \<and> 32 dvd sint v) \<and>
    (UImmediate_AccetableValue v \<longleftrightarrow> - (2 ^ 31) \<le> sint v \<and> sint v < 2 ^ 31 \<and> 4096 dvd sint v) \<and>
    (UImmediate_AccetableValue_unsigned v \<longleftrightarrow> take_bit 31 v = v \<and> take_bit 12 v = 0)"
  by (intro conjI IImmediate_AccetableValue_iff SImmediate_AccetableValue_iff
      BImmediate_AccetableValue_iff JImmediate_AccetableValue_iff PImmediate_AccetableValue_iff
      UImmediate_AccetableValue_iff UImmediate_AccetableValue_unsigned_iff) simp_all

text \<open>
  A factory returns either nothing or an immediate from which the same number is read back, and
  the two formats of a 12-bit immediate convert into each other without loss.
\<close>

lemma immediates_read_back:
  fixes v :: u32
  shows "pred_option (\<lambda>i. BImmediate_int32 i = v) (MakeBImmediate v) \<and>
    pred_option (\<lambda>i. IImmediate_int32 i = v \<and> SImmediate_int32 (SImmediate_of_I i) = v) (MakeIImmediate v) \<and>
    pred_option (\<lambda>i. JImmediate_int32 i = v) (MakeJImmediate v) \<and>
    pred_option (\<lambda>i. SImmediate_int32 i = v \<and> IImmediate_int32 (IImmediate_of_S i) = v) (MakeSImmediate v) \<and>
    pred_option (\<lambda>i. UImmediate_int32 i = v) (MakeUImmediate v)"
  by (simp add: MakeBImmediate_def MakeIImmediate_def MakeJImmediate_def MakeSImmediate_def
      MakeUImmediate_def optional_def BImmediate_roundtrip IImmediate_roundtrip JImmediate_roundtrip
      SImmediate_roundtrip UImmediate_roundtrip S_I_conversions SImmediate_AccetableValue_def)

section \<open>The distance to a label\<close>

text \<open>
  A distance that does not fit one instruction is divided without loss: the upper part is a
  multiple of 4096, the lower part a signed number of twelve bits, both are accepted by their
  immediate classes, and they add up to the distance.
\<close>

lemma label_offset_split:
  "split_top off + split_bottom off = off \<and>
   UImmediate (split_top off) = Inr (UImmediate_MakeRaw (split_top off)) \<and>
   IImmediate (split_bottom off) = Inr (IImmediate_MakeRaw (split_bottom off)) \<and>
   SImmediate (split_bottom off) = Inr (SImmediate_MakeRaw (split_bottom off))"
proof -
  have "SImmediate (split_bottom off) = Inr (SImmediate_MakeRaw (split_bottom off))"
    using I_accepts_iff [of "split_bottom off"]
    by (simp add: SImmediate_def checked_def SImmediate_AccetableValue_def CHECK_def split_bottom_def)
  then show ?thesis by (simp add: split_sum UImmediate_split_top IImmediate_split_bottom)
qed

text \<open>
  Resolving a load from a label patches the two instructions it consists of: wherever they are in
  the code, they become \<open>auipc\<close> and \<open>ld\<close> with the two parts of the distance from the \<open>auipc\<close> to the
  label, and no other byte changes. It never fails, whatever the distance.
\<close>

theorem load_label_resolved:
  assumes "code_bytes (mcode a) = pre @ load_bytes r 0 @ post" and "length pre + 8 < 2 ^ 32"
    and "IsBound l a"
  shows "\<exists>a'. ResolveJump \<lparr>jump_label = l, pc = of_nat (length pre), is_recovery = False\<rparr> a = Inr a' \<and>
    code_bytes (mcode a') = pre @ load_bytes r (position a l - of_nat (length pre)) @ post \<and>
    relocations (mcode a') = relocations (mcode a) \<and> jumps a' = jumps a \<and> position a' = position a"
  by (simp add: ResolveJump_load [OF assms])

definition example_load :: AssemblerBase where
  "example_load = new_assembler\<lparr>mcode := \<lparr>code_bytes = load_bytes 5 0, relocations = []\<rparr>,
     position := (\<lambda>l. 0x1800)\<rparr>"

theorem load_label_resolved_witness:
  "\<exists>a'. ResolveJump \<lparr>jump_label = ArenaLabel 0, pc = 0, is_recovery = False\<rparr> example_load = Inr a' \<and>
    code_bytes (mcode a') = load_bytes 5 0x1800"
  using load_label_resolved [of example_load "[]" 5 "[]" "ArenaLabel 0"]
  by (auto simp: example_load_def IsBound_def kInvalid_def)

section \<open>Encoded instructions\<close>

text \<open>
  The decoder reads from the words that the assembler emits for \<open>auipc\<close>, \<open>ld\<close>, \<open>jalr\<close>, \<open>jal\<close> and
  the branches exactly one call, with the registers and the immediate that were encoded.
\<close>

theorem decoder_inverts_assembler:
  fixes top j b :: u32
  assumes "r < 32" and "r' < 32" and "take_bit 12 top = 0"
    and "JImmediate_AccetableValue j" and "BImmediate_AccetableValue b" and "cond < 8"
  shows
    "DecodeBaseInstruction (encode 0x17 [Rd r, UImmediate_MakeRaw top]) =
       [consumer_call.Auipc \<lparr>UpperImmArgs.dst = r, UpperImmArgs.imm = top\<rparr>] \<and>
     DecodeBaseInstruction (encode 0x3003 [Rd r, Rs1 r, IImmediate_MakeRaw i]) =
       [Load \<lparr>LoadArgsTemplate.operand_type = LoadOperandType.k64bit, LoadArgsTemplate.dst = r,
              LoadArgsTemplate.src = r, LoadArgsTemplate.offset = ucast (signed_take_bit 11 (i :: u32))\<rparr>] \<and>
     DecodeBaseInstruction (encode 0x67 [Rd r, Rs1 r', IImmediate_MakeRaw (0 :: u32)]) =
       [JumpAndLinkRegister \<lparr>JumpAndLinkRegisterArgs.dst = r, JumpAndLinkRegisterArgs.base = r',
          JumpAndLinkRegisterArgs.offset = 0, JumpAndLinkRegisterArgs.insn_len = 4\<rparr>] \<and>
     DecodeBaseInstruction (encode 0x6f [Rd r, JImmediate_MakeRaw j]) =
       [JumpAndLink \<lparr>JumpAndLinkArgs.dst = r, JumpAndLinkArgs.offset = j, JumpAndLinkArgs.insn_len = 4\<rparr>] \<and>
     DecodeBaseInstruction (encode (0x63 OR push_bit 12 cond) [Rs1 r, Rs2 r', BImmediate_MakeRaw b]) =
       [CompareAndBranch \<lparr>BranchArgs.opcode = BranchOpcode_of (ucast cond), BranchArgs.src1 = r,
          BranchArgs.src2 = r', BranchArgs.offset = ucast b\<rparr>]"
  using decode_auipc [OF assms(1,3)] decode_ld [OF assms(1), of i] decode_jalr [OF assms(1,2)]
    decode_jal [OF assms(1,4)] decode_branch [OF assms(1,2,5,6)]
  by (simp only: auipc_word_def ld_word_def jalr_word_def jal_word_def branch_word_def
      branch_base_def)

theorem decoder_inverts_assembler_witness:
  "DecodeBaseInstruction (encode 0x6f [Rd 1, JImmediate_MakeRaw (2048 :: u32)]) =
     [JumpAndLink \<lparr>JumpAndLinkArgs.dst = 1, JumpAndLinkArgs.offset = 2048, JumpAndLinkArgs.insn_len = 4\<rparr>]"
proof -
  have "take_bit 12 (4096 :: u32) = 0" "JImmediate_AccetableValue (2048 :: u32)"
    "BImmediate_AccetableValue (16 :: u32)" by code_simp+
  then show ?thesis
    using decoder_inverts_assembler [of 1 2 4096 2048 16 1] by simp
qed

section \<open>Installation\<close>

text \<open>
  Installing code without relocations, as the relocator and the trampolines do, writes exactly
  the bytes of the code at the address and leaves the rest of the memory and the recovery map as they
  were; only empty code aborts.
\<close>

lemma InstallUnsafe_writes_code:
  assumes "relocations mc = []"
  shows "InstallUnsafe start mc recovery mem =
    (if code_bytes mc = [] then Inl CheckFailed
     else Inr (write_bytes mem start (code_bytes mc), recovery))"
  using assms
  by (simp add: InstallUnsafe_def PerformRelocations_def AddrOf_def CHECK_def)

end
