(* ===== verification/Decoder_Correctness.thy ===== *)
theory Decoder_Correctness
  imports Decoder_Registers
begin

text \<open>
  The properties of the decoder: how often it calls its consumer, and that the arguments it passes are
  in range. The properties of the tables of the compressed formats are in \<open>Decoder_Immediates\<close>.
\<close>

text \<open>
  C39: An instruction is reported with exactly one call, except that \<open>c.nop\<close> and the \<open>c.addi\<close> hints
  are reported twice and the reserved encodings next to \<open>vsetvl\<close> not at all.
\<close>

theorem one_call_per_instruction: "length (fst (Decode mem a)) = calls_of mem a"
  by (rule Decode_calls)

text \<open>
  C40: Every register number that the decoder hands to its consumer is below 32, in every call and in every
  member of its arguments that names a register (\<open>call_registers\<close>), and the offset of every jump and
  branch is even, for every word in memory.
\<close>

theorem decoded_arguments_in_range: "list_all wf_call (fst (Decode mem a))"
  by (rule wf_Decode)

end
