(* ===== verification/Libc_Memcpy.thy ===== *)
theory Libc_Memcpy
  imports Prelude
begin

text \<open>
  \<open>__rv64hook_libc_memcpy_gc\<close> of \<open>libc/memcpy_generic.cc\<close>, with which the library writes into code. The
  function aligns its operands, copies words, and mops up the rest, upwards or downwards.

  The lemmas show that it is a \<open>memmove\<close>: for regions that do not wrap around the address
  space the destination holds what the source held before, however the two overlap, and nothing else
  changes.
\<close>

section \<open>The code\<close>

definition wsize :: u64 where "wsize = 8"
definition wmask :: u64 where "wmask = wsize - 1"

type_synonym cursor = "memory \<times> u64 \<times> u64"

text \<open>The bodies of the four loops: the memory, \<open>dst\<close> and \<open>src\<close>.\<close>

fun byte_up :: "cursor \<Rightarrow> cursor" where
  "byte_up (mem, d, s) = (mem(d := mem s), d + 1, s + 1)"

fun word_up :: "cursor \<Rightarrow> cursor" where
  "word_up (mem, d, s) = (write_bytes mem d (read_bytes mem s 8), d + wsize, s + wsize)"

fun byte_down :: "cursor \<Rightarrow> cursor" where
  "byte_down (mem, d, s) = (mem(d - 1 := mem (s - 1)), d - 1, s - 1)"

fun word_down :: "cursor \<Rightarrow> cursor" where
  "word_down (mem, d, s) =
     (write_bytes mem (d - wsize) (read_bytes mem (s - wsize) 8), d - wsize, s - wsize)"

text \<open>
  \<open>TLOOP1\<close> is a \<open>do\<close>-loop that counts \<open>t\<close> down: for \<open>t = 0\<close> it would wrap and run \<open>2 ^ 64\<close> times.
\<close>

definition TLOOP1 :: "(cursor \<Rightarrow> cursor) \<Rightarrow> u64 \<Rightarrow> cursor \<Rightarrow> cursor" where
  "TLOOP1 s t = (s ^^ (if t = 0 then 2 ^ 64 else unat t))"

definition TLOOP :: "(cursor \<Rightarrow> cursor) \<Rightarrow> u64 \<Rightarrow> cursor \<Rightarrow> cursor" where
  "TLOOP s t c = (if t \<noteq> 0 then TLOOP1 s t c else c)"

definition copy_forward :: "u64 \<Rightarrow> cursor \<Rightarrow> cursor" where
  "copy_forward len c =
     (let (mem, d, s) = c;
          (len1, c1) =
            (if (s OR d) AND wmask \<noteq> 0 then
               let t = (if (s XOR d) AND wmask \<noteq> 0 \<or> len < wsize then len else wsize - (s AND wmask))
               in (len - t, TLOOP1 byte_up t c)
             else (len, c));
          c2 = TLOOP word_up (len1 div wsize) c1
      in TLOOP byte_up (len1 AND wmask) c2)"

definition copy_backward :: "u64 \<Rightarrow> cursor \<Rightarrow> cursor" where
  "copy_backward len c =
     (let (mem, d0, s0) = c; s = s0 + len; d = d0 + len;
          (len1, c1) =
            (if (s OR d) AND wmask \<noteq> 0 then
               let t = (if (s XOR d) AND wmask \<noteq> 0 \<or> len \<le> wsize then len else s AND wmask)
               in (len - t, TLOOP1 byte_down t (mem, d, s))
             else (len, (mem, d, s)));
          c2 = TLOOP word_down (len1 div wsize) c1
      in TLOOP byte_down (len1 AND wmask) c2)"

definition memcpy_gc :: "memory \<Rightarrow> u64 \<Rightarrow> u64 \<Rightarrow> u64 \<Rightarrow> memory" where
  "memcpy_gc mem d s len =
     (if len = 0 \<or> d = s then mem
      else if d < s then fst (copy_forward len (mem, d, s))
      else fst (copy_backward len (mem, d, s)))"

section \<open>How far a copy has got\<close>

text \<open>The bytes with offsets from \<open>lo\<close> up to \<open>hi\<close> have been moved.\<close>

definition moved :: "memory \<Rightarrow> u64 \<Rightarrow> u64 \<Rightarrow> nat \<Rightarrow> nat \<Rightarrow> memory" where
  "moved mem d s lo hi =
     (\<lambda>x. if lo \<le> unat (x - d) \<and> unat (x - d) < hi then mem (s + (x - d)) else mem x)"

lemma moved_empty [simp]: "moved mem d s k k = mem"
  by (auto simp: moved_def fun_eq_iff)

lemma moved_all:
  assumes "len \<le> 2 ^ 64"
  shows "moved mem d s 0 len = write_bytes mem d (read_bytes mem s len)"
proof
  fix x
  show "moved mem d s 0 len x = write_bytes mem d (read_bytes mem s len) x"
    by (simp add: moved_def write_bytes_def)
qed

lemma offset_from:
  fixes x :: u64
  assumes "k < 2 ^ 64"
  shows "unat (x - (d + of_nat k)) =
    (if k \<le> unat (x - d) then unat (x - d) - k else 2 ^ 64 + unat (x - d) - k)"
proof -
  have "unat (of_nat k :: u64) = k" using assms by (rule unat_of_nat_64)
  then have "unat (w - of_nat k) = (if k \<le> unat w then unat w - k else 2 ^ 64 + unat w - k)"
    for w :: u64
    using unat_sub_if' [of w "of_nat k"] by (auto split: if_splits)
  note w = this [of "x - d"]
  have e: "x - (d + of_nat k) = x - d - of_nat k" by simp
  show ?thesis unfolding e by (rule w)
qed

lemma write_chunk:
  assumes "k + c \<le> 2 ^ 64" and "0 < c"
  shows "write_bytes mem (d + of_nat k) (read_bytes mem' s' c) x =
    (if k \<le> unat (x - d) \<and> unat (x - d) < k + c then mem' (s' + of_nat (unat (x - d) - k)) else mem x)"
  using assms by (auto simp: write_bytes_def offset_from)

text \<open>
  The source of a byte that is still to be moved has not been overwritten: upwards it lies above the
  bytes moved so far, downwards below them.
\<close>

lemma source_offset:
  fixes s d :: u64
  assumes "unat s + len \<le> 2 ^ 64" and "unat d + len \<le> 2 ^ 64" and "i < len"
  shows "d < s \<Longrightarrow> unat (s + of_nat i - d) > i"
    and "s < d \<Longrightarrow> unat (s + of_nat i - d) < i \<or> len \<le> unat (s + of_nat i - d)"
proof -
  have i: "unat (of_nat i :: u64) = i" using assms by (intro unat_of_nat_64) linarith
  have s: "unat (s + of_nat i) = unat s + i"
    using i assms by (subst unat_plus_if') simp
  show "d < s \<Longrightarrow> unat (s + of_nat i - d) > i"
    unfolding unat_sub_if' s by (simp add: word_less_nat_alt)
  show "s < d \<Longrightarrow> unat (s + of_nat i - d) < i \<or> len \<le> unat (s + of_nat i - d)"
    using assms unfolding unat_sub_if' s by (auto simp: word_less_nat_alt)
qed

lemma moved_at: "moved mem d s lo hi x =
    (if lo \<le> unat (x - d) \<and> unat (x - d) < hi then mem (s + of_nat (unat (x - d))) else mem x)"
  by (simp add: moved_def)

text \<open>A chunk whose source bytes are still the old ones extends what has been moved.\<close>

lemma write_moved:
  assumes len: "k + c \<le> 2 ^ 64" "0 < c"
    and old: "\<And>i. k \<le> i \<Longrightarrow> i < k + c \<Longrightarrow> moved mem d s lo hi (s + of_nat i) = mem (s + of_nat i)"
    and new: "\<And>i. (lo' \<le> i \<and> i < hi') = ((lo \<le> i \<and> i < hi) \<or> (k \<le> i \<and> i < k + c))"
  shows "write_bytes (moved mem d s lo hi) (d + of_nat k)
      (read_bytes (moved mem d s lo hi) (s + of_nat k) c) = moved mem d s lo' hi'"
proof
  fix x
  let ?i = "unat (x - d)"
  show "write_bytes (moved mem d s lo hi) (d + of_nat k)
      (read_bytes (moved mem d s lo hi) (s + of_nat k) c) x = moved mem d s lo' hi' x"
  proof (cases "k \<le> ?i \<and> ?i < k + c")
    case True
    then have e: "s + of_nat k + of_nat (?i - k) = s + of_nat ?i" by (simp add: of_nat_diff)
    have "moved mem d s lo hi (s + of_nat ?i) = mem (s + of_nat ?i)" using old True by blast
    then show ?thesis
      unfolding write_chunk [OF len] if_P [OF True] e moved_at [of mem d s lo' hi'] new
      using True by simp
  next
    case False
    then show ?thesis
      unfolding write_chunk [OF len] if_not_P [OF False] moved_at new by auto
  qed
qed

lemma moved_up:
  assumes "d < s" and "unat s + len \<le> 2 ^ 64" and "unat d + len \<le> 2 ^ 64" and "k + c \<le> len"
    and "0 < c"
  shows "write_bytes (moved mem d s 0 k) (d + of_nat k)
      (read_bytes (moved mem d s 0 k) (s + of_nat k) c) = moved mem d s 0 (k + c)"
proof (rule write_moved)
  show "k + c \<le> 2 ^ 64" "0 < c" using assms by simp_all
  show "moved mem d s 0 k (s + of_nat i) = mem (s + of_nat i)" if "k \<le> i" "i < k + c" for i
    using source_offset(1) [OF assms(2,3) _ assms(1), of i] that assms(4) by (simp add: moved_def)
qed auto

lemma moved_down:
  assumes "s < d" and "unat s + len \<le> 2 ^ 64" and "unat d + len \<le> 2 ^ 64" and "k + c \<le> len"
    and "0 < c"
  shows "write_bytes (moved mem d s (k + c) len) (d + of_nat k)
      (read_bytes (moved mem d s (k + c) len) (s + of_nat k) c) = moved mem d s k len"
proof (rule write_moved)
  show "k + c \<le> 2 ^ 64" "0 < c" using assms by simp_all
  show "moved mem d s (k + c) len (s + of_nat i) = mem (s + of_nat i)" if "k \<le> i" "i < k + c" for i
    using source_offset(2) [OF assms(2,3) _ assms(1), of i] that assms(4) by (auto simp: moved_def)
qed (use assms in auto)

section \<open>The loops\<close>

text \<open>The cursors of a copy in progress.\<close>

definition cursor_up :: "memory \<Rightarrow> u64 \<Rightarrow> u64 \<Rightarrow> nat \<Rightarrow> cursor" where
  "cursor_up mem d s k = (moved mem d s 0 k, d + of_nat k, s + of_nat k)"

definition cursor_down :: "memory \<Rightarrow> u64 \<Rightarrow> u64 \<Rightarrow> nat \<Rightarrow> nat \<Rightarrow> cursor" where
  "cursor_down mem d s len k = (moved mem d s k len, d + of_nat k, s + of_nat k)"

lemma byte_up_chunk: "byte_up (mem, d, s) = (write_bytes mem d (read_bytes mem s 1), d + 1, s + 1)"
  by (auto simp: write_bytes_def fun_eq_iff unat_eq_0)

lemma byte_down_chunk:
  "byte_down (mem, d, s) = (write_bytes mem (d - 1) (read_bytes mem (s - 1) 1), d - 1, s - 1)"
  by (auto simp: write_bytes_def fun_eq_iff unat_eq_0)

lemma loop_up:
  assumes "d < s" and "unat s + len \<le> 2 ^ 64" and "unat d + len \<le> 2 ^ 64"
  shows "k + n \<le> len \<Longrightarrow> (byte_up ^^ n) (cursor_up mem d s k) = cursor_up mem d s (k + n)"
    and "k + 8 * n \<le> len \<Longrightarrow> (word_up ^^ n) (cursor_up mem d s k) = cursor_up mem d s (k + 8 * n)"
proof -
  show "k + n \<le> len \<Longrightarrow> (byte_up ^^ n) (cursor_up mem d s k) = cursor_up mem d s (k + n)"
  proof (induction n)
    case (Suc n)
    then show ?case
      using moved_up [OF assms, of "k + n" 1]
      by (simp add: cursor_up_def byte_up_chunk add.assoc add.commute del: byte_up.simps)
  qed simp
  show "k + 8 * n \<le> len \<Longrightarrow> (word_up ^^ n) (cursor_up mem d s k) = cursor_up mem d s (k + 8 * n)"
  proof (induction n)
    case (Suc n)
    then show ?case
      using moved_up [OF assms, of "k + 8 * n" 8] by (simp add: cursor_up_def wsize_def algebra_simps)
  qed simp
qed

lemma loop_down:
  assumes "s < d" and "unat s + len \<le> 2 ^ 64" and "unat d + len \<le> 2 ^ 64"
  shows "k + n \<le> len \<Longrightarrow> (byte_down ^^ n) (cursor_down mem d s len (k + n)) = cursor_down mem d s len k"
    and "k + 8 * n \<le> len \<Longrightarrow>
      (word_down ^^ n) (cursor_down mem d s len (k + 8 * n)) = cursor_down mem d s len k"
proof -
  show "k + n \<le> len \<Longrightarrow> (byte_down ^^ n) (cursor_down mem d s len (k + n)) = cursor_down mem d s len k"
  proof (induction n arbitrary: k)
    case (Suc n)
    from Suc.IH [of "Suc k"] Suc.prems
    have "(byte_down ^^ n) (cursor_down mem d s len (k + Suc n)) = cursor_down mem d s len (Suc k)"
      by simp
    then show ?case
      using moved_down [OF assms, of k 1] Suc.prems
      by (simp add: cursor_down_def byte_down_chunk del: byte_down.simps)
  qed simp
  show "k + 8 * n \<le> len \<Longrightarrow>
      (word_down ^^ n) (cursor_down mem d s len (k + 8 * n)) = cursor_down mem d s len k"
  proof (induction n arbitrary: k)
    case (Suc n)
    from Suc.IH [of "k + 8"] Suc.prems
    have "(word_down ^^ n) (cursor_down mem d s len (k + 8 * Suc n)) = cursor_down mem d s len (k + 8)"
      by (simp add: add.assoc)
    then show ?case
      using moved_down [OF assms, of k 8] Suc.prems by (simp add: cursor_down_def wsize_def)
  qed simp
qed

section \<open>The copy is a move\<close>

lemma TLOOP_funpow: "TLOOP f t c = (f ^^ unat t) c"
  by (cases "t = 0") (simp_all add: TLOOP_def TLOOP1_def)

lemma TLOOP1_funpow: "t \<noteq> 0 \<Longrightarrow> TLOOP1 f t c = (f ^^ unat t) c"
  by (simp add: TLOOP1_def)

lemma unat_and_wmask: "unat (w AND wmask) = unat w mod 8"
proof -
  have "wmask = mask 3" by (simp add: wmask_def wsize_def mask_numeral)
  then have "w AND wmask = take_bit 3 w" by (simp add: take_bit_eq_mask)
  then have "unat (w AND wmask) = take_bit 3 (unat w)" by (simp only: unsigned_take_bit_eq)
  then show ?thesis by (simp add: take_bit_eq_mod)
qed

lemma unat_div_wsize: "unat (w div wsize) = unat w div 8"
  by (simp add: wsize_def unat_div)

text \<open>After the unaligned head of \<open>k\<close> bytes: the words, then the remaining bytes.\<close>

lemma body_up:
  assumes "d < s" and "unat s + unat len \<le> 2 ^ 64" and "unat d + unat len \<le> 2 ^ 64"
    and "k + unat len1 = unat len"
  shows "TLOOP byte_up (len1 AND wmask) (TLOOP word_up (len1 div wsize) (cursor_up mem d s k)) =
    cursor_up mem d s (unat len)"
proof -
  let ?q = "unat len1 div 8" and ?r = "unat len1 mod 8"
  have qr: "8 * ?q + ?r = unat len1" by simp
  have "(word_up ^^ ?q) (cursor_up mem d s k) = cursor_up mem d s (k + 8 * ?q)"
    by (rule loop_up(2) [OF assms(1-3)]) (use qr assms(4) in linarith)
  moreover have "(byte_up ^^ ?r) (cursor_up mem d s (k + 8 * ?q)) = cursor_up mem d s (k + 8 * ?q + ?r)"
    by (rule loop_up(1) [OF assms(1-3)]) (use qr assms(4) in linarith)
  moreover have "k + 8 * ?q + ?r = unat len" using qr assms(4) by linarith
  ultimately show ?thesis by (simp only: TLOOP_funpow unat_and_wmask unat_div_wsize)
qed

lemma body_down:
  assumes "s < d" and "unat s + unat len \<le> 2 ^ 64" and "unat d + unat len \<le> 2 ^ 64"
    and "unat len1 \<le> unat len"
  shows "TLOOP byte_down (len1 AND wmask)
      (TLOOP word_down (len1 div wsize) (cursor_down mem d s (unat len) (unat len1))) =
    cursor_down mem d s (unat len) 0"
proof -
  let ?q = "unat len1 div 8" and ?r = "unat len1 mod 8"
  have qr: "?r + 8 * ?q = unat len1" by simp
  have "(word_down ^^ ?q) (cursor_down mem d s (unat len) (?r + 8 * ?q)) = cursor_down mem d s (unat len) ?r"
    by (rule loop_down(2) [OF assms(1-3)]) (use qr assms(4) in linarith)
  moreover have "(byte_down ^^ ?r) (cursor_down mem d s (unat len) (0 + ?r)) = cursor_down mem d s (unat len) 0"
    by (rule loop_down(1) [OF assms(1-3)]) (use qr assms(4) in linarith)
  ultimately show ?thesis
    by (simp only: TLOOP_funpow unat_and_wmask unat_div_wsize qr add_0)
qed

lemma head_up_length:
  assumes "\<not> len < wsize"
  shows "wsize - (s AND wmask) \<noteq> 0" and "unat (wsize - (s AND wmask)) \<le> unat len"
    and "unat (len - (wsize - (s AND wmask))) = unat len - unat (wsize - (s AND wmask))"
proof -
  have "unat (s AND wmask) < 8" by (simp add: unat_and_wmask)
  then have t: "unat (wsize - (s AND wmask)) = 8 - unat (s AND wmask)" "unat (s AND wmask) < 8"
    by (simp_all add: unat_sub_if' wsize_def)
  then show "wsize - (s AND wmask) \<noteq> 0" by (auto simp: unat_eq_0 [symmetric] simp del: unat_eq_0)
  have "8 \<le> unat len" using assms by (simp add: wsize_def word_less_nat_alt)
  with t show le: "unat (wsize - (s AND wmask)) \<le> unat len" by simp
  then show "unat (len - (wsize - (s AND wmask))) = unat len - unat (wsize - (s AND wmask))"
    by (simp only: unat_sub_if' if_True)
qed

lemma copy_forward_moved:
  assumes "d < s" and "unat s + unat len \<le> 2 ^ 64" and "unat d + unat len \<le> 2 ^ 64" and "len \<noteq> 0"
  shows "copy_forward len (mem, d, s) = cursor_up mem d s (unat len)"
proof -
  let ?t = "if (s XOR d) AND wmask \<noteq> 0 \<or> len < wsize then len else wsize - (s AND wmask)"
  have start: "(mem, d, s) = cursor_up mem d s 0" by (simp add: cursor_up_def)
  have t: "?t \<noteq> 0" "unat ?t \<le> unat len" "unat (len - ?t) = unat len - unat ?t"
    using head_up_length [of len s] assms(4) by auto
  have head: "TLOOP1 byte_up ?t (mem, d, s) = cursor_up mem d s (unat ?t)"
    unfolding TLOOP1_funpow [OF t(1)] start
    using loop_up(1) [OF assms(1-3), of 0 "unat ?t"] t(2) by (simp only: add_0)
  have "unat ?t + unat (len - ?t) = unat len" using t(2,3) by linarith
  note aligned = body_up [OF assms(1-3) this, of mem]
    and plain = body_up [OF assms(1-3), of 0 len mem]
  show ?thesis
    unfolding copy_forward_def Let_def case_prod_conv
    by (cases "(s OR d) AND wmask = 0") (simp_all only: if_True if_False not_False_eq_True
      not_True_eq_False case_prod_conv head aligned plain add_0 start [symmetric] simp_thms,
      simp_all only: start plain add_0)
qed

lemma copy_backward_moved:
  assumes "s < d" and "unat s + unat len \<le> 2 ^ 64" and "unat d + unat len \<le> 2 ^ 64" and "len \<noteq> 0"
  shows "copy_backward len (mem, d, s) = cursor_down mem d s (unat len) 0"
proof -
  let ?s = "s + len" and ?d = "d + len"
  let ?t = "if (?s XOR ?d) AND wmask \<noteq> 0 \<or> len \<le> wsize then len else ?s AND wmask"
  have start: "(mem, ?d, ?s) = cursor_down mem d s (unat len) (unat len)"
    by (simp add: cursor_down_def)
  show ?thesis
  proof (cases "(?s OR ?d) AND wmask = 0")
    case True
    then show ?thesis
      using body_down [OF assms(1-3) order_refl, of mem]
      unfolding copy_backward_def Let_def case_prod_conv start by simp
  next
    case False
    have t: "?t \<noteq> 0"
    proof (cases "(?s XOR ?d) AND wmask \<noteq> 0 \<or> len \<le> wsize")
      case low: False
      then have eq: "(?s XOR ?d) AND wmask = 0" by blast
      have "(?s OR ?d) AND wmask = ?s AND wmask"
      proof (rule bit_word_eqI)
        fix n
        have "bit ((?s XOR ?d) AND wmask) n = bit (0 :: u64) n" by (simp only: eq)
        then show "bit ((?s OR ?d) AND wmask) n \<longleftrightarrow> bit (?s AND wmask) n"
          by (auto simp: bit_and_iff bit_or_iff bit_xor_iff)
      qed
      with False low show ?thesis by simp
    qed (use assms(4) in simp)
    have "unat (?s AND wmask) < 8" by (simp add: unat_and_wmask)
    then have le: "unat ?t \<le> unat len"
      by (auto simp: wsize_def word_le_nat_alt)
    then have len1: "unat (len - ?t) = unat len - unat ?t" by (simp only: unat_sub_if' if_True)
    have sum: "unat (len - ?t) + unat ?t = unat len" using le len1 by linarith
    have "(byte_down ^^ unat ?t) (cursor_down mem d s (unat len) (unat (len - ?t) + unat ?t)) =
        cursor_down mem d s (unat len) (unat (len - ?t))"
      by (rule loop_down(1) [OF assms(1-3)]) (simp only: sum order_refl)
    then have head: "TLOOP1 byte_down ?t (cursor_down mem d s (unat len) (unat len)) =
        cursor_down mem d s (unat len) (unat (len - ?t))"
      by (simp only: TLOOP1_funpow [OF t] sum)
    have "unat (len - ?t) \<le> unat len" using len1 by simp
    note body = body_down [OF assms(1-3) this, of mem]
    show ?thesis
      unfolding copy_backward_def Let_def case_prod_conv start if_P [OF False] head by (rule body)
  qed
qed

lemma memcpy_gc_moves:
  assumes "unat s + unat len \<le> 2 ^ 64" and "unat d + unat len \<le> 2 ^ 64"
  shows "memcpy_gc mem d s len = write_bytes mem d (read_bytes mem s (unat len))"
proof -
  have len: "unat len \<le> 2 ^ 64" using assms(1) by linarith
  consider "len = 0" | "d = s" | "len \<noteq> 0" "d < s" | "len \<noteq> 0" "s < d" by fastforce
  then show ?thesis
  proof cases
    case 1
    then show ?thesis by (simp add: memcpy_gc_def read_bytes_def)
  next
    case 2
    then show ?thesis by (simp add: memcpy_gc_def write_read_bytes [OF len])
  next
    case 3
    then have "d \<noteq> s" by auto
    with 3 show ?thesis
      using copy_forward_moved [OF _ assms, of mem] moved_all [OF len]
      by (auto simp: memcpy_gc_def cursor_up_def)
  next
    case 4
    then show ?thesis
      using copy_backward_moved [OF _ assms, of mem] moved_all [OF len]
      by (auto simp: memcpy_gc_def cursor_down_def)
  qed
qed

section \<open>The copy function\<close>

text \<open>
  C11: For a source and a destination that do not wrap around the address space, however they overlap
  and are aligned, \<open>__rv64hook_libc_memcpy_gc\<close> is \<open>memmove\<close>: the destination holds what the source
  held before, and no other byte changes.
\<close>

theorem memcpy_gc_is_memmove:
  assumes "unat s + unat len \<le> 2 ^ 64" and "unat d + unat len \<le> 2 ^ 64"
  shows "read_bytes (memcpy_gc mem d s len) d (unat len) = read_bytes mem s (unat len) \<and>
    (\<forall>x. unat (x - d) < unat len \<or> memcpy_gc mem d s len x = mem x)"
proof -
  have "length (read_bytes mem s (unat len)) \<le> 2 ^ 64" using assms(1) by simp
  from read_write_bytes [OF this, of mem d] show ?thesis
    unfolding memcpy_gc_moves [OF assms] by (auto simp: write_bytes_def)
qed

text \<open>An overlapping copy downwards, by three bytes and of eleven, so that it is not word-aligned.\<close>

theorem memcpy_gc_is_memmove_witness:
  "read_bytes (memcpy_gc (\<lambda>x. ucast x) 0x1003 0x1000 11) 0x1003 11 =
     [0, 1, 2, 3, 4, 5, 6, 7, 8, 9, 10] \<and>
   (\<forall>x. unat (x - 0x1003 :: u64) < 11 \<or> memcpy_gc (\<lambda>x. ucast x) 0x1003 0x1000 11 x = ucast x)"
proof -
  have "read_bytes (\<lambda>x. ucast x) 0x1000 11 = [0, 1, 2, 3, 4, 5, 6, 7, 8, 9, 10]" by code_simp
  then show ?thesis
    using memcpy_gc_is_memmove [of "0x1000" 11 "0x1003" "\<lambda>x. ucast x"] by simp
qed

end
