(* ===== verification/Memory_Access.thy ===== *)
theory Memory_Access
  imports Libc_Memcpy
begin

text \<open>
  How the library writes into code: \<open>libc_memcpy\<close> of \<open>libc/libc.h\<close>, \<open>Memory::Copy\<close> of
  \<open>core/memory.cc\<close>, and \<open>ScopedRWXMemory\<close> of \<open>core/scoped_rwx_memory.cc\<close>, with which its user makes a
  function writable.

  A pointer to a C++ object as source is represented by the bytes of the object. The interface
  \<open>memory_copy\<close> is what the library relies on in a copy routine, and its lemma \<open>copy_object\<close> is why
  the address of the object does not matter. The system calls are parameters.
\<close>

section \<open>The interface of a copy routine\<close>

definition libc_memcpy :: "memory \<Rightarrow> u64 \<Rightarrow> u8 list \<Rightarrow> memory" where
  "libc_memcpy mem dest src = write_bytes mem dest src"

locale memory_copy =
  fixes copy :: "memory \<Rightarrow> u64 \<Rightarrow> u64 \<Rightarrow> u64 \<Rightarrow> memory"
  assumes copy_moves:
    "unat s + unat len \<le> 2 ^ 64 \<Longrightarrow> unat d + unat len \<le> 2 ^ 64 \<Longrightarrow>
     copy mem d s len = write_bytes mem d (read_bytes mem s (unat len))"
begin

lemma copy_object:
  assumes "read_bytes mem s (length bs) = bs" and "unat s + length bs \<le> 2 ^ 64"
    and "unat d + length bs \<le> 2 ^ 64" and "length bs < 2 ^ 64"
  shows "copy mem d s (of_nat (length bs)) = libc_memcpy mem d bs"
  using copy_moves [of s "of_nat (length bs)" d mem] assms
  by (simp add: libc_memcpy_def unat_of_nat_64)

lemma copy_outside:
  assumes "unat s + unat len \<le> 2 ^ 64" and "unat d + unat len \<le> 2 ^ 64"
    and "unat len \<le> unat (x - d)"
  shows "copy mem d s len x = mem x"
  using assms by (simp add: copy_moves write_bytes_outside)

end

interpretation gc: memory_copy memcpy_gc
  by unfold_locales (rule memcpy_gc_moves)

text \<open>
  Wherever an object lies in memory, copying it with the generic \<open>memcpy\<close> to another place, which
  it may overlap, writes the bytes of the object there and nothing else; this is why the model of
  \<open>libc_memcpy\<close> needs only the bytes.
\<close>

lemma libc_memcpy_copies_object:
  assumes "read_bytes mem src (length object) = object"
    and "unat src + length object \<le> 2 ^ 64" and "unat dest + length object \<le> 2 ^ 64"
    and "length object < 2 ^ 64"
  shows "memcpy_gc mem dest src (of_nat (length object)) = libc_memcpy mem dest object"
  using assms by (rule gc.copy_object)

lemma libc_memcpy_copies_object_witness:
  "memcpy_gc (\<lambda>x. ucast x) 0x80 0x10 3 = libc_memcpy (\<lambda>x. ucast x) 0x80 [0x10, 0x11, 0x12]"
proof -
  have "read_bytes (\<lambda>x. ucast x) 0x10 3 = [0x10, 0x11, 0x12]" by code_simp
  then show ?thesis
    using libc_memcpy_copies_object [of "\<lambda>x. ucast x" "0x10" "[0x10, 0x11, 0x12]" "0x80"]
    by (simp add: numeral_3_eq_3)
qed

section \<open>\<open>Memory::Copy\<close>\<close>

text \<open>
  The function has two variants. Without \<open>RV64HOOK_USE_PROCESS_VM\<close> it copies and reports success; with
  it, it asks the system to copy and falls back when the system has no such call. \<open>process_vm_writev\<close>
  is the parameter: what it does to the memory, or its failure.
\<close>

datatype (plugins only: code) writev_result = Written memory | NoSuchCall | WriteFailed

record platform =
  use_process_vm :: bool
  process_vm_writev :: "memory \<Rightarrow> u64 \<Rightarrow> u8 list \<Rightarrow> writev_result"

definition Memory_Copy :: "platform \<Rightarrow> memory \<Rightarrow> u64 \<Rightarrow> u8 list \<Rightarrow> bool \<times> memory" where
  "Memory_Copy p mem addr src =
     (if \<not> use_process_vm p then (True, libc_memcpy mem addr src)
      else case process_vm_writev p mem addr src of
             Written mem' \<Rightarrow> (True, mem')
           | NoSuchCall \<Rightarrow> (True, libc_memcpy mem addr src)
           | WriteFailed \<Rightarrow> (False, mem))"

text \<open>What is documented of the system call: when it succeeds it has written the bytes.\<close>

definition writev_writes :: "platform \<Rightarrow> bool" where
  "writev_writes p \<longleftrightarrow>
     (\<forall>mem addr src mem'. process_vm_writev p mem addr src = Written mem' \<longrightarrow>
        mem' = write_bytes mem addr src)"

definition plain_platform :: platform where
  "plain_platform = \<lparr>use_process_vm = False, process_vm_writev = (\<lambda>mem addr src. WriteFailed)\<rparr>"

definition vm_platform :: platform where
  "vm_platform =
     \<lparr>use_process_vm = True,
      process_vm_writev = (\<lambda>mem addr src.
        if addr < 0x1000 then WriteFailed else Written (write_bytes mem addr src))\<rparr>"

lemma platforms_write: "writev_writes plain_platform" "writev_writes vm_platform"
  by (simp_all add: writev_writes_def plain_platform_def vm_platform_def)

lemma Memory_Copy_cases:
  assumes "writev_writes p"
  shows "Memory_Copy p mem addr src = (True, write_bytes mem addr src) \<or>
         Memory_Copy p mem addr src = (False, mem)"
  using assms
  by (auto simp: Memory_Copy_def libc_memcpy_def writev_writes_def split: writev_result.split)

lemma Memory_Copy_plain [simp]:
  "\<not> use_process_vm p \<Longrightarrow> Memory_Copy p mem addr src = (True, write_bytes mem addr src)"
  by (simp add: Memory_Copy_def libc_memcpy_def)

section \<open>Making a function writable\<close>

text \<open>
  The protection of every address, and the two roundings of the compiler. A page size is a power of
  two. \<open>mprotect\<close> is a parameter that tells whether the call succeeds; if it does, it sets the
  protection of the range.
\<close>

definition align_down :: "u64 \<Rightarrow> u64 \<Rightarrow> u64" where
  "align_down x n = x AND NOT (n - 1)"

definition align_up :: "u64 \<Rightarrow> u64 \<Rightarrow> u64" where
  "align_up x n = (x + (n - 1)) AND NOT (n - 1)"

type_synonym protections = "u64 \<Rightarrow> u32"

definition set_prot :: "u64 \<Rightarrow> u64 \<Rightarrow> u32 \<Rightarrow> protections \<Rightarrow> protections" where
  "set_prot start len prot' ps = (\<lambda>x. if x - start < len then prot' else ps x)"

definition kRead :: u32 where "kRead = 1"
definition kWrite :: u32 where "kWrite = 2"
definition kExec :: u32 where "kExec = 4"

definition kMaxFirstTrampolineSize :: nat where
  "kMaxFirstTrampolineSize = 28"

record ScopedRWXMemory =
  rwx_address :: u64
  rwx_size :: u32
  rwx_prot :: u32

text \<open>The members that the constructor leaves unset are given the value 0.\<close>

definition new_ScopedRWXMemory ::
  "u64 \<Rightarrow> (u64 \<Rightarrow> u64 \<Rightarrow> bool) \<Rightarrow> u64 \<Rightarrow> u32 \<Rightarrow> protections \<Rightarrow> ScopedRWXMemory \<times> protections" where
  "new_ScopedRWXMemory page_size mprotect_ok address original_prot ps =
     (if address = 0 then (\<lparr>rwx_address = 0, rwx_size = 0, rwx_prot = original_prot\<rparr>, ps)
      else
        let start = align_down address page_size;
            len = ucast (align_up (address + of_nat kMaxFirstTrampolineSize) page_size - start) :: u32
        in if mprotect_ok start (ucast len)
           then (\<lparr>rwx_address = start, rwx_size = len, rwx_prot = original_prot\<rparr>,
                 set_prot start (ucast len) (kRead OR kWrite OR kExec) ps)
           else (\<lparr>rwx_address = 0, rwx_size = len, rwx_prot = original_prot\<rparr>, ps))"

definition IsValid_ScopedRWXMemory :: "ScopedRWXMemory \<Rightarrow> bool" where
  "IsValid_ScopedRWXMemory m = (rwx_address m \<noteq> 0)"

definition delete_ScopedRWXMemory ::
  "(u64 \<Rightarrow> u64 \<Rightarrow> bool) \<Rightarrow> ScopedRWXMemory \<Rightarrow> protections \<Rightarrow> protections" where
  "delete_ScopedRWXMemory mprotect_ok m ps =
     (if rwx_address m \<noteq> 0 \<and> mprotect_ok (rwx_address m) (ucast (rwx_size m))
      then set_prot (rwx_address m) (ucast (rwx_size m)) (rwx_prot m) ps else ps)"

lemma ucast_ucast_small:
  assumes "unat (w :: u64) < 2 ^ 32"
  shows "ucast (ucast w :: u32) = w"
proof -
  have "unat (take_bit 32 w) = unat w"
    using assms by (simp only: unsigned_take_bit_eq take_bit_nat_eq_self)
  then have "take_bit 32 w = w" by (rule unsigned_word_eqI)
  moreover have "ucast (ucast w :: u32) = take_bit 32 w"
    by (rule bit_word_eqI) (auto simp: bit_simps)
  ultimately show ?thesis by simp
qed

lemma and_not_mask: "x AND NOT (2 ^ k - 1) = x - take_bit k (x :: u64)"
proof -
  have "x - take_bit k x = x AND NOT (take_bit k x)"
    by (rule disjunctive_diff_eq_and_not) (auto simp: bit_eq_iff bit_simps)
  also have "\<dots> = x AND NOT (mask k)" by (auto simp: bit_eq_iff bit_simps)
  finally show ?thesis by (simp add: mask_eq_decr_exp)
qed

lemma unat_minus_take_bit: "unat (x - take_bit k x :: u64) = unat x - unat x mod 2 ^ k"
proof -
  have "take_bit k x \<le> x"
    by (simp add: word_le_nat_alt unsigned_take_bit_eq take_bit_nat_less_eq_self)
  then have "unat (x - take_bit k x) = unat x - take_bit k (unat x)"
    by (simp only: unat_sub unsigned_take_bit_eq)
  then show ?thesis by (simp only: take_bit_eq_mod)
qed

lemma unat_align_down: "unat (align_down x (2 ^ k)) = unat x - unat x mod 2 ^ k"
  by (simp add: align_down_def and_not_mask unat_minus_take_bit)

lemma unat_align_up:
  assumes "k < 64" and "unat x + 2 ^ k \<le> 2 ^ 64"
  shows "unat (align_up x (2 ^ k)) = (unat x + (2 ^ k - 1)) - (unat x + (2 ^ k - 1)) mod 2 ^ k"
proof -
  have "unat (mask k :: u64) = mask k"
    using assms(1) by (intro bit_eqI) (auto simp: bit_simps)
  then have "unat (2 ^ k - 1 :: u64) = 2 ^ k - 1"
    by (simp only: mask_eq_exp_minus_1 mask_eq_decr_exp)
  then have "unat (x + (2 ^ k - 1)) = unat x + (2 ^ k - 1)"
    using assms(2) by (subst unat_plus_if') simp
  then show ?thesis by (simp add: align_up_def and_not_mask unat_minus_take_bit)
qed

lemma align_up_bounds:
  assumes "k < 64" and "unat x + 2 ^ k \<le> 2 ^ 64"
  shows "unat x \<le> unat (align_up x (2 ^ k))" and "unat (align_up x (2 ^ k)) < unat x + 2 ^ k"
proof -
  have p: "0 < (2 ^ k :: nat)" by simp
  show "unat x \<le> unat (align_up x (2 ^ k))"
    unfolding unat_align_up [OF assms]
    using mod_less_divisor [OF p, of "unat x + (2 ^ k - 1)"] by linarith
  show "unat (align_up x (2 ^ k)) < unat x + 2 ^ k"
    unfolding unat_align_up [OF assms] using p by linarith
qed

text \<open>
  C18: When a \<open>ScopedRWXMemory\<close> is valid, every byte that a first trampoline may occupy, the first 28
  bytes of the function even across a page boundary, is readable, writable and executable; when it is
  destroyed, these bytes get the protection it was made with. Page sizes are powers of two from 32 to
  1 GB.
\<close>

theorem ScopedRWXMemory_covers_trampoline:
  assumes "page_size = 2 ^ k" and "5 \<le> k" and "k \<le> 30"
    and "unat address + kMaxFirstTrampolineSize + 2 ^ k \<le> 2 ^ 64"
    and "new_ScopedRWXMemory page_size mprotect_ok address prot' ps = (m, ps')"
    and "IsValid_ScopedRWXMemory m" and "i < kMaxFirstTrampolineSize"
  shows "ps' (address + of_nat i) = kRead OR kWrite OR kExec \<and>
    delete_ScopedRWXMemory (\<lambda>start len. True) m ps'' (address + of_nat i) = prot'"
proof -
  let ?last = "address + of_nat kMaxFirstTrampolineSize"
  let ?s = "align_down address (2 ^ k)" and ?e = "align_up ?last (2 ^ k)"
  have pow: "2 ^ k \<le> (2 ^ 30 :: nat)" "0 < (2 ^ k :: nat)"
    using power_increasing [OF assms(3), of "2 :: nat"] by simp_all
  have e: "unat ?last = unat address + kMaxFirstTrampolineSize"
  proof -
    have "unat address + kMaxFirstTrampolineSize < 2 ^ 64" using assms(4) pow(2) by linarith
    then show ?thesis by (subst unat_plus_if') (simp add: kMaxFirstTrampolineSize_def)
  qed
  have s: "unat ?s = unat address - unat address mod 2 ^ k" by (rule unat_align_down)
  have smod: "unat address mod 2 ^ k < 2 ^ k" using pow(2) by (rule mod_less_divisor)
  have up: "unat ?last \<le> unat ?e" "unat ?e < unat ?last + 2 ^ k"
    using align_up_bounds [of k ?last] assms(3,4) e by simp_all
  have le: "unat ?s \<le> unat ?e" using s e up by linarith
  have diff: "unat (?e - ?s) = unat ?e - unat ?s"
    using le by (simp add: unat_sub word_le_nat_alt)
  have small: "unat (?e - ?s) < 2 ^ 32"
  proof -
    have "unat ?e - unat ?s < 2 ^ k + kMaxFirstTrampolineSize + 2 ^ k"
      using up e s smod by linarith
    also have "\<dots> < 2 ^ 32" using pow(1) by (simp add: kMaxFirstTrampolineSize_def)
    finally show ?thesis unfolding diff .
  qed
  then have len: "ucast (ucast (?e - ?s) :: u32) = ?e - ?s"
    by (rule ucast_ucast_small)
  have inside: "address + of_nat i - ?s < ?e - ?s"
  proof -
    have "unat (of_nat i :: u64) = i" using assms(7) by (simp add: kMaxFirstTrampolineSize_def unat_of_nat_64)
    then have x: "unat (address + of_nat i) = unat address + i"
      using assms(4,7) by (subst unat_plus_if') simp
    then have "?s \<le> address + of_nat i" using s by (simp add: word_le_nat_alt)
    then have "unat (address + of_nat i - ?s) = unat address + i - unat ?s"
      using x by (simp add: unat_sub)
    then show ?thesis unfolding word_less_nat_alt diff using up e s smod assms(7) by linarith
  qed
  from assms(5,6) have "rwx_address m = ?s" "rwx_size m = ucast (?e - ?s)" "rwx_prot m = prot'"
    "ps' = set_prot ?s (?e - ?s) (kRead OR kWrite OR kExec) ps" "rwx_address m \<noteq> 0"
    unfolding assms(1)
    by (auto simp: new_ScopedRWXMemory_def IsValid_ScopedRWXMemory_def Let_def len split: if_splits)
  then show ?thesis using inside len by (simp add: set_prot_def delete_ScopedRWXMemory_def)
qed

text \<open>The function of the witness ends a page: its trampoline crosses into the next one.\<close>

theorem ScopedRWXMemory_covers_trampoline_witness:
  "snd (new_ScopedRWXMemory 0x1000 (\<lambda>start len. True) 0x12ff0 5 (\<lambda>x. 0)) (0x12ff0 + 27) = 7"
proof -
  let ?new = "new_ScopedRWXMemory (2 ^ 12) (\<lambda>start len. True) 0x12ff0 5 (\<lambda>x. 0)"
  have v: "IsValid_ScopedRWXMemory (fst ?new)"
    by (simp add: IsValid_ScopedRWXMemory_def new_ScopedRWXMemory_def Let_def align_down_def)
  have "snd ?new (0x12ff0 + of_nat 27) = kRead OR kWrite OR kExec"
    using ScopedRWXMemory_covers_trampoline [of "2 ^ 12" 12 "0x12ff0" "\<lambda>start len. True" 5 "\<lambda>x. 0"
        "fst ?new" "snd ?new" 27] v by (simp add: kMaxFirstTrampolineSize_def)
  then show ?thesis by (simp add: kRead_def kWrite_def kExec_def)
qed

end
