(* ===== verification/Trampoline.thy ===== *)
theory Trampoline
  imports Memory_Access Assembler
begin

text \<open>
  \<open>Trampoline\<close> of \<open>arch/riscv64/riscv64_support.cc\<close>, as far as it needs no allocation: which kind of
  jump to write over the beginning of a function, how long it is, and the writing of it (the first
  trampoline); and the code and the data of the second trampoline, to which the first one jumps.

  An operation that writes takes the memory and returns the new one. \<open>__builtin___clear_cache\<close> is
  the range of addresses it is called with, a part of the result.
\<close>

section \<open>Kinds of trampolines\<close>

text \<open>The values of the enumeration that have no name are cast into it by callers.\<close>

datatype (plugins only: code) TrampolineType =
    kCustom | kWide | kPC20 | kPC32 | kVA32 | TrampolineType_other u32

definition kDefault :: TrampolineType where
  "kDefault = kPC32"

definition IsValid :: "TrampolineType \<Rightarrow> bool" where
  "IsValid type = (case type of kWide \<Rightarrow> True | kPC20 \<Rightarrow> True | kPC32 \<Rightarrow> True | kVA32 \<Rightarrow> True | _ \<Rightarrow> False)"

definition GetSuggestedTrampolineType :: "u64 \<Rightarrow> u64 \<Rightarrow> TrampolineType" where
  "GetSuggestedTrampolineType address target =
     (let off = target - address in
      if sint off \<ge> - 0xFFFFE \<and> sint off \<le> 0xFFFFE then kPC20
      else if target < 0x7FFFF800 then kVA32
      else if sint off > 0 \<and> sint off < 0x7FFFF800 then kPC32
      else kWide)"

section \<open>The first trampoline\<close>

text \<open>
  The result of the two writing functions: whether the code was copied, and the memory. The
  constructors of the immediates may abort.
\<close>

definition Write32BitJumpInstruction ::
  "platform \<Rightarrow> memory \<Rightarrow> u32 \<Rightarrow> u64 \<Rightarrow> u32 \<Rightarrow> (bool \<times> memory) result" where
  "Write32BitJumpInstruction p mem op address v =
     (let base' = drop_bit 12 v; add = v AND NOT 0xFFFFF000;
          (base'', add') = (if sint add \<ge> 0x800 then (base' + 1, - (0x1000 - add)) else (base', add))
      in bnd (UImmediate_unsigned (push_bit 12 base'')) (\<lambda>upper.
         bnd (IImmediate add') (\<lambda>lower.
         Inr (Memory_Copy p mem address
           (bytes_of 4 (op OR Rd TMP_GENERIC_REGISTER OR upper) @
            bytes_of 4 (0x67 OR Rd zero OR Rs1 TMP_GENERIC_REGISTER OR lower))))))"

text \<open>The packed class \<open>WideTrampoline\<close>, as its bytes.\<close>

definition WideTrampoline :: "u64 \<Rightarrow> u8 list" where
  "WideTrampoline address =
     bytes_of 4 (0x00000e17 :: u32) @ bytes_of 4 (0x00ae3e03 :: u32) @ bytes_of 2 (0x8e02 :: u16) @
     bytes_of 8 address"

definition GetFirstTrampolineSize :: "TrampolineType \<Rightarrow> nat" where
  "GetFirstTrampolineSize type =
     (case type of kPC20 \<Rightarrow> 4 | kPC32 \<Rightarrow> 8 | kVA32 \<Rightarrow> 8 | _ \<Rightarrow> length (WideTrampoline 0))"

text \<open>
  In the last case the variable \<open>size\<close>, the length of the range whose instructions are flushed, keeps
  its initial value 0.
\<close>

record first_trampoline =
  copied :: bool
  written_memory :: memory
  cache_start :: u64
  cache_size :: nat

definition written :: "u64 \<Rightarrow> nat \<Rightarrow> bool \<times> memory \<Rightarrow> first_trampoline result" where
  "written address size' cm =
     Inr \<lparr>copied = fst cm, written_memory = snd cm, cache_start = address, cache_size = size'\<rparr>"

definition WriteFirstTrampoline ::
  "platform \<Rightarrow> memory \<Rightarrow> u64 \<Rightarrow> u64 \<Rightarrow> TrampolineType \<Rightarrow> first_trampoline result" where
  "WriteFirstTrampoline p mem address target type =
     (let off = target - address in
      case type of
        kPC20 \<Rightarrow>
          if sint off \<ge> - 0xFFFFE \<and> sint off \<le> 0xFFFFE then
            bnd (JImmediate off) (\<lambda>imm.
            written address 4
              (Memory_Copy p mem address (bytes_of 4 (0x6f OR Rd zero OR imm))))
          else Inl Aborted
      | kPC32 \<Rightarrow>
          if sint off > 0 \<and> sint off < 0x7FFFF800 then
            bnd (Write32BitJumpInstruction p mem 0x17 address (ucast off)) (written address 8)
          else Inl Aborted
      | kVA32 \<Rightarrow>
          if target < 0x7FFFF800 then
            bnd (Write32BitJumpInstruction p mem 0x37 address (ucast target)) (written address 8)
          else Inl Aborted
      | _ \<Rightarrow> written address 0 (Memory_Copy p mem address (WideTrampoline target)))"

section \<open>The second trampoline\<close>

text \<open>The machine code of \<open>trampoline_riscv64.S\<close>, in units of 16 bits.\<close>

definition kTrampoline :: "u16 list" where
  "kTrampoline =
    [0x0e17, 0x0000, 0x0e03, 0x312e, 0x0963, 0x000e, 0x0e17, 0x0000, 0x3e03, 0x2e0e, 0x0863, 0x000e,
     0x8e02, 0x0e17, 0x0000, 0x3e03, 0x2dae, 0x8e02, 0x3423, 0xe021, 0x0113, 0xdf81, 0xe406, 0xec0e,
     0xf012, 0xf416, 0xf81a, 0xfc1e, 0xe0a2, 0xe4a6, 0xe8aa, 0xecae, 0xf0b2, 0xf4b6, 0xf8ba, 0xfcbe,
     0xe142, 0xe546, 0xe94a, 0xed4e, 0xf152, 0xf556, 0xf95a, 0xfd5e, 0xe1e2, 0xe5e6, 0xe9ea, 0xedee,
     0xf1f2, 0xf5f6, 0xf9fa, 0xfdfe, 0xa202, 0xa606, 0xaa0a, 0xae0e, 0xb212, 0xb616, 0xba1a, 0xbe1e,
     0xa2a2, 0xa6a6, 0xaaaa, 0xaeae, 0xb2b2, 0xb6b6, 0xbaba, 0xbebe, 0xa342, 0xa746, 0xab4a, 0xaf4e,
     0xb352, 0xb756, 0xbb5a, 0xbf5e, 0xa3e2, 0xa7e6, 0xabea, 0xafee, 0xb3f2, 0xb7f6, 0xbbfa, 0xbffe,
     0x3023, 0x2001, 0x0597, 0x0000, 0xb583, 0x2385, 0xbe03, 0x0205, 0xe072, 0x8e03, 0x0505, 0x0963,
     0x000e, 0xbe03, 0x0305, 0x0563, 0x000e, 0x0028, 0x61b0, 0x9e02, 0x6582, 0xf1ed, 0x0e17, 0x0000,
     0x3e03, 0x230e, 0x0963, 0x000e, 0x0517, 0x0000, 0x2503, 0x22c5, 0x65a2, 0x9e02, 0xa801, 0xf057,
     0xcd80, 0x3e57, 0x5e00, 0x60a2, 0xce57, 0x5e00, 0x0e03, 0x2001, 0x3ffe, 0x3f5e, 0x3ebe, 0x3e1e,
     0x2dfe, 0x2d5e, 0x2cbe, 0x2c1e, 0x3bfa, 0x3b5a, 0x3aba, 0x3a1a, 0x29fa, 0x295a, 0x28ba, 0x281a,
     0x37f6, 0x3756, 0x36b6, 0x3616, 0x25f6, 0x2556, 0x24b6, 0x2416, 0x33f2, 0x3352, 0x32b2, 0x3212,
     0x21f2, 0x2152, 0x20b2, 0x2012, 0x7fee, 0x7f4e, 0x7eae, 0x7e0e, 0x6dee, 0x6d4e, 0x6cae, 0x6c0e,
     0x7bea, 0x7b4a, 0x7aaa, 0x7a0a, 0x69ea, 0x694a, 0x68aa, 0x680a, 0x77e6, 0x7746, 0x76a6, 0x7606,
     0x65e6, 0x6546, 0x64a6, 0x6406, 0x73e2, 0x7342, 0x72a2, 0x7202, 0x61e2, 0x60a2, 0x6142, 0x1263,
     0x160e, 0x0e17, 0x0000, 0x1e03, 0x18ee, 0x08e3, 0xe80e, 0x0e17, 0x0000, 0x3e03, 0x166e, 0x9e02,
     0x3423, 0xe021, 0x0113, 0xdf81, 0xec0e, 0xf012, 0xf416, 0xf81a, 0xfc1e, 0xe0a2, 0xe4a6, 0xe8aa,
     0xecae, 0xf0b2, 0xf4b6, 0xf8ba, 0xfcbe, 0xe142, 0xe546, 0xe94a, 0xed4e, 0xf152, 0xf556, 0xf95a,
     0xfd5e, 0xe1e2, 0xe5e6, 0xe9ea, 0xedee, 0xf1f2, 0xf5f6, 0xf9fa, 0xfdfe, 0xa202, 0xa606, 0xaa0a,
     0xae0e, 0xb212, 0xb616, 0xba1a, 0xbe1e, 0xa2a2, 0xa6a6, 0xaaaa, 0xaeae, 0xb2b2, 0xb6b6, 0xbaba,
     0xbebe, 0xa342, 0xa746, 0xab4a, 0xaf4e, 0xb352, 0xb756, 0xbb5a, 0xbf5e, 0xa3e2, 0xa7e6, 0xabea,
     0xafee, 0xb3f2, 0xb7f6, 0xbbfa, 0xbffe, 0x0e17, 0x0000, 0x3e03, 0x0e2e, 0x0963, 0x000e, 0x0517,
     0x0000, 0x2503, 0x0e65, 0x9e02, 0xe42a, 0xa029, 0x0e13, 0x0081, 0x0e27, 0x020e, 0x0597, 0x0000,
     0xb583, 0x0a85, 0xbe03, 0x0205, 0xe072, 0x8e03, 0x0505, 0x0963, 0x000e, 0xbe03, 0x0385, 0x0563,
     0x000e, 0x0028, 0x61b0, 0x9e02, 0x6582, 0xf1ed, 0x3ffe, 0x3f5e, 0x3ebe, 0x3e1e, 0x2dfe, 0x2d5e,
     0x2cbe, 0x2c1e, 0x3bfa, 0x3b5a, 0x3aba, 0x3a1a, 0x29fa, 0x295a, 0x28ba, 0x281a, 0x37f6, 0x3756,
     0x36b6, 0x3616, 0x25f6, 0x2556, 0x24b6, 0x2416, 0x33f2, 0x3352, 0x32b2, 0x3212, 0x21f2, 0x2152,
     0x20b2, 0x2012, 0x7fee, 0x7f4e, 0x7eae, 0x7e0e, 0x6dee, 0x6d4e, 0x6cae, 0x6c0e, 0x7bea, 0x7b4a,
     0x7aaa, 0x7a0a, 0x69ea, 0x694a, 0x68aa, 0x680a, 0x77e6, 0x7746, 0x76a6, 0x7606, 0x65e6, 0x6546,
     0x64a6, 0x6406, 0x73e2, 0x7342, 0x72a2, 0x7202, 0x61e2, 0x60a2, 0x6142, 0x8082]"

definition GetSecondTrampoline :: "u8 list" where
  "GetSecondTrampoline = concat (map (bytes_of 2) kTrampoline)"

text \<open>
  \<open>TrampolineData\<close>, which follows the code. Pointers are addresses; the two functions of the thread
  library are null or the library's.
\<close>

record TrampolineData =
  root_handle :: u64
  hook :: u64
  backup :: u64
  getspecific :: u64
  setspecific :: u64
  tls_key :: u32
  post_handlers :: u16
  enabled :: bool

definition TrampolineData_bytes :: "TrampolineData \<Rightarrow> u8 list" where
  "TrampolineData_bytes td =
     bytes_of 8 (root_handle td) @ bytes_of 8 (hook td) @ bytes_of 8 (backup td) @
     bytes_of 8 (getspecific td) @ bytes_of 8 (setspecific td) @ bytes_of 4 (tls_key td) @
     bytes_of 2 (post_handlers td) @ [if enabled td then 1 else 0, 0]"

definition GetTrampolineData :: "u64 \<Rightarrow> u64" where
  "GetTrampolineData trampoline = trampoline + of_nat (length GetSecondTrampoline)"

text \<open>What \<open>AllocSecondTrampoline\<close> stores in the memory it has been given.\<close>

definition write_second_trampoline :: "memory \<Rightarrow> u64 \<Rightarrow> memory" where
  "write_second_trampoline mem trampoline =
     write_bytes (write_bytes mem trampoline GetSecondTrampoline)
       (trampoline + of_nat (length GetSecondTrampoline)) (replicate 48 0)"

end
