(* ===== verification/Trampoline_Correctness.thy ===== *)
theory Trampoline_Correctness
  imports Trampoline Relocation_Semantics
begin

text \<open>
  The properties of the trampolines: the jump that is written over a function leads to the second
  trampoline, changes no register but \<open>t3\<close> and occupies the announced number of bytes; the kind that
  is suggested is always possible.
\<close>

section \<open>Jumps with a 32-bit distance\<close>

lemma scast_ucast_32:
  assumes "- (2 ^ 31) \<le> sint (w :: u64)" and "sint w < 2 ^ 31"
  shows "sint (ucast w :: u32) = sint w" and "scast (ucast w :: u32) = w"
proof -
  have "sint (ucast w :: u32) = signed_take_bit 31 (sint w)"
  proof (rule bit_eqI)
    fix n
    show "bit (sint (ucast w :: u32)) n \<longleftrightarrow> bit (signed_take_bit 31 (sint w)) n"
      by (auto simp: bit_simps min_def bit_sint_word)
  qed
  then show "sint (ucast w :: u32) = sint w"
    using assms by (simp add: signed_take_bit_int_eq_self)
  then have "sint (scast (ucast w :: u32) :: u64) = sint w"
    by (simp add: sint_up_scast is_up)
  then show "scast (ucast w :: u32) = w" by (rule signed_word_eqI)
qed

definition lui_word :: "Register \<Rightarrow> u32 \<Rightarrow> u32" where
  "lui_word r v = encode 0x00000037 [Rd r, UImmediate_MakeRaw v]"

definition jalr_imm_word :: "Register \<Rightarrow> Register \<Rightarrow> u32 \<Rightarrow> u32" where
  "jalr_imm_word rd rs v = encode 0x00000067 [Rd rd, Rs1 rs, IImmediate_MakeRaw v]"

lemma lui_fields:
  assumes "r < 32" and "take_bit 12 v = 0"
  shows "GetBits 2 5 (lui_word r v) = 0b01101"
    and "ucast (GetBits 7 5 (lui_word r v)) = r"
    and "push_bit 12 (GetBits 12 20 (lui_word r v)) = v"
proof -
  have lo: "n < 12 \<Longrightarrow> \<not> bit v n" for n using low_bits [OF assms(2)] .
  have ev: "even v" using lo [of 0] by (simp add: bit_0)
  note facts = lui_word_def word_bits lo ev register_high_bits [OF assms(1)]
  show "GetBits 2 5 (lui_word r v) = 0b01101"
    by (rule word32_eqI) (simp add: facts)
  show "ucast (GetBits 7 5 (lui_word r v)) = r"
    by (rule word8_eqI) (simp add: facts)
  show "push_bit 12 (GetBits 12 20 (lui_word r v)) = v"
    by (rule word32_eqI) (simp add: facts)
qed

lemma jalr_imm_fields:
  assumes "rd < 32" and "rs < 32"
  shows "GetBits 2 5 (jalr_imm_word rd rs v) = 0b11001" and "GetBits 12 3 (jalr_imm_word rd rs v) = 0"
    and "ucast (GetBits 7 5 (jalr_imm_word rd rs v)) = rd"
    and "ucast (GetBits 15 5 (jalr_imm_word rd rs v)) = rs"
    and "signed_drop_bit 4 (push_bit 4 (ucast (GetBits 20 12 (jalr_imm_word rd rs v)))) =
      (ucast (signed_take_bit 11 v) :: u16)"
proof -
  note facts = jalr_imm_word_def word_bits register_high_bits [OF assms(1)] register_high_bits [OF assms(2)]
  show "GetBits 2 5 (jalr_imm_word rd rs v) = 0b11001" "GetBits 12 3 (jalr_imm_word rd rs v) = 0"
    by (rule word32_eqI, simp add: facts)+
  show "ucast (GetBits 7 5 (jalr_imm_word rd rs v)) = rd"
    "ucast (GetBits 15 5 (jalr_imm_word rd rs v)) = rs"
    by (rule word8_eqI, simp add: facts)+
  show "signed_drop_bit 4 (push_bit 4 (ucast (GetBits 20 12 (jalr_imm_word rd rs v)))) =
      (ucast (signed_take_bit 11 v) :: u16)"
    by (rule word16_eqI) (simp add: facts)
qed

lemma upper_jump_formats:
  "bit (lui_word r v) 0" "bit (lui_word r v) 1"
  "bit (jalr_imm_word rd rs v) 0" "bit (jalr_imm_word rd rs v) 1"
  by (simp_all add: lui_word_def jalr_imm_word_def bit_encode)

lemma step_lui:
  assumes "code_at (mmem s) (mpc s) (bytes_of 4 (lui_word r v))" and "r < 32"
    and "take_bit 12 v = 0"
  shows "step s = Some (advance 4 (write_reg r (scast v) s))"
  using lui_fields [OF assms(2,3)]
  by (simp add: step_def Decode_word [OF assms(1) upper_jump_formats(1,2)] exec_call_def
      DecodeBaseInstruction_def DecodeLui_def base_opcodes)

lemma step_jalr_imm:
  assumes "code_at (mmem s) (mpc s) (bytes_of 4 (jalr_imm_word rd rs v))" and "rd < 32" and "rs < 32"
  shows "step s = Some ((write_reg rd (mpc s + 4) s)
    \<lparr>mpc := (read_reg rs s + scast (ucast (signed_take_bit 11 v) :: u16)) AND NOT 1\<rparr>)"
  using jalr_imm_fields [OF assms(2,3), of v]
  by (simp add: step_def Decode_word [OF assms(1) upper_jump_formats(3,4)] exec_call_def
      DecodeBaseInstruction_def DecodeJumpAndLinkRegister_def base_opcodes)

text \<open>
  The division of a distance into the immediates of \<open>auipc\<close> or \<open>lui\<close> and of \<open>jalr\<close>: the upper part is
  rounded up when the lower one is negative.
\<close>

definition upper_part :: "u32 \<Rightarrow> u32" where
  "upper_part v = push_bit 12 (if v AND 0xFFF < 0x800 then drop_bit 12 v else drop_bit 12 v + 1)"

definition lower_part :: "u32 \<Rightarrow> u32" where
  "lower_part v = (if v AND 0xFFF < 0x800 then v AND 0xFFF else - (0x1000 - (v AND 0xFFF)))"

lemma low_twelve: "unat (v AND 0xFFF :: u32) = unat v mod 4096"
proof -
  have "(0xFFF :: u32) = mask 12" by (simp add: mask_numeral)
  then have v: "v AND 0xFFF = take_bit 12 v" by (simp only: take_bit_eq_mask)
  have "unat (take_bit 12 v) = take_bit 12 (unat v)" by (rule unsigned_take_bit_eq)
  also have "\<dots> = unat v mod 4096" by (simp add: take_bit_eq_mod)
  finally show ?thesis unfolding v .
qed

lemma sint_of_small:
  assumes "unat (w :: u32) < 2147483648"
  shows "sint w = int (unat w)"
proof -
  have "signed_take_bit 31 (uint w) = uint w"
  proof (rule signed_take_bit_int_eq_self)
    have "int (unat w) < int 2147483648" using assms by (simp only: of_nat_less_iff)
    then show "uint w < 2 ^ 31" by simp
    have "(- (2 ^ 31) :: int) \<le> 0" by simp
    also have "0 \<le> uint w" by simp
    finally show "- (2 ^ 31) \<le> uint w" .
  qed
  then show ?thesis by (simp add: sint_uint)
qed

lemma sint_low_twelve: "sint (v AND 0xFFF :: u32) \<ge> 0x800 \<longleftrightarrow> \<not> v AND 0xFFF < (0x800 :: u32)"
proof -
  have less: "unat (v AND 0xFFF) < 4096" unfolding low_twelve by simp
  have s: "sint (v AND 0xFFF) = int (unat (v AND 0xFFF))"
    by (rule sint_of_small) (use less in linarith)
  have "(0x800 \<le> int n) = (\<not> n < 0x800)" for n :: nat by linarith
  moreover have "unat (0x800 :: u32) = 0x800" by simp
  ultimately show ?thesis unfolding s word_less_nat_alt by metis
qed

lemma Write32BitJumpInstruction_parts:
  "Write32BitJumpInstruction p mem op address v =
     bnd (UImmediate_unsigned (upper_part v)) (\<lambda>upper.
     bnd (IImmediate (lower_part v)) (\<lambda>lower.
     Inr (Memory_Copy p mem address
       (bytes_of 4 (op OR Rd TMP_GENERIC_REGISTER OR upper) @
        bytes_of 4 (0x67 OR Rd zero OR Rs1 TMP_GENERIC_REGISTER OR lower)))))"
proof -
  have "NOT 0xFFFFF000 = (0xFFF :: u32)" by code_simp
  then show ?thesis
    unfolding Write32BitJumpInstruction_def Let_def upper_part_def lower_part_def
    by (cases "v AND 0xFFF < 0x800") (simp_all only: sint_low_twelve if_True if_False prod.case
        not_True_eq_False not_False_eq_True)
qed

lemma upper_lower_part:
  assumes "unat v < 0x7FFFF800"
  shows "unat (upper_part v) < 2 ^ 31" and "take_bit 12 (upper_part v) = 0"
    and "- (2 ^ 11) \<le> sint (lower_part v)" and "sint (lower_part v) < 2 ^ 11"
    and "int (unat (upper_part v)) + sint (lower_part v) = int (unat v)"
proof -
  let ?lo = "unat v mod 4096" and ?hi = "unat v div 4096"
  have split: "4096 * ?hi + ?lo = unat v" by simp
  have lo: "?lo < 4096" by simp
  have hi: "unat (drop_bit 12 v) = ?hi"
    unfolding unat_drop_bit_eq by (simp add: drop_bit_eq_div)
  have hi_le: "?hi \<le> 0x7FFFF" using assms split by linarith
  have cond: "v AND 0xFFF < 0x800 \<longleftrightarrow> ?lo < 2048"
    unfolding word_less_nat_alt low_twelve by simp
  have push: "unat (push_bit 12 w) = 4096 * unat w" if "unat w \<le> 0x80000" for w :: u32
    using that by (simp add: push_bit_eq_mult unat_word_ariths mult.commute)
  have suc: "unat (drop_bit 12 v + 1) = Suc ?hi"
    using hi hi_le by (subst unat_plus_if') simp
  show "take_bit 12 (upper_part v) = 0"
    by (rule bit_word_eqI) (auto simp: upper_part_def bit_simps)
  have up: "unat (upper_part v) = 4096 * (if ?lo < 2048 then ?hi else Suc ?hi)"
  proof (cases "?lo < 2048")
    case True
    then show ?thesis unfolding upper_part_def cond using push hi hi_le by simp
  next
    case False
    then show ?thesis unfolding upper_part_def cond using push suc hi_le split assms by simp
  qed
  have low: "sint (lower_part v) = (if ?lo < 2048 then int ?lo else int ?lo - 4096)"
  proof (cases "?lo < 2048")
    case True
    then show ?thesis
      unfolding lower_part_def cond by (simp only: if_True sint_of_small low_twelve)
  next
    case False
    have s: "sint (v AND 0xFFF) = int ?lo"
      using sint_of_small [of "v AND 0xFFF"] lo unfolding low_twelve by simp
    have "sint (- (0x1000 - (v AND 0xFFF))) = sint ((v AND 0xFFF) - 0x1000)" by simp
    also have "\<dots> = int ?lo - 0x1000"
    proof -
      have "- 2147483648 \<le> int ?lo - 0x1000 \<and> int ?lo - 0x1000 < 2147483648"
        using lo by linarith
      then show ?thesis
        unfolding sint_word_ariths(2) s by (simp add: signed_take_bit_int_eq_self)
    qed
    finally show ?thesis using False unfolding lower_part_def cond by simp
  qed
  have "?hi < 0x7FFFF" if "\<not> ?lo < 2048" using assms split that by linarith
  then show "unat (upper_part v) < 2 ^ 31" unfolding up using hi_le by auto
  show "- (2 ^ 11) \<le> sint (lower_part v)" "sint (lower_part v) < 2 ^ 11"
    unfolding low using lo by (auto split: if_split)
  show "int (unat (upper_part v)) + sint (lower_part v) = int (unat v)"
  proof (cases "?lo < 2048")
    case True
    then have "int (4096 * ?hi) + int ?lo = int (unat v)" using split by linarith
    with True show ?thesis unfolding up low by simp
  next
    case False
    have "int (4096 * Suc ?hi) = int (4096 * ?hi) + 4096" by simp
    then have "int (4096 * Suc ?hi) + (int ?lo - 4096) = int (unat v)" using split by linarith
    with False show ?thesis unfolding up low by simp
  qed
qed


section \<open>The first trampoline\<close>

text \<open>When a kind of trampoline is possible, and the code it then consists of.\<close>

definition jump_possible :: "TrampolineType \<Rightarrow> u64 \<Rightarrow> u64 \<Rightarrow> bool" where
  "jump_possible type address target =
     (case type of
        kPC20 \<Rightarrow> - 0xFFFFE \<le> sint (target - address) \<and> sint (target - address) \<le> 0xFFFFE \<and>
          \<not> bit (target - address) 0
      | kPC32 \<Rightarrow> 0 < sint (target - address) \<and> sint (target - address) < 0x7FFFF800
      | kVA32 \<Rightarrow> target < 0x7FFFF800
      | _ \<Rightarrow> True)"

definition jump_code :: "TrampolineType \<Rightarrow> u64 \<Rightarrow> u64 \<Rightarrow> u8 list" where
  "jump_code type address target =
     (case type of
        kPC20 \<Rightarrow> bytes_of 4 (jal_word zero (ucast (target - address)))
      | kPC32 \<Rightarrow>
          bytes_of 4 (auipc_word TMP_GENERIC_REGISTER (upper_part (ucast (target - address)))) @
          bytes_of 4 (jalr_imm_word zero TMP_GENERIC_REGISTER (lower_part (ucast (target - address))))
      | kVA32 \<Rightarrow>
          bytes_of 4 (lui_word TMP_GENERIC_REGISTER (upper_part (ucast target))) @
          bytes_of 4 (jalr_imm_word zero TMP_GENERIC_REGISTER (lower_part (ucast target)))
      | _ \<Rightarrow> bytes_of 4 (auipc_word TMP_GENERIC_REGISTER 0) @ bytes_of 4 (ld_word TMP_GENERIC_REGISTER 10) @
          bytes_of 2 (0x8e02 :: u16) @ bytes_of 8 target)"

definition flushed :: "TrampolineType \<Rightarrow> nat" where
  "flushed type = (case type of kPC20 \<Rightarrow> 4 | kPC32 \<Rightarrow> 8 | kVA32 \<Rightarrow> 8 | _ \<Rightarrow> 0)"

lemma upper_part_accepted:
  assumes "unat v < 0x7FFFF800"
  shows "UImmediate_unsigned (upper_part v) = Inr (UImmediate_MakeRaw (upper_part v))"
    and "IImmediate (lower_part v) = Inr (IImmediate_MakeRaw (lower_part v))"
proof -
  have "unat (take_bit 31 (upper_part v)) = unat (upper_part v)"
    using upper_lower_part(1) [OF assms] by (simp only: unsigned_take_bit_eq take_bit_nat_eq_self)
  then have "take_bit 31 (upper_part v) = upper_part v" by (rule unsigned_word_eqI)
  then show "UImmediate_unsigned (upper_part v) = Inr (UImmediate_MakeRaw (upper_part v))"
    using upper_lower_part(2) [OF assms]
    by (simp add: UImmediate_unsigned_def checked_def UImmediate_AccetableValue_unsigned_iff)
  show "IImmediate (lower_part v) = Inr (IImmediate_MakeRaw (lower_part v))"
    using upper_lower_part(3,4) [OF assms]
    by (simp add: IImmediate_def checked_def IImmediate_AccetableValue_iff)
qed

lemma Write32BitJumpInstruction_code:
  assumes "unat v < 0x7FFFF800"
  shows "Write32BitJumpInstruction p mem op address v =
    Inr (Memory_Copy p mem address
      (bytes_of 4 (encode op [Rd TMP_GENERIC_REGISTER, UImmediate_MakeRaw (upper_part v)]) @
       bytes_of 4 (jalr_imm_word zero TMP_GENERIC_REGISTER (lower_part v))))"
  by (simp add: Write32BitJumpInstruction_parts upper_part_accepted [OF assms] encode_def
      jalr_imm_word_def or.assoc)

lemma unat_ucast_32:
  assumes "unat (w :: u64) < 0x7FFFF800"
  shows "unat (ucast w :: u32) = unat w"
proof -
  have "unat (ucast w :: u32) = take_bit 32 (unat w)" by (simp add: unsigned_ucast_eq)
  also have "\<dots> = unat w" by (rule take_bit_nat_eq_self) (use assms in simp)
  finally show ?thesis .
qed

lemma unat_of_sint:
  assumes "0 \<le> sint (w :: u64)"
  shows "int (unat w) = sint w"
proof -
  have "sint w = uint w - 2 ^ 64 * of_bool (bit (uint w) 63)"
    by (simp add: sint_uint signed_take_bit_eq_take_bit_minus take_bit_int_eq_self
        uint_lt2p [of w, simplified])
  moreover have "uint w < 2 ^ 64" using uint_lt2p [of w] by simp
  ultimately have "sint w = uint w" using assms by (cases "bit (uint w) 63") simp_all
  then show ?thesis by simp
qed

lemma even_sint: "2 dvd sint w \<longleftrightarrow> even (w :: 'a::len word)"
proof -
  have "bit (sint w) 0 \<longleftrightarrow> bit w 0" by (simp add: bit_sint_word)
  then show ?thesis by (simp add: bit_0)
qed

lemma WriteFirstTrampoline_code:
  "WriteFirstTrampoline p mem address target type =
     (if jump_possible type address target
      then written address (flushed type) (Memory_Copy p mem address (jump_code type address target))
      else Inl (if type = kPC20 \<and> - 0xFFFFE \<le> sint (target - address) \<and>
                    sint (target - address) \<le> 0xFFFFE
                then CheckFailed else Aborted))"
proof -
  let ?off = "target - address"
  have pc20: "JImmediate ?off = (if even ?off then Inr (JImmediate_MakeRaw (ucast ?off :: u32)) else Inl CheckFailed)"
    if "- 0xFFFFE \<le> sint ?off" and "sint ?off \<le> 0xFFFFE"
    using that by (simp add: JImmediate_def checked_def JImmediate_AccetableValue_iff even_sint
        JImmediate_MakeRaw_def CHECK_def)
  have pc32: "unat (ucast ?off :: u32) < 0x7FFFF800" if "0 < sint ?off" and "sint ?off < 0x7FFFF800"
    using that unat_of_sint [of ?off] by (subst unat_ucast_32) linarith+
  have va32: "unat (ucast target :: u32) < 0x7FFFF800" if "target < 0x7FFFF800"
    using that by (subst unat_ucast_32) (simp_all add: word_less_nat_alt)
  have words: "0x6f OR Rd zero OR JImmediate_MakeRaw v = jal_word zero v"
    "encode 0x17 [Rd TMP_GENERIC_REGISTER, UImmediate_MakeRaw v] = auipc_word TMP_GENERIC_REGISTER v"
    "encode 0x37 [Rd TMP_GENERIC_REGISTER, UImmediate_MakeRaw v] = lui_word TMP_GENERIC_REGISTER v" for v
    by (simp_all add: jal_word_def auipc_word_def lui_word_def encode_def or.assoc)
  have wide: "0xe17 = auipc_word TMP_GENERIC_REGISTER 0" "0x00ae3e03 = ld_word TMP_GENERIC_REGISTER 10"
    by code_simp+
  show ?thesis
  proof (cases type)
    case kPC20
    then show ?thesis
      by (cases "- 0xFFFFE \<le> sint ?off \<and> sint ?off \<le> 0xFFFFE")
        (auto simp: WriteFirstTrampoline_def Let_def jump_possible_def bit_0 jump_code_def flushed_def
          pc20 words)
  next
    case kPC32
    then show ?thesis by (auto simp: WriteFirstTrampoline_def Let_def jump_possible_def bit_0 jump_code_def flushed_def
          Write32BitJumpInstruction_code pc32 words)
  next
    case kVA32
    then show ?thesis by (auto simp: WriteFirstTrampoline_def Let_def jump_possible_def bit_0 jump_code_def flushed_def
          Write32BitJumpInstruction_code va32 words)
  qed (simp_all add: WriteFirstTrampoline_def jump_possible_def bit_0 jump_code_def flushed_def
      WideTrampoline_def wide)
qed


lemma two_parts:
  assumes "unat v < 0x7FFFF800"
  shows "scast (upper_part v) + scast (ucast (signed_take_bit 11 (lower_part v)) :: u16) =
    (of_nat (unat v) :: u64)"
proof -
  have up: "sint (upper_part v) = int (unat (upper_part v))"
    using sint_of_small [of "upper_part v"] upper_lower_part(1) [OF assms] by simp
  have "signed_take_bit 11 (sint (lower_part v)) = sint (lower_part v)"
    using upper_lower_part(3,4) [OF assms] by (intro signed_take_bit_int_eq_self) simp_all
  then have "scast (upper_part v) + scast (ucast (signed_take_bit 11 (lower_part v)) :: u16) =
      (word_of_int (int (unat (upper_part v)) + sint (lower_part v)) :: u64)"
    by (simp only: of_int_add scast_eq sint_narrow up)
  also have "\<dots> = of_nat (unat v)"
    by (simp only: upper_lower_part(5) [OF assms] of_int_of_nat_eq)
  finally show ?thesis .
qed

lemma clear_even: "even w \<Longrightarrow> w AND NOT 1 = (w :: u64)"
  by (rule bit_word_eqI) (auto simp: bit_simps bit_1_iff bit_0)

definition reaches :: "machine \<Rightarrow> u64 \<Rightarrow> bool" where
  "reaches s target \<longleftrightarrow> (\<exists>k s'. k \<le> 3 \<and> run k s = Some s' \<and> mpc s' = target \<and> mmem s' = mmem s \<and>
     (\<forall>r. r \<noteq> TMP_GENERIC_REGISTER \<longrightarrow> read_reg r s' = read_reg r s))"

lemma jump_registers: "TMP_GENERIC_REGISTER < 32" "zero < 32" "TMP_GENERIC_REGISTER \<noteq> 0" "zero = 0"
  by (simp_all add: TMP_GENERIC_REGISTER_def zero_def)

lemma second_jump:
  assumes "code_at (mmem s) (mpc s) (bytes_of 4 (jalr_imm_word zero TMP_GENERIC_REGISTER v))"
    and "(read_reg TMP_GENERIC_REGISTER s + scast (ucast (signed_take_bit 11 v) :: u16)) AND NOT 1 = target"
  shows "step s = Some (s\<lparr>mpc := target\<rparr>)"
  using step_jalr_imm [OF assms(1) jump_registers(2,1)] assms(2)
  by (simp add: jump_registers write_reg_def)

lemma two_instructions:
  assumes "step s = Some (advance 4 (write_reg TMP_GENERIC_REGISTER (w + scast (upper_part v)) s))"
    and "code_at (mmem s) (mpc s + 4)
      (bytes_of 4 (jalr_imm_word zero TMP_GENERIC_REGISTER (lower_part v)))"
    and "unat v < 0x7FFFF800" and "w + of_nat (unat v) = target" and "even target"
  shows "reaches s target"
proof -
  let ?s = "advance 4 (write_reg TMP_GENERIC_REGISTER (w + scast (upper_part v)) s)"
  have "w + scast (upper_part v) + scast (ucast (signed_take_bit 11 (lower_part v)) :: u16) = target"
    unfolding add.assoc two_parts [OF assms(3)] by (rule assms(4))
  then have "(read_reg TMP_GENERIC_REGISTER ?s +
      scast (ucast (signed_take_bit 11 (lower_part v)) :: u16)) AND NOT 1 = target"
    using clear_even [OF assms(5)] by (simp only: advance_simps write_reg_simps jump_registers if_False)
  moreover have "code_at (mmem ?s) (mpc ?s)
      (bytes_of 4 (jalr_imm_word zero TMP_GENERIC_REGISTER (lower_part v)))"
    using assms(2) by simp
  ultimately have "step ?s = Some (?s\<lparr>mpc := target\<rparr>)" by (intro second_jump)
  then have "run (Suc (Suc 0)) s = Some (?s\<lparr>mpc := target\<rparr>)"
    using assms(1) by simp
  then show ?thesis unfolding reaches_def
    by (intro exI [of _ 2] exI [of _ "?s\<lparr>mpc := target\<rparr>"]) (auto simp: numeral_2_eq_2 read_write_reg)
qed

lemma Decode_wide_jump:
  assumes "code_at mem a (bytes_of 2 (0x8e02 :: u16))"
  shows "Decode mem a = ([consumer_call.JumpAndLinkRegister
    \<lparr>JumpAndLinkRegisterArgs.dst = 0, base = 28, offset = 0, insn_len = 2\<rparr>], 2)"
proof -
  let ?m = "mem_of 0 (bytes_of 2 (0x8e02 :: u16))"
  have "GetInsnSize ?m 0 = 2" by code_simp
  moreover have "read_bytes ?m 0 2 = bytes_of 2 (0x8e02 :: u16)" by code_simp
  ultimately have "Decode mem a = Decode ?m 0"
    using assms by (intro same_bytes_same_instruction) (simp add: code_at_def)
  also have "\<dots> = ([consumer_call.JumpAndLinkRegister
      \<lparr>JumpAndLinkRegisterArgs.dst = 0, base = 28, offset = 0, insn_len = 2\<rparr>], 2)"
    by code_simp
  finally show ?thesis .
qed

lemma wide_jump:
  assumes "code_at (mmem s) (mpc s)
      (bytes_of 4 (auipc_word TMP_GENERIC_REGISTER 0) @ bytes_of 4 (ld_word TMP_GENERIC_REGISTER 10) @
       bytes_of 2 (0x8e02 :: u16) @ bytes_of 8 target)"
    and "even target"
  shows "reaches s target"
proof -
  let ?s1 = "advance 4 (write_reg TMP_GENERIC_REGISTER (mpc s) s)"
  let ?s2 = "advance 8 (write_reg TMP_GENERIC_REGISTER target s)"
  from assms(1) have c: "code_at (mmem s) (mpc s) (bytes_of 4 (auipc_word TMP_GENERIC_REGISTER 0))"
    "code_at (mmem s) (mpc s + 4) (bytes_of 4 (ld_word TMP_GENERIC_REGISTER 10))"
    "code_at (mmem s) (mpc s + 8) (bytes_of 2 (0x8e02 :: u16))"
    "code_at (mmem s) (mpc s + 10) (bytes_of 8 target)"
    by (simp_all add: code_at_append add.assoc)
  have 1: "step s = Some ?s1"
    using step_auipc [OF c(1) jump_registers(1)] by simp
  have "step ?s1 = Some (advance 4 (write_reg TMP_GENERIC_REGISTER (load64 (mmem ?s1)
      (read_reg TMP_GENERIC_REGISTER ?s1 + scast (ucast (signed_take_bit 11 (10 :: u32)) :: u16))) ?s1))"
    by (rule step_ld) (use c(2) jump_registers in simp_all)
  moreover have "scast (ucast (signed_take_bit 11 (10 :: u32)) :: u16) = (10 :: u64)" by code_simp
  ultimately have 2: "step ?s1 = Some ?s2"
    using load64_at [OF c(4)] by (simp add: jump_registers)
  have 3: "step ?s2 = Some (?s2\<lparr>mpc := target\<rparr>)"
    using clear_even [OF assms(2)] c(3)
    by (simp add: step_def Decode_wide_jump exec_call_def write_reg_def read_reg_def
        TMP_GENERIC_REGISTER_def advance_def)
  have "run (Suc (Suc (Suc 0))) s = Some (?s2\<lparr>mpc := target\<rparr>)"
    by (simp only: run.simps 1 2 3 bind.simps)
  then show ?thesis unfolding reaches_def
    by (intro exI [of _ 3] exI [of _ "?s2\<lparr>mpc := target\<rparr>"]) (auto simp: numeral_3_eq_3 read_write_reg)
qed

lemma jump_code_reaches:
  assumes "code_at (mmem s) (mpc s) (jump_code type (mpc s) target)"
    and "jump_possible type (mpc s) target" and "even target"
  shows "reaches s target"
proof (cases type)
  case kPC20
  let ?off = "target - mpc s"
  have fits: "- (2 ^ 31) \<le> sint ?off" "sint ?off < 2 ^ 31" using assms(2) kPC20
    by (simp_all add: jump_possible_def)
  have "JImmediate_AccetableValue (ucast ?off :: u32)"
    using assms(2) kPC20
    by (simp add: JImmediate_AccetableValue_iff scast_ucast_32(1) [OF fits] even_sint jump_possible_def bit_0)
  then have "step s = Some (s\<lparr>mpc := target\<rparr>)"
    using step_jal [of s zero "ucast ?off"] assms(1) kPC20
    by (simp add: jump_code_def jump_registers scast_ucast_32(2) [OF fits] write_reg_def)
  then show ?thesis unfolding reaches_def
    by (intro exI [of _ 1] exI [of _ "s\<lparr>mpc := target\<rparr>"]) (simp add: read_reg_def)
next
  case kPC32
  let ?v = "ucast (target - mpc s) :: u32"
  have small: "unat (target - mpc s) < 0x7FFFF800"
  proof -
    have "0 < sint (target - mpc s)" "sint (target - mpc s) < int 0x7FFFF800"
      using assms(2) kPC32 by (simp_all add: jump_possible_def bit_0)
    then show ?thesis using unat_of_sint [of "target - mpc s"] by linarith
  qed
  have low: "take_bit 12 (upper_part ?v) = 0"
    using small by (intro upper_lower_part(2)) (simp add: unat_ucast_32)
  show ?thesis
  proof (rule two_instructions [where v = ?v and w = "mpc s"])
    show "step s = Some (advance 4 (write_reg TMP_GENERIC_REGISTER (mpc s + scast (upper_part ?v)) s))"
      using assms(1) kPC32 by (intro step_auipc low jump_registers) (simp add: jump_code_def code_at_append)
    show "code_at (mmem s) (mpc s + 4)
        (bytes_of 4 (jalr_imm_word zero TMP_GENERIC_REGISTER (lower_part ?v)))"
      using assms(1) kPC32 by (simp add: jump_code_def code_at_append)
    show "unat ?v < 0x7FFFF800" "mpc s + of_nat (unat ?v) = target"
      using small by (simp_all add: unat_ucast_32)
  qed (rule assms(3))
next
  case kVA32
  let ?v = "ucast target :: u32"
  have small: "unat target < 0x7FFFF800"
    using assms(2) kVA32 by (simp add: jump_possible_def word_less_nat_alt)
  have low: "take_bit 12 (upper_part ?v) = 0"
    using small by (intro upper_lower_part(2)) (simp add: unat_ucast_32)
  show ?thesis
  proof (rule two_instructions [where v = ?v and w = 0])
    show "step s = Some (advance 4 (write_reg TMP_GENERIC_REGISTER (0 + scast (upper_part ?v)) s))"
      unfolding add_0
      using assms(1) kVA32 by (intro step_lui low jump_registers) (simp add: jump_code_def code_at_append)
    show "code_at (mmem s) (mpc s + 4)
        (bytes_of 4 (jalr_imm_word zero TMP_GENERIC_REGISTER (lower_part ?v)))"
      using assms(1) kVA32 by (simp add: jump_code_def code_at_append)
    show "unat ?v < 0x7FFFF800" "0 + of_nat (unat ?v) = target"
      using small by (simp_all add: unat_ucast_32)
  qed (rule assms(3))
qed (use assms wide_jump in \<open>simp_all add: jump_code_def\<close>)


lemma length_jump_code: "length (jump_code type address target) = GetFirstTrampolineSize type"
  by (simp add: jump_code_def GetFirstTrampolineSize_def WideTrampoline_def split: TrampolineType.split)

lemma WriteFirstTrampoline_cases:
  assumes "writev_writes p" and "WriteFirstTrampoline p mem address target type = Inr t"
  shows "jump_possible type address target" and "cache_start t = address" and "cache_size t = flushed type"
    and "written_memory t = (if copied t then write_bytes mem address (jump_code type address target) else mem)"
proof -
  from assms(2) show p: "jump_possible type address target"
    by (simp add: WriteFirstTrampoline_code split: if_splits)
  show "cache_start t = address" "cache_size t = flushed type"
    "written_memory t = (if copied t then write_bytes mem address (jump_code type address target) else mem)"
    using assms(2) p Memory_Copy_cases [OF assms(1), of mem address "jump_code type address target"]
    by (auto simp: WriteFirstTrampoline_code written_def)
qed

text \<open>
  C14: Whatever kind of first trampoline has been written over a function, calling the function leads
  to the target: within three instructions the processor is there, with the memory and all registers
  but \<open>t3\<close> as they were. The 32-bit distances are divided so that a negative lower part is repaid by
  the upper one.
\<close>

theorem first_trampoline_reaches_target:
  assumes "writev_writes p"
    and "WriteFirstTrampoline p mem address target type = Inr t" and "copied t"
    and "mmem s = written_memory t" and "mpc s = address" and "even target"
  shows "\<exists>k s'. k \<le> 3 \<and> run k s = Some s' \<and> mpc s' = target \<and> mmem s' = mmem s \<and>
    (\<forall>r. r \<noteq> TMP_GENERIC_REGISTER \<longrightarrow> read_reg r s' = read_reg r s)"
proof -
  note w = WriteFirstTrampoline_cases [OF assms(1,2)]
  have "length (jump_code type address target) \<le> 2 ^ 64"
    by (simp add: length_jump_code GetFirstTrampolineSize_def WideTrampoline_def split: TrampolineType.split)
  then have "code_at (mmem s) (mpc s) (jump_code type (mpc s) target)"
    using w(4) assms(3-5) by (simp add: code_at_def read_write_bytes)
  then show ?thesis
    using jump_code_reaches [of s type target] w(1) assms(5,6) by (simp add: reaches_def)
qed

definition example_target :: u64 where "example_target = 0x40000cde"

text \<open>The lower part of this distance is negative: the upper one is one page too far.\<close>

theorem first_trampoline_reaches_target_witness:
  "\<exists>t k s'. WriteFirstTrampoline plain_platform (\<lambda>x. 0) 0x1000 example_target kPC32 = Inr t \<and>
    k \<le> 3 \<and> run k \<lparr>regs = (\<lambda>r. 0), mpc = 0x1000, mmem = written_memory t\<rparr> = Some s' \<and>
    mpc s' = example_target"
proof -
  have ok: "jump_possible kPC32 0x1000 example_target" by code_simp
  then obtain t where t: "WriteFirstTrampoline plain_platform (\<lambda>x. 0) 0x1000 example_target kPC32 = Inr t"
      "copied t"
    by (simp add: WriteFirstTrampoline_code written_def plain_platform_def)
  have "even example_target" by (simp add: example_target_def)
  with first_trampoline_reaches_target [OF platforms_write(1) t, of
      "\<lparr>regs = (\<lambda>r. 0), mpc = 0x1000, mmem = written_memory t\<rparr>"] t(1)
  show ?thesis by fastforce
qed

text \<open>
  C17: Writing a first trampoline changes no byte outside the first \<open>GetFirstTrampolineSize\<close> bytes of
  the function, which are at most \<open>kMaxFirstTrampolineSize\<close>, and none at all when the copy failed.
  The instruction cache is flushed for exactly these bytes, except for a wide trampoline, for which
  the flushed range is empty.
\<close>

theorem first_trampoline_extent:
  assumes "writev_writes p" and "WriteFirstTrampoline p mem address target type = Inr t"
  shows "(\<forall>x. \<not> copied t \<or> GetFirstTrampolineSize type \<le> unat (x - address) \<longrightarrow>
      written_memory t x = mem x) \<and>
    GetFirstTrampolineSize type \<le> kMaxFirstTrampolineSize \<and> cache_start t = address \<and>
    cache_size t =
      (if type \<in> {kPC20, kPC32, kVA32} then GetFirstTrampolineSize type else 0)"
proof -
  note w = WriteFirstTrampoline_cases [OF assms]
  show ?thesis
    using w(2-4) length_jump_code [of type address target]
    by (auto simp: write_bytes_outside flushed_def GetFirstTrampolineSize_def WideTrampoline_def
        kMaxFirstTrampolineSize_def split: TrampolineType.split)
qed

theorem first_trampoline_extent_witness:
  "case WriteFirstTrampoline plain_platform (\<lambda>x. 0) 0x1000 0x123456789abc kWide of
     Inl e \<Rightarrow> False
   | Inr t \<Rightarrow> cache_size t = 0 \<and> written_memory t (0x1000 + 18) = 0"
proof -
  obtain t where t: "WriteFirstTrampoline plain_platform (\<lambda>x. 0) 0x1000 0x123456789abc kWide = Inr t"
    by (simp add: WriteFirstTrampoline_code jump_possible_def written_def)
  have "GetFirstTrampolineSize kWide = 18" by (simp add: GetFirstTrampolineSize_def WideTrampoline_def)
  with first_trampoline_extent [OF platforms_write(1) t] t show ?thesis by simp
qed

text \<open>
  C16: The suggested kind of trampoline always exists and is always possible: for a function and a
  target at even addresses, writing a trampoline of the kind that \<open>GetSuggestedTrampolineType\<close> names
  neither aborts nor fails a check, on every distance.
\<close>

theorem suggested_trampoline_possible:
  assumes "even address" and "even target"
  shows "IsValid (GetSuggestedTrampolineType address target) \<and>
    (\<exists>t. WriteFirstTrampoline p mem address target (GetSuggestedTrampolineType address target) = Inr t)"
proof -
  have "even (target - address)" using assms by simp
  then have "jump_possible (GetSuggestedTrampolineType address target) address target"
    by (auto simp: GetSuggestedTrampolineType_def Let_def jump_possible_def bit_0)
  then show ?thesis
    by (auto simp: WriteFirstTrampoline_code written_def GetSuggestedTrampolineType_def Let_def
        IsValid_def)
qed

theorem suggested_trampoline_possible_witness:
  "GetSuggestedTrampolineType 0x7fff00001000 0x7fff70000ffe = kPC32 \<and>
   (\<exists>t. WriteFirstTrampoline plain_platform (\<lambda>x. 0) 0x7fff00001000 0x7fff70000ffe kPC32 = Inr t)"
proof -
  have "GetSuggestedTrampolineType 0x7fff00001000 0x7fff70000ffe = kPC32"
    by (simp add: GetSuggestedTrampolineType_def)
  with suggested_trampoline_possible [of "0x7fff00001000" "0x7fff70000ffe" plain_platform "\<lambda>x. 0"]
  show ?thesis by simp
qed

end
