(* ===== verification/Trampoline_Dispatch.thy ===== *)
theory Trampoline_Dispatch
  imports Trampoline_Correctness
begin

text \<open>
  The machine code of the second trampoline, run on the machine: it reads the \<open>TrampolineData\<close> behind
  it and goes to the hook, to the relocated function or to the code that calls the register handlers.
\<close>

section \<open>The dispatch of the second trampoline\<close>

text \<open>The instructions at the entry of the second trampoline, decoded.\<close>

definition second_code :: memory where
  "second_code = mem_of 0 GetSecondTrampoline"

definition load_t3 :: "LoadOperandType \<Rightarrow> u16 \<Rightarrow> consumer_call" where
  "load_t3 ty off = Load \<lparr>LoadArgsTemplate.operand_type = ty, dst = 28, src = 28, offset = off\<rparr>"

definition beqz_t3 :: "u16 \<Rightarrow> consumer_call" where
  "beqz_t3 off = consumer_call.CompareAndBranch
     \<lparr>BranchArgs.opcode = BranchOpcode.kBeq, src1 = 28, src2 = 0, offset = off\<rparr>"

definition auipc_t3 :: consumer_call where
  "auipc_t3 = consumer_call.Auipc \<lparr>UpperImmArgs.dst = 28, imm = 0\<rparr>"

definition jr_t3 :: consumer_call where
  "jr_t3 = consumer_call.JumpAndLinkRegister
     \<lparr>JumpAndLinkRegisterArgs.dst = 0, base = 28, offset = 0, insn_len = 2\<rparr>"

lemma second_code_entry:
  "map (Decode second_code) [0, 4, 8, 12, 16, 20, 24, 26, 30, 34] =
    [([auipc_t3], 4), ([load_t3 LoadOperandType.k8bitSigned 786], 4), ([beqz_t3 18], 4),
     ([auipc_t3], 4), ([load_t3 LoadOperandType.k64bit 736], 4), ([beqz_t3 16], 4), ([jr_t3], 2),
     ([auipc_t3], 4), ([load_t3 LoadOperandType.k64bit 730], 4), ([jr_t3], 2)]"
  by code_simp

lemma second_code_sizes:
  "map (GetInsnSize second_code) [0, 4, 8, 12, 16, 20, 24, 26, 30, 34] = [4, 4, 4, 4, 4, 4, 2, 4, 4, 2]"
  by code_simp

lemma length_GetSecondTrampoline: "length GetSecondTrampoline = 740"
  by (simp add: GetSecondTrampoline_def length_concat kTrampoline_def comp_def)

lemma Decode_second_code:
  assumes "code_at mem tr GetSecondTrampoline"
    and "k + GetInsnSize second_code (of_nat k) \<le> 740"
  shows "Decode mem (tr + of_nat k) = Decode second_code (of_nat k)"
proof (rule same_bytes_same_instruction)
  have at: "mem (tr + of_nat i) = GetSecondTrampoline ! i" if "i < 740" for i
    using assms(1) that unfolding code_at_def length_GetSecondTrampoline
    by (metis nth_read_bytes)
  have code: "second_code (of_nat i) = GetSecondTrampoline ! i" if "i < 740" for i
    using that by (simp add: second_code_def mem_of_def length_GetSecondTrampoline unat_of_nat_64)
  show "read_bytes mem (tr + of_nat k) (GetInsnSize second_code (of_nat k)) =
      read_bytes second_code (of_nat k) (GetInsnSize second_code (of_nat k))"
  proof (rule nth_equalityI; simp only: length_read_bytes)
    fix i assume i: "i < GetInsnSize second_code (of_nat k)"
    then have "k + i < 740" using assms(2) by linarith
    then show "read_bytes mem (tr + of_nat k) (GetInsnSize second_code (of_nat k)) ! i =
        read_bytes second_code (of_nat k) (GetInsnSize second_code (of_nat k)) ! i"
      using i at [of "k + i"] code [of "k + i"] by (simp add: add.assoc)
  qed
qed


definition second_trampoline_at :: "memory \<Rightarrow> u64 \<Rightarrow> TrampolineData \<Rightarrow> bool" where
  "second_trampoline_at mem tr td \<longleftrightarrow>
     code_at mem tr GetSecondTrampoline \<and> code_at mem (GetTrampolineData tr) (TrampolineData_bytes td)"

lemma second_trampoline_data:
  assumes "second_trampoline_at mem tr td"
  shows "mem (tr + 786) = (if enabled td then 1 else 0)"
    and "load64 mem (tr + 748) = hook td" and "load64 mem (tr + 756) = backup td"
proof -
  from assms have "code_at mem (tr + 740) (TrampolineData_bytes td)"
    by (simp add: second_trampoline_at_def GetTrampolineData_def length_GetSecondTrampoline)
  then have c: "code_at mem (tr + 748) (bytes_of 8 (hook td))"
    "code_at mem (tr + 756) (bytes_of 8 (backup td))"
    "code_at mem (tr + 786) [if enabled td then 1 else 0, 0]"
    unfolding TrampolineData_bytes_def by (simp_all add: code_at_append add.assoc)
  show "load64 mem (tr + 748) = hook td" "load64 mem (tr + 756) = backup td"
    by (rule load64_at, rule c(1), rule load64_at, rule c(2))
  have "read_bytes mem (tr + 786) 2 ! 0 = (if enabled td then 1 else 0)"
    using c(3) by (simp add: code_at_def numeral_2_eq_2)
  then show "mem (tr + 786) = (if enabled td then 1 else 0)" by simp
qed

lemma second_decodes:
  assumes "code_at mem tr GetSecondTrampoline"
  shows "Decode mem tr = ([auipc_t3], 4)"
    and "Decode mem (tr + 4) = ([load_t3 LoadOperandType.k8bitSigned 786], 4)"
    and "Decode mem (tr + 8) = ([beqz_t3 18], 4)" and "Decode mem (tr + 12) = ([auipc_t3], 4)"
    and "Decode mem (tr + 16) = ([load_t3 LoadOperandType.k64bit 736], 4)"
    and "Decode mem (tr + 20) = ([beqz_t3 16], 4)" and "Decode mem (tr + 24) = ([jr_t3], 2)"
    and "Decode mem (tr + 26) = ([auipc_t3], 4)"
    and "Decode mem (tr + 30) = ([load_t3 LoadOperandType.k64bit 730], 4)"
    and "Decode mem (tr + 34) = ([jr_t3], 2)"
  using second_code_entry second_code_sizes Decode_second_code [OF assms, of 0]
    Decode_second_code [OF assms, of 4] Decode_second_code [OF assms, of 8]
    Decode_second_code [OF assms, of 12] Decode_second_code [OF assms, of 16]
    Decode_second_code [OF assms, of 20] Decode_second_code [OF assms, of 24]
    Decode_second_code [OF assms, of 26] Decode_second_code [OF assms, of 30]
    Decode_second_code [OF assms, of 34]
  by simp_all

text \<open>The machine \<open>s\<close> with \<open>t3\<close> set to \<open>v\<close>, at \<open>p\<close>.\<close>

definition dispatching :: "machine \<Rightarrow> u64 \<Rightarrow> u64 \<Rightarrow> machine" where
  "dispatching s v p = s\<lparr>regs := (regs s)(28 := v), mpc := p\<rparr>"

lemma dispatching_simps [simp]:
  "mmem (dispatching s v p) = mmem s" "mpc (dispatching s v p) = p"
  "read_reg 28 (dispatching s v p) = v" "read_reg 0 (dispatching s v p) = 0"
  "write_reg 28 w (dispatching s v p) = dispatching s w p"
  "advance n (dispatching s v p) = dispatching s v (p + of_nat n)"
  "write_reg 0 w (dispatching s v p) = dispatching s v p"
  "dispatching s v p\<lparr>mpc := q\<rparr> = dispatching s v q"
  by (simp_all add: dispatching_def read_reg_def write_reg_def advance_def)

lemma dispatching_self: "dispatching s (regs s 28) (mpc s) = s"
  by (simp add: dispatching_def)

lemma exec_dispatching:
  "exec_call auipc_t3 n (dispatching s v p) = Some (dispatching s p (p + of_nat n))"
  "exec_call (load_t3 ty off) n (dispatching s v p) =
     map_option (\<lambda>w. dispatching s w (p + of_nat n)) (load_value ty (mmem s) (v + scast off))"
  "exec_call (beqz_t3 off) n (dispatching s v p) =
     Some (dispatching s v (if v = 0 then p + scast off else p + of_nat n))"
  "exec_call jr_t3 n (dispatching s v p) = Some (dispatching s v (v AND NOT 1))"
  by (simp_all add: auipc_t3_def load_t3_def beqz_t3_def jr_t3_def exec_call_def branch_taken_def
      option.map_comp comp_def)

lemma read_dispatching: "r \<noteq> TMP_GENERIC_REGISTER \<Longrightarrow> read_reg r (dispatching s v p) = read_reg r s"
  by (simp add: dispatching_def read_reg_def TMP_GENERIC_REGISTER_def)

lemma dispatch_runs:
  assumes "second_trampoline_at (mmem s) tr td"
  shows "run 3 (dispatching s v tr) =
      Some (dispatching s (if enabled td then 1 else 0) (tr + (if enabled td then 12 else 26)))"
    and "run 3 (dispatching s v (tr + 12)) =
      Some (dispatching s (hook td) (tr + (if hook td = 0 then 36 else 24)))"
    and "run 3 (dispatching s v (tr + 26)) = Some (dispatching s (backup td) (backup td AND NOT 1))"
    and "run 1 (dispatching s v (tr + 24)) = Some (dispatching s v (v AND NOT 1))"
  using assms second_trampoline_data [OF assms]
  by (simp_all add: numeral_3_eq_3 step_def second_decodes exec_dispatching second_trampoline_at_def
      load_value_def add.assoc)

text \<open>
  C15: The second trampoline decides where a call of a hooked function goes. Run from its entry, the
  machine code reads the data behind it and is after at most seven instructions at the backup, which
  is the relocated function, when the hook is disabled; at the hook when there is one; and otherwise at
  the code that calls the register handlers. Memory and registers other than \<open>t3\<close> are unchanged.
\<close>

theorem second_trampoline_dispatches:
  assumes "code_at (mmem s) tr GetSecondTrampoline"
    and "code_at (mmem s) (GetTrampolineData tr) (TrampolineData_bytes td)" and "mpc s = tr"
  shows "\<exists>k s'. k \<le> 7 \<and> run k s = Some s' \<and> mmem s' = mmem s \<and>
    (\<forall>r. r \<noteq> TMP_GENERIC_REGISTER \<longrightarrow> read_reg r s' = read_reg r s) \<and>
    mpc s' = (if \<not> enabled td then backup td AND NOT 1
              else if hook td = 0 then tr + 36 else hook td AND NOT 1)"
proof -
  have at: "second_trampoline_at (mmem s) tr td" using assms(1,2) by (simp add: second_trampoline_at_def)
  note runs = dispatch_runs [OF at]
  define v where "v = regs s 28"
  have s: "s = dispatching s v tr" using dispatching_self [of s] assms(3) by (simp add: v_def)
  have reached: ?thesis if "run k (dispatching s v tr) = Some (dispatching s w p)" and "k \<le> 7" and
    "p = (if \<not> enabled td then backup td AND NOT 1
          else if hook td = 0 then tr + 36 else hook td AND NOT 1)" for k w p
    using that s by (intro exI [of _ k] exI [of _ "dispatching s w p"]) (simp add: read_dispatching)
  show ?thesis
  proof (cases "enabled td")
    case False
    then have "run (3 + 3) (dispatching s v tr) = Some (dispatching s (backup td) (backup td AND NOT 1))"
      unfolding run_add by (simp add: runs)
    from reached [OF this] False show ?thesis by (simp only: if_True not_False_eq_True)
  next
    case True
    then have six: "run (3 + 3) (dispatching s v tr) =
        Some (dispatching s (hook td) (tr + (if hook td = 0 then 36 else 24)))"
      unfolding run_add by (simp add: runs)
    show ?thesis
    proof (cases "hook td = 0")
      case True
      with reached [OF six] \<open>enabled td\<close> show ?thesis by simp
    next
      case False
      then have "run (3 + 3 + 1) (dispatching s v tr) =
          Some (dispatching s (hook td) (hook td AND NOT 1))"
        unfolding run_add [of _ 1] six by (simp add: runs(4) [simplified])
      from reached [OF this] False \<open>enabled td\<close> show ?thesis by simp
    qed
  qed
qed

definition example_data :: TrampolineData where
  "example_data = \<lparr>root_handle = 0x5000, hook = 0x2000, backup = 0x3000, getspecific = 0, setspecific = 0,
     tls_key = 0, post_handlers = 0, enabled = True\<rparr>"

theorem second_trampoline_dispatches_witness:
  "\<exists>k s'. k \<le> 7 \<and> run k \<lparr>regs = (\<lambda>r. 1), mpc = 0x10000,
      mmem = mem_of 0x10000 (GetSecondTrampoline @ TrampolineData_bytes example_data)\<rparr> = Some s' \<and>
    mpc s' = 0x2000"
proof -
  let ?m = "mem_of 0x10000 (GetSecondTrampoline @ TrampolineData_bytes example_data)"
  have "code_at ?m 0x10000 (GetSecondTrampoline @ TrampolineData_bytes example_data)"
    by (rule code_at_mem_of) (simp add: length_GetSecondTrampoline TrampolineData_bytes_def)
  then have "code_at ?m 0x10000 GetSecondTrampoline"
    "code_at ?m (GetTrampolineData 0x10000) (TrampolineData_bytes example_data)"
    by (simp_all add: code_at_append GetTrampolineData_def)
  moreover have "hook example_data = 0x2000" "enabled example_data" by (simp_all add: example_data_def)
  ultimately show ?thesis
    using second_trampoline_dispatches [of "\<lparr>regs = (\<lambda>r. 1), mpc = 0x10000, mmem = ?m\<rparr>" "0x10000" example_data]
    by fastforce
qed

end
