(* ===== verification/Chunk_Table.thy ===== *)
theory Chunk_Table
  imports Memory_Access
begin

text \<open>
  The table of used chunks of a heap, \<open>chunk_table_\<close> of \<open>core/memory.cc\<close>, one bit per chunk, and
  \<open>Memory::AllocChunk\<close>, which looks for a run of free chunks. An access past the table is the fault
  \<open>OutOfBounds\<close>. The lemmas show that the search is first fit: it finds the lowest run that is free, or
  there is none, and marks exactly its chunks.
\<close>

section \<open>Bits of the table\<close>

definition chunk_bit :: "u8 list \<Rightarrow> nat \<Rightarrow> bool" where
  "chunk_bit table i \<longleftrightarrow> bit (table ! (i div 8)) (i mod 8)"

definition test_chunk :: "u8 list \<Rightarrow> nat \<Rightarrow> bool result" where
  "test_chunk table i =
     (if i div 8 < length table then Inr (table ! (i div 8) AND push_bit (i mod 8) 1 \<noteq> 0)
      else Inl OutOfBounds)"

definition mark_chunk :: "u8 list \<Rightarrow> nat \<Rightarrow> u8 list result" where
  "mark_chunk table i =
     (if i div 8 < length table
      then Inr (table[i div 8 := table ! (i div 8) OR push_bit (i mod 8) 1])
      else Inl OutOfBounds)"

definition clear_chunk :: "u8 list \<Rightarrow> nat \<Rightarrow> u8 list result" where
  "clear_chunk table i =
     (if i div 8 < length table
      then Inr (table[i div 8 := table ! (i div 8) AND NOT (push_bit (i mod 8) 1)])
      else Inl OutOfBounds)"

text \<open>The loops over the chunks from \<open>i\<close>, \<open>k\<close> of them.\<close>

primrec mark_chunks :: "u8 list \<Rightarrow> nat \<Rightarrow> nat \<Rightarrow> u8 list result" where
  "mark_chunks table i 0 = Inr table"
| "mark_chunks table i (Suc k) = bnd (mark_chunk table i) (\<lambda>table'. mark_chunks table' (Suc i) k)"

primrec clear_chunks :: "u8 list \<Rightarrow> nat \<Rightarrow> nat \<Rightarrow> u8 list result" where
  "clear_chunks table i 0 = Inr table"
| "clear_chunks table i (Suc k) = bnd (clear_chunk table i) (\<lambda>table'. clear_chunks table' (Suc i) k)"

section \<open>\<open>AllocChunk\<close>\<close>

function scan_chunks ::
  "u8 list \<Rightarrow> nat \<Rightarrow> nat \<Rightarrow> nat \<Rightarrow> int \<Rightarrow> nat \<Rightarrow> (int \<times> nat) result" where
  "scan_chunks table total_chunks chunks i start count =
     (if i < total_chunks then
        bnd (test_chunk table i) (\<lambda>used.
          if \<not> used then
            let start' = (if start = -1 then int i else start); count' = Suc count
            in if count' = chunks then Inr (start', count')
               else scan_chunks table total_chunks chunks (Suc i) start' count'
          else scan_chunks table total_chunks chunks (Suc i) (-1) 0)
      else Inr (start, count))"
  by pat_completeness auto
termination
  by (relation "measure (\<lambda>(table, total_chunks, chunks, i, start, count). total_chunks - i)") auto

declare scan_chunks.simps [simp del]

definition AllocChunk :: "u8 list \<Rightarrow> nat \<Rightarrow> nat \<Rightarrow> (int \<times> u8 list) result" where
  "AllocChunk table total_chunks chunks =
     bnd (scan_chunks table total_chunks chunks 0 (-1) 0) (\<lambda>(start, count).
       if count = chunks
       then bnd (mark_chunks table (nat start) chunks) (\<lambda>table'. Inr (start, table'))
       else Inr (-1, table))"

section \<open>What the operations on bits do\<close>

lemma bit_mask_chunk: "bit (2 ^ k :: u8) n \<longleftrightarrow> n = k \<and> k < 8"
  by (auto simp: bit_simps)

lemma test_chunk_bit:
  assumes "i < 8 * length table"
  shows "test_chunk table i = Inr (chunk_bit table i)"
proof -
  have "i div 8 < length table" using assms by linarith
  moreover have "table ! (i div 8) AND push_bit (i mod 8) 1 \<noteq> 0 \<longleftrightarrow> bit (table ! (i div 8)) (i mod 8)"
  proof
    assume "table ! (i div 8) AND push_bit (i mod 8) 1 \<noteq> 0"
    then obtain n where "bit (table ! (i div 8) AND push_bit (i mod 8) 1) n"
      by (auto simp: bit_eq_iff)
    then show "bit (table ! (i div 8)) (i mod 8)"
      by (auto simp: bit_and_iff bit_mask_chunk)
  next
    assume "bit (table ! (i div 8)) (i mod 8)"
    then have "bit (table ! (i div 8) AND push_bit (i mod 8) 1) (i mod 8)"
      by (simp add: bit_and_iff bit_mask_chunk)
    then show "table ! (i div 8) AND push_bit (i mod 8) 1 \<noteq> 0" by (metis bit_0_eq bot_apply bot_bool_def)
  qed
  ultimately show ?thesis by (simp add: test_chunk_def chunk_bit_def)
qed

lemma chunk_position: "i div 8 = j div 8 \<Longrightarrow> i mod 8 = j mod 8 \<longleftrightarrow> i = j" for i j :: nat
  by (metis div_mult_mod_eq)

lemma mark_chunk_bits:
  assumes "i < 8 * length table"
  obtains table' where "mark_chunk table i = Inr table'" and "length table' = length table"
    and "\<And>j. j < 8 * length table \<Longrightarrow> chunk_bit table' j \<longleftrightarrow> chunk_bit table j \<or> j = i"
proof -
  have "i div 8 < length table" using assms by linarith
  then have "mark_chunk table i = Inr (table[i div 8 := table ! (i div 8) OR push_bit (i mod 8) 1])"
    by (simp add: mark_chunk_def)
  moreover have "chunk_bit (table[i div 8 := table ! (i div 8) OR push_bit (i mod 8) 1]) j \<longleftrightarrow>
      chunk_bit table j \<or> j = i" if "j < 8 * length table" for j
    using that chunk_position [of i j] \<open>i div 8 < length table\<close>
    by (auto simp: chunk_bit_def nth_list_update bit_or_iff bit_mask_chunk)
  ultimately show thesis using that by simp
qed

lemma clear_chunk_bits:
  assumes "i < 8 * length table"
  obtains table' where "clear_chunk table i = Inr table'" and "length table' = length table"
    and "\<And>j. j < 8 * length table \<Longrightarrow> chunk_bit table' j \<longleftrightarrow> chunk_bit table j \<and> j \<noteq> i"
proof -
  have "i div 8 < length table" using assms by linarith
  then have "clear_chunk table i = Inr (table[i div 8 := table ! (i div 8) AND NOT (push_bit (i mod 8) 1)])"
    by (simp add: clear_chunk_def)
  moreover have "chunk_bit (table[i div 8 := table ! (i div 8) AND NOT (push_bit (i mod 8) 1)]) j \<longleftrightarrow>
      chunk_bit table j \<and> j \<noteq> i" if "j < 8 * length table" for j
    using that chunk_position [of i j] \<open>i div 8 < length table\<close>
    by (auto simp: chunk_bit_def nth_list_update bit_and_iff bit_not_iff bit_mask_chunk)
  ultimately show thesis using that by simp
qed

lemma mark_chunks_bits:
  assumes "i + k \<le> 8 * length table"
  shows "\<exists>table'. mark_chunks table i k = Inr table' \<and> length table' = length table \<and>
    (\<forall>j < 8 * length table. chunk_bit table' j \<longleftrightarrow> chunk_bit table j \<or> i \<le> j \<and> j < i + k)"
  using assms
proof (induction k arbitrary: table i)
  case 0
  then show ?case by auto
next
  case (Suc k)
  from Suc.prems have "i < 8 * length table" by simp
  then obtain t where t: "mark_chunk table i = Inr t" "length t = length table"
    "\<And>j. j < 8 * length table \<Longrightarrow> chunk_bit t j \<longleftrightarrow> chunk_bit table j \<or> j = i"
    using mark_chunk_bits by blast
  obtain t' where "mark_chunks t (Suc i) k = Inr t'" "length t' = length t"
    "\<forall>j < 8 * length t. chunk_bit t' j \<longleftrightarrow> chunk_bit t j \<or> Suc i \<le> j \<and> j < Suc i + k"
    using Suc.IH [of "Suc i" t] Suc.prems t(2) by auto
  with t show ?case by auto
qed

lemma clear_chunks_bits:
  assumes "i + k \<le> 8 * length table"
  shows "\<exists>table'. clear_chunks table i k = Inr table' \<and> length table' = length table \<and>
    (\<forall>j < 8 * length table. chunk_bit table' j \<longleftrightarrow> chunk_bit table j \<and> \<not> (i \<le> j \<and> j < i + k))"
  using assms
proof (induction k arbitrary: table i)
  case 0
  then show ?case by auto
next
  case (Suc k)
  from Suc.prems have "i < 8 * length table" by simp
  then obtain t where t: "clear_chunk table i = Inr t" "length t = length table"
    "\<And>j. j < 8 * length table \<Longrightarrow> chunk_bit t j \<longleftrightarrow> chunk_bit table j \<and> j \<noteq> i"
    using clear_chunk_bits by blast
  obtain t' where "clear_chunks t (Suc i) k = Inr t'" "length t' = length t"
    "\<forall>j < 8 * length t. chunk_bit t' j \<longleftrightarrow> chunk_bit t j \<and> \<not> (Suc i \<le> j \<and> j < Suc i + k)"
    using Suc.IH [of "Suc i" t] Suc.prems t(2) by auto
  with t show ?case by auto
qed

section \<open>First fit\<close>

definition free_run :: "u8 list \<Rightarrow> nat \<Rightarrow> nat \<Rightarrow> nat \<Rightarrow> bool" where
  "free_run table total_chunks chunks c \<longleftrightarrow>
     c + chunks \<le> total_chunks \<and> (\<forall>i < chunks. \<not> chunk_bit table (c + i))"

text \<open>
  The state of the scan before chunk \<open>i\<close>: the last \<open>count\<close> chunks are free, and no free run ends
  before \<open>i\<close>.
\<close>

definition scanned :: "u8 list \<Rightarrow> nat \<Rightarrow> nat \<Rightarrow> int \<Rightarrow> nat \<Rightarrow> bool" where
  "scanned table chunks i start count \<longleftrightarrow>
     count \<le> i \<and> count < chunks \<and> start = (if count = 0 then -1 else int (i - count)) \<and>
     (\<forall>j. i - count \<le> j \<and> j < i \<longrightarrow> \<not> chunk_bit table j) \<and>
     (\<forall>c. free_run table i chunks c \<longrightarrow> False) \<and>
     (count < i \<longrightarrow> chunk_bit table (i - count - 1))"

lemma scan_chunks_first_fit:
  assumes "scanned table chunks i start count" and "i \<le> total_chunks"
    and "total_chunks \<le> 8 * length table"
  shows "\<exists>start' count'. scan_chunks table total_chunks chunks i start count = Inr (start', count') \<and>
    (if count' = chunks
     then 0 \<le> start' \<and> free_run table total_chunks chunks (nat start') \<and>
       (\<forall>c < nat start'. \<not> free_run table total_chunks chunks c)
     else \<forall>c. \<not> free_run table total_chunks chunks c)"
  using assms
proof (induction table total_chunks chunks i start count rule: scan_chunks.induct)
  case (1 table total_chunks chunks i start count)
  note IH = 1(1,2) and s = 1(3) [unfolded scanned_def] and bounds = 1(4,5)
  show ?case
  proof (cases "i < total_chunks")
    case False
    then have "i = total_chunks" using bounds by simp
    with s False show ?thesis by (subst scan_chunks.simps) (auto simp: free_run_def)
  next
    case True
    then have test: "test_chunk table i = Inr (chunk_bit table i)"
      using bounds by (intro test_chunk_bit) simp
    show ?thesis
    proof (cases "chunk_bit table i")
      case used: True
      have "\<not> free_run table (Suc i) chunks c" for c
      proof
        assume r: "free_run table (Suc i) chunks c"
        then have "c + chunks = Suc i \<or> free_run table i chunks c" by (auto simp: free_run_def)
        with s have "c + chunks = Suc i" by blast
        then have "c + (chunks - 1) = i" using s by linarith
        moreover have "chunks - 1 < chunks" using s by linarith
        then have "\<not> chunk_bit table (c + (chunks - 1))" using r unfolding free_run_def by blast
        ultimately show False using used by simp
      qed
      with s have "scanned table chunks (Suc i) (- 1) 0" by (simp add: scanned_def used)
      with IH(2) [OF True test] used True bounds show ?thesis
        by (subst scan_chunks.simps) (simp add: test)
    next
      case free: False
      let ?start = "if start = -1 then int i else start"
      have start: "?start = int (i - count)" using s by auto
      have run_free: "\<not> chunk_bit table j" if "i - count \<le> j" and "j \<le> i" for j
        using s free that by (cases "j = i") auto
      show ?thesis
      proof (cases "Suc count = chunks")
        case full: True
        have "scan_chunks table total_chunks chunks i start count = Inr (int (i - count), chunks)"
          using True free full start by (subst scan_chunks.simps) (simp add: test)
        moreover have "free_run table total_chunks chunks (i - count)"
          unfolding free_run_def using True full s run_free by auto
        moreover have "\<not> free_run table total_chunks chunks c" if "c < i - count" for c
        proof
          assume "free_run table total_chunks chunks c"
          then have "free_run table i chunks c" using that full by (auto simp: free_run_def)
          with s show False by blast
        qed
        ultimately show ?thesis by simp
      next
        case short: False
        have "\<not> free_run table (Suc i) chunks c" for c
        proof
          assume r: "free_run table (Suc i) chunks c"
          have "\<not> free_run table i chunks c" using s by blast
          with r have c: "c + chunks = Suc i" by (auto simp: free_run_def)
          have "Suc count < chunks" using s short by linarith
          then have "count < i" and "c \<le> i - count - 1" and "i - count - 1 - c < chunks" using c by linarith+
          then have "\<not> chunk_bit table (c + (i - count - 1 - c))" using r unfolding free_run_def by blast
          with \<open>c \<le> i - count - 1\<close> \<open>count < i\<close> s show False by simp
        qed
        then have "scanned table chunks (Suc i) ?start (Suc count)"
          unfolding scanned_def start using s short run_free by auto
        with IH(1) [OF True test _ refl refl] free short True bounds show ?thesis
          by (subst scan_chunks.simps) (simp add: test Let_def)
      qed
    qed
  qed
qed

lemma first_fit:
  assumes "total_chunks \<le> 8 * length table" and "0 < chunks"
  shows "\<exists>start table'. AllocChunk table total_chunks chunks = Inr (start, table') \<and>
    (if \<exists>c. free_run table total_chunks chunks c
     then start = int (LEAST c. free_run table total_chunks chunks c) \<and>
       free_run table total_chunks chunks (nat start) \<and> length table' = length table \<and>
       (\<forall>j < 8 * length table.
          chunk_bit table' j \<longleftrightarrow> chunk_bit table j \<or> nat start \<le> j \<and> j < nat start + chunks)
     else start = -1 \<and> table' = table)"
proof -
  have "\<not> free_run table 0 chunks c" for c using assms(2) by (simp add: free_run_def)
  then have "scanned table chunks 0 (- 1) 0" using assms(2) by (simp add: scanned_def)
  from scan_chunks_first_fit [OF this le0 assms(1)] obtain start count where
    scan: "scan_chunks table total_chunks chunks 0 (- 1) 0 = Inr (start, count)" and
    found: "if count = chunks
      then 0 \<le> start \<and> free_run table total_chunks chunks (nat start) \<and>
        (\<forall>c < nat start. \<not> free_run table total_chunks chunks c)
      else \<forall>c. \<not> free_run table total_chunks chunks c" by blast
  show ?thesis
  proof (cases "count = chunks")
    case False
    with scan found show ?thesis by (simp add: AllocChunk_def)
  next
    case True
    with found have run: "free_run table total_chunks chunks (nat start)" and start: "0 \<le> start"
      and least: "\<And>c. free_run table total_chunks chunks c \<Longrightarrow> nat start \<le> c"
      by (auto simp: not_less [symmetric])
    from run have "nat start + chunks \<le> 8 * length table" using assms(1) by (simp add: free_run_def)
    from mark_chunks_bits [OF this] obtain table' where
      "mark_chunks table (nat start) chunks = Inr table'" "length table' = length table"
      "\<forall>j < 8 * length table. chunk_bit table' j \<longleftrightarrow> chunk_bit table j \<or>
        nat start \<le> j \<and> j < nat start + chunks" by blast
    moreover have "(LEAST c. free_run table total_chunks chunks c) = nat start"
      using run least by (rule Least_equality)
    ultimately show ?thesis using scan run start True by (auto simp: AllocChunk_def)
  qed
qed

text \<open>
  \<open>AllocChunk\<close> is first fit: when some run of the wanted number of chunks is free, it returns the
  lowest one and marks exactly its chunks; otherwise it returns -1 and leaves the table alone. It
  never accesses a byte past the table.
\<close>

theorem AllocChunk_first_fit:
  assumes "total_chunks \<le> 8 * length table" and "0 < chunks"
  shows "\<exists>start table'. AllocChunk table total_chunks chunks = Inr (start, table') \<and>
    (if \<exists>c. free_run table total_chunks chunks c
     then start = int (LEAST c. free_run table total_chunks chunks c) \<and>
       free_run table total_chunks chunks (nat start) \<and> length table' = length table \<and>
       (\<forall>j < 8 * length table.
          chunk_bit table' j \<longleftrightarrow> chunk_bit table j \<or> nat start \<le> j \<and> j < nat start + chunks)
     else start = -1 \<and> table' = table)"
  using assms by (rule first_fit)

text \<open>The run of two does not fit into the hole of one chunk.\<close>

theorem AllocChunk_first_fit_witness:
  "AllocChunk [0b00000101, 0] 16 2 = Inr (3, [0b00011101, 0]) \<and>
   int (LEAST c. free_run [0b00000101, 0] 16 2 c) = 3"
proof -
  have run: "AllocChunk [0b00000101, 0] 16 2 = Inr (3, [0b00011101, 0])" by code_simp
  have "free_run [0b00000101, 0] 16 2 3" by code_simp
  then have "\<exists>c. free_run [0b00000101, 0] 16 2 c" by blast
  with AllocChunk_first_fit [of 16 "[0b00000101, 0]" 2] obtain start table' where
    "AllocChunk [0b00000101, 0] 16 2 = Inr (start, table')"
    "start = int (LEAST c. free_run [0b00000101, 0] 16 2 c)"
    by (simp only: if_True) auto
  with run show ?thesis by simp
qed

end
