(* ===== verification/Memory_Allocator.thy ===== *)
theory Memory_Allocator
  imports Chunk_Table
begin

text \<open>
  The allocator of executable memory, \<open>Memory\<close> of \<open>core/memory.cc\<close>: heaps of chunks of 128 bytes, a
  header in front of every block, and two lists of allocators, one for memory anywhere and one for
  memory in a range of addresses that a short jump can reach.

  A \<open>Memory\<close> object is a record in the map \<open>allocators\<close> from its address; \<open>delete\<close> takes it out, and
  using a pointer to it afterwards is the fault \<open>UseAfterFree\<close>. The lists that \<open>next_\<close> links are lists
  of addresses, of which \<open>default_allocator_\<close> and \<open>root_allocator_\<close> are the heads. The headers are a map
  of their own, apart from the bytes of the blocks; \<open>heap_writable\<close> is the protection of the heap, and
  a header is written only in a heap that is writable. The system and the memory of the C and C++
  libraries are parameters, and all of them may fail; \<open>malloc\<close> does not clear what it returns, and when it fails the
  table is empty. \<open>ProtectOSMemory\<close> ignores the result of \<open>libc_mprotect\<close>: \<open>mprotect_answers\<close> says which of the
  calls to come succeed, and one that fails leaves the heap as it was. In the states \<open>protecting\<close> all of
  them succeed; the invariants of the allocator are proved for these, and \<open>Allocator_Defects\<close> shows what
  a failing call does.
\<close>

section \<open>State\<close>

record MemoryHeader =
  header_magic :: u32
  header_chunk_count :: u32
  header_allocator :: u64

record Memory =
  heap_start :: u64
  heap_size :: u64
  chunk_table :: "u8 list"
  allocated_chunks :: u64
  references :: u64
  heap_writable :: bool

record process =
  contents :: memory
  headers :: "u64 \<Rightarrow> MemoryHeader"
  allocators :: "u64 \<Rightarrow> Memory option"
  default_list :: "u64 list"
  root_list :: "u64 list"
  mprotect_answers :: "nat \<Rightarrow> bool"

definition protecting :: "process \<Rightarrow> bool" where
  "protecting st \<longleftrightarrow> (\<forall>n. mprotect_answers st n)"

lemma protecting_update [simp]:
  "protecting (st\<lparr>contents := c\<rparr>) = protecting st" "protecting (st\<lparr>headers := h\<rparr>) = protecting st"
  "protecting (st\<lparr>allocators := a\<rparr>) = protecting st" "protecting (st\<lparr>default_list := d\<rparr>) = protecting st"
  "protecting (st\<lparr>root_list := d\<rparr>) = protecting st"
  by (simp_all add: protecting_def)

record map_entry =
  map_start :: u64
  map_stop :: u64
  map_none :: bool

record system =
  mmap :: "process \<Rightarrow> u64 \<Rightarrow> u64 \<Rightarrow> u64 option"
  mprotect_ok :: "process \<Rightarrow> u64 \<Rightarrow> u64 \<Rightarrow> bool"
  malloc_bytes :: "process \<Rightarrow> nat \<Rightarrow> u8 list"
  new_address :: "process \<Rightarrow> u64 option"
  proc_maps :: "process \<Rightarrow> map_entry list"
  in_core :: "process \<Rightarrow> u64 \<Rightarrow> bool"
  page_size :: u64

definition kMemoryMagic :: u32 where "kMemoryMagic = 0xCAFEBEEF"
definition kHeapSize :: u64 where "kHeapSize = 1 * 1024 * 1024"
definition kSmallHeapSize :: u64 where "kSmallHeapSize = 64 * 1024"
definition kChunkSize :: u64 where "kChunkSize = 128"
definition kAlignment :: u64 where "kAlignment = 16"

definition deref :: "process \<Rightarrow> u64 \<Rightarrow> Memory result" where
  "deref st a =
     (if a = 0 then Inl NullPointer
      else case allocators st a of None \<Rightarrow> Inl UseAfterFree | Some m \<Rightarrow> Inr m)"

definition put :: "u64 \<Rightarrow> Memory \<Rightarrow> process \<Rightarrow> process" where
  "put a m st = st\<lparr>allocators := (allocators st)(a := Some m)\<rparr>"

definition GetMemoryHeader :: "process \<Rightarrow> u64 \<Rightarrow> MemoryHeader option" where
  "GetMemoryHeader st ptr =
     (if ptr = 0 then None
      else let header = headers st (ptr - kAlignment) in
        if header_magic header \<noteq> kMemoryMagic \<or> header_chunk_count header = 0 \<or>
           header_allocator header = 0
        then None else Some header)"

definition AllocOSMemory :: "system \<Rightarrow> process \<Rightarrow> u64 \<Rightarrow> u64 \<Rightarrow> u64 \<times> process" where
  "AllocOSMemory sys st sz start =
     (case mmap sys st sz start of
        None \<Rightarrow> (0, st)
      | Some ptr \<Rightarrow>
          if mprotect_ok sys st ptr sz
          then (ptr, st\<lparr>headers := (\<lambda>x. if x - ptr < sz
                  then \<lparr>header_magic = 0, header_chunk_count = 0, header_allocator = 0\<rparr>
                  else headers st x)\<rparr>)
          else (0, st))"

section \<open>Scopes in which a heap is writable\<close>

lemma protecting_put [simp]: "protecting (put a m st) = protecting st"
  by (simp add: put_def)

text \<open>One call of \<open>libc_mprotect\<close> for the heap of the allocator at \<open>a\<close>, whose other members are those of \<open>m\<close>.\<close>

definition ProtectOSMemory :: "u64 \<Rightarrow> Memory \<Rightarrow> bool \<Rightarrow> process \<Rightarrow> process" where
  "ProtectOSMemory a m writable st =
     put a (if mprotect_answers st 0 then m\<lparr>heap_writable := writable\<rparr> else m)
       (st\<lparr>mprotect_answers := (\<lambda>n. mprotect_answers st (Suc n))\<rparr>)"

lemma ProtectOSMemory_succeeds:
  assumes "protecting st"
  shows "ProtectOSMemory a m w st = put a (m\<lparr>heap_writable := w\<rparr>) st"
proof -
  have "mprotect_answers st n" for n using assms by (simp add: protecting_def)
  then have "(\<lambda>n. mprotect_answers st (Suc n)) = mprotect_answers st" "mprotect_answers st 0" by auto
  then show ?thesis by (simp add: ProtectOSMemory_def)
qed

definition acquire :: "process \<Rightarrow> u64 \<Rightarrow> process result" where
  "acquire st a = bnd (deref st a) (\<lambda>m.
     let m' = m\<lparr>references := references m + 1\<rparr> in
     Inr (if references m' = 1 then ProtectOSMemory a m' True st else put a m' st))"

definition release :: "process \<Rightarrow> u64 \<Rightarrow> process result" where
  "release st a = bnd (deref st a) (\<lambda>m.
     let m' = m\<lparr>references := references m - 1\<rparr> in
     Inr (if references m' = 0 then ProtectOSMemory a m' False st else put a m' st))"

text \<open>A block in which an object \<open>ScopedWritableAllocatedMemory\<close> lives, made of an allocator or of a block.\<close>

definition scoped :: "process \<Rightarrow> u64 \<Rightarrow> (process \<Rightarrow> ('a \<times> process) result) \<Rightarrow> ('a \<times> process) result" where
  "scoped st a body =
     bnd (acquire st a) (\<lambda>st1. bnd (body st1) (\<lambda>(x, st2). bnd (release st2 a) (\<lambda>st3. Inr (x, st3))))"

definition scoped_block :: "process \<Rightarrow> u64 \<Rightarrow> (process \<Rightarrow> ('a \<times> process) result) \<Rightarrow> ('a \<times> process) result" where
  "scoped_block st ptr body =
     (case GetMemoryHeader st ptr of
        None \<Rightarrow> body st
      | Some header \<Rightarrow> scoped st (header_allocator header) body)"

definition write_header :: "u64 \<Rightarrow> u64 \<Rightarrow> MemoryHeader \<Rightarrow> process \<Rightarrow> process result" where
  "write_header a address header st = bnd (deref st a) (\<lambda>m.
     if heap_start m = 0 then Inl NullPointer
     else if \<not> heap_writable m then Inl WriteProtected
     else Inr (st\<lparr>headers := (headers st)(address := header)\<rparr>))"

section \<open>One allocator\<close>

definition expected_chunk_count :: "u64 \<Rightarrow> u64" where
  "expected_chunk_count sz = align_up (sz + kAlignment) kChunkSize div kChunkSize"

definition DoAlloc :: "process \<Rightarrow> u64 \<Rightarrow> u64 \<Rightarrow> (u64 \<times> process) result" where
  "DoAlloc st a sz = scoped st a (\<lambda>st. bnd (deref st a) (\<lambda>m.
     if sz = 0 \<or> sz > heap_size m then Inr (0, st)
     else let expected = expected_chunk_count sz in
       bnd (AllocChunk (chunk_table m) (unat (heap_size m div kChunkSize)) (unat expected)) (\<lambda>(chunk, table).
       if chunk < 0 then Inr (0, put a (m\<lparr>chunk_table := table\<rparr>) st)
       else let header = heap_start m + word_of_int chunk * kChunkSize in
         bnd (write_header a header
               \<lparr>header_magic = kMemoryMagic, header_chunk_count = ucast expected, header_allocator = a\<rparr>
               (put a (m\<lparr>chunk_table := table\<rparr>) st)) (\<lambda>st.
         Inr (header + kAlignment,
              put a (m\<lparr>chunk_table := table, allocated_chunks := allocated_chunks m + expected\<rparr>) st)))))"

definition delete_allocator :: "u64 \<Rightarrow> process \<Rightarrow> process" where
  "delete_allocator a st =
     st\<lparr>root_list := remove1 a (root_list st), allocators := (allocators st)(a := None)\<rparr>"

definition is_default_allocator :: "process \<Rightarrow> u64 \<Rightarrow> bool" where
  "is_default_allocator st a = (case default_list st of [] \<Rightarrow> False | d # ds \<Rightarrow> a = d)"

definition DoFree :: "process \<Rightarrow> u64 \<Rightarrow> u64 \<Rightarrow> (unit \<times> process) result" where
  "DoFree st a ptr = scoped st a (\<lambda>st. bnd (deref st a) (\<lambda>m.
     let address = ptr - kAlignment; header = headers st address;
         start_chunk = (address - heap_start m) div kChunkSize in
     bnd (clear_chunks (chunk_table m) (unat start_chunk) (unat (header_chunk_count header))) (\<lambda>table.
     let m' = m\<lparr>chunk_table := table,
                 allocated_chunks := allocated_chunks m - ucast (header_chunk_count header)\<rparr> in
     bnd (write_header a address (header\<lparr>header_chunk_count := 0\<rparr>) (put a m' st)) (\<lambda>st.
     Inr ((), if allocated_chunks m' = 0 \<and> \<not> is_default_allocator st a
              then delete_allocator a st else st)))))"

primrec any_used :: "u8 list \<Rightarrow> nat \<Rightarrow> nat \<Rightarrow> bool result" where
  "any_used table i 0 = Inr False"
| "any_used table i (Suc k) = bnd (test_chunk table i) (\<lambda>used. if used then Inr True else any_used table (Suc i) k)"

definition DoRealloc :: "process \<Rightarrow> u64 \<Rightarrow> u64 \<Rightarrow> u64 \<Rightarrow> (u64 \<times> process) result" where
  "DoRealloc st a ptr sz = scoped st a (\<lambda>st. bnd (deref st a) (\<lambda>m.
     let address = ptr - kAlignment; header = headers st address;
         count = ucast (header_chunk_count header) :: u64; expected = expected_chunk_count sz in
     if count \<ge> expected then Inr (ptr, st)
     else let start_chunk = (address - heap_start m) div kChunkSize + count in
       bnd (any_used (chunk_table m) (unat start_chunk) (unat (expected - count))) (\<lambda>should_realloc.
       if should_realloc then
         bnd (DoAlloc st a sz) (\<lambda>(new_ptr, st).
         if new_ptr = 0 then Inr (0, st)
         else let st = st\<lparr>contents := libc_memcpy (contents st) new_ptr
                   (read_bytes (contents st) ptr
                     (unat (ucast (header_chunk_count (headers st address)) * kChunkSize)))\<rparr> in
           bnd (DoFree st a ptr) (\<lambda>(_, st). Inr (new_ptr, st)))
       else
         let header' = header\<lparr>header_chunk_count := ucast expected\<rparr>;
             m' = m\<lparr>allocated_chunks := allocated_chunks m + (expected - count)\<rparr> in
         bnd (write_header a address header' (put a m' st)) (\<lambda>st.
         bnd (mark_chunks (chunk_table m') (unat start_chunk)
               (unat (expected - ucast (header_chunk_count header')))) (\<lambda>table.
         Inr (ptr, put a (m'\<lparr>chunk_table := table\<rparr>) st))))))"

section \<open>All allocators\<close>

text \<open>The loop over a list of allocators.\<close>

primrec alloc_first :: "(Memory \<Rightarrow> bool) \<Rightarrow> process \<Rightarrow> u64 list \<Rightarrow> u64 \<Rightarrow> (u64 \<times> process) result" where
  "alloc_first suitable st [] sz = Inr (0, st)"
| "alloc_first suitable st (a # as) sz =
     bnd (deref st a) (\<lambda>m.
     if \<not> suitable m then alloc_first suitable st as sz
     else bnd (DoAlloc st a sz) (\<lambda>(ptr, st').
          if ptr \<noteq> 0 then Inr (ptr, st') else alloc_first suitable st' as sz))"

definition new_Memory :: "system \<Rightarrow> process \<Rightarrow> u64 \<Rightarrow> u64 \<Rightarrow> (u64 \<times> process) result" where
  "new_Memory sys st heap sz =
     (case new_address sys st of
        None \<Rightarrow> Inl Aborted
      | Some a \<Rightarrow> Inr (a, put a \<lparr>heap_start = heap, heap_size = sz,
            chunk_table = malloc_bytes sys st (unat (sz div kChunkSize div 8)),
            allocated_chunks = 0, references = 0, heap_writable = False\<rparr> st))"

definition Alloc :: "system \<Rightarrow> process \<Rightarrow> u64 \<Rightarrow> (u64 \<times> process) result" where
  "Alloc sys st sz =
     (if sz \<ge> kHeapSize div 2 then Inr (0, st)
      else bnd (alloc_first (\<lambda>m. True) st (default_list st) sz) (\<lambda>(ptr, st).
        if ptr \<noteq> 0 then Inr (ptr, st)
        else let (heap, st) = AllocOSMemory sys st kHeapSize 0 in
             bnd (new_Memory sys st heap kHeapSize) (\<lambda>(a, st).
             DoAlloc (st\<lparr>default_list := a # default_list st\<rparr>) a sz)))"

definition Realloc :: "process \<Rightarrow> u64 \<Rightarrow> u64 \<Rightarrow> (u64 \<times> process) result" where
  "Realloc st ptr sz =
     (case GetMemoryHeader st ptr of
        None \<Rightarrow> Inr (0, st)
      | Some header \<Rightarrow> DoRealloc st (header_allocator header) ptr sz)"

definition Free :: "process \<Rightarrow> u64 \<Rightarrow> (unit \<times> process) result" where
  "Free st ptr =
     (case GetMemoryHeader st ptr of
        None \<Rightarrow> Inr ((), st)
      | Some header \<Rightarrow> DoFree st (header_allocator header) ptr)"

section \<open>A heap in a range of addresses\<close>

record MemorySpace =
  space_address :: u64
  space_size :: u64

text \<open>
  \<open>std::set\<close> with the order of the class, by decreasing sz: an element that is equivalent to one in
  the set is not inserted.
\<close>

primrec emplace :: "MemorySpace \<Rightarrow> MemorySpace list \<Rightarrow> MemorySpace list" where
  "emplace s [] = [s]"
| "emplace s (t # ts) =
     (if space_size s > space_size t then s # t # ts
      else if space_size t > space_size s then t # emplace s ts
      else t # ts)"

text \<open>The loop over the lines of \<open>/proc/self/maps\<close>.\<close>

primrec collect_spaces ::
  "u64 \<Rightarrow> u64 \<Rightarrow> u64 \<Rightarrow> u64 \<Rightarrow> map_entry list \<Rightarrow> MemorySpace list \<Rightarrow> MemorySpace list \<Rightarrow>
   MemorySpace list \<times> MemorySpace list" where
  "collect_spaces start stop min_size previous_end [] spaces dangerous = (spaces, dangerous)"
| "collect_spaces start stop min_size previous_end (e # es) spaces dangerous =
     (if previous_end < start then
        collect_spaces start stop min_size (map_stop e) es spaces dangerous
      else
        let sz = (if map_start e > stop then map_start e else stop) - previous_end in
        if sz < min_size then collect_spaces start stop min_size (map_stop e) es spaces dangerous
        else
          let spaces' = emplace \<lparr>space_address = previous_end, space_size = sz\<rparr> spaces;
              dangerous' = (if map_none e
                then emplace \<lparr>space_address = map_start e, space_size = map_stop e - map_start e\<rparr> dangerous
                else dangerous)
          in collect_spaces start stop min_size (map_stop e) es spaces' dangerous')"

primrec new_memory ::
  "system \<Rightarrow> process \<Rightarrow> u64 \<Rightarrow> u64 \<Rightarrow> u64 \<Rightarrow> MemorySpace list \<Rightarrow> (u64 \<times> process) option result" where
  "new_memory sys st start stop recommended_size [] = Inr None"
| "new_memory sys st start stop recommended_size (space # spaces) =
     (if space_address space > stop then new_memory sys st start stop recommended_size spaces
      else
        let sz = min (space_size space) recommended_size;
            base = space_address space + min (space_size space) (stop - space_address space) - sz in
        if base < start \<or> base + sz > stop then new_memory sys st start stop recommended_size spaces
        else if in_core sys st base then new_memory sys st start stop recommended_size spaces
        else
          let (heap, st') = AllocOSMemory sys st sz base in
          if heap = 0 then new_memory sys st start stop recommended_size spaces
          else bnd (new_Memory sys st' heap sz) (\<lambda>r. Inr (Some r)))"

definition NewAllocator ::
  "system \<Rightarrow> process \<Rightarrow> u64 \<Rightarrow> u64 \<Rightarrow> u64 \<Rightarrow> u64 \<Rightarrow> (u64 \<times> process) option result" where
  "NewAllocator sys st start stop min_size recommended_size =
     (let (spaces, dangerous) = collect_spaces start stop min_size 0x8000 (proc_maps sys st) [] [] in
      bnd (new_memory sys st start stop recommended_size spaces) (\<lambda>r.
      case r of
        Some r' \<Rightarrow> Inr (Some r')
      | None \<Rightarrow> new_memory sys st start stop recommended_size dangerous))"

definition AllocRange :: "system \<Rightarrow> process \<Rightarrow> u64 \<Rightarrow> u64 \<Rightarrow> u64 \<Rightarrow> (u64 \<times> process) result" where
  "AllocRange sys st sz start0 stop0 =
     (if sz \<ge> kSmallHeapSize div 2 then Inr (0, st)
      else
        let start = align_up start0 (page_size sys); stop = align_down stop0 (page_size sys) in
        bnd (alloc_first (\<lambda>m. \<not> (heap_start m < start \<or> heap_start m + heap_size m > stop))
              st (root_list st) sz) (\<lambda>(ptr, st).
        if ptr \<noteq> 0 then Inr (ptr, st)
        else bnd (NewAllocator sys st start stop (page_size sys) kSmallHeapSize) (\<lambda>r.
          case r of
            None \<Rightarrow> Inr (0, st)
          | Some (a, st) \<Rightarrow> DoAlloc (st\<lparr>root_list := a # root_list st\<rparr>) a sz)))"

end
