(* ===== verification/Allocator_Blocks.thy ===== *)
theory Allocator_Blocks
  imports Memory_Allocator
begin

text \<open>
  Blocks and chunks. A state of the allocator is well-formed, \<open>allocator_ok\<close>, when the blocks with a
  header that counts chunks lie in their heaps, do not overlap and are marked in the chunk table, the
  number of allocated chunks is their sum, no heap is writable, and the coming calls of
  \<open>libc_mprotect\<close> succeed (\<open>protecting\<close>). Every operation but \<open>Realloc\<close> keeps it.
\<close>

section \<open>Blocks\<close>

definition chunk_address :: "Memory \<Rightarrow> nat \<Rightarrow> u64" where
  "chunk_address m c = heap_start m + of_nat (128 * c)"

definition total_chunks :: "Memory \<Rightarrow> nat" where
  "total_chunks m = unat (heap_size m) div 128"

definition count_at :: "process \<Rightarrow> Memory \<Rightarrow> nat \<Rightarrow> nat" where
  "count_at st m c = unat (header_chunk_count (headers st (chunk_address m c)))"

definition in_heap :: "Memory \<Rightarrow> u64 \<Rightarrow> bool" where
  "in_heap m x \<longleftrightarrow> x - heap_start m < heap_size m"

definition block_ok :: "process \<Rightarrow> u64 \<Rightarrow> Memory \<Rightarrow> nat \<Rightarrow> bool" where
  "block_ok st a m c \<longleftrightarrow> chunk_table m \<noteq> [] \<and>
     c + count_at st m c \<le> total_chunks m \<and>
     header_magic (headers st (chunk_address m c)) = kMemoryMagic \<and>
     header_allocator (headers st (chunk_address m c)) = a \<and>
     (\<forall>i. c \<le> i \<and> i < c + count_at st m c \<longrightarrow> chunk_bit (chunk_table m) i) \<and>
     (\<forall>i. c < i \<and> i < c + count_at st m c \<longrightarrow> count_at st m i = 0)"

definition heap_ok :: "process \<Rightarrow> u64 \<Rightarrow> Memory \<Rightarrow> bool" where
  "heap_ok st a m \<longleftrightarrow>
     unat (heap_start m) + unat (heap_size m) < 2 ^ 64 \<and> unat (heap_size m) \<le> 2 ^ 20 \<and>
     (chunk_table m = [] \<or> total_chunks m \<le> 8 * length (chunk_table m)) \<and>
     (\<forall>c < total_chunks m. 0 < count_at st m c \<longrightarrow> block_ok st a m c) \<and>
     allocated_chunks m = of_nat (\<Sum>c < total_chunks m. count_at st m c)"

definition allocator_ok :: "process \<Rightarrow> bool" where
  "allocator_ok st \<longleftrightarrow> protecting st \<and>
     (\<forall>a m. allocators st a = Some m \<longrightarrow>
        a \<noteq> 0 \<and> references m = 0 \<and> \<not> heap_writable m \<and> (heap_start m \<noteq> 0 \<longrightarrow> heap_ok st a m)) \<and>
     (\<forall>a b m n x. allocators st a = Some m \<and> allocators st b = Some n \<and> a \<noteq> b \<and>
        heap_start m \<noteq> 0 \<and> heap_start n \<noteq> 0 \<longrightarrow> \<not> (in_heap m x \<and> in_heap n x)) \<and>
     dom (allocators st) = set (default_list st) \<union> set (root_list st)"

lemma unat_add_of_nat:
  assumes "unat (x :: u64) + n < 2 ^ 64"
  shows "unat (x + of_nat n) = unat x + n"
proof -
  have "n < 2 ^ 64" using assms by linarith
  then have n: "unat (of_nat n :: u64) = n" by (rule unat_of_nat_64)
  then show ?thesis using unat_add_lem [of x "of_nat n"] assms by simp
qed

lemma unat_chunk_address:
  assumes "unat (heap_start m) + unat (heap_size m) < 2 ^ 64" and "c < total_chunks m"
  shows "unat (chunk_address m c) = unat (heap_start m) + 128 * c"
    and "128 * c + 128 \<le> unat (heap_size m)"
proof -
  show le: "128 * c + 128 \<le> unat (heap_size m)" using assms(2) unfolding total_chunks_def by linarith
  have "unat (heap_start m) + 128 * c < 2 ^ 64" using le assms(1) by linarith
  then show "unat (chunk_address m c) = unat (heap_start m) + 128 * c"
    unfolding chunk_address_def by (rule unat_add_of_nat)
qed

lemma chunk_address_inject:
  assumes "unat (heap_start m) + unat (heap_size m) < 2 ^ 64" and "c < total_chunks m" and "d < total_chunks m"
  shows "chunk_address m c = chunk_address m d \<longleftrightarrow> c = d"
proof
  assume "chunk_address m c = chunk_address m d"
  then have "unat (heap_start m) + 128 * c = unat (heap_start m) + 128 * d"
    using unat_chunk_address(1) [OF assms(1,2)] unat_chunk_address(1) [OF assms(1,3)] by (simp only:)
  then show "c = d" by linarith
qed simp

lemma in_heap_chunk:
  assumes "unat (heap_start m) + unat (heap_size m) < 2 ^ 64" and "c < total_chunks m" and "k < 128"
  shows "in_heap m (chunk_address m c + of_nat k)"
proof -
  note u = unat_chunk_address [OF assms(1,2)]
  have "chunk_address m c + of_nat k - heap_start m = of_nat (128 * c + k)"
    by (simp add: chunk_address_def)
  moreover have "unat (of_nat (128 * c + k) :: u64) = 128 * c + k"
    using u assms(1,3) by (intro unat_of_nat_64) linarith
  ultimately have "unat (chunk_address m c + of_nat k - heap_start m) = 128 * c + k" by (simp only:)
  then show ?thesis unfolding in_heap_def word_less_nat_alt using u assms(3) by linarith
qed

text \<open>A heap is well-formed as long as its own headers do not change.\<close>

lemma count_at_cong:
  "headers st' (chunk_address m c) = headers st (chunk_address m c) \<Longrightarrow> count_at st' m c = count_at st m c"
  by (simp add: count_at_def)

lemma heap_ok_cong:
  assumes "\<And>c. c < total_chunks m \<Longrightarrow> headers st' (chunk_address m c) = headers st (chunk_address m c)"
  shows "heap_ok st' a m = heap_ok st a m"
proof -
  have eq: "count_at st' m c = count_at st m c" if "c < total_chunks m" for c
    using assms [OF that] by (rule count_at_cong)
  have "block_ok st' a m c = block_ok st a m c" if "c < total_chunks m" for c
  proof -
    have "(\<forall>i. c < i \<and> i < c + count_at st m c \<longrightarrow> count_at st' m i = 0) \<longleftrightarrow>
        (\<forall>i. c < i \<and> i < c + count_at st m c \<longrightarrow> count_at st m i = 0)"
      if "c + count_at st m c \<le> total_chunks m" using that eq by (metis order_less_le_trans)
    then show ?thesis unfolding block_ok_def eq [OF that] assms [OF that] by blast
  qed
  moreover have "(\<Sum>c < total_chunks m. count_at st' m c) = (\<Sum>c < total_chunks m. count_at st m c)"
    by (rule sum.cong) (simp_all add: eq)
  ultimately show ?thesis by (simp add: heap_ok_def eq cong: conj_cong)
qed

lemma count_at_simps [simp]:
  "count_at st (m\<lparr>chunk_table := t\<rparr>) c = count_at st m c"
  "count_at st (m\<lparr>allocated_chunks := k\<rparr>) c = count_at st m c"
  "total_chunks (m\<lparr>chunk_table := t\<rparr>) = total_chunks m"
  "total_chunks (m\<lparr>allocated_chunks := k\<rparr>) = total_chunks m"
  "chunk_address (m\<lparr>chunk_table := t\<rparr>) c = chunk_address m c"
  "chunk_address (m\<lparr>allocated_chunks := k\<rparr>) c = chunk_address m c"
  "in_heap (m\<lparr>chunk_table := t\<rparr>) x = in_heap m x"
  "in_heap (m\<lparr>allocated_chunks := k\<rparr>) x = in_heap m x"
  by (simp_all add: count_at_def total_chunks_def chunk_address_def in_heap_def)

section \<open>Taking and giving back chunks\<close>

lemma sum_update:
  fixes f g :: "nat \<Rightarrow> nat"
  assumes "c < k" and "\<And>d. d < k \<Longrightarrow> d \<noteq> c \<Longrightarrow> g d = f d"
  shows "(\<Sum>d < k. g d) + f c = (\<Sum>d < k. f d) + g c"
proof -
  have "sum g ({..<k} - {c}) = sum f ({..<k} - {c})" by (rule sum.cong) (auto simp: assms(2))
  then show ?thesis using assms(1) by (simp add: sum.remove [of "{..<k}" c])
qed

definition block_header :: "u64 \<Rightarrow> nat \<Rightarrow> MemoryHeader" where
  "block_header a n = \<lparr>header_magic = kMemoryMagic, header_chunk_count = of_nat n, header_allocator = a\<rparr>"

lemma count_at_header:
  assumes "unat (heap_start m) + unat (heap_size m) < 2 ^ 64" and "c < total_chunks m" and "d < total_chunks m"
  shows "count_at (st\<lparr>headers := (headers st)(chunk_address m c := h)\<rparr>) m d =
    (if d = c then unat (header_chunk_count h) else count_at st m d)"
  using chunk_address_inject [OF assms(1,3,2)] by (simp add: count_at_def)

lemma blocks_disjoint:
  assumes "block_ok st a m c" and "block_ok st a m d" and "0 < count_at st m c" and "0 < count_at st m d"
    and "c \<noteq> d"
  shows "c + count_at st m c \<le> d \<or> d + count_at st m d \<le> c"
proof (cases "c < d")
  case True
  then have "\<not> d < c + count_at st m c" using assms(1,4) by (auto simp: block_ok_def)
  then show ?thesis by simp
next
  case False
  then have "d < c" using assms(5) by simp
  then have "\<not> c < d + count_at st m d" using assms(2,3) by (auto simp: block_ok_def)
  then show ?thesis by simp
qed

lemma take_chunks:
  assumes ok: "heap_ok st a m" and run: "free_run (chunk_table m) (total_chunks m) n c" and n: "0 < n"
    and table: "length table' = length (chunk_table m)"
      "\<forall>j < 8 * length (chunk_table m).
        chunk_bit table' j \<longleftrightarrow> chunk_bit (chunk_table m) j \<or> c \<le> j \<and> j < c + n"
    and nonempty: "chunk_table m \<noteq> []"
  shows "heap_ok (st\<lparr>headers := (headers st)(chunk_address m c := block_header a n)\<rparr>) a
    (m\<lparr>chunk_table := table', allocated_chunks := allocated_chunks m + of_nat n\<rparr>)"
    (is "heap_ok ?st a ?m")
proof -
  let ?k = "total_chunks m"
  from ok have fits: "unat (heap_start m) + unat (heap_size m) < 2 ^ 64" "unat (heap_size m) \<le> 2 ^ 20"
    and len: "?k \<le> 8 * length (chunk_table m)"
    and blocks: "\<And>d. d < ?k \<Longrightarrow> 0 < count_at st m d \<Longrightarrow> block_ok st a m d"
    and sum: "allocated_chunks m = of_nat (\<Sum>d < ?k. count_at st m d)"
    using nonempty by (auto simp: heap_ok_def)
  from run have c: "c + n \<le> ?k" and free: "\<And>j. c \<le> j \<Longrightarrow> j < c + n \<Longrightarrow> \<not> chunk_bit (chunk_table m) j"
    by (auto simp: free_run_def) (metis add_diff_inverse_nat nat_add_left_cancel_less not_le)
  have c': "c < ?k" using c n by linarith
  have nonempty': "table' \<noteq> []" using table(1) nonempty by auto
  have "?k \<le> 2 ^ 20" using fits(2) unfolding total_chunks_def by linarith
  then have "unat (of_nat n :: u32) = n" using c by (simp add: unat_of_nat take_bit_nat_eq_self)
  then have hdr: "unat (header_chunk_count (block_header a n)) = n" by (simp add: block_header_def)
  have count: "count_at ?st m d = (if d = c then n else count_at st m d)" if "d < ?k" for d
    using count_at_header [OF fits(1) c' that] by (simp add: hdr)
  have unused: "count_at st m d = 0" if "c \<le> d" and "d < c + n" for d
  proof (rule ccontr)
    assume "count_at st m d \<noteq> 0"
    moreover have "d < ?k" using that c by linarith
    ultimately have "block_ok st a m d" using blocks by simp
    then have "chunk_bit (chunk_table m) d" using \<open>count_at st m d \<noteq> 0\<close> by (simp add: block_ok_def)
    with free that show False by blast
  qed
  have "block_ok ?st a ?m d" if d: "d < ?k" and live: "0 < count_at ?st m d" for d
  proof (cases "d = c")
    case True
    then show ?thesis using c count [OF c'] unused table(2) len count nonempty'
      by (auto simp: block_ok_def block_header_def)
  next
    case False
    have same: "count_at ?st m d = count_at st m d" using count [OF d] False by simp
    then have b: "block_ok st a m d" using blocks [OF d] live by simp
    then have le: "d + count_at st m d \<le> ?k" by (simp add: block_ok_def)
    have "\<not> (d < c \<and> c < d + count_at st m d)"
      using b free [of c] n by (auto simp: block_ok_def)
    then have "count_at ?st m i = 0" if "d < i" and "i < d + count_at st m d" for i
      using that b le count [of i] by (auto simp: block_ok_def)
    moreover have "chunk_bit table' i" if "d \<le> i" and "i < d + count_at st m d" for i
      using that b le len table(2) by (auto simp: block_ok_def)
    ultimately show ?thesis
      using b same False chunk_address_inject [OF fits(1) d c'] nonempty' by (auto simp: block_ok_def)
  qed
  moreover have "allocated_chunks m + of_nat n = of_nat (\<Sum>d < ?k. count_at ?st m d)"
  proof -
    have "(\<Sum>d < ?k. count_at ?st m d) + count_at st m c = (\<Sum>d < ?k. count_at st m d) + count_at ?st m c"
      by (rule sum_update) (use c' count in auto)
    then have "(\<Sum>d < ?k. count_at ?st m d) = (\<Sum>d < ?k. count_at st m d) + n"
      using unused [of c] n count [OF c'] by simp
    then show ?thesis unfolding sum by simp
  qed
  ultimately show ?thesis using fits len table(1) nonempty by (simp add: heap_ok_def)
qed

lemma give_back_chunks:
  assumes ok: "heap_ok st a m" and c: "c < total_chunks m" and live: "0 < count_at st m c"
    and table: "length table' = length (chunk_table m)"
      "\<forall>j < 8 * length (chunk_table m).
        chunk_bit table' j \<longleftrightarrow> chunk_bit (chunk_table m) j \<and> \<not> (c \<le> j \<and> j < c + count_at st m c)"
    and nonempty: "chunk_table m \<noteq> []"
  shows "heap_ok (st\<lparr>headers := (headers st)(chunk_address m c :=
        (headers st (chunk_address m c))\<lparr>header_chunk_count := 0\<rparr>)\<rparr>) a
    (m\<lparr>chunk_table := table', allocated_chunks := allocated_chunks m - of_nat (count_at st m c)\<rparr>)"
    (is "heap_ok ?st a ?m")
proof -
  let ?k = "total_chunks m"
  from ok have fits: "unat (heap_start m) + unat (heap_size m) < 2 ^ 64" "unat (heap_size m) \<le> 2 ^ 20"
    and len: "?k \<le> 8 * length (chunk_table m)"
    and blocks: "\<And>d. d < ?k \<Longrightarrow> 0 < count_at st m d \<Longrightarrow> block_ok st a m d"
    and sum: "allocated_chunks m = of_nat (\<Sum>d < ?k. count_at st m d)"
    using nonempty by (auto simp: heap_ok_def)
  have nonempty': "table' \<noteq> []" using table(1) nonempty by auto
  have count: "count_at ?st m d = (if d = c then 0 else count_at st m d)" if "d < ?k" for d
    using count_at_header [OF fits(1) c that] by simp
  have "block_ok ?st a ?m d" if d: "d < ?k" and dlive: "0 < count_at ?st m d" for d
  proof -
    have "d \<noteq> c" and same: "count_at ?st m d = count_at st m d"
      using count [OF d] dlive by (auto split: if_splits)
    then have b: "block_ok st a m d" using blocks [OF d] dlive by simp
    then have le: "d + count_at st m d \<le> ?k" by (simp add: block_ok_def)
    have apart: "c + count_at st m c \<le> d \<or> d + count_at st m d \<le> c"
      using blocks_disjoint [OF blocks [OF c live] b live] dlive same \<open>d \<noteq> c\<close> by simp
    have "chunk_bit table' i" if "d \<le> i" and "i < d + count_at st m d" for i
      using that b le len table(2) apart by (auto simp: block_ok_def)
    moreover have "count_at ?st m i = 0" if "d < i" and "i < d + count_at st m d" for i
      using that b le count [of i] by (auto simp: block_ok_def)
    ultimately show ?thesis
      using b same \<open>d \<noteq> c\<close> chunk_address_inject [OF fits(1) d c] nonempty' by (auto simp: block_ok_def)
  qed
  moreover have "allocated_chunks m - of_nat (count_at st m c) = of_nat (\<Sum>d < ?k. count_at ?st m d)"
  proof -
    have "(\<Sum>d < ?k. count_at ?st m d) + count_at st m c = (\<Sum>d < ?k. count_at st m d) + count_at ?st m c"
      by (rule sum_update) (use c count in auto)
    then have "(\<Sum>d < ?k. count_at st m d) = (\<Sum>d < ?k. count_at ?st m d) + count_at st m c"
      using count [OF c] by simp
    then show ?thesis unfolding sum by simp
  qed
  ultimately show ?thesis using fits len table(1) nonempty by (simp add: heap_ok_def)
qed

end
