(* ===== verification/Allocator_Operations.thy ===== *)
theory Allocator_Operations
  imports Allocator_Blocks
begin

text \<open>
  The operations of one allocator in terms of blocks: \<open>DoAlloc\<close> takes the first run of chunks that is
  long enough, or leaves the state as it is; \<open>DoFree\<close> gives the chunks of a block back. What each of
  them returns, the lists of allocators included, is a well-formed state.
\<close>

section \<open>The result of \<open>DoAlloc\<close>\<close>

lemma total_chunks_word: "unat (heap_size m div kChunkSize) = total_chunks m"
  by (simp add: kChunkSize_def total_chunks_def unat_div)

lemma chunk_address_word:
  "heap_start m + word_of_int (int c) * kChunkSize = chunk_address m c"
  "heap_start m + word_of_nat c * kChunkSize = chunk_address m c"
  "chunk_address m c + kAlignment = chunk_address m c + 16"
  by (simp_all add: chunk_address_def kChunkSize_def kAlignment_def)

lemma expected_chunks:
  assumes "unat sz \<le> 2 ^ 20"
  shows "unat (expected_chunk_count sz) = (unat sz + 143) div 128"
proof -
  have s: "unat (sz + kAlignment) = unat sz + 16"
    using unat_add_of_nat [of sz 16] assms by (simp add: kAlignment_def)
  have "unat (align_up (sz + kAlignment) (2 ^ 7)) =
      (unat (sz + kAlignment) + (2 ^ 7 - 1)) - (unat (sz + kAlignment) + (2 ^ 7 - 1)) mod 2 ^ 7"
    by (rule unat_align_up) (use s assms in simp_all)
  also have "\<dots> = (unat sz + 143) - (unat sz + 143) mod 128" unfolding s by (simp add: add.commute)
  finally have "unat (align_up (sz + kAlignment) kChunkSize) = (unat sz + 143) - (unat sz + 143) mod 128"
    by (simp add: kChunkSize_def)
  then show ?thesis
    by (simp add: expected_chunk_count_def unat_div kChunkSize_def minus_mod_eq_div_mult)
qed

lemma expected_chunks_fit:
  assumes "unat sz \<le> 2 ^ 20"
  shows "0 < unat (expected_chunk_count sz)" and "unat sz + 16 \<le> 128 * unat (expected_chunk_count sz)"
  using expected_chunks [OF assms] by linarith+

text \<open>An allocator between two operations.\<close>

definition resting :: "process \<Rightarrow> u64 \<Rightarrow> Memory \<Rightarrow> bool" where
  "resting st a m \<longleftrightarrow> protecting st \<and> a \<noteq> 0 \<and> allocators st a = Some m \<and> references m = 0 \<and> \<not> heap_writable m"

lemma put_simps [simp]:
  "allocators (put a m st) b = (if b = a then Some m else allocators st b)"
  "put a m (put a n st) = put a m st"
  "headers (put a m st) = headers st" "contents (put a m st) = contents st"
  "default_list (put a m st) = default_list st" "root_list (put a m st) = root_list st"
  "put a m (st\<lparr>headers := h\<rparr>) = (put a m st)\<lparr>headers := h\<rparr>"
  by (simp_all add: put_def)

lemma put_same: "allocators st a = Some m \<Longrightarrow> put a m st = st"
  by (simp add: put_def fun_upd_idem)

lemma scoped_resting:
  assumes "resting st a m"
  shows "scoped st a body =
    bnd (body (put a (m\<lparr>references := 1, heap_writable := True\<rparr>) st)) (\<lambda>(x, st2).
    bnd (release st2 a) (\<lambda>st3. Inr (x, st3)))"
  using assms by (simp add: scoped_def acquire_def deref_def resting_def ProtectOSMemory_succeeds)

lemma rested:
  "references m = 0 \<Longrightarrow> \<not> heap_writable m \<Longrightarrow>
   m\<lparr>chunk_table := t, allocated_chunks := k, references := 0, heap_writable := False\<rparr> =
   m\<lparr>chunk_table := t, allocated_chunks := k\<rparr>"
  by (cases m) simp

lemma release_writable:
  assumes "a \<noteq> 0" and "protecting st"
  shows "release (put a (m\<lparr>references := 1, heap_writable := True\<rparr>) st) a =
    Inr (put a (m\<lparr>references := 0, heap_writable := False\<rparr>) st)"
  using assms by (simp add: release_def deref_def ProtectOSMemory_succeeds)


definition with_block :: "process \<Rightarrow> u64 \<Rightarrow> Memory \<Rightarrow> nat \<Rightarrow> nat \<Rightarrow> u8 list \<Rightarrow> process" where
  "with_block st a m c n table' =
     put a (m\<lparr>chunk_table := table', allocated_chunks := allocated_chunks m + of_nat n\<rparr>)
       (st\<lparr>headers := (headers st)(chunk_address m c := block_header a n)\<rparr>)"

definition fitting_run :: "Memory \<Rightarrow> nat \<Rightarrow> nat \<Rightarrow> u8 list \<Rightarrow> bool" where
  "fitting_run m n c table' \<longleftrightarrow>
     free_run (chunk_table m) (total_chunks m) n c \<and> length table' = length (chunk_table m) \<and>
     (\<forall>j < 8 * length (chunk_table m).
        chunk_bit table' j \<longleftrightarrow> chunk_bit (chunk_table m) j \<or> c \<le> j \<and> j < c + n)"

lemma AllocChunk_cases:
  assumes "total_chunks m \<le> 8 * length (chunk_table m)" and "0 < n"
  shows "AllocChunk (chunk_table m) (total_chunks m) n = Inr (-1, chunk_table m) \<and>
      (\<forall>c. \<not> free_run (chunk_table m) (total_chunks m) n c) \<or>
    (\<exists>c table'. AllocChunk (chunk_table m) (total_chunks m) n = Inr (int c, table') \<and> fitting_run m n c table')"
  using first_fit [OF assms] by (fastforce simp: fitting_run_def split: if_splits)

lemma DoAlloc_result:
  assumes rest: "resting st a m" and ok: "heap_ok st a m" and heap: "heap_start m \<noteq> 0"
    and table: "chunk_table m \<noteq> []"
  shows "DoAlloc st a sz = Inr (0, st) \<and> (sz = 0 \<or> heap_size m < sz \<or>
      (\<forall>c. \<not> free_run (chunk_table m) (total_chunks m) (unat (expected_chunk_count sz)) c)) \<or>
    (\<exists>c n table'. DoAlloc st a sz = Inr (chunk_address m c + 16, with_block st a m c n table') \<and>
       0 < n \<and> unat sz + 16 \<le> 128 * n \<and> fitting_run m n c table')"
proof (cases "sz = 0 \<or> heap_size m < sz")
  case True
  moreover have "put a (m\<lparr>references := 0, heap_writable := False\<rparr>) st = st"
    using rest by (simp add: resting_def put_same)
  ultimately show ?thesis using rest
    by (auto simp: DoAlloc_def scoped_resting [OF rest] release_writable deref_def resting_def)
next
  case False
  let ?n = "unat (expected_chunk_count sz)"
  let ?m = "m\<lparr>references := 1, heap_writable := True\<rparr>"
  have "unat sz \<le> 2 ^ 20" using False ok unfolding heap_ok_def by (simp add: word_less_nat_alt not_less)
  note n = expected_chunks_fit [OF this]
  have len: "total_chunks m \<le> 8 * length (chunk_table m)" using ok table by (simp add: heap_ok_def)
  show ?thesis
    using AllocChunk_cases [OF len n(1)]
  proof (elim disjE exE conjE)
    assume none: "AllocChunk (chunk_table m) (total_chunks m) ?n = Inr (- 1, chunk_table m)"
      "\<forall>c. \<not> free_run (chunk_table m) (total_chunks m) ?n c"
    then show ?thesis using rest False
      by (auto simp: DoAlloc_def scoped_resting [OF rest] release_writable deref_def resting_def
          total_chunks_word put_same)
  next
    fix c table'
    assume found: "AllocChunk (chunk_table m) (total_chunks m) ?n = Inr (int c, table')"
      and run: "fitting_run m ?n c table'"
    have "DoAlloc st a sz = Inr (chunk_address m c + 16, with_block st a m c ?n table')"
      using found rest False heap
      by (simp add: DoAlloc_def scoped_resting [OF rest] release_def ProtectOSMemory_succeeds deref_def resting_def Let_def
          total_chunks_word write_header_def with_block_def block_header_def chunk_address_word rested)
    with run n show ?thesis by blast
  qed
qed


section \<open>Well-formed states\<close>

lemma allocator_ok_resting:
  assumes "allocator_ok st" and "allocators st a = Some m"
  shows "resting st a m" and "heap_start m \<noteq> 0 \<Longrightarrow> heap_ok st a m"
  using assms by (auto simp: allocator_ok_def resting_def)

lemma other_heap_headers:
  assumes ok: "allocator_ok st" and "allocators st a = Some m" and "allocators st b = Some k" and "a \<noteq> b"
    and "heap_start m \<noteq> 0" and "heap_start k \<noteq> 0" and "c < total_chunks m" and "d < total_chunks k"
  shows "chunk_address m c \<noteq> chunk_address k d"
proof
  assume "chunk_address m c = chunk_address k d"
  moreover have "in_heap m (chunk_address m c)"
    using in_heap_chunk [of m c 0] allocator_ok_resting(2) [OF ok assms(2,5)] assms(7) by (simp add: heap_ok_def)
  moreover have "in_heap k (chunk_address k d)"
    using in_heap_chunk [of k d 0] allocator_ok_resting(2) [OF ok assms(3,6)] assms(8) by (simp add: heap_ok_def)
  ultimately show False using ok assms(2-6) unfolding allocator_ok_def by metis
qed

text \<open>An operation that changes one allocator and one header in its heap.\<close>

lemma allocator_ok_update:
  assumes ok: "allocator_ok st" and m: "allocators st a = Some m" and heap: "heap_start m \<noteq> 0"
    and c: "c < total_chunks m"
    and m': "heap_start m' = heap_start m" "heap_size m' = heap_size m" "references m' = 0" "\<not> heap_writable m'"
    and ok': "heap_ok (st\<lparr>headers := (headers st)(chunk_address m c := h)\<rparr>) a m'"
  shows "allocator_ok (put a m' (st\<lparr>headers := (headers st)(chunk_address m c := h)\<rparr>))"
    (is "allocator_ok (put a m' ?st)")
proof -
  have "heap_ok ?st b k" if "allocators st b = Some k" and "b \<noteq> a" and "heap_start k \<noteq> 0" for b k
  proof -
    have "heap_ok ?st b k = heap_ok st b k"
    proof (rule heap_ok_cong)
      fix d assume "d < total_chunks k"
      from other_heap_headers [OF ok m that(1) that(2) [symmetric] heap that(3) c this]
      show "headers ?st (chunk_address k d) = headers st (chunk_address k d)" by auto
    qed
    then show ?thesis using allocator_ok_resting(2) [OF ok that(1,3)] by simp
  qed
  moreover have "heap_ok (put a m' ?st) b k = heap_ok ?st b k" for b k
    by (rule heap_ok_cong) simp
  moreover have "in_heap m' x = in_heap m x" for x using m' by (simp add: in_heap_def)
  moreover have "dom (allocators (put a m' ?st)) = set (default_list st) \<union> set (root_list st)"
    using ok m unfolding allocator_ok_def by (auto simp: put_def)
  ultimately show ?thesis
    using ok m m' ok' heap unfolding allocator_ok_def by (simp split: if_splits) blast
qed

lemma with_block_ok:
  assumes ok: "allocator_ok st" and m: "allocators st a = Some m" and heap: "heap_start m \<noteq> 0"
    and "chunk_table m \<noteq> []" and "0 < n" and run: "fitting_run m n c table'"
  shows "allocator_ok (with_block st a m c n table')"
  unfolding with_block_def
proof (rule allocator_ok_update [OF ok m heap])
  show "c < total_chunks m" using run assms(5) by (simp add: fitting_run_def free_run_def)
  show "heap_ok (st\<lparr>headers := (headers st)(chunk_address m c := block_header a n)\<rparr>) a
      (m\<lparr>chunk_table := table', allocated_chunks := allocated_chunks m + of_nat n\<rparr>)"
    using take_chunks [OF allocator_ok_resting(2) [OF ok m heap] _ assms(5) _ _ assms(4)] run
    by (simp add: fitting_run_def)
qed (use allocator_ok_resting(1) [OF ok m] in \<open>simp_all add: resting_def\<close>)

text \<open>An allocator whose heap or whose table could not be allocated never hands out a block.\<close>

lemma scan_chunks_negative:
  "scan_chunks table k n i start count = Inr (start', count') \<Longrightarrow> - 1 \<le> start \<Longrightarrow>
   (start = - 1 \<longrightarrow> count = 0) \<Longrightarrow> - 1 \<le> start' \<and> (start' = - 1 \<longrightarrow> count' = 0)"
proof (induction table k n i start count rule: scan_chunks.induct)
  case (1 table k n i start count)
  show ?case
  proof (cases "i < k")
    case False
    then have "scan_chunks table k n i start count = Inr (start, count)" by (subst scan_chunks.simps) simp
    then show ?thesis using 1(3-5) by simp
  next
    case True
    show ?thesis
    proof (cases "test_chunk table i")
      case (Inl e)
      then show ?thesis using 1(3) True by (subst (asm) scan_chunks.simps) simp
    next
      case (Inr used)
      let ?start = "if start = - 1 then int i else start"
      have pos: "0 \<le> ?start" using 1(4) by auto
      show ?thesis
        using 1(3) True Inr pos 1(1) [OF True Inr] 1(2) [OF True Inr]
        by (subst (asm) scan_chunks.simps) (auto simp: Let_def split: if_splits)
    qed
  qed
qed

lemma AllocChunk_negative:
  assumes "AllocChunk table k n = Inr (start, table')" and "start < 0"
  shows "table' = table"
proof -
  from assms(1) obtain s c where s: "scan_chunks table k n 0 (- 1) 0 = Inr (s, c)"
    and r: "(if c = n then bnd (mark_chunks table (nat s) n) (\<lambda>t. Inr (s, t)) else Inr (- 1, table)) =
      Inr (start, table')"
    by (auto simp: AllocChunk_def bnd_eq_Inr_iff)
  show ?thesis
  proof (cases "c = n")
    case True
    with r assms(2) have "s = start" "s < 0" by (auto simp: bnd_eq_Inr_iff)
    with scan_chunks_negative [OF s] have "c = 0" by simp
    with r True show ?thesis by simp
  qed (use r in simp)
qed

lemma AllocChunk_no_table: "AllocChunk [] k n = Inr (start, table') \<Longrightarrow> start < 0"
  by (auto simp: AllocChunk_def scan_chunks.simps [of "[]" k n 0] test_chunk_def split: if_splits)

lemma DoAlloc_useless:
  assumes rest: "resting st a m" and useless: "heap_start m = 0 \<or> chunk_table m = []"
    and run: "DoAlloc st a sz = Inr (p, st')"
  shows "p = 0 \<and> st' = st"
proof (cases "sz = 0 \<or> heap_size m < sz")
  case True
  then show ?thesis using run rest
    by (auto simp: DoAlloc_def scoped_resting [OF rest] release_writable deref_def resting_def put_same)
next
  case False
  show ?thesis
  proof (cases "AllocChunk (chunk_table m) (total_chunks m) (unat (expected_chunk_count sz))")
    case (Inl e)
    then show ?thesis using run rest False
      by (simp add: DoAlloc_def scoped_resting [OF rest] deref_def resting_def total_chunks_word)
  next
    case (Inr r)
    obtain start table' where r: "r = (start, table')" by (cases r)
    show ?thesis
    proof (cases "start < 0")
      case True
      then have "table' = chunk_table m" using AllocChunk_negative Inr r by blast
      then show ?thesis using run rest False Inr r True
        by (auto simp: DoAlloc_def scoped_resting [OF rest] release_writable deref_def resting_def
            total_chunks_word put_same)
    next
      case nonneg: False
      then have "heap_start m = 0" using useless AllocChunk_no_table Inr r by auto
      then show ?thesis using run rest False Inr r nonneg
        by (simp add: DoAlloc_def scoped_resting [OF rest] deref_def resting_def total_chunks_word
            write_header_def)
    qed
  qed
qed

lemma DoAlloc_cases:
  assumes ok: "allocator_ok st" and m: "allocators st a = Some m" and run: "DoAlloc st a sz = Inr (p, st')"
  obtains "p = 0" and "st' = st"
  | c n table' where "p = chunk_address m c + 16" and "st' = with_block st a m c n table'"
    and "0 < n" and "unat sz + 16 \<le> 128 * n" and "fitting_run m n c table'"
    and "heap_start m \<noteq> 0" and "chunk_table m \<noteq> []"
proof (cases "heap_start m = 0 \<or> chunk_table m = []")
  case True
  with DoAlloc_useless [OF allocator_ok_resting(1) [OF ok m] _ run] show thesis using that(1) by blast
next
  case False
  with DoAlloc_result [OF allocator_ok_resting [OF ok m], of sz] run show thesis
    using that by fastforce
qed

section \<open>The blocks that have been handed out\<close>

definition block_in :: "process \<Rightarrow> u64 \<Rightarrow> Memory \<Rightarrow> nat \<Rightarrow> u64 \<Rightarrow> nat \<Rightarrow> bool" where
  "block_in st a m c p k \<longleftrightarrow>
     allocators st a = Some m \<and> heap_start m \<noteq> 0 \<and> c < total_chunks m \<and> 0 < count_at st m c \<and>
     p = chunk_address m c + 16 \<and> k = 128 * count_at st m c - 16"

definition block :: "process \<Rightarrow> u64 \<Rightarrow> nat \<Rightarrow> bool" where
  "block st p k \<longleftrightarrow> (\<exists>a m c. block_in st a m c p k)"

definition in_block :: "u64 \<Rightarrow> nat \<Rightarrow> u64 \<Rightarrow> bool" where
  "in_block p k x \<longleftrightarrow> unat (x - p) < k"

text \<open>A byte of a block, as an offset into the heap.\<close>

lemma in_block_offset:
  assumes ok: "allocator_ok st" and b: "block_in st a m c p k" and x: "in_block p k x"
  shows "128 * c + 16 \<le> unat (x - heap_start m)" and "unat (x - heap_start m) < 128 * (c + count_at st m c)"
    and "in_heap m x" and "block_ok st a m c"
proof -
  from b have m: "allocators st a = Some m" "heap_start m \<noteq> 0" "c < total_chunks m" "0 < count_at st m c"
    "p = chunk_address m c + 16" "k = 128 * count_at st m c - 16" by (simp_all add: block_in_def)
  from allocator_ok_resting(2) [OF ok m(1,2)] m(3,4) show blk: "block_ok st a m c"
    by (simp add: heap_ok_def)
  from allocator_ok_resting(2) [OF ok m(1,2)] have small: "unat (heap_size m) \<le> 2 ^ 20"
    by (simp add: heap_ok_def)
  have le: "128 * (c + count_at st m c) \<le> unat (heap_size m)"
  proof -
    have "c + count_at st m c \<le> unat (heap_size m) div 128"
      using blk unfolding block_ok_def total_chunks_def by blast
    then have "(c + count_at st m c) * 128 \<le> unat (heap_size m)"
      by (subst (asm) less_eq_div_iff_mult_less_eq) simp_all
    then show ?thesis by (simp only: mult.commute)
  qed
  have j: "unat (x - p) + 16 < 128 * count_at st m c" using x m(6) by (simp add: in_block_def)
  have le': "128 * c + 128 * count_at st m c \<le> 2 ^ 20" using le small by simp
  have "x - heap_start m = (x - p) + of_nat (128 * c + 16)"
    by (simp add: m(5) chunk_address_def)
  moreover have "unat (x - p) + (128 * c + 16) < 2 ^ 64"
  proof -
    have "unat (x - p) + (128 * c + 16) < 2 ^ 20" using j le' by linarith
    also have "\<dots> \<le> (2 ^ 64 :: nat)" by simp
    finally show ?thesis .
  qed
  ultimately have off: "unat (x - heap_start m) = unat (x - p) + (128 * c + 16)"
    by (simp only: unat_add_of_nat)
  show "128 * c + 16 \<le> unat (x - heap_start m)" unfolding off by simp
  show up: "unat (x - heap_start m) < 128 * (c + count_at st m c)"
    unfolding off distrib_left using j by linarith
  show "in_heap m x" unfolding in_heap_def word_less_nat_alt using up le by linarith
qed

lemma blocks_apart:
  assumes ok: "allocator_ok st" and p: "block st p k" and q: "block st q l" and "p \<noteq> q"
  shows "\<not> (in_block p k x \<and> in_block q l x)"
proof
  assume x: "in_block p k x \<and> in_block q l x"
  from p q obtain a m c b n d where b: "block_in st a m c p k" "block_in st b n d q l"
    unfolding block_def by blast
  note off = in_block_offset [OF ok b(1)] in_block_offset [OF ok b(2)]
  have m: "allocators st a = Some m" "heap_start m \<noteq> 0" "allocators st b = Some n" "heap_start n \<noteq> 0"
    using b by (simp_all add: block_in_def)
  show False
  proof (cases "a = b")
    case False
    then show False using ok m off(3,7) x unfolding allocator_ok_def by metis
  next
    case True
    then have "n = m" using m by simp
    then have "c \<noteq> d" using b assms(4) by (auto simp: block_in_def)
    moreover have "0 < count_at st m c" "0 < count_at st m d" using b \<open>n = m\<close> by (simp_all add: block_in_def)
    ultimately have "c + count_at st m c \<le> d \<or> d + count_at st m d \<le> c"
      using blocks_disjoint [of st a m c d] off(4,8) x \<open>c \<noteq> d\<close> unfolding True \<open>n = m\<close> by blast
    then have "128 * (c + count_at st m c) \<le> 128 * d \<or> 128 * (d + count_at st m d) \<le> 128 * c"
      using mult_le_mono2 by blast
    then show False using off(1,2,5,6) [of x] x unfolding \<open>n = m\<close> by auto
  qed
qed

text \<open>The state after \<open>DoAlloc\<close> has taken a run of chunks for a block.\<close>

definition took :: "process \<Rightarrow> u64 \<Rightarrow> Memory \<Rightarrow> u64 \<Rightarrow> u64 \<Rightarrow> process \<Rightarrow> bool" where
  "took st a m sz p st' \<longleftrightarrow> allocators st a = Some m \<and> heap_start m \<noteq> 0 \<and> chunk_table m \<noteq> [] \<and>
     (\<exists>c n table'. p = chunk_address m c + 16 \<and> st' = with_block st a m c n table' \<and> 0 < n \<and>
        unat sz + 16 \<le> 128 * n \<and> fitting_run m n c table')"

lemma with_block_simps [simp]:
  "allocators (with_block st a m c n t) b =
     (if b = a then Some (m\<lparr>chunk_table := t, allocated_chunks := allocated_chunks m + of_nat n\<rparr>)
      else allocators st b)"
  "headers (with_block st a m c n t) = (headers st)(chunk_address m c := block_header a n)"
  "default_list (with_block st a m c n t) = default_list st"
  "root_list (with_block st a m c n t) = root_list st"
  "contents (with_block st a m c n t) = contents st"
  by (simp_all add: with_block_def)

lemma count_with_block:
  "count_at (with_block st a m c n t) k d = count_at (st\<lparr>headers := (headers st)(chunk_address m c := block_header a n)\<rparr>) k d"
  by (simp add: count_at_def)

lemma block_header_count:
  assumes "fitting_run m n c t" and "heap_ok st a m"
  shows "unat (header_chunk_count (block_header a n)) = n"
proof -
  have "n \<le> total_chunks m" using assms(1) by (simp add: fitting_run_def free_run_def)
  also have "\<dots> \<le> 2 ^ 20" using assms(2) unfolding heap_ok_def total_chunks_def by linarith
  finally show ?thesis by (simp add: block_header_def unat_of_nat take_bit_nat_eq_self)
qed

lemma free_run_unused:
  assumes ok: "heap_ok st a m" and "chunk_table m \<noteq> []" and run: "fitting_run m n c t" and "0 < n"
  shows "count_at st m c = 0"
proof (rule ccontr)
  assume live: "count_at st m c \<noteq> 0"
  have "c < total_chunks m" and "\<not> chunk_bit (chunk_table m) (c + 0)"
    using run assms(4) unfolding fitting_run_def free_run_def by auto
  with live ok have "block_ok st a m c" by (simp add: heap_ok_def)
  with live \<open>\<not> chunk_bit (chunk_table m) (c + 0)\<close> show False by (simp add: block_ok_def)
qed

lemma took_blocks:
  assumes ok: "allocator_ok st" and took: "took st a m sz p st'"
  shows "\<exists>k. unat sz \<le> k \<and> block st' p k \<and> (\<forall>q l. block st q l \<longrightarrow> block st' q l \<and> q \<noteq> p)"
proof -
  from took obtain c n t where m: "allocators st a = Some m" "heap_start m \<noteq> 0" "chunk_table m \<noteq> []"
    and p: "p = chunk_address m c + 16" and st': "st' = with_block st a m c n t" and n: "0 < n"
    "unat sz + 16 \<le> 128 * n" and run: "fitting_run m n c t" unfolding took_def by blast
  note h = allocator_ok_resting(2) [OF ok m(1,2)]
  have c: "c < total_chunks m" using run n by (simp add: fitting_run_def free_run_def)
  have fits: "unat (heap_start m) + unat (heap_size m) < 2 ^ 64" using h by (simp add: heap_ok_def)
  let ?m = "m\<lparr>chunk_table := t, allocated_chunks := allocated_chunks m + of_nat n\<rparr>"
  have new: "count_at st' m d = (if d = c then n else count_at st m d)" if "d < total_chunks m" for d
    unfolding st' count_with_block using count_at_header [OF fits c that] block_header_count [OF run h] by simp
  have "block_in st' a ?m c p (128 * n - 16)"
    using m c n new [OF c] by (simp add: block_in_def st' p)
  moreover have "block st' q l \<and> q \<noteq> p" if blk: "block st q l" for q l
  proof -
    from blk obtain b k d where d: "block_in st b k d q l" by (auto simp: block_def)
    show ?thesis
    proof (cases "b = a")
      case True
      with d m have k: "k = m" "d < total_chunks m" "0 < count_at st m d" by (auto simp: block_in_def)
      moreover have "count_at st m c = 0" using free_run_unused [OF h m(3) run n(1)] .
      ultimately have "d \<noteq> c" by auto
      then have "block_in st' a ?m d q l" using d k new [OF k(2)] True by (simp add: block_in_def st')
      then have "block st' q l" unfolding block_def by blast
      moreover have "q \<noteq> p"
        using d chunk_address_inject [OF fits k(2) c] \<open>d \<noteq> c\<close> k by (simp add: p block_in_def)
      ultimately show ?thesis ..
    next
      case False
      with d have k: "allocators st b = Some k" "heap_start k \<noteq> 0" "d < total_chunks k" by (simp_all add: block_in_def)
      have ne: "chunk_address m c \<noteq> chunk_address k d"
        by (rule other_heap_headers [OF ok m(1) k(1) False [symmetric] m(2) k(2) c k(3)])
      then have "count_at st' k d = count_at st k d" by (simp add: st' count_at_def)
      then have "block_in st' b k d q l" using d False by (simp add: block_in_def st')
      then have "block st' q l" unfolding block_def by blast
      moreover have "q \<noteq> p" using d ne by (simp add: block_in_def p)
      ultimately show ?thesis ..
    qed
  qed
  ultimately show ?thesis using n(2) unfolding block_def by (intro exI [of _ "128 * n - 16"]) auto
qed

text \<open>The heap that a block was taken from keeps its place.\<close>

lemma took_in_heap:
  assumes ok: "allocator_ok st" and took: "took st a m sz p st'"
  obtains m' c k where "block_in st' a m' c p k" and "heap_start m' = heap_start m"
    and "heap_size m' = heap_size m" and "root_list st' = root_list st"
proof -
  from took obtain c n t where m: "allocators st a = Some m" "heap_start m \<noteq> 0" "chunk_table m \<noteq> []"
    and p: "p = chunk_address m c + 16" and st': "st' = with_block st a m c n t" and n: "0 < n"
    and run: "fitting_run m n c t" unfolding took_def by blast
  note h = allocator_ok_resting(2) [OF ok m(1,2)]
  have c: "c < total_chunks m" using run n by (simp add: fitting_run_def free_run_def)
  have fits: "unat (heap_start m) + unat (heap_size m) < 2 ^ 64" using h by (simp add: heap_ok_def)
  let ?m = "m\<lparr>chunk_table := t, allocated_chunks := allocated_chunks m + of_nat n\<rparr>"
  have "count_at st' m c = n"
    unfolding st' count_with_block using count_at_header [OF fits c c] block_header_count [OF run h] by simp
  then have "block_in st' a ?m c p (128 * n - 16)"
    using m c n by (simp add: block_in_def st' p)
  then show thesis using that [of ?m] by (simp add: st')
qed

section \<open>The lists of allocators\<close>

lemma took_ok:
  assumes "allocator_ok st" and "took st a m sz p st'"
  shows "allocator_ok st'" and "p \<noteq> 0"
proof -
  from assms(2) obtain c n t where m: "allocators st a = Some m" "heap_start m \<noteq> 0" "chunk_table m \<noteq> []"
    and p: "p = chunk_address m c + 16" and st': "st' = with_block st a m c n t" and n: "0 < n"
    and run: "fitting_run m n c t" unfolding took_def by blast
  show "allocator_ok st'" unfolding st' using with_block_ok [OF assms(1) m n run] .
  have fits: "unat (heap_start m) + unat (heap_size m) < 2 ^ 64"
    using allocator_ok_resting(2) [OF assms(1) m(1,2)] by (simp add: heap_ok_def)
  have c: "c < total_chunks m" using run n by (simp add: fitting_run_def free_run_def)
  note u = unat_chunk_address [OF fits c]
  have "unat (chunk_address m c + of_nat 16) = unat (chunk_address m c) + 16"
    by (rule unat_add_of_nat) (use u fits in linarith)
  then have "0 < unat p" by (simp add: p)
  then show "p \<noteq> 0" by auto
qed

lemma DoAlloc_took:
  assumes "allocator_ok st" and "allocators st a = Some m" and "DoAlloc st a sz = Inr (p, st')"
  shows "p = 0 \<and> st' = st \<or> took st a m sz p st'"
  by (rule DoAlloc_cases [OF assms]) (use assms(2) in \<open>simp, unfold took_def, blast\<close>)

lemma alloc_first_took:
  assumes ok: "allocator_ok st" and "set as \<subseteq> dom (allocators st)"
    and "alloc_first suitable st as sz = Inr (p, st')"
  shows "p = 0 \<and> st' = st \<or> (\<exists>a m. a \<in> set as \<and> suitable m \<and> took st a m sz p st')"
  using assms(2,3)
proof (induction as)
  case Nil
  then show ?case by simp
next
  case (Cons a as)
  then obtain m where m: "allocators st a = Some m" by auto
  then have "deref st a = Inr m" using ok by (auto simp: deref_def allocator_ok_def)
  show ?case
  proof (cases "suitable m")
    case False
    then show ?thesis using Cons \<open>deref st a = Inr m\<close> by auto
  next
    case True
    then obtain q st1 where q: "DoAlloc st a sz = Inr (q, st1)"
      and rest: "(if q \<noteq> 0 then Inr (q, st1) else alloc_first suitable st1 as sz) = Inr (p, st')"
      using Cons.prems(2) \<open>deref st a = Inr m\<close> by (auto simp: bnd_eq_Inr_iff)
    from DoAlloc_took [OF ok m q] show ?thesis
    proof
      assume "q = 0 \<and> st1 = st"
      then show ?thesis using rest Cons by auto
    next
      assume "took st a m sz q st1"
      then show ?thesis using rest took_ok(2) [OF ok] True by auto
    qed
  qed
qed

section \<open>A new heap\<close>

text \<open>
  What is documented of the system and of the libraries: memory that is mapped is new, and is where it
  was asked for if it was; objects are at new addresses; \<open>malloc\<close> fails or returns what was asked for;
  pages are at least of 1024 bytes, and so are the mappings of the process.
\<close>

definition aligned :: "u64 \<Rightarrow> bool" where
  "aligned w \<longleftrightarrow> take_bit 10 w = 0"

definition system_ok :: "system \<Rightarrow> bool" where
  "system_ok sys \<longleftrightarrow> (\<exists>k. 10 \<le> k \<and> k < 64 \<and> page_size sys = 2 ^ k) \<and>
     (\<forall>st. allocator_ok st \<longrightarrow>
       (\<forall>sz start p. mmap sys st sz start = Some p \<longrightarrow>
          p \<noteq> 0 \<and> unat p + unat sz < 2 ^ 64 \<and> (start \<noteq> 0 \<longrightarrow> p = start) \<and>
          (\<forall>a m x. allocators st a = Some m \<and> heap_start m \<noteq> 0 \<and> in_heap m x \<longrightarrow> \<not> x - p < sz)) \<and>
       (\<forall>a. new_address sys st = Some a \<longrightarrow> a \<noteq> 0 \<and> allocators st a = None) \<and>
       (\<forall>n. malloc_bytes sys st n = [] \<or> length (malloc_bytes sys st n) = n) \<and>
       (\<forall>e \<in> set (proc_maps sys st). aligned (map_start e) \<and> aligned (map_stop e) \<and> map_start e \<noteq> 0 \<and> map_stop e \<noteq> 0))"

definition no_header :: MemoryHeader where
  "no_header = \<lparr>header_magic = 0, header_chunk_count = 0, header_allocator = 0\<rparr>"

lemma AllocOSMemory_cases:
  assumes sys: "system_ok sys" and ok: "allocator_ok st" and run: "AllocOSMemory sys st sz start = (heap, st1)"
  shows "heap = 0 \<and> st1 = st \<or>
    heap \<noteq> 0 \<and> st1 = st\<lparr>headers := (\<lambda>x. if x - heap < sz then no_header else headers st x)\<rparr> \<and>
    unat heap + unat sz < 2 ^ 64 \<and> (start \<noteq> 0 \<longrightarrow> heap = start) \<and>
    (\<forall>a m x. allocators st a = Some m \<and> heap_start m \<noteq> 0 \<and> in_heap m x \<longrightarrow> \<not> x - heap < sz)"
proof (cases "mmap sys st sz start")
  case None
  with run show ?thesis by (simp add: AllocOSMemory_def)
next
  case (Some p)
  then have "p \<noteq> 0 \<and> unat p + unat sz < 2 ^ 64 \<and> (start \<noteq> 0 \<longrightarrow> p = start) \<and>
      (\<forall>a m x. allocators st a = Some m \<and> heap_start m \<noteq> 0 \<and> in_heap m x \<longrightarrow> \<not> x - p < sz)"
    using sys ok unfolding system_ok_def by blast
  with Some run show ?thesis
    unfolding AllocOSMemory_def no_header_def by (cases "mprotect_ok sys st p sz") auto
qed

lemma AllocOSMemory_mapped:
  "AllocOSMemory sys st sz start = (heap, st1) \<Longrightarrow> heap \<noteq> 0 \<Longrightarrow> mmap sys st sz start = Some heap"
  by (auto simp: AllocOSMemory_def split: option.splits if_splits)

lemma zeroed_heap:
  assumes ok: "allocator_ok st"
    and apart: "\<And>a m x. allocators st a = Some m \<Longrightarrow> heap_start m \<noteq> 0 \<Longrightarrow> in_heap m x \<Longrightarrow> \<not> x - heap < sz"
  defines "st1 \<equiv> st\<lparr>headers := (\<lambda>x. if x - heap < sz then no_header else headers st x)\<rparr>"
  shows "allocator_ok st1" and "block st q l \<Longrightarrow> block st1 q l"
proof -
  have same: "headers st1 (chunk_address m c) = headers st (chunk_address m c)"
    if "allocators st a = Some m" and "heap_start m \<noteq> 0" and "c < total_chunks m" for a m c
  proof -
    have "in_heap m (chunk_address m c)"
      using in_heap_chunk [of m c 0] allocator_ok_resting(2) [OF ok that(1,2)] that(3) by (simp add: heap_ok_def)
    with apart [OF that(1,2)] show ?thesis by (simp add: st1_def)
  qed
  then have "heap_ok st1 a m = heap_ok st a m" if "allocators st a = Some m" and "heap_start m \<noteq> 0" for a m
    using that by (intro heap_ok_cong) blast
  then show "allocator_ok st1" using ok unfolding allocator_ok_def by (simp add: st1_def) blast
  assume "block st q l"
  then obtain a m c where b: "block_in st a m c q l" by (auto simp: block_def)
  then have "count_at st1 m c = count_at st m c" by (intro count_at_cong same) (auto simp: block_in_def)
  moreover have "allocators st1 = allocators st" by (simp add: st1_def)
  ultimately have "block_in st1 a m c q l" using b by (simp add: block_in_def)
  then show "block st1 q l" unfolding block_def by blast
qed

lemma unat_chunks_of_heap:
  assumes "aligned sz"
  shows "unat sz div 128 = 8 * unat (sz div kChunkSize div 8)"
proof -
  have "take_bit 10 (unat sz) = 0"
    using assms unfolding aligned_def by (metis unsigned_take_bit_eq unsigned_0)
  then have "1024 dvd unat sz" by (simp add: take_bit_eq_mod mod_0_imp_dvd)
  then obtain k where "unat sz = 1024 * k" by blast
  then show ?thesis by (simp add: unat_div kChunkSize_def)
qed


text \<open>A new allocator, at the head of one of the lists.\<close>

definition linked :: "bool \<Rightarrow> u64 \<Rightarrow> process \<Rightarrow> process" where
  "linked near a st =
     (if near then st\<lparr>root_list := a # root_list st\<rparr> else st\<lparr>default_list := a # default_list st\<rparr>)"

lemma linked_simps [simp]:
  "allocators (linked near a st) = allocators st" "headers (linked near a st) = headers st"
  "set (default_list (linked near a st)) \<union> set (root_list (linked near a st)) =
     insert a (set (default_list st) \<union> set (root_list st))"
  "protecting (linked near a st) = protecting st"
  by (auto simp: linked_def)

lemma block_cong:
  assumes "\<And>a m. allocators st a = Some m \<Longrightarrow> allocators st' a = Some m"
    and "headers st' = headers st" and "block st q l"
  shows "block st' q l"
  using assms unfolding block_def block_in_def count_at_def by metis

lemma new_allocator_ok:
  assumes sys: "system_ok sys" and ok: "allocator_ok st"
    and os: "AllocOSMemory sys st sz start = (heap, st1)" and new: "new_Memory sys st1 heap sz = Inr (a, st2)"
    and sz: "aligned sz" "unat sz \<le> 2 ^ 20"
  shows "allocator_ok (linked near a st2)"
    and "\<exists>m. allocators (linked near a st2) a = Some m \<and> heap_start m = heap \<and> heap_size m = sz"
    and "block st q l \<Longrightarrow> block (linked near a st2) q l"
    and "start \<noteq> 0 \<Longrightarrow> heap \<noteq> 0 \<Longrightarrow> heap = start \<and> unat heap + unat sz < 2 ^ 64"
    and "allocators st a = None"
proof -
  from AllocOSMemory_cases [OF sys ok os] zeroed_heap [OF ok, of heap sz] ok
  have ok1: "allocator_ok st1" and same: "allocators st1 = allocators st"
    "block st q l \<Longrightarrow> block st1 q l" by auto
  define m where "m = \<lparr>heap_start = heap, heap_size = sz,
    chunk_table = malloc_bytes sys st1 (unat (sz div kChunkSize div 8)),
    allocated_chunks = 0, references = 0, heap_writable = False\<rparr>"
  from new have a: "new_address sys st1 = Some a" and st2: "st2 = put a m st1"
    by (auto simp: new_Memory_def m_def split: option.splits)
  from a have fresh: "a \<noteq> 0" "allocators st1 a = None" using sys ok1 unfolding system_ok_def by blast+
  from fresh(2) show "allocators st a = None" by (simp add: same(1))
  have table: "chunk_table m = [] \<or> total_chunks m \<le> 8 * length (chunk_table m)"
  proof -
    have "chunk_table m = [] \<or> length (chunk_table m) = unat (sz div kChunkSize div 8)"
      using sys ok1 unfolding system_ok_def m_def by auto
    then show ?thesis
      using unat_chunks_of_heap [OF sz(1)] by (auto simp: total_chunks_def m_def)
  qed
  show lst: "\<exists>m. allocators (linked near a st2) a = Some m \<and> heap_start m = heap \<and> heap_size m = sz"
    by (simp add: st2 m_def)
  show "start \<noteq> 0 \<Longrightarrow> heap \<noteq> 0 \<Longrightarrow> heap = start \<and> unat heap + unat sz < 2 ^ 64"
    using AllocOSMemory_cases [OF sys ok os] by auto
  show "block (linked near a st2) q l" if "block st q l"
    by (rule block_cong [OF _ _ same(2) [OF that]]) (use fresh in \<open>auto simp: st2\<close>)
  have hm: "heap_ok st1 a m" if heap: "heap \<noteq> 0"
  proof -
    from AllocOSMemory_cases [OF sys ok os] heap
    have st1: "st1 = st\<lparr>headers := (\<lambda>x. if x - heap < sz then no_header else headers st x)\<rparr>"
      and fits: "unat heap + unat sz < 2 ^ 64" by auto
    have "count_at st1 m c = 0" if "c < total_chunks m" for c
    proof -
      have "in_heap m (chunk_address m c + of_nat 0)"
        by (rule in_heap_chunk) (use fits that in \<open>simp_all add: m_def\<close>)
      then show ?thesis by (simp add: count_at_def st1 in_heap_def m_def no_header_def)
    qed
    then show ?thesis using fits sz(2) table by (simp add: heap_ok_def m_def)
  qed
  have apart: "\<not> (in_heap m x \<and> in_heap n x)"
    if "heap \<noteq> 0" and "allocators st b = Some n" and "heap_start n \<noteq> 0" for b n x
  proof -
    have "in_heap m x \<longleftrightarrow> x - heap < sz" by (simp add: in_heap_def m_def)
    then show ?thesis using AllocOSMemory_cases [OF sys ok os] that by blast
  qed
  show "allocator_ok (linked near a st2)"
  proof -
    have cong: "heap_ok (linked near a st2) b n = heap_ok st1 b n" for b n
      by (rule heap_ok_cong) (simp add: st2)
    have "dom (allocators st2) = insert a (set (default_list st1) \<union> set (root_list st1))"
      using ok1 unfolding allocator_ok_def by (auto simp: st2 put_def)
    moreover have "heap_start m = heap" "references m = 0" "\<not> heap_writable m" by (simp_all add: m_def)
    ultimately show ?thesis
      using ok1 fresh hm apart cong same(1) unfolding allocator_ok_def
      by (simp add: st2 split: if_splits) blast
  qed
qed

section \<open>\<open>Alloc\<close>\<close>

text \<open>
  The state \<open>st'\<close> is well-formed and has the blocks of \<open>st\<close>; if \<open>p\<close> is not null, it is a new block of
  at least \<open>sz\<close> bytes.
\<close>

definition allocated :: "process \<Rightarrow> u64 \<Rightarrow> u64 \<Rightarrow> process \<Rightarrow> bool" where
  "allocated st sz p st' \<longleftrightarrow> allocator_ok st' \<and>
     (\<forall>q l. block st q l \<longrightarrow> block st' q l) \<and>
     (p \<noteq> 0 \<longrightarrow> (\<exists>k. unat sz \<le> k \<and> block st' p k) \<and> (\<forall>q l. block st q l \<longrightarrow> q \<noteq> p))"

lemma allocated_took:
  assumes "allocator_ok st" and "took st a m sz p st'"
  shows "allocated st sz p st'"
  using took_blocks [OF assms] took_ok [OF assms] unfolding allocated_def by blast

lemma allocated_none: "allocator_ok st \<Longrightarrow> allocated st sz 0 st"
  by (simp add: allocated_def)

lemma allocated_later:
  assumes "allocated st1 sz p st'" and "\<And>q l. block st q l \<Longrightarrow> block st1 q l"
  shows "allocated st sz p st'"
  using assms unfolding allocated_def by blast

lemma DoAlloc_allocated:
  assumes "allocator_ok st" and "allocators st a = Some m" and "DoAlloc st a sz = Inr (p, st')"
  shows "allocated st sz p st'"
  using DoAlloc_took [OF assms] allocated_took allocated_none assms(1) by blast

lemma Alloc_allocated:
  assumes sys: "system_ok sys" and ok: "allocator_ok st" and run: "Alloc sys st sz = Inr (p, st')"
  shows "allocated st sz p st'"
proof (cases "sz \<ge> kHeapSize div 2")
  case True
  then show ?thesis using run ok by (simp add: Alloc_def allocated_none)
next
  case False
  with run obtain q st1 where first: "alloc_first (\<lambda>m. True) st (default_list st) sz = Inr (q, st1)"
    and rest: "(if q \<noteq> 0 then Inr (q, st1)
      else let (heap, st) = AllocOSMemory sys st1 kHeapSize 0 in
           bnd (new_Memory sys st heap kHeapSize) (\<lambda>(a, st).
           DoAlloc (st\<lparr>default_list := a # default_list st\<rparr>) a sz)) = Inr (p, st')"
    by (auto simp: Alloc_def bnd_eq_Inr_iff)
  have "set (default_list st) \<subseteq> dom (allocators st)" using ok by (simp add: allocator_ok_def)
  from alloc_first_took [OF ok this first] show ?thesis
  proof (elim disjE exE conjE)
    fix a m
    assume "took st a m sz q st1"
    then show ?thesis using rest took_ok(2) [OF ok] allocated_took [OF ok] by auto
  next
    assume none: "q = 0" "st1 = st"
    obtain heap st2 where os: "AllocOSMemory sys st kHeapSize 0 = (heap, st2)" by (cases "AllocOSMemory sys st kHeapSize 0")
    with rest none obtain a st3 where new: "new_Memory sys st2 heap kHeapSize = Inr (a, st3)"
      and do: "DoAlloc (linked False a st3) a sz = Inr (p, st')"
      by (auto simp: bnd_eq_Inr_iff linked_def)
    have size: "aligned kHeapSize" "unat kHeapSize \<le> 2 ^ 20" by (simp_all add: aligned_def kHeapSize_def)
    note fresh = new_allocator_ok(1,2,3) [OF sys ok os new size, where near = False]
    from fresh(2) obtain m where "allocators (linked False a st3) a = Some m" by blast
    from DoAlloc_allocated [OF fresh(1) this do] fresh(3) show ?thesis by (rule allocated_later)
  qed
qed

section \<open>A range of addresses\<close>

lemma aligned_iff: "aligned w \<longleftrightarrow> 1024 dvd uint w"
proof -
  have "aligned w \<longleftrightarrow> uint (take_bit 10 w) = 0" unfolding aligned_def by (metis uint_0_iff)
  also have "uint (take_bit 10 w) = take_bit 10 (uint w)" by (rule unsigned_take_bit_eq)
  also have "\<dots> = uint w mod 1024" by (simp add: take_bit_eq_mod)
  finally show ?thesis by (simp only: dvd_eq_mod_eq_0)
qed

lemma aligned_diff:
  assumes "aligned v" and "aligned w"
  shows "aligned (v - w)"
proof -
  have "1024 dvd (uint v - uint w) mod 2 ^ 64"
    using assms by (intro dvd_mod) (simp_all add: aligned_iff)
  then show ?thesis unfolding aligned_iff uint_word_ariths(2) by simp
qed

lemma aligned_align_down: "10 \<le> k \<Longrightarrow> aligned (align_down x (2 ^ k))"
  unfolding aligned_def align_down_def mask_eq_decr_exp [symmetric]
  by (rule bit_eqI) (auto simp: bit_simps)

lemma set_emplace: "set (emplace s ss) \<subseteq> insert s (set ss)"
  by (induction ss) auto

definition usable :: "MemorySpace \<Rightarrow> bool" where
  "usable s \<longleftrightarrow> aligned (space_size s) \<and> space_address s \<noteq> 0"

lemma collect_spaces_usable:
  assumes "\<forall>e \<in> set es. aligned (map_start e) \<and> aligned (map_stop e) \<and> map_start e \<noteq> 0 \<and> map_stop e \<noteq> 0"
    and "aligned stop" and "aligned previous" and "previous \<noteq> 0"
    and "\<forall>s \<in> set ss \<union> set ds. usable s"
    and "collect_spaces start stop min_size previous es ss ds = (ss', ds')"
  shows "\<forall>s \<in> set ss' \<union> set ds'. usable s"
  using assms
proof (induction es arbitrary: previous ss ds)
  case Nil
  then show ?case by simp
next
  case (Cons e es)
  let ?size = "(if map_start e > stop then map_start e else stop) - previous"
  have size: "aligned ?size" using Cons.prems by (auto intro: aligned_diff)
  have s: "usable \<lparr>space_address = previous, space_size = ?size\<rparr>"
    "usable \<lparr>space_address = map_start e, space_size = map_stop e - map_start e\<rparr>"
    using Cons.prems size by (auto simp: usable_def intro: aligned_diff)
  have next_ok: "aligned (map_stop e)" "map_stop e \<noteq> 0" using Cons.prems(1) by simp_all
  have em: "\<forall>s \<in> set (emplace t ts). usable s" if "usable t" and "\<forall>s \<in> set ts. usable s" for t ts
    using set_emplace [of t ts] that by auto
  have es: "\<forall>e \<in> set es. aligned (map_start e) \<and> aligned (map_stop e) \<and> map_start e \<noteq> 0 \<and> map_stop e \<noteq> 0"
    using Cons.prems(1) by simp
  note IH = Cons.IH [OF es Cons.prems(2) next_ok]
  show ?case
  proof (cases "previous < start \<or> ?size < min_size")
    case True
    then have "collect_spaces start stop min_size (map_stop e) es ss ds = (ss', ds')"
      using Cons.prems(6) unfolding collect_spaces.simps Let_def by (auto split: if_splits)
    with Cons.prems(5) show ?thesis by (rule IH)
  next
    case False
    let ?ss = "emplace \<lparr>space_address = previous, space_size = ?size\<rparr> ss"
    let ?ds = "if map_none e
      then emplace \<lparr>space_address = map_start e, space_size = map_stop e - map_start e\<rparr> ds else ds"
    have run: "collect_spaces start stop min_size (map_stop e) es ?ss ?ds = (ss', ds')"
    proof -
      have "collect_spaces start stop min_size previous (e # es) ss ds =
          collect_spaces start stop min_size (map_stop e) es ?ss ?ds"
      proof -
        have a: "\<not> previous < start" and b: "\<not> ?size < min_size" using False by blast+
        show ?thesis unfolding collect_spaces.simps(2) Let_def if_not_P [OF a] if_not_P [OF b] by (rule refl)
      qed
      from trans [OF this [symmetric] Cons.prems(6)] show ?thesis .
    qed
    have old: "\<forall>s \<in> set ss. usable s" "\<forall>s \<in> set ds. usable s" using Cons.prems(5) by blast+
    have "\<forall>s \<in> set ?ss. usable s" by (rule em [OF s(1) old(1)])
    moreover have "\<forall>s \<in> set ?ds. usable s"
      using em [OF s(2) old(2)] old(2) by (cases "map_none e") (simp_all only: if_True if_False)
    ultimately have "\<forall>s \<in> set ?ss \<union> set ?ds. usable s" by blast
    then show ?thesis using run by (rule IH)
  qed
qed

lemma base_nonzero:
  assumes "addr \<noteq> (0 :: u64)" and "addr \<le> stop" and "rsize < stop"
  shows "addr + min sz (stop - addr) - min sz rsize \<noteq> 0"
proof
  assume "addr + min sz (stop - addr) - min sz rsize = 0"
  then have eq: "addr + min sz (stop - addr) = min sz rsize" by simp
  show False
  proof (cases "sz \<le> stop - addr")
    case True
    have "unat (stop - addr) = unat stop - unat addr" using assms(2) by (rule unat_sub)
    then have "unat addr + unat sz \<le> unat stop" using True assms(2) by (simp add: word_le_nat_alt)
    then have "unat (addr + sz) = unat addr + unat sz"
      by (intro unat_add_lem [THEN iffD1] le_less_trans [OF _ unsigned_less])
    moreover have "unat (addr + sz) \<le> unat sz" using eq True by (simp add: min_def word_le_nat_alt split: if_splits)
    moreover have "0 < unat addr" using assms(1) by (simp add: unat_gt_0)
    ultimately show False by linarith
  next
    case False
    then have "addr + min sz (stop - addr) = stop" by (simp add: min_def)
    then show False using eq assms(3) by (simp add: min_def split: if_splits)
  qed
qed

lemma new_memory_found:
  assumes "new_memory sys st start stop rsize spaces = Inr (Some (a, st2))"
    and "\<forall>s \<in> set spaces. usable s" and "aligned rsize"
  shows "\<exists>sz base heap st1. AllocOSMemory sys st sz base = (heap, st1) \<and> heap \<noteq> 0 \<and> (rsize < stop \<longrightarrow> base \<noteq> 0) \<and>
    new_Memory sys st1 heap sz = Inr (a, st2) \<and> start \<le> base \<and> base + sz \<le> stop \<and> aligned sz \<and> sz \<le> rsize"
  using assms(1,2)
proof (induction spaces)
  case Nil
  then show ?case by simp
next
  case (Cons s spaces)
  let ?sz = "min (space_size s) rsize"
  let ?base = "space_address s + min (space_size s) (stop - space_address s) - ?sz"
  show ?case
  proof (cases "space_address s > stop \<or> ?base < start \<or> ?base + ?sz > stop \<or> in_core sys st ?base \<or>
      fst (AllocOSMemory sys st ?sz ?base) = 0")
    case True
    then have "new_memory sys st start stop rsize spaces = Inr (Some (a, st2))"
      using Cons.prems(1) by (auto simp: Let_def split: if_splits prod.splits)
    then show ?thesis using Cons by simp
  next
    case False
    obtain heap st1 where os: "AllocOSMemory sys st ?sz ?base = (heap, st1)" by (cases "AllocOSMemory sys st ?sz ?base")
    with False Cons.prems(1) have "new_Memory sys st1 heap ?sz = Inr (a, st2)" "heap \<noteq> 0"
      by (auto simp: Let_def bnd_eq_Inr_iff)
    moreover have "?base \<noteq> 0" if "rsize < stop"
      by (rule base_nonzero) (use Cons.prems(2) False that in \<open>simp_all add: usable_def not_less\<close>)
    moreover have "aligned ?sz" using Cons.prems(2) assms(3) by (simp add: usable_def min_def)
    ultimately have "AllocOSMemory sys st ?sz ?base = (heap, st1) \<and> heap \<noteq> 0 \<and> (rsize < stop \<longrightarrow> ?base \<noteq> 0) \<and>
        new_Memory sys st1 heap ?sz = Inr (a, st2) \<and> start \<le> ?base \<and> ?base + ?sz \<le> stop \<and> aligned ?sz \<and>
        ?sz \<le> rsize"
      using os False by (simp add: not_less)
    then show ?thesis by blast
  qed
qed


text \<open>
  The block \<open>p\<close> of at least \<open>sz\<close> bytes lies between \<open>start\<close> and \<open>stop\<close>.
\<close>

definition between :: "u64 \<Rightarrow> u64 \<Rightarrow> u64 \<Rightarrow> u64 \<Rightarrow> bool" where
  "between start stop p sz \<longleftrightarrow> unat start \<le> unat p \<and> unat p + unat sz \<le> unat stop"

lemma took_between:
  assumes ok: "allocator_ok st" and took: "took st a m sz p st'"
    and "start \<le> heap_start m" and "heap_start m + heap_size m \<le> stop"
  shows "between start stop p sz"
proof -
  from took obtain c n t where m: "allocators st a = Some m" "heap_start m \<noteq> 0" "chunk_table m \<noteq> []"
    and p: "p = chunk_address m c + 16" and n: "0 < n" "unat sz + 16 \<le> 128 * n"
    and run: "fitting_run m n c t" unfolding took_def by blast
  have h: "unat (heap_start m) + unat (heap_size m) < 2 ^ 64"
    using allocator_ok_resting(2) [OF ok m(1,2)] by (simp add: heap_ok_def)
  have c: "c < total_chunks m" using run n by (simp add: fitting_run_def free_run_def)
  note u = unat_chunk_address [OF h c]
  have le: "128 * (c + n) \<le> unat (heap_size m)"
  proof -
    have "c + n \<le> unat (heap_size m) div 128"
      using run unfolding fitting_run_def free_run_def total_chunks_def by blast
    then have "(c + n) * 128 \<le> unat (heap_size m)" by (subst (asm) less_eq_div_iff_mult_less_eq) simp_all
    then show ?thesis by (simp only: mult.commute)
  qed
  have "unat (chunk_address m c + of_nat 16) = unat (chunk_address m c) + 16"
    by (rule unat_add_of_nat) (use u h in linarith)
  then have p': "unat p = unat (heap_start m) + 128 * c + 16" by (simp add: p u)
  have "unat (heap_start m + heap_size m) = unat (heap_start m) + unat (heap_size m)"
    by (rule unat_add_lem [THEN iffD1]) (use h in simp)
  then have "unat (heap_start m) + unat (heap_size m) \<le> unat stop"
    using assms(4) by (simp add: word_le_nat_alt)
  moreover have "unat start \<le> unat (heap_start m)" using assms(3) by (simp add: word_le_nat_alt)
  ultimately show ?thesis unfolding between_def p' using le n(2) by simp
qed

text \<open>
  It is in a heap of the range, one that was there or one that the system has mapped at the address it
  was asked for.
\<close>

definition in_range_heap :: "system \<Rightarrow> process \<Rightarrow> u64 \<Rightarrow> u64 \<Rightarrow> u64 \<Rightarrow> process \<Rightarrow> bool" where
  "in_range_heap sys st start stop p st' \<longleftrightarrow> (\<exists>a m c k. block_in st' a m c p k \<and> a \<in> set (root_list st') \<and>
     start \<le> heap_start m \<and> heap_start m + heap_size m \<le> stop \<and>
     (a \<in> set (root_list st) \<or>
      allocators st a = None \<and> mmap sys st (heap_size m) (heap_start m) = Some (heap_start m)))"

lemma AllocRange_allocated:
  assumes sys: "system_ok sys" and ok: "allocator_ok st"
    and run: "AllocRange sys st sz start0 stop0 = Inr (p, st')"
  shows "allocated st sz p st'"
    and "p \<noteq> 0 \<Longrightarrow> kSmallHeapSize < align_down stop0 (page_size sys) \<Longrightarrow>
      between (align_up start0 (page_size sys)) (align_down stop0 (page_size sys)) p sz \<and>
      in_range_heap sys st (align_up start0 (page_size sys)) (align_down stop0 (page_size sys)) p st'"
proof -
  let ?start = "align_up start0 (page_size sys)" and ?stop = "align_down stop0 (page_size sys)"
  let ?in = "between ?start ?stop p sz \<and> in_range_heap sys st ?start ?stop p st'"
  let ?P = "allocated st sz p st' \<and> (p \<noteq> 0 \<and> kSmallHeapSize < ?stop \<longrightarrow> ?in)"
  have ?P
  proof (cases "sz \<ge> kSmallHeapSize div 2")
    case True
    then show ?thesis using run ok by (simp add: AllocRange_def allocated_none)
  next
    case False
    let ?suitable = "\<lambda>m. \<not> (heap_start m < ?start \<or> heap_start m + heap_size m > ?stop)"
    from False run obtain q st1 where first: "alloc_first ?suitable st (root_list st) sz = Inr (q, st1)"
      and rest: "(if q \<noteq> 0 then Inr (q, st1)
        else bnd (NewAllocator sys st1 ?start ?stop (page_size sys) kSmallHeapSize) (\<lambda>r.
          case r of None \<Rightarrow> Inr (0, st1)
          | Some (a, st) \<Rightarrow> DoAlloc (st\<lparr>root_list := a # root_list st\<rparr>) a sz)) = Inr (p, st')"
      by (auto simp: AllocRange_def Let_def bnd_eq_Inr_iff)
    have "set (root_list st) \<subseteq> dom (allocators st)" using ok by (simp add: allocator_ok_def)
    from alloc_first_took [OF ok this first] show ?thesis
    proof (elim disjE exE conjE)
      fix a m
      assume a: "a \<in> set (root_list st)" and m: "?suitable m" and took: "took st a m sz q st1"
      then have q: "q = p" "st1 = st'" using rest took_ok(2) [OF ok] by auto
      obtain n c k where "block_in st1 a n c q k" "heap_start n = heap_start m" "heap_size n = heap_size m"
        "root_list st1 = root_list st" by (rule took_in_heap [OF ok took])
      then have "in_range_heap sys st ?start ?stop q st1"
        using a m unfolding in_range_heap_def by (intro exI [of _ a] exI [of _ n] exI [of _ c] exI [of _ k]) (simp add: not_less)
      then show ?thesis
        using q allocated_took [OF ok took] took_between [OF ok took] m by (simp add: not_less)
    next
      assume none: "q = 0" "st1 = st"
      with rest obtain r where r: "NewAllocator sys st ?start ?stop (page_size sys) kSmallHeapSize = Inr r"
        and do: "(case r of None \<Rightarrow> Inr (0, st)
          | Some (a, st) \<Rightarrow> DoAlloc (st\<lparr>root_list := a # root_list st\<rparr>) a sz) = Inr (p, st')"
        by (auto simp: bnd_eq_Inr_iff)
      show ?thesis
      proof (cases r)
        case None
        then show ?thesis using do ok by (simp add: allocated_none)
      next
        case (Some x)
        obtain a st3 where x: "x = (a, st3)" by (cases x)
        obtain ss ds where spaces: "collect_spaces ?start ?stop (page_size sys) 0x8000 (proc_maps sys st) [] [] = (ss, ds)"
          by (cases "collect_spaces ?start ?stop (page_size sys) 0x8000 (proc_maps sys st) [] []")
        have "aligned ?stop" using sys aligned_align_down unfolding system_ok_def by metis
        moreover have "\<forall>e \<in> set (proc_maps sys st). aligned (map_start e) \<and> aligned (map_stop e) \<and>
            map_start e \<noteq> 0 \<and> map_stop e \<noteq> 0" using sys ok unfolding system_ok_def by blast
        ultimately have use: "\<forall>s \<in> set ss \<union> set ds. usable s"
          by (intro collect_spaces_usable [OF _ _ _ _ _ spaces]) (simp_all add: aligned_def)
        have found: "new_memory sys st ?start ?stop kSmallHeapSize ss = Inr (Some (a, st3)) \<or>
            new_memory sys st ?start ?stop kSmallHeapSize ds = Inr (Some (a, st3))"
          using r Some x spaces by (auto simp: NewAllocator_def bnd_eq_Inr_iff split: option.splits)
        have small: "aligned kSmallHeapSize" by (simp add: aligned_def kSmallHeapSize_def)
        from found use new_memory_found [OF _ _ small] obtain hsz base heap st2 where
          os: "AllocOSMemory sys st hsz base = (heap, st2)" and heap: "heap \<noteq> 0" "kSmallHeapSize < ?stop \<longrightarrow> base \<noteq> 0"
          and new: "new_Memory sys st2 heap hsz = Inr (a, st3)" and base: "?start \<le> base" "base + hsz \<le> ?stop"
          and hsz: "aligned hsz" "hsz \<le> kSmallHeapSize" by blast
        have "unat hsz \<le> 2 ^ 20" using hsz(2) by (simp add: kSmallHeapSize_def word_le_nat_alt)
        note fresh = new_allocator_ok(1,2,3) [OF sys ok os new hsz(1) this, where near = True]
          and at = new_allocator_ok(4) [OF sys ok os new hsz(1) this _ heap(1)]
          and none = new_allocator_ok(5) [OF sys ok os new hsz(1) this]
        from fresh(2) obtain m where m: "allocators (linked True a st3) a = Some m"
          "heap_start m = heap" "heap_size m = hsz" by blast
        have do': "DoAlloc (linked True a st3) a sz = Inr (p, st')" using do Some x by (simp add: linked_def)
        have "allocated st sz p st'"
          using DoAlloc_allocated [OF fresh(1) m(1) do'] fresh(3) by (rule allocated_later)
        moreover have ?in if "p \<noteq> 0" and "kSmallHeapSize < ?stop"
        proof -
          have took: "took (linked True a st3) a m sz p st'"
            using DoAlloc_took [OF fresh(1) m(1) do'] that(1) by blast
          have b: "heap = base" using at heap(2) that(2) by blast
          obtain n c k where "block_in st' a n c p k" "heap_start n = heap_start m" "heap_size n = heap_size m"
            "root_list st' = root_list (linked True a st3)" by (rule took_in_heap [OF fresh(1) took])
          moreover have "mmap sys st hsz heap = Some heap"
            using AllocOSMemory_mapped [OF os heap(1)] by (simp add: b)
          ultimately have "in_range_heap sys st ?start ?stop p st'"
            using none m(2,3) base b unfolding in_range_heap_def
            by (intro exI [of _ a] exI [of _ n] exI [of _ c] exI [of _ k]) (simp add: linked_def)
          then show ?thesis using took_between [OF fresh(1) took] m base b by simp
        qed
        ultimately show ?thesis by blast
      qed
    qed
  qed
  then show "allocated st sz p st'"
    "p \<noteq> 0 \<Longrightarrow> kSmallHeapSize < ?stop \<Longrightarrow> ?in" by blast+
qed

section \<open>\<open>Free\<close>\<close>

lemma header_of_block:
  assumes ok: "allocator_ok st" and b: "block_in st a m c p k"
  shows "p - kAlignment = chunk_address m c" and "p \<noteq> 0"
    and "GetMemoryHeader st p = Some (headers st (chunk_address m c))"
    and "header_allocator (headers st (chunk_address m c)) = a"
    and "block_ok st a m c" and "heap_ok st a m" and "a \<noteq> 0"
proof -
  from b have m: "allocators st a = Some m" "heap_start m \<noteq> 0" "c < total_chunks m" "0 < count_at st m c"
    "p = chunk_address m c + 16" by (simp_all add: block_in_def)
  show h: "heap_ok st a m" using allocator_ok_resting(2) [OF ok m(1,2)] .
  then show blk: "block_ok st a m c" using m(3,4) by (simp add: heap_ok_def)
  then show hd: "header_allocator (headers st (chunk_address m c)) = a" by (simp add: block_ok_def)
  show a: "a \<noteq> 0" using ok m(1) by (auto simp: allocator_ok_def)
  show addr: "p - kAlignment = chunk_address m c" by (simp add: m(5) kAlignment_def)
  have fits: "unat (heap_start m) + unat (heap_size m) < 2 ^ 64" using h by (simp add: heap_ok_def)
  note u = unat_chunk_address [OF fits m(3)]
  have "unat (chunk_address m c + of_nat 16) = unat (chunk_address m c) + 16"
    by (rule unat_add_of_nat) (use u fits in linarith)
  then have "0 < unat p" by (simp add: m(5))
  then show p: "p \<noteq> 0" by auto
  have "header_chunk_count (headers st (chunk_address m c)) \<noteq> 0" using m(4) by (auto simp: count_at_def)
  then show "GetMemoryHeader st p = Some (headers st (chunk_address m c))"
    using blk hd a p by (simp add: GetMemoryHeader_def addr block_ok_def)
qed

definition without_block :: "process \<Rightarrow> u64 \<Rightarrow> Memory \<Rightarrow> nat \<Rightarrow> u8 list \<Rightarrow> process" where
  "without_block st a m c table' =
     put a (m\<lparr>chunk_table := table', allocated_chunks := allocated_chunks m - of_nat (count_at st m c)\<rparr>)
       (st\<lparr>headers := (headers st)(chunk_address m c :=
         (headers st (chunk_address m c))\<lparr>header_chunk_count := 0\<rparr>)\<rparr>)"

lemma start_chunk:
  assumes "unat (heap_start m) + unat (heap_size m) < 2 ^ 64" and "c < total_chunks m"
  shows "unat ((chunk_address m c - heap_start m) div kChunkSize) = c"
proof -
  have "128 * c + 128 \<le> unat (heap_size m)" by (rule unat_chunk_address(2) [OF assms])
  then have "unat (of_nat (128 * c) :: u64) = 128 * c" using assms(1) by (intro unat_of_nat_64) linarith
  moreover have "chunk_address m c - heap_start m = of_nat (128 * c)" by (simp add: chunk_address_def)
  ultimately have "unat ((chunk_address m c - heap_start m) div kChunkSize) = 128 * c div 128"
    by (simp only: unat_div kChunkSize_def) simp
  then show ?thesis by simp
qed

lemma is_default_put:
  "is_default_allocator (put a m st) b = is_default_allocator st b"
  "is_default_allocator (st\<lparr>headers := h\<rparr>) b = is_default_allocator st b"
  by (simp_all add: is_default_allocator_def)

lemma DoFree_result:
  assumes ok: "allocator_ok st" and b: "block_in st a m c p k"
  obtains table' where "length table' = length (chunk_table m)"
    and "\<forall>j < 8 * length (chunk_table m).
      chunk_bit table' j \<longleftrightarrow> chunk_bit (chunk_table m) j \<and> \<not> (c \<le> j \<and> j < c + count_at st m c)"
    and "DoFree st a p =
      (if allocated_chunks m = of_nat (count_at st m c) \<and> \<not> is_default_allocator st a
       then Inl UseAfterFree else Inr ((), without_block st a m c table'))"
proof -
  note h = header_of_block [OF ok b]
  from b have m: "allocators st a = Some m" "heap_start m \<noteq> 0" "c < total_chunks m" by (simp_all add: block_in_def)
  have rest: "resting st a m" using allocator_ok_resting(1) [OF ok m(1)] .
  have fits: "unat (heap_start m) + unat (heap_size m) < 2 ^ 64"
    and len: "total_chunks m \<le> 8 * length (chunk_table m)"
    using h(5,6) by (auto simp: heap_ok_def block_ok_def)
  have "c + count_at st m c \<le> 8 * length (chunk_table m)" using h(5) len by (simp add: block_ok_def)
  from clear_chunks_bits [OF this] obtain t where t: "clear_chunks (chunk_table m) c (count_at st m c) = Inr t"
    "length t = length (chunk_table m)"
    "\<forall>j < 8 * length (chunk_table m).
      chunk_bit t j \<longleftrightarrow> chunk_bit (chunk_table m) j \<and> \<not> (c \<le> j \<and> j < c + count_at st m c)" by blast
  have count: "ucast (header_chunk_count (headers st (chunk_address m c))) = (of_nat (count_at st m c) :: u64)"
    by (simp add: count_at_def)
  have "DoFree st a p =
      (if allocated_chunks m = of_nat (count_at st m c) \<and> \<not> is_default_allocator st a
       then Inl UseAfterFree else Inr ((), without_block st a m c t))"
  proof -
    have sc: "unat ((chunk_address m c - heap_start m) div kChunkSize) = c" by (rule start_chunk [OF fits m(3)])
    have cl: "clear_chunks (chunk_table m) c (unat (header_chunk_count (headers st (chunk_address m c)))) = Inr t"
      using t(1) by (simp add: count_at_def)
    have r: "references m = 0" "\<not> heap_writable m" "allocators st a = Some m" "a \<noteq> 0" "protecting st"
      using rest by (simp_all add: resting_def)
    show ?thesis
      by (simp add: DoFree_def scoped_resting [OF rest] deref_def Let_def h(1) sc cl r m(2) write_header_def
          release_def ProtectOSMemory_succeeds is_default_put delete_allocator_def without_block_def count rested)
  qed
  with t(2,3) show thesis by (rule that)
qed


lemma block_other_heap:
  assumes ok: "allocator_ok st" and m: "allocators st a = Some m" "heap_start m \<noteq> 0" "c < total_chunks m"
    and b: "b \<noteq> a" "allocators st b = Some k" "heap_start k \<noteq> 0" "d < total_chunks k"
    and "headers st' = (headers st)(chunk_address m c := h)"
  shows "count_at st' k d = count_at st k d" and "chunk_address k d + 16 \<noteq> chunk_address m c + 16"
  using other_heap_headers [OF ok m(1) b(2) b(1) [symmetric] m(2) b(3) m(3) b(4)] assms(9)
  by (auto simp: count_at_def)

lemma without_block_blocks:
  assumes ok: "allocator_ok st" and b: "block_in st a m c p k"
    and len: "length table' = length (chunk_table m)"
    and table: "\<forall>j < 8 * length (chunk_table m).
      chunk_bit table' j \<longleftrightarrow> chunk_bit (chunk_table m) j \<and> \<not> (c \<le> j \<and> j < c + count_at st m c)"
  shows "allocator_ok (without_block st a m c table')"
    and "block (without_block st a m c table') q l \<longleftrightarrow> block st q l \<and> q \<noteq> p"
    and "(\<exists>n d l. block_in (without_block st a m c table') e n d q l) \<longleftrightarrow> (\<exists>n d l. block_in st e n d q l) \<and> q \<noteq> p"
proof -
  note h = header_of_block [OF ok b]
  from b have m: "allocators st a = Some m" "heap_start m \<noteq> 0" "c < total_chunks m" "0 < count_at st m c"
    and p: "p = chunk_address m c + 16" by (simp_all add: block_in_def)
  have fits: "unat (heap_start m) + unat (heap_size m) < 2 ^ 64" using h(6) by (simp add: heap_ok_def)
  let ?st = "without_block st a m c table'"
  let ?m = "m\<lparr>chunk_table := table', allocated_chunks := allocated_chunks m - of_nat (count_at st m c)\<rparr>"
  show "allocator_ok ?st"
    unfolding without_block_def
  proof (rule allocator_ok_update [OF ok m(1,2,3)])
    show "heap_ok (st\<lparr>headers := (headers st)(chunk_address m c :=
        (headers st (chunk_address m c))\<lparr>header_chunk_count := 0\<rparr>)\<rparr>) a ?m"
      by (rule give_back_chunks [OF h(6) m(3,4) len table]) (use h(5) in \<open>simp add: block_ok_def\<close>)
  qed (use allocator_ok_resting(1) [OF ok m(1)] in \<open>simp_all add: resting_def\<close>)
  have hd: "headers ?st = (headers st)(chunk_address m c := (headers st (chunk_address m c))\<lparr>header_chunk_count := 0\<rparr>)"
    by (simp add: without_block_def)
  have al: "allocators ?st b = (if b = a then Some ?m else allocators st b)" for b
    by (simp add: without_block_def)
  have count: "count_at ?st m d = (if d = c then 0 else count_at st m d)" if "d < total_chunks m" for d
    using chunk_address_inject [OF fits that m(3)] by (simp add: count_at_def hd)
  have in_a: "block_in ?st a ?m d q l \<longleftrightarrow> block_in st a m d q l \<and> d \<noteq> c" for d l
    using m(1,2) count [of d] by (auto simp: block_in_def al split: if_splits)
  have ne: "d \<noteq> c \<longleftrightarrow> q \<noteq> p" if "block_in st a m d q l" for d l
    using that chunk_address_inject [OF fits _ m(3), of d] by (auto simp: block_in_def p)
  have in_b: "block_in ?st b k d q l \<longleftrightarrow> block_in st b k d q l \<and> q \<noteq> p" if "b \<noteq> a" for b k d l
    using block_other_heap [OF ok m(1-3) that _ _ _ hd, of k d] that by (auto simp: block_in_def al p)
  have same: "(\<exists>n d. block_in ?st e n d q l) \<longleftrightarrow> (\<exists>n d. block_in st e n d q l) \<and> q \<noteq> p" for e l
  proof (cases "e = a")
    case True
    have "n = ?m" if "block_in ?st a n d q l" for n d using that by (simp add: block_in_def al)
    then have "(\<exists>n d. block_in ?st a n d q l) \<longleftrightarrow> (\<exists>d. block_in ?st a ?m d q l)" by blast
    also have "\<dots> \<longleftrightarrow> (\<exists>d. block_in st a m d q l \<and> d \<noteq> c)" by (simp only: in_a)
    also have "\<dots> \<longleftrightarrow> (\<exists>d. block_in st a m d q l) \<and> q \<noteq> p" using ne by blast
    also have "(\<exists>d. block_in st a m d q l) \<longleftrightarrow> (\<exists>n d. block_in st a n d q l)" using m(1) by (auto simp: block_in_def)
    finally show ?thesis by (simp only: True)
  next
    case False
    then show ?thesis by (simp add: in_b)
  qed
  then have other: "(\<exists>l n d. block_in ?st e n d q l) \<longleftrightarrow> (\<exists>l n d. block_in st e n d q l) \<and> q \<noteq> p" for e
    by (simp only: simp_thms ex_simps)
  have "(\<exists>e n d. block_in ?st e n d q l) \<longleftrightarrow> (\<exists>e n d. block_in st e n d q l) \<and> q \<noteq> p"
    by (simp only: same ex_simps)
  then show "block ?st q l \<longleftrightarrow> block st q l \<and> q \<noteq> p" unfolding block_def .
  from other show "(\<exists>n d l. block_in ?st e n d q l) \<longleftrightarrow> (\<exists>n d l. block_in st e n d q l) \<and> q \<noteq> p" by blast
qed

text \<open>The number of allocated chunks is that of the block exactly when there is no other block in the heap.\<close>

lemma last_block:
  assumes ok: "allocator_ok st" and b: "block_in st a m c p k"
  shows "allocated_chunks m = of_nat (count_at st m c) \<longleftrightarrow> (\<forall>d q l. block_in st a m d q l \<longrightarrow> d = c)"
proof -
  note h = header_of_block [OF ok b]
  from b have m: "allocators st a = Some m" "heap_start m \<noteq> 0" "c < total_chunks m" by (simp_all add: block_in_def)
  let ?k = "total_chunks m" and ?f = "count_at st m"
  let ?rest = "sum ?f ({..<?k} - {c})"
  have blocks: "\<And>d. d < ?k \<Longrightarrow> 0 < ?f d \<Longrightarrow> block_ok st a m d"
    and sum: "allocated_chunks m = of_nat (\<Sum>d < ?k. ?f d)" and k: "?k \<le> 2 ^ 13"
    using h(6) by (auto simp: heap_ok_def total_chunks_def)
  have "(\<Sum>d < ?k. ?f d) = ?f c + ?rest" using m(3) by (simp add: sum.remove [of "{..<?k}" c])
  then have eq: "allocated_chunks m = of_nat (?f c) + of_nat ?rest" unfolding sum by simp
  have "?f d \<le> 2 ^ 13" if "d < ?k" for d
  proof (cases "?f d = 0")
    case False
    then have "d + ?f d \<le> ?k" using blocks [OF that] by (simp add: block_ok_def)
    then show ?thesis using k by linarith
  qed simp
  then have "?rest \<le> of_nat (card ({..<?k} - {c})) * 2 ^ 13" by (intro sum_bounded_above) simp
  also have "\<dots> \<le> 2 ^ 13 * 2 ^ 13" using k m(3) by (simp add: card_Diff_singleton)
  also have "\<dots> < (2 ^ 64 :: nat)" by simp
  finally have rest: "unat (of_nat ?rest :: u64) = ?rest" by (rule unat_of_nat_64)
  have "(of_nat ?rest :: u64) = 0 \<longleftrightarrow> ?rest = 0"
    unfolding unat_eq_0 [symmetric] rest ..
  then have "allocated_chunks m = of_nat (?f c) \<longleftrightarrow> ?rest = 0" unfolding eq by simp
  also have "\<dots> \<longleftrightarrow> (\<forall>d < ?k. d \<noteq> c \<longrightarrow> ?f d = 0)" by (auto simp: sum_eq_0_iff)
  also have "\<dots> \<longleftrightarrow> (\<forall>d q l. block_in st a m d q l \<longrightarrow> d = c)" using m by (auto simp: block_in_def)
  finally show ?thesis .
qed

lemma Free_result:
  assumes ok: "allocator_ok st" and b: "block_in st a m c p k"
  shows "if (\<forall>d q l. block_in st a m d q l \<longrightarrow> d = c) \<and> \<not> is_default_allocator st a
    then Free st p = Inl UseAfterFree
    else \<exists>st'. Free st p = Inr ((), st') \<and> allocator_ok st' \<and>
      (\<forall>q l. block st' q l \<longleftrightarrow> block st q l \<and> q \<noteq> p) \<and>
      (\<forall>e q. (\<exists>n d l. block_in st' e n d q l) \<longleftrightarrow> (\<exists>n d l. block_in st e n d q l) \<and> q \<noteq> p) \<and>
      default_list st' = default_list st"
proof -
  note h = header_of_block [OF ok b]
  from DoFree_result [OF ok b] obtain t where t: "length t = length (chunk_table m)"
    "\<forall>j < 8 * length (chunk_table m).
      chunk_bit t j \<longleftrightarrow> chunk_bit (chunk_table m) j \<and> \<not> (c \<le> j \<and> j < c + count_at st m c)"
    and run: "DoFree st a p =
      (if allocated_chunks m = of_nat (count_at st m c) \<and> \<not> is_default_allocator st a
       then Inl UseAfterFree else Inr ((), without_block st a m c t))" by metis
  have free: "Free st p = DoFree st a p" by (simp add: Free_def h(3,4))
  show ?thesis
  proof (cases "(\<forall>d q l. block_in st a m d q l \<longrightarrow> d = c) \<and> \<not> is_default_allocator st a")
    case True
    then have "Free st p = Inl UseAfterFree" unfolding free run last_block [OF ok b] by (rule if_P)
    then show ?thesis unfolding if_P [OF True] .
  next
    case False
    then have "Free st p = Inr ((), without_block st a m c t)"
      unfolding free run last_block [OF ok b] by (rule if_not_P)
    moreover have "default_list (without_block st a m c t) = default_list st" by (simp add: without_block_def)
    ultimately show ?thesis unfolding if_not_P [OF False]
      using without_block_blocks [OF ok b t] by blast
  qed
qed

end
