(* ===== verification/Allocator_Correctness.thy ===== *)
theory Allocator_Correctness
  imports Allocator_Operations
begin

text \<open>
  The properties of the allocator: the contract that its users rely on, as the interface
  \<open>block_allocator\<close>, which both \<open>Alloc\<close> and \<open>AllocRange\<close> implement; the invariant of the reachable
  states; and when memory is found.
\<close>

section \<open>The contract\<close>

locale block_allocator =
  fixes ok :: "'s \<Rightarrow> bool"
    and blk :: "'s \<Rightarrow> u64 \<Rightarrow> nat \<Rightarrow> bool"
    and alloc :: "'s \<Rightarrow> u64 \<Rightarrow> (u64 \<times> 's) result"
  assumes alloc_ok: "ok st \<Longrightarrow> alloc st sz = Inr (p, st') \<Longrightarrow> ok st'"
    and alloc_keeps: "ok st \<Longrightarrow> alloc st sz = Inr (p, st') \<Longrightarrow> blk st q l \<Longrightarrow> blk st' q l"
    and alloc_new: "ok st \<Longrightarrow> alloc st sz = Inr (p, st') \<Longrightarrow> p \<noteq> 0 \<Longrightarrow>
      (\<exists>k. unat sz \<le> k \<and> blk st' p k) \<and> (\<forall>q l. blk st q l \<longrightarrow> q \<noteq> p)"
    and apart: "ok st \<Longrightarrow> blk st p k \<Longrightarrow> blk st q l \<Longrightarrow> p \<noteq> q \<Longrightarrow> \<not> (in_block p k x \<and> in_block q l x)"
begin

lemma alloc_fresh:
  assumes "ok st" and "alloc st sz = Inr (p, st')" and "p \<noteq> 0"
  shows "\<exists>k. unat sz \<le> k \<and> blk st' p k \<and>
    (\<forall>q l. blk st q l \<longrightarrow> blk st' q l \<and> (\<forall>x. \<not> (in_block p k x \<and> in_block q l x)))"
proof -
  from alloc_new [OF assms] obtain k where k: "unat sz \<le> k" "blk st' p k"
    and new: "\<And>q l. blk st q l \<Longrightarrow> q \<noteq> p" by blast
  have "blk st' q l \<and> (\<forall>x. \<not> (in_block p k x \<and> in_block q l x))" if "blk st q l" for q l
    using alloc_keeps [OF assms(1,2) that] apart [OF alloc_ok [OF assms(1,2)] k(2)] new [OF that] by blast
  with k show ?thesis by blast
qed

end

text \<open>A user that takes memory in two ways, from the same heap of blocks.\<close>

locale two_allocators =
  near: block_allocator ok blk alloc_near + far: block_allocator ok blk alloc_far
  for ok :: "'s \<Rightarrow> bool" and blk alloc_near alloc_far
begin

text \<open>The first block may come from either, or from the second one because the first had none.\<close>

definition alloc_or :: "'s \<Rightarrow> u64 \<Rightarrow> (u64 \<times> 's) result" where
  "alloc_or st sz = bnd (alloc_near st sz) (\<lambda>(p, st'). if p \<noteq> 0 then Inr (p, st') else alloc_far st' sz)"

lemma alloc_or_cases:
  assumes "ok st" and "alloc_or st sz = Inr (p, st')"
  shows "alloc_near st sz = Inr (p, st') \<or>
    (\<exists>st1. alloc_near st sz = Inr (0, st1) \<and> ok st1 \<and> alloc_far st1 sz = Inr (p, st'))"
  using assms near.alloc_ok [OF assms(1)] by (auto simp: alloc_or_def bnd_eq_Inr_iff split: if_splits)

lemma block_allocator_or: "block_allocator ok blk alloc_or"
proof
  show "ok st'" if "ok st" and "alloc_or st sz = Inr (p, st')" for st sz p st'
    using alloc_or_cases [OF that] near.alloc_ok far.alloc_ok that(1) by blast
  show "blk st' q l" if "ok st" and "alloc_or st sz = Inr (p, st')" and "blk st q l" for st sz p st' q l
    using alloc_or_cases [OF that(1,2)] near.alloc_keeps far.alloc_keeps that(1,3) by blast
  show "(\<exists>k. unat sz \<le> k \<and> blk st' p k) \<and> (\<forall>q l. blk st q l \<longrightarrow> q \<noteq> p)"
    if "ok st" and "alloc_or st sz = Inr (p, st')" and "p \<noteq> 0" for st sz p st'
    using alloc_or_cases [OF that(1,2)]
  proof (elim disjE exE conjE)
    assume "alloc_near st sz = Inr (p, st')"
    from near.alloc_new [OF that(1) this that(3)] show ?thesis .
  next
    fix st1
    assume st1: "alloc_near st sz = Inr (0, st1)" "ok st1" "alloc_far st1 sz = Inr (p, st')"
    from far.alloc_new [OF st1(2,3) that(3)] near.alloc_keeps [OF that(1) st1(1)] show ?thesis by blast
  qed
  show "\<not> (in_block p k x \<and> in_block q l x)"
    if "ok st" and "blk st p k" and "blk st q l" and "p \<noteq> q" for st p k q l x
    using near.apart [OF that] .
qed

end

definition run_ok :: "system \<Rightarrow> process \<Rightarrow> bool" where
  "run_ok sys st \<longleftrightarrow> system_ok sys \<and> allocator_ok st"

lemma block_allocator_allocated:
  assumes "\<And>st sz p st'. system_ok sys \<Longrightarrow> allocator_ok st \<Longrightarrow> alloc st sz = Inr (p, st') \<Longrightarrow>
    allocated st sz p st'"
  shows "block_allocator (run_ok sys) block alloc"
proof
  fix st sz p st'
  assume "run_ok sys st" and "alloc st sz = Inr (p, st')"
  then have "system_ok sys" and a: "allocated st sz p st'" using assms by (simp_all add: run_ok_def)
  then show "run_ok sys st'" by (simp add: run_ok_def allocated_def)
  show "block st' q l" if "block st q l" for q l using a that by (simp add: allocated_def)
  show "(\<exists>k. unat sz \<le> k \<and> block st' p k) \<and> (\<forall>q l. block st q l \<longrightarrow> q \<noteq> p)" if "p \<noteq> 0"
    using a that by (simp add: allocated_def)
next
  show "\<not> (in_block p k x \<and> in_block q l x)"
    if "run_ok sys st" and "block st p k" and "block st q l" and "p \<noteq> q" for st p k q l x
    using blocks_apart [OF _ that(2-4)] that(1) by (simp add: run_ok_def)
qed

interpretation anywhere: block_allocator "run_ok sys" block "Alloc sys" for sys
  by (rule block_allocator_allocated) (rule Alloc_allocated)

interpretation in_range: two_allocators "run_ok sys" block "\<lambda>st sz. AllocRange sys st sz start stop" "Alloc sys"
  for sys start stop
  by (intro two_allocators.intro block_allocator_allocated) (rule AllocRange_allocated(1) Alloc_allocated, assumption+)+

section \<open>The states that can be reached\<close>

text \<open>
  The users take blocks, anywhere or in a range, give back what they have, or nothing, and write
  memory. They do not call \<open>Realloc\<close>, which has no caller in the library and breaks the invariant
  (\<open>Realloc_in_place_unmarked\<close> of \<open>Allocator_Defects\<close>). In the first state all calls of \<open>libc_mprotect\<close> to
  come succeed.
\<close>

inductive allocator_step :: "system \<Rightarrow> process \<Rightarrow> process \<Rightarrow> bool" for sys where
  step_Alloc: "Alloc sys st sz = Inr (p, st') \<Longrightarrow> allocator_step sys st st'"
| step_AllocRange: "AllocRange sys st sz start stop = Inr (p, st') \<Longrightarrow> allocator_step sys st st'"
| step_Free: "p = 0 \<or> block st p k \<Longrightarrow> Free st p = Inr ((), st') \<Longrightarrow> allocator_step sys st st'"
| step_write: "allocator_step sys st (st\<lparr>contents := mem\<rparr>)"

inductive_cases allocator_stepE: "allocator_step sys st st'"

inductive allocator_reachable :: "system \<Rightarrow> process \<Rightarrow> bool" for sys where
  initial: "protecting st \<Longrightarrow> allocators st = Map.empty \<Longrightarrow> default_list st = [] \<Longrightarrow> root_list st = [] \<Longrightarrow>
    allocator_reachable sys st"
| further: "allocator_reachable sys st \<Longrightarrow> allocator_step sys st st' \<Longrightarrow> allocator_reachable sys st'"

lemma Free_null: "Free st 0 = Inr ((), st)"
  by (simp add: Free_def GetMemoryHeader_def)

lemma Free_ok:
  assumes "allocator_ok st" and "p = 0 \<or> block st p k" and "Free st p = Inr ((), st')"
  shows "allocator_ok st'"
  using assms(2)
proof
  assume "p = 0"
  then show ?thesis using assms(1,3) by (simp add: Free_null)
next
  assume "block st p k"
  then obtain a m c where "block_in st a m c p k" by (auto simp: block_def)
  from Free_result [OF assms(1) this] assms(3) show ?thesis by (auto split: if_splits)
qed

lemma contents_ok: "allocator_ok (st\<lparr>contents := mem\<rparr>) = allocator_ok st"
proof -
  have "heap_ok (st\<lparr>contents := mem\<rparr>) a m = heap_ok st a m" for a m by (rule heap_ok_cong) simp
  then show ?thesis by (simp add: allocator_ok_def)
qed

lemma allocator_step_ok:
  assumes "allocator_step sys st st'" and "system_ok sys" and "allocator_ok st"
  shows "allocator_ok st'"
  using assms
  by (cases rule: allocator_step.cases)
    (auto simp: contents_ok dest: Alloc_allocated AllocRange_allocated(1) Free_ok simp: allocated_def)

lemma reachable_ok:
  assumes "allocator_reachable sys st" and "system_ok sys"
  shows "allocator_ok st"
  using assms
proof (induction rule: allocator_reachable.induct)
  case (initial st)
  then show ?case by (simp add: allocator_ok_def)
next
  case (further st st')
  then show ?case using allocator_step_ok by blast
qed

text \<open>
  C25: In every state that the users of the allocator can reach, different blocks that have been handed
  out share no byte, every block is marked as used in the chunk table of its heap, and between two
  operations no heap is writable, provided that the calls of \<open>libc_mprotect\<close> for heaps succeed, whose
  result \<open>ProtectOSMemory\<close> ignores (\<open>protecting\<close>, which the first state is assumed to be; if they do not, a heap
  can stay writable). It does not matter what \<open>malloc\<close> leaves in a new chunk table, or whether the system
  maps memory. The users take blocks, anywhere or in a range, give them back and write memory; \<open>Realloc\<close>,
  which does not mark the chunks that it adds, is not among the steps.
\<close>

theorem allocator_invariant:
  assumes "system_ok sys" and "allocator_reachable sys st"
  shows "(\<forall>p k q l x. block st p k \<and> block st q l \<and> p \<noteq> q \<longrightarrow> \<not> (in_block p k x \<and> in_block q l x)) \<and>
    (\<forall>a m c p k i. block_in st a m c p k \<and> c \<le> i \<and> i < c + count_at st m c \<longrightarrow>
       chunk_bit (chunk_table m) i) \<and>
    (\<forall>a m. allocators st a = Some m \<longrightarrow> references m = 0 \<and> \<not> heap_writable m)"
proof -
  note ok = reachable_ok [OF assms(2,1)]
  have "chunk_bit (chunk_table m) i" if "block_in st a m c p k" and "c \<le> i" and "i < c + count_at st m c" for a m c p k i
    using header_of_block(5) [OF ok that(1)] that(2,3) by (simp add: block_ok_def)
  moreover have "references m = 0 \<and> \<not> heap_writable m" if "allocators st a = Some m" for a m
    using allocator_ok_resting(1) [OF ok that] by (simp add: resting_def)
  ultimately show ?thesis using blocks_apart [OF ok] by blast
qed

text \<open>A system that gives one heap, wherever it is asked for, and has nothing else mapped nearby.\<close>

definition example_system :: system where
  "example_system =
     \<lparr>mmap = (\<lambda>st sz start. if default_list st = [] \<and> root_list st = [] \<and> sz \<le> 0x100000 \<and> start < 0x7fff00000000
        then Some (if start = 0 then 0x7fff00000000 else start) else None),
      mprotect_ok = (\<lambda>st ptr sz. True),
      malloc_bytes = (\<lambda>st n. replicate n 0),
      new_address = (\<lambda>st. if default_list st = [] \<and> root_list st = [] then Some 0x2000 else None),
      proc_maps = (\<lambda>st. [\<lparr>map_start = 0x10000, map_stop = 0x50000, map_none = False\<rparr>]),
      in_core = (\<lambda>st x. False),
      page_size = 0x1000\<rparr>"

definition example_process :: process where
  "example_process = \<lparr>contents = (\<lambda>x. 0), headers = (\<lambda>x. no_header), allocators = (\<lambda>a. None),
     default_list = [], root_list = [], mprotect_answers = (\<lambda>_. True)\<rparr>"

lemma example_system_ok: "system_ok example_system"
proof -
  have empty: "allocators st a = None" if "allocator_ok st" and "default_list st = []" "root_list st = []" for st a
    using that by (auto simp: allocator_ok_def)
  have page: "page_size example_system = 2 ^ 12" by (simp add: example_system_def)
  have small: "unat start + unat sz < 2 ^ 64" if "sz \<le> 0x100000" and "start \<le> 0x7fff00000000" for start sz :: u64
    using that by (simp add: word_le_nat_alt)
  show ?thesis
    unfolding system_ok_def
  proof (intro conjI allI impI)
    show "\<exists>k. 10 \<le> k \<and> k < 64 \<and> page_size example_system = 2 ^ k"
      using page by (intro exI [of _ 12]) simp
  next
    fix st sz start p
    assume ok: "allocator_ok st" and m: "mmap example_system st sz start = Some p"
    from m have lists: "default_list st = []" "root_list st = []" and sz: "sz \<le> 0x100000" "start < 0x7fff00000000"
      and p: "p = (if start = 0 then 0x7fff00000000 else start)"
      by (auto simp: example_system_def split: if_splits)
    show "p \<noteq> 0" "start \<noteq> 0 \<Longrightarrow> p = start" by (simp_all add: p)
    show "unat p + unat sz < 2 ^ 64" using small [OF sz(1), of p] sz(2) by (auto simp: p)
    fix a n x
    assume "allocators st a = Some n \<and> heap_start n \<noteq> 0 \<and> in_heap n x"
    then show "\<not> x - p < sz" using empty [OF ok lists] by simp
  next
    fix st a
    assume "allocator_ok st" and "new_address example_system st = Some a"
    then show "a \<noteq> 0" "allocators st a = None"
      using empty by (auto simp: example_system_def split: if_splits)
  qed (auto simp: example_system_def aligned_def)
qed

lemma example_reachable: "allocator_reachable sys example_process"
  by (rule initial) (simp_all add: example_process_def protecting_def)

definition after_alloc :: process where
  "after_alloc = snd (sum.projr (Alloc example_system example_process 300))"

lemma example_alloc: "Alloc example_system example_process 300 = Inr (0x7fff00000010, after_alloc)"
proof -
  have "\<not> isl (Alloc example_system example_process 300) \<and>
      fst (sum.projr (Alloc example_system example_process 300)) = 0x7fff00000010" by code_simp
  then show ?thesis unfolding after_alloc_def by (cases "Alloc example_system example_process 300") auto
qed

lemma after_alloc_reachable: "allocator_reachable example_system after_alloc"
  using example_reachable step_Alloc [OF example_alloc] by (rule further)

theorem allocator_invariant_witness:
  "\<not> (\<exists>a m. allocators after_alloc a = Some m \<and> heap_writable m)"
  using allocator_invariant [OF example_system_ok after_alloc_reachable] by blast

text \<open>
  C27: A block that \<open>Alloc\<close> returns has at least the size that was asked for and is new: no byte of it
  belongs to a block that is still in use, and all these blocks remain.
\<close>

theorem Alloc_fresh_block:
  assumes "system_ok sys" and "allocator_reachable sys st"
    and "Alloc sys st sz = Inr (p, st')" and "p \<noteq> 0"
  shows "\<exists>k. unat sz \<le> k \<and> block st' p k \<and>
    (\<forall>q l. block st q l \<longrightarrow> block st' q l \<and> (\<forall>x. \<not> (in_block p k x \<and> in_block q l x)))"
  using anywhere.alloc_fresh [of sys st sz p st'] reachable_ok [OF assms(2,1)] assms
  by (simp add: run_ok_def)

theorem Alloc_fresh_block_witness:
  "\<exists>k. 300 \<le> k \<and> block after_alloc 0x7fff00000010 k"
  using Alloc_fresh_block [OF example_system_ok example_reachable example_alloc] by auto

text \<open>
  C26: What \<open>Alloc\<close> with a range of addresses returns is null or a new block within this range, rounded to
  pages, so that a jump to it reaches it. The block lies in a heap of the list for ranges that is itself
  within the range: one that was there before, or one that the system has mapped at the address it was
  asked for. (It is assumed that the rounded range ends above 64 KB, because otherwise the address asked
  for can be 0, and the system chooses one, and that \<open>libc_mprotect\<close> does not fail for heaps.)
\<close>

theorem AllocRange_in_range:
  assumes "system_ok sys" and "allocator_reachable sys st"
    and "AllocRange sys st sz start stop = Inr (p, st')" and "p \<noteq> 0"
    and "kSmallHeapSize < align_down stop (page_size sys)"
  shows "unat (align_up start (page_size sys)) \<le> unat p \<and>
    unat p + unat sz \<le> unat (align_down stop (page_size sys)) \<and>
    (\<exists>k. unat sz \<le> k \<and> block st' p k) \<and> (\<forall>q l. block st q l \<longrightarrow> block st' q l \<and> q \<noteq> p) \<and>
    (\<exists>a m c k. block_in st' a m c p k \<and> a \<in> set (root_list st') \<and>
       align_up start (page_size sys) \<le> heap_start m \<and>
       heap_start m + heap_size m \<le> align_down stop (page_size sys) \<and>
       (a \<in> set (root_list st) \<or>
        allocators st a = None \<and> mmap sys st (heap_size m) (heap_start m) = Some (heap_start m)))"
  using AllocRange_allocated [OF assms(1) reachable_ok [OF assms(2,1)] assms(3)] assms(4,5)
  by (simp add: between_def allocated_def in_range_heap_def)

definition after_range :: process where
  "after_range = snd (sum.projr (AllocRange example_system example_process 788 0 0x7FFFF800))"

lemma example_range: "AllocRange example_system example_process 788 0 0x7FFFF800 = Inr (0x7ffef010, after_range)"
proof -
  have "\<not> isl (AllocRange example_system example_process 788 0 0x7FFFF800)" by code_simp
  moreover have "fst (sum.projr (AllocRange example_system example_process 788 0 0x7FFFF800)) = 0x7ffef010"
    by code_simp
  ultimately show ?thesis unfolding after_range_def
    by (metis prod.collapse sum.collapse(2))
qed

theorem AllocRange_in_range_witness:
  "\<exists>k. 788 \<le> k \<and> block after_range 0x7ffef010 k"
proof -
  have "kSmallHeapSize < align_down 0x7FFFF800 (page_size example_system)" by code_simp
  with AllocRange_in_range [OF example_system_ok example_reachable example_range] show ?thesis by auto
qed

text \<open>
  C29: \<open>Free\<close> takes back exactly the block it is given, and its heap stays well-formed, with one
  exception: when the block is the last one in the heap of an allocator that is not the default one,
  the allocator deletes itself and the destructor of \<open>ScopedWritableAllocatedMemory\<close> in the same
  function then uses it.
\<close>

theorem Free_takes_back_block:
  assumes "system_ok sys" and "allocator_reachable sys st" and "block_in st a m c p k"
  shows "if (\<forall>d q l. block_in st a m d q l \<longrightarrow> d = c) \<and> \<not> is_default_allocator st a
    then Free st p = Inl UseAfterFree
    else \<exists>st'. Free st p = Inr ((), st') \<and> allocator_ok st' \<and>
      (\<forall>q l. block st' q l \<longleftrightarrow> block st q l \<and> q \<noteq> p)"
  using Free_result [OF reachable_ok [OF assms(2,1)] assms(3)] by (auto split: if_splits)

theorem Free_takes_back_block_witness:
  "\<exists>st'. Free after_alloc 0x7fff00000010 = Inr ((), st') \<and> allocator_ok st'"
proof -
  obtain k where "block after_alloc 0x7fff00000010 k"
    using anywhere.alloc_new [of example_system, OF _ example_alloc] example_system_ok
      reachable_ok [OF example_reachable example_system_ok] by (auto simp: run_ok_def)
  then obtain a m c where b: "block_in after_alloc a m c 0x7fff00000010 k" by (auto simp: block_def)
  have "dom (allocators after_alloc) = {0x2000}"
  proof -
    have "default_list after_alloc = [0x2000]" "root_list after_alloc = []" by code_simp+
    then show ?thesis using reachable_ok [OF after_alloc_reachable example_system_ok]
      unfolding allocator_ok_def by simp
  qed
  then have "a = 0x2000" using b by (auto simp: block_in_def)
  moreover have "is_default_allocator after_alloc 0x2000" by code_simp
  ultimately show ?thesis
    using Free_takes_back_block [OF example_system_ok after_alloc_reachable b] by auto
qed

section \<open>When memory is found\<close>

lemma alloc_first_complete:
  assumes ok: "allocator_ok st" and sub: "set as \<subseteq> dom (allocators st)"
    and usable: "\<And>a m. allocators st a = Some m \<Longrightarrow> heap_start m \<noteq> 0 \<and> chunk_table m \<noteq> []"
  shows "\<exists>p st'. alloc_first suitable st as sz = Inr (p, st')"
  using sub
proof (induction as)
  case Nil
  then show ?case by simp
next
  case (Cons a as)
  then obtain m where m: "allocators st a = Some m" by auto
  have d: "deref st a = Inr m" using m ok by (auto simp: deref_def allocator_ok_def)
  from Cons obtain p st' where rest: "alloc_first suitable st as sz = Inr (p, st')" by auto
  obtain q st1 where q: "DoAlloc st a sz = Inr (q, st1)" "q = 0 \<Longrightarrow> st1 = st"
  proof -
    from DoAlloc_result [OF allocator_ok_resting(1) [OF ok m] allocator_ok_resting(2) [OF ok m], of sz] usable [OF m]
    obtain q st1 where r: "DoAlloc st a sz = Inr (q, st1)" by blast
    from DoAlloc_took [OF ok m r] took_ok(2) [OF ok] have "q = 0 \<Longrightarrow> st1 = st" by blast
    with r show thesis by (rule that)
  qed
  with d rest show ?case by auto
qed

lemma empty_table_run:
  assumes "chunk_table m = replicate k 0" and "n \<le> total_chunks m" and "total_chunks m \<le> 8 * k"
  shows "free_run (chunk_table m) (total_chunks m) n 0"
proof -
  have "\<not> chunk_bit (chunk_table m) i" if "i < n" for i
  proof -
    have "i div 8 < k" using that assms(2,3) by linarith
    then show ?thesis by (simp add: chunk_bit_def assms(1))
  qed
  then show ?thesis using assms(2) by (simp add: free_run_def)
qed

text \<open>
  C30: \<open>Alloc\<close> finds memory: for a size from 1 byte to half a heap, when the system maps a heap, the
  objects can be allocated and the new chunk table is clear, it returns a block and no null pointer,
  whichever blocks have been allocated and freed before. It is assumed that the allocators that there
  are have a mapped heap and a chunk table each: the result of \<open>mmap\<close> and \<open>malloc\<close> for an earlier one was
  not null, which the code does not check, so that \<open>Alloc\<close> uses a null pointer otherwise; and that
  \<open>libc_mprotect\<close> does not fail for heaps.
\<close>

theorem Alloc_succeeds:
  assumes "system_ok sys" and "allocator_reachable sys st" and "0 < sz" and "sz < kHeapSize div 2"
    and "\<And>a m. allocators st a = Some m \<Longrightarrow> heap_start m \<noteq> 0 \<and> chunk_table m \<noteq> []"
    and "AllocOSMemory sys st kHeapSize 0 = (heap, st1)" and "heap \<noteq> 0"
    and "new_address sys st1 \<noteq> None" and "malloc_bytes sys st1 1024 = replicate 1024 0"
  shows "\<exists>p st'. Alloc sys st sz = Inr (p, st') \<and> p \<noteq> 0"
proof -
  note ok = reachable_ok [OF assms(2,1)]
  have "set (default_list st) \<subseteq> dom (allocators st)" using ok by (simp add: allocator_ok_def)
  note sub = this
  obtain q st0 where first: "alloc_first (\<lambda>m. True) st (default_list st) sz = Inr (q, st0)"
    using alloc_first_complete [OF ok sub, of "\<lambda>m. True" sz] assms(5) by blast
  show ?thesis
  proof (cases "q = 0")
    case False
    then show ?thesis using first assms(4) by (simp add: Alloc_def not_le)
  next
    case True
    with alloc_first_took [OF ok sub first] took_ok(2) [OF ok] have st0: "st0 = st" by blast
    obtain a where a: "new_address sys st1 = Some a" using assms(8) by blast
    then obtain st2 where new: "new_Memory sys st1 heap kHeapSize = Inr (a, st2)" by (simp add: new_Memory_def)
    have size: "aligned kHeapSize" "unat kHeapSize \<le> 2 ^ 20" by (simp_all add: aligned_def kHeapSize_def)
    note fresh = new_allocator_ok(1,2) [OF assms(1) ok assms(6) new size, where near = False]
    from fresh(2) obtain m where m: "allocators (linked False a st2) a = Some m"
      "heap_start m = heap" "heap_size m = kHeapSize" by blast
    have table: "chunk_table m = replicate 1024 0"
      using m(1) new a assms(9) by (auto simp: new_Memory_def linked_def kHeapSize_def kChunkSize_def)
    have total: "total_chunks m = 8192" by (simp add: total_chunks_def m(3) kHeapSize_def)
    have sz: "unat sz < 524288" using assms(4) by (simp add: kHeapSize_def word_less_nat_alt)
    have n: "unat (expected_chunk_count sz) \<le> 8192"
    proof -
      have "unat sz \<le> 2 ^ 20" using sz by simp
      from expected_chunks [OF this] sz show ?thesis by simp
    qed
    have big: "\<not> kHeapSize div 2 \<le> sz" using assms(4) by (simp only: not_le)
    have run: "Alloc sys st sz = DoAlloc (linked False a st2) a sz"
      using big first True st0 assms(6) new by (simp add: Alloc_def linked_def)
    have rest: "resting (linked False a st2) a m" using allocator_ok_resting(1) [OF fresh(1) m(1)] .
    have h: "heap_ok (linked False a st2) a m"
      using allocator_ok_resting(2) [OF fresh(1) m(1)] assms(7) by (simp add: m(2))
    have "free_run (chunk_table m) (total_chunks m) (unat (expected_chunk_count sz)) 0"
      using empty_table_run [OF table, of "unat (expected_chunk_count sz)"] n total by simp
    moreover have "sz \<noteq> 0" using assms(3) by auto
    moreover have "\<not> heap_size m < sz" using sz by (simp add: m(3) kHeapSize_def word_less_nat_alt)
    ultimately obtain c k t where p: "DoAlloc (linked False a st2) a sz =
        Inr (chunk_address m c + 16, with_block (linked False a st2) a m c k t)"
      "0 < k" "unat sz + 16 \<le> 128 * k" "fitting_run m k c t"
      using DoAlloc_result [OF rest h, of sz] assms(7) m(2) table by auto
    have "took (linked False a st2) a m sz (chunk_address m c + 16) (with_block (linked False a st2) a m c k t)"
    proof -
      have "heap_start m \<noteq> 0" "chunk_table m \<noteq> []" using m(2) assms(7) table by simp_all
      then show ?thesis unfolding took_def using p(2-4) m(1) by blast
    qed
    from took_ok(2) [OF fresh(1) this] p(1) run show ?thesis by simp
  qed
qed

theorem Alloc_succeeds_witness:
  "\<exists>p st'. Alloc example_system example_process 300 = Inr (p, st') \<and> p \<noteq> 0"
proof (rule Alloc_succeeds [OF example_system_ok example_reachable])
  show "AllocOSMemory example_system example_process kHeapSize 0 =
      (0x7fff00000000, example_process\<lparr>headers := (\<lambda>x. no_header)\<rparr>)"
    by (simp add: AllocOSMemory_def example_system_def example_process_def kHeapSize_def no_header_def fun_eq_iff)
qed (simp_all add: example_process_def example_system_def kHeapSize_def)

end
