(* ===== verification/Allocator_Defects.thy ===== *)
theory Allocator_Defects
  imports Allocator_Correctness
begin

text \<open>
  Defects of the allocator: a block that grows in place is not marked as used, a new chunk table
  is not cleared, and a failing \<open>libc_mprotect\<close> goes unnoticed. (Another one, the use of an allocator after it has deleted itself, is the exception
  in \<open>Free_takes_back_block\<close>.)
\<close>

section \<open>Defects\<close>

lemma unat_ucast_64: "unat (ucast (w :: u32) :: u64) = unat w"
proof -
  have "unat w < 2 ^ 32" using unsigned_less [of w] by simp
  then have "unat w < 2 ^ 64" by simp
  then show ?thesis by (simp add: unsigned_ucast_eq take_bit_nat_eq_self)
qed

lemma any_used_free:
  assumes "\<And>i. i < k \<Longrightarrow> \<not> chunk_bit table (s + i)" and "s + k \<le> 8 * length table"
  shows "any_used table s k = Inr False"
  using assms
proof (induction k arbitrary: s)
  case 0
  then show ?case by simp
next
  case (Suc k)
  from Suc.prems have "test_chunk table s = Inr False" using Suc.prems(1) [of 0] by (simp add: test_chunk_bit)
  moreover have "any_used table (Suc s) k = Inr False"
    by (rule Suc.IH) (use Suc.prems(1) [of "Suc _"] Suc.prems(2) in simp_all)
  ultimately show ?case by simp
qed

lemma rested_more:
  "references m = 0 \<Longrightarrow> \<not> heap_writable m \<Longrightarrow>
   m\<lparr>allocated_chunks := k, references := 0, heap_writable := False\<rparr> = m\<lparr>allocated_chunks := k\<rparr>"
  by (cases m) simp


text \<open>
  \<open>Realloc\<close> that grows a block in place does not mark the chunks it adds: the header counts them,
  but the loop that should mark them runs from the new end of the block to the new end. The block is
  then no longer marked as a whole, and the next allocation may be given a part of it.
\<close>

theorem Realloc_in_place_unmarked:
  assumes "system_ok sys" and "allocator_reachable sys st" and "block_in st a m c p k"
    and "unat sz \<le> 2 ^ 20" and "count_at st m c < unat (expected_chunk_count sz)"
    and "free_run (chunk_table m) (total_chunks m)
      (unat (expected_chunk_count sz) - count_at st m c) (c + count_at st m c)"
  shows "\<exists>st' m'. Realloc st p sz = Inr (p, st') \<and> allocators st' a = Some m' \<and>
    count_at st' m' c = unat (expected_chunk_count sz) \<and> chunk_table m' = chunk_table m \<and>
    \<not> chunk_bit (chunk_table m') (c + count_at st m c) \<and> \<not> allocator_ok st'"
proof -
  note ok = reachable_ok [OF assms(2,1)]
  note h = header_of_block [OF ok assms(3)]
  have protecting_ok: "protecting st" using ok by (simp add: allocator_ok_def)
  let ?n = "count_at st m c" and ?e = "expected_chunk_count sz"
  from assms(3) have m: "allocators st a = Some m" "heap_start m \<noteq> 0" "c < total_chunks m" "0 < ?n"
    by (simp_all add: block_in_def)
  have rest: "resting st a m" using allocator_ok_resting(1) [OF ok m(1)] .
  have r: "references m = 0" "\<not> heap_writable m" using rest by (simp_all add: resting_def)
  have fits: "unat (heap_start m) + unat (heap_size m) < 2 ^ 64" using h(6) by (simp add: heap_ok_def)
  have len: "total_chunks m \<le> 8 * length (chunk_table m)" using h(5,6) by (auto simp: heap_ok_def block_ok_def)
  have run: "c + unat ?e \<le> total_chunks m" and free: "\<And>i. i < unat ?e - ?n \<Longrightarrow> \<not> chunk_bit (chunk_table m) (c + ?n + i)"
    using assms(5,6) by (simp_all add: free_run_def)
  have small: "unat ?e < 2 ^ 32" using expected_chunks [OF assms(4)] assms(4) by simp
  let ?count = "ucast (header_chunk_count (headers st (chunk_address m c))) :: u64"
  have count: "unat ?count = ?n" by (simp add: count_at_def unat_ucast_64)
  have less: "\<not> ?e \<le> ?count" using assms(5) by (simp add: word_le_nat_alt count)
  have start: "unat ((chunk_address m c - heap_start m) div kChunkSize + ?count) = c + ?n"
  proof -
    have "?count = of_nat ?n" by (simp flip: count)
    then have "(chunk_address m c - heap_start m) div kChunkSize + ?count =
        (chunk_address m c - heap_start m) div kChunkSize + of_nat ?n" by simp
    moreover have "unat ((chunk_address m c - heap_start m) div kChunkSize) + ?n < 2 ^ 64"
      unfolding start_chunk [OF fits m(3)] using run assms(5) len h(6)
      by (auto simp: heap_ok_def total_chunks_def)
    ultimately show ?thesis using start_chunk [OF fits m(3)] by (simp only: unat_add_of_nat)
  qed
  have diff: "unat (?e - ?count) = unat ?e - ?n"
    using assms(5) by (simp add: unat_sub word_le_nat_alt count)
  have unused: "any_used (chunk_table m) (c + ?n) (unat ?e - ?n) = Inr False"
    by (rule any_used_free) (use free run len assms(5) in simp_all)
  let ?m = "m\<lparr>allocated_chunks := allocated_chunks m + (?e - ?count)\<rparr>"
  let ?st = "put a ?m (st\<lparr>headers := (headers st)(chunk_address m c :=
    (headers st (chunk_address m c))\<lparr>header_chunk_count := ucast ?e\<rparr>)\<rparr>)"
  have same: "ucast (ucast ?e :: u32) = ?e" by (rule ucast_ucast_small [OF small])
  have "DoRealloc st a p sz = Inr (p, ?st)"
    using less unused m(1,2) h(7) r
    by (simp add: DoRealloc_def scoped_resting [OF rest] deref_def Let_def h(1) start diff write_header_def
        same release_def ProtectOSMemory_succeeds protecting_ok rested_more)
  then have run': "Realloc st p sz = Inr (p, ?st)" by (simp add: Realloc_def h(3,4))
  have cnt: "count_at ?st ?m c = unat ?e"
    using small by (simp add: count_at_def unsigned_ucast_eq take_bit_nat_eq_self)
  have bit: "\<not> chunk_bit (chunk_table m) (c + ?n)" using free [of 0] assms(5) by simp
  have "\<not> allocator_ok ?st"
  proof
    assume "allocator_ok ?st"
    moreover have "allocators ?st a = Some ?m" by simp
    ultimately have "heap_ok ?st a ?m" using allocator_ok_resting(2) m(2) by fastforce
    then have "block_ok ?st a ?m c" using m(3,4) cnt assms(5) by (simp add: heap_ok_def)
    then have "chunk_bit (chunk_table ?m) (c + ?n)" using cnt assms(5) m(4) by (simp add: block_ok_def)
    then show False using bit by simp
  qed
  then show ?thesis using run' cnt bit by (intro exI [of _ ?st] exI [of _ ?m]) simp
qed

definition small_heap :: process where
  "small_heap = snd (sum.projr (AllocRange example_system example_process 300 0 0x9000))"

definition example_memory_object :: Memory where
  "example_memory_object = the (allocators small_heap 0x2000)"

lemma small_heap_values:
  "\<not> isl (AllocRange example_system example_process 300 0 0x9000) \<and>
   fst (sum.projr (AllocRange example_system example_process 300 0 0x9000)) = 0x1010"
  "root_list small_heap = [0x2000] \<and> default_list small_heap = []"
  by code_simp+

lemma example_memory_object_values:
  "heap_start example_memory_object = 0x1000" "total_chunks example_memory_object = 256"
  "count_at small_heap example_memory_object 0 = 3"
  "free_run (chunk_table example_memory_object) (total_chunks example_memory_object) 4 3"
proof -
  have "heap_size example_memory_object = 0x8000" by code_simp
  then show total: "total_chunks example_memory_object = 256" by (simp add: total_chunks_def)
  have table: "chunk_table example_memory_object = 7 # replicate 31 0" by code_simp
  have "free_run (7 # replicate 31 0) 256 4 3" by code_simp
  then show "free_run (chunk_table example_memory_object) (total_chunks example_memory_object) 4 3"
    by (simp only: table total)
qed code_simp+

lemma small_heap_reachable: "allocator_reachable example_system small_heap"
proof -
  have "AllocRange example_system example_process 300 0 0x9000 = Inr (0x1010, small_heap)"
    using small_heap_values(1) unfolding small_heap_def by (metis prod.collapse sum.collapse(2))
  then show ?thesis using example_reachable step_AllocRange further by blast
qed

lemma example_block: "block_in small_heap 0x2000 example_memory_object 0 0x1010 368"
proof -
  have "dom (allocators small_heap) = {0x2000}"
    using reachable_ok [OF small_heap_reachable example_system_ok] small_heap_values(2)
    unfolding allocator_ok_def by simp
  then have "allocators small_heap 0x2000 = Some example_memory_object"
    unfolding example_memory_object_def by force
  then show ?thesis
    using example_memory_object_values by (simp add: block_in_def chunk_address_def)
qed

theorem Realloc_in_place_unmarked_witness:
  "\<exists>st'. Realloc small_heap 0x1010 800 = Inr (0x1010, st') \<and> \<not> allocator_ok st'"
proof -
  have "unat (expected_chunk_count 800) = 7" by (simp add: expected_chunks)
  then show ?thesis
    using Realloc_in_place_unmarked [OF example_system_ok small_heap_reachable example_block, of 800]
      example_memory_object_values by auto
qed

text \<open>
  The chunk table of a new heap is what \<open>malloc\<close> returns, which is not cleared. If it happens to
  have all bits set, \<open>Alloc\<close> maps a heap, keeps it and returns null, although no block is in use; every
  further call does the same.
\<close>

theorem Alloc_uninitialised_table:
  assumes "system_ok sys" and "allocator_reachable sys st" and "default_list st = []" and "sz < kHeapSize div 2"
    and "AllocOSMemory sys st kHeapSize 0 = (heap, st1)" and "heap \<noteq> 0"
    and "new_address sys st1 = Some a" and "malloc_bytes sys st1 1024 = replicate 1024 255"
  shows "\<exists>st'. Alloc sys st sz = Inr (0, st') \<and> default_list st' = [a] \<and> allocators st' a \<noteq> None"
proof -
  note ok = reachable_ok [OF assms(2,1)]
  obtain st2 where new: "new_Memory sys st1 heap kHeapSize = Inr (a, st2)"
    using assms(7) by (simp add: new_Memory_def)
  have size: "aligned kHeapSize" "unat kHeapSize \<le> 2 ^ 20" by (simp_all add: aligned_def kHeapSize_def)
  note fresh = new_allocator_ok(1,2) [OF assms(1) ok assms(5) new size, where near = False]
  from fresh(2) obtain m where m: "allocators (linked False a st2) a = Some m"
    "heap_start m = heap" "heap_size m = kHeapSize" by blast
  have table: "chunk_table m = replicate 1024 255"
    using m(1) new assms(7,8) by (auto simp: new_Memory_def linked_def kHeapSize_def kChunkSize_def)
  have big: "\<not> kHeapSize div 2 \<le> sz" using assms(4) by (simp only: not_le)
  have run: "Alloc sys st sz = DoAlloc (linked False a st2) a sz"
    using assms(3,5) big new by (simp add: Alloc_def linked_def)
  have total: "total_chunks m = 8192" by (simp add: total_chunks_def m(3) kHeapSize_def)
  have full: "\<not> free_run (chunk_table m) (total_chunks m) n c" if "0 < n" for n c
  proof
    assume f: "free_run (chunk_table m) (total_chunks m) n c"
    then have "c div 8 < 1024" using that unfolding free_run_def total by linarith
    moreover have "bit (255 :: u8) (c mod 8)"
    proof -
      have "(255 :: u8) = mask 8" by (simp add: mask_numeral)
      then show ?thesis by (simp only: bit_mask_iff) simp
    qed
    ultimately have "chunk_bit (chunk_table m) (c + 0)" by (simp add: chunk_bit_def table)
    with f that show False unfolding free_run_def by blast
  qed
  from DoAlloc_result [OF allocator_ok_resting(1) [OF fresh(1) m(1)] allocator_ok_resting(2) [OF fresh(1) m(1)], of sz]
    full assms(6) m(2) table have "DoAlloc (linked False a st2) a sz = Inr (0, linked False a st2)"
    by (auto simp: fitting_run_def)
  moreover have "default_list st1 = []"
    using AllocOSMemory_cases [OF assms(1) ok assms(5)] assms(3) by auto
  then have "default_list (linked False a st2) = [a]"
    using new assms(7) by (auto simp: new_Memory_def linked_def)
  ultimately show ?thesis using run m(1) by auto
qed

definition dirty_system :: system where
  "dirty_system = example_system\<lparr>malloc_bytes := (\<lambda>st n. replicate n 255)\<rparr>"

lemma dirty_system_ok: "system_ok dirty_system"
  using example_system_ok by (simp add: system_ok_def dirty_system_def)

theorem Alloc_uninitialised_table_witness:
  "\<exists>st'. Alloc dirty_system example_process 300 = Inr (0, st') \<and> default_list st' = [0x2000]"
proof -
  have "AllocOSMemory dirty_system example_process kHeapSize 0 =
      (0x7fff00000000, example_process\<lparr>headers := (\<lambda>x. no_header)\<rparr>)"
    by (simp add: AllocOSMemory_def dirty_system_def example_system_def example_process_def kHeapSize_def
        no_header_def fun_eq_iff)
  from Alloc_uninitialised_table [OF dirty_system_ok example_reachable _ _ this, of 300 "0x2000"]
  show ?thesis by (auto simp: example_process_def dirty_system_def example_system_def kHeapSize_def)
qed

text \<open>
  \<open>ProtectOSMemory\<close> ignores the result of \<open>libc_mprotect\<close>. When the call at the end of a scope fails, the
  heap is writable between two operations; when the one at the beginning fails, the header of the new
  block is written to a heap that is not writable, which is a fault of the process.
\<close>

lemma failing_mprotect:
  "map_option heap_writable (allocators (snd (sum.projr
     (Alloc example_system (example_process\<lparr>mprotect_answers := (\<lambda>n. n = 0)\<rparr>) 300))) 0x2000) = Some True"
  "Alloc example_system (example_process\<lparr>mprotect_answers := (\<lambda>n. False)\<rparr>) 300 = Inl WriteProtected"
proof -
  show "map_option heap_writable (allocators (snd (sum.projr
     (Alloc example_system (example_process\<lparr>mprotect_answers := (\<lambda>n. n = 0)\<rparr>) 300))) 0x2000) = Some True"
    by code_simp
  have "case Alloc example_system (example_process\<lparr>mprotect_answers := (\<lambda>n. False)\<rparr>) 300 of
      Inl e \<Rightarrow> e = WriteProtected | Inr r \<Rightarrow> False" by code_simp
  then show "Alloc example_system (example_process\<lparr>mprotect_answers := (\<lambda>n. False)\<rparr>) 300 = Inl WriteProtected"
    by (simp split: sum.splits)
qed

end
