(* ===== verification/Library_State.thy ===== *)
theory Library_State
  imports Allocator_Operations Trampoline Machine Logger
begin

text \<open>
  The state of the library behind its public functions, and how its objects are reached: the memory
  of the process with the allocator (\<open>Memory_Allocator\<close>), the objects \<open>HookInfo\<close> and \<open>HookHandleExt\<close> of
  \<open>core/hook_handle.h\<close>, the static variables of \<open>core/hook_handle.cc\<close>, \<open>core/rv64hook.cc\<close> and
  \<open>core/logger.cc\<close>, and the depth of the recursive lock.

  A pointer is an address and null is 0; an object that \<open>new\<close> has made is in a store under its address
  until \<open>delete\<close>, and using it afterwards is a fault. \<open>TrampolineData\<close> and the variables of the user lie
  in the memory of the process, byte by byte. A heap of the allocator that is not writable faults on
  a store.
\<close>

section \<open>Objects and static variables\<close>

text \<open>\<open>HookHandleExt\<close> with the members of its base class \<open>HookHandle\<close>.\<close>

record HookHandleExt =
  handle_address :: u64
  handle_backup :: u64
  handle_info :: u64
  previous_handle :: u64
  next_handle :: u64
  hook_function :: u64
  pre_handler :: u64
  post_handler :: u64
  user_data :: u64
  user_backup_addr :: u64
  handle_enabled :: bool

record HookInfo =
  info_address :: u64
  info_root :: u64
  info_trampoline :: u64
  custom_free :: u64
  custom_data :: u64
  relocated :: u64
  handle_count :: u16
  function_backup_size :: u8
  function_backup :: "u8 list"

record FunctionRecord =
  record_address :: u64
  backup_trampoline :: u64
  original_function_hash :: u16
  overwrite_size :: u8
  record_backup :: "u8 list"

record TrampolineAllocator =
  allocator_type :: TrampolineType
  custom_alloc_function :: u64
  custom_free_function :: u64
  allocator_data :: u64

record library =
  heap :: process
  handles :: "u64 \<Rightarrow> HookHandleExt option"
  infos :: "u64 \<Rightarrow> HookInfo option"
  hooks_map :: "u64 \<Rightarrow> u64 option"
  function_records :: "u64 \<Rightarrow> FunctionRecord option"
  trampoline_allocator :: TrampolineAllocator
  errors :: Logger
  tls_keys :: "u32 list"
  lock_depth :: nat

text \<open>
  What is outside the library: the system under the allocator, the variant of \<open>Memory::Copy\<close> and
  whether it can read a range, what memory holds that was never written, \<open>operator new\<close>, the keys and
  the two functions of the thread library, and the functions of a custom allocator.
\<close>

record environment =
  memory_system :: system
  copy_platform :: platform
  readable :: "memory \<Rightarrow> u64 \<Rightarrow> nat \<Rightarrow> bool"
  uninitialised :: "library \<Rightarrow> nat \<Rightarrow> u8 list"
  new_object :: "library \<Rightarrow> u64 option"
  key_create :: "library \<Rightarrow> u32 option"
  pthread_getspecific :: u64
  pthread_setspecific :: u64
  call_custom_alloc :: "u64 \<Rightarrow> u64 \<Rightarrow> u64 \<Rightarrow> u64 \<Rightarrow> process \<Rightarrow> u64 \<times> process"
  call_custom_free :: "u64 \<Rightarrow> u64 \<Rightarrow> u64 \<Rightarrow> process \<Rightarrow> process"

abbreviation bytes_in :: "library \<Rightarrow> memory" where
  "bytes_in st \<equiv> contents (heap st)"

definition with_contents :: "memory \<Rightarrow> library \<Rightarrow> library" where
  "with_contents mem st = st\<lparr>heap := (heap st)\<lparr>contents := mem\<rparr>\<rparr>"

definition set_error :: "string \<Rightarrow> string \<Rightarrow> library \<Rightarrow> library" where
  "set_error tag' message st = st\<lparr>errors := SetError tag' message [] (errors st)\<rparr>"

text \<open>The block in which a \<open>HookLocker\<close> lives; the thread that runs it owns the mutex.\<close>

definition locked :: "library \<Rightarrow> (library \<Rightarrow> ('a \<times> library) result) \<Rightarrow> ('a \<times> library) result" where
  "locked st body =
     bnd (body (st\<lparr>lock_depth := lock_depth st + 1\<rparr>)) (\<lambda>(x, st).
     Inr (x, st\<lparr>lock_depth := lock_depth st - 1\<rparr>))"

section \<open>Reaching objects\<close>

definition object_at :: "(u64 \<Rightarrow> 'a option) \<Rightarrow> u64 \<Rightarrow> 'a result" where
  "object_at store p =
     (if p = 0 then Inl NullPointer
      else case store p of None \<Rightarrow> Inl UseAfterFree | Some x \<Rightarrow> Inr x)"

text \<open>\<open>operator new\<close>; nothing catches the exception that it throws when there is no memory.\<close>

definition new_at :: "environment \<Rightarrow> library \<Rightarrow> u64 result" where
  "new_at env st = (case new_object env st of None \<Rightarrow> Inl Aborted | Some p \<Rightarrow> Inr p)"

definition update_handle :: "u64 \<Rightarrow> (HookHandleExt \<Rightarrow> HookHandleExt) \<Rightarrow> library \<Rightarrow> library result" where
  "update_handle p f st =
     bnd (object_at (handles st) p) (\<lambda>h. Inr (st\<lparr>handles := (handles st)(p \<mapsto> f h)\<rparr>))"

definition update_info :: "u64 \<Rightarrow> (HookInfo \<Rightarrow> HookInfo) \<Rightarrow> library \<Rightarrow> library result" where
  "update_info p f st =
     bnd (object_at (infos st) p) (\<lambda>i. Inr (st\<lparr>infos := (infos st)(p \<mapsto> f i)\<rparr>))"

definition delete_handle :: "u64 \<Rightarrow> library \<Rightarrow> library" where
  "delete_handle p st = st\<lparr>handles := (handles st)(p := None)\<rparr>"

section \<open>Reaching memory\<close>

definition write_protected :: "process \<Rightarrow> u64 \<Rightarrow> bool" where
  "write_protected p x \<longleftrightarrow> list_ex (\<lambda>a. case allocators p a of
       None \<Rightarrow> False
     | Some m \<Rightarrow> heap_start m \<noteq> 0 \<and> x - heap_start m < heap_size m \<and> \<not> heap_writable m)
     (default_list p @ root_list p)"

definition store_bytes :: "u64 \<Rightarrow> u8 list \<Rightarrow> library \<Rightarrow> library result" where
  "store_bytes a bs st =
     (if list_ex (\<lambda>i. write_protected (heap st) (a + of_nat i)) [0..<length bs] then Inl WriteProtected
      else Inr (with_contents (write_bytes (bytes_in st) a bs) st))"

text \<open>A scope of \<open>ScopedWritableAllocatedMemory\<close> for a block of the allocator, or for null.\<close>

definition in_scope ::
  "library \<Rightarrow> u64 \<Rightarrow> (library \<Rightarrow> ('a \<times> library) result) \<Rightarrow> ('a \<times> library) result" where
  "in_scope st ptr body =
     (case GetMemoryHeader (heap st) ptr of
        None \<Rightarrow> body st
      | Some header \<Rightarrow>
          bnd (acquire (heap st) (header_allocator header)) (\<lambda>p.
          bnd (body (st\<lparr>heap := p\<rparr>)) (\<lambda>(x, st).
          bnd (release (heap st) (header_allocator header)) (\<lambda>p.
          Inr (x, st\<lparr>heap := p\<rparr>)))))"

text \<open>\<open>Memory::Copy\<close> out of the memory of the process: the bytes, unless they cannot be read.\<close>

definition copy_from :: "environment \<Rightarrow> library \<Rightarrow> u64 \<Rightarrow> nat \<Rightarrow> u8 list option" where
  "copy_from env st address n =
     (if use_process_vm (copy_platform env) \<and> \<not> readable env (bytes_in st) address n then None
      else Some (read_bytes (bytes_in st) address n))"

definition copy_to :: "environment \<Rightarrow> u64 \<Rightarrow> u8 list \<Rightarrow> library \<Rightarrow> bool \<times> library" where
  "copy_to env address bs st =
     (let (ok, mem) = Memory_Copy (copy_platform env) (bytes_in st) address bs in (ok, with_contents mem st))"

section \<open>The members of \<open>TrampolineData\<close>\<close>

text \<open>The object at an address, read member by member.\<close>

definition TrampolineData_at :: "memory \<Rightarrow> u64 \<Rightarrow> TrampolineData" where
  "TrampolineData_at mem a =
     \<lparr>root_handle = load64 mem a, hook = load64 mem (a + 8), backup = load64 mem (a + 16),
      getspecific = load64 mem (a + 24), setspecific = load64 mem (a + 32), tls_key = load32 mem (a + 40),
      post_handlers = load16 mem (a + 44), enabled = (mem (a + 46) \<noteq> 0)\<rparr>"

definition set_root :: "u64 \<Rightarrow> u64 \<Rightarrow> library \<Rightarrow> library result" where
  "set_root td v = store_bytes td (bytes_of 8 v)"
definition set_hook :: "u64 \<Rightarrow> u64 \<Rightarrow> library \<Rightarrow> library result" where
  "set_hook td v = store_bytes (td + 8) (bytes_of 8 v)"
definition set_backup :: "u64 \<Rightarrow> u64 \<Rightarrow> library \<Rightarrow> library result" where
  "set_backup td v = store_bytes (td + 16) (bytes_of 8 v)"
definition set_getspecific :: "u64 \<Rightarrow> u64 \<Rightarrow> library \<Rightarrow> library result" where
  "set_getspecific td v = store_bytes (td + 24) (bytes_of 8 v)"
definition set_setspecific :: "u64 \<Rightarrow> u64 \<Rightarrow> library \<Rightarrow> library result" where
  "set_setspecific td v = store_bytes (td + 32) (bytes_of 8 v)"
definition set_tls_key :: "u64 \<Rightarrow> u32 \<Rightarrow> library \<Rightarrow> library result" where
  "set_tls_key td v = store_bytes (td + 40) (bytes_of 4 v)"
definition set_post_handlers :: "u64 \<Rightarrow> u16 \<Rightarrow> library \<Rightarrow> library result" where
  "set_post_handlers td v = store_bytes (td + 44) (bytes_of 2 v)"
definition set_enabled :: "u64 \<Rightarrow> bool \<Rightarrow> library \<Rightarrow> library result" where
  "set_enabled td v = store_bytes (td + 46) [if v then 1 else 0]"

end
