(* ===== verification/Hook_Handles.thy ===== *)
theory Hook_Handles
  imports Library_State
begin

text \<open>
  \<open>HookInfo\<close> and \<open>HookHandleExt\<close> of \<open>core/hook_handle.cc\<close>: the hooks of one function, a list of
  handles that are linked by \<open>next_\<close> and \<open>previous_\<close>, and the data of its second trampoline, which
  follows them.

  A loop over the list has as fuel the greatest number of handles a function can have; it runs out
  of it only on a list that is not well-formed.
\<close>

definition kMaxHandles :: nat where "kMaxHandles = 0x10000"

section \<open>Making objects\<close>

definition Lookup :: "library \<Rightarrow> u64 \<Rightarrow> u64" where
  "Lookup st func = (case hooks_map st func of None \<Rightarrow> 0 | Some info \<Rightarrow> info)"

text \<open>
  The members \<open>custom_data\<close> without a custom allocator and the rest of \<open>function_backup\<close> are not
  initialised; the copy cannot be read in part.
\<close>

definition Create :: "environment \<Rightarrow> library \<Rightarrow> u64 \<Rightarrow> u64 \<Rightarrow> bool \<Rightarrow> u64 \<Rightarrow> u8 \<Rightarrow> (u64 \<times> library) result" where
  "Create env st address trampoline is_user_alloc relocated' size' =
     bnd (new_at env st) (\<lambda>info.
     let ta = trampoline_allocator st;
          bytes = (case copy_from env st address (unat size') of
                     None \<Rightarrow> uninitialised env st (unat size') | Some bs \<Rightarrow> bs);
          object = \<lparr>info_address = address, info_root = 0, info_trampoline = trampoline,
                    custom_free = (if is_user_alloc then custom_free_function ta else 0),
                    custom_data = (if is_user_alloc then allocator_data ta
                                   else word_of_bytes (uninitialised env st 8)),
                    relocated = relocated', handle_count = 0, function_backup_size = size',
                    function_backup = bytes\<rparr>;
          hooks' = (case hooks_map st address of
                      None \<Rightarrow> (hooks_map st)(address \<mapsto> info) | Some _ \<Rightarrow> hooks_map st)
      in Inr (info, st\<lparr>infos := (infos st)(info \<mapsto> object), hooks_map := hooks'\<rparr>))"

definition new_HookHandleExt ::
  "u64 \<Rightarrow> u64 \<Rightarrow> u64 \<Rightarrow> u64 \<Rightarrow> u64 \<Rightarrow> u64 \<Rightarrow> u64 \<Rightarrow> HookHandleExt" where
  "new_HookHandleExt info address hook' pre post data' user_backup =
     \<lparr>handle_address = address, handle_backup = 0, handle_info = info, previous_handle = 0,
      next_handle = 0, hook_function = hook', pre_handler = pre, post_handler = post,
      user_data = data', user_backup_addr = user_backup, handle_enabled = True\<rparr>"

section \<open>Adding a handle\<close>

text \<open>The loop to the end of the list: the last handle and the last function that hooks.\<close>

primrec find_last :: "nat \<Rightarrow> library \<Rightarrow> u64 \<Rightarrow> u64 \<Rightarrow> (u64 \<times> u64) result" where
  "find_last 0 st handle backup' = Inl OutOfFuel"
| "find_last (Suc n) st handle backup' =
     bnd (object_at (handles st) handle) (\<lambda>h.
     let backup'' = (if hook_function h \<noteq> 0 then hook_function h else backup') in
     if next_handle h = 0 then Inr (handle, backup'') else find_last n st (next_handle h) backup'')"

definition append_handle ::
  "library \<Rightarrow> HookInfo \<Rightarrow> u64 \<Rightarrow> u64 \<Rightarrow> u64 \<Rightarrow> u64 \<Rightarrow> u64 \<Rightarrow> library result" where
  "append_handle st info td handle hook' post user_backup =
     bnd (find_last kMaxHandles st (info_root info) (relocated info)) (\<lambda>(last', backup').
     bnd (update_handle last' (\<lambda>h. h\<lparr>next_handle := handle\<rparr>) st) (\<lambda>st.
     bnd (update_handle handle (\<lambda>h. h\<lparr>previous_handle := last'\<rparr>) st) (\<lambda>st.
     bnd (update_handle handle (\<lambda>h. h\<lparr>handle_backup := backup'\<rparr>) st) (\<lambda>st.
     bnd (if user_backup \<noteq> 0 then store_bytes user_backup (bytes_of 8 backup') st else Inr st) (\<lambda>st.
     if hook' \<noteq> 0 then
       (if hook (TrampolineData_at (bytes_in st) td) \<noteq> 0 then set_hook td hook' st
        else set_backup td hook' st)
     else
       bnd (set_hook td 0 st) (\<lambda>st.
       bnd (set_backup td backup' st) (\<lambda>st.
       if post \<noteq> 0 then
         set_post_handlers td (post_handlers (TrampolineData_at (bytes_in st) td) + 1) st
       else Inr st)))))))"

text \<open>\<open>STORE_RETURN_ADDRESS_BY_TLS\<close> is 1 in \<open>config.h\<close>.\<close>

definition create_key :: "environment \<Rightarrow> u64 \<Rightarrow> library \<Rightarrow> library result" where
  "create_key env td st =
     (case key_create env st of
        None \<Rightarrow> Inr st
      | Some key \<Rightarrow>
          bnd (set_tls_key td key (st\<lparr>tls_keys := key # tls_keys st\<rparr>)) (\<lambda>st.
          bnd (set_getspecific td (pthread_getspecific env) st) (\<lambda>st.
          set_setspecific td (pthread_setspecific env) st)))"

definition first_handle ::
  "environment \<Rightarrow> library \<Rightarrow> u64 \<Rightarrow> u64 \<Rightarrow> u64 \<Rightarrow> u64 \<Rightarrow> u64 \<Rightarrow> u64 \<Rightarrow> u64 \<Rightarrow> library result" where
  "first_handle env st info relocated' td handle hook' post user_backup =
     bnd (update_info info (\<lambda>i. i\<lparr>info_root := handle\<rparr>) st) (\<lambda>st.
     bnd (set_root td handle st) (\<lambda>st.
     bnd (update_handle handle (\<lambda>h. h\<lparr>handle_backup := relocated'\<rparr>) st) (\<lambda>st.
     bnd (create_key env td st) (\<lambda>st.
     bnd (if user_backup \<noteq> 0 then store_bytes user_backup (bytes_of 8 relocated') st else Inr st) (\<lambda>st.
     bnd (if hook' \<noteq> 0 then set_hook td hook' st
          else bnd (set_backup td relocated' st) (\<lambda>st.
               if post \<noteq> 0 then set_post_handlers td 1 st else Inr st)) (\<lambda>st.
     set_enabled td True st))))))"

definition scope_block :: "HookInfo \<Rightarrow> u64" where
  "scope_block info = (if custom_free info \<noteq> 0 then 0 else info_trampoline info)"

definition add_handle ::
  "environment \<Rightarrow> u64 \<Rightarrow> HookInfo \<Rightarrow> u64 \<Rightarrow> u64 \<Rightarrow> u64 \<Rightarrow> u64 \<Rightarrow> u64 \<Rightarrow> library \<Rightarrow> (u64 \<times> library) result" where
  "add_handle env this info hook' pre post data' user_backup st =
     (let td = GetTrampolineData (info_trampoline info) in
      bnd (new_at env st) (\<lambda>handle.
      let object = new_HookHandleExt this (info_address info) hook' pre post data' user_backup in
      bnd (update_info this (\<lambda>i. i\<lparr>handle_count := handle_count i + 1\<rparr>)
             (st\<lparr>handles := (handles st)(handle \<mapsto> object)\<rparr>)) (\<lambda>st.
      bnd (if info_root info \<noteq> 0 then append_handle st info td handle hook' post user_backup
           else first_handle env st this (relocated info) td handle hook' post user_backup) (\<lambda>st.
      Inr (handle, st)))))"

definition NewHookHandle ::
  "environment \<Rightarrow> library \<Rightarrow> u64 \<Rightarrow> u64 \<Rightarrow> u64 \<Rightarrow> u64 \<Rightarrow> u64 \<Rightarrow> u64 \<Rightarrow> (u64 \<times> library) result" where
  "NewHookHandle env st this hook' pre post data' user_backup =
     bnd (object_at (infos st) this) (\<lambda>info.
     in_scope st (scope_block info) (add_handle env this info hook' pre post data' user_backup))"

section \<open>Switching hooks on and off\<close>

definition SetEnabledExt :: "library \<Rightarrow> u64 \<Rightarrow> bool \<Rightarrow> (bool \<times> library) result" where
  "SetEnabledExt st this enabled' =
     bnd (object_at (handles st) this) (\<lambda>h.
     bnd (update_handle this (\<lambda>h. h\<lparr>handle_enabled := enabled'\<rparr>) st) (\<lambda>st.
     Inr (handle_enabled h, st)))"

definition SetEnabledAllExt :: "library \<Rightarrow> u64 \<Rightarrow> bool \<Rightarrow> (bool \<times> library) result" where
  "SetEnabledAllExt st this enabled' =
     bnd (object_at (handles st) this) (\<lambda>h.
     if handle_info h = 0 then Inr (False, st)
     else bnd (object_at (infos st) (handle_info h)) (\<lambda>info.
       in_scope st (scope_block info) (\<lambda>st.
       let td = GetTrampolineData (info_trampoline info);
           old = enabled (TrampolineData_at (bytes_in st) td)
       in bnd (set_enabled td enabled' st) (\<lambda>st. Inr (old, st)))))"

section \<open>Removing handles\<close>

definition UpdateBackup :: "u64 \<Rightarrow> u64 \<Rightarrow> library \<Rightarrow> library result" where
  "UpdateBackup this new_backup st =
     bnd (object_at (handles st) this) (\<lambda>h.
     bnd (if user_backup_addr h \<noteq> 0 then
            if load64 (bytes_in st) (user_backup_addr h) = handle_backup h
            then store_bytes (user_backup_addr h) (bytes_of 8 new_backup) st
            else update_handle this (\<lambda>h. h\<lparr>user_backup_addr := 0\<rparr>) st
          else Inr st) (\<lambda>st.
     update_handle this (\<lambda>h. h\<lparr>handle_backup := new_backup\<rparr>) st))"

text \<open>\<open>HookInfo::Unhook\<close>: the entry of the map that is erased is the one whose key is the object.\<close>

definition HookInfo_Unhook :: "environment \<Rightarrow> bool \<Rightarrow> u64 \<Rightarrow> library \<Rightarrow> library result" where
  "HookInfo_Unhook env initialized this st =
     bnd (object_at (infos st) this) (\<lambda>info.
     let st = (if initialized then snd (copy_to env (info_address info) (function_backup info) st) else st);
         td = TrampolineData_at (bytes_in st) (GetTrampolineData (info_trampoline info));
         st = (if getspecific td \<noteq> 0 then st\<lparr>tls_keys := remove1 (tls_key td) (tls_keys st)\<rparr> else st)
     in bnd (if custom_free info \<noteq> 0
             then Inr ((), call_custom_free env (custom_free info) (info_trampoline info)
                             (custom_data info) (heap st))
             else Free (heap st) (info_trampoline info)) (\<lambda>(_, p).
        bnd (Free p (relocated info)) (\<lambda>(_, p).
        Inr (st\<lparr>heap := p, hooks_map := (hooks_map st)(this := None)\<rparr>))))"

primrec find_previous_hook :: "nat \<Rightarrow> library \<Rightarrow> u64 \<Rightarrow> u64 result" where
  "find_previous_hook 0 st handle = Inl OutOfFuel"
| "find_previous_hook (Suc n) st handle =
     (if handle = 0 then Inr 0
      else bnd (object_at (handles st) handle) (\<lambda>h.
           if hook_function h = 0 then find_previous_hook n st (previous_handle h)
           else Inr (hook_function h)))"

primrec update_following :: "nat \<Rightarrow> u64 \<Rightarrow> u64 \<Rightarrow> library \<Rightarrow> library result" where
  "update_following 0 handle new_backup st = Inl OutOfFuel"
| "update_following (Suc n) handle new_backup st =
     (if handle = 0 then Inr st
      else bnd (UpdateBackup handle new_backup st) (\<lambda>st.
           bnd (object_at (handles st) handle) (\<lambda>h.
           if hook_function h \<noteq> 0 then Inr st
           else update_following n (next_handle h) new_backup st)))"

definition remove_handle :: "HookInfo \<Rightarrow> u64 \<Rightarrow> library \<Rightarrow> library result" where
  "remove_handle info this st =
     bnd (object_at (handles st) this) (\<lambda>h.
     let td = GetTrampolineData (info_trampoline info) in
     bnd (if post_handler h \<noteq> 0 then
            set_post_handlers td (post_handlers (TrampolineData_at (bytes_in st) td) - 1) st
          else Inr st) (\<lambda>st.
     bnd (if info_root info = this then
            bnd (update_info (handle_info h) (\<lambda>i. i\<lparr>info_root := next_handle h\<rparr>) st)
              (set_root td (next_handle h))
          else Inr st) (\<lambda>st.
     bnd (find_previous_hook kMaxHandles st (previous_handle h)) (\<lambda>previous_hook.
     let new_backup = (if previous_hook \<noteq> 0 then previous_hook else relocated info) in
     bnd (update_following kMaxHandles (next_handle h) new_backup st) (\<lambda>st.
     bnd (if hook_function h \<noteq> 0 then
            bnd (if hook (TrampolineData_at (bytes_in st) td) = hook_function h
                 then set_hook td previous_hook st else Inr st) (\<lambda>st.
            if backup (TrampolineData_at (bytes_in st) td) = hook_function h
            then set_backup td new_backup st else Inr st)
          else Inr st) (\<lambda>st.
     bnd (if previous_handle h \<noteq> 0
          then update_handle (previous_handle h) (\<lambda>p. p\<lparr>next_handle := next_handle h\<rparr>) st
          else Inr st) (\<lambda>st.
     bnd (update_handle this (\<lambda>h. h\<lparr>handle_info := 0\<rparr>) st) (\<lambda>st.
     Inr (delete_handle this st)))))))))"

definition UnhookExt :: "environment \<Rightarrow> library \<Rightarrow> u64 \<Rightarrow> (bool \<times> library) result" where
  "UnhookExt env st this =
     bnd (object_at (handles st) this) (\<lambda>h.
     if handle_info h = 0 then Inr (False, st)
     else bnd (object_at (infos st) (handle_info h)) (\<lambda>info.
       if handle_count info = 1 then
         bnd (HookInfo_Unhook env True (handle_info h) (delete_handle this st)) (\<lambda>st. Inr (True, st))
       else
         bnd (update_info (handle_info h) (\<lambda>i. i\<lparr>handle_count := handle_count i - 1\<rparr>) st) (\<lambda>st.
         in_scope st (scope_block info) (\<lambda>st.
         bnd (remove_handle info this st) (\<lambda>st. Inr (True, st))))))"

primrec delete_from :: "nat \<Rightarrow> u64 \<Rightarrow> library \<Rightarrow> library result" where
  "delete_from 0 handle st = Inl OutOfFuel"
| "delete_from (Suc n) handle st =
     bnd (object_at (handles st) handle) (\<lambda>h.
     if next_handle h = 0 then Inr (delete_handle handle st)
     else delete_from n (next_handle h) (delete_handle handle st))"

definition UnhookAllExt :: "environment \<Rightarrow> library \<Rightarrow> u64 \<Rightarrow> (bool \<times> library) result" where
  "UnhookAllExt env st this =
     bnd (object_at (handles st) this) (\<lambda>h.
     if handle_info h = 0 then Inr (False, st)
     else bnd (object_at (infos st) (handle_info h)) (\<lambda>info.
       bnd (delete_from kMaxHandles (info_root info) st) (\<lambda>st.
       bnd (HookInfo_Unhook env True (handle_info h) st) (\<lambda>st.
       Inr (True, st)))))"

section \<open>The methods of \<open>HookHandle\<close>\<close>

definition clear_error :: "library \<Rightarrow> library" where
  "clear_error st = st\<lparr>errors := ClearError (errors st)\<rparr>"

definition HookHandle_SetEnabled :: "library \<Rightarrow> u64 \<Rightarrow> bool \<Rightarrow> (bool \<times> library) result" where
  "HookHandle_SetEnabled = SetEnabledExt"

definition HookHandle_SetEnabledAll :: "library \<Rightarrow> u64 \<Rightarrow> bool \<Rightarrow> (bool \<times> library) result" where
  "HookHandle_SetEnabledAll = SetEnabledAllExt"

definition HookHandle_Unhook :: "environment \<Rightarrow> library \<Rightarrow> u64 \<Rightarrow> (bool \<times> library) result" where
  "HookHandle_Unhook env st this = locked st (\<lambda>st. UnhookExt env (clear_error st) this)"

definition HookHandle_UnhookAll :: "environment \<Rightarrow> library \<Rightarrow> u64 \<Rightarrow> (bool \<times> library) result" where
  "HookHandle_UnhookAll env st this = locked st (\<lambda>st. UnhookAllExt env (clear_error st) this)"

end
