(* ===== verification/Hook_Scopes.thy ===== *)
theory Hook_Scopes
  imports Hook_Handles
begin

text \<open>
  What the proofs about hooks share: reading memory after a store to another place, reading a member
  of \<open>TrampolineData\<close> after a store to one, and the scopes in which the heap of a second trampoline is
  writable.
\<close>

section \<open>Stores to other places\<close>

text \<open>Two ranges of the address space, which may wrap around, without a common address.\<close>

definition apart :: "u64 \<Rightarrow> nat \<Rightarrow> u64 \<Rightarrow> nat \<Rightarrow> bool" where
  "apart a n b m \<longleftrightarrow> n \<le> unat (b - a) \<and> m \<le> unat (a - b)"

lemma apart_sym: "apart a n b m \<Longrightarrow> apart b m a n"
  by (simp add: apart_def)

lemma unat_64: "unat (w :: u64) < 2 ^ 64"
  by (rule order_less_le_trans [OF unsigned_less]) simp

lemma unat_neg_diff:
  assumes "a \<noteq> b"
  shows "unat (a - b :: u64) + unat (b - a) = 2 ^ 64"
proof -
  have "unat ((a - b) + (b - a)) = 0" by simp
  then have "unat (a - b) + unat (b - a) < 2 ^ 64 \<and> unat (a - b) + unat (b - a) = 0 \<or>
      2 ^ 64 \<le> unat (a - b) + unat (b - a) \<and> unat (a - b) + unat (b - a) - 2 ^ 64 = 0"
    unfolding unat_plus_if' by (simp split: if_splits)
  moreover have "unat (a - b) \<noteq> 0" using assms by (simp add: unat_eq_0)
  ultimately show ?thesis by linarith
qed

lemma apart_offset:
  assumes "apart a n b m" and "0 < n" and "i < m"
  shows "unat (b + of_nat i - a) = unat (b - a) + i"
proof -
  have "a \<noteq> b" using assms by (auto simp: apart_def)
  then have "unat (b - a) + i < 2 ^ 64"
    using unat_neg_diff [of a b] assms(1,3) unfolding apart_def by linarith
  then have "unat ((b - a) + of_nat i) = unat (b - a) + i" by (rule unat_add_of_nat)
  then show ?thesis by (simp add: algebra_simps)
qed

lemma apart_sub:
  assumes "apart a n b m" and "i + k \<le> n" and "0 < k" and "0 < m"
  shows "apart (a + of_nat i) k b m"
proof -
  have i: "i < n" using assms(2,3) by linarith
  have "i \<le> unat (b - a)" using assms(1) i by (simp add: apart_def)
  moreover have "i < 2 ^ 64" using \<open>i \<le> unat (b - a)\<close> unat_64 [of "b - a"] by linarith
  ultimately have "unat ((b - a) - of_nat i) = unat (b - a) - i"
    by (subst unat_sub) (simp_all add: word_le_nat_alt unat_of_nat_64)
  then have "unat (b - (a + of_nat i)) = unat (b - a) - i" by (simp add: algebra_simps)
  moreover have "unat (a + of_nat i - b) = unat (a - b) + i"
    using apart_offset [OF apart_sym [OF assms(1)] assms(4) i] .
  ultimately show ?thesis using assms(1,2) unfolding apart_def by linarith
qed

lemma read_apart:
  assumes "apart a (length bs) b n"
  shows "read_bytes (write_bytes mem a bs) b n = read_bytes mem b n"
proof (cases "bs = []")
  case True
  then show ?thesis by simp
next
  case False
  have "write_bytes mem a bs (b + of_nat i) = mem (b + of_nat i)" if "i < n" for i
  proof (rule write_bytes_outside)
    have "unat (b + of_nat i - a) = unat (b - a) + i" using apart_offset [OF assms _ that] False by simp
    then show "length bs \<le> unat (b + of_nat i - a)" using assms by (simp add: apart_def)
  qed
  then show ?thesis by (rule read_bytes_cong)
qed

lemma load64_apart: "apart a (length bs) b 8 \<Longrightarrow> load64 (write_bytes mem a bs) b = load64 mem b"
  by (simp add: load64_def read_apart)

lemma load32_apart: "apart a (length bs) b 4 \<Longrightarrow> load32 (write_bytes mem a bs) b = load32 mem b"
  by (simp add: load32_def read_apart)

lemma load16_apart: "apart a (length bs) b 2 \<Longrightarrow> load16 (write_bytes mem a bs) b = load16 mem b"
  by (simp add: load16_def read_apart)

lemma byte_apart: "apart a (length bs) b 1 \<Longrightarrow> write_bytes mem a bs b = mem b"
  using read_apart [of a bs b 1 mem] by (simp add: read_bytes_def)

lemma load64_same: "load64 (write_bytes mem a (bytes_of 8 v)) a = v"
  using read_write_bytes [of "bytes_of 8 v" mem a] by (simp add: load64_def word_of_bytes_of)

lemma load32_same: "load32 (write_bytes mem a (bytes_of 4 v)) a = v"
  using read_write_bytes [of "bytes_of 4 v" mem a] by (simp add: load32_def word_of_bytes_of)

lemma load16_same: "load16 (write_bytes mem a (bytes_of 2 v)) a = v"
  using read_write_bytes [of "bytes_of 2 v" mem a] by (simp add: load16_def word_of_bytes_of)

lemma byte_same: "write_bytes mem a [v] a = v"
  by (simp add: write_bytes_def)

lemmas loads_same = load64_same load32_same load16_same byte_same
lemmas loads_apart = load64_apart load32_apart load16_apart byte_apart

section \<open>Members of \<open>TrampolineData\<close>\<close>

definition data_size :: nat where "data_size = 48"

lemma TrampolineData_set:
  "TrampolineData_at (write_bytes mem td (bytes_of 8 v)) td = (TrampolineData_at mem td)\<lparr>root_handle := v\<rparr>"
  "TrampolineData_at (write_bytes mem (td + 8) (bytes_of 8 v)) td = (TrampolineData_at mem td)\<lparr>hook := v\<rparr>"
  "TrampolineData_at (write_bytes mem (td + 16) (bytes_of 8 v)) td = (TrampolineData_at mem td)\<lparr>backup := v\<rparr>"
  "TrampolineData_at (write_bytes mem (td + 24) (bytes_of 8 v)) td =
     (TrampolineData_at mem td)\<lparr>getspecific := v\<rparr>"
  "TrampolineData_at (write_bytes mem (td + 32) (bytes_of 8 v)) td =
     (TrampolineData_at mem td)\<lparr>setspecific := v\<rparr>"
  "TrampolineData_at (write_bytes mem (td + 40) (bytes_of 4 w)) td = (TrampolineData_at mem td)\<lparr>tls_key := w\<rparr>"
  "TrampolineData_at (write_bytes mem (td + 44) (bytes_of 2 u)) td =
     (TrampolineData_at mem td)\<lparr>post_handlers := u\<rparr>"
  "TrampolineData_at (write_bytes mem (td + 46) [if e then 1 else 0]) td =
     (TrampolineData_at mem td)\<lparr>enabled := e\<rparr>"
  by (simp_all add: TrampolineData_at_def loads_same loads_apart apart_def)

lemma TrampolineData_apart:
  assumes "apart b (length bs) td data_size" and "bs \<noteq> []"
  shows "TrampolineData_at (write_bytes mem b bs) td = TrampolineData_at mem td"
proof -
  have sub: "apart b (length bs) (td + of_nat i) k" if "i + k \<le> 48" "0 < k" for i k
    using apart_sub [OF apart_sym [OF assms(1)], of i k] that assms(2) by (simp add: data_size_def apart_sym)
  show ?thesis
    using sub [of 0 8] sub [of 8 8] sub [of 16 8] sub [of 24 8] sub [of 32 8] sub [of 40 4] sub [of 44 2]
      sub [of 46 1] by (simp add: TrampolineData_at_def loads_apart)
qed

section \<open>Stores into the heap of a trampoline\<close>

definition unprotected :: "process \<Rightarrow> u64 \<Rightarrow> nat \<Rightarrow> bool" where
  "unprotected p a n \<longleftrightarrow> (\<forall>i < n. \<not> write_protected p (a + of_nat i))"

lemma store_bytes_unprotected:
  "unprotected (heap st) a (length bs) \<Longrightarrow>
   store_bytes a bs st = Inr (with_contents (write_bytes (bytes_in st) a bs) st)"
  by (auto simp: store_bytes_def unprotected_def list_ex_iff)

lemma unprotected_sub:
  assumes "unprotected p a n" and "i + k \<le> n"
  shows "unprotected p (a + of_nat i) k"
  unfolding unprotected_def
proof (intro allI impI)
  fix j assume "j < k"
  then have "i + j < n" using assms(2) by linarith
  then have "\<not> write_protected p (a + of_nat (i + j))" using assms(1) unfolding unprotected_def by blast
  then show "\<not> write_protected p (a + of_nat i + of_nat j)" by (simp only: of_nat_add add.assoc not_False_eq_True)
qed

lemma write_protected_contents [simp]: "write_protected (p\<lparr>contents := mem\<rparr>) = write_protected p"
  by (simp add: write_protected_def fun_eq_iff)

lemma unprotected_contents [simp]: "unprotected (p\<lparr>contents := mem\<rparr>) = unprotected p"
  by (simp add: unprotected_def fun_eq_iff)

text \<open>
  The data of a second trampoline of the allocator lies in a block of it; that of a custom allocator
  lies in no heap that is protected.
\<close>

definition trampoline_size :: nat where "trampoline_size = 788"

definition slot_ok :: "process \<Rightarrow> HookInfo \<Rightarrow> bool" where
  "slot_ok p info \<longleftrightarrow> allocator_ok p \<and>
     (if custom_free info = 0 then \<exists>k \<ge> trampoline_size. block p (info_trampoline info) k
      else unprotected p (GetTrampolineData (info_trampoline info)) data_size)"

text \<open>The process in a scope of the allocator \<open>a\<close>.\<close>

definition opened :: "u64 \<Rightarrow> Memory \<Rightarrow> process \<Rightarrow> process" where
  "opened a m p = put a (m\<lparr>references := 1, heap_writable := True\<rparr>) p"

lemma opened_simps [simp]:
  "contents (opened a m p) = contents p" "headers (opened a m p) = headers p"
  by (simp_all add: opened_def)

lemma write_protected_iff:
  assumes "allocator_ok p"
  shows "write_protected p x \<longleftrightarrow>
    (\<exists>a m. allocators p a = Some m \<and> heap_start m \<noteq> 0 \<and> in_heap m x \<and> \<not> heap_writable m)"
proof -
  have "allocators p a = Some m \<Longrightarrow> a \<in> set (default_list p @ root_list p)" for a m
    using assms by (auto simp: allocator_ok_def)
  then show ?thesis
    unfolding write_protected_def list_ex_iff in_heap_def by (fastforce split: option.splits)
qed

lemma write_protected_opened:
  assumes ok: "allocator_ok p" and m: "allocators p a = Some m"
  shows "write_protected (opened a m p) x \<longleftrightarrow> write_protected p x \<and> \<not> (heap_start m \<noteq> 0 \<and> in_heap m x)"
proof -
  have sub: "b \<in> set (default_list p @ root_list p)" if "allocators p b = Some n" for b n
    using ok that by (auto simp: allocator_ok_def)
  have "write_protected (opened a m p) x \<longleftrightarrow>
      (\<exists>b n. b \<noteq> a \<and> allocators p b = Some n \<and> heap_start n \<noteq> 0 \<and> in_heap n x \<and> \<not> heap_writable n)"
  proof
    assume "write_protected (opened a m p) x"
    then show "\<exists>b n. b \<noteq> a \<and> allocators p b = Some n \<and> heap_start n \<noteq> 0 \<and> in_heap n x \<and> \<not> heap_writable n"
      unfolding write_protected_def list_ex_iff opened_def in_heap_def
      by (auto split: option.splits if_splits)
  next
    assume "\<exists>b n. b \<noteq> a \<and> allocators p b = Some n \<and> heap_start n \<noteq> 0 \<and> in_heap n x \<and> \<not> heap_writable n"
    then obtain b n where n: "b \<noteq> a" "allocators p b = Some n" "heap_start n \<noteq> 0" "in_heap n x"
      "\<not> heap_writable n" by blast
    then show "write_protected (opened a m p) x"
      using sub [OF n(2)] unfolding write_protected_def list_ex_iff opened_def in_heap_def
      by (intro bexI [of _ b]) simp_all
  qed
  also have "\<dots> \<longleftrightarrow> write_protected p x \<and> \<not> (heap_start m \<noteq> 0 \<and> in_heap m x)"
  proof -
    have apart: "\<not> (in_heap m x \<and> in_heap n x)" if "b \<noteq> a" "allocators p b = Some n" "heap_start n \<noteq> 0"
      "heap_start m \<noteq> 0" for b n
      using ok m that unfolding allocator_ok_def by blast
    show ?thesis
      unfolding write_protected_iff [OF ok]
    proof (intro iffI conjI notI; (elim exE conjE)?)
      fix b n assume "b \<noteq> a" "allocators p b = Some n" "heap_start n \<noteq> 0" "in_heap n x" "\<not> heap_writable n"
      then show "\<exists>a m. allocators p a = Some m \<and> heap_start m \<noteq> 0 \<and> in_heap m x \<and> \<not> heap_writable m"
        by blast
    next
      fix b n assume "b \<noteq> a" "allocators p b = Some n" "heap_start n \<noteq> 0" "in_heap n x"
        "heap_start m \<noteq> 0" "in_heap m x"
      then show False using apart by blast
    next
      fix b n assume "\<not> (heap_start m \<noteq> 0 \<and> in_heap m x)" "allocators p b = Some n" "heap_start n \<noteq> 0"
        "in_heap n x" "\<not> heap_writable n"
      moreover from this have "b \<noteq> a" using m by auto
      ultimately show "\<exists>b n. b \<noteq> a \<and> allocators p b = Some n \<and> heap_start n \<noteq> 0 \<and> in_heap n x \<and>
          \<not> heap_writable n" by blast
    qed
  qed
  finally show ?thesis .
qed

lemma GetTrampolineData_offset: "GetTrampolineData tr = tr + of_nat 740"
proof -
  have "length GetSecondTrampoline = 740"
    by (simp add: GetSecondTrampoline_def length_concat kTrampoline_def comp_def)
  then show ?thesis by (simp add: GetTrampolineData_def)
qed

lemma data_in_block:
  assumes "trampoline_size \<le> k" and "i < data_size"
  shows "in_block tr k (GetTrampolineData tr + of_nat i)"
proof -
  have "GetTrampolineData tr + of_nat i - tr = of_nat (740 + i)" by (simp add: GetTrampolineData_offset)
  moreover have "unat (of_nat (740 + i) :: u64) = 740 + i"
    using assms(2) by (intro unat_of_nat_64) (simp add: data_size_def)
  ultimately have "unat (GetTrampolineData tr + of_nat i - tr) = 740 + i" by (simp only:)
  then show ?thesis
    using assms unfolding in_block_def trampoline_size_def data_size_def by linarith
qed

text \<open>
  The body of a scope runs in a process \<open>p\<close> in which the block may be written, and afterwards the
  protection is as before.
\<close>

lemma in_scope_block:
  fixes body :: "library \<Rightarrow> ('a \<times> library) result"
  assumes ok: "allocator_ok (heap st)" and blk: "block (heap st) tr k"
  shows "\<exists>p fin. contents p = bytes_in st \<and> headers p = headers (heap st) \<and> unprotected p tr k \<and>
    (\<forall>x. write_protected p x \<longrightarrow> write_protected (heap st) x) \<and>
    in_scope st tr body = bnd (body (st\<lparr>heap := p\<rparr>)) fin \<and>
    (\<forall>x st' mem. heap st' = p\<lparr>contents := mem\<rparr> \<longrightarrow>
       fin (x, st') = Inr (x, st'\<lparr>heap := (heap st)\<lparr>contents := mem\<rparr>\<rparr>))"
proof -
  from blk obtain a m c where b: "block_in (heap st) a m c tr k" by (auto simp: block_def)
  note hd = header_of_block [OF ok b]
  have m: "allocators (heap st) a = Some m" "heap_start m \<noteq> 0" using b by (simp_all add: block_in_def)
  note rest = allocator_ok_resting(1) [OF ok m(1)]
  let ?p = "opened a m (heap st)"
  let ?fin = "\<lambda>(x :: 'a, st). bnd (release (heap st) a) (\<lambda>p. Inr (x, st\<lparr>heap := p\<rparr>))"
  have acq: "acquire (heap st) a = Inr ?p"
    using rest by (simp add: acquire_def deref_def resting_def opened_def ProtectOSMemory_succeeds)
  have "in_heap m (tr + of_nat i)" if "i < k" for i
  proof -
    have "unat (of_nat i :: u64) \<le> i"
      by (simp add: unat_of_nat)
    then have "in_block tr k (tr + of_nat i)" using that by (simp add: in_block_def)
    then show ?thesis by (rule in_block_offset(3) [OF ok b])
  qed
  then have u: "unprotected ?p tr k"
    using m(2) by (simp add: unprotected_def write_protected_opened [OF ok m(1)])
  have rel: "release (?p\<lparr>contents := mem\<rparr>) a = Inr ((heap st)\<lparr>contents := mem\<rparr>)" for mem
  proof -
    have "m\<lparr>references := 0, heap_writable := False\<rparr> = m" using rest by (simp add: resting_def)
    then have "put a (m\<lparr>references := 0, heap_writable := False\<rparr>) (heap st) = heap st"
      using m(1) by (simp add: put_same)
    moreover have "release (?p\<lparr>contents := mem\<rparr>) a =
        Inr ((put a (m\<lparr>references := 0, heap_writable := False\<rparr>) (heap st))\<lparr>contents := mem\<rparr>)"
      using rest by (simp add: release_def deref_def resting_def opened_def ProtectOSMemory_succeeds) (simp add: put_def)
    ultimately show ?thesis by simp
  qed
  have "in_scope st tr body = bnd (body (st\<lparr>heap := ?p\<rparr>)) ?fin"
    using hd(3,4) acq by (simp add: in_scope_def)
  then show ?thesis
    using u rel write_protected_opened [OF ok m(1)]
    by (intro exI [of _ ?p] exI [of _ ?fin]) simp
qed

text \<open>The scope of the data of a trampoline, which may come from a custom allocator.\<close>

lemma in_scope_opened:
  fixes body :: "library \<Rightarrow> ('a \<times> library) result"
  assumes slot: "slot_ok (heap st) info"
  shows "\<exists>p fin. contents p = bytes_in st \<and> headers p = headers (heap st) \<and>
    unprotected p (GetTrampolineData (info_trampoline info)) data_size \<and>
    (\<forall>x. write_protected p x \<longrightarrow> write_protected (heap st) x) \<and>
    in_scope st (scope_block info) body = bnd (body (st\<lparr>heap := p\<rparr>)) fin \<and>
    (\<forall>x st' mem. heap st' = p\<lparr>contents := mem\<rparr> \<longrightarrow>
       fin (x, st') = Inr (x, st'\<lparr>heap := (heap st)\<lparr>contents := mem\<rparr>\<rparr>))"
proof (cases "custom_free info = 0")
  case False
  have "st'\<lparr>heap := heap st'\<rparr> = st'" for st' by simp
  then have "heap st' = (heap st)\<lparr>contents := mem\<rparr> \<Longrightarrow> st'\<lparr>heap := (heap st)\<lparr>contents := mem\<rparr>\<rparr> = st'" for st' mem
    by metis
  moreover have "bnd r Inr = r" for r :: "('a \<times> library) result" by (cases r) simp_all
  ultimately show ?thesis
    using False slot
    by (intro exI [of _ "heap st"] exI [of _ Inr])
      (simp add: slot_ok_def in_scope_def scope_block_def GetMemoryHeader_def)
next
  case True
  then obtain k where k: "trampoline_size \<le> k" and b: "block (heap st) (info_trampoline info) k"
    using slot by (auto simp: slot_ok_def)
  have ok: "allocator_ok (heap st)" using slot by (simp add: slot_ok_def)
  have "740 + data_size \<le> k" using k by (simp add: trampoline_size_def data_size_def)
  then have "unprotected p (GetTrampolineData (info_trampoline info)) data_size"
    if "unprotected p (info_trampoline info) k" for p
    using unprotected_sub [OF that] unfolding GetTrampolineData_offset by blast
  then show ?thesis using in_scope_block [OF ok b, of body] True by (auto simp: scope_block_def)
qed

lemma in_scope_runs:
  assumes slot: "slot_ok (heap st) info"
    and body: "\<And>p. contents p = bytes_in st \<Longrightarrow> headers p = headers (heap st) \<Longrightarrow>
      unprotected p (GetTrampolineData (info_trampoline info)) data_size \<Longrightarrow>
      (\<And>x. write_protected p x \<Longrightarrow> write_protected (heap st) x) \<Longrightarrow>
      \<exists>x st' mem. body (st\<lparr>heap := p\<rparr>) = Inr (x, st') \<and> heap st' = p\<lparr>contents := mem\<rparr> \<and>
        Q x (st'\<lparr>heap := (heap st)\<lparr>contents := mem\<rparr>\<rparr>)"
  shows "\<exists>x st'. in_scope st (scope_block info) body = Inr (x, st') \<and> Q x st'"
proof -
  from in_scope_opened [OF slot, of body] obtain p fin where
    p: "contents p = bytes_in st" "headers p = headers (heap st)"
      "unprotected p (GetTrampolineData (info_trampoline info)) data_size"
      "\<And>x. write_protected p x \<Longrightarrow> write_protected (heap st) x"
      "in_scope st (scope_block info) body = bnd (body (st\<lparr>heap := p\<rparr>)) fin"
    and fin: "\<And>x st' mem. heap st' = p\<lparr>contents := mem\<rparr> \<Longrightarrow>
       fin (x, st') = Inr (x, st'\<lparr>heap := (heap st)\<lparr>contents := mem\<rparr>\<rparr>)" by blast
  from body [OF p(1-4)] obtain x st' mem where
    "body (st\<lparr>heap := p\<rparr>) = Inr (x, st')" "heap st' = p\<lparr>contents := mem\<rparr>"
    "Q x (st'\<lparr>heap := (heap st)\<lparr>contents := mem\<rparr>\<rparr>)" by blast
  then show ?thesis using p(5) fin by auto
qed

lemma in_scope_fails:
  assumes "slot_ok (heap st) info"
    and "\<And>p. contents p = bytes_in st \<Longrightarrow>
      unprotected p (GetTrampolineData (info_trampoline info)) data_size \<Longrightarrow> body (st\<lparr>heap := p\<rparr>) = Inl e"
  shows "in_scope st (scope_block info) body = Inl e"
  using in_scope_opened [OF assms(1), of body] assms(2) by force

end
