(* ===== verification/Hook_Chain.thy ===== *)
theory Hook_Chain
  imports Hook_Scopes
begin

text \<open>
  The specification of the hooks of one function: a list of handles in the order in which they were
  installed, in which every handle backs up to the hook before it and the trampoline goes to the last
  hook. \<open>hooked\<close> says that the objects and the memory represent such a list.
\<close>

section \<open>Lists of handles\<close>

type_synonym entry = "u64 \<times> HookHandleExt"

primrec chain :: "(u64 \<Rightarrow> HookHandleExt option) \<Rightarrow> u64 \<Rightarrow> entry list \<Rightarrow> bool" where
  "chain H p [] \<longleftrightarrow> p = 0"
| "chain H p (e # es) \<longleftrightarrow> p = fst e \<and> p \<noteq> 0 \<and> H p = Some (snd e) \<and> chain H (next_handle (snd e)) es"

primrec back_linked :: "u64 \<Rightarrow> entry list \<Rightarrow> bool" where
  "back_linked p [] \<longleftrightarrow> True"
| "back_linked p (e # es) \<longleftrightarrow> previous_handle (snd e) = p \<and> back_linked (fst e) es"

text \<open>The function that is called behind a handle, and behind a list of them.\<close>

definition behind :: "u64 \<Rightarrow> HookHandleExt \<Rightarrow> u64" where
  "behind f h = (if hook_function h \<noteq> 0 then hook_function h else f)"

primrec last_hook :: "u64 \<Rightarrow> entry list \<Rightarrow> u64" where
  "last_hook f [] = f"
| "last_hook f (e # es) = last_hook (behind f (snd e)) es"

primrec backups_ok :: "u64 \<Rightarrow> entry list \<Rightarrow> bool" where
  "backups_ok f [] \<longleftrightarrow> True"
| "backups_ok f (e # es) \<longleftrightarrow> handle_backup (snd e) = f \<and> backups_ok (behind f (snd e)) es"

definition handlers :: "entry list \<Rightarrow> nat" where
  "handlers es = length (filter (\<lambda>e. post_handler (snd e) \<noteq> 0) es)"

text \<open>What the trampoline calls in the end, after the register handlers or without them.\<close>

definition target :: "TrampolineData \<Rightarrow> u64" where
  "target td = (if hook td \<noteq> 0 then hook td else backup td)"

definition data_ok :: "TrampolineData \<Rightarrow> u64 \<Rightarrow> u64 \<Rightarrow> entry list \<Rightarrow> bool" where
  "data_ok td root original es \<longleftrightarrow>
     root_handle td = root \<and> target td = last_hook original es \<and>
     (hook td \<noteq> 0 \<longrightarrow> (\<forall>e \<in> set es. hook_function (snd e) \<noteq> 0)) \<and>
     post_handlers td = of_nat (handlers es)"

text \<open>The variables of the user, where he finds the backup of a handle.\<close>

definition cell_ok :: "process \<Rightarrow> u64 \<Rightarrow> memory \<Rightarrow> HookHandleExt \<Rightarrow> bool" where
  "cell_ok p td mem h \<longleftrightarrow> user_backup_addr h \<noteq> 0 \<longrightarrow>
     load64 mem (user_backup_addr h) = handle_backup h \<and> unprotected p (user_backup_addr h) 8 \<and>
     apart td data_size (user_backup_addr h) 8"

definition separate :: "HookHandleExt \<Rightarrow> HookHandleExt \<Rightarrow> bool" where
  "separate h k \<longleftrightarrow> user_backup_addr h \<noteq> 0 \<and> user_backup_addr k \<noteq> 0 \<longrightarrow>
     apart (user_backup_addr h) 8 (user_backup_addr k) 8"

definition cells_ok :: "process \<Rightarrow> u64 \<Rightarrow> memory \<Rightarrow> entry list \<Rightarrow> bool" where
  "cells_ok p td mem es \<longleftrightarrow> (\<forall>e \<in> set es. cell_ok p td mem (snd e)) \<and>
     sorted_wrt (\<lambda>d e. separate (snd d) (snd e)) es"

definition hooked :: "library \<Rightarrow> u64 \<Rightarrow> HookInfo \<Rightarrow> entry list \<Rightarrow> bool" where
  "hooked st i info es \<longleftrightarrow>
     i \<noteq> 0 \<and> infos st i = Some info \<and> slot_ok (heap st) info \<and>
     es \<noteq> [] \<and> length es < 2 ^ 16 \<and> handle_count info = of_nat (length es) \<and>
     chain (handles st) (info_root info) es \<and> distinct (map fst es) \<and>
     (\<forall>e \<in> set es. handle_info (snd e) = i) \<and> backups_ok (relocated info) es \<and>
     data_ok (TrampolineData_at (bytes_in st) (GetTrampolineData (info_trampoline info)))
       (info_root info) (relocated info) es \<and>
     cells_ok (heap st) (GetTrampolineData (info_trampoline info)) (bytes_in st) es"

section \<open>Facts on lists of handles\<close>

lemma last_hook_append: "last_hook f (es @ es') = last_hook (last_hook f es) es'"
  by (induction es arbitrary: f) simp_all

lemma backups_ok_append: "backups_ok f (es @ es') \<longleftrightarrow> backups_ok f es \<and> backups_ok (last_hook f es) es'"
  by (induction es arbitrary: f) simp_all

lemma back_linked_append:
  "back_linked p (es @ es') \<longleftrightarrow> back_linked p es \<and> back_linked (if es = [] then p else fst (last es)) es'"
  by (induction es arbitrary: p) simp_all

lemma chain_nonzero: "chain H p es \<Longrightarrow> e \<in> set es \<Longrightarrow> fst e \<noteq> 0 \<and> H (fst e) = Some (snd e)"
  by (induction es arbitrary: p) auto

lemma chain_cong: "chain H p es \<Longrightarrow> (\<And>e. e \<in> set es \<Longrightarrow> H' (fst e) = H (fst e)) \<Longrightarrow> chain H' p es"
  by (induction es arbitrary: p) auto

text \<open>A list whose last handle is followed by \<open>q\<close>.\<close>

primrec chain_to :: "(u64 \<Rightarrow> HookHandleExt option) \<Rightarrow> u64 \<Rightarrow> entry list \<Rightarrow> u64 \<Rightarrow> bool" where
  "chain_to H p [] q \<longleftrightarrow> p = q"
| "chain_to H p (e # es) q \<longleftrightarrow>
     p = fst e \<and> p \<noteq> 0 \<and> H p = Some (snd e) \<and> chain_to H (next_handle (snd e)) es q"

lemma chain_append: "chain H p (es @ es') \<longleftrightarrow> (\<exists>q. chain_to H p es q \<and> chain H q es')"
  by (induction es arbitrary: p) auto

lemma chain_to_append: "chain_to H p (es @ es') q \<longleftrightarrow> (\<exists>r. chain_to H p es r \<and> chain_to H r es' q)"
  by (induction es arbitrary: p) auto

lemma chain_to_cong:
  "chain_to H p es q \<Longrightarrow> (\<And>e. e \<in> set es \<Longrightarrow> H' (fst e) = H (fst e)) \<Longrightarrow> chain_to H' p es q"
  by (induction es arbitrary: p) auto

text \<open>The list whose last handle is linked to another one.\<close>

definition with_next :: "entry list \<Rightarrow> u64 \<Rightarrow> entry list" where
  "with_next es h = butlast es @ [(fst (last es), (snd (last es))\<lparr>next_handle := h\<rparr>)]"

lemma behind_simps [simp]:
  "behind f (h\<lparr>next_handle := q\<rparr>) = behind f h" "behind f (h\<lparr>previous_handle := q\<rparr>) = behind f h"
  "behind f (h\<lparr>handle_backup := q\<rparr>) = behind f h" "behind f (h\<lparr>user_backup_addr := q\<rparr>) = behind f h"
  by (simp_all add: behind_def)

lemma with_next_snoc [simp]: "with_next (es @ [e]) h = es @ [(fst e, (snd e)\<lparr>next_handle := h\<rparr>)]"
  by (simp add: with_next_def)

lemma chain_with_next:
  assumes "chain H p es" and "es \<noteq> []" and "distinct (map fst es)" and "h \<notin> fst ` set es" and "h \<noteq> 0"
    and "next_handle k = 0"
  shows "chain (H(fst (last es) \<mapsto> (snd (last es))\<lparr>next_handle := h\<rparr>, h \<mapsto> k)) p (with_next es h @ [(h, k)])"
proof -
  obtain ys e where es: "es = ys @ [e]" using assms(2) rev_exhaust by blast
  with assms(1) have ys: "chain_to H p ys (fst e)" and e: "fst e \<noteq> 0" by (auto simp: chain_append)
  have "chain_to (H(fst e \<mapsto> (snd e)\<lparr>next_handle := h\<rparr>, h \<mapsto> k)) p ys (fst e)"
  proof (rule chain_to_cong [OF ys])
    fix d assume d: "d \<in> set ys"
    then have "fst d \<in> fst ` set ys" by (rule imageI)
    moreover have "fst e \<notin> fst ` set ys" "h \<notin> fst ` set ys" using assms(3,4) es by auto
    ultimately have "fst d \<noteq> fst e" "fst d \<noteq> h" by metis+
    then show "(H(fst e \<mapsto> (snd e)\<lparr>next_handle := h\<rparr>, h \<mapsto> k)) (fst d) = H (fst d)" by simp
  qed
  then show ?thesis using e assms(4,5,6) es by (auto simp: chain_append chain_to_append)
qed

lemma find_last_chain:
  assumes "chain (handles st) p es" and "es \<noteq> []" and "length es \<le> n"
  shows "find_last n st p f = Inr (fst (last es), last_hook f es)"
  using assms
proof (induction es arbitrary: p f n)
  case (Cons e es)
  then obtain m where "n = Suc m" "length es \<le> m" by (cases n) auto
  with Cons show ?case by (cases es) (auto simp: object_at_def behind_def Let_def)
qed simp

section \<open>Stores and their effect on the variables of the user\<close>

lemma load64_data_write:
  assumes "apart td data_size c 8"
  shows "load64 (write_bytes mem td (bytes_of 8 v)) c = load64 mem c"
    and "load64 (write_bytes mem (td + 8) (bytes_of 8 v)) c = load64 mem c"
    and "load64 (write_bytes mem (td + 16) (bytes_of 8 v)) c = load64 mem c"
    and "load64 (write_bytes mem (td + 24) (bytes_of 8 v)) c = load64 mem c"
    and "load64 (write_bytes mem (td + 32) (bytes_of 8 v)) c = load64 mem c"
    and "load64 (write_bytes mem (td + 40) (bytes_of 4 w)) c = load64 mem c"
    and "load64 (write_bytes mem (td + 44) (bytes_of 2 u)) c = load64 mem c"
    and "load64 (write_bytes mem (td + 46) [b]) c = load64 mem c"
proof -
  have sub: "apart (td + of_nat i) k c 8" if "i + k \<le> 48" "0 < k" for i k
    using apart_sub [OF assms, of i k] that by (simp add: data_size_def)
  show "load64 (write_bytes mem td (bytes_of 8 v)) c = load64 mem c"
    using sub [of 0 8] by (simp add: load64_apart)
  show "load64 (write_bytes mem (td + 8) (bytes_of 8 v)) c = load64 mem c"
    using sub [of 8 8] by (simp add: load64_apart)
  show "load64 (write_bytes mem (td + 16) (bytes_of 8 v)) c = load64 mem c"
    using sub [of 16 8] by (simp add: load64_apart)
  show "load64 (write_bytes mem (td + 24) (bytes_of 8 v)) c = load64 mem c"
    using sub [of 24 8] by (simp add: load64_apart)
  show "load64 (write_bytes mem (td + 32) (bytes_of 8 v)) c = load64 mem c"
    using sub [of 32 8] by (simp add: load64_apart)
  show "load64 (write_bytes mem (td + 40) (bytes_of 4 w)) c = load64 mem c"
    using sub [of 40 4] by (simp add: load64_apart)
  show "load64 (write_bytes mem (td + 44) (bytes_of 2 u)) c = load64 mem c"
    using sub [of 44 2] by (simp add: load64_apart)
  show "load64 (write_bytes mem (td + 46) [b]) c = load64 mem c"
    using sub [of 46 1] by (simp add: load64_apart)
qed

lemma byte_data_write:
  assumes "apart td data_size x 1"
  shows "write_bytes mem td (bytes_of 8 v) x = mem x"
    and "write_bytes mem (td + 8) (bytes_of 8 v) x = mem x"
    and "write_bytes mem (td + 16) (bytes_of 8 v) x = mem x"
    and "write_bytes mem (td + 24) (bytes_of 8 v) x = mem x"
    and "write_bytes mem (td + 32) (bytes_of 8 v) x = mem x"
    and "write_bytes mem (td + 40) (bytes_of 4 w) x = mem x"
    and "write_bytes mem (td + 44) (bytes_of 2 u) x = mem x"
    and "write_bytes mem (td + 46) [b] x = mem x"
proof -
  have sub: "write_bytes mem (td + of_nat i) bs x = mem x" if "i + length bs \<le> 48" "bs \<noteq> []" for i bs
    using apart_sub [OF assms, of i "length bs"] that by (intro byte_apart) (simp add: data_size_def)
  have ne: "bytes_of 8 v \<noteq> []" "bytes_of 4 w \<noteq> []" "bytes_of 2 u \<noteq> []" by (simp_all add: bytes_of_def)
  show "write_bytes mem td (bytes_of 8 v) x = mem x" using sub [of 0 "bytes_of 8 v"] ne by simp
  show "write_bytes mem (td + 8) (bytes_of 8 v) x = mem x" using sub [of 8 "bytes_of 8 v"] ne by simp
  show "write_bytes mem (td + 16) (bytes_of 8 v) x = mem x" using sub [of 16 "bytes_of 8 v"] ne by simp
  show "write_bytes mem (td + 24) (bytes_of 8 v) x = mem x" using sub [of 24 "bytes_of 8 v"] ne by simp
  show "write_bytes mem (td + 32) (bytes_of 8 v) x = mem x" using sub [of 32 "bytes_of 8 v"] ne by simp
  show "write_bytes mem (td + 40) (bytes_of 4 w) x = mem x" using sub [of 40 "bytes_of 4 w"] ne by simp
  show "write_bytes mem (td + 44) (bytes_of 2 u) x = mem x" using sub [of 44 "bytes_of 2 u"] ne by simp
  show "write_bytes mem (td + 46) [b] x = mem x" using sub [of 46 "[b]"] by simp
qed

text \<open>An address outside the data of a trampoline and outside a variable of the user.\<close>

definition elsewhere :: "u64 \<Rightarrow> u64 \<Rightarrow> u64 \<Rightarrow> bool" where
  "elsewhere td ub x \<longleftrightarrow> apart td data_size x 1 \<and> (ub \<noteq> 0 \<longrightarrow> apart ub 8 x 1)"

lemma set_data_unprotected:
  assumes "unprotected (heap st) td data_size"
  shows "set_root td v st = Inr (with_contents (write_bytes (bytes_in st) td (bytes_of 8 v)) st)"
    and "set_hook td v st = Inr (with_contents (write_bytes (bytes_in st) (td + 8) (bytes_of 8 v)) st)"
    and "set_backup td v st = Inr (with_contents (write_bytes (bytes_in st) (td + 16) (bytes_of 8 v)) st)"
    and "set_getspecific td v st = Inr (with_contents (write_bytes (bytes_in st) (td + 24) (bytes_of 8 v)) st)"
    and "set_setspecific td v st = Inr (with_contents (write_bytes (bytes_in st) (td + 32) (bytes_of 8 v)) st)"
    and "set_tls_key td w st = Inr (with_contents (write_bytes (bytes_in st) (td + 40) (bytes_of 4 w)) st)"
    and "set_post_handlers td u st = Inr (with_contents (write_bytes (bytes_in st) (td + 44) (bytes_of 2 u)) st)"
    and "set_enabled td b st = Inr (with_contents (write_bytes (bytes_in st) (td + 46) [if b then 1 else 0]) st)"
proof -
  have sub: "unprotected (heap st) (td + of_nat i) k" if "i + k \<le> 48" for i k
    using unprotected_sub [OF assms, of i k] that by (simp add: data_size_def)
  note s = store_bytes_unprotected
  show "set_root td v st = Inr (with_contents (write_bytes (bytes_in st) td (bytes_of 8 v)) st)"
    using sub [of 0 8] by (simp add: set_root_def s)
  show "set_hook td v st = Inr (with_contents (write_bytes (bytes_in st) (td + 8) (bytes_of 8 v)) st)"
    using sub [of 8 8] by (simp add: set_hook_def s)
  show "set_backup td v st = Inr (with_contents (write_bytes (bytes_in st) (td + 16) (bytes_of 8 v)) st)"
    using sub [of 16 8] by (simp add: set_backup_def s)
  show "set_getspecific td v st = Inr (with_contents (write_bytes (bytes_in st) (td + 24) (bytes_of 8 v)) st)"
    using sub [of 24 8] by (simp add: set_getspecific_def s)
  show "set_setspecific td v st = Inr (with_contents (write_bytes (bytes_in st) (td + 32) (bytes_of 8 v)) st)"
    using sub [of 32 8] by (simp add: set_setspecific_def s)
  show "set_tls_key td w st = Inr (with_contents (write_bytes (bytes_in st) (td + 40) (bytes_of 4 w)) st)"
    using sub [of 40 4] by (simp add: set_tls_key_def s)
  show "set_post_handlers td u st = Inr (with_contents (write_bytes (bytes_in st) (td + 44) (bytes_of 2 u)) st)"
    using sub [of 44 2] by (simp add: set_post_handlers_def s)
  show "set_enabled td b st = Inr (with_contents (write_bytes (bytes_in st) (td + 46) [if b then 1 else 0]) st)"
    using sub [of 46 1] by (simp add: set_enabled_def s)
qed

lemma with_contents_simps [simp]:
  "heap (with_contents mem st) = (heap st)\<lparr>contents := mem\<rparr>"
  "handles (with_contents mem st) = handles st" "infos (with_contents mem st) = infos st"
  "with_contents mem (with_contents mem' st) = with_contents mem st"
  "with_contents mem (st\<lparr>handles := H\<rparr>) = (with_contents mem st)\<lparr>handles := H\<rparr>"
  "with_contents mem (st\<lparr>infos := I\<rparr>) = (with_contents mem st)\<lparr>infos := I\<rparr>"
  by (simp_all add: with_contents_def)

end
