(* ===== verification/Hook_Installation.thy ===== *)
theory Hook_Installation
  imports Hook_Chain
begin

text \<open>
  \<open>NewHookHandle\<close> refines appending to the list of hooks.
\<close>

section \<open>Appending a handle\<close>

text \<open>The memory after a handle was appended.\<close>

definition appended :: "memory \<Rightarrow> u64 \<Rightarrow> u64 \<Rightarrow> u64 \<Rightarrow> u64 \<Rightarrow> u64 \<Rightarrow> memory" where
  "appended mem td hook' post ub f =
     (let mem1 = (if ub \<noteq> 0 then write_bytes mem ub (bytes_of 8 f) else mem) in
      if hook' \<noteq> 0 then
        (if hook (TrampolineData_at mem1 td) \<noteq> 0 then write_bytes mem1 (td + 8) (bytes_of 8 hook')
         else write_bytes mem1 (td + 16) (bytes_of 8 hook'))
      else
        let mem2 = write_bytes (write_bytes mem1 (td + 8) (bytes_of 8 (0 :: u64))) (td + 16) (bytes_of 8 f) in
        if post \<noteq> 0
        then write_bytes mem2 (td + 44) (bytes_of 2 (post_handlers (TrampolineData_at mem2 td) + 1))
        else mem2)"

text \<open>Where a new handle may tell its backup.\<close>

definition cell_free :: "process \<Rightarrow> u64 \<Rightarrow> entry list \<Rightarrow> u64 \<Rightarrow> bool" where
  "cell_free p td es ub \<longleftrightarrow> ub \<noteq> 0 \<longrightarrow>
     unprotected p ub 8 \<and> apart td data_size ub 8 \<and>
     (\<forall>e \<in> set es. user_backup_addr (snd e) \<noteq> 0 \<longrightarrow> apart (user_backup_addr (snd e)) 8 ub 8)"

lemma append_handle_result:
  assumes "chain (handles st) (info_root info) es" and "es \<noteq> []" and "length es < 2 ^ 16"
    and "handles st h = Some k" and "h \<noteq> 0" and "h \<notin> fst ` set es"
    and "unprotected (heap st) td data_size" and "ub \<noteq> 0 \<Longrightarrow> unprotected (heap st) ub 8"
  shows "append_handle st info td h hook' post ub =
    Inr (with_contents (appended (bytes_in st) td hook' post ub (last_hook (relocated info) es))
      (st\<lparr>handles := (handles st)(fst (last es) \<mapsto> (snd (last es))\<lparr>next_handle := h\<rparr>,
         h \<mapsto> k\<lparr>previous_handle := fst (last es), handle_backup := last_hook (relocated info) es\<rparr>)\<rparr>))"
proof -
  have l: "last es \<in> set es" using assms(2) by simp
  have last: "fst (last es) \<noteq> 0" "handles st (fst (last es)) = Some (snd (last es))"
    using chain_nonzero [OF assms(1) l] by simp_all
  have ne: "fst (last es) \<noteq> h" using assms(6) imageI [OF l, of fst] by metis
  have found: "find_last kMaxHandles st (info_root info) (relocated info) =
      Inr (fst (last es), last_hook (relocated info) es)"
    using find_last_chain [OF assms(1,2)] assms(3) by (simp add: kMaxHandles_def)
  show ?thesis
    using assms(4,5,7,8) last ne
    by (simp add: append_handle_def found update_handle_def object_at_def appended_def Let_def
        set_data_unprotected store_bytes_unprotected fun_upd_twist)
qed

lemma appended_data:
  assumes "ub \<noteq> 0 \<Longrightarrow> apart td data_size ub 8"
  shows "TrampolineData_at (appended mem td hook' post ub f) td =
    (let d = TrampolineData_at mem td in
     if hook' \<noteq> 0 then (if hook d \<noteq> 0 then d\<lparr>hook := hook'\<rparr> else d\<lparr>backup := hook'\<rparr>)
     else d\<lparr>hook := 0, backup := f, post_handlers := post_handlers d + (if post \<noteq> 0 then 1 else 0)\<rparr>)"
proof -
  have cell: "TrampolineData_at (if ub \<noteq> 0 then write_bytes mem ub (bytes_of 8 f) else mem) td =
      TrampolineData_at mem td"
    using assms TrampolineData_apart [of ub "bytes_of 8 f" td mem]
    by (simp add: apart_sym bytes_of_def)
  show ?thesis by (simp add: appended_def Let_def TrampolineData_set cell)
qed

lemma appended_cells:
  assumes "apart td data_size c 8" and "ub \<noteq> 0 \<Longrightarrow> apart ub 8 c 8"
  shows "load64 (appended mem td hook' post ub f) c = load64 mem c"
  using assms by (simp add: appended_def Let_def load64_data_write [OF assms(1)] load64_apart)

lemma appended_own_cell:
  assumes "apart td data_size ub 8" and "ub \<noteq> 0"
  shows "load64 (appended mem td hook' post ub f) ub = f"
  using assms by (simp add: appended_def Let_def load64_data_write [OF assms(1)] load64_same)

lemma appended_elsewhere:
  assumes "elsewhere td ub x"
  shows "appended mem td hook' post ub f x = mem x"
proof -
  have td: "apart td data_size x 1" using assms by (simp add: elsewhere_def)
  have "(if ub \<noteq> 0 then write_bytes mem ub (bytes_of 8 f) else mem) x = mem x"
    using assms by (simp add: elsewhere_def byte_apart)
  then show ?thesis by (simp add: appended_def Let_def byte_data_write [OF td])
qed

lemma handlers_simps [simp]:
  "handlers [] = 0" "handlers (e # es) = (if post_handler (snd e) \<noteq> 0 then 1 else 0) + handlers es"
  "handlers (es @ es') = handlers es + handlers es'"
  by (simp_all add: handlers_def)

lemma data_ok_append:
  assumes "data_ok d root f es" and "hook_function k = 0 \<or> post_handler k = 0"
    and "d' = (if hook_function k \<noteq> 0 then
        (if hook d \<noteq> 0 then d\<lparr>hook := hook_function k\<rparr> else d\<lparr>backup := hook_function k\<rparr>)
       else d\<lparr>hook := 0, backup := last_hook f es,
              post_handlers := post_handlers d + (if post_handler k \<noteq> 0 then 1 else 0)\<rparr>)"
    and "es \<noteq> []"
  shows "data_ok d' root f (with_next es h @ [(h, k)])"
proof -
  obtain ys e where es: "es = ys @ [e]" using assms(4) rev_exhaust by blast
  show ?thesis
    using assms(1,2) unfolding assms(3) es
    by (auto simp: data_ok_def target_def last_hook_append behind_def)
qed

lemma cells_ok_append:
  assumes "cells_ok p td mem es" and "es \<noteq> []" and "cell_free p td es (user_backup_addr k)"
    and "\<And>c. apart td data_size c 8 \<Longrightarrow>
      (user_backup_addr k \<noteq> 0 \<Longrightarrow> apart (user_backup_addr k) 8 c 8) \<Longrightarrow> load64 mem' c = load64 mem c"
    and "user_backup_addr k \<noteq> 0 \<Longrightarrow> load64 mem' (user_backup_addr k) = handle_backup k"
  shows "cells_ok p td mem' (with_next es h @ [(h, k)])"
proof -
  obtain ys e where es: "es = ys @ [e]" using assms(2) rev_exhaust by blast
  have old: "cell_ok p td mem' (snd d)" if "d \<in> set es" for d
    using that assms(1,3) assms(4) [of "user_backup_addr (snd d)"]
    by (auto simp: cells_ok_def cell_ok_def cell_free_def apart_sym)
  have "cell_ok p td mem' k" using assms(3,5) by (simp add: cell_ok_def cell_free_def)
  moreover have "separate (snd d) k" if "d \<in> set es" for d
    using that assms(3) by (auto simp: separate_def cell_free_def)
  ultimately show ?thesis
    using old assms(1) unfolding es
    by (auto simp: cells_ok_def sorted_wrt_append cell_ok_def separate_def)
qed

section \<open>Functions without a handle yet\<close>

definition fresh_info :: "library \<Rightarrow> u64 \<Rightarrow> HookInfo \<Rightarrow> bool" where
  "fresh_info st i info \<longleftrightarrow>
     i \<noteq> 0 \<and> infos st i = Some info \<and> slot_ok (heap st) info \<and> info_root info = 0 \<and> handle_count info = 0 \<and>
     (let td = TrampolineData_at (bytes_in st) (GetTrampolineData (info_trampoline info)) in
      hook td = 0 \<and> post_handlers td = 0)"

definition ready :: "library \<Rightarrow> u64 \<Rightarrow> HookInfo \<Rightarrow> entry list \<Rightarrow> bool" where
  "ready st i info es \<longleftrightarrow> (if es = [] then fresh_info st i info else hooked st i info es)"

text \<open>What the user has installed: the handles with his functions.\<close>

definition installed :: "entry list \<Rightarrow> (u64 \<times> u64 \<times> u64 \<times> u64 \<times> u64) list" where
  "installed es =
     map (\<lambda>(x, h). (x, hook_function h, pre_handler h, post_handler h, user_data h)) es"

text \<open>
  What is documented of \<open>operator new\<close>: it returns an address where there is no other object, or
  throws; and that it has memory for one more object, whatever is written to the heaps.
\<close>

definition new_fresh :: "environment \<Rightarrow> bool" where
  "new_fresh env \<longleftrightarrow> (\<forall>st x. new_object env st = Some x \<longrightarrow>
     x \<noteq> 0 \<and> handles st x = None \<and> infos st x = None)"

definition has_memory :: "environment \<Rightarrow> library \<Rightarrow> bool" where
  "has_memory env st \<longleftrightarrow> (\<forall>p. new_object env (st\<lparr>heap := p\<rparr>) \<noteq> None)"

lemma new_at_some:
  assumes "new_fresh env" and "has_memory env st"
  shows "\<exists>h. new_at env (st\<lparr>heap := p\<rparr>) = Inr h \<and> h \<noteq> 0 \<and> handles st h = None \<and> infos st h = None"
proof -
  obtain h where h: "new_object env (st\<lparr>heap := p\<rparr>) = Some h" using assms(2) by (auto simp: has_memory_def)
  then have "h \<noteq> 0 \<and> handles (st\<lparr>heap := p\<rparr>) h = None \<and> infos (st\<lparr>heap := p\<rparr>) h = None"
    using assms(1) unfolding new_fresh_def by blast
  with h show ?thesis by (simp add: new_at_def)
qed

lemma allocator_ok_contents [simp]: "allocator_ok (p\<lparr>contents := mem\<rparr>) = allocator_ok p"
  by (simp add: allocator_ok_def heap_ok_def block_ok_def count_at_def)

lemma block_contents [simp]: "block (p\<lparr>contents := mem\<rparr>) = block p"
  by (simp add: block_def block_in_def count_at_def fun_eq_iff)

lemma slot_ok_contents [simp]: "slot_ok (p\<lparr>contents := mem\<rparr>) info = slot_ok p info"
  by (simp add: slot_ok_def)

lemma slot_ok_info [simp]:
  "slot_ok p (info\<lparr>handle_count := n\<rparr>) = slot_ok p info" "slot_ok p (info\<lparr>info_root := r\<rparr>) = slot_ok p info"
  by (simp_all add: slot_ok_def)

lemma scope_block_info [simp]:
  "scope_block (info\<lparr>handle_count := n\<rparr>) = scope_block info"
  by (simp add: scope_block_def)

lemma in_chain_old:
  assumes "handles st h = None" and "chain (handles st) p es"
  shows "h \<notin> fst ` set es"
  using assms chain_nonzero [OF assms(2)] by fastforce

definition user_cell_ok :: "library \<Rightarrow> HookInfo \<Rightarrow> entry list \<Rightarrow> u64 \<Rightarrow> bool" where
  "user_cell_ok st info es ub \<longleftrightarrow> cell_free (heap st) (GetTrampolineData (info_trampoline info)) es ub"

lemma NewHookHandle_append:
  assumes h: "hooked st i info es" and new: "new_fresh env" and mem: "has_memory env st" and len: "length es < 0xFFFF"
    and kinds: "hook' = 0 \<or> post = 0" and cell: "user_cell_ok st info es ub"
  shows "\<exists>h st' es'. NewHookHandle env st i hook' pre post dat ub = Inr (h, st') \<and>
    hooked st' i (info\<lparr>handle_count := handle_count info + 1\<rparr>) es' \<and>
    installed es' = installed es @ [(h, hook', pre, post, dat)] \<and> (back_linked 0 es \<longrightarrow> back_linked 0 es') \<and>
    (\<forall>x. elsewhere (GetTrampolineData (info_trampoline info)) ub x \<longrightarrow> bytes_in st' x = bytes_in st x) \<and>
    (\<forall>y. y \<noteq> h \<and> y \<notin> fst ` set es \<longrightarrow> handles st' y = handles st y) \<and>
    (\<forall>j. j \<noteq> i \<longrightarrow> infos st' j = infos st j)"
proof -
  let ?td = "GetTrampolineData (info_trampoline info)" and ?f = "last_hook (relocated info) es"
  let ?mem = "appended (bytes_in st) ?td hook' post ub ?f"
  from h have i: "i \<noteq> 0" "infos st i = Some info" "slot_ok (heap st) info" "es \<noteq> []"
    "chain (handles st) (info_root info) es" "distinct (map fst es)" "length es < 2 ^ 16"
    "handle_count info = of_nat (length es)" "\<forall>e \<in> set es. handle_info (snd e) = i"
    "backups_ok (relocated info) es"
    "data_ok (TrampolineData_at (bytes_in st) ?td) (info_root info) (relocated info) es"
    "cells_ok (heap st) ?td (bytes_in st) es"
    by (simp_all add: hooked_def)
  obtain ys e where es: "es = ys @ [e]" using i(4) rev_exhaust by blast
  have root: "info_root info \<noteq> 0" using i(5) es by (cases ys) auto
  let ?Q = "\<lambda>h st'. \<exists>es'. hooked st' i (info\<lparr>handle_count := handle_count info + 1\<rparr>) es' \<and>
    installed es' = installed es @ [(h, hook', pre, post, dat)] \<and> (back_linked 0 es \<longrightarrow> back_linked 0 es') \<and>
    (\<forall>x. elsewhere ?td ub x \<longrightarrow> bytes_in st' x = bytes_in st x) \<and>
    (\<forall>y. y \<noteq> h \<and> y \<notin> fst ` set es \<longrightarrow> handles st' y = handles st y) \<and>
    (\<forall>j. j \<noteq> i \<longrightarrow> infos st' j = infos st j)"
  have "\<exists>h st'. in_scope st (scope_block info) (add_handle env i info hook' pre post dat ub) = Inr (h, st') \<and>
      ?Q h st'"
  proof (rule in_scope_runs [OF i(3)])
    fix p assume p: "contents p = bytes_in st" "headers p = headers (heap st)"
      "unprotected p ?td data_size" "\<And>x. write_protected p x \<Longrightarrow> write_protected (heap st) x"
    obtain h where nh: "new_at env (st\<lparr>heap := p\<rparr>) = Inr h" "h \<noteq> 0" "handles st h = None"
      using new_at_some [OF new mem] by blast
    let ?k = "new_HookHandleExt i (info_address info) hook' pre post dat ub"
    let ?k' = "?k\<lparr>previous_handle := fst (last es), handle_backup := ?f\<rparr>"
    let ?info = "info\<lparr>handle_count := handle_count info + 1\<rparr>"
    let ?st = "st\<lparr>heap := p, handles := (handles st)(h \<mapsto> ?k), infos := (infos st)(i \<mapsto> ?info)\<rparr>"
    let ?es = "with_next es h @ [(h, ?k')]"
    note hnz = nh(2)
    have hnew: "h \<notin> fst ` set es" by (rule in_chain_old [OF nh(3) i(5)])
    have c: "chain (handles ?st) (info_root info) es"
    proof (rule chain_cong [OF i(5)])
      fix d assume "d \<in> set es"
      then have "fst d \<noteq> h" using hnew imageI by metis
      then show "handles ?st (fst d) = handles st (fst d)" by simp
    qed
    have up: "unprotected (heap ?st) ub 8" if "ub \<noteq> 0"
      using cell that p(4) by (auto simp: user_cell_ok_def cell_free_def unprotected_def)
    have run: "append_handle ?st info ?td h hook' post ub =
        Inr (with_contents ?mem (?st\<lparr>handles := (handles ?st)(fst (last es) \<mapsto> (snd (last es))\<lparr>next_handle := h\<rparr>,
          h \<mapsto> ?k')\<rparr>))"
      using append_handle_result [OF c i(4,7) _ hnz hnew _ up, where k = ?k and td = ?td and
          hook' = hook' and post = post] p(1,3) by simp
    let ?st' = "with_contents ?mem (?st\<lparr>handles := (handles ?st)(fst (last es) \<mapsto> (snd (last es))\<lparr>next_handle := h\<rparr>,
          h \<mapsto> ?k')\<rparr>)"
    have "hooked (?st'\<lparr>heap := (heap st)\<lparr>contents := ?mem\<rparr>\<rparr>) i ?info ?es"
    proof -
      have "length ?es = Suc (length es)" unfolding es by simp
      then have l: "length ?es < 2 ^ 16" "handle_count ?info = of_nat (length ?es)"
        using len i(8) by simp_all
      have ch: "chain ((handles ?st)(fst (last es) \<mapsto> (snd (last es))\<lparr>next_handle := h\<rparr>, h \<mapsto> ?k'))
          (info_root info) ?es"
        by (rule chain_with_next [OF c i(4,6) hnew hnz]) (simp add: new_HookHandleExt_def)
      have d: "distinct (map fst ?es)" using i(6) hnew unfolding es by auto
      have inf: "\<forall>d \<in> set ?es. handle_info (snd d) = i" using i(9) unfolding es
        by (auto simp: new_HookHandleExt_def)
      have b: "backups_ok (relocated info) ?es" using i(10) unfolding es
        by (simp add: backups_ok_append last_hook_append)
      have data: "data_ok (TrampolineData_at ?mem ?td) (info_root info) (relocated info) ?es"
        using cell by (intro data_ok_append [OF i(11) _ _ i(4)])
          (use kinds in \<open>auto simp: appended_data Let_def new_HookHandleExt_def user_cell_ok_def cell_free_def\<close>)
      have cells: "cells_ok (heap st) ?td ?mem ?es"
        using cell by (intro cells_ok_append [OF i(12,4)])
          (auto simp: new_HookHandleExt_def user_cell_ok_def cell_free_def appended_cells appended_own_cell)
      show ?thesis using i(1,3) l ch d inf b data cells
        by (simp add: hooked_def with_contents_def cells_ok_def cell_ok_def)
    qed
    moreover have "installed ?es = installed es @ [(h, hook', pre, post, dat)]"
      unfolding es by (simp add: installed_def new_HookHandleExt_def case_prod_beta)
    moreover have "back_linked 0 ?es" if "back_linked 0 es"
      using that unfolding es by (simp add: back_linked_append split: if_splits)
    ultimately show "\<exists>x st' mem. add_handle env i info hook' pre post dat ub (st\<lparr>heap := p\<rparr>) = Inr (x, st') \<and> heap st' = p\<lparr>contents := mem\<rparr> \<and>
        ?Q x (st'\<lparr>heap := (heap st)\<lparr>contents := mem\<rparr>\<rparr>)"
      using i(1,2,4) root run p(1) appended_elsewhere
      by (intro exI [of _ h] exI [of _ ?st'] exI [of _ ?mem])
        (auto simp: add_handle_def nh(1) Let_def update_info_def object_at_def with_contents_def)
  qed
  then show ?thesis using i(1,2) by (simp add: NewHookHandle_def object_at_def)
qed

section \<open>The first handle\<close>

text \<open>The memory after the first handle was made, with the key of the thread library, if there is one.\<close>

definition keyed :: "environment \<Rightarrow> u32 option \<Rightarrow> memory \<Rightarrow> u64 \<Rightarrow> memory" where
  "keyed env key mem td =
     (case key of
        None \<Rightarrow> mem
      | Some key \<Rightarrow>
          write_bytes (write_bytes (write_bytes mem (td + 40) (bytes_of 4 key))
            (td + 24) (bytes_of 8 (pthread_getspecific env))) (td + 32) (bytes_of 8 (pthread_setspecific env)))"

definition first_memory ::
  "environment \<Rightarrow> u32 option \<Rightarrow> memory \<Rightarrow> u64 \<Rightarrow> u64 \<Rightarrow> u64 \<Rightarrow> u64 \<Rightarrow> u64 \<Rightarrow> u64 \<Rightarrow> memory" where
  "first_memory env key mem td h hook' post ub f =
     (let mem1 = keyed env key (write_bytes mem td (bytes_of 8 h)) td;
          mem2 = (if ub \<noteq> 0 then write_bytes mem1 ub (bytes_of 8 f) else mem1);
          mem3 = (if hook' \<noteq> 0 then write_bytes mem2 (td + 8) (bytes_of 8 hook')
                  else let mem' = write_bytes mem2 (td + 16) (bytes_of 8 f) in
                       if post \<noteq> 0 then write_bytes mem' (td + 44) (bytes_of 2 (1 :: u16)) else mem')
      in write_bytes mem3 (td + 46) [1])"

lemma create_key_result:
  assumes "unprotected (heap st) td data_size"
  shows "\<exists>ks. create_key env td st =
    Inr (with_contents (keyed env (key_create env st) (bytes_in st) td) (st\<lparr>tls_keys := ks\<rparr>))"
proof (cases "key_create env st")
  case None
  have "with_contents (bytes_in st) (st\<lparr>tls_keys := tls_keys st\<rparr>) = st" by (simp add: with_contents_def)
  then show ?thesis using None by (auto simp: create_key_def keyed_def intro: exI [of _ "tls_keys st"])
next
  case (Some key)
  show ?thesis using assms Some
    by (intro exI [of _ "key # tls_keys st"])
      (simp add: create_key_def keyed_def set_data_unprotected with_contents_def)
qed

lemma with_contents_keys [simp]:
  "with_contents mem (st\<lparr>tls_keys := ks\<rparr>) = (with_contents mem st)\<lparr>tls_keys := ks\<rparr>"
  by (simp add: with_contents_def)

lemma first_handle_result:
  assumes "i \<noteq> 0" and "infos st i = Some info" and "handles st h = Some k" and "h \<noteq> 0"
    and "unprotected (heap st) td data_size" and "ub \<noteq> 0 \<Longrightarrow> unprotected (heap st) ub 8"
  shows "\<exists>key ks. first_handle env st i f td h hook' post ub =
    Inr (with_contents (first_memory env key (bytes_in st) td h hook' post ub f)
      (st\<lparr>infos := (infos st)(i \<mapsto> info\<lparr>info_root := h\<rparr>),
          handles := (handles st)(h \<mapsto> k\<lparr>handle_backup := f\<rparr>), tls_keys := ks\<rparr>))"
proof -
  let ?st = "with_contents (write_bytes (bytes_in st) td (bytes_of 8 h))
    (st\<lparr>infos := (infos st)(i \<mapsto> info\<lparr>info_root := h\<rparr>), handles := (handles st)(h \<mapsto> k\<lparr>handle_backup := f\<rparr>)\<rparr>)"
  have u: "unprotected (heap ?st) td data_size" using assms(5) by (simp add: with_contents_def)
  obtain ks where "create_key env td ?st =
      Inr (with_contents (keyed env (key_create env ?st) (bytes_in ?st) td) (?st\<lparr>tls_keys := ks\<rparr>))"
    using create_key_result [OF u] by blast
  then show ?thesis
    using assms
    by (intro exI [of _ "key_create env ?st"] exI [of _ ks])
      (auto simp: first_handle_def update_info_def update_handle_def object_at_def first_memory_def Let_def
        set_data_unprotected store_bytes_unprotected set_enabled_def [symmetric])
qed

lemma keyed_data:
  "TrampolineData_at (keyed env key mem td) td = (case key of None \<Rightarrow> TrampolineData_at mem td
    | Some key \<Rightarrow> (TrampolineData_at mem td)\<lparr>tls_key := key, getspecific := pthread_getspecific env,
        setspecific := pthread_setspecific env\<rparr>)"
  by (simp add: keyed_def TrampolineData_set split: option.splits)

lemma keyed_cells:
  "apart td data_size c 8 \<Longrightarrow> load64 (keyed env key mem td) c = load64 mem c"
  by (simp add: keyed_def load64_data_write split: option.splits)

lemma first_data:
  fixes mem td hook' post f h key env ub
  assumes "ub \<noteq> 0 \<Longrightarrow> apart td data_size ub 8"
  defines "d \<equiv> TrampolineData_at mem td"
    and "d' \<equiv> TrampolineData_at (first_memory env key mem td h hook' post ub f) td"
  shows "root_handle d' = h" and "enabled d'" and "hook d' = (if hook' \<noteq> 0 then hook' else hook d)"
    and "backup d' = (if hook' \<noteq> 0 then backup d else f)"
    and "post_handlers d' = (if hook' = 0 \<and> post \<noteq> 0 then 1 else post_handlers d)"
proof -
  have cell: "TrampolineData_at (if ub \<noteq> 0 then write_bytes m ub (bytes_of 8 f) else m) td =
      TrampolineData_at m td" for m
    using assms(1) TrampolineData_apart [of ub "bytes_of 8 f" td m] by (simp add: apart_sym bytes_of_def)
  have on: "TrampolineData_at (write_bytes m (td + 46) [1]) td = (TrampolineData_at m td)\<lparr>enabled := True\<rparr>" for m
    using TrampolineData_set(8) [of m td True] by simp
  note all = first_memory_def Let_def TrampolineData_set cell on keyed_data
  show "root_handle d' = h" "enabled d'" "hook d' = (if hook' \<noteq> 0 then hook' else hook d)"
    "backup d' = (if hook' \<noteq> 0 then backup d else f)"
    "post_handlers d' = (if hook' = 0 \<and> post \<noteq> 0 then 1 else post_handlers d)"
    unfolding d_def d'_def by (auto simp: all split: option.splits)
qed

lemma first_cells:
  assumes "apart td data_size ub 8" and "ub \<noteq> 0"
  shows "load64 (first_memory env key mem td h hook' post ub f) ub = f"
  using assms
  by (simp add: first_memory_def Let_def load64_data_write [OF assms(1)] keyed_cells load64_same)

lemma first_elsewhere:
  assumes "elsewhere td ub x"
  shows "first_memory env key mem td h hook' post ub f x = mem x"
proof -
  have td: "apart td data_size x 1" using assms by (simp add: elsewhere_def)
  have k: "keyed env key m td x = m x" for m
    by (simp add: keyed_def byte_data_write [OF td] split: option.split)
  have "(if ub \<noteq> 0 then write_bytes m ub (bytes_of 8 f) else m) x = m x" for m
    using assms by (simp add: elsewhere_def byte_apart)
  then show ?thesis by (simp add: first_memory_def Let_def byte_data_write [OF td] k)
qed

text \<open>What \<open>NewHookHandle\<close> makes of a function without a handle.\<close>

definition first_installed ::
  "library \<Rightarrow> u64 \<Rightarrow> HookInfo \<Rightarrow> u64 \<Rightarrow> u64 \<Rightarrow> u64 \<Rightarrow> u64 \<Rightarrow> u64 \<Rightarrow> u64 \<Rightarrow> library \<Rightarrow> bool" where
  "first_installed st i info hook' pre post dat ub h st' \<longleftrightarrow>
    (\<exists>info' es'. hooked st' i info' es' \<and> info' = info\<lparr>handle_count := 1, info_root := h\<rparr> \<and>
      installed es' = [(h, hook', pre, post, dat)] \<and> back_linked 0 es' \<and>
      (\<forall>e \<in> set es'. user_backup_addr (snd e) = ub) \<and>
      (let td = TrampolineData_at (bytes_in st') (GetTrampolineData (info_trampoline info)) in
       enabled td \<and> (hook' \<noteq> 0 \<longrightarrow> hook td = hook')) \<and>
      (\<forall>x. elsewhere (GetTrampolineData (info_trampoline info)) ub x \<longrightarrow> bytes_in st' x = bytes_in st x) \<and>
      (\<forall>y. y \<noteq> h \<longrightarrow> handles st' y = handles st y) \<and> (\<forall>j. j \<noteq> i \<longrightarrow> infos st' j = infos st j) \<and>
      (\<exists>mem. heap st' = (heap st)\<lparr>contents := mem\<rparr>) \<and> hooks_map st' = hooks_map st)"

lemma add_handle_first:
  assumes f: "fresh_info st i info" and kinds: "hook' = 0 \<or> post = 0" and cell: "user_cell_ok st info [] ub"
    and p: "contents p = bytes_in st" "unprotected p (GetTrampolineData (info_trampoline info)) data_size"
      "\<And>x. write_protected p x \<Longrightarrow> write_protected (heap st) x"
    and nh: "new_at env (st\<lparr>heap := p\<rparr>) = Inr h" "h \<noteq> 0"
  shows "\<exists>st' mem. add_handle env i info hook' pre post dat ub (st\<lparr>heap := p\<rparr>) = Inr (h, st') \<and>
    heap st' = p\<lparr>contents := mem\<rparr> \<and>
    first_installed st i info hook' pre post dat ub h (st'\<lparr>heap := (heap st)\<lparr>contents := mem\<rparr>\<rparr>)"
proof -
  let ?td = "GetTrampolineData (info_trampoline info)"
  from f have i: "i \<noteq> 0" "infos st i = Some info" "slot_ok (heap st) info" "info_root info = 0"
    "handle_count info = 0" "hook (TrampolineData_at (bytes_in st) ?td) = 0"
    "post_handlers (TrampolineData_at (bytes_in st) ?td) = 0"
    by (simp_all add: fresh_info_def Let_def)
  let ?k = "new_HookHandleExt i (info_address info) hook' pre post dat ub"
  let ?k' = "?k\<lparr>handle_backup := relocated info\<rparr>"
  let ?info = "info\<lparr>handle_count := handle_count info + 1\<rparr>"
  let ?info' = "info\<lparr>handle_count := 1, info_root := h\<rparr>"
  let ?st = "st\<lparr>heap := p, handles := (handles st)(h \<mapsto> ?k), infos := (infos st)(i \<mapsto> ?info)\<rparr>"
  let ?es = "[(h, ?k')]"
  have up: "unprotected (heap ?st) ub 8" if "ub \<noteq> 0"
    using cell that p(3) by (auto simp: user_cell_ok_def cell_free_def unprotected_def)
  have ok: "infos ?st i = Some ?info" "handles ?st h = Some ?k" "unprotected (heap ?st) ?td data_size"
    using p(2) by simp_all
  from first_handle_result [OF i(1) ok(1,2) nh(2) ok(3) up] obtain key ks where
    run: "first_handle env ?st i (relocated info) ?td h hook' post ub =
      Inr (with_contents (first_memory env key (bytes_in ?st) ?td h hook' post ub (relocated info))
        (?st\<lparr>infos := (infos ?st)(i \<mapsto> ?info\<lparr>info_root := h\<rparr>),
          handles := (handles ?st)(h \<mapsto> ?k'), tls_keys := ks\<rparr>))" by blast
  let ?mem = "first_memory env key (bytes_in ?st) ?td h hook' post ub (relocated info)"
  let ?st' = "with_contents ?mem
        (?st\<lparr>infos := (infos ?st)(i \<mapsto> ?info\<lparr>info_root := h\<rparr>),
          handles := (handles ?st)(h \<mapsto> ?k'), tls_keys := ks\<rparr>)"
  have apart: "ub \<noteq> 0 \<Longrightarrow> apart ?td data_size ub 8"
    using cell by (simp add: user_cell_ok_def cell_free_def)
  note d = first_data [OF apart, of env key "bytes_in ?st" h hook' post "relocated info"]
  have "hooked (?st'\<lparr>heap := (heap st)\<lparr>contents := ?mem\<rparr>\<rparr>) i ?info' ?es"
    using i nh(2) kinds d p(1) cell first_cells [of ?td ub] 
    by (auto simp: hooked_def data_ok_def target_def behind_def cells_ok_def cell_ok_def with_contents_def
        new_HookHandleExt_def user_cell_ok_def cell_free_def)
  moreover have "installed ?es = [(h, hook', pre, post, dat)]" "back_linked 0 ?es"
    "\<forall>e \<in> set ?es. user_backup_addr (snd e) = ub"
    by (simp_all add: installed_def new_HookHandleExt_def)
  ultimately have "first_installed st i info hook' pre post dat ub h (?st'\<lparr>heap := (heap st)\<lparr>contents := ?mem\<rparr>\<rparr>)"
    unfolding first_installed_def
    using d(2,3) p(1) first_elsewhere
    by (intro exI [of _ ?info'] exI [of _ ?es]) (auto simp: with_contents_def)
  moreover have "add_handle env i info hook' pre post dat ub (st\<lparr>heap := p\<rparr>) = Inr (h, ?st')"
    using i(1,2,4,5) run by (simp add: add_handle_def nh(1) Let_def update_info_def object_at_def)
  moreover have "heap ?st' = p\<lparr>contents := ?mem\<rparr>" by (simp add: with_contents_def)
  ultimately show ?thesis by blast
qed

lemma NewHookHandle_installs:
  assumes f: "fresh_info st i info" and new: "new_fresh env" and mem: "has_memory env st"
    and kinds: "hook' = 0 \<or> post = 0" and cell: "user_cell_ok st info [] ub"
  shows "\<exists>h st'. NewHookHandle env st i hook' pre post dat ub = Inr (h, st') \<and>
    first_installed st i info hook' pre post dat ub h st'"
proof -
  from f have i: "i \<noteq> 0" "infos st i = Some info" "slot_ok (heap st) info" by (simp_all add: fresh_info_def)
  have "\<exists>h st'. in_scope st (scope_block info) (add_handle env i info hook' pre post dat ub) = Inr (h, st') \<and>
      first_installed st i info hook' pre post dat ub h st'"
  proof (rule in_scope_runs [OF i(3)])
    fix p assume p: "contents p = bytes_in st" "headers p = headers (heap st)"
      "unprotected p (GetTrampolineData (info_trampoline info)) data_size"
      "\<And>x. write_protected p x \<Longrightarrow> write_protected (heap st) x"
    obtain h where nh: "new_at env (st\<lparr>heap := p\<rparr>) = Inr h" "h \<noteq> 0"
      using new_at_some [OF new mem] by blast
    show "\<exists>x st' mem. add_handle env i info hook' pre post dat ub (st\<lparr>heap := p\<rparr>) = Inr (x, st') \<and>
        heap st' = p\<lparr>contents := mem\<rparr> \<and>
        first_installed st i info hook' pre post dat ub x (st'\<lparr>heap := (heap st)\<lparr>contents := mem\<rparr>\<rparr>)"
      using add_handle_first [OF f kinds cell p(1,3,4) nh] by blast
  qed
  then show ?thesis using i(1,2) by (auto simp: NewHookHandle_def object_at_def)
qed

text \<open>When \<open>NewHookHandle\<close> returns, there was memory for the handle.\<close>

lemma NewHookHandle_installed:
  assumes f: "fresh_info st i info" and new: "new_fresh env" and kinds: "hook' = 0 \<or> post = 0"
    and cell: "user_cell_ok st info [] ub" and run: "NewHookHandle env st i hook' pre post dat ub = Inr (h, st')"
  shows "first_installed st i info hook' pre post dat ub h st'"
proof -
  from f have i: "i \<noteq> 0" "infos st i = Some info" "slot_ok (heap st) info" by (simp_all add: fresh_info_def)
  let ?body = "add_handle env i info hook' pre post dat ub"
  from in_scope_opened [OF i(3), of ?body] obtain p fin where
    p: "contents p = bytes_in st" "unprotected p (GetTrampolineData (info_trampoline info)) data_size"
      "\<And>x. write_protected p x \<Longrightarrow> write_protected (heap st) x"
    and scope: "in_scope st (scope_block info) ?body = bnd (?body (st\<lparr>heap := p\<rparr>)) fin"
    and fin: "\<And>x st' mem. heap st' = p\<lparr>contents := mem\<rparr> \<Longrightarrow>
       fin (x, st') = Inr (x, st'\<lparr>heap := (heap st)\<lparr>contents := mem\<rparr>\<rparr>)" by blast
  have "bnd (?body (st\<lparr>heap := p\<rparr>)) fin = Inr (h, st')"
    using run i(1,2) scope by (simp add: NewHookHandle_def object_at_def)
  moreover from this obtain h1 where h1: "new_at env (st\<lparr>heap := p\<rparr>) = Inr h1"
    by (cases "new_at env (st\<lparr>heap := p\<rparr>)") (simp_all add: add_handle_def Let_def)
  moreover have "h1 \<noteq> 0"
    using h1 new unfolding new_fresh_def by (auto simp: new_at_def split: option.splits)
  ultimately show ?thesis using add_handle_first [OF f kinds cell p h1, of pre dat] fin by auto
qed

lemma NewHookHandle_first:
  assumes f: "fresh_info st i info" and new: "new_fresh env" and mem: "has_memory env st"
    and kinds: "hook' = 0 \<or> post = 0" and cell: "user_cell_ok st info [] ub"
  shows "\<exists>h st' info' es'. NewHookHandle env st i hook' pre post dat ub = Inr (h, st') \<and>
    hooked st' i info' es' \<and> info' = info\<lparr>handle_count := 1, info_root := h\<rparr> \<and>
    installed es' = [(h, hook', pre, post, dat)] \<and> back_linked 0 es' \<and>
    enabled (TrampolineData_at (bytes_in st') (GetTrampolineData (info_trampoline info'))) \<and>
    (\<forall>x. elsewhere (GetTrampolineData (info_trampoline info)) ub x \<longrightarrow> bytes_in st' x = bytes_in st x) \<and>
    (\<forall>y. y \<noteq> h \<longrightarrow> handles st' y = handles st y) \<and> (\<forall>j. j \<noteq> i \<longrightarrow> infos st' j = infos st j)"
proof -
  from NewHookHandle_installs [OF assms, of pre dat] obtain h st' where
    "NewHookHandle env st i hook' pre post dat ub = Inr (h, st')"
    "first_installed st i info hook' pre post dat ub h st'" by blast
  then show ?thesis
    unfolding first_installed_def Let_def
    by (elim exE conjE, intro exI conjI) (assumption | simp)+
qed

end
