(* ===== verification/Hook_Removal.thy ===== *)
theory Hook_Removal
  imports Hook_Installation
begin

text \<open>
  \<open>UnhookExt\<close> refines removing a handle from the list of hooks, as long as the links to the previous
  handles are right.
\<close>

section \<open>The hook before a handle\<close>

lemma last_hook_default: "last_hook f es = (if last_hook 0 es \<noteq> 0 then last_hook 0 es else f)"
proof (induction es rule: rev_induct)
  case (snoc e es)
  then show ?case by (auto simp: last_hook_append behind_def)
qed simp

definition last_handle :: "entry list \<Rightarrow> u64" where
  "last_handle es = (if es = [] then 0 else fst (last es))"

lemma find_previous_chain:
  assumes "chain_to (handles st) p es q" and "back_linked 0 es" and "length es < n"
  shows "find_previous_hook n st (last_handle es) = Inr (last_hook 0 es)"
  using assms
proof (induction es arbitrary: n q rule: rev_induct)
  case Nil
  then show ?case by (cases n) (auto simp: last_handle_def)
next
  case (snoc e es)
  then obtain m where n: "n = Suc m" "length es < m" by (cases n) auto
  from snoc.prems have e: "fst e \<noteq> 0" "handles st (fst e) = Some (snd e)" "previous_handle (snd e) = last_handle es"
    and es: "chain_to (handles st) p es (fst e)" "back_linked 0 es"
    by (auto simp: chain_to_append back_linked_append last_handle_def)
  show ?case
    using snoc.IH [OF es n(2)] e
    by (simp add: n last_handle_def [of "es @ [e]"] object_at_def last_hook_append behind_def)
qed

section \<open>Telling the following handles their new backup\<close>

primrec rebacked :: "u64 \<Rightarrow> entry list \<Rightarrow> entry list" where
  "rebacked f [] = []"
| "rebacked f (e # es) =
     (fst e, (snd e)\<lparr>handle_backup := f\<rparr>) # (if hook_function (snd e) \<noteq> 0 then es else rebacked f es)"

lemma rebacked_view [simp]:
  "map fst (rebacked f es) = map fst es" "length (rebacked f es) = length es"
  "handlers (rebacked f es) = handlers es" "last_hook g (rebacked f es) = last_hook g es"
  "installed (rebacked f es) = installed es" "rebacked f es = [] \<longleftrightarrow> es = []"
  by (induction es arbitrary: g) (auto simp: installed_def behind_def)

lemma rebacked_backups: "backups_ok g es \<Longrightarrow> backups_ok f (rebacked f es)"
  by (induction es arbitrary: g) (auto simp: behind_def)

lemma rebacked_member:
  "e \<in> set (rebacked f es) \<Longrightarrow> \<exists>d \<in> set es. fst e = fst d \<and>
     (snd e = snd d \<or> snd e = (snd d)\<lparr>handle_backup := f\<rparr>)"
  by (induction es) (auto split: if_splits)

lemma rebacked_hooks:
  "(\<forall>e \<in> set (rebacked f es). P (hook_function (snd e))) \<longleftrightarrow> (\<forall>e \<in> set es. P (hook_function (snd e)))"
  by (induction es) auto

lemma rebacked_infos:
  "(\<forall>e \<in> set (rebacked f es). handle_info (snd e) = i) \<longleftrightarrow> (\<forall>e \<in> set es. handle_info (snd e) = i)"
  by (induction es) auto

lemma rebacked_separate:
  "sorted_wrt (\<lambda>d e. separate (snd d) (snd e)) es \<Longrightarrow>
   sorted_wrt (\<lambda>d e. separate (snd d) (snd e)) (rebacked f es)"
  by (induction es) (auto dest!: rebacked_member simp: separate_def)

text \<open>A memory that differs from another one only in variables of the user that \<open>es\<close> uses.\<close>

definition same_but_cells :: "u64 \<Rightarrow> entry list \<Rightarrow> memory \<Rightarrow> memory \<Rightarrow> bool" where
  "same_but_cells td es mem mem' \<longleftrightarrow>
     TrampolineData_at mem' td = TrampolineData_at mem td \<and>
     (\<forall>c. (\<forall>e \<in> set es. user_backup_addr (snd e) \<noteq> 0 \<longrightarrow> apart (user_backup_addr (snd e)) 8 c 8) \<longrightarrow>
        load64 mem' c = load64 mem c)"

lemma UpdateBackup_result:
  assumes "handles st x = Some h" and "x \<noteq> 0" and "cell_ok (heap st) td (bytes_in st) h"
  shows "\<exists>mem. UpdateBackup x f st =
      Inr (with_contents mem (st\<lparr>handles := (handles st)(x \<mapsto> h\<lparr>handle_backup := f\<rparr>)\<rparr>)) \<and>
    same_but_cells td [(x, h)] (bytes_in st) mem \<and> cell_ok (heap st) td mem (h\<lparr>handle_backup := f\<rparr>)"
proof (cases "user_backup_addr h = 0")
  case True
  have "with_contents (bytes_in st) (st\<lparr>handles := (handles st)(x \<mapsto> h\<lparr>handle_backup := f\<rparr>)\<rparr>) =
      st\<lparr>handles := (handles st)(x \<mapsto> h\<lparr>handle_backup := f\<rparr>)\<rparr>" by (simp add: with_contents_def)
  then show ?thesis using True assms
    by (intro exI [of _ "bytes_in st"])
      (simp add: UpdateBackup_def object_at_def update_handle_def same_but_cells_def cell_ok_def)
next
  case False
  let ?c = "user_backup_addr h"
  have c: "load64 (bytes_in st) ?c = handle_backup h" "unprotected (heap st) ?c 8" "apart td data_size ?c 8"
    using assms(3) False by (simp_all add: cell_ok_def)
  have td: "TrampolineData_at (write_bytes (bytes_in st) ?c (bytes_of 8 f)) td = TrampolineData_at (bytes_in st) td"
    using TrampolineData_apart [of ?c "bytes_of 8 f" td] c(3) by (simp add: apart_sym bytes_of_def)
  show ?thesis using False assms(1,2) c td
    by (intro exI [of _ "write_bytes (bytes_in st) ?c (bytes_of 8 f)"])
      (simp add: UpdateBackup_def object_at_def update_handle_def store_bytes_unprotected same_but_cells_def
        cell_ok_def load64_same load64_apart with_contents_def)
qed

lemma update_following_result:
  assumes "chain (handles st) p es" and "length es < n" and "distinct (map fst es)"
    and "cells_ok (heap st) td (bytes_in st) es"
  shows "\<exists>mem H. update_following n p f st = Inr (with_contents mem (st\<lparr>handles := H\<rparr>)) \<and>
    chain H p (rebacked f es) \<and> (\<forall>x. x \<notin> fst ` set es \<longrightarrow> H x = handles st x) \<and>
    same_but_cells td es (bytes_in st) mem \<and> cells_ok (heap st) td mem (rebacked f es)"
  using assms
proof (induction es arbitrary: p n st)
  case Nil
  then obtain m where "n = Suc m" by (cases n) auto
  moreover have "with_contents (bytes_in st) (st\<lparr>handles := handles st\<rparr>) = st" by (simp add: with_contents_def)
  ultimately show ?case using Nil
    by (intro exI [of _ "bytes_in st"] exI [of _ "handles st"]) (simp add: same_but_cells_def)
next
  case (Cons e es)
  from Cons.prems obtain m where n: "n = Suc m" "length es < m" by (cases n) auto
  obtain x h where e: "e = (x, h)" by (cases e)
  from Cons.prems(1) have x: "p = x" "x \<noteq> 0" "handles st x = Some h" "chain (handles st) (next_handle h) es"
    by (auto simp: e)
  have co: "cell_ok (heap st) td (bytes_in st) h" "cells_ok (heap st) td (bytes_in st) es"
    and sep: "\<And>d. d \<in> set es \<Longrightarrow> separate h (snd d)"
    using Cons.prems(4) by (simp_all add: cells_ok_def e)
  have new: "x \<notin> fst ` set es" "distinct (map fst es)" using Cons.prems(3) by (simp_all add: e)
  from UpdateBackup_result [OF x(3,2) co(1), of f] obtain mem where
    mem: "UpdateBackup x f st = Inr (with_contents mem (st\<lparr>handles := (handles st)(x \<mapsto> h\<lparr>handle_backup := f\<rparr>)\<rparr>))"
      "same_but_cells td [(x, h)] (bytes_in st) mem" "cell_ok (heap st) td mem (h\<lparr>handle_backup := f\<rparr>)" by blast
  let ?H = "(handles st)(x \<mapsto> h\<lparr>handle_backup := f\<rparr>)"
  let ?st = "with_contents mem (st\<lparr>handles := ?H\<rparr>)"
  have rest: "cell_ok (heap st) td mem (snd d)" if "d \<in> set es" for d
    using that co(2) sep [OF that] mem(2)
    by (auto simp: cells_ok_def cell_ok_def same_but_cells_def separate_def)
  have ch: "chain ?H (next_handle h) es"
    using chain_cong [OF x(4), of ?H] new(1) imageI by (metis fun_upd_other)
  have cells: "cells_ok (heap ?st) td (bytes_in ?st) es"
    using rest co(2) by (simp add: cells_ok_def cell_ok_def)
  show ?case
  proof (cases "hook_function h \<noteq> 0")
    case True
    have "update_following n p f st = Inr ?st"
      using n x mem(1) True by (simp add: object_at_def)
    moreover have "cells_ok (heap st) td mem (rebacked f (e # es))"
      using True mem(3) cells sep by (simp add: e cells_ok_def separate_def cell_ok_def)
    moreover have "same_but_cells td (e # es) (bytes_in st) mem"
      using mem(2) by (simp add: same_but_cells_def e)
    moreover have "chain ?H p (rebacked f (e # es))" using True x ch by (simp add: e)
    ultimately show ?thesis
      using e by (intro exI [of _ mem] exI [of _ ?H] conjI) (assumption | simp)+
  next
    case False
    have c: "chain (handles ?st) (next_handle h) es" using ch by simp
    from Cons.IH [OF c n(2) new(2) cells] obtain mem' H where
      IH: "update_following m (next_handle h) f ?st = Inr (with_contents mem' (?st\<lparr>handles := H\<rparr>))"
        "chain H (next_handle h) (rebacked f es)" "\<forall>y. y \<notin> fst ` set es \<longrightarrow> H y = handles ?st y"
        "same_but_cells td es (bytes_in ?st) mem'" "cells_ok (heap ?st) td mem' (rebacked f es)" by blast
    have "update_following n p f st = Inr (with_contents mem' (st\<lparr>handles := H\<rparr>))"
      using n x mem(1) False IH(1) by (simp add: object_at_def with_contents_def)
    moreover have "H x = Some (h\<lparr>handle_backup := f\<rparr>)" using IH(3) new(1) by simp
    moreover have "cell_ok (heap st) td mem' (h\<lparr>handle_backup := f\<rparr>)"
      using mem(3) IH(4) sep by (auto simp: cell_ok_def same_but_cells_def separate_def apart_sym)
    ultimately show ?thesis
      using False x IH sep mem(2)
      by (intro exI [of _ mem'] exI [of _ H])
        (auto simp: e cells_ok_def cell_ok_def same_but_cells_def separate_def dest!: rebacked_member)
  qed
qed

section \<open>Taking a handle out of the list\<close>

definition relinked :: "entry list \<Rightarrow> u64 \<Rightarrow> entry list" where
  "relinked es q = (if es = [] then [] else with_next es q)"

lemma relinked_snoc [simp]: "relinked (es @ [e]) q = es @ [(fst e, (snd e)\<lparr>next_handle := q\<rparr>)]"
  by (simp add: relinked_def)

lemma relinked_Nil [simp]: "relinked [] q = []"
  by (simp add: relinked_def)

lemma relinked_view [simp]:
  "map fst (relinked es q) = map fst es" "length (relinked es q) = length es"
  "handlers (relinked es q) = handlers es" "last_hook f (relinked es q) = last_hook f es"
  "installed (relinked es q) = installed es" "backups_ok f (relinked es q) = backups_ok f es"
  "back_linked r (relinked es q) = back_linked r es"
  by (cases es rule: rev_cases;
      simp add: installed_def last_hook_append backups_ok_append back_linked_append case_prod_beta)+

lemma relinked_member:
  "e \<in> set (relinked es q) \<Longrightarrow> \<exists>g \<in> set es. user_backup_addr (snd g) = user_backup_addr (snd e)"
  by (cases es rule: rev_cases) auto

lemma relinked_hooks:
  "(\<forall>e \<in> set (relinked es q). P (hook_function (snd e))) \<longleftrightarrow> (\<forall>e \<in> set es. P (hook_function (snd e)))"
  "(\<forall>e \<in> set (relinked es q). handle_info (snd e) = i) \<longleftrightarrow> (\<forall>e \<in> set es. handle_info (snd e) = i)"
  by (cases es rule: rev_cases; auto)+

lemma relinked_cells: "cells_ok p td mem (relinked es q @ es') \<longleftrightarrow> cells_ok p td mem (es @ es')"
  by (cases es rule: rev_cases)
    (auto simp: cells_ok_def cell_ok_def sorted_wrt_append separate_def)

text \<open>The memory before and after the following handles are told.\<close>

definition counted_out :: "memory \<Rightarrow> u64 \<Rightarrow> bool \<Rightarrow> HookHandleExt \<Rightarrow> memory" where
  "counted_out mem td first k =
     (let mem1 = (if post_handler k \<noteq> 0
          then write_bytes mem (td + 44) (bytes_of 2 (post_handlers (TrampolineData_at mem td) - 1)) else mem)
      in if first then write_bytes mem1 td (bytes_of 8 (next_handle k)) else mem1)"

definition switched :: "memory \<Rightarrow> u64 \<Rightarrow> u64 \<Rightarrow> u64 \<Rightarrow> u64 \<Rightarrow> memory" where
  "switched mem td hk previous f =
     (if hk \<noteq> 0 then
        let mem1 = (if hook (TrampolineData_at mem td) = hk then write_bytes mem (td + 8) (bytes_of 8 previous)
                    else mem)
        in if backup (TrampolineData_at mem1 td) = hk then write_bytes mem1 (td + 16) (bytes_of 8 f) else mem1
      else mem)"

lemma counted_out_data:
  "TrampolineData_at (counted_out mem td first k) td =
    (let d = TrampolineData_at mem td;
         d' = d\<lparr>post_handlers := post_handlers d - (if post_handler k \<noteq> 0 then 1 else 0)\<rparr>
     in if first then d'\<lparr>root_handle := next_handle k\<rparr> else d')"
  by (simp add: counted_out_def Let_def TrampolineData_set)

lemma switched_data:
  "TrampolineData_at (switched mem td hk previous f) td =
    (let d = TrampolineData_at mem td in
     if hk = 0 then d
     else let d' = (if hook d = hk then d\<lparr>hook := previous\<rparr> else d) in
       if backup d' = hk then d'\<lparr>backup := f\<rparr> else d')"
  by (simp add: switched_def Let_def TrampolineData_set)

lemma removal_cells:
  assumes "apart td data_size c 8"
  shows "load64 (counted_out mem td first k) c = load64 mem c"
    and "load64 (switched mem td hk previous f) c = load64 mem c"
  using assms by (simp_all add: counted_out_def switched_def Let_def load64_data_write [OF assms])

lemma cells_ok_same:
  assumes "cells_ok p td mem es" and "\<And>c. apart td data_size c 8 \<Longrightarrow> load64 mem' c = load64 mem c"
  shows "cells_ok p td mem' es"
  using assms by (auto simp: cells_ok_def cell_ok_def)

lemma remove_handle_result:
  fixes info ys x k zs st
  defines "td \<equiv> GetTrampolineData (info_trampoline info)"
    and "f \<equiv> last_hook (relocated info) ys"
    and "es' \<equiv> relinked ys (next_handle k) @ rebacked (last_hook (relocated info) ys) zs"
  assumes ch: "chain (handles st) (info_root info) (ys @ (x, k) # zs)"
    and d: "distinct (map fst (ys @ (x, k) # zs))" and len: "length (ys @ (x, k) # zs) < 2 ^ 16"
    and bl: "back_linked 0 (ys @ [(x, k)])"
    and cells: "cells_ok (heap st) td (bytes_in st) (ys @ (x, k) # zs)"
    and i: "handle_info k = i" "i \<noteq> 0" "infos st i = Some info'"
    and u: "unprotected (heap st) td data_size"
  shows "\<exists>mem mid H. remove_handle info x st =
      Inr (with_contents mem (st\<lparr>handles := H, infos := (if ys = []
        then (infos st)(i \<mapsto> info'\<lparr>info_root := next_handle k\<rparr>) else infos st)\<rparr>)) \<and>
    chain H (if ys = [] then next_handle k else info_root info) es' \<and> H x = None \<and>
    cells_ok (heap st) td mem es' \<and>
    TrampolineData_at mid td = TrampolineData_at (counted_out (bytes_in st) td (ys = []) k) td \<and>
    TrampolineData_at mem td =
      TrampolineData_at (switched mid td (hook_function k) (last_hook 0 ys) f) td"
proof -
  from ch have c: "chain_to (handles st) (info_root info) ys x" "x \<noteq> 0" "handles st x = Some k"
    "chain (handles st) (next_handle k) zs" by (auto simp: chain_append)
  have first: "info_root info = x \<longleftrightarrow> ys = []"
    using c(1) d by (cases ys) auto
  have prev: "previous_handle k = last_handle ys"
    using bl by (simp add: back_linked_append last_handle_def split: if_splits)
  let ?I = "if ys = [] then (infos st)(i \<mapsto> info'\<lparr>info_root := next_handle k\<rparr>) else infos st"
  let ?m1 = "counted_out (bytes_in st) td (ys = []) k"
  let ?st1 = "with_contents ?m1 (st\<lparr>infos := ?I\<rparr>)"
  have same: "with_contents (bytes_in s) s = s" for s by (simp add: with_contents_def)
  have s1: "bnd (if post_handler k \<noteq> 0 then
            set_post_handlers td (post_handlers (TrampolineData_at (bytes_in st) td) - 1) st
          else Inr st) (\<lambda>st.
        if info_root info = x then
            bnd (update_info (handle_info k) (\<lambda>i. i\<lparr>info_root := next_handle k\<rparr>) st)
              (set_root td (next_handle k))
          else Inr st) = Inr ?st1"
    using u i c(2) by (simp add: first counted_out_def Let_def set_data_unprotected update_info_def
        object_at_def same with_contents_def)
  have fp: "find_previous_hook kMaxHandles ?st1 (previous_handle k) = Inr (last_hook 0 ys)"
  proof -
    have "length ys < kMaxHandles" using len by (simp add: kMaxHandles_def)
    then show ?thesis
      using find_previous_chain [of ?st1 "info_root info" ys x kMaxHandles] c(1) bl
      by (simp add: prev back_linked_append)
  qed
  have f: "(if last_hook 0 ys \<noteq> 0 then last_hook 0 ys else relocated info) = f"
    unfolding f_def by (rule last_hook_default [symmetric])
  have cells1: "cells_ok (heap st) td ?m1 (ys @ (x, k) # zs)"
    by (rule cells_ok_same [OF cells]) (rule removal_cells)
  then have cz: "cells_ok (heap ?st1) td (bytes_in ?st1) zs"
    by (auto simp: cells_ok_def cell_ok_def sorted_wrt_append)
  have uf: "chain (handles ?st1) (next_handle k) zs" "length zs < kMaxHandles" "distinct (map fst zs)"
    using c(4) len d by (simp_all add: kMaxHandles_def)
  from update_following_result [OF uf cz, of f] obtain m2 H where
    m2: "update_following kMaxHandles (next_handle k) f ?st1 = Inr (with_contents m2 (?st1\<lparr>handles := H\<rparr>))"
      "chain H (next_handle k) (rebacked f zs)" "\<forall>y. y \<notin> fst ` set zs \<longrightarrow> H y = handles ?st1 y"
      "same_but_cells td zs (bytes_in ?st1) m2" "cells_ok (heap ?st1) td m2 (rebacked f zs)" by blast
  let ?st2 = "with_contents m2 (?st1\<lparr>handles := H\<rparr>)"
  let ?m3 = "switched m2 td (hook_function k) (last_hook 0 ys) f"
  let ?st3 = "with_contents ?m3 ?st2"
  have s3: "(if hook_function k \<noteq> 0 then
            bnd (if hook (TrampolineData_at (bytes_in ?st2) td) = hook_function k
                 then set_hook td (last_hook 0 ys) ?st2 else Inr ?st2) (\<lambda>st.
            if backup (TrampolineData_at (bytes_in st) td) = hook_function k
            then set_backup td f st else Inr st)
          else Inr ?st2) = Inr ?st3"
    using u by (simp add: switched_def Let_def set_data_unprotected with_contents_def)
  have Hys: "H (fst e) = Some (snd e)" "fst e \<noteq> 0" "fst e \<noteq> x" if "e \<in> set ys" for e
  proof -
    have e: "fst e \<in> fst ` set ys" using that by (rule imageI)
    then have "fst e \<notin> fst ` set zs" "fst e \<noteq> x" using d by auto
    moreover have "fst e \<noteq> 0" "handles st (fst e) = Some (snd e)"
      using chain_nonzero [OF ch, of e] that by simp_all
    ultimately show "H (fst e) = Some (snd e)" "fst e \<noteq> 0" "fst e \<noteq> x" using m2(3) by auto
  qed
  let ?H4 = "if ys = [] then H else H(last_handle ys \<mapsto> (snd (last ys))\<lparr>next_handle := next_handle k\<rparr>)"
  have s4: "(if previous_handle k \<noteq> 0
          then update_handle (previous_handle k) (\<lambda>p. p\<lparr>next_handle := next_handle k\<rparr>) ?st3
          else Inr ?st3) = Inr (?st3\<lparr>handles := ?H4\<rparr>)"
    using Hys [of "last ys"] by (simp add: prev last_handle_def update_handle_def object_at_def)
  let ?H5 = "?H4(x := None)"
  have x5: "x \<notin> fst ` set zs" "last_handle ys \<noteq> x"
    using d c(2) Hys [of "last ys"] by (auto simp: last_handle_def)
  have s5: "bnd (update_handle x (\<lambda>h. h\<lparr>handle_info := 0\<rparr>) (?st3\<lparr>handles := ?H4\<rparr>)) (\<lambda>st.
      Inr (delete_handle x st)) = Inr (?st3\<lparr>handles := ?H5\<rparr>)"
    using x5 m2(3) c(2,3) by (auto simp: update_handle_def object_at_def delete_handle_def)
  have obj: "object_at (handles st) x = Inr k" using c(2,3) by (simp add: object_at_def)
  have run: "remove_handle info x st = Inr (?st3\<lparr>handles := ?H5\<rparr>)"
    unfolding remove_handle_def obj bnd_Inr Let_def td_def [symmetric]
    by (subst bnd_assoc [symmetric]) (simp only: s1 bnd_Inr fp f m2(1) s3 s4 s5)
  have final: "?st3\<lparr>handles := ?H5\<rparr> = with_contents ?m3 (st\<lparr>handles := ?H5, infos := ?I\<rparr>)"
    by (simp add: with_contents_def)
  have zs5: "?H5 (fst e) = H (fst e)" if "e \<in> set zs" for e
  proof -
    have "fst e \<in> fst ` set zs" using that by (rule imageI)
    then have "fst e \<noteq> x" using x5(1) by metis
    moreover have "last_handle ys \<notin> fst ` set zs" if "ys \<noteq> []"
    proof -
      have "last_handle ys \<in> fst ` set ys" using that by (simp add: last_handle_def)
      then show ?thesis using d by auto
    qed
    then have "ys \<noteq> [] \<Longrightarrow> fst e \<noteq> last_handle ys" using \<open>fst e \<in> fst ` set zs\<close> by metis
    ultimately show ?thesis by simp
  qed
  have tail: "chain ?H5 (next_handle k) (rebacked f zs)"
  proof (rule chain_cong [OF m2(2)])
    fix e assume "e \<in> set (rebacked f zs)"
    then obtain z where "z \<in> set zs" "fst e = fst z" using rebacked_member by blast
    then show "?H5 (fst e) = H (fst e)" using zs5 [of z] by (simp only:)
  qed
  have "chain ?H5 (if ys = [] then next_handle k else info_root info) es'"
  proof (cases ys rule: rev_cases)
    case Nil
    then show ?thesis using tail by (simp add: es'_def f_def)
  next
    case (snoc ws e)
    have "chain_to ?H5 (info_root info) ws (fst e)"
    proof (rule chain_to_cong)
      show "chain_to (handles st) (info_root info) ws (fst e)" using c(1) snoc by (auto simp: chain_to_append)
      fix w assume w: "w \<in> set ws"
      have "fst w \<in> fst ` set ws" using w by (rule imageI)
      moreover have "fst e \<notin> fst ` set ws" using d snoc by simp
      ultimately have "fst w \<noteq> fst e" by metis
      moreover have "handles st (fst w) = Some (snd w)"
        using chain_nonzero [OF ch, of w] w snoc by simp
      ultimately show "?H5 (fst w) = handles st (fst w)"
        using Hys [of w] w snoc by (simp add: last_handle_def)
    qed
    moreover have "?H5 (fst e) = Some ((snd e)\<lparr>next_handle := next_handle k\<rparr>)" "fst e \<noteq> 0"
      using Hys [of e] snoc by (auto simp: last_handle_def)
    ultimately show ?thesis
      using tail snoc unfolding es'_def f_def by (simp add: chain_append chain_to_append)
  qed
  moreover have "cells_ok (heap st) td ?m3 es'"
  proof (rule cells_ok_same [OF _ removal_cells(2)])
    have z: "cells_ok (heap st) td m2 (rebacked f zs)" using m2(5) by (simp add: cells_ok_def cell_ok_def)
    have sep: "separate (snd e) (snd g)" if "e \<in> set ys" "g \<in> set zs" for e g
      using cells1 that by (auto simp: cells_ok_def sorted_wrt_append)
    have "cell_ok (heap st) td m2 (snd e)" if "e \<in> set ys" for e
      using cells1 that m2(4) sep [OF that]
      by (auto simp: cells_ok_def cell_ok_def same_but_cells_def separate_def apart_sym)
    moreover have "separate (snd e) (snd g)" if "e \<in> set ys" "g \<in> set (rebacked f zs)" for e g
      using rebacked_member [OF that(2)] sep [OF that(1)] by (auto simp: separate_def)
    ultimately have "cells_ok (heap st) td m2 (ys @ rebacked f zs)"
      using cells1 z unfolding cells_ok_def sorted_wrt_append by auto
    then show "cells_ok (heap st) td m2 es'" by (simp add: es'_def f_def relinked_cells)
  qed
  moreover have "TrampolineData_at m2 td = TrampolineData_at ?m1 td" using m2(4) by (simp add: same_but_cells_def)
  ultimately show ?thesis unfolding run final
    by (intro exI [of _ ?m3] exI [of _ m2] exI [of _ ?H5]) simp
qed

section \<open>\<open>UnhookExt\<close> while other handles remain\<close>

text \<open>No other handle has the hook of \<open>k\<close>.\<close>

definition only_hook :: "HookHandleExt \<Rightarrow> entry list \<Rightarrow> bool" where
  "only_hook k es \<longleftrightarrow> hook_function k \<noteq> 0 \<longrightarrow> (\<forall>e \<in> set es. hook_function (snd e) \<noteq> hook_function k)"

lemma last_hook_member:
  "last_hook f es = f \<and> (\<forall>e \<in> set es. hook_function (snd e) = 0) \<or>
   last_hook f es \<noteq> 0 \<and> (\<exists>e \<in> set es. hook_function (snd e) = last_hook f es)"
  by (induction es rule: rev_induct) (auto simp: last_hook_append behind_def)

text \<open>The data of the trampoline after \<open>k\<close> was removed, the handle before which the hook \<open>previous\<close> is.\<close>

definition removed_data ::
  "TrampolineData \<Rightarrow> bool \<Rightarrow> u64 \<Rightarrow> HookHandleExt \<Rightarrow> u64 \<Rightarrow> u64 \<Rightarrow> TrampolineData" where
  "removed_data d first root' k previous f =
     (let d1 = (let d' = d\<lparr>post_handlers := post_handlers d - (if post_handler k \<noteq> 0 then 1 else 0)\<rparr>
                in if first then d'\<lparr>root_handle := root'\<rparr> else d')
      in if hook_function k = 0 then d1
         else let d' = (if hook d1 = hook_function k then d1\<lparr>hook := previous\<rparr> else d1) in
              if backup d' = hook_function k then d'\<lparr>backup := f\<rparr> else d')"

lemma data_ok_remove:
  assumes d: "data_ok d root f (ys @ (x, k) # zs)" and ne: "ys @ zs \<noteq> []" and only: "only_hook k (ys @ zs)"
    and d2: "d2 = removed_data d first root' k (last_hook 0 ys) (last_hook f ys)"
  shows "data_ok d2 (if first then root' else root) f (ys @ zs)"
proof -
  define d1 where "d1 = (let d' = d\<lparr>post_handlers := post_handlers d - (if post_handler k \<noteq> 0 then 1 else 0)\<rparr>
      in if first then d'\<lparr>root_handle := root'\<rparr> else d')"
  have d2: "d2 = (if hook_function k = 0 then d1
      else let d' = (if hook d1 = hook_function k then d1\<lparr>hook := last_hook 0 ys\<rparr> else d1) in
        if backup d' = hook_function k then d'\<lparr>backup := last_hook f ys\<rparr> else d')"
    unfolding d2 removed_data_def d1_def [symmetric] Let_def [of d1] ..
  have t: "target d = last_hook (behind (last_hook f ys) k) zs" and r: "root_handle d = root"
    and all: "hook d \<noteq> 0 \<Longrightarrow> (\<forall>e \<in> set ys \<union> set zs. hook_function (snd e) \<noteq> 0) \<and> hook_function k \<noteq> 0"
    and p: "post_handlers d = of_nat (handlers (ys @ (x, k) # zs))"
    using d by (auto simp: data_ok_def last_hook_append)
  have p1: "post_handlers d2 = of_nat (handlers (ys @ zs))"
    using p by (simp add: d1_def d2 Let_def)
  have r1: "root_handle d2 = (if first then root' else root)"
    using r by (simp add: d1_def d2 Let_def)
  have h1: "hook d1 = hook d" "backup d1 = backup d" by (simp_all add: d1_def Let_def)
  show ?thesis
  proof (cases "hook_function k = 0")
    case True
    then have "hook d = 0" using all by blast
    moreover have "target d = last_hook f (ys @ zs)" using t True by (simp add: behind_def last_hook_append)
    ultimately show ?thesis using p1 r1 True h1 by (simp add: data_ok_def d2 target_def)
  next
    case False
    let ?h = "hook_function k"
    have t': "target d = last_hook ?h zs" using t False by (simp add: behind_def)
    have no: "\<forall>e \<in> set ys \<union> set zs. hook_function (snd e) \<noteq> ?h" using only False by (auto simp: only_hook_def)
    consider (last) "last_hook ?h zs = ?h" "\<forall>e \<in> set zs. hook_function (snd e) = 0"
      | (later) "last_hook ?h zs \<noteq> ?h" "last_hook ?h zs = last_hook (last_hook f ys) zs"
      using last_hook_member [of ?h zs] no False last_hook_default [of ?h zs]
        last_hook_default [of "last_hook f ys" zs] by (metis UnCI)
    then show ?thesis
    proof cases
      case later
      then have "hook d \<noteq> ?h" "hook d = 0 \<Longrightarrow> backup d \<noteq> ?h" using t' False by (auto simp: target_def)
      then show ?thesis using p1 r1 False later(2) t' h1 all
        by (auto simp: data_ok_def d2 target_def last_hook_append Let_def)
    next
      case last
      have l: "last_hook f (ys @ zs) = last_hook f ys"
        using last(2) last_hook_member [of "last_hook f ys" zs] by (auto simp: last_hook_append)
      show ?thesis
      proof (cases "hook d = 0")
        case True
        then have "backup d = ?h" using t' last(1) by (simp add: target_def)
        then show ?thesis using True False p1 r1 l h1 by (simp add: data_ok_def d2 target_def Let_def)
      next
        case hd: False
        then have hk: "hook d = ?h" using t' last(1) by (simp add: target_def)
        have "zs = []" using all [OF hd] last(2) by (cases zs) auto
        then have "ys \<noteq> []" using ne by simp
        then have "last_hook 0 ys \<noteq> 0"
          using all [OF hd] last_hook_member [of 0 ys] by (metis UnI1 last_in_set)
        then have "last_hook 0 ys = last_hook f ys" using last_hook_default [of f ys] by simp
        then show ?thesis using hk False p1 r1 l h1 all [OF hd] \<open>last_hook 0 ys \<noteq> 0\<close>
          by (auto simp: data_ok_def d2 target_def Let_def)
      qed
    qed
  qed
qed

lemma unat_of_nat_16: "n < 2 ^ 16 \<Longrightarrow> unat (of_nat n :: u16) = n"
  by (simp add: unat_of_nat)

lemma data_ok_view:
  "data_ok d root f (relinked ys q @ rebacked g zs) \<longleftrightarrow> data_ok d root f (ys @ zs)"
  using relinked_hooks(1) [of ys q "\<lambda>h. h \<noteq> 0"] rebacked_hooks [of g zs "\<lambda>h. h \<noteq> 0"]
  by (auto simp: data_ok_def last_hook_append)

text \<open>The list that remains.\<close>

definition without :: "u64 \<Rightarrow> entry list \<Rightarrow> HookHandleExt \<Rightarrow> entry list \<Rightarrow> entry list" where
  "without original ys k zs = relinked ys (next_handle k) @ rebacked (last_hook original ys) zs"

lemma without_view:
  "installed (without f ys k zs) = installed (ys @ zs)" "length (without f ys k zs) = length (ys @ zs)"
proof -
  show "installed (without f ys k zs) = installed (ys @ zs)"
    using relinked_view(5) [of ys "next_handle k"] rebacked_view(5)
    unfolding without_def installed_def map_append by metis
  show "length (without f ys k zs) = length (ys @ zs)" by (simp add: without_def)
qed

lemma UnhookExt_runs:
  assumes h: "hooked st i info (ys @ (x, k) # zs)" and ne: "ys @ zs \<noteq> []" and bl: "back_linked 0 (ys @ [(x, k)])"
  shows "\<exists>st' info'. UnhookExt env st x = Inr (True, st') \<and> handles st' x = None \<and>
    relocated info' = relocated info \<and> info_trampoline info' = info_trampoline info \<and>
    chain (handles st') (info_root info') (without (relocated info) ys k zs) \<and>
    TrampolineData_at (bytes_in st') (GetTrampolineData (info_trampoline info)) =
      removed_data (TrampolineData_at (bytes_in st) (GetTrampolineData (info_trampoline info))) (ys = [])
        (next_handle k) k (last_hook 0 ys) (last_hook (relocated info) ys) \<and>
    (only_hook k (ys @ zs) \<longrightarrow> hooked st' i info' (without (relocated info) ys k zs))"
proof -
  let ?td = "GetTrampolineData (info_trampoline info)"
  let ?es = "ys @ (x, k) # zs"
  from h have i: "i \<noteq> 0" "infos st i = Some info" "slot_ok (heap st) info"
    "chain (handles st) (info_root info) ?es" "distinct (map fst ?es)" "length ?es < 2 ^ 16"
    "handle_count info = of_nat (length ?es)" "\<forall>e \<in> set ?es. handle_info (snd e) = i"
    "backups_ok (relocated info) ?es"
    "data_ok (TrampolineData_at (bytes_in st) ?td) (info_root info) (relocated info) ?es"
    "cells_ok (heap st) ?td (bytes_in st) ?es"
    unfolding hooked_def by blast+
  have k: "handle_info k = i" using i(8) by auto
  have x: "x \<noteq> 0" "handles st x = Some k" using i(4) by (auto simp: chain_append)
  have two: "2 \<le> length ?es" using ne by (cases ys; cases zs) auto
  have c1: "handle_count info \<noteq> 1"
  proof
    assume "handle_count info = 1"
    then have "unat (of_nat (length ?es) :: u16) = 1" unfolding i(7) by (simp only: unat_1)
    then show False using two unfolding unat_of_nat_16 [OF i(6)] by linarith
  qed
  let ?info = "info\<lparr>handle_count := handle_count info - 1\<rparr>"
  let ?info' = "if ys = [] then ?info\<lparr>info_root := next_handle k\<rparr> else ?info"
  let ?st1 = "st\<lparr>infos := (infos st)(i \<mapsto> ?info)\<rparr>"
  let ?es' = "relinked ys (next_handle k) @ rebacked (last_hook (relocated info) ys) zs"
  let ?Q = "\<lambda>b st'. b \<and> handles st' x = None \<and> chain (handles st') (info_root ?info') ?es' \<and>
    TrampolineData_at (bytes_in st') ?td = removed_data (TrampolineData_at (bytes_in st) ?td) (ys = [])
        (next_handle k) k (last_hook 0 ys) (last_hook (relocated info) ys) \<and>
    (only_hook k (ys @ zs) \<longrightarrow> hooked st' i ?info' ?es')"
  have "\<exists>b st'. in_scope ?st1 (scope_block info)
      (\<lambda>st. bnd (remove_handle info x st) (\<lambda>st. Inr (True, st))) = Inr (b, st') \<and> ?Q b st'"
  proof (rule in_scope_runs)
    show "slot_ok (heap ?st1) info" using i(3) by simp
    fix p assume p: "contents p = bytes_in ?st1" "headers p = headers (heap ?st1)"
      "unprotected p ?td data_size" "\<And>y. write_protected p y \<Longrightarrow> write_protected (heap ?st1) y"
    let ?st2 = "?st1\<lparr>heap := p\<rparr>"
    have cells2: "cells_ok (heap ?st2) ?td (bytes_in ?st2) ?es"
      using i(11) p(1,4) by (auto simp: cells_ok_def cell_ok_def unprotected_def)
    have pre: "chain (handles ?st2) (info_root info) ?es" "infos ?st2 i = Some ?info"
      "unprotected (heap ?st2) ?td data_size"
      using i(4) p(3) by simp_all
    from remove_handle_result [OF pre(1) i(5,6) bl cells2 k i(1) pre(2,3)] obtain mem mid H where
      r: "remove_handle info x ?st2 = Inr (with_contents mem (?st2\<lparr>handles := H, infos := (if ys = []
          then (infos ?st2)(i \<mapsto> ?info\<lparr>info_root := next_handle k\<rparr>) else infos ?st2)\<rparr>))"
        "chain H (if ys = [] then next_handle k else info_root info) ?es'" "H x = None"
        "cells_ok (heap ?st2) ?td mem ?es'"
        "TrampolineData_at mid ?td = TrampolineData_at (counted_out (bytes_in ?st2) ?td (ys = []) k) ?td"
        "TrampolineData_at mem ?td = TrampolineData_at (switched mid ?td (hook_function k) (last_hook 0 ys)
          (last_hook (relocated info) ys)) ?td" by blast
    let ?st3 = "with_contents mem (?st2\<lparr>handles := H, infos := (if ys = []
          then (infos ?st2)(i \<mapsto> ?info\<lparr>info_root := next_handle k\<rparr>) else infos ?st2)\<rparr>)"
    let ?st4 = "?st3\<lparr>heap := (heap ?st1)\<lparr>contents := mem\<rparr>\<rparr>"
    have td: "TrampolineData_at mem ?td = removed_data (TrampolineData_at (bytes_in st) ?td) (ys = [])
        (next_handle k) k (last_hook 0 ys) (last_hook (relocated info) ys)"
      using p(1) by (simp add: r(5,6) switched_data counted_out_data removed_data_def Let_def)
    have data: "data_ok (TrampolineData_at mem ?td) (if ys = [] then next_handle k else info_root info)
        (relocated info) ?es'" if "only_hook k (ys @ zs)"
      unfolding data_ok_view by (rule data_ok_remove [OF i(10) ne that td])
    have "cells_ok (heap ?st4) ?td mem ?es'"
    proof -
      have "cell_ok (heap ?st4) ?td mem (snd e)" if e: "e \<in> set ?es'" for e
      proof -
        obtain g where g: "g \<in> set ?es" "user_backup_addr (snd g) = user_backup_addr (snd e)"
          using e relinked_member [of e ys "next_handle k"] rebacked_member [of e _ zs] by fastforce
        have "cell_ok (heap st) ?td (bytes_in st) (snd g)" using i(11) g(1) unfolding cells_ok_def by blast
        then have "user_backup_addr (snd e) \<noteq> 0 \<Longrightarrow> unprotected (heap st) (user_backup_addr (snd e)) 8"
          by (simp add: cell_ok_def g(2))
        then show ?thesis using r(4) e by (auto simp: cells_ok_def cell_ok_def)
      qed
      then show ?thesis using r(4) by (simp add: cells_ok_def)
    qed
    moreover have "handle_count info - 1 = of_nat (length ?es')" using i(7) by simp
    moreover have "backups_ok (relocated info) ?es'"
    proof -
      have "backups_ok (behind (last_hook (relocated info) ys) k) zs" "backups_ok (relocated info) ys"
        using i(9) by (auto simp: backups_ok_append)
      then show ?thesis by (simp add: backups_ok_append rebacked_backups)
    qed
    moreover have "\<forall>e \<in> set ?es'. handle_info (snd e) = i"
      using i(8) relinked_hooks(2) [of ys "next_handle k" i] rebacked_infos [of _ zs i] by auto
    moreover have "?es' \<noteq> []"
    proof -
      have "length ?es' \<noteq> 0" using two by auto
      then show ?thesis by blast
    qed
    ultimately have "hooked ?st4 i ?info' ?es'" if "only_hook k (ys @ zs)"
      using i ne r(2) two data [OF that] by (auto simp: hooked_def with_contents_def)
    then show "\<exists>b st' mem. bnd (remove_handle info x ?st2) (\<lambda>st. Inr (True, st)) = Inr (b, st') \<and>
        heap st' = p\<lparr>contents := mem\<rparr> \<and> ?Q b (st'\<lparr>heap := (heap ?st1)\<lparr>contents := mem\<rparr>\<rparr>)"
      using r(1,2,3) td
      by (intro exI [of _ True] exI [of _ ?st3] exI [of _ mem]) (cases "ys = []"; simp)
  qed
  then obtain st' where st': "in_scope ?st1 (scope_block info)
      (\<lambda>st. bnd (remove_handle info x st) (\<lambda>st. Inr (True, st))) = Inr (True, st')" "?Q True st'" by auto
  have "UnhookExt env st x = Inr (True, st')"
    using x k i(1,2) c1 st'(1) by (simp add: UnhookExt_def object_at_def update_info_def)
  then show ?thesis using st'(2) unfolding without_def
    by (intro exI [of _ st'] exI [of _ ?info']) auto
qed

lemma UnhookExt_removes_one:
  assumes "hooked st i info (ys @ (x, k) # zs)" and "ys @ zs \<noteq> []"
    and "back_linked 0 (ys @ [(x, k)])" and "only_hook k (ys @ zs)"
  shows "\<exists>st' info'. UnhookExt env st x = Inr (True, st') \<and>
    hooked st' i info' (without (relocated info) ys k zs) \<and> handles st' x = None \<and>
    relocated info' = relocated info \<and> info_trampoline info' = info_trampoline info"
  using UnhookExt_runs [OF assms(1-3), of env] assms(4) by blast

end
