(* ===== verification/Hook_Steps.thy ===== *)
theory Hook_Steps
  imports Hook_Removal
begin

text \<open>
  The contract of \<open>HookInfo\<close> and \<open>HookHandleExt\<close>, as a state machine over the hooks of one function
  whose invariant is \<open>ready\<close>, and what a call of the function reaches.
\<close>

section \<open>Switching hooks on and off\<close>

definition with_enabled :: "u64 \<Rightarrow> bool \<Rightarrow> entry list \<Rightarrow> entry list" where
  "with_enabled x b es = map (\<lambda>(y, h). (y, if y = x then h\<lparr>handle_enabled := b\<rparr> else h)) es"

lemma with_enabled_simps [simp]:
  "with_enabled x b [] = []"
  "with_enabled x b (e # es) =
     (fst e, if fst e = x then (snd e)\<lparr>handle_enabled := b\<rparr> else snd e) # with_enabled x b es"
  by (simp_all add: with_enabled_def case_prod_beta)

lemma with_enabled_view [simp]:
  "map fst (with_enabled x b es) = map fst es" "length (with_enabled x b es) = length es"
  "handlers (with_enabled x b es) = handlers es" "last_hook f (with_enabled x b es) = last_hook f es"
  "backups_ok f (with_enabled x b es) = backups_ok f es" "back_linked p (with_enabled x b es) = back_linked p es"
  "installed (with_enabled x b es) = installed es"
  by (induction es arbitrary: f p) (auto simp: installed_def behind_def)

lemma with_enabled_all:
  "(\<forall>e \<in> set (with_enabled x b es). P (hook_function (snd e)) (handle_info (snd e)) (user_backup_addr (snd e))
      (handle_backup (snd e))) \<longleftrightarrow>
   (\<forall>e \<in> set es. P (hook_function (snd e)) (handle_info (snd e)) (user_backup_addr (snd e)) (handle_backup (snd e)))"
  by (induction es) auto

lemma with_enabled_separate:
  "sorted_wrt (\<lambda>d e. separate (snd d) (snd e)) (with_enabled x b es) \<longleftrightarrow>
   sorted_wrt (\<lambda>d e. separate (snd d) (snd e)) es"
proof -
  have "separate (snd (case d of (y, h) \<Rightarrow> (y, if y = x then h\<lparr>handle_enabled := b\<rparr> else h)))
      (snd (case e of (y, h) \<Rightarrow> (y, if y = x then h\<lparr>handle_enabled := b\<rparr> else h))) \<longleftrightarrow>
    separate (snd d) (snd e)" for d e
    by (simp add: separate_def case_prod_beta)
  then show ?thesis unfolding with_enabled_def sorted_wrt_map by (simp only:)
qed

lemma with_enabled_cells: "cells_ok p td mem (with_enabled x b es) = cells_ok p td mem es"
  unfolding cells_ok_def with_enabled_separate cell_ok_def
  using with_enabled_all [of x b es "\<lambda>h i u f. u \<noteq> 0 \<longrightarrow>
    load64 mem u = f \<and> unprotected p u 8 \<and> apart td data_size u 8"] by simp

lemma with_enabled_chain:
  assumes "chain H p es"
  shows "chain (\<lambda>y. if y = x then map_option (\<lambda>h. h\<lparr>handle_enabled := b\<rparr>) (H y) else H y) p (with_enabled x b es)"
  using assms by (induction es arbitrary: p) auto

lemma SetEnabledExt_result:
  assumes h: "hooked st i info es" and x: "(x, k) \<in> set es"
  shows "\<exists>st'. SetEnabledExt st x b = Inr (handle_enabled k, st') \<and> hooked st' i info (with_enabled x b es)"
proof -
  have c: "chain (handles st) (info_root info) es" using h by (simp add: hooked_def)
  have k: "x \<noteq> 0" "handles st x = Some k" using chain_nonzero [OF c x] by simp_all
  let ?st = "st\<lparr>handles := (handles st)(x \<mapsto> k\<lparr>handle_enabled := b\<rparr>)\<rparr>"
  have H: "handles ?st = (\<lambda>y. if y = x then map_option (\<lambda>h. h\<lparr>handle_enabled := b\<rparr>) (handles st y) else handles st y)"
    using k by auto
  have all: "(\<forall>e \<in> set (with_enabled x b es). handle_info (snd e) = i) \<longleftrightarrow> (\<forall>e \<in> set es. handle_info (snd e) = i)"
    "(\<forall>e \<in> set (with_enabled x b es). hook_function (snd e) \<noteq> 0) \<longleftrightarrow> (\<forall>e \<in> set es. hook_function (snd e) \<noteq> 0)"
    using with_enabled_all [of x b es "\<lambda>h j u f. j = i"] with_enabled_all [of x b es "\<lambda>h j u f. h \<noteq> 0"] by simp_all
  have "with_enabled x b es \<noteq> []" using x by (cases es) auto
  moreover have "chain (handles ?st) (info_root info) (with_enabled x b es)"
    unfolding H by (rule with_enabled_chain [OF c])
  ultimately have "hooked ?st i info (with_enabled x b es)"
    using h by (simp add: hooked_def data_ok_def all with_enabled_cells)
  then show ?thesis using k by (auto simp: SetEnabledExt_def object_at_def update_handle_def)
qed

lemma SetEnabledAllExt_result:
  assumes h: "hooked st i info es" and x: "(x, k) \<in> set es"
  shows "\<exists>st'. SetEnabledAllExt st x b =
      Inr (enabled (TrampolineData_at (bytes_in st) (GetTrampolineData (info_trampoline info))), st') \<and>
    hooked st' i info es \<and>
    enabled (TrampolineData_at (bytes_in st') (GetTrampolineData (info_trampoline info))) = b"
proof -
  let ?td = "GetTrampolineData (info_trampoline info)"
  let ?old = "enabled (TrampolineData_at (bytes_in st) ?td)"
  have c: "chain (handles st) (info_root info) es" and slot: "slot_ok (heap st) info"
    and i: "i \<noteq> 0" "infos st i = Some info" "handle_info k = i"
    using h x by (auto simp: hooked_def)
  have k: "x \<noteq> 0" "handles st x = Some k" using chain_nonzero [OF c x] by simp_all
  let ?Q = "\<lambda>r st'. r = ?old \<and> hooked st' i info es \<and> enabled (TrampolineData_at (bytes_in st') ?td) = b"
  have "\<exists>r st'. in_scope st (scope_block info) (\<lambda>st.
      let td = ?td; old = enabled (TrampolineData_at (bytes_in st) td)
      in bnd (set_enabled td b st) (\<lambda>st. Inr (old, st))) = Inr (r, st') \<and> ?Q r st'"
  proof (rule in_scope_runs [OF slot])
    fix p assume p: "contents p = bytes_in st" "headers p = headers (heap st)"
      "unprotected p ?td data_size" "\<And>x. write_protected p x \<Longrightarrow> write_protected (heap st) x"
    let ?m = "write_bytes (bytes_in st) (?td + 46) [if b then 1 else 0]"
    have u: "unprotected (heap (st\<lparr>heap := p\<rparr>)) ?td data_size" using p(3) by simp
    have "cells_ok (heap st) ?td ?m es"
    proof (rule cells_ok_same)
      show "cells_ok (heap st) ?td (bytes_in st) es" using h by (simp add: hooked_def)
    qed (rule load64_data_write(8))
    then have "hooked (st\<lparr>heap := (heap st)\<lparr>contents := ?m\<rparr>\<rparr>) i info es"
      using h TrampolineData_set(8) [of "bytes_in st" ?td b]
      by (auto simp: hooked_def data_ok_def target_def cells_ok_def cell_ok_def)
    then show "\<exists>r st' mem. (let td = ?td; old = enabled (TrampolineData_at (bytes_in (st\<lparr>heap := p\<rparr>)) td)
        in bnd (set_enabled td b (st\<lparr>heap := p\<rparr>)) (\<lambda>st. Inr (old, st))) = Inr (r, st') \<and>
        heap st' = p\<lparr>contents := mem\<rparr> \<and> ?Q r (st'\<lparr>heap := (heap st)\<lparr>contents := mem\<rparr>\<rparr>)"
      using set_data_unprotected(8) [OF u, of b] p(1) TrampolineData_set(8) [of "bytes_in st" ?td b]
      by (intro exI [of _ ?old] exI [of _ "with_contents ?m (st\<lparr>heap := p\<rparr>)"] exI [of _ ?m])
        (simp add: Let_def with_contents_def)
  qed
  then show ?thesis using k i by (auto simp: SetEnabledAllExt_def object_at_def)
qed

section \<open>The state machine\<close>

text \<open>
  The steps of the users of one function: they hook it or instrument it, with a variable for the
  backup that no other handle uses, they remove a handle while others remain, and they switch handles
  on and off. A handle may stand anywhere in the list when it is removed, but its \<open>previous_\<close> and those
  of the handles before it have to be right, as they are for the newest handle and until one before
  it is removed (\<open>Hook_Defects\<close> shows what \<open>UnhookExt\<close> does otherwise), and no other handle may have the
  same hook.
\<close>

inductive hook_step :: "environment \<Rightarrow> u64 \<Rightarrow> library \<Rightarrow> library \<Rightarrow> bool" for env i where
  step_hook: "has_memory env st \<Longrightarrow> infos st i = Some info \<Longrightarrow> chain (handles st) (info_root info) es \<Longrightarrow> user_cell_ok st info es ub \<Longrightarrow>
    handle_count info \<noteq> 0xFFFF \<Longrightarrow> hook' = 0 \<or> post = 0 \<Longrightarrow>
    NewHookHandle env st i hook' pre post dat ub = Inr (h, st') \<Longrightarrow> hook_step env i st st'"
| step_unhook: "infos st i = Some info \<Longrightarrow> chain (handles st) (info_root info) (ys @ (x, k) # zs) \<Longrightarrow> ys @ zs \<noteq> [] \<Longrightarrow>
    back_linked 0 (ys @ [(x, k)]) \<Longrightarrow> only_hook k (ys @ zs) \<Longrightarrow> UnhookExt env st x = Inr (b, st') \<Longrightarrow> hook_step env i st st'"
| step_enable: "infos st i = Some info \<Longrightarrow> chain (handles st) (info_root info) es \<Longrightarrow> (x, k) \<in> set es \<Longrightarrow>
    SetEnabledExt st x b = Inr (r, st') \<Longrightarrow> hook_step env i st st'"
| step_enable_all: "infos st i = Some info \<Longrightarrow> chain (handles st) (info_root info) es \<Longrightarrow> (x, k) \<in> set es \<Longrightarrow>
    SetEnabledAllExt st x b = Inr (r, st') \<Longrightarrow> hook_step env i st st'"

inductive hook_reachable :: "environment \<Rightarrow> u64 \<Rightarrow> library \<Rightarrow> bool" for env i where
  start: "fresh_info st i info \<Longrightarrow> hook_reachable env i st"
| further: "hook_reachable env i st \<Longrightarrow> hook_step env i st st' \<Longrightarrow> hook_reachable env i st'"

lemma chain_unique: "chain H p es \<Longrightarrow> chain H p es' \<Longrightarrow> es = es'"
proof (induction es arbitrary: p es')
  case Nil
  then show ?case by (cases es') auto
next
  case (Cons e es)
  then obtain e' es'' where es': "es' = e' # es''" by (cases es') auto
  with Cons.prems have "e = e'" by (auto intro: prod_eqI)
  with Cons es' show ?case by auto
qed

lemma ready_chain:
  assumes "ready st i info es"
  shows "infos st i = Some info" and "chain (handles st) (info_root info) es"
  using assms by (auto simp: ready_def fresh_info_def hooked_def split: if_splits)

lemma ready_count:
  assumes "ready st i info es" and "handle_count info \<noteq> 0xFFFF"
  shows "length es < 0xFFFF"
proof (cases "es = []")
  case False
  then have c: "length es < 2 ^ 16" "handle_count info = of_nat (length es)"
    using assms(1) by (auto simp: ready_def hooked_def)
  then have "length es \<noteq> 0xFFFF" using assms(2) by auto
  then show ?thesis using c(1) by simp
qed simp

lemma NewHookHandle_ready:
  assumes r: "ready st i info es" and new: "new_fresh env" and mem: "has_memory env st" and len: "length es < 0xFFFF"
    and kinds: "hook' = 0 \<or> post = 0" and cell: "user_cell_ok st info es ub"
  shows "\<exists>h st' info' es'. NewHookHandle env st i hook' pre post dat ub = Inr (h, st') \<and>
    hooked st' i info' es' \<and> info_trampoline info' = info_trampoline info \<and> relocated info' = relocated info \<and>
    installed es' = installed es @ [(h, hook', pre, post, dat)] \<and> (back_linked 0 es \<longrightarrow> back_linked 0 es') \<and>
    (\<forall>x. elsewhere (GetTrampolineData (info_trampoline info)) ub x \<longrightarrow> bytes_in st' x = bytes_in st x) \<and>
    (\<forall>y. y \<noteq> h \<and> y \<notin> fst ` set es \<longrightarrow> handles st' y = handles st y) \<and>
    (\<forall>j. j \<noteq> i \<longrightarrow> infos st' j = infos st j)"
proof (cases "es = []")
  case True
  then have f: "fresh_info st i info" and c: "user_cell_ok st info [] ub"
    using r cell by (simp_all add: ready_def)
  from NewHookHandle_first [OF f new mem kinds c, of pre dat] show ?thesis
    unfolding True by (elim exE conjE, intro exI conjI) (assumption | simp add: installed_def)+
next
  case False
  then have "hooked st i info es" using r by (simp add: ready_def)
  from NewHookHandle_append [OF this new mem len kinds cell, of pre dat] show ?thesis
    by (elim exE conjE, intro exI conjI) (assumption | simp)+
qed

lemma hooked_ready: "hooked st i info es \<Longrightarrow> ready st i info es"
  by (auto simp: ready_def hooked_def)

lemma step_ready:
  assumes new: "new_fresh env" and r: "ready st i info es" and step: "hook_step env i st st'"
  shows "\<exists>info' es'. ready st' i info' es'"
proof -
  note rc = ready_chain [OF r]
  have same: "info' = info" "es' = es"
    if "infos st i = Some info'" "chain (handles st) (info_root info') es'" for info' es'
    using that rc chain_unique [of "handles st" "info_root info" es' es] by auto
  have hooked: "hooked st i info es" if "es \<noteq> []" using r that by (simp add: ready_def)
  from step show ?thesis
  proof cases
    case (step_hook info1 es1 ub hook' post pre dat h)
    note s = same [OF step_hook(2,3)]
    obtain h1 st1 info2 es2 where n: "NewHookHandle env st i hook' pre post dat ub = Inr (h1, st1)"
      "hooked st1 i info2 es2"
      using NewHookHandle_ready [OF r new step_hook(1) ready_count [OF r] step_hook(6), of ub pre dat] step_hook(4,5)
      unfolding s by blast
    then show ?thesis using step_hook(7) by (auto dest: hooked_ready)
  next
    case (step_unhook info1 ys x k zs b)
    note s = same [OF step_unhook(1,2)]
    have h: "hooked st i info (ys @ (x, k) # zs)" using hooked s by auto
    from UnhookExt_removes_one [OF h step_unhook(3-5), of env] obtain st1 info' where
      u: "UnhookExt env st x = Inr (True, st1)" "hooked st1 i info' (without (relocated info) ys k zs)" by auto
    then show ?thesis using step_unhook(6) by (auto dest: hooked_ready)
  next
    case (step_enable info1 es1 x k b r)
    note s = same [OF step_enable(1,2)]
    have "es \<noteq> []" using step_enable(3) s by auto
    from SetEnabledExt_result [OF hooked [OF this], of x k b] step_enable(3,4) s show ?thesis
      by (fastforce dest: hooked_ready)
  next
    case (step_enable_all info1 es1 x k b r)
    note s = same [OF step_enable_all(1,2)]
    have "es \<noteq> []" using step_enable_all(3) s by auto
    from SetEnabledAllExt_result [OF hooked [OF this], of x k b] step_enable_all(3,4) s show ?thesis
      by (fastforce dest: hooked_ready)
  qed
qed

lemma reachable_ready:
  assumes "new_fresh env" and "hook_reachable env i st"
  shows "\<exists>info es. ready st i info es"
  using assms(2)
proof induction
  case (start st info)
  then have "ready st i info []" by (simp add: ready_def)
  then show ?case by blast
next
  case (further st st')
  then show ?case using step_ready [OF assms(1)] by blast
qed

end
