(* ===== verification/Hook_Correctness.thy ===== *)
theory Hook_Correctness
  imports Hook_Steps Allocator_Correctness Trampoline_Dispatch
begin

text \<open>
  The properties of the hooks of one function, with an example: a function at 0x1000 whose second
  trampoline the allocator has placed at 0x7ffef010.
\<close>

section \<open>An example\<close>

definition example_info :: HookInfo where
  "example_info = \<lparr>info_address = 0x1000, info_root = 0, info_trampoline = 0x7ffef010, custom_free = 0,
     custom_data = 0, relocated = 0x3000, handle_count = 0, function_backup_size = 4,
     function_backup = [0x13, 0, 0, 0]\<rparr>"

definition example_environment :: environment where
  "example_environment = \<lparr>memory_system = example_system, copy_platform = plain_platform,
     readable = (\<lambda>mem a n. True), uninitialised = (\<lambda>st n. replicate n 0),
     new_object = (\<lambda>st. List.find (\<lambda>x. handles st x = None \<and> infos st x = None) [0x6000, 0x6100, 0x6200, 0x6300]),
     key_create = (\<lambda>st. None), pthread_getspecific = 0x7100, pthread_setspecific = 0x7200,
     call_custom_alloc = (\<lambda>f address sz d p. (0, p)), call_custom_free = (\<lambda>f ptr d p. p)\<rparr>"

definition example_library :: library where
  "example_library = \<lparr>heap = after_range\<lparr>contents := mem_of 0x7ffef010 GetSecondTrampoline\<rparr>,
     handles = (\<lambda>x. None), infos = (\<lambda>x. if x = 0x5000 then Some example_info else None),
     hooks_map = (\<lambda>x. if x = 0x1000 then Some 0x5000 else None), function_records = (\<lambda>x. None),
     trampoline_allocator = \<lparr>allocator_type = kDefault, custom_alloc_function = 0, custom_free_function = 0,
       allocator_data = 0\<rparr>,
     errors = initial_logger, tls_keys = [], lock_depth = 0\<rparr>"

lemma after_range_ok: "allocator_ok after_range" "\<exists>k \<ge> trampoline_size. block after_range 0x7ffef010 k"
proof -
  have "allocator_reachable example_system after_range"
    using example_reachable step_AllocRange [OF example_range] by (rule allocator_reachable.further)
  then show "allocator_ok after_range" using example_system_ok by (rule reachable_ok)
  have "kSmallHeapSize < align_down 0x7FFFF800 (page_size example_system)" by code_simp
  then show "\<exists>k \<ge> trampoline_size. block after_range 0x7ffef010 k"
    using AllocRange_allocated [OF example_system_ok reachable_ok [OF example_reachable example_system_ok] example_range]
    unfolding trampoline_size_def allocated_def by auto
qed

lemma example_new: "new_fresh example_environment"
  by (auto simp: new_fresh_def example_environment_def find_Some_iff nth_Cons split: nat.splits if_splits)

lemma example_slot: "slot_ok (heap example_library) example_info"
  using after_range_ok by (simp add: slot_ok_def example_library_def example_info_def)

lemma example_fresh: "fresh_info example_library 0x5000 example_info"
proof -
  let ?m = "mem_of 0x7ffef010 GetSecondTrampoline" and ?td = "GetTrampolineData 0x7ffef010"
  have out: "?m (?td + of_nat i) = 0" if "i < 48" for i
  proof -
    have "?td + of_nat i - 0x7ffef010 = of_nat (740 + i)"
      by (simp add: GetTrampolineData_offset)
    then have "unat (?td + of_nat i - 0x7ffef010) = 740 + i"
      using that unat_of_nat_64 [of "740 + i"] by (simp only:) simp
    then show ?thesis by (simp add: mem_of_def length_GetSecondTrampoline)
  qed
  have "read_bytes ?m (?td + 8) 8 = replicate 8 0"
    by (rule nth_equalityI) (use out [of "8 + _"] in \<open>simp_all add: add.assoc\<close>)
  moreover have "read_bytes ?m (?td + 44) 2 = replicate 2 0"
    by (rule nth_equalityI) (use out [of "44 + _"] in \<open>simp_all add: add.assoc\<close>)
  ultimately have "load64 ?m (?td + 8) = 0" "load16 ?m (?td + 44) = 0"
    by (simp_all add: load64_def load16_def word_of_bytes_def numeral_eq_Suc)
  then show ?thesis using example_slot
    by (simp add: fresh_info_def example_library_def example_info_def TrampolineData_at_def Let_def)
qed

lemma example_ready: "ready example_library 0x5000 example_info []"
  using example_fresh by (simp add: ready_def)

lemma example_hook_reachable: "hook_reachable example_environment 0x5000 example_library"
  using example_fresh by (rule hook_reachable.start)

section \<open>The invariant\<close>

text \<open>
  C19: However a function is hooked and instrumented, handles of it are removed while others remain and
  handles are switched, its handles form a list of the counted length, the trampoline goes, after the register handlers or directly, to
  the newest hook or, without one, to the relocated function; it goes there directly only if no handle
  has register handlers; every handle has as its backup the hook before it, and the variable of the
  user holds this backup. A removal is a step only if \<open>previous_\<close> of the handle and of those before it is
  right and no other handle has the same hook function (\<open>hook_step\<close>); otherwise the invariant can fail.
\<close>

theorem hook_invariant:
  assumes "new_fresh env" and "hook_reachable env i st"
  shows "\<exists>info es. infos st i = Some info \<and> chain (handles st) (info_root info) es \<and> distinct (map fst es) \<and>
    handle_count info = of_nat (length es) \<and> backups_ok (relocated info) es \<and>
    (let td = TrampolineData_at (bytes_in st) (GetTrampolineData (info_trampoline info)) in
     (es \<noteq> [] \<longrightarrow> root_handle td = info_root info \<and> target td = last_hook (relocated info) es \<and>
        post_handlers td = of_nat (handlers es)) \<and>
     (\<forall>e \<in> set es. hook_function (snd e) = 0 \<longrightarrow> hook td = 0) \<and>
     (\<forall>e \<in> set es. user_backup_addr (snd e) \<noteq> 0 \<longrightarrow>
        load64 (bytes_in st) (user_backup_addr (snd e)) = handle_backup (snd e)))"
proof -
  obtain info es where r: "ready st i info es" using reachable_ready [OF assms] by blast
  note rc = ready_chain [OF r]
  show ?thesis
  proof (cases "es = []")
    case True
    then have "handle_count info = 0" using r by (simp add: ready_def fresh_info_def)
    with True rc show ?thesis by (intro exI [of _ info] exI [of _ es]) simp
  next
    case False
    then have "hooked st i info es" using r by (simp add: ready_def)
    then show ?thesis
      by (intro exI [of _ info] exI [of _ es]) (auto simp: hooked_def data_ok_def cells_ok_def cell_ok_def Let_def)
  qed
qed

text \<open>In the example the function is hooked with 0x2000 and the user is told the backup at 0x9000.\<close>

definition after_hook :: library where
  "after_hook = snd (sum.projr
     (NewHookHandle example_environment example_library 0x5000 0x2000 0 0 0 0x9000))"

lemma after_range_lists: "default_list after_range @ root_list after_range = [0x2000]"
  by code_simp

lemma after_range_heap:
  "map_option (\<lambda>m. (heap_start m, heap_size m)) (allocators after_range 0x2000) = Some (0x7ffef000, 0x10000)"
  by code_simp

lemma after_range_unprotected: "unprotected after_range 0x9000 8"
proof -
  obtain m where "allocators after_range 0x2000 = Some m" "heap_start m = 0x7ffef000" "heap_size m = 0x10000"
    using after_range_heap by auto
  then have "write_protected after_range x \<Longrightarrow> x - 0x7ffef000 < 0x10000" for x
    by (simp add: write_protected_def after_range_lists)
  moreover have "\<not> 0x9000 + of_nat i - 0x7ffef000 < (0x10000 :: u64)" if "i < 8" for i
  proof -
    have "i \<in> set [0..<8]" using that by simp
    then show ?thesis by (auto simp: upt_rec)
  qed
  ultimately show ?thesis unfolding unprotected_def by blast
qed

lemma example_memory: "has_memory example_environment example_library"
  by (simp add: has_memory_def example_environment_def example_library_def)

lemma example_cell: "user_cell_ok example_library example_info [] 0x9000"
proof -
  have "heap example_library = after_range\<lparr>contents := mem_of 0x7ffef010 GetSecondTrampoline\<rparr>"
    "info_trampoline example_info = 0x7ffef010" by (simp_all add: example_library_def example_info_def)
  then show ?thesis using after_range_unprotected
    by (simp add: user_cell_ok_def cell_free_def apart_def data_size_def GetTrampolineData_offset)
qed

lemma example_hooked:
  "\<exists>h info es. NewHookHandle example_environment example_library 0x5000 0x2000 0 0 0 0x9000 = Inr (h, after_hook) \<and>
     hooked after_hook 0x5000 info es \<and> info_trampoline info = 0x7ffef010 \<and> relocated info = 0x3000 \<and>
     installed es = [(h, 0x2000, 0, 0, 0)] \<and> back_linked 0 es \<and>
     enabled (TrampolineData_at (bytes_in after_hook) (GetTrampolineData 0x7ffef010)) \<and>
     (\<forall>x. elsewhere (GetTrampolineData 0x7ffef010) 0x9000 x \<longrightarrow> bytes_in after_hook x = bytes_in example_library x) \<and>
     (\<forall>y. y \<noteq> h \<longrightarrow> handles after_hook y = None) \<and> (\<forall>j. j \<noteq> 0x5000 \<longrightarrow> infos after_hook j = None)"
proof -
  obtain h st' info' es' where n: "NewHookHandle example_environment example_library 0x5000 0x2000 0 0 0 0x9000 = Inr (h, st')"
    "hooked st' 0x5000 info' es'" "info' = example_info\<lparr>handle_count := 1, info_root := h\<rparr>"
    "installed es' = [(h, 0x2000, 0, 0, 0)]" "back_linked 0 es'"
    "enabled (TrampolineData_at (bytes_in st') (GetTrampolineData (info_trampoline info')))"
    "\<forall>x. elsewhere (GetTrampolineData (info_trampoline example_info)) 0x9000 x \<longrightarrow> bytes_in st' x = bytes_in example_library x"
    "\<forall>y. y \<noteq> h \<longrightarrow> handles st' y = handles example_library y"
    "\<forall>j. j \<noteq> 0x5000 \<longrightarrow> infos st' j = infos example_library j"
    using NewHookHandle_first [OF example_fresh example_new example_memory _ example_cell, of "0x2000" 0 0 0] by auto
  moreover have "handles example_library y = None" "j \<noteq> 0x5000 \<Longrightarrow> infos example_library j = None" for y j
    by (simp_all add: example_library_def)
  moreover from n(1) have "st' = after_hook" by (simp add: after_hook_def)
  ultimately show ?thesis
    by (intro exI [of _ h] exI [of _ info'] exI [of _ es']) (simp add: example_info_def)
qed

lemma after_hook_reachable: "hook_reachable example_environment 0x5000 after_hook"
proof -
  obtain h where h: "NewHookHandle example_environment example_library 0x5000 0x2000 0 0 0 0x9000 = Inr (h, after_hook)"
    using example_hooked by blast
  have "hook_step example_environment 0x5000 example_library after_hook"
    by (rule step_hook [OF example_memory ready_chain [OF example_ready] example_cell _ _ h])
      (simp_all add: example_info_def)
  with example_hook_reachable show ?thesis by (rule hook_reachable.further)
qed

theorem hook_invariant_witness:
  "\<exists>info es. infos after_hook 0x5000 = Some info \<and> chain (handles after_hook) (info_root info) es \<and>
     handle_count info = of_nat (length es) \<and> backups_ok (relocated info) es"
  using hook_invariant [OF example_new after_hook_reachable] by blast

section \<open>Adding and removing\<close>

text \<open>Lists in which the same is installed lead to the same functions.\<close>

lemma last_hook_installed: "installed es = installed es' \<Longrightarrow> last_hook f es = last_hook f es'"
proof (induction es arbitrary: f es')
  case Nil
  then show ?case by (simp add: installed_def)
next
  case (Cons e es)
  then obtain e' es'' where es': "es' = e' # es''" by (cases es') (auto simp: installed_def)
  then have "hook_function (snd e) = hook_function (snd e')" "installed es = installed es''"
    using Cons.prems by (auto simp: installed_def case_prod_beta)
  then show ?case using Cons.IH es' by (simp add: behind_def)
qed

lemma installed_last:
  assumes "installed es' = installed es @ [(h, d)]" and "backups_ok f es'"
  obtains k where "last es' = (h, k)" and "handle_backup k = last_hook f es"
proof -
  have "es' \<noteq> []" using assms(1) by (auto simp: installed_def)
  then obtain us e where e: "es' = us @ [e]" using rev_exhaust by blast
  then have i: "installed us = installed es" "fst e = h"
    using assms(1) by (auto simp: installed_def case_prod_beta)
  have "handle_backup (snd e) = last_hook f us" using assms(2) e by (simp add: backups_ok_append)
  then show thesis using that [of "snd e"] last_hook_installed [OF i(1)] i(2) e by (simp add: prod_eq_iff)
qed

text \<open>
  C20: \<open>NewHookHandle\<close> refines appending to the list of handles: in a reachable state, with fewer than
  65535 handles and memory for one more object, it returns a new handle, the last one of the list, and
  the functions and data of the handles before stay in their order; the new handle has the newest hook
  before it, or the relocated function, as its backup. Memory changes only in the data of the trampoline
  and the variable of the user, no handle but the new one and those of the list changes, and no other
  \<open>HookInfo\<close>; the new state is reachable, so the trampoline now goes to the new hook.
\<close>

theorem NewHookHandle_appends:
  assumes "new_fresh env" and "hook_reachable env i st" and "has_memory env st"
    and "infos st i = Some info" and "chain (handles st) (info_root info) es"
    and "handle_count info \<noteq> 0xFFFF" and "hook' = 0 \<or> post = 0" and "user_cell_ok st info es ub"
  shows "\<exists>h k st' info' es'. NewHookHandle env st i hook' pre post dat ub = Inr (h, st') \<and>
    hook_reachable env i st' \<and> infos st' i = Some info' \<and> chain (handles st') (info_root info') es' \<and>
    installed es' = installed es @ [(h, hook', pre, post, dat)] \<and>
    last es' = (h, k) \<and> handle_backup k = last_hook (relocated info) es \<and>
    relocated info' = relocated info \<and> info_trampoline info' = info_trampoline info \<and>
    {x. bytes_in st' x \<noteq> bytes_in st x} \<subseteq> {x. \<not> elsewhere (GetTrampolineData (info_trampoline info)) ub x} \<and>
    {y. handles st' y \<noteq> handles st y} \<subseteq> insert h (fst ` set es) \<and>
    {j. infos st' j \<noteq> infos st j} \<subseteq> {i}"
proof -
  obtain info1 es1 where r: "ready st i info1 es1" using reachable_ready [OF assms(1,2)] by blast
  have "info1 = info" using ready_chain(1) [OF r] assms(4) by simp
  moreover have "es1 = es" using ready_chain(2) [OF r] assms(5) calculation chain_unique by blast
  ultimately have r: "ready st i info es" using r by simp
  obtain h st' info' es' where n: "NewHookHandle env st i hook' pre post dat ub = Inr (h, st')"
    "hooked st' i info' es'" "info_trampoline info' = info_trampoline info" "relocated info' = relocated info"
    "installed es' = installed es @ [(h, hook', pre, post, dat)]"
    and frame: "\<forall>x. elsewhere (GetTrampolineData (info_trampoline info)) ub x \<longrightarrow> bytes_in st' x = bytes_in st x"
      "\<forall>y. y \<noteq> h \<and> y \<notin> fst ` set es \<longrightarrow> handles st' y = handles st y" "\<forall>j. j \<noteq> i \<longrightarrow> infos st' j = infos st j"
    using NewHookHandle_ready [OF r assms(1,3) ready_count [OF r assms(6)] assms(7,8), of pre dat]
    by (elim exE conjE) blast
  have "hook_reachable env i st'"
    using assms(2) step_hook [OF assms(3,4,5,8,6,7) n(1)] by (rule hook_reachable.further)
  moreover have "infos st' i = Some info'" "chain (handles st') (info_root info') es'"
    using ready_chain [OF hooked_ready [OF n(2)]] .
  moreover obtain k where "last es' = (h, k)" "handle_backup k = last_hook (relocated info) es"
    using installed_last [OF n(5)] n(2,4) by (auto simp: hooked_def)
  moreover have "{x. bytes_in st' x \<noteq> bytes_in st x} \<subseteq> {x. \<not> elsewhere (GetTrampolineData (info_trampoline info)) ub x}"
    "{y. handles st' y \<noteq> handles st y} \<subseteq> insert h (fst ` set es)" "{j. infos st' j \<noteq> infos st j} \<subseteq> {i}"
    using frame by blast+
  ultimately show ?thesis using n(1,3,4,5) by blast
qed

theorem NewHookHandle_appends_witness:
  "\<exists>h st'. NewHookHandle example_environment example_library 0x5000 0x2000 0 0 0 0x9000 = Inr (h, st') \<and>
     hook_reachable example_environment 0x5000 st' \<and> {y. handles st' y \<noteq> handles example_library y} \<subseteq> {h}"
  using NewHookHandle_appends [OF example_new example_hook_reachable example_memory ready_chain [OF example_ready] _ _ example_cell,
      of "0x2000" 0 0 0]
  by (auto simp: example_info_def)

text \<open>
  C21: \<open>UnhookExt\<close> refines removing a handle from the list, wherever it stands in it, as long as other
  handles remain, the links from it to the handles before it are right and no other handle has the same
  hook: the handles that remain keep their functions and their order, and the representation stays
  well-formed, so every handle behind it has the right backup again and the trampoline goes to the
  newest hook that remains.
\<close>

theorem UnhookExt_removes:
  assumes "hooked st i info (ys @ (x, k) # zs)" and "ys @ zs \<noteq> []"
    and "back_linked 0 (ys @ [(x, k)])" and "only_hook k (ys @ zs)"
  shows "\<exists>st' info' es'. UnhookExt env st x = Inr (True, st') \<and> hooked st' i info' es' \<and>
    installed es' = installed (ys @ zs) \<and> handles st' x = None \<and>
    target (TrampolineData_at (bytes_in st') (GetTrampolineData (info_trampoline info))) =
      last_hook (relocated info) (ys @ zs)"
proof -
  from UnhookExt_removes_one [OF assms, of env] obtain st' info' where
    u: "UnhookExt env st x = Inr (True, st')" "hooked st' i info' (without (relocated info) ys k zs)"
      "handles st' x = None" "relocated info' = relocated info" "info_trampoline info' = info_trampoline info"
    by blast
  moreover have "last_hook (relocated info) (without (relocated info) ys k zs) = last_hook (relocated info) (ys @ zs)"
    by (simp add: without_def last_hook_append)
  ultimately show ?thesis
    by (intro exI [of _ st'] exI [of _ info'] exI [of _ "without (relocated info) ys k zs"])
      (simp add: without_view hooked_def data_ok_def)
qed

text \<open>A second hook, 0x2400, is added and then the first one removed.\<close>

definition after_two :: library where
  "after_two = snd (sum.projr
     (NewHookHandle example_environment after_hook 0x5000 0x2400 0 0 0 0))"

lemma find_member: "y \<in> set xs \<Longrightarrow> P y \<Longrightarrow> List.find P xs \<noteq> None"
  by (auto simp: find_None_iff)

lemma after_hook_memory: "has_memory example_environment after_hook"
proof -
  obtain h where h: "\<forall>y. y \<noteq> h \<longrightarrow> handles after_hook y = None" "\<forall>j. j \<noteq> 0x5000 \<longrightarrow> infos after_hook j = None"
    using example_hooked by blast
  define y where "y = (if h = 0x6000 then 0x6100 else (0x6000 :: u64))"
  have y: "y \<in> set [0x6000, 0x6100, 0x6200, 0x6300]" "handles after_hook y = None" "infos after_hook y = None"
    using h by (simp_all add: y_def)
  show ?thesis
    unfolding has_memory_def example_environment_def environment.simps library.simps
    using y(2,3) by (intro allI find_member [OF y(1)]) simp
qed

lemma example_two:
  "\<exists>x k y l info. hooked after_two 0x5000 info [(x, k), (y, l)] \<and> back_linked 0 [(x, k), (y, l)] \<and>
     hook_function k = 0x2000 \<and> hook_function l = 0x2400 \<and> info_trampoline info = 0x7ffef010 \<and> relocated info = 0x3000"
proof -
  obtain h info es where e: "hooked after_hook 0x5000 info es" "info_trampoline info = 0x7ffef010" "relocated info = 0x3000"
    "installed es = [(h, 0x2000, 0, 0, 0)]" "back_linked 0 es" using example_hooked by blast
  have len: "length es = 1" using arg_cong [OF e(4), of length] by (simp add: installed_def)
  have "user_cell_ok after_hook info es 0" by (simp add: user_cell_ok_def cell_free_def)
  from NewHookHandle_ready [OF hooked_ready [OF e(1)] example_new after_hook_memory _ _ this, of "0x2400" 0 0 0]
  obtain g st' info' es' where n: "NewHookHandle example_environment after_hook 0x5000 0x2400 0 0 0 0 = Inr (g, st')"
    "hooked st' 0x5000 info' es'" "info_trampoline info' = 0x7ffef010" "relocated info' = 0x3000"
    "installed es' = [(h, 0x2000, 0, 0, 0), (g, 0x2400, 0, 0, 0)]" "back_linked 0 es'"
    using len e by auto
  have "length es' = 2" using arg_cong [OF n(5), of length] by (simp add: installed_def)
  then obtain d e where es': "es' = [d, e]" by (auto simp: numeral_2_eq_2 length_Suc_conv)
  have "st' = after_two" using n(1) by (simp add: after_two_def)
  then show ?thesis using n es' by (cases d; cases e) (auto simp: installed_def)
qed

theorem UnhookExt_removes_witness:
  "\<exists>x st' info' es'. UnhookExt example_environment after_two x = Inr (True, st') \<and>
     hooked st' 0x5000 info' es' \<and> length (installed es') = 1"
proof -
  obtain x k y l info where e: "hooked after_two 0x5000 info ([] @ (x, k) # [(y, l)])"
    "back_linked 0 ([] @ [(x, k)])" "only_hook k ([] @ [(y, l)])"
    using example_two by (auto simp: only_hook_def)
  then show ?thesis
    using UnhookExt_removes [OF e(1) _ e(2,3), of example_environment] by (fastforce simp: installed_def)
qed

section \<open>What a call reaches\<close>

lemma dispatch_data:
  assumes code: "code_at (mmem s) tr GetSecondTrampoline"
    and td: "td = TrampolineData_at (mmem s) (GetTrampolineData tr)" and on: "enabled td"
  shows "run (3 + 3) (dispatching s v tr) =
      Some (dispatching s (hook td) (tr + (if hook td = 0 then 36 else 24)))"
    and "run 1 (dispatching s v (tr + 24)) = Some (dispatching s v (v AND NOT 1))"
proof -
  have b: "mmem s (tr + 786) \<noteq> 0" and h: "load64 (mmem s) (tr + 748) = hook td"
    using on by (simp_all add: td TrampolineData_at_def GetTrampolineData_offset add.assoc)
  have nz: "scast (mmem s (tr + 786)) \<noteq> (0 :: u64)"
  proof -
    have "ucast (scast w :: u64) = w" for w :: u8 by (rule bit_word_eqI) (auto simp: bit_simps)
    from this [of "mmem s (tr + 786)"] show ?thesis using b by auto
  qed
  show "run (3 + 3) (dispatching s v tr) =
      Some (dispatching s (hook td) (tr + (if hook td = 0 then 36 else 24)))"
    using b h nz by (simp add: numeral_3_eq_3 step_def second_decodes [OF code] exec_dispatching load_value_def add.assoc)
  show "run 1 (dispatching s v (tr + 24)) = Some (dispatching s v (v AND NOT 1))"
    by (simp add: step_def second_decodes [OF code] exec_dispatching)
qed

text \<open>
  C22: A call of a hooked function that has arrived at its second trampoline goes, within seven
  instructions that change no memory and no register but \<open>t3\<close>, to the newest hook, or to the code that
  calls the register handlers; to this code in any case when a handle has register handlers.
\<close>

theorem call_reaches_newest_hook:
  assumes "new_fresh env" and "hook_reachable env i st" and "infos st i = Some info"
    and "chain (handles st) (info_root info) es" and "es \<noteq> []"
    and "code_at (bytes_in st) (info_trampoline info) GetSecondTrampoline"
    and "enabled (TrampolineData_at (bytes_in st) (GetTrampolineData (info_trampoline info)))"
    and "mmem s = bytes_in st" and "mpc s = info_trampoline info"
  shows "\<exists>n s'. n \<le> 7 \<and> run n s = Some s' \<and> mmem s' = mmem s \<and>
    (\<forall>r. r \<noteq> TMP_GENERIC_REGISTER \<longrightarrow> read_reg r s' = read_reg r s) \<and>
    (mpc s' = last_hook (relocated info) es AND NOT 1 \<and> (\<forall>e \<in> set es. hook_function (snd e) \<noteq> 0) \<or>
     mpc s' = info_trampoline info + 36)"
proof -
  let ?tr = "info_trampoline info"
  let ?td = "TrampolineData_at (mmem s) (GetTrampolineData ?tr)"
  obtain info1 es1 where r: "ready st i info1 es1" using reachable_ready [OF assms(1,2)] by blast
  have i: "info1 = info" using ready_chain(1) [OF r] assms(3) by simp
  have e: "es1 = es" using ready_chain(2) [OF r] assms(4) i chain_unique by blast
  have h: "data_ok ?td (info_root info) (relocated info) es"
    using r assms(5,8) unfolding i e by (simp add: ready_def hooked_def)
  have code: "code_at (mmem s) ?tr GetSecondTrampoline" and on: "enabled ?td" using assms(6,7,8) by simp_all
  note d = dispatch_data [OF code refl on]
  define v where "v = regs s 28"
  have s: "s = dispatching s v ?tr" using dispatching_self [of s] assms(9) by (simp add: v_def)
  show ?thesis
  proof (cases "hook ?td = 0")
    case True
    then have "run (3 + 3) s = Some (dispatching s 0 (?tr + 36))" using d(1) [of v] s by simp
    then show ?thesis
      by (intro exI [of _ "3 + 3"] exI [of _ "dispatching s 0 (?tr + 36)"])
        (simp add: read_dispatching)
  next
    case False
    have "run (3 + 3 + 1) (dispatching s v ?tr) = Some (dispatching s (hook ?td) (hook ?td AND NOT 1))"
      unfolding run_add [of _ 1] using d(1) [of v] d(2) False by simp
    then have "run (3 + 3 + 1) s = Some (dispatching s (hook ?td) (hook ?td AND NOT 1))" using s by simp
    moreover have "hook ?td = last_hook (relocated info) es" "\<forall>e \<in> set es. hook_function (snd e) \<noteq> 0"
      using h False by (simp_all add: data_ok_def target_def)
    ultimately show ?thesis
      by (intro exI [of _ "3 + 3 + 1"] exI [of _ "dispatching s (hook ?td) (hook ?td AND NOT 1)"])
        (simp add: read_dispatching)
  qed
qed

lemma after_hook_code: "code_at (bytes_in after_hook) 0x7ffef010 GetSecondTrampoline"
proof -
  let ?td = "GetTrampolineData 0x7ffef010"
  have same: "\<forall>x. elsewhere ?td 0x9000 x \<longrightarrow> bytes_in after_hook x = bytes_in example_library x"
    using example_hooked by blast
  have "bytes_in after_hook (0x7ffef010 + of_nat i) = bytes_in example_library (0x7ffef010 + of_nat i)" if "i < 740" for i
  proof -
    have "apart 0x7ffef010 740 ?td data_size" "apart 0x7ffef010 740 0x9000 8"
      by (simp_all add: apart_def data_size_def GetTrampolineData_offset)
    then have "elsewhere ?td 0x9000 (0x7ffef010 + of_nat i)"
      using apart_sub [of "0x7ffef010" 740 _ _ i 1] that
      by (simp add: elsewhere_def apart_sym data_size_def)
    then show ?thesis using same by blast
  qed
  then have "read_bytes (bytes_in after_hook) 0x7ffef010 740 = read_bytes (bytes_in example_library) 0x7ffef010 740"
    by (rule read_bytes_cong)
  moreover have "code_at (bytes_in example_library) 0x7ffef010 GetSecondTrampoline"
    using code_at_mem_of [of GetSecondTrampoline "0x7ffef010"]
    by (simp add: example_library_def length_GetSecondTrampoline)
  ultimately show ?thesis by (simp add: code_at_def length_GetSecondTrampoline)
qed

theorem call_reaches_newest_hook_witness:
  "\<exists>n s'. run n \<lparr>regs = (\<lambda>r. 0), mpc = 0x7ffef010, mmem = bytes_in after_hook\<rparr> = Some s' \<and>
     (mpc s' = 0x2000 \<or> mpc s' = 0x7ffef034)"
proof -
  let ?s = "\<lparr>regs = (\<lambda>r. 0), mpc = 0x7ffef010, mmem = bytes_in after_hook\<rparr>"
  obtain h info es where e: "hooked after_hook 0x5000 info es" "info_trampoline info = 0x7ffef010" "relocated info = 0x3000"
    "installed es = [(h, 0x2000, 0, 0, 0)]"
    "enabled (TrampolineData_at (bytes_in after_hook) (GetTrampolineData 0x7ffef010))"
    using example_hooked by blast
  then obtain k where es: "es = [(h, k)]" "hook_function k = 0x2000"
    by (cases es) (auto simp: installed_def)
  note rc = ready_chain [OF hooked_ready [OF e(1)]]
  have l: "last_hook (relocated info) es = 0x2000" "es \<noteq> []" using es by (simp_all add: behind_def)
  have c: "code_at (bytes_in after_hook) (info_trampoline info) GetSecondTrampoline"
    "enabled (TrampolineData_at (bytes_in after_hook) (GetTrampolineData (info_trampoline info)))"
    "mmem ?s = bytes_in after_hook" "mpc ?s = info_trampoline info"
    using after_hook_code e(2,5) by simp_all
  from call_reaches_newest_hook [OF example_new after_hook_reachable rc l(2) c] show ?thesis
    unfolding l(1) e(2) by auto
qed

end
