(* ===== verification/Hook_Defects.thy ===== *)
theory Hook_Defects
  imports Hook_Correctness
begin

text \<open>
  Where unhooking does not do what it means to do: the link to the previous handle is not updated, and
  a hook that is installed twice confuses the trampoline.
\<close>

section \<open>Examples\<close>

lemma TrampolineData_at_bytes:
  assumes "code_at mem a (TrampolineData_bytes d)"
  shows "TrampolineData_at mem a = d"
proof -
  from assms have c: "code_at mem a (bytes_of 8 (root_handle d))" "code_at mem (a + 8) (bytes_of 8 (hook d))"
    "code_at mem (a + 16) (bytes_of 8 (backup d))" "code_at mem (a + 24) (bytes_of 8 (getspecific d))"
    "code_at mem (a + 32) (bytes_of 8 (setspecific d))" "code_at mem (a + 40) (bytes_of 4 (tls_key d))"
    "code_at mem (a + 44) (bytes_of 2 (post_handlers d))" "code_at mem (a + 46) [if enabled d then 1 else 0, 0]"
    unfolding TrampolineData_bytes_def by (simp_all add: code_at_append add.assoc)
  have "load16 mem (a + 44) = post_handlers d"
    using c(7) by (simp add: code_at_def load16_def word_of_bytes_of)
  moreover have "read_bytes mem (a + 46) 2 ! 0 = (if enabled d then 1 else 0)"
    using c(8) by (simp add: code_at_def numeral_2_eq_2)
  then have "mem (a + 46) = (if enabled d then 1 else 0)" by simp
  ultimately show ?thesis using c by (simp add: TrampolineData_at_def load64_at load32_at)
qed

text \<open>A function in the example whose hooks are the functions \<open>fs\<close>, with handles from 0x6000.\<close>

fun entries :: "u64 \<Rightarrow> u64 \<Rightarrow> u64 \<Rightarrow> u64 list \<Rightarrow> entry list" where
  "entries previous x f [] = []"
| "entries previous x f (g # gs) =
     (x, \<lparr>handle_address = 0x1000, handle_backup = f, handle_info = 0x5000, previous_handle = previous,
          next_handle = (if gs = [] then 0 else x + 0x100), hook_function = g, pre_handler = 0, post_handler = 0,
          user_data = 0, user_backup_addr = 0, handle_enabled = True\<rparr>) # entries x (x + 0x100) g gs"

definition hooks_example :: "u64 list \<Rightarrow> library" where
  "hooks_example fs =
     example_library\<lparr>heap := after_range\<lparr>contents := mem_of 0x7ffef010 (GetSecondTrampoline @ TrampolineData_bytes
         \<lparr>root_handle = 0x6000, hook = last fs, backup = 0, getspecific = 0, setspecific = 0, tls_key = 0,
          post_handlers = 0, enabled = True\<rparr>)\<rparr>,
       handles := map_of (entries 0 0x6000 0x3000 fs),
       infos := (\<lambda>x. if x = 0x5000 then Some (example_info\<lparr>handle_count := of_nat (length fs), info_root := 0x6000\<rparr>)
         else None)\<rparr>"

lemma hooks_example_data:
  "TrampolineData_at (bytes_in (hooks_example fs)) (GetTrampolineData 0x7ffef010) =
     \<lparr>root_handle = 0x6000, hook = last fs, backup = 0, getspecific = 0, setspecific = 0, tls_key = 0,
      post_handlers = 0, enabled = True\<rparr>"
proof (rule TrampolineData_at_bytes)
  let ?d = "\<lparr>root_handle = 0x6000, hook = last fs, backup = 0, getspecific = 0, setspecific = 0, tls_key = 0,
      post_handlers = 0, enabled = True\<rparr>"
  have "code_at (mem_of 0x7ffef010 (GetSecondTrampoline @ TrampolineData_bytes ?d)) 0x7ffef010
      (GetSecondTrampoline @ TrampolineData_bytes ?d)"
    by (rule code_at_mem_of) (simp add: length_GetSecondTrampoline TrampolineData_bytes_def)
  then show "code_at (bytes_in (hooks_example fs)) (GetTrampolineData 0x7ffef010) (TrampolineData_bytes ?d)"
    by (simp add: code_at_append hooks_example_def GetTrampolineData_def)
qed

lemma hooks_example_slot:
  "slot_ok (heap (hooks_example fs)) (example_info\<lparr>handle_count := n, info_root := r\<rparr>)"
  using after_range_ok by (simp add: slot_ok_def hooks_example_def example_info_def)

lemma hooks_example_hooked:
  assumes "fs = [a, b] \<or> fs = [a, b, c]" and "a \<noteq> 0" and "b \<noteq> 0" and "c \<noteq> 0"
  shows "hooked (hooks_example fs) 0x5000 (example_info\<lparr>handle_count := of_nat (length fs), info_root := 0x6000\<rparr>)
      (entries 0 0x6000 0x3000 fs)"
    and "back_linked 0 (entries 0 0x6000 0x3000 fs)"
proof -
  have "infos (hooks_example fs) 0x5000 = Some (example_info\<lparr>handle_count := of_nat (length fs), info_root := 0x6000\<rparr>)"
    "handles (hooks_example fs) = map_of (entries 0 0x6000 0x3000 fs)" by (simp_all add: hooks_example_def)
  moreover have "relocated example_info = 0x3000" "info_trampoline example_info = 0x7ffef010"
    by (simp_all add: example_info_def)
  ultimately show "hooked (hooks_example fs) 0x5000 (example_info\<lparr>handle_count := of_nat (length fs), info_root := 0x6000\<rparr>)
      (entries 0 0x6000 0x3000 fs)"
    using assms hooks_example_slot [of fs "of_nat (length fs)" "0x6000"]
    by (auto simp: hooked_def hooks_example_data data_ok_def target_def behind_def cells_ok_def cell_ok_def
        separate_def)
  show "back_linked 0 (entries 0 0x6000 0x3000 fs)" using assms(1) by auto
qed

section \<open>A link to a deleted handle\<close>

lemma remove_handle_dangling:
  assumes u: "unprotected (heap st) (GetTrampolineData (info_trampoline info)) data_size"
    and l: "handles st y = Some l" "y \<noteq> 0" and i: "infos st (handle_info l) = Some info'" "handle_info l \<noteq> 0"
    and x: "previous_handle l \<noteq> 0" "handles st (previous_handle l) = None"
  shows "remove_handle info y st = Inl UseAfterFree"
proof -
  let ?td = "GetTrampolineData (info_trampoline info)"
  have s1: "\<exists>m. (if post_handler l \<noteq> 0 then
            set_post_handlers ?td (post_handlers (TrampolineData_at (bytes_in st) ?td) - 1) st
          else Inr st) = Inr (with_contents m st)"
  proof (cases "post_handler l \<noteq> 0")
    case False
    have "with_contents (bytes_in st) st = st" by (simp add: with_contents_def)
    then show ?thesis using False by metis
  qed (use u in \<open>auto simp: set_data_unprotected\<close>)
  have s2: "\<exists>m I. (if info_root info = y then
            bnd (update_info (handle_info l) (\<lambda>i. i\<lparr>info_root := next_handle l\<rparr>) (with_contents m0 st))
              (set_root ?td (next_handle l))
          else Inr (with_contents m0 st)) = Inr (with_contents m (st\<lparr>infos := I\<rparr>))" for m0
  proof (cases "info_root info = y")
    case False
    then show ?thesis by (intro exI [of _ m0] exI [of _ "infos st"]) (simp add: with_contents_def)
  next
    case True
    then show ?thesis using u i
      by (auto simp: update_info_def object_at_def set_data_unprotected)
  qed
  have s3: "find_previous_hook kMaxHandles (with_contents m (st\<lparr>infos := I\<rparr>)) (previous_handle l) =
      Inl UseAfterFree" for m I
  proof -
    have k: "kMaxHandles = Suc 0xFFFF" by (simp add: kMaxHandles_def)
    show ?thesis unfolding k find_previous_hook.simps using x by (simp add: object_at_def)
  qed
  from s1 obtain m1 where m1: "(if post_handler l \<noteq> 0 then
            set_post_handlers ?td (post_handlers (TrampolineData_at (bytes_in st) ?td) - 1) st
          else Inr st) = Inr (with_contents m1 st)" by blast
  from s2 [of m1] obtain m2 I where m2: "(if info_root info = y then
            bnd (update_info (handle_info l) (\<lambda>i. i\<lparr>info_root := next_handle l\<rparr>) (with_contents m1 st))
              (set_root ?td (next_handle l))
          else Inr (with_contents m1 st)) = Inr (with_contents m2 (st\<lparr>infos := I\<rparr>))" by blast
  have obj: "object_at (handles st) y = Inr l" using l by (simp add: object_at_def)
  show ?thesis
    unfolding remove_handle_def obj bnd_Inr Let_def m1 m2 s3 bnd_Inl ..
qed

text \<open>
  C32: \<open>UnhookExt\<close> does not tell the next handle that its previous one is gone. Of three or more handles
  of a function, in whose list all links are right, remove one that is not the last, and then the one
  behind it: the second call follows the link to the deleted handle.
\<close>

theorem UnhookExt_follows_deleted_handle:
  assumes h: "hooked st i info (ys @ (x, k) # (y, l) # zs)" and three: "ys \<noteq> [] \<or> zs \<noteq> []"
    and bl: "back_linked 0 (ys @ (x, k) # (y, l) # zs)" and only: "only_hook k (ys @ (y, l) # zs)"
  shows "\<exists>st'. UnhookExt env st x = Inr (True, st') \<and> UnhookExt env st' y = Inl UseAfterFree"
proof -
  have b: "back_linked 0 (ys @ [(x, k)])" "previous_handle l = x" using bl by (simp_all add: back_linked_append)
  from UnhookExt_removes_one [OF h _ b(1) only, of env] obtain st' info' where
    u: "UnhookExt env st x = Inr (True, st')"
      "hooked st' i info' (without (relocated info) ys k ((y, l) # zs))" "handles st' x = None" by auto
  let ?l = "l\<lparr>handle_backup := last_hook (relocated info) ys\<rparr>"
  let ?es = "without (relocated info) ys k ((y, l) # zs)"
  have mem: "(y, ?l) \<in> set ?es" by (simp add: without_def)
  have len: "2 \<le> length ?es" using three by (cases ys; cases zs) (auto simp: without_view)
  from u(2) have o: "i \<noteq> 0" "infos st' i = Some info'" "slot_ok (heap st') info'"
    "chain (handles st') (info_root info') ?es" "length ?es < 2 ^ 16" "handle_count info' = of_nat (length ?es)"
    "\<forall>e \<in> set ?es. handle_info (snd e) = i"
    unfolding hooked_def by blast+
  have y: "y \<noteq> 0" "handles st' y = Some ?l" using chain_nonzero [OF o(4) mem] by simp_all
  have li: "handle_info ?l = i" using o(7) mem by force
  have x: "x \<noteq> 0" using h chain_nonzero [of "handles st" "info_root info" "ys @ (x, k) # (y, l) # zs" "(x, k)"]
    by (auto simp: hooked_def)
  have c1: "handle_count info' \<noteq> 1"
  proof
    assume "handle_count info' = 1"
    then have "unat (of_nat (length ?es) :: u16) = 1" unfolding o(6) by (simp only: unat_1)
    then show False using len unfolding unat_of_nat_16 [OF o(5)] by linarith
  qed
  let ?info = "info'\<lparr>handle_count := handle_count info' - 1\<rparr>"
  let ?st = "st'\<lparr>infos := (infos st')(i \<mapsto> ?info)\<rparr>"
  have "in_scope ?st (scope_block info') (\<lambda>st. bnd (remove_handle info' y st) (\<lambda>st. Inr (True, st))) =
      Inl UseAfterFree"
  proof (rule in_scope_fails)
    show "slot_ok (heap ?st) info'" using o(3) by simp
    fix p assume "unprotected p (GetTrampolineData (info_trampoline info')) data_size"
    then have "remove_handle info' y (?st\<lparr>heap := p\<rparr>) = Inl UseAfterFree"
      by (intro remove_handle_dangling [where l = ?l and info' = ?info])
        (use y li o(1) x b(2) u(3) in simp_all)
    then show "bnd (remove_handle info' y (?st\<lparr>heap := p\<rparr>)) (\<lambda>st. Inr (True, st)) = Inl UseAfterFree" by simp
  qed
  then have "UnhookExt env st' y = Inl UseAfterFree"
    using y li o(1,2) c1 by (simp add: UnhookExt_def object_at_def update_info_def)
  with u(1) show ?thesis by blast
qed

theorem UnhookExt_follows_deleted_handle_witness:
  "\<exists>st'. UnhookExt example_environment (hooks_example [0x2000, 0x2400, 0x2800]) 0x6000 = Inr (True, st') \<and>
     UnhookExt example_environment st' 0x6100 = Inl UseAfterFree"
proof -
  obtain k l e where es: "entries 0 0x6000 0x3000 [0x2000, 0x2400, 0x2800] = [] @ (0x6000, k) # (0x6100, l) # [e]"
    "hook_function k = 0x2000" "hook_function l = 0x2400" "hook_function (snd e) = 0x2800" by simp
  have h: "hooked (hooks_example [0x2000, 0x2400, 0x2800]) 0x5000
      (example_info\<lparr>handle_count := of_nat (length [0x2000, 0x2400, 0x2800 :: u64]), info_root := 0x6000\<rparr>)
      ([] @ (0x6000, k) # (0x6100, l) # [e])"
    unfolding es(1) [symmetric] by (rule hooks_example_hooked(1)) auto
  have b: "back_linked 0 ([] @ (0x6000, k) # (0x6100, l) # [e])"
    unfolding es(1) [symmetric] by (rule hooks_example_hooked(2) [where a = "0x2000" and b = "0x2400" and c = "0x2800"]) auto
  show ?thesis
    by (rule UnhookExt_follows_deleted_handle [OF h _ b]) (use es in \<open>auto simp: only_hook_def\<close>)
qed

section \<open>The same hook twice\<close>

text \<open>
  When the same function is installed twice as a hook of one function and the first handle is
  removed, the trampoline forgets the hook although the second handle is still installed: it goes to
  what the member \<open>backup\<close> of its data holds, which is null for a function that has only had hooks.
\<close>

theorem UnhookExt_forgets_equal_hook:
  assumes h: "hooked st i info [(x, k), (y, l)]" and bl: "back_linked 0 [(x, k), (y, l)]"
    and same: "hook_function k = hook_function l" "hook_function l \<noteq> 0"
    and td: "td = GetTrampolineData (info_trampoline info)" "hook (TrampolineData_at (bytes_in st) td) \<noteq> 0"
      "backup (TrampolineData_at (bytes_in st) td) = 0"
  shows "\<exists>st' l'. UnhookExt env st x = Inr (True, st') \<and> handles st' y = Some l' \<and>
    hook_function l' = hook_function l \<and> target (TrampolineData_at (bytes_in st') td) = 0"
proof -
  let ?d = "TrampolineData_at (bytes_in st) td"
  from h bl have h': "hooked st i info ([] @ (x, k) # [(y, l)])" "back_linked 0 ([] @ [(x, k)])" by simp_all
  have ne: "[] @ [(y, l)] \<noteq> []" by simp
  note run = UnhookExt_runs [OF h'(1) ne h'(2), of env, folded td(1)]
  then obtain st' and info' :: HookInfo where u: "UnhookExt env st x = Inr (True, st')"
      "chain (handles st') (info_root info') (without (relocated info) [] k [(y, l)])"
      "TrampolineData_at (bytes_in st') td = removed_data ?d True (next_handle k) k 0 (relocated info)"
    by auto
  have "target ?d = hook_function l" using h same(2) by (simp add: hooked_def data_ok_def behind_def td(1))
  then have "hook ?d = hook_function k" using td(2) same(1) by (simp add: target_def)
  then have "target (TrampolineData_at (bytes_in st') td) = 0"
    using td(3) same by (simp add: u(3) removed_data_def target_def Let_def)
  moreover have "handles st' y = Some (l\<lparr>handle_backup := relocated info\<rparr>)"
    using u(2) by (auto simp: without_def)
  ultimately show ?thesis using u(1) by auto
qed

theorem UnhookExt_forgets_equal_hook_witness:
  "\<exists>st'. UnhookExt example_environment (hooks_example [0x2000, 0x2000]) 0x6000 = Inr (True, st') \<and>
     target (TrampolineData_at (bytes_in st') (GetTrampolineData 0x7ffef010)) = 0"
proof -
  obtain k l where es: "entries 0 0x6000 0x3000 [0x2000, 0x2000] = [(0x6000, k), (0x6100, l)]"
    "hook_function k = 0x2000" "hook_function l = 0x2000" by simp
  have h: "hooked (hooks_example [0x2000, 0x2000]) 0x5000
      (example_info\<lparr>handle_count := of_nat (length [0x2000, 0x2000 :: u64]), info_root := 0x6000\<rparr>)
      [(0x6000, k), (0x6100, l)]"
    unfolding es(1) [symmetric] by (rule hooks_example_hooked(1) [where c = 1]) auto
  have b: "back_linked 0 [(0x6000, k), (0x6100, l)]"
    unfolding es(1) [symmetric] by (rule hooks_example_hooked(2) [where a = "0x2000" and b = "0x2000" and c = 1]) auto
  have t: "GetTrampolineData 0x7ffef010 = GetTrampolineData (info_trampoline
      (example_info\<lparr>handle_count := of_nat (length [0x2000, 0x2000 :: u64]), info_root := 0x6000\<rparr>))"
    by (simp add: example_info_def)
  from UnhookExt_forgets_equal_hook [OF h b _ _ t, of example_environment] es(2,3) show ?thesis
    by (auto simp: hooks_example_data)
qed

end
