(* ===== verification/Trampoline_Allocation.thy ===== *)
theory Trampoline_Allocation
  imports Library_State Relocator
begin

text \<open>
  Where the trampoline allocator and the code meet: \<open>AllocSecondTrampoline\<close> of
  \<open>arch/riscv64/riscv64_support.cc\<close>, and \<open>Relocate\<close> of \<open>arch/riscv64/riscv64_relocator.h\<close> with the
  installation of the relocated code.
\<close>

section \<open>The second trampoline\<close>

text \<open>The range of addresses that a kind of trampoline asks for; 0 and 0 when it asks for none.\<close>

definition trampoline_range :: "TrampolineType \<Rightarrow> u64 \<Rightarrow> u64 \<times> u64" where
  "trampoline_range type address =
     (case type of
        kPC20 \<Rightarrow> (address - 0xFFFFE, address + 0xFFFFE)
      | kPC32 \<Rightarrow> (address, address + 0x7FFFF800)
      | kVA32 \<Rightarrow> (0, 0x7FFFF800)
      | _ \<Rightarrow> (0, 0))"

definition second_trampoline_size :: u64 where
  "second_trampoline_size = of_nat (length GetSecondTrampoline) + 48"

text \<open>The calls of \<open>Memory::Alloc\<close>.\<close>

definition alloc_trampoline :: "environment \<Rightarrow> u64 \<Rightarrow> u64 \<Rightarrow> library \<Rightarrow> (u64 \<times> library) result" where
  "alloc_trampoline env start stop st =
     (let alloc = (\<lambda>p. Alloc (memory_system env) p second_trampoline_size) in
      bnd (if start \<noteq> 0 \<or> stop \<noteq> 0 then
             bnd (AllocRange (memory_system env) (heap st) second_trampoline_size start stop) (\<lambda>(trampoline, p).
             if trampoline = 0 then alloc p else Inr (trampoline, p))
           else alloc (heap st)) (\<lambda>(trampoline, p).
      Inr (trampoline, st\<lparr>heap := p\<rparr>)))"

definition AllocSecondTrampoline :: "environment \<Rightarrow> library \<Rightarrow> u64 \<Rightarrow> ((u64 \<times> bool) \<times> library) result" where
  "AllocSecondTrampoline env st address =
     (let ta = trampoline_allocator st;
          (start, stop) = trampoline_range (allocator_type ta) address;
          (trampoline, p) = (if allocator_type ta = kCustom
            then call_custom_alloc env (custom_alloc_function ta) address second_trampoline_size
                   (allocator_data ta) (heap st)
            else (0, heap st));
          is_user_alloc = (trampoline \<noteq> 0);
          st = st\<lparr>heap := p\<rparr>
      in bnd (if trampoline = 0 then alloc_trampoline env start stop st else Inr (trampoline, st)) (\<lambda>(trampoline, st).
         if trampoline = 0 then Inr ((0, False), st)
         else in_scope st (if is_user_alloc then 0 else trampoline) (\<lambda>st.
           bnd (store_bytes trampoline GetSecondTrampoline st) (\<lambda>st.
           bnd (store_bytes (trampoline + of_nat (length GetSecondTrampoline)) (replicate 48 0) st) (\<lambda>st.
           Inr ((trampoline, is_user_alloc), st))))))"

section \<open>Relocating a prologue\<close>

text \<open>
  The result is the size of the instructions that were relocated, and the address of the relocated
  code, unless the size is 0. The allocation is not checked: with no memory the code is installed at
  null.
\<close>

definition install :: "u64 \<Rightarrow> MachineCode \<Rightarrow> library \<Rightarrow> library result" where
  "install backup' code st =
     (if backup' = 0 then Inl NullPointer
      else if list_ex (\<lambda>i. write_protected (heap st) (backup' + of_nat i)) [0..<length (code_bytes code)]
      then Inl WriteProtected
      else bnd (InstallUnsafe backup' code Map.empty (bytes_in st)) (\<lambda>(mem, _). Inr (with_contents mem st)))"

definition Relocate :: "environment \<Rightarrow> library \<Rightarrow> u64 \<Rightarrow> int \<Rightarrow> ((nat \<times> u64) \<times> library) result" where
  "Relocate env st address n =
     bnd (RelocatePrologue (bytes_in st) address n (errors st)) (\<lambda>(l, relocated').
     case relocated' of
       None \<Rightarrow> Inr ((0, 0), st\<lparr>errors := l\<rparr>)
     | Some (code, count) \<Rightarrow>
         bnd (Alloc (memory_system env) (heap st) (ucast (install_size code))) (\<lambda>(backup', p).
         in_scope (st\<lparr>heap := p, errors := l\<rparr>) backup' (\<lambda>st.
         bnd (install backup' code st) (\<lambda>st.
         Inr ((count, backup'), st)))))"

end
