(* ===== verification/Function_Records.thy ===== *)
theory Function_Records
  imports Trampoline_Allocation
begin

text \<open>
  \<open>FunctionRecord\<close> of \<open>core/function_record.cc\<close>: a first trampoline that goes directly to the hook of
  the user. The records are the values of the map \<open>function_records_\<close> of \<open>core/rv64hook.cc\<close>.
\<close>

definition hook_tag :: string where
  "hook_tag = ''Hook''"

definition new_FunctionRecord :: "u64 \<Rightarrow> FunctionRecord" where
  "new_FunctionRecord address =
     \<lparr>record_address = address, backup_trampoline = 0, original_function_hash = 0, overwrite_size = 0,
      record_backup = []\<rparr>"

text \<open>The bytes are signed and the sum is cut to 16 bits in every step.\<close>

definition ComputeHash :: "memory \<Rightarrow> u64 \<Rightarrow> nat \<Rightarrow> u16" where
  "ComputeHash mem address n = foldl (\<lambda>hash b. 31 * hash + scast b) 17 (read_bytes mem address n)"

definition IsModified :: "memory \<Rightarrow> FunctionRecord \<Rightarrow> bool" where
  "IsModified mem r \<longleftrightarrow>
     ComputeHash mem (record_address r) (unat (overwrite_size r)) \<noteq> original_function_hash r"

definition set_record :: "u64 \<Rightarrow> FunctionRecord \<Rightarrow> library \<Rightarrow> library" where
  "set_record key r st = st\<lparr>function_records := (function_records st)(key \<mapsto> r)\<rparr>"

definition free_block :: "u64 \<Rightarrow> library \<Rightarrow> library result" where
  "free_block ptr st = bnd (Free (heap st) ptr) (\<lambda>(_, p). Inr (st\<lparr>heap := p\<rparr>))"

text \<open>
  \<open>WriteTrampoline\<close> of the record \<open>r\<close> that the map has under \<open>key\<close>. The result is the size that was
  overwritten, or 0.
\<close>

definition FunctionRecord_WriteTrampoline ::
  "environment \<Rightarrow> library \<Rightarrow> u64 \<Rightarrow> FunctionRecord \<Rightarrow> u64 \<Rightarrow> u64 \<Rightarrow> (nat \<times> library) result" where
  "FunctionRecord_WriteTrampoline env st key r hook' backup' =
     bnd (if backup_trampoline r \<noteq> 0 then free_block (backup_trampoline r) st else Inr st) (\<lambda>st.
     let address = record_address r;
         type = GetSuggestedTrampolineType address hook';
         sz = GetFirstTrampolineSize type;
         r1 = r\<lparr>backup_trampoline := 0, overwrite_size := of_nat sz\<rparr>
     in case copy_from env st address sz of
          None \<Rightarrow> Inr (0, set_error hook_tag ''Function is not readable'' (set_record key r1 st))
        | Some bytes \<Rightarrow>
            let r2 = r1\<lparr>record_backup := bytes, original_function_hash := ComputeHash (bytes_in st) address sz\<rparr>
            in bnd (if backup' \<noteq> 0 then
                      bnd (Relocate env st address (int sz)) (\<lambda>((count, relocated'), st).
                      if count = 0 then Inr (None, set_record key r2 st)
                      else bnd (store_bytes backup' (bytes_of 8 relocated') st) (\<lambda>st.
                           Inr (Some (), set_record key (r2\<lparr>backup_trampoline := relocated'\<rparr>) st)))
                    else Inr (Some (), set_record key r2 st)) (\<lambda>(go_on, st).
               if go_on = None then Inr (0, st)
               else bnd (WriteFirstTrampoline (copy_platform env) (bytes_in st) address hook' type) (\<lambda>w.
                    let st = with_contents (written_memory w) st in
                    if copied w then Inr (sz, st)
                    else Inr (0, set_error hook_tag ''Function is not writable'' st))))"

definition FunctionRecord_Unhook :: "environment \<Rightarrow> FunctionRecord \<Rightarrow> library \<Rightarrow> library result" where
  "FunctionRecord_Unhook env r st =
     (let st = snd (copy_to env (record_address r) (take (unat (overwrite_size r)) (record_backup r)) st)
      in if backup_trampoline r \<noteq> 0 then free_block (backup_trampoline r) st else Inr st)"

end
