(* ===== verification/Public_Interface.thy ===== *)
theory Public_Interface
  imports Function_Records Hook_Handles
begin

text \<open>
  The functions of \<open>core/rv64hook.cc\<close>. A handle that is returned is an address, null after an error.
\<close>

section \<open>Hooking\<close>

text \<open>The part of \<open>DoHook\<close> for a function without an object \<open>HookInfo\<close>; the result is null after an error.\<close>

definition first_hook :: "environment \<Rightarrow> library \<Rightarrow> u64 \<Rightarrow> (u64 \<times> library) result" where
  "first_hook env st address =
     (case copy_from env st address 32 of
        None \<Rightarrow> Inr (0, set_error hook_tag ''Function is not readable'' st)
      | Some read_test \<Rightarrow>
          bnd (AllocSecondTrampoline env st address) (\<lambda>((trampoline, is_user_alloc), st).
          if trampoline = 0 then Inr (0, st)
          else let type = GetSuggestedTrampolineType address trampoline in
            bnd (Relocate env st address (int (GetFirstTrampolineSize type))) (\<lambda>((count, relocated'), st).
            if count = 0 then Inr (0, st)
            else bnd (Create env st address trampoline is_user_alloc relocated' (of_nat count)) (\<lambda>(info, st).
              bnd (WriteFirstTrampoline (copy_platform env) (bytes_in st) address trampoline type) (\<lambda>w.
              let st = with_contents (written_memory w) st in
              if copied w then Inr (info, st)
              else bnd (HookInfo_Unhook env False info st) (\<lambda>st.
                   Inr (0, set_error hook_tag ''Function is not writable'' st)))))))"

definition DoHook ::
  "environment \<Rightarrow> library \<Rightarrow> u64 \<Rightarrow> u64 \<Rightarrow> u64 \<Rightarrow> u64 \<Rightarrow> u64 \<Rightarrow> u64 \<Rightarrow> (u64 \<times> library) result" where
  "DoHook env st address hook' pre post data' user_backup = locked st (\<lambda>st.
     let st = clear_error st; info = Lookup st address in
     if info \<noteq> 0 then
       bnd (object_at (infos st) info) (\<lambda>i.
       if handle_count i = 0xFFFF then Inr (0, set_error hook_tag ''Too many hooks'' st)
       else NewHookHandle env st info hook' pre post data' user_backup)
     else
       bnd (first_hook env st address) (\<lambda>(info, st).
       if info = 0 then Inr (0, st) else NewHookHandle env st info hook' pre post data' user_backup))"

definition InlineHook :: "environment \<Rightarrow> library \<Rightarrow> u64 \<Rightarrow> u64 \<Rightarrow> u64 \<Rightarrow> (u64 \<times> library) result" where
  "InlineHook env st address hook' backup' =
     (if address = 0 \<or> hook' = 0 then Inr (0, set_error hook_tag ''Invalid argument'' st)
      else DoHook env st address hook' 0 0 0 backup')"

definition InlineInstrument ::
  "environment \<Rightarrow> library \<Rightarrow> u64 \<Rightarrow> u64 \<Rightarrow> u64 \<Rightarrow> u64 \<Rightarrow> u64 \<Rightarrow> (u64 \<times> library) result" where
  "InlineInstrument env st address pre post data' backup' =
     (if address = 0 \<or> (pre = 0 \<and> post = 0) then Inr (0, set_error hook_tag ''Invalid argument'' st)
      else if address = pthread_getspecific env \<or> address = pthread_setspecific env
      then Inr (0, set_error hook_tag ''Unsupported function'' st)
      else DoHook env st address 0 pre post data' backup')"

section \<open>Unhooking\<close>

text \<open>The root of the list of a function, null if it has none.\<close>

definition hooked_root :: "library \<Rightarrow> u64 \<Rightarrow> u64 result" where
  "hooked_root st address =
     (let info = Lookup st address in
      if info = 0 then Inr 0 else bnd (object_at (infos st) info) (\<lambda>i. Inr (info_root i)))"

definition InlineUnhook :: "environment \<Rightarrow> library \<Rightarrow> u64 \<Rightarrow> (bool \<times> library) result" where
  "InlineUnhook env st address =
     (if address = 0 then Inr (False, st)
      else locked st (\<lambda>st.
        let st = clear_error st in
        bnd (hooked_root st address) (\<lambda>root.
        if root \<noteq> 0 then bnd (UnhookAllExt env st root) (\<lambda>(_, st). Inr (True, st))
        else case function_records st address of
               None \<Rightarrow> Inr (False, st)
             | Some r \<Rightarrow>
                 bnd (FunctionRecord_Unhook env r st) (\<lambda>st.
                 Inr (True, st\<lparr>function_records := (function_records st)(address := None)\<rparr>)))))"

section \<open>Trampolines without a handle\<close>

definition WriteTrampoline :: "environment \<Rightarrow> library \<Rightarrow> u64 \<Rightarrow> u64 \<Rightarrow> u64 \<Rightarrow> (nat \<times> library) result" where
  "WriteTrampoline env st address hook' backup' =
     (if address = 0 \<or> hook' = 0 then Inr (0, set_error hook_tag ''Invalid argument'' st)
      else locked st (\<lambda>st.
        let st = clear_error st in
        case function_records st address of
          Some r \<Rightarrow>
            if \<not> IsModified (bytes_in st) r then Inr (0, set_error hook_tag ''Too many hooks'' st)
            else FunctionRecord_WriteTrampoline env st address r hook' backup'
        | None \<Rightarrow>
            let r = new_FunctionRecord address in
            FunctionRecord_WriteTrampoline env (set_record address r st) address r hook' backup'))"

section \<open>The allocator of trampolines\<close>

definition SetTrampolineAllocator :: "library \<Rightarrow> TrampolineAllocator \<Rightarrow> (bool \<times> library) result" where
  "SetTrampolineAllocator st allocator = locked st (\<lambda>st.
     if allocator_type allocator = kCustom then
       (if custom_alloc_function allocator \<noteq> 0 \<and> custom_free_function allocator \<noteq> 0
        then Inr (True, st\<lparr>trampoline_allocator := allocator\<rparr>) else Inr (False, st))
     else if IsValid (allocator_type allocator) then
       Inr (True, st\<lparr>trampoline_allocator := \<lparr>allocator_type = allocator_type allocator,
         custom_alloc_function = 0, custom_free_function = 0, allocator_data = 0\<rparr>\<rparr>)
     else Inr (False, st))"

end
