(* ===== verification/Hook_Preparation.thy ===== *)
theory Hook_Preparation
  imports Hook_Steps Public_Interface Allocator_Correctness Trampoline_Dispatch Relocation_Semantics
begin

text \<open>
  What \<open>DoHook\<close> does to a function that is hooked for the first time: the second trampoline and the
  relocated code are new blocks of the allocator, and the function is not touched before its first
  trampoline is written.
\<close>

section \<open>The allocator leaves memory alone\<close>

lemma deref_contents: "acquire st a = Inr st' \<Longrightarrow> contents st' = contents st"
  "release st a = Inr st' \<Longrightarrow> contents st' = contents st"
  "write_header a x h st = Inr st' \<Longrightarrow> contents st' = contents st"
  "put a m st = put b m' st' \<Longrightarrow> contents st' = contents st"
  by (auto simp: acquire_def release_def ProtectOSMemory_def write_header_def bnd_eq_Inr_iff put_def Let_def split: if_splits
      dest: arg_cong [where f = contents])

lemma put_contents: "contents (put a m st) = contents st" "contents (delete_allocator a st) = contents st"
  by (simp_all add: put_def delete_allocator_def)

lemma scoped_contents:
  assumes "scoped st a body = Inr (x, st')"
    and "\<And>st1 y st2. body st1 = Inr (y, st2) \<Longrightarrow> contents st2 = contents st1"
  shows "contents st' = contents st"
  using assms by (fastforce simp: scoped_def bnd_eq_Inr_iff dest: deref_contents)

lemma DoAlloc_contents: "DoAlloc st a sz = Inr (p, st') \<Longrightarrow> contents st' = contents st"
  unfolding DoAlloc_def
  by (erule scoped_contents)
    (auto simp: bnd_eq_Inr_iff Let_def put_contents split: if_splits dest!: deref_contents)

lemma DoFree_contents: "DoFree st a ptr = Inr (x, st') \<Longrightarrow> contents st' = contents st"
  unfolding DoFree_def
  by (erule scoped_contents)
    (auto simp: bnd_eq_Inr_iff Let_def put_contents split: if_splits dest!: deref_contents)

lemma alloc_first_contents: "alloc_first f st as sz = Inr (p, st') \<Longrightarrow> contents st' = contents st"
proof (induction as arbitrary: st)
  case (Cons a as)
  then show ?case
    by (auto simp: bnd_eq_Inr_iff split: if_splits dest: DoAlloc_contents)
qed simp

lemma AllocOSMemory_contents: "AllocOSMemory sys st sz start = (p, st') \<Longrightarrow> contents st' = contents st"
  by (auto simp: AllocOSMemory_def split: option.splits if_splits)

lemma new_Memory_contents: "new_Memory sys st p sz = Inr (a, st') \<Longrightarrow> contents st' = contents st"
  by (auto simp: new_Memory_def put_def split: option.splits)

lemma Alloc_contents:
  assumes "Alloc sys st sz = Inr (p, st')"
  shows "contents st' = contents st"
  using assms
  by (fastforce simp: Alloc_def bnd_eq_Inr_iff split: if_splits prod.splits
      dest: DoAlloc_contents alloc_first_contents AllocOSMemory_contents new_Memory_contents)

lemma new_memory_contents: "new_memory sys st start stop n ss = Inr (Some (a, st')) \<Longrightarrow> contents st' = contents st"
proof (induction ss)
  case (Cons s ss)
  then show ?case
    by (auto simp: Let_def bnd_eq_Inr_iff split: if_splits prod.splits
        dest!: AllocOSMemory_contents new_Memory_contents)
qed simp

lemma NewAllocator_contents: "NewAllocator sys st start stop k n = Inr (Some (a, st')) \<Longrightarrow> contents st' = contents st"
  by (auto simp: NewAllocator_def bnd_eq_Inr_iff split: prod.splits option.splits dest: new_memory_contents)

lemma AllocRange_contents:
  assumes "AllocRange sys st sz start stop = Inr (p, st')"
  shows "contents st' = contents st"
  using assms
  by (fastforce simp: AllocRange_def Let_def bnd_eq_Inr_iff split: if_splits prod.splits option.splits
      dest: DoAlloc_contents alloc_first_contents NewAllocator_contents)

lemma Free_contents: "Free st p = Inr (x, st') \<Longrightarrow> contents st' = contents st"
  by (auto simp: Free_def split: option.splits dest: DoFree_contents)

text \<open>A block that was given back has no header any more, whatever is given back later.\<close>

lemma header_ops:
  "acquire st a = Inr st' \<Longrightarrow> headers st' = headers st" "release st a = Inr st' \<Longrightarrow> headers st' = headers st"
  "write_header a x h st = Inr st' \<Longrightarrow> headers st' = (headers st)(x := h)"
  by (auto simp: acquire_def release_def ProtectOSMemory_def write_header_def bnd_eq_Inr_iff put_def Let_def split: if_splits)

lemma scoped_headers:
  assumes "scoped st a body = Inr (x, st')"
    and "\<And>st1 y st2. body st1 = Inr (y, st2) \<Longrightarrow> headers st2 = f (headers st1)"
  shows "headers st' = f (headers st)"
  using assms by (fastforce simp: scoped_def bnd_eq_Inr_iff dest: header_ops)

lemma DoFree_headers:
  assumes "DoFree st a ptr = Inr (x, st')"
  shows "headers st' = (headers st)(ptr - kAlignment := headers st (ptr - kAlignment)\<lparr>header_chunk_count := 0\<rparr>)"
  using assms unfolding DoFree_def
  by (rule scoped_headers [where f = "\<lambda>h. h(ptr - kAlignment := h (ptr - kAlignment)\<lparr>header_chunk_count := 0\<rparr>)"])
    (auto simp: bnd_eq_Inr_iff Let_def delete_allocator_def put_def split: if_splits dest!: header_ops(3))

lemma Free_headers:
  assumes "Free st ptr = Inr (x, st')"
  shows "GetMemoryHeader st' ptr = None" and "GetMemoryHeader st z = None \<Longrightarrow> GetMemoryHeader st' z = None"
proof -
  show "GetMemoryHeader st' ptr = None"
    using assms by (auto simp: Free_def GetMemoryHeader_def split: option.splits if_splits dest!: DoFree_headers)
  show "GetMemoryHeader st z = None \<Longrightarrow> GetMemoryHeader st' z = None"
    using assms by (auto simp: Free_def GetMemoryHeader_def Let_def split: option.splits if_splits dest!: DoFree_headers)
qed

section \<open>The second trampoline\<close>

text \<open>
  The memory for it: in the range if there is room, or anywhere. This is the interface of two
  allocators that \<open>Allocator_Correctness\<close> interprets.
\<close>

interpretation trampolines: block_allocator "run_ok sys" block "in_range.alloc_or sys start stop"
  for sys start stop
  by (rule in_range.block_allocator_or)

definition fresh_memory :: "process \<Rightarrow> nat \<Rightarrow> u64 \<Rightarrow> process \<Rightarrow> bool" where
  "fresh_memory p n b p' \<longleftrightarrow> allocator_ok p' \<and> contents p' = contents p \<and> (\<exists>k \<ge> n. block p' b k) \<and>
     (\<forall>q l. block p q l \<longrightarrow> block p' q l \<and> q \<noteq> b)"

lemma Alloc_fresh:
  assumes "system_ok sys" and "allocator_ok p" and "Alloc sys p sz = Inr (b, p')" and "b \<noteq> 0"
  shows "fresh_memory p (unat sz) b p'"
  using anywhere.alloc_ok [OF _ assms(3)] anywhere.alloc_keeps [OF _ assms(3)] anywhere.alloc_new [OF _ assms(3,4)]
    Alloc_contents [OF assms(3)] assms(1,2)
  by (simp add: fresh_memory_def run_ok_def)

lemma alloc_trampoline_fresh:
  assumes "system_ok (memory_system env)" and "allocator_ok (heap st)"
    and run: "alloc_trampoline env start stop st = Inr (tr, st1)" and "tr \<noteq> 0"
  shows "\<exists>p. st1 = st\<lparr>heap := p\<rparr> \<and> fresh_memory (heap st) (unat second_trampoline_size) tr p"
proof (cases "start \<noteq> 0 \<or> stop \<noteq> 0")
  case False
  then obtain p where "Alloc (memory_system env) (heap st) second_trampoline_size = Inr (tr, p)" "st1 = st\<lparr>heap := p\<rparr>"
    using run by (auto simp: alloc_trampoline_def bnd_eq_Inr_iff)
  then show ?thesis using Alloc_fresh [OF assms(1,2)] assms(4) by blast
next
  case True
  let ?or = "in_range.alloc_or (memory_system env) start stop"
  from True run obtain p where p: "?or (heap st) second_trampoline_size = Inr (tr, p)" and st1: "st1 = st\<lparr>heap := p\<rparr>"
    by (auto simp: alloc_trampoline_def in_range.alloc_or_def bnd_eq_Inr_iff Let_def split: if_splits)
  have "contents p = bytes_in st"
    using p by (fastforce simp: in_range.alloc_or_def bnd_eq_Inr_iff split: if_splits dest: AllocRange_contents Alloc_contents)
  then show ?thesis
    using trampolines.alloc_ok [OF _ p] trampolines.alloc_keeps [OF _ p] trampolines.alloc_new [OF _ p assms(4)]
      st1 assms(1,2) unfolding fresh_memory_def run_ok_def by (intro exI [of _ p] conjI) blast+
qed

lemma second_trampoline_size_value: "unat second_trampoline_size = trampoline_size"
  by (simp add: second_trampoline_size_def length_GetSecondTrampoline trampoline_size_def)

lemma write_adjacent:
  "write_bytes (write_bytes mem a bs) (a + of_nat (length bs)) cs x =
     (if unat (x - (a + of_nat (length bs))) < length cs then cs ! unat (x - (a + of_nat (length bs)))
      else if unat (x - a) < length bs then bs ! unat (x - a) else mem x)"
  by (simp add: write_bytes_def)

lemma AllocSecondTrampoline_result:
  assumes sys: "system_ok (memory_system env)" and ok: "allocator_ok (heap st)"
    and builtin: "allocator_type (trampoline_allocator st) \<noteq> kCustom"
    and range: "trampoline_range (allocator_type (trampoline_allocator st)) address = (start, stop)"
    and alloc: "alloc_trampoline env start stop st = Inr (tr, st1)" and tr: "tr \<noteq> 0"
  shows "AllocSecondTrampoline env st address =
    Inr ((tr, False), with_contents (write_second_trampoline (bytes_in st) tr) st1)"
proof -
  from alloc_trampoline_fresh [OF sys ok alloc tr] obtain p k where
    st1: "st1 = st\<lparr>heap := p\<rparr>" and p: "allocator_ok p" "contents p = bytes_in st"
    and k: "trampoline_size \<le> k" "block p tr k"
    by (auto simp: fresh_memory_def second_trampoline_size_value)
  let ?store = "\<lambda>st. bnd (store_bytes tr GetSecondTrampoline st) (\<lambda>st.
    bnd (store_bytes (tr + of_nat (length GetSecondTrampoline)) (replicate 48 0) st) (\<lambda>st. Inr ((tr, False), st)))"
  from in_scope_block [of st1 tr k ?store] p(1) k(2) st1 obtain q fin where
    q: "contents q = bytes_in st1" "unprotected q tr k"
    and run: "in_scope st1 tr ?store = bnd (?store (st1\<lparr>heap := q\<rparr>)) fin"
    and fin: "\<And>x st' mem. heap st' = q\<lparr>contents := mem\<rparr> \<Longrightarrow>
       fin (x, st') = Inr (x, st'\<lparr>heap := (heap st1)\<lparr>contents := mem\<rparr>\<rparr>)" by auto
  have "unprotected q tr (length GetSecondTrampoline)"
    using unprotected_sub [OF q(2), of 0 740] k(1) by (simp add: length_GetSecondTrampoline trampoline_size_def)
  moreover have "unprotected q (tr + of_nat (length GetSecondTrampoline)) (length (replicate 48 (0 :: u8)))"
    using unprotected_sub [OF q(2), of 740 48] k(1) by (simp add: length_GetSecondTrampoline trampoline_size_def)
  ultimately have "?store (st1\<lparr>heap := q\<rparr>) =
      Inr ((tr, False), with_contents (write_second_trampoline (bytes_in st) tr) (st1\<lparr>heap := q\<rparr>))"
    using q(1) p(2) st1
    by (simp add: store_bytes_unprotected with_contents_def write_second_trampoline_def)
  then have "in_scope st1 tr ?store = Inr ((tr, False), with_contents (write_second_trampoline (bytes_in st) tr) st1)"
    using run fin by (simp add: with_contents_def)
  then show ?thesis
    using builtin range alloc tr by (simp add: AllocSecondTrampoline_def)
qed

section \<open>The relocated code\<close>

text \<open>Relocation reads nothing behind the last instruction of the prologue.\<close>

lemma prologue_blocks_cong:
  assumes "\<And>i. int i < n + 3 \<Longrightarrow> mem' (a + of_nat i) = mem (a + of_nat i)"
  shows "prologue_blocks mem' a n ret = prologue_blocks mem a n ret"
  using assms
proof (induction mem a n ret rule: prologue_blocks.induct)
  case (1 mem a n ret)
  show ?case
  proof (cases "0 < n")
    case False
    then show ?thesis by (simp add: prologue_blocks.simps [of _ a n])
  next
    case True
    have bytes: "read_bytes mem' a k = read_bytes mem a k" if "k \<le> 4" for k
      using "1.prems" True that by (intro read_bytes_cong) simp
    then have size: "GetInsnSize mem' a = GetInsnSize mem a" by (simp add: GetInsnSize_def load16_def)
    have "GetInsnSize mem a \<le> 4" by (simp add: GetInsnSize_def)
    then have dec: "Decode mem' a = Decode mem a" using bytes by (intro same_bytes_same_instruction) simp
    have "snd (Decode mem a) \<le> 4" by (simp add: Decode_def)
    then have at: "block_at mem' a ret = block_at mem a ret"
      using bytes by (auto simp: block_at_def dec split: prod.split list.split)
    show ?thesis
    proof (cases "block_at mem a ret")
      case None
      then show ?thesis using at by (simp add: prologue_blocks.simps [of _ a n])
    next
      case (Some br)
      obtain b ret' where br: "br = (b, ret')" by (cases br)
      have "prologue_blocks mem' (a + of_nat (GetInsnSize mem a)) (n - int (GetInsnSize mem a)) ret' =
          prologue_blocks mem (a + of_nat (GetInsnSize mem a)) (n - int (GetInsnSize mem a)) ret'"
      proof (rule "1.IH" [OF True Some br [symmetric] refl])
        fix i assume "int i < n - int (GetInsnSize mem a) + 3"
        then have "int (GetInsnSize mem a + i) < n + 3" by simp
        from "1.prems" [OF this] show "mem' (a + of_nat (GetInsnSize mem a) + of_nat i) =
          mem (a + of_nat (GetInsnSize mem a) + of_nat i)" by (simp add: add.assoc)
      qed
      then show ?thesis using at Some size by (simp add: prologue_blocks.simps [of _ a n] br)
    qed
  qed
qed

text \<open>A finished code has a jump at its end, fits its size, and needs no relocation.\<close>

lemma RelocatePrologue_relocated:
  assumes "RelocatePrologue mem a n l = Inr (l', Some (code, count))" and "n \<le> 2 ^ 26"
  shows "\<exists>bs. relocated_blocks mem a n = Some (bs, count) \<and> code_bytes code = layout bs"
proof -
  have "n \<le> 2 ^ 27" using assms(2) by simp
  from RelocatePrologue_blocks [OF this, of mem a l] assms(1) show ?thesis by (auto split: option.splits)
qed

lemma RelocatePrologue_code:
  assumes "RelocatePrologue mem a n l = Inr (l', Some (code, count))" and "n \<le> 2 ^ 26"
  shows "code_bytes code \<noteq> []" and "length (code_bytes code) < 2 ^ 32" and "relocations code = []" and "l' = l"
proof -
  have "n \<le> 2 ^ 27" using assms(2) by simp
  from RelocatePrologue_blocks [OF this, of mem a l] assms(1) obtain bs where
    rel: "prologue_blocks mem a n False = Some (bs, count)" and
    code: "code = \<lparr>code_bytes = layout (bs @ [CallAbs zero (a + of_nat count)]), relocations = []\<rparr>" "l' = l"
    by (auto simp: relocated_blocks_def split: option.splits)
  let ?bs = "bs @ [CallAbs zero (a + of_nat count)]"
  have len: "length (layout ?bs) = blocks_size ?bs + 8 * length (address_table ?bs)"
    by (simp add: layout_def Let_def length_concat comp_def sum_list_triv)
  have "blocks_size bs \<le> 10 * (2 ^ 26 + 1)"
    using prologue_blocks_facts(3) [OF rel] assms(2) by (simp add: code_bound_def)
  then show "length (code_bytes code) < 2 ^ 32" using len table_bound [of ?bs] by (simp add: code)
  have "0 < length (layout ?bs)" using len by simp
  then show "code_bytes code \<noteq> []" by (simp add: code)
  show "relocations code = []" "l' = l" by (simp_all add: code)
qed

lemma Relocate_result:
  assumes sys: "system_ok (memory_system env)" and ok: "allocator_ok (heap st)"
    and rel: "RelocatePrologue (bytes_in st) address n (errors st) = Inr (l, Some (code, count))" and n: "n \<le> 2 ^ 26"
    and alloc: "Alloc (memory_system env) (heap st) (ucast (install_size code)) = Inr (b, p)" and b: "b \<noteq> 0"
  shows "Relocate env st address n =
      Inr ((count, b), with_contents (write_bytes (bytes_in st) b (code_bytes code)) (st\<lparr>heap := p\<rparr>))"
    and "fresh_memory (heap st) (length (code_bytes code)) b p"
proof -
  note code = RelocatePrologue_code [OF rel n]
  have size: "unat (ucast (install_size code) :: u64) = length (code_bytes code)"
    using code(2) by (simp add: install_size_def unsigned_ucast_eq unat_of_nat take_bit_nat_eq_self)
  show fresh: "fresh_memory (heap st) (length (code_bytes code)) b p"
    using Alloc_fresh [OF sys ok alloc b] by (simp only: size)
  then obtain k where p: "allocator_ok p" "contents p = bytes_in st" and k: "length (code_bytes code) \<le> k" "block p b k"
    by (auto simp: fresh_memory_def)
  let ?st = "st\<lparr>heap := p, errors := l\<rparr>"
  let ?install = "\<lambda>st. bnd (install b code st) (\<lambda>st. Inr ((count, b), st))"
  from in_scope_block [of ?st b k ?install] p(1) k(2) obtain q fin where
    q: "contents q = contents p" "unprotected q b k"
    and run: "in_scope ?st b ?install = bnd (?install (?st\<lparr>heap := q\<rparr>)) fin"
    and fin: "\<And>x st' mem. heap st' = q\<lparr>contents := mem\<rparr> \<Longrightarrow>
       fin (x, st') = Inr (x, st'\<lparr>heap := p\<lparr>contents := mem\<rparr>\<rparr>)" by auto
  have "unprotected q b (length (code_bytes code))" using unprotected_sub [OF q(2), of 0] k(1) by simp
  then have "\<not> list_ex (\<lambda>i. write_protected q (b + of_nat i)) [0..<length (code_bytes code)]"
    by (auto simp: unprotected_def list_ex_iff)
  then have "?install (?st\<lparr>heap := q\<rparr>) =
      Inr ((count, b), with_contents (write_bytes (bytes_in st) b (code_bytes code)) (?st\<lparr>heap := q\<rparr>))"
    using b code(1,3) q(1) p(2)
    by (simp add: install_def InstallUnsafe_def PerformRelocations_def AddrOf_def CHECK_def)
  then have "in_scope ?st b ?install =
      Inr ((count, b), with_contents (write_bytes (bytes_in st) b (code_bytes code)) ?st)"
    using run fin by (simp add: with_contents_def)
  moreover have "st\<lparr>heap := p, errors := errors st\<rparr> = st\<lparr>heap := p\<rparr>" by simp
  ultimately show "Relocate env st address n =
      Inr ((count, b), with_contents (write_bytes (bytes_in st) b (code_bytes code)) (st\<lparr>heap := p\<rparr>))"
    using rel alloc code(4) by (simp add: Relocate_def)
qed

text \<open>A call that returns a size has found memory.\<close>

lemma Relocate_cases:
  assumes sys: "system_ok (memory_system env)" and ok: "allocator_ok (heap st)" and n: "n \<le> 2 ^ 26"
    and rel: "Relocate env st address n = Inr ((count, b), st')" and count: "count \<noteq> 0"
  obtains l code p where "RelocatePrologue (bytes_in st) address n (errors st) = Inr (l, Some (code, count))"
    and "Alloc (memory_system env) (heap st) (ucast (install_size code)) = Inr (b, p)" and "b \<noteq> 0"
    and "st' = with_contents (write_bytes (bytes_in st) b (code_bytes code)) (st\<lparr>heap := p\<rparr>)"
proof -
  from rel count obtain l code where
    pro: "RelocatePrologue (bytes_in st) address n (errors st) = Inr (l, Some (code, count))"
    by (auto simp: Relocate_def bnd_eq_Inr_iff in_scope_def split: option.splits prod.splits)
  from rel pro obtain b' p where alloc: "Alloc (memory_system env) (heap st) (ucast (install_size code)) = Inr (b', p)"
    by (auto simp: Relocate_def bnd_eq_Inr_iff)
  have b': "b' \<noteq> 0"
  proof
    assume "b' = 0"
    then show False using rel pro alloc by (simp add: Relocate_def install_def in_scope_def GetMemoryHeader_def)
  qed
  note rel' = Relocate_result(1) [OF sys ok pro n alloc b']
  have "b = b'" "st' = with_contents (write_bytes (bytes_in st) b' (code_bytes code)) (st\<lparr>heap := p\<rparr>)"
    using rel unfolding rel' by blast+
  then show thesis using that pro alloc b' by blast
qed

section \<open>A function that lies outside the heaps\<close>

definition outside :: "process \<Rightarrow> u64 \<Rightarrow> nat \<Rightarrow> bool" where
  "outside p a n \<longleftrightarrow> (\<forall>i < n. \<forall>h m. allocators p h = Some m \<and> heap_start m \<noteq> 0 \<longrightarrow> \<not> in_heap m (a + of_nat i))"

lemma outside_contents [simp]: "outside (p\<lparr>contents := mem\<rparr>) = outside p"
  by (simp add: outside_def fun_eq_iff)

lemma apart_disjoint:
  assumes "0 < n" and "0 < m" and "\<And>x. \<not> (in_block a n x \<and> in_block b m x)"
  shows "apart a n b m"
  using assms(1,2) assms(3) [of b] assms(3) [of a] by (simp add: apart_def in_block_def not_less)

lemma block_positive: "block p q k \<Longrightarrow> 0 < k"
  by (auto simp: block_def block_in_def)

lemma outside_apart:
  assumes ok: "allocator_ok p" and b: "block p q k" and out: "outside p a n" and n: "0 < n"
  shows "apart q k a n"
proof (rule apart_disjoint [OF block_positive [OF b] n])
  fix x
  from b obtain h m c where m: "block_in p h m c q k" by (auto simp: block_def)
  show "\<not> (in_block q k x \<and> in_block a n x)"
  proof
    assume x: "in_block q k x \<and> in_block a n x"
    then have "in_heap m (a + of_nat (unat (x - a)))" using in_block_offset(3) [OF ok m] by simp
    then show False using out m x unfolding outside_def in_block_def block_in_def by blast
  qed
qed

lemma blocks_apart_ranges:
  assumes "allocator_ok p" and "block p q k" and "block p r l" and "q \<noteq> r"
  shows "apart q k r l"
  using blocks_apart [OF assms(1-4)] block_positive [OF assms(2)] block_positive [OF assms(3)]
  by (intro apart_disjoint) auto

lemma apart_shorter:
  assumes "apart a n b m" and "n' \<le> n" and "m' \<le> m"
  shows "apart a n' b m'"
  using assms by (simp add: apart_def)

section \<open>Hooking for the first time\<close>

text \<open>The steps of the part of \<open>DoHook\<close> for a function without hooks, when all of them succeed.\<close>

inductive prepared :: "environment \<Rightarrow> library \<Rightarrow> u64 \<Rightarrow> u64 \<Rightarrow> library \<Rightarrow> bool" for env st address where
  steps: "copy_from env st address 32 = Some read_test \<Longrightarrow>
    trampoline_range (allocator_type (trampoline_allocator st)) address = (start, stop) \<Longrightarrow>
    alloc_trampoline env start stop st = Inr (tr, st1) \<Longrightarrow> tr \<noteq> 0 \<Longrightarrow>
    st2 = with_contents (write_second_trampoline (bytes_in st) tr) st1 \<Longrightarrow>
    type = GetSuggestedTrampolineType address tr \<Longrightarrow>
    RelocatePrologue (bytes_in st2) address (int (GetFirstTrampolineSize type)) (errors st2) =
      Inr (l, Some (code, count)) \<Longrightarrow>
    Alloc (memory_system env) (heap st2) (ucast (install_size code)) = Inr (b, p) \<Longrightarrow> b \<noteq> 0 \<Longrightarrow>
    st3 = with_contents (write_bytes (bytes_in st2) b (code_bytes code)) (st2\<lparr>heap := p\<rparr>) \<Longrightarrow>
    Create env st3 address tr False b (of_nat count) = Inr (i, st4) \<Longrightarrow> i \<noteq> 0 \<Longrightarrow>
    WriteFirstTrampoline (copy_platform env) (bytes_in st4) address tr type = Inr w \<Longrightarrow> copied w \<Longrightarrow>
    prepared env st address i (with_contents (written_memory w) st4)"

inductive_cases preparedE: "prepared env st address i st'"

lemma first_trampoline_size_bound: "0 < GetFirstTrampolineSize type" "GetFirstTrampolineSize type \<le> 18"
  by (simp_all add: GetFirstTrampolineSize_def WideTrampoline_def split: TrampolineType.split)

lemma alloc_trampoline_heap:
  assumes "alloc_trampoline env start stop st = Inr (tr, st1)"
  shows "\<exists>p. st1 = st\<lparr>heap := p\<rparr>"
  using assms by (auto simp: alloc_trampoline_def bnd_eq_Inr_iff)

lemma RelocatePrologue_count:
  assumes "RelocatePrologue mem a n l = Inr (l', Some (code, count))" and "0 < n" and "n \<le> 2 ^ 26"
  shows "n \<le> int count" and "int count < n + 4"
proof -
  have "n \<le> 2 ^ 27" using assms(3) by simp
  from RelocatePrologue_blocks [OF this, of mem a l] assms(1) obtain bs where
    "prologue_blocks mem a n False = Some (bs, count)"
    by (auto simp: relocated_blocks_def split: option.splits)
  then show "n \<le> int count" "int count < n + 4" using prologue_blocks_facts(4) assms(2) by blast+
qed

lemma in_scope_value: "in_scope st ptr body = Inr (x, st') \<Longrightarrow> \<exists>st1 st2. body st1 = Inr (x, st2)"
  by (auto simp: in_scope_def bnd_eq_Inr_iff split: option.splits)

lemma first_hook_iff_prepared:
  assumes sys: "system_ok (memory_system env)" and ok: "allocator_ok (heap st)"
    and builtin: "allocator_type (trampoline_allocator st) \<noteq> kCustom" and i: "i \<noteq> 0"
  shows "first_hook env st address = Inr (i, st') \<longleftrightarrow> prepared env st address i st'"
proof -
  obtain start stop where range: "trampoline_range (allocator_type (trampoline_allocator st)) address = (start, stop)"
    by (cases "trampoline_range (allocator_type (trampoline_allocator st)) address")
  let ?size = "\<lambda>tr. GetFirstTrampolineSize (GetSuggestedTrampolineType address tr)"
  have size: "0 < int (?size tr)" "int (?size tr) \<le> 2 ^ 26" for tr
    using first_trampoline_size_bound [of "GetSuggestedTrampolineType address tr"] by simp_all
  show ?thesis
  proof
    assume "prepared env st address i st'"
    then show "first_hook env st address = Inr (i, st')"
    proof cases
      case (steps rt start1 stop1 tr st1 st2 type l code count b p st3 st4 w)
      then have alloc: "alloc_trampoline env start stop st = Inr (tr, st1)" using range by simp
      from alloc_trampoline_fresh [OF sys ok alloc steps(5)] obtain q where "st1 = st\<lparr>heap := q\<rparr>" "allocator_ok q"
        by (auto simp: fresh_memory_def)
      then have ok2: "allocator_ok (heap st2)" by (simp add: steps(6))
      have n: "int (GetFirstTrampolineSize type) \<le> 2 ^ 26" "0 < int (GetFirstTrampolineSize type)"
        using size steps(7) by blast+
      note rel = Relocate_result(1) [OF sys ok2 steps(8) n(1) steps(9,10), folded steps(11)]
      have "0 < count" using RelocatePrologue_count(1) [OF steps(8) n(2,1)] n(2) by linarith
      then show ?thesis
        using AllocSecondTrampoline_result [OF sys ok builtin range alloc steps(5), folded steps(6)] rel steps
        by (simp add: first_hook_def)
    qed
  next
    assume run: "first_hook env st address = Inr (i, st')"
    then obtain rt where read: "copy_from env st address 32 = Some rt"
      using i by (auto simp: first_hook_def split: option.splits)
    with run obtain tr u st2 where second: "AllocSecondTrampoline env st address = Inr ((tr, u), st2)" and tr: "tr \<noteq> 0"
      using i by (auto simp: first_hook_def bnd_eq_Inr_iff split: if_splits)
    from second tr obtain st1 where alloc: "alloc_trampoline env start stop st = Inr (tr, st1)"
      using builtin range
      by (auto simp: AllocSecondTrampoline_def bnd_eq_Inr_iff split: if_splits dest!: in_scope_value)
    note second' = AllocSecondTrampoline_result [OF sys ok builtin range alloc tr]
    have u: "u = False" "st2 = with_contents (write_second_trampoline (bytes_in st) tr) st1"
      using second second' by simp_all
    from alloc_trampoline_fresh [OF sys ok alloc tr] obtain q where "st1 = st\<lparr>heap := q\<rparr>" "allocator_ok q"
      by (auto simp: fresh_memory_def)
    then have ok2: "allocator_ok (heap st2)" by (simp add: u(2))
    from run read second u(1) tr i obtain count b st3 where
      rel: "Relocate env st2 address (int (?size tr)) = Inr ((count, b), st3)" and count: "count \<noteq> 0"
      by (auto simp: first_hook_def bnd_eq_Inr_iff Let_def split: if_splits)
    obtain l code p where
      pro: "RelocatePrologue (bytes_in st2) address (int (?size tr)) (errors st2) = Inr (l, Some (code, count))"
      and alloc2: "Alloc (memory_system env) (heap st2) (ucast (install_size code)) = Inr (b, p)" and b0: "b \<noteq> 0"
      and st3: "st3 = with_contents (write_bytes (bytes_in st2) b (code_bytes code)) (st2\<lparr>heap := p\<rparr>)"
      using Relocate_cases [OF sys ok2 size(2) rel count] by blast
    from run read second u(1) tr i rel count obtain i' st4 w where
      create: "Create env st3 address tr False b (of_nat count) = Inr (i', st4)" and
      w: "WriteFirstTrampoline (copy_platform env) (bytes_in st4) address tr (GetSuggestedTrampolineType address tr) = Inr w"
        "copied w" and res: "i' = i" "st' = with_contents (written_memory w) st4"
      by (auto simp: first_hook_def bnd_eq_Inr_iff Let_def split: if_splits)
    show "prepared env st address i st'"
      using prepared.steps [OF read range alloc tr u(2) refl pro alloc2 b0 st3 _ i w] create res by simp
  qed
qed

section \<open>The memory after hooking for the first time\<close>

lemma second_trampoline_written:
  "code_at (write_second_trampoline mem tr) tr GetSecondTrampoline"
  "hook (TrampolineData_at (write_second_trampoline mem tr) (GetTrampolineData tr)) = 0"
  "post_handlers (TrampolineData_at (write_second_trampoline mem tr) (GetTrampolineData tr)) = 0"
proof -
  let ?td = "GetTrampolineData tr" and ?mem = "write_second_trampoline mem tr"
  have td: "?td = tr + of_nat 740" by (rule GetTrampolineData_offset)
  have "apart ?td 48 tr 740" by (simp add: apart_def td)
  then have "read_bytes ?mem tr 740 = read_bytes (write_bytes mem tr GetSecondTrampoline) tr 740"
    unfolding write_second_trampoline_def length_GetSecondTrampoline
    by (intro read_apart) (simp add: td)
  also have "\<dots> = GetSecondTrampoline"
    using read_write_bytes [of GetSecondTrampoline mem tr] by (simp add: length_GetSecondTrampoline)
  finally show "code_at ?mem tr GetSecondTrampoline" by (simp add: code_at_def length_GetSecondTrampoline)
  have zero: "?mem (?td + of_nat i) = 0" if "i < 48" for i
  proof -
    have "unat (of_nat i :: u64) = i" using that by (intro unat_of_nat_64) simp
    then show ?thesis using that
      by (simp add: write_second_trampoline_def length_GetSecondTrampoline td write_bytes_def)
  qed
  have "read_bytes ?mem (?td + of_nat j) n = replicate n 0" if "j + n \<le> 48" for j n
    using zero [of "j + _"] that by (intro nth_equalityI) (simp_all add: read_bytes_def add.assoc)
  from this [of 8 8] this [of 44 2] show "hook (TrampolineData_at ?mem ?td) = 0"
    "post_handlers (TrampolineData_at ?mem ?td) = 0"
    by (simp_all add: TrampolineData_at_def load64_def load16_def word_of_bytes_def numeral_eq_Suc)
qed

lemma second_trampoline_kept:
  assumes "apart tr trampoline_size a (length bs)" and "bs \<noteq> []"
  shows "code_at (write_bytes mem a bs) tr GetSecondTrampoline = code_at mem tr GetSecondTrampoline"
    and "TrampolineData_at (write_bytes mem a bs) (GetTrampolineData tr) = TrampolineData_at mem (GetTrampolineData tr)"
proof -
  have sub: "apart (tr + of_nat j) n a (length bs)" if "j + n \<le> 788" "0 < n" for j n
    using apart_sub [OF assms(1), of j n] that assms(2) by (simp add: trampoline_size_def)
  have "apart tr 740 a (length bs)" using sub [of 0 740] by simp
  then show "code_at (write_bytes mem a bs) tr GetSecondTrampoline = code_at mem tr GetSecondTrampoline"
    by (simp add: code_at_def length_GetSecondTrampoline read_apart apart_sym)
  have "apart (GetTrampolineData tr) data_size a (length bs)"
    using sub [of 740 48] by (simp add: GetTrampolineData_offset data_size_def)
  then show "TrampolineData_at (write_bytes mem a bs) (GetTrampolineData tr) = TrampolineData_at mem (GetTrampolineData tr)"
    using assms(2) by (intro TrampolineData_apart) (simp add: apart_sym)
qed

lemma write_second_outside:
  assumes "apart tr trampoline_size x 1"
  shows "write_second_trampoline mem tr x = mem x"
proof -
  have "apart tr 740 x 1" using assms by (rule apart_shorter) (simp_all add: trampoline_size_def)
  moreover have "apart (tr + of_nat 740) 48 x 1" using apart_sub [OF assms, of 740 48] by (simp add: trampoline_size_def)
  ultimately show ?thesis
    by (simp add: write_second_trampoline_def length_GetSecondTrampoline byte_apart)
qed

lemma outside_byte: "outside p a n \<Longrightarrow> i < n \<Longrightarrow> outside p (a + of_nat i) 1"
  by (auto simp: outside_def)

text \<open>
  A function that has been prepared has an object without handles, whose second trampoline is in
  place and unused, and whose backup are the bytes that the first trampoline replaced.
\<close>

definition prepared_info :: "environment \<Rightarrow> library \<Rightarrow> u64 \<Rightarrow> u64 \<Rightarrow> library \<Rightarrow> HookInfo \<Rightarrow> bool" where
  "prepared_info env st address i st' info \<longleftrightarrow>
     fresh_info st' i info \<and> info_address info = address \<and> custom_free info = 0 \<and>
     code_at (bytes_in st') (info_trampoline info) GetSecondTrampoline \<and>
     relocated info \<noteq> info_trampoline info \<and>
     (let size = GetFirstTrampolineSize (GetSuggestedTrampolineType address (info_trampoline info)) in
      (\<exists>bs k. relocated_blocks (bytes_in st) address (int size) = Some (bs, unat (function_backup_size info)) \<and>
        code_at (bytes_in st') (relocated info) (layout bs) \<and>
        block (heap st') (relocated info) k \<and> length (layout bs) \<le> k) \<and>
      size \<le> unat (function_backup_size info) \<and> unat (function_backup_size info) \<le> 32 \<and>
      (let type = GetSuggestedTrampolineType address (info_trampoline info) in
       jump_possible type address (info_trampoline info) \<and>
       code_at (bytes_in st') address (jump_code type address (info_trampoline info))) \<and>
      (\<forall>x. outside (heap st') x 1 \<and> size \<le> unat (x - address) \<longrightarrow> bytes_in st' x = bytes_in st x) \<and>
      ((\<forall>mem n. readable env mem address n) \<longrightarrow>
        function_backup info = read_bytes (bytes_in st) address (unat (function_backup_size info)))) \<and>
     handles st' = handles st \<and> hooks_map st' = (hooks_map st)(address \<mapsto> i) \<and> infos st i = None \<and>
     (\<forall>j. j \<noteq> i \<longrightarrow> infos st' j = infos st j)"

lemma Create_object:
  assumes "Create env st address tr False b n = Inr (i, st')"
  shows "heap st' = heap st" and "infos st' i = Some (the (infos st' i))"
    and "info_trampoline (the (infos st' i)) = tr" "info_root (the (infos st' i)) = 0" "custom_free (the (infos st' i)) = 0"
  using assms by (auto simp: Create_def bnd_eq_Inr_iff Let_def)

lemma prepared_slot:
  assumes sys: "system_ok (memory_system env)" and ok: "allocator_ok (heap st)"
    and prep: "prepared env st address i st'"
  shows "\<exists>info. infos st' i = Some info \<and> slot_ok (heap st') info \<and> info_root info = 0"
  using prep
proof cases
  case (steps rt start stop tr st1 st2 type l code count b p st3 st4 w)
  from alloc_trampoline_fresh [OF sys ok steps(4,5)] obtain q k where q: "st1 = st\<lparr>heap := q\<rparr>"
    "allocator_ok q" "trampoline_size \<le> k" "block q tr k"
    by (auto simp: fresh_memory_def second_trampoline_size_value)
  then have ok2: "allocator_ok (heap st2)" "block (heap st2) tr k" by (simp_all add: steps(6))
  have "int (GetFirstTrampolineSize type) \<le> 2 ^ 26" using first_trampoline_size_bound(2) [of type] by simp
  from Relocate_result(2) [OF sys ok2(1) steps(8) this steps(9,10)] have "allocator_ok p" "block p tr k"
    using ok2(2) by (auto simp: fresh_memory_def)
  moreover have "heap st' = p\<lparr>contents := written_memory w\<rparr>"
    by (simp add: steps(1,11) Create_object(1) [OF steps(12)])
  ultimately show ?thesis using Create_object [OF steps(12)] q(3)
    by (intro exI [of _ "the (infos st4 i)"]) (auto simp: slot_ok_def steps(1))
qed

lemma prepared_gives_info:
  assumes sys: "system_ok (memory_system env)" and ok: "allocator_ok (heap st)" and new: "new_fresh env"
    and writes: "writev_writes (copy_platform env)" and unknown: "hooks_map st address = None"
    and prep: "prepared env st address i st'" and out: "outside (heap st') address 32"
  shows "\<exists>info. prepared_info env st address i st' info"
  using prep
proof cases
  case (steps rt start stop tr st1 st2 type l code count b p st3 st4 w)
  from alloc_trampoline_fresh [OF sys ok steps(4,5)] obtain q k where q: "st1 = st\<lparr>heap := q\<rparr>"
    "allocator_ok q" "contents q = bytes_in st" "trampoline_size \<le> k" "block q tr k"
    by (auto simp: fresh_memory_def second_trampoline_size_value)
  have n: "int (GetFirstTrampolineSize type) \<le> 2 ^ 26" "0 < int (GetFirstTrampolineSize type)"
    "GetFirstTrampolineSize type \<le> 18"
    using first_trampoline_size_bound [of type] by simp_all
  have ok2: "allocator_ok (heap st2)" "block (heap st2) tr k" using q(1,2,5) by (simp_all add: steps(6))
  from Relocate_result(2) [OF sys ok2(1) steps(8) n(1) steps(9,10)] obtain j where p: "allocator_ok p"
    "contents p = bytes_in st2" "length (code_bytes code) \<le> j" "block p b j" "block p tr k" "b \<noteq> tr"
    using ok2(2) by (auto simp: fresh_memory_def)
  note code = RelocatePrologue_code [OF steps(8) n(1)]
  have count: "GetFirstTrampolineSize type \<le> count" "count < 32"
    using RelocatePrologue_count [OF steps(8) n(2,1)] n(3) by linarith+
  have size: "unat (of_nat count :: u8) = count" using count(2) by (simp add: unat_of_nat take_bit_nat_eq_self)
  define mem1 where "mem1 = write_second_trampoline (bytes_in st) tr"
  define mem2 where "mem2 = write_bytes mem1 b (code_bytes code)"
  define jump where "jump = jump_code type address tr"
  have st3: "st3 = st\<lparr>heap := p\<lparr>contents := mem2\<rparr>\<rparr>"
    using q(1) by (simp add: steps(11,6) mem1_def mem2_def with_contents_def)
  let ?bytes = "case copy_from env st3 address count of None \<Rightarrow> uninitialised env st3 count | Some bs \<Rightarrow> bs"
  have hooks: "hooks_map st3 address = None" using unknown by (simp add: st3)
  define info where "info = \<lparr>info_address = address, info_root = 0, info_trampoline = tr, custom_free = 0,
    custom_data = word_of_bytes (uninitialised env st3 8), relocated = b, handle_count = 0,
    function_backup_size = of_nat count,
    function_backup = (case copy_from env st3 address (unat (of_nat count :: u8)) of
      None \<Rightarrow> uninitialised env st3 (unat (of_nat count :: u8)) | Some bs \<Rightarrow> bs)\<rparr>"
  have i: "new_at env st3 = Inr i" and
    st4: "st4 = st3\<lparr>infos := (infos st3)(i \<mapsto> info), hooks_map := (hooks_map st3)(address \<mapsto> i)\<rparr>"
    using steps(12) hooks by (auto simp: Create_def bnd_eq_Inr_iff Let_def info_def)
  have info: "info_address info = address" "info_root info = 0" "info_trampoline info = tr" "custom_free info = 0"
    "relocated info = b" "handle_count info = 0" "function_backup_size info = of_nat count" "function_backup info = ?bytes"
    by (simp_all add: info_def size cong: option.case_cong)
  have fresh: "infos st i = None"
  proof -
    have "new_object env st3 = Some i" using i by (auto simp: new_at_def split: option.splits)
    then have "infos st3 i = None" using new unfolding new_fresh_def by blast
    then show ?thesis by (simp add: st3)
  qed
  have mem4: "bytes_in st4 = mem2" by (simp add: st4 st3)
  have jump: "length jump = GetFirstTrampolineSize type" by (simp add: jump_def length_jump_code)
  have mem5: "written_memory w = write_bytes mem2 address jump"
    using WriteFirstTrampoline_cases(4) [OF writes steps(14)] steps(15) by (simp add: mem4 jump_def)
  have heap': "heap st' = p\<lparr>contents := write_bytes mem2 address jump\<rparr>" by (simp add: steps(1) st4 st3 mem5)
  have out: "outside p address 32" using out by (simp add: heap')
  have A: "apart tr trampoline_size address 32" "apart b (length (code_bytes code)) address 32"
      "apart tr trampoline_size b (length (code_bytes code))"
    using outside_apart [OF p(1) p(5) out] outside_apart [OF p(1) p(4) out] blocks_apart_ranges [OF p(1) p(5,4)] p(6) q(4) p(3)
    by (auto intro: apart_shorter)
  have Aj: "apart tr trampoline_size address (length jump)" and ne: "jump \<noteq> []"
    using apart_shorter [OF A(1)] jump n by auto
  have td: "code_at (bytes_in st') tr GetSecondTrampoline"
    "TrampolineData_at (bytes_in st') (GetTrampolineData tr) = TrampolineData_at mem1 (GetTrampolineData tr)"
    using second_trampoline_written(1) [of "bytes_in st" tr]
    by (simp_all add: heap' mem2_def second_trampoline_kept [OF Aj ne] second_trampoline_kept [OF A(3) code(1)] mem1_def)
  have "infos st' i = Some info" by (simp add: steps(1) st4)
  moreover have "slot_ok (heap st') info" using p(1,5) q(4) by (auto simp: slot_ok_def info heap')
  moreover have "hook (TrampolineData_at (bytes_in st') (GetTrampolineData tr)) = 0"
    "post_handlers (TrampolineData_at (bytes_in st') (GetTrampolineData tr)) = 0"
    unfolding td(2) mem1_def by (rule second_trampoline_written)+
  ultimately have fi: "fresh_info st' i info" using steps(13) by (simp add: fresh_info_def info)
  have untouched: "mem2 x = bytes_in st x" if "outside p x 1" for x
  proof -
    have "apart b (length (code_bytes code)) x 1" "apart tr trampoline_size x 1"
      using outside_apart [OF p(1) p(4) that] outside_apart [OF p(1) p(5) that] p(3) q(4)
      by (auto intro: apart_shorter)
    then show ?thesis by (simp add: mem2_def mem1_def byte_apart write_second_outside)
  qed
  obtain bs where bs: "relocated_blocks mem1 address (int (GetFirstTrampolineSize type)) = Some (bs, count)"
    "code_bytes code = layout bs"
    using RelocatePrologue_relocated [OF steps(8) n(1)] by (auto simp: steps(6) mem1_def)
  have "mem1 (address + of_nat i) = bytes_in st (address + of_nat i)" if "int i < int (GetFirstTrampolineSize type) + 3" for i
  proof -
    have "outside p (address + of_nat i) 1" using out n(3) that by (intro outside_byte [OF out]) simp
    from apart_shorter [OF outside_apart [OF p(1) p(5) this] q(4), of 1] show ?thesis
      by (simp add: mem1_def write_second_outside)
  qed
  then have "prologue_blocks mem1 address (int (GetFirstTrampolineSize type)) False =
      prologue_blocks (bytes_in st) address (int (GetFirstTrampolineSize type)) False"
    by (rule prologue_blocks_cong)
  then have bs': "relocated_blocks (bytes_in st) address (int (GetFirstTrampolineSize type)) = Some (bs, count)"
    using bs(1) by (simp add: relocated_blocks_def)
  have at: "code_at (bytes_in st') b (layout bs)"
  proof -
    have "apart b (length (code_bytes code)) address (length jump)" using apart_shorter [OF A(2)] jump n(3) by simp
    then have "read_bytes (write_bytes mem2 address jump) b (length (layout bs)) = read_bytes mem2 b (length (layout bs))"
      by (simp add: read_apart apart_sym bs(2))
    moreover have "length (layout bs) \<le> 2 ^ 64" using code(2) by (simp add: bs(2))
    ultimately show ?thesis
      using read_write_bytes [of "layout bs" mem1 b] by (simp add: code_at_def heap' mem2_def bs(2))
  qed
  have frame: "bytes_in st' x = bytes_in st x" if "outside (heap st') x 1" "GetFirstTrampolineSize type \<le> unat (x - address)" for x
    using that untouched [of x] by (simp add: heap' write_bytes_outside jump)
  have "read_bytes mem2 address count = read_bytes (bytes_in st) address count"
    using untouched [OF outside_byte [OF out]] count(2) by (intro read_bytes_cong) simp
  then have backup: "function_backup info = read_bytes (bytes_in st) address count" if "\<forall>mem n. readable env mem address n"
    using that by (simp add: info(8) copy_from_def st3)
  have "jump_possible type address tr" using WriteFirstTrampoline_cases(1) [OF writes steps(14)] .
  moreover have "code_at (bytes_in st') address (jump_code type address tr)"
    using read_write_bytes [of jump mem2 address] n(3) by (simp add: heap' code_at_def flip: jump_def) (simp add: jump)
  moreover have "handles st' = handles st" "hooks_map st' = (hooks_map st)(address \<mapsto> i)"
    "\<forall>j. j \<noteq> i \<longrightarrow> infos st' j = infos st j"
    by (simp_all add: steps(1) st4 st3 with_contents_def)
  moreover have "block (heap st') b j" "length (layout bs) \<le> j" using p(3,4) by (simp_all add: heap' bs(2))
  ultimately have "prepared_info env st address i st' info"
    unfolding prepared_info_def Let_def info(1,3,4,5,7) size steps(7) [symmetric]
    using fi td(1) p(6) count frame backup fresh bs' at by (intro conjI allI impI) (auto simp: order_less_imp_le)
  then show ?thesis by blast
qed

end
