(* ===== verification/Hook_Lifecycle.thy ===== *)
theory Hook_Lifecycle
  imports Hook_Preparation Hook_Correctness
begin

text \<open>
  A function from its first hook to the removal of all hooks: the path of a call through both
  trampolines, and what \<open>UnhookAll\<close> and \<open>InlineUnhook\<close> leave behind.
\<close>

section \<open>The first hook\<close>

text \<open>What holds of a function that is hooked for the first time, and of the variable for its backup.\<close>

definition hookable :: "environment \<Rightarrow> library \<Rightarrow> u64 \<Rightarrow> u64 \<Rightarrow> bool" where
  "hookable env st address ub \<longleftrightarrow>
     system_ok (memory_system env) \<and> allocator_ok (heap st) \<and> new_fresh env \<and> writev_writes (copy_platform env) \<and>
     allocator_type (trampoline_allocator st) \<noteq> kCustom \<and> hooks_map st address = None \<and>
     (ub \<noteq> 0 \<longrightarrow> apart address 32 ub 8)"

text \<open>The function and the variable lie outside the heaps, which start at even addresses.\<close>

definition placed :: "process \<Rightarrow> u64 \<Rightarrow> u64 \<Rightarrow> bool" where
  "placed p address ub \<longleftrightarrow> outside p address 32 \<and> (ub \<noteq> 0 \<longrightarrow> outside p ub 8) \<and>
     (\<forall>a m. allocators p a = Some m \<longrightarrow> even (heap_start m))"

definition newly_hooked :: "library \<Rightarrow> u64 \<Rightarrow> u64 \<Rightarrow> u64 \<Rightarrow> library \<Rightarrow> u64 \<Rightarrow> HookInfo \<Rightarrow> entry list \<Rightarrow> bool" where
  "newly_hooked st address hook' ub st' i info es \<longleftrightarrow>
     hooked st' i info es \<and> back_linked 0 es \<and> (\<forall>e \<in> set es. user_backup_addr (snd e) = ub) \<and> custom_free info = 0 \<and> info_address info = address \<and>
     hooks_map st' = (hooks_map st)(address \<mapsto> i) \<and>
     (\<exists>bs k. relocated_blocks (bytes_in st) address
          (int (GetFirstTrampolineSize (GetSuggestedTrampolineType address (info_trampoline info)))) =
          Some (bs, unat (function_backup_size info)) \<and>
        code_at (bytes_in st') (relocated info) (layout bs) \<and>
        block (heap st') (relocated info) k \<and> length (layout bs) \<le> k) \<and>
     relocated info \<noteq> info_trampoline info \<and>
     code_at (bytes_in st') (info_trampoline info) GetSecondTrampoline \<and>
     (let td = TrampolineData_at (bytes_in st') (GetTrampolineData (info_trampoline info)) in
      enabled td \<and> (hook' \<noteq> 0 \<longrightarrow> hook td = hook')) \<and>
     (let type = GetSuggestedTrampolineType address (info_trampoline info) in
      jump_possible type address (info_trampoline info) \<and>
      code_at (bytes_in st') address (jump_code type address (info_trampoline info)))"

lemma outside_unprotected: "outside p a n \<Longrightarrow> unprotected p a n"
  by (auto simp: outside_def unprotected_def write_protected_def in_heap_def list_ex_iff split: option.splits)

lemma trampoline_parts:
  assumes "apart tr trampoline_size a n"
  shows "apart tr (length GetSecondTrampoline) a n" and "0 < n \<Longrightarrow> apart (GetTrampolineData tr) data_size a n"
  using apart_shorter [OF assms, of 740 n] apart_sub [OF assms, of 740 48]
  by (simp_all add: length_GetSecondTrampoline trampoline_size_def data_size_def GetTrampolineData_offset)

lemma placed_block:
  assumes "allocator_ok p" and "block p tr k" and "trampoline_size \<le> k" and "placed p address ub"
  shows "apart tr trampoline_size address 32" and "ub \<noteq> 0 \<Longrightarrow> apart tr trampoline_size ub 8" and "even tr"
proof -
  show "apart tr trampoline_size address 32" "ub \<noteq> 0 \<Longrightarrow> apart tr trampoline_size ub 8"
    using apart_shorter [OF outside_apart [OF assms(1,2), of address 32] assms(3), of 32]
      apart_shorter [OF outside_apart [OF assms(1,2), of ub 8] assms(3), of 8] assms(4)
    by (simp_all add: placed_def)
  from assms(2) obtain a m c where "allocators p a = Some m" "tr = chunk_address m c + 16"
    by (auto simp: block_def block_in_def)
  then show "even tr" using assms(4) by (auto simp: placed_def chunk_address_def)
qed

lemma first_installed_code:
  assumes inst: "first_installed st i info hook' pre post dat ub h st'"
    and a: "apart (GetTrampolineData (info_trampoline info)) data_size a n"
    and ub: "ub \<noteq> 0 \<Longrightarrow> apart a n ub 8"
  shows "read_bytes (bytes_in st') a n = read_bytes (bytes_in st) a n"
proof (rule read_bytes_cong)
  fix j assume j: "j < n"
  have "apart (GetTrampolineData (info_trampoline info)) data_size (a + of_nat j) 1"
    using apart_sub [OF apart_sym [OF a], of j 1] j by (simp add: data_size_def apart_sym)
  moreover have "ub \<noteq> 0 \<Longrightarrow> apart ub 8 (a + of_nat j) 1"
    using apart_sub [OF ub, of j 1] j by (simp add: apart_sym)
  ultimately show "bytes_in st' (a + of_nat j) = bytes_in st (a + of_nat j)"
    using inst by (auto simp: first_installed_def elsewhere_def)
qed

lemma prepared_cell:
  assumes info: "prepared_info env st address i st1 info" and pl: "placed (heap st1) address ub"
  shows "user_cell_ok st1 info [] ub"
proof -
  from info obtain k where k: "allocator_ok (heap st1)" "block (heap st1) (info_trampoline info) k" "trampoline_size \<le> k"
    by (auto simp: prepared_info_def fresh_info_def slot_ok_def)
  note pb = placed_block [OF k pl]
  show ?thesis
    using trampoline_parts(2) [OF pb(2)] pl outside_unprotected by (auto simp: user_cell_ok_def cell_free_def placed_def)
qed

lemma first_handle_installed:
  assumes info: "prepared_info env st address i st1 info" and new: "new_fresh env"
    and pl: "placed (heap st1) address ub" and ub: "ub \<noteq> 0 \<longrightarrow> apart address 32 ub 8" and kinds: "hook' = 0 \<or> post = 0"
    and run: "NewHookHandle env st1 i hook' pre post dat ub = Inr (h, st')"
  shows "first_installed st1 i info hook' pre post dat ub h st'"
    and "\<exists>info' es. newly_hooked st address hook' ub st' i info' es \<and> installed es = [(h, hook', pre, post, dat)] \<and>
      info' = info\<lparr>handle_count := 1, info_root := h\<rparr>"
proof -
  let ?tr = "info_trampoline info"
  let ?type = "GetSuggestedTrampolineType address ?tr"
  have f: "fresh_info st1 i info" and free: "custom_free info = 0" "info_address info = address"
    and code: "code_at (bytes_in st1) ?tr GetSecondTrampoline" "jump_possible ?type address ?tr"
      "code_at (bytes_in st1) address (jump_code ?type address ?tr)"
    and rel: "relocated info \<noteq> ?tr" and maps: "hooks_map st1 = (hooks_map st)(address \<mapsto> i)"
    using info by (simp_all add: prepared_info_def Let_def)
  from info obtain bs l where bs: "relocated_blocks (bytes_in st) address (int (GetFirstTrampolineSize ?type)) =
      Some (bs, unat (function_backup_size info))"
    and at: "code_at (bytes_in st1) (relocated info) (layout bs)"
    and l: "block (heap st1) (relocated info) l" "length (layout bs) \<le> l"
    by (auto simp: prepared_info_def Let_def)
  from f free obtain k where ok: "allocator_ok (heap st1)" and k: "trampoline_size \<le> k" "block (heap st1) ?tr k"
    by (auto simp: fresh_info_def slot_ok_def)
  note pb = placed_block [OF ok k(2,1) pl]
  have td: "apart (GetTrampolineData ?tr) data_size address 32"
    "ub \<noteq> 0 \<Longrightarrow> apart (GetTrampolineData ?tr) data_size ub 8"
    using trampoline_parts(2) [OF pb(1)] trampoline_parts(2) [OF pb(2)] by simp_all
  note cell = prepared_cell [OF info pl]
  from NewHookHandle_installed [OF f new kinds cell run]
  show inst: "first_installed st1 i info hook' pre post dat ub h st'" .
  have tr: "read_bytes (bytes_in st') ?tr (length GetSecondTrampoline) = read_bytes (bytes_in st1) ?tr (length GetSecondTrampoline)"
    using trampoline_parts(1) [OF pb(2)]
    by (intro first_installed_code [OF inst])
      (simp_all add: apart_def GetTrampolineData_def length_GetSecondTrampoline data_size_def)
  have len: "length (jump_code ?type address ?tr) \<le> 32"
    using first_trampoline_size_bound(2) [of ?type] by (simp add: length_jump_code)
  have "apart address (length (jump_code ?type address ?tr)) ub 8" if "ub \<noteq> 0"
    using apart_shorter [OF _ len, of address ub 8 8] ub that by simp
  then have same: "read_bytes (bytes_in st') address (length (jump_code ?type address ?tr)) =
      read_bytes (bytes_in st1) address (length (jump_code ?type address ?tr))"
    using apart_shorter [OF td(1), of data_size] len by (intro first_installed_code [OF inst]) simp_all
  moreover have "read_bytes (bytes_in st') (relocated info) (length (layout bs)) =
      read_bytes (bytes_in st1) (relocated info) (length (layout bs))"
  proof (rule first_installed_code [OF inst])
    have "apart ?tr trampoline_size (relocated info) l"
      using apart_shorter [OF blocks_apart_ranges [OF ok k(2) l(1)] k(1)] rel by simp
    from apart_shorter [OF trampoline_parts(2) [OF this block_positive [OF l(1)]], of data_size] l(2)
    show "apart (GetTrampolineData ?tr) data_size (relocated info) (length (layout bs))" by simp
    show "apart (relocated info) (length (layout bs)) ub 8" if "ub \<noteq> 0"
      using apart_shorter [OF outside_apart [OF ok l(1)] l(2), of ub 8 8] pl that by (simp add: placed_def)
  qed
  then have "code_at (bytes_in st') (relocated info) (layout bs)" using at by (simp add: code_at_def)
  moreover have "block (heap st') (relocated info) l" using l(1) inst by (auto simp: first_installed_def)
  ultimately have "\<exists>bs k. relocated_blocks (bytes_in st) address (int (GetFirstTrampolineSize ?type)) =
          Some (bs, unat (function_backup_size info)) \<and>
        code_at (bytes_in st') (relocated info) (layout bs) \<and>
        block (heap st') (relocated info) k \<and> length (layout bs) \<le> k"
    using bs l(2) by blast
  with inst tr code rel free maps same
  show "\<exists>info' es. newly_hooked st address hook' ub st' i info' es \<and> installed es = [(h, hook', pre, post, dat)] \<and>
      info' = info\<lparr>handle_count := 1, info_root := h\<rparr>"
    unfolding first_installed_def newly_hooked_def code_at_def Let_def
    by (elim exE conjE, intro exI conjI) (assumption | simp)+
qed

text \<open>Adding a handle changes no heap but in its contents.\<close>

definition same_heaps :: "library \<Rightarrow> library \<Rightarrow> bool" where
  "same_heaps st st' \<longleftrightarrow> (heap st')\<lparr>contents := (\<lambda>x. 0)\<rparr> = (heap st)\<lparr>contents := (\<lambda>x. 0)\<rparr>"

lemma same_heaps_iff: "same_heaps st st' \<longleftrightarrow> (\<exists>mem. heap st' = (heap st)\<lparr>contents := mem\<rparr>)"
proof
  assume "same_heaps st st'"
  then have "(heap st')\<lparr>contents := (\<lambda>x. 0)\<rparr>\<lparr>contents := bytes_in st'\<rparr> = (heap st)\<lparr>contents := (\<lambda>x. 0)\<rparr>\<lparr>contents := bytes_in st'\<rparr>"
    by (simp only: same_heaps_def)
  then show "\<exists>mem. heap st' = (heap st)\<lparr>contents := mem\<rparr>" by auto
qed (auto simp: same_heaps_def)

lemma same_heaps_ops:
  "store_bytes a bs st = Inr st' \<Longrightarrow> same_heaps st st'"
  "update_handle p f st = Inr st' \<Longrightarrow> same_heaps st st'"
  "update_info p g st = Inr st' \<Longrightarrow> same_heaps st st'"
  by (auto simp: same_heaps_def store_bytes_def update_handle_def update_info_def bnd_eq_Inr_iff split: if_splits)

lemma same_heaps_set:
  "set_root td v st = Inr st' \<Longrightarrow> same_heaps st st'" "set_hook td v st = Inr st' \<Longrightarrow> same_heaps st st'"
  "set_backup td v st = Inr st' \<Longrightarrow> same_heaps st st'" "set_getspecific td v st = Inr st' \<Longrightarrow> same_heaps st st'"
  "set_setspecific td v st = Inr st' \<Longrightarrow> same_heaps st st'" "set_tls_key td w st = Inr st' \<Longrightarrow> same_heaps st st'"
  "set_post_handlers td u st = Inr st' \<Longrightarrow> same_heaps st st'" "set_enabled td b st = Inr st' \<Longrightarrow> same_heaps st st'"
  by (simp_all add: set_root_def set_hook_def set_backup_def set_getspecific_def set_setspecific_def
      set_tls_key_def set_post_handlers_def set_enabled_def same_heaps_ops)

lemma first_handle_heaps:
  assumes "first_handle env st i f td h hook' post ub = Inr st'"
  shows "same_heaps st st'"
proof -
  have key: "same_heaps st st'" if "create_key env td st = Inr st'" for st st'
    using that
    by (auto simp: create_key_def bnd_eq_Inr_iff same_heaps_def split: option.splits
        dest!: same_heaps_set [unfolded same_heaps_def])
  show ?thesis
    using assms
    by (auto simp: first_handle_def bnd_eq_Inr_iff same_heaps_def split: if_splits
        dest!: same_heaps_ops [unfolded same_heaps_def] same_heaps_set [unfolded same_heaps_def]
          key [unfolded same_heaps_def])
qed

lemma NewHookHandle_first_heaps:
  assumes info: "infos st i = Some info" "slot_ok (heap st) info" "info_root info = 0"
    and run: "NewHookHandle env st i hook' pre post dat ub = Inr (h, st')"
  shows "same_heaps st st'"
proof -
  let ?body = "add_handle env i info hook' pre post dat ub"
  from in_scope_opened [OF info(2), of ?body] obtain p fin where
    scope: "in_scope st (scope_block info) ?body = bnd (?body (st\<lparr>heap := p\<rparr>)) fin"
    and fin: "\<And>x st' mem. heap st' = p\<lparr>contents := mem\<rparr> \<Longrightarrow>
       fin (x, st') = Inr (x, st'\<lparr>heap := (heap st)\<lparr>contents := mem\<rparr>\<rparr>)" by blast
  from run info(1) scope obtain y where y: "?body (st\<lparr>heap := p\<rparr>) = Inr y" "fin y = Inr (h, st')"
    by (auto simp: NewHookHandle_def object_at_def bnd_eq_Inr_iff split: if_splits)
  obtain x st1 where yx: "y = (x, st1)" by (cases y)
  from y(1) have "same_heaps (st\<lparr>heap := p\<rparr>) st1"
    using info(3)
    by (auto simp: yx add_handle_def Let_def bnd_eq_Inr_iff same_heaps_def update_info_def
        dest!: first_handle_heaps)
  then obtain mem where "heap st1 = p\<lparr>contents := mem\<rparr>" by (auto simp: same_heaps_iff)
  from fin [OF this, of x] y(2) show ?thesis by (auto simp: yx same_heaps_iff)
qed

text \<open>What the object of the function keeps, and the bytes that hooking does not change.\<close>

definition backed_up :: "environment \<Rightarrow> library \<Rightarrow> u64 \<Rightarrow> u64 \<Rightarrow> library \<Rightarrow> HookInfo \<Rightarrow> bool" where
  "backed_up env st address ub st' info \<longleftrightarrow>
     (let n = unat (function_backup_size info) in n \<le> 32 \<and>
      ((\<forall>mem k. readable env mem address k) \<longrightarrow> function_backup info = read_bytes (bytes_in st) address n) \<and>
      (\<forall>x. outside (heap st') x 1 \<and> n \<le> unat (x - address) \<and> (ub \<noteq> 0 \<longrightarrow> apart ub 8 x 1) \<longrightarrow>
        bytes_in st' x = bytes_in st x))"

lemma backed_up_first:
  assumes info: "prepared_info env st address i st1 info"
    and inst: "first_installed st1 i info hook' pre post dat ub h st'"
  shows "backed_up env st address ub st' info"
proof -
  from info obtain k where k: "allocator_ok (heap st1)" "block (heap st1) (info_trampoline info) k" "trampoline_size \<le> k"
    by (auto simp: prepared_info_def fresh_info_def slot_ok_def)
  obtain mem where heap: "heap st' = (heap st1)\<lparr>contents := mem\<rparr>" using inst by (auto simp: first_installed_def)
  have "bytes_in st' x = bytes_in st x" if out: "outside (heap st') x 1" and
    "unat (function_backup_size info) \<le> unat (x - address)" "ub \<noteq> 0 \<longrightarrow> apart ub 8 x 1" for x
  proof -
    have o: "outside (heap st1) x 1" using out heap by simp
    have "apart (info_trampoline info) trampoline_size x 1"
      using apart_shorter [OF outside_apart [OF k(1,2) o] k(3), of 1] by simp
    from trampoline_parts(2) [OF this] have "bytes_in st' x = bytes_in st1 x"
      using inst that(3) unfolding first_installed_def elsewhere_def by (metis zero_less_one)
    also have "\<dots> = bytes_in st x"
      using info o that(2) by (auto simp: prepared_info_def Let_def)
    finally show ?thesis .
  qed
  then show ?thesis using info by (auto simp: backed_up_def prepared_info_def Let_def)
qed

lemma placed_contents [simp]: "placed (p\<lparr>contents := mem\<rparr>) = placed p"
  by (simp add: placed_def fun_eq_iff)

lemma lock_depth_simps [simp]:
  "hooked (st\<lparr>lock_depth := n\<rparr>) i info es = hooked st i info es"
  "newly_hooked (st\<lparr>lock_depth := n\<rparr>) address hook' ub st' i info es = newly_hooked st address hook' ub st' i info es"
  "newly_hooked (clear_error st) address hook' ub st' i info es = newly_hooked st address hook' ub st' i info es"
  "newly_hooked st address hook' ub (st'\<lparr>lock_depth := n\<rparr>) i info es = newly_hooked st address hook' ub st' i info es"
  "backed_up env (st\<lparr>lock_depth := n\<rparr>) address ub st' info = backed_up env st address ub st' info"
  "backed_up env (clear_error st) address ub st' info = backed_up env st address ub st' info"
  "backed_up env st address ub (st'\<lparr>lock_depth := n\<rparr>) info = backed_up env st address ub st' info"
  "heap (clear_error st) = heap st" "hooks_map (clear_error st) = hooks_map st"
  "handles (clear_error st) = handles st" "infos (clear_error st) = infos st"
  "trampoline_allocator (clear_error st) = trampoline_allocator st"
  "function_records (clear_error st) = function_records st"
  by (simp_all add: hooked_def newly_hooked_def backed_up_def clear_error_def)

lemma backed_up_info [simp]:
  "backed_up env st address ub st' (info\<lparr>handle_count := n, info_root := h\<rparr>) = backed_up env st address ub st' info"
  by (simp add: backed_up_def)

lemma locked_Inr:
  "locked st body = Inr (x, st') \<longleftrightarrow> (\<exists>st2. body (st\<lparr>lock_depth := lock_depth st + 1\<rparr>) = Inr (x, st2) \<and>
     st' = st2\<lparr>lock_depth := lock_depth st2 - 1\<rparr>)"
  by (auto simp: locked_def bnd_eq_Inr_iff)

lemma DoHook_first:
  assumes hk: "hookable env st address ub" and kinds: "hook' = 0 \<or> post = 0"
    and run: "DoHook env st address hook' pre post dat ub = Inr (h, st')" and h: "h \<noteq> 0"
    and pl: "placed (heap st') address ub"
  shows "\<exists>i info es. newly_hooked st address hook' ub st' i info es \<and>
    installed es = [(h, hook', pre, post, dat)] \<and> backed_up env st address ub st' info"
proof -
  let ?st = "clear_error (st\<lparr>lock_depth := lock_depth st + 1\<rparr>)"
  have sys: "system_ok (memory_system env)" and ok: "allocator_ok (heap ?st)" and new: "new_fresh env"
    and writes: "writev_writes (copy_platform env)"
    and builtin: "allocator_type (trampoline_allocator ?st) \<noteq> kCustom" and unknown: "hooks_map ?st address = None"
    and ub: "ub \<noteq> 0 \<longrightarrow> apart address 32 ub 8"
    using hk by (simp_all add: hookable_def)
  from run obtain st2 where
    "(let info = Lookup ?st address in
      if info \<noteq> 0 then bnd (object_at (infos ?st) info) (\<lambda>i.
        if handle_count i = 0xFFFF then Inr (0, set_error hook_tag ''Too many hooks'' ?st)
        else NewHookHandle env ?st info hook' pre post dat ub)
      else bnd (first_hook env ?st address) (\<lambda>(info, st).
        if info = 0 then Inr (0, st) else NewHookHandle env st info hook' pre post dat ub)) = Inr (h, st2)"
    and st': "st' = st2\<lparr>lock_depth := lock_depth st2 - 1\<rparr>"
    unfolding DoHook_def locked_Inr Let_def by blast
  moreover have "Lookup ?st address = 0" using unknown by (simp add: Lookup_def)
  ultimately obtain i st1 where first: "first_hook env ?st address = Inr (i, st1)" and i: "i \<noteq> 0"
    and new1: "NewHookHandle env st1 i hook' pre post dat ub = Inr (h, st2)"
    using h by (auto simp: bnd_eq_Inr_iff split: if_splits)
  have prep: "prepared env ?st address i st1" using first first_hook_iff_prepared [OF sys ok builtin i] by blast
  have pl2: "placed (heap st2) address ub" using pl st' by simp
  have same: "placed (heap st1) address ub"
  proof -
    obtain info where "infos st1 i = Some info" "slot_ok (heap st1) info" "info_root info = 0"
      using prepared_slot [OF sys ok prep] by blast
    from NewHookHandle_first_heaps [OF this new1] show ?thesis using pl2
      by (auto simp: same_heaps_iff)
  qed
  have out: "outside (heap st1) address 32" using same by (simp add: placed_def)
  from prepared_gives_info [OF sys ok new writes unknown prep out] obtain info where
    info: "prepared_info env ?st address i st1 info" by blast
  note fi = first_handle_installed [OF info new same ub kinds new1]
  from fi(2) obtain es where "newly_hooked ?st address hook' ub st2 i (info\<lparr>handle_count := 1, info_root := h\<rparr>) es"
    "installed es = [(h, hook', pre, post, dat)]" by blast
  moreover note backed_up_first [OF info fi(1)]
  ultimately show ?thesis
    unfolding st'
    by (intro exI [of _ i] exI [of _ "info\<lparr>handle_count := 1, info_root := h\<rparr>"] exI [of _ es]) simp
qed

lemma InlineHook_first:
  assumes "hookable env st address ub" and "InlineHook env st address hook' ub = Inr (h, st')" and "h \<noteq> 0"
    and "placed (heap st') address ub"
  shows "\<exists>i info es. newly_hooked st address hook' ub st' i info es \<and>
    installed es = [(h, hook', 0, 0, 0)] \<and> backed_up env st address ub st' info" and "address \<noteq> 0" and "hook' \<noteq> 0"
proof -
  from assms(2,3) show a: "address \<noteq> 0" "hook' \<noteq> 0" by (auto simp: InlineHook_def split: if_splits)
  then have "DoHook env st address hook' 0 0 0 ub = Inr (h, st')" using assms(2) by (simp add: InlineHook_def)
  from DoHook_first [OF assms(1) _ this assms(3,4)] show "\<exists>i info es. newly_hooked st address hook' ub st' i info es \<and>
    installed es = [(h, hook', 0, 0, 0)] \<and> backed_up env st address ub st' info" by simp
qed

lemma newly_hooked_block:
  assumes "newly_hooked st address hook' ub st' i info es"
  shows "\<exists>k \<ge> trampoline_size. block (heap st') (info_trampoline info) k" and "allocator_ok (heap st')"
  using assms by (auto simp: newly_hooked_def hooked_def slot_ok_def)

section \<open>Removing all hooks\<close>

definition without_handles :: "entry list \<Rightarrow> library \<Rightarrow> library" where
  "without_handles es st = st\<lparr>handles := (\<lambda>y. if y \<in> fst ` set es then None else handles st y)\<rparr>"

lemma without_handles_Nil [simp]: "without_handles [] st = st"
  by (simp add: without_handles_def)

lemma delete_from_chain:
  assumes "chain (handles st) p es" and "distinct (map fst es)" and "es \<noteq> []" and "length es \<le> n"
  shows "delete_from n p st = Inr (without_handles es st)"
  using assms
proof (induction es arbitrary: p n st)
  case (Cons e es)
  then obtain m where n: "n = Suc m" "length es \<le> m" by (cases n) auto
  from Cons.prems(1) have e: "p = fst e" "fst e \<noteq> 0" "handles st (fst e) = Some (snd e)"
    "chain (handles st) (next_handle (snd e)) es" by auto
  let ?st = "delete_handle p st"
  have new: "fst e \<notin> fst ` set es" and d: "distinct (map fst es)" using Cons.prems(2) by simp_all
  have view: "without_handles es ?st = without_handles (e # es) st"
    by (auto simp: without_handles_def delete_handle_def e(1) fun_eq_iff intro!: library.fold_congs)
  show ?case
  proof (cases "es = []")
    case True
    then show ?thesis using e view n by (simp add: object_at_def)
  next
    case False
    then have "next_handle (snd e) \<noteq> 0" using e(4) by (cases es) auto
    moreover have "handles ?st (fst d) = handles st (fst d)" if "d \<in> set es" for d
    proof -
      have "fst d \<noteq> fst e" using new imageI [OF that, of fst] by metis
      then show ?thesis by (simp add: delete_handle_def e(1))
    qed
    then have "chain (handles ?st) (next_handle (snd e)) es" using chain_cong [OF e(4)] by blast
    ultimately show ?thesis using Cons.IH [OF _ d False n(2)] e view n by (simp add: object_at_def)
  qed
qed simp

lemma UnhookAllExt_result:
  assumes "hooked st i info es" and "(x, k) \<in> set es"
  shows "UnhookAllExt env st x =
    bnd (HookInfo_Unhook env True i (without_handles es st)) (\<lambda>st'. Inr (True, st'))"
proof -
  from assms(1) have h: "i \<noteq> 0" "infos st i = Some info" "chain (handles st) (info_root info) es"
    "distinct (map fst es)" "length es < 2 ^ 16" "\<forall>e \<in> set es. handle_info (snd e) = i"
    by (simp_all add: hooked_def)
  have x: "x \<noteq> 0" "handles st x = Some k" "handle_info k = i"
    using chain_nonzero [OF h(3) assms(2)] h(6) assms(2) by auto
  have "es \<noteq> []" using assms(2) by auto
  moreover have "length es \<le> kMaxHandles" using h(5) by (simp add: kMaxHandles_def)
  ultimately have "delete_from kMaxHandles (info_root info) st = Inr (without_handles es st)"
    using delete_from_chain [OF h(3,4)] by blast
  then show ?thesis using x h(1,2) by (simp add: UnhookAllExt_def object_at_def)
qed

text \<open>What \<open>HookInfo::Unhook\<close> leaves of a function whose trampoline is a block of the allocator.\<close>

lemma HookInfo_Unhook_result:
  assumes i: "i \<noteq> 0" "infos st i = Some info" and free: "custom_free info = 0"
    and run: "HookInfo_Unhook env True i st = Inr st'"
  shows "handles st' = handles st" and "infos st' = infos st" and "hooks_map st' = (hooks_map st)(i := None)"
    and "GetMemoryHeader (heap st') (info_trampoline info) = None"
    and "bytes_in st' = snd (Memory_Copy (copy_platform env) (bytes_in st) (info_address info) (function_backup info))"
proof -
  let ?st = "snd (copy_to env (info_address info) (function_backup info) st)"
  have st: "heap ?st = (heap st)\<lparr>contents := snd (Memory_Copy (copy_platform env) (bytes_in st) (info_address info) (function_backup info))\<rparr>"
    "handles ?st = handles st" "infos ?st = infos st" "hooks_map ?st = hooks_map st"
    by (simp_all add: copy_to_def with_contents_def split: prod.split)
  from run i free obtain x p y q where
    p: "Free (heap ?st) (info_trampoline info) = Inr (x, p)" and q: "Free p (relocated info) = Inr (y, q)" and
    st': "heap st' = q" "handles st' = handles ?st" "infos st' = infos ?st" "hooks_map st' = (hooks_map ?st)(i := None)"
    by (auto simp: HookInfo_Unhook_def object_at_def Let_def bnd_eq_Inr_iff split: if_splits)
  show "handles st' = handles st" "infos st' = infos st" "hooks_map st' = (hooks_map st)(i := None)"
    using st st' by simp_all
  show "GetMemoryHeader (heap st') (info_trampoline info) = None"
    using Free_headers(2) [OF q] Free_headers(1) [OF p] st'(1) by simp
  show "bytes_in st' = snd (Memory_Copy (copy_platform env) (bytes_in st) (info_address info) (function_backup info))"
    using Free_contents [OF p] Free_contents [OF q] st st'(1) by simp
qed

lemma without_handles_simps [simp]:
  "heap (without_handles es st) = heap st" "infos (without_handles es st) = infos st"
  "hooks_map (without_handles es st) = hooks_map st"
  "handles (without_handles es st) y = (if y \<in> fst ` set es then None else handles st y)"
  by (simp_all add: without_handles_def)

lemma InlineUnhook_hooked:
  assumes h: "hooked st i info es" and free: "custom_free info = 0" and known: "hooks_map st address = Some i"
    and run: "InlineUnhook env st address = Inr (r, st')" and a: "address \<noteq> 0"
  shows "r" and "\<And>y. handles st' y = (if y \<in> fst ` set es then None else handles st y)" and "infos st' = infos st"
    and "hooks_map st' = (hooks_map st)(i := None)" and "GetMemoryHeader (heap st') (info_trampoline info) = None"
    and "bytes_in st' = snd (Memory_Copy (copy_platform env) (bytes_in st) (info_address info) (function_backup info))"
proof -
  let ?st = "clear_error (st\<lparr>lock_depth := lock_depth st + 1\<rparr>)"
  have i: "i \<noteq> 0" "infos st i = Some info" using h by (simp_all add: hooked_def)
  obtain e es' where es: "es = e # es'" using h by (cases es) (simp_all add: hooked_def)
  have "chain (handles st) (info_root info) es" using h by (simp add: hooked_def)
  then have root: "info_root info = fst e" "fst e \<noteq> 0" by (auto simp: es)
  have "hooked ?st i info es" using h by (simp add: hooked_def)
  note all = UnhookAllExt_result [OF this, of "fst e" "snd e" env]
  have "hooked_root ?st address = Inr (fst e)"
    using known i root by (simp add: hooked_root_def Lookup_def object_at_def)
  moreover from run a obtain st3 where body: "bnd (hooked_root ?st address) (\<lambda>root.
        if root \<noteq> 0 then bnd (UnhookAllExt env ?st root) (\<lambda>(_, st). Inr (True, st))
        else case function_records ?st address of
               None \<Rightarrow> Inr (False, ?st)
             | Some r \<Rightarrow>
                 bnd (FunctionRecord_Unhook env r ?st) (\<lambda>st.
                 Inr (True, st\<lparr>function_records := (function_records st)(address := None)\<rparr>))) = Inr (r, st3)"
    and st': "st' = st3\<lparr>lock_depth := lock_depth st3 - 1\<rparr>"
    unfolding InlineUnhook_def if_not_P [OF a] locked_Inr Let_def by blast
  ultimately have "bnd (UnhookAllExt env ?st (fst e)) (\<lambda>(_, st). Inr (True, st)) = Inr (r, st3)"
    using root(2) by simp
  moreover have "(fst e, snd e) \<in> set es" using es by simp
  ultimately have r: "r" and u: "HookInfo_Unhook env True i (without_handles es ?st) = Inr st3"
    unfolding all [OF \<open>(fst e, snd e) \<in> set es\<close>] by (auto simp: bnd_eq_Inr_iff)
  have "infos (without_handles es ?st) i = Some info" using i(2) by simp
  note res = HookInfo_Unhook_result [OF i(1) this free u]
  show "r" by (rule r)
  show "\<And>y. handles st' y = (if y \<in> fst ` set es then None else handles st y)" "infos st' = infos st"
    "hooks_map st' = (hooks_map st)(i := None)" "GetMemoryHeader (heap st') (info_trampoline info) = None"
    "bytes_in st' = snd (Memory_Copy (copy_platform env) (bytes_in st) (info_address info) (function_backup info))"
    using res by (simp_all add: st')
qed

text \<open>
  Whether the removal of the hooks succeeds depends on the heaps of the two blocks: an allocator that is
  not the default one deletes itself with its last block, and is used after that.
\<close>

definition held :: "process \<Rightarrow> u64 \<Rightarrow> u64 \<Rightarrow> bool" where
  "held p a q \<longleftrightarrow> (\<exists>m c l. block_in p a m c q l)"

definition last_blocks :: "process \<Rightarrow> u64 set \<Rightarrow> bool" where
  "last_blocks p B \<longleftrightarrow> (\<exists>a. \<not> is_default_allocator p a \<and> Collect (held p a) \<noteq> {} \<and> Collect (held p a) \<subseteq> B)"

lemma last_blocks_contents [simp]: "last_blocks (p\<lparr>contents := mem\<rparr>) B = last_blocks p B"
proof -
  have "held (p\<lparr>contents := mem\<rparr>) = held p" by (simp add: held_def block_in_def count_at_def fun_eq_iff)
  then show ?thesis by (simp add: last_blocks_def is_default_allocator_def)
qed

lemma held_heap:
  assumes "allocator_ok p" and "block_in p a m c b k"
  shows "held p e b \<longleftrightarrow> e = a"
  using header_of_block(1,4) [OF assms] header_of_block(1,4) [OF assms(1)] assms(2) unfolding held_def by metis

lemma last_blocks_single:
  assumes ok: "allocator_ok p" and b: "block_in p a m c b k"
  shows "last_blocks p {b} \<longleftrightarrow> (\<forall>d q l. block_in p a m d q l \<longrightarrow> d = c) \<and> \<not> is_default_allocator p a"
proof -
  have m: "allocators p a = Some m" "c < total_chunks m" "b = chunk_address m c + 16"
    and fits: "unat (heap_start m) + unat (heap_size m) < 2 ^ 64"
    using b header_of_block(6) [OF ok b] by (simp_all add: block_in_def heap_ok_def)
  have one: "d = c \<longleftrightarrow> q = b" if "block_in p a m d q l" for d q l
    using that m(2,3) chunk_address_inject [OF fits, of d c] by (auto simp: block_in_def)
  have "held p a q \<longleftrightarrow> (\<exists>d l. block_in p a m d q l)" for q
    using m(1) by (auto simp: held_def block_in_def)
  then have "Collect (held p a) \<subseteq> {b} \<longleftrightarrow> (\<forall>d q l. block_in p a m d q l \<longrightarrow> d = c)" using one by blast
  moreover have "e = a" if "Collect (held p e) \<noteq> {}" and "Collect (held p e) \<subseteq> {b}" for e
    using that held_heap [OF ok b, of e] by blast
  moreover have "Collect (held p a) \<noteq> {}" using held_heap [OF ok b, of a] by blast
  ultimately show ?thesis unfolding last_blocks_def by blast
qed

lemma Free_outcome:
  assumes ok: "allocator_ok p" and b: "block p b k"
  shows "if last_blocks p {b} then Free p b = Inl UseAfterFree
    else \<exists>p'. Free p b = Inr ((), p') \<and> allocator_ok p' \<and> (\<forall>q l. block p' q l \<longleftrightarrow> block p q l \<and> q \<noteq> b) \<and>
      (\<forall>B. b \<notin> B \<longrightarrow> last_blocks p' B = last_blocks p (insert b B))"
proof -
  from b obtain a m c where blk: "block_in p a m c b k" by (auto simp: block_def)
  have "last_blocks p' B = last_blocks p (insert b B)"
    if l: "\<not> last_blocks p {b}" and h: "\<forall>e q. (\<exists>n d l. block_in p' e n d q l) \<longleftrightarrow> (\<exists>n d l. block_in p e n d q l) \<and> q \<noteq> b"
      and d: "default_list p' = default_list p" and B: "b \<notin> B" for p' B
  proof -
    have minus: "Collect (held p' e) = Collect (held p e) - {b}" for e using h by (auto simp: held_def)
    have "is_default_allocator p' e = is_default_allocator p e" for e using d by (simp add: is_default_allocator_def)
    moreover have "Collect (held p' e) \<noteq> {} \<and> Collect (held p' e) \<subseteq> B \<longleftrightarrow>
        Collect (held p e) \<noteq> {} \<and> Collect (held p e) \<subseteq> insert b B" if "\<not> is_default_allocator p e" for e
    proof -
      have "Collect (held p e) = {} \<or> \<not> Collect (held p e) \<subseteq> {b}"
        using l that unfolding last_blocks_def by blast
      then show ?thesis unfolding minus by blast
    qed
    ultimately show ?thesis unfolding last_blocks_def by (simp cong: conj_cong)
  qed
  note later = this
  show ?thesis
  proof (cases "last_blocks p {b}")
    case True
    then show ?thesis using Free_result [OF ok blk] unfolding last_blocks_single [OF ok blk] by simp
  next
    case False
    then obtain p' where p': "Free p b = Inr ((), p')" "allocator_ok p'" "\<forall>q l. block p' q l \<longleftrightarrow> block p q l \<and> q \<noteq> b"
      "\<forall>e q. (\<exists>n d l. block_in p' e n d q l) \<longleftrightarrow> (\<exists>n d l. block_in p e n d q l) \<and> q \<noteq> b"
      "default_list p' = default_list p"
      using Free_result [OF ok blk] unfolding last_blocks_single [OF ok blk] if_not_P by metis
    have "\<forall>B. b \<notin> B \<longrightarrow> last_blocks p' B = last_blocks p (insert b B)"
      using later [OF False p'(4,5)] by blast
    then show ?thesis using False p'(1-3) by simp
  qed
qed

lemma HookInfo_Unhook_outcome:
  assumes i: "i \<noteq> 0" "infos st i = Some info" and free: "custom_free info = 0" and ok: "allocator_ok (heap st)"
    and blocks: "block (heap st) (info_trampoline info) k" "block (heap st) (relocated info) l"
      "relocated info \<noteq> info_trampoline info"
  shows "if last_blocks (heap st) {info_trampoline info, relocated info} then HookInfo_Unhook env True i st = Inl UseAfterFree
    else \<exists>st'. HookInfo_Unhook env True i st = Inr st'"
proof -
  let ?tr = "info_trampoline info" and ?rel = "relocated info"
  let ?st = "snd (copy_to env (info_address info) (function_backup info) st)"
  obtain mem where st: "heap ?st = (heap st)\<lparr>contents := mem\<rparr>"
    by (cases "Memory_Copy (copy_platform env) (bytes_in st) (info_address info) (function_backup info)")
      (simp add: copy_to_def with_contents_def)
  have ok': "allocator_ok (heap ?st)" "block (heap ?st) ?tr k" "block (heap ?st) ?rel l"
    and same: "last_blocks (heap ?st) B = last_blocks (heap st) B" for B
    using ok blocks st by (simp_all add: contents_ok)
  show ?thesis
  proof (cases "last_blocks (heap st) {?tr}")
    case True
    then have "last_blocks (heap st) {?tr, ?rel}" by (auto simp: last_blocks_def)
    moreover have "Free (heap ?st) ?tr = Inl UseAfterFree" using Free_outcome [OF ok'(1,2)] True same by simp
    ultimately show ?thesis using i free by (simp add: HookInfo_Unhook_def object_at_def Let_def)
  next
    case False
    then obtain p where p: "Free (heap ?st) ?tr = Inr ((), p)" "allocator_ok p" "block p ?rel l"
      "last_blocks p {?rel} = last_blocks (heap st) {?tr, ?rel}"
      using Free_outcome [OF ok'(1,2)] same ok'(3) blocks(3) by auto
    show ?thesis
      using Free_outcome [OF p(2,3)] p(1,4) i free
      by (auto simp: HookInfo_Unhook_def object_at_def Let_def split: if_splits)
  qed
qed

lemma InlineUnhook_outcome:
  assumes h: "hooked st i info es" and free: "custom_free info = 0" and known: "hooks_map st address = Some i"
    and a: "address \<noteq> 0" and blocks: "block (heap st) (relocated info) l" "relocated info \<noteq> info_trampoline info"
  shows "if last_blocks (heap st) {info_trampoline info, relocated info} then InlineUnhook env st address = Inl UseAfterFree
    else \<exists>st'. InlineUnhook env st address = Inr (True, st')"
proof -
  let ?st = "clear_error (st\<lparr>lock_depth := lock_depth st + 1\<rparr>)"
  from h free obtain k where i: "i \<noteq> 0" "infos st i = Some info" "allocator_ok (heap st)" "block (heap st) (info_trampoline info) k"
    by (auto simp: hooked_def slot_ok_def)
  obtain e es' where es: "es = e # es'" using h by (cases es) (simp_all add: hooked_def)
  have "chain (handles st) (info_root info) es" using h by (simp add: hooked_def)
  then have root: "info_root info = fst e" "fst e \<noteq> 0" by (auto simp: es)
  have "hooked ?st i info es" using h by (simp add: hooked_def)
  moreover have "(fst e, snd e) \<in> set es" using es by simp
  ultimately have all: "UnhookAllExt env ?st (fst e) = bnd (HookInfo_Unhook env True i (without_handles es ?st)) (\<lambda>st'. Inr (True, st'))"
    by (rule UnhookAllExt_result)
  have "hooked_root ?st address = Inr (fst e)"
    using known i root by (simp add: hooked_root_def Lookup_def object_at_def)
  then have run: "InlineUnhook env st address = bnd (HookInfo_Unhook env True i (without_handles es ?st))
      (\<lambda>st'. Inr (True, st'\<lparr>lock_depth := lock_depth st' - 1\<rparr>))"
    using a all root(2) by (cases "HookInfo_Unhook env True i (without_handles es ?st)")
      (simp_all add: InlineUnhook_def locked_def Let_def)
  have "infos (without_handles es ?st) i = Some info" using i(2) by simp
  from HookInfo_Unhook_outcome [OF i(1) this free, of k l env] i(3,4) blocks show ?thesis
    unfolding run by (auto split: if_splits)
qed

text \<open>With one heap only, the default one, it succeeds.\<close>

lemma last_blocks_default:
  assumes "allocator_ok p" and "default_list p = [d]" and "root_list p = []"
  shows "\<not> last_blocks p B"
proof -
  have "dom (allocators p) = {d}" using assms by (simp add: allocator_ok_def)
  then have "a = d" if "held p a q" for a q using that by (auto simp: held_def block_in_def)
  then show ?thesis using assms(2) by (auto simp: last_blocks_def is_default_allocator_def)
qed

lemma InlineUnhook_runs:
  assumes h: "hooked st i info es" and free: "custom_free info = 0" and known: "hooks_map st address = Some i"
    and a: "address \<noteq> 0" and lists: "default_list (heap st) = [d]" "root_list (heap st) = []"
    and blocks: "block (heap st) (relocated info) l" "relocated info \<noteq> info_trampoline info"
  shows "\<exists>st'. InlineUnhook env st address = Inr (True, st')"
  using InlineUnhook_outcome [OF h free known a blocks, of env] last_blocks_default [OF _ lists] h
  by (auto simp: hooked_def slot_ok_def)

end
