(* ===== verification/Hook_Examples.thy ===== *)
theory Hook_Examples
  imports Hook_Lifecycle
begin

text \<open>
  A concrete run, on which the properties of \<open>Lifecycle_Correctness\<close> are instantiated: a function of
  sixteen instructions \<open>c.addi sp, -16\<close> at \<open>0x10000\<close>, hooked with a function at \<open>0x2000\<close>; the
  variable for the backup is at \<open>0x9000\<close>. There is no gap near the function, so that both blocks come
  from the default heap.
\<close>

section \<open>The two blocks\<close>

definition example_function :: memory where
  "example_function = mem_of 0x10000 (concat (replicate 16 [0x41, 0x11]))"

definition unhooked :: library where
  "unhooked = \<lparr>heap = example_process\<lparr>contents := example_function\<rparr>, handles = (\<lambda>x. None), infos = (\<lambda>x. None),
     hooks_map = (\<lambda>x. None), function_records = (\<lambda>x. None),
     trampoline_allocator = \<lparr>allocator_type = kDefault, custom_alloc_function = 0, custom_free_function = 0,
       allocator_data = 0\<rparr>,
     errors = initial_logger, tls_keys = [], lock_depth = 0\<rparr>"

definition entered :: library where
  "entered = clear_error (unhooked\<lparr>lock_depth := lock_depth unhooked + 1\<rparr>)"

definition first_process :: process where
  "first_process = snd (sum.projr (Alloc example_system (example_process\<lparr>contents := example_function\<rparr>) 788))"

lemma no_gap: "NewAllocator example_system (example_process\<lparr>contents := m\<rparr>) 0x10000 0x8000F000 0x1000 kSmallHeapSize = Inr None"
proof -
  have "case NewAllocator example_system (example_process\<lparr>contents := m\<rparr>) 0x10000 0x8000F000 0x1000 kSmallHeapSize of
      Inl e \<Rightarrow> False | Inr r \<Rightarrow> Option.is_none r" by code_simp
  then show ?thesis by (simp add: Option.is_none_def split: sum.splits)
qed

lemma range_alloc:
  "AllocRange example_system (example_process\<lparr>contents := m\<rparr>) 788 0x10000 0x8000F800 = Inr (0, example_process\<lparr>contents := m\<rparr>)"
proof -
  have "align_up 0x10000 (page_size example_system) = 0x10000" "align_down 0x8000F800 (page_size example_system) = 0x8000F000"
    "page_size example_system = 0x1000" by code_simp+
  then show ?thesis using no_gap [of m]
    by (simp add: AllocRange_def Let_def kSmallHeapSize_def example_process_def)
qed

lemma first_alloc: "Alloc example_system (example_process\<lparr>contents := example_function\<rparr>) 788 = Inr (0x7fff00000010, first_process)"
proof -
  have "case Alloc example_system (example_process\<lparr>contents := m\<rparr>) 788 of Inl e \<Rightarrow> False | Inr (q, p) \<Rightarrow> q = 0x7fff00000010" for m
    by code_simp
  from this [of example_function] show ?thesis
    unfolding first_process_def by (auto split: sum.splits)
qed

text \<open>The second block, whatever has been written to memory in between.\<close>

definition second_process :: "memory \<Rightarrow> process" where
  "second_process mem = snd (sum.projr (Alloc example_system (first_process\<lparr>contents := mem\<rparr>) 38))"

lemma second_alloc:
  shows "Alloc example_system (first_process\<lparr>contents := mem\<rparr>) 38 = Inr (0x7fff00000390, second_process mem)"
    and "default_list (second_process mem) = [0x2000]" and "root_list (second_process mem) = []"
    and "\<exists>a. allocators (second_process mem) 0x2000 = Some a \<and> heap_start a = 0x7fff00000000 \<and> heap_size a = 0x100000"
proof -
  have "case Alloc example_system ((snd (sum.projr (Alloc example_system (example_process\<lparr>contents := m\<rparr>) 788)))\<lparr>contents := mem\<rparr>) 38 of
      Inl e \<Rightarrow> False
    | Inr (q, p) \<Rightarrow> q = 0x7fff00000390 \<and> default_list p = [0x2000] \<and> root_list p = [] \<and>
        (case allocators p 0x2000 of None \<Rightarrow> False | Some a \<Rightarrow> heap_start a = 0x7fff00000000 \<and> heap_size a = 0x100000)" for m
    by code_simp
  from this [of example_function] show "Alloc example_system (first_process\<lparr>contents := mem\<rparr>) 38 = Inr (0x7fff00000390, second_process mem)"
    "default_list (second_process mem) = [0x2000]" "root_list (second_process mem) = []"
    "\<exists>a. allocators (second_process mem) 0x2000 = Some a \<and> heap_start a = 0x7fff00000000 \<and> heap_size a = 0x100000"
    unfolding second_process_def first_process_def by (auto split: sum.splits option.splits)
qed

section \<open>The function is prepared\<close>

lemma entered_simps [simp]:
  "heap entered = example_process\<lparr>contents := example_function\<rparr>" "handles entered = (\<lambda>x. None)"
  "infos entered = (\<lambda>x. None)" "hooks_map entered = (\<lambda>x. None)"
  "allocator_type (trampoline_allocator entered) = kDefault"
  by (simp_all add: entered_def unhooked_def)

lemma example_ok: "allocator_ok (example_process\<lparr>contents := mem\<rparr>)"
  using reachable_ok [OF example_reachable example_system_ok] by simp

lemma example_environment_simps [simp]:
  "memory_system example_environment = example_system" "copy_platform example_environment = plain_platform"
  by (simp_all add: example_environment_def)

lemma example_suggested: "GetSuggestedTrampolineType 0x10000 0x7fff00000010 = kWide"
  by (simp add: GetSuggestedTrampolineType_def)

definition example_code :: "block list" where
  "example_code = replicate 9 (Verbatim [0x41, 0x11]) @ [CallAbs zero 0x10012]"

lemma example_function_relocation:
  "relocated_blocks (write_second_trampoline example_function 0x7fff00000010) 0x10000 18 = Some (example_code, 18)"
proof -
  let ?mem = "write_second_trampoline example_function 0x7fff00000010"
  have "?mem (0x10000 + of_nat i) = example_function (0x10000 + of_nat i)" if "int i < 18 + 3" for i
  proof -
    have "apart 0x10000 32 0x7fff00000010 trampoline_size" by (simp add: apart_def trampoline_size_def)
    then have "apart (0x10000 + of_nat i) 1 0x7fff00000010 trampoline_size"
      using apart_sub [of "0x10000" 32 "0x7fff00000010" trampoline_size i 1] that
      by (simp add: trampoline_size_def)
    then show ?thesis by (rule write_second_outside [OF apart_sym])
  qed
  then have "prologue_blocks ?mem 0x10000 18 False = prologue_blocks example_function 0x10000 18 False"
    by (rule prologue_blocks_cong)
  moreover have "relocated_blocks example_function 0x10000 18 = Some (example_code, 18)" by code_simp
  ultimately show ?thesis by (simp add: relocated_blocks_def)
qed

lemma example_prepared: "\<exists>st1. prepared example_environment entered 0x10000 0x6000 st1 \<and>
  (\<exists>mem mem'. heap st1 = (second_process mem)\<lparr>contents := mem'\<rparr>)"
proof -
  let ?mem1 = "write_second_trampoline example_function 0x7fff00000010"
  define st2 where "st2 = with_contents ?mem1 (entered\<lparr>heap := first_process\<rparr>)"
  define code where "code = \<lparr>code_bytes = layout example_code, relocations = []\<rparr>"
  define st3 where "st3 = with_contents (write_bytes (bytes_in st2) 0x7fff00000390 (code_bytes code)) (st2\<lparr>heap := second_process ?mem1\<rparr>)"
  have read: "copy_from example_environment entered 0x10000 32 = Some (read_bytes example_function 0x10000 32)"
    by (simp add: copy_from_def plain_platform_def)
  have range: "trampoline_range (allocator_type (trampoline_allocator entered)) 0x10000 = (0x10000, 0x8000F800)"
    by (simp add: kDefault_def trampoline_range_def)
  have sz: "second_trampoline_size = 788" by (simp add: second_trampoline_size_def length_GetSecondTrampoline)
  have alloc: "alloc_trampoline example_environment 0x10000 0x8000F800 entered = Inr (0x7fff00000010, entered\<lparr>heap := first_process\<rparr>)"
    by (simp add: alloc_trampoline_def sz range_alloc first_alloc)
  have size: "GetFirstTrampolineSize kWide = 18" by (simp add: GetFirstTrampolineSize_def WideTrampoline_def)
  have rel: "RelocatePrologue (bytes_in st2) 0x10000 (int (GetFirstTrampolineSize (GetSuggestedTrampolineType 0x10000 0x7fff00000010))) (errors st2) =
      Inr (errors st2, Some (code, 18))"
    using RelocatePrologue_blocks [of 18 ?mem1 "0x10000" "errors st2"]
    by (simp add: example_function_relocation example_suggested size st2_def code_def)
  have "length (layout example_code) = 38" by code_simp
  then have alloc2: "Alloc (memory_system example_environment) (heap st2) (ucast (install_size code)) =
      Inr (0x7fff00000390, second_process ?mem1)"
    using second_alloc(1) by (simp add: install_size_def code_def st2_def)
  obtain st4 where create: "Create example_environment st3 0x10000 0x7fff00000010 False 0x7fff00000390 (of_nat 18) = Inr (0x6000, st4)"
    by (simp add: Create_def new_at_def example_environment_def st3_def st2_def Let_def)
  have "jump_possible (GetSuggestedTrampolineType 0x10000 0x7fff00000010) 0x10000 0x7fff00000010" by code_simp
  then obtain w where w: "WriteFirstTrampoline (copy_platform example_environment) (bytes_in st4) 0x10000 0x7fff00000010
      (GetSuggestedTrampolineType 0x10000 0x7fff00000010) = Inr w" "copied w"
    by (simp add: WriteFirstTrampoline_code written_def plain_platform_def)
  have "prepared example_environment entered 0x10000 0x6000 (with_contents (written_memory w) st4)"
    by (rule prepared.steps [OF read range alloc _ _ refl rel alloc2 _ st3_def create _ w])
      (simp_all add: st2_def)
  moreover have "heap (with_contents (written_memory w) st4) = (second_process ?mem1)\<lparr>contents := written_memory w\<rparr>"
    by (simp add: Create_object(1) [OF create] st3_def)
  ultimately show ?thesis by blast
qed

section \<open>The function is hooked\<close>

lemma example_hookable: "hookable example_environment unhooked 0x10000 0x9000"
  using example_system_ok example_new platforms_write(1) example_ok
  by (simp add: hookable_def unhooked_def kDefault_def apart_def)

lemma outside_heaps:
  assumes "\<And>h m. allocators p h = Some m \<Longrightarrow> heap_start m \<noteq> 0 \<Longrightarrow> heap_size m \<noteq> 0 \<and> apart (heap_start m) (unat (heap_size m)) a n"
  shows "outside p a n"
  unfolding outside_def
proof (intro allI impI)
  fix j h m assume j: "j < n" and m: "allocators p h = Some m \<and> heap_start m \<noteq> 0"
  then have ap: "apart (heap_start m) (unat (heap_size m)) a n" and "0 < unat (heap_size m)"
    using assms by (auto simp: unat_gt_0)
  from apart_offset [OF this j] ap show "\<not> in_heap m (a + of_nat j)"
    by (simp add: in_heap_def apart_def word_less_nat_alt)
qed

lemma example_placed: 
  assumes "heap st' = (second_process mem)\<lparr>contents := mem'\<rparr>" and "allocator_ok (heap st')"
  shows "placed (heap st') 0x10000 0x9000"
proof -
  let ?p = "second_process mem"
  have "dom (allocators ?p) = {0x2000}"
    using assms second_alloc(2,3) [of mem] unfolding allocator_ok_def by simp
  moreover obtain a where "allocators ?p 0x2000 = Some a" "heap_start a = 0x7fff00000000" "heap_size a = 0x100000"
    using second_alloc(4) by blast
  ultimately have only: "heap_start m = 0x7fff00000000" "heap_size m = 0x100000" if "allocators ?p h = Some m" for h m
    using that by (metis domI option.inject singletonD)+
  have "outside ?p 0x10000 32" "outside ?p 0x9000 8"
    by (rule outside_heaps; simp add: only apart_def)+
  then show ?thesis using only(1) by (auto simp: placed_def assms(1))
qed

lemma example_hooked_once:
  "\<exists>h st'. InlineHook example_environment unhooked 0x10000 0x2000 0x9000 = Inr (h, st') \<and> h \<noteq> 0 \<and>
     placed (heap st') 0x10000 0x9000 \<and> default_list (heap st') = [0x2000] \<and> root_list (heap st') = [] \<and>
     hooks_map st' 0x10000 = Some 0x6000"
proof -
  obtain st1 mem mem' where prep: "prepared example_environment entered 0x10000 0x6000 st1"
    and heap1: "heap st1 = (second_process mem)\<lparr>contents := mem'\<rparr>" using example_prepared by blast
  have ok: "allocator_ok (heap entered)" using example_ok by simp
  have sys: "system_ok (memory_system example_environment)" using example_system_ok by simp
  have builtin: "allocator_type (trampoline_allocator entered) \<noteq> kCustom" by (simp add: kDefault_def)
  have writes: "writev_writes (copy_platform example_environment)" using platforms_write(1) by simp
  have first: "first_hook example_environment entered 0x10000 = Inr (0x6000, st1)"
    using first_hook_iff_prepared [OF sys ok builtin, of "0x6000"] prep by simp
  obtain info0 where "slot_ok (heap st1) info0" using prepared_slot [OF sys ok prep] by blast
  then have pl: "placed (heap st1) 0x10000 0x9000" using example_placed [OF heap1] by (simp add: slot_ok_def)
  then have out: "outside (heap st1) 0x10000 32" by (simp add: placed_def)
  have unknown: "hooks_map entered 0x10000 = None" by simp
  obtain info where info: "prepared_info example_environment entered 0x10000 0x6000 st1 info"
    using prepared_gives_info [OF sys ok example_new writes unknown prep out] by blast
  then have f: "fresh_info st1 0x6000 info" and none: "handles st1 = (\<lambda>x. None)" "infos st1 0x6100 = None"
    by (simp_all add: prepared_info_def)
  have mem: "has_memory example_environment st1"
    unfolding has_memory_def example_environment_def using none by (simp add: find_member [of "0x6100"])
  from NewHookHandle_installs [OF f example_new mem _ prepared_cell [OF info pl], of "0x2000" 0 0 0] obtain h st2 where
    new: "NewHookHandle example_environment st1 0x6000 0x2000 0 0 0 0x9000 = Inr (h, st2)" and
    inst: "first_installed st1 0x6000 info 0x2000 0 0 0 0x9000 h st2" by auto
  have "h \<noteq> 0"
    using inst by (auto simp: first_installed_def hooked_def installed_def dest: chain_nonzero)
  have "Lookup entered 0x10000 = 0" by (simp add: Lookup_def)
  then have "InlineHook example_environment unhooked 0x10000 0x2000 0x9000 = Inr (h, st2\<lparr>lock_depth := lock_depth st2 - 1\<rparr>)"
    using first new unfolding InlineHook_def DoHook_def locked_def Let_def entered_def [symmetric] by simp
  moreover obtain mem2 where "heap st2 = (heap st1)\<lparr>contents := mem2\<rparr>" using inst by (auto simp: first_installed_def)
  moreover have "hooks_map st2 0x10000 = Some 0x6000" using inst info by (auto simp: first_installed_def prepared_info_def)
  ultimately show ?thesis
    using pl heap1 second_alloc(2,3) \<open>h \<noteq> 0\<close> by (intro exI [of _ h] exI [of _ "st2\<lparr>lock_depth := lock_depth st2 - 1\<rparr>"]) simp
qed

end
