(* ===== verification/Lifecycle_Correctness.thy ===== *)
theory Lifecycle_Correctness
  imports Hook_Examples
begin

text \<open>
  The properties of the life of a hook, from the first \<open>InlineHook\<close> of a function, through the path
  of a call, to the removal of its hooks. The witnesses run on the function of \<open>Hook_Examples\<close>.
\<close>

section \<open>The concrete function, hooked\<close>

definition example_handle :: u64 where
  "example_handle = fst (sum.projr (InlineHook example_environment unhooked 0x10000 0x2000 0x9000))"

definition example_hooked_library :: library where
  "example_hooked_library = snd (sum.projr (InlineHook example_environment unhooked 0x10000 0x2000 0x9000))"

lemma example_inline:
  "InlineHook example_environment unhooked 0x10000 0x2000 0x9000 = Inr (example_handle, example_hooked_library)"
  "example_handle \<noteq> 0" "placed (heap example_hooked_library) 0x10000 0x9000"
  "default_list (heap example_hooked_library) = [0x2000]" "root_list (heap example_hooked_library) = []"
  "hooks_map example_hooked_library 0x10000 = Some 0x6000"
  using example_hooked_once by (auto simp: example_handle_def example_hooked_library_def)

lemma example_newly_hooked:
  "\<exists>i info es. newly_hooked unhooked 0x10000 0x2000 0x9000 example_hooked_library i info es \<and>
     installed es = [(example_handle, 0x2000, 0, 0, 0)]"
  using InlineHook_first(1) [OF example_hookable example_inline(1-3)] by blast

lemma example_unhooks: "\<exists>st'. InlineUnhook env example_hooked_library 0x10000 = Inr (True, st')"
proof -
  obtain i info es where nh: "newly_hooked unhooked 0x10000 0x2000 0x9000 example_hooked_library i info es"
    using example_newly_hooked by blast
  then obtain k where "block (heap example_hooked_library) (relocated info) k" by (auto simp: newly_hooked_def)
  moreover have "hooked example_hooked_library i info es" "custom_free info = 0"
    "hooks_map example_hooked_library 0x10000 = Some i" "relocated info \<noteq> info_trampoline info"
    using nh by (simp_all add: newly_hooked_def)
  ultimately show ?thesis by (intro InlineUnhook_runs [OF _ _ _ _ example_inline(4,5)]) simp_all
qed

section \<open>Properties\<close>

text \<open>
  C3: \<open>InlineHook\<close> does what the library is for: when it returns a handle for a function that had no
  hook, a call of the function is at the hook within ten instructions, with the memory and all
  registers but \<open>t3\<close> as the caller left them. The first trampoline leads to the second one, whichever
  kind the distance asks for, and the second one to the hook; neither the relocated code nor the
  variable of the user is written over them.
\<close>

theorem InlineHook_redirects:
  assumes "hookable env st address ub" and "InlineHook env st address hook' ub = Inr (h, st')" and "h \<noteq> 0"
    and "placed (heap st') address ub" and "mmem s = bytes_in st'" and "mpc s = address"
  shows "\<exists>n s'. n \<le> 10 \<and> run n s = Some s' \<and> mpc s' = hook' AND NOT 1 \<and> mmem s' = mmem s \<and>
    (\<forall>r. r \<noteq> TMP_GENERIC_REGISTER \<longrightarrow> read_reg r s' = read_reg r s)"
proof -
  from InlineHook_first(1) [OF assms(1-4)] obtain i info es where nh: "newly_hooked st address hook' ub st' i info es"
    by blast
  let ?tr = "info_trampoline info"
  let ?type = "GetSuggestedTrampolineType address ?tr"
  let ?td = "TrampolineData_at (bytes_in st') (GetTrampolineData ?tr)"
  from nh have code: "code_at (mmem s) ?tr GetSecondTrampoline" and td: "enabled ?td" "hook ?td = hook'"
    and first: "jump_possible ?type (mpc s) ?tr" "code_at (mmem s) (mpc s) (jump_code ?type (mpc s) ?tr)"
    using InlineHook_first(3) [OF assms(1-4)] by (simp_all add: newly_hooked_def assms(5,6) Let_def)
  from newly_hooked_block [OF nh] obtain k where "allocator_ok (heap st')" "block (heap st') ?tr k" "trampoline_size \<le> k"
    by blast
  then have "even ?tr" using placed_block(3) assms(4) by blast
  from jump_code_reaches [OF first(2,1) this] obtain m s1 where s1: "m \<le> 3" "run m s = Some s1" "mpc s1 = ?tr"
    "mmem s1 = mmem s" "\<And>r. r \<noteq> TMP_GENERIC_REGISTER \<Longrightarrow> read_reg r s1 = read_reg r s"
    by (auto simp: reaches_def)
  have at: "code_at (mmem s1) ?tr GetSecondTrampoline" "?td = TrampolineData_at (mmem s1) (GetTrampolineData ?tr)"
    using code s1(4) assms(5) by simp_all
  note d = dispatch_data [OF at td(1)]
  define v where "v = regs s1 28"
  have s: "s1 = dispatching s1 v ?tr" using dispatching_self [of s1] s1(3) by (simp add: v_def)
  have "run (3 + 3 + 1) (dispatching s1 v ?tr) = Some (dispatching s1 hook' (hook' AND NOT 1))"
    unfolding run_add [of _ 1] using d(1) [of v] d(2) [of hook'] td(2) InlineHook_first(3) [OF assms(1-4)] by simp
  then have "run (m + (3 + 3 + 1)) s = Some (dispatching s1 hook' (hook' AND NOT 1))"
    using s s1(2) by (simp add: run_add [of m])
  then show ?thesis
    using s1(1,4,5) by (intro exI [of _ "m + (3 + 3 + 1)"] exI [of _ "dispatching s1 hook' (hook' AND NOT 1)"])
      (simp add: read_dispatching)
qed

theorem InlineHook_redirects_witness:
  "\<exists>n s'. n \<le> 10 \<and> run n \<lparr>regs = (\<lambda>r. 7), mpc = 0x10000, mmem = bytes_in example_hooked_library\<rparr> = Some s' \<and>
     mpc s' = 0x2000"
  using InlineHook_redirects [OF example_hookable example_inline(1-3), of
      "\<lparr>regs = (\<lambda>r. 7), mpc = 0x10000, mmem = bytes_in example_hooked_library\<rparr>"] by fastforce

text \<open>
  C4: The variable that the user gives to \<open>InlineHook\<close> holds afterwards the address of the relocated
  function: the code there is the layout of the blocks of the original prologue, read before anything
  was written, and this prologue has all the bytes of the function that hooking has changed.
\<close>

theorem InlineHook_backup:
  assumes "hookable env st address ub" and "InlineHook env st address hook' ub = Inr (h, st')" and "h \<noteq> 0"
    and "placed (heap st') address ub" and "ub \<noteq> 0"
  shows "\<exists>k bs n. relocated_blocks (bytes_in st) address k = Some (bs, n) \<and>
    code_at (bytes_in st') (load64 (bytes_in st') ub) (layout bs) \<and>
    (\<forall>i. n \<le> i \<and> i < 32 \<longrightarrow> bytes_in st' (address + of_nat i) = bytes_in st (address + of_nat i))"
proof -
  from InlineHook_first(1) [OF assms(1-4)] obtain i info es where nh: "newly_hooked st address hook' ub st' i info es"
    and inst: "installed es = [(h, hook', 0, 0, 0)]" and bu: "backed_up env st address ub st' info" by blast
  from nh obtain bs where bs: "relocated_blocks (bytes_in st) address
        (int (GetFirstTrampolineSize (GetSuggestedTrampolineType address (info_trampoline info)))) =
      Some (bs, unat (function_backup_size info))" "code_at (bytes_in st') (relocated info) (layout bs)"
    by (auto simp: newly_hooked_def)
  obtain e where e: "es = [e]" using inst by (auto simp: installed_def)
  have "user_backup_addr (snd e) = ub" using nh e by (simp add: newly_hooked_def)
  moreover have "handle_backup (snd e) = relocated info"
    "cell_ok (heap st') (GetTrampolineData (info_trampoline info)) (bytes_in st') (snd e)"
    using nh e by (simp_all add: newly_hooked_def hooked_def cells_ok_def)
  ultimately have cell: "load64 (bytes_in st') ub = relocated info" using assms(5) by (simp add: cell_ok_def)
  have "bytes_in st' (address + of_nat i) = bytes_in st (address + of_nat i)"
    if i: "unat (function_backup_size info) \<le> i" "i < 32" for i
  proof -
    have "outside (heap st') (address + of_nat i) 1" using assms(4) outside_byte [OF _ i(2), of "heap st'" address] by (simp add: placed_def)
    moreover have "apart ub 8 (address + of_nat i) 1"
      using apart_sub [of address 32 ub 8 i 1] assms(1,5) i(2) by (simp add: hookable_def apart_sym)
    moreover have "unat (of_nat i :: u64) = i" using i(2) by (intro unat_of_nat_64) simp
    ultimately show ?thesis using bu i(1) by (simp add: backed_up_def Let_def)
  qed
  then show ?thesis using bs cell by (intro exI conjI) auto
qed

theorem InlineHook_backup_witness:
  "\<exists>k bs n. relocated_blocks example_function 0x10000 k = Some (bs, n) \<and>
     code_at (bytes_in example_hooked_library) (load64 (bytes_in example_hooked_library) 0x9000) (layout bs)"
  using InlineHook_backup [OF example_hookable example_inline(1-3)] by (auto simp: unhooked_def)

text \<open>
  C6: \<open>UnhookAllExt\<close> ends: its loop, which has no bound of its own, deletes every handle of the
  function once, whichever handle it was called with, and then the function is restored. The fuel of
  the model never runs out.
\<close>

theorem UnhookAllExt_deletes_all:
  assumes "hooked st i info es" and "(x, k) \<in> set es"
  shows "UnhookAllExt env st x =
    bnd (HookInfo_Unhook env True i (without_handles es st)) (\<lambda>st'. Inr (True, st'))"
  by (rule UnhookAllExt_result [OF assms])

theorem UnhookAllExt_deletes_all_witness:
  "\<exists>i es. length es = 1 \<and> UnhookAllExt example_environment example_hooked_library example_handle =
     bnd (HookInfo_Unhook example_environment True i (without_handles es example_hooked_library)) (\<lambda>st'. Inr (True, st'))"
proof -
  obtain i info es where h: "hooked example_hooked_library i info es" and "installed es = [(example_handle, 0x2000, 0, 0, 0)]"
    using example_newly_hooked by (auto simp: newly_hooked_def)
  then obtain k where "es = [(example_handle, k)]" by (auto simp: installed_def)
  then show ?thesis using UnhookAllExt_deletes_all [OF h, of example_handle k example_environment]
    by (intro exI [of _ i] exI [of _ es]) simp
qed

text \<open>
  C5: Hooking a function for the first time and removing the hook restores it, unless it crashes. If
  another block remains in each heap that the second trampoline or the relocated code was taken from, or
  that heap is the default one, \<open>InlineUnhook\<close> returns true, the handle is gone, and every byte of the
  process outside the heaps of the library and the variable of the user, and so every byte of the
  function, is as it was before the hook. Otherwise (in particular after the first hook near a gap
  in the mappings, for which a heap of its own was mapped) the removal uses an allocator that has
  deleted itself. (As long as the function can be read and written.)
\<close>

theorem InlineUnhook_restores:
  assumes "hookable env st address ub" and "InlineHook env st address hook' ub = Inr (h, st1)" and "h \<noteq> 0"
    and "placed (heap st1) address ub" and "\<And>mem n. readable env mem address n"
    and "\<And>mem bs. fst (Memory_Copy (copy_platform env) mem address bs)"
  shows "\<exists>i info. hooks_map st1 address = Some i \<and> infos st1 i = Some info \<and>
    (if last_blocks (heap st1) {info_trampoline info, relocated info}
     then InlineUnhook env st1 address = Inl UseAfterFree
     else \<exists>st'. InlineUnhook env st1 address = Inr (True, st') \<and> handles st' h = None \<and>
       (\<forall>x. outside (heap st1) x 1 \<and> (ub \<noteq> 0 \<longrightarrow> apart ub 8 x 1) \<longrightarrow> bytes_in st' x = bytes_in st x))"
proof -
  note first = InlineHook_first [OF assms(1-4)]
  then obtain i info es where nh: "newly_hooked st address hook' ub st1 i info es"
    and inst: "installed es = [(h, hook', 0, 0, 0)]" and bu: "backed_up env st address ub st1 info" by blast
  let ?n = "unat (function_backup_size info)"
  have writes: "writev_writes (copy_platform env)" using assms(1) by (simp add: hookable_def)
  have n: "?n \<le> 32" "function_backup info = read_bytes (bytes_in st) address ?n"
    using bu assms(5) by (simp_all add: backed_up_def Let_def)
  have un: "hooked st1 i info es" "custom_free info = 0" "hooks_map st1 address = Some i" "info_address info = address"
    "relocated info \<noteq> info_trampoline info" using nh by (simp_all add: newly_hooked_def)
  obtain k where blk: "block (heap st1) (relocated info) k" using nh by (auto simp: newly_hooked_def)
  have restored: "handles st' h = None \<and>
      (\<forall>x. outside (heap st1) x 1 \<and> (ub \<noteq> 0 \<longrightarrow> apart ub 8 x 1) \<longrightarrow> bytes_in st' x = bytes_in st x)"
    if run: "InlineUnhook env st1 address = Inr (True, st')" for st'
  proof -
    note res = InlineUnhook_hooked [OF un(1-3) run first(2)]
    have bytes: "bytes_in st' = write_bytes (bytes_in st1) address (read_bytes (bytes_in st) address ?n)"
      using res(6) Memory_Copy_cases [OF writes] assms(6) un(4) n(2) by (metis fst_conv snd_conv)
    have "bytes_in st' x = bytes_in st x" if "outside (heap st1) x 1" "ub \<noteq> 0 \<longrightarrow> apart ub 8 x 1" for x
    proof (cases "unat (x - address) < ?n")
      case True
      then show ?thesis by (simp add: bytes write_bytes_def read_bytes_def)
    next
      case False
      then have "bytes_in st1 x = bytes_in st x" using bu that by (simp add: backed_up_def Let_def not_less)
      then show ?thesis using False by (simp add: bytes write_bytes_def)
    qed
    moreover have "handles st' h = None" using res(2) inst by (auto simp: installed_def)
    ultimately show ?thesis by blast
  qed
  moreover have "infos st1 i = Some info" using un(1) by (simp add: hooked_def)
  ultimately show ?thesis
    using InlineUnhook_outcome [OF un(1-3) first(2) blk un(5), of env] un(3)
    by (intro exI [of _ i] exI [of _ info]) (auto split: if_splits)
qed

theorem InlineUnhook_restores_witness:
  "\<exists>st'. InlineUnhook example_environment example_hooked_library 0x10000 = Inr (True, st') \<and>
     handles st' example_handle = None"
proof -
  have "allocator_ok (heap example_hooked_library)"
    using example_newly_hooked newly_hooked_block(2) by blast
  note only = last_blocks_default [OF this example_inline(4,5)]
  have "readable example_environment mem 0x10000 n" for mem n by (simp add: example_environment_def)
  moreover have "fst (Memory_Copy (copy_platform example_environment) mem 0x10000 bs)" for mem bs
    by (simp add: plain_platform_def)
  ultimately show ?thesis
    using InlineUnhook_restores [OF example_hookable example_inline(1-3)] only by auto
qed

text \<open>
  C7: The registration of a function survives the removal of its hooks, because \<open>HookInfo::Unhook\<close>
  erases the key \<open>this\<close> from a map whose keys are functions. The object that stays registered
  still names its first handle, which is deleted: removing the hooks once more uses that handle, and so
  does hooking the function again, unless the new handle happens to get its address.
\<close>

theorem unhooked_function_stays_registered:
  assumes "hooked st i info es" and "custom_free info = 0" and "handle_count info \<noteq> 0xFFFF"
    and "hooks_map st address = Some i" and "i \<noteq> address" and "address \<noteq> 0" and "hook' \<noteq> 0"
    and "InlineUnhook env st address = Inr (r, st')"
    and "new_object env (clear_error (st'\<lparr>lock_depth := lock_depth st' + 1\<rparr>)) = Some x" and "x \<noteq> info_root info"
  shows "Lookup st' address = i \<and> InlineUnhook env st' address = Inl UseAfterFree \<and>
    InlineHook env st' address hook' ub = Inl UseAfterFree"
proof -
  let ?st = "clear_error (st'\<lparr>lock_depth := lock_depth st' + 1\<rparr>)"
  note res = InlineUnhook_hooked [OF assms(1,2,4,8,6)]
  have i: "i \<noteq> 0" "infos ?st i = Some info" using assms(1) res(3) by (simp_all add: hooked_def)
  obtain e es' where es: "es = e # es'" using assms(1) by (cases es) (simp_all add: hooked_def)
  have "chain (handles st) (info_root info) es" using assms(1) by (simp add: hooked_def)
  then have root: "info_root info = fst e" "fst e \<noteq> 0" by (auto simp: es)
  have gone: "handles st' (fst e) = None" by (simp add: res(2) es)
  have known: "Lookup ?st address = i" "Lookup st' address = i" using res(4) assms(4,5) by (simp_all add: Lookup_def)
  have "UnhookAllExt env ?st (fst e) = Inl UseAfterFree"
    using root(2) gone by (simp add: UnhookAllExt_def object_at_def)
  moreover have "hooked_root ?st address = Inr (fst e)"
    using i root known by (simp add: hooked_root_def object_at_def)
  ultimately have "InlineUnhook env st' address = Inl UseAfterFree"
    using assms(6) root(2) by (simp add: InlineUnhook_def locked_def)
  moreover have "NewHookHandle env ?st i hook' 0 0 0 ub = Inl UseAfterFree"
  proof -
    have "find_last kMaxHandles st2 (fst e) f = Inl UseAfterFree" if "handles st2 (fst e) = None" for st2 f
    proof -
      have step: "find_last (Suc n) st2 (fst e) f = Inl UseAfterFree" for n
        using that root(2) by (simp add: object_at_def)
      have k: "kMaxHandles = Suc 0xFFFF" by (simp add: kMaxHandles_def)
      show ?thesis unfolding k by (rule step)
    qed
    moreover have "new_at env ?st = Inr x" using assms(9) by (simp add: new_at_def)
    moreover have "GetMemoryHeader (heap ?st) (info_trampoline info) = None" using res(5) by simp
    ultimately show ?thesis
      using i root gone assms(2,10)
      by (simp add: NewHookHandle_def object_at_def in_scope_def scope_block_def add_handle_def Let_def
          update_info_def append_handle_def)
  qed
  then have "InlineHook env st' address hook' ub = Inl UseAfterFree"
    using assms(3,6,7) i known by (simp add: InlineHook_def DoHook_def locked_def Let_def object_at_def)
  ultimately show ?thesis using known(2) by blast
qed

theorem unhooked_function_stays_registered_witness:
  "\<exists>st'. InlineUnhook (example_environment\<lparr>new_object := (\<lambda>st. Some (example_handle + 0x100))\<rparr>) example_hooked_library 0x10000 = Inr (True, st') \<and>
     InlineHook (example_environment\<lparr>new_object := (\<lambda>st. Some (example_handle + 0x100))\<rparr>) st' 0x10000 0x2400 0 = Inl UseAfterFree"
proof -
  let ?env = "example_environment\<lparr>new_object := (\<lambda>st. Some (example_handle + 0x100))\<rparr>"
  obtain i info es where nh: "newly_hooked unhooked 0x10000 0x2000 0x9000 example_hooked_library i info es"
    and inst: "installed es = [(example_handle, 0x2000, 0, 0, 0)]"
    using example_newly_hooked by blast
  then have h: "hooked example_hooked_library i info es" "custom_free info = 0"
    "hooks_map example_hooked_library 0x10000 = Some i" by (simp_all add: newly_hooked_def)
  then have i: "i = 0x6000" using example_inline(6) by simp
  obtain k where es: "es = [(example_handle, k)]" using inst by (auto simp: installed_def)
  have "handle_count info \<noteq> 0xFFFF" "info_root info = example_handle" using h(1) es by (simp_all add: hooked_def)
  obtain st' where st': "InlineUnhook ?env example_hooked_library 0x10000 = Inr (True, st')"
    using example_unhooks by blast
  show ?thesis
    using unhooked_function_stays_registered [OF h(1,2) _ h(3) _ _ _ st', of "0x2400" "example_handle + 0x100" 0]
      st' i \<open>handle_count info \<noteq> 0xFFFF\<close> \<open>info_root info = example_handle\<close> by auto
qed

end
