(* ===== verification/Record_Correctness.thy ===== *)
theory Record_Correctness
  imports Hook_Examples
begin

text \<open>
  Trampolines that are written without a handle, \<open>WriteTrampoline\<close> of \<open>core/rv64hook.cc\<close> and its
  records: what one call does and how it is undone, and why a second one is not refused.
\<close>

section \<open>One call of \<open>WriteTrampoline\<close>\<close>

text \<open>The steps of a call for a record without relocated code that succeeds.\<close>

definition wrote ::
  "environment \<Rightarrow> library \<Rightarrow> u64 \<Rightarrow> u64 \<Rightarrow> u64 \<Rightarrow> u64 \<Rightarrow> nat \<Rightarrow> library \<Rightarrow> FunctionRecord \<Rightarrow> bool" where
  "wrote env st key address hook' ub n st' r \<longleftrightarrow>
     (let type = GetSuggestedTrampolineType address hook' in
      n = GetFirstTrampolineSize type \<and> jump_possible type address hook' \<and>
      record_address r = address \<and> overwrite_size r = of_nat n \<and>
      record_backup r = read_bytes (bytes_in st) address n \<and>
      original_function_hash r = ComputeHash (bytes_in st) address n \<and>
      (ub = 0 \<longrightarrow> backup_trampoline r = 0) \<and>
      (\<exists>st1. (if ub = 0 then st1 = set_record key r st
         else \<exists>count st2 st3. Relocate env st address (int n) = Inr ((count, backup_trampoline r), st2) \<and>
           count \<noteq> 0 \<and> store_bytes ub (bytes_of 8 (backup_trampoline r)) st2 = Inr st3 \<and> st1 = set_record key r st3) \<and>
       st' = with_contents (write_bytes (bytes_in st1) address (jump_code type address hook')) st1))"

lemma set_record_simps [simp]:
  "heap (set_record key r st) = heap st" "hooks_map (set_record key r st) = hooks_map st"
  "function_records (set_record key r st) = (function_records st)(key \<mapsto> r)"
  "trampoline_allocator (set_record key r st) = trampoline_allocator st" "lock_depth (set_record key r st) = lock_depth st"
  by (simp_all add: set_record_def)

lemma FunctionRecord_WriteTrampoline_wrote:
  assumes writes: "writev_writes (copy_platform env)" and none: "backup_trampoline r = 0"
    and run: "FunctionRecord_WriteTrampoline env st key r hook' ub = Inr (n, st')" and n: "n \<noteq> 0"
  shows "\<exists>r'. wrote env st key (record_address r) hook' ub n st' r'"
proof -
  let ?address = "record_address r"
  let ?type = "GetSuggestedTrampolineType ?address hook'"
  let ?sz = "GetFirstTrampolineSize ?type"
  let ?r = "r\<lparr>backup_trampoline := 0, overwrite_size := of_nat ?sz, record_backup := read_bytes (bytes_in st) ?address ?sz,
    original_function_hash := ComputeHash (bytes_in st) ?address ?sz\<rparr>"
  have read: "copy_from env st ?address ?sz = Some (read_bytes (bytes_in st) ?address ?sz)"
    using run n none
    by (cases "copy_from env st ?address ?sz")
      (auto simp: FunctionRecord_WriteTrampoline_def Let_def copy_from_def split: if_splits)
  let ?stage = "if ub \<noteq> 0 then
      bnd (Relocate env st ?address (int ?sz)) (\<lambda>((count, relocated'), st).
      if count = 0 then Inr (None, set_record key ?r st)
      else bnd (store_bytes ub (bytes_of 8 relocated') st) (\<lambda>st.
           Inr (Some (), set_record key (?r\<lparr>backup_trampoline := relocated'\<rparr>) st)))
    else Inr (Some (), set_record key ?r st)"
  define jump where "jump = (\<lambda>st1. bnd (WriteFirstTrampoline (copy_platform env) (bytes_in st1) ?address hook' ?type) (\<lambda>w.
      let st = with_contents (written_memory w) st1 in
      if copied w then Inr (?sz, st) else Inr (0, set_error hook_tag ''Function is not writable'' st)))"
  have "bnd ?stage (\<lambda>(go_on, st). if go_on = None then Inr (0, st) else jump st) = Inr (n, st')"
    using run unfolding FunctionRecord_WriteTrampoline_def jump_def Let_def
    by (simp only: none read simp_thms if_False bnd_Inr option.case)
  then obtain go_on st1 where g: "?stage = Inr (go_on, st1)" "(if go_on = None then Inr (0, st1) else jump st1) = Inr (n, st')"
    unfolding bnd_eq_Inr_iff by auto
  have stage: "?stage = Inr (Some (), st1)" and jump: "jump st1 = Inr (n, st')"
    using g n by (cases go_on; simp)+
  from jump n obtain w where
    w: "WriteFirstTrampoline (copy_platform env) (bytes_in st1) ?address hook' ?type = Inr w" "copied w"
    and res: "n = ?sz" "st' = with_contents (written_memory w) st1"
    unfolding jump_def bnd_eq_Inr_iff Let_def by (auto split: if_splits)
  note ws = WriteFirstTrampoline_cases [OF writes w(1)]
  show ?thesis
  proof (cases "ub = 0")
    case True
    then have "st1 = set_record key ?r st" using stage by simp
    then show ?thesis using ws w(2) res True by (intro exI [of _ ?r]) (simp add: wrote_def Let_def)
  next
    case False
    with stage obtain count b st2 st3 where "Relocate env st ?address (int ?sz) = Inr ((count, b), st2)" "count \<noteq> 0"
      "store_bytes ub (bytes_of 8 b) st2 = Inr st3" "st1 = set_record key (?r\<lparr>backup_trampoline := b\<rparr>) st3"
      by (auto simp: bnd_eq_Inr_iff split: if_splits)
    then show ?thesis using ws w(2) res False
      by (intro exI [of _ "?r\<lparr>backup_trampoline := b\<rparr>"]) (auto simp: wrote_def Let_def)
  qed
qed

lemma wrote_record: "wrote env st key address hook' ub n st' r \<Longrightarrow> function_records st' key = Some r"
  by (auto simp: wrote_def Let_def with_contents_def split: if_splits)

lemma wrote_hooks:
  assumes "wrote env st key address hook' ub n st' r"
  shows "hooks_map st' = hooks_map st"
proof -
  have rel: "hooks_map st2 = hooks_map st1" if "Relocate env st1 a k = Inr (x, st2)" for st1 a k x st2
    using that by (auto simp: Relocate_def in_scope_def install_def bnd_eq_Inr_iff with_contents_def
        split: option.splits if_splits)
  show ?thesis using assms
    by (auto simp: wrote_def Let_def with_contents_def store_bytes_def split: if_splits dest: rel)
qed

text \<open>The call changes the function, the variable of the user and the relocated code only.\<close>

lemma wrote_elsewhere:
  assumes sys: "system_ok (memory_system env)" and ok: "allocator_ok (heap st)"
    and w: "wrote env st key address hook' ub n st' r"
    and x: "outside (heap st') x 1" "n \<le> unat (x - address)" "ub \<noteq> 0 \<longrightarrow> apart ub 8 x 1"
  shows "bytes_in st' x = bytes_in st x"
proof -
  let ?type = "GetSuggestedTrampolineType address hook'"
  from w obtain st1 where st': "st' = with_contents (write_bytes (bytes_in st1) address (jump_code ?type address hook')) st1"
    and n: "n = GetFirstTrampolineSize ?type" and
    st1: "if ub = 0 then st1 = set_record key r st
         else \<exists>count st2 st3. Relocate env st address (int n) = Inr ((count, backup_trampoline r), st2) \<and>
           count \<noteq> 0 \<and> store_bytes ub (bytes_of 8 (backup_trampoline r)) st2 = Inr st3 \<and> st1 = set_record key r st3"
    by (auto simp: wrote_def Let_def)
  have "bytes_in st' x = bytes_in st1 x" using x(2) by (simp add: st' write_bytes_outside length_jump_code n)
  also have "\<dots> = bytes_in st x"
  proof (cases "ub = 0")
    case True
    then show ?thesis using st1 by simp
  next
    case False
    with st1 obtain count st2 st3 where rel: "Relocate env st address (int n) = Inr ((count, backup_trampoline r), st2)"
      "count \<noteq> 0" and st3: "store_bytes ub (bytes_of 8 (backup_trampoline r)) st2 = Inr st3" "st1 = set_record key r st3"
      by auto
    have small: "int n \<le> 2 ^ 26" using first_trampoline_size_bound(2) [of ?type] n by simp
    from Relocate_cases [OF sys ok small rel] obtain l code p where
      pro: "RelocatePrologue (bytes_in st) address (int n) (errors st) = Inr (l, Some (code, count))"
      and alloc: "Alloc (memory_system env) (heap st) (ucast (install_size code)) = Inr (backup_trampoline r, p)"
        "backup_trampoline r \<noteq> 0"
      and st2: "st2 = with_contents (write_bytes (bytes_in st) (backup_trampoline r) (code_bytes code)) (st\<lparr>heap := p\<rparr>)"
      by metis
    from Relocate_result(2) [OF sys ok pro small alloc] obtain k where p: "allocator_ok p"
      "length (code_bytes code) \<le> k" "block p (backup_trampoline r) k" by (auto simp: fresh_memory_def)
    have heap: "heap st3 = p\<lparr>contents := write_bytes (bytes_in st2) ub (bytes_of 8 (backup_trampoline r))\<rparr>"
      using st3(1) by (auto simp: store_bytes_def st2 split: if_splits)
    have "outside p x 1" using x(1) by (simp add: st' st3(2) heap)
    from apart_shorter [OF outside_apart [OF p(1,3) this] p(2), of 1]
    have "bytes_in st2 x = bytes_in st x" by (simp add: st2 byte_apart)
    moreover have "bytes_in st3 x = bytes_in st2 x" using x(3) False by (simp add: heap byte_apart)
    ultimately show ?thesis by (simp add: st3(2))
  qed
  finally show ?thesis .
qed

lemma WriteTrampoline_first:
  assumes writes: "writev_writes (copy_platform env)" and new: "function_records st address = None"
    and run: "WriteTrampoline env st address hook' ub = Inr (n, st')" and n: "n \<noteq> 0"
  shows "\<exists>st0 st1 r. wrote env st0 address address hook' ub n st1 r \<and> heap st0 = heap st \<and>
    hooks_map st0 = hooks_map st \<and> st' = st1\<lparr>lock_depth := lock_depth st1 - 1\<rparr>" and "address \<noteq> 0"
proof -
  let ?st = "clear_error (st\<lparr>lock_depth := lock_depth st + 1\<rparr>)"
  let ?new = "set_record address (new_FunctionRecord address) ?st"
  from run n show a: "address \<noteq> 0" by (auto simp: WriteTrampoline_def split: if_splits)
  from run n have nz: "\<not> (address = 0 \<or> hook' = 0)" by (auto simp: WriteTrampoline_def split: if_splits)
  from run [unfolded WriteTrampoline_def if_not_P [OF nz] locked_Inr Let_def] obtain st1 where
    "(case function_records ?st address of
          Some r \<Rightarrow>
            if \<not> IsModified (bytes_in ?st) r then Inr (0, set_error hook_tag ''Too many hooks'' ?st)
            else FunctionRecord_WriteTrampoline env ?st address r hook' ub
        | None \<Rightarrow> FunctionRecord_WriteTrampoline env ?new address (new_FunctionRecord address) hook' ub) = Inr (n, st1)"
    and st': "st' = st1\<lparr>lock_depth := lock_depth st1 - 1\<rparr>" by blast
  then have "FunctionRecord_WriteTrampoline env ?new address (new_FunctionRecord address) hook' ub = Inr (n, st1)"
    using new by simp
  from FunctionRecord_WriteTrampoline_wrote [OF writes _ this n] obtain r where
    "wrote env ?new address address hook' ub n st1 r"
    by (auto simp: new_FunctionRecord_def)
  then show "\<exists>st0 st1 r. wrote env st0 address address hook' ub n st1 r \<and> heap st0 = heap st \<and>
    hooks_map st0 = hooks_map st \<and> st' = st1\<lparr>lock_depth := lock_depth st1 - 1\<rparr>"
    using st' by (intro exI [of _ ?new] exI [of _ st1] exI [of _ r]) simp
qed

lemma InlineUnhook_record:
  assumes known: "hooks_map st address = None" "function_records st address = Some r" and a: "address \<noteq> 0"
    and run: "InlineUnhook env st address = Inr (x, st')"
  shows "x" and "function_records st' address = None"
    and "bytes_in st' = snd (Memory_Copy (copy_platform env) (bytes_in st) (record_address r)
      (take (unat (overwrite_size r)) (record_backup r)))"
proof -
  let ?st = "clear_error (st\<lparr>lock_depth := lock_depth st + 1\<rparr>)"
  have "hooked_root ?st address = Inr 0" using known(1) by (simp add: hooked_root_def Lookup_def)
  moreover have "function_records ?st address = Some r" using known(2) by simp
  ultimately obtain st1 where u: "FunctionRecord_Unhook env r ?st = Inr st1" and
    res: "x" "st' = st1\<lparr>function_records := (function_records st1)(address := None), lock_depth := lock_depth st1 - 1\<rparr>"
    using run [unfolded InlineUnhook_def if_not_P [OF a] locked_Inr Let_def]
    by (auto simp: bnd_eq_Inr_iff)
  show "x" by (rule res(1))
  show "function_records st' address = None" by (simp add: res(2))
  let ?copy = "copy_to env (record_address r) (take (unat (overwrite_size r)) (record_backup r)) ?st"
  have "bytes_in st1 = bytes_in (snd ?copy)"
    using u by (auto simp: FunctionRecord_Unhook_def free_block_def Let_def bnd_eq_Inr_iff split: if_splits dest: Free_contents)
  also have "\<dots> = snd (Memory_Copy (copy_platform env) (bytes_in st) (record_address r)
      (take (unat (overwrite_size r)) (record_backup r)))"
    by (cases "Memory_Copy (copy_platform env) (bytes_in st) (record_address r)
      (take (unat (overwrite_size r)) (record_backup r))") (simp add: copy_to_def)
  finally show "bytes_in st' = snd (Memory_Copy (copy_platform env) (bytes_in st) (record_address r)
      (take (unat (overwrite_size r)) (record_backup r)))" by (simp add: res(2))
qed

section \<open>Properties\<close>

text \<open>
  C8: \<open>WriteTrampoline\<close> sends every call of the function directly to the hook, and \<open>InlineUnhook\<close> undoes
  it: afterwards every byte outside the heaps of the library and the variable of the user is as it
  was, and the function has no record any more. (As long as the function can be written.)
\<close>

theorem WriteTrampoline_redirects_and_restores:
  assumes "system_ok (memory_system env)" and "allocator_ok (heap st)" and "writev_writes (copy_platform env)"
    and "\<And>mem bs. fst (Memory_Copy (copy_platform env) mem address bs)"
    and "hooks_map st address = None" and "function_records st address = None"
    and "WriteTrampoline env st address hook' ub = Inr (n, st1)" and "n \<noteq> 0" and "even hook'"
    and "InlineUnhook env st1 address = Inr (x, st')"
  shows "(\<forall>s. mmem s = bytes_in st1 \<and> mpc s = address \<longrightarrow>
      (\<exists>k s'. k \<le> 3 \<and> run k s = Some s' \<and> mpc s' = hook' \<and> mmem s' = mmem s)) \<and>
    x \<and> function_records st' address = None \<and>
    (\<forall>y. outside (heap st1) y 1 \<and> (ub \<noteq> 0 \<longrightarrow> apart ub 8 y 1) \<longrightarrow> bytes_in st' y = bytes_in st y)"
proof -
  from WriteTrampoline_first [OF assms(3,6-8)] obtain st0 st2 r where w: "wrote env st0 address address hook' ub n st2 r"
    and st0: "heap st0 = heap st" "hooks_map st0 = hooks_map st" and st1: "st1 = st2\<lparr>lock_depth := lock_depth st2 - 1\<rparr>"
    and a: "address \<noteq> 0" by blast
  let ?type = "GetSuggestedTrampolineType address hook'"
  from w have r: "n = GetFirstTrampolineSize ?type" "jump_possible ?type address hook'" "record_address r = address"
    "overwrite_size r = of_nat n" "record_backup r = read_bytes (bytes_in st) address n"
    by (simp_all add: wrote_def Let_def st0(1))
  have n: "n \<le> 18" using first_trampoline_size_bound(2) [of ?type] r(1) by simp
  have "hooks_map st1 address = None" "function_records st1 address = Some r"
    using wrote_hooks [OF w] wrote_record [OF w] assms(5) by (simp_all add: st1 st0(2))
  note un = InlineUnhook_record [OF this a assms(10)]
  have "unat (of_nat n :: u8) = n" using n by (simp add: unat_of_nat take_bit_nat_eq_self)
  then have "take (unat (overwrite_size r)) (record_backup r) = read_bytes (bytes_in st) address n"
    by (simp add: r(4,5))
  then have bytes: "bytes_in st' = write_bytes (bytes_in st1) address (read_bytes (bytes_in st) address n)"
    using un(3) Memory_Copy_cases [OF assms(3)] assms(4) r(3) by (metis fst_conv snd_conv)
  have "bytes_in st' y = bytes_in st y" if "outside (heap st1) y 1" "ub \<noteq> 0 \<longrightarrow> apart ub 8 y 1" for y
  proof (cases "unat (y - address) < n")
    case True
    then show ?thesis by (simp add: bytes write_bytes_def read_bytes_def)
  next
    case False
    then have "bytes_in st2 y = bytes_in st0 y"
      using wrote_elsewhere [OF assms(1) _ w, of y] that st0(1) assms(2) by (simp add: st1 not_less)
    then show ?thesis using False by (simp add: bytes write_bytes_def st0(1) st1)
  qed
  moreover have "\<exists>k s'. k \<le> 3 \<and> run k s = Some s' \<and> mpc s' = hook' \<and> mmem s' = mmem s"
    if "mmem s = bytes_in st1" "mpc s = address" for s
  proof -
    have "length (jump_code ?type address hook') \<le> 2 ^ 64" using n r(1) by (simp add: length_jump_code)
    moreover obtain mem where "bytes_in st1 = write_bytes mem address (jump_code ?type address hook')"
      using w by (auto simp: wrote_def Let_def st1)
    ultimately have "code_at (mmem s) (mpc s) (jump_code ?type (mpc s) hook')"
      using that by (simp add: code_at_def read_write_bytes)
    from jump_code_reaches [OF this] r(2) assms(9) that show ?thesis by (auto simp: reaches_def)
  qed
  ultimately show ?thesis using un(1,2) by blast
qed

lemma suggested_jump_possible:
  assumes "even address" and "even dest"
  shows "jump_possible (GetSuggestedTrampolineType address dest) address dest"
proof -
  have "even (dest - address)" using assms by simp
  then show ?thesis by (auto simp: GetSuggestedTrampolineType_def Let_def jump_possible_def bit_0)
qed

text \<open>A call without a variable for the backup that can read and write the function.\<close>

lemma FunctionRecord_WriteTrampoline_runs:
  assumes none: "backup_trampoline r = 0" and read: "\<And>mem n. readable env mem (record_address r) n"
    and copies: "\<And>mem bs. fst (Memory_Copy (copy_platform env) mem (record_address r) bs)"
    and e: "even (record_address r)" "even hook'"
  shows "\<exists>st'. FunctionRecord_WriteTrampoline env st key r hook' 0 =
    Inr (GetFirstTrampolineSize (GetSuggestedTrampolineType (record_address r) hook'), st')"
proof -
  let ?type = "GetSuggestedTrampolineType (record_address r) hook'"
  have w: "\<exists>w. WriteFirstTrampoline (copy_platform env) mem (record_address r) hook' ?type = Inr w \<and> copied w" for mem
    using suggested_jump_possible [OF e] copies by (simp add: WriteFirstTrampoline_code written_def)
  obtain w where "WriteFirstTrampoline (copy_platform env) (bytes_in st) (record_address r) hook' ?type = Inr w" "copied w"
    using w by blast
  then show ?thesis using none read
    by (simp add: FunctionRecord_WriteTrampoline_def Let_def copy_from_def)
qed

text \<open>
  C9: A second \<open>WriteTrampoline\<close> on the same function is not refused, although the check for it is
  there: the hash with which \<open>IsModified\<close> compares was taken before the own trampoline was written, so
  that the own trampoline counts as a modification by somebody else, unless both have the same hash.
  The record then keeps the first trampoline in the place of the original code, which is lost.
\<close>

theorem second_WriteTrampoline_loses_original:
  assumes "writev_writes (copy_platform env)" and "function_records st address = None"
    and "WriteTrampoline env st address hook' 0 = Inr (n, st1)" and "n \<noteq> 0"
    and "ComputeHash (bytes_in st1) address n \<noteq> ComputeHash (bytes_in st) address n"
    and "\<And>mem k. readable env mem address k" and "\<And>mem bs. fst (Memory_Copy (copy_platform env) mem address bs)"
    and "even address" and "even hook2" and "hook2 \<noteq> 0"
  shows "\<exists>st2 r. WriteTrampoline env st1 address hook2 0 =
      Inr (GetFirstTrampolineSize (GetSuggestedTrampolineType address hook2), st2) \<and>
    function_records st2 address = Some r \<and>
    record_backup r = read_bytes (bytes_in st1) address (GetFirstTrampolineSize (GetSuggestedTrampolineType address hook2)) \<and>
    (GetFirstTrampolineSize (GetSuggestedTrampolineType address hook2) = n \<longrightarrow>
       record_backup r = jump_code (GetSuggestedTrampolineType address hook') address hook')"
proof -
  let ?type = "GetSuggestedTrampolineType address hook'"
  let ?n2 = "GetFirstTrampolineSize (GetSuggestedTrampolineType address hook2)"
  from WriteTrampoline_first [OF assms(1-4)] obtain st0 sta r where w: "wrote env st0 address address hook' 0 n sta r"
    and st0: "heap st0 = heap st" and st1: "st1 = sta\<lparr>lock_depth := lock_depth sta - 1\<rparr>" and a: "address \<noteq> 0" by blast
  from w have r: "n = GetFirstTrampolineSize ?type" "record_address r = address" "overwrite_size r = of_nat n"
    "original_function_hash r = ComputeHash (bytes_in st) address n" "backup_trampoline r = 0"
    by (simp_all add: wrote_def Let_def st0)
  have n: "n \<le> 18" using first_trampoline_size_bound(2) [of ?type] r(1) by simp
  then have "unat (of_nat n :: u8) = n" by (simp add: unat_of_nat take_bit_nat_eq_self)
  then have modified: "IsModified (bytes_in st1) r" using assms(5) by (simp add: IsModified_def r)
  let ?st = "clear_error (st1\<lparr>lock_depth := lock_depth st1 + 1\<rparr>)"
  have known: "function_records ?st address = Some r" using wrote_record [OF w] by (simp add: st1)
  obtain st' where run: "FunctionRecord_WriteTrampoline env ?st address r hook2 0 = Inr (?n2, st')"
    using FunctionRecord_WriteTrampoline_runs [of r env hook2 ?st address] assms(6-9) r(2,5) by auto
  have "0 < ?n2" by (rule first_trampoline_size_bound)
  then obtain r' where w': "wrote env ?st address address hook2 0 ?n2 st' r'"
    using FunctionRecord_WriteTrampoline_wrote [OF assms(1) r(5) run] r(2) by auto
  have "WriteTrampoline env st1 address hook2 0 = Inr (?n2, st'\<lparr>lock_depth := lock_depth st' - 1\<rparr>)"
    using a assms(10) known modified run by (simp add: WriteTrampoline_def locked_def Let_def)
  moreover have "record_backup r' = read_bytes (bytes_in st1) address ?n2"
    using w' by (simp add: wrote_def Let_def)
  moreover have "read_bytes (bytes_in st1) address n = jump_code ?type address hook'"
  proof -
    obtain mem where "bytes_in st1 = write_bytes mem address (jump_code ?type address hook')"
      using w by (auto simp: wrote_def Let_def st1)
    moreover have "length (jump_code ?type address hook') \<le> 2 ^ 64" using n r(1) by (simp add: length_jump_code)
    ultimately show ?thesis using read_write_bytes r(1) by (metis length_jump_code)
  qed
  ultimately show ?thesis using wrote_record [OF w']
    by (intro exI [of _ "st'\<lparr>lock_depth := lock_depth st' - 1\<rparr>"] exI [of _ r']) auto
qed

section \<open>Witnesses\<close>

lemma example_kind: "GetSuggestedTrampolineType 0x10000 0x2000 = kPC20" "GetFirstTrampolineSize kPC20 = 4"
  "GetSuggestedTrampolineType 0x10000 0x2400 = kPC20"
  by code_simp+

lemma example_hashes:
  "ComputeHash (write_bytes example_function 0x10000 (jump_code kPC20 0x10000 0x2000)) 0x10000 4 \<noteq>
     ComputeHash example_function 0x10000 4"
  by code_simp

lemma example_environment_ok:
  "readable example_environment mem a n" "fst (Memory_Copy (copy_platform example_environment) mem a bs)"
  by (simp_all add: example_environment_def plain_platform_def)

lemma example_written:
  "\<exists>st1 st2. WriteTrampoline example_environment unhooked 0x10000 0x2000 0 = Inr (4, st1) \<and>
     bytes_in st1 = write_bytes example_function 0x10000 (jump_code kPC20 0x10000 0x2000) \<and>
     InlineUnhook example_environment st1 0x10000 = Inr (True, st2)"
proof -
  let ?r = "new_FunctionRecord 0x10000"
  let ?st = "set_record 0x10000 ?r entered"
  have r: "record_address ?r = 0x10000" "backup_trampoline ?r = 0" by (simp_all add: new_FunctionRecord_def)
  obtain st1 where run: "FunctionRecord_WriteTrampoline example_environment ?st 0x10000 ?r 0x2000 0 = Inr (4, st1)"
    using FunctionRecord_WriteTrampoline_runs [OF r(2) example_environment_ok, of "0x2000" ?st "0x10000"] r(1)
    by (auto simp: example_kind)
  have writes: "writev_writes (copy_platform example_environment)" using platforms_write(1) by simp
  obtain r1 where w: "wrote example_environment ?st 0x10000 0x10000 0x2000 0 4 st1 r1"
    using FunctionRecord_WriteTrampoline_wrote [OF writes r(2) run] r(1) by auto
  let ?st1 = "st1\<lparr>lock_depth := lock_depth st1 - 1\<rparr>"
  have "function_records entered 0x10000 = None" by (simp add: entered_def unhooked_def)
  then have "WriteTrampoline example_environment unhooked 0x10000 0x2000 0 = Inr (4, ?st1)"
    using run unfolding WriteTrampoline_def locked_def Let_def entered_def [symmetric] by simp
  moreover have "bytes_in ?st1 = write_bytes example_function 0x10000 (jump_code kPC20 0x10000 0x2000)"
    using w by (auto simp: wrote_def Let_def example_kind)
  moreover have "\<exists>st2. InlineUnhook example_environment ?st1 0x10000 = Inr (True, st2)"
  proof -
    have "hooks_map st1 0x10000 = None" "function_records st1 0x10000 = Some r1" "backup_trampoline r1 = 0"
      using wrote_hooks [OF w] wrote_record [OF w] w by (simp_all add: wrote_def Let_def)
    then show ?thesis
      by (simp add: InlineUnhook_def locked_def Let_def hooked_root_def Lookup_def FunctionRecord_Unhook_def)
  qed
  ultimately show ?thesis by blast
qed

theorem WriteTrampoline_redirects_and_restores_witness:
  "\<exists>st1 st2. WriteTrampoline example_environment unhooked 0x10000 0x2000 0 = Inr (4, st1) \<and>
     InlineUnhook example_environment st1 0x10000 = Inr (True, st2) \<and> function_records st2 0x10000 = None"
proof -
  obtain st1 st2 where w: "WriteTrampoline example_environment unhooked 0x10000 0x2000 0 = Inr (4, st1)"
    and u: "InlineUnhook example_environment st1 0x10000 = Inr (True, st2)" using example_written by blast
  have "system_ok (memory_system example_environment)" "allocator_ok (heap unhooked)"
    "writev_writes (copy_platform example_environment)" "hooks_map unhooked 0x10000 = None"
    "function_records unhooked 0x10000 = None"
    using example_system_ok example_ok platforms_write(1) by (simp_all add: unhooked_def)
  from WriteTrampoline_redirects_and_restores [OF this(1-3) example_environment_ok(2) this(4,5) w _ _ u] w u
  show ?thesis by auto
qed

theorem second_WriteTrampoline_loses_original_witness:
  "\<exists>st1 st2 r. WriteTrampoline example_environment unhooked 0x10000 0x2000 0 = Inr (4, st1) \<and>
     WriteTrampoline example_environment st1 0x10000 0x2400 0 = Inr (4, st2) \<and>
     function_records st2 0x10000 = Some r \<and> record_backup r = jump_code kPC20 0x10000 0x2000"
proof -
  let ?env = example_environment
  obtain st1 where w: "WriteTrampoline ?env unhooked 0x10000 0x2000 0 = Inr (4, st1)"
    and b: "bytes_in st1 = write_bytes example_function 0x10000 (jump_code kPC20 0x10000 0x2000)"
    using example_written by blast
  have pre: "writev_writes (copy_platform ?env)" "function_records unhooked 0x10000 = None" "(4::nat) \<noteq> 0"
    "even (0x10000 :: u64)" "even (0x2400 :: u64)" "(0x2400 :: u64) \<noteq> 0"
    using platforms_write(1) by (simp_all add: unhooked_def)
  have "bytes_in unhooked = example_function" by (simp add: unhooked_def)
  then have hash: "ComputeHash (bytes_in st1) 0x10000 4 \<noteq> ComputeHash (bytes_in unhooked) 0x10000 4"
    using example_hashes b by simp
  from second_WriteTrampoline_loses_original [OF pre(1,2) w pre(3) hash example_environment_ok pre(4-6)]
  show ?thesis using w by (auto simp: example_kind)
qed

end
