(* ===== verification/Assembler_Instructions.thy ===== *)
theory Assembler_Instructions
  imports Assembler
begin

text \<open>
  The instructions of the assembler that \<open>Assembler\<close> does not have yet: every function of
  \<open>gen_assembler_common_riscv-inl.h\<close> and \<open>gen_assembler_rv64-inl.h\<close> that emits a word by itself.

  Overloads of one name are told apart by a suffix: \<open>X_imm\<close> takes an immediate where \<open>X\<close> takes a
  label or a register, \<open>X_dyn\<close> leaves out the rounding mode, \<open>X_operand\<close> takes a memory operand. As in
  \<open>Assembler\<close>, an immediate is given by its encoded value.
\<close>

section \<open>Operands\<close>

type_synonym FpRegister = u8

text \<open>\<open>struct Operand\<close>: the base register and the encoded displacement.\<close>

type_synonym Operand = "Register \<times> u32"

datatype Condition = kInvalidCondition | kEqual | kNotEqual | kLess | kGreaterEqual | kBelow
  | kAboveEqual | kAlways | kNever

primrec Condition_val :: "Condition \<Rightarrow> u32" where
  "Condition_val kInvalidCondition = - 1"
| "Condition_val kEqual = 0"
| "Condition_val kNotEqual = 1"
| "Condition_val kLess = 4"
| "Condition_val kGreaterEqual = 5"
| "Condition_val kBelow = 6"
| "Condition_val kAboveEqual = 7"
| "Condition_val kAlways = 8"
| "Condition_val kNever = 9"

datatype Csr = kFFlags | kFrm | kFCsr | kVstart | kVxsat | kVxrm | kVcsr | kCycle | kVl | kVtype | kVlenb

primrec Csr_val :: "Csr \<Rightarrow> u32" where
  "Csr_val kFFlags = 0b000000000001"
| "Csr_val kFrm = 0b000000000010"
| "Csr_val kFCsr = 0b000000000011"
| "Csr_val kVstart = 0b000000001000"
| "Csr_val kVxsat = 0b000000001001"
| "Csr_val kVxrm = 0b000000001010"
| "Csr_val kVcsr = 0b000000001111"
| "Csr_val kCycle = 0b110000000000"
| "Csr_val kVl = 0b110000100000"
| "Csr_val kVtype = 0b110000100001"
| "Csr_val kVlenb = 0b110000100010"

datatype Rounding = kRne | kRtz | kRdn | kRup | kRmm | kDyn

primrec Rounding_val :: "Rounding \<Rightarrow> u32" where
  "Rounding_val kRne = 0"
| "Rounding_val kRtz = 1"
| "Rounding_val kRdn = 2"
| "Rounding_val kRup = 3"
| "Rounding_val kRmm = 4"
| "Rounding_val kDyn = 7"

section \<open>The remaining immediates\<close>

definition CsrImmediate :: "'a::len word \<Rightarrow> u32 result" where
  "CsrImmediate = checked CsrImmediate_AccetableValue CsrImmediate_MakeRaw"

definition PImmediate :: "'a::len word \<Rightarrow> u32 result" where
  "PImmediate = checked PImmediate_AccetableValue PImmediate_MakeRaw"

definition Shift32Immediate :: "'a::len word \<Rightarrow> u32 result" where
  "Shift32Immediate = checked Shift32Immediate_AccetableValue Shift32Immediate_MakeRaw"

definition Shift64Immediate :: "'a::len word \<Rightarrow> u32 result" where
  "Shift64Immediate = checked Shift64Immediate_AccetableValue Shift64Immediate_MakeRaw"

definition MakeCsrImmediate :: "'a::len word \<Rightarrow> u32 option" where
  "MakeCsrImmediate = optional CsrImmediate_AccetableValue CsrImmediate_MakeRaw"

definition MakePImmediate :: "'a::len word \<Rightarrow> u32 option" where
  "MakePImmediate = optional PImmediate_AccetableValue PImmediate_MakeRaw"

definition MakeShift32Immediate :: "'a::len word \<Rightarrow> u32 option" where
  "MakeShift32Immediate = optional Shift32Immediate_AccetableValue Shift32Immediate_MakeRaw"

definition MakeShift64Immediate :: "'a::len word \<Rightarrow> u32 option" where
  "MakeShift64Immediate = optional Shift64Immediate_AccetableValue Shift64Immediate_MakeRaw"

section \<open>The remaining formats\<close>

definition EmitITypeInstruction_operand ::
  "u32 \<Rightarrow> Register \<Rightarrow> Operand \<Rightarrow> AssemblerBase \<Rightarrow> AssemblerBase" where
  "EmitITypeInstruction_operand kOpcode argument0 operand =
     EmitInstruction kOpcode [Rd argument0, Rs1 (fst operand), snd operand]"

text \<open>The number of a control register stands in the place of the I immediate, unsigned.\<close>

definition EmitITypeInstruction_csr ::
  "u32 \<Rightarrow> Register \<Rightarrow> Csr \<Rightarrow> Register \<Rightarrow> AssemblerBase \<Rightarrow> AssemblerBase" where
  "EmitITypeInstruction_csr kOpcode argument0 csr' argument1 =
     EmitInstruction kOpcode [Rd argument0, push_bit 20 (Csr_val csr'), Rs1 argument1]"

definition EmitITypeInstruction_csr_imm ::
  "u32 \<Rightarrow> Register \<Rightarrow> Csr \<Rightarrow> u32 \<Rightarrow> AssemblerBase \<Rightarrow> AssemblerBase" where
  "EmitITypeInstruction_csr_imm kOpcode argument0 csr' immediate =
     EmitInstruction kOpcode [Rd argument0, push_bit 20 (Csr_val csr'), immediate]"

definition EmitPTypeInstruction :: "u32 \<Rightarrow> Operand \<Rightarrow> AssemblerBase \<Rightarrow> AssemblerBase" where
  "EmitPTypeInstruction kOpcode operand = EmitInstruction kOpcode [Rs1 (fst operand), snd operand]"

definition EmitRTypeInstruction_unary ::
  "u32 \<Rightarrow> Register \<Rightarrow> Register \<Rightarrow> AssemblerBase \<Rightarrow> AssemblerBase" where
  "EmitRTypeInstruction_unary kOpcode argument0 argument1 =
     EmitInstruction kOpcode [Rd argument0, Rs1 argument1]"

definition EmitRTypeInstruction_rounding ::
  "u32 \<Rightarrow> Register \<Rightarrow> Register \<Rightarrow> Rounding \<Rightarrow> AssemblerBase \<Rightarrow> AssemblerBase" where
  "EmitRTypeInstruction_rounding kOpcode argument0 argument1 argument2 =
     EmitInstruction kOpcode [Rd argument0, Rs1 argument1, Rm (Rounding_val argument2)]"

definition EmitSTypeInstruction_operand ::
  "u32 \<Rightarrow> Register \<Rightarrow> Operand \<Rightarrow> AssemblerBase \<Rightarrow> AssemblerBase" where
  "EmitSTypeInstruction_operand kOpcode argument0 operand =
     EmitInstruction kOpcode [Rs2 argument0, Rs1 (fst operand), snd operand]"

section \<open>The instructions of \<open>gen_assembler_common_riscv-inl.h\<close>\<close>

definition Add :: "Register \<Rightarrow> Register \<Rightarrow> Register \<Rightarrow> AssemblerBase \<Rightarrow> AssemblerBase" where
  "Add arg0 arg1 arg2 = EmitRTypeInstruction 0x00000033 arg0 arg1 arg2"

definition And :: "Register \<Rightarrow> Register \<Rightarrow> Register \<Rightarrow> AssemblerBase \<Rightarrow> AssemblerBase" where
  "And arg0 arg1 arg2 = EmitRTypeInstruction 0x00007033 arg0 arg1 arg2"

definition Andi :: "Register \<Rightarrow> Register \<Rightarrow> u32 \<Rightarrow> AssemblerBase \<Rightarrow> AssemblerBase" where
  "Andi arg0 arg1 arg2 = EmitITypeInstruction 0x00007013 arg0 arg1 arg2"

definition Beq_imm :: "Register \<Rightarrow> Register \<Rightarrow> u32 \<Rightarrow> AssemblerBase \<Rightarrow> AssemblerBase" where
  "Beq_imm arg0 arg1 arg2 = EmitBTypeInstruction 0x00000063 arg0 arg1 arg2"

definition Bge_imm :: "Register \<Rightarrow> Register \<Rightarrow> u32 \<Rightarrow> AssemblerBase \<Rightarrow> AssemblerBase" where
  "Bge_imm arg0 arg1 arg2 = EmitBTypeInstruction 0x00005063 arg0 arg1 arg2"

definition Bgeu_imm :: "Register \<Rightarrow> Register \<Rightarrow> u32 \<Rightarrow> AssemblerBase \<Rightarrow> AssemblerBase" where
  "Bgeu_imm arg0 arg1 arg2 = EmitBTypeInstruction 0x00007063 arg0 arg1 arg2"

definition Blt_imm :: "Register \<Rightarrow> Register \<Rightarrow> u32 \<Rightarrow> AssemblerBase \<Rightarrow> AssemblerBase" where
  "Blt_imm arg0 arg1 arg2 = EmitBTypeInstruction 0x00004063 arg0 arg1 arg2"

definition Bltu_imm :: "Register \<Rightarrow> Register \<Rightarrow> u32 \<Rightarrow> AssemblerBase \<Rightarrow> AssemblerBase" where
  "Bltu_imm arg0 arg1 arg2 = EmitBTypeInstruction 0x00006063 arg0 arg1 arg2"

definition Bne_imm :: "Register \<Rightarrow> Register \<Rightarrow> u32 \<Rightarrow> AssemblerBase \<Rightarrow> AssemblerBase" where
  "Bne_imm arg0 arg1 arg2 = EmitBTypeInstruction 0x00001063 arg0 arg1 arg2"

definition Csrrc_imm :: "Register \<Rightarrow> Csr \<Rightarrow> u32 \<Rightarrow> AssemblerBase \<Rightarrow> AssemblerBase" where
  "Csrrc_imm arg0 arg1 arg2 = EmitITypeInstruction_csr_imm 0x00007073 arg0 arg1 arg2"

definition Csrrc :: "Register \<Rightarrow> Csr \<Rightarrow> Register \<Rightarrow> AssemblerBase \<Rightarrow> AssemblerBase" where
  "Csrrc arg0 arg1 arg2 = EmitITypeInstruction_csr 0x00003073 arg0 arg1 arg2"

definition Csrrci :: "Register \<Rightarrow> Csr \<Rightarrow> u32 \<Rightarrow> AssemblerBase \<Rightarrow> AssemblerBase" where
  "Csrrci arg0 arg1 arg2 = EmitITypeInstruction_csr_imm 0x00007073 arg0 arg1 arg2"

definition Csrrs_imm :: "Register \<Rightarrow> Csr \<Rightarrow> u32 \<Rightarrow> AssemblerBase \<Rightarrow> AssemblerBase" where
  "Csrrs_imm arg0 arg1 arg2 = EmitITypeInstruction_csr_imm 0x00006073 arg0 arg1 arg2"

definition Csrrs :: "Register \<Rightarrow> Csr \<Rightarrow> Register \<Rightarrow> AssemblerBase \<Rightarrow> AssemblerBase" where
  "Csrrs arg0 arg1 arg2 = EmitITypeInstruction_csr 0x00002073 arg0 arg1 arg2"

definition Csrrsi :: "Register \<Rightarrow> Csr \<Rightarrow> u32 \<Rightarrow> AssemblerBase \<Rightarrow> AssemblerBase" where
  "Csrrsi arg0 arg1 arg2 = EmitITypeInstruction_csr_imm 0x00006073 arg0 arg1 arg2"

definition Csrrw_imm :: "Register \<Rightarrow> Csr \<Rightarrow> u32 \<Rightarrow> AssemblerBase \<Rightarrow> AssemblerBase" where
  "Csrrw_imm arg0 arg1 arg2 = EmitITypeInstruction_csr_imm 0x00005073 arg0 arg1 arg2"

definition Csrrw :: "Register \<Rightarrow> Csr \<Rightarrow> Register \<Rightarrow> AssemblerBase \<Rightarrow> AssemblerBase" where
  "Csrrw arg0 arg1 arg2 = EmitITypeInstruction_csr 0x00001073 arg0 arg1 arg2"

definition Csrrwi :: "Register \<Rightarrow> Csr \<Rightarrow> u32 \<Rightarrow> AssemblerBase \<Rightarrow> AssemblerBase" where
  "Csrrwi arg0 arg1 arg2 = EmitITypeInstruction_csr_imm 0x00005073 arg0 arg1 arg2"

definition Div :: "Register \<Rightarrow> Register \<Rightarrow> Register \<Rightarrow> AssemblerBase \<Rightarrow> AssemblerBase" where
  "Div arg0 arg1 arg2 = EmitRTypeInstruction 0x02004033 arg0 arg1 arg2"

definition Divu :: "Register \<Rightarrow> Register \<Rightarrow> Register \<Rightarrow> AssemblerBase \<Rightarrow> AssemblerBase" where
  "Divu arg0 arg1 arg2 = EmitRTypeInstruction 0x02005033 arg0 arg1 arg2"

definition FcvtDS :: "FpRegister \<Rightarrow> FpRegister \<Rightarrow> Rounding \<Rightarrow> AssemblerBase \<Rightarrow> AssemblerBase" where
  "FcvtDS arg0 arg1 arg2 = EmitRTypeInstruction_rounding 0x42000053 arg0 arg1 arg2"

definition FcvtDS_dyn :: "FpRegister \<Rightarrow> FpRegister \<Rightarrow> AssemblerBase \<Rightarrow> AssemblerBase" where
  "FcvtDS_dyn arg0 arg1 = EmitRTypeInstruction_rounding 0x42000053 arg0 arg1 kDyn"

definition FcvtDW :: "FpRegister \<Rightarrow> Register \<Rightarrow> Rounding \<Rightarrow> AssemblerBase \<Rightarrow> AssemblerBase" where
  "FcvtDW arg0 arg1 arg2 = EmitRTypeInstruction_rounding 0xd2000053 arg0 arg1 arg2"

definition FcvtDW_dyn :: "FpRegister \<Rightarrow> Register \<Rightarrow> AssemblerBase \<Rightarrow> AssemblerBase" where
  "FcvtDW_dyn arg0 arg1 = EmitRTypeInstruction_rounding 0xd2000053 arg0 arg1 kDyn"

definition FcvtDWu :: "FpRegister \<Rightarrow> Register \<Rightarrow> Rounding \<Rightarrow> AssemblerBase \<Rightarrow> AssemblerBase" where
  "FcvtDWu arg0 arg1 arg2 = EmitRTypeInstruction_rounding 0xd2100053 arg0 arg1 arg2"

definition FcvtDWu_dyn :: "FpRegister \<Rightarrow> Register \<Rightarrow> AssemblerBase \<Rightarrow> AssemblerBase" where
  "FcvtDWu_dyn arg0 arg1 = EmitRTypeInstruction_rounding 0xd2100053 arg0 arg1 kDyn"

definition FcvtSD :: "FpRegister \<Rightarrow> FpRegister \<Rightarrow> Rounding \<Rightarrow> AssemblerBase \<Rightarrow> AssemblerBase" where
  "FcvtSD arg0 arg1 arg2 = EmitRTypeInstruction_rounding 0x40100053 arg0 arg1 arg2"

definition FcvtSD_dyn :: "FpRegister \<Rightarrow> FpRegister \<Rightarrow> AssemblerBase \<Rightarrow> AssemblerBase" where
  "FcvtSD_dyn arg0 arg1 = EmitRTypeInstruction_rounding 0x40100053 arg0 arg1 kDyn"

definition FcvtSW :: "FpRegister \<Rightarrow> Register \<Rightarrow> Rounding \<Rightarrow> AssemblerBase \<Rightarrow> AssemblerBase" where
  "FcvtSW arg0 arg1 arg2 = EmitRTypeInstruction_rounding 0xd0000053 arg0 arg1 arg2"

definition FcvtSW_dyn :: "FpRegister \<Rightarrow> Register \<Rightarrow> AssemblerBase \<Rightarrow> AssemblerBase" where
  "FcvtSW_dyn arg0 arg1 = EmitRTypeInstruction_rounding 0xd0000053 arg0 arg1 kDyn"

definition FcvtSWu :: "FpRegister \<Rightarrow> Register \<Rightarrow> Rounding \<Rightarrow> AssemblerBase \<Rightarrow> AssemblerBase" where
  "FcvtSWu arg0 arg1 arg2 = EmitRTypeInstruction_rounding 0xd0100053 arg0 arg1 arg2"

definition FcvtSWu_dyn :: "FpRegister \<Rightarrow> Register \<Rightarrow> AssemblerBase \<Rightarrow> AssemblerBase" where
  "FcvtSWu_dyn arg0 arg1 = EmitRTypeInstruction_rounding 0xd0100053 arg0 arg1 kDyn"

definition FcvtWD :: "Register \<Rightarrow> FpRegister \<Rightarrow> Rounding \<Rightarrow> AssemblerBase \<Rightarrow> AssemblerBase" where
  "FcvtWD arg0 arg1 arg2 = EmitRTypeInstruction_rounding 0xc2000053 arg0 arg1 arg2"

definition FcvtWD_dyn :: "Register \<Rightarrow> FpRegister \<Rightarrow> AssemblerBase \<Rightarrow> AssemblerBase" where
  "FcvtWD_dyn arg0 arg1 = EmitRTypeInstruction_rounding 0xc2000053 arg0 arg1 kDyn"

definition FcvtWS :: "Register \<Rightarrow> FpRegister \<Rightarrow> Rounding \<Rightarrow> AssemblerBase \<Rightarrow> AssemblerBase" where
  "FcvtWS arg0 arg1 arg2 = EmitRTypeInstruction_rounding 0xc0000053 arg0 arg1 arg2"

definition FcvtWS_dyn :: "Register \<Rightarrow> FpRegister \<Rightarrow> AssemblerBase \<Rightarrow> AssemblerBase" where
  "FcvtWS_dyn arg0 arg1 = EmitRTypeInstruction_rounding 0xc0000053 arg0 arg1 kDyn"

definition FcvtWuD :: "Register \<Rightarrow> FpRegister \<Rightarrow> Rounding \<Rightarrow> AssemblerBase \<Rightarrow> AssemblerBase" where
  "FcvtWuD arg0 arg1 arg2 = EmitRTypeInstruction_rounding 0xc2100053 arg0 arg1 arg2"

definition FcvtWuD_dyn :: "Register \<Rightarrow> FpRegister \<Rightarrow> AssemblerBase \<Rightarrow> AssemblerBase" where
  "FcvtWuD_dyn arg0 arg1 = EmitRTypeInstruction_rounding 0xc2100053 arg0 arg1 kDyn"

definition FcvtWuS :: "Register \<Rightarrow> FpRegister \<Rightarrow> Rounding \<Rightarrow> AssemblerBase \<Rightarrow> AssemblerBase" where
  "FcvtWuS arg0 arg1 arg2 = EmitRTypeInstruction_rounding 0xc0100053 arg0 arg1 arg2"

definition FcvtWuS_dyn :: "Register \<Rightarrow> FpRegister \<Rightarrow> AssemblerBase \<Rightarrow> AssemblerBase" where
  "FcvtWuS_dyn arg0 arg1 = EmitRTypeInstruction_rounding 0xc0100053 arg0 arg1 kDyn"

definition Fld :: "FpRegister \<Rightarrow> Operand \<Rightarrow> AssemblerBase \<Rightarrow> AssemblerBase" where
  "Fld arg0 arg1 = EmitITypeInstruction_operand 0x00003007 arg0 arg1"

definition Flw :: "FpRegister \<Rightarrow> Operand \<Rightarrow> AssemblerBase \<Rightarrow> AssemblerBase" where
  "Flw arg0 arg1 = EmitITypeInstruction_operand 0x00002007 arg0 arg1"

definition Fsd :: "FpRegister \<Rightarrow> Operand \<Rightarrow> AssemblerBase \<Rightarrow> AssemblerBase" where
  "Fsd arg0 arg1 = EmitSTypeInstruction_operand 0x00003027 arg0 arg1"

definition FsqrtD :: "FpRegister \<Rightarrow> FpRegister \<Rightarrow> Rounding \<Rightarrow> AssemblerBase \<Rightarrow> AssemblerBase" where
  "FsqrtD arg0 arg1 arg2 = EmitRTypeInstruction_rounding 0x5a000053 arg0 arg1 arg2"

definition FsqrtD_dyn :: "FpRegister \<Rightarrow> FpRegister \<Rightarrow> AssemblerBase \<Rightarrow> AssemblerBase" where
  "FsqrtD_dyn arg0 arg1 = EmitRTypeInstruction_rounding 0x5a000053 arg0 arg1 kDyn"

definition FsqrtS :: "FpRegister \<Rightarrow> FpRegister \<Rightarrow> Rounding \<Rightarrow> AssemblerBase \<Rightarrow> AssemblerBase" where
  "FsqrtS arg0 arg1 arg2 = EmitRTypeInstruction_rounding 0x58000053 arg0 arg1 arg2"

definition FsqrtS_dyn :: "FpRegister \<Rightarrow> FpRegister \<Rightarrow> AssemblerBase \<Rightarrow> AssemblerBase" where
  "FsqrtS_dyn arg0 arg1 = EmitRTypeInstruction_rounding 0x58000053 arg0 arg1 kDyn"

definition Fsw :: "FpRegister \<Rightarrow> Operand \<Rightarrow> AssemblerBase \<Rightarrow> AssemblerBase" where
  "Fsw arg0 arg1 = EmitSTypeInstruction_operand 0x00002027 arg0 arg1"

definition Jalr_operand :: "Register \<Rightarrow> Operand \<Rightarrow> AssemblerBase \<Rightarrow> AssemblerBase" where
  "Jalr_operand arg0 arg1 = EmitITypeInstruction_operand 0x00000067 arg0 arg1"

definition Lb :: "Register \<Rightarrow> Operand \<Rightarrow> AssemblerBase \<Rightarrow> AssemblerBase" where
  "Lb arg0 arg1 = EmitITypeInstruction_operand 0x00000003 arg0 arg1"

definition Lbu :: "Register \<Rightarrow> Operand \<Rightarrow> AssemblerBase \<Rightarrow> AssemblerBase" where
  "Lbu arg0 arg1 = EmitITypeInstruction_operand 0x00004003 arg0 arg1"

definition Lh :: "Register \<Rightarrow> Operand \<Rightarrow> AssemblerBase \<Rightarrow> AssemblerBase" where
  "Lh arg0 arg1 = EmitITypeInstruction_operand 0x00001003 arg0 arg1"

definition Lhu :: "Register \<Rightarrow> Operand \<Rightarrow> AssemblerBase \<Rightarrow> AssemblerBase" where
  "Lhu arg0 arg1 = EmitITypeInstruction_operand 0x00005003 arg0 arg1"

definition Lw :: "Register \<Rightarrow> Operand \<Rightarrow> AssemblerBase \<Rightarrow> AssemblerBase" where
  "Lw arg0 arg1 = EmitITypeInstruction_operand 0x00002003 arg0 arg1"

definition Mul :: "Register \<Rightarrow> Register \<Rightarrow> Register \<Rightarrow> AssemblerBase \<Rightarrow> AssemblerBase" where
  "Mul arg0 arg1 arg2 = EmitRTypeInstruction 0x02000033 arg0 arg1 arg2"

definition Mulh :: "Register \<Rightarrow> Register \<Rightarrow> Register \<Rightarrow> AssemblerBase \<Rightarrow> AssemblerBase" where
  "Mulh arg0 arg1 arg2 = EmitRTypeInstruction 0x02001033 arg0 arg1 arg2"

definition Mulhsu :: "Register \<Rightarrow> Register \<Rightarrow> Register \<Rightarrow> AssemblerBase \<Rightarrow> AssemblerBase" where
  "Mulhsu arg0 arg1 arg2 = EmitRTypeInstruction 0x02002033 arg0 arg1 arg2"

definition Mulhu :: "Register \<Rightarrow> Register \<Rightarrow> Register \<Rightarrow> AssemblerBase \<Rightarrow> AssemblerBase" where
  "Mulhu arg0 arg1 arg2 = EmitRTypeInstruction 0x02003033 arg0 arg1 arg2"

definition Or :: "Register \<Rightarrow> Register \<Rightarrow> Register \<Rightarrow> AssemblerBase \<Rightarrow> AssemblerBase" where
  "Or arg0 arg1 arg2 = EmitRTypeInstruction 0x00006033 arg0 arg1 arg2"

definition Ori :: "Register \<Rightarrow> Register \<Rightarrow> u32 \<Rightarrow> AssemblerBase \<Rightarrow> AssemblerBase" where
  "Ori arg0 arg1 arg2 = EmitITypeInstruction 0x00006013 arg0 arg1 arg2"

definition PrefetchI :: "Operand \<Rightarrow> AssemblerBase \<Rightarrow> AssemblerBase" where
  "PrefetchI arg0 = EmitPTypeInstruction 0x00006013 arg0"

definition PrefetchR :: "Operand \<Rightarrow> AssemblerBase \<Rightarrow> AssemblerBase" where
  "PrefetchR arg0 = EmitPTypeInstruction 0x00106013 arg0"

definition PrefetchW :: "Operand \<Rightarrow> AssemblerBase \<Rightarrow> AssemblerBase" where
  "PrefetchW arg0 = EmitPTypeInstruction 0x00306013 arg0"

definition Rem :: "Register \<Rightarrow> Register \<Rightarrow> Register \<Rightarrow> AssemblerBase \<Rightarrow> AssemblerBase" where
  "Rem arg0 arg1 arg2 = EmitRTypeInstruction 0x02006033 arg0 arg1 arg2"

definition Remu :: "Register \<Rightarrow> Register \<Rightarrow> Register \<Rightarrow> AssemblerBase \<Rightarrow> AssemblerBase" where
  "Remu arg0 arg1 arg2 = EmitRTypeInstruction 0x02007033 arg0 arg1 arg2"

definition Ror :: "Register \<Rightarrow> Register \<Rightarrow> Register \<Rightarrow> AssemblerBase \<Rightarrow> AssemblerBase" where
  "Ror arg0 arg1 arg2 = EmitRTypeInstruction 0x60005033 arg0 arg1 arg2"

definition Sb :: "Register \<Rightarrow> Operand \<Rightarrow> AssemblerBase \<Rightarrow> AssemblerBase" where
  "Sb arg0 arg1 = EmitSTypeInstruction_operand 0x00000023 arg0 arg1"

definition SextB :: "Register \<Rightarrow> Register \<Rightarrow> AssemblerBase \<Rightarrow> AssemblerBase" where
  "SextB arg0 arg1 = EmitRTypeInstruction_unary 0x60401013 arg0 arg1"

definition SextH :: "Register \<Rightarrow> Register \<Rightarrow> AssemblerBase \<Rightarrow> AssemblerBase" where
  "SextH arg0 arg1 = EmitRTypeInstruction_unary 0x60501013 arg0 arg1"

definition Sh :: "Register \<Rightarrow> Operand \<Rightarrow> AssemblerBase \<Rightarrow> AssemblerBase" where
  "Sh arg0 arg1 = EmitSTypeInstruction_operand 0x00001023 arg0 arg1"

definition Sh3add :: "Register \<Rightarrow> Register \<Rightarrow> Register \<Rightarrow> AssemblerBase \<Rightarrow> AssemblerBase" where
  "Sh3add arg0 arg1 arg2 = EmitRTypeInstruction 0x20006033 arg0 arg1 arg2"

definition Sll :: "Register \<Rightarrow> Register \<Rightarrow> Register \<Rightarrow> AssemblerBase \<Rightarrow> AssemblerBase" where
  "Sll arg0 arg1 arg2 = EmitRTypeInstruction 0x00001033 arg0 arg1 arg2"

definition Slt :: "Register \<Rightarrow> Register \<Rightarrow> Register \<Rightarrow> AssemblerBase \<Rightarrow> AssemblerBase" where
  "Slt arg0 arg1 arg2 = EmitRTypeInstruction 0x00002033 arg0 arg1 arg2"

definition Slti :: "Register \<Rightarrow> Register \<Rightarrow> u32 \<Rightarrow> AssemblerBase \<Rightarrow> AssemblerBase" where
  "Slti arg0 arg1 arg2 = EmitITypeInstruction 0x00002013 arg0 arg1 arg2"

definition Sltiu :: "Register \<Rightarrow> Register \<Rightarrow> u32 \<Rightarrow> AssemblerBase \<Rightarrow> AssemblerBase" where
  "Sltiu arg0 arg1 arg2 = EmitITypeInstruction 0x00003013 arg0 arg1 arg2"

definition Sltu :: "Register \<Rightarrow> Register \<Rightarrow> Register \<Rightarrow> AssemblerBase \<Rightarrow> AssemblerBase" where
  "Sltu arg0 arg1 arg2 = EmitRTypeInstruction 0x00003033 arg0 arg1 arg2"

definition Sra :: "Register \<Rightarrow> Register \<Rightarrow> Register \<Rightarrow> AssemblerBase \<Rightarrow> AssemblerBase" where
  "Sra arg0 arg1 arg2 = EmitRTypeInstruction 0x40005033 arg0 arg1 arg2"

definition Sraw :: "Register \<Rightarrow> Register \<Rightarrow> Register \<Rightarrow> AssemblerBase \<Rightarrow> AssemblerBase" where
  "Sraw arg0 arg1 arg2 = EmitRTypeInstruction 0x4000503b arg0 arg1 arg2"

definition Srl :: "Register \<Rightarrow> Register \<Rightarrow> Register \<Rightarrow> AssemblerBase \<Rightarrow> AssemblerBase" where
  "Srl arg0 arg1 arg2 = EmitRTypeInstruction 0x00005033 arg0 arg1 arg2"

definition Srlw :: "Register \<Rightarrow> Register \<Rightarrow> Register \<Rightarrow> AssemblerBase \<Rightarrow> AssemblerBase" where
  "Srlw arg0 arg1 arg2 = EmitRTypeInstruction 0x0000503b arg0 arg1 arg2"

definition Sub :: "Register \<Rightarrow> Register \<Rightarrow> Register \<Rightarrow> AssemblerBase \<Rightarrow> AssemblerBase" where
  "Sub arg0 arg1 arg2 = EmitRTypeInstruction 0x40000033 arg0 arg1 arg2"

definition Sw :: "Register \<Rightarrow> Operand \<Rightarrow> AssemblerBase \<Rightarrow> AssemblerBase" where
  "Sw arg0 arg1 = EmitSTypeInstruction_operand 0x00002023 arg0 arg1"

definition Xor :: "Register \<Rightarrow> Register \<Rightarrow> Register \<Rightarrow> AssemblerBase \<Rightarrow> AssemblerBase" where
  "Xor arg0 arg1 arg2 = EmitRTypeInstruction 0x00004033 arg0 arg1 arg2"

definition Xori :: "Register \<Rightarrow> Register \<Rightarrow> u32 \<Rightarrow> AssemblerBase \<Rightarrow> AssemblerBase" where
  "Xori arg0 arg1 arg2 = EmitITypeInstruction 0x00004013 arg0 arg1 arg2"

section \<open>The instructions of \<open>gen_assembler_rv64-inl.h\<close>\<close>

definition AddUW :: "Register \<Rightarrow> Register \<Rightarrow> Register \<Rightarrow> AssemblerBase \<Rightarrow> AssemblerBase" where
  "AddUW arg0 arg1 arg2 = EmitRTypeInstruction 0x0800003b arg0 arg1 arg2"

definition Addiw :: "Register \<Rightarrow> Register \<Rightarrow> u32 \<Rightarrow> AssemblerBase \<Rightarrow> AssemblerBase" where
  "Addiw arg0 arg1 arg2 = EmitITypeInstruction 0x0000001b arg0 arg1 arg2"

definition Addw :: "Register \<Rightarrow> Register \<Rightarrow> Register \<Rightarrow> AssemblerBase \<Rightarrow> AssemblerBase" where
  "Addw arg0 arg1 arg2 = EmitRTypeInstruction 0x0000003b arg0 arg1 arg2"

definition Bexti :: "Register \<Rightarrow> Register \<Rightarrow> u32 \<Rightarrow> AssemblerBase \<Rightarrow> AssemblerBase" where
  "Bexti arg0 arg1 arg2 = EmitITypeInstruction 0x48005013 arg0 arg1 arg2"

definition Divuw :: "Register \<Rightarrow> Register \<Rightarrow> Register \<Rightarrow> AssemblerBase \<Rightarrow> AssemblerBase" where
  "Divuw arg0 arg1 arg2 = EmitRTypeInstruction 0x0200503b arg0 arg1 arg2"

definition Divw :: "Register \<Rightarrow> Register \<Rightarrow> Register \<Rightarrow> AssemblerBase \<Rightarrow> AssemblerBase" where
  "Divw arg0 arg1 arg2 = EmitRTypeInstruction 0x0200403b arg0 arg1 arg2"

definition FcvtDL :: "FpRegister \<Rightarrow> Register \<Rightarrow> Rounding \<Rightarrow> AssemblerBase \<Rightarrow> AssemblerBase" where
  "FcvtDL arg0 arg1 arg2 = EmitRTypeInstruction_rounding 0xd2200053 arg0 arg1 arg2"

definition FcvtDL_dyn :: "FpRegister \<Rightarrow> Register \<Rightarrow> AssemblerBase \<Rightarrow> AssemblerBase" where
  "FcvtDL_dyn arg0 arg1 = EmitRTypeInstruction_rounding 0xd2200053 arg0 arg1 kDyn"

definition FcvtDLu :: "FpRegister \<Rightarrow> Register \<Rightarrow> Rounding \<Rightarrow> AssemblerBase \<Rightarrow> AssemblerBase" where
  "FcvtDLu arg0 arg1 arg2 = EmitRTypeInstruction_rounding 0xd2300053 arg0 arg1 arg2"

definition FcvtDLu_dyn :: "FpRegister \<Rightarrow> Register \<Rightarrow> AssemblerBase \<Rightarrow> AssemblerBase" where
  "FcvtDLu_dyn arg0 arg1 = EmitRTypeInstruction_rounding 0xd2300053 arg0 arg1 kDyn"

definition FcvtLD :: "Register \<Rightarrow> FpRegister \<Rightarrow> Rounding \<Rightarrow> AssemblerBase \<Rightarrow> AssemblerBase" where
  "FcvtLD arg0 arg1 arg2 = EmitRTypeInstruction_rounding 0xc2200053 arg0 arg1 arg2"

definition FcvtLD_dyn :: "Register \<Rightarrow> FpRegister \<Rightarrow> AssemblerBase \<Rightarrow> AssemblerBase" where
  "FcvtLD_dyn arg0 arg1 = EmitRTypeInstruction_rounding 0xc2200053 arg0 arg1 kDyn"

definition FcvtLS :: "Register \<Rightarrow> FpRegister \<Rightarrow> Rounding \<Rightarrow> AssemblerBase \<Rightarrow> AssemblerBase" where
  "FcvtLS arg0 arg1 arg2 = EmitRTypeInstruction_rounding 0xc0200053 arg0 arg1 arg2"

definition FcvtLS_dyn :: "Register \<Rightarrow> FpRegister \<Rightarrow> AssemblerBase \<Rightarrow> AssemblerBase" where
  "FcvtLS_dyn arg0 arg1 = EmitRTypeInstruction_rounding 0xc0200053 arg0 arg1 kDyn"

definition FcvtLuD :: "Register \<Rightarrow> FpRegister \<Rightarrow> Rounding \<Rightarrow> AssemblerBase \<Rightarrow> AssemblerBase" where
  "FcvtLuD arg0 arg1 arg2 = EmitRTypeInstruction_rounding 0xc2300053 arg0 arg1 arg2"

definition FcvtLuD_dyn :: "Register \<Rightarrow> FpRegister \<Rightarrow> AssemblerBase \<Rightarrow> AssemblerBase" where
  "FcvtLuD_dyn arg0 arg1 = EmitRTypeInstruction_rounding 0xc2300053 arg0 arg1 kDyn"

definition FcvtLuS :: "Register \<Rightarrow> FpRegister \<Rightarrow> Rounding \<Rightarrow> AssemblerBase \<Rightarrow> AssemblerBase" where
  "FcvtLuS arg0 arg1 arg2 = EmitRTypeInstruction_rounding 0xc0300053 arg0 arg1 arg2"

definition FcvtLuS_dyn :: "Register \<Rightarrow> FpRegister \<Rightarrow> AssemblerBase \<Rightarrow> AssemblerBase" where
  "FcvtLuS_dyn arg0 arg1 = EmitRTypeInstruction_rounding 0xc0300053 arg0 arg1 kDyn"

definition FcvtSL :: "FpRegister \<Rightarrow> Register \<Rightarrow> Rounding \<Rightarrow> AssemblerBase \<Rightarrow> AssemblerBase" where
  "FcvtSL arg0 arg1 arg2 = EmitRTypeInstruction_rounding 0xd0200053 arg0 arg1 arg2"

definition FcvtSL_dyn :: "FpRegister \<Rightarrow> Register \<Rightarrow> AssemblerBase \<Rightarrow> AssemblerBase" where
  "FcvtSL_dyn arg0 arg1 = EmitRTypeInstruction_rounding 0xd0200053 arg0 arg1 kDyn"

definition FcvtSLu :: "FpRegister \<Rightarrow> Register \<Rightarrow> Rounding \<Rightarrow> AssemblerBase \<Rightarrow> AssemblerBase" where
  "FcvtSLu arg0 arg1 arg2 = EmitRTypeInstruction_rounding 0xd0300053 arg0 arg1 arg2"

definition FcvtSLu_dyn :: "FpRegister \<Rightarrow> Register \<Rightarrow> AssemblerBase \<Rightarrow> AssemblerBase" where
  "FcvtSLu_dyn arg0 arg1 = EmitRTypeInstruction_rounding 0xd0300053 arg0 arg1 kDyn"

definition Ld :: "Register \<Rightarrow> Operand \<Rightarrow> AssemblerBase \<Rightarrow> AssemblerBase" where
  "Ld arg0 arg1 = EmitITypeInstruction_operand 0x00003003 arg0 arg1"

definition Lwu :: "Register \<Rightarrow> Operand \<Rightarrow> AssemblerBase \<Rightarrow> AssemblerBase" where
  "Lwu arg0 arg1 = EmitITypeInstruction_operand 0x00006003 arg0 arg1"

definition Mulw :: "Register \<Rightarrow> Register \<Rightarrow> Register \<Rightarrow> AssemblerBase \<Rightarrow> AssemblerBase" where
  "Mulw arg0 arg1 arg2 = EmitRTypeInstruction 0x0200003b arg0 arg1 arg2"

definition Remuw :: "Register \<Rightarrow> Register \<Rightarrow> Register \<Rightarrow> AssemblerBase \<Rightarrow> AssemblerBase" where
  "Remuw arg0 arg1 arg2 = EmitRTypeInstruction 0x0200703b arg0 arg1 arg2"

definition Remw :: "Register \<Rightarrow> Register \<Rightarrow> Register \<Rightarrow> AssemblerBase \<Rightarrow> AssemblerBase" where
  "Remw arg0 arg1 arg2 = EmitRTypeInstruction 0x0200603b arg0 arg1 arg2"

definition Rori :: "Register \<Rightarrow> Register \<Rightarrow> u32 \<Rightarrow> AssemblerBase \<Rightarrow> AssemblerBase" where
  "Rori arg0 arg1 arg2 = EmitITypeInstruction 0x60005013 arg0 arg1 arg2"

definition Roriw :: "Register \<Rightarrow> Register \<Rightarrow> u32 \<Rightarrow> AssemblerBase \<Rightarrow> AssemblerBase" where
  "Roriw arg0 arg1 arg2 = EmitITypeInstruction 0x6000501b arg0 arg1 arg2"

definition Rorw :: "Register \<Rightarrow> Register \<Rightarrow> Register \<Rightarrow> AssemblerBase \<Rightarrow> AssemblerBase" where
  "Rorw arg0 arg1 arg2 = EmitRTypeInstruction 0x6000503b arg0 arg1 arg2"

definition Sd :: "Register \<Rightarrow> Operand \<Rightarrow> AssemblerBase \<Rightarrow> AssemblerBase" where
  "Sd arg0 arg1 = EmitSTypeInstruction_operand 0x00003023 arg0 arg1"

definition Slliw :: "Register \<Rightarrow> Register \<Rightarrow> u32 \<Rightarrow> AssemblerBase \<Rightarrow> AssemblerBase" where
  "Slliw arg0 arg1 arg2 = EmitITypeInstruction 0x0000101b arg0 arg1 arg2"

definition Sllw :: "Register \<Rightarrow> Register \<Rightarrow> Register \<Rightarrow> AssemblerBase \<Rightarrow> AssemblerBase" where
  "Sllw arg0 arg1 arg2 = EmitRTypeInstruction 0x0000103b arg0 arg1 arg2"

definition Srai :: "Register \<Rightarrow> Register \<Rightarrow> u32 \<Rightarrow> AssemblerBase \<Rightarrow> AssemblerBase" where
  "Srai arg0 arg1 arg2 = EmitITypeInstruction 0x40005013 arg0 arg1 arg2"

definition Sraiw :: "Register \<Rightarrow> Register \<Rightarrow> u32 \<Rightarrow> AssemblerBase \<Rightarrow> AssemblerBase" where
  "Sraiw arg0 arg1 arg2 = EmitITypeInstruction 0x4000501b arg0 arg1 arg2"

definition Srli :: "Register \<Rightarrow> Register \<Rightarrow> u32 \<Rightarrow> AssemblerBase \<Rightarrow> AssemblerBase" where
  "Srli arg0 arg1 arg2 = EmitITypeInstruction 0x00005013 arg0 arg1 arg2"

definition Srliw :: "Register \<Rightarrow> Register \<Rightarrow> u32 \<Rightarrow> AssemblerBase \<Rightarrow> AssemblerBase" where
  "Srliw arg0 arg1 arg2 = EmitITypeInstruction 0x0000501b arg0 arg1 arg2"

definition Subw :: "Register \<Rightarrow> Register \<Rightarrow> Register \<Rightarrow> AssemblerBase \<Rightarrow> AssemblerBase" where
  "Subw arg0 arg1 arg2 = EmitRTypeInstruction 0x4000003b arg0 arg1 arg2"

end
