(* ===== verification/Assembler_Macros.thy ===== *)
theory Assembler_Macros
  imports Assembler_Instructions
begin

text \<open>
  The functions of \<open>riscv.h\<close> and \<open>rv64.h\<close> that are written in terms of other instructions: the
  conditional jumps of \<open>Bcc\<close>, the instructions with a label that \<open>Assembler\<close> does not have yet, the
  pseudo-instructions, and the loading of constants of 32 bits.
\<close>

section \<open>Conditional jumps\<close>

text \<open>The cast of a condition to \<open>uint8_t\<close>, of which the upper five bits have to be clear.\<close>

definition condition_ok :: "Condition \<Rightarrow> bool" where
  "condition_ok cc = ((ucast (Condition_val cc) :: u8) AND 0xf8 = 0)"

definition Bcc :: "Condition \<Rightarrow> Register \<Rightarrow> Register \<Rightarrow> label \<Rightarrow> AssemblerBase \<Rightarrow> AssemblerBase result" where
  "Bcc cc argument1 argument2 l a =
     (if cc = kAlways then Inr (Jal_label zero l a)
      else if cc = kNever then Inr a
      else bnd (CHECK (condition_ok cc)) (\<lambda>_.
        Inr (EmitInstruction 0x00000063 [Cond (Condition_val cc), Rs1 argument1, Rs2 argument2]
          (push_jump l False a))))"

text \<open>From the places of a B immediate to those of a J immediate.\<close>

definition jimmediate :: "u32 \<Rightarrow> u32" where
  "jimmediate encoded_immediate_value =
     (signed_drop_bit 19 encoded_immediate_value AND 0x000ff000) OR
     (push_bit 13 encoded_immediate_value AND 0x01f00000) OR
     (encoded_immediate_value AND 0xfe000000)"

definition Bcc_imm :: "Condition \<Rightarrow> Register \<Rightarrow> Register \<Rightarrow> u32 \<Rightarrow> AssemblerBase \<Rightarrow> AssemblerBase result" where
  "Bcc_imm cc argument1 argument2 immediate a =
     (if cc = kAlways then Inr (Jal zero (jimmediate immediate) a)
      else if cc = kNever then Inr a
      else bnd (CHECK (condition_ok cc)) (\<lambda>_.
        Inr (EmitInstruction 0x00000063
          [Cond (Condition_val cc), Rs1 argument1, Rs2 argument2, immediate] a)))"

definition Bgt :: "Register \<Rightarrow> Register \<Rightarrow> label \<Rightarrow> AssemblerBase \<Rightarrow> AssemblerBase" where
  "Bgt arg0 arg1 l = Blt arg1 arg0 l"

definition Bgtu :: "Register \<Rightarrow> Register \<Rightarrow> label \<Rightarrow> AssemblerBase \<Rightarrow> AssemblerBase" where
  "Bgtu arg0 arg1 l = Bltu arg1 arg0 l"

definition Ble :: "Register \<Rightarrow> Register \<Rightarrow> label \<Rightarrow> AssemblerBase \<Rightarrow> AssemblerBase" where
  "Ble arg0 arg1 l = Bge arg1 arg0 l"

definition Bleu :: "Register \<Rightarrow> Register \<Rightarrow> label \<Rightarrow> AssemblerBase \<Rightarrow> AssemblerBase" where
  "Bleu arg0 arg1 l = Bgeu arg1 arg0 l"

definition Blez :: "Register \<Rightarrow> label \<Rightarrow> AssemblerBase \<Rightarrow> AssemblerBase" where
  "Blez arg0 = Ble arg0 zero"

definition Bgtz :: "Register \<Rightarrow> label \<Rightarrow> AssemblerBase \<Rightarrow> AssemblerBase" where
  "Bgtz arg0 = Bgt arg0 zero"

section \<open>Loads and stores with a label\<close>

text \<open>
  \<open>BERBERIS_DEFINE_LOAD_OR_STORE_INSTRUCTION\<close>, once for its instances of the I format and once for
  those of the S format. A memory operand without a displacement has the displacement 0.
\<close>

definition load_via_label ::
  "u32 \<Rightarrow> Register \<Rightarrow> label \<Rightarrow> Register \<Rightarrow> AssemblerBase \<Rightarrow> AssemblerBase result" where
  "load_via_label Opcode arg0 l arg2 a =
     bnd (CHECK (arg2 \<noteq> x0)) (\<lambda>_.
     Inr (EmitITypeInstruction_operand Opcode arg0 (arg2, IImmediate_MakeRaw (0 :: u32))
       (EmitUTypeInstruction 0x00000017 arg2 (UImmediate_MakeRaw (0 :: u32)) (push_jump l False a))))"

definition store_via_label ::
  "u32 \<Rightarrow> Register \<Rightarrow> label \<Rightarrow> Register \<Rightarrow> AssemblerBase \<Rightarrow> AssemblerBase result" where
  "store_via_label Opcode arg0 l arg2 a =
     bnd (CHECK (arg2 \<noteq> x0)) (\<lambda>_.
     Inr (EmitSTypeInstruction_operand Opcode arg0 (arg2, SImmediate_MakeRaw (0 :: u32))
       (EmitUTypeInstruction 0x00000017 arg2 (UImmediate_MakeRaw (0 :: u32)) (push_jump l False a))))"

definition Fld_label :: "FpRegister \<Rightarrow> label \<Rightarrow> Register \<Rightarrow> AssemblerBase \<Rightarrow> AssemblerBase result" where
  "Fld_label = load_via_label 0x00003007"
definition Flw_label :: "FpRegister \<Rightarrow> label \<Rightarrow> Register \<Rightarrow> AssemblerBase \<Rightarrow> AssemblerBase result" where
  "Flw_label = load_via_label 0x00002007"
definition Fsd_label :: "FpRegister \<Rightarrow> label \<Rightarrow> Register \<Rightarrow> AssemblerBase \<Rightarrow> AssemblerBase result" where
  "Fsd_label = store_via_label 0x00003027"
definition Fsw_label :: "FpRegister \<Rightarrow> label \<Rightarrow> Register \<Rightarrow> AssemblerBase \<Rightarrow> AssemblerBase result" where
  "Fsw_label = store_via_label 0x00002027"
definition Sb_label :: "Register \<Rightarrow> label \<Rightarrow> Register \<Rightarrow> AssemblerBase \<Rightarrow> AssemblerBase result" where
  "Sb_label = store_via_label 0x00000023"
definition Sh_label :: "Register \<Rightarrow> label \<Rightarrow> Register \<Rightarrow> AssemblerBase \<Rightarrow> AssemblerBase result" where
  "Sh_label = store_via_label 0x00001023"
definition Sw_label :: "Register \<Rightarrow> label \<Rightarrow> Register \<Rightarrow> AssemblerBase \<Rightarrow> AssemblerBase result" where
  "Sw_label = store_via_label 0x00002023"

section \<open>Pseudo-instructions\<close>

definition Mv :: "Register \<Rightarrow> Register \<Rightarrow> AssemblerBase \<Rightarrow> AssemblerBase" where
  "Mv dest src = Addi dest src (IImmediate_MakeRaw (0 :: u32))"

definition Seqz :: "Register \<Rightarrow> Register \<Rightarrow> AssemblerBase \<Rightarrow> AssemblerBase" where
  "Seqz arg0 arg1 = Sltiu arg0 arg1 (IImmediate_MakeRaw (1 :: u32))"

definition Snez :: "Register \<Rightarrow> Register \<Rightarrow> AssemblerBase \<Rightarrow> AssemblerBase" where
  "Snez arg0 arg1 = Sltu arg0 zero arg1"

definition Sltz :: "Register \<Rightarrow> Register \<Rightarrow> AssemblerBase \<Rightarrow> AssemblerBase" where
  "Sltz arg0 arg1 = Slt arg0 arg1 zero"

definition Sgtz :: "Register \<Rightarrow> Register \<Rightarrow> AssemblerBase \<Rightarrow> AssemblerBase" where
  "Sgtz arg0 arg1 = Slt arg0 zero arg1"

definition J :: "u32 \<Rightarrow> AssemblerBase \<Rightarrow> AssemblerBase" where
  "J arg0 = Jal zero arg0"

definition Jal_link :: "u32 \<Rightarrow> AssemblerBase \<Rightarrow> AssemblerBase" where
  "Jal_link arg0 = Jal x1 arg0"

definition Jalr_link :: "Register \<Rightarrow> AssemblerBase \<Rightarrow> AssemblerBase" where
  "Jalr_link arg0 = Jalr x1 arg0 (IImmediate_MakeRaw (0 :: u32))"

definition Not_insn :: "Register \<Rightarrow> Register \<Rightarrow> AssemblerBase \<Rightarrow> AssemblerBase" where
  "Not_insn arg0 arg1 = Xori arg0 arg1 (IImmediate_MakeRaw (- 1 :: u32))"

definition Neg :: "Register \<Rightarrow> Register \<Rightarrow> AssemblerBase \<Rightarrow> AssemblerBase" where
  "Neg arg0 arg1 = Sub arg0 zero arg1"

definition SextW :: "Register \<Rightarrow> Register \<Rightarrow> AssemblerBase \<Rightarrow> AssemblerBase" where
  "SextW arg0 arg1 = Addiw arg0 arg1 (IImmediate_MakeRaw (0 :: u32))"

definition ZextW :: "Register \<Rightarrow> Register \<Rightarrow> AssemblerBase \<Rightarrow> AssemblerBase" where
  "ZextW arg0 arg1 = AddUW arg0 arg1 zero"

definition Negw :: "Register \<Rightarrow> Register \<Rightarrow> AssemblerBase \<Rightarrow> AssemblerBase" where
  "Negw arg0 arg1 = Subw arg0 zero arg1"

section \<open>Loading a constant\<close>

text \<open>
  \<open>riscv::Assembler::Li\<close>, for a number of 32 bits. The parts of the number are \<open>split_top\<close> and
  \<open>split_bottom\<close>: the code computes them as \<open>ResolveJumps\<close> does.
\<close>

definition Li32 :: "Register \<Rightarrow> u32 \<Rightarrow> AssemblerBase \<Rightarrow> AssemblerBase result" where
  "Li32 dest imm32 a =
     (if - 2048 \<le> sint imm32 \<and> sint imm32 \<le> 2047
      then bnd (IImmediate imm32) (\<lambda>imm. Inr (Addi dest zero imm a))
      else bnd (UImmediate (split_top imm32)) (\<lambda>top.
        let a1 = Lui dest top a in
        if split_bottom imm32 \<noteq> 0
        then bnd (IImmediate (split_bottom imm32)) (\<lambda>bottom. Inr (Addi dest dest bottom a1))
        else Inr a1))"

end
