(* ===== verification/Assembler_Decoding.thy ===== *)
theory Assembler_Decoding
  imports Assembler_Macros Instruction_Roundtrip
begin

text \<open>
  The decoder reads every word that the assembler emits. An instruction is its opcode, which leaves
  the places of the operands free, and the operands; for each format the fields that the decoder
  extracts are computed once, and then the opcodes of the format are listed with what they decode to.
\<close>

section \<open>The fields of a word\<close>

lemma free_bit: "op AND m = 0 \<Longrightarrow> bit m n \<Longrightarrow> \<not> bit op n" for op m :: u32
  by (metis bit_and_iff bit_0_eq bot_apply bot_bool_def)

lemmas operand_facts = word_bits Rm_def SImmediate_MakeRaw_def CsrImmediate_MakeRaw_def
  PImmediate_MakeRaw_def Shift32Immediate_MakeRaw_def Shift64Immediate_MakeRaw_def

lemma small_bits:
  assumes "unat (w :: 'a::len word) < 2 ^ k" and "k \<le> n"
  shows "\<not> bit w n"
proof -
  have "take_bit k w = w"
    using assms(1) by (intro unsigned_word_eqI [where 'a = nat]) (simp only: unsigned_take_bit_eq take_bit_nat_eq_self)
  then show ?thesis using assms(2) by (metis bit_take_bit_iff not_less)
qed

text \<open>Registers in their three places, with the opcode in the rest of the word.\<close>

lemma R_fields:
  assumes "op AND 0x01ff8f80 = 0" and "rd < 32" and "rs1 < 32" and "rs2 < 32"
  shows "GetBits 2 5 (encode op [Rd rd, Rs1 rs1, Rs2 rs2]) = GetBits 2 5 op"
    and "GetBits 12 3 (encode op [Rd rd, Rs1 rs1, Rs2 rs2]) = GetBits 12 3 op"
    and "GetBits 25 7 (encode op [Rd rd, Rs1 rs1, Rs2 rs2]) = GetBits 25 7 op"
    and "ucast (GetBits 7 5 (encode op [Rd rd, Rs1 rs1, Rs2 rs2])) = rd"
    and "ucast (GetBits 15 5 (encode op [Rd rd, Rs1 rs1, Rs2 rs2])) = rs1"
    and "ucast (GetBits 20 5 (encode op [Rd rd, Rs1 rs1, Rs2 rs2])) = rs2"
proof -
  have free: "\<not> bit op 7" "\<not> bit op 8" "\<not> bit op 9" "\<not> bit op 10" "\<not> bit op 11"
    "\<not> bit op 15" "\<not> bit op 16" "\<not> bit op 17" "\<not> bit op 18" "\<not> bit op 19"
    "\<not> bit op 20" "\<not> bit op 21" "\<not> bit op 22" "\<not> bit op 23" "\<not> bit op 24"
    by (rule free_bit [OF assms(1)], simp)+
  note facts = operand_facts free register_high_bits [OF assms(2)] register_high_bits [OF assms(3)]
    register_high_bits [OF assms(4)]
  show "GetBits 2 5 (encode op [Rd rd, Rs1 rs1, Rs2 rs2]) = GetBits 2 5 op"
    "GetBits 12 3 (encode op [Rd rd, Rs1 rs1, Rs2 rs2]) = GetBits 12 3 op"
    "GetBits 25 7 (encode op [Rd rd, Rs1 rs1, Rs2 rs2]) = GetBits 25 7 op"
    by (rule word32_eqI, simp add: facts)+
  show "ucast (GetBits 7 5 (encode op [Rd rd, Rs1 rs1, Rs2 rs2])) = rd"
    "ucast (GetBits 15 5 (encode op [Rd rd, Rs1 rs1, Rs2 rs2])) = rs1"
    "ucast (GetBits 20 5 (encode op [Rd rd, Rs1 rs1, Rs2 rs2])) = rs2"
    by (rule word8_eqI, simp add: facts)+
qed

lemma I_fields:
  fixes v :: u32
  assumes "op AND 0xffff8f80 = 0" and "rd < 32" and "rs1 < 32"
  shows "GetBits 2 5 (encode op [Rd rd, Rs1 rs1, IImmediate_MakeRaw v]) = GetBits 2 5 op"
    and "GetBits 12 3 (encode op [Rd rd, Rs1 rs1, IImmediate_MakeRaw v]) = GetBits 12 3 op"
    and "ucast (GetBits 7 5 (encode op [Rd rd, Rs1 rs1, IImmediate_MakeRaw v])) = rd"
    and "ucast (GetBits 15 5 (encode op [Rd rd, Rs1 rs1, IImmediate_MakeRaw v])) = rs1"
    and "SignExtend 12 (ucast (GetBits 20 12 (encode op [Rd rd, Rs1 rs1, IImmediate_MakeRaw v]))) = (ucast (signed_take_bit 11 v) :: u16)"
proof -
  have free: "\<not> bit op 7" "\<not> bit op 8" "\<not> bit op 9" "\<not> bit op 10" "\<not> bit op 11" "\<not> bit op 15"
    "\<not> bit op 16" "\<not> bit op 17" "\<not> bit op 18" "\<not> bit op 19" "\<not> bit op 20" "\<not> bit op 21"
    "\<not> bit op 22" "\<not> bit op 23" "\<not> bit op 24" "\<not> bit op 25" "\<not> bit op 26" "\<not> bit op 27"
    "\<not> bit op 28" "\<not> bit op 29" "\<not> bit op 30" "\<not> bit op 31"
    by (rule free_bit [OF assms(1)], simp)+
  note facts = operand_facts free register_high_bits [OF assms(2)] register_high_bits [OF assms(3)]
  show "GetBits 2 5 (encode op [Rd rd, Rs1 rs1, IImmediate_MakeRaw v]) = GetBits 2 5 op"
    "GetBits 12 3 (encode op [Rd rd, Rs1 rs1, IImmediate_MakeRaw v]) = GetBits 12 3 op"
    by (rule word32_eqI, simp add: facts)+
  show "ucast (GetBits 7 5 (encode op [Rd rd, Rs1 rs1, IImmediate_MakeRaw v])) = rd"
    "ucast (GetBits 15 5 (encode op [Rd rd, Rs1 rs1, IImmediate_MakeRaw v])) = rs1"
    by (rule word8_eqI, simp add: facts)+
  show "SignExtend 12 (ucast (GetBits 20 12 (encode op [Rd rd, Rs1 rs1, IImmediate_MakeRaw v]))) = (ucast (signed_take_bit 11 v) :: u16)"
    by (rule word16_eqI, simp add: facts)+
qed

lemma S_fields:
  fixes v :: u32
  assumes "op AND 0xffff8f80 = 0" and "rs2 < 32" and "rs1 < 32"
  shows "GetBits 2 5 (encode op [Rs2 rs2, Rs1 rs1, SImmediate_MakeRaw v]) = GetBits 2 5 op"
    and "GetBits 12 3 (encode op [Rs2 rs2, Rs1 rs1, SImmediate_MakeRaw v]) = GetBits 12 3 op"
    and "ucast (GetBits 20 5 (encode op [Rs2 rs2, Rs1 rs1, SImmediate_MakeRaw v])) = rs2"
    and "ucast (GetBits 15 5 (encode op [Rs2 rs2, Rs1 rs1, SImmediate_MakeRaw v])) = rs1"
    and "SignExtend 12 (ucast (GetBits 7 5 (encode op [Rs2 rs2, Rs1 rs1, SImmediate_MakeRaw v])) OR push_bit 5 (ucast (GetBits 25 7 (encode op [Rs2 rs2, Rs1 rs1, SImmediate_MakeRaw v])))) = (ucast (signed_take_bit 11 v) :: u16)"
proof -
  have free: "\<not> bit op 7" "\<not> bit op 8" "\<not> bit op 9" "\<not> bit op 10" "\<not> bit op 11" "\<not> bit op 15"
    "\<not> bit op 16" "\<not> bit op 17" "\<not> bit op 18" "\<not> bit op 19" "\<not> bit op 20" "\<not> bit op 21"
    "\<not> bit op 22" "\<not> bit op 23" "\<not> bit op 24" "\<not> bit op 25" "\<not> bit op 26" "\<not> bit op 27"
    "\<not> bit op 28" "\<not> bit op 29" "\<not> bit op 30" "\<not> bit op 31"
    by (rule free_bit [OF assms(1)], simp)+
  note facts = operand_facts free register_high_bits [OF assms(2)] register_high_bits [OF assms(3)]
  show "GetBits 2 5 (encode op [Rs2 rs2, Rs1 rs1, SImmediate_MakeRaw v]) = GetBits 2 5 op"
    "GetBits 12 3 (encode op [Rs2 rs2, Rs1 rs1, SImmediate_MakeRaw v]) = GetBits 12 3 op"
    by (rule word32_eqI, simp add: facts)+
  show "ucast (GetBits 20 5 (encode op [Rs2 rs2, Rs1 rs1, SImmediate_MakeRaw v])) = rs2"
    "ucast (GetBits 15 5 (encode op [Rs2 rs2, Rs1 rs1, SImmediate_MakeRaw v])) = rs1"
    by (rule word8_eqI, simp add: facts)+
  show "SignExtend 12 (ucast (GetBits 7 5 (encode op [Rs2 rs2, Rs1 rs1, SImmediate_MakeRaw v])) OR push_bit 5 (ucast (GetBits 25 7 (encode op [Rs2 rs2, Rs1 rs1, SImmediate_MakeRaw v])))) = (ucast (signed_take_bit 11 v) :: u16)"
    by (rule word16_eqI, simp add: facts)+
qed

lemma shift64_fields:
  fixes sh :: u8
  assumes "op AND 0x03ff8f80 = 0" and "rd < 32" and "rs1 < 32" and "sh < 64"
  shows "GetBits 2 5 (encode op [Rd rd, Rs1 rs1, Shift64Immediate_MakeRaw sh]) = GetBits 2 5 op"
    and "GetBits 12 3 (encode op [Rd rd, Rs1 rs1, Shift64Immediate_MakeRaw sh]) = GetBits 12 3 op"
    and "GetBits 26 6 (encode op [Rd rd, Rs1 rs1, Shift64Immediate_MakeRaw sh]) = GetBits 26 6 op"
    and "GetBits 26 4 (encode op [Rd rd, Rs1 rs1, Shift64Immediate_MakeRaw sh]) = GetBits 26 4 op"
    and "GetBits 31 1 (encode op [Rd rd, Rs1 rs1, Shift64Immediate_MakeRaw sh]) = GetBits 31 1 op"
    and "ucast (GetBits 7 5 (encode op [Rd rd, Rs1 rs1, Shift64Immediate_MakeRaw sh])) = rd"
    and "ucast (GetBits 15 5 (encode op [Rd rd, Rs1 rs1, Shift64Immediate_MakeRaw sh])) = rs1"
    and "ucast (GetBits 20 6 (encode op [Rd rd, Rs1 rs1, Shift64Immediate_MakeRaw sh])) = sh"
proof -
  have free: "\<not> bit op 7" "\<not> bit op 8" "\<not> bit op 9" "\<not> bit op 10" "\<not> bit op 11" "\<not> bit op 15"
    "\<not> bit op 16" "\<not> bit op 17" "\<not> bit op 18" "\<not> bit op 19" "\<not> bit op 20" "\<not> bit op 21"
    "\<not> bit op 22" "\<not> bit op 23" "\<not> bit op 24" "\<not> bit op 25"
    by (rule free_bit [OF assms(1)], simp)+
  have hi: "\<not> bit sh 6" "\<not> bit sh 7" by (rule small_bits [of sh 6]; use assms(4) in \<open>simp add: word_less_nat_alt\<close>)+
  note facts = operand_facts free register_high_bits [OF assms(2)] register_high_bits [OF assms(3)]
  show "GetBits 2 5 (encode op [Rd rd, Rs1 rs1, Shift64Immediate_MakeRaw sh]) = GetBits 2 5 op"
    "GetBits 12 3 (encode op [Rd rd, Rs1 rs1, Shift64Immediate_MakeRaw sh]) = GetBits 12 3 op"
    "GetBits 26 6 (encode op [Rd rd, Rs1 rs1, Shift64Immediate_MakeRaw sh]) = GetBits 26 6 op"
    "GetBits 26 4 (encode op [Rd rd, Rs1 rs1, Shift64Immediate_MakeRaw sh]) = GetBits 26 4 op"
    "GetBits 31 1 (encode op [Rd rd, Rs1 rs1, Shift64Immediate_MakeRaw sh]) = GetBits 31 1 op"
    by (rule word32_eqI, simp add: facts hi)+
  show "ucast (GetBits 7 5 (encode op [Rd rd, Rs1 rs1, Shift64Immediate_MakeRaw sh])) = rd"
    "ucast (GetBits 15 5 (encode op [Rd rd, Rs1 rs1, Shift64Immediate_MakeRaw sh])) = rs1"
    "ucast (GetBits 20 6 (encode op [Rd rd, Rs1 rs1, Shift64Immediate_MakeRaw sh])) = sh"
    by (rule word8_eqI, simp add: facts hi)+
qed

lemma shift32_fields:
  fixes sh :: u8
  assumes "op AND 0x01ff8f80 = 0" and "rd < 32" and "rs1 < 32" and "sh < 32"
  shows "GetBits 2 5 (encode op [Rd rd, Rs1 rs1, Shift32Immediate_MakeRaw sh]) = GetBits 2 5 op"
    and "GetBits 12 3 (encode op [Rd rd, Rs1 rs1, Shift32Immediate_MakeRaw sh]) = GetBits 12 3 op"
    and "GetBits 25 7 (encode op [Rd rd, Rs1 rs1, Shift32Immediate_MakeRaw sh]) = GetBits 25 7 op"
    and "GetBits 25 5 (encode op [Rd rd, Rs1 rs1, Shift32Immediate_MakeRaw sh]) = GetBits 25 5 op"
    and "GetBits 31 1 (encode op [Rd rd, Rs1 rs1, Shift32Immediate_MakeRaw sh]) = GetBits 31 1 op"
    and "ucast (GetBits 7 5 (encode op [Rd rd, Rs1 rs1, Shift32Immediate_MakeRaw sh])) = rd"
    and "ucast (GetBits 15 5 (encode op [Rd rd, Rs1 rs1, Shift32Immediate_MakeRaw sh])) = rs1"
    and "ucast (GetBits 20 5 (encode op [Rd rd, Rs1 rs1, Shift32Immediate_MakeRaw sh])) = sh"
proof -
  have free: "\<not> bit op 7" "\<not> bit op 8" "\<not> bit op 9" "\<not> bit op 10" "\<not> bit op 11" "\<not> bit op 15"
    "\<not> bit op 16" "\<not> bit op 17" "\<not> bit op 18" "\<not> bit op 19" "\<not> bit op 20" "\<not> bit op 21"
    "\<not> bit op 22" "\<not> bit op 23" "\<not> bit op 24"
    by (rule free_bit [OF assms(1)], simp)+
  note facts = operand_facts free register_high_bits [OF assms(2)] register_high_bits [OF assms(3)] register_high_bits [OF assms(4)]
  show "GetBits 2 5 (encode op [Rd rd, Rs1 rs1, Shift32Immediate_MakeRaw sh]) = GetBits 2 5 op"
    "GetBits 12 3 (encode op [Rd rd, Rs1 rs1, Shift32Immediate_MakeRaw sh]) = GetBits 12 3 op"
    "GetBits 25 7 (encode op [Rd rd, Rs1 rs1, Shift32Immediate_MakeRaw sh]) = GetBits 25 7 op"
    "GetBits 25 5 (encode op [Rd rd, Rs1 rs1, Shift32Immediate_MakeRaw sh]) = GetBits 25 5 op"
    "GetBits 31 1 (encode op [Rd rd, Rs1 rs1, Shift32Immediate_MakeRaw sh]) = GetBits 31 1 op"
    by (rule word32_eqI, simp add: facts)+
  show "ucast (GetBits 7 5 (encode op [Rd rd, Rs1 rs1, Shift32Immediate_MakeRaw sh])) = rd"
    "ucast (GetBits 15 5 (encode op [Rd rd, Rs1 rs1, Shift32Immediate_MakeRaw sh])) = rs1"
    "ucast (GetBits 20 5 (encode op [Rd rd, Rs1 rs1, Shift32Immediate_MakeRaw sh])) = sh"
    by (rule word8_eqI, simp add: facts)+
qed

lemma rounding_fields:
  fixes r :: u32
  assumes "op AND 0x000fff80 = 0" and "rd < 32" and "rs1 < 32" and "r < 8"
  shows "GetBits 2 5 (encode op [Rd rd, Rs1 rs1, Rm r]) = GetBits 2 5 op"
    and "GetBits 12 3 (encode op [Rd rd, Rs1 rs1, Rm r]) = r"
    and "GetBits 20 5 (encode op [Rd rd, Rs1 rs1, Rm r]) = GetBits 20 5 op"
    and "GetBits 25 2 (encode op [Rd rd, Rs1 rs1, Rm r]) = GetBits 25 2 op"
    and "GetBits 27 2 (encode op [Rd rd, Rs1 rs1, Rm r]) = GetBits 27 2 op"
    and "GetBits 29 3 (encode op [Rd rd, Rs1 rs1, Rm r]) = GetBits 29 3 op"
    and "ucast (GetBits 7 5 (encode op [Rd rd, Rs1 rs1, Rm r])) = rd"
    and "ucast (GetBits 15 5 (encode op [Rd rd, Rs1 rs1, Rm r])) = rs1"
proof -
  have free: "\<not> bit op 7" "\<not> bit op 8" "\<not> bit op 9" "\<not> bit op 10" "\<not> bit op 11" "\<not> bit op 12"
    "\<not> bit op 13" "\<not> bit op 14" "\<not> bit op 15" "\<not> bit op 16" "\<not> bit op 17" "\<not> bit op 18"
    "\<not> bit op 19"
    by (rule free_bit [OF assms(1)], simp)+
  have hi: "\<not> bit r n" if "3 \<le> n" for n by (rule small_bits [of r 3 n]; use assms(4) that in \<open>simp add: word_less_nat_alt\<close>)
  note facts = operand_facts free register_high_bits [OF assms(2)] register_high_bits [OF assms(3)]
  show "GetBits 2 5 (encode op [Rd rd, Rs1 rs1, Rm r]) = GetBits 2 5 op"
    "GetBits 12 3 (encode op [Rd rd, Rs1 rs1, Rm r]) = r"
    "GetBits 20 5 (encode op [Rd rd, Rs1 rs1, Rm r]) = GetBits 20 5 op"
    "GetBits 25 2 (encode op [Rd rd, Rs1 rs1, Rm r]) = GetBits 25 2 op"
    "GetBits 27 2 (encode op [Rd rd, Rs1 rs1, Rm r]) = GetBits 27 2 op"
    "GetBits 29 3 (encode op [Rd rd, Rs1 rs1, Rm r]) = GetBits 29 3 op"
    by (rule word32_eqI, simp add: facts hi)+
  show "ucast (GetBits 7 5 (encode op [Rd rd, Rs1 rs1, Rm r])) = rd"
    "ucast (GetBits 15 5 (encode op [Rd rd, Rs1 rs1, Rm r])) = rs1"
    by (rule word8_eqI, simp add: facts hi)+
qed

lemma csr_fields:
  fixes c :: u32
  assumes "op AND 0xffff8f80 = 0" and "rd < 32" and "rs1 < 32" and "c < 4096"
  shows "GetBits 2 5 (encode op [Rd rd, push_bit 20 c, Rs1 rs1]) = GetBits 2 5 op"
    and "GetBits 12 2 (encode op [Rd rd, push_bit 20 c, Rs1 rs1]) = GetBits 12 2 op"
    and "GetBits 14 1 (encode op [Rd rd, push_bit 20 c, Rs1 rs1]) = GetBits 14 1 op"
    and "ucast (GetBits 7 5 (encode op [Rd rd, push_bit 20 c, Rs1 rs1])) = rd"
    and "ucast (GetBits 15 5 (encode op [Rd rd, push_bit 20 c, Rs1 rs1])) = rs1"
    and "ucast (GetBits 20 12 (encode op [Rd rd, push_bit 20 c, Rs1 rs1])) = (ucast c :: u16)"
proof -
  have free: "\<not> bit op 7" "\<not> bit op 8" "\<not> bit op 9" "\<not> bit op 10" "\<not> bit op 11" "\<not> bit op 15"
    "\<not> bit op 16" "\<not> bit op 17" "\<not> bit op 18" "\<not> bit op 19" "\<not> bit op 20" "\<not> bit op 21"
    "\<not> bit op 22" "\<not> bit op 23" "\<not> bit op 24" "\<not> bit op 25" "\<not> bit op 26" "\<not> bit op 27"
    "\<not> bit op 28" "\<not> bit op 29" "\<not> bit op 30" "\<not> bit op 31"
    by (rule free_bit [OF assms(1)], simp)+
  have hi: "\<not> bit c n" if "12 \<le> n" for n by (rule small_bits [of c 12 n]; use assms(4) that in \<open>simp add: word_less_nat_alt\<close>)
  note facts = operand_facts free register_high_bits [OF assms(2)] register_high_bits [OF assms(3)]
  show "GetBits 2 5 (encode op [Rd rd, push_bit 20 c, Rs1 rs1]) = GetBits 2 5 op"
    "GetBits 12 2 (encode op [Rd rd, push_bit 20 c, Rs1 rs1]) = GetBits 12 2 op"
    "GetBits 14 1 (encode op [Rd rd, push_bit 20 c, Rs1 rs1]) = GetBits 14 1 op"
    by (rule word32_eqI, simp add: facts hi)+
  show "ucast (GetBits 7 5 (encode op [Rd rd, push_bit 20 c, Rs1 rs1])) = rd"
    "ucast (GetBits 15 5 (encode op [Rd rd, push_bit 20 c, Rs1 rs1])) = rs1"
    by (rule word8_eqI, simp add: facts hi)+
  show "ucast (GetBits 20 12 (encode op [Rd rd, push_bit 20 c, Rs1 rs1])) = (ucast c :: u16)"
    by (rule word16_eqI, simp add: facts hi)+
qed

lemma csr_imm_fields:
  fixes c v :: u32
  assumes "op AND 0xffff8f80 = 0" and "rd < 32" and "v < 32" and "c < 4096"
  shows "GetBits 2 5 (encode op [Rd rd, push_bit 20 c, CsrImmediate_MakeRaw v]) = GetBits 2 5 op"
    and "GetBits 12 2 (encode op [Rd rd, push_bit 20 c, CsrImmediate_MakeRaw v]) = GetBits 12 2 op"
    and "GetBits 14 1 (encode op [Rd rd, push_bit 20 c, CsrImmediate_MakeRaw v]) = GetBits 14 1 op"
    and "ucast (GetBits 7 5 (encode op [Rd rd, push_bit 20 c, CsrImmediate_MakeRaw v])) = rd"
    and "ucast (GetBits 15 5 (encode op [Rd rd, push_bit 20 c, CsrImmediate_MakeRaw v])) = (ucast v :: u8)"
    and "ucast (GetBits 20 12 (encode op [Rd rd, push_bit 20 c, CsrImmediate_MakeRaw v])) = (ucast c :: u16)"
proof -
  have free: "\<not> bit op 7" "\<not> bit op 8" "\<not> bit op 9" "\<not> bit op 10" "\<not> bit op 11" "\<not> bit op 15"
    "\<not> bit op 16" "\<not> bit op 17" "\<not> bit op 18" "\<not> bit op 19" "\<not> bit op 20" "\<not> bit op 21"
    "\<not> bit op 22" "\<not> bit op 23" "\<not> bit op 24" "\<not> bit op 25" "\<not> bit op 26" "\<not> bit op 27"
    "\<not> bit op 28" "\<not> bit op 29" "\<not> bit op 30" "\<not> bit op 31"
    by (rule free_bit [OF assms(1)], simp)+
  have hi: "\<not> bit c n" if "12 \<le> n" for n by (rule small_bits [of c 12 n]; use assms(4) that in \<open>simp add: word_less_nat_alt\<close>)
  have hi2: "\<not> bit v n" if "5 \<le> n" for n by (rule small_bits [of v 5 n]; use assms(3) that in \<open>simp add: word_less_nat_alt\<close>)
  note facts = operand_facts free register_high_bits [OF assms(2)]
  show "GetBits 2 5 (encode op [Rd rd, push_bit 20 c, CsrImmediate_MakeRaw v]) = GetBits 2 5 op"
    "GetBits 12 2 (encode op [Rd rd, push_bit 20 c, CsrImmediate_MakeRaw v]) = GetBits 12 2 op"
    "GetBits 14 1 (encode op [Rd rd, push_bit 20 c, CsrImmediate_MakeRaw v]) = GetBits 14 1 op"
    by (rule word32_eqI, simp add: facts hi hi2)+
  show "ucast (GetBits 7 5 (encode op [Rd rd, push_bit 20 c, CsrImmediate_MakeRaw v])) = rd"
    "ucast (GetBits 15 5 (encode op [Rd rd, push_bit 20 c, CsrImmediate_MakeRaw v])) = (ucast v :: u8)"
    by (rule word8_eqI, simp add: facts hi hi2)+
  show "ucast (GetBits 20 12 (encode op [Rd rd, push_bit 20 c, CsrImmediate_MakeRaw v])) = (ucast c :: u16)"
    by (rule word16_eqI, simp add: facts hi hi2)+
qed

lemma U_fields:
  fixes v :: u32
  assumes "rd < 32" and "take_bit 12 v = 0"
  shows "GetBits 2 5 (encode 0x37 [Rd rd, UImmediate_MakeRaw v]) = 0b01101"
    and "ucast (GetBits 7 5 (encode 0x37 [Rd rd, UImmediate_MakeRaw v])) = rd"
    and "push_bit 12 (GetBits 12 20 (encode 0x37 [Rd rd, UImmediate_MakeRaw v])) = v"
proof -
  have lo: "n < 12 \<Longrightarrow> \<not> bit v n" for n using low_bits [OF assms(2)] .
  have "even v" using lo [of 0] by (simp add: bit_0)
  note facts = operand_facts lo \<open>even v\<close> register_high_bits [OF assms(1)]
  show "GetBits 2 5 (encode 0x37 [Rd rd, UImmediate_MakeRaw v]) = 0b01101"
    "push_bit 12 (GetBits 12 20 (encode 0x37 [Rd rd, UImmediate_MakeRaw v])) = v"
    by (rule word32_eqI, simp add: facts)+
  show "ucast (GetBits 7 5 (encode 0x37 [Rd rd, UImmediate_MakeRaw v])) = rd"
    by (rule word8_eqI, simp add: facts)+
qed

lemma P_fields:
  fixes v :: u32
  assumes "op AND 0xfe0f8f80 = 0" and "rs1 < 32" and "take_bit 5 v = 0"
  shows "GetBits 2 5 (encode op [Rs1 rs1, PImmediate_MakeRaw v]) = GetBits 2 5 op"
    and "GetBits 12 3 (encode op [Rs1 rs1, PImmediate_MakeRaw v]) = GetBits 12 3 op"
    and "ucast (GetBits 7 5 (encode op [Rs1 rs1, PImmediate_MakeRaw v])) = (0 :: u8)"
    and "ucast (GetBits 15 5 (encode op [Rs1 rs1, PImmediate_MakeRaw v])) = rs1"
    and "SignExtend 12 (ucast (GetBits 20 12 (encode op [Rs1 rs1, PImmediate_MakeRaw v]))) = (ucast (signed_take_bit 11 v OR GetBits 20 5 op) :: u16)"
proof -
  have free: "\<not> bit op 7" "\<not> bit op 8" "\<not> bit op 9" "\<not> bit op 10" "\<not> bit op 11" "\<not> bit op 15"
    "\<not> bit op 16" "\<not> bit op 17" "\<not> bit op 18" "\<not> bit op 19" "\<not> bit op 25" "\<not> bit op 26"
    "\<not> bit op 27" "\<not> bit op 28" "\<not> bit op 29" "\<not> bit op 30" "\<not> bit op 31"
    by (rule free_bit [OF assms(1)], simp)+
  have hi: "n < 5 \<Longrightarrow> \<not> bit v n" for n using low_bits [OF assms(3)] .
  have hi2: "even v" using hi [of 0] by (simp add: bit_0)
  note facts = operand_facts free register_high_bits [OF assms(2)]
  show "GetBits 2 5 (encode op [Rs1 rs1, PImmediate_MakeRaw v]) = GetBits 2 5 op"
    "GetBits 12 3 (encode op [Rs1 rs1, PImmediate_MakeRaw v]) = GetBits 12 3 op"
    by (rule word32_eqI, simp add: facts hi hi2)+
  show "ucast (GetBits 7 5 (encode op [Rs1 rs1, PImmediate_MakeRaw v])) = (0 :: u8)"
    "ucast (GetBits 15 5 (encode op [Rs1 rs1, PImmediate_MakeRaw v])) = rs1"
    by (rule word8_eqI, simp add: facts hi hi2)+
  show "SignExtend 12 (ucast (GetBits 20 12 (encode op [Rs1 rs1, PImmediate_MakeRaw v]))) = (ucast (signed_take_bit 11 v OR GetBits 20 5 op) :: u16)"
    by (rule word16_eqI, simp add: facts hi hi2)+
qed

lemma unary_fields:
  assumes "op AND 0x000f8f80 = 0" and "rd < 32" and "rs1 < 32"
  shows "GetBits 2 5 (encode op [Rd rd, Rs1 rs1]) = GetBits 2 5 op"
    and "GetBits 12 3 (encode op [Rd rd, Rs1 rs1]) = GetBits 12 3 op"
    and "GetBits 20 6 (encode op [Rd rd, Rs1 rs1]) = GetBits 20 6 op"
    and "GetBits 20 12 (encode op [Rd rd, Rs1 rs1]) = GetBits 20 12 op"
    and "GetBits 26 6 (encode op [Rd rd, Rs1 rs1]) = GetBits 26 6 op"
    and "GetBits 26 4 (encode op [Rd rd, Rs1 rs1]) = GetBits 26 4 op"
    and "GetBits 31 1 (encode op [Rd rd, Rs1 rs1]) = GetBits 31 1 op"
    and "ucast (GetBits 7 5 (encode op [Rd rd, Rs1 rs1])) = rd"
    and "ucast (GetBits 15 5 (encode op [Rd rd, Rs1 rs1])) = rs1"
proof -
  have free: "\<not> bit op 7" "\<not> bit op 8" "\<not> bit op 9" "\<not> bit op 10" "\<not> bit op 11"
    "\<not> bit op 15" "\<not> bit op 16" "\<not> bit op 17" "\<not> bit op 18" "\<not> bit op 19"
    by (rule free_bit [OF assms(1)], simp)+
  note facts = operand_facts free register_high_bits [OF assms(2)] register_high_bits [OF assms(3)]
  show "GetBits 2 5 (encode op [Rd rd, Rs1 rs1]) = GetBits 2 5 op"
    "GetBits 12 3 (encode op [Rd rd, Rs1 rs1]) = GetBits 12 3 op"
    "GetBits 20 6 (encode op [Rd rd, Rs1 rs1]) = GetBits 20 6 op"
    "GetBits 20 12 (encode op [Rd rd, Rs1 rs1]) = GetBits 20 12 op"
    "GetBits 26 6 (encode op [Rd rd, Rs1 rs1]) = GetBits 26 6 op"
    "GetBits 26 4 (encode op [Rd rd, Rs1 rs1]) = GetBits 26 4 op"
    "GetBits 31 1 (encode op [Rd rd, Rs1 rs1]) = GetBits 31 1 op"
    by (rule word32_eqI, simp add: facts)+
  show "ucast (GetBits 7 5 (encode op [Rd rd, Rs1 rs1])) = rd"
    "ucast (GetBits 15 5 (encode op [Rd rd, Rs1 rs1])) = rs1"
    by (rule word8_eqI, simp add: facts)+
qed

end
