(* ===== verification/Assembler_Roundtrip.thy ===== *)
theory Assembler_Roundtrip
  imports Assembler_Decoding
begin

text \<open>
  The instructions of the assembler, listed by format with the opcodes of the instruction set manual,
  and what the decoder makes of them: exactly one call, of the method for the format, with the
  enumerator of the instruction and the operands that were assembled.
\<close>

text \<open>
  \<open>assembles emit c\<close>: wherever it is called, \<open>emit\<close> appends the four bytes of one word, a 32-bit
  instruction for which the decoder calls \<open>c\<close> and nothing else.
\<close>

definition assembles :: "(AssemblerBase \<Rightarrow> AssemblerBase) \<Rightarrow> consumer_call \<Rightarrow> bool" where
  "assembles emit c \<longleftrightarrow> (\<forall>a. code_size a < 2 ^ 32 \<longrightarrow>
     (\<exists>w. emit a = append_code (bytes_of 4 w) a \<and> w AND 3 = 3 \<and> DecodeBaseInstruction w = [c]))"

lemma low_two_bits: "w AND 3 = 3 \<longleftrightarrow> bit w 0 \<and> bit w 1" for w :: u32
proof
  assume "w AND 3 = 3"
  then have "bit (w AND 3) 0" "bit (w AND 3) 1" by simp_all
  then show "bit w 0 \<and> bit w 1" by (simp add: bit_and_iff)
next
  have three: "(3 :: u32) = mask 2" by (simp add: mask_numeral)
  assume "bit w 0 \<and> bit w 1"
  then show "w AND 3 = 3" unfolding three by (intro bit_word_eqI) (auto simp: bit_simps less_2_cases_iff)
qed

lemma encode_low_bits: "op AND 3 = 3 \<Longrightarrow> encode op args AND 3 = 3"
  by (simp add: low_two_bits bit_encode)

lemma assemblesI:
  assumes "op AND 3 = 3" and "DecodeBaseInstruction (encode op args) = [c]"
  shows "assembles (EmitInstruction op args) c"
  using assms encode_low_bits [OF assms(1)] by (auto simp: assembles_def EmitInstruction_append)

section \<open>Register-register instructions\<close>

definition OP_code :: "(u16 \<Rightarrow> 't) \<Rightarrow> BaseOpcode \<Rightarrow> u32 \<Rightarrow> 't \<Rightarrow> bool" where
  "OP_code of_bits b op k \<longleftrightarrow>
     op AND 0x01ff8f80 = 0 \<and> op AND 3 = 3 \<and> BaseOpcode_of (GetBits 2 5 op) = b \<and>
     (let bits = ucast (GetBits 12 3 op OR push_bit 3 (GetBits 25 7 op)) :: u16
      in OpSingleInputOpcode_of bits \<noteq> OpSingleInputOpcode.kZexth \<and> of_bits bits = k)"

lemma OP_decodes:
  assumes "op AND 0x01ff8f80 = 0" and "rd < 32" and "rs1 < 32" and "rs2 < 32" and "op AND 3 = 3"
  shows "OP_code OpOpcode_of BaseOpcode.kOp op k \<Longrightarrow> assembles (EmitRTypeInstruction op rd rs1 rs2)
      (Op \<lparr>OpArgsTemplate.opcode = k, OpArgsTemplate.dst = rd, OpArgsTemplate.src1 = rs1, OpArgsTemplate.src2 = rs2\<rparr>)"
    and "OP_code Op32Opcode_of BaseOpcode.kOp32 op k32 \<Longrightarrow> assembles (EmitRTypeInstruction op rd rs1 rs2)
      (Op_32 \<lparr>OpArgsTemplate.opcode = k32, OpArgsTemplate.dst = rd, OpArgsTemplate.src1 = rs1, OpArgsTemplate.src2 = rs2\<rparr>)"
  unfolding EmitRTypeInstruction_def OP_code_def Let_def
  by (rule assemblesI [OF assms(5)], simp add: DecodeBaseInstruction_def DecodeOp_def R_fields [OF assms(1-4)])+

definition OP_instructions ::
  "((Register \<Rightarrow> Register \<Rightarrow> Register \<Rightarrow> AssemblerBase \<Rightarrow> AssemblerBase) \<times> u32 \<times> OpOpcode) list" where
  "OP_instructions =
    [(Add, 0x33, OpOpcode.kAdd), (And, 0x7033, OpOpcode.kAnd), (Div, 0x2004033, OpOpcode.kDiv),
     (Divu, 0x2005033, OpOpcode.kDivu), (Mul, 0x2000033, OpOpcode.kMul),
     (Mulh, 0x2001033, OpOpcode.kMulh), (Mulhsu, 0x2002033, OpOpcode.kMulhsu),
     (Mulhu, 0x2003033, OpOpcode.kMulhu), (Or, 0x6033, OpOpcode.kOr),
     (Rem, 0x2006033, OpOpcode.kRem), (Remu, 0x2007033, OpOpcode.kRemu),
     (Ror, 0x60005033, OpOpcode.kRor), (Sh3add, 0x20006033, OpOpcode.kSh3add),
     (Sll, 0x1033, OpOpcode.kSll), (Slt, 0x2033, OpOpcode.kSlt), (Sltu, 0x3033, OpOpcode.kSltu),
     (Sra, 0x40005033, OpOpcode.kSra), (Srl, 0x5033, OpOpcode.kSrl),
     (Sub, 0x40000033, OpOpcode.kSub), (Xor, 0x4033, OpOpcode.kXor)]"

definition OP32_instructions ::
  "((Register \<Rightarrow> Register \<Rightarrow> Register \<Rightarrow> AssemblerBase \<Rightarrow> AssemblerBase) \<times> u32 \<times> Op32Opcode) list" where
  "OP32_instructions =
    [(AddUW, 0x800003b, Op32Opcode.kAdduw), (Addw, 0x3b, Op32Opcode.kAddw),
     (Divuw, 0x200503b, Op32Opcode.kDivuw), (Divw, 0x200403b, Op32Opcode.kDivw),
     (Mulw, 0x200003b, Op32Opcode.kMulw), (Remuw, 0x200703b, Op32Opcode.kRemuw),
     (Remw, 0x200603b, Op32Opcode.kRemw), (Rorw, 0x6000503b, Op32Opcode.kRorw),
     (Sllw, 0x103b, Op32Opcode.kSllw), (Sraw, 0x4000503b, Op32Opcode.kSraw),
     (Srlw, 0x503b, Op32Opcode.kSrlw), (Subw, 0x4000003b, Op32Opcode.kSubw)]"

lemma OP_instructions_encoded:
  assumes "(emit, op, k) \<in> set OP_instructions"
  shows "emit = EmitRTypeInstruction op" and "OP_code OpOpcode_of BaseOpcode.kOp op k"
proof -
  show "emit = EmitRTypeInstruction op" using assms by (auto simp: OP_instructions_def fun_eq_iff Add_def And_def Div_def Divu_def Mul_def Mulh_def Mulhsu_def Mulhu_def Or_def Rem_def Remu_def Ror_def Sh3add_def Sll_def Slt_def Sltu_def Sra_def Srl_def Sub_def Xor_def)
  have "list_all (\<lambda>(op, k). OP_code OpOpcode_of BaseOpcode.kOp op k) (map snd OP_instructions)" by code_simp
  then show "OP_code OpOpcode_of BaseOpcode.kOp op k" using assms by (auto simp: list_all_iff)
qed

lemma OP32_instructions_encoded:
  assumes "(emit, op, k) \<in> set OP32_instructions"
  shows "emit = EmitRTypeInstruction op" and "OP_code Op32Opcode_of BaseOpcode.kOp32 op k"
proof -
  show "emit = EmitRTypeInstruction op" using assms by (auto simp: OP32_instructions_def fun_eq_iff AddUW_def Addw_def Divuw_def Divw_def Mulw_def Remuw_def Remw_def Rorw_def Sllw_def Sraw_def Srlw_def Subw_def)
  have "list_all (\<lambda>(op, k). OP_code Op32Opcode_of BaseOpcode.kOp32 op k) (map snd OP32_instructions)" by code_simp
  then show "OP_code Op32Opcode_of BaseOpcode.kOp32 op k" using assms by (auto simp: list_all_iff)
qed

section \<open>Register-immediate instructions\<close>

definition IMM_code :: "(u8 \<Rightarrow> 't) \<Rightarrow> BaseOpcode \<Rightarrow> u32 \<Rightarrow> 't \<Rightarrow> bool" where
  "IMM_code of_bits b op k \<longleftrightarrow>
     op AND 0xffff8f80 = 0 \<and> op AND 3 = 3 \<and> BaseOpcode_of (GetBits 2 5 op) = b \<and>
     GetBits 12 3 op \<noteq> 0b001 \<and> GetBits 12 3 op \<noteq> 0b101 \<and> of_bits (ucast (GetBits 12 3 op)) = k"

lemma IMM_decodes:
  fixes v :: u32
  assumes "op AND 0xffff8f80 = 0" and "rd < 32" and "rs1 < 32" and "op AND 3 = 3" and "IImmediate_AccetableValue v"
  shows "IMM_code OpImmOpcode_of BaseOpcode.kOpImm op k \<Longrightarrow>
      assembles (EmitITypeInstruction op rd rs1 (IImmediate_MakeRaw v))
        (OpImm \<lparr>OpImmArgsTemplate.opcode = k, OpImmArgsTemplate.dst = rd, OpImmArgsTemplate.src = rs1,
           OpImmArgsTemplate.imm = ucast v\<rparr>)"
    and "IMM_code OpImm32Opcode_of BaseOpcode.kOpImm32 op k32 \<Longrightarrow>
      assembles (EmitITypeInstruction op rd rs1 (IImmediate_MakeRaw v))
        (OpImm_32 \<lparr>OpImmArgsTemplate.opcode = k32, OpImmArgsTemplate.dst = rd, OpImmArgsTemplate.src = rs1,
           OpImmArgsTemplate.imm = ucast v\<rparr>)"
  using assms(5) unfolding EmitITypeInstruction_def IMM_code_def I_accepts_iff
  by (intro assemblesI [OF assms(4)];
      simp add: DecodeBaseInstruction_def DecodeOpImm_def I_fields [OF assms(1-3)])+

definition IMM_instructions ::
  "((Register \<Rightarrow> Register \<Rightarrow> u32 \<Rightarrow> AssemblerBase \<Rightarrow> AssemblerBase) \<times> u32 \<times> OpImmOpcode) list" where
  "IMM_instructions =
    [(Addi, 0x13, OpImmOpcode.kAddi), (Andi, 0x7013, OpImmOpcode.kAndi),
     (Ori, 0x6013, OpImmOpcode.kOri), (Slti, 0x2013, OpImmOpcode.kSlti),
     (Sltiu, 0x3013, OpImmOpcode.kSltiu), (Xori, 0x4013, OpImmOpcode.kXori)]"

definition IMM32_instructions ::
  "((Register \<Rightarrow> Register \<Rightarrow> u32 \<Rightarrow> AssemblerBase \<Rightarrow> AssemblerBase) \<times> u32 \<times> OpImm32Opcode) list" where
  "IMM32_instructions = [(Addiw, 0x1b, OpImm32Opcode.kAddiw)]"

lemma IMM_instructions_encoded:
  assumes "(emit, op, k) \<in> set IMM_instructions"
  shows "emit = EmitITypeInstruction op" and "IMM_code OpImmOpcode_of BaseOpcode.kOpImm op k"
proof -
  show "emit = EmitITypeInstruction op" using assms by (auto simp: IMM_instructions_def fun_eq_iff Addi_def Andi_def Ori_def Slti_def Sltiu_def Xori_def)
  have "list_all (\<lambda>(op, k). IMM_code OpImmOpcode_of BaseOpcode.kOpImm op k) (map snd IMM_instructions)" by code_simp
  then show "IMM_code OpImmOpcode_of BaseOpcode.kOpImm op k" using assms by (auto simp: list_all_iff)
qed

lemma IMM32_instructions_encoded:
  assumes "(emit, op, k) \<in> set IMM32_instructions"
  shows "emit = EmitITypeInstruction op" and "IMM_code OpImm32Opcode_of BaseOpcode.kOpImm32 op k"
proof -
  show "emit = EmitITypeInstruction op" using assms by (auto simp: IMM32_instructions_def fun_eq_iff Addiw_def)
  have "list_all (\<lambda>(op, k). IMM_code OpImm32Opcode_of BaseOpcode.kOpImm32 op k) (map snd IMM32_instructions)" by code_simp
  then show "IMM_code OpImm32Opcode_of BaseOpcode.kOpImm32 op k" using assms by (auto simp: list_all_iff)
qed

text \<open>Shifts and bit-manipulation with a shift amount; the width of the amount is six bits or five.\<close>

definition SHIFT_code :: "(u16 \<Rightarrow> 't) \<Rightarrow> u32 \<Rightarrow> 't \<Rightarrow> bool" where
  "SHIFT_code of_bits op k \<longleftrightarrow>
     op AND 0x03ff8f80 = 0 \<and> op AND 3 = 3 \<and> BaseOpcode_of (GetBits 2 5 op) = BaseOpcode.kOpImm \<and>
     GetBits 12 3 op \<in> {0b001, 0b101} \<and> GetBits 31 1 op + GetBits 26 4 op = 0 \<and>
     of_bits (ucast (GetBits 12 3 op OR push_bit 3 (GetBits 26 6 op))) = k"

definition SHIFT32_code :: "(u16 \<Rightarrow> 't) \<Rightarrow> u32 \<Rightarrow> 't \<Rightarrow> bool" where
  "SHIFT32_code of_bits op k \<longleftrightarrow>
     op AND 0x01ff8f80 = 0 \<and> op AND 3 = 3 \<and> BaseOpcode_of (GetBits 2 5 op) = BaseOpcode.kOpImm32 \<and>
     GetBits 12 3 op \<in> {0b001, 0b101} \<and> GetBits 31 1 op + GetBits 25 5 op = 0 \<and>
     of_bits (ucast (GetBits 12 3 op OR push_bit 3 (GetBits 25 7 op))) = k"

definition BITMANIP_code :: "u32 \<Rightarrow> BitmanipImmOpcode \<Rightarrow> bool" where
  "BITMANIP_code op k \<longleftrightarrow>
     op AND 0x03ff8f80 = 0 \<and> op AND 3 = 3 \<and> BaseOpcode_of (GetBits 2 5 op) = BaseOpcode.kOpImm \<and>
     GetBits 12 3 op \<in> {0b001, 0b101} \<and> GetBits 31 1 op + GetBits 26 4 op \<noteq> 0 \<and>
     (let bits = ucast (GetBits 12 3 op OR push_bit 3 (GetBits 26 6 op))
      in bitmanip_has_shamt bits \<and> BitmanipImmOpcode_of bits = k)"

definition BITMANIP32_code :: "u32 \<Rightarrow> BitmanipImm32Opcode \<Rightarrow> bool" where
  "BITMANIP32_code op k \<longleftrightarrow>
     op AND 0x01ff8f80 = 0 \<and> op AND 3 = 3 \<and> BaseOpcode_of (GetBits 2 5 op) = BaseOpcode.kOpImm32 \<and>
     GetBits 12 3 op \<in> {0b001, 0b101} \<and> GetBits 31 1 op + GetBits 25 5 op \<noteq> 0 \<and>
     (let bits = ucast (GetBits 12 3 op OR push_bit 3 (GetBits 25 7 op))
      in bitmanip_has_shamt bits \<and> BitmanipImm32Opcode_of bits = k)"

lemma SHIFT_decodes:
  fixes sh :: u8
  assumes "op AND 0x03ff8f80 = 0" and "rd < 32" and "rs1 < 32" and "sh < 64" and "op AND 3 = 3"
  shows "SHIFT_code (\<lambda>v. ShiftImmOpcode_of (ucast v)) op k \<Longrightarrow>
      assembles (EmitITypeInstruction op rd rs1 (Shift64Immediate_MakeRaw sh))
        (OpImm_shift \<lparr>ShiftImmArgsTemplate.opcode = k, ShiftImmArgsTemplate.dst = rd,
           ShiftImmArgsTemplate.src = rs1, ShiftImmArgsTemplate.imm = sh\<rparr>)"
    and "BITMANIP_code op kb \<Longrightarrow> assembles (EmitITypeInstruction op rd rs1 (Shift64Immediate_MakeRaw sh))
        (OpImm_bitmanip \<lparr>BitmanipImmArgsTemplate.opcode = kb, BitmanipImmArgsTemplate.dst = rd,
           BitmanipImmArgsTemplate.src = rs1, BitmanipImmArgsTemplate.shamt = sh\<rparr>)"
  unfolding EmitITypeInstruction_def SHIFT_code_def BITMANIP_code_def Let_def
  by (rule assemblesI [OF assms(5)], elim conjE insertE emptyE;
      simp add: DecodeBaseInstruction_def DecodeOpImm_def shift64_fields [OF assms(1-4)] Let_def del: One_nat_def)+

lemma SHIFT32_decodes:
  fixes sh :: u8
  assumes "op AND 0x01ff8f80 = 0" and "rd < 32" and "rs1 < 32" and "sh < 32" and "op AND 3 = 3"
  shows "SHIFT32_code ShiftImm32Opcode_of op k \<Longrightarrow>
      assembles (EmitITypeInstruction op rd rs1 (Shift32Immediate_MakeRaw sh))
        (OpImm_shift_32 \<lparr>ShiftImmArgsTemplate.opcode = k, ShiftImmArgsTemplate.dst = rd,
           ShiftImmArgsTemplate.src = rs1, ShiftImmArgsTemplate.imm = sh\<rparr>)"
    and "BITMANIP32_code op kb \<Longrightarrow> assembles (EmitITypeInstruction op rd rs1 (Shift32Immediate_MakeRaw sh))
        (OpImm_bitmanip_32 \<lparr>BitmanipImmArgsTemplate.opcode = kb, BitmanipImmArgsTemplate.dst = rd,
           BitmanipImmArgsTemplate.src = rs1, BitmanipImmArgsTemplate.shamt = sh\<rparr>)"
  unfolding EmitITypeInstruction_def SHIFT32_code_def BITMANIP32_code_def Let_def
  by (rule assemblesI [OF assms(5)], elim conjE insertE emptyE;
      simp add: DecodeBaseInstruction_def DecodeOpImm_def shift32_fields [OF assms(1-4)] Let_def del: One_nat_def)+

definition SHIFT_instructions ::
  "((Register \<Rightarrow> Register \<Rightarrow> u32 \<Rightarrow> AssemblerBase \<Rightarrow> AssemblerBase) \<times> u32 \<times> ShiftImmOpcode) list" where
  "SHIFT_instructions =
    [(Slli, 0x1013, ShiftImmOpcode.kSlli), (Srai, 0x40005013, ShiftImmOpcode.kSrai),
     (Srli, 0x5013, ShiftImmOpcode.kSrli)]"

definition SHIFT32_instructions ::
  "((Register \<Rightarrow> Register \<Rightarrow> u32 \<Rightarrow> AssemblerBase \<Rightarrow> AssemblerBase) \<times> u32 \<times> ShiftImm32Opcode) list" where
  "SHIFT32_instructions =
    [(Slliw, 0x101b, ShiftImm32Opcode.kSlliw), (Sraiw, 0x4000501b, ShiftImm32Opcode.kSraiw),
     (Srliw, 0x501b, ShiftImm32Opcode.kSrliw)]"

definition BITMANIP_instructions ::
  "((Register \<Rightarrow> Register \<Rightarrow> u32 \<Rightarrow> AssemblerBase \<Rightarrow> AssemblerBase) \<times> u32 \<times> BitmanipImmOpcode) list" where
  "BITMANIP_instructions =
    [(Bexti, 0x48005013, BitmanipImmOpcode.kBexti), (Rori, 0x60005013, BitmanipImmOpcode.kRori)]"

definition BITMANIP32_instructions ::
  "((Register \<Rightarrow> Register \<Rightarrow> u32 \<Rightarrow> AssemblerBase \<Rightarrow> AssemblerBase) \<times> u32 \<times> BitmanipImm32Opcode) list" where
  "BITMANIP32_instructions = [(Roriw, 0x6000501b, BitmanipImm32Opcode.kRoriw)]"

lemma SHIFT_instructions_encoded:
  assumes "(emit, op, k) \<in> set SHIFT_instructions"
  shows "emit = EmitITypeInstruction op" and "SHIFT_code (\<lambda>v. ShiftImmOpcode_of (ucast v)) op k"
proof -
  show "emit = EmitITypeInstruction op" using assms by (auto simp: SHIFT_instructions_def fun_eq_iff Slli_def Srai_def Srli_def)
  have "list_all (\<lambda>(op, k). SHIFT_code (\<lambda>v. ShiftImmOpcode_of (ucast v)) op k) (map snd SHIFT_instructions)" by code_simp
  then show "SHIFT_code (\<lambda>v. ShiftImmOpcode_of (ucast v)) op k" using assms by (auto simp: list_all_iff)
qed

lemma SHIFT32_instructions_encoded:
  assumes "(emit, op, k) \<in> set SHIFT32_instructions"
  shows "emit = EmitITypeInstruction op" and "SHIFT32_code ShiftImm32Opcode_of op k"
proof -
  show "emit = EmitITypeInstruction op" using assms by (auto simp: SHIFT32_instructions_def fun_eq_iff Slliw_def Sraiw_def Srliw_def)
  have "list_all (\<lambda>(op, k). SHIFT32_code ShiftImm32Opcode_of op k) (map snd SHIFT32_instructions)" by code_simp
  then show "SHIFT32_code ShiftImm32Opcode_of op k" using assms by (auto simp: list_all_iff)
qed

lemma BITMANIP_instructions_encoded:
  assumes "(emit, op, k) \<in> set BITMANIP_instructions"
  shows "emit = EmitITypeInstruction op" and "BITMANIP_code op k"
proof -
  show "emit = EmitITypeInstruction op" using assms by (auto simp: BITMANIP_instructions_def fun_eq_iff Bexti_def Rori_def)
  have "list_all (\<lambda>(op, k). BITMANIP_code op k) (map snd BITMANIP_instructions)" by code_simp
  then show "BITMANIP_code op k" using assms by (auto simp: list_all_iff)
qed

lemma BITMANIP32_instructions_encoded:
  assumes "(emit, op, k) \<in> set BITMANIP32_instructions"
  shows "emit = EmitITypeInstruction op" and "BITMANIP32_code op k"
proof -
  show "emit = EmitITypeInstruction op" using assms by (auto simp: BITMANIP32_instructions_def fun_eq_iff Roriw_def)
  have "list_all (\<lambda>(op, k). BITMANIP32_code op k) (map snd BITMANIP32_instructions)" by code_simp
  then show "BITMANIP32_code op k" using assms by (auto simp: list_all_iff)
qed

definition UNARY_code :: "u32 \<Rightarrow> BitmanipImmOpcode \<Rightarrow> bool" where
  "UNARY_code op k \<longleftrightarrow>
     op AND 0x000f8f80 = 0 \<and> op AND 3 = 3 \<and> BaseOpcode_of (GetBits 2 5 op) = BaseOpcode.kOpImm \<and>
     GetBits 12 3 op \<in> {0b001, 0b101} \<and> GetBits 31 1 op + GetBits 26 4 op \<noteq> 0 \<and>
     \<not> bitmanip_has_shamt (ucast (GetBits 12 3 op OR push_bit 3 (GetBits 26 6 op))) \<and>
     BitmanipImmOpcode_of (ucast (GetBits 12 3 op OR push_bit 3 (GetBits 20 12 op))) = k"

lemma UNARY_decodes:
  assumes "op AND 0x000f8f80 = 0" and "rd < 32" and "rs1 < 32" and "op AND 3 = 3"
  shows "UNARY_code op k \<Longrightarrow> assembles (EmitRTypeInstruction_unary op rd rs1)
        (OpImm_bitmanip \<lparr>BitmanipImmArgsTemplate.opcode = k, BitmanipImmArgsTemplate.dst = rd,
           BitmanipImmArgsTemplate.src = rs1, BitmanipImmArgsTemplate.shamt = 0\<rparr>)"
  unfolding EmitRTypeInstruction_unary_def UNARY_code_def
  by (rule assemblesI [OF assms(4)], elim conjE insertE emptyE;
      simp add: DecodeBaseInstruction_def DecodeOpImm_def unary_fields [OF assms(1-3)] Let_def del: One_nat_def)

definition UNARY_instructions ::
  "((Register \<Rightarrow> Register \<Rightarrow> AssemblerBase \<Rightarrow> AssemblerBase) \<times> u32 \<times> BitmanipImmOpcode) list" where
  "UNARY_instructions = [(SextB, 0x60401013, BitmanipImmOpcode.kSextb), (SextH, 0x60501013, BitmanipImmOpcode.kSexth)]"

lemma UNARY_instructions_encoded:
  assumes "(emit, op, k) \<in> set UNARY_instructions"
  shows "emit = EmitRTypeInstruction_unary op" and "UNARY_code op k"
proof -
  show "emit = EmitRTypeInstruction_unary op" using assms by (auto simp: UNARY_instructions_def fun_eq_iff SextB_def SextH_def)
  have "list_all (\<lambda>(op, k). UNARY_code op k) (map snd UNARY_instructions)" by code_simp
  then show "UNARY_code op k" using assms by (auto simp: list_all_iff)
qed

section \<open>Loads and stores\<close>

text \<open>The floating-point operand size that a width stands for.\<close>

definition float_width :: "u32 \<Rightarrow> FloatOperandType option" where
  "float_width w = (case kLoadStoreWidthToOperandType ! unat w of float_size ty \<Rightarrow> Some ty | _ \<Rightarrow> None)"

definition MEMORY_code :: "(u32 \<Rightarrow> 't) \<Rightarrow> BaseOpcode \<Rightarrow> u32 \<Rightarrow> 't \<Rightarrow> bool" where
  "MEMORY_code of_width b op k \<longleftrightarrow>
     op AND 0xffff8f80 = 0 \<and> op AND 3 = 3 \<and> BaseOpcode_of (GetBits 2 5 op) = b \<and> of_width (GetBits 12 3 op) = k"

lemma LOAD_decodes:
  fixes v :: u32
  assumes "op AND 0xffff8f80 = 0" and "rd < 32" and "rs1 < 32" and "op AND 3 = 3" and "IImmediate_AccetableValue v"
  shows "MEMORY_code (\<lambda>w. LoadOperandType_of (ucast w)) BaseOpcode.kLoad op k \<Longrightarrow>
      assembles (EmitITypeInstruction_operand op rd (rs1, IImmediate_MakeRaw v))
        (Load \<lparr>LoadArgsTemplate.operand_type = k, LoadArgsTemplate.dst = rd, LoadArgsTemplate.src = rs1,
           LoadArgsTemplate.offset = ucast v\<rparr>)"
    and "MEMORY_code float_width BaseOpcode.kLoadFp op (Some kf) \<Longrightarrow>
      assembles (EmitITypeInstruction_operand op rd (rs1, IImmediate_MakeRaw v))
        (Load_fp \<lparr>LoadArgsTemplate.operand_type = kf, LoadArgsTemplate.dst = rd, LoadArgsTemplate.src = rs1,
           LoadArgsTemplate.offset = ucast v\<rparr>)"
  using assms(5) unfolding EmitITypeInstruction_operand_def MEMORY_code_def I_accepts_iff fst_conv snd_conv
  by (intro assemblesI [OF assms(4)];
      simp add: DecodeBaseInstruction_def DecodeLoad_def DecodeLoadFp_def DecodeLoadArgs_def float_width_def
        I_fields [OF assms(1-3)] split: load_store_width.splits)+

lemma STORE_decodes:
  fixes v :: u32
  assumes "op AND 0xffff8f80 = 0" and "rs2 < 32" and "rs1 < 32" and "op AND 3 = 3" and "SImmediate_AccetableValue v"
  shows "MEMORY_code (\<lambda>w. MemoryDataOperandType_of (ucast w)) BaseOpcode.kStore op k \<Longrightarrow>
      assembles (EmitSTypeInstruction_operand op rs2 (rs1, SImmediate_MakeRaw v))
        (Store \<lparr>StoreArgsTemplate.operand_type = k, StoreArgsTemplate.src = rs1,
           StoreArgsTemplate.offset = ucast v, StoreArgsTemplate.data = rs2\<rparr>)"
    and "MEMORY_code float_width BaseOpcode.kStoreFp op (Some kf) \<Longrightarrow>
      assembles (EmitSTypeInstruction_operand op rs2 (rs1, SImmediate_MakeRaw v))
        (Store_fp \<lparr>StoreArgsTemplate.operand_type = kf, StoreArgsTemplate.src = rs1,
           StoreArgsTemplate.offset = ucast v, StoreArgsTemplate.data = rs2\<rparr>)"
  using assms(5)
  unfolding EmitSTypeInstruction_operand_def MEMORY_code_def SImmediate_AccetableValue_def I_accepts_iff fst_conv snd_conv
  by (intro assemblesI [OF assms(4)];
      simp add: DecodeBaseInstruction_def DecodeStore_def DecodeStoreFp_def DecodeStoreArgs_def float_width_def
        S_fields [OF assms(1-3)] Let_def split: load_store_width.splits)+

definition LOAD_instructions ::
  "((Register \<Rightarrow> Operand \<Rightarrow> AssemblerBase \<Rightarrow> AssemblerBase) \<times> u32 \<times> LoadOperandType) list" where
  "LOAD_instructions =
    [(Lb, 0x3, LoadOperandType.k8bitSigned), (Lbu, 0x4003, LoadOperandType.k8bitUnsigned),
     (Lh, 0x1003, LoadOperandType.k16bitSigned), (Lhu, 0x5003, LoadOperandType.k16bitUnsigned),
     (Lw, 0x2003, LoadOperandType.k32bitSigned), (Lwu, 0x6003, LoadOperandType.k32bitUnsigned),
     (Ld, 0x3003, LoadOperandType.k64bit)]"

definition LOAD_FP_instructions ::
  "((Register \<Rightarrow> Operand \<Rightarrow> AssemblerBase \<Rightarrow> AssemblerBase) \<times> u32 \<times> FloatOperandType) list" where
  "LOAD_FP_instructions =
    [(Flw, 0x2007, FloatOperandType.kFloat), (Fld, 0x3007, FloatOperandType.kDouble)]"

definition STORE_instructions ::
  "((Register \<Rightarrow> Operand \<Rightarrow> AssemblerBase \<Rightarrow> AssemblerBase) \<times> u32 \<times> MemoryDataOperandType) list" where
  "STORE_instructions =
    [(Sb, 0x23, MemoryDataOperandType.k8bit), (Sh, 0x1023, MemoryDataOperandType.k16bit),
     (Sw, 0x2023, MemoryDataOperandType.k32bit), (Sd, 0x3023, MemoryDataOperandType.k64bit)]"

definition STORE_FP_instructions ::
  "((Register \<Rightarrow> Operand \<Rightarrow> AssemblerBase \<Rightarrow> AssemblerBase) \<times> u32 \<times> FloatOperandType) list" where
  "STORE_FP_instructions =
    [(Fsw, 0x2027, FloatOperandType.kFloat), (Fsd, 0x3027, FloatOperandType.kDouble)]"

lemma LOAD_instructions_encoded:
  assumes "(emit, op, k) \<in> set LOAD_instructions"
  shows "emit = EmitITypeInstruction_operand op" and "MEMORY_code (\<lambda>w. LoadOperandType_of (ucast w)) BaseOpcode.kLoad op k"
proof -
  show "emit = EmitITypeInstruction_operand op" using assms by (auto simp: LOAD_instructions_def fun_eq_iff Lb_def Lbu_def Lh_def Lhu_def Lw_def Lwu_def Ld_def)
  have "list_all (\<lambda>(op, k). MEMORY_code (\<lambda>w. LoadOperandType_of (ucast w)) BaseOpcode.kLoad op k) (map snd LOAD_instructions)" by code_simp
  then show "MEMORY_code (\<lambda>w. LoadOperandType_of (ucast w)) BaseOpcode.kLoad op k" using assms by (auto simp: list_all_iff)
qed

lemma STORE_instructions_encoded:
  assumes "(emit, op, k) \<in> set STORE_instructions"
  shows "emit = EmitSTypeInstruction_operand op" and "MEMORY_code (\<lambda>w. MemoryDataOperandType_of (ucast w)) BaseOpcode.kStore op k"
proof -
  show "emit = EmitSTypeInstruction_operand op" using assms by (auto simp: STORE_instructions_def fun_eq_iff Sb_def Sh_def Sw_def Sd_def)
  have "list_all (\<lambda>(op, k). MEMORY_code (\<lambda>w. MemoryDataOperandType_of (ucast w)) BaseOpcode.kStore op k) (map snd STORE_instructions)" by code_simp
  then show "MEMORY_code (\<lambda>w. MemoryDataOperandType_of (ucast w)) BaseOpcode.kStore op k" using assms by (auto simp: list_all_iff)
qed

lemma LOAD_FP_instructions_encoded:
  assumes "(emit, op, k) \<in> set LOAD_FP_instructions"
  shows "emit = EmitITypeInstruction_operand op" and "MEMORY_code float_width BaseOpcode.kLoadFp op (Some k)"
proof -
  show "emit = EmitITypeInstruction_operand op" using assms by (auto simp: LOAD_FP_instructions_def fun_eq_iff Flw_def Fld_def)
  have "list_all (\<lambda>(op, k). MEMORY_code float_width BaseOpcode.kLoadFp op (Some k)) (map snd LOAD_FP_instructions)" by code_simp
  then show "MEMORY_code float_width BaseOpcode.kLoadFp op (Some k)" using assms by (auto simp: list_all_iff)
qed

lemma STORE_FP_instructions_encoded:
  assumes "(emit, op, k) \<in> set STORE_FP_instructions"
  shows "emit = EmitSTypeInstruction_operand op" and "MEMORY_code float_width BaseOpcode.kStoreFp op (Some k)"
proof -
  show "emit = EmitSTypeInstruction_operand op" using assms by (auto simp: STORE_FP_instructions_def fun_eq_iff Fsw_def Fsd_def)
  have "list_all (\<lambda>(op, k). MEMORY_code float_width BaseOpcode.kStoreFp op (Some k)) (map snd STORE_FP_instructions)" by code_simp
  then show "MEMORY_code float_width BaseOpcode.kStoreFp op (Some k)" using assms by (auto simp: list_all_iff)
qed

section \<open>Branches and jumps\<close>

definition BRANCH_code :: "u32 \<Rightarrow> BranchOpcode \<Rightarrow> bool" where
  "BRANCH_code op k \<longleftrightarrow> op = branch_base (GetBits 12 3 op) \<and> op AND 3 = 3 \<and> GetBits 12 3 op < 8 \<and>
     BranchOpcode_of (ucast (GetBits 12 3 op)) = k"

lemma BRANCH_decodes:
  fixes v :: u32
  assumes "BRANCH_code op k" and "rs1 < 32" and "rs2 < 32" and "BImmediate_AccetableValue v"
  shows "assembles (EmitBTypeInstruction op rs1 rs2 (BImmediate_MakeRaw v))
    (CompareAndBranch \<lparr>BranchArgs.opcode = k, BranchArgs.src1 = rs1, BranchArgs.src2 = rs2, BranchArgs.offset = ucast v\<rparr>)"
proof -
  have op: "op AND 3 = 3" "op = branch_base (GetBits 12 3 op)" "GetBits 12 3 op < 8"
    "BranchOpcode_of (ucast (GetBits 12 3 op)) = k" using assms(1) by (simp_all add: BRANCH_code_def)
  show ?thesis
    unfolding EmitBTypeInstruction_def
    using decode_branch [OF assms(2-4) op(3)] op(2,4)
    by (intro assemblesI [OF op(1)]) (simp add: branch_word_def)
qed

lemma JUMP_decodes:
  fixes v :: u32
  assumes "rd < 32"
  shows "JImmediate_AccetableValue v \<Longrightarrow> assembles (Jal rd (JImmediate_MakeRaw v))
      (JumpAndLink \<lparr>JumpAndLinkArgs.dst = rd, JumpAndLinkArgs.offset = v, JumpAndLinkArgs.insn_len = 4\<rparr>)"
    and "rs1 < 32 \<Longrightarrow> IImmediate_AccetableValue v \<Longrightarrow> assembles (Jalr rd rs1 (IImmediate_MakeRaw v))
      (JumpAndLinkRegister \<lparr>JumpAndLinkRegisterArgs.dst = rd, JumpAndLinkRegisterArgs.base = rs1,
         JumpAndLinkRegisterArgs.offset = ucast v, JumpAndLinkRegisterArgs.insn_len = 4\<rparr>)"
    and "take_bit 12 v = 0 \<Longrightarrow> assembles (Assembler.Lui rd (UImmediate_MakeRaw v))
      (consumer_call.Lui \<lparr>UpperImmArgs.dst = rd, UpperImmArgs.imm = v\<rparr>)"
    and "take_bit 12 v = 0 \<Longrightarrow> assembles (Assembler.Auipc rd (UImmediate_MakeRaw v))
      (consumer_call.Auipc \<lparr>UpperImmArgs.dst = rd, UpperImmArgs.imm = v\<rparr>)"
proof -
  have field: "signed_drop_bit 4 (push_bit 4 x) = SignExtend 12 x" for x :: u16
    by (rule word16_eqI) (simp add: bit_simps SignExtend_def)
  have base: "BaseOpcode_of (GetBits 2 5 0x67) = BaseOpcode.kJalr" "GetBits 12 3 0x67 = 0" by code_simp+
  show "assembles (Jal rd (JImmediate_MakeRaw v))
      (JumpAndLink \<lparr>JumpAndLinkArgs.dst = rd, JumpAndLinkArgs.offset = v, JumpAndLinkArgs.insn_len = 4\<rparr>)"
    if "JImmediate_AccetableValue v"
    unfolding Jal_def EmitJTypeInstruction_def
    by (rule assemblesI) (simp_all add: decode_jal [OF assms that, unfolded jal_word_def])
  show "assembles (Jalr rd rs1 (IImmediate_MakeRaw v))
      (JumpAndLinkRegister \<lparr>JumpAndLinkRegisterArgs.dst = rd, JumpAndLinkRegisterArgs.base = rs1,
         JumpAndLinkRegisterArgs.offset = ucast v, JumpAndLinkRegisterArgs.insn_len = 4\<rparr>)"
    if "rs1 < 32" "IImmediate_AccetableValue v"
    using that(2) I_fields [OF _ assms that(1), of "0x67" v] unfolding Jalr_def EmitITypeInstruction_def I_accepts_iff
    by (intro assemblesI) (simp_all add: DecodeBaseInstruction_def DecodeJumpAndLinkRegister_def base field Let_def)
  show "assembles (Assembler.Lui rd (UImmediate_MakeRaw v)) (consumer_call.Lui \<lparr>UpperImmArgs.dst = rd, UpperImmArgs.imm = v\<rparr>)"
    if "take_bit 12 v = 0"
    unfolding Assembler.Lui_def EmitUTypeInstruction_def
    by (rule assemblesI) (simp_all add: DecodeBaseInstruction_def DecodeLui_def U_fields [OF assms that] base_opcodes)
  show "assembles (Assembler.Auipc rd (UImmediate_MakeRaw v)) (consumer_call.Auipc \<lparr>UpperImmArgs.dst = rd, UpperImmArgs.imm = v\<rparr>)"
    if "take_bit 12 v = 0"
    unfolding Assembler.Auipc_def EmitUTypeInstruction_def
    by (rule assemblesI) (simp_all add: decode_auipc [OF assms that, unfolded auipc_word_def])
qed

definition BRANCH_instructions ::
  "((Register \<Rightarrow> Register \<Rightarrow> u32 \<Rightarrow> AssemblerBase \<Rightarrow> AssemblerBase) \<times> u32 \<times> BranchOpcode) list" where
  "BRANCH_instructions =
    [(Beq_imm, 0x63, BranchOpcode.kBeq), (Bge_imm, 0x5063, BranchOpcode.kBge),
     (Bgeu_imm, 0x7063, BranchOpcode.kBgeu), (Blt_imm, 0x4063, BranchOpcode.kBlt),
     (Bltu_imm, 0x6063, BranchOpcode.kBltu), (Bne_imm, 0x1063, BranchOpcode.kBne)]"

lemma BRANCH_instructions_encoded:
  assumes "(emit, op, k) \<in> set BRANCH_instructions"
  shows "emit = EmitBTypeInstruction op" and "BRANCH_code op k"
proof -
  show "emit = EmitBTypeInstruction op" using assms by (auto simp: BRANCH_instructions_def fun_eq_iff Beq_imm_def Bge_imm_def Bgeu_imm_def Blt_imm_def Bltu_imm_def Bne_imm_def)
  have "list_all (\<lambda>(op, k). BRANCH_code op k) (map snd BRANCH_instructions)" by code_simp
  then show "BRANCH_code op k" using assms by (auto simp: list_all_iff)
qed

section \<open>Control registers\<close>

definition CSR_code :: "(u8 \<Rightarrow> 't) \<Rightarrow> bool \<Rightarrow> u32 \<Rightarrow> 't \<Rightarrow> bool" where
  "CSR_code of_bits immediate op k \<longleftrightarrow>
     op AND 0xffff8f80 = 0 \<and> op AND 3 = 3 \<and> BaseOpcode_of (GetBits 2 5 op) = BaseOpcode.kSystem \<and>
     GetBits 12 2 op \<noteq> 0 \<and> GetBit 14 op = immediate \<and> of_bits (ucast (GetBits 12 2 op)) = k"

lemma Csr_val_bound: "Csr_val c < 4096"
  by (cases c) simp_all

lemma CSR_decodes:
  assumes "op AND 0xffff8f80 = 0" and "rd < 32" and "rs1 < 32" and "op AND 3 = 3"
  shows "CSR_code CsrOpcode_of False op k \<Longrightarrow> assembles (EmitITypeInstruction_csr op rd c rs1)
      (consumer_call.Csr \<lparr>CsrArgs.opcode = k, CsrArgs.dst = rd, CsrArgs.src = rs1, CsrArgs.csr = ucast (Csr_val c)\<rparr>)"
  unfolding EmitITypeInstruction_csr_def CSR_code_def GetBit_def
  by (rule assemblesI [OF assms(4)])
    (simp add: DecodeBaseInstruction_def DecodeSystem_def GetBit_def csr_fields [OF assms(1-3) Csr_val_bound]
      Let_def del: One_nat_def)

lemma CSR_imm_decodes:
  fixes v :: u32
  assumes "op AND 0xffff8f80 = 0" and "rd < 32" and "v < 32" and "op AND 3 = 3"
  shows "CSR_code CsrImmOpcode_of True op k \<Longrightarrow>
    assembles (EmitITypeInstruction_csr_imm op rd c (CsrImmediate_MakeRaw v))
      (Csr_imm \<lparr>CsrImmArgs.opcode = k, CsrImmArgs.dst = rd, CsrImmArgs.imm = ucast v,
         CsrImmArgs.csr = ucast (Csr_val c)\<rparr>)"
  unfolding EmitITypeInstruction_csr_imm_def CSR_code_def GetBit_def
  by (rule assemblesI [OF assms(4)])
    (simp add: DecodeBaseInstruction_def DecodeSystem_def GetBit_def csr_imm_fields [OF assms(1-3) Csr_val_bound]
      Let_def del: One_nat_def)

definition CSR_instructions ::
  "((Register \<Rightarrow> Csr \<Rightarrow> Register \<Rightarrow> AssemblerBase \<Rightarrow> AssemblerBase) \<times> u32 \<times> CsrOpcode) list" where
  "CSR_instructions =
    [(Csrrw, 0x1073, CsrOpcode.kCsrrw), (Csrrs, 0x2073, CsrOpcode.kCsrrs),
     (Csrrc, 0x3073, CsrOpcode.kCsrrc)]"

definition CSR_imm_instructions ::
  "((Register \<Rightarrow> Csr \<Rightarrow> u32 \<Rightarrow> AssemblerBase \<Rightarrow> AssemblerBase) \<times> u32 \<times> CsrImmOpcode) list" where
  "CSR_imm_instructions =
    [(Csrrw_imm, 0x5073, CsrImmOpcode.kCsrrwi), (Csrrwi, 0x5073, CsrImmOpcode.kCsrrwi),
     (Csrrs_imm, 0x6073, CsrImmOpcode.kCsrrsi), (Csrrsi, 0x6073, CsrImmOpcode.kCsrrsi),
     (Csrrc_imm, 0x7073, CsrImmOpcode.kCsrrci), (Csrrci, 0x7073, CsrImmOpcode.kCsrrci)]"

lemma CSR_instructions_encoded:
  assumes "(emit, op, k) \<in> set CSR_instructions"
  shows "emit = EmitITypeInstruction_csr op" and "CSR_code CsrOpcode_of False op k"
proof -
  show "emit = EmitITypeInstruction_csr op" using assms by (auto simp: CSR_instructions_def fun_eq_iff Csrrw_def Csrrs_def Csrrc_def)
  have "list_all (\<lambda>(op, k). CSR_code CsrOpcode_of False op k) (map snd CSR_instructions)" by code_simp
  then show "CSR_code CsrOpcode_of False op k" using assms by (auto simp: list_all_iff)
qed

lemma CSR_imm_instructions_encoded:
  assumes "(emit, op, k) \<in> set CSR_imm_instructions"
  shows "emit = EmitITypeInstruction_csr_imm op" and "CSR_code CsrImmOpcode_of True op k"
proof -
  show "emit = EmitITypeInstruction_csr_imm op" using assms by (auto simp: CSR_imm_instructions_def fun_eq_iff Csrrw_imm_def Csrrwi_def Csrrs_imm_def Csrrsi_def Csrrc_imm_def Csrrci_def)
  have "list_all (\<lambda>(op, k). CSR_code CsrImmOpcode_of True op k) (map snd CSR_imm_instructions)" by code_simp
  then show "CSR_code CsrImmOpcode_of True op k" using assms by (auto simp: list_all_iff)
qed

section \<open>Floating-point conversions\<close>

definition FP_code :: "u32 \<Rightarrow> u32 \<Rightarrow> u32 \<Rightarrow> bool" where
  "FP_code sel high op \<longleftrightarrow>
     op AND 0x000fff80 = 0 \<and> op AND 3 = 3 \<and> BaseOpcode_of (GetBits 2 5 op) = BaseOpcode.kOpFp \<and>
     GetBits 29 3 op = sel \<and> GetBits 27 2 op = high"

definition FCVT_to_integer_code :: "u32 \<Rightarrow> FcvtOperandType \<times> FloatOperandType \<Rightarrow> bool" where
  "FCVT_to_integer_code op k \<longleftrightarrow> FP_code 0b110 0b00 op \<and>
     FcvtOperandType_of (field8 20 5 op) = fst k \<and> FloatOperandType_of (field8 25 2 op) = snd k"

definition FCVT_from_integer_code :: "u32 \<Rightarrow> FloatOperandType \<times> FcvtOperandType \<Rightarrow> bool" where
  "FCVT_from_integer_code op k \<longleftrightarrow> FP_code 0b110 0b10 op \<and>
     FloatOperandType_of (field8 25 2 op) = fst k \<and> FcvtOperandType_of (field8 20 5 op) = snd k"

definition FCVT_between_floats_code :: "u32 \<Rightarrow> FloatOperandType \<times> FloatOperandType \<Rightarrow> bool" where
  "FCVT_between_floats_code op k \<longleftrightarrow> FP_code 0b010 0b00 op \<and>
     field8 25 2 op \<noteq> field8 20 5 op \<and> field8 20 5 op \<le> 0b11 \<and>
     FloatOperandType_of (field8 25 2 op) = fst k \<and> FloatOperandType_of (field8 20 5 op) = snd k"

definition FSQRT_code :: "u32 \<Rightarrow> FloatOperandType \<Rightarrow> bool" where
  "FSQRT_code op k \<longleftrightarrow> FP_code 0b010 0b11 op \<and>
     OpFpSingleInputOpcode_of (push_bit 5 0b11 + field8 20 5 op) = OpFpSingleInputOpcode.kFSqrt \<and>
     FloatOperandType_of (field8 25 2 op) = k"

lemma Rounding_val_bound: "Rounding_val r < 8"
  by (cases r) simp_all

lemma FP_decodes:
  assumes "op AND 0x000fff80 = 0" and "rd < 32" and "rs1 < 32" and "op AND 3 = 3"
  shows "FCVT_to_integer_code op (d, t) \<Longrightarrow> assembles (EmitRTypeInstruction_rounding op rd rs1 r)
      (Fcvt_float_to_integer \<lparr>FcvtFloatToIntegerArgs.dst_type = d, FcvtFloatToIntegerArgs.src_type = t,
         FcvtFloatToIntegerArgs.dst = rd, FcvtFloatToIntegerArgs.src = rs1,
         FcvtFloatToIntegerArgs.rm = ucast (Rounding_val r)\<rparr>)"
    and "FCVT_from_integer_code op (t, d) \<Longrightarrow> assembles (EmitRTypeInstruction_rounding op rd rs1 r)
      (Fcvt_integer_to_float \<lparr>FcvtIntegerToFloatArgs.dst_type = t, FcvtIntegerToFloatArgs.src_type = d,
         FcvtIntegerToFloatArgs.dst = rd, FcvtIntegerToFloatArgs.src = rs1,
         FcvtIntegerToFloatArgs.rm = ucast (Rounding_val r)\<rparr>)"
    and "FCVT_between_floats_code op (t, t') \<Longrightarrow> assembles (EmitRTypeInstruction_rounding op rd rs1 r)
      (Fcvt_float_to_float \<lparr>FcvtFloatToFloatArgs.dst_type = t, FcvtFloatToFloatArgs.src_type = t',
         FcvtFloatToFloatArgs.dst = rd, FcvtFloatToFloatArgs.src = rs1,
         FcvtFloatToFloatArgs.rm = ucast (Rounding_val r)\<rparr>)"
    and "FSQRT_code op t \<Longrightarrow> assembles (EmitRTypeInstruction_rounding op rd rs1 r)
      (OpFpSingleInput \<lparr>OpFpSingleInputArgs.opcode = OpFpSingleInputOpcode.kFSqrt,
         OpFpSingleInputArgs.operand_type = t, OpFpSingleInputArgs.dst = rd, OpFpSingleInputArgs.src = rs1,
         OpFpSingleInputArgs.rm = ucast (Rounding_val r)\<rparr>)"
  unfolding EmitRTypeInstruction_rounding_def FCVT_to_integer_code_def FCVT_from_integer_code_def
    FCVT_between_floats_code_def FSQRT_code_def FP_code_def
  by (rule assemblesI [OF assms(4)],
      simp add: DecodeBaseInstruction_def DecodeOpFp_def DecodeOpFp_fcvt_integer_def DecodeOpFp_single_input_def
        rounding_fields [OF assms(1-3) Rounding_val_bound] Let_def not_less)+

definition FCVT_to_integer ::
  "((Register \<Rightarrow> Register \<Rightarrow> Rounding \<Rightarrow> AssemblerBase \<Rightarrow> AssemblerBase) \<times> u32 \<times> FcvtOperandType \<times> FloatOperandType) list" where
  "FCVT_to_integer =
    [(FcvtWS, 0xc0000053, FcvtOperandType.k32bitSigned, FloatOperandType.kFloat),
     (FcvtWD, 0xc2000053, FcvtOperandType.k32bitSigned, FloatOperandType.kDouble),
     (FcvtWuS, 0xc0100053, FcvtOperandType.k32bitUnsigned, FloatOperandType.kFloat),
     (FcvtWuD, 0xc2100053, FcvtOperandType.k32bitUnsigned, FloatOperandType.kDouble),
     (FcvtLS, 0xc0200053, FcvtOperandType.k64bitSigned, FloatOperandType.kFloat),
     (FcvtLD, 0xc2200053, FcvtOperandType.k64bitSigned, FloatOperandType.kDouble),
     (FcvtLuS, 0xc0300053, FcvtOperandType.k64bitUnsigned, FloatOperandType.kFloat),
     (FcvtLuD, 0xc2300053, FcvtOperandType.k64bitUnsigned, FloatOperandType.kDouble)]"

definition FCVT_from_integer ::
  "((Register \<Rightarrow> Register \<Rightarrow> Rounding \<Rightarrow> AssemblerBase \<Rightarrow> AssemblerBase) \<times> u32 \<times> FloatOperandType \<times> FcvtOperandType) list" where
  "FCVT_from_integer =
    [(FcvtSW, 0xd0000053, FloatOperandType.kFloat, FcvtOperandType.k32bitSigned),
     (FcvtDW, 0xd2000053, FloatOperandType.kDouble, FcvtOperandType.k32bitSigned),
     (FcvtSWu, 0xd0100053, FloatOperandType.kFloat, FcvtOperandType.k32bitUnsigned),
     (FcvtDWu, 0xd2100053, FloatOperandType.kDouble, FcvtOperandType.k32bitUnsigned),
     (FcvtSL, 0xd0200053, FloatOperandType.kFloat, FcvtOperandType.k64bitSigned),
     (FcvtDL, 0xd2200053, FloatOperandType.kDouble, FcvtOperandType.k64bitSigned),
     (FcvtSLu, 0xd0300053, FloatOperandType.kFloat, FcvtOperandType.k64bitUnsigned),
     (FcvtDLu, 0xd2300053, FloatOperandType.kDouble, FcvtOperandType.k64bitUnsigned)]"

definition FCVT_between_floats ::
  "((Register \<Rightarrow> Register \<Rightarrow> Rounding \<Rightarrow> AssemblerBase \<Rightarrow> AssemblerBase) \<times> u32 \<times> FloatOperandType \<times> FloatOperandType) list" where
  "FCVT_between_floats =
    [(FcvtSD, 0x40100053, FloatOperandType.kFloat, FloatOperandType.kDouble),
     (FcvtDS, 0x42000053, FloatOperandType.kDouble, FloatOperandType.kFloat)]"

definition FSQRT_instructions ::
  "((Register \<Rightarrow> Register \<Rightarrow> Rounding \<Rightarrow> AssemblerBase \<Rightarrow> AssemblerBase) \<times> u32 \<times> FloatOperandType) list" where
  "FSQRT_instructions =
    [(FsqrtS, 0x58000053, FloatOperandType.kFloat), (FsqrtD, 0x5a000053, FloatOperandType.kDouble)]"

lemma FCVT_to_integer_encoded:
  assumes "(emit, op, k) \<in> set FCVT_to_integer"
  shows "emit = EmitRTypeInstruction_rounding op" and "FCVT_to_integer_code op k"
proof -
  show "emit = EmitRTypeInstruction_rounding op" using assms by (auto simp: FCVT_to_integer_def fun_eq_iff FcvtWS_def FcvtWD_def FcvtWuS_def FcvtWuD_def FcvtLS_def FcvtLD_def FcvtLuS_def FcvtLuD_def)
  have "list_all (\<lambda>(op, k). FCVT_to_integer_code op k) (map snd FCVT_to_integer)" by code_simp
  then show "FCVT_to_integer_code op k" using assms by (auto simp: list_all_iff)
qed

lemma FCVT_from_integer_encoded:
  assumes "(emit, op, k) \<in> set FCVT_from_integer"
  shows "emit = EmitRTypeInstruction_rounding op" and "FCVT_from_integer_code op k"
proof -
  show "emit = EmitRTypeInstruction_rounding op" using assms by (auto simp: FCVT_from_integer_def fun_eq_iff FcvtSW_def FcvtDW_def FcvtSWu_def FcvtDWu_def FcvtSL_def FcvtDL_def FcvtSLu_def FcvtDLu_def)
  have "list_all (\<lambda>(op, k). FCVT_from_integer_code op k) (map snd FCVT_from_integer)" by code_simp
  then show "FCVT_from_integer_code op k" using assms by (auto simp: list_all_iff)
qed

lemma FCVT_between_floats_encoded:
  assumes "(emit, op, k) \<in> set FCVT_between_floats"
  shows "emit = EmitRTypeInstruction_rounding op" and "FCVT_between_floats_code op k"
proof -
  show "emit = EmitRTypeInstruction_rounding op" using assms by (auto simp: FCVT_between_floats_def fun_eq_iff FcvtSD_def FcvtDS_def)
  have "list_all (\<lambda>(op, k). FCVT_between_floats_code op k) (map snd FCVT_between_floats)" by code_simp
  then show "FCVT_between_floats_code op k" using assms by (auto simp: list_all_iff)
qed

lemma FSQRT_instructions_encoded:
  assumes "(emit, op, k) \<in> set FSQRT_instructions"
  shows "emit = EmitRTypeInstruction_rounding op" and "FSQRT_code op k"
proof -
  show "emit = EmitRTypeInstruction_rounding op" using assms by (auto simp: FSQRT_instructions_def fun_eq_iff FsqrtS_def FsqrtD_def)
  have "list_all (\<lambda>(op, k). FSQRT_code op k) (map snd FSQRT_instructions)" by code_simp
  then show "FSQRT_code op k" using assms by (auto simp: list_all_iff)
qed

text \<open>Without a rounding mode the mode is that of the control register.\<close>

lemma dynamic_rounding:
  "FcvtDS_dyn rd rs1 = FcvtDS rd rs1 kDyn"
  "FcvtDW_dyn rd rs1 = FcvtDW rd rs1 kDyn"
  "FcvtDWu_dyn rd rs1 = FcvtDWu rd rs1 kDyn"
  "FcvtSD_dyn rd rs1 = FcvtSD rd rs1 kDyn"
  "FcvtSW_dyn rd rs1 = FcvtSW rd rs1 kDyn"
  "FcvtSWu_dyn rd rs1 = FcvtSWu rd rs1 kDyn"
  "FcvtWD_dyn rd rs1 = FcvtWD rd rs1 kDyn"
  "FcvtWS_dyn rd rs1 = FcvtWS rd rs1 kDyn"
  "FcvtWuD_dyn rd rs1 = FcvtWuD rd rs1 kDyn"
  "FcvtWuS_dyn rd rs1 = FcvtWuS rd rs1 kDyn"
  "FsqrtD_dyn rd rs1 = FsqrtD rd rs1 kDyn"
  "FsqrtS_dyn rd rs1 = FsqrtS rd rs1 kDyn"
  "FcvtDL_dyn rd rs1 = FcvtDL rd rs1 kDyn"
  "FcvtDLu_dyn rd rs1 = FcvtDLu rd rs1 kDyn"
  "FcvtLD_dyn rd rs1 = FcvtLD rd rs1 kDyn"
  "FcvtLS_dyn rd rs1 = FcvtLS rd rs1 kDyn"
  "FcvtLuD_dyn rd rs1 = FcvtLuD rd rs1 kDyn"
  "FcvtLuS_dyn rd rs1 = FcvtLuS rd rs1 kDyn"
  "FcvtSL_dyn rd rs1 = FcvtSL rd rs1 kDyn"
  "FcvtSLu_dyn rd rs1 = FcvtSLu rd rs1 kDyn"
  by (simp_all add: FcvtDS_dyn_def FcvtDS_def FcvtDW_dyn_def FcvtDW_def FcvtDWu_dyn_def FcvtDWu_def FcvtSD_dyn_def FcvtSD_def FcvtSW_dyn_def FcvtSW_def FcvtSWu_dyn_def FcvtSWu_def FcvtWD_dyn_def FcvtWD_def FcvtWS_dyn_def FcvtWS_def FcvtWuD_dyn_def FcvtWuD_def FcvtWuS_dyn_def FcvtWuS_def FsqrtD_dyn_def FsqrtD_def FsqrtS_dyn_def FsqrtS_def FcvtDL_dyn_def FcvtDL_def FcvtDLu_dyn_def FcvtDLu_def FcvtLD_dyn_def FcvtLD_def FcvtLS_dyn_def FcvtLS_def FcvtLuD_dyn_def FcvtLuD_def FcvtLuS_dyn_def FcvtLuS_def FcvtSL_dyn_def FcvtSL_def FcvtSLu_dyn_def FcvtSLu_def)

section \<open>Prefetches\<close>

text \<open>A prefetch is a hint in the encoding space of \<open>ori\<close> into \<open>x0\<close>, which says what is prefetched in the low five bits.\<close>

definition PREFETCH_code :: "u32 \<Rightarrow> u16 \<Rightarrow> bool" where
  "PREFETCH_code op k \<longleftrightarrow>
     op AND 0xfe0f8f80 = 0 \<and> op AND 3 = 3 \<and> BaseOpcode_of (GetBits 2 5 op) = BaseOpcode.kOpImm \<and>
     GetBits 12 3 op = 0b110 \<and>
     ucast (GetBits 20 5 op) = k"

lemma PREFETCH_decodes:
  fixes v :: u32
  assumes "PREFETCH_code op k" and "rs1 < 32" and "PImmediate_AccetableValue v"
  shows "assembles (EmitPTypeInstruction op (rs1, PImmediate_MakeRaw v))
    (OpImm \<lparr>OpImmArgsTemplate.opcode = OpImmOpcode.kOri, OpImmArgsTemplate.dst = 0, OpImmArgsTemplate.src = rs1,
       OpImmArgsTemplate.imm = ucast v OR k\<rparr>)"
proof -
  have op: "op AND 0xfe0f8f80 = 0" "op AND 3 = 3" using assms(1) by (simp_all add: PREFETCH_code_def)
  have v: "signed_take_bit 11 v = v" "take_bit 5 v = 0"
    using assms(3) unfolding PImmediate_AccetableValue_def format_masks by (subst (asm) accept_signed_bits; simp)+
  have "OpImmOpcode_of 6 = OpImmOpcode.kOri" by code_simp
  then show ?thesis
    unfolding EmitPTypeInstruction_def
    using assms(1) by (intro assemblesI [OF op(2)]) (simp add: PREFETCH_code_def DecodeBaseInstruction_def
        DecodeOpImm_def P_fields [OF op(1) assms(2) v(2)] v(1) Let_def unsigned_or_eq)
qed

definition PREFETCH_instructions ::
  "((Operand \<Rightarrow> AssemblerBase \<Rightarrow> AssemblerBase) \<times> u32 \<times> u16) list" where
  "PREFETCH_instructions =
    [(PrefetchI, 0x6013, 0), (PrefetchR, 0x106013, 1), (PrefetchW, 0x306013, 3)]"

lemma PREFETCH_instructions_encoded:
  assumes "(emit, op, k) \<in> set PREFETCH_instructions"
  shows "emit = EmitPTypeInstruction op" and "PREFETCH_code op k"
proof -
  show "emit = EmitPTypeInstruction op" using assms by (auto simp: PREFETCH_instructions_def fun_eq_iff PrefetchI_def PrefetchR_def PrefetchW_def)
  have "list_all (\<lambda>(op, k). PREFETCH_code op k) (map snd PREFETCH_instructions)" by code_simp
  then show "PREFETCH_code op k" using assms by (auto simp: list_all_iff)
qed

section \<open>Every instruction decodes\<close>

lemma ball3: "(\<And>a b c. (a, b, c) \<in> S \<Longrightarrow> P a b c) \<Longrightarrow> \<forall>(a, b, c) \<in> S. P a b c"
  by auto

lemma ball4: "(\<And>a b c d. (a, b, c, d) \<in> S \<Longrightarrow> P a b c d) \<Longrightarrow> \<forall>(a, b, c, d) \<in> S. P a b c d"
  by auto

lemma OP_assembled:
  assumes "rd < 32" and "rs1 < 32" and "rs2 < 32"
  shows "\<forall>(emit, op, k) \<in> set OP_instructions. assembles (emit rd rs1 rs2)
    (Op \<lparr>OpArgsTemplate.opcode = k, OpArgsTemplate.dst = rd, OpArgsTemplate.src1 = rs1,
      OpArgsTemplate.src2 = rs2\<rparr>)"
  by (rule ball3, frule OP_instructions_encoded(1), drule OP_instructions_encoded(2)) (simp add: OP_decodes(1) assms OP_code_def Let_def)

lemma OP32_assembled:
  assumes "rd < 32" and "rs1 < 32" and "rs2 < 32"
  shows "\<forall>(emit, op, k) \<in> set OP32_instructions. assembles (emit rd rs1 rs2)
    (Op_32 \<lparr>OpArgsTemplate.opcode = k, OpArgsTemplate.dst = rd, OpArgsTemplate.src1 = rs1,
      OpArgsTemplate.src2 = rs2\<rparr>)"
  by (rule ball3, frule OP32_instructions_encoded(1), drule OP32_instructions_encoded(2)) (simp add: OP_decodes(2) assms OP_code_def Let_def)

lemma IMM_assembled:
  fixes i :: u32
  assumes "rd < 32" and "rs1 < 32" and "IImmediate_AccetableValue i"
  shows "\<forall>(emit, op, k) \<in> set IMM_instructions. assembles (emit rd rs1 (IImmediate_MakeRaw i))
    (OpImm \<lparr>OpImmArgsTemplate.opcode = k, OpImmArgsTemplate.dst = rd, OpImmArgsTemplate.src
      = rs1, OpImmArgsTemplate.imm = ucast i\<rparr>)"
  by (rule ball3, frule IMM_instructions_encoded(1), drule IMM_instructions_encoded(2)) (simp add: IMM_decodes(1) assms IMM_code_def Let_def)

lemma IMM32_assembled:
  fixes i :: u32
  assumes "rd < 32" and "rs1 < 32" and "IImmediate_AccetableValue i"
  shows "\<forall>(emit, op, k) \<in> set IMM32_instructions. assembles (emit rd rs1 (IImmediate_MakeRaw i))
    (OpImm_32 \<lparr>OpImmArgsTemplate.opcode = k, OpImmArgsTemplate.dst = rd,
      OpImmArgsTemplate.src = rs1, OpImmArgsTemplate.imm = ucast i\<rparr>)"
  by (rule ball3, frule IMM32_instructions_encoded(1), drule IMM32_instructions_encoded(2)) (simp add: IMM_decodes(2) assms IMM_code_def Let_def)

lemma SHIFT_assembled:
  fixes sh :: u8
  assumes "rd < 32" and "rs1 < 32" and "sh < 64"
  shows "\<forall>(emit, op, k) \<in> set SHIFT_instructions. assembles (emit rd rs1 (Shift64Immediate_MakeRaw sh))
    (OpImm_shift \<lparr>ShiftImmArgsTemplate.opcode = k, ShiftImmArgsTemplate.dst = rd,
      ShiftImmArgsTemplate.src = rs1, ShiftImmArgsTemplate.imm = sh\<rparr>)"
  by (rule ball3, frule SHIFT_instructions_encoded(1), drule SHIFT_instructions_encoded(2)) (simp add: SHIFT_decodes(1) assms SHIFT_code_def Let_def)

lemma BITMANIP_assembled:
  fixes sh :: u8
  assumes "rd < 32" and "rs1 < 32" and "sh < 64"
  shows "\<forall>(emit, op, k) \<in> set BITMANIP_instructions. assembles (emit rd rs1 (Shift64Immediate_MakeRaw sh))
    (OpImm_bitmanip \<lparr>BitmanipImmArgsTemplate.opcode = k, BitmanipImmArgsTemplate.dst = rd,
      BitmanipImmArgsTemplate.src = rs1, BitmanipImmArgsTemplate.shamt = sh\<rparr>)"
  by (rule ball3, frule BITMANIP_instructions_encoded(1), drule BITMANIP_instructions_encoded(2)) (simp add: SHIFT_decodes(2) assms BITMANIP_code_def Let_def)

lemma SHIFT32_assembled:
  fixes sh :: u8
  assumes "rd < 32" and "rs1 < 32" and "sh < 32"
  shows "\<forall>(emit, op, k) \<in> set SHIFT32_instructions. assembles (emit rd rs1 (Shift32Immediate_MakeRaw sh))
    (OpImm_shift_32 \<lparr>ShiftImmArgsTemplate.opcode = k, ShiftImmArgsTemplate.dst = rd,
      ShiftImmArgsTemplate.src = rs1, ShiftImmArgsTemplate.imm = sh\<rparr>)"
  by (rule ball3, frule SHIFT32_instructions_encoded(1), drule SHIFT32_instructions_encoded(2)) (simp add: SHIFT32_decodes(1) assms SHIFT32_code_def Let_def)

lemma BITMANIP32_assembled:
  fixes sh :: u8
  assumes "rd < 32" and "rs1 < 32" and "sh < 32"
  shows "\<forall>(emit, op, k) \<in> set BITMANIP32_instructions. assembles (emit rd rs1 (Shift32Immediate_MakeRaw sh))
    (OpImm_bitmanip_32 \<lparr>BitmanipImmArgsTemplate.opcode = k, BitmanipImmArgsTemplate.dst =
      rd, BitmanipImmArgsTemplate.src = rs1, BitmanipImmArgsTemplate.shamt = sh\<rparr>)"
  by (rule ball3, frule BITMANIP32_instructions_encoded(1), drule BITMANIP32_instructions_encoded(2)) (simp add: SHIFT32_decodes(2) assms BITMANIP32_code_def Let_def)

lemma UNARY_assembled:
  assumes "rd < 32" and "rs1 < 32"
  shows "\<forall>(emit, op, k) \<in> set UNARY_instructions. assembles (emit rd rs1)
    (OpImm_bitmanip \<lparr>BitmanipImmArgsTemplate.opcode = k, BitmanipImmArgsTemplate.dst = rd,
      BitmanipImmArgsTemplate.src = rs1, BitmanipImmArgsTemplate.shamt = 0\<rparr>)"
  by (rule ball3, frule UNARY_instructions_encoded(1), drule UNARY_instructions_encoded(2)) (simp add: UNARY_decodes assms UNARY_code_def Let_def)

lemma LOAD_assembled:
  fixes i :: u32
  assumes "rd < 32" and "rs1 < 32" and "IImmediate_AccetableValue i"
  shows "\<forall>(emit, op, k) \<in> set LOAD_instructions. assembles (emit rd (rs1, IImmediate_MakeRaw i))
    (Load \<lparr>LoadArgsTemplate.operand_type = k, LoadArgsTemplate.dst = rd,
      LoadArgsTemplate.src = rs1, LoadArgsTemplate.offset = ucast i\<rparr>)"
  by (rule ball3, frule LOAD_instructions_encoded(1), drule LOAD_instructions_encoded(2)) (simp add: LOAD_decodes(1) assms MEMORY_code_def Let_def)

lemma LOAD_FP_assembled:
  fixes i :: u32
  assumes "rd < 32" and "rs1 < 32" and "IImmediate_AccetableValue i"
  shows "\<forall>(emit, op, k) \<in> set LOAD_FP_instructions. assembles (emit rd (rs1, IImmediate_MakeRaw i))
    (Load_fp \<lparr>LoadArgsTemplate.operand_type = k, LoadArgsTemplate.dst = rd,
      LoadArgsTemplate.src = rs1, LoadArgsTemplate.offset = ucast i\<rparr>)"
  by (rule ball3, frule LOAD_FP_instructions_encoded(1), drule LOAD_FP_instructions_encoded(2)) (simp add: LOAD_decodes(2) assms MEMORY_code_def Let_def)

lemma STORE_assembled:
  fixes i :: u32
  assumes "rs2 < 32" and "rs1 < 32" and "SImmediate_AccetableValue i"
  shows "\<forall>(emit, op, k) \<in> set STORE_instructions. assembles (emit rs2 (rs1, SImmediate_MakeRaw i))
    (Store \<lparr>StoreArgsTemplate.operand_type = k, StoreArgsTemplate.src = rs1,
      StoreArgsTemplate.offset = ucast i, StoreArgsTemplate.data = rs2\<rparr>)"
  by (rule ball3, frule STORE_instructions_encoded(1), drule STORE_instructions_encoded(2)) (simp add: STORE_decodes(1) assms MEMORY_code_def Let_def)

lemma STORE_FP_assembled:
  fixes i :: u32
  assumes "rs2 < 32" and "rs1 < 32" and "SImmediate_AccetableValue i"
  shows "\<forall>(emit, op, k) \<in> set STORE_FP_instructions. assembles (emit rs2 (rs1, SImmediate_MakeRaw i))
    (Store_fp \<lparr>StoreArgsTemplate.operand_type = k, StoreArgsTemplate.src = rs1,
      StoreArgsTemplate.offset = ucast i, StoreArgsTemplate.data = rs2\<rparr>)"
  by (rule ball3, frule STORE_FP_instructions_encoded(1), drule STORE_FP_instructions_encoded(2)) (simp add: STORE_decodes(2) assms MEMORY_code_def Let_def)

lemma BRANCH_assembled:
  fixes b :: u32
  assumes "rs1 < 32" and "rs2 < 32" and "BImmediate_AccetableValue b"
  shows "\<forall>(emit, op, k) \<in> set BRANCH_instructions. assembles (emit rs1 rs2 (BImmediate_MakeRaw b))
    (CompareAndBranch \<lparr>BranchArgs.opcode = k, BranchArgs.src1 = rs1, BranchArgs.src2 = rs2,
      BranchArgs.offset = ucast b\<rparr>)"
  by (rule ball3, frule BRANCH_instructions_encoded(1), drule BRANCH_instructions_encoded(2)) (simp add: BRANCH_decodes assms BRANCH_code_def Let_def)

lemma CSR_assembled:
  assumes "rd < 32" and "rs1 < 32"
  shows "\<forall>(emit, op, k) \<in> set CSR_instructions. assembles (emit rd c rs1)
    (consumer_call.Csr \<lparr>CsrArgs.opcode = k, CsrArgs.dst = rd, CsrArgs.src = rs1, CsrArgs.csr
      = ucast (Csr_val c)\<rparr>)"
  by (rule ball3, frule CSR_instructions_encoded(1), drule CSR_instructions_encoded(2)) (simp add: CSR_decodes assms CSR_code_def Let_def)

lemma CSR_imm_assembled:
  fixes u :: u32
  assumes "rd < 32" and "u < 32"
  shows "\<forall>(emit, op, k) \<in> set CSR_imm_instructions. assembles (emit rd c (CsrImmediate_MakeRaw u))
    (Csr_imm \<lparr>CsrImmArgs.opcode = k, CsrImmArgs.dst = rd, CsrImmArgs.imm = ucast u,
      CsrImmArgs.csr = ucast (Csr_val c)\<rparr>)"
  by (rule ball3, frule CSR_imm_instructions_encoded(1), drule CSR_imm_instructions_encoded(2)) (simp add: CSR_imm_decodes assms CSR_code_def Let_def)

lemma FCVT_to_integer_assembled:
  assumes "rd < 32" and "rs1 < 32"
  shows "\<forall>(emit, op, d, t) \<in> set FCVT_to_integer. assembles (emit rd rs1 r)
    (Fcvt_float_to_integer \<lparr>FcvtFloatToIntegerArgs.dst_type = d,
      FcvtFloatToIntegerArgs.src_type = t, FcvtFloatToIntegerArgs.dst = rd,
      FcvtFloatToIntegerArgs.src = rs1, FcvtFloatToIntegerArgs.rm = ucast (Rounding_val r)\<rparr>)"
  by (rule ball4, frule FCVT_to_integer_encoded(1), drule FCVT_to_integer_encoded(2)) (simp add: FP_decodes(1) assms FCVT_to_integer_code_def FP_code_def Let_def)

lemma FCVT_from_integer_assembled:
  assumes "rd < 32" and "rs1 < 32"
  shows "\<forall>(emit, op, d, t) \<in> set FCVT_from_integer. assembles (emit rd rs1 r)
    (Fcvt_integer_to_float \<lparr>FcvtIntegerToFloatArgs.dst_type = d,
      FcvtIntegerToFloatArgs.src_type = t, FcvtIntegerToFloatArgs.dst = rd,
      FcvtIntegerToFloatArgs.src = rs1, FcvtIntegerToFloatArgs.rm = ucast (Rounding_val r)\<rparr>)"
  by (rule ball4, frule FCVT_from_integer_encoded(1), drule FCVT_from_integer_encoded(2)) (simp add: FP_decodes(2) assms FCVT_from_integer_code_def FP_code_def Let_def)

lemma FCVT_between_floats_assembled:
  assumes "rd < 32" and "rs1 < 32"
  shows "\<forall>(emit, op, d, t) \<in> set FCVT_between_floats. assembles (emit rd rs1 r)
    (Fcvt_float_to_float \<lparr>FcvtFloatToFloatArgs.dst_type = d, FcvtFloatToFloatArgs.src_type =
      t, FcvtFloatToFloatArgs.dst = rd, FcvtFloatToFloatArgs.src = rs1, FcvtFloatToFloatArgs.rm =
      ucast (Rounding_val r)\<rparr>)"
  by (rule ball4, frule FCVT_between_floats_encoded(1), drule FCVT_between_floats_encoded(2)) (simp add: FP_decodes(3) assms FCVT_between_floats_code_def FP_code_def Let_def)

lemma FSQRT_assembled:
  assumes "rd < 32" and "rs1 < 32"
  shows "\<forall>(emit, op, k) \<in> set FSQRT_instructions. assembles (emit rd rs1 r)
    (OpFpSingleInput \<lparr>OpFpSingleInputArgs.opcode = OpFpSingleInputOpcode.kFSqrt,
      OpFpSingleInputArgs.operand_type = k, OpFpSingleInputArgs.dst = rd, OpFpSingleInputArgs.src =
      rs1, OpFpSingleInputArgs.rm = ucast (Rounding_val r)\<rparr>)"
  by (rule ball3, frule FSQRT_instructions_encoded(1), drule FSQRT_instructions_encoded(2)) (simp add: FP_decodes(4) assms FSQRT_code_def FP_code_def Let_def)

lemma PREFETCH_assembled:
  fixes p :: u32
  assumes "rs1 < 32" and "PImmediate_AccetableValue p"
  shows "\<forall>(emit, op, k) \<in> set PREFETCH_instructions. assembles (emit (rs1, PImmediate_MakeRaw p))
    (OpImm \<lparr>OpImmArgsTemplate.opcode = OpImmOpcode.kOri, OpImmArgsTemplate.dst = 0,
      OpImmArgsTemplate.src = rs1, OpImmArgsTemplate.imm = ucast p OR k\<rparr>)"
  by (rule ball3, frule PREFETCH_instructions_encoded(1), drule PREFETCH_instructions_encoded(2)) (simp add: PREFETCH_decodes assms PREFETCH_code_def Let_def)

lemmas assembled =
  OP_assembled OP32_assembled IMM_assembled IMM32_assembled SHIFT_assembled BITMANIP_assembled
    SHIFT32_assembled BITMANIP32_assembled UNARY_assembled LOAD_assembled LOAD_FP_assembled
    STORE_assembled STORE_FP_assembled BRANCH_assembled CSR_assembled CSR_imm_assembled
    FCVT_to_integer_assembled FCVT_from_integer_assembled FCVT_between_floats_assembled
    FSQRT_assembled PREFETCH_assembled

text \<open>
  C13: For every instruction word that the assembler can emit there is a call of the decoder's consumer
  with the same instruction and the same operands: the decoder, run on the word that was appended,
  makes this call and no other one. The tables pair each emitting function with the opcode of the
  manual and the enumerator of the decoder.
\<close>

theorem assembled_instructions_decode:
  fixes i st b p j top u :: u32 and sh sh32 :: u8
  assumes "rd < 32" and "rs1 < 32" and "rs2 < 32"
    and "IImmediate_AccetableValue i" and "SImmediate_AccetableValue st" and "BImmediate_AccetableValue b"
    and "PImmediate_AccetableValue p" and "JImmediate_AccetableValue j" and "take_bit 12 top = 0"
    and "u < 32" and "sh < 64" and "sh32 < 32"
  shows
    "(\<forall>(emit, op, k) \<in> set OP_instructions. assembles (emit rd rs1 rs2)
        (Op \<lparr>OpArgsTemplate.opcode = k, OpArgsTemplate.dst = rd, OpArgsTemplate.src1 = rs1,
          OpArgsTemplate.src2 = rs2\<rparr>)) \<and>
     (\<forall>(emit, op, k) \<in> set OP32_instructions. assembles (emit rd rs1 rs2)
        (Op_32 \<lparr>OpArgsTemplate.opcode = k, OpArgsTemplate.dst = rd, OpArgsTemplate.src1 =
          rs1, OpArgsTemplate.src2 = rs2\<rparr>)) \<and>
     (\<forall>(emit, op, k) \<in> set IMM_instructions. assembles (emit rd rs1 (IImmediate_MakeRaw i))
        (OpImm \<lparr>OpImmArgsTemplate.opcode = k, OpImmArgsTemplate.dst = rd,
          OpImmArgsTemplate.src = rs1, OpImmArgsTemplate.imm = ucast i\<rparr>)) \<and>
     (\<forall>(emit, op, k) \<in> set IMM32_instructions. assembles (emit rd rs1 (IImmediate_MakeRaw i))
        (OpImm_32 \<lparr>OpImmArgsTemplate.opcode = k, OpImmArgsTemplate.dst = rd,
          OpImmArgsTemplate.src = rs1, OpImmArgsTemplate.imm = ucast i\<rparr>)) \<and>
     (\<forall>(emit, op, k) \<in> set SHIFT_instructions. assembles (emit rd rs1 (Shift64Immediate_MakeRaw sh))
        (OpImm_shift \<lparr>ShiftImmArgsTemplate.opcode = k, ShiftImmArgsTemplate.dst = rd,
          ShiftImmArgsTemplate.src = rs1, ShiftImmArgsTemplate.imm = sh\<rparr>)) \<and>
     (\<forall>(emit, op, k) \<in> set BITMANIP_instructions. assembles (emit rd rs1 (Shift64Immediate_MakeRaw sh))
        (OpImm_bitmanip \<lparr>BitmanipImmArgsTemplate.opcode = k, BitmanipImmArgsTemplate.dst =
          rd, BitmanipImmArgsTemplate.src = rs1, BitmanipImmArgsTemplate.shamt = sh\<rparr>)) \<and>
     (\<forall>(emit, op, k) \<in> set SHIFT32_instructions. assembles (emit rd rs1 (Shift32Immediate_MakeRaw sh32))
        (OpImm_shift_32 \<lparr>ShiftImmArgsTemplate.opcode = k, ShiftImmArgsTemplate.dst = rd,
          ShiftImmArgsTemplate.src = rs1, ShiftImmArgsTemplate.imm = sh32\<rparr>)) \<and>
     (\<forall>(emit, op, k) \<in> set BITMANIP32_instructions. assembles (emit rd rs1 (Shift32Immediate_MakeRaw sh32))
        (OpImm_bitmanip_32 \<lparr>BitmanipImmArgsTemplate.opcode = k, BitmanipImmArgsTemplate.dst
          = rd, BitmanipImmArgsTemplate.src = rs1, BitmanipImmArgsTemplate.shamt = sh32\<rparr>)) \<and>
     (\<forall>(emit, op, k) \<in> set UNARY_instructions. assembles (emit rd rs1)
        (OpImm_bitmanip \<lparr>BitmanipImmArgsTemplate.opcode = k, BitmanipImmArgsTemplate.dst =
          rd, BitmanipImmArgsTemplate.src = rs1, BitmanipImmArgsTemplate.shamt = 0\<rparr>)) \<and>
     (\<forall>(emit, op, k) \<in> set LOAD_instructions. assembles (emit rd (rs1, IImmediate_MakeRaw i))
        (Load \<lparr>LoadArgsTemplate.operand_type = k, LoadArgsTemplate.dst = rd,
          LoadArgsTemplate.src = rs1, LoadArgsTemplate.offset = ucast i\<rparr>)) \<and>
     (\<forall>(emit, op, k) \<in> set LOAD_FP_instructions. assembles (emit rd (rs1, IImmediate_MakeRaw i))
        (Load_fp \<lparr>LoadArgsTemplate.operand_type = k, LoadArgsTemplate.dst = rd,
          LoadArgsTemplate.src = rs1, LoadArgsTemplate.offset = ucast i\<rparr>)) \<and>
     (\<forall>(emit, op, k) \<in> set STORE_instructions. assembles (emit rs2 (rs1, SImmediate_MakeRaw st))
        (Store \<lparr>StoreArgsTemplate.operand_type = k, StoreArgsTemplate.src = rs1,
          StoreArgsTemplate.offset = ucast st, StoreArgsTemplate.data = rs2\<rparr>)) \<and>
     (\<forall>(emit, op, k) \<in> set STORE_FP_instructions. assembles (emit rs2 (rs1, SImmediate_MakeRaw st))
        (Store_fp \<lparr>StoreArgsTemplate.operand_type = k, StoreArgsTemplate.src = rs1,
          StoreArgsTemplate.offset = ucast st, StoreArgsTemplate.data = rs2\<rparr>)) \<and>
     (\<forall>(emit, op, k) \<in> set BRANCH_instructions. assembles (emit rs1 rs2 (BImmediate_MakeRaw b))
        (CompareAndBranch \<lparr>BranchArgs.opcode = k, BranchArgs.src1 = rs1, BranchArgs.src2 =
          rs2, BranchArgs.offset = ucast b\<rparr>)) \<and>
     (\<forall>(emit, op, k) \<in> set CSR_instructions. assembles (emit rd c rs1)
        (consumer_call.Csr \<lparr>CsrArgs.opcode = k, CsrArgs.dst = rd, CsrArgs.src = rs1,
          CsrArgs.csr = ucast (Csr_val c)\<rparr>)) \<and>
     (\<forall>(emit, op, k) \<in> set CSR_imm_instructions. assembles (emit rd c (CsrImmediate_MakeRaw u))
        (Csr_imm \<lparr>CsrImmArgs.opcode = k, CsrImmArgs.dst = rd, CsrImmArgs.imm = ucast u,
          CsrImmArgs.csr = ucast (Csr_val c)\<rparr>)) \<and>
     (\<forall>(emit, op, d, t) \<in> set FCVT_to_integer. assembles (emit rd rs1 r)
        (Fcvt_float_to_integer \<lparr>FcvtFloatToIntegerArgs.dst_type = d,
          FcvtFloatToIntegerArgs.src_type = t, FcvtFloatToIntegerArgs.dst = rd,
          FcvtFloatToIntegerArgs.src = rs1, FcvtFloatToIntegerArgs.rm = ucast (Rounding_val
          r)\<rparr>)) \<and>
     (\<forall>(emit, op, d, t) \<in> set FCVT_from_integer. assembles (emit rd rs1 r)
        (Fcvt_integer_to_float \<lparr>FcvtIntegerToFloatArgs.dst_type = d,
          FcvtIntegerToFloatArgs.src_type = t, FcvtIntegerToFloatArgs.dst = rd,
          FcvtIntegerToFloatArgs.src = rs1, FcvtIntegerToFloatArgs.rm = ucast (Rounding_val
          r)\<rparr>)) \<and>
     (\<forall>(emit, op, d, t) \<in> set FCVT_between_floats. assembles (emit rd rs1 r)
        (Fcvt_float_to_float \<lparr>FcvtFloatToFloatArgs.dst_type = d,
          FcvtFloatToFloatArgs.src_type = t, FcvtFloatToFloatArgs.dst = rd,
          FcvtFloatToFloatArgs.src = rs1, FcvtFloatToFloatArgs.rm = ucast (Rounding_val r)\<rparr>)) \<and>
     (\<forall>(emit, op, k) \<in> set FSQRT_instructions. assembles (emit rd rs1 r)
        (OpFpSingleInput \<lparr>OpFpSingleInputArgs.opcode = OpFpSingleInputOpcode.kFSqrt,
          OpFpSingleInputArgs.operand_type = k, OpFpSingleInputArgs.dst = rd,
          OpFpSingleInputArgs.src = rs1, OpFpSingleInputArgs.rm = ucast (Rounding_val r)\<rparr>)) \<and>
     (\<forall>(emit, op, k) \<in> set PREFETCH_instructions. assembles (emit (rs1, PImmediate_MakeRaw p))
        (OpImm \<lparr>OpImmArgsTemplate.opcode = OpImmOpcode.kOri, OpImmArgsTemplate.dst = 0,
          OpImmArgsTemplate.src = rs1, OpImmArgsTemplate.imm = ucast p OR k\<rparr>)) \<and>
     assembles (Jal rd (JImmediate_MakeRaw j))
        (JumpAndLink \<lparr>JumpAndLinkArgs.dst = rd, JumpAndLinkArgs.offset = j,
          JumpAndLinkArgs.insn_len = 4\<rparr>) \<and>
     assembles (Jalr rd rs1 (IImmediate_MakeRaw i))
        (JumpAndLinkRegister \<lparr>JumpAndLinkRegisterArgs.dst = rd, JumpAndLinkRegisterArgs.base
          = rs1, JumpAndLinkRegisterArgs.offset = ucast i, JumpAndLinkRegisterArgs.insn_len =
          4\<rparr>) \<and>
     assembles (Assembler.Lui rd (UImmediate_MakeRaw top)) (consumer_call.Lui \<lparr>UpperImmArgs.dst = rd, UpperImmArgs.imm = top\<rparr>) \<and>
     assembles (Assembler.Auipc rd (UImmediate_MakeRaw top)) (consumer_call.Auipc \<lparr>UpperImmArgs.dst = rd, UpperImmArgs.imm = top\<rparr>)"
  using assms by (intro conjI assembled JUMP_decodes)

theorem assembled_instructions_decode_witness:
  "assembles (Sh3add 5 6 7) (Op \<lparr>OpArgsTemplate.opcode = OpOpcode.kSh3add, OpArgsTemplate.dst = 5, OpArgsTemplate.src1 = 6, OpArgsTemplate.src2 = 7\<rparr>)"
proof -
  have ok: "IImmediate_AccetableValue (-3 :: u32)" "SImmediate_AccetableValue (2047 :: u32)"
    "BImmediate_AccetableValue (16 :: u32)" "PImmediate_AccetableValue (64 :: u32)"
    "JImmediate_AccetableValue (2048 :: u32)" "take_bit 12 (4096 :: u32) = 0" by code_simp+
  have "(Sh3add, 0x20006033, OpOpcode.kSh3add) \<in> set OP_instructions" by (simp add: OP_instructions_def)
  then show ?thesis
    using assembled_instructions_decode [of 5 6 7, OF _ _ _ ok, of 31 63 31] by fastforce
qed

end
