(* ===== verification/Load_Constant.thy ===== *)
theory Load_Constant
  imports Trampoline_Correctness Assembler_Roundtrip
begin

text \<open>
  \<open>rv64::Assembler::Li\<close>, which loads a constant of 64 bits by shifting and adding smaller ones: that
  it ends, that it never needs more than eight instructions, what they compute, and for which
  constants this is not the constant.
\<close>

section \<open>The parts of a constant\<close>

definition li_top :: "u64 \<Rightarrow> u64" where
  "li_top imm64 = (imm64 + push_bit 1 (imm64 AND push_bit 11 1)) AND 0xfffffffffffff000"

definition li_bottom :: "u64 \<Rightarrow> u64" where
  "li_bottom imm64 = signed_take_bit 11 imm64"

definition countr_zero :: "u64 \<Rightarrow> nat" where
  "countr_zero w = length (takeWhile (\<lambda>n. \<not> bit w n) [0..<64])"

definition fits_int32 :: "u64 \<Rightarrow> bool" where
  "fits_int32 imm64 = (scast (ucast imm64 :: u32) = imm64)"

lemma fits_int32_iff: "fits_int32 v \<longleftrightarrow> - (2 ^ 31) \<le> sint v \<and> sint v < 2 ^ 31"
proof
  assume "fits_int32 v"
  moreover have "sint (scast (ucast v :: u32) :: u64) = sint (ucast v :: u32)"
    by (simp add: sint_up_scast is_up)
  ultimately have "sint v = sint (ucast v :: u32)" by (simp add: fits_int32_def)
  then show "- (2 ^ 31) \<le> sint v \<and> sint v < 2 ^ 31"
    using sint_greater_eq [of "ucast v :: u32"] sint_less [of "ucast v :: u32"] by simp
next
  assume "- (2 ^ 31) \<le> sint v \<and> sint v < 2 ^ 31"
  then show "fits_int32 v" using scast_ucast_32(2) [of v] by (simp add: fits_int32_def)
qed

lemma low_bits_clear: "v AND 0xfff = 0 \<longleftrightarrow> 4096 dvd sint v" for v :: u64
proof -
  have "(0xfff :: u64) = mask 12" by (simp add: mask_numeral)
  then have "v AND 0xfff = take_bit 12 v" by (simp add: take_bit_eq_mask)
  then show ?thesis using take_bit_eq_0_iff_sint [of 12 v] by simp
qed

lemma sint_of_int_abs: "\<bar>sint (word_of_int k :: 'a::len word)\<bar> \<le> \<bar>k\<bar>"
proof -
  define n where "n = LENGTH('a) - 1"
  have s: "sint (word_of_int k :: 'a word) = signed_take_bit n k" by (simp add: signed_of_int n_def)
  show ?thesis
  proof (cases "- (2 ^ n) \<le> k \<and> k < 2 ^ n")
    case True
    then show ?thesis by (simp add: s signed_take_bit_int_eq_self)
  next
    case False
    moreover have "- (2 ^ n) \<le> signed_take_bit n k" "signed_take_bit n k < 2 ^ n" by simp_all
    ultimately show ?thesis unfolding s by linarith
  qed
qed

lemma li_bottom_bounds: "- 2048 \<le> sint (li_bottom v)" "sint (li_bottom v) < 2048"
  using signed_take_bit_int_greater_eq_minus_exp [of 11 "sint v"] signed_take_bit_int_less_exp [of 11 "sint v"]
  by (simp_all add: li_bottom_def sint_signed_take_bit)

lemma li_top_high: "li_top v = push_bit 12 (drop_bit 12 (v + (if bit v 11 then 4096 else 0)))"
proof -
  have sign: "push_bit 1 (v AND push_bit 11 1) = (if bit v 11 then 4096 else 0)"
  proof (rule bit_word_eqI)
    fix n :: nat
    have e: "(4096 :: u64) = push_bit 12 1" by simp
    show "bit (push_bit 1 (v AND push_bit 11 1)) n \<longleftrightarrow> bit (if bit v 11 then 4096 else 0 :: u64) n"
      unfolding e by (auto simp: bit_simps bit_times_2 simp del: push_bit_of_1)
  qed
  have mask: "(0xfffffffffffff000 :: u64) = NOT (mask 12)" by (simp add: mask_numeral)
  have "w AND NOT (mask 12) = push_bit 12 (drop_bit 12 w)" for w :: u64
    by (rule bit_word_eqI) (auto simp: bit_simps)
  then show ?thesis unfolding li_top_def sign mask by simp
qed

lemma li_parts: "li_top v + li_bottom v = v"
proof -
  let ?s = "if bit v 11 then 4096 else 0 :: u64"
  have "unat (v + 4096) mod 4096 = unat v mod 4096"
    by (simp add: unat_word_ariths mod_mod_cancel)
  moreover have "unat (take_bit 12 w) = unat w mod 4096" for w :: u64
    by (simp only: unsigned_take_bit_eq) (simp add: take_bit_eq_mod)
  ultimately have "take_bit 12 (v + 4096) = take_bit 12 v" by (metis unsigned_word_eqI)
  then have "li_top v = v + ?s - take_bit 12 v"
    using bits_ident [of 12 "v + ?s"] unfolding li_top_high by (auto simp: algebra_simps)
  moreover have "li_bottom v = take_bit 12 v - ?s"
    unfolding li_bottom_def signed_take_bit_eq_take_bit_minus by simp
  ultimately show ?thesis by simp
qed

lemma low_bits_li_top: "4096 dvd sint (li_top v)"
proof -
  have "take_bit 12 (li_top v) = 0"
    unfolding li_top_high by (rule bit_word_eqI) (auto simp: bit_simps)
  then show ?thesis using take_bit_eq_0_iff_sint [of 12 "li_top v"] by simp
qed

lemma li_top_bound: "\<bar>sint (li_top v)\<bar> \<le> \<bar>sint v\<bar> + 2048"
proof -
  have "li_top v = word_of_int (sint v - sint (li_bottom v))"
    using li_parts [of v] by (simp add: algebra_simps flip: eq_diff_eq)
  then have "\<bar>sint (li_top v)\<bar> \<le> \<bar>sint v - sint (li_bottom v)\<bar>" using sint_of_int_abs by metis
  then show ?thesis using li_bottom_bounds [of v] by linarith
qed

lemma countr_zero_bits: "n < countr_zero w \<Longrightarrow> \<not> bit w n"
proof -
  let ?xs = "takeWhile (\<lambda>n. \<not> bit w n) [0..<64]"
  assume "n < countr_zero w"
  then have n: "n < length ?xs" by (simp add: countr_zero_def)
  then have "?xs ! n = n" using length_takeWhile_le [of "\<lambda>n. \<not> bit w n" "[0..<64]"] by (simp add: takeWhile_nth)
  then have "n \<in> set ?xs" using nth_mem [OF n] by simp
  then show "\<not> bit w n" by (auto dest: set_takeWhileD)
qed

lemma countr_zero_bound:
  assumes "w \<noteq> 0"
  shows "countr_zero w < 64" and "bit w (countr_zero w)"
proof -
  obtain n where "bit w n" "n < 64" using assms by (auto simp: bit_eq_iff bit_imp_le_length)
  then have "\<not> (\<forall>n \<in> set [0..<64]. \<not> bit w n)" by auto
  then have "takeWhile (\<lambda>n. \<not> bit w n) [0..<64] \<noteq> [0..<64]" by (simp add: takeWhile_eq_all_conv)
  then show l: "countr_zero w < 64"
    using length_takeWhile_le [of "\<lambda>n. \<not> bit w n" "[0..<64]"] takeWhile_eq_take [of "\<lambda>n. \<not> bit w n" "[0..<64]"]
    unfolding countr_zero_def by (metis length_upt diff_zero le_neq_implies_less take_all)
  then show "bit w (countr_zero w)"
    using nth_length_takeWhile [of "\<lambda>n. \<not> bit w n" "[0..<64]"] by (simp add: countr_zero_def)
qed

lemma countr_zero_twelve:
  assumes "v AND 0xfff = 0" and "v \<noteq> 0"
  shows "12 \<le> countr_zero v"
proof -
  have "(0xfff :: u64) = mask 12" by (simp add: mask_numeral)
  then have "take_bit 12 v = 0" using assms(1) by (simp add: take_bit_eq_mask)
  then show ?thesis using countr_zero_bound(2) [OF assms(2)] low_bits [of 12 v] not_less by blast
qed

section \<open>\<open>Li\<close>\<close>

text \<open>Both recursive calls come closer to a constant of 32 bits.\<close>

definition li_distance :: "u64 \<Rightarrow> nat" where
  "li_distance v = nat (2 * \<bar>sint v\<bar> + (if 4096 dvd sint v then 0 else 5000))"

lemma sint_shifted:
  assumes "\<not> fits_int32 v" and "v AND 0xfff = 0"
  shows "4096 * \<bar>sint (signed_drop_bit (countr_zero v) v)\<bar> \<le> \<bar>sint v\<bar>"
    and "push_bit (countr_zero v) (signed_drop_bit (countr_zero v) v) = v"
    and "countr_zero v < 64"
proof -
  let ?n = "countr_zero v"
  have "v \<noteq> 0" using assms(1) by (auto simp: fits_int32_iff)
  note n = countr_zero_twelve [OF assms(2) this] countr_zero_bound [OF this]
  show "?n < 64" by (rule n)
  show restored: "push_bit ?n (signed_drop_bit ?n v) = v"
  proof (rule bit_word_eqI)
    fix i assume "i < LENGTH(64)"
    then show "bit (push_bit ?n (signed_drop_bit ?n v)) i \<longleftrightarrow> bit v i"
      using countr_zero_bits [of i v] by (cases "i < ?n") (auto simp: bit_simps min_def not_less)
  qed
  have d: "sint (signed_drop_bit ?n v) = sint v div 2 ^ ?n"
    by (simp add: sint_signed_drop_bit_eq drop_bit_eq_div)
  have "take_bit ?n v = 0"
    using countr_zero_bits by (intro bit_word_eqI) (auto simp: bit_simps)
  then have dvd: "2 ^ ?n dvd sint v" using take_bit_eq_0_iff_sint [of ?n v] n(2) by simp
  then have "2 ^ ?n * \<bar>sint v div 2 ^ ?n\<bar> = \<bar>sint v\<bar>"
    by (metis abs_mult abs_of_pos dvd_mult_div_cancel zero_less_numeral zero_less_power)
  moreover have "(4096 :: int) \<le> 2 ^ ?n" using power_increasing [OF n(1), of "2 :: int"] by simp
  then have "4096 * \<bar>sint v div 2 ^ ?n\<bar> \<le> 2 ^ ?n * \<bar>sint v div 2 ^ ?n\<bar>" by (intro mult_right_mono) simp_all
  ultimately show "4096 * \<bar>sint (signed_drop_bit ?n v)\<bar> \<le> \<bar>sint v\<bar>" unfolding d by linarith
qed

lemma li_distance_decreases:
  assumes "\<not> fits_int32 v"
  shows "v AND 0xfff \<noteq> 0 \<Longrightarrow> li_distance (li_top v) < li_distance v"
    and "v AND 0xfff = 0 \<Longrightarrow> li_distance (signed_drop_bit (countr_zero v) v) < li_distance v"
proof -
  show "li_distance (li_top v) < li_distance v" if "v AND 0xfff \<noteq> 0"
    using that li_top_bound [of v] low_bits_li_top [of v] by (simp add: li_distance_def low_bits_clear)
  have "2 ^ 31 \<le> \<bar>sint v\<bar>" using assms unfolding fits_int32_iff by linarith
  then show "li_distance (signed_drop_bit (countr_zero v) v) < li_distance v" if "v AND 0xfff = 0"
    using that sint_shifted(1) [OF assms that] by (simp add: li_distance_def low_bits_clear)
qed

function Li :: "Register \<Rightarrow> u64 \<Rightarrow> AssemblerBase \<Rightarrow> AssemblerBase result" where
  "Li dest imm64 a =
     (if fits_int32 imm64 then Li32 dest (ucast imm64) a
      else if imm64 AND 0xfff \<noteq> 0 then
        bnd (Li dest (li_top imm64) a) (\<lambda>a1.
        bnd (IImmediate (li_bottom imm64)) (\<lambda>bottom. Inr (Addi dest dest bottom a1)))
      else
        bnd (Li dest (signed_drop_bit (countr_zero imm64) imm64) a) (\<lambda>a1.
        bnd (Shift64Immediate (of_nat (countr_zero imm64) :: u8)) (\<lambda>zeros. Inr (Slli dest dest zeros a1))))"
  by pat_completeness auto
termination by (relation "measure (\<lambda>(dest, imm64, a). li_distance imm64)") (simp_all add: li_distance_decreases)

declare Li.simps [simp del]

text \<open>The constant of 32 bits with which the recursion ends.\<close>

function li_seed :: "u64 \<Rightarrow> u32" where
  "li_seed v =
     (if fits_int32 v then ucast v
      else if v AND 0xfff \<noteq> 0 then li_seed (li_top v)
      else li_seed (signed_drop_bit (countr_zero v) v))"
  by pat_completeness auto
termination by (relation "measure li_distance") (simp_all add: li_distance_decreases)

declare li_seed.simps [simp del]

section \<open>What the code of a constant computes\<close>

text \<open>
  \<open>loads n f dest v\<close>: \<open>f\<close> appends at most \<open>n\<close> bytes, and running them writes \<open>v\<close> to \<open>dest\<close> and
  changes nothing else.
\<close>

definition code_loads :: "u8 list \<Rightarrow> Register \<Rightarrow> u64 \<Rightarrow> bool" where
  "code_loads code dest v \<longleftrightarrow> (\<forall>s. code_at (mmem s) (mpc s) code \<longrightarrow>
     (\<exists>k. run k s = Some (advance (length code) (write_reg dest v s))))"

definition loads :: "nat \<Rightarrow> (AssemblerBase \<Rightarrow> AssemblerBase result) \<Rightarrow> Register \<Rightarrow> u64 \<Rightarrow> bool" where
  "loads n f dest v \<longleftrightarrow> (\<forall>a. code_size a + n < 2 ^ 32 \<longrightarrow>
     (\<exists>code. f a = Inr (append_code code a) \<and> length code \<le> n \<and> code_loads code dest v))"

lemma loads_mono:
  assumes "loads m f dest v" and "m \<le> n"
  shows "loads n f dest v"
  unfolding loads_def
proof (intro allI impI)
  fix a :: AssemblerBase assume "code_size a + n < 2 ^ 32"
  then have "code_size a + m < 2 ^ 32" using assms(2) by linarith
  then obtain code where "f a = Inr (append_code code a)" "length code \<le> m" "code_loads code dest v"
    using assms(1) unfolding loads_def by blast
  then show "\<exists>code. f a = Inr (append_code code a) \<and> length code \<le> n \<and> code_loads code dest v"
    using assms(2) le_trans by blast
qed

lemma step_assembled:
  assumes "w AND 3 = 3" and "DecodeBaseInstruction w = [c]" and "code_at (mmem s) (mpc s) (bytes_of 4 w)"
  shows "step s = exec_call c 4 s"
  using assms Decode_word [OF assms(3)] by (simp add: step_def low_two_bits)

lemma loads_first:
  assumes "assembles g c" and "\<And>s. exec_call c 4 s = Some (advance 4 (write_reg dest v s))"
  shows "loads 4 (\<lambda>a. Inr (g a)) dest v"
  unfolding loads_def
proof (intro allI impI)
  fix a :: AssemblerBase assume "code_size a + 4 < 2 ^ 32"
  then have "code_size a < 2 ^ 32" by linarith
  then obtain w where w: "g a = append_code (bytes_of 4 w) a" "w AND 3 = 3" "DecodeBaseInstruction w = [c]"
    using assms(1) unfolding assembles_def by blast
  have "run (Suc 0) s = Some (advance 4 (write_reg dest v s))" if "code_at (mmem s) (mpc s) (bytes_of 4 w)" for s
    using step_assembled [OF w(2,3) that] assms(2) by simp
  then have "code_loads (bytes_of 4 w) dest v" unfolding code_loads_def length_bytes_of by blast
  then show "\<exists>code. Inr (g a) = Inr (append_code code a) \<and> length code \<le> 4 \<and> code_loads code dest v"
    using w(1) by (intro exI [of _ "bytes_of 4 w"]) simp
qed

lemma code_loads_then:
  assumes code: "code_loads code dest v" and w: "w AND 3 = 3" "DecodeBaseInstruction w = [c]" and d: "dest \<noteq> 0"
    and exec: "\<And>s. read_reg dest s = v \<Longrightarrow> exec_call c 4 s = Some (advance 4 (write_reg dest v' s))"
  shows "code_loads (code @ bytes_of 4 w) dest v'"
  unfolding code_loads_def
proof (intro allI impI)
  fix s :: machine assume at: "code_at (mmem s) (mpc s) (code @ bytes_of 4 w)"
  let ?s1 = "advance (length code) (write_reg dest v s)"
  obtain k where "run k s = Some ?s1" using code at by (auto simp: code_loads_def code_at_append)
  moreover have "step ?s1 = Some (advance (length code + 4) (write_reg dest v' s))"
    using step_assembled [OF w, of ?s1] at exec [of ?s1] d by (simp add: code_at_append add.commute)
  ultimately have "run (k + Suc 0) s = Some (advance (length (code @ bytes_of 4 w)) (write_reg dest v' s))"
    unfolding run_add by simp
  then show "\<exists>k. run k s = Some (advance (length (code @ bytes_of 4 w)) (write_reg dest v' s))" ..
qed

lemma loads_then:
  assumes "loads n f dest v" and "assembles g c" and "dest \<noteq> 0"
    and "\<And>s. read_reg dest s = v \<Longrightarrow> exec_call c 4 s = Some (advance 4 (write_reg dest v' s))"
  shows "loads (n + 4) (\<lambda>a. bnd (f a) (\<lambda>a1. Inr (g a1))) dest v'"
  unfolding loads_def
proof (intro allI impI)
  fix a :: AssemblerBase assume sz: "code_size a + (n + 4) < 2 ^ 32"
  then have "code_size a + n < 2 ^ 32" by linarith
  then obtain code where code: "f a = Inr (append_code code a)" "length code \<le> n" "code_loads code dest v"
    using assms(1) unfolding loads_def by blast
  then have "code_size (append_code code a) < 2 ^ 32" using sz by simp
  then obtain w where w: "g (append_code code a) = append_code (bytes_of 4 w) (append_code code a)" "w AND 3 = 3"
    "DecodeBaseInstruction w = [c]"
    using assms(2) unfolding assembles_def by blast
  have "code_loads (code @ bytes_of 4 w) dest v'" by (rule code_loads_then [OF code(3) w(2,3) assms(3,4)])
  then show "\<exists>code. bnd (f a) (\<lambda>a1. Inr (g a1)) = Inr (append_code code a) \<and> length code \<le> n + 4 \<and>
      code_loads code dest v'"
    using code(1,2) w(1) by (intro exI [of _ "code @ bytes_of 4 w"]) (simp add: append_code_append)
qed

section \<open>Constants of 32 bits\<close>

lemma IImmediate_accepted:
  fixes v :: "'a::len word"
  assumes "12 \<le> LENGTH('a)" and "LENGTH('a) \<le> 64" and "- 2048 \<le> sint v" and "sint v < 2048"
  shows "IImmediate v = Inr (IImmediate_MakeRaw v)"
  using assms by (simp add: IImmediate_def checked_def CHECK_def IImmediate_AccetableValue_iff)

text \<open>\<open>addi\<close> with a number of twelve bits, and \<open>lui\<close>.\<close>

lemma sint_ucast_16:
  assumes "- 2048 \<le> sint (v :: u32)" and "sint v < 2048"
  shows "scast (ucast v :: u16) = (word_of_int (sint v) :: u64)"
proof -
  have v: "signed_take_bit 11 v = v" using assms by (simp add: signed_take_bit_eq_self_iff)
  have "signed_take_bit 11 (sint v) = sint v" using assms by (simp add: signed_take_bit_int_eq_self)
  then have "sint (ucast v :: u16) = sint v" using sint_narrow [of v] unfolding v by simp
  then show ?thesis by (simp only: scast_eq)
qed

lemma Addi_assembles:
  fixes v :: u32
  assumes "rd < 32" and "rs < 32" and "- 2048 \<le> sint v" and "sint v < 2048"
  shows "assembles (Addi rd rs (IImmediate_MakeRaw v)) (OpImm \<lparr>OpImmArgsTemplate.opcode = OpImmOpcode.kAddi,
    OpImmArgsTemplate.dst = rd, OpImmArgsTemplate.src = rs, OpImmArgsTemplate.imm = ucast v\<rparr>)"
proof -
  have "IImmediate_AccetableValue v" using assms(3,4) by (simp add: IImmediate_AccetableValue_iff)
  from bspec [OF IMM_assembled [OF assms(1,2) this], of "(Addi, 0x13, OpImmOpcode.kAddi)"]
  show ?thesis by (simp add: IMM_instructions_def)
qed

lemma loads_addi:
  assumes "loads n f dest v" and "dest \<noteq> 0" and "dest < 32" and "- 2048 \<le> sint i" and "sint i < 2048"
  shows "loads (n + 4) (\<lambda>a. bnd (f a) (\<lambda>a1. Inr (Addi dest dest (IImmediate_MakeRaw (i :: u32)) a1))) dest
    (v + word_of_int (sint i))"
  by (rule loads_then [OF assms(1) Addi_assembles [OF assms(3,3,4,5)] assms(2)])
    (simp add: exec_call_def sint_ucast_16 [OF assms(4,5)])

text \<open>The number that two instructions make of a constant of 32 bits.\<close>

definition li32_value :: "u32 \<Rightarrow> u64" where
  "li32_value v = word_of_int (if sint v < 2 ^ 31 - 2048 then sint v else sint v - 2 ^ 32)"

lemma sint_split_parts:
  "sint (split_top v) + sint (split_bottom v) = (if sint v < 2 ^ 31 - 2048 then sint v else sint v - 2 ^ 32)"
proof -
  let ?t = "sint (split_top v)" and ?b = "sint (split_bottom v)"
  have b: "- 2048 \<le> ?b" "?b < 2048"
    using signed_take_bit_int_greater_eq_minus_exp [of 11 "sint v"] signed_take_bit_int_less_exp [of 11 "sint v"]
    by (simp_all add: split_bottom_def sint_signed_take_bit)
  have "4096 dvd ?t" using take_bit_eq_0_iff_sint [of 12 "split_top v"] by (simp add: low_bits_split_top)
  then obtain m where m: "?t = 4096 * m" by (elim dvdE)
  have r: "?t < 2147483648" "- 2147483648 \<le> ?t" "sint v < 2147483648" "- 2147483648 \<le> sint v"
    using sint_less [of "split_top v"] sint_greater_eq [of "split_top v"] sint_less [of v] sint_greater_eq [of v]
    by simp_all
  have "m \<le> 524287" using m r(1) by linarith
  then have t: "?t \<le> 2147479552" using m by linarith
  have "(word_of_int (?t + ?b) :: u32) = word_of_int (sint v)"
    using split_sum [of v] by simp
  then have "(2 ^ 32 :: int) dvd (?t + ?b) - sint v"
    unfolding word_of_int_eq_iff take_bit_eq_mod mod_eq_dvd_iff by simp
  then obtain k where k: "?t + ?b - sint v = 4294967296 * k" by (elim dvdE) simp
  have "- 1 \<le> k" "k \<le> 0" using k t b r by linarith+
  then consider "k = 0" | "k = - 1" by linarith
  then show ?thesis
  proof cases
    case 1
    then have "?t + ?b = sint v" using k by linarith
    moreover have "sint v < 2147481600" using calculation t b(2) by linarith
    ultimately show ?thesis by simp
  next
    case 2
    then have "?t + ?b = sint v - 4294967296" using k by linarith
    moreover have "\<not> sint v < 2147481600" using calculation r(2) b(1) by linarith
    ultimately show ?thesis by simp
  qed
qed

lemma li32_value_parts: "word_of_int (sint (split_top v) + sint (split_bottom v)) = li32_value v"
  by (simp only: sint_split_parts li32_value_def)

lemma exec_Lui:
  "exec_call (consumer_call.Lui \<lparr>UpperImmArgs.dst = rd, UpperImmArgs.imm = v\<rparr>) 4 s =
    Some (advance 4 (write_reg rd (scast v) s))"
  by (simp add: exec_call_def)

lemma Li32_loads:
  assumes "dest \<noteq> 0" and "dest < 32"
  shows "loads 8 (Li32 dest v) dest (li32_value v)"
proof (cases "- 2048 \<le> sint v \<and> sint v \<le> 2047")
  case True
  then have v: "- 2048 \<le> sint v" "sint v < 2048" by simp_all
  then have "Li32 dest v = (\<lambda>a. Inr (Addi dest zero (IImmediate_MakeRaw v) a))"
    by (simp add: Li32_def fun_eq_iff IImmediate_accepted)
  moreover have "li32_value v = word_of_int (sint v)" using v by (simp add: li32_value_def)
  moreover have "loads 4 (\<lambda>a. Inr (Addi dest zero (IImmediate_MakeRaw v) a)) dest (word_of_int (sint v))"
    by (rule loads_first [OF Addi_assembles])
      (use assms v in \<open>simp_all add: zero_def exec_call_def sint_ucast_16 read_reg_def\<close>)
  ultimately show ?thesis by (metis loads_mono numeral_le_iff semiring_norm)
next
  case False
  have lui: "loads 4 (\<lambda>a. Inr (Assembler.Lui dest (UImmediate_MakeRaw (split_top v)) a)) dest
      (word_of_int (sint (split_top v)))"
    by (rule loads_first [OF JUMP_decodes(3) [OF assms(2) low_bits_split_top]]) (simp only: exec_Lui scast_eq)
  have b: "- 2048 \<le> sint (split_bottom v)" "sint (split_bottom v) < 2048"
    using signed_take_bit_int_greater_eq_minus_exp [of 11 "sint v"] signed_take_bit_int_less_exp [of 11 "sint v"]
    by (simp_all add: split_bottom_def sint_signed_take_bit)
  have l: "Li32 dest v a = (if split_bottom v \<noteq> 0
      then bnd (Inr (Assembler.Lui dest (UImmediate_MakeRaw (split_top v)) a))
        (\<lambda>a1. Inr (Addi dest dest (IImmediate_MakeRaw (split_bottom v)) a1))
      else Inr (Assembler.Lui dest (UImmediate_MakeRaw (split_top v)) a))" for a
    unfolding Li32_def if_not_P [OF False] by (simp add: UImmediate_split_top IImmediate_split_bottom Let_def)
  show ?thesis
  proof (cases "split_bottom v = 0")
    case True
    then have "Li32 dest v = (\<lambda>a. Inr (Assembler.Lui dest (UImmediate_MakeRaw (split_top v)) a))" using l by auto
    moreover have "li32_value v = word_of_int (sint (split_top v))" using li32_value_parts [of v] True by simp
    ultimately show ?thesis using loads_mono [OF lui, of 8] by simp
  next
    case False
    then have "Li32 dest v = (\<lambda>a. bnd (Inr (Assembler.Lui dest (UImmediate_MakeRaw (split_top v)) a))
        (\<lambda>a1. Inr (Addi dest dest (IImmediate_MakeRaw (split_bottom v)) a1)))" using l by (auto simp del: bnd_Inr)
    then show ?thesis
      using loads_addi [OF lui assms(1,2) b] li32_value_parts [of v] by (simp add: numeral_Bit0)
  qed
qed

section \<open>Constants of 64 bits\<close>

text \<open>The number that the instructions of \<open>Li\<close> make of a constant.\<close>

function li_value :: "u64 \<Rightarrow> u64" where
  "li_value v =
     (if fits_int32 v then li32_value (ucast v)
      else if v AND 0xfff \<noteq> 0 then li_value (li_top v) + li_bottom v
      else push_bit (countr_zero v) (li_value (signed_drop_bit (countr_zero v) v)))"
  by pat_completeness auto
termination by (relation "measure li_distance") (simp_all add: li_distance_decreases)

declare li_value.simps [simp del]

lemma li32_value_correct: "sint v < 2 ^ 31 - 2048 \<Longrightarrow> li32_value v = scast v"
  by (simp add: li32_value_def)

lemma li_value_correct: "sint (li_seed v) < 2 ^ 31 - 2048 \<Longrightarrow> li_value v = v"
proof (induction v rule: li_value.induct)
  case (1 v)
  consider "fits_int32 v" | "\<not> fits_int32 v" "v AND 0xfff \<noteq> 0" | "\<not> fits_int32 v" "v AND 0xfff = 0" by blast
  then show ?case
  proof cases
    case 1
    then have "li_seed v = ucast v" "li_value v = li32_value (ucast v)"
      by (simp_all add: li_seed.simps [of v] li_value.simps [of v])
    then show ?thesis using "1.prems" 1 li32_value_correct [of "ucast v"] by (simp add: fits_int32_def)
  next
    case 2
    then have "li_seed v = li_seed (li_top v)" "li_value v = li_value (li_top v) + li_bottom v"
      by (simp_all add: li_seed.simps [of v] li_value.simps [of v])
    then show ?thesis using "1.IH"(1) [OF 2] "1.prems" by (simp add: li_parts)
  next
    case 3
    then have "li_seed v = li_seed (signed_drop_bit (countr_zero v) v)"
      "li_value v = push_bit (countr_zero v) (li_value (signed_drop_bit (countr_zero v) v))"
      by (simp_all add: li_seed.simps [of v] li_value.simps [of v])
    then show ?thesis using "1.IH"(2) 3 "1.prems" by (simp add: sint_shifted(2))
  qed
qed

lemma loads_slli:
  assumes "loads n f dest v" and "dest \<noteq> 0" and "dest < 32" and "z < 64"
  shows "loads (n + 4) (\<lambda>a. bnd (f a) (\<lambda>a1. bnd (Shift64Immediate (of_nat z :: u8)) (\<lambda>zeros.
    Inr (Slli dest dest zeros a1)))) dest (push_bit z v)"
proof -
  have z: "unat (of_nat z :: u8) = z" using assms(4) by (simp add: unat_of_nat take_bit_nat_eq_self)
  then have sh: "(of_nat z :: u8) < 64" by (simp add: word_less_nat_alt assms(4))
  have accepted: "Shift64Immediate (of_nat z :: u8) = Inr (Shift64Immediate_MakeRaw (of_nat z :: u8))"
    using assms(4) by (simp add: Shift64Immediate_def checked_def Shift64Immediate_AccetableValue_def z)
  from bspec [OF SHIFT_assembled [OF assms(3,3) sh], of "(Slli, 0x1013, ShiftImmOpcode.kSlli)"]
  have "assembles (Slli dest dest (Shift64Immediate_MakeRaw (of_nat z :: u8))) (OpImm_shift
      \<lparr>ShiftImmArgsTemplate.opcode = ShiftImmOpcode.kSlli, ShiftImmArgsTemplate.dst = dest,
       ShiftImmArgsTemplate.src = dest, ShiftImmArgsTemplate.imm = of_nat z\<rparr>)"
    by (simp add: SHIFT_instructions_def)
  from loads_then [OF assms(1) this assms(2), of "push_bit z v"]
  show ?thesis unfolding accepted bnd_Inr by (simp add: exec_call_def z)
qed

lemma loads_li_bottom:
  assumes "loads n f dest v" and "dest \<noteq> 0" and "dest < 32"
  shows "loads (n + 4) (\<lambda>a. bnd (f a) (\<lambda>a1. bnd (IImmediate (li_bottom imm64)) (\<lambda>bottom.
    Inr (Addi dest dest bottom a1)))) dest (v + li_bottom imm64)"
proof -
  let ?b = "li_bottom imm64" and ?i = "ucast (li_bottom imm64) :: u32"
  have s: "sint ?i = sint ?b"
    using li_bottom_bounds [of imm64] scast_ucast_32(1) [of ?b] by simp
  have "IImmediate ?b = Inr (IImmediate_MakeRaw ?b)" using li_bottom_bounds [of imm64] by (simp add: IImmediate_accepted)
  moreover have "IImmediate_MakeRaw ?b = IImmediate_MakeRaw ?i" by (simp add: IImmediate_MakeRaw_def)
  ultimately have accepted: "IImmediate ?b = Inr (IImmediate_MakeRaw ?i)" by simp
  have "- 2048 \<le> sint ?i" "sint ?i < 2048" unfolding s by (rule li_bottom_bounds)+
  from loads_addi [OF assms this] show ?thesis unfolding accepted bnd_Inr s by simp
qed

lemma Li_cases:
  shows "fits_int32 v \<Longrightarrow> Li dest v = Li32 dest (ucast v)"
    and "\<not> fits_int32 v \<Longrightarrow> v AND 0xfff \<noteq> 0 \<Longrightarrow> Li dest v = (\<lambda>a. bnd (Li dest (li_top v) a) (\<lambda>a1.
      bnd (IImmediate (li_bottom v)) (\<lambda>bottom. Inr (Addi dest dest bottom a1))))"
    and "\<not> fits_int32 v \<Longrightarrow> v AND 0xfff = 0 \<Longrightarrow> Li dest v =
      (\<lambda>a. bnd (Li dest (signed_drop_bit (countr_zero v) v) a) (\<lambda>a1.
        bnd (Shift64Immediate (of_nat (countr_zero v) :: u8)) (\<lambda>zeros. Inr (Slli dest dest zeros a1))))"
  by (rule ext, subst Li.simps, simp)+

text \<open>A constant of \<open>30 + 12 * j\<close> bits needs \<open>2 + 2 * j\<close> instructions.\<close>

lemma Li_loads_value:
  assumes d: "dest \<noteq> 0" "dest < 32" and "\<bar>sint v\<bar> \<le> 2 ^ (30 + 12 * j)"
  shows "loads (8 + 8 * j) (Li dest v) dest (li_value v)"
  using assms(3)
proof (induction j arbitrary: v)
  case 0
  then have "\<bar>sint v\<bar> \<le> 1073741824" by simp
  then have "fits_int32 v" unfolding fits_int32_iff by auto
  then show ?case using Li32_loads [OF d, of "ucast v"] by (simp add: Li_cases(1) li_value.simps [of v])
next
  case (Suc j)
  have short: "loads (8 + 8 * j + 4) (Li dest w) dest (li_value w)"
    if w: "w AND 0xfff = 0 \<or> fits_int32 w" "\<bar>sint w\<bar> \<le> 2 ^ (30 + 12 * Suc j) + 2048" for w
  proof (cases "fits_int32 w")
    case True
    then have "loads 8 (Li dest w) dest (li_value w)"
      using Li32_loads [OF d, of "ucast w"] by (simp add: Li_cases(1) li_value.simps [of w])
    then show ?thesis by (rule loads_mono) simp
  next
    case False
    then have z: "w AND 0xfff = 0" using w(1) by blast
    note s = sint_shifted [OF False z]
    have "(2 :: int) ^ (30 + 12 * Suc j) = 4096 * 2 ^ (30 + 12 * j)" by (simp add: power_add)
    then have "\<bar>sint (signed_drop_bit (countr_zero w) w)\<bar> \<le> 2 ^ (30 + 12 * j)"
      using s(1) w(2) by linarith
    from loads_slli [OF Suc.IH [OF this] d s(3)]
    show ?thesis using False z by (simp add: Li_cases(3) li_value.simps [of w])
  qed
  show ?case
  proof (cases "fits_int32 v \<or> v AND 0xfff = 0")
    case True
    then have "loads (8 + 8 * j + 4) (Li dest v) dest (li_value v)" using Suc.prems by (intro short) auto
    then show ?thesis by (rule loads_mono) simp
  next
    case False
    have "loads (8 + 8 * j + 4) (Li dest (li_top v)) dest (li_value (li_top v))"
      using Suc.prems li_top_bound [of v] low_bits_li_top [of v] by (intro short) (auto simp: low_bits_clear)
    from loads_li_bottom [OF this d, of v]
    show ?thesis using False by (simp add: Li_cases(2) li_value.simps [of v] add.assoc)
  qed
qed

lemma Li_loads_any:
  assumes "dest \<noteq> 0" and "dest < 32"
  shows "loads 32 (Li dest v) dest (li_value v)"
proof -
  have "\<bar>sint v\<bar> \<le> 2 ^ (30 + 12 * 3)" using sint_less [of v] sint_greater_eq [of v] by simp
  from Li_loads_value [OF assms this] show ?thesis by simp
qed

text \<open>
  C28: a constant is loaded: the at most eight instructions that \<open>Li\<close> assembles leave the constant in
  \<open>dest\<close> and change no other register and no memory, for every constant whose last part of 32 bits
  is below \<open>0x7ffff800\<close>.
\<close>
theorem Li_loads_constant:
  assumes "dest \<noteq> 0" and "dest < 32" and "sint (li_seed v) < 2 ^ 31 - 2048"
  shows "loads 32 (Li dest v) dest v"
  using Li_loads_any [OF assms(1,2), of v] li_value_correct [OF assms(3)] by simp

theorem Li_loads_constant_witness: "loads 32 (Li 10 0x123456789abcdef0) 10 0x123456789abcdef0"
proof -
  have "sint (li_seed 0x123456789abcdef0) < 2 ^ 31 - 2048" by code_simp
  from Li_loads_constant [OF _ _ this, of 10] show ?thesis by simp
qed

text \<open>
  C34: the constants from \<open>0x7ffff800\<close> to \<open>0x7fffffff\<close> are loaded as negative numbers of 64 bits:
  \<open>lui\<close> extends the sign of the upper part \<open>0x80000000\<close>, and \<open>addi\<close>, unlike \<open>addiw\<close>, does not cut
  the sum to 32 bits.
\<close>
theorem Li_misses_largest_constants:
  assumes "dest \<noteq> 0" and "dest < 32" and "2 ^ 31 - 2048 \<le> sint v" and "sint v < 2 ^ 31"
  shows "loads 32 (Li dest v) dest (v - 0x100000000)"
proof -
  have f: "fits_int32 v" using assms(3,4) by (simp add: fits_int32_iff)
  have "sint (ucast v :: u32) = sint v" using assms(3,4) scast_ucast_32(1) [of v] by simp
  then have "li_value v = word_of_int (sint v - 2 ^ 32)"
    using f assms(3) by (simp add: li_value.simps [of v] li32_value_def)
  also have "\<dots> = v - 0x100000000" by simp
  finally show ?thesis using Li_loads_any [OF assms(1,2), of v] by simp
qed

theorem Li_misses_largest_constants_witness: "loads 32 (Li 10 0x7fffffff) 10 (- 0x80000001)"
  using Li_misses_largest_constants [of 10 "0x7fffffff"] by simp

end
