(* ===== verification/Conditional_Branches.thy ===== *)
theory Conditional_Branches
  imports Load_Constant
begin

text \<open>
  The conditions of \<open>riscv.h\<close>: \<open>ToReverseCond\<close>, what a condition means, and that the code of \<open>Bcc\<close>
  with an immediate jumps exactly when its condition holds.
\<close>

section \<open>Conditions\<close>

text \<open>The cast of a number to \<open>Condition\<close>, for the numbers that are the value of a condition.\<close>

definition Conditions :: "Condition list" where
  "Conditions = [kInvalidCondition, kEqual, kNotEqual, kLess, kGreaterEqual, kBelow, kAboveEqual, kAlways, kNever]"

definition Condition_cast :: "u32 \<Rightarrow> Condition option" where
  "Condition_cast v = find (\<lambda>cc. Condition_val cc = v) Conditions"

definition ToReverseCond :: "Condition \<Rightarrow> Condition option result" where
  "ToReverseCond cond = bnd (CHECK (cond \<noteq> kInvalidCondition)) (\<lambda>_. Inr (Condition_cast (Condition_val cond XOR 1)))"

text \<open>What a condition means for the two registers that are compared.\<close>

primrec condition_holds :: "Condition \<Rightarrow> u64 \<Rightarrow> u64 \<Rightarrow> bool" where
  "condition_holds kInvalidCondition v w = False"
| "condition_holds kEqual v w = (v = w)"
| "condition_holds kNotEqual v w = (v \<noteq> w)"
| "condition_holds kLess v w = (sint v < sint w)"
| "condition_holds kGreaterEqual v w = (sint w \<le> sint v)"
| "condition_holds kBelow v w = (unat v < unat w)"
| "condition_holds kAboveEqual v w = (unat w \<le> unat v)"
| "condition_holds kAlways v w = True"
| "condition_holds kNever v w = False"

text \<open>
  \<open>ToReverseCond\<close> aborts for the invalid condition only, never leaves the enumeration, and the
  condition it returns holds exactly when the given one does not.
\<close>
theorem ToReverseCond_negates:
  "case ToReverseCond cc of
     Inl e \<Rightarrow> cc = kInvalidCondition \<and> e = CheckFailed
   | Inr None \<Rightarrow> False
   | Inr (Some r) \<Rightarrow> (\<forall>v w. condition_holds r v w = (\<not> condition_holds cc v w)) \<and> ToReverseCond r = Inr (Some cc)"
  by (cases cc) (auto simp: ToReverseCond_def Condition_cast_def Conditions_def)

section \<open>The code of \<open>Bcc\<close>\<close>

text \<open>\<open>Bcc\<close> emits the words of the branches with a fixed condition.\<close>

definition branch_of :: "Condition \<Rightarrow> (Register \<Rightarrow> Register \<Rightarrow> u32 \<Rightarrow> AssemblerBase \<Rightarrow> AssemblerBase) \<times> u32 \<times> BranchOpcode" where
  "branch_of cc = (case cc of
      kEqual \<Rightarrow> (Beq_imm, 0x63, BranchOpcode.kBeq)
    | kNotEqual \<Rightarrow> (Bne_imm, 0x1063, BranchOpcode.kBne)
    | kLess \<Rightarrow> (Blt_imm, 0x4063, BranchOpcode.kBlt)
    | kGreaterEqual \<Rightarrow> (Bge_imm, 0x5063, BranchOpcode.kBge)
    | kBelow \<Rightarrow> (Bltu_imm, 0x6063, BranchOpcode.kBltu)
    | _ \<Rightarrow> (Bgeu_imm, 0x7063, BranchOpcode.kBgeu))"

definition compares :: "Condition \<Rightarrow> bool" where
  "compares cc \<longleftrightarrow> cc \<notin> {kInvalidCondition, kAlways, kNever}"

lemma branch_of_facts:
  assumes "compares cc"
  shows "branch_of cc \<in> set BRANCH_instructions" and "condition_ok cc"
    and "branch_taken (snd (snd (branch_of cc))) v w = condition_holds cc v w"
    and "fst (branch_of cc) = EmitBTypeInstruction (0x63 OR Cond (Condition_val cc))"
  using assms
  by (cases cc; simp add: compares_def branch_of_def BRANCH_instructions_def condition_ok_def branch_taken_def
    word_less_nat_alt word_le_nat_alt Cond_def fun_eq_iff Beq_imm_def Bge_imm_def Bgeu_imm_def Blt_imm_def
    Bltu_imm_def Bne_imm_def; fail)+

lemma Bcc_imm_branch:
  assumes "compares cc"
  shows "Bcc_imm cc rs1 rs2 immediate a = Inr (fst (branch_of cc) rs1 rs2 immediate a)"
  using assms branch_of_facts(2) [OF assms]
  by (simp add: branch_of_facts(4) Bcc_imm_def compares_def EmitBTypeInstruction_def EmitInstruction_def
      encode_def ac_simps)

text \<open>An offset of thirteen bits is one of 21 bits, and \<open>jimmediate\<close> moves its bits to their places there.\<close>

lemma B_accepted_bits:
  assumes "BImmediate_AccetableValue (b :: u32)"
  shows "12 < m \<Longrightarrow> m < 32 \<Longrightarrow> bit b m \<longleftrightarrow> bit b 12" and "even b"
proof -
  note vb = accepted_bits [OF assms [unfolded BImmediate_AccetableValue_def format_masks]]
  show "12 < m \<Longrightarrow> m < 32 \<Longrightarrow> bit b m \<longleftrightarrow> bit b 12" by (rule vb) simp_all
  show "even b" using vb(2) [of 0] by (simp add: bit_0)
qed

lemma jimmediate_B:
  assumes "BImmediate_AccetableValue (b :: u32)"
  shows "jimmediate (BImmediate_MakeRaw b) = JImmediate_MakeRaw b"
  by (rule word32_eqI) (simp add: jimmediate_def word_bits B_accepted_bits [OF assms])

lemma B_offset:
  assumes "BImmediate_AccetableValue (b :: u32)"
  shows "scast (ucast b :: u16) = (scast b :: u64)"
  using B_accepted_bits(1) [OF assms] by (intro bit_word_eqI) (auto simp: bit_simps min_def)

lemma B_accepted_J: "BImmediate_AccetableValue (b :: u32) \<Longrightarrow> JImmediate_AccetableValue b"
  by (simp add: BImmediate_AccetableValue_iff JImmediate_AccetableValue_iff)

lemma Bcc_imm_always:
  assumes "BImmediate_AccetableValue (b :: u32)"
  shows "Bcc_imm kAlways rs1 rs2 (BImmediate_MakeRaw b) a = Inr (Jal zero (JImmediate_MakeRaw b) a)"
  by (simp add: Bcc_imm_def jimmediate_B [OF assms])

lemma assembled_step:
  assumes "assembles g c" and "code_size a < 2 ^ 32"
    and "\<And>s. exec_call c 4 s = Some (f s)"
  shows "\<exists>code. g a = append_code code a \<and> length code = 4 \<and>
    (\<forall>s. code_at (mmem s) (mpc s) code \<longrightarrow> step s = Some (f s))"
proof -
  obtain w where w: "g a = append_code (bytes_of 4 w) a" "w AND 3 = 3" "DecodeBaseInstruction w = [c]"
    using assms(1,2) unfolding assembles_def by blast
  then show ?thesis
    using step_assembled [OF w(2,3)] assms(3) by (intro exI [of _ "bytes_of 4 w"]) simp
qed

text \<open>
  C31: \<open>Bcc\<close> with an immediate assembles at most one instruction; run at an address, it leaves the
  registers and the memory as they are and goes on at the address plus the immediate when the
  condition holds for the two registers, and behind its code otherwise, for every condition but the
  invalid one, \<open>kAlways\<close> and \<open>kNever\<close> included.
\<close>
theorem Bcc_jumps_on_condition:
  assumes "rs1 < 32" and "rs2 < 32" and "BImmediate_AccetableValue (b :: u32)"
    and "cc \<noteq> kInvalidCondition" and "code_size a < 2 ^ 32"
  shows "\<exists>code. Bcc_imm cc rs1 rs2 (BImmediate_MakeRaw b) a = Inr (append_code code a) \<and> length code \<le> 4 \<and>
    (\<forall>s. code_at (mmem s) (mpc s) code \<longrightarrow> run (length code div 4) s = Some (s
      \<lparr>mpc := mpc s + (if condition_holds cc (read_reg rs1 s) (read_reg rs2 s)
                       then scast b else of_nat (length code))\<rparr>))"
proof (cases "compares cc")
  case True
  let ?k = "snd (snd (branch_of cc))"
  have "case branch_of cc of (f, op, k) \<Rightarrow> assembles (f rs1 rs2 (BImmediate_MakeRaw b))
      (consumer_call.CompareAndBranch \<lparr>BranchArgs.opcode = k, BranchArgs.src1 = rs1, BranchArgs.src2 = rs2, BranchArgs.offset = ucast b\<rparr>)"
    by (rule bspec [OF BRANCH_assembled [OF assms(1-3)] branch_of_facts(1) [OF True]])
  then have "assembles (fst (branch_of cc) rs1 rs2 (BImmediate_MakeRaw b))
      (consumer_call.CompareAndBranch \<lparr>BranchArgs.opcode = ?k, BranchArgs.src1 = rs1, BranchArgs.src2 = rs2, BranchArgs.offset = ucast b\<rparr>)"
    by (simp add: split_beta)
  then obtain code where code: "fst (branch_of cc) rs1 rs2 (BImmediate_MakeRaw b) a = append_code code a" "length code = 4"
    "\<forall>s. code_at (mmem s) (mpc s) code \<longrightarrow> step s = Some (s\<lparr>mpc := mpc s +
      (if condition_holds cc (read_reg rs1 s) (read_reg rs2 s) then scast b else 4)\<rparr>)"
    by (rule exE [OF assembled_step [OF _ assms(5), where f = "\<lambda>s. s\<lparr>mpc := mpc s +
        (if condition_holds cc (read_reg rs1 s) (read_reg rs2 s) then scast b else 4)\<rparr>"]])
      (simp_all add: exec_call_def branch_of_facts(3) [OF True] B_offset [OF assms(3)] advance_def)
  then show ?thesis by (intro exI [of _ code]) (simp add: Bcc_imm_branch [OF True])
next
  case False
  then consider "cc = kAlways" | "cc = kNever" using assms(4) by (auto simp: compares_def)
  then show ?thesis
  proof cases
    case 1
    have "assembles (Jal zero (JImmediate_MakeRaw b)) (consumer_call.JumpAndLink
        \<lparr>JumpAndLinkArgs.dst = zero, JumpAndLinkArgs.offset = b, JumpAndLinkArgs.insn_len = 4\<rparr>)"
      by (rule JUMP_decodes(1)) (simp_all add: zero_def B_accepted_J [OF assms(3)])
    from assembled_step [OF this assms(5), where f = "\<lambda>s. s\<lparr>mpc := mpc s + scast b\<rparr>"]
    obtain code where "Jal zero (JImmediate_MakeRaw b) a = append_code code a" "length code = 4"
      "\<forall>s. code_at (mmem s) (mpc s) code \<longrightarrow> step s = Some (s\<lparr>mpc := mpc s + scast b\<rparr>)"
      by (auto simp: exec_call_def)
    then show ?thesis by (intro exI [of _ code]) (simp add: 1 Bcc_imm_always [OF assms(3)])
  next
    case 2
    then show ?thesis by (intro exI [of _ "[]"]) (simp add: Bcc_imm_def)
  qed
qed

theorem Bcc_jumps_on_condition_witness:
  "\<exists>code. Bcc_imm kBelow 5 6 (BImmediate_MakeRaw (- 16 :: u32)) new_assembler =
    Inr (append_code code new_assembler) \<and> length code \<le> 4"
proof -
  have "code_size new_assembler < 2 ^ 32" by (simp add: code_size_def new_assembler_def)
  from Bcc_jumps_on_condition [OF _ _ _ _ this, of 5 6 "- 16" kBelow]
  show ?thesis by (auto simp: BImmediate_AccetableValue_iff)
qed

end
