(* ===== verification/Bit_Util.thy ===== *)
theory Bit_Util
  imports Prelude
begin

text \<open>
  \<open>berberis/base/bit_util.h\<close>: powers of two and alignment, counting of bits, and the saturating and
  wrapping integers. An integer is a word of its width; where the code asks whether the type is
  signed there is one definition for each answer, with the suffixes \<open>_s\<close> and \<open>_u\<close>. A result is \<open>None\<close>
  where C++ leaves it undefined: a division by zero, the trailing zeros of zero.
\<close>

section \<open>Powers of two and alignment\<close>

definition IsPowerOf2 :: "'a::len word \<Rightarrow> bool" where
  "IsPowerOf2 x = (x AND (x - 1) = 0)"

text \<open>The alignment of \<open>size_t\<close> and of pointers, which has 64 bits.\<close>

definition AlignDown :: "u64 \<Rightarrow> u64 \<Rightarrow> u64" where
  "AlignDown x align = x AND NOT (align - 1)"

definition AlignUp :: "u64 \<Rightarrow> u64 \<Rightarrow> u64" where
  "AlignUp x align = AlignDown (x + align - 1) align"

definition IsAligned :: "u64 \<Rightarrow> u64 \<Rightarrow> bool" where
  "IsAligned x align = (AlignDown x align = x)"

lemma power_of_two_bits:
  assumes "x \<noteq> 0" and "IsPowerOf2 x"
  obtains n where "n < LENGTH('a)" and "x = (push_bit n 1 :: 'a::len word)"
proof -
  obtain n where n: "bit x n" "n < LENGTH('a)" "\<And>m. m < n \<Longrightarrow> \<not> bit x m"
  proof -
    obtain k where "bit x k" using assms(1) by (auto simp: bit_eq_iff)
    then have "bit x (LEAST k. bit x k)" by (rule LeastI)
    then show ?thesis using that [of "LEAST k. bit x k"] not_less_Least bit_imp_le_length by blast
  qed
  define m where "m = Suc n"
  let ?y = "drop_bit m x" and ?one = "push_bit n (1 :: 'a word)"
  have one: "bit ?one i \<longleftrightarrow> i = n" for i
    using n(2) by (auto simp: bit_simps bit_exp_iff simp flip: push_bit_of_1)
  have m: "n < m" by (simp add: m_def)
  have split: "x = push_bit m ?y OR ?one"
  proof (rule bit_word_eqI)
    fix i assume i: "i < LENGTH('a)"
    consider "i < n" | "i = n" | "m \<le> i" unfolding m_def by linarith
    then show "bit x i \<longleftrightarrow> bit (push_bit m ?y OR ?one) i"
      by cases (use n i m in \<open>simp_all add: bit_or_iff one bit_push_bit_iff bit_drop_bit_eq bit_1_iff del: push_bit_of_1\<close>)
  qed
  then have x: "x = push_bit m ?y + ?one"
    by (metis (no_types, lifting) disjunctive_add one bit_push_bit_iff m_def not_less_eq_eq le_refl)
  have "x - 1 = push_bit m ?y + mask n"
    using x by (simp add: mask_eq_exp_minus_1 algebra_simps)
  also have "\<dots> = push_bit m ?y OR mask n"
    by (rule disjunctive_add) (auto simp: bit_push_bit_iff bit_mask_iff m_def)
  finally have pred: "x - 1 = push_bit m ?y OR mask n" .
  have "x AND (x - 1) = push_bit m ?y"
  proof (rule bit_word_eqI)
    fix i assume "i < LENGTH('a)"
    then show "bit (x AND (x - 1)) i \<longleftrightarrow> bit (push_bit m ?y) i"
      using m unfolding pred
      by (subst split) (auto simp: bit_and_iff bit_or_iff bit_mask_iff bit_push_bit_iff bit_1_iff simp del: push_bit_of_1)
  qed
  then have "x = ?one" using assms(2) split by (simp add: IsPowerOf2_def)
  then show ?thesis using that n(2) by blast
qed

lemma bit_two_power: "bit (push_bit n 1 :: 'a::len word) i \<longleftrightarrow> i = n \<and> n < LENGTH('a)"
  by (auto simp: bit_exp_iff)

lemma unat_two_power: "n < LENGTH('a) \<Longrightarrow> unat (push_bit n 1 :: 'a::len word) = 2 ^ n"
  by (rule bit_eqI) (auto simp: bit_unsigned_iff bit_two_power bit_exp_iff simp del: push_bit_of_1)

lemma push_bit_power_of_two: "IsPowerOf2 (push_bit n 1 :: 'a::len word)"
proof (cases "n < LENGTH('a)")
  case True
  have "(push_bit n 1 :: 'a word) - 1 = mask n" by (simp add: mask_eq_exp_minus_1)
  moreover have "push_bit n 1 AND (mask n :: 'a word) = 0"
    by (rule bit_word_eqI) (auto simp: bit_and_iff bit_mask_iff bit_two_power simp del: push_bit_of_1)
  ultimately show ?thesis by (simp only: IsPowerOf2_def)
next
  case False
  then have "(push_bit n 1 :: 'a word) = 0" by (intro bit_word_eqI) (simp add: bit_two_power del: push_bit_of_1)
  then show ?thesis by (simp only: IsPowerOf2_def) simp
qed

theorem IsPowerOf2_iff:
  assumes "x \<noteq> 0"
  shows "IsPowerOf2 (x :: 'a::len word) \<longleftrightarrow> (\<exists>n < LENGTH('a). unat x = 2 ^ n)"
proof
  assume "IsPowerOf2 x"
  then obtain n where n: "n < LENGTH('a)" "x = push_bit n 1" using power_of_two_bits assms by blast
  then have "unat x = 2 ^ n" by (simp only: unat_two_power)
  then show "\<exists>n < LENGTH('a). unat x = 2 ^ n" using n by blast
next
  assume "\<exists>n < LENGTH('a). unat x = 2 ^ n"
  then obtain n where "n < LENGTH('a)" "unat x = 2 ^ n" by blast
  then have "x = push_bit n 1" by (intro unsigned_word_eqI [where 'a = nat]) (simp only: unat_two_power)
  then show "IsPowerOf2 x" by (simp only: push_bit_power_of_two)
qed

lemma AlignDown_power:
  assumes "n < 64"
  shows "AlignDown x (push_bit n 1) = push_bit n (drop_bit n x)"
proof -
  have "(push_bit n 1 :: u64) - 1 = mask n" by (simp add: mask_eq_exp_minus_1)
  then show ?thesis unfolding AlignDown_def
    by (intro bit_word_eqI) (auto simp: bit_simps)
qed

lemma alignment_cases:
  assumes "IsPowerOf2 (align :: u64)" and "align \<noteq> 0"
  obtains n where "n < 64" "align = push_bit n 1" "unat align = 2 ^ n"
proof -
  obtain n where "n < LENGTH(64)" "align = push_bit n 1" using power_of_two_bits [OF assms(2,1)] by blast
  then show ?thesis using that unat_two_power [of n, where 'a = 64] by simp
qed

lemma unat_AlignDown:
  assumes "IsPowerOf2 align" and "align \<noteq> 0"
  shows "unat (AlignDown x align) = unat x div unat align * unat align"
proof -
  obtain n where n: "n < 64" "align = push_bit n 1" "unat align = 2 ^ n" using assms by (rule alignment_cases)
  have "unat x div 2 ^ n * 2 ^ n < 2 ^ 64" by (rule le_less_trans [OF div_times_less_eq_dividend]) (use unsigned_less [of x, where 'a = nat] in simp)
  moreover have "unat (drop_bit n x) = unat x div 2 ^ n" unfolding unat_drop_bit_eq
    by (simp only: drop_bit_eq_div)
  moreover have "unat (2 ^ n :: u64) = 2 ^ n" using unat_two_power [of n, where 'a = 64] n(1) by simp
  ultimately show ?thesis unfolding n(3) unfolding n(2) AlignDown_power [OF n(1)]
    by (simp add: push_bit_eq_mult unat_word_ariths)
qed

lemma unat_AlignUp:
  assumes "IsPowerOf2 align" and "align \<noteq> 0" and "unat x + unat align - 1 < 2 ^ 64"
  shows "unat (AlignUp x align) = (unat x + unat align - 1) div unat align * unat align"
proof -
  have "unat align \<noteq> 0" using assms(2) by (simp add: unat_eq_0)
  have "x + align - 1 = of_nat (unat x + unat align - 1)"
    using \<open>unat align \<noteq> 0\<close> by (simp add: of_nat_diff)
  then have "unat (x + align - 1) = unat x + unat align - 1"
    using assms(3) by (simp add: unat_of_nat take_bit_nat_eq_self)
  then show ?thesis using unat_AlignDown [OF assms(1,2)] by (simp add: AlignUp_def)
qed

lemma IsAligned_iff:
  assumes "IsPowerOf2 align" and "align \<noteq> 0"
  shows "IsAligned x align \<longleftrightarrow> unat align dvd unat x"
proof -
  have "IsAligned x align \<longleftrightarrow> unat x div unat align * unat align = unat x"
    using unat_AlignDown [OF assms, of x] unsigned_word_eqI [where 'a = nat, of "AlignDown x align" x]
    by (auto simp: IsAligned_def)
  then show ?thesis by (metis dvd_div_mult_self dvd_triv_right)
qed

text \<open>\<open>AlignUp\<close> returns the least aligned address that is not below its argument.\<close>

lemma AlignUp_least:
  assumes "IsPowerOf2 align" and "align \<noteq> 0" and "unat x + unat align - 1 < 2 ^ 64"
  shows "IsAligned (AlignUp x align) align" and "unat x \<le> unat (AlignUp x align)"
    and "unat (AlignUp x align) < unat x + unat align"
    and "IsAligned y align \<Longrightarrow> x \<le> y \<Longrightarrow> AlignUp x align \<le> y"
proof -
  have pos: "0 < unat align" using assms(2) by (simp add: unat_gt_0)
  note up = unat_AlignUp [OF assms]
  have split: "unat x + unat align - 1 = unat (AlignUp x align) + (unat x + unat align - 1) mod unat align"
    unfolding up by (simp add: mult.commute)
  have small: "(unat x + unat align - 1) mod unat align < unat align" using pos by simp
  show "IsAligned (AlignUp x align) align" unfolding IsAligned_iff [OF assms(1,2)] up by simp
  show lower: "unat x \<le> unat (AlignUp x align)" and upper: "unat (AlignUp x align) < unat x + unat align"
    using split small pos by linarith+
  show "AlignUp x align \<le> y" if "IsAligned y align" "x \<le> y"
  proof -
    have "unat align dvd unat y" using that(1) IsAligned_iff [OF assms(1,2)] by blast
    then obtain k where k: "unat y = unat align * k" by (elim dvdE)
    have "unat x + unat align - 1 < unat align * (k + 1)" using that(2) k pos by (simp add: word_le_nat_alt)
    then have "(unat x + unat align - 1) div unat align < k + 1" by (simp add: less_mult_imp_div_less mult.commute)
    then show ?thesis unfolding word_le_nat_alt up k by (simp add: mult.commute)
  qed
qed

section \<open>Counting bits\<close>

text \<open>\<open>__builtin_ctz\<close> and \<open>__builtin_popcount\<close> and their \<open>long long\<close> forms.\<close>

definition builtin_ctz :: "'a::len word \<Rightarrow> nat option" where
  "builtin_ctz w = find (bit w) [0..<LENGTH('a)]"

definition builtin_popcount :: "'a::len word \<Rightarrow> nat" where
  "builtin_popcount w = length (filter (bit w) [0..<LENGTH('a)])"

text \<open>The logarithm: the argument of \<open>__builtin_ctz\<close> is an \<open>unsigned int\<close>.\<close>

definition BitUtilLog2 :: "'a::len word \<Rightarrow> nat option result" where
  "BitUtilLog2 x = bnd (CHECK (IsPowerOf2 x)) (\<lambda>_. Inr (builtin_ctz (ucast x :: u32)))"

definition CountRZero :: "'a::len word \<Rightarrow> nat option" where
  "CountRZero x = builtin_ctz x"

definition CountRZero128 :: "128 word \<Rightarrow> nat option" where
  "CountRZero128 x =
     (if (ucast x :: u64) = 0 then map_option (\<lambda>n. n + 64) (builtin_ctz (ucast (drop_bit 64 x) :: u64))
      else builtin_ctz (ucast x :: u64))"

definition Popcount128 :: "128 word \<Rightarrow> nat" where
  "Popcount128 x = builtin_popcount (ucast x :: u64) + builtin_popcount (ucast (drop_bit 64 x) :: u64)"

lemma builtin_ctz_Some_iff: "builtin_ctz (w :: 'a::len word) = Some n \<longleftrightarrow> bit w n \<and> (\<forall>m < n. \<not> bit w m)"
proof
  assume "builtin_ctz w = Some n"
  then obtain i where "i < LENGTH('a)" "bit w ([0..<LENGTH('a)] ! i)" "n = [0..<LENGTH('a)] ! i"
    "\<forall>j < i. \<not> bit w ([0..<LENGTH('a)] ! j)"
    by (auto simp: builtin_ctz_def find_Some_iff)
  then show "bit w n \<and> (\<forall>m < n. \<not> bit w m)" by simp
next
  assume n: "bit w n \<and> (\<forall>m < n. \<not> bit w m)"
  then have "n < LENGTH('a)" using bit_imp_le_length by blast
  then show "builtin_ctz w = Some n"
    using n unfolding builtin_ctz_def find_Some_iff by (intro exI [of _ n]) simp
qed

lemma builtin_ctz_None_iff: "builtin_ctz (w :: 'a::len word) = None \<longleftrightarrow> w = 0"
  by (auto simp: builtin_ctz_def find_None_iff bit_eq_iff bit_imp_le_length)

lemma builtin_ctz_power: "n < LENGTH('a) \<Longrightarrow> builtin_ctz (push_bit n 1 :: 'a::len word) = Some n"
  unfolding builtin_ctz_Some_iff bit_two_power by simp

text \<open>The logarithm is right for the powers below \<open>2 ^ 32\<close> and undefined for larger ones.\<close>

lemma BitUtilLog2_power:
  assumes "n < LENGTH('a)"
  shows "BitUtilLog2 (push_bit n 1 :: 'a::len word) = Inr (if n < 32 then Some n else None)"
proof -
  have e: "(ucast (push_bit n 1 :: 'a word) :: u32) = push_bit n 1"
    using assms by (intro bit_word_eqI) (auto simp: bit_ucast_iff bit_two_power simp del: push_bit_of_1)
  show ?thesis
  proof (cases "n < 32")
    case True
    then show ?thesis using builtin_ctz_power [of n, where 'a = 32]
      unfolding BitUtilLog2_def e by (simp add: push_bit_power_of_two del: push_bit_of_1)
  next
    case False
    then have "\<not> bit (push_bit n 1 :: u32) i" for i by (simp only: bit_two_power) simp
    then have "builtin_ctz (push_bit n 1 :: u32) = None"
      unfolding builtin_ctz_None_iff by (auto simp: bit_eq_iff)
    then show ?thesis using False
      unfolding BitUtilLog2_def e by (simp add: push_bit_power_of_two del: push_bit_of_1)
  qed
qed

lemma BitUtilLog2_refuses: "\<not> IsPowerOf2 x \<Longrightarrow> BitUtilLog2 x = Inl CheckFailed"
  by (simp add: BitUtilLog2_def)

lemma CountRZero128_correct: "CountRZero128 x = CountRZero x"
proof -
  have high: "bit (ucast (drop_bit 64 x) :: u64) n \<longleftrightarrow> n < 64 \<and> bit x (64 + n)" for n
    by (simp add: bit_simps)
  have low: "bit (ucast x :: u64) n \<longleftrightarrow> n < 64 \<and> bit x n" for n by (simp add: bit_simps)
  show ?thesis
  proof (cases "(ucast x :: u64) = 0")
    case False
    then obtain n where n: "builtin_ctz (ucast x :: u64) = Some n" using builtin_ctz_None_iff by blast
    then have "builtin_ctz x = Some n" unfolding builtin_ctz_Some_iff low by auto
    then show ?thesis using n False by (simp add: CountRZero128_def CountRZero_def)
  next
    case True
    then have zeros: "\<not> bit x m" if "m < 64" for m using low [of m] that by simp
    show ?thesis
    proof (cases "builtin_ctz (ucast (drop_bit 64 x) :: u64)")
      case None
      then have "\<not> bit x m" for m
        using zeros [of m] high [of "m - 64"] bit_imp_le_length [of x m]
        by (cases "m < 64") (auto simp: builtin_ctz_None_iff)
      then have "builtin_ctz x = None" unfolding builtin_ctz_None_iff by (simp add: bit_eq_iff)
      then show ?thesis using None True by (simp add: CountRZero128_def CountRZero_def)
    next
      case (Some n)
      then have n: "n < 64" "bit x (64 + n)" "\<And>m. m < n \<Longrightarrow> \<not> bit x (64 + m)"
        unfolding builtin_ctz_Some_iff high by auto
      have "\<not> bit x m" if "m < n + 64" for m
        using zeros [of m] n(3) [of "m - 64"] that by (cases "m < 64") auto
      then have "builtin_ctz x = Some (n + 64)" using n(2) unfolding builtin_ctz_Some_iff by (simp add: add.commute)
      then show ?thesis using Some True by (simp add: CountRZero128_def CountRZero_def)
    qed
  qed
qed

lemma Popcount128_correct: "Popcount128 x = builtin_popcount x"
proof -
  have "filter (bit x) [64..<64 + 64] = map (\<lambda>n. n + 64) (filter (\<lambda>n. bit x (n + 64)) [0..<64])"
    using filter_map [of "bit x" "\<lambda>n. n + 64" "[0..<64]"] map_add_upt [of 64 64] by (simp add: comp_def del: upt_rec_numeral)
  moreover have "[0..<128] = [0..<64] @ [64..<64 + 64]" using upt_add_eq_append [of 0 64 64] by simp
  moreover have "filter (bit (ucast (drop_bit 64 x) :: u64)) [0..<64] = filter (\<lambda>n. bit x (n + 64)) [0..<64]"
    by (rule filter_cong) (auto simp: bit_simps add.commute)
  moreover have "filter (bit (ucast x :: u64)) [0..<64] = filter (bit x) [0..<64]"
    by (rule filter_cong) (auto simp: bit_simps)
  ultimately show ?thesis by (simp add: Popcount128_def builtin_popcount_def del: upt_rec_numeral)
qed

end
