(* ===== verification/Saturating_Wrapping.thy ===== *)
theory Saturating_Wrapping
  imports Bit_Util
begin

text \<open>
  The classes \<open>Saturating\<close> and \<open>Wrapping\<close> of \<open>berberis/base/bit_util.h\<close> and the conversions between
  widths, with the exact arithmetic of the integers as their specification: a saturating operation
  returns the nearest number of the type and whether it is not the exact one, a wrapping operation
  the number that is congruent to the exact one.
\<close>

section \<open>Limits and the builtins with overflow\<close>

text \<open>\<open>std::numeric_limits\<close> of a signed and of an unsigned type.\<close>

definition max_s :: "'a::len word" where "max_s = word_of_int (2 ^ (LENGTH('a) - 1) - 1)"
definition min_s :: "'a::len word" where "min_s = word_of_int (- (2 ^ (LENGTH('a) - 1)))"
definition max_u :: "'a::len word" where "max_u = word_of_int (2 ^ LENGTH('a) - 1)"

text \<open>\<open>__builtin_add_overflow\<close> and the like: the wrapped result, and whether the exact one differs.\<close>

definition builtin_overflow_s :: "int \<Rightarrow> 'a::len word \<times> bool" where
  "builtin_overflow_s k = (word_of_int k, sint (word_of_int k :: 'a word) \<noteq> k)"

definition builtin_overflow_u :: "int \<Rightarrow> 'a::len word \<times> bool" where
  "builtin_overflow_u k = (word_of_int k, uint (word_of_int k :: 'a word) \<noteq> k)"

section \<open>The class \<open>Saturating\<close>\<close>

definition Saturating_Add_s :: "'a::len word \<Rightarrow> 'a word \<Rightarrow> 'a word \<times> bool" where
  "Saturating_Add_s lhs rhs =
     (let (result, overflow) = builtin_overflow_s (sint lhs + sint rhs)
      in (if overflow then if sint result < 0 then max_s else min_s else result, overflow))"

definition Saturating_Add_u :: "'a::len word \<Rightarrow> 'a word \<Rightarrow> 'a word \<times> bool" where
  "Saturating_Add_u lhs rhs =
     (let (result, overflow) = builtin_overflow_u (uint lhs + uint rhs)
      in (if overflow then max_u else result, overflow))"

definition Saturating_Neg_s :: "'a::len word \<Rightarrow> 'a word \<times> bool" where
  "Saturating_Neg_s lhs = (if lhs = min_s then (max_s, True) else (- lhs, False))"

definition Saturating_Neg_u :: "'a::len word \<Rightarrow> 'a word \<times> bool" where
  "Saturating_Neg_u lhs = (0, lhs \<noteq> 0)"

definition Saturating_Sub_s :: "'a::len word \<Rightarrow> 'a word \<Rightarrow> 'a word \<times> bool" where
  "Saturating_Sub_s lhs rhs =
     (let (result, overflow) = builtin_overflow_s (sint lhs - sint rhs)
      in (if overflow then if sint result < 0 then max_s else min_s else result, overflow))"

definition Saturating_Sub_u :: "'a::len word \<Rightarrow> 'a word \<Rightarrow> 'a word \<times> bool" where
  "Saturating_Sub_u lhs rhs =
     (let (result, overflow) = builtin_overflow_u (uint lhs - uint rhs)
      in (if overflow then 0 else result, overflow))"

definition Saturating_Mul_s :: "'a::len word \<Rightarrow> 'a word \<Rightarrow> 'a word \<times> bool" where
  "Saturating_Mul_s lhs rhs =
     (let (result, overflow) = builtin_overflow_s (sint lhs * sint rhs)
      in (if overflow then if (sint lhs < 0) \<noteq> (sint rhs < 0) then min_s else max_s else result, overflow))"

definition Saturating_Mul_u :: "'a::len word \<Rightarrow> 'a word \<Rightarrow> 'a word \<times> bool" where
  "Saturating_Mul_u lhs rhs =
     (let (result, overflow) = builtin_overflow_u (uint lhs * uint rhs)
      in (if overflow then max_u else result, overflow))"

text \<open>Division and remainder of C++ round towards zero, as \<open>sdiv\<close> and \<open>smod\<close> do.\<close>

definition Saturating_Div_s :: "'a::len word \<Rightarrow> 'a word \<Rightarrow> ('a word \<times> bool) option" where
  "Saturating_Div_s lhs rhs =
     (if lhs = min_s \<and> rhs = - 1 then Some (max_s, True)
      else if rhs = 0 then None
      else Some (word_of_int (sint lhs sdiv sint rhs), False))"

definition Saturating_Div_u :: "'a::len word \<Rightarrow> 'a word \<Rightarrow> ('a word \<times> bool) option" where
  "Saturating_Div_u lhs rhs = (if rhs = 0 then None else Some (lhs div rhs, False))"

definition Saturating_Rem_s :: "'a::len word \<Rightarrow> 'a word \<Rightarrow> ('a word \<times> bool) option" where
  "Saturating_Rem_s lhs rhs =
     (if lhs = min_s \<and> rhs = - 1 then Some (1, True)
      else if rhs = 0 then None
      else Some (word_of_int (sint lhs smod sint rhs), False))"

definition Saturating_Rem_u :: "'a::len word \<Rightarrow> 'a word \<Rightarrow> ('a word \<times> bool) option" where
  "Saturating_Rem_u lhs rhs = (if rhs = 0 then None else Some (lhs mod rhs, False))"

text \<open>\<open>Narrow\<close>, to the type of half the width.\<close>

definition Saturating_Narrow_s :: "'a::len word \<Rightarrow> 'b::len word" where
  "Saturating_Narrow_s source =
     (if sint source < sint (min_s :: 'b word) then min_s
      else if sint (max_s :: 'b word) < sint source then max_s
      else ucast source)"

definition Saturating_Narrow_u :: "'a::len word \<Rightarrow> 'b::len word" where
  "Saturating_Narrow_u source = (if uint (max_u :: 'b word) < uint source then max_u else ucast source)"

section \<open>Saturating arithmetic is exact arithmetic cut to the range\<close>

definition clamp_s :: "nat \<Rightarrow> int \<Rightarrow> int" where
  "clamp_s n k = max (- (2 ^ (n - 1))) (min (2 ^ (n - 1) - 1) k)"

definition clamp_u :: "nat \<Rightarrow> int \<Rightarrow> int" where
  "clamp_u n k = max 0 (min (2 ^ n - 1) k)"

text \<open>A number that is off by at most the size of the type wraps around once.\<close>

lemma half_range: "(1 :: int) \<le> 2 ^ (LENGTH('a::len) - 1)"
  by simp

lemma power_length: "(2 :: int) ^ LENGTH('a::len) = 2 * 2 ^ (LENGTH('a) - 1)"
  by (metis Suc_diff_1 len_gt_0 power_Suc)

lemma sint_of_int_in:
  "- (2 ^ (LENGTH('a) - 1)) \<le> k \<Longrightarrow> k < 2 ^ (LENGTH('a) - 1) \<Longrightarrow> sint (word_of_int k :: 'a::len word) = k"
  by (simp add: signed_of_int signed_take_bit_int_eq_self)

lemma uint_of_int_in: "0 \<le> k \<Longrightarrow> k < 2 ^ LENGTH('a) \<Longrightarrow> uint (word_of_int k :: 'a::len word) = k"
  by (simp add: unsigned_of_int take_bit_int_eq_self)

lemma sint_range: "- (2 ^ (LENGTH('a) - 1)) \<le> sint w" "sint w < 2 ^ (LENGTH('a) - 1)" for w :: "'a::len word"
  by (rule sint_ge sint_lt)+

lemma uint_range: "0 \<le> uint w" "uint w < 2 ^ LENGTH('a)" for w :: "'a::len word"
  by simp_all

lemma sint_limits:
  "sint (max_s :: 'a::len word) = 2 ^ (LENGTH('a) - 1) - 1"
  "sint (min_s :: 'a::len word) = - (2 ^ (LENGTH('a) - 1))"
  "uint (max_u :: 'a::len word) = 2 ^ LENGTH('a) - 1"
  unfolding max_s_def min_s_def max_u_def
  by (rule sint_of_int_in sint_of_int_in uint_of_int_in,
      use half_range [where 'a = 'a] power_length [where 'a = 'a] in linarith,
      use half_range [where 'a = 'a] power_length [where 'a = 'a] in linarith)+

lemma sint_of_int_shift: "sint (word_of_int (k + 2 ^ LENGTH('a)) :: 'a::len word) = sint (word_of_int k :: 'a word)"
  by simp

lemma sint_of_int_above:
  assumes "2 ^ (LENGTH('a) - 1) \<le> k" and "k < 2 * 2 ^ (LENGTH('a) - 1)"
  shows "sint (word_of_int k :: 'a::len word) < 0"
proof -
  have "sint (word_of_int k :: 'a word) = sint (word_of_int (k - 2 ^ LENGTH('a)) :: 'a word)"
    using sint_of_int_shift [of "k - 2 ^ LENGTH('a)", where 'a = 'a] by simp
  also have "\<dots> = k - 2 ^ LENGTH('a)"
    by (rule sint_of_int_in) (use assms power_length [where 'a = 'a] in linarith)+
  finally show ?thesis using assms power_length [where 'a = 'a] by linarith
qed

lemma sint_of_int_below:
  assumes "k < - (2 ^ (LENGTH('a) - 1))" and "- (2 * 2 ^ (LENGTH('a) - 1)) \<le> k"
  shows "0 \<le> sint (word_of_int k :: 'a::len word)"
proof -
  have "sint (word_of_int k :: 'a word) = sint (word_of_int (k + 2 ^ LENGTH('a)) :: 'a word)"
    by (simp only: sint_of_int_shift)
  also have "\<dots> = k + 2 ^ LENGTH('a)"
    by (rule sint_of_int_in) (use assms power_length [where 'a = 'a] in linarith)+
  finally show ?thesis using assms power_length [where 'a = 'a] by linarith
qed

lemma clamp_s_cases:
  "2 ^ (LENGTH('a) - 1) \<le> k \<Longrightarrow> clamp_s LENGTH('a::len) k = 2 ^ (LENGTH('a) - 1) - 1"
  "k < - (2 ^ (LENGTH('a) - 1)) \<Longrightarrow> clamp_s LENGTH('a) k = - (2 ^ (LENGTH('a) - 1))"
  "- (2 ^ (LENGTH('a) - 1)) \<le> k \<Longrightarrow> k < 2 ^ (LENGTH('a) - 1) \<Longrightarrow> clamp_s LENGTH('a) k = k"
  unfolding clamp_s_def using half_range [where 'a = 'a] by linarith+

lemma clamp_u_cases:
  "2 ^ LENGTH('a) \<le> k \<Longrightarrow> clamp_u LENGTH('a::len) k = 2 ^ LENGTH('a) - 1"
  "k < 0 \<Longrightarrow> clamp_u LENGTH('a) k = 0"
  "0 \<le> k \<Longrightarrow> k < 2 ^ LENGTH('a) \<Longrightarrow> clamp_u LENGTH('a) k = k"
  unfolding clamp_u_def using half_range [where 'a = 'a] power_length [where 'a = 'a] by linarith+

lemma clamp_s_eq_iff: "clamp_s LENGTH('a::len) k = k \<longleftrightarrow> - (2 ^ (LENGTH('a) - 1)) \<le> k \<and> k < 2 ^ (LENGTH('a) - 1)"
  unfolding clamp_s_def using half_range [where 'a = 'a] by linarith

lemma clamp_u_eq_iff: "clamp_u LENGTH('a::len) k = k \<longleftrightarrow> 0 \<le> k \<and> k < 2 ^ LENGTH('a)"
  unfolding clamp_u_def using half_range [where 'a = 'a] power_length [where 'a = 'a] by linarith

lemma overflow_s_iff:
  "snd (builtin_overflow_s k :: 'a::len word \<times> bool) \<longleftrightarrow> clamp_s LENGTH('a) k \<noteq> k"
  unfolding clamp_s_eq_iff builtin_overflow_s_def
  using sint_of_int_in [of k, where 'a = 'a] sint_range [of "word_of_int k :: 'a word"] by auto

lemma overflow_u_iff:
  "snd (builtin_overflow_u k :: 'a::len word \<times> bool) \<longleftrightarrow> clamp_u LENGTH('a) k \<noteq> k"
  unfolding clamp_u_eq_iff builtin_overflow_u_def
  using uint_of_int_in [of k, where 'a = 'a] uint_range [of "word_of_int k :: 'a word"] by (metis snd_conv)

text \<open>Every operation follows from what its two branches return.\<close>

definition saturates_s :: "'a::len word \<times> bool \<Rightarrow> int \<Rightarrow> bool" where
  "saturates_s r k \<longleftrightarrow> sint (fst r) = clamp_s LENGTH('a) k \<and> (snd r \<longleftrightarrow> clamp_s LENGTH('a) k \<noteq> k)"

definition saturates_u :: "'a::len word \<times> bool \<Rightarrow> int \<Rightarrow> bool" where
  "saturates_u r k \<longleftrightarrow> uint (fst r) = clamp_u LENGTH('a) k \<and> (snd r \<longleftrightarrow> clamp_u LENGTH('a) k \<noteq> k)"

lemma saturates_sI:
  assumes "2 ^ (LENGTH('a) - 1) \<le> k \<Longrightarrow> r = (max_s :: 'a::len word)"
    and "k < - (2 ^ (LENGTH('a) - 1)) \<Longrightarrow> r = min_s"
    and "- (2 ^ (LENGTH('a) - 1)) \<le> k \<Longrightarrow> k < 2 ^ (LENGTH('a) - 1) \<Longrightarrow> r = word_of_int k"
  shows "saturates_s (r, clamp_s LENGTH('a) k \<noteq> k) k"
proof -
  consider "2 ^ (LENGTH('a) - 1) \<le> k" | "k < - (2 ^ (LENGTH('a) - 1))"
    | "- (2 ^ (LENGTH('a) - 1)) \<le> k" "k < 2 ^ (LENGTH('a) - 1)" by linarith
  then have "sint r = clamp_s LENGTH('a) k"
  proof cases
    case 1
    then show ?thesis by (simp only: assms(1) [OF 1] clamp_s_cases(1) sint_limits)
  next
    case 2
    then show ?thesis by (simp only: assms(2) [OF 2] clamp_s_cases(2) sint_limits)
  next
    case 3
    then show ?thesis by (simp only: assms(3) [OF 3] clamp_s_cases(3) sint_of_int_in)
  qed
  then show ?thesis by (simp add: saturates_s_def)
qed

lemma saturates_uI:
  assumes "2 ^ LENGTH('a) \<le> k \<Longrightarrow> r = (max_u :: 'a::len word)"
    and "k < 0 \<Longrightarrow> r = 0"
    and "0 \<le> k \<Longrightarrow> k < 2 ^ LENGTH('a) \<Longrightarrow> r = word_of_int k"
  shows "saturates_u (r, clamp_u LENGTH('a) k \<noteq> k) k"
proof -
  consider "2 ^ LENGTH('a) \<le> k" | "k < 0" | "0 \<le> k" "k < 2 ^ LENGTH('a)" by linarith
  then have "uint r = clamp_u LENGTH('a) k"
  proof cases
    case 1
    then show ?thesis by (simp only: assms(1) [OF 1] clamp_u_cases(1) sint_limits)
  next
    case 2
    then show ?thesis by (simp only: assms(2) [OF 2] clamp_u_cases(2) unsigned_0)
  next
    case 3
    then show ?thesis by (simp only: assms(3) [OF 3] clamp_u_cases(3) uint_of_int_in)
  qed
  then show ?thesis by (simp add: saturates_u_def)
qed

text \<open>The builtins in terms of the range.\<close>

lemma overflow_cases_s:
  "(let (result, overflow) = builtin_overflow_s k in (f result overflow, overflow)) =
    (f (word_of_int k :: 'a::len word) (clamp_s LENGTH('a) k \<noteq> k), clamp_s LENGTH('a) k \<noteq> k)"
  using overflow_s_iff [of k, where 'a = 'a] by (simp add: builtin_overflow_s_def)

lemma overflow_cases_u:
  "(let (result, overflow) = builtin_overflow_u k in (f result overflow, overflow)) =
    (f (word_of_int k :: 'a::len word) (clamp_u LENGTH('a) k \<noteq> k), clamp_u LENGTH('a) k \<noteq> k)"
  using overflow_u_iff [of k, where 'a = 'a] by (simp add: builtin_overflow_u_def)

lemma saturating_sum:
  assumes "- (2 * 2 ^ (LENGTH('a) - 1)) \<le> k" and "k < 2 * 2 ^ (LENGTH('a) - 1)"
  shows "saturates_s (if clamp_s LENGTH('a) k \<noteq> k
      then if sint (word_of_int k :: 'a::len word) < 0 then max_s else min_s
      else (word_of_int k :: 'a word), clamp_s LENGTH('a) k \<noteq> k) k"
proof (rule saturates_sI)
  assume k: "2 ^ (LENGTH('a) - 1) \<le> k"
  then have "clamp_s LENGTH('a) k \<noteq> k" unfolding clamp_s_eq_iff by linarith
  then show "(if clamp_s LENGTH('a) k \<noteq> k then if sint (word_of_int k :: 'a word) < 0 then max_s else min_s
      else (word_of_int k :: 'a word)) = max_s"
    using sint_of_int_above [OF k assms(2)] by simp
next
  assume k: "k < - (2 ^ (LENGTH('a) - 1))"
  then have "clamp_s LENGTH('a) k \<noteq> k" unfolding clamp_s_eq_iff by linarith
  then show "(if clamp_s LENGTH('a) k \<noteq> k then if sint (word_of_int k :: 'a word) < 0 then max_s else min_s
      else (word_of_int k :: 'a word)) = min_s"
    using sint_of_int_below [OF k assms(1)] by simp
qed (simp add: clamp_s_cases(3))

lemma Add_s_saturates: "saturates_s (Saturating_Add_s lhs rhs) (sint lhs + sint rhs)"
  unfolding Saturating_Add_s_def overflow_cases_s
  by (rule saturating_sum) (use sint_range [of lhs] sint_range [of rhs] in linarith)+

lemma Sub_s_saturates: "saturates_s (Saturating_Sub_s lhs rhs) (sint lhs - sint rhs)"
  unfolding Saturating_Sub_s_def overflow_cases_s
  by (rule saturating_sum) (use sint_range [of lhs] sint_range [of rhs] in linarith)+

lemma Mul_s_saturates:
  fixes lhs rhs :: "'a::len word"
  shows "saturates_s (Saturating_Mul_s lhs rhs) (sint lhs * sint rhs)"
  unfolding Saturating_Mul_s_def overflow_cases_s
proof (rule saturates_sI)
  let ?k = "sint lhs * sint rhs"
  assume k: "2 ^ (LENGTH('a) - 1) \<le> ?k"
  then have "0 < ?k" using half_range [where 'a = 'a] by linarith
  then have "(sint lhs < 0) = (sint rhs < 0)" by (auto simp: zero_less_mult_iff)
  moreover have "clamp_s LENGTH('a) ?k \<noteq> ?k" using k unfolding clamp_s_eq_iff by linarith
  ultimately show "(if clamp_s LENGTH('a) ?k \<noteq> ?k then if (sint lhs < 0) \<noteq> (sint rhs < 0) then min_s else max_s
      else (word_of_int ?k :: 'a word)) = max_s" by simp
next
  let ?k = "sint lhs * sint rhs"
  assume k: "?k < - (2 ^ (LENGTH('a) - 1))"
  then have "?k < 0" using half_range [where 'a = 'a] by linarith
  then have "(sint lhs < 0) \<noteq> (sint rhs < 0)" by (auto simp: mult_less_0_iff)
  moreover have "clamp_s LENGTH('a) ?k \<noteq> ?k" using k unfolding clamp_s_eq_iff by linarith
  ultimately show "(if clamp_s LENGTH('a) ?k \<noteq> ?k then if (sint lhs < 0) \<noteq> (sint rhs < 0) then min_s else max_s
      else (word_of_int ?k :: 'a word)) = min_s" by simp
qed (simp add: clamp_s_cases(3))

lemma Neg_s_saturates:
  fixes lhs :: "'a::len word"
  shows "saturates_s (Saturating_Neg_s lhs) (- sint lhs)"
proof (cases "lhs = min_s")
  case True
  then have "clamp_s LENGTH('a) (- sint lhs) = 2 ^ (LENGTH('a) - 1) - 1"
    using clamp_s_cases(1) [of "- sint lhs", where 'a = 'a] by (simp add: sint_limits)
  then show ?thesis using True by (simp add: Saturating_Neg_s_def saturates_s_def sint_limits)
next
  case False
  then have "sint lhs \<noteq> - (2 ^ (LENGTH('a) - 1))" using sint_limits(2) [where 'a = 'a] by (metis signed_word_eqI)
  then have r: "- (2 ^ (LENGTH('a) - 1)) \<le> - sint lhs" "- sint lhs < 2 ^ (LENGTH('a) - 1)"
    using sint_range [of lhs] by linarith+
  then have "sint (- lhs) = - sint lhs" using sint_of_int_in [OF r] by simp
  then show ?thesis using False clamp_s_cases(3) [OF r] by (simp add: Saturating_Neg_s_def saturates_s_def)
qed

lemma Add_u_saturates:
  fixes lhs rhs :: "'a::len word"
  shows "saturates_u (Saturating_Add_u lhs rhs) (uint lhs + uint rhs)"
  unfolding Saturating_Add_u_def overflow_cases_u
  by (rule saturates_uI) (use uint_range [of lhs] uint_range [of rhs] in \<open>auto simp: clamp_u_eq_iff\<close>)

lemma Sub_u_saturates:
  fixes lhs rhs :: "'a::len word"
  shows "saturates_u (Saturating_Sub_u lhs rhs) (uint lhs - uint rhs)"
  unfolding Saturating_Sub_u_def overflow_cases_u
  by (rule saturates_uI) (use uint_range [of lhs] uint_range [of rhs] in \<open>auto simp: clamp_u_eq_iff\<close>)

lemma Mul_u_saturates:
  fixes lhs rhs :: "'a::len word"
  shows "saturates_u (Saturating_Mul_u lhs rhs) (uint lhs * uint rhs)"
proof -
  have "0 \<le> uint lhs * uint rhs" by simp
  then show ?thesis unfolding Saturating_Mul_u_def overflow_cases_u
    by (intro saturates_uI) (simp_all add: clamp_u_eq_iff not_less [symmetric])
qed

lemma Neg_u_saturates: "saturates_u (Saturating_Neg_u lhs) (- uint lhs)"
proof (cases "lhs = 0")
  case False
  then have nz: "uint lhs \<noteq> 0" by (metis unsigned_0 unsigned_word_eqI)
  then have "- uint lhs < 0" using uint_range(1) [of lhs] by linarith
  from clamp_u_cases(2) [OF this, where 'a = 'a] False nz
  show ?thesis by (simp only: Saturating_Neg_u_def saturates_u_def fst_conv snd_conv unsigned_0) simp
qed (simp add: Saturating_Neg_u_def saturates_u_def clamp_u_def)

section \<open>Division\<close>

text \<open>The quotient of two numbers of the type is in its range, except for the least number and -1.\<close>

lemma sdiv_bounds:
  assumes "- B \<le> x" and "x < B" and "\<not> (x = - B \<and> y = - 1)" and "(0 :: int) < B"
  shows "- B \<le> x sdiv y" and "x sdiv y < B"
proof -
  have abs: "- \<bar>x\<bar> \<le> x sdiv y" "x sdiv y \<le> \<bar>x\<bar>" using sdiv_int_range [of x y] by simp_all
  then show "- B \<le> x sdiv y" using assms(1,2) by linarith
  have "x sdiv y \<noteq> B"
  proof
    assume e: "x sdiv y = B"
    then have "x = - B" using abs assms(1,2) by linarith
    moreover from this have "y = - 1" using e assms(4) int_sdiv_negated_is_minus1 [of x y] by simp
    ultimately show False using assms(3) by blast
  qed
  then show "x sdiv y < B" using abs assms(1,2) by linarith
qed

lemma smod_bounds:
  assumes "- B \<le> x" and "x < (B :: int)"
  shows "- B \<le> x smod y" and "x smod y < B"
proof -
  have "0 \<le> \<bar>x\<bar> mod \<bar>y\<bar>" "\<bar>x\<bar> mod \<bar>y\<bar> \<le> \<bar>x\<bar>"
    by (cases "y = 0"; simp add: zmod_le_nonneg_dividend)+
  then show "- B \<le> x smod y" "x smod y < B"
    using assms by (auto simp: smod_int_alt_def sgn_if)
qed

lemma sint_minus_one_iff: "rhs = - 1 \<longleftrightarrow> sint rhs = - 1" for rhs :: "'a::len word"
  by (metis signed_minus_1 signed_word_eqI)

lemma sint_min_iff: "lhs = min_s \<longleftrightarrow> sint lhs = - (2 ^ (LENGTH('a) - 1))" for lhs :: "'a::len word"
  by (metis sint_limits(2) signed_word_eqI)

lemma Div_s_saturates:
  fixes lhs rhs :: "'a::len word"
  assumes "rhs \<noteq> 0"
  shows "\<exists>r. Saturating_Div_s lhs rhs = Some r \<and> saturates_s r (sint lhs sdiv sint rhs)"
proof (cases "lhs = min_s \<and> rhs = - 1")
  case True
  then have k: "sint lhs sdiv sint rhs = 2 ^ (LENGTH('a) - 1)" by (simp add: sint_limits)
  have "saturates_s (max_s :: 'a word, True) (2 ^ (LENGTH('a) - 1))"
    using clamp_s_cases(1) [of "2 ^ (LENGTH('a) - 1)", where 'a = 'a] by (simp add: saturates_s_def sint_limits)
  then show ?thesis using True k by (simp add: Saturating_Div_s_def)
next
  case False
  have "\<not> (sint lhs = - (2 ^ (LENGTH('a) - 1)) \<and> sint rhs = - 1)"
    using False unfolding sint_min_iff sint_minus_one_iff by blast
  from sdiv_bounds [OF sint_range this] half_range [where 'a = 'a]
  have r: "- (2 ^ (LENGTH('a) - 1)) \<le> sint lhs sdiv sint rhs" "sint lhs sdiv sint rhs < 2 ^ (LENGTH('a) - 1)"
    by simp_all
  have "saturates_s (word_of_int (sint lhs sdiv sint rhs) :: 'a word, False) (sint lhs sdiv sint rhs)"
    by (simp only: saturates_s_def fst_conv snd_conv clamp_s_cases(3) [OF r] sint_of_int_in [OF r]) simp
  then show ?thesis unfolding Saturating_Div_s_def if_not_P [OF False] using assms by simp
qed

text \<open>The remainder of the least number by -1 is 0; the code says 1, and that it has saturated.\<close>

lemma Rem_s_exact:
  fixes lhs rhs :: "'a::len word"
  assumes "rhs \<noteq> 0" and "\<not> (lhs = min_s \<and> rhs = - 1)"
  shows "\<exists>r. Saturating_Rem_s lhs rhs = Some (r, False) \<and> sint r = sint lhs smod sint rhs"
proof -
  note r = smod_bounds [OF sint_range, of lhs "sint rhs"]
  show ?thesis using assms sint_of_int_in [OF r] by (auto simp: Saturating_Rem_s_def)
qed

lemma Rem_s_wrong:
  assumes "1 < LENGTH('a)"
  shows "Saturating_Rem_s (min_s :: 'a::len word) (- 1) = Some (1, True)"
    and "sint (min_s :: 'a word) smod sint (- 1 :: 'a word) = 0"
  by (simp_all add: Saturating_Rem_s_def smod_int_alt_def)

section \<open>Narrowing\<close>

lemma Narrow_s_clamps:
  fixes source :: "'a::len word"
  assumes "LENGTH('b::len) \<le> LENGTH('a)"
  shows "sint (Saturating_Narrow_s source :: 'b word) = clamp_s LENGTH('b) (sint source)"
proof -
  have "(ucast :: 'a word \<Rightarrow> 'b word) = scast" by (rule down_cast_same) (simp add: is_down assms)
  then have u: "(ucast source :: 'b word) = word_of_int (sint source)" by (simp only: scast_eq)
  consider "2 ^ (LENGTH('b) - 1) \<le> sint source" | "sint source < - (2 ^ (LENGTH('b) - 1))"
    | "- (2 ^ (LENGTH('b) - 1)) \<le> sint source" "sint source < 2 ^ (LENGTH('b) - 1)" by linarith
  then show ?thesis
  proof cases
    case 1
    then have "\<not> sint source < sint (min_s :: 'b word)" "sint (max_s :: 'b word) < sint source"
      using half_range [where 'a = 'b] unfolding sint_limits by linarith+
    then show ?thesis by (simp only: Saturating_Narrow_s_def if_True if_False clamp_s_cases(1) [OF 1] sint_limits)
  next
    case 2
    then have "sint source < sint (min_s :: 'b word)" unfolding sint_limits by linarith
    then show ?thesis by (simp only: Saturating_Narrow_s_def if_True clamp_s_cases(2) [OF 2] sint_limits)
  next
    case 3
    then have "\<not> sint source < sint (min_s :: 'b word)" "\<not> sint (max_s :: 'b word) < sint source"
      unfolding sint_limits by linarith+
    then show ?thesis
      by (simp only: Saturating_Narrow_s_def if_False u clamp_s_cases(3) [OF 3] sint_of_int_in [OF 3])
  qed
qed

lemma Narrow_u_clamps:
  fixes source :: "'a::len word"
  shows "uint (Saturating_Narrow_u source :: 'b::len word) = clamp_u LENGTH('b) (uint source)"
proof (cases "uint source < 2 ^ LENGTH('b)")
  case True
  then have "\<not> uint (max_u :: 'b word) < uint source" unfolding sint_limits by linarith
  moreover have "uint (ucast source :: 'b word) = uint source"
    using True uint_range(1) [of source] by (simp add: unsigned_ucast_eq take_bit_int_eq_self)
  ultimately show ?thesis
    using True clamp_u_cases(3) [OF uint_range(1) True] by (simp only: Saturating_Narrow_u_def if_False)
next
  case False
  then have "uint (max_u :: 'b word) < uint source" unfolding sint_limits by linarith
  then show ?thesis
    using False clamp_u_cases(1) [of "uint source", where 'a = 'b]
    by (simp only: Saturating_Narrow_u_def if_True sint_limits not_less)
qed

text \<open>
  Saturating integers: every operation of \<open>Saturating\<close> returns the number of the type that is
  nearest to the exact sum, difference, product, quotient or negative, and its flag says whether that
  is another one; \<open>Narrow\<close> returns the nearest number of the narrower type. This holds for signed and
  for unsigned types of every width.
\<close>
theorem Saturating_clamps:
  fixes lhs rhs :: "'a::len word"
  assumes "rhs \<noteq> 0" and "LENGTH('b::len) \<le> LENGTH('a)"
  shows "saturates_s (Saturating_Add_s lhs rhs) (sint lhs + sint rhs) \<and>
    saturates_s (Saturating_Sub_s lhs rhs) (sint lhs - sint rhs) \<and>
    saturates_s (Saturating_Mul_s lhs rhs) (sint lhs * sint rhs) \<and>
    saturates_s (Saturating_Neg_s lhs) (- sint lhs) \<and>
    (\<exists>r. Saturating_Div_s lhs rhs = Some r \<and> saturates_s r (sint lhs sdiv sint rhs)) \<and>
    saturates_u (Saturating_Add_u lhs rhs) (uint lhs + uint rhs) \<and>
    saturates_u (Saturating_Sub_u lhs rhs) (uint lhs - uint rhs) \<and>
    saturates_u (Saturating_Mul_u lhs rhs) (uint lhs * uint rhs) \<and>
    saturates_u (Saturating_Neg_u lhs) (- uint lhs) \<and>
    sint (Saturating_Narrow_s lhs :: 'b word) = clamp_s LENGTH('b) (sint lhs) \<and>
    uint (Saturating_Narrow_u lhs :: 'b word) = clamp_u LENGTH('b) (uint lhs)"
  by (intro conjI Add_s_saturates Sub_s_saturates Mul_s_saturates Neg_s_saturates Div_s_saturates [OF assms(1)]
      Add_u_saturates Sub_u_saturates Mul_u_saturates Neg_u_saturates Narrow_s_clamps [OF assms(2)] Narrow_u_clamps)

theorem Saturating_clamps_witness:
  "saturates_s (Saturating_Add_s (100 :: u8) 100) 200 \<and> Saturating_Add_s (100 :: u8) 100 = (127, True)"
proof -
  have "saturates_s (Saturating_Add_s (100 :: u8) 100) (sint (100 :: u8) + sint (100 :: u8))"
    using Saturating_clamps [of "100 :: u8" "100", where 'b = 4] by simp
  moreover have "Saturating_Add_s (100 :: u8) 100 = (127, True)" by code_simp
  ultimately show ?thesis by simp
qed

section \<open>The class \<open>Wrapping\<close>\<close>

text \<open>The results of the builtins without the flags, and shifts by the low bits of the amount.\<close>

definition Wrapping_Add_s :: "'a::len word \<Rightarrow> 'a word \<Rightarrow> 'a word" where
  "Wrapping_Add_s lhs rhs = fst (builtin_overflow_s (sint lhs + sint rhs))"

definition Wrapping_Add_u :: "'a::len word \<Rightarrow> 'a word \<Rightarrow> 'a word" where
  "Wrapping_Add_u lhs rhs = fst (builtin_overflow_u (uint lhs + uint rhs))"

definition Wrapping_Neg_s :: "'a::len word \<Rightarrow> 'a word" where
  "Wrapping_Neg_s lhs = fst (builtin_overflow_s (0 - sint lhs))"

definition Wrapping_Neg_u :: "'a::len word \<Rightarrow> 'a word" where
  "Wrapping_Neg_u lhs = fst (builtin_overflow_u (0 - uint lhs))"

definition Wrapping_Sub_s :: "'a::len word \<Rightarrow> 'a word \<Rightarrow> 'a word" where
  "Wrapping_Sub_s lhs rhs = fst (builtin_overflow_s (sint lhs - sint rhs))"

definition Wrapping_Sub_u :: "'a::len word \<Rightarrow> 'a word \<Rightarrow> 'a word" where
  "Wrapping_Sub_u lhs rhs = fst (builtin_overflow_u (uint lhs - uint rhs))"

definition Wrapping_Mul_s :: "'a::len word \<Rightarrow> 'a word \<Rightarrow> 'a word" where
  "Wrapping_Mul_s lhs rhs = fst (builtin_overflow_s (sint lhs * sint rhs))"

definition Wrapping_Mul_u :: "'a::len word \<Rightarrow> 'a word \<Rightarrow> 'a word" where
  "Wrapping_Mul_u lhs rhs = fst (builtin_overflow_u (uint lhs * uint rhs))"

definition Wrapping_Div_s :: "'a::len word \<Rightarrow> 'a word \<Rightarrow> 'a word option" where
  "Wrapping_Div_s lhs rhs =
     (if lhs = min_s \<and> rhs = - 1 then Some min_s
      else if rhs = 0 then None
      else Some (word_of_int (sint lhs sdiv sint rhs)))"

definition Wrapping_Div_u :: "'a::len word \<Rightarrow> 'a word \<Rightarrow> 'a word option" where
  "Wrapping_Div_u lhs rhs = (if rhs = 0 then None else Some (lhs div rhs))"

definition Wrapping_Rem_s :: "'a::len word \<Rightarrow> 'a word \<Rightarrow> 'a word option" where
  "Wrapping_Rem_s lhs rhs =
     (if lhs = min_s \<and> rhs = - 1 then Some 0
      else if rhs = 0 then None
      else Some (word_of_int (sint lhs smod sint rhs)))"

definition Wrapping_Rem_u :: "'a::len word \<Rightarrow> 'a word \<Rightarrow> 'a word option" where
  "Wrapping_Rem_u lhs rhs = (if rhs = 0 then None else Some (lhs mod rhs))"

definition Wrapping_Shl :: "'a::len word \<Rightarrow> 'b::len word \<Rightarrow> 'a word" where
  "Wrapping_Shl lhs rhs = push_bit (nat (uint rhs AND int (LENGTH('a) - 1))) lhs"

definition Wrapping_Shr_s :: "'a::len word \<Rightarrow> 'b::len word \<Rightarrow> 'a word" where
  "Wrapping_Shr_s lhs rhs = signed_drop_bit (nat (uint rhs AND int (LENGTH('a) - 1))) lhs"

definition Wrapping_Shr_u :: "'a::len word \<Rightarrow> 'b::len word \<Rightarrow> 'a word" where
  "Wrapping_Shr_u lhs rhs = drop_bit (nat (uint rhs AND int (LENGTH('a) - 1))) lhs"

text \<open>\<open>Narrow\<close> and \<open>NarrowTopHalf\<close> of a wrapping integer.\<close>

definition Wrapping_Narrow :: "'a::len word \<Rightarrow> 'b::len word" where
  "Wrapping_Narrow source = ucast source"

definition NarrowTopHalf_s :: "'a::len word \<Rightarrow> 'b::len word" where
  "NarrowTopHalf_s source = ucast (signed_drop_bit LENGTH('b) source)"

definition NarrowTopHalf_u :: "'a::len word \<Rightarrow> 'b::len word" where
  "NarrowTopHalf_u source = ucast (drop_bit LENGTH('b) source)"

text \<open>A wrapping operation on signed and on unsigned numbers is the operation of words.\<close>

lemma Wrapping_words:
  "Wrapping_Add_s lhs rhs = lhs + rhs" "Wrapping_Add_u lhs rhs = lhs + rhs"
  "Wrapping_Sub_s lhs rhs = lhs - rhs" "Wrapping_Sub_u lhs rhs = lhs - rhs"
  "Wrapping_Mul_s lhs rhs = lhs * rhs" "Wrapping_Mul_u lhs rhs = lhs * rhs"
  "Wrapping_Neg_s lhs = - lhs" "Wrapping_Neg_u lhs = - lhs"
  by (simp_all add: Wrapping_Add_s_def Wrapping_Add_u_def Wrapping_Sub_s_def Wrapping_Sub_u_def
      Wrapping_Mul_s_def Wrapping_Mul_u_def Wrapping_Neg_s_def Wrapping_Neg_u_def
      builtin_overflow_s_def builtin_overflow_u_def)

lemma Wrapping_Div_s_exact:
  assumes "rhs \<noteq> (0 :: 'a::len word)"
  shows "Wrapping_Div_s lhs rhs = Some (word_of_int (sint lhs sdiv sint rhs))"
proof (cases "lhs = min_s \<and> rhs = - 1")
  case True
  then have "sint lhs sdiv sint rhs = 2 ^ (LENGTH('a) - 1)" by (simp add: sint_limits)
  moreover have "(word_of_int (2 ^ (LENGTH('a) - 1)) :: 'a word) = min_s"
  proof -
    have "(word_of_int (- (2 ^ (LENGTH('a) - 1)) + 2 ^ LENGTH('a)) :: 'a word) = min_s" by (simp add: min_s_def)
    then show ?thesis unfolding power_length by simp
  qed
  ultimately show ?thesis using True unfolding Wrapping_Div_s_def by metis
next
  case False
  then show ?thesis unfolding Wrapping_Div_s_def if_not_P [OF False] using assms by simp
qed

lemma Wrapping_Rem_s_exact:
  assumes "rhs \<noteq> (0 :: 'a::len word)"
  shows "Wrapping_Rem_s lhs rhs = Some (word_of_int (sint lhs smod sint rhs))"
  using assms by (auto simp: Wrapping_Rem_s_def smod_int_alt_def)

text \<open>The two halves of a wide product, as the widening multiplications use them.\<close>

lemma halves_of_product:
  fixes w :: "'a::len word"
  assumes "LENGTH('a) = 2 * LENGTH('b)"
  shows "unat w = 2 ^ LENGTH('b) * unat (NarrowTopHalf_u w :: 'b::len word) + unat (Wrapping_Narrow w :: 'b word)"
proof -
  have "unat w < 2 ^ LENGTH('b) * 2 ^ LENGTH('b)"
    using unsigned_less [of w, where 'a = nat] assms by (simp add: mult_2 power_add)
  then have "unat w div 2 ^ LENGTH('b) < 2 ^ LENGTH('b)" by (rule less_mult_imp_div_less)
  moreover have "unat (drop_bit LENGTH('b) w) = unat w div 2 ^ LENGTH('b)"
    unfolding unat_drop_bit_eq by (simp only: drop_bit_eq_div)
  ultimately have "unat (NarrowTopHalf_u w :: 'b word) = unat w div 2 ^ LENGTH('b)"
    unfolding NarrowTopHalf_u_def unsigned_ucast_eq by (simp only: take_bit_nat_eq_self)
  moreover have "unat (Wrapping_Narrow w :: 'b word) = unat w mod 2 ^ LENGTH('b)"
    by (simp add: Wrapping_Narrow_def unsigned_ucast_eq take_bit_eq_mod)
  ultimately show ?thesis by simp
qed

end
