(* ===== verification/Pointer_And_Counter.thy ===== *)
theory Pointer_And_Counter
  imports Bit_Util
begin

text \<open>
  \<open>berberis/base/pointer_and_counter.h\<close>: a pointer and a counter in one word of 64 bits, so that both
  can be exchanged at once. The argument \<open>k\<close> is \<open>kAlignBits\<close>, the logarithm of the alignment of what
  the pointer points to, whose bits are not stored. Pointers have 48 bits, as on a 64-bit system.
\<close>

definition kPointerBits :: nat where
  "kPointerBits = 48"

definition kRealPointerBits :: "nat \<Rightarrow> nat" where
  "kRealPointerBits k = kPointerBits - k"

definition kCounterBits :: "nat \<Rightarrow> nat" where
  "kCounterBits k = 64 - kRealPointerBits k"

definition kRealPointerMask :: "nat \<Rightarrow> u64" where
  "kRealPointerMask k = drop_bit (kCounterBits k) (- 1)"

definition kMaxCounter :: "nat \<Rightarrow> u64" where
  "kMaxCounter k = push_bit (kCounterBits k) 1"

definition PackUnsafe :: "nat \<Rightarrow> u64 \<Rightarrow> u64 \<Rightarrow> u64" where
  "PackUnsafe k p cnt = drop_bit k p OR push_bit (kRealPointerBits k) cnt"

definition Pack :: "nat \<Rightarrow> u64 \<Rightarrow> u64 \<Rightarrow> u64 result" where
  "Pack k p cnt = bnd (CHECK (cnt < kMaxCounter k)) (\<lambda>_. Inr (PackUnsafe k p cnt))"

definition UnpackPointer :: "nat \<Rightarrow> u64 \<Rightarrow> u64" where
  "UnpackPointer k v = push_bit k (v AND kRealPointerMask k)"

definition UnpackCounter :: "nat \<Rightarrow> u64 \<Rightarrow> u64" where
  "UnpackCounter k v = drop_bit (kRealPointerBits k) v"

text \<open>A pointer that fits: aligned, and of 48 bits.\<close>

definition packable :: "nat \<Rightarrow> u64 \<Rightarrow> bool" where
  "packable k p \<longleftrightarrow> take_bit k p = 0 \<and> drop_bit kPointerBits p = 0"

lemma packable_0 [simp]: "packable k 0"
  by (simp add: packable_def)

lemma packable_bits: "packable k p \<longleftrightarrow> (\<forall>i. bit p i \<longrightarrow> k \<le> i \<and> i < 48)"
proof
  assume p: "packable k p"
  show "\<forall>i. bit p i \<longrightarrow> k \<le> i \<and> i < 48"
  proof (intro allI impI conjI)
    fix i assume i: "bit p i"
    show "k \<le> i"
    proof (rule ccontr)
      assume "\<not> k \<le> i"
      then have "bit (take_bit k p) i" using i by (simp add: bit_take_bit_iff)
      then show False using p by (simp add: packable_def)
    qed
    show "i < 48"
    proof (rule ccontr)
      assume "\<not> i < 48"
      then have "bit (drop_bit kPointerBits p) (i - 48)" using i by (simp add: bit_drop_bit_eq kPointerBits_def)
      then show False using p by (simp add: packable_def)
    qed
  qed
next
  assume bits: "\<forall>i. bit p i \<longrightarrow> k \<le> i \<and> i < 48"
  have "take_bit k p = 0"
    by (rule bit_word_eqI) (use bits in \<open>auto simp: bit_take_bit_iff\<close>)
  moreover have "drop_bit 48 p = 0"
    by (rule bit_word_eqI) (use bits in \<open>force simp: bit_drop_bit_eq\<close>)
  ultimately show "packable k p" by (simp add: packable_def kPointerBits_def)
qed

lemma bit_kRealPointerMask: "k \<le> 48 \<Longrightarrow> bit (kRealPointerMask k) i \<longleftrightarrow> i < 48 - k"
  by (auto simp: kRealPointerMask_def kCounterBits_def kRealPointerBits_def kPointerBits_def bit_drop_bit_eq bit_mask_iff)

lemma UnpackPointer_Pack:
  assumes "k \<le> 48" and "packable k p"
  shows "UnpackPointer k (PackUnsafe k p cnt) = p"
proof (rule bit_word_eqI)
  fix i assume "i < LENGTH(64)"
  then show "bit (UnpackPointer k (PackUnsafe k p cnt)) i \<longleftrightarrow> bit p i"
    using assms(1) assms(2) [unfolded packable_bits]
    by (auto simp: UnpackPointer_def PackUnsafe_def bit_push_bit_iff bit_and_iff bit_or_iff bit_drop_bit_eq
        bit_kRealPointerMask kRealPointerBits_def kPointerBits_def)
qed

lemma UnpackCounter_Pack:
  assumes "k \<le> 48" and "packable k p"
  shows "UnpackCounter k (PackUnsafe k p cnt) = take_bit (kCounterBits k) cnt"
proof (rule bit_word_eqI)
  fix i assume "i < LENGTH(64)"
  then show "bit (UnpackCounter k (PackUnsafe k p cnt)) i \<longleftrightarrow> bit (take_bit (kCounterBits k) cnt) i"
    using assms(1) assms(2) [unfolded packable_bits]
    by (auto simp: UnpackCounter_def PackUnsafe_def bit_push_bit_iff bit_take_bit_iff bit_or_iff bit_drop_bit_eq
        kCounterBits_def kRealPointerBits_def kPointerBits_def dest: bit_imp_le_length)
qed

text \<open>Only the low bits of the counter are stored.\<close>

lemma PackUnsafe_truncates: "PackUnsafe k p (take_bit (kCounterBits k) cnt) = PackUnsafe k p cnt"
proof -
  have "push_bit (kRealPointerBits k) (take_bit (kCounterBits k) cnt) = push_bit (kRealPointerBits k) cnt"
    by (rule bit_word_eqI) (auto simp: bit_push_bit_iff bit_take_bit_iff kCounterBits_def)
  then show ?thesis by (simp add: PackUnsafe_def)
qed

lemma PackUnsafe_eq_iff:
  assumes "k \<le> 48" and "packable k p" and "packable k q"
  shows "PackUnsafe k p c = PackUnsafe k q d \<longleftrightarrow>
    p = q \<and> take_bit (kCounterBits k) c = take_bit (kCounterBits k) d"
  by (metis assms UnpackPointer_Pack UnpackCounter_Pack PackUnsafe_truncates)

lemma Pack_roundtrip:
  assumes "k < 48" and "packable k p" and "unat cnt < 2 ^ kCounterBits k"
  shows "Pack k p cnt = Inr (PackUnsafe k p cnt) \<and> UnpackPointer k (PackUnsafe k p cnt) = p \<and>
    UnpackCounter k (PackUnsafe k p cnt) = cnt"
proof -
  have "take_bit (kCounterBits k) cnt = cnt"
    using assms(3) by (intro unsigned_word_eqI [where 'a = nat])
      (simp only: unsigned_take_bit_eq take_bit_nat_eq_self)
  moreover have "unat (kMaxCounter k) = 2 ^ kCounterBits k"
    unfolding kMaxCounter_def using assms(1)
    by (intro unat_two_power) (simp add: kCounterBits_def kRealPointerBits_def kPointerBits_def)
  then have "cnt < kMaxCounter k" using assms(3) by (simp add: word_less_nat_alt)
  moreover have "k \<le> 48" using assms(1) by simp
  ultimately show ?thesis
    using UnpackPointer_Pack [OF _ assms(2)] UnpackCounter_Pack [OF _ assms(2)] by (simp add: Pack_def)
qed

end
