(* ===== verification/Lock_Free_Stack.thy ===== *)
theory Lock_Free_Stack
  imports Pointer_And_Counter
begin

text \<open>
  \<open>berberis/base/lock_free_stack.h\<close>: a stack that threads change by compare-and-exchange. Between the
  accesses of one thread to the shared memory any other thread may run, so an operation is a
  sequence of steps, one for each access; a thread is at one of the places of \<open>activity\<close>. The steps
  are those of the code; that the stack is a stack of nodes is its specification, \<open>spec_step\<close>, and the
  proof that every timely interleaving (\<open>timely_run\<close>, the counter of \<open>Pop\<close> does not wrap around) implements
  it is by simulation.

  The counter next to the head distinguishes a node that was popped and pushed again in the meantime
  from one that stayed. It has \<open>kCounterBits\<close> bits, so a thread that sleeps in \<open>Pop\<close> while exactly as
  many pushes happen as it has values is not protected. The steps have that case, as the code has it
  (\<open>counter_wrap_breaks_stack\<close> is a run in which the stack loses a node); the refinement is proved for
  the runs without it, \<open>timely_run\<close>, among them all with fewer pushes than the counter has values.
\<close>

section \<open>The state\<close>

text \<open>
  Where a thread is: outside; in \<open>PushRange\<close> before it writes \<open>l->next\<close>, and before its exchange; in
  \<open>Pop\<close> before it reads \<open>curr->next\<close>, and before its exchange. The list is the nodes from \<open>p\<close> to \<open>l\<close>,
  the word is \<open>cmp\<close>; the number, which the code does not have, is that of the pushes when \<open>cmp\<close> was read.
\<close>

datatype activity =
    Outside
  | PushLoaded "u64 list" u64
  | PushLinked "u64 list" u64
  | PopLoaded u64 nat
  | PopRead u64 u64 nat

text \<open>
  \<open>head_\<close>, the fields \<open>next\<close> of all nodes and the threads. The code does not have \<open>push_count\<close>, the
  number of pushes so far, and \<open>owned\<close>, the nodes that belong to the callers: what they have popped or
  not yet pushed.
\<close>

record lock_free_stack =
  head_word :: u64
  next_field :: "u64 \<Rightarrow> u64"
  activities :: "nat \<Rightarrow> activity"
  push_count :: nat
  owned :: "u64 set"

section \<open>The accesses\<close>

text \<open>\<open>l->next = UnpackPointer(cmp)\<close>, and the words that the exchanges write.\<close>

definition link_last :: "nat \<Rightarrow> u64 list \<Rightarrow> u64 \<Rightarrow> (u64 \<Rightarrow> u64) \<Rightarrow> u64 \<Rightarrow> u64" where
  "link_last k seg cmp nx = nx(last seg := UnpackPointer k cmp)"

definition push_xch :: "nat \<Rightarrow> u64 list \<Rightarrow> u64 \<Rightarrow> u64" where
  "push_xch k seg cmp = PackUnsafe k (hd seg) (UnpackCounter k cmp + 1)"

definition pop_xch :: "nat \<Rightarrow> u64 \<Rightarrow> u64 \<Rightarrow> u64" where
  "pop_xch k cmp nxt = PackUnsafe k nxt (UnpackCounter k cmp)"

definition set_activity :: "nat \<Rightarrow> activity \<Rightarrow> lock_free_stack \<Rightarrow> lock_free_stack" where
  "set_activity t act s = s\<lparr>activities := (activities s)(t := act)\<rparr>"

text \<open>The nodes of a range point to one another.\<close>

fun linked :: "(u64 \<Rightarrow> u64) \<Rightarrow> u64 list \<Rightarrow> bool" where
  "linked nx (p # q # ps) = (nx p = q \<and> linked nx (q # ps))"
| "linked nx ps = True"

text \<open>What an observer sees of a step.\<close>

datatype event = Silent | Pushed "u64 list" | Popped u64 | Empty

text \<open>
  The steps. The caller of \<open>PushRange\<close> gives nodes that it owns; \<open>Push\<close> gives one. An exchange of
  \<open>compare_exchange_weak\<close> may fail without a reason, and loads the word again when it fails.
\<close>

inductive stack_step :: "nat \<Rightarrow> lock_free_stack \<Rightarrow> event \<Rightarrow> lock_free_stack \<Rightarrow> bool" for k where
  push_load:
    "\<lbrakk> activities s t = Outside; seg \<noteq> []; distinct seg; set seg \<subseteq> owned s; linked (next_field s) seg \<rbrakk> \<Longrightarrow>
     stack_step k s Silent (set_activity t (PushLoaded seg (head_word s)) (s\<lparr>owned := owned s - set seg\<rparr>))"
| push_link:
    "activities s t = PushLoaded seg cmp \<Longrightarrow>
     stack_step k s Silent
       (set_activity t (PushLinked seg cmp) (s\<lparr>next_field := link_last k seg cmp (next_field s)\<rparr>))"
| push_exchange:
    "\<lbrakk> activities s t = PushLinked seg cmp; head_word s = cmp \<rbrakk> \<Longrightarrow>
     stack_step k s (Pushed seg)
       (set_activity t Outside (s\<lparr>head_word := push_xch k seg cmp, push_count := Suc (push_count s)\<rparr>))"
| push_retry:
    "activities s t = PushLinked seg cmp \<Longrightarrow>
     stack_step k s Silent (set_activity t (PushLoaded seg (head_word s)) s)"
| pop_load:
    "\<lbrakk> activities s t = Outside; UnpackPointer k (head_word s) \<noteq> 0 \<rbrakk> \<Longrightarrow>
     stack_step k s Silent (set_activity t (PopLoaded (head_word s) (push_count s)) s)"
| pop_empty:
    "\<lbrakk> activities s t = Outside; UnpackPointer k (head_word s) = 0 \<rbrakk> \<Longrightarrow> stack_step k s Empty s"
| pop_read:
    "activities s t = PopLoaded cmp n \<Longrightarrow>
     stack_step k s Silent (set_activity t (PopRead cmp (next_field s (UnpackPointer k cmp)) n) s)"
| pop_exchange:
    "\<lbrakk> activities s t = PopRead cmp nxt n; head_word s = cmp \<rbrakk> \<Longrightarrow>
     stack_step k s (Popped (UnpackPointer k cmp))
       (set_activity t Outside
         (s\<lparr>head_word := pop_xch k cmp nxt, owned := insert (UnpackPointer k cmp) (owned s)\<rparr>))"
| pop_retry:
    "\<lbrakk> activities s t = PopRead cmp nxt n; UnpackPointer k (head_word s) \<noteq> 0 \<rbrakk> \<Longrightarrow>
     stack_step k s Silent (set_activity t (PopLoaded (head_word s) (push_count s)) s)"
| pop_gives_up:
    "\<lbrakk> activities s t = PopRead cmp nxt n; UnpackPointer k (head_word s) = 0 \<rbrakk> \<Longrightarrow>
     stack_step k s Empty (set_activity t Outside s)"
| owner_writes:
    "p \<in> owned s \<Longrightarrow> stack_step k s Silent (s\<lparr>next_field := (next_field s)(p := v)\<rparr>)"

inductive stack_run :: "nat \<Rightarrow> lock_free_stack \<Rightarrow> event list \<Rightarrow> lock_free_stack \<Rightarrow> bool" for k where
  run_start: "stack_run k s [] s"
| run_step: "stack_run k s es s' \<Longrightarrow> stack_step k s' e s'' \<Longrightarrow> stack_run k s (es @ [e]) s''"

text \<open>
  The runs in which no thread sleeps in \<open>Pop\<close> for so long that the counter has come back to the value
  that it has read.
\<close>

definition in_time :: "nat \<Rightarrow> lock_free_stack \<Rightarrow> bool" where
  "in_time k s \<longleftrightarrow> (\<forall>t cmp nxt n. activities s t = PopRead cmp nxt n \<longrightarrow> head_word s = cmp \<longrightarrow>
     push_count s < n + 2 ^ kCounterBits k)"

inductive timely_run :: "nat \<Rightarrow> lock_free_stack \<Rightarrow> event list \<Rightarrow> lock_free_stack \<Rightarrow> bool" for k where
  timely_start: "timely_run k s [] s"
| timely_step: "\<lbrakk> timely_run k s es s'; in_time k s'; stack_step k s' e s'' \<rbrakk> \<Longrightarrow> timely_run k s (es @ [e]) s''"

text \<open>A new stack, \<open>head_(0)\<close>, whose nodes belong to the callers.\<close>

definition new_stack :: "u64 set \<Rightarrow> (u64 \<Rightarrow> u64) \<Rightarrow> lock_free_stack" where
  "new_stack nodes nx =
     \<lparr>head_word = 0, next_field = nx, activities = (\<lambda>_. Outside), push_count = 0, owned = nodes\<rparr>"

section \<open>The specification\<close>

fun spec_step :: "u64 list \<Rightarrow> event \<Rightarrow> u64 list option" where
  "spec_step stk Silent = Some stk"
| "spec_step stk (Pushed seg) = Some (seg @ stk)"
| "spec_step (p # stk) (Popped q) = (if p = q then Some stk else None)"
| "spec_step [] (Popped q) = None"
| "spec_step stk Empty = (if stk = [] then Some [] else None)"

fun spec_run :: "u64 list \<Rightarrow> event list \<Rightarrow> u64 list option" where
  "spec_run stk [] = Some stk"
| "spec_run stk (e # es) = Option.bind (spec_step stk e) (\<lambda>stk'. spec_run stk' es)"

lemma spec_run_append: "spec_run stk (es @ es') = Option.bind (spec_run stk es) (\<lambda>stk'. spec_run stk' es')"
  by (induction es arbitrary: stk) (auto split: bind_splits)

section \<open>The simulation\<close>

definition top_of :: "u64 list \<Rightarrow> u64" where
  "top_of stk = (case stk of [] \<Rightarrow> 0 | p # _ \<Rightarrow> p)"

lemma top_of_simps [simp]: "top_of [] = 0" "top_of (p # stk) = p"
  by (simp_all add: top_of_def)

text \<open>The nodes of a list point to one another, the last one to \<open>e\<close>.\<close>

fun chained :: "(u64 \<Rightarrow> u64) \<Rightarrow> u64 list \<Rightarrow> u64 \<Rightarrow> bool" where
  "chained nx [] e = True"
| "chained nx (p # ps) e = (nx p = (case ps of [] \<Rightarrow> e | q # _ \<Rightarrow> q) \<and> chained nx ps e)"

lemma chained_append:
  "chained nx (ps @ qs) e \<longleftrightarrow> chained nx ps (case qs of [] \<Rightarrow> e | q # _ \<Rightarrow> q) \<and> chained nx qs e"
  by (induction ps) (auto split: list.splits)

lemma chained_linked: "chained nx ps e \<longleftrightarrow> linked nx ps \<and> (ps = [] \<or> nx (last ps) = e)"
  by (induction nx ps rule: linked.induct) auto

lemma chained_cong: "(\<And>p. p \<in> set ps \<Longrightarrow> nx p = nx' p) \<Longrightarrow> chained nx ps e = chained nx' ps e"
  by (induction ps) auto

lemma linked_cong: "(\<And>p. p \<in> set ps \<Longrightarrow> nx p = nx' p) \<Longrightarrow> linked nx ps = linked nx' ps"
  by (induction nx ps rule: linked.induct) auto

lemma linked_upd_last: "distinct ps \<Longrightarrow> linked nx ps \<Longrightarrow> linked (nx(last ps := e)) ps"
  by (induction nx ps rule: linked.induct) (auto split: if_splits)

fun segment :: "activity \<Rightarrow> u64 list" where
  "segment (PushLoaded seg cmp) = seg"
| "segment (PushLinked seg cmp) = seg"
| "segment act = []"

definition nodes_ok :: "nat \<Rightarrow> u64 set \<Rightarrow> bool" where
  "nodes_ok k ps \<longleftrightarrow> (\<forall>p \<in> ps. packable k p \<and> p \<noteq> 0)"

lemma nodes_ok_empty [simp]: "nodes_ok k {}"
  by (simp add: nodes_ok_def)

text \<open>What a thread in \<open>Pop\<close> knows of the word that it has read.\<close>

definition snapshot_ok :: "nat \<Rightarrow> lock_free_stack \<Rightarrow> u64 list \<Rightarrow> u64 \<Rightarrow> nat \<Rightarrow> bool" where
  "snapshot_ok k s stk cmp n \<longleftrightarrow> (\<exists>p. packable k p \<and> p \<noteq> 0 \<and> cmp = PackUnsafe k p (of_nat n) \<and> n \<le> push_count s \<and>
     (push_count s = n \<longrightarrow> p \<in> set stk \<longrightarrow> top_of stk = p))"

fun activity_ok :: "nat \<Rightarrow> lock_free_stack \<Rightarrow> u64 list \<Rightarrow> activity \<Rightarrow> bool" where
  "activity_ok k s stk Outside = True"
| "activity_ok k s stk (PushLoaded seg cmp) = (linked (next_field s) seg)"
| "activity_ok k s stk (PushLinked seg cmp) =
     (linked (next_field s) seg \<and> next_field s (last seg) = UnpackPointer k cmp)"
| "activity_ok k s stk (PopLoaded cmp n) = snapshot_ok k s stk cmp n"
| "activity_ok k s stk (PopRead cmp nxt n) = (snapshot_ok k s stk cmp n \<and>
     (push_count s = n \<longrightarrow> UnpackPointer k cmp \<in> set stk \<longrightarrow> nxt = next_field s (UnpackPointer k cmp)))"

definition segment_ok :: "nat \<Rightarrow> lock_free_stack \<Rightarrow> u64 list \<Rightarrow> nat \<Rightarrow> bool" where
  "segment_ok k s stk t \<longleftrightarrow> (let seg = segment (activities s t) in
     distinct seg \<and> nodes_ok k (set seg) \<and> set seg \<inter> owned s = {} \<and> set seg \<inter> set stk = {} \<and>
     (\<forall>u. u \<noteq> t \<longrightarrow> set seg \<inter> set (segment (activities s u)) = {}))"

fun pushing :: "activity \<Rightarrow> bool" where
  "pushing (PushLoaded seg cmp) = (seg \<noteq> [])"
| "pushing (PushLinked seg cmp) = (seg \<noteq> [])"
| "pushing act = True"

definition simulates :: "nat \<Rightarrow> lock_free_stack \<Rightarrow> u64 list \<Rightarrow> bool" where
  "simulates k s stk \<longleftrightarrow>
     head_word s = PackUnsafe k (top_of stk) (of_nat (push_count s)) \<and>
     chained (next_field s) stk 0 \<and> distinct stk \<and> nodes_ok k (set stk) \<and>
     nodes_ok k (owned s) \<and> owned s \<inter> set stk = {} \<and>
     (\<forall>t. activity_ok k s stk (activities s t) \<and> pushing (activities s t) \<and> segment_ok k s stk t)"

text \<open>Taking the parts of the invariant.\<close>

lemma simulatesD:
  assumes "simulates k s stk"
  shows "head_word s = PackUnsafe k (top_of stk) (of_nat (push_count s))" "chained (next_field s) stk 0"
    "distinct stk" "nodes_ok k (set stk)" "nodes_ok k (owned s)" "owned s \<inter> set stk = {}"
    "activity_ok k s stk (activities s t)" "pushing (activities s t)" "segment_ok k s stk t"
  using assms by (simp_all add: simulates_def)

lemma top_packable: "nodes_ok k (set stk) \<Longrightarrow> packable k (top_of stk)"
  by (cases stk) (auto simp: nodes_ok_def)

lemma top_eq_0: "nodes_ok k (set stk) \<Longrightarrow> top_of stk = 0 \<longleftrightarrow> stk = []"
  by (cases stk) (auto simp: nodes_ok_def)

lemma simulates_top:
  assumes "simulates k s stk" and "k \<le> 48"
  shows "UnpackPointer k (head_word s) = top_of stk"
  using simulatesD(1,4) [OF assms(1)] UnpackPointer_Pack [OF assms(2) top_packable] by simp

lemma snapshot_pointer:
  assumes "snapshot_ok k s stk cmp n" and "k \<le> 48"
  shows "packable k (UnpackPointer k cmp)" "UnpackPointer k cmp \<noteq> 0" "n \<le> push_count s"
    "cmp = PackUnsafe k (UnpackPointer k cmp) (of_nat n)"
    "push_count s = n \<Longrightarrow> UnpackPointer k cmp \<in> set stk \<Longrightarrow> top_of stk = UnpackPointer k cmp"
  using assms UnpackPointer_Pack [OF assms(2)] by (auto simp: snapshot_ok_def)

text \<open>What the other threads know does not change when only their surroundings do.\<close>

lemma snapshot_ok_cong:
  assumes "snapshot_ok k s stk cmp n" and "push_count s \<le> push_count s'"
    and "\<And>p. push_count s' = push_count s \<Longrightarrow> p \<in> set stk' \<Longrightarrow> p \<in> set stk \<and> (top_of stk = p \<longrightarrow> top_of stk' = p)"
  shows "snapshot_ok k s' stk' cmp n"
  using assms unfolding snapshot_ok_def by (metis le_antisym le_trans)

lemma activity_ok_cong:
  assumes ok: "activity_ok k s stk act" and le: "push_count s \<le> push_count s'"
    and stk: "\<And>p. push_count s' = push_count s \<Longrightarrow> p \<in> set stk' \<Longrightarrow> p \<in> set stk \<and> (top_of stk = p \<longrightarrow> top_of stk' = p)"
    and nx: "\<And>p. p \<in> set stk \<union> set (segment act) \<Longrightarrow> next_field s' p = next_field s p"
    and push: "pushing act"
  shows "activity_ok k s' stk' act"
proof (cases act)
  case Outside
  then show ?thesis by simp
next
  case (PushLoaded seg cmp)
  then show ?thesis using ok nx linked_cong [of seg "next_field s'" "next_field s"] by simp
next
  case (PushLinked seg cmp)
  then have "last seg \<in> set seg" using push by simp
  then show ?thesis using PushLinked ok nx linked_cong [of seg "next_field s'" "next_field s"] by simp
next
  case (PopLoaded cmp n)
  then show ?thesis using ok snapshot_ok_cong [OF _ le stk] by simp
next
  case (PopRead cmp nxt n)
  then have snap: "snapshot_ok k s stk cmp n"
    and read: "push_count s = n \<longrightarrow> UnpackPointer k cmp \<in> set stk \<longrightarrow> nxt = next_field s (UnpackPointer k cmp)"
    using ok by simp_all
  have "nxt = next_field s' (UnpackPointer k cmp)"
    if n: "push_count s' = n" and p: "UnpackPointer k cmp \<in> set stk'"
  proof -
    have "n \<le> push_count s" using snap by (auto simp: snapshot_ok_def)
    then have e: "push_count s' = push_count s" using n le by simp
    then have "UnpackPointer k cmp \<in> set stk" using stk p by blast
    then show ?thesis using read n e nx by simp
  qed
  then show ?thesis using PopRead snapshot_ok_cong [OF snap le stk] by simp
qed

lemma segment_disjoint:
  assumes "simulates k s stk" and "u \<noteq> t"
  shows "set (segment (activities s t)) \<inter> set (segment (activities s u)) = {}"
  using simulatesD(9) [OF assms(1), of t] assms(2) by (auto simp: segment_ok_def Let_def)

lemma segment_facts:
  assumes "simulates k s stk"
  shows "distinct (segment (activities s t))" "nodes_ok k (set (segment (activities s t)))"
    "set (segment (activities s t)) \<inter> owned s = {}" "set (segment (activities s t)) \<inter> set stk = {}"
  using simulatesD(9) [OF assms, of t] by (simp_all add: segment_ok_def Let_def)

text \<open>
  One step of thread \<open>t\<close>: what is shared is as it has to be afterwards, the thread itself too, and the
  others are not disturbed.
\<close>

lemma simulates_step:
  assumes sim: "simulates k s stk" and len: "activities s' = (activities s)(t := act)"
    and shared: "head_word s' = PackUnsafe k (top_of stk') (of_nat (push_count s'))"
      "chained (next_field s') stk' 0" "distinct stk'" "nodes_ok k (set stk')"
      "nodes_ok k (owned s')" "owned s' \<inter> set stk' = {}"
    and own: "activity_ok k s' stk' act" "pushing act" "distinct (segment act)" "nodes_ok k (set (segment act))"
      "set (segment act) \<inter> owned s' = {}" "set (segment act) \<inter> set stk' = {}"
    and le: "push_count s \<le> push_count s'"
    and stk: "\<And>p. push_count s' = push_count s \<Longrightarrow> p \<in> set stk' \<Longrightarrow> p \<in> set stk \<and> (top_of stk = p \<longrightarrow> top_of stk' = p)"
    and others: "\<And>u p. u \<noteq> t \<Longrightarrow> p \<in> set stk \<union> set (segment (activities s u)) \<Longrightarrow> next_field s' p = next_field s p"
      "\<And>u. u \<noteq> t \<Longrightarrow> set (segment (activities s u)) \<inter> (owned s' \<union> set stk' \<union> set (segment act)) = {}"
  shows "simulates k s' stk'"
proof -
  have "activity_ok k s' stk' (activities s' u) \<and> pushing (activities s' u) \<and> segment_ok k s' stk' u" for u
  proof (cases "u = t")
    case True
    have "set (segment act) \<inter> set (segment (activities s w)) = {}" if "w \<noteq> t" for w
      using others(2) [OF that] by blast
    then show ?thesis using True own len by (auto simp: segment_ok_def Let_def)
  next
    case False
    have "activity_ok k s' stk' (activities s u)"
      by (rule activity_ok_cong [OF simulatesD(7) [OF sim] le stk others(1) [OF False] simulatesD(8) [OF sim]])
    moreover have "segment_ok k s' stk' u"
      using segment_facts [OF sim, of u] segment_disjoint [OF sim, of _ u] others(2) [OF False] False len
      by (auto simp: segment_ok_def Let_def)
    ultimately show ?thesis using False len simulatesD(8) [OF sim, of u] by simp
  qed
  then show ?thesis using shared by (simp add: simulates_def)
qed

section \<open>Every step\<close>

lemma set_activity_fields [simp]:
  "head_word (set_activity t act s) = head_word s" "next_field (set_activity t act s) = next_field s"
  "activities (set_activity t act s) = (activities s)(t := act)" "push_count (set_activity t act s) = push_count s"
  "owned (set_activity t act s) = owned s"
  by (simp_all add: set_activity_def)

text \<open>A step that changes nothing but what its thread knows.\<close>

lemma simulates_local:
  assumes sim: "simulates k s stk" and act: "activity_ok k s stk act" "pushing act"
    and seg: "segment act = segment (activities s t)"
  shows "simulates k (set_activity t act s) stk"
proof (rule simulates_step [OF sim])
  show "activities (set_activity t act s) = (activities s)(t := act)" by simp
  show "activity_ok k (set_activity t act s) stk act"
    by (rule activity_ok_cong [OF act(1)]) (simp_all add: act(2))
  show "set (segment (activities s u)) \<inter> (owned (set_activity t act s) \<union> set stk \<union> set (segment act)) = {}"
    if "u \<noteq> t" for u
    using segment_facts [OF sim, of u] segment_disjoint [OF sim that [symmetric], symmetric] seg by auto
qed (use sim simulatesD [OF sim] segment_facts [OF sim, of t] seg act in simp_all)

lemma snapshot_now:
  assumes "simulates k s stk" and "k \<le> 48" and "UnpackPointer k (head_word s) \<noteq> 0"
  shows "snapshot_ok k s stk (head_word s) (push_count s)"
  using assms simulatesD(1,4) [OF assms(1)] top_packable [of k stk] simulates_top [OF assms(1,2)]
  by (auto simp: snapshot_ok_def intro!: exI [of _ "top_of stk"])

lemma simulates_push_load:
  assumes sim: "simulates k s stk" and a: "activities s t = Outside" and seg: "seg \<noteq> []" "distinct seg"
    "set seg \<subseteq> owned s" "linked (next_field s) seg"
  shows "simulates k (set_activity t (PushLoaded seg (head_word s)) (s\<lparr>owned := owned s - set seg\<rparr>)) stk"
proof (rule simulates_step [OF sim])
  show "set (segment (activities s u)) \<inter> (owned (set_activity t (PushLoaded seg (head_word s))
      (s\<lparr>owned := owned s - set seg\<rparr>)) \<union> set stk \<union> set (segment (PushLoaded seg (head_word s)))) = {}" for u
    using segment_facts [OF sim, of u] seg(3) by auto
qed (use simulatesD [OF sim] seg in \<open>auto simp: nodes_ok_def\<close>)

lemma simulates_push_link:
  assumes sim: "simulates k s stk" and a: "activities s t = PushLoaded seg cmp"
  shows "simulates k (set_activity t (PushLinked seg cmp) (s\<lparr>next_field := link_last k seg cmp (next_field s)\<rparr>)) stk"
proof (rule simulates_step [OF sim])
  let ?s = "set_activity t (PushLinked seg cmp) (s\<lparr>next_field := link_last k seg cmp (next_field s)\<rparr>)"
  have seg: "seg \<noteq> []" "linked (next_field s) seg" "distinct seg" "nodes_ok k (set seg)"
    "set seg \<inter> owned s = {}" "set seg \<inter> set stk = {}"
    using simulatesD(7,8) [OF sim, of t] segment_facts [OF sim, of t] a by simp_all
  then have last: "last seg \<in> set seg" by simp
  have "next_field s p = next_field ?s p" if "p \<in> set stk" for p
    using that seg(6) last by (auto simp: link_last_def)
  from chained_cong [OF this, of stk "\<lambda>p. p" 0] simulatesD(2) [OF sim]
  show "chained (next_field ?s) stk 0" by simp
  show "pushing (PushLinked seg cmp)" using seg(1) by simp
  show "activity_ok k ?s stk (PushLinked seg cmp)"
    using linked_upd_last [OF seg(3,2)] by (simp add: link_last_def)
  show "next_field ?s p = next_field s p" if "u \<noteq> t" "p \<in> set stk \<union> set (segment (activities s u))" for u p
    using that seg(6) last segment_disjoint [OF sim that(1)] a by (auto simp: link_last_def)
  show "set (segment (activities s u)) \<inter> (owned ?s \<union> set stk \<union> set (segment (PushLinked seg cmp))) = {}"
    if "u \<noteq> t" for u
    using segment_facts [OF sim, of u] segment_disjoint [OF sim that] a by auto
qed (use simulatesD [OF sim] segment_facts [OF sim, of t] a in \<open>auto\<close>)

lemma unat_take_bit_u64:
  assumes "c \<le> 64"
  shows "m mod 2 ^ LENGTH(64) mod 2 ^ c = m mod (2 :: nat) ^ c" and "unat (take_bit c (w :: u64)) = unat w mod 2 ^ c"
proof -
  show "m mod 2 ^ LENGTH(64) mod 2 ^ c = m mod (2 :: nat) ^ c"
    using assms by (intro mod_mod_cancel le_imp_power_dvd) simp
  show "unat (take_bit c w) = unat w mod 2 ^ c"
    unfolding unsigned_take_bit_eq by (simp only: take_bit_eq_mod)
qed

lemma take_bit_sum:
  fixes a b :: u64
  assumes "c \<le> 64"
  shows "take_bit c (take_bit c a + b) = take_bit c (a + b)"
proof (rule unsigned_word_eqI [where 'a = nat])
  show "unat (take_bit c (take_bit c a + b)) = unat (take_bit c (a + b))"
    by (simp only: unat_take_bit_u64 [OF assms] unat_word_ariths mod_add_left_eq)
qed

lemma counter_after_push:
  "PackUnsafe k p (take_bit (kCounterBits k) (of_nat n) + 1) = PackUnsafe k p (of_nat (Suc n))"
proof -
  have "take_bit (kCounterBits k) (take_bit (kCounterBits k) (of_nat n) + 1 :: u64) =
      take_bit (kCounterBits k) (of_nat (Suc n))"
    using take_bit_sum [of "kCounterBits k" "of_nat n" 1] by (simp add: kCounterBits_def add.commute)
  then show ?thesis by (metis PackUnsafe_truncates)
qed

lemma simulates_push_exchange:
  assumes sim: "simulates k s stk" and k: "k \<le> 48" and a: "activities s t = PushLinked seg cmp" "head_word s = cmp"
  shows "simulates k (set_activity t Outside
    (s\<lparr>head_word := push_xch k seg cmp, push_count := Suc (push_count s)\<rparr>)) (seg @ stk)"
proof (rule simulates_step [OF sim])
  let ?s = "set_activity t Outside (s\<lparr>head_word := push_xch k seg cmp, push_count := Suc (push_count s)\<rparr>)"
  have seg: "seg \<noteq> []" "linked (next_field s) seg" "next_field s (last seg) = top_of stk" "distinct seg"
    "nodes_ok k (set seg)" "set seg \<inter> owned s = {}" "set seg \<inter> set stk = {}"
    using simulatesD(7,8) [OF sim, of t] segment_facts [OF sim, of t] a simulates_top [OF sim k] by simp_all
  have "UnpackCounter k cmp = take_bit (kCounterBits k) (of_nat (push_count s))"
    using simulatesD(1,4) [OF sim] a(2) UnpackCounter_Pack [OF k top_packable] by simp
  moreover have "top_of (seg @ stk) = hd seg" using seg(1) by (cases seg) simp_all
  ultimately show "head_word ?s = PackUnsafe k (top_of (seg @ stk)) (of_nat (push_count ?s))"
    using counter_after_push [of k "hd seg" "push_count s"] by (simp add: push_xch_def)
  show "chained (next_field ?s) (seg @ stk) 0"
  proof -
    have "chained (next_field s) seg (top_of stk)" using seg(2,3) by (simp add: chained_linked)
    then show ?thesis using simulatesD(2) [OF sim] unfolding chained_append by (simp add: top_of_def)
  qed
  show "distinct (seg @ stk)" "nodes_ok k (set (seg @ stk))" "owned ?s \<inter> set (seg @ stk) = {}"
    using simulatesD(3,4,6) [OF sim] seg(4-7) by (auto simp: nodes_ok_def)
  show "set (segment (activities s u)) \<inter> (owned ?s \<union> set (seg @ stk) \<union> set (segment Outside)) = {}"
    if "u \<noteq> t" for u
    using segment_facts [OF sim, of u] segment_disjoint [OF sim that] a by auto
qed (use simulatesD [OF sim] in auto)

lemma same_counter:
  assumes "n \<le> m" and "m < n + 2 ^ kCounterBits k" and "kCounterBits k \<le> 64"
    and "take_bit (kCounterBits k) (of_nat m :: u64) = take_bit (kCounterBits k) (of_nat n)"
  shows "m = n"
proof -
  let ?c = "kCounterBits k"
  have "unat (take_bit ?c (of_nat i :: u64)) = i mod 2 ^ ?c" for i
    by (simp only: unat_take_bit_u64 [OF assms(3)] unat_of_nat)
  then have "m mod 2 ^ ?c = n mod 2 ^ ?c" using assms(4) by metis
  then have "2 ^ ?c dvd m - n" using assms(1) by (simp add: mod_eq_dvd_iff_nat)
  moreover have "m - n < 2 ^ ?c" using assms(1,2) by linarith
  ultimately show ?thesis using assms(1) by (auto dest: nat_dvd_not_less)
qed

text \<open>An exchange of \<open>Pop\<close> that succeeds takes the top node and leaves the node that was read behind it.\<close>

lemma pop_exchange_top:
  assumes sim: "simulates k s stk" and k: "k \<le> 48" and a: "activities s t = PopRead cmp nxt n"
    and cas: "head_word s = cmp" and time: "in_time k s"
  obtains rest where "stk = UnpackPointer k cmp # rest" "nxt = top_of rest" "push_count s = n"
proof -
  have snap: "snapshot_ok k s stk cmp n"
    and read: "push_count s = n \<longrightarrow> UnpackPointer k cmp \<in> set stk \<longrightarrow> nxt = next_field s (UnpackPointer k cmp)"
    using simulatesD(7) [OF sim, of t] a by simp_all
  have few: "push_count s < n + 2 ^ kCounterBits k" using time a cas unfolding in_time_def by blast
  note p = snapshot_pointer [OF snap k]
  have "PackUnsafe k (top_of stk) (of_nat (push_count s)) = PackUnsafe k (UnpackPointer k cmp) (of_nat n)"
    using simulatesD(1) [OF sim] cas p(4) by simp
  then have e: "top_of stk = UnpackPointer k cmp"
    "take_bit (kCounterBits k) (of_nat (push_count s) :: u64) = take_bit (kCounterBits k) (of_nat n)"
    using PackUnsafe_eq_iff [OF k top_packable [OF simulatesD(4) [OF sim]] p(1)] by simp_all
  have "kCounterBits k \<le> 64" by (simp add: kCounterBits_def)
  then have n: "push_count s = n" using same_counter [OF p(3) few _ e(2)] by simp
  obtain rest where rest: "stk = UnpackPointer k cmp # rest" using e(1) p(2) by (cases stk) auto
  then have "nxt = next_field s (UnpackPointer k cmp)" using read n by simp
  then have "nxt = top_of rest" using simulatesD(2) [OF sim] rest by (simp add: top_of_def)
  then show ?thesis using that rest n by blast
qed

lemma simulates_pop_exchange:
  assumes sim: "simulates k s stk" and k: "k \<le> 48" and a: "activities s t = PopRead cmp nxt n"
    and cas: "head_word s = cmp" and stk: "stk = UnpackPointer k cmp # rest" "nxt = top_of rest"
  shows "simulates k (set_activity t Outside
    (s\<lparr>head_word := pop_xch k cmp nxt, owned := insert (UnpackPointer k cmp) (owned s)\<rparr>)) rest"
proof (rule simulates_step [OF sim])
  let ?s = "set_activity t Outside (s\<lparr>head_word := pop_xch k cmp nxt, owned := insert (UnpackPointer k cmp) (owned s)\<rparr>)"
  have "UnpackCounter k cmp = take_bit (kCounterBits k) (of_nat (push_count s))"
    using simulatesD(1,4) [OF sim] cas UnpackCounter_Pack [OF k top_packable] by simp
  then show "head_word ?s = PackUnsafe k (top_of rest) (of_nat (push_count ?s))"
    using stk(2) by (simp add: pop_xch_def PackUnsafe_truncates)
  show "chained (next_field ?s) rest 0" "distinct rest" "nodes_ok k (set rest)" "nodes_ok k (owned ?s)"
    "owned ?s \<inter> set rest = {}"
    using simulatesD(2-6) [OF sim] stk(1) by (auto simp: nodes_ok_def)
  show "p \<in> set stk \<and> (top_of stk = p \<longrightarrow> top_of rest = p)" if "p \<in> set rest" for p
    using that simulatesD(3) [OF sim] stk(1) by auto
  show "set (segment (activities s u)) \<inter> (owned ?s \<union> set rest \<union> set (segment Outside)) = {}" if "u \<noteq> t" for u
    using segment_facts [OF sim, of u] stk(1) by auto
qed simp_all

lemma simulates_owner_writes:
  assumes sim: "simulates k s stk" and p: "p \<in> owned s"
  shows "simulates k (s\<lparr>next_field := (next_field s)(p := v)\<rparr>) stk"
proof (rule simulates_step [OF sim, where t = 0])
  let ?s = "s\<lparr>next_field := (next_field s)(p := v)\<rparr>"
  have out: "p \<notin> set stk" "p \<notin> set (segment (activities s u))" for u
    using simulatesD(6) [OF sim] segment_facts(3) [OF sim, of u] p by auto
  show "activities ?s = (activities s)(0 := activities s 0)" by simp
  have "next_field s q = next_field ?s q" if "q \<in> set stk" for q using that out(1) by auto
  from chained_cong [OF this, of stk "\<lambda>q. q" 0] simulatesD(2) [OF sim]
  show "chained (next_field ?s) stk 0" by (simp add: fun_upd_def)
  show "activity_ok k ?s stk (activities s 0)"
    by (rule activity_ok_cong [OF simulatesD(7) [OF sim]]) (use out simulatesD(8) [OF sim] in auto)
  show "next_field ?s q = next_field s q" if "q \<in> set stk \<union> set (segment (activities s u))" for u q
    using that out by auto
  show "set (segment (activities s u)) \<inter> (owned ?s \<union> set stk \<union> set (segment (activities s 0))) = {}" if "u \<noteq> 0" for u
    using segment_facts [OF sim, of u] segment_disjoint [OF sim that] by auto
qed (use simulatesD [OF sim] segment_facts [OF sim, of 0] in simp_all)

lemma simulation:
  assumes "stack_step k s e s'" and sim: "simulates k s stk" and k: "k \<le> 48" and time: "in_time k s"
  shows "\<exists>stk'. spec_step stk e = Some stk' \<and> simulates k s' stk'"
  using assms(1)
proof cases
  case (push_load t seg)
  then show ?thesis using simulates_push_load [OF sim] by simp
next
  case (push_link t seg cmp)
  then show ?thesis using simulates_push_link [OF sim] by simp
next
  case (push_exchange t seg cmp)
  then show ?thesis using simulates_push_exchange [OF sim k] by simp
next
  case (push_retry t seg cmp)
  then show ?thesis
    using simulates_local [OF sim, of "PushLoaded seg (head_word s)" t] simulatesD(7,8) [OF sim, of t] by simp
next
  case (pop_load t)
  then show ?thesis
    using simulates_local [OF sim, of "PopLoaded (head_word s) (push_count s)" t] snapshot_now [OF sim k] by simp
next
  case (pop_empty t)
  then have "stk = []" using simulates_top [OF sim k] top_eq_0 [OF simulatesD(4) [OF sim]] by simp
  then show ?thesis using pop_empty sim by simp
next
  case (pop_read t cmp n)
  then show ?thesis
    using simulates_local [OF sim, of "PopRead cmp (next_field s (UnpackPointer k cmp)) n" t] simulatesD(7) [OF sim, of t]
    by simp
next
  case (pop_exchange t cmp nxt n)
  obtain rest where "stk = UnpackPointer k cmp # rest" "nxt = top_of rest"
    using pop_exchange_top [OF sim k pop_exchange(3,4) time] by blast
  then show ?thesis using simulates_pop_exchange [OF sim k pop_exchange(3,4)] pop_exchange by simp
next
  case (pop_retry t cmp nxt n)
  then show ?thesis
    using simulates_local [OF sim, of "PopLoaded (head_word s) (push_count s)" t] snapshot_now [OF sim k] by simp
next
  case (pop_gives_up t cmp nxt n)
  then have "stk = []" using simulates_top [OF sim k] top_eq_0 [OF simulatesD(4) [OF sim]] by simp
  then show ?thesis using pop_gives_up simulates_local [OF sim, of Outside t] by simp
next
  case (owner_writes p v)
  then show ?thesis using simulates_owner_writes [OF sim] by simp
qed

lemma simulates_new:
  assumes "nodes_ok k nodes"
  shows "simulates k (new_stack nodes nx) []"
  using assms by (simp add: simulates_def new_stack_def segment_ok_def nodes_ok_def PackUnsafe_def)

section \<open>Whole runs\<close>

lemma run_simulates:
  assumes "timely_run k (new_stack nodes nx) es s" and "nodes_ok k nodes" and "k \<le> 48"
  shows "\<exists>stk. spec_run [] es = Some stk \<and> simulates k s stk"
  using assms(1)
proof (induction "new_stack nodes nx" es s rule: timely_run.induct)
  case timely_start
  then show ?case using simulates_new [OF assms(2)] by simp
next
  case (timely_step es s' e s'')
  then obtain stk where stk: "spec_run [] es = Some stk" "simulates k s' stk" by blast
  then obtain stk' where "spec_step stk e = Some stk'" "simulates k s'' stk'"
    using simulation [OF timely_step(4) stk(2) assms(3) timely_step(3)] by blast
  then show ?case using stk(1) by (simp add: spec_run_append)
qed

lemma stack_run_one: "stack_step k s e s' \<Longrightarrow> stack_run k s [e] s'"
  using run_step [OF run_start] by simp

lemma stack_run_append:
  assumes "stack_run k s' es' s''" and "stack_run k s es s'"
  shows "stack_run k s (es @ es') s''"
  using assms by (induction rule: stack_run.induct) (auto simp flip: append_assoc intro: stack_run.run_step)

lemma stack_run_Cons: "stack_step k s e s' \<Longrightarrow> stack_run k s' es s'' \<Longrightarrow> stack_run k s (e # es) s''"
  using stack_run_append [OF _ stack_run_one] by fastforce

text \<open>A thread that is not disturbed gets through \<open>Push\<close> and \<open>Pop\<close> at the first attempt.\<close>

lemma undisturbed_push:
  assumes "activities s t = Outside" and "p \<in> owned s"
  shows "stack_run k s [Silent, Silent, Pushed [p]] (s
    \<lparr>head_word := push_xch k [p] (head_word s), next_field := link_last k [p] (head_word s) (next_field s),
     activities := (activities s)(t := Outside), push_count := Suc (push_count s), owned := owned s - {p}\<rparr>)"
proof -
  let ?cmp = "head_word s"
  let ?s1 = "set_activity t (PushLoaded [p] ?cmp) (s\<lparr>owned := owned s - set [p]\<rparr>)"
  let ?s2 = "set_activity t (PushLinked [p] ?cmp) (?s1\<lparr>next_field := link_last k [p] ?cmp (next_field ?s1)\<rparr>)"
  let ?s3 = "set_activity t Outside (?s2\<lparr>head_word := push_xch k [p] ?cmp, push_count := Suc (push_count ?s2)\<rparr>)"
  have "stack_step k s Silent ?s1" by (rule push_load) (use assms in simp_all)
  moreover have "stack_step k ?s1 Silent ?s2" by (rule push_link) simp
  moreover have "stack_step k ?s2 (Pushed [p]) ?s3" by (rule push_exchange) simp_all
  ultimately have "stack_run k s [Silent, Silent, Pushed [p]] ?s3"
    by (blast intro: stack_run_Cons stack_run_one)
  then show ?thesis by (cases s) (simp add: set_activity_def)
qed

lemma undisturbed_pop:
  assumes "activities s t = Outside" and "UnpackPointer k (head_word s) \<noteq> 0"
  shows "stack_run k s [Silent, Silent, Popped (UnpackPointer k (head_word s))] (s
    \<lparr>head_word := pop_xch k (head_word s) (next_field s (UnpackPointer k (head_word s))),
     activities := (activities s)(t := Outside), owned := insert (UnpackPointer k (head_word s)) (owned s)\<rparr>)"
proof -
  let ?cmp = "head_word s" and ?p = "UnpackPointer k (head_word s)"
  let ?s1 = "set_activity t (PopLoaded ?cmp (push_count s)) s"
  let ?s2 = "set_activity t (PopRead ?cmp (next_field ?s1 ?p) (push_count s)) ?s1"
  let ?s3 = "set_activity t Outside (?s2\<lparr>head_word := pop_xch k ?cmp (next_field s ?p), owned := insert ?p (owned ?s2)\<rparr>)"
  have "stack_step k s Silent ?s1" by (rule pop_load) (use assms in simp_all)
  moreover have "stack_step k ?s1 Silent ?s2" by (rule pop_read) simp
  moreover have "stack_step k ?s2 (Popped ?p) ?s3"
    by (rule pop_exchange [where t = t and n = "push_count s"]) simp_all
  ultimately have "stack_run k s [Silent, Silent, Popped ?p] ?s3"
    by (blast intro: stack_run_Cons stack_run_one)
  then show ?thesis by (cases s) (simp add: set_activity_def)
qed

text \<open>Every run is timely that has fewer pushes than the counter has values.\<close>

fun pushes :: "event list \<Rightarrow> nat" where
  "pushes [] = 0"
| "pushes (Pushed seg # es) = Suc (pushes es)"
| "pushes (e # es) = pushes es"

lemma pushes_append [simp]: "pushes (es @ es') = pushes es + pushes es'"
  by (induction es rule: pushes.induct) simp_all

lemma push_count_step: "stack_step k s e s' \<Longrightarrow> push_count s' = push_count s + pushes [e]"
  by (cases rule: stack_step.cases) auto

lemma push_count_run: "stack_run k s es s' \<Longrightarrow> push_count s' = push_count s + pushes es"
  by (induction rule: stack_run.induct) (auto dest: push_count_step)

lemma few_pushes_timely:
  assumes "stack_run k s es s'" and "push_count s + pushes es < 2 ^ kCounterBits k"
  shows "timely_run k s es s'"
  using assms
proof (induction rule: stack_run.induct)
  case (run_start s)
  then show ?case by (simp add: timely_start)
next
  case (run_step s es s' e s'')
  have "push_count s' < 2 ^ kCounterBits k" using push_count_run [OF run_step(1)] run_step(4) by simp
  then have "in_time k s'" unfolding in_time_def by (meson trans_less_add2)
  then show ?case using run_step by (simp add: timely_step)
qed

lemma timely_run_is_run: "timely_run k s es s' \<Longrightarrow> stack_run k s es s'"
  by (induction rule: timely_run.induct) (auto intro: stack_run.intros)

text \<open>
  The hypothesis is needed: when a node is popped and pushed again until the counter has come round,
  a thread that sleeps in \<open>Pop\<close> does not notice, and writes the successor that the node had before.
\<close>

lemma churn:
  assumes k: "k \<le> 48" and p: "packable k p" "p \<noteq> 0" "p \<notin> owned s" "packable k (next_field s p)"
    and t: "activities s t = Outside" and h: "head_word s = PackUnsafe k p (of_nat c)"
  shows "stack_run k s [Silent, Silent, Popped p, Silent, Silent, Pushed [p]]
    (s\<lparr>head_word := PackUnsafe k p (of_nat (Suc c)), push_count := Suc (push_count s)\<rparr>)"
proof -
  let ?q = "next_field s p"
  let ?s1 = "s\<lparr>head_word := pop_xch k (head_word s) ?q, activities := (activities s)(t := Outside),
    owned := insert p (owned s)\<rparr>"
  have u: "UnpackPointer k (head_word s) = p" using UnpackPointer_Pack [OF k p(1)] h by simp
  have x: "pop_xch k (head_word s) ?q = PackUnsafe k ?q (of_nat c)"
    using UnpackCounter_Pack [OF k p(1)] h by (simp add: pop_xch_def PackUnsafe_truncates)
  have pop: "stack_run k s [Silent, Silent, Popped p] ?s1"
    using undisturbed_pop [OF t, of k] u p(2) by simp
  have push: "push_xch k [p] (PackUnsafe k ?q (of_nat c)) = PackUnsafe k p (of_nat (Suc c))"
    using UnpackCounter_Pack [OF k p(4)] counter_after_push [of k p c] by (simp add: push_xch_def)
  have link: "link_last k [p] (PackUnsafe k ?q (of_nat c)) (next_field s) = next_field s"
    using UnpackPointer_Pack [OF k p(4)] by (simp add: link_last_def)
  from stack_run_append [OF undisturbed_push [of ?s1 t p k] pop] show ?thesis
    using t p(3) push link x by (cases s) (auto simp: fun_upd_idem)
qed

abbreviation pop_and_push :: "u64 \<Rightarrow> nat \<Rightarrow> event list" where
  "pop_and_push p m \<equiv> concat (replicate m [Silent, Silent, Popped p, Silent, Silent, Pushed [p]])"

lemma churns:
  assumes "k \<le> 48" and "packable k p" "p \<noteq> 0" "p \<notin> owned s" "packable k (next_field s p)"
    and "activities s t = Outside" and "head_word s = PackUnsafe k p (of_nat c)"
  shows "stack_run k s (pop_and_push p m)
    (s\<lparr>head_word := PackUnsafe k p (of_nat (c + m)), push_count := push_count s + m\<rparr>)"
  using assms(4-7)
proof (induction m arbitrary: s c)
  case 0
  then have "s\<lparr>head_word := PackUnsafe k p (of_nat (c + 0)), push_count := push_count s + 0\<rparr> = s"
    by (cases s) simp
  then show ?case by (metis concat.simps(1) replicate_0 run_start)
next
  case (Suc m)
  let ?s = "s\<lparr>head_word := PackUnsafe k p (of_nat (Suc c)), push_count := Suc (push_count s)\<rparr>"
  have one: "stack_run k s [Silent, Silent, Popped p, Silent, Silent, Pushed [p]] ?s"
    by (rule churn [OF assms(1-3) Suc(2-5)])
  have "stack_run k ?s (pop_and_push p m)
      (?s\<lparr>head_word := PackUnsafe k p (of_nat (Suc c + m)), push_count := push_count ?s + m\<rparr>)"
    by (rule Suc.IH) (use Suc.prems in simp_all)
  from stack_run_append [OF this one] show ?case by simp
qed

lemma spec_pop_and_push: "spec_run (p # stk) (pop_and_push p m) = Some (p # stk)"
  by (induction m) (simp_all add: spec_run_append)

lemma PackUnsafe_wraps: "PackUnsafe k p (of_nat (n + 2 ^ kCounterBits k)) = PackUnsafe k p (of_nat n)"
proof -
  have c: "kCounterBits k \<le> 64" by (simp add: kCounterBits_def)
  have "take_bit (kCounterBits k) (of_nat (n + 2 ^ kCounterBits k) :: u64) = take_bit (kCounterBits k) (of_nat n)"
  proof (rule unsigned_word_eqI [where 'a = nat])
    have u: "unat (take_bit (kCounterBits k) (of_nat i :: u64)) = i mod 2 ^ kCounterBits k" for i
      by (simp only: unat_take_bit_u64 [OF c] unat_of_nat)
    show "unat (take_bit (kCounterBits k) (of_nat (n + 2 ^ kCounterBits k) :: u64)) =
        unat (take_bit (kCounterBits k) (of_nat n :: u64))"
      unfolding u by simp
  qed
  then show ?thesis by (metis PackUnsafe_truncates)
qed

text \<open>Thread 0 pushes one node and then a second one below it, while thread 1 sleeps with the first.\<close>

lemma insert_below:
  assumes k: "k \<le> 48" and p: "packable k p" "p \<noteq> 0" and q: "packable k q" "q \<noteq> 0" "p \<noteq> q"
    and s: "activities s 0 = Outside" "head_word s = PackUnsafe k p (of_nat c)" "next_field s p = 0" "owned s = {q}"
  shows "stack_run k s [Silent, Silent, Popped p, Silent, Silent, Pushed [q], Silent, Silent, Pushed [p]]
    (s\<lparr>head_word := PackUnsafe k p (of_nat (Suc (Suc c))), next_field := (next_field s)(q := 0, p := q),
       push_count := Suc (Suc (push_count s)), owned := {}\<rparr>)"
proof -
  have u: "UnpackPointer k (head_word s) = p" using UnpackPointer_Pack [OF k p(1)] s(2) by simp
  have x: "pop_xch k (head_word s) 0 = PackUnsafe k 0 (of_nat c)"
    using UnpackCounter_Pack [OF k p(1)] s(2) by (simp add: pop_xch_def PackUnsafe_truncates)
  have push: "push_xch k [a] (PackUnsafe k b (of_nat m)) = PackUnsafe k a (of_nat (Suc m))"
    and link: "link_last k [a] (PackUnsafe k b (of_nat m)) nx = nx(a := b)" if "packable k b" for a b m nx
    using UnpackCounter_Pack [OF k that] UnpackPointer_Pack [OF k that] counter_after_push [of k a m]
    by (simp_all add: push_xch_def link_last_def)
  let ?s1 = "s\<lparr>head_word := PackUnsafe k 0 (of_nat c), activities := (activities s)(0 := Outside), owned := {p, q}\<rparr>"
  let ?s2 = "?s1\<lparr>head_word := PackUnsafe k q (of_nat (Suc c)), next_field := (next_field s)(q := 0),
    push_count := Suc (push_count s), owned := {p}\<rparr>"
  have 1: "stack_run k s [Silent, Silent, Popped p] ?s1"
    using undisturbed_pop [of s 0 k] s u p(2) x by simp
  have 2: "stack_run k ?s1 [Silent, Silent, Pushed [q]] ?s2"
    using undisturbed_push [of ?s1 0 q k] push [of 0 q c] link [of 0 q c "next_field s"] q(3)
    by (cases s) (simp add: insert_Diff_if)
  have 3: "stack_run k ?s2 [Silent, Silent, Pushed [p]] (s\<lparr>head_word := PackUnsafe k p (of_nat (Suc (Suc c))),
      next_field := (next_field s)(q := 0, p := q), push_count := Suc (Suc (push_count s)), owned := {}\<rparr>)"
    using undisturbed_push [of ?s2 0 p k] push [OF q(1), of p "Suc c"] link [OF q(1), of p "Suc c" "(next_field s)(q := 0)"]
      s(1) by (cases s) (simp add: fun_upd_idem)
  show ?thesis using stack_run_append [OF 3 stack_run_append [OF 2 1]] by simp
qed

lemma counter_wrap_breaks_stack:
  assumes k: "k \<le> 48" and p: "packable k p" "p \<noteq> 0" and q: "packable k q" "q \<noteq> 0" "p \<noteq> q"
  shows "\<exists>es s. stack_run k (new_stack {p, q} nx) es s \<and> spec_run [] es = None"
proof -
  let ?s0 = "new_stack {p, q} nx" and ?w = "PackUnsafe k p (of_nat 1)" and ?m = "2 ^ kCounterBits k - 2 :: nat"
  let ?s1 = "?s0\<lparr>head_word := ?w, next_field := nx(p := 0), push_count := 1, owned := {q}\<rparr>"
  let ?s2 = "set_activity 1 (PopLoaded ?w 1) ?s1"
  let ?s3 = "set_activity 1 (PopRead ?w 0 1) ?s2"
  let ?s4 = "?s3\<lparr>head_word := PackUnsafe k p (of_nat 3), next_field := nx(p := q, q := 0), push_count := 3, owned := {}\<rparr>"
  let ?s5 = "?s4\<lparr>head_word := ?w, push_count := 3 + ?m\<rparr>"
  let ?s6 = "set_activity 1 Outside (?s5\<lparr>head_word := pop_xch k ?w 0, owned := insert (UnpackPointer k ?w) {}\<rparr>)"
  have zero: "PackUnsafe k 0 0 = 0" by (simp add: PackUnsafe_def)
  have u: "UnpackPointer k (PackUnsafe k r c) = r" if "packable k r" for r c using UnpackPointer_Pack [OF k that] .
  have x: "push_xch k [p] 0 = ?w" "link_last k [p] 0 nx = nx(p := 0)"
    using UnpackCounter_Pack [OF k packable_0, of 0] u [OF packable_0, of 0] zero
    by (simp_all add: push_xch_def link_last_def)
  have 1: "stack_run k ?s0 [Silent, Silent, Pushed [p]] ?s1"
    using undisturbed_push [of ?s0 0 p k] x q(3) by (simp add: new_stack_def insert_Diff_if fun_upd_def)
  have 2: "stack_step k ?s1 Silent ?s2"
    using pop_load [of ?s1 1 k] u [OF p(1)] p(2) by (simp add: new_stack_def)
  have 3: "stack_step k ?s2 Silent ?s3"
    using pop_read [of ?s2 1 ?w 1 k] u [OF p(1)] by simp
  have 4: "stack_run k ?s3 [Silent, Silent, Popped p, Silent, Silent, Pushed [q], Silent, Silent, Pushed [p]] ?s4"
    using insert_below [OF k p q, of ?s3 1] q(3) by (simp add: new_stack_def set_activity_def fun_upd_twist eval_nat_numeral)
  have "(2 :: nat) ^ 1 \<le> 2 ^ kCounterBits k"
    by (rule power_increasing) (simp_all add: kCounterBits_def kRealPointerBits_def kPointerBits_def)
  then have "3 + ?m = 1 + 2 ^ kCounterBits k" by simp
  then have wrap: "PackUnsafe k p (of_nat (3 + ?m)) = ?w" by (simp only: PackUnsafe_wraps)
  have 5: "stack_run k ?s4 (pop_and_push p ?m) ?s5"
    using churns [OF k p, of ?s4 0 3 ?m] q(1) wrap by (simp add: new_stack_def)
  have 6: "stack_step k ?s5 (Popped p) ?s6"
    using pop_exchange [of ?s5 1 ?w 0 1 k] u [OF p(1)] by simp
  have 7: "stack_step k ?s6 Empty ?s6"
    by (rule pop_empty [where t = 0]) (use u [OF packable_0] in \<open>simp_all add: new_stack_def pop_xch_def\<close>)
  let ?es = "[Silent, Silent, Pushed [p]] @ [Silent, Silent] @
    [Silent, Silent, Popped p, Silent, Silent, Pushed [q], Silent, Silent, Pushed [p]] @ pop_and_push p ?m @ [Popped p, Empty]"
  have "stack_run k ?s0 ?es ?s6"
    by (intro stack_run_append [OF _ 1] stack_run_append [OF _ 4] stack_run_append [OF _ 5]
        stack_run_append [OF _ stack_run_Cons [OF 2 stack_run_one [OF 3]]] stack_run_Cons [OF 6 stack_run_one [OF 7]])
  moreover have "spec_run [] ?es = None" by (simp add: spec_run_append spec_pop_and_push)
  ultimately show ?thesis by blast
qed

text \<open>
  C33: the lock-free stack is a stack under every interleaving in which no thread sleeps in \<open>Pop\<close>,
  between reading the head and its exchange, for \<open>2 ^ kCounterBits\<close> pushes or more and then finds the
  word that it has read (\<open>timely_run\<close>; a run with fewer pushes in all is one, and without that
  hypothesis the stack can lose nodes): whatever threads push ranges of nodes and
  pop, and in whatever order their accesses to the shared memory happen, the pushes and pops that
  succeed, in the order of their exchanges, are those of a list of nodes; \<open>Pop\<close> returns null only when
  it is empty; and at every moment the head and the fields \<open>next\<close> spell out that list, which shares no
  node with the callers.
\<close>
theorem lock_free_stack_linearizable:
  assumes "timely_run k (new_stack nodes nx) es s" and "nodes_ok k nodes" and "k \<le> 48"
  shows "\<exists>stk. spec_run [] es = Some stk \<and> UnpackPointer k (head_word s) = top_of stk \<and>
    chained (next_field s) stk 0 \<and> distinct stk \<and> owned s \<inter> set stk = {}"
proof -
  obtain stk where stk: "spec_run [] es = Some stk" "simulates k s stk" using run_simulates [OF assms] by blast
  then show ?thesis using simulatesD [OF stk(2)] simulates_top [OF stk(2) assms(3)] by blast
qed

theorem lock_free_stack_linearizable_witness:
  "\<exists>s es. timely_run 3 (new_stack {8, 16} (\<lambda>_. 0)) es s \<and> es = [Silent, Silent, Pushed [8], Silent, Silent, Popped 8] \<and>
    UnpackPointer 3 (head_word s) = 0 \<and> spec_run [] es = Some []"
proof -
  let ?s0 = "new_stack {8, 16} (\<lambda>_. 0)"
  have nodes: "nodes_ok 3 {8, 16}"
  proof -
    have "packable 3 8" "packable 3 16" by code_simp+
    then show ?thesis by (simp add: nodes_ok_def)
  qed
  obtain s1 where s1: "stack_run 3 ?s0 [Silent, Silent, Pushed [8]] s1" "activities s1 0 = Outside"
    "head_word s1 = push_xch 3 [8] 0"
    using undisturbed_push [of ?s0 0 8 3] by (simp add: new_stack_def)
  have p: "UnpackPointer 3 (head_word s1) = 8" unfolding s1(3) by code_simp
  obtain s2 where "stack_run 3 s1 [Silent, Silent, Popped 8] s2"
    using undisturbed_pop [of s1 0 3] s1(2) p by fastforce
  from stack_run_append [OF this s1(1)] have run: "timely_run 3 ?s0 [Silent, Silent, Pushed [8], Silent, Silent, Popped 8] s2"
    by (intro few_pushes_timely) (simp_all add: new_stack_def kCounterBits_def kRealPointerBits_def kPointerBits_def)
  from lock_free_stack_linearizable [OF run nodes]
  have "UnpackPointer 3 (head_word s2) = 0" by auto
  then show ?thesis using run by auto
qed

end
