(* ===== verification/Arena.thy ===== *)
theory Arena
  imports Bit_Util
begin

text \<open>
  \<open>berberis/base/arena_alloc.h\<close>, \<open>mmap_pool.h\<close> and the part of \<open>mmap.h\<close> that they use: the arena from
  which the assembler allocates its lists, blocks of memory that are cut from the front. The two
  stacks of \<open>MmapPool\<close> are lists of nodes, which \<open>Lock_Free_Stack\<close> shows them to be.

  The page size is the parameter \<open>page\<close>. The system is the parameter \<open>os\<close>: given the mappings that
  exist and a size, it returns the address of a new one, or nothing when it refuses. \<open>munmap\<close> of a
  mapping succeeds.
\<close>

section \<open>Mappings\<close>

type_synonym region = "u64 \<times> u64"

type_synonym mmap_call = "region list \<Rightarrow> u64 \<Rightarrow> u64 option"

text \<open>
  \<open>MmapPool\<close>: the nodes that hold a block, those that hold none, and the fields \<open>block\<close>. Next to it the
  mappings of the process, with their sizes in whole pages.
\<close>

record mmap_pool =
  nodes_with_blocks :: "u64 list"
  nodes_without_blocks :: "u64 list"
  node_block :: "u64 \<Rightarrow> u64"
  mappings :: "region list"

definition AlignUpPageSize :: "u64 \<Rightarrow> u64 \<Rightarrow> u64 result" where
  "AlignUpPageSize page x = (let result = AlignUp x page in bnd (CHECK (x \<le> result)) (\<lambda>_. Inr result))"

definition MmapOrDie :: "u64 \<Rightarrow> mmap_call \<Rightarrow> u64 \<Rightarrow> mmap_pool \<Rightarrow> (u64 \<times> mmap_pool) result" where
  "MmapOrDie page os sz w =
     (case os (mappings w) sz of
        None \<Rightarrow> Inl CheckFailed
      | Some p \<Rightarrow> Inr (p, w\<lparr>mappings := (p, AlignUp sz page) # mappings w\<rparr>))"

definition MunmapOrDie :: "u64 \<Rightarrow> u64 \<Rightarrow> u64 \<Rightarrow> mmap_pool \<Rightarrow> mmap_pool" where
  "MunmapOrDie page p sz w = w\<lparr>mappings := removeAll (p, AlignUp sz page) (mappings w)\<rparr>"

section \<open>The pool\<close>

definition kDefaultArenaBlockSize :: u64 where
  "kDefaultArenaBlockSize = 32 * 4096"

definition kMaxAllocSizeInDefaultArenaBlock :: u64 where
  "kMaxAllocSizeInDefaultArenaBlock = 16 * 4096"

definition MmapPool_Alloc :: "u64 \<Rightarrow> mmap_call \<Rightarrow> mmap_pool \<Rightarrow> (u64 \<times> mmap_pool) result" where
  "MmapPool_Alloc page os w =
     (case nodes_with_blocks w of
        [] \<Rightarrow> MmapOrDie page os kDefaultArenaBlockSize w
      | node # nodes \<Rightarrow>
          Inr (node_block w node,
            w\<lparr>nodes_with_blocks := nodes, nodes_without_blocks := node # nodes_without_blocks w\<rparr>))"

definition MmapPool_Free :: "u64 \<Rightarrow> u64 \<Rightarrow> mmap_pool \<Rightarrow> mmap_pool" where
  "MmapPool_Free page b w =
     (case nodes_without_blocks w of
        [] \<Rightarrow> MunmapOrDie page b kDefaultArenaBlockSize w
      | node # nodes \<Rightarrow>
          w\<lparr>nodes_with_blocks := node # nodes_with_blocks w, nodes_without_blocks := nodes,
            node_block := (node_block w)(node := b)\<rparr>)"

section \<open>The arena\<close>

text \<open>
  An \<open>ArenaBlock\<close> is its address and its size; its header, the size and the pointer to the next block,
  lies in its first sixteen bytes. The blocks of an arena are a list, the newest one first.
\<close>

definition sizeof_ArenaBlock :: u64 where
  "sizeof_ArenaBlock = 16"

definition block_data :: "region \<Rightarrow> u64" where
  "block_data b = fst b + sizeof_ArenaBlock"

definition block_data_end :: "region \<Rightarrow> u64" where
  "block_data_end b = fst b + snd b"

definition AllocArenaBlock ::
  "u64 \<Rightarrow> mmap_call \<Rightarrow> u64 \<Rightarrow> u64 \<Rightarrow> region list \<Rightarrow> mmap_pool \<Rightarrow> (region list \<times> mmap_pool) result" where
  "AllocArenaBlock page os sz align bs w =
     (let sz' = sz + AlignUp sizeof_ArenaBlock align in
      if sz' < kMaxAllocSizeInDefaultArenaBlock
      then bnd (MmapPool_Alloc page os w) (\<lambda>(p, w'). Inr ((p, kDefaultArenaBlockSize) # bs, w'))
      else bnd (MmapOrDie page os sz' w) (\<lambda>(p, w').
           bnd (AlignUpPageSize page sz') (\<lambda>n. Inr ((p, n) # bs, w'))))"

fun FreeArenaBlocks :: "u64 \<Rightarrow> region list \<Rightarrow> mmap_pool \<Rightarrow> mmap_pool" where
  "FreeArenaBlocks page [] w = w"
| "FreeArenaBlocks page (b # bs) w =
     FreeArenaBlocks page bs
       (if snd b = kDefaultArenaBlockSize then MmapPool_Free page (fst b) w else MunmapOrDie page (fst b) (snd b) w)"

record arena =
  arena_blocks :: "region list"
  arena_current :: u64
  arena_end :: u64

definition new_arena :: arena where
  "new_arena = \<lparr>arena_blocks = [], arena_current = 0, arena_end = 0\<rparr>"

definition Arena_Alloc ::
  "u64 \<Rightarrow> mmap_call \<Rightarrow> u64 \<Rightarrow> u64 \<Rightarrow> arena \<Rightarrow> mmap_pool \<Rightarrow> (u64 \<times> arena \<times> mmap_pool) result" where
  "Arena_Alloc page os sz0 align a w =
     (let sz = (if sz0 = 0 then 1 else sz0);
          res = AlignUp (arena_current a) align in
      if res + sz \<le> arena_end a then Inr (res, a\<lparr>arena_current := res + sz\<rparr>, w)
      else bnd (AllocArenaBlock page os sz align (arena_blocks a) w) (\<lambda>(bs, w').
        let res' = AlignUp (block_data (hd bs)) align;
            new_current = res' + sz in
        Inr (res',
          (if sint (arena_end a - arena_current a) < sint (block_data_end (hd bs) - new_current)
           then \<lparr>arena_blocks = bs, arena_current = new_current, arena_end = block_data_end (hd bs)\<rparr>
           else a\<lparr>arena_blocks := bs\<rparr>), w')))"

definition Arena_delete :: "u64 \<Rightarrow> arena \<Rightarrow> mmap_pool \<Rightarrow> mmap_pool" where
  "Arena_delete page a w = FreeArenaBlocks page (arena_blocks a) w"

section \<open>What the system promises\<close>

definition region_bytes :: "region \<Rightarrow> nat set" where
  "region_bytes r = {unat (fst r)..<unat (fst r) + unat (snd r)}"

definition page_ok :: "u64 \<Rightarrow> bool" where
  "page_ok page \<longleftrightarrow> IsPowerOf2 page \<and> 4096 \<le> page \<and> page \<le> 0x10000"

definition os_ok :: "u64 \<Rightarrow> mmap_call \<Rightarrow> bool" where
  "os_ok page os \<longleftrightarrow> (\<forall>ms sz p. os ms sz = Some p \<longrightarrow>
     p \<noteq> 0 \<and> IsAligned p page \<and> unat p + unat (AlignUp sz page) < 2 ^ 63 \<and>
     (\<forall>m \<in> set ms. region_bytes m \<inter> region_bytes (p, AlignUp sz page) = {}))"

section \<open>Well-formedness\<close>

definition pool_blocks :: "mmap_pool \<Rightarrow> region list" where
  "pool_blocks w = map (\<lambda>node. (node_block w node, kDefaultArenaBlockSize)) (nodes_with_blocks w)"

definition data_bytes :: "region \<Rightarrow> nat set" where
  "data_bytes b = {unat (fst b) + 16..<unat (fst b) + unat (snd b)}"

text \<open>
  The mappings are disjoint; they are the blocks of the arena, the blocks in the pool and \<open>others\<close>, and
  no block is in two places. A mapping is page-aligned, in the lower half of the addresses and not at
  0, and not empty.
\<close>

definition world_ok :: "u64 \<Rightarrow> region set \<Rightarrow> region list \<Rightarrow> mmap_pool \<Rightarrow> bool" where
  "world_ok page others bs w \<longleftrightarrow>
     sorted_wrt (\<lambda>r r'. region_bytes r \<inter> region_bytes r' = {}) (mappings w) \<and>
     (\<forall>r \<in> set (mappings w). fst r \<noteq> 0 \<and> IsAligned (fst r) page \<and> snd r \<noteq> 0 \<and> unat (fst r) + unat (snd r) < 2 ^ 63 \<and>
        IsAligned (snd r) page) \<and>
     distinct (bs @ pool_blocks w) \<and> set (mappings w) = others \<union> set bs \<union> set (pool_blocks w) \<and>
     others \<inter> (set bs \<union> set (pool_blocks w)) = {} \<and>
     distinct (nodes_with_blocks w @ nodes_without_blocks w)"

text \<open>The memory handed out, \<open>ps\<close>, lies in the blocks, without overlap, and before the current position.\<close>

definition arena_ok :: "u64 \<Rightarrow> region set \<Rightarrow> arena \<Rightarrow> mmap_pool \<Rightarrow> region list \<Rightarrow> bool" where
  "arena_ok page others a w ps \<longleftrightarrow> world_ok page others (arena_blocks a) w \<and>
     (\<forall>p \<in> set ps. \<exists>b \<in> set (arena_blocks a). region_bytes p \<subseteq> data_bytes b) \<and>
     sorted_wrt (\<lambda>r r'. region_bytes r \<inter> region_bytes r' = {}) ps \<and>
     arena_current a \<le> arena_end a \<and>
     (arena_end a \<noteq> 0 \<longrightarrow> (\<exists>b \<in> set (arena_blocks a).
        {unat (arena_current a)..<unat (arena_end a)} \<subseteq> data_bytes b)) \<and>
     (\<forall>p \<in> set ps. region_bytes p \<inter> {unat (arena_current a)..<unat (arena_end a)} = {}) \<and>
     unat (arena_end a) < 2 ^ 63"

section \<open>Alignment\<close>

definition align_ok :: "u64 \<Rightarrow> u64 \<Rightarrow> bool" where
  "align_ok page align \<longleftrightarrow> IsPowerOf2 align \<and> align \<noteq> 0 \<and> align \<le> page"

lemma page_nonzero: "page_ok page \<Longrightarrow> page \<noteq> 0"
  by (auto simp: page_ok_def)

lemma page_align: "page_ok page \<Longrightarrow> align_ok page page"
  using page_nonzero by (simp add: align_ok_def page_ok_def)

lemma align_dvd:
  assumes "page_ok page" and "align_ok page align"
  shows "unat align dvd unat page" and "unat align \<le> 65536" and "0 < unat align"
proof -
  obtain n where n: "unat align = 2 ^ n" using assms(2) alignment_cases [of align] by (auto simp: align_ok_def)
  obtain m where m: "unat page = 2 ^ m"
    using assms(1) alignment_cases [of page] page_nonzero by (auto simp: page_ok_def)
  have "unat align \<le> unat page" using assms(2) by (simp add: align_ok_def word_le_nat_alt)
  then have "n \<le> m" unfolding n m by simp
  then show "unat align dvd unat page" unfolding n m by (rule le_imp_power_dvd)
  have "unat page \<le> 65536" using assms(1) by (simp add: page_ok_def word_le_nat_alt)
  then show "unat align \<le> 65536" using \<open>unat align \<le> unat page\<close> by simp
  show "0 < unat align" unfolding n by simp
qed

lemma page_dvd_block: "page_ok page \<Longrightarrow> unat page dvd 131072"
proof -
  assume page: "page_ok page"
  obtain m where m: "unat page = 2 ^ m"
    using page alignment_cases [of page] page_nonzero by (auto simp: page_ok_def)
  have "unat page \<le> 2 ^ 16" using page by (simp add: page_ok_def word_le_nat_alt)
  then have "m \<le> 17" unfolding m using power_le_imp_le_exp [of "2 :: nat" m 16] by simp
  then have "(2 :: nat) ^ m dvd 2 ^ 17" by (rule le_imp_power_dvd)
  then show ?thesis unfolding m by simp
qed

lemma aligned_mono:
  assumes "page_ok page" and "align_ok page align" and "IsAligned p page"
  shows "IsAligned p align"
proof -
  have "unat page dvd unat p" using assms(1,3) page_nonzero IsAligned_iff by (simp add: page_ok_def)
  then have "unat align dvd unat p" using align_dvd(1) [OF assms(1,2)] dvd_trans by blast
  then show ?thesis using assms(2) by (simp add: align_ok_def IsAligned_iff)
qed

lemma AlignUp_facts:
  assumes "page_ok page" and "align_ok page align" and "unat x < 2 ^ 63"
  shows "IsAligned (AlignUp x align) align" "unat x \<le> unat (AlignUp x align)"
    "unat (AlignUp x align) < unat x + 65536" "unat (AlignUp x align) = (unat x + unat align - 1) div unat align * unat align"
proof -
  note a = align_dvd(2,3) [OF assms(1,2)]
  have small: "unat x + unat align - 1 < 2 ^ 64" using assms(3) a by simp
  have p2: "IsPowerOf2 align" "align \<noteq> 0" using assms(2) by (simp_all add: align_ok_def)
  show "IsAligned (AlignUp x align) align" "unat x \<le> unat (AlignUp x align)"
    by (rule AlignUp_least [OF p2 small])+
  show "unat (AlignUp x align) < unat x + 65536" using AlignUp_least(3) [OF p2 small] a by linarith
  show "unat (AlignUp x align) = (unat x + unat align - 1) div unat align * unat align"
    by (rule unat_AlignUp [OF p2 small])
qed

text \<open>Behind the header of a block the first aligned address is the block plus the aligned size of the header.\<close>

lemma AlignUp_block:
  assumes "page_ok page" and "align_ok page align" and "IsAligned p page" and "unat p + 16 < 2 ^ 63"
  shows "unat (AlignUp (p + sizeof_ArenaBlock) align) = unat p + unat (AlignUp sizeof_ArenaBlock align)"
proof -
  let ?a = "unat align"
  have "IsAligned p align" by (rule aligned_mono [OF assms(1-3)])
  then have "?a dvd unat p" using assms(2) by (simp add: align_ok_def IsAligned_iff)
  then obtain k where k: "unat p = ?a * k" by (elim dvdE)
  have p16: "unat (p + sizeof_ArenaBlock) = unat p + 16"
    using assms(4) by (simp add: sizeof_ArenaBlock_def unat_word_ariths)
  have "(unat p + 16 + ?a - 1) div ?a = k + (16 + ?a - 1) div ?a"
  proof -
    have "unat p + 16 + ?a - 1 = ?a * k + (16 + ?a - 1)" using k by simp
    then have "(unat p + 16 + ?a - 1) div ?a = (?a * k + (16 + ?a - 1)) div ?a" by (rule arg_cong)
    also have "\<dots> = k + (16 + ?a - 1) div ?a"
      by (rule div_mult_self4) (use align_dvd(3) [OF assms(1,2)] in simp)
    finally show ?thesis .
  qed
  moreover have "unat (AlignUp (p + sizeof_ArenaBlock) align) = (unat p + 16 + ?a - 1) div ?a * ?a"
    using AlignUp_facts(4) [OF assms(1,2), of "p + sizeof_ArenaBlock"] p16 assms(4) by simp
  moreover have "unat (AlignUp sizeof_ArenaBlock align) = (16 + ?a - 1) div ?a * ?a"
    using AlignUp_facts(4) [OF assms(1,2), of sizeof_ArenaBlock] by (simp add: sizeof_ArenaBlock_def)
  ultimately show ?thesis by (simp add: algebra_simps k)
qed

lemma AlignUp_block_size:
  assumes "page_ok page"
  shows "AlignUp kDefaultArenaBlockSize page = kDefaultArenaBlockSize" "IsAligned kDefaultArenaBlockSize page"
proof -
  have p2: "IsPowerOf2 page" "page \<noteq> 0" using assms page_nonzero by (simp_all add: page_ok_def)
  have u: "unat kDefaultArenaBlockSize = 131072" by (simp add: kDefaultArenaBlockSize_def)
  show al: "IsAligned kDefaultArenaBlockSize page"
    using page_dvd_block [OF assms] IsAligned_iff [OF p2, of kDefaultArenaBlockSize] u by simp
  have small: "unat kDefaultArenaBlockSize + unat page - 1 < 2 ^ 64"
    using align_dvd(2) [OF assms page_align [OF assms]] u by simp
  from AlignUp_least(4) [OF p2 small al] AlignUp_least(2) [OF p2 small]
  show "AlignUp kDefaultArenaBlockSize page = kDefaultArenaBlockSize"
    by (intro order_antisym) (simp_all add: word_le_nat_alt)
qed

section \<open>The blocks\<close>

lemma world_okD:
  assumes "world_ok page others bs w"
  shows "sorted_wrt (\<lambda>r r'. region_bytes r \<inter> region_bytes r' = {}) (mappings w)"
    "r \<in> set (mappings w) \<Longrightarrow> fst r \<noteq> 0 \<and> IsAligned (fst r) page \<and> snd r \<noteq> 0 \<and> unat (fst r) + unat (snd r) < 2 ^ 63 \<and> IsAligned (snd r) page"
    "distinct (bs @ pool_blocks w)" "set (mappings w) = others \<union> set bs \<union> set (pool_blocks w)"
    "others \<inter> (set bs \<union> set (pool_blocks w)) = {}" "distinct (nodes_with_blocks w @ nodes_without_blocks w)"
  using assms by (auto simp: world_ok_def)

lemma region_bytes_nonempty: "snd r \<noteq> 0 \<Longrightarrow> region_bytes r \<noteq> {}"
  by (simp add: region_bytes_def unat_gt_0)

lemma sorted_wrt_disjoint:
  assumes "sorted_wrt (\<lambda>r r'. region_bytes r \<inter> region_bytes r' = {}) rs" and "r \<in> set rs" and "r' \<in> set rs" and "r \<noteq> r'"
  shows "region_bytes r \<inter> region_bytes r' = {}"
  using assms by (induction rs) auto

text \<open>A new mapping is a new block.\<close>

lemma world_ok_mapped:
  assumes world: "world_ok page others bs w" and os: "os_ok page os" "os (mappings w) sz = Some p"
    and sz: "AlignUp sz page \<noteq> 0" "IsAligned (AlignUp sz page) page"
  shows "world_ok page others ((p, AlignUp sz page) # bs) (w\<lparr>mappings := (p, AlignUp sz page) # mappings w\<rparr>)"
proof -
  let ?r = "(p, AlignUp sz page)"
  note w = world_okD [OF world]
  have r: "p \<noteq> 0" "IsAligned p page" "unat p + unat (AlignUp sz page) < 2 ^ 63"
    "\<And>m. m \<in> set (mappings w) \<Longrightarrow> region_bytes m \<inter> region_bytes ?r = {}"
    using os by (auto simp: os_ok_def)
  have "?r \<notin> set (mappings w)"
  proof
    assume "?r \<in> set (mappings w)"
    then have "region_bytes ?r \<inter> region_bytes ?r = {}" by (rule r(4))
    then show False using region_bytes_nonempty [of ?r] sz(1) by simp
  qed
  then have new: "?r \<notin> others" "?r \<notin> set bs" "?r \<notin> set (pool_blocks w)" using w(4) by auto
  have pool: "pool_blocks (w\<lparr>mappings := ?r # mappings w\<rparr>) = pool_blocks w" by (simp add: pool_blocks_def)
  have disjoint: "sorted_wrt (\<lambda>r r'. region_bytes r \<inter> region_bytes r' = {}) (?r # mappings w)"
    using w(1) r(4) by (auto simp: Int_commute)
  have regions: "\<forall>r \<in> set (?r # mappings w). fst r \<noteq> 0 \<and> IsAligned (fst r) page \<and> snd r \<noteq> 0 \<and>
      unat (fst r) + unat (snd r) < 2 ^ 63 \<and> IsAligned (snd r) page"
    using w(2) r(1-3) sz by simp
  show ?thesis
    unfolding world_ok_def pool
    using disjoint regions w(3-6) new by (simp add: insert_commute)
qed

lemma world_ok_cong_pool:
  assumes "world_ok page others bs w" and "mappings w' = mappings w"
    and "distinct (bs' @ pool_blocks w')" and "set bs' \<union> set (pool_blocks w') = set bs \<union> set (pool_blocks w)"
    and "distinct (nodes_with_blocks w' @ nodes_without_blocks w')"
  shows "world_ok page others bs' w'"
  using assms unfolding world_ok_def by (simp add: Un_assoc)

lemma MmapPool_Alloc_ok:
  assumes page: "page_ok page" and world: "world_ok page others bs w" and os: "os_ok page os"
    and alloc: "MmapPool_Alloc page os w = Inr (p, w')"
  shows "world_ok page others ((p, kDefaultArenaBlockSize) # bs) w'"
proof (cases "nodes_with_blocks w")
  case Nil
  then obtain "os (mappings w) kDefaultArenaBlockSize = Some p"
    "w' = w\<lparr>mappings := (p, AlignUp kDefaultArenaBlockSize page) # mappings w\<rparr>"
    using alloc by (auto simp: MmapPool_Alloc_def MmapOrDie_def split: option.splits)
  then show ?thesis
    using world_ok_mapped [OF world os, of kDefaultArenaBlockSize p] AlignUp_block_size [OF page]
    by (simp add: kDefaultArenaBlockSize_def)
next
  case (Cons node nodes)
  then have p: "p = node_block w node"
    and w': "w' = w\<lparr>nodes_with_blocks := nodes, nodes_without_blocks := node # nodes_without_blocks w\<rparr>"
    using alloc by (simp_all add: MmapPool_Alloc_def)
  have pool: "pool_blocks w = (p, kDefaultArenaBlockSize) # pool_blocks w'"
    using Cons by (simp add: pool_blocks_def p w')
  show ?thesis
    by (rule world_ok_cong_pool [OF world]) (use world_okD(3,6) [OF world] Cons pool in \<open>auto simp: w'\<close>)
qed

text \<open>A new block is large enough for what it is allocated for.\<close>

lemma AllocArenaBlock_ok:
  assumes page: "page_ok page" and align: "align_ok page align" and world: "world_ok page others bs w" and os: "os_ok page os"
    and sz: "unat sz < 2 ^ 62" "sz \<noteq> 0"
  shows "case AllocArenaBlock page os sz align bs w of
      Inl e \<Rightarrow> e = CheckFailed \<and> (\<exists>n. os (mappings w) n = None)
    | Inr (bs', w') \<Rightarrow> (\<exists>b. bs' = b # bs \<and> world_ok page others bs' w' \<and>
        unat (AlignUp sizeof_ArenaBlock align) + unat sz \<le> unat (snd b))"
proof -
  let ?sz = "sz + AlignUp sizeof_ArenaBlock align"
  have hdr: "unat (AlignUp sizeof_ArenaBlock align) < 16 + 65536"
    using AlignUp_facts(3) [OF page align, of sizeof_ArenaBlock] by (simp add: sizeof_ArenaBlock_def)
  then have usz: "unat ?sz = unat sz + unat (AlignUp sizeof_ArenaBlock align)"
    using sz(1) by (simp add: unat_word_ariths)
  show ?thesis
  proof (cases "?sz < kMaxAllocSizeInDefaultArenaBlock")
    case True
    then have "unat ?sz \<le> unat kDefaultArenaBlockSize"
      by (simp add: word_less_nat_alt kMaxAllocSizeInDefaultArenaBlock_def kDefaultArenaBlockSize_def)
    then have fits: "unat (AlignUp sizeof_ArenaBlock align) + unat sz \<le> unat kDefaultArenaBlockSize" using usz by simp
    show ?thesis
    proof (cases "MmapPool_Alloc page os w")
      case (Inl e)
      then have "e = CheckFailed \<and> os (mappings w) kDefaultArenaBlockSize = None"
        by (auto simp: MmapPool_Alloc_def MmapOrDie_def split: list.splits option.splits)
      then show ?thesis using Inl True by (auto simp: AllocArenaBlock_def Let_def)
    next
      case (Inr r)
      then obtain p w' where r: "MmapPool_Alloc page os w = Inr (p, w')" by (cases r) simp
      from MmapPool_Alloc_ok [OF page world os this] show ?thesis
        using r True fits by (simp add: AllocArenaBlock_def Let_def)
    qed
  next
    case False
    note up = AlignUp_facts [OF page page_align [OF page], of ?sz]
    have small: "unat ?sz < 2 ^ 63" using usz hdr sz(1) by simp
    then have le: "?sz \<le> AlignUp ?sz page" using up(2) by (simp add: word_le_nat_alt)
    show ?thesis
    proof (cases "os (mappings w) ?sz")
      case None
      then show ?thesis using False by (auto simp: AllocArenaBlock_def MmapOrDie_def Let_def)
    next
      case (Some p)
      have "0 < unat ?sz" using usz sz(2) by (simp add: unat_gt_0)
      then have "0 < unat (AlignUp ?sz page)" using up(2) small by linarith
      then have "AlignUp ?sz page \<noteq> 0" by (metis unat_0 less_irrefl)
      from world_ok_mapped [OF world os Some this up(1) [OF small]] show ?thesis
        using Some False le usz up(2) small
        by (simp add: AllocArenaBlock_def MmapOrDie_def AlignUpPageSize_def Let_def)
    qed
  qed
qed

section \<open>Allocation\<close>

lemma arena_okD:
  assumes "arena_ok page others a w ps"
  shows "world_ok page others (arena_blocks a) w"
    "q \<in> set ps \<Longrightarrow> \<exists>b \<in> set (arena_blocks a). region_bytes q \<subseteq> data_bytes b"
    "sorted_wrt (\<lambda>r r'. region_bytes r \<inter> region_bytes r' = {}) ps"
    "unat (arena_current a) \<le> unat (arena_end a)"
    "arena_end a \<noteq> 0 \<Longrightarrow> \<exists>b \<in> set (arena_blocks a). {unat (arena_current a)..<unat (arena_end a)} \<subseteq> data_bytes b"
    "q \<in> set ps \<Longrightarrow> region_bytes q \<inter> {unat (arena_current a)..<unat (arena_end a)} = {}"
    "unat (arena_end a) < 2 ^ 63"
  using assms by (auto simp: arena_ok_def word_le_nat_alt)

lemma data_in_region: "data_bytes b \<subseteq> region_bytes b"
  by (auto simp: data_bytes_def region_bytes_def)

lemma arena_blocks_disjoint:
  assumes "world_ok page others (b # bs) w" and "b' \<in> set bs"
  shows "data_bytes b \<inter> data_bytes b' = {}"
proof -
  note w = world_okD [OF assms(1)]
  have "b \<noteq> b'" "b \<in> set (mappings w)" "b' \<in> set (mappings w)" using w(3,4) assms(2) by auto
  then show ?thesis using sorted_wrt_disjoint [OF w(1)] data_in_region by blast
qed

lemma unat_plus: "unat x < 2 ^ 63 \<Longrightarrow> unat y < 2 ^ 63 \<Longrightarrow> unat (x + y :: u64) = unat x + unat y"
  by (simp add: unat_word_ariths)

text \<open>In the current block.\<close>

lemma alloc_current:
  assumes ok: "arena_ok page others a w ps" and page: "page_ok page" and align: "align_ok page align"
    and sz: "unat sz < 2 ^ 62" "sz \<noteq> 0" and fits: "AlignUp (arena_current a) align + sz \<le> arena_end a"
  shows "AlignUp (arena_current a) align \<noteq> 0 \<and> IsAligned (AlignUp (arena_current a) align) align \<and>
    arena_ok page others (a\<lparr>arena_current := AlignUp (arena_current a) align + sz\<rparr>) w ((AlignUp (arena_current a) align, sz) # ps)"
proof -
  let ?c = "arena_current a" and ?e = "arena_end a" and ?p = "AlignUp (arena_current a) align"
  note a = arena_okD [OF ok]
  have c: "unat ?c < 2 ^ 63" using a(4,7) by linarith
  note up = AlignUp_facts [OF page align c]
  have "unat ?p < 2 ^ 63 + 65536" using up(3) c by linarith
  then have psz: "unat (?p + sz) = unat ?p + unat sz" using sz(1) by (simp add: unat_word_ariths)
  then have le: "unat ?p + unat sz \<le> unat ?e" using fits by (simp add: word_le_nat_alt)
  have pos: "0 < unat sz" using sz(2) by (simp add: unat_gt_0)
  then have "?e \<noteq> 0" using le by (metis unat_0 add_is_0 le_zero_eq less_irrefl)
  then obtain b where b: "b \<in> set (arena_blocks a)" "{unat ?c..<unat ?e} \<subseteq> data_bytes b" using a(5) by blast
  have r: "region_bytes (?p, sz) \<subseteq> {unat ?c..<unat ?e}" using up(2) le by (auto simp: region_bytes_def)
  have rest: "{unat (?p + sz)..<unat ?e} \<subseteq> {unat ?c..<unat ?e}" using up(2) psz by auto
  have "unat ?p \<in> data_bytes b" using r b(2) pos by (force simp: region_bytes_def)
  then have "?p \<noteq> 0" by (auto simp: data_bytes_def)
  moreover have "arena_ok page others (a\<lparr>arena_current := ?p + sz\<rparr>) w ((?p, sz) # ps)"
    unfolding arena_ok_def
  proof (intro conjI ballI impI)
    show "world_ok page others (arena_blocks (a\<lparr>arena_current := ?p + sz\<rparr>)) w" using a(1) by simp
    show "\<exists>b \<in> set (arena_blocks (a\<lparr>arena_current := ?p + sz\<rparr>)). region_bytes q \<subseteq> data_bytes b"
      if "q \<in> set ((?p, sz) # ps)" for q
    proof (cases "q = (?p, sz)")
      case True
      then show ?thesis using b r by auto
    next
      case False
      then show ?thesis using that a(2) [of q] by simp
    qed
    show "sorted_wrt (\<lambda>r r'. region_bytes r \<inter> region_bytes r' = {}) ((?p, sz) # ps)"
      using a(3,6) r by fastforce
    show "arena_current (a\<lparr>arena_current := ?p + sz\<rparr>) \<le> arena_end (a\<lparr>arena_current := ?p + sz\<rparr>)" using fits by simp
    show "\<exists>b \<in> set (arena_blocks (a\<lparr>arena_current := ?p + sz\<rparr>)). {unat (arena_current (a\<lparr>arena_current := ?p + sz\<rparr>))..<
        unat (arena_end (a\<lparr>arena_current := ?p + sz\<rparr>))} \<subseteq> data_bytes b"
      using b(1) order_trans [OF rest b(2)] by auto
    show "region_bytes q \<inter> {unat (arena_current (a\<lparr>arena_current := ?p + sz\<rparr>))..<unat (arena_end (a\<lparr>arena_current := ?p + sz\<rparr>))} = {}"
      if "q \<in> set ((?p, sz) # ps)" for q
      using that a(6) [of q] rest psz by (auto simp: region_bytes_def)
    show "unat (arena_end (a\<lparr>arena_current := ?p + sz\<rparr>)) < 2 ^ 63" using a(7) by simp
  qed
  ultimately show ?thesis using up(1) by blast
qed

text \<open>In a new block, of which the rest is used next when it is longer than that of the current one.\<close>

lemma alloc_new:
  assumes ok: "arena_ok page others a w ps" and page: "page_ok page" and align: "align_ok page align"
    and sz: "unat sz < 2 ^ 62" "sz \<noteq> 0"
    and world: "world_ok page others (b # arena_blocks a) w'"
    and fits: "unat (AlignUp sizeof_ArenaBlock align) + unat sz \<le> unat (snd b)"
    and p: "p = AlignUp (block_data b) align"
    and a': "a' = (if longer then \<lparr>arena_blocks = b # arena_blocks a, arena_current = p + sz, arena_end = block_data_end b\<rparr>
      else a\<lparr>arena_blocks := b # arena_blocks a\<rparr>)"
  shows "p \<noteq> 0 \<and> IsAligned p align \<and> arena_ok page others a' w' ((p, sz) # ps)"
proof -
  note a = arena_okD [OF ok]
  have "b \<in> set (mappings w')" using world_okD(4) [OF world] by simp
  then have b: "fst b \<noteq> 0" "IsAligned (fst b) page" "unat (fst b) + unat (snd b) < 2 ^ 63"
    using world_okD(2) [OF world] by blast+
  have hdr: "16 \<le> unat (AlignUp sizeof_ArenaBlock align)"
    using AlignUp_facts(2) [OF page align, of sizeof_ArenaBlock] by (simp add: sizeof_ArenaBlock_def)
  have base: "unat (fst b) + 16 < 2 ^ 63" using b(3) fits hdr by linarith
  have up: "unat p = unat (fst b) + unat (AlignUp sizeof_ArenaBlock align)"
    unfolding p block_data_def by (rule AlignUp_block [OF page align b(2) base])
  have aligned: "IsAligned p align"
  proof -
    have "unat (block_data b) < 2 ^ 63" using base by (simp add: block_data_def sizeof_ArenaBlock_def unat_word_ariths)
    then show ?thesis unfolding p by (rule AlignUp_facts(1) [OF page align])
  qed
  have ends: "unat (block_data_end b) = unat (fst b) + unat (snd b)"
    unfolding block_data_end_def by (rule unat_plus) (use b(3) in linarith)+
  have psz: "unat (p + sz) = unat p + unat sz" by (rule unat_plus) (use up fits b(3) sz(1) in linarith)+
  have r: "region_bytes (p, sz) \<subseteq> data_bytes b" using up fits hdr by (auto simp: region_bytes_def data_bytes_def)
  have rest: "{unat (p + sz)..<unat (block_data_end b)} \<subseteq> data_bytes b"
    using up psz ends hdr by (auto simp: data_bytes_def)
  have apart: "data_bytes b' \<inter> data_bytes b = {}" if "b' \<in> set (arena_blocks a)" for b'
    using arena_blocks_disjoint [OF world that] by blast
  have old: "region_bytes q \<inter> data_bytes b = {}" if "q \<in> set ps" for q using a(2) [OF that] apart by blast
  have current: "{unat (arena_current a)..<unat (arena_end a)} \<inter> data_bytes b = {}"
  proof (cases "arena_end a = 0")
    case False
    then obtain b' where "b' \<in> set (arena_blocks a)" "{unat (arena_current a)..<unat (arena_end a)} \<subseteq> data_bytes b'"
      using a(5) by blast
    then show ?thesis using apart by blast
  qed simp
  have in_blocks: "\<exists>b' \<in> set (b # arena_blocks a). region_bytes q \<subseteq> data_bytes b'" if "q \<in> set ((p, sz) # ps)" for q
  proof (cases "q = (p, sz)")
    case True
    then show ?thesis using r by simp
  next
    case False
    then show ?thesis using that a(2) [of q] by auto
  qed
  have sorted: "sorted_wrt (\<lambda>r r'. region_bytes r \<inter> region_bytes r' = {}) ((p, sz) # ps)"
    using a(3) old r by fastforce
  have "arena_ok page others a' w' ((p, sz) # ps)"
  proof (cases longer)
    case True
    have "region_bytes q \<inter> {unat (p + sz)..<unat (block_data_end b)} = {}" if "q \<in> set ((p, sz) # ps)" for q
    proof (cases "q = (p, sz)")
      case True
      then show ?thesis using psz by (auto simp: region_bytes_def)
    next
      case False
      then show ?thesis using that old [of q] rest by auto
    qed
    then show ?thesis
      using True world in_blocks sorted rest ends b(3) psz up fits
      by (simp add: arena_ok_def a' word_le_nat_alt)
  next
    case False
    have "region_bytes q \<inter> {unat (arena_current a)..<unat (arena_end a)} = {}" if "q \<in> set ((p, sz) # ps)" for q
    proof (cases "q = (p, sz)")
      case True
      then show ?thesis using current r by auto
    next
      case False
      then show ?thesis using that a(6) [of q] by simp
    qed
    then show ?thesis
      using False world in_blocks sorted a(4,5,7)
      by (simp add: arena_ok_def a' word_le_nat_alt)
  qed
  moreover have "p \<noteq> 0" using up hdr by (metis unat_0 add_is_0 not_numeral_le_zero)
  ultimately show ?thesis using aligned by blast
qed

text \<open>
  C36: the arena hands out memory that is not in use: \<open>Alloc\<close> fails only when the system refuses a
  mapping; what it returns is not null, aligned, at least one byte, disjoint from everything that it
  handed out before and inside the data of a block of the arena, behind its header; and the state
  stays well-formed, with every mapping in exactly one place.
\<close>
theorem Arena_Alloc_fresh:
  assumes "arena_ok page others a w ps" and "page_ok page" and "align_ok page align" and "os_ok page os"
    and "unat sz < 2 ^ 62"
  shows "case Arena_Alloc page os sz align a w of
      Inl e \<Rightarrow> e = CheckFailed \<and> (\<exists>n. os (mappings w) n = None)
    | Inr (p, a', w') \<Rightarrow> p \<noteq> 0 \<and> IsAligned p align \<and> arena_ok page others a' w' ((p, max 1 sz) # ps)"
proof -
  define n where "n = (if sz = 0 then 1 else sz)"
  have m: "max 1 sz = n" by (simp add: n_def max_def word_le_nat_alt unat_gt_0 Suc_le_eq)
  have sz: "unat n < 2 ^ 62" "n \<noteq> 0" using assms(5) by (simp_all add: n_def)
  show ?thesis
  proof (cases "AlignUp (arena_current a) align + n \<le> arena_end a")
    case True
    then show ?thesis
      using alloc_current [OF assms(1-3) sz True] unfolding m
      by (simp only: Arena_Alloc_def n_def [symmetric] Let_def if_True) simp
  next
    case False
    note new = AllocArenaBlock_ok [OF assms(2,3) arena_okD(1) [OF assms(1)] assms(4) sz]
    show ?thesis
    proof (cases "AllocArenaBlock page os n align (arena_blocks a) w")
      case (Inl e)
      then show ?thesis using new False
        by (simp only: Arena_Alloc_def n_def [symmetric] Let_def if_False bnd_Inl sum.case)
    next
      case (Inr r)
      then obtain bs w' where r: "AllocArenaBlock page os n align (arena_blocks a) w = Inr (bs, w')" by (cases r) simp
      then obtain b where b: "bs = b # arena_blocks a" "world_ok page others (b # arena_blocks a) w'"
        "unat (AlignUp sizeof_ArenaBlock align) + unat n \<le> unat (snd b)" using new by auto
      note fresh = alloc_new [OF assms(1-3) sz b(2,3) refl refl,
          where longer = "sint (arena_end a - arena_current a) < sint (block_data_end b - (AlignUp (block_data b) align + n))"]
      show ?thesis unfolding m
        by (simp only: Arena_Alloc_def n_def [symmetric] Let_def False if_False r bnd_Inr sum.case prod.case b(1) list.sel
            fresh simp_thms)
    qed
  qed
qed

definition example_os :: mmap_call where
  "example_os ms sz = (if ms = [] \<and> sz = kDefaultArenaBlockSize then Some 0x100000 else None)"

definition empty_pool :: mmap_pool where
  "empty_pool = \<lparr>nodes_with_blocks = [], nodes_without_blocks = [8, 16], node_block = (\<lambda>_. 0), mappings = []\<rparr>"

lemma example_arena:
  "page_ok 4096" "align_ok 4096 8" "os_ok 4096 example_os" "arena_ok 4096 {} new_arena empty_pool []"
proof -
  show p: "page_ok 4096" "align_ok 4096 8"
    unfolding page_ok_def align_ok_def IsPowerOf2_def by code_simp+
  have al: "IsAligned (0x100000 :: u64) 4096" by code_simp
  have "AlignUp kDefaultArenaBlockSize 4096 = kDefaultArenaBlockSize" by (rule AlignUp_block_size [OF p(1)])
  then show "os_ok 4096 example_os"
    using al by (auto simp: os_ok_def example_os_def kDefaultArenaBlockSize_def split: if_splits)
  show "arena_ok 4096 {} new_arena empty_pool []"
    by (simp add: arena_ok_def world_ok_def new_arena_def empty_pool_def pool_blocks_def)
qed

theorem Arena_Alloc_fresh_witness:
  "\<exists>a w. Arena_Alloc 4096 example_os 100 8 new_arena empty_pool = Inr (0x100010, a, w) \<and>
    arena_ok 4096 {} a w [(0x100010, 100)]"
proof -
  have run: "fst (projr (Arena_Alloc 4096 example_os 100 8 new_arena empty_pool)) = 0x100010 \<and>
      \<not> isl (Arena_Alloc 4096 example_os 100 8 new_arena empty_pool)" by code_simp
  then obtain a w where "Arena_Alloc 4096 example_os 100 8 new_arena empty_pool = Inr (0x100010, a, w)"
    by (cases "Arena_Alloc 4096 example_os 100 8 new_arena empty_pool") auto
  moreover have "max 1 (100 :: u64) = 100" by code_simp
  ultimately show ?thesis using Arena_Alloc_fresh [OF example_arena(4,1,2,3), of 100] by simp
qed

section \<open>The destructor\<close>

lemma world_ok_unmap:
  assumes world: "world_ok page others (b # bs) w" and page: "page_ok page"
  shows "world_ok page others bs (MunmapOrDie page (fst b) (snd b) w)"
proof -
  note w = world_okD [OF world]
  have b: "b \<in> set (mappings w)" using w(4) by simp
  note mapped = w(2) [OF b]
  have p2: "IsPowerOf2 page" "page \<noteq> 0" using page page_nonzero by (simp_all add: page_ok_def)
  have "unat (snd b) + unat page - 1 < 2 ^ 64"
  proof -
    have "unat (snd b) < 2 ^ 63" using mapped by linarith
    then show ?thesis using align_dvd(2) [OF page page_align [OF page]] by simp
  qed
  note least = AlignUp_least [OF p2 this]
  have "AlignUp (snd b) page \<le> snd b" using least(4) mapped by blast
  moreover have "snd b \<le> AlignUp (snd b) page" using least(2) by (simp add: word_le_nat_alt)
  ultimately have e: "(fst b, AlignUp (snd b) page) = b" by (simp add: order_antisym)
  let ?w = "w\<lparr>mappings := removeAll b (mappings w)\<rparr>"
  have pool: "pool_blocks ?w = pool_blocks w" by (simp add: pool_blocks_def)
  have "sorted_wrt (\<lambda>r r'. region_bytes r \<inter> region_bytes r' = {}) (removeAll b (mappings w))"
    using w(1) by (simp add: removeAll_filter_not_eq sorted_wrt_filter)
  moreover have "set (removeAll b (mappings w)) = others \<union> set bs \<union> set (pool_blocks w)" using w(3,4,5) by auto
  ultimately show ?thesis
    using w(2,3,5,6) unfolding MunmapOrDie_def e world_ok_def pool by auto
qed

lemma world_ok_free:
  assumes world: "world_ok page others (b # bs) w" and page: "page_ok page" and sz: "snd b = kDefaultArenaBlockSize"
  shows "world_ok page others bs (MmapPool_Free page (fst b) w)"
proof (cases "nodes_without_blocks w")
  case Nil
  then show ?thesis using world_ok_unmap [OF world page] sz by (simp add: MmapPool_Free_def)
next
  case (Cons node nodes)
  let ?w = "MmapPool_Free page (fst b) w"
  note w = world_okD [OF world]
  have w': "?w = w\<lparr>nodes_with_blocks := node # nodes_with_blocks w, nodes_without_blocks := nodes,
      node_block := (node_block w)(node := fst b)\<rparr>" using Cons by (simp add: MmapPool_Free_def)
  have "node \<notin> set (nodes_with_blocks w)" using w(6) Cons by simp
  then have pool: "pool_blocks ?w = b # pool_blocks w"
    unfolding w' pool_blocks_def using sz by (cases b) auto
  show ?thesis
    by (rule world_ok_cong_pool [OF world]) (use w(3,6) Cons pool w' in auto)
qed

text \<open>
  Nothing is leaked: when an arena is deleted, every mapping of the process is one that was there
  for others or a block in the pool, in one place each.
\<close>
theorem Arena_delete_returns_blocks:
  assumes "arena_ok page others a w ps" and "page_ok page"
  shows "world_ok page others [] (Arena_delete page a w)"
proof -
  have "world_ok page others [] (FreeArenaBlocks page bs w)" if "world_ok page others bs w" for bs
    using that
  proof (induction bs arbitrary: w)
    case (Cons b bs)
    then show ?case
      using world_ok_free [OF Cons.prems assms(2)] world_ok_unmap [OF Cons.prems assms(2)] by simp
  qed simp
  then show ?thesis using arena_okD(1) [OF assms(1)] by (simp add: Arena_delete_def)
qed

definition used_arena :: arena where
  "used_arena = \<lparr>arena_blocks = [(0x100000, kDefaultArenaBlockSize)], arena_current = 0x100074, arena_end = 0x120000\<rparr>"

definition used_pool :: mmap_pool where
  "used_pool = empty_pool\<lparr>mappings := [(0x100000, kDefaultArenaBlockSize)]\<rparr>"

lemma used_arena_ok: "arena_ok 4096 {} used_arena used_pool [(0x100010, 100)]"
proof -
  have "IsAligned (0x100000 :: u64) 4096" "IsAligned kDefaultArenaBlockSize 4096" by code_simp+
  then show ?thesis
    by (simp add: arena_ok_def world_ok_def used_arena_def used_pool_def empty_pool_def pool_blocks_def
        region_bytes_def data_bytes_def kDefaultArenaBlockSize_def)
qed

theorem Arena_delete_returns_blocks_witness:
  "world_ok 4096 {} [] (Arena_delete 4096 used_arena used_pool) \<and>
    nodes_with_blocks (Arena_delete 4096 used_arena used_pool) = [8]"
proof -
  have "nodes_with_blocks (Arena_delete 4096 used_arena used_pool) = [8]" by code_simp
  then show ?thesis using Arena_delete_returns_blocks [OF used_arena_ok example_arena(1)] by blast
qed

end
