(* ===== verification/Register_Context.thy ===== *)
theory Register_Context
  imports Hook_Scopes
begin

text \<open>
  The register context of \<open>include/rv64hook.h\<close>, through which the handlers of an instrumented function
  see its arguments: the layout of \<open>RegisterContext\<close>, the access to an argument by its number
  (\<open>GetArg\<close>, \<open>SetArg\<close>) and in order (\<open>Args\<close>), on RISC-V.

  The context is memory at an address. A template parameter \<open>T\<close> is a value of \<open>arg_type\<close>, an object of
  that type is the list of its bytes, and a \<open>static_assert\<close> that fails is the result \<open>None\<close>. The assertions
  of \<open>Args::next\<close> (\<open>next_accepts\<close>) state the opposite of what their messages say, so that no type
  satisfies them and \<open>Args_next\<close>, \<open>Args_get\<close>, \<open>Args_set\<close> and \<open>Args_skip\<close> have no result but \<open>None\<close>. What
  stands behind the assertions is \<open>next_branches\<close>; \<open>get_branches\<close> is \<open>Args_get\<close> without them.
\<close>

section \<open>Types of arguments\<close>

datatype arg_type =
    BoolType
  | IntegerType nat bool
  | PointerType
  | FloatType
  | DoubleType
  | LongDoubleType
  | UInt128Type
  | EnumType nat bool
  | ClassType nat
  | UnionType nat
  | ReferenceType

text \<open>An integer or enumeration has its number of bytes and whether it is signed.\<close>

primrec sizeof :: "arg_type \<Rightarrow> nat" where
  "sizeof BoolType = 1"
| "sizeof (IntegerType n s) = n"
| "sizeof PointerType = 8"
| "sizeof FloatType = 4"
| "sizeof DoubleType = 8"
| "sizeof LongDoubleType = 16"
| "sizeof UInt128Type = 16"
| "sizeof (EnumType n s) = n"
| "sizeof (ClassType n) = n"
| "sizeof (UnionType n) = n"
| "sizeof ReferenceType = 8"

primrec is_integral :: "arg_type \<Rightarrow> bool" where
  "is_integral BoolType = True"
| "is_integral (IntegerType n s) = True"
| "is_integral PointerType = False"
| "is_integral FloatType = False"
| "is_integral DoubleType = False"
| "is_integral LongDoubleType = False"
| "is_integral UInt128Type = True"
| "is_integral (EnumType n s) = False"
| "is_integral (ClassType n) = False"
| "is_integral (UnionType n) = False"
| "is_integral ReferenceType = False"

definition is_floating :: "arg_type \<Rightarrow> bool" where
  "is_floating T \<longleftrightarrow> T = FloatType \<or> T = DoubleType"

definition is_narrow :: "arg_type \<Rightarrow> bool" where
  "is_narrow T \<longleftrightarrow> (is_integral T \<and> sizeof T \<le> 8) \<or> T = PointerType"

definition is_wide :: "arg_type \<Rightarrow> bool" where
  "is_wide T \<longleftrightarrow> T = LongDoubleType \<or> T = UInt128Type"

text \<open>The bytes of an object of the type.\<close>

definition object_of :: "arg_type \<Rightarrow> u8 list \<Rightarrow> bool" where
  "object_of T v \<longleftrightarrow> length v = sizeof T \<and> (T = BoolType \<longrightarrow> v = [0] \<or> v = [1])"

section \<open>The layout of the context\<close>

text \<open>The members by the names of the binary interface, all of eight bytes, and by their numbers.\<close>

definition register_members :: "string list" where
  "register_members =
    [''ra'', ''sp'', ''gp'', ''tp'', ''t0'', ''t1'', ''t2'', ''s0'', ''s1'',
     ''a0'', ''a1'', ''a2'', ''a3'', ''a4'', ''a5'', ''a6'', ''a7'',
     ''s2'', ''s3'', ''s4'', ''s5'', ''s6'', ''s7'', ''s8'', ''s9'', ''s10'', ''s11'',
     ''t3'', ''t4'', ''t5'', ''t6'',
     ''ft0'', ''ft1'', ''ft2'', ''ft3'', ''ft4'', ''ft5'', ''ft6'', ''ft7'', ''fs0'', ''fs1'',
     ''fa0'', ''fa1'', ''fa2'', ''fa3'', ''fa4'', ''fa5'', ''fa6'', ''fa7'',
     ''fs2'', ''fs3'', ''fs4'', ''fs5'', ''fs6'', ''fs7'', ''fs8'', ''fs9'', ''fs10'', ''fs11'',
     ''ft8'', ''ft9'', ''ft10'', ''ft11'']"

definition numbered_members :: "string list" where
  "numbered_members =
    [''x1'', ''x2'', ''x3'', ''x4'', ''x5'', ''x6'', ''x7'', ''x8'', ''x9'', ''x10'', ''x11'', ''x12'',
     ''x13'', ''x14'', ''x15'', ''x16'', ''x17'', ''x18'', ''x19'', ''x20'', ''x21'', ''x22'', ''x23'',
     ''x24'', ''x25'', ''x26'', ''x27'', ''x28'', ''x29'', ''x30'', ''x31'',
     ''f0'', ''f1'', ''f2'', ''f3'', ''f4'', ''f5'', ''f6'', ''f7'', ''f8'', ''f9'', ''f10'', ''f11'',
     ''f12'', ''f13'', ''f14'', ''f15'', ''f16'', ''f17'', ''f18'', ''f19'', ''f20'', ''f21'', ''f22'',
     ''f23'', ''f24'', ''f25'', ''f26'', ''f27'', ''f28'', ''f29'', ''f30'', ''f31'']"

text \<open>The struct of the C interface.\<close>

definition c_members :: "string list" where
  "c_members =
    [''ra'', ''sp'', ''gp'', ''tp'', ''t0'', ''t1'', ''t2'', ''s0'', ''s1'', ''a0'', ''a1'', ''a2'', ''a3'',
     ''a4'', ''a5'', ''a6'', ''a7'', ''s2'', ''s3'', ''s4'', ''s5'', ''s6'', ''s7'', ''s8'', ''s9'', ''s10'',
     ''s11'', ''t3'', ''t4'', ''t5'', ''t6'',
     ''ft0'', ''ft1'', ''ft2'', ''ft3'', ''ft4'', ''ft5'', ''ft6'', ''ft7'', ''fs0'', ''fs1'', ''fa0'',
     ''fa1'', ''fa2'', ''fa3'', ''fa4'', ''fa5'', ''fa6'', ''fa7'', ''fs2'', ''fs3'', ''fs4'', ''fs5'',
     ''fs6'', ''fs7'', ''fs8'', ''fs9'', ''fs10'', ''fs11'', ''ft8'', ''ft9'', ''ft10'', ''ft11'']"

primrec position :: "'a \<Rightarrow> 'a list \<Rightarrow> nat" where
  "position x [] = 0"
| "position x (y # ys) = (if x = y then 0 else Suc (position x ys))"

definition offsetof :: "string \<Rightarrow> nat" where
  "offsetof name = 8 * position name register_members"

text \<open>\<open>return_early_\<close> follows the registers.\<close>

definition offsetof_return_early :: nat where
  "offsetof_return_early = 8 * length register_members"

definition a_members :: "string list" where
  "a_members = [''a0'', ''a1'', ''a2'', ''a3'', ''a4'', ''a5'', ''a6'', ''a7'']"

definition fa_members :: "string list" where
  "fa_members = [''fa0'', ''fa1'', ''fa2'', ''fa3'', ''fa4'', ''fa5'', ''fa6'', ''fa7'']"

definition member_at :: "u64 \<Rightarrow> string \<Rightarrow> u64" where
  "member_at ctx name = ctx + of_nat (offsetof name)"

section \<open>Values of registers\<close>

text \<open>
  \<open>force_cast\<close> from a register to \<open>T\<close> and back: an integer is cut to its size and extended by its sign,
  a \<open>bool\<close> compared with zero.
\<close>

definition force_cast :: "arg_type \<Rightarrow> u64 \<Rightarrow> u8 list" where
  "force_cast T r = (if T = BoolType then [if r = 0 then 0 else 1] else bytes_of (sizeof T) r)"

definition force_cast_reg :: "arg_type \<Rightarrow> u8 list \<Rightarrow> u64" where
  "force_cast_reg T v =
     (case T of
        IntegerType n True \<Rightarrow> signed_take_bit (8 * n - 1) (word_of_bytes v)
      | EnumType n True \<Rightarrow> signed_take_bit (8 * n - 1) (word_of_bytes v)
      | _ \<Rightarrow> word_of_bytes v)"

text \<open>The types that \<open>(T) r\<close> converts to: the others have no conversion from an integer.\<close>

definition is_castable :: "arg_type \<Rightarrow> bool" where
  "is_castable T =
     (case T of ClassType n \<Rightarrow> False | UnionType n \<Rightarrow> False | ReferenceType \<Rightarrow> False | _ \<Rightarrow> True)"

definition get_reg :: "arg_type \<Rightarrow> u64 \<Rightarrow> u64 \<Rightarrow> u8 list" where
  "get_reg T r fr =
     (if T = FloatType then bytes_of 4 fr else if T = DoubleType then bytes_of 8 fr else force_cast T r)"

text \<open>The registers are given by their addresses: a \<open>float\<close> is written to the low half of its register.\<close>

definition set_reg :: "u64 \<Rightarrow> u64 \<Rightarrow> arg_type \<Rightarrow> u8 list \<Rightarrow> memory \<Rightarrow> memory" where
  "set_reg r fr T v mem =
     (if T = FloatType then write_bytes mem fr v
      else if T = DoubleType then write_bytes mem fr v
      else write_bytes mem r (bytes_of 8 (force_cast_reg T v)))"

section \<open>Arguments by number\<close>

definition GetArg_accepts :: "nat \<Rightarrow> arg_type \<Rightarrow> bool" where
  "GetArg_accepts N T \<longleftrightarrow> sizeof T \<le> 8 \<and> (N \<le> 7 \<or> \<not> (T = FloatType \<or> T = DoubleType)) \<and> is_castable T"

definition stack_slot :: "memory \<Rightarrow> u64 \<Rightarrow> nat \<Rightarrow> u64" where
  "stack_slot mem ctx N = load64 mem (member_at ctx ''sp'') + of_nat (8 * (N - 8))"

definition GetArg :: "nat \<Rightarrow> arg_type \<Rightarrow> memory \<Rightarrow> u64 \<Rightarrow> u8 list option" where
  "GetArg N T mem ctx =
     (if \<not> GetArg_accepts N T then None
      else if N \<le> 7 then
        Some (get_reg T (load64 mem (member_at ctx (a_members ! N))) (load64 mem (member_at ctx (fa_members ! N))))
      else Some (force_cast T (load64 mem (stack_slot mem ctx N))))"

definition SetArg :: "nat \<Rightarrow> arg_type \<Rightarrow> u8 list \<Rightarrow> memory \<Rightarrow> u64 \<Rightarrow> memory option" where
  "SetArg N T v mem ctx =
     (if \<not> GetArg_accepts N T then None
      else if N \<le> 7 then
        Some (set_reg (member_at ctx (a_members ! N)) (member_at ctx (fa_members ! N)) T v mem)
      else Some (write_bytes mem (stack_slot mem ctx N) (bytes_of 8 (force_cast_reg T v))))"

definition ReturnVoid :: "memory \<Rightarrow> u64 \<Rightarrow> memory" where
  "ReturnVoid mem ctx = write_bytes mem (ctx + of_nat offsetof_return_early) [1]"

definition IsReturned :: "memory \<Rightarrow> u64 \<Rightarrow> bool" where
  "IsReturned mem ctx \<longleftrightarrow> mem (ctx + of_nat offsetof_return_early) \<noteq> 0"

definition ReturnValue :: "arg_type \<Rightarrow> u8 list \<Rightarrow> memory \<Rightarrow> u64 \<Rightarrow> memory option" where
  "ReturnValue T v mem ctx = map_option (\<lambda>mem. ReturnVoid mem ctx) (SetArg 0 T v mem ctx)"

definition GetReturnValue :: "arg_type \<Rightarrow> memory \<Rightarrow> u64 \<Rightarrow> u8 list option" where
  "GetReturnValue T mem ctx = GetArg 0 T mem ctx"

section \<open>Arguments in order\<close>

text \<open>
  \<open>memory0_\<close> and \<open>memory1_\<close> hold a copy of an argument that is half in a register and half on the
  stack, and are not initialised.
\<close>

record Args =
  args_ctx :: u64
  args_sp :: u64
  args_x :: u32
  args_f :: u32
  memory0 :: u64
  memory1 :: u64

definition new_Args :: "memory \<Rightarrow> u64 \<Rightarrow> u64 \<Rightarrow> u64 \<Rightarrow> Args" where
  "new_Args mem ctx m0 m1 =
     \<lparr>args_ctx = ctx, args_sp = load64 mem (member_at ctx ''sp''), args_x = 0, args_f = 0,
      memory0 = m0, memory1 = m1\<rparr>"

text \<open>What \<open>next\<close> points to: memory of the process, or \<open>memory0_\<close> of the object itself.\<close>

datatype place = In_Memory u64 | In_Args

text \<open>
  The assertions of \<open>next\<close>. Their messages (use a pointer instead of a reference, a class or a union;
  unsupported type) are those of the negated conditions.
\<close>

definition next_accepts :: "arg_type \<Rightarrow> bool" where
  "next_accepts T \<longleftrightarrow>
     T = ReferenceType \<and> (case T of ClassType n \<Rightarrow> True | _ \<Rightarrow> False) \<and>
     (case T of UnionType n \<Rightarrow> True | _ \<Rightarrow> False) \<and>
     \<not> (is_integral T \<and> sizeof T \<le> 8) \<and> T \<noteq> PointerType \<and> T \<noteq> FloatType \<and> T \<noteq> DoubleType \<and>
     T \<noteq> LongDoubleType \<and> T \<noteq> UInt128Type"

definition next_x :: "bool \<Rightarrow> Args \<Rightarrow> place \<times> Args" where
  "next_x kConst a =
     (In_Memory (member_at (args_ctx a) ''a0'' + ucast (args_x a) * 8),
      if kConst then a else a\<lparr>args_x := args_x a + 1\<rparr>)"

definition next_f :: "bool \<Rightarrow> Args \<Rightarrow> place \<times> Args" where
  "next_f kConst a =
     (In_Memory (member_at (args_ctx a) ''fa0'' + ucast (args_f a) * 8),
      if kConst then a else a\<lparr>args_f := args_f a + 1\<rparr>)"

definition next_sp :: "bool \<Rightarrow> Args \<Rightarrow> place \<times> Args" where
  "next_sp kConst a = (In_Memory (args_sp a), if kConst then a else a\<lparr>args_sp := args_sp a + 8\<rparr>)"

text \<open>
  An argument of two registers. When the last register is left the first half is copied from it and
  the second half from the stack. On the stack \<open>kConst ? sp_ : sp_ += sizeof(T)\<close> is the value after the
  addition.
\<close>

definition next_wide :: "bool \<Rightarrow> memory \<Rightarrow> Args \<Rightarrow> place \<times> Args" where
  "next_wide kConst mem a =
     (if args_x a \<le> 7 then
        let x = args_x a; (p, a) = next_x kConst a in
        if x < 7 then (p, a)
        else let a = a\<lparr>memory0 := load64 mem (member_at (args_ctx a) ''a7''),
                       memory1 := load64 mem (args_sp a)\<rparr> in
             (In_Args, if kConst then a else a\<lparr>args_sp := args_sp a + 8\<rparr>)
      else let a = (if kConst then a else a\<lparr>args_sp := args_sp a + 16\<rparr>) in (In_Memory (args_sp a), a))"

text \<open>
  The branches of \<open>next\<close> behind its assertions; the result is \<open>None\<close> for a type that leads to
  \<open>__builtin_unreachable\<close>.
\<close>

definition next_branches :: "bool \<Rightarrow> arg_type \<Rightarrow> memory \<Rightarrow> Args \<Rightarrow> (place \<times> Args) option" where
  "next_branches kConst T mem a =
     (if (is_integral T \<and> sizeof T \<le> 8) \<or> T = PointerType then
        Some (if args_x a \<le> 7 then next_x kConst a else next_sp kConst a)
      else if T = FloatType \<or> T = DoubleType then
        Some (if args_f a \<le> 7 then next_f kConst a
              else if args_x a \<le> 7 then next_x kConst a else next_sp kConst a)
      else if T = LongDoubleType \<or> T = UInt128Type then Some (next_wide kConst mem a)
      else None)"

definition Args_next :: "bool \<Rightarrow> arg_type \<Rightarrow> memory \<Rightarrow> Args \<Rightarrow> (place \<times> Args) option" where
  "Args_next kConst T mem a = (if next_accepts T then next_branches kConst T mem a else None)"

definition read_place :: "arg_type \<Rightarrow> memory \<Rightarrow> Args \<Rightarrow> place \<Rightarrow> u8 list" where
  "read_place T mem a p =
     (case p of In_Memory q \<Rightarrow> read_bytes mem q (sizeof T)
              | In_Args \<Rightarrow> take (sizeof T) (bytes_of 8 (memory0 a) @ bytes_of 8 (memory1 a)))"

text \<open>\<open>get\<close>, given what \<open>next\<close> returns.\<close>

definition get_by :: "(place \<times> Args) option \<Rightarrow> arg_type \<Rightarrow> memory \<Rightarrow> (u8 list \<times> Args) option" where
  "get_by nxt T mem = map_option (\<lambda>(p, a). (read_place T mem a p, a)) nxt"

definition Args_get :: "bool \<Rightarrow> arg_type \<Rightarrow> memory \<Rightarrow> Args \<Rightarrow> (u8 list \<times> Args) option" where
  "Args_get kConst T mem a = get_by (Args_next kConst T mem a) T mem"

definition get_branches :: "bool \<Rightarrow> arg_type \<Rightarrow> memory \<Rightarrow> Args \<Rightarrow> (u8 list \<times> Args) option" where
  "get_branches kConst T mem a = get_by (next_branches kConst T mem a) T mem"

text \<open>\<open>next\<close> returns \<open>&memory0_\<close> for the types of two registers only, where \<open>set\<close> writes both halves.\<close>

definition Args_set :: "bool \<Rightarrow> arg_type \<Rightarrow> u8 list \<Rightarrow> memory \<Rightarrow> Args \<Rightarrow> (memory \<times> Args) option" where
  "Args_set kConst T v mem a =
     map_option (\<lambda>(p, a).
       case p of
         In_Args \<Rightarrow>
           (write_bytes (write_bytes mem (member_at (args_ctx a) ''a7'') (take 8 v))
              (if kConst then args_sp a else args_sp a - 8) (drop 8 v), a)
       | In_Memory q \<Rightarrow> (write_bytes mem q v, a)) (Args_next kConst T mem a)"

primrec skip_n :: "nat \<Rightarrow> arg_type \<Rightarrow> memory \<Rightarrow> Args \<Rightarrow> Args option" where
  "skip_n 0 T mem a = Some a"
| "skip_n (Suc n) T mem a = Option.bind (Args_next False T mem a) (\<lambda>(p, a). skip_n n T mem a)"

text \<open>An instance of \<open>skip\<close> compiles when its call of \<open>next\<close> does, whatever \<open>n\<close> is.\<close>

definition Args_skip :: "arg_type \<Rightarrow> u32 \<Rightarrow> memory \<Rightarrow> Args \<Rightarrow> Args option" where
  "Args_skip T n mem a = (if next_accepts T then skip_n (unat n) T mem a else None)"

text \<open>The arguments of a list of types, one \<open>get\<close> after the other, without the assertions.\<close>

primrec get_all :: "arg_type list \<Rightarrow> memory \<Rightarrow> Args \<Rightarrow> u8 list list option" where
  "get_all [] mem a = Some []"
| "get_all (T # Ts) mem a =
     Option.bind (get_branches False T mem a) (\<lambda>(v, a). map_option ((#) v) (get_all Ts mem a))"

section \<open>Handles and allocators\<close>

definition GetAddress :: "HookHandleExt \<Rightarrow> u64" where
  "GetAddress h = handle_address h"

definition GetBackup :: "HookHandleExt \<Rightarrow> u64" where
  "GetBackup h = handle_backup h"

definition new_TrampolineAllocator :: "TrampolineType \<Rightarrow> TrampolineAllocator" where
  "new_TrampolineAllocator t =
     \<lparr>allocator_type = t, custom_alloc_function = 0, custom_free_function = 0, allocator_data = 0\<rparr>"

definition custom_TrampolineAllocator :: "u64 \<Rightarrow> u64 \<Rightarrow> u64 \<Rightarrow> TrampolineAllocator" where
  "custom_TrampolineAllocator a f d =
     \<lparr>allocator_type = kCustom, custom_alloc_function = a, custom_free_function = f, allocator_data = d\<rparr>"

end
