(* ===== verification/Argument_Access.thy ===== *)
theory Argument_Access
  imports Register_Context Relocation_Refinement
begin

text \<open>
  \<open>Register_Context\<close> against the calling convention of the platform (the integer and the hardware
  floating-point convention of the RISC-V ELF psABI): where each argument of a call is (\<open>locate\<close>) and
  what its bytes are when the handler sees the context (\<open>argument_at\<close>). No instance of \<open>Args::next\<close>
  satisfies its assertions; the branches behind them read the arguments of
  every list of types without a pair of registers that other arguments follow or that lies on the
  stack; \<open>GetArg\<close> and \<open>SetArg\<close> are a store with 2^16 cells.
\<close>

section \<open>The calling convention\<close>

datatype location = In_Gpr nat | In_Fpr nat | On_Stack nat | In_Gprs nat | Split nat

text \<open>
  The state is the number of integer registers and of floating-point registers taken, and of bytes of
  the stack. Arguments of 16 bytes are aligned on the stack; one of them is split between \<open>a7\<close> and
  the stack when only that register is left.
\<close>

type_synonym taken = "nat \<times> nat \<times> nat"

definition locate_narrow :: "taken \<Rightarrow> location \<times> taken" where
  "locate_narrow = (\<lambda>(x, f, s). if x < 8 then (In_Gpr x, (x + 1, f, s)) else (On_Stack s, (x, f, s + 8)))"

definition locate_wide :: "taken \<Rightarrow> location \<times> taken" where
  "locate_wide = (\<lambda>(x, f, s).
     if x < 7 then (In_Gprs x, (x + 2, f, s))
     else if x = 7 then (Split s, (8, f, s + 8))
     else let s = 16 * ((s + 15) div 16) in (On_Stack s, (x, f, s + 16)))"

definition locate :: "arg_type \<Rightarrow> taken \<Rightarrow> location \<times> taken" where
  "locate T = (\<lambda>(x, f, s).
     if is_floating T \<and> f < 8 then (In_Fpr f, (x, f + 1, s))
     else if is_wide T then locate_wide (x, f, s) else locate_narrow (x, f, s))"

primrec locations :: "arg_type list \<Rightarrow> taken \<Rightarrow> location list" where
  "locations [] st = []"
| "locations (T # Ts) st = (let (loc, st) = locate T st in loc # locations Ts st)"

text \<open>The value of a member, and the bytes of an argument.\<close>

definition member_value :: "memory \<Rightarrow> u64 \<Rightarrow> string \<Rightarrow> u64" where
  "member_value mem ctx name = load64 mem (member_at ctx name)"

definition stack_at :: "memory \<Rightarrow> u64 \<Rightarrow> nat \<Rightarrow> u64" where
  "stack_at mem ctx s = member_value mem ctx ''sp'' + of_nat s"

definition argument_at :: "memory \<Rightarrow> u64 \<Rightarrow> arg_type \<Rightarrow> location \<Rightarrow> u8 list" where
  "argument_at mem ctx T loc =
     (case loc of
        In_Gpr i \<Rightarrow> bytes_of (sizeof T) (member_value mem ctx (a_members ! i))
      | In_Fpr i \<Rightarrow> bytes_of (sizeof T) (member_value mem ctx (fa_members ! i))
      | On_Stack s \<Rightarrow> read_bytes mem (stack_at mem ctx s) (sizeof T)
      | In_Gprs i \<Rightarrow> bytes_of 8 (member_value mem ctx (a_members ! i)) @
                     bytes_of 8 (member_value mem ctx (a_members ! (i + 1)))
      | Split s \<Rightarrow> bytes_of 8 (member_value mem ctx ''a7'') @ read_bytes mem (stack_at mem ctx s) 8)"

definition arguments :: "memory \<Rightarrow> u64 \<Rightarrow> arg_type list \<Rightarrow> u8 list list" where
  "arguments mem ctx Ts = map2 (argument_at mem ctx) Ts (locations Ts (0, 0, 0))"

section \<open>Members of the context\<close>

lemma offsets:
  "offsetof ''sp'' = 8" "offsetof ''a0'' = 72" "offsetof ''a7'' = 128" "offsetof ''fa0'' = 328"
  "offsetof_return_early = 504"
  by code_simp+

lemma argument_offsets:
  assumes "i < 8"
  shows "offsetof (a_members ! i) = 72 + 8 * i" and "offsetof (fa_members ! i) = 328 + 8 * i"
proof -
  have "map (\<lambda>i. offsetof (a_members ! i)) [0..<8] = map (\<lambda>i. 72 + 8 * i) [0..<8]"
    and "map (\<lambda>i. offsetof (fa_members ! i)) [0..<8] = map (\<lambda>i. 328 + 8 * i) [0..<8]" by code_simp+
  then show "offsetof (a_members ! i) = 72 + 8 * i" and "offsetof (fa_members ! i) = 328 + 8 * i"
    using assms by (auto simp only: map_eq_conv set_upt atLeastLessThan_iff)
qed

lemma argument_members:
  assumes "i < 8"
  shows "member_at ctx (a_members ! i) = ctx + 72 + of_nat (8 * i)"
    and "member_at ctx (fa_members ! i) = ctx + 328 + of_nat (8 * i)"
  using assms by (simp_all add: member_at_def argument_offsets)

lemma member_at_simps:
  "member_at ctx ''sp'' = ctx + 8" "member_at ctx ''a0'' = ctx + 72" "member_at ctx ''a7'' = ctx + 128"
  "member_at ctx ''fa0'' = ctx + 328"
  by (simp_all add: member_at_def offsets)

text \<open>The three declarations of the registers have the same order.\<close>

lemma members_agree:
  "c_members = register_members" "length numbered_members = length register_members"
  "distinct register_members" "distinct numbered_members"
  by code_simp+

lemma read_low_bytes: "n \<le> 8 \<Longrightarrow> read_bytes mem a n = bytes_of n (load64 mem a)"
proof -
  assume n: "n \<le> 8"
  have "bytes_of 8 (load64 mem a) = read_bytes mem a 8"
    using bytes_of_word_of_bytes [of "read_bytes mem a 8", where 'a = 64] by (simp add: load64_def)
  then have "take n (bytes_of 8 (load64 mem a)) = take n (read_bytes mem a 8)" by simp
  then show ?thesis using n by (simp add: bytes_of_def read_bytes_def take_map min_def)
qed

lemma read_two_words: "read_bytes mem a 16 = bytes_of 8 (load64 mem a) @ bytes_of 8 (load64 mem (a + 8))"
  using read_bytes_split [of mem a 8 8] by (simp add: read_low_bytes)

section \<open>\<open>Args\<close>\<close>

text \<open>The object after some arguments, when \<open>sp\<close> is the stack pointer in the context.\<close>

definition args_at :: "u64 \<Rightarrow> u64 \<Rightarrow> taken \<Rightarrow> Args \<Rightarrow> bool" where
  "args_at ctx sp' = (\<lambda>(x, f, s) a.
     x \<le> 8 \<and> f \<le> 8 \<and> args_ctx a = ctx \<and> args_x a = of_nat x \<and> args_f a = of_nat f \<and>
     args_sp a = sp' + of_nat s)"

lemma count_le_7: "n \<le> 8 \<Longrightarrow> (of_nat n :: u32) \<le> 7 \<longleftrightarrow> n < 8"
  by (simp add: word_le_nat_alt unat_of_nat, arith)

lemma count_less_7: "n \<le> 8 \<Longrightarrow> (of_nat n :: u32) < 7 \<longleftrightarrow> n < 7"
  by (simp add: word_less_nat_alt unat_of_nat)

lemma count_scaled: "n \<le> 8 \<Longrightarrow> ucast (of_nat n :: u32) * 8 = (of_nat (8 * n) :: u64)"
  by (simp add: unsigned_of_nat take_bit_nat_eq_self mult.commute)

lemmas counts = count_le_7 count_less_7 count_scaled

lemma get_branches_narrow:
  assumes "args_at ctx (member_value mem ctx ''sp'') st a" and "is_narrow T \<or> is_floating T"
    and "locate T st = (loc, st')"
  shows "\<exists>a'. get_branches False T mem a = Some (argument_at mem ctx T loc, a') \<and>
    args_at ctx (member_value mem ctx ''sp'') st' a'"
proof -
  obtain x f s where st: "st = (x, f, s)" by (cases st) auto
  have size: "sizeof T \<le> 8" and wide: "\<not> is_wide T" using assms(2)
    by (auto simp: is_narrow_def is_floating_def is_wide_def)
  show ?thesis using assms size wide
    by (auto simp: st locate_def locate_narrow_def args_at_def get_branches_def get_by_def next_branches_def next_x_def next_f_def
        next_sp_def is_narrow_def is_floating_def counts read_place_def argument_at_def read_low_bytes
        argument_members member_at_simps member_value_def stack_at_def
        split: if_splits)
qed

text \<open>A pair of registers, or the last register with the stack, when a register is left.\<close>

lemma get_branches_wide:
  assumes "args_at ctx (member_value mem ctx ''sp'') (x, f, s) a" and "is_wide T" and "x < 8"
    and "locate T (x, f, s) = (loc, st')"
  shows "\<exists>a'. get_branches False T mem a = Some (argument_at mem ctx T loc, a') \<and>
    (x = 7 \<longrightarrow> args_at ctx (member_value mem ctx ''sp'') st' a')"
proof -
  have size: "sizeof T = 16" and kinds: "\<not> is_floating T" "\<not> (is_integral T \<and> sizeof T \<le> 8)" "T \<noteq> PointerType"
    "T \<noteq> FloatType" "T \<noteq> DoubleType" "T = LongDoubleType \<or> T = UInt128Type"
    using assms(2) by (auto simp: is_wide_def is_floating_def)
  have x: "x \<le> 8" using assms(3) by simp
  have next_T: "next_branches False T mem a = Some (next_wide False mem a)"
    unfolding next_branches_def using kinds by (simp only: if_True if_False simp_thms)
  have addr: "ctx + 72 + of_nat (8 * (x + 1)) = (ctx + 72 + of_nat (8 * x) + 8 :: u64)" by simp
  show ?thesis
  proof (cases "x = 7")
    case True
    then show ?thesis using assms size kinds(1)
      by (auto simp: get_branches_def get_by_def next_T next_wide_def next_x_def args_at_def locate_def locate_wide_def read_place_def
          argument_at_def read_low_bytes member_value_def stack_at_def Let_def)
  next
    case False
    then have "x < 7" using assms(3) by simp
    then show ?thesis using assms size kinds(1) x
      by (auto simp: get_branches_def get_by_def next_T next_wide_def next_x_def args_at_def locate_def locate_wide_def read_place_def
          argument_at_def read_two_words member_value_def Let_def counts argument_members member_at_simps add.assoc
          simp del: of_nat_mult of_nat_Suc of_nat_add
          split: if_splits) (simp_all add: add.assoc)
  qed
qed

text \<open>
  The lists of arguments that \<open>Args\<close> reads: a pair of registers may only be the last argument, and no
  argument of 16 bytes may lie on the stack; one that is split may stand anywhere.
\<close>

fun readable :: "arg_type list \<Rightarrow> taken \<Rightarrow> bool" where
  "readable [] st = True"
| "readable (T # Ts) (x, f, s) =
     (if is_narrow T \<or> is_floating T then readable Ts (snd (locate T (x, f, s)))
      else is_wide T \<and> (x = 7 \<and> readable Ts (snd (locate T (x, f, s))) \<or> x < 7 \<and> Ts = []))"

lemma get_all_reads:
  "readable Ts st \<Longrightarrow> args_at ctx (member_value mem ctx ''sp'') st a \<Longrightarrow>
   get_all Ts mem a = Some (map2 (argument_at mem ctx) Ts (locations Ts st))"
proof (induction Ts arbitrary: st a)
  case Nil
  then show ?case by simp
next
  case (Cons T Ts)
  obtain x f s where st: "st = (x, f, s)" by (cases st) auto
  obtain loc st' where loc: "locate T st = (loc, st')" by (cases "locate T st")
  consider (narrow) "is_narrow T \<or> is_floating T" "readable Ts st'"
    | (split) "is_wide T" "x = 7" "readable Ts st'" | (last) "is_wide T" "x < 7" "Ts = []"
    using Cons.prems(1) loc by (auto simp: st split: if_splits)
  then show ?case
  proof cases
    case narrow
    from get_branches_narrow [OF Cons.prems(2) narrow(1) loc] narrow(2) show ?thesis
      by (auto simp: loc Cons.IH)
  next
    case split
    from get_branches_wide [OF Cons.prems(2) [unfolded st] split(1) _ loc [unfolded st]] split(2,3) show ?thesis
      by (auto simp: loc Cons.IH)
  next
    case last
    from get_branches_wide [OF Cons.prems(2) [unfolded st] last(1) _ loc [unfolded st]] last(2,3) show ?thesis
      by (auto simp: loc)
  qed
qed

lemma args_at_new: "args_at ctx (member_value mem ctx ''sp'') (0, 0, 0) (new_Args mem ctx m0 m1)"
  by (simp add: args_at_def new_Args_def member_value_def)

text \<open>
  C38: The branches of \<open>Args::next\<close> follow the calling convention. The assertions in front of them are
  set aside here, because they reject every type. For every list of integers, pointers, floating-point
  numbers and arguments of two registers as far as \<open>readable\<close> allows them, the branches used by \<open>get\<close> one
  after the other lead to the bytes that the calling convention has for each argument, wherever it
  puts them.
\<close>

theorem Args_get_reads_arguments:
  assumes "readable Ts (0, 0, 0)"
  shows "get_all Ts mem (new_Args mem ctx m0 m1) = Some (arguments mem ctx Ts)"
  using get_all_reads [OF assms args_at_new] by (simp add: arguments_def)

text \<open>Seven integer registers, the split argument, eight \<open>double\<close> with one on the stack, and a \<open>short\<close>.\<close>

definition example_types :: "arg_type list" where
  "example_types = [PointerType, FloatType, IntegerType 4 True] @ replicate 5 (IntegerType 8 False) @
     [UInt128Type] @ replicate 8 DoubleType @ [IntegerType 2 True]"

theorem Args_get_reads_arguments_witness:
  "get_all example_types (\<lambda>x. ucast (x * x)) (new_Args (\<lambda>x. ucast (x * x)) 0x1000 0 0) =
     Some (arguments (\<lambda>x. ucast (x * x)) 0x1000 example_types)"
proof -
  have "readable example_types (0, 0, 0)" by code_simp
  then show ?thesis by (rule Args_get_reads_arguments)
qed

text \<open>What the code does with an argument of 16 bytes.\<close>

lemma wide_from_registers:
  assumes "args_at ctx sp' (x, f, s) a" and "x < 7" and "is_wide T"
  obtains a' where "get_branches False T mem a = Some (read_bytes mem (ctx + 72 + of_nat (8 * x)) 16, a')"
    and "args_at ctx sp' (x + 1, f, s) a'"
  using assms
  by (auto simp: is_wide_def get_branches_def get_by_def next_branches_def next_wide_def next_x_def args_at_def counts Let_def read_place_def
      member_at_simps simp del: of_nat_mult)

lemma wide_from_stack:
  assumes "args_at ctx sp' (8, f, s) a" and "is_wide T"
  shows "\<exists>a'. get_branches False T mem a = Some (read_bytes mem (sp' + of_nat (s + 16)) 16, a')"
proof -
  have "\<not> args_x a \<le> 7" "args_sp a = sp' + of_nat s"
    using count_le_7 [of 8] assms(1) unfolding args_at_def by simp_all
  then show ?thesis using assms(2)
    by (auto simp: is_wide_def get_branches_def get_by_def next_branches_def next_wide_def read_place_def add.assoc)
qed

lemma get_all_pointers:
  assumes "args_at ctx (member_value mem ctx ''sp'') (x, f, s) a" and "x + n \<le> 8"
  obtains vs a' where "args_at ctx (member_value mem ctx ''sp'') (x + n, f, s) a'"
    and "get_all (replicate n PointerType @ Us) mem a = map_option ((@) vs) (get_all Us mem a')"
  using assms
proof (induction n arbitrary: x a thesis)
  case 0
  show ?case by (rule "0.prems"(1) [of a "[]"]) (use "0.prems"(2) in \<open>simp_all add: option.map_ident\<close>)
next
  case (Suc n)
  obtain v a1 where step: "get_branches False PointerType mem a = Some (v, a1)"
    "args_at ctx (member_value mem ctx ''sp'') (x + 1, f, s) a1"
    using get_branches_narrow [OF Suc.prems(2), of PointerType] Suc.prems(3)
    by (auto simp: is_narrow_def locate_def locate_narrow_def is_floating_def is_wide_def)
  obtain vs a' where "args_at ctx (member_value mem ctx ''sp'') (x + 1 + n, f, s) a'"
    "get_all (replicate n PointerType @ Us) mem a1 = map_option ((@) vs) (get_all Us mem a')"
    using Suc.IH [OF _ step(2)] Suc.prems(3) by auto
  then show ?case
    by (intro Suc.prems(1) [of a' "v # vs"]) (simp_all add: step option.map_comp comp_def)
qed

lemma locations_pointers:
  "x + n \<le> 8 \<Longrightarrow>
   locations (replicate n PointerType @ Us) (x, f, s) = map In_Gpr [x..<x + n] @ locations Us (x + n, f, s)"
proof (induction n arbitrary: x)
  case 0
  then show ?case by simp
next
  case (Suc n)
  then show ?case
    using Suc.IH [of "x + 1"]
    by (simp add: locate_def locate_narrow_def is_floating_def is_wide_def upt_conv_Cons del: upt_Suc)
qed

lemma next_accepts_nothing: "\<not> next_accepts T"
  by (auto simp: next_accepts_def)

text \<open>
  C35: \<open>Args\<close> reads nothing, and behind its assertions it would misread arguments. The assertions of
  \<open>next\<close> reject every type, so that no instance of \<open>next\<close>, \<open>get\<close>, \<open>set\<close> or \<open>skip\<close> compiles. Without them,
  an argument in two registers counts as one, so that the next argument is taken from its second
  register instead of the one behind it; and an argument of 16 bytes on the stack is read 16 bytes
  behind its place.
\<close>

theorem Args_misreads_wide_arguments:
  "Args_next kConst T mem a = None \<and> Args_get kConst T mem a = None \<and> Args_set kConst T v mem a = None \<and>
   Args_skip T n mem a = None \<and>
   get_all [UInt128Type, PointerType] mem (new_Args mem ctx m0 m1) =
     Some [read_bytes mem (member_at ctx ''a0'') 16, read_bytes mem (member_at ctx ''a1'') 8] \<and>
   arguments mem ctx [UInt128Type, PointerType] =
     [read_bytes mem (member_at ctx ''a0'') 16, read_bytes mem (member_at ctx ''a2'') 8] \<and>
   map_option last (get_all (replicate 8 PointerType @ [UInt128Type]) mem (new_Args mem ctx m0 m1)) =
     Some (read_bytes mem (stack_at mem ctx 16) 16) \<and>
   last (arguments mem ctx (replicate 8 PointerType @ [UInt128Type])) = read_bytes mem (stack_at mem ctx 0) 16"
proof -
  have members: "member_at ctx ''a1'' = ctx + 80" "member_at ctx ''a2'' = ctx + 88"
    "member_at ctx (a_members ! 0) = ctx + 72" "member_at ctx (a_members ! Suc 0) = ctx + 80"
    "member_at ctx (a_members ! Suc (Suc 0)) = ctx + 88"
    using argument_members [of 0 ctx] argument_members [of 1 ctx] argument_members [of 2 ctx]
    by (simp_all add: a_members_def)
  let ?a = "new_Args mem ctx m0 m1"
  obtain a1 where first: "get_branches False UInt128Type mem ?a = Some (read_bytes mem (ctx + 72) 16, a1)"
    and a1: "args_at ctx (member_value mem ctx ''sp'') (1, 0, 0) a1"
    using wide_from_registers [OF args_at_new, of UInt128Type mem mem ctx m0 m1] by (auto simp: is_wide_def)
  obtain a2 where "get_branches False PointerType mem a1 = Some (read_bytes mem (ctx + 80) 8, a2)"
    using get_branches_narrow [OF a1, of PointerType]
    by (auto simp: is_narrow_def locate_def locate_narrow_def is_floating_def is_wide_def argument_at_def
        member_value_def members read_low_bytes)
  with first have two: "get_all [UInt128Type, PointerType] mem ?a =
      Some [read_bytes mem (member_at ctx ''a0'') 16, read_bytes mem (member_at ctx ''a1'') 8]"
    by (simp add: member_at_simps members)
  obtain vs a8 where a8: "args_at ctx (member_value mem ctx ''sp'') (8, 0, 0) a8"
    and "get_all (replicate 8 PointerType @ [UInt128Type]) mem ?a =
      map_option ((@) vs) (get_all [UInt128Type] mem a8)"
    by (rule get_all_pointers [OF args_at_new, where n = 8 and Us = "[UInt128Type]"]) auto
  moreover obtain a9 where "get_branches False UInt128Type mem a8 = Some (read_bytes mem (stack_at mem ctx 16) 16, a9)"
    using wide_from_stack [OF a8, of UInt128Type mem] by (auto simp: is_wide_def stack_at_def)
  ultimately have eight: "map_option last (get_all (replicate 8 PointerType @ [UInt128Type]) mem ?a) =
      Some (read_bytes mem (stack_at mem ctx 16) 16)" by simp
  have "last (arguments mem ctx (replicate 8 PointerType @ [UInt128Type])) = read_bytes mem (stack_at mem ctx 0) 16"
    using locations_pointers [of 0 8 "[UInt128Type]" 0 0]
    by (simp add: arguments_def locate_def locate_wide_def argument_at_def is_wide_def is_floating_def)
  moreover have "arguments mem ctx [UInt128Type, PointerType] =
      [read_bytes mem (member_at ctx ''a0'') 16, read_bytes mem (member_at ctx ''a2'') 8]"
    by (simp add: arguments_def locate_def locate_narrow_def locate_wide_def argument_at_def is_wide_def
        is_floating_def member_value_def member_at_simps members read_two_words read_low_bytes add.commute)
  moreover have "Args_next kConst T mem a = None" "Args_get kConst T mem a = None"
    "Args_set kConst T v mem a = None" "Args_skip T n mem a = None"
    by (simp_all add: Args_next_def Args_get_def get_by_def Args_set_def Args_skip_def next_accepts_nothing)
  ultimately show ?thesis using two eight by blast
qed

section \<open>\<open>GetArg\<close> and \<open>SetArg\<close>\<close>

lemma apart_slots:
  assumes "p + n \<le> q" and "q + m \<le> 2 ^ 32" and "0 < n"
  shows "apart (c + of_nat p) n (c + of_nat q) m"
proof -
  have d: "0 < q - p" "q - p < 2 ^ 64" using assms by simp_all
  have "(c + of_nat q) - (c + of_nat p) = (of_nat (q - p) :: u64)" using assms(1) by (simp add: of_nat_diff)
  then have u: "unat ((c + of_nat q) - (c + of_nat p)) = q - p" using d by (simp only: unat_of_nat_64)
  then have "c + of_nat q \<noteq> c + of_nat p" using d(1) by (metis diff_self unsigned_0 less_irrefl)
  moreover have "(2 :: nat) ^ 32 \<le> 2 ^ 64" by simp
  ultimately show ?thesis using unat_neg_diff [of "c + of_nat q" "c + of_nat p"] assms u
    unfolding apart_def by (intro conjI) linarith+
qed

lemma apart_distinct_slots:
  assumes "p + n \<le> q \<or> q + m \<le> p" and "p + n \<le> 2 ^ 32" and "q + m \<le> 2 ^ 32" and "0 < n" and "0 < m"
  shows "apart (c + of_nat p) n (c + of_nat q) m"
  using assms apart_slots [of p n q m c] apart_sym [OF apart_slots [of q m p n c]] by blast

text \<open>Reading back what was converted to a register.\<close>

lemma force_cast_inverse:
  assumes "object_of T v" and "sizeof T \<le> 8" and "is_castable T"
  shows "force_cast T (force_cast_reg T v) = v"
proof -
  have len: "length v = sizeof T" using assms(1) by (simp add: object_of_def)
  have whole: "bytes_of (sizeof T) (word_of_bytes v :: u64) = v"
    using bytes_of_word_of_bytes [of v, where 'a = 64] assms(2) len by simp
  have signed: "bytes_of n (signed_take_bit (8 * n - 1) (w :: u64)) = bytes_of n w" if "n \<le> 8" for n w
  proof (rule nth_equalityI; simp)
    fix i assume i: "i < n"
    show "(ucast (drop_bit (8 * i) (signed_take_bit (8 * n - Suc 0) w)) :: u8) = ucast (drop_bit (8 * i) w)"
    proof (rule bit_word_eqI)
      fix k :: nat assume k: "k < LENGTH(8)"
      then have "8 * i + k = 8 * n - Suc 0 \<or> 8 * i + k < 8 * n - Suc 0" using i by simp arith
      then show "bit (ucast (drop_bit (8 * i) (signed_take_bit (8 * n - Suc 0) w)) :: u8) k =
          bit (ucast (drop_bit (8 * i) w) :: u8) k"
        using i that k by (auto simp: bit_simps min_def)
    qed
  qed
  show ?thesis
  proof (cases T)
    case BoolType
    with assms(1) show ?thesis by (auto simp: object_of_def force_cast_def force_cast_reg_def)
  next
    case (IntegerType n s)
    with whole signed [of n] assms(2) show ?thesis by (cases s) (simp_all add: force_cast_def force_cast_reg_def)
  next
    case (EnumType n s)
    with whole signed [of n] assms(2) show ?thesis by (cases s) (simp_all add: force_cast_def force_cast_reg_def)
  qed (use whole assms(3) in \<open>simp_all add: force_cast_def force_cast_reg_def is_castable_def\<close>)
qed

text \<open>The place that \<open>SetArg\<close> writes to, and its bytes.\<close>

definition argument_place :: "nat \<Rightarrow> arg_type \<Rightarrow> memory \<Rightarrow> u64 \<Rightarrow> u64" where
  "argument_place N T mem ctx =
     (if 7 < N then stack_slot mem ctx N
      else if is_floating T then member_at ctx (fa_members ! N) else member_at ctx (a_members ! N))"

definition argument_bytes :: "arg_type \<Rightarrow> u8 list \<Rightarrow> u8 list" where
  "argument_bytes T v = (if is_floating T then v else bytes_of 8 (force_cast_reg T v))"

lemma SetArg_writes:
  "GetArg_accepts N T \<Longrightarrow>
   SetArg N T v mem ctx = Some (write_bytes mem (argument_place N T mem ctx) (argument_bytes T v))"
  by (auto simp: SetArg_def set_reg_def argument_place_def argument_bytes_def is_floating_def GetArg_accepts_def)

lemma GetArg_reads:
  "GetArg_accepts N T \<Longrightarrow>
   GetArg N T mem ctx =
     Some (if is_floating T then bytes_of (sizeof T) (load64 mem (argument_place N T mem ctx))
           else force_cast T (load64 mem (argument_place N T mem ctx)))"
  by (auto simp: GetArg_def get_reg_def argument_place_def is_floating_def GetArg_accepts_def)

lemma length_argument_bytes:
  "object_of T v \<Longrightarrow> GetArg_accepts N T \<Longrightarrow> 0 < length (argument_bytes T v) \<and> length (argument_bytes T v) \<le> 8"
  using length_bytes_of [of 8 "force_cast_reg T v"]
  by (auto simp: argument_bytes_def object_of_def GetArg_accepts_def is_floating_def simp del: length_bytes_of)

text \<open>
  The arguments \<open>0, ..., n - 1\<close> of a context: its memory does not overlap the part of the stack where
  those behind the eighth are.
\<close>

definition context_ok :: "memory \<Rightarrow> u64 \<Rightarrow> nat \<Rightarrow> bool" where
  "context_ok mem ctx n \<longleftrightarrow> n < 2 ^ 16 \<and> apart ctx 512 (load64 mem (ctx + 8)) (8 * (n - 8))"

lemma argument_place_apart:
  assumes "context_ok mem ctx n" and "N < n" and "M < n" and "k \<le> 8" and "0 < k"
    and "N \<noteq> M \<or> (N \<le> 7 \<and> is_floating T \<noteq> is_floating U)"
  shows "apart (argument_place N T mem ctx) k (argument_place M U mem ctx) 8"
proof -
  let ?sp = "load64 mem (ctx + 8)"
  have stack: "apart (ctx + of_nat p) 8 (?sp + of_nat q) 8"
    if "p + 8 \<le> 512" "q + 8 \<le> 8 * (n - 8)" for p q
  proof -
    have "apart (ctx + of_nat p) 8 ?sp (8 * (n - 8))"
      using assms(1) that by (intro apart_sub [of ctx 512]) (simp_all add: context_ok_def)
    from apart_sub [OF apart_sym [OF this], of q 8] that show ?thesis by (auto intro: apart_sym)
  qed
  have shrink: "apart a k b 8" if "apart a 8 b 8" for a b using that assms(4) by (simp add: apart_def)
  define p where "p i F = (if is_floating F then 328 + 8 * i else 72 + 8 * i :: nat)" for i F
  have reg: "argument_place i F mem ctx = ctx + of_nat (p i F)" if "i \<le> 7" for i F
    using that by (simp add: argument_place_def p_def argument_members add.assoc)
  have mem_place: "argument_place i F mem ctx = ?sp + of_nat (8 * (i - 8))" if "7 < i" for i F
    using that by (simp add: argument_place_def stack_slot_def member_at_simps)
  have p: "p i F + 8 \<le> 512" if "i \<le> 7" for i F using that by (simp add: p_def)
  have n: "8 * (n - 8) < 2 ^ 32" using assms(1) by (auto simp: context_ok_def)
  consider "N \<le> 7" "M \<le> 7" | "N \<le> 7" "7 < M" | "7 < N" "M \<le> 7" | "7 < N" "7 < M" by linarith
  then show ?thesis
  proof cases
    case 1
    then have "p N T + 8 \<le> p M U \<or> p M U + 8 \<le> p N T" using assms(6) by (auto simp: p_def)
    then show ?thesis unfolding reg [OF 1(1)] reg [OF 1(2)] using p [OF 1(1), of T] p [OF 1(2), of U]
      by (intro shrink apart_distinct_slots) simp_all
  next
    case 2
    then show ?thesis unfolding reg [OF 2(1)] mem_place [OF 2(2)] using p [OF 2(1), of T] assms(3)
      by (intro shrink stack) simp_all
  next
    case 3
    then show ?thesis unfolding mem_place [OF 3(1)] reg [OF 3(2)] using p [OF 3(2), of U] assms(2)
      by (intro shrink apart_sym [OF stack]) simp_all
  next
    case 4
    then show ?thesis unfolding mem_place [OF 4(1)] mem_place [OF 4(2)] using assms(2,3,6) n
      by (intro shrink apart_distinct_slots) auto
  qed
qed

lemma argument_place_kept:
  assumes "context_ok mem ctx n" and "N < n" and "0 < length bs" and "length bs \<le> 8"
  shows "argument_place M U (write_bytes mem (argument_place N T mem ctx) bs) ctx = argument_place M U mem ctx"
proof -
  have "apart (argument_place N T mem ctx) (length bs) (ctx + 8) 8"
  proof (cases "N \<le> 7")
    case True
    then have "argument_place N T mem ctx = ctx + of_nat ((if is_floating T then 328 else 72) + 8 * N)"
      by (simp add: argument_place_def argument_members add.assoc)
    then show ?thesis
      using True assms(3,4) apart_distinct_slots [of "(if is_floating T then 328 else 72) + 8 * N" "length bs" 8 8 ctx]
      by simp
  next
    case False
    have "apart (ctx + of_nat 8) 8 (load64 mem (ctx + 8)) (8 * (n - 8))"
      using assms(1,2) False by (intro apart_sub [of ctx 512]) (simp_all add: context_ok_def)
    from apart_sub [OF apart_sym [OF this], of "8 * (N - 8)" "length bs"] assms(2-4) False
    show ?thesis by (simp add: argument_place_def stack_slot_def member_at_simps)
  qed
  then show ?thesis by (simp add: argument_place_def stack_slot_def member_at_simps load64_apart)
qed

text \<open>
  C37: \<open>SetArg\<close> and \<open>GetArg\<close> are the store and the read of a variable for each argument. What \<open>SetArg\<close>
  was given \<open>GetArg\<close> returns, and every other argument of any type is what it was, as is the
  floating-point argument with the number of an integer argument and the other way round.
\<close>

theorem SetArg_GetArg:
  assumes "context_ok mem ctx n" and "N < n" and "GetArg_accepts N T" and "object_of T v"
  shows "\<exists>mem'. SetArg N T v mem ctx = Some mem' \<and> GetArg N T mem' ctx = Some v \<and>
    (\<forall>M U. M < n \<and> (M \<noteq> N \<or> (N \<le> 7 \<and> is_floating T \<noteq> is_floating U)) \<longrightarrow>
      GetArg M U mem' ctx = GetArg M U mem ctx)"
proof -
  let ?q = "argument_place N T mem ctx" and ?bs = "argument_bytes T v"
  let ?mem' = "write_bytes mem ?q ?bs"
  note len = length_argument_bytes [OF assms(4,3)]
  have kept: "argument_place M U ?mem' ctx = argument_place M U mem ctx" for M U
    using argument_place_kept [OF assms(1,2)] len by blast
  have same: "GetArg N T ?mem' ctx = Some v"
  proof (cases "is_floating T")
    case True
    then have s: "sizeof T \<le> 8" "length v = sizeof T" using assms(4) by (auto simp: is_floating_def object_of_def)
    have "read_bytes (write_bytes mem ?q v) ?q (sizeof T) = v"
      using read_write_bytes [of v mem ?q] s by simp
    then show ?thesis using assms(3) True s
      by (simp add: GetArg_reads kept read_low_bytes [symmetric]) (simp add: argument_bytes_def)
  next
    case False
    then show ?thesis using assms(3,4) force_cast_inverse [OF assms(4)]
      by (simp add: GetArg_reads kept, simp add: argument_bytes_def load64_same GetArg_accepts_def)
  qed
  have "GetArg M U ?mem' ctx = GetArg M U mem ctx"
    if "M < n" "M \<noteq> N \<or> (N \<le> 7 \<and> is_floating T \<noteq> is_floating U)" for M U
  proof (cases "GetArg_accepts M U")
    case True
    have "apart ?q (length ?bs) (argument_place M U mem ctx) 8"
      using argument_place_apart [OF assms(1,2) that(1)] len that(2) by blast
    with True show ?thesis by (simp add: GetArg_reads kept load64_apart)
  next
    case False
    then show ?thesis by (simp add: GetArg_def)
  qed
  then show ?thesis using SetArg_writes [OF assms(3)] same by blast
qed

theorem SetArg_GetArg_witness:
  "\<exists>mem'. SetArg 9 (IntegerType 4 True) [1, 2, 3, 0xF4] (\<lambda>x. 0) 0x1000 = Some mem' \<and>
     GetArg 9 (IntegerType 4 True) mem' 0x1000 = Some [1, 2, 3, 0xF4] \<and> GetArg 8 PointerType mem' 0x1000 = Some (replicate 8 0)"
proof -
  have "load64 (\<lambda>x. 0) 0x1008 = 0" by code_simp
  then have "context_ok (\<lambda>x. 0) 0x1000 10" by (simp add: context_ok_def apart_def)
  moreover have "GetArg_accepts 9 (IntegerType 4 True)" "object_of (IntegerType 4 True) [1, 2, 3, 0xF4]" by code_simp+
  moreover have "GetArg 8 PointerType (\<lambda>x. 0) 0x1000 = Some (replicate 8 0)" by code_simp
  ultimately show ?thesis using SetArg_GetArg [of "\<lambda>x. 0" "0x1000" 10 9 "IntegerType 4 True" "[1, 2, 3, 0xF4]"]
    by force
qed

end
