(* ===== verification/Register_Saving.thy ===== *)
theory Register_Saving
  imports Trampoline_Dispatch Argument_Access
begin

text \<open>
  The part of the second trampoline around the register handlers: the instructions that write the
  registers to the \<open>RegisterContext\<close> on the stack (\<open>sregs 1\<close> in \<open>trampoline_riscv64.S\<close>), and those
  that read them back and decide whether the function is called (\<open>pregs\<close> and the branch behind it), run
  on a machine with floating-point registers. The handlers run in between.
\<close>

section \<open>A machine with floating-point registers\<close>

record fmachine =
  cpu :: machine
  fregs :: "Register \<Rightarrow> u64"

definition store_word :: "u64 \<Rightarrow> u64 \<Rightarrow> nat \<Rightarrow> fmachine \<Rightarrow> fmachine" where
  "store_word a v n s =
     s\<lparr>cpu := advance n ((cpu s)\<lparr>mmem := write_bytes (mmem (cpu s)) a (bytes_of 8 v)\<rparr>)\<rparr>"

definition exec_context :: "consumer_call \<Rightarrow> nat \<Rightarrow> fmachine \<Rightarrow> fmachine option" where
  "exec_context c n s =
     (case c of
        Store args \<Rightarrow>
          (if StoreArgsTemplate.operand_type args = MemoryDataOperandType.k64bit then
             Some (store_word (read_reg (StoreArgsTemplate.src args) (cpu s) + scast (StoreArgsTemplate.offset args))
               (read_reg (StoreArgsTemplate.data args) (cpu s)) n s)
           else None)
      | Store_fp args \<Rightarrow>
          (if StoreArgsTemplate.operand_type args = kDouble then
             Some (store_word (read_reg (StoreArgsTemplate.src args) (cpu s) + scast (StoreArgsTemplate.offset args))
               (fregs s (StoreArgsTemplate.data args)) n s)
           else None)
      | Load_fp args \<Rightarrow>
          (if LoadArgsTemplate.operand_type args = kDouble then
             Some (s\<lparr>fregs := (fregs s)(LoadArgsTemplate.dst args :=
                        load64 (mmem (cpu s)) (read_reg (LoadArgsTemplate.src args) (cpu s) +
                          scast (LoadArgsTemplate.offset args))),
                     cpu := advance n (cpu s)\<rparr>)
           else None)
      | _ \<Rightarrow> map_option (\<lambda>m. s\<lparr>cpu := m\<rparr>) (exec_call c n (cpu s)))"

definition step_context :: "fmachine \<Rightarrow> fmachine option" where
  "step_context s =
     (case Decode (mmem (cpu s)) (mpc (cpu s)) of ([c], n) \<Rightarrow> exec_context c n s | _ \<Rightarrow> None)"

primrec run_context :: "nat \<Rightarrow> fmachine \<Rightarrow> fmachine option" where
  "run_context 0 s = Some s"
| "run_context (Suc k) s = Option.bind (step_context s) (run_context k)"

lemma run_context_add: "run_context (m + n) s = Option.bind (run_context m s) (run_context n)"
  by (induction m arbitrary: s) (auto simp: bind_eq_None_conv split: bind_splits)

definition fstate :: "(Register \<Rightarrow> u64) \<Rightarrow> (Register \<Rightarrow> u64) \<Rightarrow> u64 \<Rightarrow> memory \<Rightarrow> fmachine" where
  "fstate r f p m = \<lparr>cpu = \<lparr>regs = r, mpc = p, mmem = m\<rparr>, fregs = f\<rparr>"

lemma fstate_eq: "s = fstate (regs (cpu s)) (fregs s) (mpc (cpu s)) (mmem (cpu s))"
  by (simp add: fstate_def)

lemma fstate_sel:
  "mmem (cpu (fstate r f p m)) = m" "mpc (cpu (fstate r f p m)) = p" "fregs (fstate r f p m) = f"
  by (simp_all add: fstate_def)

section \<open>The instructions\<close>

text \<open>
  Slot \<open>j\<close> is the word at \<open>8 * j\<close> from the stack pointer, member \<open>j - 1\<close> of the context, which is for
  integer register \<open>j\<close> or, from 32 on, for floating-point register \<open>j - 32\<close>.
\<close>

definition slot_store :: "nat \<Rightarrow> consumer_call" where
  "slot_store j =
     (if j < 32 then
        Store \<lparr>StoreArgsTemplate.operand_type = MemoryDataOperandType.k64bit, src = 2, offset = of_nat (8 * j),
          data = of_nat j\<rparr>
      else Store_fp \<lparr>StoreArgsTemplate.operand_type = kDouble, src = 2, offset = of_nat (8 * j),
          data = of_nat (j - 32)\<rparr>)"

definition slot_load :: "nat \<Rightarrow> consumer_call" where
  "slot_load j =
     (if j < 32 then
        Load \<lparr>LoadArgsTemplate.operand_type = LoadOperandType.k64bit, dst = of_nat j, src = 2,
          offset = of_nat (8 * j)\<rparr>
      else Load_fp \<lparr>LoadArgsTemplate.operand_type = kDouble, dst = of_nat (j - 32), src = 2,
          offset = of_nat (8 * j)\<rparr>)"

definition saved_slots :: "nat list" where
  "saved_slots = 1 # [3..<64]"

definition restored_slots :: "nat list" where
  "restored_slots = rev [3..<64] @ [1]"

text \<open>The halfwords of the code.\<close>

lemma slice_of_halfwords:
  "i < length ws \<Longrightarrow> take 2 (drop (2 * i) (concat (map (bytes_of 2) ws))) = bytes_of 2 (ws ! i)"
proof (induction ws arbitrary: i)
  case Nil
  then show ?case by simp
next
  case (Cons w ws)
  then show ?case by (cases i) simp_all
qed

lemma length_kTrampoline: "length kTrampoline = 370"
  by (simp add: kTrampoline_def)

lemma load16_second_code:
  assumes "i < 370"
  shows "load16 second_code (of_nat (2 * i)) = kTrampoline ! i"
proof -
  have "read_bytes second_code (of_nat (2 * i)) 2 = take 2 (drop (2 * i) GetSecondTrampoline)"
  proof (rule nth_equalityI)
    fix k assume "k < length (read_bytes second_code (of_nat (2 * i)) 2)"
    then have k: "k < 2" by simp
    then have "second_code (of_nat (2 * i + k)) = GetSecondTrampoline ! (2 * i + k)"
      using assms by (simp add: second_code_def mem_of_def length_GetSecondTrampoline unat_of_nat_64 del: of_nat_add of_nat_mult)
    then show "read_bytes second_code (of_nat (2 * i)) 2 ! k = take 2 (drop (2 * i) GetSecondTrampoline) ! k"
      using k assms by (simp add: length_GetSecondTrampoline)
  qed (use assms in \<open>simp add: length_GetSecondTrampoline\<close>)
  also have "\<dots> = bytes_of 2 (kTrampoline ! i)"
    using slice_of_halfwords [of i kTrampoline] assms by (simp add: GetSecondTrampoline_def length_kTrampoline)
  finally show ?thesis by (simp add: load16_def word_of_bytes_of)
qed

definition decode_halfword :: "u16 \<Rightarrow> consumer_call list" where
  "decode_halfword w = (if w AND 3 \<noteq> 3 then DecodeCompressedInstruction (ucast w) else [])"

lemma Decode_halfword:
  assumes "i < 370" and "decode_halfword (kTrampoline ! i) = [c]"
  shows "Decode second_code (of_nat (2 * i)) = ([c], 2)"
  using assms(2) load16_second_code [OF assms(1)]
  by (simp add: Decode_def GetInsnSize_def decode_halfword_def split: if_splits)

lemma code_in_two_parts:
  assumes "map f (take m (drop q ws)) = map g (take m js)" and "map f (take n (drop (q + m) ws)) = map g (drop m js)"
  shows "map f (take (m + n) (drop q ws)) = map g js"
proof -
  have "take (m + n) (drop q ws) = take m (drop q ws) @ take n (drop (q + m) ws)" by (simp add: take_add add.commute)
  then have "map f (take (m + n) (drop q ws)) = map g (take m js @ drop m js)" using assms by (simp del: append_take_drop_id)
  then show ?thesis by simp
qed

lemma saving_code_1: "map decode_halfword (take 31 (drop 22 kTrampoline)) = map (\<lambda>j. [slot_store j]) (take 31 saved_slots)"
  by code_simp

lemma saving_code_2: "map decode_halfword (take 31 (drop 53 kTrampoline)) = map (\<lambda>j. [slot_store j]) (drop 31 saved_slots)"
  by code_simp

lemma saving_code: "map decode_halfword (take 62 (drop 22 kTrampoline)) = map (\<lambda>j. [slot_store j]) saved_slots"
  using code_in_two_parts [OF saving_code_1, of 31] saving_code_2 by simp

lemma restoring_code_1:
  "map decode_halfword (take 31 (drop 128 kTrampoline)) = map (\<lambda>j. [slot_load j]) (take 31 restored_slots)"
  by code_simp

lemma restoring_code_2:
  "map decode_halfword (take 31 (drop 159 kTrampoline)) = map (\<lambda>j. [slot_load j]) (drop 31 restored_slots)"
  by code_simp

lemma restoring_code: "map decode_halfword (take 62 (drop 128 kTrampoline)) = map (\<lambda>j. [slot_load j]) restored_slots"
  using code_in_two_parts [OF restoring_code_1, of 31] restoring_code_2 by simp

text \<open>A part of the code that consists of \<open>n\<close> compressed instructions.\<close>

lemma Decode_part:
  assumes "map decode_halfword (take n (drop q kTrampoline)) = map (\<lambda>j. [call j]) js"
    and "length js = n" and "q + n \<le> 370" and "i < n"
  shows "Decode second_code (of_nat (2 * (q + i))) = ([call (js ! i)], 2)"
proof (rule Decode_halfword)
  show "q + i < 370" using assms(3,4) by simp
  have "map decode_halfword (take n (drop q kTrampoline)) ! i = map (\<lambda>j. [call j]) js ! i" using assms(1) by simp
  then show "decode_halfword (kTrampoline ! (q + i)) = [call (js ! i)]"
    using assms(2-4) by (simp add: length_kTrampoline)
qed

lemma boundary_code:
  "Decode second_code 36 =
     ([Store \<lparr>StoreArgsTemplate.operand_type = MemoryDataOperandType.k64bit, src = 2, offset = - 504, data = 2\<rparr>], 4)"
  "Decode second_code 40 =
     ([OpImm \<lparr>OpImmArgsTemplate.opcode = OpImmOpcode.kAddi, dst = 2, src = 2, imm = - 520\<rparr>], 4)"
  "Decode second_code 168 =
     ([Store \<lparr>StoreArgsTemplate.operand_type = MemoryDataOperandType.k64bit, src = 2, offset = 512, data = 0\<rparr>], 4)"
  "Decode second_code 252 =
     ([Load \<lparr>LoadArgsTemplate.operand_type = LoadOperandType.k8bitSigned, dst = 28, src = 2, offset = 512\<rparr>], 4)"
  "Decode second_code 380 = ([slot_load 2], 2)"
  "Decode second_code 382 =
     ([consumer_call.CompareAndBranch \<lparr>BranchArgs.opcode = BranchOpcode.kBne, src1 = 28, src2 = 0, offset = 356\<rparr>], 4)"
  by code_simp+

text \<open>The code runs wherever it was copied to.\<close>

lemma step_at:
  assumes "code_at m tr GetSecondTrampoline" and "k + 4 \<le> 740" and "Decode second_code (of_nat k) = ([c], n)"
  shows "step_context (fstate r f (tr + of_nat k) m) = exec_context c n (fstate r f (tr + of_nat k) m)"
proof -
  have "k + GetInsnSize second_code (of_nat k) \<le> 740" using GetInsnSize_cases [of second_code "of_nat k"] assms(2) by auto
  from Decode_second_code [OF assms(1) this] assms(3) show ?thesis
    by (simp add: step_context_def fstate_def)
qed

definition slot_value :: "(Register \<Rightarrow> u64) \<Rightarrow> (Register \<Rightarrow> u64) \<Rightarrow> nat \<Rightarrow> u64" where
  "slot_value r f j = (if j < 32 then r (of_nat j) else f (of_nat (j - 32)))"

lemma slot_offset:
  assumes "j < 64"
  shows "(scast (of_nat (8 * j) :: u16) :: u64) = of_nat (8 * j)"
proof -
  have "map (\<lambda>j. scast (of_nat (8 * j) :: u16) :: u64) [0..<64] = map (\<lambda>j. of_nat (8 * j)) [0..<64]" by code_simp
  then show ?thesis using assms by (auto simp only: map_eq_conv set_upt atLeastLessThan_iff)
qed

lemma register_number: "j < 32 \<Longrightarrow> (of_nat j :: Register) = 0 \<longleftrightarrow> j = 0"
  using word_of_nat_eq_0_iff [of j, where 'a = 8] by (auto dest: dvd_imp_le)

lemma exec_slots:
  assumes "0 < j" and "j < 64"
  shows "exec_context (slot_store j) n (fstate r f p m) =
      Some (fstate r f (p + of_nat n) (write_bytes m (r 2 + of_nat (8 * j)) (bytes_of 8 (slot_value r f j))))"
    and "exec_context (slot_load j) n (fstate r f p m) =
      (let v = load64 m (r 2 + of_nat (8 * j)) in
       Some (if j < 32 then fstate (r(of_nat j := v)) f (p + of_nat n) m
             else fstate r (f(of_nat (j - 32) := v)) (p + of_nat n) m))"
  using assms register_number [of j] slot_offset [OF assms(2)]
  by (auto simp: exec_context_def slot_store_def slot_load_def fstate_def store_word_def advance_def read_reg_def
      write_reg_def slot_value_def exec_call_def load_value_def Let_def simp del: of_nat_mult)

section \<open>Saving\<close>

primrec store_slots :: "(nat \<Rightarrow> u64) \<Rightarrow> u64 \<Rightarrow> nat list \<Rightarrow> memory \<Rightarrow> memory" where
  "store_slots v sp' [] m = m"
| "store_slots v sp' (j # js) m = store_slots v sp' js (write_bytes m (sp' + of_nat (8 * j)) (bytes_of 8 (v j)))"

lemma load_store_slots:
  assumes "list_all (\<lambda>i. i < 64) js" and "j < 64"
  shows "load64 (store_slots v sp' js m) (sp' + of_nat (8 * j)) =
    (if j \<in> set js then v j else load64 m (sp' + of_nat (8 * j)))"
  using assms(1)
proof (induction js arbitrary: m)
  case Nil
  then show ?case by simp
next
  case (Cons i js)
  have "load64 (write_bytes m (sp' + of_nat (8 * i)) (bytes_of 8 (v i))) (sp' + of_nat (8 * j)) =
      (if i = j then v j else load64 m (sp' + of_nat (8 * j)))"
  proof (cases "i = j")
    case True
    then show ?thesis by (simp add: load64_same)
  next
    case False
    then have "8 * i + 8 \<le> 8 * j \<or> 8 * j + 8 \<le> 8 * i" by linarith
    then have "apart (sp' + of_nat (8 * i)) 8 (sp' + of_nat (8 * j)) 8"
      using Cons.prems assms(2) by (intro apart_distinct_slots) auto
    with False show ?thesis by (simp add: load64_apart del: of_nat_mult)
  qed
  then show ?case using Cons by auto
qed

lemma store_slots_outside:
  assumes "list_all (\<lambda>i. i < 64) js" and "512 \<le> unat (x - sp')"
  shows "store_slots v sp' js m x = m x"
  using assms(1)
proof (induction js arbitrary: m)
  case Nil
  then show ?case by simp
next
  case (Cons i js)
  have i: "8 * i + 8 \<le> 512" using Cons.prems by simp
  then have "unat ((x - sp') - of_nat (8 * i)) = unat (x - sp') - 8 * i" using assms(2)
    by (subst unat_sub) (simp_all add: word_le_nat_alt unat_of_nat_64 del: of_nat_mult)
  moreover have "(x - sp') - of_nat (8 * i) = x - (sp' + of_nat (8 * i))" by simp
  ultimately have "8 \<le> unat (x - (sp' + of_nat (8 * i)))" using i assms(2) by (simp del: of_nat_mult)
  then show ?case using Cons by (simp add: write_bytes_outside del: of_nat_mult)
qed

text \<open>Stores to the stack leave the code alone.\<close>

lemma code_kept:
  assumes "code_at m tr GetSecondTrampoline" and "apart a (length bs) tr 740"
  shows "code_at (write_bytes m a bs) tr GetSecondTrampoline"
  using assms by (simp add: code_at_def read_apart length_GetSecondTrampoline)

lemma code_kept_slot:
  assumes "code_at m tr GetSecondTrampoline" and "apart sp' 520 tr 740" and "j \<le> 64"
  shows "code_at (write_bytes m (sp' + of_nat (8 * j)) (bytes_of 8 v)) tr GetSecondTrampoline"
  using assms by (intro code_kept apart_sub [of sp' 520]) simp_all

lemma code_kept_slots:
  assumes "code_at m tr GetSecondTrampoline" and "apart sp' 520 tr 740" and "list_all (\<lambda>j. j < 64) js"
  shows "code_at (store_slots v sp' js m) tr GetSecondTrampoline"
  using assms(1,3)
proof (induction js arbitrary: m)
  case Nil
  then show ?case by simp
next
  case (Cons j js)
  then have "code_at (write_bytes m (sp' + of_nat (8 * j)) (bytes_of 8 (v j))) tr GetSecondTrampoline"
    by (intro code_kept_slot [OF _ assms(2)]) simp_all
  then show ?case using Cons by simp
qed

lemma run_saving:
  assumes "\<And>i. i < length js \<Longrightarrow> Decode second_code (of_nat (2 * (q + i))) = ([slot_store (js ! i)], 2)"
    and "list_all (\<lambda>j. 0 < j \<and> j < 64) js" and "2 * (q + length js) + 2 \<le> 740"
    and "code_at m tr GetSecondTrampoline" and "apart (r 2) 520 tr 740"
  shows "run_context (length js) (fstate r f (tr + of_nat (2 * q)) m) =
    Some (fstate r f (tr + of_nat (2 * (q + length js))) (store_slots (slot_value r f) (r 2) js m))"
  using assms(1-4)
proof (induction js arbitrary: q m)
  case Nil
  then show ?case by simp
next
  case (Cons j js)
  have decode: "Decode second_code (of_nat (2 * q)) = ([slot_store j], 2)" using Cons.prems(1) [of 0] by simp
  have rest: "Decode second_code (of_nat (2 * (Suc q + i))) = ([slot_store (js ! i)], 2)" if "i < length js" for i
    using Cons.prems(1) [of "Suc i"] that by (simp del: of_nat_mult of_nat_Suc of_nat_add)
  have j: "0 < j" "j < 64" and q: "2 * q + 4 \<le> 740" using Cons.prems(2,3) by simp_all
  let ?m = "write_bytes m (r 2 + of_nat (8 * j)) (bytes_of 8 (slot_value r f j))"
  have pc: "tr + of_nat (2 * q) + of_nat 2 = (tr + of_nat (2 * Suc q) :: u64)" by simp
  have "step_context (fstate r f (tr + of_nat (2 * q)) m) = Some (fstate r f (tr + of_nat (2 * Suc q)) ?m)"
    unfolding step_at [OF Cons.prems(4) q decode] exec_slots(1) [OF j] pc ..
  moreover have "code_at ?m tr GetSecondTrampoline" using j by (intro code_kept_slot [OF Cons.prems(4) assms(5)]) simp
  ultimately show ?case using Cons.IH [of "Suc q" ?m, OF rest] Cons.prems(2,3)
    by (simp del: of_nat_mult of_nat_Suc of_nat_add)
qed

section \<open>Restoring\<close>

primrec load_slots :: "memory \<Rightarrow> u64 \<Rightarrow> nat list \<Rightarrow> (Register \<Rightarrow> u64) \<times> (Register \<Rightarrow> u64) \<Rightarrow>
    (Register \<Rightarrow> u64) \<times> (Register \<Rightarrow> u64)" where
  "load_slots m sp' [] rf = rf"
| "load_slots m sp' (j # js) rf =
     (let v = load64 m (sp' + of_nat (8 * j)) in
      load_slots m sp' js (if j < 32 then ((fst rf)(of_nat j := v), snd rf) else (fst rf, (snd rf)(of_nat (j - 32) := v))))"

lemma load_slots_values:
  assumes "list_all (\<lambda>j. j < 64) js"
  shows "load_slots m sp' js rf =
    ((\<lambda>x. if unat x \<in> set js \<and> unat x < 32 then load64 m (sp' + of_nat (8 * unat x)) else fst rf x),
     (\<lambda>x. if unat x + 32 \<in> set js then load64 m (sp' + of_nat (8 * (unat x + 32))) else snd rf x))"
  using assms
proof (induction js arbitrary: rf)
  case Nil
  then show ?case by simp
next
  case (Cons j js)
  have number: "x = of_nat k \<longleftrightarrow> unat x = k" if "k < 64" for x :: Register and k
    using that by (auto simp: unat_of_nat)
  show ?case
  proof (cases "j < 32")
    case True
    with Cons.IH Cons.prems number [of j] show ?thesis by (auto simp: Let_def fun_eq_iff simp del: of_nat_mult)
  next
    case False
    define k where "k = j - 32"
    then have "j = k + 32" "k < 32" using False Cons.prems by auto
    with Cons.IH Cons.prems number [of k] show ?thesis
      by (auto simp: Let_def fun_eq_iff simp del: of_nat_mult of_nat_add)
  qed
qed

lemma run_restoring:
  assumes "\<And>i. i < length js \<Longrightarrow> Decode second_code (of_nat (2 * (q + i))) = ([slot_load (js ! i)], 2)"
    and "list_all (\<lambda>j. 0 < j \<and> j < 64 \<and> j \<noteq> 2) js" and "2 * (q + length js) + 2 \<le> 740"
    and "code_at m tr GetSecondTrampoline" and "r 2 = sp'"
  shows "run_context (length js) (fstate r f (tr + of_nat (2 * q)) m) =
    Some (case load_slots m sp' js (r, f) of (r', f') \<Rightarrow> fstate r' f' (tr + of_nat (2 * (q + length js))) m)"
  using assms(1-3,5)
proof (induction js arbitrary: q r f)
  case Nil
  then show ?case by simp
next
  case (Cons j js)
  have decode: "Decode second_code (of_nat (2 * q)) = ([slot_load j], 2)" using Cons.prems(1) [of 0] by simp
  have rest: "Decode second_code (of_nat (2 * (Suc q + i))) = ([slot_load (js ! i)], 2)" if "i < length js" for i
    using Cons.prems(1) [of "Suc i"] that by (simp del: of_nat_mult of_nat_Suc of_nat_add)
  have j: "0 < j" "j < 64" "j \<noteq> 2" and q: "2 * q + 4 \<le> 740" using Cons.prems(2,3) by simp_all
  have sp: "(2 :: Register) = of_nat j \<longleftrightarrow> False"
  proof
    assume "(2 :: Register) = of_nat j"
    then have "unat (2 :: Register) = unat (of_nat j :: Register)" by simp
    then show False using j by (simp add: unat_of_nat)
  qed simp
  let ?v = "load64 m (sp' + of_nat (8 * j))"
  define r1 where "r1 = (if j < 32 then r(of_nat j := ?v) else r)"
  define f1 where "f1 = (if j < 32 then f else f(of_nat (j - 32) := ?v))"
  have pc: "tr + of_nat (2 * q) + of_nat 2 = (tr + of_nat (2 * Suc q) :: u64)" by simp
  have "step_context (fstate r f (tr + of_nat (2 * q)) m) = Some (fstate r1 f1 (tr + of_nat (2 * Suc q)) m)"
    unfolding step_at [OF assms(4) q decode] exec_slots(2) [OF j(1,2)] pc Let_def Cons.prems(4)
    by (simp add: r1_def f1_def)
  moreover have "r1 2 = sp'" using Cons.prems(4) sp by (simp add: r1_def)
  moreover have "load_slots m sp' (j # js) (r, f) = load_slots m sp' js (r1, f1)" by (simp add: r1_def f1_def Let_def)
  ultimately show ?case using Cons.IH [of "Suc q" r1 f1, OF rest] Cons.prems(2,3)
    by (simp del: of_nat_mult of_nat_Suc of_nat_add load_slots.simps)
qed

section \<open>The names of the registers\<close>

text \<open>The numbers of the registers by their names in the binary interface, after its specification.\<close>

definition abi_gprs :: "(string \<times> nat) list" where
  "abi_gprs =
    [(''ra'', 1), (''sp'', 2), (''gp'', 3), (''tp'', 4), (''t0'', 5), (''t1'', 6), (''t2'', 7),
     (''s0'', 8), (''s1'', 9), (''a0'', 10), (''a1'', 11), (''a2'', 12), (''a3'', 13), (''a4'', 14),
     (''a5'', 15), (''a6'', 16), (''a7'', 17), (''s2'', 18), (''s3'', 19), (''s4'', 20), (''s5'', 21),
     (''s6'', 22), (''s7'', 23), (''s8'', 24), (''s9'', 25), (''s10'', 26), (''s11'', 27), (''t3'', 28),
     (''t4'', 29), (''t5'', 30), (''t6'', 31)]"

definition abi_fprs :: "(string \<times> nat) list" where
  "abi_fprs =
    [(''ft0'', 0), (''ft1'', 1), (''ft2'', 2), (''ft3'', 3), (''ft4'', 4), (''ft5'', 5), (''ft6'', 6),
     (''ft7'', 7), (''fs0'', 8), (''fs1'', 9), (''fa0'', 10), (''fa1'', 11), (''fa2'', 12),
     (''fa3'', 13), (''fa4'', 14), (''fa5'', 15), (''fa6'', 16), (''fa7'', 17), (''fs2'', 18),
     (''fs3'', 19), (''fs4'', 20), (''fs5'', 21), (''fs6'', 22), (''fs7'', 23), (''fs8'', 24),
     (''fs9'', 25), (''fs10'', 26), (''fs11'', 27), (''ft8'', 28), (''ft9'', 29), (''ft10'', 30),
     (''ft11'', 31)]"

lemma abi_members:
  "list_all (\<lambda>(name, i). 0 < i \<and> i < 32 \<and> register_members ! (i - 1) = name) abi_gprs"
  "list_all (\<lambda>(name, i). i < 32 \<and> register_members ! (i + 31) = name) abi_fprs"
  by code_simp+

lemma all_gprs: "(\<And>k. k < 31 \<Longrightarrow> P (register_members ! k) (k + 1)) \<Longrightarrow> \<forall>(name, i) \<in> set abi_gprs. P name i"
proof safe
  fix name i
  assume P: "\<And>k. k < 31 \<Longrightarrow> P (register_members ! k) (k + 1)" and mem: "(name, i) \<in> set abi_gprs"
  then have "0 < i" "i < 32" "register_members ! (i - 1) = name" using abi_members(1) by (auto simp: list_all_iff)
  then show "P name i" using P [of "i - 1"] by simp
qed

lemma all_fprs: "(\<And>k. k < 32 \<Longrightarrow> P (register_members ! (k + 31)) k) \<Longrightarrow> \<forall>(name, i) \<in> set abi_fprs. P name i"
proof safe
  fix name i
  assume P: "\<And>k. k < 32 \<Longrightarrow> P (register_members ! (k + 31)) k" and mem: "(name, i) \<in> set abi_fprs"
  then have "i < 32" "register_members ! (i + 31) = name" using abi_members(2) by (auto simp: list_all_iff)
  then show "P name i" using P [of i] by simp
qed

section \<open>Around the handlers\<close>

lemma slot_members:
  assumes "k < 63"
  shows "member_at ctx (register_members ! k) = (ctx - 8) + of_nat (8 * (k + 1))"
proof -
  have "map (\<lambda>k. offsetof (register_members ! k)) [0..<63] = map (\<lambda>k. 8 * k) [0..<63]" by code_simp
  then have "offsetof (register_members ! k) = 8 * k"
    using assms by (auto simp only: map_eq_conv set_upt atLeastLessThan_iff)
  then show ?thesis by (simp add: member_at_def)
qed

lemma member_values:
  "k < 63 \<Longrightarrow> member_value m ctx (register_members ! k) = load64 m ((ctx - 8) + of_nat (8 * (k + 1)))"
  unfolding member_value_def by (simp only: slot_members)

lemma boundary_offsets:
  "(scast (- 504 :: u16) :: u64) = - 504" "(scast (- 520 :: u16) :: u64) = - 520"
  "(scast (512 :: u16) :: u64) = 512" "(scast (356 :: u16) :: u64) = 356"
  by code_simp+

lemma exec_boundaries:
  "exec_context (Store \<lparr>StoreArgsTemplate.operand_type = MemoryDataOperandType.k64bit, src = 2, offset = - 504, data = 2\<rparr>)
     n (fstate r f p m) = Some (fstate r f (p + of_nat n) (write_bytes m (r 2 - 504) (bytes_of 8 (r 2))))"
  "exec_context (OpImm \<lparr>OpImmArgsTemplate.opcode = OpImmOpcode.kAddi, dst = 2, src = 2, imm = - 520\<rparr>)
     n (fstate r f p m) = Some (fstate (r(2 := r 2 - 520)) f (p + of_nat n) m)"
  "exec_context (Store \<lparr>StoreArgsTemplate.operand_type = MemoryDataOperandType.k64bit, src = 2, offset = 512, data = 0\<rparr>)
     n (fstate r f p m) = Some (fstate r f (p + of_nat n) (write_bytes m (r 2 + 512) (bytes_of 8 (0 :: u64))))"
  "exec_context (Load \<lparr>LoadArgsTemplate.operand_type = LoadOperandType.k8bitSigned, dst = 28, src = 2, offset = 512\<rparr>)
     n (fstate r f p m) = Some (fstate (r(28 := scast (m (r 2 + 512)))) f (p + of_nat n) m)"
  "exec_context (consumer_call.CompareAndBranch
       \<lparr>BranchArgs.opcode = BranchOpcode.kBne, src1 = 28, src2 = 0, offset = 356\<rparr>) n (fstate r f p m) =
     Some (fstate r f (if r 28 = 0 then p + of_nat n else p + 356) m)"
  by (simp_all add: exec_context_def fstate_def store_word_def advance_def read_reg_def write_reg_def exec_call_def
      load_value_def branch_taken_def boundary_offsets)

lemma slots_ok:
  "list_all (\<lambda>j. 0 < j \<and> j < 64) saved_slots" "list_all (\<lambda>j. j < 64) saved_slots"
  "list_all (\<lambda>j. 0 < j \<and> j < 64 \<and> j \<noteq> 2) restored_slots" "list_all (\<lambda>j. j < 64) restored_slots"
  "length saved_slots = 62" "length restored_slots = 62"
  by code_simp+

lemma slot_sets: "set saved_slots = insert 1 {3..<64}" "set restored_slots = insert 1 {3..<64}"
  unfolding saved_slots_def restored_slots_def
  by (simp_all only: list.set set_append set_rev set_upt Un_insert_right Un_empty_right)

text \<open>The memory after the registers were saved, \<open>sp'\<close> being the new stack pointer.\<close>

definition saved_memory :: "(Register \<Rightarrow> u64) \<Rightarrow> (Register \<Rightarrow> u64) \<Rightarrow> memory \<Rightarrow> memory" where
  "saved_memory r f m =
     (let sp' = r 2 - 520 in
      write_bytes (store_slots (slot_value (r(2 := sp')) f) sp' saved_slots
        (write_bytes m (r 2 - 504) (bytes_of 8 (r 2)))) (sp' + 512) (bytes_of 8 (0 :: u64)))"

lemma run_sregs:
  assumes "code_at m tr GetSecondTrampoline" and "apart (r 2 - 520) 520 tr 740"
  shows "run_context 65 (fstate r f (tr + 36) m) =
    Some (fstate (r(2 := r 2 - 520)) f (tr + 172) (saved_memory r f m))"
proof -
  let ?sp = "r 2 - 520" and ?m1 = "write_bytes m (r 2 - 504) (bytes_of 8 (r 2))"
  let ?r = "r(2 := ?sp)"
  let ?m2 = "store_slots (slot_value ?r f) ?sp saved_slots ?m1"
  have sp16: "r 2 - 504 = ?sp + of_nat (8 * 2)" by simp
  have code1: "code_at ?m1 tr GetSecondTrampoline"
    unfolding sp16 by (rule code_kept_slot [OF assms]) simp
  have "step_context (fstate r f (tr + 36) m) = Some (fstate r f (tr + 40) ?m1)"
    using step_at [OF assms(1), of 36] boundary_code(1) exec_boundaries(1) by (simp add: ac_simps)
  moreover have "step_context (fstate r f (tr + 40) ?m1) = Some (fstate ?r f (tr + 44) ?m1)"
    using step_at [OF code1, of 40] boundary_code(2) exec_boundaries(2) by (simp add: ac_simps)
  ultimately have first: "run_context 2 (fstate r f (tr + 36) m) = Some (fstate ?r f (tr + 44) ?m1)"
    by (simp add: numeral_2_eq_2)
  have second: "run_context 62 (fstate ?r f (tr + 44) ?m1) = Some (fstate ?r f (tr + 168) ?m2)"
    using run_saving [of saved_slots 22 ?m1 tr ?r f] Decode_part [OF saving_code] slots_ok(1,5) code1 assms(2)
    by simp
  have third: "step_context (fstate ?r f (tr + 168) ?m2) = Some (fstate ?r f (tr + 172) (saved_memory r f m))"
    using step_at [OF code_kept_slots [OF code1 assms(2) slots_ok(2)], of 168] boundary_code(3) exec_boundaries(3)
    by (simp add: saved_memory_def Let_def ac_simps)
  have "run_context (2 + (62 + 1)) (fstate r f (tr + 36) m) =
      Some (fstate ?r f (tr + 172) (saved_memory r f m))"
    unfolding run_context_add first by (simp add: second third)
  then show ?thesis by simp
qed

lemma slot_value_register:
  "k < 31 \<Longrightarrow> k \<noteq> 1 \<Longrightarrow> slot_value (r(2 := v)) f (k + 1) = r (of_nat (k + 1))"
  "k < 32 \<Longrightarrow> slot_value (r(2 := v)) f (k + 32) = f (of_nat k)"
proof -
  assume k: "k < 31" "k \<noteq> 1"
  have "(of_nat (k + 1) :: Register) \<noteq> 2"
  proof
    assume "(of_nat (k + 1) :: Register) = 2"
    then have "unat (of_nat (k + 1) :: Register) = unat (2 :: Register)" by (simp only:)
    then show False using k by (simp add: unat_of_nat del: of_nat_add of_nat_Suc)
  qed
  then show "slot_value (r(2 := v)) f (k + 1) = r (of_nat (k + 1))" using k(1)
    by (simp add: slot_value_def del: of_nat_add of_nat_Suc)
qed (simp add: slot_value_def)

lemma load_saved_memory:
  assumes "0 < j" and "j < 64"
  shows "load64 (saved_memory r f m) (r 2 - 520 + of_nat (8 * j)) =
    (if j = 2 then r 2 else slot_value (r(2 := r 2 - 520)) f j)"
proof -
  let ?sp = "r 2 - 520"
  have "apart (?sp + of_nat 512) 8 (?sp + of_nat (8 * j)) 8" using assms(2) by (intro apart_distinct_slots) simp_all
  then have "load64 (saved_memory r f m) (?sp + of_nat (8 * j)) =
      load64 (store_slots (slot_value (r(2 := ?sp)) f) ?sp saved_slots (write_bytes m (r 2 - 504) (bytes_of 8 (r 2))))
        (?sp + of_nat (8 * j))"
    by (simp add: saved_memory_def Let_def load64_apart del: of_nat_mult)
  also have "\<dots> = (if j \<in> set saved_slots then slot_value (r(2 := ?sp)) f j
      else load64 (write_bytes m (r 2 - 504) (bytes_of 8 (r 2))) (?sp + of_nat (8 * j)))"
    by (rule load_store_slots [OF slots_ok(2) assms(2)])
  also have "\<dots> = (if j = 2 then r 2 else slot_value (r(2 := ?sp)) f j)"
  proof (cases "j = 2")
    case True
    have "load64 (write_bytes m (r 2 - 504) (bytes_of 8 (r 2))) (r 2 - 504) = r 2" by (rule load64_same)
    with True show ?thesis by (simp add: slot_sets)
  next
    case False
    with assms have "j \<in> set saved_slots" by (auto simp: slot_sets)
    with False show ?thesis by simp
  qed
  finally show ?thesis .
qed

lemma saved_memory_outside:
  assumes "520 \<le> unat (x - (r 2 - 520))"
  shows "saved_memory r f m x = m x"
proof -
  let ?sp = "r 2 - 520"
  have away: "8 \<le> unat (x - (?sp + of_nat k))" if "k \<le> 512" for k
  proof -
    have "unat ((x - ?sp) - of_nat k) = unat (x - ?sp) - k" using assms that
      by (subst unat_sub) (simp_all add: word_le_nat_alt unat_of_nat_64)
    moreover have "(x - ?sp) - of_nat k = x - (?sp + of_nat k)" by simp
    ultimately show ?thesis using assms that by simp
  qed
  have "saved_memory r f m x = write_bytes m (r 2 - 504) (bytes_of 8 (r 2)) x"
    using away [of 512] assms store_slots_outside [OF slots_ok(2), of x ?sp]
    by (simp add: saved_memory_def Let_def write_bytes_outside)
  also have "\<dots> = m x" using away [of 16] by (intro write_bytes_outside) simp
  finally show ?thesis .
qed

text \<open>The members of the context are the registers of their names.\<close>

lemma saved_members:
  assumes "r = regs c"
  shows "\<forall>(name, i) \<in> set abi_gprs. member_value (saved_memory r f m) (r 2 - 512) name = read_reg (of_nat i) c"
    and "\<forall>(name, i) \<in> set abi_fprs. member_value (saved_memory r f m) (r 2 - 512) name = f (of_nat i)"
proof -
  have sp: "r 2 - 512 - 8 = r 2 - 520" by simp
  have held: "member_value (saved_memory r f m) (r 2 - 512) (register_members ! k) =
      (if k = 1 then r 2 else slot_value (r(2 := r 2 - 520)) f (k + 1))" if "k < 63" for k
    using load_saved_memory [of "k + 1" r f m] that unfolding member_values [OF that] sp
    by (simp del: of_nat_mult of_nat_add of_nat_Suc)
  show "\<forall>(name, i) \<in> set abi_gprs. member_value (saved_memory r f m) (r 2 - 512) name = read_reg (of_nat i) c"
  proof (rule all_gprs)
    fix k :: nat assume k: "k < 31"
    show "member_value (saved_memory r f m) (r 2 - 512) (register_members ! k) = read_reg (of_nat (k + 1)) c"
    proof (cases "k = 1")
      case True
      then show ?thesis using held [of k] assms by (simp add: read_reg_def)
    next
      case False
      then show ?thesis using held [of k] k slot_value_register(1) [OF k False] register_number [of "k + 1"] assms
        by (simp add: read_reg_def del: of_nat_add of_nat_Suc)
    qed
  qed
  show "\<forall>(name, i) \<in> set abi_fprs. member_value (saved_memory r f m) (r 2 - 512) name = f (of_nat i)"
  proof (rule all_fprs)
    fix k :: nat assume k: "k < 32"
    then show "member_value (saved_memory r f m) (r 2 - 512) (register_members ! (k + 31)) = f (of_nat k)"
      using held [of "k + 31"] slot_value_register(2) [OF k, of r] by (simp add: add.commute)
  qed
qed

text \<open>
  C23: What the register handlers see. The second trampoline, from the point where it has found that
  there is no hook function, builds the context below the stack pointer: after 65 instructions every
  member of \<open>RegisterContext\<close> holds the register of its name, as the header declares it, \<open>return_early_\<close>
  is false, no other register has changed, and no memory outside the 520 bytes it takes from the stack.
\<close>

theorem handlers_see_registers:
  assumes "code_at (mmem (cpu s)) tr GetSecondTrampoline" and "mpc (cpu s) = tr + 36"
    and "apart (read_reg 2 (cpu s) - 520) 520 tr 740"
  shows "\<exists>s' ctx m. run_context 65 s = Some s' \<and> mpc (cpu s') = tr + 172 \<and> m = mmem (cpu s') \<and>
    ctx = read_reg 2 (cpu s) - 512 \<and> read_reg 2 (cpu s') = ctx - 8 \<and>
    (\<forall>x. x \<noteq> 2 \<longrightarrow> read_reg x (cpu s') = read_reg x (cpu s)) \<and> fregs s' = fregs s \<and>
    (\<forall>(name, i) \<in> set abi_gprs. member_value m ctx name = read_reg (of_nat i) (cpu s)) \<and>
    (\<forall>(name, i) \<in> set abi_fprs. member_value m ctx name = fregs s (of_nat i)) \<and>
    \<not> IsReturned m ctx \<and> (\<forall>x. 520 \<le> unat (x - (ctx - 8)) \<longrightarrow> m x = mmem (cpu s) x)"
proof -
  define r where "r = regs (cpu s)"
  define f where "f = fregs s"
  let ?m = "saved_memory r f (mmem (cpu s))" and ?s' = "fstate (r(2 := r 2 - 520)) f (tr + 172) (saved_memory r f (mmem (cpu s)))"
  have s: "s = fstate r f (tr + 36) (mmem (cpu s))" using fstate_eq [of s] assms(2) by (simp add: r_def f_def)
  have r: "read_reg x (cpu s) = (if x = 0 then 0 else r x)" for x by (simp add: read_reg_def r_def)
  have run: "run_context 65 s = Some ?s'"
    using run_sregs [OF assms(1), of r f] assms(3) s r by simp
  have sp: "r 2 - 512 - 8 = r 2 - 520" by simp
  note saved_members [of r "cpu s" f "mmem (cpu s)", OF r_def]
  moreover have "\<not> IsReturned ?m (r 2 - 512)"
    by (simp add: IsReturned_def offsets saved_memory_def Let_def write_bytes_def)
  moreover have "?m x = mmem (cpu s) x" if "520 \<le> unat (x - (r 2 - 512 - 8))" for x
    using saved_memory_outside that unfolding sp by blast
  moreover have "read_reg 2 (cpu ?s') = r 2 - 512 - 8" "fregs ?s' = fregs s" "mmem (cpu ?s') = ?m" "mpc (cpu ?s') = tr + 172"
    "read_reg 2 (cpu s) = r 2"
    by (simp_all add: fstate_def read_reg_def f_def r_def)
  moreover have "read_reg x (cpu ?s') = read_reg x (cpu s)" if "x \<noteq> 2" for x
    using that by (simp add: fstate_def read_reg_def r_def)
  ultimately show ?thesis unfolding f_def [symmetric]
    by (intro exI [of _ ?s'] exI [of _ "r 2 - 512"] exI [of _ ?m]) (simp add: run)
qed

definition example_fmachine :: "u64 \<Rightarrow> u8 \<Rightarrow> fmachine" where
  "example_fmachine p flag =
     \<lparr>cpu = \<lparr>regs = (\<lambda>x. if x = 2 then 0x80000 else if x = 28 then 0 else ucast x), mpc = p,
        mmem = (\<lambda>x. if x = 0x80200 then flag else mem_of 0x10000 GetSecondTrampoline x)\<rparr>,
      fregs = (\<lambda>x. ucast x)\<rparr>"

lemma example_fmachine_code: "code_at (mmem (cpu (example_fmachine p flag))) 0x10000 GetSecondTrampoline"
proof -
  have "code_at (mem_of 0x10000 GetSecondTrampoline) 0x10000 GetSecondTrampoline"
    by (rule code_at_mem_of) (simp add: length_GetSecondTrampoline)
  then have "code_at (write_bytes (mem_of 0x10000 GetSecondTrampoline) 0x80200 [flag]) 0x10000 GetSecondTrampoline"
    by (rule code_kept) (simp add: apart_def)
  moreover have "write_bytes m a [b] = (\<lambda>x. if x = a then b else m x)" for m a and b :: u8
    by (auto simp: write_bytes_def fun_eq_iff unat_eq_0)
  ultimately show ?thesis by (simp add: example_fmachine_def)
qed

theorem handlers_see_registers_witness:
  "\<exists>s' ctx. run_context 65 (example_fmachine 0x10024 0) = Some s' \<and> ctx = 0x7FE00 \<and>
     member_value (mmem (cpu s')) ctx ''a0'' = 10 \<and> member_value (mmem (cpu s')) ctx ''fa1'' = 11"
proof -
  let ?s = "example_fmachine 0x10024 0"
  have sp: "read_reg 2 (cpu ?s) = 0x80000" and entry: "mpc (cpu ?s) = 0x10000 + 36"
    and regs_at: "read_reg (of_nat 10) (cpu ?s) = 10" "fregs ?s (of_nat 11) = 11"
    by (simp_all add: example_fmachine_def read_reg_def)
  have "apart (read_reg 2 (cpu ?s) - 520) 520 0x10000 740" by (simp add: sp apart_def)
  from handlers_see_registers [OF example_fmachine_code entry this] obtain s' ctx m where
    run: "run_context 65 ?s = Some s'" and m: "m = mmem (cpu s')" and ctx: "ctx = read_reg 2 (cpu ?s) - 512"
    and held: "\<forall>(name, i) \<in> set abi_gprs. member_value m ctx name = read_reg (of_nat i) (cpu ?s)"
      "\<forall>(name, i) \<in> set abi_fprs. member_value m ctx name = fregs ?s (of_nat i)" by blast
  have "(''a0'', 10) \<in> set abi_gprs" "(''fa1'', 11) \<in> set abi_fprs" by (simp_all add: abi_gprs_def abi_fprs_def)
  then have "member_value m ctx ''a0'' = 10" "member_value m ctx ''fa1'' = 11"
    using held regs_at by fastforce+
  moreover have "ctx = 0x7FE00" by (simp add: ctx sp)
  ultimately show ?thesis using run m by blast
qed

section \<open>After the handlers\<close>

text \<open>The registers after \<open>pregs\<close>, from the words above the stack pointer \<open>sp'\<close>.\<close>

lemma run_pregs:
  assumes "code_at m tr GetSecondTrampoline"
  shows "\<exists>r' f'. run_context 65 (fstate r f (tr + 252) m) =
      Some (fstate r' f' (tr + (if load64 m (r 2 + 224) = 0 then 386 else 738)) m) \<and>
    (\<forall>j. 0 < j \<and> j < 32 \<longrightarrow> r' (of_nat j) = load64 m (r 2 + of_nat (8 * j))) \<and>
    (\<forall>j < 32. f' (of_nat j) = load64 m (r 2 + of_nat (8 * (j + 32))))"
proof -
  define sp' where "sp' = r 2"
  define r1 where "r1 = r(28 := scast (m (sp' + 512)))"
  have r1: "r1 2 = sp'" by (simp add: r1_def sp'_def)
  define r2 where "r2 = fst (load_slots m sp' restored_slots (r1, f))"
  define f2 where "f2 = snd (load_slots m sp' restored_slots (r1, f))"
  note loaded = load_slots_values [OF slots_ok(4), of m sp' "(r1, f)"]
  have r2: "r2 x = (if unat x \<in> set restored_slots \<and> unat x < 32 then load64 m (sp' + of_nat (8 * unat x)) else r1 x)" for x
    unfolding r2_def loaded by simp
  have f2: "f2 x = (if unat x + 32 \<in> set restored_slots then load64 m (sp' + of_nat (8 * (unat x + 32))) else f x)" for x
    unfolding f2_def loaded by simp
  have r22: "r2 2 = sp'" unfolding r2 by (simp add: slot_sets r1)
  let ?r = "r2(2 := load64 m (sp' + 16))"
  have flag: "step_context (fstate r f (tr + 252) m) = Some (fstate r1 f (tr + 256) m)"
    using step_at [OF assms, of 252] boundary_code(4) exec_boundaries(4) by (simp add: r1_def sp'_def ac_simps)
  have loads: "run_context 62 (fstate r1 f (tr + 256) m) = Some (fstate r2 f2 (tr + 380) m)"
    using run_restoring [of restored_slots 128 m tr r1 sp' f] Decode_part [OF restoring_code] slots_ok(3,6) assms r1
    by (simp add: r2_def f2_def split_beta)
  have "exec_context (slot_load 2) 2 (fstate r2 f2 (tr + 380) m) = Some (fstate ?r f2 (tr + 382) m)"
    using exec_slots(2) [of 2 2 r2 f2 "tr + 380" m] by (simp add: r22 ac_simps)
  then have last: "step_context (fstate r2 f2 (tr + 380) m) = Some (fstate ?r f2 (tr + 382) m)"
    using step_at [OF assms, of 380] boundary_code(5) by simp
  have "?r 28 = load64 m (sp' + 224)" using r2 [of 28] by (simp add: slot_sets)
  then have branch: "step_context (fstate ?r f2 (tr + 382) m) =
      Some (fstate ?r f2 (tr + (if load64 m (sp' + 224) = 0 then 386 else 738)) m)"
    using step_at [OF assms, of 382] boundary_code(6) exec_boundaries(5) by (simp add: ac_simps)
  have run: "run_context (1 + (62 + (1 + 1))) (fstate r f (tr + 252) m) =
      Some (fstate ?r f2 (tr + (if load64 m (sp' + 224) = 0 then 386 else 738)) m)"
    unfolding run_context_add by (simp add: flag loads last branch)
  have unat: "unat (of_nat j :: Register) = j" if "j < 32" for j using that by (simp add: unat_of_nat)
  have "?r (of_nat j) = load64 m (sp' + of_nat (8 * j))" if "0 < j" "j < 32" for j
  proof (cases "j = 2")
    case True
    then show ?thesis by simp
  next
    case False
    then have "(of_nat j :: Register) \<noteq> 2" "j \<in> set restored_slots"
      using that unat [OF that(2)] by (auto simp: slot_sets)
    then show ?thesis using r2 [of "of_nat j"] unat [OF that(2)] that(2) by simp
  qed
  moreover have "f2 (of_nat j) = load64 m (sp' + of_nat (8 * (j + 32)))" if "j < 32" for j
    using f2 [of "of_nat j"] unat [OF that] that by (simp add: slot_sets)
  ultimately show ?thesis using run unfolding sp'_def [symmetric]
    by (intro exI [of _ ?r] exI [of _ f2]) simp
qed

text \<open>
  C24: What the handlers leave in the context is what the function is called with, but the flag of
  \<open>ReturnValue\<close> and \<open>ReturnVoid\<close> has no effect. After the handlers the code loads \<open>return_early_\<close> into
  \<open>t3\<close>, then every register from its member, \<open>t3\<close> included, and only then tests \<open>t3\<close>: it returns to
  the caller exactly when the member \<open>t3\<close> is not zero, whatever the flag is. The trampoline saves zero
  there, so that the function is always called.
\<close>

theorem return_early_has_no_effect:
  assumes "code_at (mmem (cpu s)) tr GetSecondTrampoline" and "mpc (cpu s) = tr + 252"
    and "m = mmem (cpu s)" and "ctx = read_reg 2 (cpu s) + 8"
  shows "\<exists>s'. run_context 65 s = Some s' \<and> mmem (cpu s') = m \<and>
    (\<forall>(name, i) \<in> set abi_gprs. read_reg (of_nat i) (cpu s') = member_value m ctx name) \<and>
    (\<forall>(name, i) \<in> set abi_fprs. fregs s' (of_nat i) = member_value m ctx name) \<and>
    mpc (cpu s') = tr + (if member_value m ctx ''t3'' = 0 then 386 else 738)"
proof -
  let ?r = "regs (cpu s)" and ?f = "fregs s"
  have s: "s = fstate ?r ?f (tr + 252) m" using fstate_eq [of s] assms(2,3) by simp
  have sp: "ctx - 8 = ?r 2" using assms(4) by (simp add: read_reg_def)
  obtain r' f' where run: "run_context 65 s =
      Some (fstate r' f' (tr + (if load64 m (?r 2 + 224) = 0 then 386 else 738)) m)"
    and r': "\<And>j. 0 < j \<Longrightarrow> j < 32 \<Longrightarrow> r' (of_nat j) = load64 m (?r 2 + of_nat (8 * j))"
    and f': "\<And>j. j < 32 \<Longrightarrow> f' (of_nat j) = load64 m (?r 2 + of_nat (8 * (j + 32)))"
    using run_pregs [of m tr ?r ?f] assms(1,3) s by auto
  have t3: "register_members ! 27 = ''t3''" by code_simp
  have "member_value m ctx ''t3'' = load64 m (?r 2 + 224)"
    using member_values [of 27 m ctx] unfolding t3 sp by simp
  moreover have "\<forall>(name, i) \<in> set abi_gprs. read_reg (of_nat i) (cpu (fstate r' f' p m)) = member_value m ctx name" for p
  proof (rule all_gprs)
    fix k :: nat assume that: "k < 31"
    then show "read_reg (of_nat (k + 1)) (cpu (fstate r' f' p m)) = member_value m ctx (register_members ! k)"
    using member_values [of k m ctx] r' [of "k + 1"] that register_number [of "k + 1"] unfolding sp
    by (simp add: fstate_def read_reg_def del: of_nat_add of_nat_Suc of_nat_mult)
  qed
  moreover have "\<forall>(name, i) \<in> set abi_fprs. f' (of_nat i) = member_value m ctx name"
  proof (rule all_fprs)
    fix k :: nat assume that: "k < 32"
    then show "f' (of_nat k) = member_value m ctx (register_members ! (k + 31))"
      using member_values [of "k + 31" m ctx] f' [OF that] unfolding sp by (simp add: add.commute)
  qed
  moreover from run calculation(1) have
    "run_context 65 s = Some (fstate r' f' (tr + (if member_value m ctx ''t3'' = 0 then 386 else 738)) m)" by simp
  ultimately show ?thesis by (intro exI conjI) (assumption | simp add: fstate_sel)+
qed

theorem return_early_has_no_effect_witness:
  "IsReturned (mmem (cpu (example_fmachine 0x100FC 1))) 0x80008 \<and>
   (\<exists>s'. run_context 65 (example_fmachine 0x100FC 1) = Some s' \<and> mpc (cpu s') = 0x10000 + 386)"
proof -
  let ?s = "example_fmachine 0x100FC 1"
  have "IsReturned (mmem (cpu ?s)) 0x80008" by (simp add: IsReturned_def offsets example_fmachine_def)
  moreover have "member_value (mmem (cpu ?s)) 0x80008 ''t3'' = 0"
  proof -
    have "offsetof ''t3'' = 216" by code_simp
    moreover have "load64 (mmem (cpu ?s)) 0x800E0 = 0"
    proof -
      have "mmem (cpu ?s) (0x800E0 + of_nat i) = 0" if "i < 8" for i
      proof -
        have "unat (0x800E0 + of_nat i :: u64) = 0x800E0 + i" "unat (0x700E0 + of_nat i :: u64) = 0x700E0 + i"
          using that unat_add_of_nat [of "0x800E0" i] unat_add_of_nat [of "0x700E0" i] by simp_all
        moreover have "(0x800E0 + of_nat i - 0x10000 :: u64) = 0x700E0 + of_nat i" by simp
        moreover have "unat (0x80200 :: u64) = 0x80200" by simp
        ultimately show ?thesis using that
          by (auto simp: example_fmachine_def mem_of_def length_GetSecondTrampoline)
      qed
      then have "read_bytes (mmem (cpu ?s)) 0x800E0 8 = replicate 8 0" by (intro nth_equalityI) simp_all
      moreover have "(word_of_bytes (replicate 8 0) :: u64) = 0" by code_simp
      ultimately show ?thesis by (simp add: load64_def)
    qed
    ultimately show ?thesis by (simp add: member_value_def member_at_def)
  qed
  moreover have entry: "mpc (cpu ?s) = 0x10000 + 252" and sp: "0x80008 = read_reg 2 (cpu ?s) + 8"
    by (simp_all add: example_fmachine_def read_reg_def)
  moreover obtain s' where "run_context 65 ?s = Some s'"
    and "mpc (cpu s') = 0x10000 + (if member_value (mmem (cpu ?s)) 0x80008 ''t3'' = 0 then 386 else 738)"
    using return_early_has_no_effect [OF example_fmachine_code entry refl sp] by blast
  ultimately show ?thesis by simp
qed

end
