(* ===== verification/Spec2Isabelle.thy ===== *)
theory Spec2Isabelle
  imports Relocation_Correctness Assembler_Correctness Decoder_Correctness Trampoline_Dispatch Allocator_Defects
    Hook_Defects Public_Interface Lifecycle_Correctness Record_Correctness Conditional_Branches
    Saturating_Wrapping Lock_Free_Stack Arena Register_Saving
begin

text \<open>
  A verification development for riscv64-inline-hook, a library that redirects functions of a running
  RISC-V process.

  To hook a function the library overwrites its first instructions with a jump to a trampoline. The
  overwritten instructions are decoded and relocated, so that the original function can still be
  called. The parts below \<open>src/\<close> and the theories that model them:

  \<^item> \<open>Prelude\<close>: machine words at their width, faults as values of a sum type, the interface of an
    enumeration, bytes and words, and the memory of the process as a byte at every address.

  \<^item> \<open>external/berberis/include/berberis/decoder/riscv64/decoder.h\<close>, the instruction decoder.
    \<open>Decoder_Opcodes\<close>, \<open>Decoder_Vector_Opcodes_A\<close>, \<open>Decoder_Vector_Opcodes_B\<close> hold its enumerations,
    a datatype \<open>E\<close> each with \<open>E_of\<close>, the cast from the underlying integer, and \<open>E_val\<close>, its inverse;
    \<open>Decoder_Args\<close>, \<open>Decoder_Vector_Args\<close> the argument records; \<open>Decoder_Calls\<close> the calls of the
    consumer and the extraction of bit fields; \<open>Decoder_Compressed\<close>, \<open>Decoder_Base\<close>, \<open>Decoder\<close> the
    methods \<open>Decode...\<close>, each a function from the instruction word to the list of the calls it makes.
    \<open>Decoder_Immediates\<close> shows that the tables of the compressed formats are the immediates of the
    manual; \<open>Decoder_Registers\<close> shows that every register number in an argument is below 32, and
    \<open>Decoder_Correctness\<close> states this and the number of calls.

  \<^item> \<open>external/berberis/include/berberis/assembler/\<close> and \<open>external/berberis/src/assembler/\<close>, the
    assembler. \<open>Assembler_Immediates\<close> has the immediate classes, \<open>Assembler\<close> the machine code, labels,
    the emission of the instructions that the library uses and the resolution of jumps.
    \<open>Assembler_Layout\<close> shows what bytes are appended and patched, \<open>Instruction_Roundtrip\<close> that the
    decoder reads back the words of the relocator, \<open>Assembler_Correctness\<close> states the properties.
    \<open>Assembler_Instructions\<close> has the other instructions of the generated files, overloads told apart by
    a suffix, and \<open>Assembler_Macros\<close> the functions of \<open>riscv.h\<close> and \<open>rv64.h\<close> written in terms of them.
    \<open>Assembler_Decoding\<close> computes the fields of a word in each format; \<open>Assembler_Roundtrip\<close> lists the
    instructions with their opcodes and proves for each that the decoder inverts it. \<open>Load_Constant\<close> is
    \<open>Li\<close> with what its code computes, \<open>Conditional_Branches\<close> the conditions and the code of \<open>Bcc\<close>, both
    run on the machine of \<open>Machine\<close>.

  \<^item> \<open>external/berberis/include/berberis/base/\<close>, what the assembler rests on. \<open>Bit_Util\<close> has alignment and
    the counting of bits, \<open>Saturating_Wrapping\<close> the two kinds of integers of \<open>bit_util.h\<close> against the exact
    arithmetic; \<open>Pointer_And_Counter\<close> the tagged pointer and \<open>Lock_Free_Stack\<close> the stack made with it, as
    a step relation over the accesses of its threads whose runs simulate a list of nodes, unless the
    counter comes round while a thread sleeps in \<open>Pop\<close>; \<open>Arena\<close> the arena
    allocator over the pool of mappings, with the memory it has handed out as a list of disjoint regions.

  \<^item> \<open>src/arch/riscv64/riscv64_relocator.h\<close>, the relocator. \<open>Relocator\<close> has the state and every method
    of \<open>RV64Relocator\<close>. \<open>Relocation_Blocks\<close> is the specification of its output, one block per
    instruction; \<open>Relocation_Refinement\<close> proves that the code implements it; \<open>Machine\<close> gives the
    meaning of the instructions involved; \<open>Relocation_Semantics\<close> proves that rewritten blocks do what
    the original instructions do; \<open>Relocation_Correctness\<close> states the properties, for rewritten and for
    copied instructions, with \<open>auipc x0\<close> as the exception.

  \<^item> \<open>src/core/logger.cc\<close>: \<open>Logger\<close>. \<open>src/libc/memcpy_generic.cc\<close>: \<open>Libc_Memcpy\<close>.

  \<^item> \<open>Memory::Copy\<close> of \<open>src/core/memory.cc\<close> and \<open>src/core/scoped_rwx_memory.cc\<close>: \<open>Memory_Access\<close>, with
    the interface \<open>memory_copy\<close> of a copy routine, which the generic one implements.

  \<^item> \<open>src/arch/riscv64/riscv64_support.cc\<close>, the trampolines: \<open>Trampoline\<close>. \<open>Trampoline_Correctness\<close>
    runs the written jumps on the machine of \<open>Machine\<close>, \<open>Trampoline_Dispatch\<close> the code of the second
    trampoline up to its decision where a call goes.

  \<^item> \<open>src/core/memory.cc\<close>, the allocator for executable memory. \<open>Chunk_Table\<close> has the bitmap of chunks and
    its search; \<open>Memory_Allocator\<close> the headers, the heaps, both lists of allocators, the gap between
    the mappings of the process and every operation; \<open>Allocator_Blocks\<close> the well-formedness
    \<open>allocator_ok\<close> and the blocks in use; \<open>Allocator_Operations\<close> and \<open>Allocator_Correctness\<close> show that
    every operation but \<open>Realloc\<close> keeps them, \<open>Allocator_Defects\<close> where the code does not do what it
    means to.

  \<^item> \<open>src/core/hook_handle.cc\<close>, \<open>src/core/hook_locker.cc\<close>: \<open>Library_State\<close> is the state of the whole
    library (the heap, both kinds of objects as stores of addresses, the two maps, the last error and
    the depth of the lock) with the access to a deleted object as a fault; \<open>Hook_Handles\<close> has every
    method of \<open>HookInfo\<close>, \<open>HookHandleExt\<close> and \<open>HookHandle\<close>. \<open>Hook_Scopes\<close> is about writing the data of
    a trampoline, \<open>Hook_Chain\<close> the abstract view of a hooked function, the list of its handles
    (\<open>hooked\<close>); \<open>Hook_Installation\<close> and \<open>Hook_Removal\<close> show what the methods do to that list,
    \<open>Hook_Steps\<close> and \<open>Hook_Correctness\<close> the invariant of all reachable states, \<open>Hook_Defects\<close> what
    breaks it.

  \<^item> \<open>src/core/function_record.cc\<close>: \<open>Function_Records\<close>. The rest of \<open>riscv64_support.cc\<close> and the end of
    \<open>Relocate\<close>, where the code is allocated: \<open>Trampoline_Allocation\<close>. \<open>src/core/rv64hook.cc\<close>:
    \<open>Public_Interface\<close>.

  \<^item> The classes of \<open>include/rv64hook.h\<close> through which a register handler sees a call:
    \<open>Register_Context\<close> has the layout of \<open>RegisterContext\<close> as lists of its members, \<open>GetArg\<close>, \<open>SetArg\<close> and
    the return value over the memory of the context, and \<open>Args\<close>, whose assertions reject every type.
    \<open>Argument_Access\<close> states where the
    calling convention puts the arguments (\<open>locate\<close>, \<open>arguments\<close>) and shows which lists of types the
    branches behind these assertions read right, and that \<open>SetArg\<close> and \<open>GetArg\<close> are a store. \<open>Register_Saving\<close> runs the part of the
    second trampoline that writes the registers to the context before the handlers, and the part that
    reads them back and decides whether the function is called.

  \<^item> The parts together. \<open>Hook_Preparation\<close> divides the first hook of a function into its steps
    (\<open>prepared\<close>) and proves what holds after each; \<open>Hook_Lifecycle\<close> follows a function through
    \<open>InlineHook\<close> and \<open>InlineUnhook\<close>; \<open>Hook_Examples\<close> is a concrete run of both;
    \<open>Lifecycle_Correctness\<close> and \<open>Record_Correctness\<close> state the properties from end to end: a call of a
    hooked function reaches the hook, the backup is the relocated function, and removing the hook
    gives back every byte, or crashes when it empties a heap that is not the default one.

  Interfaces. A locale states what one part promises to another, and is interpreted on the model of
  the part that keeps the promise: \<open>memory_copy\<close>, a copy routine, by the generic \<open>memcpy\<close>;
  \<open>block_allocator\<close>, memory in disjoint blocks, by both ways to allocate, and \<open>two_allocators\<close>, which
  extends it; the interface of an enumeration, \<open>enum_class\<close>, by the enumerations of the decoder.

  Parameters. What is not code of the repository is an argument of the model: the system calls and
  what \<open>malloc\<close> leaves in a table (\<open>system\<close>, with the documented behaviour in \<open>system_ok\<close>: mappings are
  page-aligned and new ones are disjoint from the old ones); \<open>process_vm_readv\<close>, \<open>process_vm_writev\<close>
  and what they do to memory; \<open>operator new\<close>, thread-specific keys, custom allocators
  (\<open>environment\<close>, with \<open>new_fresh\<close> and \<open>has_memory\<close>). Whether the coming calls of \<open>libc_mprotect\<close> for the
  heaps succeed is part of the state (\<open>mprotect_answers\<close>); the code ignores their results, and the
  invariants \<open>allocator_ok\<close> and \<open>hooked\<close>, with all properties that rest on them, are for the states in
  which they succeed (\<open>protecting\<close>). The properties from end to end assume that the
  function and the variable of the user lie outside the heaps of the library (\<open>hookable\<close>,
  \<open>placed\<close>), and each is instantiated on the run of \<open>Hook_Examples\<close>.

  Bounds. Relocation is proved for prologues of at most \<open>2 ^ 27\<close> bytes (\<open>2 ^ 26\<close> for its meaning), so
  that offsets in the code stay below the 32 bits of the assembler and the reach of \<open>auipc\<close>; the
  library relocates at most 18 bytes. All recursions over the prologue end because each instruction
  has two or four bytes. The loops over the handles of a function, which have no bound in the code,
  carry \<open>kMaxHandles\<close> = 65536 as fuel: \<open>DoHook\<close> refuses the 65536th handle, the counter has 16 bits,
  and the properties show that the loops end before the fuel does. The loops over the allocators
  run over their lists. The lock-free stack is a stack in the runs in which no thread sleeps in \<open>Pop\<close> through
  as many pushes as its counter has values (\<open>timely_run\<close>); its steps have no such bound, and
  \<open>counter_wrap_breaks_stack\<close> shows what happens beyond it. A request to the arena is below \<open>2 ^ 62\<close> bytes and aligned to at
  most a page.

  What is not modelled. A consumer call stands for the virtual call of the decoder's template
  parameter. \<open>CHECK\<close> and other aborts are values of the type \<open>fault\<close>, and so is the use of a deleted
  object. System calls are inline assembly (\<open>libc/syscalls.cc\<close>) and appear as parameters; the vector
  \<open>memcpy\<close> is assembly as well. The code of the second trampoline is modelled up to the decision where
  a call goes and around the first loop over the handlers; that loop, the keeping of the return
  address and the handlers after the call are not. The operators of \<open>freg_t\<close> and the inline templates
  of the header, which cast the types of functions, are left out. The lock is
  its depth: one thread runs. The AArch64 port is a stub without behaviour, the Dobby header renames
  functions. Of \<open>berberis/base\<close> the mapping in the low addresses, \<open>exec_region\<close> and the allocators that
  nothing uses are left out, of \<open>bit_util.h\<close> the conversions and comparisons that keep the bits. The
  machine code of the assembler is a list, not memory of the arena: its allocation failure is left
  out, and so is the textual dump of code.
\<close>

end
